(* ===== verification/Prelude.thy ===== *)
theory Prelude
  imports Main "HOL-Library.Word"
begin

text \<open>
  Shared vocabulary of the development: the C integer types, the two ways a kernel
  operation can fail to return, sequencing of fallible operations, the counting
  \<open>for\<close> loop of C over machine words with its proof rules, and the lemma collections
  the component theories use.
\<close>

section \<open>Machine integers\<close>

type_synonym u8 = "8 word"
type_synonym u16 = "16 word"
type_synonym u32 = "32 word"
type_synonym u64 = "64 word"

section \<open>Failure\<close>

text \<open>
  A kernel operation either returns, or calls \<open>panic\<close> (which never returns), or touches
  memory outside the object it was given, or takes more steps than the fuel its model
  is given.
\<close>

datatype error =
    Panic string
  | BadAccess
  | OutOfFuel

definition bindE :: "error + 'a \<Rightarrow> ('a \<Rightarrow> error + 'b) \<Rightarrow> error + 'b" where
  "bindE m f = (case m of Inl e \<Rightarrow> Inl e | Inr x \<Rightarrow> f x)"

definition panic_if :: "bool \<Rightarrow> string \<Rightarrow> error + unit" where
  "panic_if c msg = (if c then Inl (Panic msg) else Inr ())"

lemma bindE_simps [simp]:
  "bindE (Inl e) f = Inl e"
  "bindE (Inr x) f = f x"
  by (simp_all add: bindE_def)

lemma bindE_Inr_iff: "bindE m f = Inr y \<longleftrightarrow> (\<exists>x. m = Inr x \<and> f x = Inr y)"
  by (cases m) auto

lemma bindE_InrE [elim!]:
  assumes "bindE m f = Inr y"
  obtains x where "m = Inr x" and "f x = Inr y"
  using assms by (auto simp: bindE_Inr_iff)

lemma bindE_assoc: "bindE (bindE m f) g = bindE m (\<lambda>x. bindE (f x) g)"
  by (cases m) simp_all

lemma panic_if_simps [simp]:
  "panic_if False msg = Inr ()"
  "panic_if True msg = Inl (Panic msg)"
  by (simp_all add: panic_if_def)

lemma panic_if_Inr_iff [simp]: "panic_if c msg = Inr u \<longleftrightarrow> \<not> c"
  by (simp add: panic_if_def)

lemma bindE_cong [fundef_cong]:
  "m = m' \<Longrightarrow> (\<And>x. m' = Inr x \<Longrightarrow> f x = g x) \<Longrightarrow> bindE m f = bindE m' g"
  by (cases m') simp_all

section \<open>The counting loop\<close>

text \<open>
  \<open>for (i = lo; i < hi; i++) body\<close> over an unsigned type. The guard keeps \<open>i\<close> strictly
  below \<open>hi\<close>, so the increment in the loop never wraps.
\<close>

lemma unat_Suc_less: "(i :: 'w::len word) < e \<Longrightarrow> unat (i + 1) = Suc (unat i)"
proof -
  assume "i < e"
  then have "unat i < unat e" by (simp add: word_less_nat_alt)
  moreover have "unat e < 2 ^ LENGTH('w)" by (rule unsigned_less)
  ultimately have "Suc (unat i) < 2 ^ LENGTH('w)" by linarith
  then show ?thesis
    by (simp add: unat_word_ariths unsigned_1)
qed

function for_up :: "('w::len word \<Rightarrow> 's \<Rightarrow> error + 's) \<Rightarrow> 'w word \<Rightarrow> 'w word \<Rightarrow> 's \<Rightarrow> error + 's"
  where
  "for_up body i e s =
     (if i < e then bindE (body i s) (\<lambda>s'. for_up body (i + 1) e s') else Inr s)"
  by pat_completeness auto
termination
proof (relation "measure (\<lambda>(body, i, e, s). unat e - unat i)")
  fix body :: "'w::len word \<Rightarrow> 's \<Rightarrow> error + 's" and i e :: "'w word" and s s' :: 's
  assume "i < e"
  then show "((body, i + 1, e, s'), (body, i, e, s)) \<in> measure (\<lambda>(body, i, e, s). unat e - unat i)"
    by (simp add: unat_Suc_less [of i e] word_less_nat_alt)
qed simp

declare for_up.simps [simp del]

lemma for_up_done [simp]: "\<not> i < e \<Longrightarrow> for_up body i e s = Inr s"
  by (simp add: for_up.simps)

lemma for_up_step: "i < e \<Longrightarrow> for_up body i e s = bindE (body i s) (for_up body (i + 1) e)"
  by (subst for_up.simps) simp

lemma less_Suc_le: "(i :: 'w::len word) < e \<Longrightarrow> i + 1 \<le> e"
  by (simp add: word_le_nat_alt word_less_nat_alt unat_Suc_less)

lemma less_less_Suc: "(i :: 'w::len word) < e \<Longrightarrow> i < i + 1"
  by (simp add: word_less_nat_alt unat_Suc_less)

lemma Suc_le_imp_le:
  assumes "(i :: 'w::len word) < e" and "i + 1 \<le> j"
  shows "i \<le> j"
  using less_le_trans [OF less_less_Suc [OF assms(1)] assms(2)] by (rule less_imp_le)

text \<open>Partial correctness: what every iteration keeps holds when the loop is left.\<close>

lemma for_up_inv:
  assumes "for_up body i e s = Inr s'" and "P i s" and "i \<le> e"
    and "\<And>j t t'. i \<le> j \<Longrightarrow> j < e \<Longrightarrow> P j t \<Longrightarrow> body j t = Inr t' \<Longrightarrow> P (j + 1) t'"
  shows "P e s'"
  using assms
proof (induction body i e s rule: for_up.induct)
  case (1 body i e s)
  show ?case
  proof (cases "i < e")
    case True
    with 1(2) obtain t where t: "body i s = Inr t" "for_up body (i + 1) e t = Inr s'"
      by (auto simp: for_up_step)
    have step: "P (i + 1) t" using 1(5) [of i s t] True 1(3) t(1) by simp
    show ?thesis
    proof (rule "1.IH" [OF True t(1) t(2) step less_Suc_le [OF True]])
      fix j u u' assume j: "i + 1 \<le> j" "j < e" "P j u" "body j u = Inr u'"
      then have "i \<le> j" using Suc_le_imp_le [OF True] by blast
      then show "P (j + 1) u'" using 1(5) j by blast
    qed
  next
    case False
    with 1 show ?thesis by auto
  qed
qed

text \<open>Total correctness: if every iteration also returns, the loop does.\<close>

lemma for_up_total:
  assumes "P i s" and "i \<le> e"
    and "\<And>j t. i \<le> j \<Longrightarrow> j < e \<Longrightarrow> P j t \<Longrightarrow> \<exists>t'. body j t = Inr t' \<and> P (j + 1) t'"
  shows "\<exists>s'. for_up body i e s = Inr s' \<and> P e s'"
  using assms
proof (induction body i e s rule: for_up.induct)
  case (1 body i e s)
  show ?case
  proof (cases "i < e")
    case True
    obtain t where t: "body i s = Inr t" "P (i + 1) t"
      using 1(4) [of i s] True 1(2) by auto
    have "\<exists>s'. for_up body (i + 1) e t = Inr s' \<and> P e s'"
    proof (rule "1.IH" [OF True t(1) t(2) less_Suc_le [OF True]])
      fix j u assume j: "i + 1 \<le> j" "j < e" "P j u"
      then have "i \<le> j" using Suc_le_imp_le [OF True] by blast
      then show "\<exists>u'. body j u = Inr u' \<and> P (j + 1) u'" using 1(4) j by blast
    qed
    with t True show ?thesis by (simp add: for_up_step)
  next
    case False
    with 1 show ?thesis by auto
  qed
qed

text \<open>A loop fails when an iteration it reaches fails.\<close>

lemma for_up_fail:
  assumes "P i s" and "i \<le> k" and "k < e"
    and "\<And>j t. i \<le> j \<Longrightarrow> j < k \<Longrightarrow> P j t \<Longrightarrow> \<exists>t'. body j t = Inr t' \<and> P (j + 1) t'"
    and "\<And>t. P k t \<Longrightarrow> body k t = Inl err"
  shows "for_up body i e s = Inl err"
  using assms
proof (induction body i e s rule: for_up.induct)
  case (1 body i e s)
  have True: "i < e" using "1.prems"(2,3) by simp
  show ?case
  proof (cases "i = k")
    case True
    then show ?thesis using "1.prems" by (simp add: for_up_step)
  next
    case False
    then have lt: "i < k" using "1.prems"(2) by simp
    obtain t where t: "body i s = Inr t" "P (i + 1) t"
      using "1.prems"(4) [of i s] lt "1.prems"(1) by auto
    have "for_up body (i + 1) e t = Inl err"
    proof (rule "1.IH" [OF True t(1) t(2) less_Suc_le [OF lt] "1.prems"(3)])
      fix j u assume j: "i + 1 \<le> j" "j < k" "P j u"
      then have "i \<le> j" using Suc_le_imp_le [OF True] by blast
      then show "\<exists>u'. body j u = Inr u' \<and> P (j + 1) u'" using "1.prems"(4) j by blast
    qed (use "1.prems"(5) in blast)
    with t True show ?thesis by (simp add: for_up_step)
  qed
qed

lemma for_up_cong_body:
  assumes "\<And>j t. i \<le> j \<Longrightarrow> j < e \<Longrightarrow> body j t = body' j t"
  shows "for_up body i e s = for_up body' i e s"
  using assms
proof (induction body i e s rule: for_up.induct)
  case (1 body i e s)
  show ?case
  proof (cases "i < e")
    case True
    have "for_up body (i + 1) e t = for_up body' (i + 1) e t" if "body i s = Inr t" for t
    proof (rule "1.IH" [OF True that])
      fix j u assume j: "i + 1 \<le> j" "j < e"
      then have "i \<le> j" using Suc_le_imp_le [OF True] by blast
      then show "body j u = body' j u" using "1.prems" j by blast
    qed
    moreover have "body i s = body' i s" using "1.prems" True by simp
    ultimately show ?thesis using True by (simp add: for_up_step bindE_def split: sum.split)
  qed simp
qed

end
