(* ===== verification/Lowlevel.thy ===== *)
theory Lowlevel
  imports Prelude
begin

text \<open>
  Interrupt masking, \<open>src/src/kernel/lowlevel.c\<close>. Critical sections nest: the kernel
  counts them in \<open>dis_int_count\<close> and unmasks the CPU's DAIF bits only when the count
  returns to zero. Every other component brackets its state changes with
  \<open>disable_interrupts\<close> and \<open>enable_interrupts\<close>, so their states extend this record.
\<close>

section \<open>State\<close>

record irq =
  dis_int_count :: u64
  daif_unmasked :: bool

section \<open>Operations\<close>

definition enable_interrupts :: "'a irq_scheme \<Rightarrow> error + 'a irq_scheme" where
  "enable_interrupts s =
     (if dis_int_count s = 0 then Inl (Panic ''irq over-enable'')
      else let s1 = s\<lparr>dis_int_count := dis_int_count s - 1\<rparr>
           in if dis_int_count s1 = 0 then Inr (s1\<lparr>daif_unmasked := True\<rparr>) else Inr s1)"

definition enable_interrupts_asserted :: "'a irq_scheme \<Rightarrow> error + 'a irq_scheme" where
  "enable_interrupts_asserted s =
     (if dis_int_count s = 0 then Inl (Panic ''irq over-enable'')
      else Inr (s\<lparr>dis_int_count := dis_int_count s - 1\<rparr>))"

definition disable_interrupts :: "'a irq_scheme \<Rightarrow> error + 'a irq_scheme" where
  "disable_interrupts s =
     (let s1 = s\<lparr>daif_unmasked := False\<rparr>;
          s2 = s1\<lparr>dis_int_count := dis_int_count s1 + 1\<rparr>
      in if dis_int_count s2 = 0 then Inl (Panic ''irq over-disable'') else Inr s2)"

section \<open>Facts\<close>

text \<open>The mask and the counter agree: interrupts are unmasked exactly at nesting depth 0.\<close>

definition irq_ok :: "'a irq_scheme \<Rightarrow> bool" where
  "irq_ok s \<longleftrightarrow> (daif_unmasked s \<longleftrightarrow> dis_int_count s = 0)"

lemma disable_interrupts_InrE:
  assumes "disable_interrupts s = Inr t"
  obtains "t = s\<lparr>dis_int_count := dis_int_count s + 1, daif_unmasked := False\<rparr>"
    and "dis_int_count t \<noteq> 0"
  using assms by (auto simp: disable_interrupts_def Let_def split: if_splits)

lemma enable_interrupts_InrE:
  assumes "enable_interrupts s = Inr t"
  obtains "t = s\<lparr>dis_int_count := dis_int_count s - 1,
                 daif_unmasked := (daif_unmasked s \<or> dis_int_count s = 1)\<rparr>"
    and "dis_int_count s \<noteq> 0"
  using assms by (auto simp: enable_interrupts_def Let_def split: if_splits)

lemma disable_interrupts_irq_ok: "disable_interrupts s = Inr t \<Longrightarrow> irq_ok t"
  by (erule disable_interrupts_InrE) (auto simp: irq_ok_def)

lemma enable_interrupts_irq_ok: "enable_interrupts s = Inr t \<Longrightarrow> irq_ok s \<Longrightarrow> irq_ok t"
  by (erule enable_interrupts_InrE) (auto simp: irq_ok_def)

lemma disable_interrupts_returns:
  "dis_int_count s \<noteq> - 1 \<Longrightarrow>
   disable_interrupts s = Inr (s\<lparr>dis_int_count := dis_int_count s + 1, daif_unmasked := False\<rparr>)"
  by (auto simp: disable_interrupts_def Let_def add_eq_0_iff2)

lemma enable_interrupts_returns:
  "dis_int_count s \<noteq> 0 \<Longrightarrow>
   enable_interrupts s = Inr (s\<lparr>dis_int_count := dis_int_count s - 1,
                 daif_unmasked := (daif_unmasked s \<or> dis_int_count s = 1)\<rparr>)"
  by (auto simp: enable_interrupts_def Let_def)

text \<open>\<open>n\<close> more critical sections can be nested before the counter wraps.\<close>

definition irq_room :: "nat \<Rightarrow> 'a irq_scheme \<Rightarrow> bool" where
  "irq_room n s \<longleftrightarrow> unat (dis_int_count s) + n < 2 ^ 64"

lemma irq_room_mono: "irq_room n s \<Longrightarrow> m \<le> n \<Longrightarrow> irq_room m s"
  by (simp add: irq_room_def)

lemma irq_room_not_max: "irq_room n s \<Longrightarrow> 0 < n \<Longrightarrow> dis_int_count s \<noteq> - 1"
  by (auto simp: irq_room_def unsigned_minus_1_eq_mask mask_eq_exp_minus_1)

lemma irq_room_Suc:
  assumes "irq_room (Suc n) s" and "dis_int_count t = dis_int_count s + 1"
  shows "irq_room n t" and "dis_int_count t \<noteq> 0"
proof -
  have "unat (dis_int_count s + 1) = Suc (unat (dis_int_count s))"
    using assms(1) by (simp add: irq_room_def unat_word_ariths)
  then show "irq_room n t" "dis_int_count t \<noteq> 0"
    using assms by (auto simp: irq_room_def)
qed

lemma irq_room_Suc_not_max: "irq_room 2 s \<Longrightarrow> dis_int_count s + 1 \<noteq> - 1"
  using irq_room_not_max [OF irq_room_Suc(1) [of 1 s "s\<lparr>dis_int_count := dis_int_count s + 1\<rparr>"]]
  by (simp add: numeral_2_eq_2)

end
