(* ===== verification/Phys.thy ===== *)
theory Phys
  imports Lowlevel
begin

unbundle bit_operations_syntax

text \<open>
  The physical page allocator, \<open>src/src/kernel/mm.c\<close> lines 27-38 and 614-901.
  Every 16K page of RAM has a 32-bit entry in \<open>ppage_list\<close> whose low 24 bits are its
  reference count: 0 is free, \<open>0xffffff\<close> is wired. The free pages form a doubly linked
  list threaded through their own first two words, headed by \<open>pa_head\<close>.

  Physical memory is a map from the physical address of an 8-byte cell to its content;
  \<open>ld\<close> and \<open>st\<close> access it through the cacheable view, as \<open>phystokv\<close> pointers do. An index
  beyond the array \<open>ppage_list\<close> is a \<open>BadAccess\<close>.
\<close>

section \<open>Constants and state\<close>

definition kCacheableView :: u64 where "kCacheableView = 0x400000000"
definition PAGE_SIZE :: u64 where "PAGE_SIZE = 0x4000"
definition PAGE_FREE :: u32 where "PAGE_FREE = 0"
definition PAGE_WIRED :: u32 where "PAGE_WIRED = 0xffffff"
definition PAGE_REFBITS :: u32 where "PAGE_REFBITS = 0xffffff"

record phys = irq +
  physBase :: u64
  memSize :: u64
  topOfKernelData :: u64
  early_heap_base :: u64
  autoboot_block :: u64
  ppage_list :: "u32 list"
  ppages :: u64
  free_pages :: u64
  wired_pages :: u64
  alloc_static_base :: u64
  alloc_static_current :: u64
  alloc_static_end :: u64
  pa_head :: u64
  pmem :: "u64 \<Rightarrow> u64"

section \<open>Address translation and memory access\<close>

definition phystokv :: "u64 \<Rightarrow> u64" where
  "phystokv paddr = paddr - 0x800000000 + kCacheableView"

definition vatophys_static :: "u64 \<Rightarrow> error + u64" where
  "vatophys_static kva =
     (if \<not> (kva \<ge> kCacheableView \<and> kva < kCacheableView + 0x100000000)
      then Inl (Panic ''vatophys_static must be called on kCacheableView map addresses'')
      else Inr (kva - kCacheableView + 0x800000000))"

definition ld :: "'a phys_scheme \<Rightarrow> u64 \<Rightarrow> u64" where
  "ld s kva = pmem s (kva - kCacheableView + 0x800000000)"

definition st :: "u64 \<Rightarrow> u64 \<Rightarrow> 'a phys_scheme \<Rightarrow> 'a phys_scheme" where
  "st kva v s = s\<lparr>pmem := (pmem s)(kva - kCacheableView + 0x800000000 := v)\<rparr>"

text \<open>\<open>bzero(kva, n)\<close> and \<open>memcpy(dst, src, n)\<close> at 8-aligned addresses. Only the low
  \<open>n mod 8\<close> bytes of a last partial cell change (the machine is little-endian).\<close>

definition low_bytes :: "u64 \<Rightarrow> u64" where
  "low_bytes k = mask (8 * unat k)"

definition bzero :: "u64 \<Rightarrow> u64 \<Rightarrow> 'a phys_scheme \<Rightarrow> 'a phys_scheme" where
  "bzero kva n s =
     (let dst = kva - kCacheableView + 0x800000000
      in s\<lparr>pmem := (\<lambda>a. let off = a - dst in
             if off \<ge> n then pmem s a
             else if n - off \<ge> 8 then 0
             else pmem s a AND NOT (low_bytes (n - off)))\<rparr>)"

definition memcpy :: "u64 \<Rightarrow> u64 \<Rightarrow> u64 \<Rightarrow> 'a phys_scheme \<Rightarrow> 'a phys_scheme" where
  "memcpy kdst ksrc n s =
     (let dst = kdst - kCacheableView + 0x800000000;
          src = ksrc - kCacheableView + 0x800000000
      in s\<lparr>pmem := (\<lambda>a. let off = a - dst in
             if off \<ge> n then pmem s a
             else if n - off \<ge> 8 then pmem s (src + off)
             else (pmem s (src + off) AND low_bytes (n - off)) OR (pmem s a AND NOT (low_bytes (n - off))))\<rparr>)"

definition read_entry :: "'a phys_scheme \<Rightarrow> u64 \<Rightarrow> error + u32" where
  "read_entry s i = (if unat i < length (ppage_list s) then Inr (ppage_list s ! unat i) else Inl BadAccess)"

definition write_entry :: "u64 \<Rightarrow> u32 \<Rightarrow> 'a phys_scheme \<Rightarrow> error + 'a phys_scheme" where
  "write_entry i v s =
     (if unat i < length (ppage_list s) then Inr (s\<lparr>ppage_list := (ppage_list s)[unat i := v]\<rparr>)
      else Inl BadAccess)"

section \<open>Page entries\<close>

definition phys_get_entry :: "'a phys_scheme \<Rightarrow> u64 \<Rightarrow> error + u32" where
  "phys_get_entry s pa0 =
     (let pa = pa0 - physBase s in
      if pa AND 0x3fff \<noteq> 0 then Inl (Panic ''phys_get_entry only works with aligned PAs'')
      else let i = drop_bit 14 pa in
      if i > ppages s then Inl (Panic ''OOB phys_get_entry'')
      else read_entry s i)"

definition phys_set_entry :: "u64 \<Rightarrow> u32 \<Rightarrow> 'a phys_scheme \<Rightarrow> error + 'a phys_scheme" where
  "phys_set_entry pa0 val s =
     (let pa = pa0 - physBase s in
      if pa AND 0x3fff \<noteq> 0 then Inl (Panic ''phys_get_entry only works with aligned PAs'')
      else let i = drop_bit 14 pa in
      if i > ppages s then Inl (Panic ''OOB phys_set_entry'')
      else write_entry i val s)"

text \<open>The physical address of page \<open>i\<close>: \<open>(i << 14ULL) + gBootArgs->physBase\<close>.\<close>

definition page_pa :: "'a phys_scheme \<Rightarrow> u64 \<Rightarrow> u64" where
  "page_pa s i = push_bit 14 i + physBase s"

section \<open>The free list\<close>

text \<open>One iteration of \<open>phys_unlink_contiguous\<close>: take page \<open>i\<close> out of the doubly linked
  free list, checking that it and its neighbours are free.\<close>

definition unlink_page :: "u64 \<Rightarrow> 'a phys_scheme \<Rightarrow> error + 'a phys_scheme" where
  "unlink_page i s =
     bindE (panic_if (i > ppages s) ''OOB phys_unlink_contiguous'') (\<lambda>_.
     let pa_v = phystokv (page_pa s i) in
     bindE (phys_get_entry s (page_pa s i)) (\<lambda>e.
     bindE (panic_if (e AND PAGE_REFBITS \<noteq> PAGE_FREE) ''phys_unlink_contiguous: ppage is not free!'') (\<lambda>_.
     let pa_next = ld s pa_v; pa_prev = ld s (pa_v + 8) in
     bindE (if pa_next \<noteq> 0 then
              bindE (phys_get_entry s pa_next) (\<lambda>en.
              bindE (panic_if (en AND PAGE_REFBITS \<noteq> PAGE_FREE)
                       ''phys_unlink_contiguous: ppage (next) is not free!'') (\<lambda>_.
              Inr (st (phystokv pa_next + 8) pa_prev s)))
            else Inr s) (\<lambda>s.
     if pa_prev \<noteq> 0 then
       bindE (phys_get_entry s pa_prev) (\<lambda>ep.
       bindE (panic_if (ep AND PAGE_REFBITS \<noteq> PAGE_FREE)
                ''phys_unlink_contiguous: ppage (prev) is not free!'') (\<lambda>_.
       Inr (st (phystokv pa_prev) pa_next s)))
     else Inr (s\<lparr>pa_head := pa_next\<rparr>)))))"

definition phys_unlink_contiguous :: "u64 \<Rightarrow> u64 \<Rightarrow> 'a phys_scheme \<Rightarrow> error + 'a phys_scheme" where
  "phys_unlink_contiguous pa0 sz0 s =
     (if pa0 = 0 then Inr s
      else if pa0 < physBase s then Inr s
      else let pa = pa0 - physBase s;
               sz = (sz0 + 0x3fff) AND NOT 0x3fff;
               fpages = drop_bit 14 sz
      in bindE (panic_if (pa AND 0x3fff \<noteq> 0) ''phys_unlink_contiguous only works with aligned PAs'') (\<lambda>_.
         let pa = drop_bit 14 pa in
         bindE (disable_interrupts s) (\<lambda>s.
         bindE (for_up unlink_page pa (pa + fpages) s) enable_interrupts)))"

definition phys_page_was_freed :: "u64 \<Rightarrow> 'a phys_scheme \<Rightarrow> error + 'a phys_scheme" where
  "phys_page_was_freed pa s =
     bindE (disable_interrupts s) (\<lambda>s.
     let pa_v = phystokv pa;
         s = (if pa_head s \<noteq> 0 then st (phystokv (pa_head s) + 8) pa s else s);
         s = st pa_v (pa_head s) s;
         s = st (pa_v + 8) 0 s;
         s = s\<lparr>pa_head := pa\<rparr>;
         s = s\<lparr>free_pages := free_pages s + 1\<rparr>
     in enable_interrupts s)"

section \<open>Reference counts\<close>

definition wire_page :: "u64 \<Rightarrow> 'a phys_scheme \<Rightarrow> error + 'a phys_scheme" where
  "wire_page i s =
     bindE (phys_get_entry s (page_pa s i)) (\<lambda>e.
     bindE (panic_if (e AND PAGE_REFBITS \<noteq> PAGE_FREE) ''mark_phys_wired: ppage is not free!'') (\<lambda>_.
     bindE (panic_if (i > ppages s) ''OOB mark_phys_wired'') (\<lambda>_.
     bindE (read_entry s i) (\<lambda>v.
     bindE (write_entry i ((v AND NOT PAGE_REFBITS) OR PAGE_WIRED) s) (\<lambda>s.
     Inr (s\<lparr>free_pages := free_pages s - 1, wired_pages := wired_pages s + 1\<rparr>))))))"

definition mark_phys_wired :: "u64 \<Rightarrow> u64 \<Rightarrow> 'a phys_scheme \<Rightarrow> error + 'a phys_scheme" where
  "mark_phys_wired pa0 sz s =
     (let pa = pa0 - physBase s; fpages = drop_bit 14 sz in
      bindE (panic_if (pa AND 0x3fff \<noteq> 0) ''mark_phys_wired only works with aligned PAs'') (\<lambda>_.
      let pa = drop_bit 14 pa in
      bindE (disable_interrupts s) (\<lambda>s.
      bindE (for_up wire_page pa (pa + fpages) s) enable_interrupts)))"

definition force_free_page :: "u64 \<Rightarrow> 'a phys_scheme \<Rightarrow> error + 'a phys_scheme" where
  "force_free_page i s =
     bindE (panic_if (i > ppages s) ''OOB phys_force_free'') (\<lambda>_.
     bindE (read_entry s i) (\<lambda>v.
     let s = (if v AND PAGE_REFBITS = PAGE_WIRED then s\<lparr>wired_pages := wired_pages s - 1\<rparr> else s) in
     bindE (if v AND PAGE_REFBITS \<noteq> PAGE_FREE then phys_page_was_freed (page_pa s i) s else Inr s) (\<lambda>s.
     write_entry i PAGE_FREE s)))"

definition phys_force_free :: "u64 \<Rightarrow> u64 \<Rightarrow> 'a phys_scheme \<Rightarrow> error + 'a phys_scheme" where
  "phys_force_free pa0 sz s =
     (let pa = pa0 - physBase s; fpages = drop_bit 14 sz in
      bindE (panic_if (pa AND 0x3fff \<noteq> 0) ''phys_force_free only works with aligned PAs'') (\<lambda>_.
      let pa = drop_bit 14 pa in
      bindE (disable_interrupts s) (\<lambda>s.
      bindE (for_up force_free_page pa (pa + fpages) s) enable_interrupts)))"

definition reference_page :: "u64 \<Rightarrow> 'a phys_scheme \<Rightarrow> error + 'a phys_scheme" where
  "reference_page i s =
     bindE (panic_if (i > ppages s) ''OOB phys_reference'') (\<lambda>_.
     bindE (read_entry s i) (\<lambda>v.
     if v AND PAGE_REFBITS \<noteq> PAGE_WIRED then
       let s = (if v AND PAGE_REFBITS = PAGE_FREE then s\<lparr>free_pages := free_pages s - 1\<rparr> else s)
       in write_entry i ((v AND NOT PAGE_REFBITS) OR ((v + 1) AND PAGE_REFBITS)) s
     else Inr s))"

definition phys_reference :: "u64 \<Rightarrow> u64 \<Rightarrow> 'a phys_scheme \<Rightarrow> error + 'a phys_scheme" where
  "phys_reference pa0 sz s =
     (if pa0 = 0 then Inr s
      else if pa0 < physBase s then Inr s
      else let pa = pa0 - physBase s; fpages = drop_bit 14 sz in
      bindE (panic_if (pa AND 0x3fff \<noteq> 0) ''phys_reference only works with aligned PAs'') (\<lambda>_.
      let pa = drop_bit 14 pa in
      bindE (disable_interrupts s) (\<lambda>s.
      bindE (for_up reference_page pa (pa + fpages) s) enable_interrupts)))"

definition dereference_page :: "u64 \<Rightarrow> 'a phys_scheme \<Rightarrow> error + 'a phys_scheme" where
  "dereference_page i s =
     bindE (panic_if (i > ppages s) ''OOB phys_dereference'') (\<lambda>_.
     bindE (read_entry s i) (\<lambda>v.
     if v AND PAGE_REFBITS \<noteq> PAGE_FREE then
       bindE (write_entry i ((v AND NOT PAGE_REFBITS) OR ((v - 1) AND PAGE_REFBITS)) s) (\<lambda>s.
       bindE (read_entry s i) (\<lambda>v.
       if v AND PAGE_REFBITS = PAGE_FREE then phys_page_was_freed (page_pa s i) s else Inr s))
     else Inl (Panic ''phys_dereference called on PAGE_FREE page'')))"

definition phys_dereference :: "u64 \<Rightarrow> u64 \<Rightarrow> 'a phys_scheme \<Rightarrow> error + 'a phys_scheme" where
  "phys_dereference pa0 sz s =
     (if pa0 = 0 then Inr s
      else if pa0 < physBase s then Inr s
      else let pa = pa0 - physBase s; fpages = drop_bit 14 sz in
      bindE (panic_if (pa AND 0x3fff \<noteq> 0) ''phys_dereference only works with aligned PAs'') (\<lambda>_.
      let pa = drop_bit 14 pa in
      bindE (disable_interrupts s) (\<lambda>s.
      bindE (for_up dereference_page pa (pa + fpages) s) enable_interrupts)))"

section \<open>Initialisation\<close>

text \<open>
  The last line of the heap computation is written in C as
  \<open>(end + 0x3fff) & (~0x3fff) - 1024*1024\<close>. Subtraction binds tighter than \<open>&\<close>, so the
  mask is \<open>~0x3fff - 0x100000\<close>.
\<close>

definition alloc_heap_end :: "'a phys_scheme \<Rightarrow> u64" where
  "alloc_heap_end s = (phystokv (physBase s) + memSize s + 0x3fff) AND (NOT 0x3fff - 1024 * 1024)"

definition autoboot_magic :: u64 where "autoboot_magic = 0x746F6F626F747561"

text \<open>The \<open>AUTOBOOT\<close> block: a payload left by the loader is moved to the early heap.\<close>

definition claim_autoboot :: "u64 \<Rightarrow> 'a phys_scheme \<Rightarrow> 'a phys_scheme \<times> u64" where
  "claim_autoboot early_heap s =
     (let blk = 0x419000000 in
      if ld s blk = autoboot_magic then
        let s = s\<lparr>autoboot_block := early_heap\<rparr>;
            s = memcpy early_heap blk (ld s (blk + 8) + 0x20) s;
            early_heap = early_heap + (ld s (blk + 8) + 0x20);
            early_heap = (early_heap + 0x3fff) AND NOT 0x3fff;
            s = bzero blk (ld s (blk + 8) + 0x20) s
        in (s, early_heap)
      else (s, early_heap))"

text \<open>The page array follows on the early heap, every page wired.\<close>

definition claim_page_array :: "u64 \<Rightarrow> 'a phys_scheme \<Rightarrow> 'a phys_scheme \<times> u64" where
  "claim_page_array early_heap s =
     (let early_heap = early_heap + 4 * ppages s;
          early_heap = (early_heap + 0x3fff) AND NOT 0x3fff
      in (s\<lparr>wired_pages := wired_pages s + ppages s,
            ppage_list := replicate (unat (ppages s)) PAGE_WIRED\<rparr>, early_heap))"

text \<open>The static region takes at most 64MB; its tail and the heap go to the free list.\<close>

definition carve_regions :: "u64 \<Rightarrow> 'a phys_scheme \<Rightarrow> error + 'a phys_scheme" where
  "carve_regions early_heap s =
     (let base = (kCacheableView - 0x800000000 + topOfKernelData s) AND NOT 0x3fff;
          s = s\<lparr>alloc_static_base := base, alloc_static_current := base,
                alloc_static_end := 0x417fe0000\<rparr>;
          hardcap = alloc_static_base s + 1024 * 1024 * 64
      in bindE (if alloc_static_end s > hardcap then
                  bindE (vatophys_static hardcap) (\<lambda>pa.
                  bindE (phys_force_free pa (alloc_static_end s - hardcap) s) (\<lambda>s.
                  Inr (s\<lparr>alloc_static_end := hardcap\<rparr>)))
                else Inr s) (\<lambda>s.
         let alloc_heap_base = (early_heap + 0x7fff) AND NOT 0x3fff in
         bindE (vatophys_static alloc_heap_base) (\<lambda>pa.
         phys_force_free pa (alloc_heap_end s - alloc_heap_base) s)))"

definition alloc_init :: "'a phys_scheme \<Rightarrow> error + 'a phys_scheme" where
  "alloc_init s =
     (if alloc_static_base s \<noteq> 0 then Inr s
      else
        let s = s\<lparr>ppages := drop_bit 14 (memSize s)\<rparr>;
            (s, early_heap) = claim_autoboot (early_heap_base s) s;
            (s, early_heap) = claim_page_array early_heap s
        in carve_regions early_heap s)"

section \<open>Allocation\<close>

definition ppage_alloc :: "'a phys_scheme \<Rightarrow> error + (u64 \<times> 'a phys_scheme)" where
  "ppage_alloc s =
     bindE (disable_interrupts s) (\<lambda>s.
     bindE (if alloc_static_base s = 0 then alloc_init s else Inr s) (\<lambda>s.
     if pa_head s \<noteq> 0 then
       let rv = pa_head s;
           rv_v = phystokv rv;
           s = s\<lparr>pa_head := ld s rv_v\<rparr>;
           s = (if pa_head s \<noteq> 0 then st (phystokv (pa_head s) + 8) 0 s else s);
           s = bzero rv_v PAGE_SIZE s
       in bindE (phys_reference rv PAGE_SIZE s) (\<lambda>s.
          bindE (enable_interrupts s) (\<lambda>s. Inr (rv, s)))
     else Inl (Panic ''ppage_alloc: OOM'')))"

definition page_alloc :: "'a phys_scheme \<Rightarrow> error + (u64 \<times> 'a phys_scheme)" where
  "page_alloc s = bindE (ppage_alloc s) (\<lambda>(pa, s). Inr (phystokv pa, s))"

definition ppage_free :: "u64 \<Rightarrow> 'a phys_scheme \<Rightarrow> error + 'a phys_scheme" where
  "ppage_free page s = phys_dereference page PAGE_SIZE s"

definition page_free :: "u64 \<Rightarrow> 'a phys_scheme \<Rightarrow> error + 'a phys_scheme" where
  "page_free page s = bindE (vatophys_static page) (\<lambda>pa. phys_dereference pa PAGE_SIZE s)"

definition alloc_static :: "u32 \<Rightarrow> 'a phys_scheme \<Rightarrow> error + (u64 \<times> 'a phys_scheme)" where
  "alloc_static sz s =
     bindE (if alloc_static_base s = 0 then alloc_init s else Inr s) (\<lambda>s.
     let rv = alloc_static_current s;
         rounded = ucast ((sz + 0x3fff) AND NOT 0x3fff :: u32);
         s = s\<lparr>alloc_static_current := alloc_static_current s + rounded\<rparr>
     in if alloc_static_current s > alloc_static_end s then Inl (Panic ''ran out of static region'')
        else Inr (rv, s\<lparr>topOfKernelData := topOfKernelData s + rounded\<rparr>))"

text \<open>The first-fit scan of \<open>alloc_phys\<close>: \<open>None\<close> when the loop ends without a run of
  \<open>npages\<close> free pages, otherwise the value of \<open>rv\<close> at the \<open>break\<close>.\<close>

function alloc_phys_scan :: "'a phys_scheme \<Rightarrow> u32 \<Rightarrow> u64 \<Rightarrow> u32 \<Rightarrow> u64 \<Rightarrow> error + u64 option" where
  "alloc_phys_scan s npages i found_pages rv =
     (if i < ppages s then
        bindE (read_entry s i) (\<lambda>v.
        let (rv, found_pages) =
              (if v = PAGE_FREE
               then (if found_pages = 0 then page_pa s i else rv, found_pages + 1)
               else (rv, 0))
        in if found_pages = npages then Inr (Some rv)
           else alloc_phys_scan s npages (i + 1) found_pages rv)
      else Inr None)"
  by pat_completeness auto
termination
  by (relation "measure (\<lambda>(s, npages, i, found_pages, rv). unat (ppages s) - unat i)")
     (auto simp: unat_Suc_less word_less_nat_alt)

declare alloc_phys_scan.simps [simp del]

definition alloc_phys :: "u32 \<Rightarrow> 'a phys_scheme \<Rightarrow> error + (u64 \<times> 'a phys_scheme)" where
  "alloc_phys sz0 s =
     bindE (if alloc_static_base s = 0 then alloc_init s else Inr s) (\<lambda>s.
     let sz = (sz0 + 0x3fff) AND NOT 0x3fff;
         npages = sz div 0x4000
     in bindE (disable_interrupts s) (\<lambda>s.
        if ucast sz = PAGE_SIZE then
          bindE (ppage_alloc s) (\<lambda>(rv, s).
          bindE (enable_interrupts s) (\<lambda>s. Inr (rv, s)))
        else
          bindE (alloc_phys_scan s npages 0 0 0) (\<lambda>found.
          case found of None \<Rightarrow> Inl (Panic ''alloc_phys: OOM'')
          | Some rv \<Rightarrow>
              bindE (panic_if (rv = 0) ''alloc_phys: returning NULL??'') (\<lambda>_.
              bindE (phys_unlink_contiguous rv (ucast sz) s) (\<lambda>s.
              bindE (phys_reference rv (ucast sz) s) (\<lambda>s.
              bindE (enable_interrupts s) (\<lambda>s. Inr (rv, s))))))))"

definition free_phys :: "u64 \<Rightarrow> u32 \<Rightarrow> 'a phys_scheme \<Rightarrow> error + 'a phys_scheme" where
  "free_phys pa sz s = phys_dereference pa (ucast sz) s"

definition alloc_contig :: "u32 \<Rightarrow> 'a phys_scheme \<Rightarrow> error + (u64 \<times> 'a phys_scheme)" where
  "alloc_contig sz s = bindE (alloc_phys sz s) (\<lambda>(pa, s). Inr (phystokv pa, s))"

definition free_contig :: "u64 \<Rightarrow> u32 \<Rightarrow> 'a phys_scheme \<Rightarrow> error + 'a phys_scheme" where
  "free_contig base sz s = bindE (vatophys_static base) (\<lambda>pa. free_phys pa sz s)"

end
