(* ===== verification/Vm.thy ===== *)
theory Vm
  imports Phys
begin

unbundle bit_operations_syntax

text \<open>
  Virtual memory, \<open>src/src/kernel/mm.c\<close>: translation-table pages and their free list, the
  table walk that installs mappings, address spaces with their page bitmap, address space
  identifiers, page faults and the JIT mappings.

  A \<open>struct vm_space *\<close> is a handle; \<open>spaces\<close> maps the live handles to their structures.
  Translation tables are read and written at their physical addresses. Every \<open>TLBI\<close>
  instruction appends its operand to \<open>tlbi\<close>. \<open>is_16k_v\<close> stands for the CPU's page size
  wherever the code asks for it, by \<open>is_16k()\<close> or by its cached copy.
\<close>

section \<open>Constants and state\<close>

definition VM_SPACE_SIZE :: u64 where "VM_SPACE_SIZE = 0x100000000"
definition VM_SPACE_BASE :: u64 where "VM_SPACE_BASE = 0xFFFFFFFE00000000"
definition PAGING_INFO_ALLOC_ON_FAULT_MAGIC :: u64 where "PAGING_INFO_ALLOC_ON_FAULT_MAGIC = 0x00000000efef0008"
definition TASK_REFCOUNT_GLOBAL :: u32 where "TASK_REFCOUNT_GLOBAL = 0x7fffffff"

definition VM_FLAGS_FIXED :: u32 where "VM_FLAGS_FIXED = 1"
definition VM_FLAGS_NOMAP :: u32 where "VM_FLAGS_NOMAP = 2"

definition PROT_READ :: u32 where "PROT_READ = 1"
definition PROT_WRITE :: u32 where "PROT_WRITE = 2"
definition PROT_EXEC :: u32 where "PROT_EXEC = 4"
definition PROT_KERN_ONLY :: u32 where "PROT_KERN_ONLY = 8"
definition PROT_DEVICE :: u32 where "PROT_DEVICE = 16"
definition PROT_PAGING_INFO :: u32 where "PROT_PAGING_INFO = 32"

definition has :: "u32 \<Rightarrow> u32 \<Rightarrow> bool" where "has prot p \<longleftrightarrow> prot AND p \<noteq> 0"

datatype err = KERN_SUCCESS | KERN_FAILURE | KERN_VM_OOM

record vm_space =
  ttbr0 :: u64
  ttbr1 :: u64
  vm_space_base :: u64
  vm_space_end :: u64
  vm_space_table :: "u8 list"
  vm_refcount :: u32
  vm_parent :: u64
  asid :: u64

text \<open>The handle of the global \<open>kernel_vm_space\<close>; \<open>NULL\<close> is 0.\<close>

definition kernel_vm_space :: u64 where "kernel_vm_space = 1"

record vmm = phys +
  ttb_freelist :: u64
  ttb_alloc_base :: u64
  ttb_alloc_is_early :: bool
  is_16k_v :: bool
  tt_bits :: u64
  t0sz :: u64
  t1sz :: u64
  tlbi :: "u64 list"
  asid_table :: "u8 list"
  spaces :: "u64 \<Rightarrow> vm_space option"
  linear_kvm_cursor :: u64
  linear_kvm_end :: u64
  paging_requests :: u64
  kttbr0 :: u64
  kttbr1 :: u64
  ram_phys_off :: u64
  ram_phys_size :: u64
  g_phys_off :: u64
  gPongoSlide :: u64

definition get_space :: "u64 \<Rightarrow> 'a vmm_scheme \<Rightarrow> error + vm_space" where
  "get_space h s = (case spaces s h of None \<Rightarrow> Inl BadAccess | Some sp \<Rightarrow> Inr sp)"

definition put_space :: "u64 \<Rightarrow> vm_space \<Rightarrow> 'a vmm_scheme \<Rightarrow> 'a vmm_scheme" where
  "put_space h sp s = s\<lparr>spaces := (spaces s)(h \<mapsto> sp)\<rparr>"

section \<open>Translation-table pages\<close>

definition ttbpage_free :: "u64 \<Rightarrow> 'a vmm_scheme \<Rightarrow> error + 'a vmm_scheme" where
  "ttbpage_free page s =
     bindE (disable_interrupts s) (\<lambda>s.
     let ttbp = phystokv page;
         s = st ttbp (ttb_freelist s) s;
         s = s\<lparr>ttb_freelist := ttbp\<rparr>
     in enable_interrupts s)"

definition ttb_page_bytes :: "'a vmm_scheme \<Rightarrow> u64" where
  "ttb_page_bytes s = (if is_16k_v s then 0x4000 else 0x1000)"

definition ttbpage_alloc :: "'a vmm_scheme \<Rightarrow> error + (u64 \<times> 'a vmm_scheme)" where
  "ttbpage_alloc s =
     bindE (disable_interrupts s) (\<lambda>s.
     if ttb_freelist s \<noteq> 0 then
       let page = ttb_freelist s;
           s = s\<lparr>ttb_freelist := ld s page\<rparr>
       in bindE (enable_interrupts s) (\<lambda>s.
          let s = bzero page (ttb_page_bytes s) s
          in bindE (vatophys_static page) (\<lambda>pa. Inr (pa, s)))
     else
       bindE (enable_interrupts s) (\<lambda>s.
       if is_16k_v s then ppage_alloc s
       else bindE (ppage_alloc s) (\<lambda>(page, s).
            bindE (ttbpage_free (page + 0x1000) s) (\<lambda>s.
            bindE (ttbpage_free (page + 0x2000) s) (\<lambda>s.
            bindE (ttbpage_free (page + 0x3000) s) (\<lambda>s.
            Inr (page, s)))))))"

text \<open>Before the MMU is on, tables come from below the kernel image.\<close>

definition ttb_alloc_early :: "'a vmm_scheme \<Rightarrow> u64 \<times> 'a vmm_scheme" where
  "ttb_alloc_early s =
     (let pgsz = push_bit (unat (tt_bits s + 3)) 1;
          s = s\<lparr>ttb_alloc_base := ttb_alloc_base s - pgsz\<rparr>;
          rv = ttb_alloc_base s
      in (rv, bzero (phystokv rv) pgsz s))"

definition ttb_alloc :: "'a vmm_scheme \<Rightarrow> error + (u64 \<times> 'a vmm_scheme)" where
  "ttb_alloc s = (if ttb_alloc_is_early s then Inr (ttb_alloc_early s) else ttbpage_alloc s)"

section \<open>Translation-table entries\<close>

definition tte_valid :: "u64 \<Rightarrow> bool" where "tte_valid t \<longleftrightarrow> bit t 0"
definition tte_table :: "u64 \<Rightarrow> bool" where "tte_table t \<longleftrightarrow> bit t 1"
definition tte_oa :: "u64 \<Rightarrow> u64" where "tte_oa t = take_bit 36 (drop_bit 12 t)"

definition table_tte :: "u64 \<Rightarrow> u64" where
  "table_tte newtt = 3 OR push_bit 12 (take_bit 36 (drop_bit 12 newtt))"

definition paging_tte :: "u64 \<Rightarrow> u64" where
  "paging_tte info = (info AND NOT 1) OR 2"

definition block_tte :: "bool \<Rightarrow> u64 \<Rightarrow> u64 \<Rightarrow> u64 \<Rightarrow> u32 \<Rightarrow> bool \<Rightarrow> u64" where
  "block_tte l3 attridx sh pa prot is_tt1 =
     (let pxn = (\<not> has prot PROT_EXEC \<or> (is_tt1 \<and> \<not> has prot PROT_KERN_ONLY));
          uxn = (\<not> (is_tt1 \<and> has prot PROT_EXEC));
          ap = (if \<not> has prot PROT_WRITE then 2 else 0) OR
               (if is_tt1 \<and> \<not> has prot PROT_KERN_ONLY then 1 else 0)
      in 1 OR (if l3 then 2 else 0)
         OR push_bit 2 (take_bit 3 attridx)
         OR push_bit 6 ap
         OR push_bit 8 (take_bit 2 sh)
         OR push_bit 10 1
         OR (if is_tt1 then push_bit 11 1 else 0)
         OR push_bit 12 (take_bit 36 (drop_bit 12 pa))
         OR (if pxn then push_bit 53 1 else 0)
         OR (if uxn then push_bit 54 1 else 0))"

text \<open>The 16K-page range that covers the block an entry points to.\<close>

definition oa_base :: "u64 \<Rightarrow> u64" where
  "oa_base t = push_bit 12 (tte_oa t) AND NOT 0x3fff"

definition oa_size :: "u64 \<Rightarrow> u64 \<Rightarrow> u64" where
  "oa_size t blksz = ((push_bit 12 (tte_oa t) - oa_base t + blksz) + 0x3fff) AND NOT 0x3fff"

section \<open>Installing mappings\<close>

record map_args =
  tt0 :: u64
  msh :: u64
  attridx :: u64
  overwrite :: bool
  paging_info :: u64
  mprot :: u32
  is_tt1 :: bool

definition tt_get :: "u64 \<Rightarrow> u64 \<Rightarrow> 'a vmm_scheme \<Rightarrow> u64" where
  "tt_get tt idx s = pmem s (tt + 8 * idx)"

definition tt_set :: "u64 \<Rightarrow> u64 \<Rightarrow> u64 \<Rightarrow> 'a vmm_scheme \<Rightarrow> 'a vmm_scheme" where
  "tt_set tt idx v s = s\<lparr>pmem := (pmem s)(tt + 8 * idx := v)\<rparr>"

definition va_bits :: "bool \<Rightarrow> 'a vmm_scheme \<Rightarrow> u64" where
  "va_bits tt1 s = 64 - (if tt1 then t1sz s else t0sz s)"

text \<open>\<open>va -= 0xffffffffffffffff - ((1ULL << (65 - t1sz)) - 1)\<close> for the upper half, then
  only the low \<open>va_bits\<close> bits are kept.\<close>

definition va_offset :: "bool \<Rightarrow> u64 \<Rightarrow> 'a vmm_scheme \<Rightarrow> u64" where
  "va_offset tt1 va s =
     (let va = (if tt1 then va - (0xffffffffffffffff - (push_bit (unat (65 - t1sz s)) 1 - 1)) else va)
      in va AND (push_bit (unat (va_bits tt1 s)) 1 - 1))"

definition tt_index :: "u64 \<Rightarrow> u64 \<Rightarrow> 'a vmm_scheme \<Rightarrow> u64" where
  "tt_index va bits s = drop_bit (unat (bits - tt_bits s)) va AND (push_bit (unat (tt_bits s)) 1 - 1)"

definition map_bad_args :: "u64 \<Rightarrow> u64 \<Rightarrow> u64 \<Rightarrow> u64 \<Rightarrow> bool" where
  "map_bad_args pgsz va pa sz \<longleftrightarrow> va AND (pgsz - 1) \<noteq> 0 \<or> pa AND (pgsz - 1) \<noteq> 0 \<or> sz AND (pgsz - 1) \<noteq> 0
     \<or> sz < pgsz \<or> va + sz < va \<or> pa + sz < pa"

definition start_bits :: "u64 \<Rightarrow> 'a vmm_scheme \<Rightarrow> u64" where
  "start_bits bits s =
     (if (bits - 3) mod tt_bits s \<noteq> 0 then bits + (tt_bits s - (bits - 3) mod tt_bits s) else bits)"

text \<open>The body of the innermost case: write one entry of the table and keep the reference
  counts of the physical pages of the old and the new mapping (upper half only).\<close>

definition map_block :: "map_args \<Rightarrow> u64 \<Rightarrow> u64 \<Rightarrow> u64 \<Rightarrow> u64 \<Rightarrow> u64 \<Rightarrow> 'a vmm_scheme \<Rightarrow> error + 'a vmm_scheme" where
  "map_block a tt bits blksz va pa s =
     (let pgsz = push_bit (unat (tt_bits s + 3)) 1;
          l3 = (blksz = pgsz);
          idx = tt_index va bits s;
          otte = tt_get tt idx s
      in bindE (panic_if (tte_valid otte \<and> \<not> overwrite a) ''map_range: trying to map block over existing entry'') (\<lambda>_.
         bindE (if has (mprot a) PROT_PAGING_INFO then Inr (tt_set tt idx (paging_tte (paging_info a)) s)
                else let tte = block_tte l3 (attridx a) (msh a) pa (mprot a) (is_tt1 a) in
                if pa \<noteq> 0 \<and> has (mprot a) PROT_READ then
                  bindE (if is_tt1 a then phys_reference (oa_base tte) (oa_size tte blksz) s else Inr s) (\<lambda>s.
                  Inr (tt_set tt idx tte s))
                else Inr (tt_set tt idx 0 s)) (\<lambda>s.
         if tte_valid otte \<and> tte_table otte = l3 \<and> is_tt1 a
         then phys_dereference (oa_base otte) (oa_size otte blksz) s
         else Inr s)))"

text \<open>The \<open>while(lo < hi)\<close> loop, which calls the routine again (\<open>again\<close>) for what is smaller
  than a block or not aligned to one. The first argument bounds the iterations.\<close>

primrec map_blocks ::
  "nat \<Rightarrow> (u64 \<Rightarrow> u64 \<Rightarrow> u64 \<Rightarrow> 'a vmm_scheme \<Rightarrow> error + 'a vmm_scheme) \<Rightarrow> map_args \<Rightarrow> u64 \<Rightarrow> u64
   \<Rightarrow> u64 \<Rightarrow> u64 \<Rightarrow> u64 \<Rightarrow> u64 \<Rightarrow> u64 \<Rightarrow> 'a vmm_scheme \<Rightarrow> error + 'a vmm_scheme" where
  "map_blocks 0 again a tt bits lo hi va pa rem s = Inl OutOfFuel"
| "map_blocks (Suc n) again a tt bits lo hi va pa rem s =
     (if lo < hi then
        let blksz = push_bit (unat (bits - tt_bits s)) 1;
            sz = (if lo < va then blksz - (va - lo) else blksz);
            sz = (if sz > rem then rem else sz)
        in bindE (if sz < blksz then again va pa sz s
                  else if pa AND (blksz - 1) \<noteq> 0 then
                    let frag = pa AND (blksz - 1) in
                    bindE (again va pa (sz - frag) s) (\<lambda>s.
                    again (va + sz - frag) (pa + sz - frag) frag s)
                  else map_block a tt bits blksz va pa s) (\<lambda>s.
           map_blocks n again a tt bits (lo + blksz) hi (va + sz) (pa + sz) (rem - sz) s)
      else Inr s)"

text \<open>The \<open>while(true)\<close> descent through the table levels, which installs missing tables.\<close>

primrec map_walk ::
  "nat \<Rightarrow> (u64 \<Rightarrow> u64 \<Rightarrow> u64 \<Rightarrow> 'a vmm_scheme \<Rightarrow> error + 'a vmm_scheme) \<Rightarrow> map_args \<Rightarrow> u64 \<Rightarrow> u64
   \<Rightarrow> u64 \<Rightarrow> u64 \<Rightarrow> u64 \<Rightarrow> 'a vmm_scheme \<Rightarrow> error + 'a vmm_scheme" where
  "map_walk 0 again a tt bits va pa sz s = Inl OutOfFuel"
| "map_walk (Suc n) again a tt bits va pa sz s =
     (let blksz = push_bit (unat (bits - tt_bits s)) 1;
          lo = va AND NOT (blksz - 1);
          hi = (va + sz + (blksz - 1)) AND NOT (blksz - 1)
      in if sz < blksz \<and> hi - lo = blksz then
           let idx = tt_index va bits s; tte = tt_get tt idx s in
           if tte_valid tte \<and> tte_table tte
           then map_walk n again a (push_bit 12 (tte_oa tte)) (bits - tt_bits s) va pa sz s
           else if \<not> tte_valid tte \<or> overwrite a then
             bindE (ttb_alloc s) (\<lambda>(newtt, t).
             map_walk n again a newtt (bits - tt_bits s) va pa sz (tt_set tt idx (table_tte newtt) t))
           else Inl (Panic ''map_range: trying to map table over existing entry'')
         else map_blocks (Suc n) again a tt bits lo hi va pa sz s)"

text \<open>The whole routine; the first argument bounds its recursion depth and its loops.\<close>

primrec map_range_map :: "nat \<Rightarrow> map_args \<Rightarrow> u64 \<Rightarrow> u64 \<Rightarrow> u64 \<Rightarrow> 'a vmm_scheme \<Rightarrow> error + 'a vmm_scheme" where
  "map_range_map 0 a va pa sz s = Inl OutOfFuel"
| "map_range_map (Suc n) a va pa sz s =
     (let va = va_offset (is_tt1 a) va s;
          pgsz = push_bit (unat (tt_bits s + 3)) 1
      in bindE (panic_if (map_bad_args pgsz va pa sz) ''map_range: called with bad arguments'') (\<lambda>_.
         map_walk (Suc n) (map_range_map n a) a (tt0 a) (start_bits (va_bits (is_tt1 a) s) s) va pa sz s))"

text \<open>The fuel the kernel's callers are given: more than the 128 blocks of the largest mapping
  it makes, and more than the three table levels and four blocks a 16K page needs.\<close>

definition map_fuel :: nat where "map_fuel = 4096"

definition map_args_of :: "u64 \<Rightarrow> u64 \<Rightarrow> u64 \<Rightarrow> bool \<Rightarrow> u32 \<Rightarrow> map_args" where
  "map_args_of t sh attr ow prot =
     \<lparr>tt0 = t, msh = sh, attridx = attr, overwrite = ow, paging_info = 0, mprot = prot, is_tt1 = False\<rparr>"

definition map_range_noflush_rw ::
  "u64 \<Rightarrow> u64 \<Rightarrow> u64 \<Rightarrow> u64 \<Rightarrow> u64 \<Rightarrow> u64 \<Rightarrow> bool \<Rightarrow> 'a vmm_scheme \<Rightarrow> error + 'a vmm_scheme" where
  "map_range_noflush_rw ttbr va pa sz sh attr ow s =
     map_range_map map_fuel (map_args_of ttbr sh attr ow (PROT_READ OR PROT_WRITE OR PROT_KERN_ONLY)) va pa sz s"

definition map_range_noflush_rwx ::
  "u64 \<Rightarrow> u64 \<Rightarrow> u64 \<Rightarrow> u64 \<Rightarrow> u64 \<Rightarrow> u64 \<Rightarrow> bool \<Rightarrow> 'a vmm_scheme \<Rightarrow> error + 'a vmm_scheme" where
  "map_range_noflush_rwx ttbr va pa sz sh attr ow s =
     map_range_map map_fuel (map_args_of ttbr sh attr ow (PROT_READ OR PROT_WRITE OR PROT_EXEC OR PROT_KERN_ONLY)) va pa sz s"

definition map_range_noflush_rx ::
  "u64 \<Rightarrow> u64 \<Rightarrow> u64 \<Rightarrow> u64 \<Rightarrow> u64 \<Rightarrow> u64 \<Rightarrow> bool \<Rightarrow> 'a vmm_scheme \<Rightarrow> error + 'a vmm_scheme" where
  "map_range_noflush_rx ttbr va pa sz sh attr ow s =
     map_range_map map_fuel (map_args_of ttbr sh attr ow (PROT_READ OR PROT_EXEC OR PROT_KERN_ONLY)) va pa sz s"

section \<open>TLB maintenance\<close>

definition flush_asid :: "u64 \<Rightarrow> 'a vmm_scheme \<Rightarrow> 'a vmm_scheme" where
  "flush_asid a s = s\<lparr>tlbi := tlbi s @ [a]\<rparr>"

definition vm_flush :: "u64 \<Rightarrow> 'a vmm_scheme \<Rightarrow> error + 'a vmm_scheme" where
  "vm_flush h s = bindE (get_space h s) (\<lambda>sp. Inr (flush_asid (asid sp) s))"

definition vm_flush_by_addr :: "u64 \<Rightarrow> u64 \<Rightarrow> 'a vmm_scheme \<Rightarrow> error + 'a vmm_scheme" where
  "vm_flush_by_addr h va s =
     bindE (get_space h s) (\<lambda>sp. Inr (flush_asid (asid sp OR (drop_bit 12 va AND 0xFFFFFFFFFFF)) s))"

definition vm_flush_by_addr_all_asid :: "u64 \<Rightarrow> 'a vmm_scheme \<Rightarrow> 'a vmm_scheme" where
  "vm_flush_by_addr_all_asid va s = flush_asid (drop_bit 12 va AND 0xFFFFFFFFFFF) s"

section \<open>Mapping one page of an address space\<close>

definition user_args :: "u64 \<Rightarrow> bool \<Rightarrow> u64 \<Rightarrow> u32 \<Rightarrow> map_args" where
  "user_args t tt1 physical prot =
     \<lparr>tt0 = t, msh = (if has prot PROT_DEVICE then 3 else 2), attridx = (if has prot PROT_DEVICE then 0 else 1),
       overwrite = True, paging_info = (if has prot PROT_PAGING_INFO then physical else 0),
       mprot = prot AND (PROT_READ OR PROT_WRITE OR PROT_EXEC OR PROT_KERN_ONLY OR PROT_PAGING_INFO),
       is_tt1 = tt1\<rparr>"

text \<open>The upper half goes through \<open>ttbr1\<close>, takes over the caller's reference on the page and
  flushes the space's own translations.\<close>

definition map_page_upper :: "u64 \<Rightarrow> vm_space \<Rightarrow> u64 \<Rightarrow> u64 \<Rightarrow> u32 \<Rightarrow> 'a vmm_scheme \<Rightarrow> error + 'a vmm_scheme" where
  "map_page_upper h sp vaddr physical prot s =
     bindE (panic_if (physical AND 0x3fff \<noteq> 0 \<and> \<not> has prot PROT_PAGING_INFO)
              ''passed unaligned PA to vm_space_map_page_physical_prot'') (\<lambda>_.
     bindE (map_range_map map_fuel (user_args (ttbr1 sp) True physical prot) vaddr
              (if has prot PROT_PAGING_INFO then 0 else physical) 0x4000 s) (\<lambda>s.
     bindE (if has prot PROT_PAGING_INFO then Inr s else phys_dereference physical 0x4000 s) (\<lambda>s.
     if is_16k_v s then vm_flush_by_addr h vaddr s
     else bindE (vm_flush_by_addr h vaddr s) (\<lambda>s.
          bindE (vm_flush_by_addr h (vaddr + 0x1000) s) (\<lambda>s.
          bindE (vm_flush_by_addr h (vaddr + 0x2000) s) (\<lambda>s.
          vm_flush_by_addr h (vaddr + 0x3000) s))))))"

text \<open>The lower half goes through the shared \<open>ttbr0\<close>, which holds no references.\<close>

definition map_page_lower :: "vm_space \<Rightarrow> u64 \<Rightarrow> u64 \<Rightarrow> u32 \<Rightarrow> 'a vmm_scheme \<Rightarrow> error + 'a vmm_scheme" where
  "map_page_lower sp vaddr physical prot s =
     bindE (map_range_map map_fuel (user_args (ttbr0 sp) False physical prot) vaddr
              (if has prot PROT_PAGING_INFO then 0 else physical) 0x4000 s) (\<lambda>s.
     Inr (if is_16k_v s then vm_flush_by_addr_all_asid vaddr s
          else vm_flush_by_addr_all_asid (vaddr + 0x3000)
                (vm_flush_by_addr_all_asid (vaddr + 0x2000)
                  (vm_flush_by_addr_all_asid (vaddr + 0x1000)
                    (vm_flush_by_addr_all_asid vaddr s)))))"

definition vm_space_map_page_physical_prot ::
  "u64 \<Rightarrow> u64 \<Rightarrow> u64 \<Rightarrow> u32 \<Rightarrow> 'a vmm_scheme \<Rightarrow> error + 'a vmm_scheme" where
  "vm_space_map_page_physical_prot h vaddr physical prot s =
     bindE (disable_interrupts s) (\<lambda>s.
     bindE (get_space h s) (\<lambda>sp.
     let prot = (if h = kernel_vm_space then prot OR PROT_KERN_ONLY else prot) in
     bindE (if vaddr AND 0x7000000000000000 \<noteq> 0 then map_page_upper h sp vaddr physical prot s
            else map_page_lower sp vaddr physical prot s)
       enable_interrupts))"

section \<open>The page bitmap\<close>

definition bmp_get :: "u8 list \<Rightarrow> nat \<Rightarrow> bool" where
  "bmp_get t i = bit (t ! (i div 8)) (i mod 8)"

definition bmp_set :: "bool \<Rightarrow> nat \<Rightarrow> u8 list \<Rightarrow> u8 list" where
  "bmp_set b i t = t[i div 8 := (if b then t ! (i div 8) OR push_bit (i mod 8) 1
                                 else t ! (i div 8) AND NOT (push_bit (i mod 8) 1))]"

text \<open>\<open>table[i >> 3]\<close> and bit \<open>i & 7\<close> of it, where \<open>i\<close> may be beyond the table.\<close>

definition tbl_get :: "u8 list \<Rightarrow> u32 \<Rightarrow> error + bool" where
  "tbl_get t i = (if unat i div 8 < length t then Inr (bmp_get t (unat i)) else Inl BadAccess)"

definition tbl_set :: "bool \<Rightarrow> u32 \<Rightarrow> u8 list \<Rightarrow> error + u8 list" where
  "tbl_set b i t = (if unat i div 8 < length t then Inr (bmp_set b (unat i) t) else Inl BadAccess)"

definition page_count_of :: "u64 \<Rightarrow> u32" where
  "page_count_of sz = ucast (((sz + 0x3fff) AND NOT 0x3fff) div 0x4000)"

text \<open>The scan of \<open>vm_allocate\<close>: the page where a run of \<open>n\<close> clear bits starts, if the loop
  breaks with one.\<close>

function vm_scan :: "u8 list \<Rightarrow> u64 \<Rightarrow> u32 \<Rightarrow> u32 \<Rightarrow> u32 \<Rightarrow> u32 \<Rightarrow> error + u32 option" where
  "vm_scan t scan_size n i found base =
     (if \<not> ucast i < scan_size then Inr None
      else if i = - 1 then Inl OutOfFuel
      else
        bindE (tbl_get t i) (\<lambda>is_alloc.
        let base' = (if \<not> is_alloc \<and> found = 0 then i else base);
            found' = (if \<not> is_alloc then found + 1 else 0)
        in if found' = n then Inr (Some base') else vm_scan t scan_size n (i + 1) found' base'))"
  by pat_completeness auto
termination
proof (relation "measure (\<lambda>(t, sz, n, i, f, b). 2 ^ 32 - unat i)")
  fix t :: "u8 list" and scan_size :: u64 and n i found base x xa xb
  assume "i \<noteq> (- 1 :: u32)"
  then have "i < - 1" by (simp add: word_order.not_eq_extremum)
  then have "unat (i + 1) = Suc (unat i)" by (rule unat_Suc_less)
  moreover have "unat (i + 1) < 2 ^ 32" using unsigned_less [of "i + 1", where ?'a = nat] by simp
  ultimately show "((t, scan_size, n, i + 1, xb :: u32, xa :: u32), t, scan_size, n, i, found, base)
      \<in> measure (\<lambda>(t, sz, n, i, f, b). 2 ^ 32 - unat i)"
    by simp
qed simp

declare vm_scan.simps [simp del]

text \<open>The loop that claims the run: each page gets the allocate-on-fault marker, unless only
  the range is wanted, and its bit.\<close>

definition claim_page :: "u64 \<Rightarrow> u32 \<Rightarrow> u32 \<Rightarrow> 'a vmm_scheme \<Rightarrow> error + 'a vmm_scheme" where
  "claim_page h flags i s =
     bindE (get_space h s) (\<lambda>sp.
     bindE (if flags AND VM_FLAGS_NOMAP = 0
            then vm_space_map_page_physical_prot h (vm_space_base sp + ucast (i * 0x4000))
                   PAGING_INFO_ALLOC_ON_FAULT_MAGIC PROT_PAGING_INFO s
            else Inr s) (\<lambda>s.
     bindE (get_space h s) (\<lambda>sp.
     bindE (tbl_set True i (vm_space_table sp)) (\<lambda>t.
     Inr (put_space h (sp\<lparr>vm_space_table := t\<rparr>) s)))))"

text \<open>\<open>addr\<close> is the value of \<open>*addr\<close> on entry; the result has the value it is left with.\<close>

definition vm_allocate :: "u64 \<Rightarrow> u64 \<Rightarrow> u64 \<Rightarrow> u32 \<Rightarrow> 'a vmm_scheme \<Rightarrow> error + (err \<times> u64 \<times> 'a vmm_scheme)" where
  "vm_allocate h addr sz flags s =
     (let pagecount = page_count_of sz in
      if pagecount = 0 then Inr (KERN_SUCCESS, addr, s)
      else
        bindE (disable_interrupts s) (\<lambda>s.
        bindE (get_space h s) (\<lambda>sp.
        let vm_scan_size =
              (if flags AND VM_FLAGS_FIXED \<noteq> 0 then
                 let vm_offset = addr - vm_space_base sp in
                 if vm_offset > vm_space_end sp then 0
                 else ((sz + 0x3fff) AND NOT 0x3fff) div 0x4000
               else VM_SPACE_SIZE div 0x4000)
        in bindE (vm_scan (vm_space_table sp) vm_scan_size pagecount 0 0 0) (\<lambda>found.
           case found of
             None \<Rightarrow> bindE (enable_interrupts s) (\<lambda>s. Inr (KERN_VM_OOM, 0, s))
           | Some vm_scan_base \<Rightarrow>
               bindE (for_up (claim_page h flags) vm_scan_base (vm_scan_base + pagecount) s) (\<lambda>s.
               bindE (enable_interrupts s) (\<lambda>s.
               Inr (KERN_SUCCESS, vm_space_base sp + ucast (vm_scan_base * 0x4000), s)))))))"

text \<open>The check loop of \<open>vm_deallocate\<close>: is every page of the range allocated?\<close>

definition check_page :: "u8 list \<Rightarrow> u32 \<Rightarrow> bool \<Rightarrow> error + bool" where
  "check_page t i ok = (if ok then tbl_get t i else Inr False)"

definition release_page :: "u64 \<Rightarrow> u32 \<Rightarrow> 'a vmm_scheme \<Rightarrow> error + 'a vmm_scheme" where
  "release_page h i s =
     bindE (get_space h s) (\<lambda>sp.
     bindE (vm_space_map_page_physical_prot h (vm_space_base sp + ucast (i * 0x4000)) 0 0 s) (\<lambda>s.
     bindE (get_space h s) (\<lambda>sp.
     bindE (tbl_set False i (vm_space_table sp)) (\<lambda>t.
     Inr (put_space h (sp\<lparr>vm_space_table := t\<rparr>) s)))))"

definition vm_deallocate :: "u64 \<Rightarrow> u64 \<Rightarrow> u64 \<Rightarrow> 'a vmm_scheme \<Rightarrow> error + (err \<times> 'a vmm_scheme)" where
  "vm_deallocate h addr sz s =
     bindE (disable_interrupts s) (\<lambda>s.
     bindE (get_space h s) (\<lambda>sp.
     let vm_offset = addr - vm_space_base sp in
     bindE
       (if vm_offset + sz > vm_space_end sp then Inr (KERN_VM_OOM, s)
        else
          let pagecount = page_count_of sz;
              vm_scan_base = ucast (vm_offset div 0x4000)
          in bindE (for_up (check_page (vm_space_table sp)) vm_scan_base (vm_scan_base + pagecount) True) (\<lambda>ok.
             if \<not> ok then Inr (KERN_FAILURE, s)
             else bindE (for_up (release_page h) vm_scan_base (vm_scan_base + pagecount) s) (\<lambda>s.
                  Inr (KERN_SUCCESS, s)))) (\<lambda>(retn, s).
     bindE (enable_interrupts s) (\<lambda>s. Inr (retn, s)))))"

definition map_physical_page :: "u64 \<Rightarrow> u64 \<Rightarrow> u64 \<Rightarrow> u32 \<Rightarrow> u32 \<Rightarrow> 'a vmm_scheme \<Rightarrow> error + 'a vmm_scheme" where
  "map_physical_page h addr pa prot i s =
     vm_space_map_page_physical_prot h (addr + ucast (i * 0x4000)) (pa + ucast (i * 0x4000)) prot s"

definition map_physical_range ::
  "u64 \<Rightarrow> u64 \<Rightarrow> u64 \<Rightarrow> u32 \<Rightarrow> u32 \<Rightarrow> u32 \<Rightarrow> 'a vmm_scheme \<Rightarrow> error + (err \<times> 'a vmm_scheme)" where
  "map_physical_range h va pa sz flags prot s =
     bindE (vm_allocate h va (ucast sz) (flags OR VM_FLAGS_NOMAP) s) (\<lambda>(rv, addr, s).
     if rv \<noteq> KERN_SUCCESS then Inr (rv, s)
     else let pagecount = ((sz + 0x3fff) AND NOT 0x3fff) div 0x4000 in
          bindE (for_up (map_physical_page h addr pa prot) 0 pagecount s) (\<lambda>s.
          Inr (KERN_SUCCESS, s)))"

section \<open>Kernel mappings\<close>

definition linear_kvm_alloc :: "u32 \<Rightarrow> 'a vmm_scheme \<Rightarrow> error + (u64 \<times> 'a vmm_scheme)" where
  "linear_kvm_alloc sz s =
     (let sz = (sz + 0x3fff) AND NOT 0x3fff in
      bindE (panic_if (linear_kvm_cursor s + ucast sz > linear_kvm_end s) ''linear_kvm_alloc: OOM'') (\<lambda>_.
      bindE (disable_interrupts s) (\<lambda>s.
      let va = linear_kvm_cursor s;
          s = s\<lparr>linear_kvm_cursor := linear_kvm_cursor s + ucast sz\<rparr>
      in bindE (enable_interrupts s) (\<lambda>s. Inr (va, s)))))"

section \<open>Looking up an entry\<close>

text \<open>\<open>tte_walk_get\<close>: the address of the entry that maps \<open>va\<close>, if there is one. \<open>levels\<close> bounds
  the walk as in the code.\<close>

primrec tte_walk :: "nat \<Rightarrow> u64 \<Rightarrow> u64 \<Rightarrow> u64 \<Rightarrow> 'a vmm_scheme \<Rightarrow> u64 option" where
  "tte_walk 0 ttb bits va s = None"
| "tte_walk (Suc n) ttb bits va s =
     (let idx = tt_index va bits s; tte = tt_get ttb idx s in
      if tte_valid tte \<and> tte_table tte \<and> n \<noteq> 0 then tte_walk n (push_bit 12 (tte_oa tte)) (bits - tt_bits s) va s
      else if \<not> tte_valid tte \<and> tte_table tte then Some (ttb + 8 * idx)
      else if tte_valid tte \<and> tte_table tte = (n = 0) then Some (ttb + 8 * idx)
      else tte_walk n ttb (bits - tt_bits s) va s)"

definition is_upper :: "u64 \<Rightarrow> bool" where "is_upper va \<longleftrightarrow> va AND 0x7000000000000000 \<noteq> 0"

definition tte_walk_get :: "u64 \<Rightarrow> u64 \<Rightarrow> 'a vmm_scheme \<Rightarrow> error + u64 option" where
  "tte_walk_get h va s =
     bindE (get_space h s) (\<lambda>sp.
     let tt1 = is_upper va;
         bits = va_bits tt1 s;
         va = va_offset tt1 va s;
         ttb = (if tt1 then ttbr1 sp else ttbr0 sp);
         levels = unat (ucast ((bits - (tt_bits s + 3)) div tt_bits s) :: u32)
     in Inr (tte_walk levels ttb bits va s))"

section \<open>Page faults\<close>

definition vm_fault :: "u64 \<Rightarrow> u64 \<Rightarrow> 'a vmm_scheme \<Rightarrow> error + (bool \<times> 'a vmm_scheme)" where
  "vm_fault h vma s =
     bindE (disable_interrupts s) (\<lambda>s.
     bindE (get_space h s) (\<lambda>sp.
     let not_handled = bindE (enable_interrupts s) (\<lambda>s. Inr (False, s)) in
     if vm_space_base sp \<le> vma \<and> vma < vm_space_end sp then
       let vm_offset = (vma - vm_space_base sp) div 0x4000 in
       if unat vm_offset div 8 < length (vm_space_table sp) then
         if bmp_get (vm_space_table sp) (unat vm_offset) then
           bindE (tte_walk_get h (vma AND NOT 0x3fff) s) (\<lambda>ttep.
           case ttep of
             None \<Rightarrow> not_handled
           | Some p \<Rightarrow>
               let tte = pmem s p in
               if \<not> tte_valid tte \<and> tte_table tte \<and> tte AND NOT 2 = PAGING_INFO_ALLOC_ON_FAULT_MAGIC then
                 let s = s\<lparr>paging_requests := paging_requests s + 1\<rparr> in
                 bindE (ppage_alloc s) (\<lambda>(page, s).
                 bindE (vm_space_map_page_physical_prot h (vma AND NOT 0x3fff) page (PROT_READ OR PROT_WRITE) s) (\<lambda>s.
                 bindE (enable_interrupts s) (\<lambda>s. Inr (True, s))))
               else not_handled)
         else not_handled
       else Inl BadAccess
     else not_handled))"

section \<open>Address space identifiers\<close>

definition asid_alloc :: "'a vmm_scheme \<Rightarrow> error + (u64 \<times> 'a vmm_scheme)" where
  "asid_alloc s =
     bindE (disable_interrupts s) (\<lambda>s.
     case List.find (\<lambda>i. \<not> bmp_get (asid_table s) i) [0..<256] of
       Some i \<Rightarrow> bindE (enable_interrupts (s\<lparr>asid_table := bmp_set True i (asid_table s)\<rparr>)) (\<lambda>s.
                 Inr (push_bit 48 (of_nat i), s))
     | None \<Rightarrow> Inl (Panic ''asid_alloc: out of ASIDs, are we leaking vm_spaces?''))"

definition asid_free :: "u64 \<Rightarrow> 'a vmm_scheme \<Rightarrow> error + 'a vmm_scheme" where
  "asid_free a s =
     (let index = unat (drop_bit 48 a AND 0xff) in
      if \<not> bmp_get (asid_table s) index then Inl (Panic ''ASID was not allocated?!'')
      else Inr (flush_asid a (s\<lparr>asid_table := bmp_set False index (asid_table s)\<rparr>)))"

section \<open>Address spaces\<close>

definition vm_init :: "'a vmm_scheme \<Rightarrow> error + 'a vmm_scheme" where
  "vm_init s =
     bindE (get_space kernel_vm_space s) (\<lambda>sp.
     bindE (panic_if (vm_space_table sp \<noteq> []) ''vm_init misuse'') (\<lambda>_.
     let s = s\<lparr>asid_table := bmp_set True 0 (asid_table s)\<rparr> in
     bindE (alloc_contig 0x8000 s) (\<lambda>(_, s).
     Inr (put_space kernel_vm_space (sp\<lparr>vm_space_table := replicate 0x8000 0\<rparr>)
            (s\<lparr>ttb_alloc_is_early := False\<rparr>)))))"

definition vm_reference :: "u64 \<Rightarrow> 'a vmm_scheme \<Rightarrow> error + 'a vmm_scheme" where
  "vm_reference h s =
     (if h = 0 then Inr s
      else bindE (get_space h s) (\<lambda>sp.
      if vm_refcount sp = TASK_REFCOUNT_GLOBAL then Inr s
      else Inr (put_space h (sp\<lparr>vm_refcount := vm_refcount sp + 1\<rparr>) s)))"

text \<open>\<open>new\<close> is the handle \<open>malloc\<close> returns.\<close>

definition vm_create :: "u64 \<Rightarrow> u64 \<Rightarrow> 'a vmm_scheme \<Rightarrow> error + (u64 \<times> 'a vmm_scheme)" where
  "vm_create new p s =
     bindE (get_space (if p \<noteq> 0 then p else kernel_vm_space) s) (\<lambda>psp.
     bindE (ttbpage_alloc s) (\<lambda>(tt, s).
     bindE (asid_alloc s) (\<lambda>(a, s).
     bindE (vm_reference p s) (\<lambda>s.
     Inr (new, put_space new \<lparr>ttbr0 = ttbr0 psp, ttbr1 = tt, vm_space_base = VM_SPACE_BASE,
        vm_space_end = VM_SPACE_BASE + VM_SPACE_SIZE, vm_space_table = replicate 0x8000 0,
        vm_refcount = 1, vm_parent = p, asid = a\<rparr> s)))))"

text \<open>Freeing the tables of a space. \<open>lv\<close> is the level counter of the C recursion, \<open>ttcount\<close>
  the entries of a table.\<close>

fun ttbpage_free_walk_recursive :: "nat \<Rightarrow> u64 \<Rightarrow> u32 \<Rightarrow> 'a vmm_scheme \<Rightarrow> error + 'a vmm_scheme" where
  "ttbpage_free_walk_recursive lv base ttcount s =
     for_up (\<lambda>i s.
       let tte = tt_get base (ucast i) s in
       if tte_valid tte then
         if tte_table tte \<and> lv \<noteq> 0 then
           bindE (ttbpage_free_walk_recursive (lv - 1) (push_bit 12 (tte_oa tte)) ttcount s) (\<lambda>s.
           ttbpage_free (push_bit 12 (tte_oa tte)) s)
         else if tte_table tte = (lv = 0) then
           let blksz = push_bit ((if is_16k_v s then 14 else 12) + lv * unat (tt_bits s)) 1 in
           phys_dereference (oa_base tte) (oa_size tte blksz) s
         else Inr s
       else Inr s) 0 ttcount s"

declare ttbpage_free_walk_recursive.simps [simp del]

definition ttbpage_free_walk :: "u64 \<Rightarrow> bool \<Rightarrow> 'a vmm_scheme \<Rightarrow> error + 'a vmm_scheme" where
  "ttbpage_free_walk base tt1 s =
     (let ttcount = (if is_16k_v s then 0x4000 div 8 else 0x1000 div 8);
          obits = (if is_16k_v s then 14 else 12);
          bits = (ucast (64 - (if tt1 then t1sz s else t0sz s)) :: u32) - obits
      in bindE (ttbpage_free_walk_recursive (unat (ucast bits div tt_bits s) - 1) base ttcount s) (\<lambda>s.
         ttbpage_free base s))"

text \<open>The first argument bounds the length of the parent chain.\<close>

primrec vm_release :: "nat \<Rightarrow> u64 \<Rightarrow> 'a vmm_scheme \<Rightarrow> error + 'a vmm_scheme" where
  "vm_release 0 h s = Inl OutOfFuel"
| "vm_release (Suc n) h s =
     (if h = 0 then Inr s
      else bindE (get_space h s) (\<lambda>sp.
      if vm_refcount sp = TASK_REFCOUNT_GLOBAL then Inr s
      else
        let refcount = vm_refcount sp;
            s = put_space h (sp\<lparr>vm_refcount := vm_refcount sp - 1\<rparr>) s
        in if refcount = 1 then
             bindE (panic_if (vm_parent sp = h) ''circular reference'') (\<lambda>_.
             bindE (vm_release n (vm_parent sp) s) (\<lambda>s.
             bindE (ttbpage_free_walk (ttbr1 sp AND 0xfffffffff000) True s) (\<lambda>s.
             bindE (asid_free (asid sp) s) (\<lambda>s.
             Inr (s\<lparr>spaces := (spaces s)(h := None)\<rparr>)))))
           else Inr s))"

section \<open>JIT pages\<close>

text \<open>The 32-bit word at a virtual address of the kernel space, through its tables.\<close>

definition va_to_pa :: "u64 \<Rightarrow> 'a vmm_scheme \<Rightarrow> error + u64" where
  "va_to_pa va s =
     bindE (tte_walk_get kernel_vm_space (va AND NOT 0x3fff) s) (\<lambda>ttep.
     case ttep of None \<Rightarrow> Inl BadAccess
     | Some p \<Rightarrow> if tte_valid (pmem s p) then Inr (push_bit 12 (tte_oa (pmem s p)) + (va AND 0x3fff))
                 else Inl BadAccess)"

primrec jit_map :: "nat \<Rightarrow> u64 \<Rightarrow> u64 \<Rightarrow> u32 \<Rightarrow> 'a vmm_scheme \<Rightarrow> error + (u32 \<times> 'a vmm_scheme)" where
  "jit_map 0 va mapped_so_far sz s = Inr (sz, s)"
| "jit_map (Suc n) va mapped_so_far sz s =
     bindE (ppage_alloc s) (\<lambda>(page, s).
     bindE (vm_space_map_page_physical_prot kernel_vm_space (va + mapped_so_far) page
              (PROT_READ OR PROT_WRITE OR PROT_EXEC OR PROT_KERN_ONLY) s) (\<lambda>s.
     jit_map n va (mapped_so_far + 0x4000) (sz - 0x4000) s))"

definition jit_alloc :: "u32 \<Rightarrow> 'a vmm_scheme \<Rightarrow> error + (u64 \<times> 'a vmm_scheme)" where
  "jit_alloc sz s =
     (let sz = (sz + 8 + 0x3fff) AND NOT 0x3fff in
      bindE (linear_kvm_alloc sz s) (\<lambda>(va, s).
      bindE (jit_map (unat (sz div 0x4000)) va 0 sz s) (\<lambda>(sz, s).
      bindE (va_to_pa va s) (\<lambda>pa.
      Inr (va + 4, s\<lparr>pmem := (pmem s)(pa := (pmem s pa AND NOT 0xffffffff) OR ucast sz)\<rparr>)))))"

primrec jit_unmap :: "nat \<Rightarrow> u64 \<Rightarrow> u64 \<Rightarrow> 'a vmm_scheme \<Rightarrow> error + 'a vmm_scheme" where
  "jit_unmap 0 va mapped_so_far s = Inr s"
| "jit_unmap (Suc n) va mapped_so_far s =
     bindE (vm_space_map_page_physical_prot kernel_vm_space (va + mapped_so_far) 0 0 s) (\<lambda>s.
     jit_unmap n va (mapped_so_far + 0x4000) s)"

definition jit_free :: "u64 \<Rightarrow> 'a vmm_scheme \<Rightarrow> error + 'a vmm_scheme" where
  "jit_free alloc s =
     bindE (panic_if (alloc AND 0x3fff \<noteq> 4) ''jit_free: invalid pointer passed'') (\<lambda>_.
     bindE (va_to_pa (alloc - 4) s) (\<lambda>pa.
     let sz = (ucast (pmem s pa) :: u32) in
     bindE (panic_if (sz AND 0x3fff \<noteq> 0) ''jit_free: invalid pointer passed: misaligned size in header'') (\<lambda>_.
     jit_unmap (unat (sz div 0x4000)) (alloc - 4) 0 s)))"

section \<open>Bringing memory up\<close>

definition map_full_ram :: "u64 \<Rightarrow> u64 \<Rightarrow> 'a vmm_scheme \<Rightarrow> error + 'a vmm_scheme" where
  "map_full_ram phys_off phys_size s =
     (let pgsz = push_bit (unat (tt_bits s + 3)) 1;
          phys_size = (phys_size + pgsz - 1) AND NOT (pgsz - 1);
          s = s\<lparr>ttb_alloc_is_early := True\<rparr>
      in bindE (map_range_noflush_rw (kttbr0 s) (kCacheableView + phys_off) (0x800000000 + phys_off) phys_size 3 1 True s) (\<lambda>s.
         bindE (map_range_noflush_rw (kttbr0 s) (0x800000000 + phys_off) (0x800000000 + phys_off) phys_size 2 0 True s) (\<lambda>s.
         Inr (s\<lparr>ram_phys_off := kCacheableView + phys_off, ram_phys_size := phys_size, g_phys_off := phys_off\<rparr>))))"

definition lowlevel_set_identity :: "'a vmm_scheme \<Rightarrow> error + 'a vmm_scheme" where
  "lowlevel_set_identity s =
     map_range_noflush_rwx (kttbr0 s) (0x800000000 + g_phys_off s) (0x800000000 + g_phys_off s) (ram_phys_size s) 2 0 True s"

text \<open>\<open>k16\<close> is what \<open>is_16k()\<close> reads from the CPU; \<open>pongo_base\<close>, \<open>text_end\<close> and \<open>bss_end\<close> are
  the linker's \<open>start\<close>, \<open>__text_end\<close> and \<open>__bss_end\<close>; \<open>el\<close> is the exception level.\<close>

definition lowlevel_setup ::
  "bool \<Rightarrow> nat \<Rightarrow> u64 \<Rightarrow> u64 \<Rightarrow> u64 \<Rightarrow> u64 \<Rightarrow> u64 \<Rightarrow> 'a vmm_scheme \<Rightarrow> error + 'a vmm_scheme" where
  "lowlevel_setup k16 el pongo_base text_end bss_end phys_off phys_size s =
     (let s = (if k16 then s\<lparr>tt_bits := 11, t0sz := 28, t1sz := 28\<rparr> else s\<lparr>tt_bits := 9, t0sz := 25, t1sz := 25\<rparr>);
          pgsz = push_bit (unat (tt_bits s + 3)) 1;
          pongo_size = bss_end - pongo_base;
          pongo_text_size = text_end - pongo_base;
          s = s\<lparr>ttb_alloc_is_early := True, ttb_alloc_base := pongo_base - 0x4000\<rparr>;
          (tt0, s) = ttb_alloc_early s;
          (tt1, s) = ttb_alloc_early s;
          s = s\<lparr>kttbr0 := tt0, kttbr1 := tt1\<rparr>
      in bindE (map_range_noflush_rw tt0 0x200000000 0x200000000 0x100000000 2 0 False s) (\<lambda>s.
         let phys_off = (phys_off + (pgsz - 1)) AND NOT (pgsz - 1) in
         bindE (map_range_noflush_rw tt0 (kCacheableView + phys_off) (0x800000000 + phys_off) phys_size 3 1 False s) (\<lambda>s.
         bindE (map_range_noflush_rwx tt0 (0x800000000 + phys_off) (0x800000000 + phys_off) phys_size 2 0 False s) (\<lambda>s.
         let s = (if early_heap_base s = 0
                  then s\<lparr>early_heap_base := (pongo_base - 0x800000000 + kCacheableView + pongo_size + 0x7fff) AND NOT 0x3fff\<rparr>
                  else s)
         in bindE (map_range_noflush_rx tt0 0x100000000 pongo_base pongo_text_size 3 1 False s) (\<lambda>s.
            bindE (map_range_noflush_rw tt0 (0x100000000 + pongo_text_size) (pongo_base + pongo_text_size)
                     ((pongo_size - pongo_text_size + 0x3fff) AND NOT 0x3fff) 3 1 False s) (\<lambda>s.
            let s = s\<lparr>gPongoSlide := 0x100000000 - pongo_base, ram_phys_off := kCacheableView + phys_off,
                      ram_phys_size := phys_size\<rparr>
            in bindE (panic_if (el \<noteq> 1) ''pongoOS runs in EL1 only! did you skip pongoMon?'') (\<lambda>_.
               bindE (get_space kernel_vm_space s) (\<lambda>sp.
               Inr (put_space kernel_vm_space (sp\<lparr>ttbr0 := tt0, ttbr1 := tt1\<rparr>) s)))))))))"

end
