(* ===== verification/PhysInv.thy ===== *)
theory PhysInv
  imports Phys
begin

unbundle bit_operations_syntax

text \<open>
  Correctness of the physical page allocator: the free list and the reference counts agree.
\<close>

section \<open>Page arithmetic\<close>

lemma and_3fff: "(x :: u64) AND 0x3fff = take_bit 14 x"
  by (simp add: take_bit_eq_mask mask_eq_exp_minus_1)

lemma and_3fff_mod: "(x :: u64) AND 0x3fff = x mod 16384"
  by (simp add: and_3fff take_bit_eq_mod)

lemma aligned_iff: "(x :: u64) AND 0x3fff = 0 \<longleftrightarrow> unat x mod 16384 = 0"
  by (simp add: and_3fff_mod unat_mod flip: unat_eq_0)

lemma aligned_plus8: "(x :: u64) AND 0x3fff = 0 \<Longrightarrow> y AND 0x3fff = 0 \<Longrightarrow> x + 8 \<noteq> y"
proof
  assume a: "x AND 0x3fff = 0" "y AND 0x3fff = 0" and e: "x + 8 = y"
  have "unat y = (unat x + 8) mod 2 ^ 64" using e by (simp add: unat_word_ariths flip: e)
  then have "unat y mod 16384 = (unat x + 8) mod 16384"
    by (simp add: mod_mod_cancel)
  also have "\<dots> = (unat x mod 16384 + 8) mod 16384"
    by (simp only: mod_add_left_eq)
  finally show False using a by (simp add: aligned_iff)
qed

lemma unat_push14:
  assumes "unat (i :: u64) * 16384 < 2 ^ 64"
  shows "unat (push_bit 14 i) = unat i * 16384"
proof -
  have "push_bit 14 i = i * 16384" by (simp add: push_bit_eq_mult)
  then show ?thesis using assms by (simp add: unat_word_ariths)
qed

lemma unat_drop14: "unat (drop_bit 14 (x :: u64)) = unat x div 16384"
  by (simp add: drop_bit_eq_div unat_div)

definition geometry_ok :: "'a phys_scheme \<Rightarrow> bool" where
  "geometry_ok s \<longleftrightarrow> physBase s AND 0x3fff = 0 \<and> physBase s \<noteq> 0
     \<and> unat (ppages s) = length (ppage_list s)
     \<and> unat (physBase s) + length (ppage_list s) * 16384 < 2 ^ 64"

lemma unat_page_pa:
  assumes "geometry_ok s" and "i \<le> ppages s"
  shows "unat (page_pa s i) = unat i * 16384 + unat (physBase s)"
proof -
  have b: "unat i * 16384 + unat (physBase s) < 2 ^ 64"
  proof -
    have "unat i \<le> length (ppage_list s)"
      using assms by (simp add: geometry_ok_def word_le_nat_alt)
    then have "unat i * 16384 \<le> length (ppage_list s) * 16384" by simp
    then show ?thesis using assms(1) by (simp add: geometry_ok_def)
  qed
  then have p: "unat (push_bit 14 i) = unat i * 16384" by (intro unat_push14) simp
  show ?thesis unfolding page_pa_def using b p by (simp add: unat_word_ariths)
qed

lemma page_pa_inj:
  "geometry_ok s \<Longrightarrow> i \<le> ppages s \<Longrightarrow> j \<le> ppages s \<Longrightarrow> page_pa s i = page_pa s j \<longleftrightarrow> i = j"
  by (metis add_right_cancel mult_cancel2 unat_page_pa word_unat_eq_iff zero_neq_numeral)

lemma page_pa_aligned:
  assumes "geometry_ok s" "i \<le> ppages s" shows "page_pa s i AND 0x3fff = 0"
  using assms by (simp add: aligned_iff unat_page_pa geometry_ok_def)

lemma page_pa_minus: "page_pa s i - physBase s = push_bit 14 i"
  by (simp add: page_pa_def)

lemma page_pa_offset:
  assumes "geometry_ok s" "i \<le> ppages s"
  shows "(page_pa s i - physBase s) AND 0x3fff = 0" and "drop_bit 14 (page_pa s i - physBase s) = i"
proof -
  have "unat i * 16384 < 2 ^ 64"
    using unat_page_pa [OF assms] unsigned_less [of "page_pa s i", where ?'a = nat] by simp
  then have u: "unat (push_bit 14 i) = unat i * 16384" by (rule unat_push14)
  then show "(page_pa s i - physBase s) AND 0x3fff = 0"
    by (simp add: page_pa_minus aligned_iff)
  show "drop_bit 14 (page_pa s i - physBase s) = i"
    by (rule word_unat_eq_iff [THEN iffD2]) (simp add: page_pa_minus unat_drop14 u)
qed

lemma page_pa_ge:
  assumes "geometry_ok s" "i \<le> ppages s"
  shows "physBase s \<le> page_pa s i" and "page_pa s i \<noteq> 0"
proof -
  show le: "physBase s \<le> page_pa s i"
    using assms by (simp add: word_le_nat_alt unat_page_pa)
  show "page_pa s i \<noteq> 0"
    using le assms(1) by (auto simp: geometry_ok_def)
qed

lemma phys_get_entry_page_pa:
  assumes "geometry_ok s" "i < ppages s"
  shows "phys_get_entry s (page_pa s i) = Inr (ppage_list s ! unat i)"
proof -
  have "unat i < length (ppage_list s)" using assms by (simp add: geometry_ok_def word_less_nat_alt)
  then show ?thesis
    using assms page_pa_offset [of s i] by (simp add: phys_get_entry_def read_entry_def Let_def)
qed

lemma ld_phystokv [simp]: "ld s (phystokv pa) = pmem s pa"
  by (simp add: ld_def phystokv_def)

lemma ld_phystokv8 [simp]: "ld s (phystokv pa + 8) = pmem s (pa + 8)"
  by (simp add: ld_def phystokv_def algebra_simps)

lemma st_phystokv [simp]: "st (phystokv pa) v s = s\<lparr>pmem := (pmem s)(pa := v)\<rparr>"
  by (simp add: st_def phystokv_def)

lemma st_phystokv8 [simp]: "st (phystokv pa + 8) v s = s\<lparr>pmem := (pmem s)(pa + 8 := v)\<rparr>"
  by (simp add: st_def phystokv_def algebra_simps)

section \<open>The doubly linked free list\<close>

text \<open>\<open>dseg m p h xs t\<close>: from head \<open>h\<close>, whose back pointer is \<open>p\<close>, the forward pointers run
  through exactly the pages \<open>xs\<close> to \<open>t\<close>, and every page's back pointer is its predecessor.\<close>

fun dseg :: "(u64 \<Rightarrow> u64) \<Rightarrow> u64 \<Rightarrow> u64 \<Rightarrow> u64 list \<Rightarrow> u64 \<Rightarrow> bool" where
  "dseg m p h [] t \<longleftrightarrow> h = t"
| "dseg m p h (x # xs) t \<longleftrightarrow> h = x \<and> x \<noteq> 0 \<and> m (x + 8) = p \<and> dseg m x (m x) xs t"

definition last_or :: "u64 \<Rightarrow> u64 list \<Rightarrow> u64" where
  "last_or p xs = (if xs = [] then p else last xs)"

lemma last_or_simps [simp]:
  "last_or p [] = p" "last_or p (x # xs) = last_or x xs" "last_or p (xs @ [y]) = y"
  by (simp_all add: last_or_def)

lemma dseg_append:
  "dseg m p h (xs @ ys) t \<longleftrightarrow> (\<exists>k. dseg m p h xs k \<and> dseg m (last_or p xs) k ys t)"
  by (induction xs arbitrary: p h) auto

lemma dseg_frame:
  assumes "\<And>x. x \<in> set xs \<Longrightarrow> m' x = m x" and "\<And>x. x \<in> set xs \<Longrightarrow> m' (x + 8) = m (x + 8)"
  shows "dseg m' p h xs t = dseg m p h xs t"
  using assms by (induction xs arbitrary: p h) auto

lemma dseg_head0: "dseg m p h xs 0 \<Longrightarrow> h = 0 \<longleftrightarrow> xs = []"
  by (cases xs) auto

lemma dseg_hd: "dseg m p h xs 0 \<Longrightarrow> h \<noteq> 0 \<Longrightarrow> \<exists>ys. xs = h # ys"
  by (cases xs) auto

definition all_aligned :: "u64 list \<Rightarrow> bool" where
  "all_aligned xs \<longleftrightarrow> (\<forall>x \<in> set xs. x AND 0x3fff = 0)"

text \<open>Pushing a page, as \<open>phys_page_was_freed\<close> does.\<close>

lemma dseg_push:
  assumes "dseg m 0 h xs 0" "x \<notin> set xs" "distinct xs" "all_aligned (x # xs)" "x \<noteq> 0"
  shows "dseg (((if h \<noteq> 0 then m(h + 8 := x) else m)(x := h))(x + 8 := 0)) 0 x (x # xs) 0"
proof (cases xs)
  case Nil
  with assms show ?thesis by (auto simp: dseg_head0)
next
  case (Cons y ys)
  with assms(1) have h: "h = y" "y \<noteq> 0" "dseg m y (m y) ys 0" by auto
  have al: "a + 8 \<noteq> b" if "a \<in> set (x # xs)" "b \<in> set (x # xs)" for a b
    using assms(4) that by (intro aligned_plus8) (auto simp: all_aligned_def)
  have "dseg ((m(y + 8 := x))(x := y, x + 8 := 0)) y (m y) ys 0 = dseg m y (m y) ys 0"
    using assms Cons al by (intro dseg_frame) (auto simp: dest: al)
  then show ?thesis
    using h assms Cons al [of y x] al [of x y] al [of y y] al [of x x] by auto
qed

text \<open>Popping the head, as \<open>ppage_alloc\<close> does.\<close>

lemma dseg_pop:
  assumes "dseg m 0 h (h # ys) 0" "distinct (h # ys)" "all_aligned (h # ys)"
  shows "dseg (if m h \<noteq> 0 then m(m h + 8 := 0) else m) 0 (m h) ys 0"
proof (cases ys)
  case Nil
  with assms show ?thesis by auto
next
  case (Cons z zs)
  with assms(1) have z: "m h = z" "z \<noteq> 0" "dseg m z (m z) zs 0" by auto
  have al: "a + 8 \<noteq> b" if "a \<in> set (h # ys)" "b \<in> set (h # ys)" for a b
    using assms(3) that by (intro aligned_plus8) (auto simp: all_aligned_def)
  have z8: "z + 8 \<notin> set (h # ys)" using al [of z] Cons by auto
  have "dseg (m(z + 8 := 0)) z (m z) zs 0 = dseg m z (m z) zs 0"
    using assms Cons z8 by (intro dseg_frame) auto
  then show ?thesis using z Cons al [of z z] by auto
qed

lemma all_aligned_plus8: "all_aligned xs \<Longrightarrow> a \<in> set xs \<Longrightarrow> b \<in> set xs \<Longrightarrow> a + 8 \<noteq> b"
  by (intro aligned_plus8) (auto simp: all_aligned_def)

text \<open>Removing a page anywhere, as \<open>phys_unlink_contiguous\<close> does.\<close>

definition unlink_mem :: "(u64 \<Rightarrow> u64) \<Rightarrow> u64 \<Rightarrow> (u64 \<Rightarrow> u64)" where
  "unlink_mem m x =
     (let m1 = (if m x \<noteq> 0 then m(m x + 8 := m (x + 8)) else m)
      in if m (x + 8) \<noteq> 0 then m1(m (x + 8) := m x) else m1)"

definition unlink_head :: "(u64 \<Rightarrow> u64) \<Rightarrow> u64 \<Rightarrow> u64 \<Rightarrow> u64" where
  "unlink_head m h x = (if m (x + 8) \<noteq> 0 then h else m x)"

lemma dseg_nonzero: "dseg m p h xs t \<Longrightarrow> x \<in> set xs \<Longrightarrow> x \<noteq> 0"
  by (induction xs arbitrary: p h) auto

lemma dseg_remove:
  assumes d: "dseg m 0 h (as @ x # bs) 0" and dist: "distinct (as @ x # bs)"
    and al: "all_aligned (as @ x # bs)"
  shows "dseg (unlink_mem m x) 0 (unlink_head m h x) (as @ bs) 0"
proof -
  let ?n = "m x" and ?p = "m (x + 8)" and ?m = "unlink_mem m x"
  have da: "dseg m 0 h as x" and px: "?p = last_or 0 as" and db: "dseg m x ?n bs 0"
    using d by (auto simp: dseg_append)
  have nz: "y \<noteq> 0" if "y \<in> set (as @ x # bs)" for y using dseg_nonzero [OF d that] .
  have pl8: "a + 8 \<noteq> b" if "a \<in> set (as @ x # bs)" "b \<in> set (as @ x # bs)" for a b
    using all_aligned_plus8 [OF al that] .
  have nbs: "?n = 0 \<longleftrightarrow> bs = []" "?n \<noteq> 0 \<Longrightarrow> \<exists>bs'. bs = ?n # bs'"
    using db by (cases bs; auto)+
  have pas: "?p = 0 \<longleftrightarrow> as = []" using nz px by (cases as rule: rev_cases) auto
  have right: "dseg ?m (last_or 0 as) ?n bs 0"
  proof (cases bs)
    case Nil
    with nbs show ?thesis by simp
  next
    case (Cons b bs')
    then have b: "b = ?n" "b \<noteq> 0" "m (b + 8) = x" "dseg m b (m b) bs' 0" using db by auto
    have inp: "?p \<in> set as" if "as \<noteq> []" using px that by (simp add: last_or_def)
    have b8: "b + 8 \<notin> set (as @ x # bs)" using pl8 [of b] Cons by auto
    have p8: "y + 8 \<noteq> ?p" if "as \<noteq> []" "y \<in> set (as @ x # bs)" for y
      using pl8 [of y ?p] that inp by auto
    have pb: "?p \<notin> set bs" if "as \<noteq> []" using inp [OF that] dist by auto
    have "dseg ?m b (m b) bs' 0 = dseg m b (m b) bs' 0"
      using b b8 pas dist Cons p8 pb by (intro dseg_frame) (auto simp: unlink_mem_def Let_def)
    then show ?thesis
      using Cons b pas px pb b8 p8 [of b] by (auto simp: unlink_mem_def Let_def)
  qed
  have left: "dseg ?m 0 (unlink_head m h x) as ?n"
  proof (cases as rule: rev_cases)
    case Nil
    then show ?thesis using pas by (simp add: unlink_head_def)
  next
    case (snoc as' q)
    then have q: "?p = q" "q \<noteq> 0" "dseg m 0 h as' q" "m (q + 8) = last_or 0 as'" "m q = x"
      using da px nz by (auto simp: dseg_append)
    have nin: "?n \<in> set bs" if "?n \<noteq> 0" using nbs(2) [OF that] by auto
    have n8: "?n + 8 \<notin> set (as @ x # bs)" if "?n \<noteq> 0"
      using pl8 [of ?n] nin [OF that] by auto
    have nn8: "y \<noteq> ?n" if "?n \<noteq> 0" "y \<in> set as" for y
      using nin [OF that(1)] that(2) dist by auto
    have n8': "?n \<noteq> 0 \<Longrightarrow> ?n + 8 \<notin> set as" using n8 snoc by auto
    have fr: "dseg ?m 0 h as' q = dseg m 0 h as' q"
      using q snoc dist n8' nn8 pl8
      by (intro dseg_frame) (auto simp: unlink_mem_def Let_def)
    have "?m (q + 8) = m (q + 8)" "?m q = ?n"
      using q snoc n8' nn8 [of q] pl8 [of q q] by (auto simp: unlink_mem_def Let_def)
    then show ?thesis
      using fr q snoc by (auto simp: dseg_append unlink_head_def)
  qed
  show ?thesis using left right by (auto simp: dseg_append)
qed

section \<open>The invariant\<close>

text \<open>The pages whose entry has reference count 0.\<close>

definition free_pas :: "'a phys_scheme \<Rightarrow> u64 set" where
  "free_pas s = page_pa s ` {i. i < ppages s \<and> ppage_list s ! unat i AND PAGE_REFBITS = PAGE_FREE}"

text \<open>
  \<open>phys_wf s fl lim\<close>: \<open>fl\<close> is what the free list holds, in order; \<open>lim\<close> are the pages
  already taken off the list but not yet referenced (inside an allocation). Together they
  are exactly the pages with reference count 0, without repetition, and \<open>free_pages\<close>
  counts them.
\<close>

definition phys_wf :: "'a phys_scheme \<Rightarrow> u64 list \<Rightarrow> u64 list \<Rightarrow> bool" where
  "phys_wf s fl lim \<longleftrightarrow> geometry_ok s
     \<and> dseg (pmem s) 0 (pa_head s) fl 0
     \<and> distinct (fl @ lim)
     \<and> set (fl @ lim) = free_pas s
     \<and> unat (free_pages s) = length fl + length lim"

abbreviation phys_inv :: "'a phys_scheme \<Rightarrow> u64 list \<Rightarrow> bool" where
  "phys_inv s fl \<equiv> phys_wf s fl []"

text \<open>Fields the invariant does not read.\<close>

lemma geometry_ok_frame [simp]:
  "geometry_ok (s\<lparr>dis_int_count := c\<rparr>) = geometry_ok s"
  "geometry_ok (s\<lparr>daif_unmasked := b\<rparr>) = geometry_ok s"
  "geometry_ok (s\<lparr>pa_head := h\<rparr>) = geometry_ok s"
  "geometry_ok (s\<lparr>pmem := m\<rparr>) = geometry_ok s"
  "geometry_ok (s\<lparr>free_pages := n\<rparr>) = geometry_ok s"
  "geometry_ok (s\<lparr>wired_pages := n\<rparr>) = geometry_ok s"
  "geometry_ok (s\<lparr>alloc_static_end := n\<rparr>) = geometry_ok s"
  "geometry_ok (s\<lparr>ppage_list := (ppage_list s)[k := v]\<rparr>) = geometry_ok s"
  by (simp_all add: geometry_ok_def)

lemma page_pa_frame [simp]:
  "page_pa (s\<lparr>dis_int_count := c\<rparr>) = page_pa s"
  "page_pa (s\<lparr>daif_unmasked := b\<rparr>) = page_pa s"
  "page_pa (s\<lparr>pa_head := h\<rparr>) = page_pa s"
  "page_pa (s\<lparr>pmem := m\<rparr>) = page_pa s"
  "page_pa (s\<lparr>free_pages := n\<rparr>) = page_pa s"
  "page_pa (s\<lparr>wired_pages := n\<rparr>) = page_pa s"
  "page_pa (s\<lparr>alloc_static_end := n\<rparr>) = page_pa s"
  "page_pa (s\<lparr>ppage_list := l\<rparr>) = page_pa s"
  by (simp_all add: page_pa_def fun_eq_iff)

lemma free_pas_frame [simp]:
  "free_pas (s\<lparr>dis_int_count := c\<rparr>) = free_pas s"
  "free_pas (s\<lparr>daif_unmasked := b\<rparr>) = free_pas s"
  "free_pas (s\<lparr>pa_head := h\<rparr>) = free_pas s"
  "free_pas (s\<lparr>pmem := m\<rparr>) = free_pas s"
  "free_pas (s\<lparr>free_pages := n\<rparr>) = free_pas s"
  "free_pas (s\<lparr>wired_pages := n\<rparr>) = free_pas s"
  "free_pas (s\<lparr>alloc_static_end := n\<rparr>) = free_pas s"
  by (simp_all add: free_pas_def)

lemma phys_wf_frame [simp]:
  "phys_wf (s\<lparr>dis_int_count := c\<rparr>) fl lim = phys_wf s fl lim"
  "phys_wf (s\<lparr>daif_unmasked := b\<rparr>) fl lim = phys_wf s fl lim"
  "phys_wf (s\<lparr>wired_pages := n\<rparr>) fl lim = phys_wf s fl lim"
  "phys_wf (s\<lparr>alloc_static_end := n\<rparr>) fl lim = phys_wf s fl lim"
  by (simp_all add: phys_wf_def)

lemma free_pas_upd_entry:
  assumes "geometry_ok s" "i < ppages s"
  shows "free_pas (s\<lparr>ppage_list := (ppage_list s)[unat i := v]\<rparr>) =
     (if v AND PAGE_REFBITS = PAGE_FREE then insert (page_pa s i) (free_pas s)
      else free_pas s - {page_pa s i})"
proof -
  have len: "unat i < length (ppage_list s)"
    using assms by (simp add: geometry_ok_def word_less_nat_alt)
  have inj: "page_pa s j = page_pa s i \<longleftrightarrow> j = i" if "j < ppages s" for j
    using page_pa_inj [OF assms(1), of j i] that assms(2) by simp
  have nth: "(ppage_list s)[unat i := v] ! unat j = (if j = i then v else ppage_list s ! unat j)" for j
    using len by (auto simp: nth_list_update word_unat_eq_iff)
  show ?thesis
    unfolding free_pas_def using assms(2) by (auto simp: nth image_iff inj split: if_splits)
qed

lemma free_pas_aligned: "geometry_ok s \<Longrightarrow> x \<in> free_pas s \<Longrightarrow> x AND 0x3fff = 0"
  by (auto simp: free_pas_def page_pa_aligned)

lemma free_pas_nonzero: "geometry_ok s \<Longrightarrow> x \<in> free_pas s \<Longrightarrow> x \<noteq> 0"
  by (auto simp: free_pas_def page_pa_ge)

lemma phys_wf_aligned: "phys_wf s fl lim \<Longrightarrow> all_aligned (fl @ lim)"
  unfolding all_aligned_def phys_wf_def by (metis free_pas_aligned)

lemma free_pas_finite: "finite (free_pas s)"
proof -
  have "finite {i. i < ppages s}" by simp
  then show ?thesis unfolding free_pas_def by (intro finite_imageI) (simp add: Collect_conj_eq)
qed

end
