(* ===== verification/PhysOps.thy ===== *)
theory PhysOps
  imports PhysInv
begin

unbundle bit_operations_syntax

text \<open>
  What the reference-count operations of the page allocator do to the free list, page by
  page and over ranges.
\<close>

section \<open>Reference counts as numbers\<close>

definition refcount :: "u32 \<Rightarrow> nat" where
  "refcount e = unat (e AND PAGE_REFBITS)"

definition inc_ref :: "u32 \<Rightarrow> u32" where
  "inc_ref e = (e AND NOT PAGE_REFBITS) OR ((e + 1) AND PAGE_REFBITS)"

definition dec_ref :: "u32 \<Rightarrow> u32" where
  "dec_ref e = (e AND NOT PAGE_REFBITS) OR ((e - 1) AND PAGE_REFBITS)"

lemma refbits_mask: "PAGE_REFBITS = mask 24"
  by (simp add: PAGE_REFBITS_def mask_eq_exp_minus_1)

lemma refcount_mod: "refcount e = unat e mod 2 ^ 24"
proof -
  have "e AND PAGE_REFBITS = e mod 16777216"
    by (simp add: refbits_mask take_bit_eq_mod flip: take_bit_eq_mask)
  then show ?thesis by (simp add: refcount_def unat_mod)
qed

lemma free_iff: "e AND PAGE_REFBITS = PAGE_FREE \<longleftrightarrow> refcount e = 0"
  by (simp add: refcount_def PAGE_FREE_def unat_eq_0)

lemma wired_iff: "e AND PAGE_REFBITS = PAGE_WIRED \<longleftrightarrow> refcount e = 2 ^ 24 - 1"
  by (simp add: refcount_def PAGE_WIRED_def word_unat_eq_iff)

lemma merge_refbits: "((a AND NOT PAGE_REFBITS) OR (b AND PAGE_REFBITS)) AND PAGE_REFBITS = b AND PAGE_REFBITS"
  by (rule bit_eqI) (auto simp: bit_simps)

lemma merge_highbits:
  "((a AND NOT PAGE_REFBITS) OR (b AND PAGE_REFBITS)) AND NOT PAGE_REFBITS = a AND NOT PAGE_REFBITS"
  by (rule bit_eqI) (auto simp: bit_simps)

lemma refcount_inc: "refcount e < 2 ^ 24 - 1 \<Longrightarrow> refcount (inc_ref e) = refcount e + 1"
proof -
  assume a: "refcount e < 2 ^ 24 - 1"
  have "refcount (inc_ref e) = refcount (e + 1)"
    by (simp add: inc_ref_def refcount_def merge_refbits)
  also have "\<dots> = (unat e + 1) mod 2 ^ 24"
    by (simp add: refcount_mod unat_word_ariths mod_mod_cancel)
  also have "\<dots> = refcount e + 1"
    using a by (simp add: refcount_mod mod_Suc)
  finally show ?thesis .
qed

lemma refcount_dec: "refcount e \<noteq> 0 \<Longrightarrow> refcount (dec_ref e) = refcount e - 1"
proof -
  assume a: "refcount e \<noteq> 0"
  then have e0: "e \<noteq> 0" by (auto simp: refcount_def)
  have "refcount (dec_ref e) = refcount (e - 1)"
    by (simp add: dec_ref_def refcount_def merge_refbits)
  also have "\<dots> = (unat e - 1) mod 2 ^ 24"
    using e0 by (simp add: refcount_mod unat_minus_one)
  also have "\<dots> = refcount e - 1"
  proof -
    obtain n where n: "unat e = Suc n" using e0 by (metis not0_implies_Suc unat_eq_0)
    with a show ?thesis by (auto simp: refcount_mod mod_Suc split: if_splits)
  qed
  finally show ?thesis .
qed

lemma refcount_lt: "refcount e < 2 ^ 24"
  by (simp add: refcount_mod)

lemma page_pa_free_iff:
  assumes "geometry_ok s" "i < ppages s"
  shows "page_pa s i \<in> free_pas s \<longleftrightarrow> refcount (ppage_list s ! unat i) = 0"
proof -
  have "page_pa s i = page_pa s j \<longleftrightarrow> i = j" if "j < ppages s" for j
    using page_pa_inj [OF assms(1), of i j] assms(2) that by simp
  then show ?thesis using assms(2) by (auto simp: free_pas_def free_iff)
qed

section \<open>What an operation leaves alone\<close>

definition frame :: "'a phys_scheme \<Rightarrow> 'a phys_scheme \<Rightarrow> bool" where
  "frame s s' \<longleftrightarrow> physBase s' = physBase s \<and> ppages s' = ppages s
     \<and> dis_int_count s' = dis_int_count s \<and> alloc_static_base s' = alloc_static_base s
     \<and> length (ppage_list s') = length (ppage_list s)"

lemma frame_refl [simp]: "frame s s" by (simp add: frame_def)

lemma frame_trans: "frame s t \<Longrightarrow> frame t u \<Longrightarrow> frame s u" by (simp add: frame_def)

lemma frame_page_pa: "frame s t \<Longrightarrow> page_pa t = page_pa s" by (simp add: frame_def page_pa_def fun_eq_iff)

lemma phys_wf_cong:
  assumes "physBase t = physBase s" "ppages t = ppages s" "ppage_list t = ppage_list s"
    "pmem t = pmem s" "pa_head t = pa_head s" "free_pages t = free_pages s"
  shows "phys_wf t fl lim = phys_wf s fl lim"
proof -
  have "page_pa t = page_pa s" using assms(1) by (simp add: page_pa_def fun_eq_iff)
  then show ?thesis using assms by (simp add: phys_wf_def geometry_ok_def free_pas_def)
qed

section \<open>Giving a page back\<close>

definition push_mem :: "(u64 \<Rightarrow> u64) \<Rightarrow> u64 \<Rightarrow> u64 \<Rightarrow> (u64 \<Rightarrow> u64)" where
  "push_mem m h x = ((if h \<noteq> 0 then m(h + 8 := x) else m)(x := h))(x + 8 := 0)"

lemma phys_page_was_freed_eq:
  "dis_int_count s \<noteq> - 1 \<Longrightarrow>
   phys_page_was_freed pa s = Inr (s\<lparr>daif_unmasked := (dis_int_count s = 0),
     pmem := push_mem (pmem s) (pa_head s) pa, pa_head := pa, free_pages := free_pages s + 1\<rparr>)"
  by (simp add: phys_page_was_freed_def disable_interrupts_returns enable_interrupts_returns
      push_mem_def Let_def add_eq_0_iff2)

lemma phys_page_was_freed_Inr:
  assumes "phys_page_was_freed pa s = Inr s'" shows "dis_int_count s \<noteq> - 1"
  using assms unfolding phys_page_was_freed_def
  by (auto simp: disable_interrupts_def Let_def split: if_splits)

lemma phys_wf_push:
  assumes wf: "phys_wf s fl lim" and i: "i < ppages s"
    and busy: "refcount (ppage_list s ! unat i) \<noteq> 0" and v: "refcount v = 0"
  shows "phys_wf (s\<lparr>ppage_list := (ppage_list s)[unat i := v],
           pmem := push_mem (pmem s) (pa_head s) (page_pa s i), pa_head := page_pa s i,
           free_pages := free_pages s + 1\<rparr>) (page_pa s i # fl) lim"
proof -
  let ?x = "page_pa s i"
  have g: "geometry_ok s" and d: "dseg (pmem s) 0 (pa_head s) fl 0" and dist: "distinct (fl @ lim)"
    and eq: "set (fl @ lim) = free_pas s" and cnt: "unat (free_pages s) = length fl + length lim"
    using wf by (auto simp: phys_wf_def)
  have nx: "?x \<notin> free_pas s"
    using busy page_pa_free_iff [OF g i] by simp
  have al: "all_aligned (?x # fl)"
    using phys_wf_aligned [OF wf] page_pa_aligned [OF g, of i] i by (auto simp: all_aligned_def)
  have "dseg (push_mem (pmem s) (pa_head s) ?x) 0 ?x (?x # fl) 0"
    unfolding push_mem_def
    using d dist nx eq al page_pa_ge(2) [OF g, of i] i by (intro dseg_push) auto
  moreover have "length fl + length lim \<le> length (ppage_list s)"
  proof -
    have "length (fl @ lim) = card (free_pas s)"
      using dist eq by (metis distinct_card)
    also have "\<dots> \<le> card ((\<lambda>k. page_pa s (of_nat k)) ` {..<length (ppage_list s)})"
    proof (intro card_mono subsetI)
      fix x assume "x \<in> free_pas s"
      then obtain j where j: "j < ppages s" "x = page_pa s j" by (auto simp: free_pas_def)
      then have "unat j < length (ppage_list s)" "x = page_pa s (of_nat (unat j))"
        using g by (auto simp: geometry_ok_def word_less_nat_alt)
      then show "x \<in> (\<lambda>k. page_pa s (of_nat k)) ` {..<length (ppage_list s)}" by blast
    qed simp
    also have "\<dots> \<le> length (ppage_list s)"
      by (metis card_image_le card_lessThan finite_lessThan)
    finally show ?thesis by simp
  qed
  then have "unat (free_pages s + 1) = Suc (length fl + length lim)"
    using g cnt unat_Suc_less [of "free_pages s" "- 1"]
    by (simp add: geometry_ok_def word_less_nat_alt unat_word_ariths)
  moreover have "distinct ((?x # fl) @ lim)" using dist nx eq by auto
  moreover have "set ((?x # fl) @ lim) = insert ?x (free_pas s)" using eq by auto
  ultimately show ?thesis
    using g i v free_pas_upd_entry [OF g i, of v]
    by (simp add: phys_wf_def free_iff)
qed

lemma read_entry_in: "geometry_ok s \<Longrightarrow> i < ppages s \<Longrightarrow> read_entry s i = Inr (ppage_list s ! unat i)"
  by (simp add: read_entry_def geometry_ok_def word_less_nat_alt)

lemma write_entry_in:
  "geometry_ok s \<Longrightarrow> i < ppages s \<Longrightarrow> write_entry i v s = Inr (s\<lparr>ppage_list := (ppage_list s)[unat i := v]\<rparr>)"
  by (simp add: write_entry_def geometry_ok_def word_less_nat_alt)

lemma read_entry_Inr: "read_entry s i = Inr v \<Longrightarrow> geometry_ok s \<Longrightarrow> i < ppages s \<and> v = ppage_list s ! unat i"
  by (auto simp: read_entry_def geometry_ok_def word_less_nat_alt split: if_splits)

lemma entry_index: "geometry_ok s \<Longrightarrow> i < ppages s \<Longrightarrow> unat i < length (ppage_list s)"
  by (simp add: geometry_ok_def word_less_nat_alt)

text \<open>One page dereferenced: its count drops by one, and at zero it goes back to the head of
  the free list.\<close>

lemma dereference_page_ok:
  assumes wf: "phys_wf s fl lim" and i: "i < ppages s"
    and busy: "refcount (ppage_list s ! unat i) \<noteq> 0"
    and room: "refcount (ppage_list s ! unat i) = 1 \<Longrightarrow> dis_int_count s \<noteq> - 1"
  shows "\<exists>s'. dereference_page i s = Inr s' \<and> frame s s'
     \<and> ppage_list s' = (ppage_list s)[unat i := dec_ref (ppage_list s ! unat i)]
     \<and> phys_wf s' (if refcount (ppage_list s ! unat i) = 1 then page_pa s i # fl else fl) lim"
proof -
  let ?e = "ppage_list s ! unat i"
  let ?s = "s\<lparr>ppage_list := (ppage_list s)[unat i := dec_ref ?e]\<rparr>"
  have g: "geometry_ok s" using wf by (simp add: phys_wf_def)
  have le: "\<not> ppages s < i" using i by simp
  have idx: "unat i < length (ppage_list s)" using g i by (rule entry_index)
  have rd: "read_entry ?s i = Inr (dec_ref ?e)"
    using idx by (simp add: read_entry_def)
  have *: "dereference_page i s =
      (if refcount (dec_ref ?e) = 0 then phys_page_was_freed (page_pa s i) ?s else Inr ?s)"
    using le busy read_entry_in [OF g i] write_entry_in [OF g i]
    by (simp add: dereference_page_def rd free_iff dec_ref_def [symmetric])
  show ?thesis
  proof (cases "refcount ?e = 1")
    case True
    then have z: "refcount (dec_ref ?e) = 0" using refcount_dec [OF busy] by simp
    let ?t = "?s\<lparr>daif_unmasked := (dis_int_count s = 0),
      pmem := push_mem (pmem s) (pa_head s) (page_pa s i), pa_head := page_pa s i,
      free_pages := free_pages s + 1\<rparr>"
    have "dereference_page i s = Inr ?t"
      unfolding * using z room True by (simp add: phys_page_was_freed_eq)
    moreover have "phys_wf ?t (page_pa s i # fl) lim"
      using phys_wf_push [OF wf i busy z] by (rule phys_wf_cong [THEN iffD1, rotated -1]) simp_all
    ultimately show ?thesis using True by (simp add: frame_def)
  next
    case False
    then have z: "refcount (dec_ref ?e) \<noteq> 0" using refcount_dec [OF busy] busy by simp
    have "phys_wf ?s fl lim"
      using wf z free_pas_upd_entry [OF g i, of "dec_ref ?e"] page_pa_free_iff [OF g i] busy
      by (simp add: phys_wf_def free_iff)
    then show ?thesis unfolding * using False z by (simp add: frame_def)
  qed
qed

lemma dereference_page_Inr:
  assumes "dereference_page i s = Inr s'" "geometry_ok s"
  shows "i < ppages s" and "refcount (ppage_list s ! unat i) \<noteq> 0"
    and "refcount (ppage_list s ! unat i) = 1 \<Longrightarrow> dis_int_count s \<noteq> - 1"
proof -
  obtain v where v: "read_entry s i = Inr v" "v AND PAGE_REFBITS \<noteq> PAGE_FREE"
    using assms(1) by (auto simp: dereference_page_def split: if_splits)
  then show i: "i < ppages s" and nz: "refcount (ppage_list s ! unat i) \<noteq> 0"
    using read_entry_Inr [OF v(1) assms(2)] by (auto simp: free_iff)
  assume one: "refcount (ppage_list s ! unat i) = 1"
  have rd: "read_entry (s\<lparr>ppage_list := (ppage_list s)[unat i := w]\<rparr>) i = Inr w" for w
    using entry_index [OF assms(2) i] by (simp add: read_entry_def)
  have "refcount (dec_ref (ppage_list s ! unat i)) = 0" using refcount_dec [OF nz] one by simp
  then show "dis_int_count s \<noteq> - 1"
    using assms(1) i nz read_entry_in [OF assms(2) i] write_entry_in [OF assms(2) i]
    by (auto simp: dereference_page_def free_iff dec_ref_def [symmetric] rd dest: phys_page_was_freed_Inr)
qed

text \<open>One page referenced. A free page must be off the list already.\<close>

lemma reference_page_ok:
  assumes wf: "phys_wf s fl lim" and i: "i < ppages s"
    and off: "refcount (ppage_list s ! unat i) = 0 \<Longrightarrow> page_pa s i \<in> set lim"
  shows "\<exists>s'. reference_page i s = Inr s' \<and> frame s s' \<and> pmem s' = pmem s
     \<and> ppage_list s' = (if refcount (ppage_list s ! unat i) = 2 ^ 24 - 1 then ppage_list s
                        else (ppage_list s)[unat i := inc_ref (ppage_list s ! unat i)])
     \<and> phys_wf s' fl (remove1 (page_pa s i) lim)"
proof -
  let ?e = "ppage_list s ! unat i"
  have g: "geometry_ok s" using wf by (simp add: phys_wf_def)
  have le: "\<not> ppages s < i" using i by simp
  have notin: "page_pa s i \<notin> set (fl @ lim)" if "refcount ?e \<noteq> 0"
    using wf that page_pa_free_iff [OF g i] by (simp add: phys_wf_def)
  consider (wired) "refcount ?e = 2 ^ 24 - 1" | (free) "refcount ?e = 0"
    | (busy) "refcount ?e \<noteq> 0" "refcount ?e < 2 ^ 24 - 1"
    using refcount_lt [of ?e] by linarith
  then show ?thesis
  proof cases
    case wired
    then show ?thesis
      using wf le read_entry_in [OF g i] notin
      by (simp add: reference_page_def wired_iff remove1_idem)
  next
    case free
    let ?s = "s\<lparr>free_pages := free_pages s - 1, ppage_list := (ppage_list s)[unat i := inc_ref ?e]\<rparr>"
    have run: "reference_page i s = Inr ?s"
      using free le i read_entry_in [OF g i] write_entry_in [of "s\<lparr>free_pages := free_pages s - 1\<rparr>" i] g
      by (simp add: reference_page_def wired_iff free_iff inc_ref_def [symmetric])
    have inl: "page_pa s i \<in> set lim" using off free by simp
    have dist: "distinct (fl @ lim)" and eq: "set (fl @ lim) = free_pas s"
      and cnt: "unat (free_pages s) = length fl + length lim" and d: "dseg (pmem s) 0 (pa_head s) fl 0"
      using wf by (auto simp: phys_wf_def)
    have "refcount (inc_ref ?e) = 1" using free refcount_inc [of ?e] by simp
    then have fp: "free_pas ?s = free_pas s - {page_pa s i}"
      using free_pas_upd_entry [of "s\<lparr>free_pages := free_pages s - 1\<rparr>" i "inc_ref ?e"] g i
      by (simp add: free_iff)
    have lenp: "Suc (length lim - 1) = length lim" using inl by (cases lim) auto
    then have "free_pages s \<noteq> 0" using cnt by (cases "free_pages s = 0") auto
    then have cnt': "unat (free_pages s - 1) = length fl + length (remove1 (page_pa s i) lim)"
      using cnt lenp unat_minus_one [of "free_pages s"] inl by (simp add: length_remove1)
    have st: "set (fl @ remove1 (page_pa s i) lim) = free_pas s - {page_pa s i}"
      using dist eq inl by auto
    have "phys_wf ?s fl (remove1 (page_pa s i) lim)"
      unfolding phys_wf_def fp using g d dist cnt' st
      by (simp add: geometry_ok_def set_remove1_eq) (auto dest: notin_set_remove1)
    then show ?thesis unfolding run using free by (simp add: frame_def)
  next
    case busy
    let ?s = "s\<lparr>ppage_list := (ppage_list s)[unat i := inc_ref ?e]\<rparr>"
    have run: "reference_page i s = Inr ?s"
      using busy le i read_entry_in [OF g i] write_entry_in [OF g i]
      by (simp add: reference_page_def wired_iff free_iff inc_ref_def [symmetric])
    have "phys_wf ?s fl lim"
      using wf busy refcount_inc [of ?e] free_pas_upd_entry [OF g i, of "inc_ref ?e"]
        page_pa_free_iff [OF g i]
      by (simp add: phys_wf_def free_iff)
    then show ?thesis unfolding run using busy notin by (simp add: frame_def remove1_idem)
  qed
qed

text \<open>One page forced free: whatever its count was, it ends up free, and on the list.\<close>

lemma force_free_page_ok:
  assumes wf: "phys_wf s fl lim" and i: "i < ppages s"
    and room: "refcount (ppage_list s ! unat i) \<noteq> 0 \<Longrightarrow> dis_int_count s \<noteq> - 1"
  shows "\<exists>s'. force_free_page i s = Inr s' \<and> frame s s'
     \<and> ppage_list s' = (ppage_list s)[unat i := PAGE_FREE]
     \<and> phys_wf s' (if refcount (ppage_list s ! unat i) = 0 then fl else page_pa s i # fl) lim"
proof -
  let ?e = "ppage_list s ! unat i"
  have g: "geometry_ok s" using wf by (simp add: phys_wf_def)
  have le: "\<not> ppages s < i" using i by simp
  have z: "refcount PAGE_FREE = 0" by (simp add: refcount_def PAGE_FREE_def)
  have idx: "unat i < length (ppage_list s)" using g i by (rule entry_index)
  show ?thesis
  proof (cases "refcount ?e = 0")
    case True
    then have nw: "?e AND PAGE_REFBITS \<noteq> PAGE_WIRED" by (simp add: wired_iff)
    have "force_free_page i s = Inr (s\<lparr>ppage_list := (ppage_list s)[unat i := PAGE_FREE]\<rparr>)"
      using True le nw read_entry_in [OF g i] write_entry_in [OF g i]
      by (simp add: force_free_page_def free_iff)
    moreover have "phys_wf (s\<lparr>ppage_list := (ppage_list s)[unat i := PAGE_FREE]\<rparr>) fl lim"
      using wf True free_pas_upd_entry [OF g i, of PAGE_FREE] page_pa_free_iff [OF g i] z
      by (auto simp: phys_wf_def free_iff insert_absorb)
    ultimately show ?thesis using True by (simp add: frame_def)
  next
    case False
    let ?w = "if ?e AND PAGE_REFBITS = PAGE_WIRED then wired_pages s - 1 else wired_pages s"
    let ?t = "s\<lparr>wired_pages := ?w, daif_unmasked := (dis_int_count s = 0),
      pmem := push_mem (pmem s) (pa_head s) (page_pa s i), pa_head := page_pa s i,
      free_pages := free_pages s + 1, ppage_list := (ppage_list s)[unat i := PAGE_FREE]\<rparr>"
    have c: "dis_int_count (s\<lparr>wired_pages := w\<rparr>) \<noteq> - 1" for w using room False by simp
    have "force_free_page i s = Inr ?t"
      using False le c idx read_entry_in [OF g i]
      by (simp add: force_free_page_def free_iff phys_page_was_freed_eq write_entry_def)
    moreover have "phys_wf ?t (page_pa s i # fl) lim"
      using phys_wf_push [OF wf i False z] by (rule phys_wf_cong [THEN iffD1, rotated -1]) simp_all
    ultimately show ?thesis using False by (simp add: frame_def)
  qed
qed

lemma free_member_entry:
  assumes "geometry_ok s" "x \<in> free_pas s"
  obtains e where "phys_get_entry s x = Inr e" and "e AND PAGE_REFBITS = PAGE_FREE"
proof -
  obtain j where "j < ppages s" "x = page_pa s j" "ppage_list s ! unat j AND PAGE_REFBITS = PAGE_FREE"
    using assms(2) by (auto simp: free_pas_def)
  then show ?thesis using that phys_get_entry_page_pa [OF assms(1)] by simp
qed

lemma phys_get_entry_pmem [simp]: "phys_get_entry (s\<lparr>pmem := m\<rparr>) pa = phys_get_entry s pa"
  by (simp add: phys_get_entry_def read_entry_def Let_def)

text \<open>One page unlinked: the list loses exactly that page, wherever it stands.\<close>

lemma unlink_page_ok:
  assumes wf: "phys_wf s fl lim" and i: "i < ppages s" and x: "page_pa s i \<in> set fl"
  shows "\<exists>s'. unlink_page i s = Inr s' \<and> frame s s' \<and> ppage_list s' = ppage_list s
     \<and> phys_wf s' (remove1 (page_pa s i) fl) (page_pa s i # lim)"
proof -
  let ?x = "page_pa s i" and ?m = "pmem s"
  have g: "geometry_ok s" and d: "dseg ?m 0 (pa_head s) fl 0" and dist: "distinct (fl @ lim)"
    and eq: "set (fl @ lim) = free_pas s" and cnt: "unat (free_pages s) = length fl + length lim"
    using wf by (auto simp: phys_wf_def)
  obtain as bs where fl: "fl = as @ ?x # bs" using x by (metis split_list)
  have le: "\<not> ppages s < i" using i by simp
  have free: "y \<in> free_pas s" if "y \<in> set fl" for y using that eq by auto
  have dx: "?m (?x + 8) = last_or 0 as" "dseg ?m ?x (?m ?x) bs 0"
    using d fl by (auto simp: dseg_append)
  have nextin: "?m ?x \<in> free_pas s" if "?m ?x \<noteq> 0"
    using dseg_hd [OF dx(2) that] free fl by auto
  have previn: "?m (?x + 8) \<in> free_pas s" if "?m (?x + 8) \<noteq> 0"
    using that dx(1) free fl by (cases as rule: rev_cases) auto
  let ?t = "s\<lparr>pmem := unlink_mem ?m ?x, pa_head := unlink_head ?m (pa_head s) ?x\<rparr>"
  obtain e where e: "phys_get_entry s ?x = Inr e" "e AND PAGE_REFBITS = PAGE_FREE"
    using free_member_entry [OF g free [OF x]] by blast
  obtain en where en: "?m ?x \<noteq> 0 \<Longrightarrow> phys_get_entry s (?m ?x) = Inr en \<and> en AND PAGE_REFBITS = PAGE_FREE"
    using free_member_entry [OF g nextin] by metis
  obtain ep where ep: "?m (?x + 8) \<noteq> 0 \<Longrightarrow>
      phys_get_entry s (?m (?x + 8)) = Inr ep \<and> ep AND PAGE_REFBITS = PAGE_FREE"
    using free_member_entry [OF g previn] by metis
  have "unlink_page i s = Inr ?t"
    using e en ep le by (auto simp: unlink_page_def unlink_mem_def unlink_head_def Let_def)
  moreover have "remove1 ?x fl = as @ bs" using fl dist by (auto simp: remove1_append)
  moreover have "phys_wf ?t (as @ bs) (?x # lim)"
  proof -
    have "dseg (unlink_mem ?m ?x) 0 (unlink_head ?m (pa_head s) ?x) (as @ bs) 0"
      using d dist phys_wf_aligned [OF wf] unfolding fl
      by (intro dseg_remove) (auto simp: all_aligned_def)
    then show ?thesis using g dist eq cnt fl by (auto simp: phys_wf_def)
  qed
  ultimately show ?thesis by (simp add: frame_def)
qed

end
