(* ===== verification/PhysRange.thy ===== *)
theory PhysRange
  imports PhysOps
begin

unbundle bit_operations_syntax

text \<open>
  The range operations of the page allocator, \<open>phys_reference\<close>, \<open>phys_dereference\<close>,
  \<open>phys_force_free\<close> and \<open>phys_unlink_contiguous\<close>, lifted from one page to their loops.
\<close>

section \<open>Entries of a range\<close>

definition upd_range :: "('e \<Rightarrow> 'e) \<Rightarrow> nat \<Rightarrow> nat \<Rightarrow> 'e list \<Rightarrow> 'e list" where
  "upd_range f i j l = map (\<lambda>k. if i \<le> k \<and> k < j then f (l ! k) else l ! k) [0..<length l]"

lemma upd_range_empty [simp]: "upd_range f i i l = l"
  by (rule nth_equalityI) (auto simp: upd_range_def)

lemma length_upd_range [simp]: "length (upd_range f i j l) = length l"
  by (simp add: upd_range_def)

lemma nth_upd_range:
  "k < length l \<Longrightarrow> upd_range f i j l ! k = (if i \<le> k \<and> k < j then f (l ! k) else l ! k)"
  by (simp add: upd_range_def)

lemma upd_range_Suc:
  "i \<le> j \<Longrightarrow> j < length l \<Longrightarrow> (upd_range f i j l)[j := f (upd_range f i j l ! j)] = upd_range f i (Suc j) l"
  by (rule nth_equalityI) (auto simp: nth_upd_range nth_list_update)

section \<open>Page ranges\<close>

definition page_idx :: "'a phys_scheme \<Rightarrow> u64 \<Rightarrow> u64" where
  "page_idx s pa = drop_bit 14 (pa - physBase s)"

lemma drop14_add:
  "unat (drop_bit 14 (x :: u64) + drop_bit 14 y) = unat (drop_bit 14 x) + unat (drop_bit 14 y)"
proof -
  have "unat (drop_bit 14 z) < 2 ^ 50" for z :: u64
  proof -
    have "unat z < 2 ^ 64" using unsigned_less [of z, where ?'a = nat] by simp
    then show ?thesis by (simp add: unat_drop14)
  qed
  from this [of x] this [of y] show ?thesis by (simp add: unat_word_ariths)
qed

lemma drop14_le: "drop_bit 14 (x :: u64) \<le> drop_bit 14 x + drop_bit 14 y"
  by (simp add: word_le_nat_alt drop14_add)

lemma page_pa_idx:
  assumes "(pa - physBase s) AND 0x3fff = 0"
  shows "page_pa s (page_idx s pa) = pa"
proof -
  have m: "unat (pa - physBase s) mod 16384 = 0" using assms by (simp add: aligned_iff)
  then have e: "unat (pa - physBase s) div 16384 * 16384 = unat (pa - physBase s)"
    by (simp add: mod_0_imp_dvd)
  have b: "unat (pa - physBase s) < 2 ^ 64" using unsigned_less [of "pa - physBase s", where ?'a = nat] by simp
  have "unat (push_bit 14 (drop_bit 14 (pa - physBase s))) = unat (pa - physBase s)"
    using e b by (subst unat_push14) (simp_all add: unat_drop14)
  then have "push_bit 14 (drop_bit 14 (pa - physBase s)) = pa - physBase s"
    by (simp add: word_unat_eq_iff)
  then show ?thesis by (simp add: page_pa_def page_idx_def)
qed

text \<open>The range \<open>[pa, pa + sz)\<close> lies in RAM, on page boundaries of it.\<close>

definition in_ram :: "'a phys_scheme \<Rightarrow> u64 \<Rightarrow> u64 \<Rightarrow> bool" where
  "in_ram s pa sz \<longleftrightarrow> pa \<noteq> 0 \<and> physBase s \<le> pa \<and> (pa - physBase s) AND 0x3fff = 0
     \<and> unat (page_idx s pa) + unat (drop_bit 14 sz) \<le> unat (ppages s)"

text \<open>The shared shape of the four range operations.\<close>

definition range_op ::
  "(u64 \<Rightarrow> 'a phys_scheme \<Rightarrow> error + 'a phys_scheme) \<Rightarrow> u64 \<Rightarrow> u64 \<Rightarrow> 'a phys_scheme \<Rightarrow> error + 'a phys_scheme"
where
  "range_op body i n s =
     bindE (disable_interrupts s) (\<lambda>s. bindE (for_up body i (i + n) s) enable_interrupts)"

lemma range_op_partial:
  assumes run: "range_op body i n s = Inr s'" and le: "i \<le> i + n"
    and P0: "\<And>c b. P i (s\<lparr>dis_int_count := c, daif_unmasked := b\<rparr>)"
    and step: "\<And>j t t'. P j t \<Longrightarrow> body j t = Inr t' \<Longrightarrow> P (j + 1) t' \<and> dis_int_count t' = dis_int_count t"
    and frame: "\<And>t c b. P (i + n) t \<Longrightarrow> Q (t\<lparr>dis_int_count := c, daif_unmasked := b\<rparr>)"
  shows "Q s' \<and> dis_int_count s' = dis_int_count s"
proof -
  obtain s1 s2 where s1: "disable_interrupts s = Inr s1" and s2: "for_up body i (i + n) s1 = Inr s2"
    and s3: "enable_interrupts s2 = Inr s'"
    using run by (auto simp: range_op_def)
  have "P (i + n) s2 \<and> dis_int_count s2 = dis_int_count s1"
  proof (rule for_up_inv [OF s2, where P = "\<lambda>j t. P j t \<and> dis_int_count t = dis_int_count s1"])
    show "P i s1 \<and> dis_int_count s1 = dis_int_count s1"
      using s1 P0 by (auto elim!: disable_interrupts_InrE)
    show "i \<le> i + n" by (rule le)
    fix j t t' assume "P j t \<and> dis_int_count t = dis_int_count s1" and "body j t = Inr t'"
    then show "P (j + 1) t' \<and> dis_int_count t' = dis_int_count s1" using step [of j t t'] by metis
  qed
  then show ?thesis using s1 s3 frame by (auto elim!: disable_interrupts_InrE enable_interrupts_InrE)
qed

lemma range_op_total:
  assumes room: "irq_room 2 s" and le: "i \<le> i + n"
    and P0: "P i (s\<lparr>dis_int_count := dis_int_count s + 1, daif_unmasked := False\<rparr>)"
    and step: "\<And>j t. i \<le> j \<Longrightarrow> j < i + n \<Longrightarrow> P j t \<Longrightarrow> dis_int_count t = dis_int_count s + 1 \<Longrightarrow>
       \<exists>t'. body j t = Inr t' \<and> P (j + 1) t' \<and> dis_int_count t' = dis_int_count t"
    and frame: "\<And>t c b. P (i + n) t \<Longrightarrow> Q (t\<lparr>dis_int_count := c, daif_unmasked := b\<rparr>)"
  shows "\<exists>s'. range_op body i n s = Inr s' \<and> Q s' \<and> dis_int_count s' = dis_int_count s"
proof -
  let ?s1 = "s\<lparr>dis_int_count := dis_int_count s + 1, daif_unmasked := False\<rparr>"
  have s1: "disable_interrupts s = Inr ?s1"
    using irq_room_not_max [OF room, simplified] by (rule disable_interrupts_returns)
  have "\<exists>s2. for_up body i (i + n) ?s1 = Inr s2 \<and> P (i + n) s2 \<and> dis_int_count s2 = dis_int_count s + 1"
    using P0 le step by (intro for_up_total) auto
  then obtain s2 where s2: "for_up body i (i + n) ?s1 = Inr s2" "P (i + n) s2"
    "dis_int_count s2 = dis_int_count s + 1" by blast
  have "dis_int_count s2 \<noteq> 0" using irq_room_not_max [OF room, simplified] s2(3) by (simp add: add_eq_0_iff2)
  then show ?thesis using s1 s2 frame [OF s2(2)]
    by (simp add: range_op_def enable_interrupts_returns)
qed

lemma phys_reference_range:
  "phys_reference pa sz s =
     (if pa = 0 \<or> pa < physBase s then Inr s
      else if (pa - physBase s) AND 0x3fff \<noteq> 0 then Inl (Panic ''phys_reference only works with aligned PAs'')
      else range_op reference_page (page_idx s pa) (drop_bit 14 sz) s)"
  by (simp add: phys_reference_def range_op_def page_idx_def Let_def)

lemma phys_dereference_range:
  "phys_dereference pa sz s =
     (if pa = 0 \<or> pa < physBase s then Inr s
      else if (pa - physBase s) AND 0x3fff \<noteq> 0 then Inl (Panic ''phys_dereference only works with aligned PAs'')
      else range_op dereference_page (page_idx s pa) (drop_bit 14 sz) s)"
  by (simp add: phys_dereference_def range_op_def page_idx_def Let_def)

lemma phys_force_free_range:
  "phys_force_free pa sz s =
     (if (pa - physBase s) AND 0x3fff \<noteq> 0 then Inl (Panic ''phys_force_free only works with aligned PAs'')
      else range_op force_free_page (page_idx s pa) (drop_bit 14 sz) s)"
  by (simp add: phys_force_free_def range_op_def page_idx_def Let_def)

lemma phys_unlink_contiguous_range:
  "phys_unlink_contiguous pa sz s =
     (if pa = 0 \<or> pa < physBase s then Inr s
      else if (pa - physBase s) AND 0x3fff \<noteq> 0
      then Inl (Panic ''phys_unlink_contiguous only works with aligned PAs'')
      else range_op unlink_page (page_idx s pa) (drop_bit 14 ((sz + 0x3fff) AND NOT 0x3fff)) s)"
  by (simp add: phys_unlink_contiguous_def range_op_def page_idx_def Let_def)

lemma range_op_fail:
  assumes room: "irq_room 2 s" and le: "i \<le> k" "k < i + n"
    and P0: "P i (s\<lparr>dis_int_count := dis_int_count s + 1, daif_unmasked := False\<rparr>)"
    and step: "\<And>j t. i \<le> j \<Longrightarrow> j < k \<Longrightarrow> P j t \<Longrightarrow> \<exists>t'. body j t = Inr t' \<and> P (j + 1) t'"
    and fail: "\<And>t. P k t \<Longrightarrow> body k t = Inl err"
  shows "range_op body i n s = Inl err"
  using for_up_fail [where P = P, OF P0 le step fail] irq_room_not_max [OF room, simplified]
  by (simp add: range_op_def disable_interrupts_returns)

section \<open>The pages of a range\<close>

definition pages :: "'a phys_scheme \<Rightarrow> nat list \<Rightarrow> u64 list" where
  "pages s ks = map (\<lambda>k. page_pa s (of_nat k)) ks"

lemma pages_simps [simp]:
  "pages s [] = []" "pages s (k # ks) = page_pa s (of_nat k) # pages s ks"
  "pages s (ks @ js) = pages s ks @ pages s js"
  by (simp_all add: pages_def)

lemma pages_frame: "frame s t \<Longrightarrow> pages t = pages s"
  by (simp add: pages_def fun_eq_iff frame_page_pa)

definition last_refs :: "u32 list \<Rightarrow> nat \<Rightarrow> nat \<Rightarrow> nat list" where
  "last_refs l i j = filter (\<lambda>k. refcount (l ! k) = 1) [i..<j]"

definition in_use :: "u32 list \<Rightarrow> nat \<Rightarrow> nat \<Rightarrow> nat list" where
  "in_use l i j = filter (\<lambda>k. refcount (l ! k) \<noteq> 0) [i..<j]"

lemma last_refs_Suc:
  "i \<le> j \<Longrightarrow> last_refs l i (Suc j) = last_refs l i j @ (if refcount (l ! j) = 1 then [j] else [])"
  by (simp add: last_refs_def)

lemma in_use_Suc:
  "i \<le> j \<Longrightarrow> in_use l i (Suc j) = in_use l i j @ (if refcount (l ! j) \<noteq> 0 then [j] else [])"
  by (simp add: in_use_def)

lemma last_refs_empty [simp]: "last_refs l i i = []" by (simp add: last_refs_def)
lemma in_use_empty [simp]: "in_use l i i = []" by (simp add: in_use_def)

lemma unat_add_page:
  assumes "unat i + unat (n :: u64) \<le> unat (m :: u64)"
  shows "unat (i + n) = unat i + unat n" and "i \<le> i + n"
proof -
  have "unat m < 2 ^ 64" using unsigned_less [of m, where ?'a = nat] by simp
  with assms show e: "unat (i + n) = unat i + unat n" by (simp add: unat_word_ariths)
  then show "i \<le> i + n" by (simp add: word_le_nat_alt)
qed

section \<open>The four operations over a range\<close>

text \<open>\<open>upto s f L i j t\<close>: \<open>t\<close> is \<open>s\<close> after the iterations \<open>i, ..., j - 1\<close>: their entries
  have gone through \<open>f\<close>, and \<open>L j\<close> is what the free list and the limbo hold.\<close>

definition upto ::
  "'a phys_scheme \<Rightarrow> (u32 \<Rightarrow> u32) \<Rightarrow> (nat \<Rightarrow> u64 list \<times> u64 list) \<Rightarrow> nat \<Rightarrow> u64 \<Rightarrow> 'a phys_scheme \<Rightarrow> bool"
where
  "upto s f L i j t \<longleftrightarrow> frame s t \<and> i \<le> unat j
     \<and> ppage_list t = upd_range f i (unat j) (ppage_list s)
     \<and> phys_wf t (fst (L (unat j))) (snd (L (unat j)))"

lemma upto_step:
  assumes P: "upto s f L i j t" and j: "j < ppages s" and g: "geometry_ok s"
    and step: "\<And>t. phys_wf t (fst (L (unat j))) (snd (L (unat j))) \<Longrightarrow> frame s t \<Longrightarrow>
        ppage_list t ! unat j = ppage_list s ! unat j \<Longrightarrow> j < ppages t \<Longrightarrow> page_pa t = page_pa s \<Longrightarrow>
        \<exists>t'. body j t = Inr t' \<and> frame t t'
          \<and> ppage_list t' = (ppage_list t)[unat j := f (ppage_list t ! unat j)]
          \<and> phys_wf t' (fst (L (Suc (unat j)))) (snd (L (Suc (unat j))))"
  shows "\<exists>t'. body j t = Inr t' \<and> upto s f L i (j + 1) t'"
proof -
  have fr: "frame s t" and ij: "i \<le> unat j" and l: "ppage_list t = upd_range f i (unat j) (ppage_list s)"
    and wf: "phys_wf t (fst (L (unat j))) (snd (L (unat j)))"
    using P by (auto simp: upto_def)
  have idx: "unat j < length (ppage_list s)" using g j by (rule entry_index)
  have e: "ppage_list t ! unat j = ppage_list s ! unat j" using l idx by (simp add: nth_upd_range)
  have jt: "j < ppages t" using fr j by (simp add: frame_def)
  obtain t' where t': "body j t = Inr t'" "frame t t'"
    "ppage_list t' = (ppage_list t)[unat j := f (ppage_list t ! unat j)]"
    "phys_wf t' (fst (L (Suc (unat j)))) (snd (L (Suc (unat j))))"
    using step [OF wf fr e jt frame_page_pa [OF fr]] by blast
  have "ppage_list t' = upd_range f i (unat (j + 1)) (ppage_list s)"
    using t'(3) l idx upd_range_Suc [OF ij idx, of f] j by (simp add: unat_Suc_less)
  then show ?thesis
    using t' frame_trans [OF fr t'(2)] ij j by (simp add: upto_def unat_Suc_less)
qed

lemma range_op_upto:
  assumes wf: "phys_wf s (fst (L i)) (snd (L i))" and room: "irq_room 2 s"
    and le: "unat w + unat n \<le> unat (ppages s)" and i: "i = unat w" and j: "j = i + unat n"
    and step: "\<And>k t. i \<le> unat k \<Longrightarrow> unat k < j \<Longrightarrow>
        phys_wf t (fst (L (unat k))) (snd (L (unat k))) \<Longrightarrow> dis_int_count t \<noteq> - 1 \<Longrightarrow>
        ppage_list t ! unat k = ppage_list s ! unat k \<Longrightarrow> k < ppages t \<Longrightarrow> page_pa t = page_pa s \<Longrightarrow>
        \<exists>t'. body k t = Inr t' \<and> frame t t'
          \<and> ppage_list t' = (ppage_list t)[unat k := f (ppage_list t ! unat k)]
          \<and> phys_wf t' (fst (L (Suc (unat k)))) (snd (L (Suc (unat k))))"
  shows "\<exists>s'. range_op body w n s = Inr s' \<and> frame s s'
     \<and> ppage_list s' = upd_range f i j (ppage_list s) \<and> phys_wf s' (fst (L j)) (snd (L j))"
proof -
  let ?s = "s\<lparr>dis_int_count := dis_int_count s + 1, daif_unmasked := False\<rparr>"
  have g: "geometry_ok s" using wf by (simp add: phys_wf_def)
  note un = unat_add_page [OF le]
  have jj: "j = unat (w + n)" using un i j by simp
  have "\<exists>s'. range_op body w n s = Inr s' \<and>
      (frame s (s'\<lparr>dis_int_count := dis_int_count s\<rparr>) \<and> ppage_list s' = upd_range f i j (ppage_list s)
       \<and> phys_wf s' (fst (L j)) (snd (L j))) \<and> dis_int_count s' = dis_int_count s"
  proof (rule range_op_total [where P = "upto ?s f L i", OF room un(2)])
    show "upto ?s f L i w ?s" using wf i by (simp add: upto_def)
    fix k t assume k: "w \<le> k" "k < w + n" "upto ?s f L i k t" "dis_int_count t = dis_int_count s + 1"
    then have kk: "k < ppages s" and kn: "i \<le> unat k" "unat k < j"
      using le un i j by (auto simp: word_less_nat_alt word_le_nat_alt)
    have "\<exists>t'. body k t = Inr t' \<and> upto ?s f L i (k + 1) t'"
    proof (rule upto_step [OF k(3)])
      fix u assume u: "phys_wf u (fst (L (unat k))) (snd (L (unat k)))" "frame ?s u"
        "ppage_list u ! unat k = ppage_list ?s ! unat k" "k < ppages u" "page_pa u = page_pa ?s"
      have "dis_int_count u \<noteq> - 1"
        using u(2) irq_room_Suc_not_max [OF room] unfolding frame_def
        by (metis irq.select_convs(1) irq.surjective irq.update_convs(1,2))
      then show "\<exists>t'. body k u = Inr t' \<and> frame u t'
          \<and> ppage_list t' = (ppage_list u)[unat k := f (ppage_list u ! unat k)]
          \<and> phys_wf t' (fst (L (Suc (unat k)))) (snd (L (Suc (unat k))))"
        using step [OF kn u(1)] u by simp
    qed (use kk g in simp_all)
    then show "\<exists>t'. body k t = Inr t' \<and> upto ?s f L i (k + 1) t' \<and> dis_int_count t' = dis_int_count t"
      using k(3) by (auto simp: upto_def frame_def)
  next
    fix t c b assume "upto ?s f L i (w + n) t"
    then show "frame s (t\<lparr>dis_int_count := c, daif_unmasked := b\<rparr>\<lparr>dis_int_count := dis_int_count s\<rparr>)
       \<and> ppage_list (t\<lparr>dis_int_count := c, daif_unmasked := b\<rparr>) = upd_range f i j (ppage_list s)
       \<and> phys_wf (t\<lparr>dis_int_count := c, daif_unmasked := b\<rparr>) (fst (L j)) (snd (L j))"
      using jj by (simp add: upto_def frame_def)
  qed
  then show ?thesis by (auto simp: frame_def)
qed

lemma phys_dereference_total:
  assumes wf: "phys_wf s fl lim" and room: "irq_room 2 s" and ram: "in_ram s pa sz"
    and i: "i = unat (page_idx s pa)" and j: "j = i + unat (drop_bit 14 sz)"
    and busy: "\<forall>k. i \<le> k \<and> k < j \<longrightarrow> refcount (ppage_list s ! k) \<noteq> 0"
  shows "\<exists>s'. phys_dereference pa sz s = Inr s' \<and> frame s s'
     \<and> ppage_list s' = upd_range dec_ref i j (ppage_list s)
     \<and> phys_wf s' (rev (pages s (last_refs (ppage_list s) i j)) @ fl) lim"
proof -
  have "\<exists>s'. range_op dereference_page (page_idx s pa) (drop_bit 14 sz) s = Inr s' \<and> frame s s'
     \<and> ppage_list s' = upd_range dec_ref i j (ppage_list s)
     \<and> phys_wf s' (fst (rev (pages s (last_refs (ppage_list s) i j)) @ fl, lim))
          (snd (rev (pages s (last_refs (ppage_list s) i j)) @ fl, lim))"
  proof (rule range_op_upto [OF _ room _ i j])
    fix k t assume k: "i \<le> unat k" "unat k < j" and t: "k < ppages t" "page_pa t = page_pa s"
      "dis_int_count t \<noteq> - 1" and e: "ppage_list t ! unat k = ppage_list s ! unat k"
      and w: "phys_wf t (fst (rev (pages s (last_refs (ppage_list s) i (unat k))) @ fl, lim))
          (snd (rev (pages s (last_refs (ppage_list s) i (unat k))) @ fl, lim))"
    show "\<exists>t'. dereference_page k t = Inr t' \<and> frame t t'
          \<and> ppage_list t' = (ppage_list t)[unat k := dec_ref (ppage_list t ! unat k)]
          \<and> phys_wf t' (fst (rev (pages s (last_refs (ppage_list s) i (Suc (unat k)))) @ fl, lim))
               (snd (rev (pages s (last_refs (ppage_list s) i (Suc (unat k)))) @ fl, lim))"
      using dereference_page_ok [OF w [simplified] t(1)] busy k t e
      by (auto simp: last_refs_Suc split: if_splits)
  qed (use wf ram in \<open>auto simp: in_ram_def\<close>)
  then show ?thesis using ram by (auto simp: phys_dereference_range in_ram_def)
qed

lemma phys_force_free_total:
  assumes wf: "phys_wf s fl lim" and room: "irq_room 2 s" and ram: "in_ram s pa sz"
    and i: "i = unat (page_idx s pa)" and j: "j = i + unat (drop_bit 14 sz)"
  shows "\<exists>s'. phys_force_free pa sz s = Inr s' \<and> frame s s'
     \<and> ppage_list s' = upd_range (\<lambda>_. PAGE_FREE) i j (ppage_list s)
     \<and> phys_wf s' (rev (pages s (in_use (ppage_list s) i j)) @ fl) lim"
proof -
  have "\<exists>s'. range_op force_free_page (page_idx s pa) (drop_bit 14 sz) s = Inr s' \<and> frame s s'
     \<and> ppage_list s' = upd_range (\<lambda>_. PAGE_FREE) i j (ppage_list s)
     \<and> phys_wf s' (fst (rev (pages s (in_use (ppage_list s) i j)) @ fl, lim))
          (snd (rev (pages s (in_use (ppage_list s) i j)) @ fl, lim))"
  proof (rule range_op_upto [OF _ room _ i j])
    fix k t assume k: "i \<le> unat k" "unat k < j" and t: "k < ppages t" "page_pa t = page_pa s"
      "dis_int_count t \<noteq> - 1" and e: "ppage_list t ! unat k = ppage_list s ! unat k"
      and w: "phys_wf t (fst (rev (pages s (in_use (ppage_list s) i (unat k))) @ fl, lim))
          (snd (rev (pages s (in_use (ppage_list s) i (unat k))) @ fl, lim))"
    show "\<exists>t'. force_free_page k t = Inr t' \<and> frame t t'
          \<and> ppage_list t' = (ppage_list t)[unat k := PAGE_FREE]
          \<and> phys_wf t' (fst (rev (pages s (in_use (ppage_list s) i (Suc (unat k)))) @ fl, lim))
               (snd (rev (pages s (in_use (ppage_list s) i (Suc (unat k)))) @ fl, lim))"
      using force_free_page_ok [OF w [simplified] t(1)] k t e
      by (auto simp: in_use_Suc split: if_splits)
  qed (use wf ram in \<open>auto simp: in_ram_def\<close>)
  then show ?thesis using ram by (auto simp: phys_force_free_range in_ram_def)
qed

definition removes :: "'a phys_scheme \<Rightarrow> nat list \<Rightarrow> u64 list \<Rightarrow> u64 list" where
  "removes s ks l = foldl (\<lambda>l k. remove1 (page_pa s (of_nat k)) l) l ks"

lemma removes_Nil [simp]: "removes s [] l = l" by (simp add: removes_def)

lemma removes_snoc [simp]: "removes s (ks @ [k]) l = remove1 (page_pa s (of_nat k)) (removes s ks l)"
  by (simp add: removes_def)

lemma removes_Cons [simp]: "removes s (k # ks) l = removes s ks (remove1 (page_pa s (of_nat k)) l)"
  by (simp add: removes_def)

lemma removes_distinct: "distinct l \<Longrightarrow> set (removes s ks l) = set l - set (pages s ks) \<and> distinct (removes s ks l)"
  by (induction ks rule: rev_induct) (auto simp: removes_def)

lemma removes_all: "distinct l \<Longrightarrow> set l \<subseteq> set (pages s ks) \<Longrightarrow> removes s ks l = []"
  using removes_distinct [of l s ks] by (simp add: Diff_eq_empty_iff [THEN iffD2])

definition ref_up :: "u32 \<Rightarrow> u32" where
  "ref_up e = (if refcount e = 2 ^ 24 - 1 then e else inc_ref e)"

lemma phys_reference_total:
  assumes wf: "phys_wf s fl lim" and room: "irq_room 2 s" and ram: "in_ram s pa sz"
    and i: "i = unat (page_idx s pa)" and j: "j = i + unat (drop_bit 14 sz)"
    and off: "\<forall>k. i \<le> k \<and> k < j \<and> refcount (ppage_list s ! k) = 0 \<longrightarrow> page_pa s (of_nat k) \<in> set lim"
  shows "\<exists>s'. phys_reference pa sz s = Inr s' \<and> frame s s'
     \<and> ppage_list s' = upd_range ref_up i j (ppage_list s) \<and> phys_wf s' fl (removes s [i..<j] lim)"
proof -
  have dist: "distinct (fl @ lim)" using wf by (simp add: phys_wf_def)
  have "\<exists>s'. range_op reference_page (page_idx s pa) (drop_bit 14 sz) s = Inr s' \<and> frame s s'
     \<and> ppage_list s' = upd_range ref_up i j (ppage_list s)
     \<and> phys_wf s' (fst (fl, removes s [i..<j] lim)) (snd (fl, removes s [i..<j] lim))"
  proof (rule range_op_upto [OF _ room _ i j])
    fix k t assume k: "i \<le> unat k" "unat k < j" and t: "k < ppages t" "page_pa t = page_pa s"
      and e: "ppage_list t ! unat k = ppage_list s ! unat k"
      and w: "phys_wf t (fst (fl, removes s [i..<unat k] lim)) (snd (fl, removes s [i..<unat k] lim))"
    have g: "geometry_ok t" using w by (simp add: phys_wf_def)
    have inl: "page_pa t k \<in> set (removes s [i..<unat k] lim)" if "refcount (ppage_list t ! unat k) = 0"
    proof -
      have "page_pa t k \<in> set (fl @ removes s [i..<unat k] lim)"
        using w that page_pa_free_iff [OF g t(1)] by (simp add: phys_wf_def)
      moreover have "page_pa t k \<in> set lim" using off [rule_format, of "unat k"] that e k t by simp
      ultimately show ?thesis using dist by auto
    qed
    obtain t' where "reference_page k t = Inr t'" "frame t t'"
      "ppage_list t' = (if refcount (ppage_list t ! unat k) = 2 ^ 24 - 1 then ppage_list t
                        else (ppage_list t)[unat k := inc_ref (ppage_list t ! unat k)])"
      "phys_wf t' fl (remove1 (page_pa t k) (removes s [i..<unat k] lim))"
      using reference_page_ok [OF w [simplified] t(1) inl] by blast
    then show "\<exists>t'. reference_page k t = Inr t' \<and> frame t t'
          \<and> ppage_list t' = (ppage_list t)[unat k := ref_up (ppage_list t ! unat k)]
          \<and> phys_wf t' (fst (fl, removes s [i..<Suc (unat k)] lim)) (snd (fl, removes s [i..<Suc (unat k)] lim))"
      using k t by (auto simp: ref_up_def)
  qed (use wf ram in \<open>auto simp: in_ram_def\<close>)
  then show ?thesis using ram by (auto simp: phys_reference_range in_ram_def)
qed

lemma phys_unlink_contiguous_total:
  assumes wf: "phys_wf s fl lim" and room: "irq_room 2 s"
    and ram: "in_ram s pa ((sz + 0x3fff) AND NOT 0x3fff)"
    and i: "i = unat (page_idx s pa)" and j: "j = i + unat (drop_bit 14 ((sz + 0x3fff) AND NOT 0x3fff))"
    and off: "\<forall>k. i \<le> k \<and> k < j \<longrightarrow> page_pa s (of_nat k) \<in> set fl"
  shows "\<exists>s'. phys_unlink_contiguous pa sz s = Inr s' \<and> frame s s' \<and> ppage_list s' = ppage_list s
     \<and> phys_wf s' (removes s [i..<j] fl) (rev (pages s [i..<j]) @ lim)"
proof -
  let ?L = "\<lambda>k. (removes s [i..<k] fl, rev (pages s [i..<k]) @ lim)"
  have upd: "upd_range id a b l = l" for a b and l :: "u32 list"
    by (rule nth_equalityI) (auto simp: nth_upd_range)
  have dist: "distinct fl" and g: "geometry_ok s" using wf by (auto simp: phys_wf_def)
  have jle: "j \<le> unat (ppages s)" using ram i j by (simp add: in_ram_def)
  have "\<exists>s'. range_op unlink_page (page_idx s pa) (drop_bit 14 ((sz + 0x3fff) AND NOT 0x3fff)) s = Inr s'
     \<and> frame s s' \<and> ppage_list s' = upd_range id i j (ppage_list s)
     \<and> phys_wf s' (fst (?L j)) (snd (?L j))"
  proof (rule range_op_upto [where L = ?L, OF _ room _ i j])
    fix k t assume k: "i \<le> unat k" "unat k < j" and t: "k < ppages t" "page_pa t = page_pa s"
      and w: "phys_wf t (fst (?L (unat k))) (snd (?L (unat k)))"
    have ks: "k < ppages s" using k jle by (simp add: word_less_nat_alt)
    have notin: "page_pa s k \<notin> set (pages s [i..<unat k])"
    proof
      assume "page_pa s k \<in> set (pages s [i..<unat k])"
      then obtain m where m: "m < unat k" "page_pa s k = page_pa s (of_nat m)" by (auto simp: pages_def)
      then have um: "unat (of_nat m :: u64) = m"
        by (metis le_unat_uoi less_imp_le_nat)
      with m have "of_nat m \<le> ppages s" using ks by (simp add: word_le_nat_alt word_less_nat_alt)
      with m page_pa_inj [OF g, of k "of_nat m"] ks um show False by auto
    qed
    have "page_pa s k \<in> set fl" using off [rule_format, of "unat k"] k by simp
    then have "page_pa t k \<in> set (removes s [i..<unat k] fl)"
      using removes_distinct [OF dist, of s "[i..<unat k]"] notin t by simp
    then show "\<exists>t'. unlink_page k t = Inr t' \<and> frame t t'
          \<and> ppage_list t' = (ppage_list t)[unat k := id (ppage_list t ! unat k)]
          \<and> phys_wf t' (fst (?L (Suc (unat k)))) (snd (?L (Suc (unat k))))"
      using unlink_page_ok [OF w [simplified] t(1)] k t by auto
  qed (use wf ram in \<open>auto simp: in_ram_def\<close>)
  then show ?thesis using ram by (auto simp: phys_unlink_contiguous_range in_ram_def upd)
qed

section \<open>What a call that returns has done\<close>

lemma range_op_keeps:
  assumes run: "range_op body i n s = Inr s'" and wf: "phys_wf s fl lim" and le: "i \<le> i + n"
    and step: "\<And>j t t' fl. phys_wf t fl lim \<Longrightarrow> body j t = Inr t' \<Longrightarrow>
       \<exists>fl'. phys_wf t' fl' lim \<and> frame t t'"
  shows "\<exists>fl'. phys_wf s' fl' lim \<and> frame s s'"
proof -
  let ?P = "\<lambda>t. (\<exists>fl'. phys_wf t fl' lim) \<and> frame s (t\<lparr>dis_int_count := dis_int_count s\<rparr>)"
  have "?P s' \<and> dis_int_count s' = dis_int_count s"
  proof (rule range_op_partial [OF run le, where P = "\<lambda>_ t. ?P t"])
    fix j t t' assume a: "?P t" "body j t = Inr t'"
    then obtain fl1 where w: "phys_wf t fl1 lim" by blast
    from step [OF w a(2)] show "?P t' \<and> dis_int_count t' = dis_int_count t"
      using a(1) by (auto simp: frame_def)
  qed (use wf in \<open>auto simp: frame_def\<close>)
  then show ?thesis by (auto simp: frame_def)
qed

lemma phys_dereference_keeps:
  assumes "phys_dereference pa sz s = Inr s'" and "phys_wf s fl lim"
  shows "\<exists>fl'. phys_wf s' fl' lim \<and> frame s s'"
proof -
  have "\<exists>fl'. phys_wf t' fl' lim \<and> frame t t'"
    if "phys_wf t fl lim" "dereference_page j t = Inr t'" for j t t' fl
    using dereference_page_ok [OF that(1) dereference_page_Inr [OF that(2)]] that
    by (auto simp: phys_wf_def)
  then have "\<exists>fl'. phys_wf s' fl' lim \<and> frame s s'"
    if "range_op dereference_page (page_idx s pa) (drop_bit 14 sz) s = Inr s'"
    using range_op_keeps [OF that assms(2)] drop14_le unfolding page_idx_def by blast
  then show ?thesis
    using assms by (auto simp: phys_dereference_range split: if_splits)
qed

end
