(* ===== verification/PhysAlloc.thy ===== *)
theory PhysAlloc
  imports PhysRange
begin

unbundle bit_operations_syntax

text \<open>
  Allocation and release on top of the range operations: \<open>ppage_alloc\<close>, \<open>ppage_free\<close>,
  \<open>alloc_phys\<close>, \<open>alloc_init\<close>.
\<close>

section \<open>Clearing a page\<close>

lemma page_apart:
  assumes "(x :: u64) AND 0x3fff = 0" "y AND 0x3fff = 0" "x \<noteq> y"
  shows "PAGE_SIZE \<le> y - x" and "PAGE_SIZE \<le> y + 8 - x"
proof -
  let ?d = "y - x"
  have z: "unat ?d \<noteq> 0" using assms(3) by (simp add: unat_eq_0)
  have b: "unat ?d < 2 ^ 64" using unsigned_less [of ?d, where ?'a = nat] by simp
  have "unat (x + ?d) mod 16384 = (unat x + unat ?d) mod 16384"
    by (simp only: unat_word_ariths) (simp add: mod_mod_cancel)
  then have m: "unat ?d mod 16384 = 0"
    using assms(1,2) by (simp add: aligned_iff) (metis add.right_neutral add.commute mod_add_left_eq)
  then obtain k where k: "unat ?d = 16384 * k" by (metis mod_0_imp_dvd dvdE)
  have k0: "0 < k" and kb: "k \<le> 1125899906842623" using z b k by auto
  show "PAGE_SIZE \<le> ?d" using k k0 by (simp add: PAGE_SIZE_def word_le_nat_alt)
  have u: "unat (?d + 8) = 16384 * k + 8" using k kb by (simp add: unat_word_ariths)
  have e: "y + 8 - x = ?d + 8" by simp
  show "PAGE_SIZE \<le> y + 8 - x" unfolding e word_le_nat_alt u using k0 by (simp add: PAGE_SIZE_def)
qed

lemma pmem_bzero:
  "pmem (bzero (phystokv x) n s) a =
     (if a - x \<ge> n then pmem s a else if n - (a - x) \<ge> 8 then 0
      else pmem s a AND NOT (low_bytes (n - (a - x))))"
proof -
  have "phystokv x - kCacheableView + 0x800000000 = x" by (simp add: phystokv_def)
  then show ?thesis by (simp add: bzero_def Let_def)
qed

lemma bzero_page_outside:
  assumes "x AND 0x3fff = 0" "y AND 0x3fff = 0" "x \<noteq> y"
  shows "pmem (bzero (phystokv x) PAGE_SIZE s) y = pmem s y"
    and "pmem (bzero (phystokv x) PAGE_SIZE s) (y + 8) = pmem s (y + 8)"
  unfolding pmem_bzero using page_apart [OF assms] by simp_all

lemma bzero_page_inside:
  assumes "w < 2048"
  shows "pmem (bzero (phystokv x) PAGE_SIZE s) (x + 8 * w) = 0"
proof -
  have o: "x + 8 * w - x = 8 * w" by simp
  have w: "unat w < 2048" using assms by (simp add: word_less_nat_alt)
  then have u: "unat (8 * w) = 8 * unat w" by (simp add: unat_word_ariths)
  have le: "8 * w \<le> PAGE_SIZE" using u w by (simp add: PAGE_SIZE_def word_le_nat_alt)
  have "\<not> PAGE_SIZE \<le> 8 * w" using u w by (simp add: PAGE_SIZE_def word_le_nat_alt)
  moreover have "unat (PAGE_SIZE - 8 * w) = 16384 - 8 * unat w"
    using u unat_sub [OF le] by (simp add: PAGE_SIZE_def)
  then have "8 \<le> PAGE_SIZE - 8 * w" using w by (simp add: word_le_nat_alt)
  ultimately show ?thesis unfolding pmem_bzero o by simp
qed

lemma bzero_simps [simp]:
  "physBase (bzero a n s) = physBase s" "ppages (bzero a n s) = ppages s"
  "ppage_list (bzero a n s) = ppage_list s" "pa_head (bzero a n s) = pa_head s"
  "free_pages (bzero a n s) = free_pages s" "dis_int_count (bzero a n s) = dis_int_count s"
  "alloc_static_base (bzero a n s) = alloc_static_base s"
  "daif_unmasked (bzero a n s) = daif_unmasked s"
  by (simp_all add: bzero_def Let_def)

lemma phys_wf_bzero:
  assumes wf: "phys_wf s fl lim" and x: "x AND 0x3fff = 0" "x \<notin> set fl"
  shows "phys_wf (bzero (phystokv x) PAGE_SIZE s) fl lim"
proof -
  have "page_pa (bzero (phystokv x) PAGE_SIZE s) = page_pa s"
    by (simp add: page_pa_def fun_eq_iff)
  moreover have "dseg (pmem (bzero (phystokv x) PAGE_SIZE s)) 0 (pa_head s) fl 0 = dseg (pmem s) 0 (pa_head s) fl 0"
  proof (rule dseg_frame)
    fix y assume y: "y \<in> set fl"
    then have "y AND 0x3fff = 0" "x \<noteq> y" using phys_wf_aligned [OF wf] x by (auto simp: all_aligned_def)
    then show "pmem (bzero (phystokv x) PAGE_SIZE s) y = pmem s y"
      "pmem (bzero (phystokv x) PAGE_SIZE s) (y + 8) = pmem s (y + 8)"
      using bzero_page_outside x(1) by auto
  qed
  ultimately show ?thesis using wf by (simp add: phys_wf_def geometry_ok_def free_pas_def)
qed

section \<open>One page\<close>

lemma page_of_free:
  assumes "geometry_ok s" "x \<in> free_pas s"
  obtains k where "k < ppages s" "x = page_pa s k" "refcount (ppage_list s ! unat k) = 0"
  using assms by (auto simp: free_pas_def free_iff)

lemma page_idx_page_pa: "geometry_ok s \<Longrightarrow> k \<le> ppages s \<Longrightarrow> page_idx s (page_pa s k) = k"
  by (simp add: page_idx_def page_pa_offset)

lemma in_ram_page:
  assumes "geometry_ok s" "k < ppages s" shows "in_ram s (page_pa s k) PAGE_SIZE"
  using page_pa_ge [OF assms(1) less_imp_le [OF assms(2)]] assms(2)
    page_pa_offset(1) [OF assms(1) less_imp_le [OF assms(2)]]
    page_idx_page_pa [OF assms(1) less_imp_le [OF assms(2)]]
  by (simp add: in_ram_def PAGE_SIZE_def word_less_nat_alt)

lemma upd_range_one:
  "k < length l \<Longrightarrow> upd_range f k (Suc k) l = l[k := f (l ! k)]"
  by (rule nth_equalityI) (auto simp: nth_upd_range nth_list_update)

lemma drop_page_size [simp]: "drop_bit 14 PAGE_SIZE = 1"
  by (simp add: PAGE_SIZE_def)

lemma phys_reference_one:
  assumes wf: "phys_wf s fl [page_pa s k]" and room: "irq_room 2 s" and k: "k < ppages s"
    and free: "refcount (ppage_list s ! unat k) = 0"
  shows "\<exists>s'. phys_reference (page_pa s k) PAGE_SIZE s = Inr s' \<and> frame s s' \<and> phys_wf s' fl []
     \<and> ppage_list s' = (ppage_list s)[unat k := inc_ref (ppage_list s ! unat k)]"
proof -
  have g: "geometry_ok s" using wf by (simp add: phys_wf_def)
  note ram = in_ram_page [OF g k] and idx = page_idx_page_pa [OF g less_imp_le [OF k]]
  have u: "upd_range ref_up (unat k) (Suc (unat k)) (ppage_list s) =
      (ppage_list s)[unat k := inc_ref (ppage_list s ! unat k)]"
    using entry_index [OF g k] free by (simp add: upd_range_one ref_up_def)
  have "\<forall>j. unat (page_idx s (page_pa s k)) \<le> j
      \<and> j < unat (page_idx s (page_pa s k)) + unat (drop_bit 14 PAGE_SIZE)
      \<and> refcount (ppage_list s ! j) = 0 \<longrightarrow> page_pa s (of_nat j) \<in> set [page_pa s k]"
    unfolding idx by (auto simp: less_Suc_eq_le dest: antisym)
  from phys_reference_total [OF wf room ram refl refl this] show ?thesis
    by (auto simp: idx u)
qed

lemma phys_dereference_one:
  assumes wf: "phys_wf s fl lim" and room: "irq_room 2 s" and k: "k < ppages s"
    and busy: "refcount (ppage_list s ! unat k) \<noteq> 0"
  shows "\<exists>s'. phys_dereference (page_pa s k) PAGE_SIZE s = Inr s' \<and> frame s s'
     \<and> phys_wf s' (if refcount (ppage_list s ! unat k) = 1 then page_pa s k # fl else fl) lim
     \<and> ppage_list s' = (ppage_list s)[unat k := dec_ref (ppage_list s ! unat k)]"
proof -
  have g: "geometry_ok s" using wf by (simp add: phys_wf_def)
  note ram = in_ram_page [OF g k] and idx = page_idx_page_pa [OF g less_imp_le [OF k]]
  have u: "upd_range dec_ref (unat k) (Suc (unat k)) (ppage_list s) =
      (ppage_list s)[unat k := dec_ref (ppage_list s ! unat k)]"
    using entry_index [OF g k] by (simp add: upd_range_one)
  have "\<forall>j. unat (page_idx s (page_pa s k)) \<le> j
      \<and> j < unat (page_idx s (page_pa s k)) + unat (drop_bit 14 PAGE_SIZE)
      \<longrightarrow> refcount (ppage_list s ! j) \<noteq> 0"
    unfolding idx using busy by (auto simp: less_Suc_eq_le dest: antisym)
  from phys_dereference_total [OF wf room ram refl refl this] show ?thesis
    by (auto simp: idx u last_refs_def split: if_splits)
qed

lemma pop_page:
  assumes wf: "phys_wf s (x # rest) lim"
  shows "phys_wf (s\<lparr>pa_head := pmem s x,
           pmem := if pmem s x \<noteq> 0 then (pmem s)(pmem s x + 8 := 0) else pmem s\<rparr>) rest (x # lim)"
    and "pa_head s = x" and "x \<noteq> 0"
proof -
  have d: "dseg (pmem s) 0 (pa_head s) (x # rest) 0" using wf by (simp add: phys_wf_def)
  then show h: "pa_head s = x" "x \<noteq> 0" by auto
  have "dseg (if pmem s x \<noteq> 0 then (pmem s)(pmem s x + 8 := 0) else pmem s) 0 (pmem s x) rest 0"
    using d h wf phys_wf_aligned [OF wf] by (intro dseg_pop) (auto simp: phys_wf_def all_aligned_def)
  then show "phys_wf (s\<lparr>pa_head := pmem s x,
           pmem := if pmem s x \<noteq> 0 then (pmem s)(pmem s x + 8 := 0) else pmem s\<rparr>) rest (x # lim)"
    using wf by (auto simp: phys_wf_def)
qed

text \<open>A page taken out of the pool: the head of the free list, cleared, with one reference.\<close>

definition taken :: "'a phys_scheme \<Rightarrow> u64 \<Rightarrow> 'a phys_scheme \<Rightarrow> bool" where
  "taken s x s' \<longleftrightarrow> (\<exists>k. k < ppages s \<and> x = page_pa s k \<and> refcount (ppage_list s ! unat k) = 0
     \<and> ppage_list s' = (ppage_list s)[unat k := inc_ref (ppage_list s ! unat k)])
     \<and> (\<forall>w < 2048. pmem s' (x + 8 * w) = 0)"

lemma phys_reference_pmem:
  assumes "phys_reference pa sz s = Inr s'" shows "pmem s' = pmem s"
proof -
  have step: "pmem t' = pmem t \<and> dis_int_count t' = dis_int_count t" if "reference_page j t = Inr t'" for j t t'
    using that by (auto simp: reference_page_def write_entry_def Let_def split: if_splits)
  have "pmem s' = pmem s \<and> dis_int_count s' = dis_int_count s"
    if "range_op reference_page (page_idx s pa) (drop_bit 14 sz) s = Inr s'"
  proof (rule range_op_partial [OF that, where P = "\<lambda>_ t. pmem t = pmem s"])
    show "page_idx s pa \<le> page_idx s pa + drop_bit 14 sz" unfolding page_idx_def by (rule drop14_le)
    show "pmem t' = pmem s \<and> dis_int_count t' = dis_int_count t"
      if "pmem t = pmem s" "reference_page j t = Inr t'" for j t t'
      using step [OF that(2)] that(1) by simp
  qed simp_all
  then show ?thesis using assms by (auto simp: phys_reference_range split: if_splits)
qed

lemma ppage_alloc_take:
  assumes wf: "phys_wf s (x # rest) []" and init: "alloc_static_base s \<noteq> 0" and room: "irq_room 3 s"
  shows "\<exists>s'. ppage_alloc s = Inr (x, s') \<and> phys_wf s' rest [] \<and> frame s s' \<and> taken s x s'"
proof -
  let ?s1 = "s\<lparr>dis_int_count := dis_int_count s + 1, daif_unmasked := False\<rparr>"
  let ?m = "if pmem s x \<noteq> 0 then (pmem s)(pmem s x + 8 := 0) else pmem s"
  let ?s2 = "?s1\<lparr>pa_head := pmem s x, pmem := ?m\<rparr>"
  let ?s3 = "bzero (phystokv x) PAGE_SIZE ?s2"
  have wf1: "phys_wf ?s1 (x # rest) []" using wf by simp
  note pop = pop_page [OF wf1, simplified]
  have wf2: "phys_wf ?s2 rest [x]" using pop(1) by (rule phys_wf_cong [THEN iffD1, rotated -1]) simp_all
  have g: "geometry_ok s" and fx: "x \<in> free_pas s" and xr: "x \<notin> set rest"
    using wf by (auto simp: phys_wf_def)
  have al: "x AND 0x3fff = 0" using free_pas_aligned [OF g fx] .
  have wf3: "phys_wf ?s3 rest [x]" using phys_wf_bzero [OF wf2 al xr] .
  have pp: "page_pa ?s3 = page_pa s" by (simp add: page_pa_def fun_eq_iff)
  obtain k where k: "k < ppages s" "x = page_pa s k" "refcount (ppage_list s ! unat k) = 0"
    using page_of_free [OF g fx] .
  have g3: "geometry_ok ?s3" using wf3 by (simp add: phys_wf_def)
  have room3: "irq_room 2 ?s3" using irq_room_Suc(1) [of 2 s ?s3] room by (simp add: numeral_3_eq_3 numeral_2_eq_2)
  obtain s4 where s4: "phys_reference x PAGE_SIZE ?s3 = Inr s4" "frame ?s3 s4" "phys_wf s4 rest []"
      and l4: "ppage_list s4 = (ppage_list s)[unat k := inc_ref (ppage_list s ! unat k)]"
    using phys_reference_one [of ?s3 rest k] wf3 room3 k pp by auto
  note wf4 = s4(3)
  have m4: "pmem s4 = pmem ?s3" using phys_reference_pmem [OF s4(1)] .
  have c4: "dis_int_count s4 = dis_int_count s + 1" "dis_int_count s4 \<noteq> 0"
    using s4(2) irq_room_Suc(2) [of 2 s s4] room by (simp_all add: frame_def)
  let ?s5 = "s4\<lparr>dis_int_count := dis_int_count s4 - 1, daif_unmasked := (daif_unmasked s4 \<or> dis_int_count s4 = 1)\<rparr>"
  have upd: "(if c then t\<lparr>pmem := m\<rparr> else t) = t\<lparr>pmem := if c then m else pmem t\<rparr>"
    for c m and t :: "'a phys_scheme" by simp
  have run: "ppage_alloc s = Inr (x, ?s5)"
    using init room pop(2,3) s4(1) c4(2)
    by (simp add: ppage_alloc_def disable_interrupts_returns irq_room_not_max enable_interrupts_returns Let_def upd
        cong: if_cong split del: if_split)
  have fr: "frame s ?s5" using s4(2) c4 by (simp add: frame_def)
  have tk: "taken s x ?s5"
    unfolding taken_def using k l4 m4 bzero_page_inside by auto
  show ?thesis
    by (rule exI [of _ ?s5]) (use run wf4 fr tk in simp)
qed

lemma ppage_alloc_empty:
  assumes wf: "phys_wf s [] []" and init: "alloc_static_base s \<noteq> 0" and room: "irq_room 1 s"
  shows "ppage_alloc s = Inl (Panic ''ppage_alloc: OOM'')"
  using assms by (simp add: ppage_alloc_def disable_interrupts_returns irq_room_not_max phys_wf_def)

lemma dec_inc_ref: "refcount e < 2 ^ 24 - 1 \<Longrightarrow> dec_ref (inc_ref e) = e"
proof -
  assume a: "refcount e < 2 ^ 24 - 1"
  have r: "refcount (dec_ref (inc_ref e)) = refcount e"
    using refcount_inc [OF a] refcount_dec [of "inc_ref e"] by simp
  then have lo: "dec_ref (inc_ref e) AND PAGE_REFBITS = e AND PAGE_REFBITS"
    by (simp add: refcount_def word_unat_eq_iff)
  have hi: "dec_ref (inc_ref e) AND NOT PAGE_REFBITS = e AND NOT PAGE_REFBITS"
    by (simp add: dec_ref_def inc_ref_def merge_highbits)
  have split: "(x AND PAGE_REFBITS) OR (x AND NOT PAGE_REFBITS) = x" for x :: u32
    by (rule bit_eqI) (auto simp: bit_simps)
  show ?thesis using split [of e] split [of "dec_ref (inc_ref e)"] lo hi by simp
qed

lemma ppage_free_put:
  assumes wf: "phys_wf s fl []" and room: "irq_room 2 s" and k: "k < ppages s"
    and one: "refcount (ppage_list s ! unat k) = 1"
  shows "\<exists>s'. ppage_free (page_pa s k) s = Inr s' \<and> phys_wf s' (page_pa s k # fl) [] \<and> frame s s'
     \<and> ppage_list s' = (ppage_list s)[unat k := dec_ref (ppage_list s ! unat k)]"
  using phys_dereference_one [OF wf room k] one by (auto simp: ppage_free_def)

end
