(* ===== verification/FirstFit.thy ===== *)
theory FirstFit
  imports Main
begin

text \<open>
  First-fit search for a run of \<open>n\<close> consecutive free slots, as the page allocator and the
  address-space allocator perform it: one pass from left to right that counts the free slots
  seen in a row. \<open>P i\<close> says that slot \<open>i\<close> is free.
\<close>

definition run_of :: "(nat \<Rightarrow> bool) \<Rightarrow> nat \<Rightarrow> nat \<Rightarrow> bool" where
  "run_of P k n \<longleftrightarrow> (\<forall>j. k \<le> j \<and> j < k + n \<longrightarrow> P j)"

definition first_run_of :: "(nat \<Rightarrow> bool) \<Rightarrow> nat \<Rightarrow> nat \<Rightarrow> bool" where
  "first_run_of P k n \<longleftrightarrow> run_of P k n \<and> (\<forall>k' < k. \<not> run_of P k' n)"

lemma first_run_unique: "first_run_of P k n \<Longrightarrow> first_run_of P k' n \<Longrightarrow> k = k'"
  unfolding first_run_of_def by (meson linorder_neqE_nat)

lemma first_run_ex: "run_of P k n \<Longrightarrow> \<exists>k'. first_run_of P k' n"
  unfolding first_run_of_def by (rule exI [of _ "LEAST k. run_of P k n"]) (metis LeastI not_less_Least)

text \<open>What the pass knows at slot \<open>i\<close>: the current run of \<open>f\<close> free slots ends there, it cannot
  be extended to the left, and no run of \<open>n\<close> has been completed.\<close>

definition scan_st :: "(nat \<Rightarrow> bool) \<Rightarrow> nat \<Rightarrow> nat \<Rightarrow> nat \<Rightarrow> bool" where
  "scan_st P n i f \<longleftrightarrow> f \<le> i \<and> f < n
     \<and> (\<forall>j. i - f \<le> j \<and> j < i \<longrightarrow> P j)
     \<and> (f < i \<longrightarrow> \<not> P (i - f - 1))
     \<and> (\<forall>k. k + n \<le> i \<longrightarrow> \<not> run_of P k n)"

lemma scan_st_0: "0 < n \<Longrightarrow> scan_st P n 0 0"
  by (auto simp: scan_st_def)

lemma scan_st_busy:
  assumes inv: "scan_st P n i f" and v: "\<not> P i"
  shows "scan_st P n (Suc i) 0"
proof -
  have "\<not> run_of P k n" if "k + n \<le> Suc i" for k
  proof
    assume r: "run_of P k n"
    have n: "0 < n" using inv by (simp add: scan_st_def)
    show False
    proof (cases "k + n \<le> i")
      case True
      with r inv show False by (simp add: scan_st_def)
    next
      case False
      with that n have "k \<le> i" "i < k + n" by auto
      with r v show False by (auto simp: run_of_def)
    qed
  qed
  then show ?thesis using inv v by (auto simp: scan_st_def)
qed

lemma scan_st_left:
  assumes inv: "scan_st P n i f" and k: "k < i - f" "i < k + n"
  shows "\<not> run_of P k n"
proof
  assume r: "run_of P k n"
  have "k \<le> i - f - 1" "i - f - 1 < k + n" "f < i" using k by auto
  with r inv show False by (auto simp: scan_st_def run_of_def)
qed

lemma scan_st_free:
  assumes inv: "scan_st P n i f" and v: "P i" and f: "Suc f \<noteq> n"
  shows "scan_st P n (Suc i) (Suc f)"
proof -
  have fn: "Suc f < n" "f \<le> i" using inv f by (auto simp: scan_st_def)
  have "\<not> run_of P k n" if "k + n \<le> Suc i" for k
  proof (cases "k + n \<le> i")
    case True
    with inv show ?thesis by (simp add: scan_st_def)
  next
    case False
    with that fn show ?thesis by (intro scan_st_left [OF inv]) auto
  qed
  moreover have "P j" if "i - f \<le> j" "j < Suc i" for j
    using inv v that by (cases "j = i") (auto simp: scan_st_def)
  ultimately show ?thesis using inv v fn by (auto simp: scan_st_def)
qed

lemma scan_st_found:
  assumes inv: "scan_st P n i f" and v: "P i" and f: "Suc f = n"
  shows "first_run_of P (i - f) n"
proof -
  have fi: "f \<le> i" using inv by (simp add: scan_st_def)
  have "P j" if "i - f \<le> j" "j < Suc i" for j
    using inv v that by (cases "j = i") (auto simp: scan_st_def)
  then have "run_of P (i - f) n" using f fi by (auto simp: run_of_def)
  moreover have "\<not> run_of P k n" if "k < i - f" for k
  proof (cases "k + n \<le> i")
    case True
    with inv show ?thesis by (simp add: scan_st_def)
  next
    case False
    with that show ?thesis by (intro scan_st_left [OF inv]) auto
  qed
  ultimately show ?thesis by (simp add: first_run_of_def)
qed

lemma scan_st_end:
  assumes "scan_st P n e f" and "\<And>j. e \<le> j \<Longrightarrow> \<not> P j"
  shows "\<not> run_of P k n"
proof (cases "k + n \<le> e")
  case True
  with assms(1) show ?thesis by (simp add: scan_st_def)
next
  case False
  then have "P (k + n - 1)" if "run_of P k n"
    using that assms(1) by (auto simp: run_of_def scan_st_def)
  with False assms(2) [of "k + n - 1"] show ?thesis by auto
qed

end
