(* ===== verification/PhysContig.thy ===== *)
theory PhysContig
  imports PhysAlloc FirstFit
begin

unbundle bit_operations_syntax

text \<open>
  \<open>alloc_phys\<close>: the first-fit search for a run of free pages, and the allocation of the run
  it finds.
\<close>

section \<open>The search\<close>

definition free_entry :: "u32 list \<Rightarrow> nat \<Rightarrow> bool" where
  "free_entry l j \<longleftrightarrow> j < length l \<and> l ! j = PAGE_FREE"

text \<open>\<open>free_run l k n\<close>: entries \<open>k, ..., k + n - 1\<close> exist and are zero.\<close>

definition free_run :: "u32 list \<Rightarrow> nat \<Rightarrow> nat \<Rightarrow> bool" where
  "free_run l k n \<longleftrightarrow> run_of (free_entry l) k n"

definition first_run :: "u32 list \<Rightarrow> nat \<Rightarrow> nat \<Rightarrow> bool" where
  "first_run l k n \<longleftrightarrow> first_run_of (free_entry l) k n"

lemma free_run_le: "free_run l k n \<Longrightarrow> 0 < n \<Longrightarrow> k + n \<le> length l"
  by (auto simp: free_run_def run_of_def free_entry_def dest: spec [of _ "k + n - 1"])

definition scan_inv :: "'a phys_scheme \<Rightarrow> nat \<Rightarrow> nat \<Rightarrow> nat \<Rightarrow> u64 \<Rightarrow> bool" where
  "scan_inv s n i f rv \<longleftrightarrow> scan_st (free_entry (ppage_list s)) n i f
     \<and> i \<le> length (ppage_list s) \<and> (0 < f \<longrightarrow> rv = page_pa s (of_nat (i - f)))"

lemma scan_inv_0: "0 < n \<Longrightarrow> scan_inv s n 0 0 rv"
  by (simp add: scan_inv_def scan_st_0)

lemma scan_inv_busy:
  assumes "scan_inv s n i f rv" and "ppage_list s ! i \<noteq> PAGE_FREE" and "i < length (ppage_list s)"
  shows "scan_inv s n (Suc i) 0 rv"
  using assms scan_st_busy [of "free_entry (ppage_list s)" n i f] by (simp add: scan_inv_def free_entry_def)

lemma scan_inv_free:
  assumes "scan_inv s n i f rv" and "ppage_list s ! i = PAGE_FREE" and "i < length (ppage_list s)"
    and "Suc f \<noteq> n"
  shows "scan_inv s n (Suc i) (Suc f) (if f = 0 then page_pa s (of_nat i) else rv)"
  using assms scan_st_free [of "free_entry (ppage_list s)" n i f] by (simp add: scan_inv_def free_entry_def)

lemma scan_inv_found:
  assumes "scan_inv s n i f rv" and "ppage_list s ! i = PAGE_FREE" and "i < length (ppage_list s)"
    and "Suc f = n"
  shows "first_run (ppage_list s) (i - f) n"
    and "(if f = 0 then page_pa s (of_nat i) else rv) = page_pa s (of_nat (i - f))"
  using assms scan_st_found [of "free_entry (ppage_list s)" n i f]
  by (auto simp: scan_inv_def free_entry_def first_run_def)

lemma scan_inv_end:
  assumes "scan_inv s n (length (ppage_list s)) f rv" shows "\<not> free_run (ppage_list s) k n"
  using assms scan_st_end [of "free_entry (ppage_list s)" n "length (ppage_list s)" f]
  by (simp add: scan_inv_def free_run_def free_entry_def)

definition scan_result :: "'a phys_scheme \<Rightarrow> nat \<Rightarrow> u64 option \<Rightarrow> bool" where
  "scan_result s n r = (case r of
     None \<Rightarrow> \<forall>k. \<not> free_run (ppage_list s) k n
   | Some rv \<Rightarrow> \<exists>k. first_run (ppage_list s) k n \<and> rv = page_pa s (of_nat k))"

lemma alloc_phys_scan_ok:
  assumes g: "geometry_ok s" and "scan_inv s (unat npages) (unat i) (unat f) rv"
  shows "\<exists>r. alloc_phys_scan s npages i f rv = Inr r \<and> scan_result s (unat npages) r"
  using assms
proof (induction "unat (ppages s) - unat i" arbitrary: i f rv rule: less_induct)
  case less
  note inv = less.prems(2)
  show ?case
  proof (cases "i < ppages s")
    case False
    then have "unat i = length (ppage_list s)"
      using inv g by (simp add: scan_inv_def geometry_ok_def word_less_nat_alt)
    with inv have "scan_result s (unat npages) None" by (simp add: scan_result_def scan_inv_end)
    with False show ?thesis by (subst alloc_phys_scan.simps) simp
  next
    case True
    have dec: "unat (ppages s) - unat (i + 1) < unat (ppages s) - unat i"
      using True unat_Suc_less [OF True] by (simp add: word_less_nat_alt)
    note rd = read_entry_in [OF g True] and idx = entry_index [OF g True]
    have si: "unat (i + 1) = Suc (unat i)" using unat_Suc_less [OF True] .
    have fn: "f < npages" using inv by (simp add: scan_inv_def scan_st_def word_less_nat_alt)
    have sf: "unat (f + 1) = Suc (unat f)" using unat_Suc_less [OF fn] .
    have n0: "npages \<noteq> 0" using fn by auto
    consider (busy) "ppage_list s ! unat i \<noteq> PAGE_FREE"
      | (found) "ppage_list s ! unat i = PAGE_FREE" "f + 1 = npages"
      | (free) "ppage_list s ! unat i = PAGE_FREE" "f + 1 \<noteq> npages" by blast
    then show ?thesis
    proof cases
      case busy
      have "scan_inv s (unat npages) (unat (i + 1)) (unat (0 :: u32)) rv"
        using scan_inv_busy [OF inv busy idx] si by simp
      from less.hyps [OF dec g this]
      have "\<exists>r. alloc_phys_scan s npages (i + 1) 0 rv = Inr r \<and> scan_result s (unat npages) r" .
      with busy True rd n0 show ?thesis by (subst alloc_phys_scan.simps) simp
    next
      case found
      then have "Suc (unat f) = unat npages" using sf by simp
      from scan_inv_found [OF inv found(1) idx this]
      have "scan_result s (unat npages) (Some (if f = 0 then page_pa s i else rv))"
        by (auto simp: scan_result_def unat_eq_0)
      with found True rd show ?thesis by (subst alloc_phys_scan.simps) (simp add: Let_def)
    next
      case free
      then have "Suc (unat f) \<noteq> unat npages" using sf by (metis word_unat_eq_iff)
      from scan_inv_free [OF inv free(1) idx this]
      have i1: "scan_inv s (unat npages) (unat (i + 1)) (unat (f + 1)) (if f = 0 then page_pa s i else rv)"
        using si sf by (auto simp: unat_eq_0 split: if_splits)
      from less.hyps [OF dec g this]
      have "\<exists>r. alloc_phys_scan s npages (i + 1) (f + 1) (if f = 0 then page_pa s i else rv) = Inr r
          \<and> scan_result s (unat npages) r" .
      with free True rd show ?thesis by (subst alloc_phys_scan.simps) (simp add: Let_def)
    qed
  qed
qed


section \<open>The allocation\<close>

definition round_up :: "u32 \<Rightarrow> u32" where
  "round_up sz = (sz + 0x3fff) AND NOT 0x3fff"

definition page_count :: "u32 \<Rightarrow> nat" where
  "page_count sz = unat (round_up sz) div 16384"

lemma round_up_aligned: "unat (round_up sz) = page_count sz * 16384"
proof -
  have "take_bit 14 (round_up sz) = 0"
    by (rule bit_eqI) (auto simp: round_up_def bit_simps)
  then have "round_up sz mod 16384 = 0" by (simp add: take_bit_eq_mod)
  then have "unat (round_up sz) mod 16384 = 0" by (simp add: unat_mod flip: unat_eq_0)
  then show ?thesis by (simp add: page_count_def mod_0_imp_dvd)
qed


lemma round_up_idem:
  assumes "(x :: u64) AND 0x3fff = 0" shows "(x + 0x3fff) AND NOT 0x3fff = x"
proof -
  have "x + 0x3fff = x OR 0x3fff" using assms by (rule disjunctive_add_eq_or)
  then have "(x + 0x3fff) AND NOT 0x3fff = x AND NOT 0x3fff"
    by (simp add: bit.conj_disj_distrib2)
  also have "\<dots> = (x AND 0x3fff) OR (x AND NOT 0x3fff)" using assms by simp
  also have "\<dots> = x AND (0x3fff OR NOT 0x3fff)" by (simp only: bit.conj_disj_distrib)
  also have "\<dots> = x" by (simp only: bit.disj_cancel_right bit.conj_one_right)
  finally show ?thesis .
qed

lemma ucast_round_up:
  "(ucast (round_up sz) :: u64) AND 0x3fff = 0"
  "unat (drop_bit 14 (ucast (round_up sz) :: u64)) = page_count sz"
proof -
  have "unat (ucast (round_up sz) :: u64) = page_count sz * 16384"
    using round_up_aligned [of sz] unsigned_less [of "round_up sz", where ?'a = nat]
    by (simp add: unsigned_ucast_eq take_bit_eq_mod)
  then show "(ucast (round_up sz) :: u64) AND 0x3fff = 0"
    and "unat (drop_bit 14 (ucast (round_up sz) :: u64)) = page_count sz"
    by (simp_all add: aligned_iff unat_drop14)
qed


lemma run_pages_free:
  assumes g: "geometry_ok s" and r: "free_run (ppage_list s) k n" and m: "k \<le> m" "m < k + n"
  shows "page_pa s (of_nat m) \<in> free_pas s" and "unat (of_nat m :: u64) = m" and "of_nat m < ppages s"
proof -
  have mb: "m < length (ppage_list s)" and z: "ppage_list s ! m = PAGE_FREE"
    using r m by (auto simp: free_run_def run_of_def free_entry_def)
  then have "m < 2 ^ 64" using g by (simp add: geometry_ok_def)
  then show u: "unat (of_nat m :: u64) = m" by (simp add: unsigned_of_nat take_bit_eq_mod)
  then show lt: "of_nat m < ppages s" using mb g by (simp add: word_less_nat_alt geometry_ok_def)
  show "page_pa s (of_nat m) \<in> free_pas s"
    using page_pa_free_iff [OF g lt] u z by (simp add: refcount_def PAGE_FREE_def)
qed

lemma in_ram_run:
  assumes g: "geometry_ok s" and r: "free_run (ppage_list s) k n" and n: "0 < n"
    and sz: "unat (drop_bit 14 sz) = n"
  shows "in_ram s (page_pa s (of_nat k)) sz" and "page_idx s (page_pa s (of_nat k)) = of_nat k"
    and "unat (of_nat k :: u64) = k" and "page_pa s (of_nat k) \<noteq> 0"
proof -
  note k = run_pages_free [OF g r, of k]
  then have le: "of_nat k \<le> ppages s" and u: "unat (of_nat k :: u64) = k" using n by auto
  then show "page_idx s (page_pa s (of_nat k)) = of_nat k" "unat (of_nat k :: u64) = k"
    "page_pa s (of_nat k) \<noteq> 0"
    using page_idx_page_pa [OF g le] page_pa_ge [OF g le] by auto
  then show "in_ram s (page_pa s (of_nat k)) sz"
    using page_pa_ge [OF g le] page_pa_offset [OF g le] free_run_le [OF r n] sz g
    by (simp add: in_ram_def geometry_ok_def)
qed

lemma frame_ram: "frame s t \<Longrightarrow> in_ram t = in_ram s \<and> page_idx t = page_idx s \<and> removes t = removes s"
  using frame_page_pa [of s t] by (simp add: in_ram_def page_idx_def removes_def frame_def fun_eq_iff)

text \<open>The two steps that turn a free run into an allocated one.\<close>

lemma take_run:
  assumes wf: "phys_wf s fl []" and room: "irq_room 2 s" and n: "0 < n"
    and run: "free_run (ppage_list s) k n" and sz: "sz AND 0x3fff = 0" "unat (drop_bit 14 sz) = n"
  shows "\<exists>s1 s'. phys_unlink_contiguous (page_pa s (of_nat k)) sz s = Inr s1
     \<and> phys_reference (page_pa s (of_nat k)) sz s1 = Inr s' \<and> frame s s'
     \<and> ppage_list s' = upd_range ref_up k (k + n) (ppage_list s)
     \<and> phys_wf s' (removes s [k..<k + n] fl) []"
proof -
  have g: "geometry_ok s" and fl: "set fl = free_pas s" using wf by (auto simp: phys_wf_def)
  note ram = in_ram_run [OF g run n sz(2)]
  have fre: "page_pa s (of_nat m) \<in> set fl" if "k \<le> m" "m < k + n" for m
    using run_pages_free(1) [OF g run that] fl by simp
  obtain s1 where s1: "phys_unlink_contiguous (page_pa s (of_nat k)) sz s = Inr s1" "frame s s1"
      "ppage_list s1 = ppage_list s"
      "phys_wf s1 (removes s [k..<k + n] fl) (rev (pages s [k..<k + n]))"
    using phys_unlink_contiguous_total [OF wf room _ refl refl, where sz = sz and pa = "page_pa s (of_nat k)",
        unfolded round_up_idem [OF sz(1)] sz(2) ram(2,3)] ram(1) fre by auto
  have room1: "irq_room 2 s1" using room s1(2) by (simp add: irq_room_def frame_def)
  obtain s' where s': "phys_reference (page_pa s (of_nat k)) sz s1 = Inr s'" "frame s1 s'"
      "ppage_list s' = upd_range ref_up k (k + n) (ppage_list s1)"
      "phys_wf s' (removes s [k..<k + n] fl) (removes s1 [k..<k + n] (rev (pages s [k..<k + n])))"
    using phys_reference_total [OF s1(4) room1 _ refl refl, where sz = sz and pa = "page_pa s (of_nat k)"]
      ram frame_ram [OF s1(2)] frame_page_pa [OF s1(2)] sz(2)
    by (auto simp: pages_def)
  have "distinct (rev (pages s [k..<k + n]))" using s1(4) by (simp add: phys_wf_def)
  then have "removes s1 [k..<k + n] (rev (pages s [k..<k + n])) = []"
    using pages_frame [OF s1(2)] by (intro removes_all) simp_all
  then show ?thesis using s1 s' frame_trans [OF s1(2) s'(2)] by auto
qed

lemma alloc_phys_found:
  assumes wf: "phys_wf s fl []" and init: "alloc_static_base s \<noteq> 0" and room: "irq_room 3 s"
    and n: "1 < page_count sz" and run: "first_run (ppage_list s) k (page_count sz)"
  shows "\<exists>s'. alloc_phys sz s = Inr (page_pa s (of_nat k), s') \<and> frame s s'
     \<and> ppage_list s' = upd_range ref_up k (k + page_count sz) (ppage_list s)
     \<and> phys_wf s' (removes s [k..<k + page_count sz] fl) []"
proof -
  let ?n = "page_count sz"
  let ?s1 = "s\<lparr>dis_int_count := dis_int_count s + 1, daif_unmasked := False\<rparr>"
  have wf1: "phys_wf ?s1 fl []" and pp: "page_pa ?s1 = page_pa s" and g: "geometry_ok s"
    using wf by (simp_all add: phys_wf_def)
  have room1: "irq_room 2 ?s1" using irq_room_Suc(1) [of 2 s ?s1] room by (simp add: numeral_3_eq_3 numeral_2_eq_2)
  have np: "unat (round_up sz div 0x4000) = ?n" by (simp add: page_count_def unat_div)
  have frun: "free_run (ppage_list s) k ?n" using run by (simp add: first_run_def free_run_def first_run_of_def)
  have n0: "0 < ?n" using n by simp
  obtain r where r: "alloc_phys_scan ?s1 (round_up sz div 0x4000) 0 0 0 = Inr r"
      "scan_result ?s1 ?n r"
    using alloc_phys_scan_ok [of ?s1 "round_up sz div 0x4000" 0 0 0] scan_inv_0 [OF n0] g np by auto
  have rs: "r = Some (page_pa s (of_nat k))"
  proof (cases r)
    case None
    with r(2) frun show ?thesis by (simp add: scan_result_def)
  next
    case (Some rv)
    with r(2) obtain k' where k': "first_run (ppage_list s) k' ?n" "rv = page_pa s (of_nat k')"
      by (auto simp: scan_result_def)
    have "k' = k" using k'(1) run first_run_unique by (simp add: first_run_def)
    with Some k' show ?thesis by simp
  qed
  have nps: "(ucast (round_up sz) :: u64) \<noteq> PAGE_SIZE"
    using ucast_round_up(2) [of sz] n by auto
  obtain s2 s3 where run2: "phys_unlink_contiguous (page_pa s (of_nat k)) (ucast (round_up sz)) ?s1 = Inr s2"
     "phys_reference (page_pa s (of_nat k)) (ucast (round_up sz)) s2 = Inr s3" "frame ?s1 s3"
     "ppage_list s3 = upd_range ref_up k (k + ?n) (ppage_list s)"
     "phys_wf s3 (removes s [k..<k + ?n] fl) []"
    using take_run [OF wf1 room1 n0, of k "ucast (round_up sz)"] frun ucast_round_up [of sz] pp
    by (auto simp: removes_def)
  have c: "dis_int_count s3 = dis_int_count s + 1" "dis_int_count s3 \<noteq> 0"
    using run2(3) irq_room_Suc(2) [of 2 s s3] room by (simp_all add: frame_def)
  have nz: "page_pa s (of_nat k) \<noteq> 0" using in_ram_run(4) [OF g frun n0 ucast_round_up(2)] .
  let ?t = "s3\<lparr>dis_int_count := dis_int_count s3 - 1, daif_unmasked := (daif_unmasked s3 \<or> dis_int_count s3 = 1)\<rparr>"
  have "alloc_phys sz s = Inr (page_pa s (of_nat k), ?t)"
    unfolding alloc_phys_def round_up_def [symmetric]
    using init room nps r(1) rs run2(1,2) c(2) nz
    by (simp add: disable_interrupts_returns irq_room_not_max enable_interrupts_returns Let_def)
  moreover have "frame s ?t" using run2(3) c by (simp add: frame_def)
  ultimately show ?thesis using run2(4,5) by (intro exI [of _ ?t]) simp
qed

lemma alloc_phys_oom:
  assumes wf: "phys_wf s fl []" and init: "alloc_static_base s \<noteq> 0" and room: "irq_room 3 s"
    and n: "1 < page_count sz" and none: "\<forall>k. \<not> free_run (ppage_list s) k (page_count sz)"
  shows "alloc_phys sz s = Inl (Panic ''alloc_phys: OOM'')"
proof -
  let ?s1 = "s\<lparr>dis_int_count := dis_int_count s + 1, daif_unmasked := False\<rparr>"
  have g: "geometry_ok s" using wf by (simp add: phys_wf_def)
  have np: "unat (round_up sz div 0x4000) = page_count sz" by (simp add: page_count_def unat_div)
  have n0: "0 < page_count sz" using n by simp
  obtain r where r: "alloc_phys_scan ?s1 (round_up sz div 0x4000) 0 0 0 = Inr r"
      "scan_result ?s1 (page_count sz) r"
    using alloc_phys_scan_ok [of ?s1 "round_up sz div 0x4000" 0 0 0] scan_inv_0 [OF n0] g np by auto
  have "r = None" using r(2) none by (auto simp: scan_result_def first_run_def free_run_def first_run_of_def split: option.splits)
  moreover have "(ucast (round_up sz) :: u64) \<noteq> PAGE_SIZE"
    using ucast_round_up(2) [of sz] n by auto
  ultimately show ?thesis
    unfolding alloc_phys_def round_up_def [symmetric] using init room r(1)
    by (simp add: disable_interrupts_returns irq_room_not_max Let_def)
qed

end
