(* ===== verification/PhysFrame.thy ===== *)
theory PhysFrame
  imports PhysContig
begin

unbundle bit_operations_syntax

text \<open>
  Whatever the page allocator does, a call that returns leaves the interrupt nesting depth
  and the rest of the kernel's state (the fields beyond the allocator's own) as they were.
  The components built on the allocator use this as its frame condition.
\<close>

definition kept :: "'a phys_scheme \<Rightarrow> 'a phys_scheme \<Rightarrow> bool" where
  "kept s t \<longleftrightarrow> phys.more t = phys.more s \<and> dis_int_count t = dis_int_count s"

lemma kept_refl [simp]: "kept s s" by (simp add: kept_def)
lemma kept_trans: "kept s t \<Longrightarrow> kept t u \<Longrightarrow> kept s u" by (simp add: kept_def)

lemma more_simps [simp]:
  "phys.more (st a v s) = phys.more s"
  "phys.more (bzero a n s) = phys.more s"
  "phys.more (memcpy d a n s) = phys.more s"
  "dis_int_count (st a v s) = dis_int_count s"
  "dis_int_count (memcpy d a n s) = dis_int_count s"
  by (simp_all add: st_def bzero_def memcpy_def Let_def)

lemma disable_more:
  "disable_interrupts s = Inr t \<Longrightarrow> phys.more t = phys.more s \<and> dis_int_count t = dis_int_count s + 1"
  by (erule disable_interrupts_InrE) simp

lemma enable_more:
  "enable_interrupts s = Inr t \<Longrightarrow> phys.more t = phys.more s \<and> dis_int_count t = dis_int_count s - 1"
  by (erule enable_interrupts_InrE) simp

lemma phys_page_was_freed_kept: "phys_page_was_freed pa s = Inr t \<Longrightarrow> kept s t"
proof -
  assume a: "phys_page_was_freed pa s = Inr t"
  show ?thesis using a phys_page_was_freed_eq [OF phys_page_was_freed_Inr [OF a], of pa]
    by (auto simp: kept_def)
qed

lemma write_entry_kept: "write_entry i v s = Inr t \<Longrightarrow> kept s t"
  by (auto simp: write_entry_def kept_def split: if_splits)

lemma reference_page_kept: "reference_page i s = Inr t \<Longrightarrow> kept s t"
  by (auto simp: reference_page_def kept_def write_entry_def Let_def split: if_splits)

lemma dereference_page_kept: "dereference_page i s = Inr t \<Longrightarrow> kept s t"
  by (auto simp: dereference_page_def kept_def split: if_splits
      dest!: write_entry_kept phys_page_was_freed_kept)

lemma force_free_page_kept: "force_free_page i s = Inr t \<Longrightarrow> kept s t"
  by (auto simp: force_free_page_def Let_def kept_def split: if_splits
      dest!: write_entry_kept phys_page_was_freed_kept)

lemma unlink_page_kept: "unlink_page i s = Inr t \<Longrightarrow> kept s t"
  by (auto simp: unlink_page_def Let_def kept_def split: if_splits)

lemma range_op_kept:
  assumes "range_op body i n s = Inr t" and "i \<le> i + n"
    and step: "\<And>j u v. body j u = Inr v \<Longrightarrow> kept u v"
  shows "kept s t"
proof -
  have "phys.more t = phys.more s \<and> dis_int_count t = dis_int_count s"
  proof (rule range_op_partial [OF assms(1,2), where P = "\<lambda>_ t. phys.more t = phys.more s"])
    show "phys.more v = phys.more s \<and> dis_int_count v = dis_int_count u"
      if "phys.more u = phys.more s" "body j u = Inr v" for j u v
      using step [OF that(2)] that(1) by (simp add: kept_def)
  qed simp_all
  then show ?thesis by (simp add: kept_def)
qed

lemma drop14_le_idx: "page_idx s pa \<le> page_idx s pa + drop_bit 14 n"
  unfolding page_idx_def by (rule drop14_le)

lemma phys_reference_kept: "phys_reference pa n s = Inr t \<Longrightarrow> kept s t"
  by (auto simp: phys_reference_range split: if_splits
      intro: range_op_kept [OF _ drop14_le_idx] reference_page_kept)

lemma phys_dereference_kept: "phys_dereference pa n s = Inr t \<Longrightarrow> kept s t"
  by (auto simp: phys_dereference_range split: if_splits
      intro: range_op_kept [OF _ drop14_le_idx] dereference_page_kept)

lemma phys_force_free_kept: "phys_force_free pa n s = Inr t \<Longrightarrow> kept s t"
  by (auto simp: phys_force_free_range split: if_splits
      intro: range_op_kept [OF _ drop14_le_idx] force_free_page_kept)

lemma phys_unlink_contiguous_kept: "phys_unlink_contiguous pa n s = Inr t \<Longrightarrow> kept s t"
proof -
  assume a: "phys_unlink_contiguous pa n s = Inr t"
  define m where "m = (n + 0x3fff) AND NOT 0x3fff"
  have "t = s \<or> range_op unlink_page (page_idx s pa) (drop_bit 14 m) s = Inr t"
    using a unfolding phys_unlink_contiguous_range m_def [symmetric] by (auto split: if_splits)
  then show ?thesis using range_op_kept [OF _ drop14_le_idx unlink_page_kept] by auto
qed

lemma carve_regions_kept: "carve_regions h s = Inr t \<Longrightarrow> kept s t"
  by (auto simp: carve_regions_def Let_def kept_def split: if_splits dest!: phys_force_free_kept)

lemma alloc_init_kept:
  assumes "alloc_init s = Inr t" shows "kept s t"
proof (cases "alloc_static_base s = 0")
  case True
  let ?s0 = "s\<lparr>ppages := drop_bit 14 (memSize s)\<rparr>"
  obtain u h where c: "claim_autoboot (early_heap_base s) ?s0 = (u, h)" by fastforce
  have ku: "kept s u" using c by (auto simp: claim_autoboot_def Let_def kept_def split: if_splits)
  obtain v h2 where v: "claim_page_array h u = (v, h2)" by fastforce
  have kv: "kept u v" using v by (auto simp: claim_page_array_def Let_def kept_def)
  have "carve_regions h2 v = Inr t" using assms True c v by (simp add: alloc_init_def)
  from carve_regions_kept [OF this] ku kv show ?thesis by (blast intro: kept_trans)
next
  case False
  with assms show ?thesis by (simp add: alloc_init_def)
qed

lemma init_kept: "(if alloc_static_base s = 0 then alloc_init s else Inr s) = Inr t \<Longrightarrow> kept s t"
  by (auto split: if_splits intro: alloc_init_kept)

lemma ppage_alloc_kept: "ppage_alloc s = Inr (x, t) \<Longrightarrow> kept s t"
  unfolding ppage_alloc_def Let_def
  by (auto simp: kept_def split: if_splits
      dest!: disable_more enable_more alloc_init_kept phys_reference_kept)

lemma alloc_phys_kept: "alloc_phys n s = Inr (x, t) \<Longrightarrow> kept s t"
  unfolding alloc_phys_def Let_def
  by (auto simp: kept_def split: if_splits option.splits prod.splits
      dest!: disable_more enable_more alloc_init_kept phys_reference_kept ppage_alloc_kept phys_unlink_contiguous_kept)

end
