(* ===== verification/VmFrame.thy ===== *)
theory VmFrame
  imports Vm PhysFrame
begin

unbundle bit_operations_syntax

text \<open>
  What the table walk and the mapping of pages leave alone: the address spaces, the
  identifiers, the translation geometry and the interrupt nesting depth.
\<close>

definition vkept :: "'a vmm_scheme \<Rightarrow> 'a vmm_scheme \<Rightarrow> bool" where
  "vkept s t \<longleftrightarrow> spaces t = spaces s \<and> dis_int_count t = dis_int_count s \<and> asid_table t = asid_table s
     \<and> is_16k_v t = is_16k_v s \<and> tt_bits t = tt_bits s \<and> t0sz t = t0sz s \<and> t1sz t = t1sz s
     \<and> linear_kvm_cursor t = linear_kvm_cursor s \<and> linear_kvm_end t = linear_kvm_end s"

lemma vkept_refl [simp]: "vkept s s" by (simp add: vkept_def)
lemma vkept_trans: "vkept s t \<Longrightarrow> vkept t u \<Longrightarrow> vkept s u" by (simp add: vkept_def)

lemma more_fields:
  fixes s t :: "'a vmm_scheme"
  assumes "phys.more t = phys.more s"
  shows "spaces t = spaces s" "asid_table t = asid_table s" "is_16k_v t = is_16k_v s" "tt_bits t = tt_bits s"
    "t0sz t = t0sz s" "t1sz t = t1sz s" "linear_kvm_cursor t = linear_kvm_cursor s"
    "linear_kvm_end t = linear_kvm_end s" "ttb_freelist t = ttb_freelist s"
    "ttb_alloc_is_early t = ttb_alloc_is_early s" "tlbi t = tlbi s"
  using assms by (cases s; cases t; simp)+

lemma kept_vkept: "kept s t \<Longrightarrow> vkept s t"
  using more_fields [of s t] by (simp add: kept_def vkept_def)

lemma st_fields [simp]:
  "spaces (st a v s) = spaces s" "asid_table (st a v s) = asid_table s" "is_16k_v (st a v s) = is_16k_v s"
  "tt_bits (st a v s) = tt_bits s" "t0sz (st a v s) = t0sz s" "t1sz (st a v s) = t1sz s"
  "linear_kvm_cursor (st a v s) = linear_kvm_cursor s" "linear_kvm_end (st a v s) = linear_kvm_end s"
  "ttb_freelist (st a v s) = ttb_freelist s"
  by (simp_all add: st_def)

lemma bzero_fields [simp]:
  "spaces (bzero a n s) = spaces s" "asid_table (bzero a n s) = asid_table s"
  "is_16k_v (bzero a n s) = is_16k_v s" "tt_bits (bzero a n s) = tt_bits s" "t0sz (bzero a n s) = t0sz s"
  "t1sz (bzero a n s) = t1sz s" "linear_kvm_cursor (bzero a n s) = linear_kvm_cursor s"
  "linear_kvm_end (bzero a n s) = linear_kvm_end s" "ttb_freelist (bzero a n s) = ttb_freelist s"
  by (simp_all add: bzero_def Let_def)

lemma ttbpage_free_vkept: "ttbpage_free p s = Inr t \<Longrightarrow> vkept s t"
  by (auto simp: ttbpage_free_def vkept_def Let_def elim!: disable_interrupts_InrE enable_interrupts_InrE)

lemma vkept_disable_enable:
  "disable_interrupts s = Inr t \<Longrightarrow> vkept t u \<Longrightarrow> enable_interrupts u = Inr v \<Longrightarrow> vkept s v"
  by (auto simp: vkept_def elim!: disable_interrupts_InrE enable_interrupts_InrE)

lemma ttbpage_alloc_vkept:
  assumes "ttbpage_alloc s = Inr (p, t)" shows "vkept s t"
proof -
  obtain s1 where s1: "disable_interrupts s = Inr s1"
    using assms by (auto simp: ttbpage_alloc_def)
  show ?thesis
  proof (cases "ttb_freelist s1 = 0")
    case False
    then show ?thesis using assms s1
      by (auto simp: ttbpage_alloc_def Let_def vkept_def elim!: disable_interrupts_InrE enable_interrupts_InrE)
  next
    case True
    then obtain s2 where s2: "enable_interrupts s1 = Inr s2" using assms s1 by (auto simp: ttbpage_alloc_def)
    have 0: "vkept s s2" using vkept_disable_enable [OF s1 vkept_refl s2] .
    show ?thesis
    proof (cases "is_16k_v s2")
      case True
      then have "ppage_alloc s2 = Inr (p, t)" using assms s1 s2 \<open>ttb_freelist s1 = 0\<close>
        by (simp add: ttbpage_alloc_def)
      from kept_vkept [OF ppage_alloc_kept [OF this]] 0 show ?thesis by (blast intro: vkept_trans)
    next
      case False
      then obtain q u v w where "ppage_alloc s2 = Inr (q, u)" "ttbpage_free (q + 0x1000) u = Inr v"
        "ttbpage_free (q + 0x2000) v = Inr w" "ttbpage_free (q + 0x3000) w = Inr t"
        using assms s1 s2 \<open>ttb_freelist s1 = 0\<close> by (auto simp: ttbpage_alloc_def)
      then have "vkept s2 u" "vkept u v" "vkept v w" "vkept w t"
        using kept_vkept [OF ppage_alloc_kept] ttbpage_free_vkept by blast+
      with 0 show ?thesis by (blast intro: vkept_trans)
    qed
  qed
qed

lemma ttb_alloc_vkept: "ttb_alloc s = Inr (p, t) \<Longrightarrow> vkept s t"
  by (auto simp: ttb_alloc_def ttb_alloc_early_def vkept_def Let_def split: if_splits dest!: ttbpage_alloc_vkept)

lemma tt_set_vkept: "vkept s (tt_set tt i v s)"
  by (simp add: tt_set_def vkept_def)

lemma map_block_vkept: "map_block a tt bits blksz va pa s = Inr t \<Longrightarrow> vkept s t"
  unfolding map_block_def Let_def
  by (auto simp: vkept_def tt_set_def split: if_splits
      dest!: kept_vkept [OF phys_reference_kept] kept_vkept [OF phys_dereference_kept])

lemma map_blocks_vkept:
  assumes "map_blocks n again a tt bits lo hi va pa rem s = Inr t"
    and again: "\<And>va pa sz s t. again va pa sz s = Inr t \<Longrightarrow> vkept s t"
  shows "vkept s t"
  using assms(1)
proof (induction n arbitrary: lo va pa rem s)
  case (Suc n)
  show ?case
  proof (cases "lo < hi")
    case True
    obtain u lo' va' pa' rem' where "vkept s u" and r: "map_blocks n again a tt bits lo' hi va' pa' rem' u = Inr t"
      using Suc.prems True
      by (auto simp: Let_def split: if_splits dest!: again map_block_vkept dest: vkept_trans)
    with Suc.IH [OF r] show ?thesis by (blast intro: vkept_trans)
  next
    case False
    with Suc.prems show ?thesis by simp
  qed
qed simp

lemma map_walk_vkept:
  assumes "map_walk n again a tt bits va pa sz s = Inr t"
    and again: "\<And>va pa sz s t. again va pa sz s = Inr t \<Longrightarrow> vkept s t"
  shows "vkept s t"
  using assms(1)
proof (induction n arbitrary: tt bits s)
  case (Suc n)
  show ?case
    using Suc.prems
    by (auto simp: Let_def simp del: map_blocks.simps split: if_splits
        dest!: Suc.IH ttb_alloc_vkept map_blocks_vkept [OF _ again]
        intro: vkept_trans [OF vkept_trans [OF _ tt_set_vkept]])
qed simp

lemma map_range_map_vkept: "map_range_map n a va pa sz s = Inr t \<Longrightarrow> vkept s t"
proof (induction n arbitrary: va pa sz s t)
  case (Suc n)
  then show ?case by (auto simp: Let_def simp del: map_walk.simps dest: map_walk_vkept)
qed simp

lemma flush_asid_vkept: "vkept s (flush_asid a s)"
  by (simp add: flush_asid_def vkept_def)

lemma vm_flush_by_addr_vkept: "vm_flush_by_addr h va s = Inr t \<Longrightarrow> vkept s t"
  using flush_asid_vkept by (auto simp: vm_flush_by_addr_def)

end
