(* ===== verification/VmProps.thy ===== *)
theory VmProps
  imports VmFrame FirstFit
begin

unbundle bit_operations_syntax

text \<open>
  Properties of the virtual memory component: the page bitmap of an address space and the
  bitmap of address space identifiers through one interface, the allocators on top of them,
  and the translation a mapping installs.
\<close>

section \<open>Bitmaps\<close>

locale bitmap =
  fixes get :: "'t \<Rightarrow> nat \<Rightarrow> bool" and upd :: "bool \<Rightarrow> nat \<Rightarrow> 't \<Rightarrow> 't" and cap :: "'t \<Rightarrow> nat"
  assumes get_upd: "i < cap t \<Longrightarrow> j < cap t \<Longrightarrow> get (upd b i t) j = (if j = i then b else get t j)"
    and cap_upd: "cap (upd b i t) = cap t"
    and ext: "cap t = cap u \<Longrightarrow> (\<And>i. i < cap t \<Longrightarrow> get t i = get u i) \<Longrightarrow> t = u"
begin

definition upd_many :: "bool \<Rightarrow> nat \<Rightarrow> nat \<Rightarrow> 't \<Rightarrow> 't" where
  "upd_many b i j t = fold (upd b) [i..<j] t"

lemma upd_many_Nil: "upd_many b i i t = t" by (simp add: upd_many_def)

lemma upd_many_Suc: "i \<le> j \<Longrightarrow> upd_many b i (Suc j) t = upd b j (upd_many b i j t)"
  by (simp add: upd_many_def)

lemma cap_upd_many: "cap (upd_many b i j t) = cap t"
  unfolding upd_many_def by (rule fold_invariant [where Q = "\<lambda>_. True" and P = "\<lambda>u. cap u = cap t"]) (simp_all add: cap_upd)

lemma get_upd_many:
  assumes "j \<le> cap t" "k < cap t"
  shows "get (upd_many b i j t) k = (if i \<le> k \<and> k < j then b else get t k)"
proof (cases "i \<le> j")
  case True
  then show ?thesis using assms
  proof (induction j rule: dec_induct)
    case base
    then show ?case by (auto simp: upd_many_Nil)
  next
    case (step j)
    then show ?case by (auto simp: upd_many_Suc get_upd cap_upd_many)
  qed
next
  case False
  then show ?thesis by (auto simp: upd_many_def)
qed

lemma restore:
  assumes "j \<le> cap t" "\<And>k. i \<le> k \<Longrightarrow> k < j \<Longrightarrow> get t k = (\<not> b)"
  shows "upd_many (\<not> b) i j (upd_many b i j t) = t"
  by (rule ext) (use assms in \<open>auto simp: cap_upd_many get_upd_many\<close>)

lemma restore1: "i < cap t \<Longrightarrow> get t i = (\<not> b) \<Longrightarrow> upd (\<not> b) i (upd b i t) = t"
  by (rule ext) (auto simp: cap_upd get_upd)

end

lemma u8_bit_set: "j < 8 \<Longrightarrow> bit (x OR 2 ^ i :: u8) j = (j = i \<or> bit x j)"
  by (auto simp: bit_simps)

lemma u8_bit_clear: "j < 8 \<Longrightarrow> bit (x AND NOT (2 ^ i) :: u8) j = (j \<noteq> i \<and> bit x j)"
  by (auto simp: bit_simps)

lemma bmp_get_set:
  assumes "i < 8 * length t" "j < 8 * length t"
  shows "bmp_get (bmp_set b i t) j = (if j = i then b else bmp_get t j)"
proof -
  have i: "i div 8 < length t" and j: "j mod 8 < 8" using assms by auto
  have e: "j = i \<longleftrightarrow> j div 8 = i div 8 \<and> j mod 8 = i mod 8" by (metis div_mult_mod_eq)
  show ?thesis
    using i unfolding e by (auto simp: bmp_get_def bmp_set_def nth_list_update u8_bit_set u8_bit_clear)
qed

interpretation bm: bitmap bmp_get bmp_set "\<lambda>t. 8 * length t"
proof
  fix i j :: nat and t :: "u8 list" and b assume "i < 8 * length t" "j < 8 * length t"
  then show "bmp_get (bmp_set b i t) j = (if j = i then b else bmp_get t j)" by (rule bmp_get_set)
next
  fix b i and t :: "u8 list" show "8 * length (bmp_set b i t) = 8 * length t" by (simp add: bmp_set_def)
next
  fix t u :: "u8 list" assume l: "8 * length t = 8 * length u" and g: "\<And>i. i < 8 * length t \<Longrightarrow> bmp_get t i = bmp_get u i"
  show "t = u"
  proof (rule nth_equalityI)
    show "length t = length u" using l by simp
    fix k assume k: "k < length t"
    show "t ! k = u ! k"
    proof (rule bit_eqI)
      fix n assume "possible_bit TYPE(u8) n"
      then have n: "n < 8" by (simp add: possible_bit_word)
      then show "bit (t ! k) n = bit (u ! k) n"
        using g [of "8 * k + n"] k by (simp add: bmp_get_def)
    qed
  qed
qed

section \<open>The scan for address space\<close>

definition free_slot :: "u8 list \<Rightarrow> nat \<Rightarrow> nat \<Rightarrow> bool" where
  "free_slot t sz j \<longleftrightarrow> j < sz \<and> \<not> bmp_get t j"

definition vscan_inv :: "u8 list \<Rightarrow> nat \<Rightarrow> nat \<Rightarrow> nat \<Rightarrow> nat \<Rightarrow> u32 \<Rightarrow> bool" where
  "vscan_inv t sz n i f b \<longleftrightarrow> scan_st (free_slot t sz) n i f \<and> i \<le> sz \<and> (0 < f \<longrightarrow> b = of_nat (i - f))"

definition vscan_result :: "u8 list \<Rightarrow> nat \<Rightarrow> nat \<Rightarrow> u32 option \<Rightarrow> bool" where
  "vscan_result t sz n r = (case r of
     None \<Rightarrow> \<forall>k. \<not> run_of (free_slot t sz) k n
   | Some b \<Rightarrow> first_run_of (free_slot t sz) (unat b) n)"

lemma vm_scan_ok:
  assumes sz: "unat sz \<le> 8 * length t" "unat sz < 2 ^ 32"
    and "vscan_inv t (unat sz) (unat n) (unat i) (unat f) b"
  shows "\<exists>r. vm_scan t sz n i f b = Inr r \<and> vscan_result t (unat sz) (unat n) r"
  using assms(3)
proof (induction "unat sz - unat i" arbitrary: i f b rule: less_induct)
  case less
  note inv = less.prems
  have u: "unat (ucast i :: u64) = unat i"
    using unsigned_less [of i, where ?'a = nat] by (simp add: unsigned_ucast_eq take_bit_eq_mod)
  show ?case
  proof (cases "ucast i < sz")
    case False
    then have e: "unat i = unat sz" using inv u by (simp add: vscan_inv_def word_less_nat_alt)
    have "vscan_result t (unat sz) (unat n) None"
      using inv scan_st_end [of "free_slot t (unat sz)" "unat n" "unat i" "unat f"] e
      by (simp add: vscan_result_def vscan_inv_def free_slot_def)
    with False show ?thesis by (subst vm_scan.simps) simp
  next
    case True
    then have lt: "unat i < unat sz" using u by (simp add: word_less_nat_alt)
    then have nm: "i \<noteq> - 1" using sz(2) by (auto simp: unsigned_minus_1_eq_mask mask_eq_exp_minus_1)
    have si: "unat (i + 1) = Suc (unat i)" using lt sz(2) by (simp add: unat_word_ariths)
    have dec: "unat sz - unat (i + 1) < unat sz - unat i" using si lt by simp
    have fn: "f < n" using inv by (simp add: vscan_inv_def scan_st_def word_less_nat_alt)
    have sf: "unat (f + 1) = Suc (unat f)" using unat_Suc_less [OF fn] .
    have n0: "n \<noteq> 0" using fn by auto
    have rd: "tbl_get t i = Inr (bmp_get t (unat i))" using lt sz(1) by (simp add: tbl_get_def)
    have st: "scan_st (free_slot t (unat sz)) (unat n) (unat i) (unat f)"
      and b: "0 < unat f \<longrightarrow> b = of_nat (unat i - unat f)" using inv by (auto simp: vscan_inv_def)
    show ?thesis
    proof (cases "bmp_get t (unat i)")
      case busy: True
      then have "vscan_inv t (unat sz) (unat n) (unat (i + 1)) (unat (0 :: u32)) b"
        using scan_st_busy [OF st] si lt by (simp add: vscan_inv_def free_slot_def)
      from less.hyps [OF dec this] busy True nm rd n0 show ?thesis
        by (subst vm_scan.simps) (simp add: Let_def)
    next
      case free: False
      then have P: "free_slot t (unat sz) (unat i)" using lt by (simp add: free_slot_def)
      have fi: "unat f \<le> unat i" using st by (simp add: scan_st_def)
      have b': "(if f = 0 then i else b) = of_nat (unat i - unat f)"
        using b by (auto simp: unat_eq_0 unat_gt_0)
      show ?thesis
      proof (cases "f + 1 = n")
        case found: True
        have "unat (of_nat (unat i - unat f) :: u32) = unat i - unat f"
          using unsigned_less [of i, where ?'a = nat] by (simp add: unsigned_of_nat take_bit_eq_mod)
        then have "vscan_result t (unat sz) (unat n) (Some (if f = 0 then i else b))"
          unfolding b' using scan_st_found [OF st P] sf found by (simp add: vscan_result_def)
        with found free True nm rd show ?thesis by (subst vm_scan.simps) (simp add: Let_def)
      next
        case False
        then have "Suc (unat f) \<noteq> unat n" using sf by (metis word_unat_eq_iff)
        from scan_st_free [OF st P this]
        have "vscan_inv t (unat sz) (unat n) (unat (i + 1)) (unat (f + 1)) (if f = 0 then i else b)"
          unfolding b' using si sf lt by (simp add: vscan_inv_def)
        from less.hyps [OF dec this] False free True nm rd show ?thesis
          by (subst vm_scan.simps) (simp add: Let_def)
      qed
    qed
  qed
qed


section \<open>Allocating address space\<close>

lemma map_page_upper_vkept: "map_page_upper h sp va pa prot s = Inr t \<Longrightarrow> vkept s t"
  unfolding map_page_upper_def
  by (auto split: if_splits simp: vkept_def dest!: map_range_map_vkept vm_flush_by_addr_vkept
        kept_vkept [OF phys_dereference_kept])

lemma map_page_lower_vkept: "map_page_lower sp va pa prot s = Inr t \<Longrightarrow> vkept s t"
  unfolding map_page_lower_def
  by (auto split: if_splits simp: vkept_def vm_flush_by_addr_all_asid_def flush_asid_def dest!: map_range_map_vkept)

lemma vm_space_map_page_vkept:
  assumes "vm_space_map_page_physical_prot h va pa prot s = Inr t"
  shows "vkept s t"
proof -
  obtain s1 sp s2 prot' where s1: "disable_interrupts s = Inr s1"
      and m: "(if va AND 0x7000000000000000 \<noteq> 0 then map_page_upper h sp va pa prot' s1
               else map_page_lower sp va pa prot' s1) = Inr s2"
      and s2: "enable_interrupts s2 = Inr t"
    using assms unfolding vm_space_map_page_physical_prot_def Let_def by blast
  have "vkept s1 s2" using m by (auto split: if_splits dest: map_page_upper_vkept map_page_lower_vkept)
  from vkept_disable_enable [OF s1 this s2] show ?thesis .
qed

lemma claim_page_spaces:
  assumes run: "claim_page h flags i s = Inr t" and sp: "spaces s h = Some sp"
  shows "spaces t = (spaces s)(h \<mapsto> sp\<lparr>vm_space_table := bmp_set True (unat i) (vm_space_table sp)\<rparr>)
    \<and> dis_int_count t = dis_int_count s"
  using run sp unfolding claim_page_def
  by (auto split: if_splits dest!: vm_space_map_page_vkept
      simp: vkept_def get_space_def tbl_set_def put_space_def)

lemma claim_page_nomap:
  assumes "spaces s h = Some sp" "flags AND VM_FLAGS_NOMAP \<noteq> 0" "unat i div 8 < length (vm_space_table sp)"
  shows "\<exists>t. claim_page h flags i s = Inr t"
  using assms by (simp add: claim_page_def get_space_def tbl_set_def)

definition claimed :: "u64 \<Rightarrow> vm_space \<Rightarrow> bool \<Rightarrow> nat \<Rightarrow> nat \<Rightarrow> 'a vmm_scheme \<Rightarrow> 'a vmm_scheme \<Rightarrow> bool" where
  "claimed h sp b i j s t \<longleftrightarrow>
     spaces t = (spaces s)(h \<mapsto> sp\<lparr>vm_space_table := bm.upd_many b i j (vm_space_table sp)\<rparr>)
     \<and> dis_int_count t = dis_int_count s"

lemma claimed_0: "spaces s h = Some sp \<Longrightarrow> claimed h sp b i i s s"
  by (auto simp: claimed_def bm.upd_many_Nil)

text \<open>The loops of \<open>vm_allocate\<close> and \<open>vm_deallocate\<close>: a body that sets (\<open>b\<close>) or clears the
  bit of its page, run over a range, does so for the range.\<close>

definition sets_bit :: "u64 \<Rightarrow> bool \<Rightarrow> (u32 \<Rightarrow> 'a vmm_scheme \<Rightarrow> error + 'a vmm_scheme) \<Rightarrow> bool" where
  "sets_bit h b body \<longleftrightarrow> (\<forall>i s sp t. body i s = Inr t \<longrightarrow> spaces s h = Some sp \<longrightarrow>
     spaces t = (spaces s)(h \<mapsto> sp\<lparr>vm_space_table := bmp_set b (unat i) (vm_space_table sp)\<rparr>)
     \<and> dis_int_count t = dis_int_count s)"

lemma sets_bit_step:
  assumes "sets_bit h b body" "claimed h sp b i (unat j) s t" "i \<le> unat j" "unat (j + 1) = Suc (unat j)"
    "body j t = Inr u"
  shows "claimed h sp b i (unat (j + 1)) s u"
proof -
  have "spaces u = (spaces t)(h \<mapsto> sp\<lparr>vm_space_table := bmp_set b (unat j) (bm.upd_many b i (unat j) (vm_space_table sp))\<rparr>)
      \<and> dis_int_count u = dis_int_count t"
    using assms(1) [unfolded sets_bit_def, rule_format, OF assms(5),
        of "sp\<lparr>vm_space_table := bm.upd_many b i (unat j) (vm_space_table sp)\<rparr>"] assms(2)
    by (simp add: claimed_def)
  then show ?thesis using assms(2-4) by (simp add: claimed_def bm.upd_many_Suc)
qed

lemma sets_bit_loop:
  assumes b: "sets_bit h b body" and run: "for_up body i e s = Inr t" and sp: "spaces s h = Some sp" and le: "i \<le> e"
  shows "claimed h sp b (unat i) (unat e) s t"
proof -
  have "claimed h sp b (unat i) (unat e) s t \<and> i \<le> e"
  proof (rule for_up_inv [OF run, where P = "\<lambda>j t. claimed h sp b (unat i) (unat j) s t \<and> i \<le> j"])
    show "claimed h sp b (unat i) (unat i) s s \<and> i \<le> i" using claimed_0 [OF sp] by simp
    show "i \<le> e" by (rule le)
    fix j u v assume j: "i \<le> j" "j < e" "claimed h sp b (unat i) (unat j) s u \<and> i \<le> j" "body j u = Inr v"
    then show "claimed h sp b (unat i) (unat (j + 1)) s v \<and> i \<le> j + 1"
      using sets_bit_step [OF b _ _ unat_Suc_less [OF j(2)] j(4)]
        order_trans [OF j(1) less_imp_le [OF less_less_Suc [OF j(2)]]]
      by (simp add: word_le_nat_alt)
  qed
  then show ?thesis by simp
qed

lemma claim_page_sets_bit: "sets_bit h True (claim_page h flags)"
  using claim_page_spaces unfolding sets_bit_def by blast

lemma claim_loop_nomap:
  assumes sp: "spaces s h = Some sp" and le: "i \<le> e" and nomap: "flags AND VM_FLAGS_NOMAP \<noteq> 0"
    and cap: "unat e \<le> 8 * length (vm_space_table sp)"
  shows "\<exists>t. for_up (claim_page h flags) i e s = Inr t"
proof -
  have "\<exists>t. for_up (claim_page h flags) i e s = Inr t \<and> claimed h sp True (unat i) (unat e) s t"
  proof (rule for_up_total [where P = "\<lambda>j t. claimed h sp True (unat i) (unat j) s t"])
    show "claimed h sp True (unat i) (unat i) s s" using claimed_0 [OF sp] .
    show "i \<le> e" by (rule le)
    fix j u assume j: "i \<le> j" "j < e" "claimed h sp True (unat i) (unat j) s u"
    have "unat j < 8 * length (vm_space_table sp)" using j(2) cap by (simp add: word_less_nat_alt)
    then have "unat j div 8 < length (bm.upd_many True (unat i) (unat j) (vm_space_table sp))"
      using bm.cap_upd_many [of True "unat i" "unat j" "vm_space_table sp"] by simp
    then obtain v where v: "claim_page h flags j u = Inr v"
      using claim_page_nomap [OF _ nomap, of u h "sp\<lparr>vm_space_table := bm.upd_many True (unat i) (unat j) (vm_space_table sp)\<rparr>" j] j(3)
      by (auto simp: claimed_def)
    from sets_bit_step [OF claim_page_sets_bit j(3) _ unat_Suc_less [OF j(2)] v] j(1) v
    show "\<exists>t'. claim_page h flags j u = Inr t' \<and> claimed h sp True (unat i) (unat (j + 1)) s t'"
      by (simp add: word_le_nat_alt)
  qed
  then show ?thesis by blast
qed

end
