(* ===== verification/VmSpace.thy ===== *)
theory VmSpace
  imports VmProps
begin

text \<open>
  Allocating and releasing ranges of an address space.
\<close>

unbundle bit_operations_syntax

definition bitmap_pages :: nat where "bitmap_pages = 0x40000"

text \<open>The space of handle \<open>h\<close> is \<open>sp\<close>, with the bitmap \<open>vm_create\<close> and \<open>vm_init\<close> give it.\<close>

definition has_space :: "'a vmm_scheme \<Rightarrow> u64 \<Rightarrow> vm_space \<Rightarrow> bool" where
  "has_space s h sp \<longleftrightarrow> spaces s h = Some sp \<and> length (vm_space_table sp) = 0x8000"

lemma vm_allocate_scan:
  assumes t: "length t = 0x8000" and n: "n \<noteq> 0"
  obtains (found) b where "vm_scan t (VM_SPACE_SIZE div 0x4000) n 0 0 0 = Inr (Some b)"
      "first_run_of (free_slot t bitmap_pages) (unat b) (unat n)" "unat b + unat n \<le> bitmap_pages"
      "unat (b + n) = unat b + unat n" "unat (b * 0x4000) = unat b * 16384" "b \<le> b + n"
  | (none) "vm_scan t (VM_SPACE_SIZE div 0x4000) n 0 0 0 = Inr None"
      "\<forall>k. \<not> run_of (free_slot t bitmap_pages) k (unat n)"
proof -
  have sz: "unat (VM_SPACE_SIZE div 0x4000) = bitmap_pages" by (simp add: VM_SPACE_SIZE_def bitmap_pages_def)
  have n0: "0 < unat n" using n by (simp add: unat_gt_0)
  obtain r where r: "vm_scan t (VM_SPACE_SIZE div 0x4000) n 0 0 0 = Inr r" "vscan_result t bitmap_pages (unat n) r"
    using vm_scan_ok [of "VM_SPACE_SIZE div 0x4000" t n 0 0 0] sz t scan_st_0 [OF n0]
    by (auto simp: vscan_inv_def bitmap_pages_def)
  show ?thesis
  proof (cases r)
    case None
    with r none show ?thesis by (simp add: vscan_result_def)
  next
    case (Some b)
    with r have f: "first_run_of (free_slot t bitmap_pages) (unat b) (unat n)" by (simp add: vscan_result_def)
    then have "free_slot t bitmap_pages (unat b + unat n - 1)"
      using n0 by (auto simp: first_run_of_def run_of_def)
    then have le: "unat b + unat n \<le> bitmap_pages" using n0 unfolding free_slot_def by linarith
    then have u: "unat (b + n) = unat b + unat n" "unat (b * 0x4000) = unat b * 16384"
      using n0 by (simp_all add: unat_word_ariths bitmap_pages_def)
    have "b \<le> b + n" using u by (simp add: word_le_nat_alt)
    with found [of b] r(1) Some f le u show ?thesis by simp
  qed
qed

lemma ucast_page_offset:
  "unat (b * 0x4000 :: u32) = unat b * 16384 \<Longrightarrow> (ucast (b * 0x4000 :: u32) :: u64) = of_nat (unat b * 16384)"
  by (metis of_nat_unat)

lemma vm_allocate_partial:
  assumes sp: "has_space s h sp" and fixed: "flags AND VM_FLAGS_FIXED = 0" and n: "page_count_of sz \<noteq> 0"
    and run: "vm_allocate h addr sz flags s = Inr (r, a, t)"
  shows "(\<exists>k. first_run_of (free_slot (vm_space_table sp) bitmap_pages) k (unat (page_count_of sz))
        \<and> r = KERN_SUCCESS \<and> a = vm_space_base sp + of_nat (k * 16384)
        \<and> k + unat (page_count_of sz) \<le> bitmap_pages
        \<and> claimed h sp True k (k + unat (page_count_of sz)) s t)
    \<or> ((\<nexists>k. run_of (free_slot (vm_space_table sp) bitmap_pages) k (unat (page_count_of sz)))
        \<and> r = KERN_VM_OOM \<and> a = 0 \<and> spaces t = spaces s)"
proof -
  obtain s1 where s1: "disable_interrupts s = Inr s1" using run n by (auto simp: vm_allocate_def Let_def)
  then have sps: "spaces s1 = spaces s" and c1: "dis_int_count s1 = dis_int_count s + 1"
    by (auto elim!: disable_interrupts_InrE)
  have g: "get_space h s1 = Inr sp" and len: "length (vm_space_table sp) = 0x8000"
    using sp sps by (simp_all add: has_space_def get_space_def)
  show ?thesis
  proof (rule vm_allocate_scan [OF len n])
    fix b assume b: "vm_scan (vm_space_table sp) (VM_SPACE_SIZE div 0x4000) (page_count_of sz) 0 0 0 = Inr (Some b)"
      "first_run_of (free_slot (vm_space_table sp) bitmap_pages) (unat b) (unat (page_count_of sz))"
      "unat b + unat (page_count_of sz) \<le> bitmap_pages"
      "unat (b + page_count_of sz) = unat b + unat (page_count_of sz)" "unat (b * 0x4000) = unat b * 16384"
      "b \<le> b + page_count_of sz"
    obtain u where u: "for_up (claim_page h flags) b (b + page_count_of sz) s1 = Inr u"
      "enable_interrupts u = Inr t" "r = KERN_SUCCESS" "a = vm_space_base sp + ucast (b * 0x4000)"
      using run n s1 g fixed b(1) by (auto simp: vm_allocate_def Let_def)
    have "claimed h sp True (unat b) (unat (b + page_count_of sz)) s1 u"
      using sets_bit_loop [OF claim_page_sets_bit u(1) _ b(6)] sp sps by (simp add: has_space_def)
    then have "claimed h sp True (unat b) (unat b + unat (page_count_of sz)) s t"
      using u(2) sps c1 b(4) by (auto simp: claimed_def elim!: enable_interrupts_InrE)
    with b u ucast_page_offset [OF b(5)] show ?thesis by auto
  next
    assume "vm_scan (vm_space_table sp) (VM_SPACE_SIZE div 0x4000) (page_count_of sz) 0 0 0 = Inr None"
      "\<forall>k. \<not> run_of (free_slot (vm_space_table sp) bitmap_pages) k (unat (page_count_of sz))"
    with run n s1 g fixed sps show ?thesis by (auto simp: vm_allocate_def Let_def elim!: enable_interrupts_InrE)
  qed
qed

lemma vm_allocate_nomap_returns:
  assumes sp: "has_space s h sp" and fixed: "flags AND VM_FLAGS_FIXED = 0" and nomap: "flags AND VM_FLAGS_NOMAP \<noteq> 0"
    and room: "irq_room 1 s"
  shows "\<exists>r. vm_allocate h addr sz flags s = Inr r"
proof (cases "page_count_of sz = 0")
  case True
  then show ?thesis by (simp add: vm_allocate_def)
next
  case n: False
  let ?s1 = "s\<lparr>dis_int_count := dis_int_count s + 1, daif_unmasked := False\<rparr>"
  have s1: "disable_interrupts s = Inr ?s1" using room by (simp add: disable_interrupts_returns irq_room_not_max)
  have g: "get_space h ?s1 = Inr sp" and len: "length (vm_space_table sp) = 0x8000"
    using sp by (simp_all add: has_space_def get_space_def)
  have c0: "dis_int_count t \<noteq> 0" if "dis_int_count t = dis_int_count s + 1" for t :: "'a vmm_scheme"
    using irq_room_Suc(2) [of 0 s t] room that by simp
  show ?thesis
  proof (rule vm_allocate_scan [OF len n])
    fix b assume b: "vm_scan (vm_space_table sp) (VM_SPACE_SIZE div 0x4000) (page_count_of sz) 0 0 0 = Inr (Some b)"
      "unat b + unat (page_count_of sz) \<le> bitmap_pages"
      "unat (b + page_count_of sz) = unat b + unat (page_count_of sz)" "b \<le> b + page_count_of sz"
    have cap: "unat (b + page_count_of sz) \<le> 8 * length (vm_space_table sp)"
      using b len by (simp add: bitmap_pages_def)
    obtain u where u: "for_up (claim_page h flags) b (b + page_count_of sz) ?s1 = Inr u"
      using claim_loop_nomap [OF _ b(4) nomap cap, of ?s1 h] sp by (auto simp: has_space_def)
    have "claimed h sp True (unat b) (unat (b + page_count_of sz)) ?s1 u"
      using sets_bit_loop [OF claim_page_sets_bit u _ b(4)] sp by (simp add: has_space_def)
    then have "dis_int_count u \<noteq> 0" by (intro c0) (simp add: claimed_def)
    then show ?thesis using n s1 g fixed b(1) u
      by (simp add: vm_allocate_def Let_def enable_interrupts_returns)
  next
    assume "vm_scan (vm_space_table sp) (VM_SPACE_SIZE div 0x4000) (page_count_of sz) 0 0 0 = Inr None"
    with n s1 g fixed c0 [of ?s1] show ?thesis
      by (simp add: vm_allocate_def Let_def enable_interrupts_returns)
  qed
qed

section \<open>Giving address space back\<close>

lemma release_page_spaces:
  assumes run: "release_page h i s = Inr t" and sp: "spaces s h = Some sp"
  shows "spaces t = (spaces s)(h \<mapsto> sp\<lparr>vm_space_table := bmp_set False (unat i) (vm_space_table sp)\<rparr>)
    \<and> dis_int_count t = dis_int_count s"
  using run sp unfolding release_page_def
  by (auto split: if_splits dest!: vm_space_map_page_vkept
      simp: vkept_def get_space_def tbl_set_def put_space_def)

lemma release_page_sets_bit: "sets_bit h False (release_page h)"
  using release_page_spaces unfolding sets_bit_def by blast

lemma check_loop:
  assumes all: "\<And>k. unat i \<le> k \<Longrightarrow> k < unat e \<Longrightarrow> k < 8 * length t \<and> bmp_get t k" and le: "i \<le> e"
  shows "for_up (check_page t) i e True = Inr True"
proof -
  have "\<exists>ok. for_up (check_page t) i e True = Inr ok \<and> ok = True"
  proof (rule for_up_total [where P = "\<lambda>_ ok. ok = True"])
    fix j ok assume "i \<le> j" "j < e" "ok = True"
    then show "\<exists>t'. check_page t j ok = Inr t' \<and> t' = True"
      using all [of "unat j"] by (auto simp: check_page_def tbl_get_def word_le_nat_alt word_less_nat_alt)
  qed (use le in simp_all)
  then show ?thesis by auto
qed


lemma vm_deallocate_partial:
  assumes sp: "spaces s h = Some sp" and len: "length (vm_space_table sp) = 0x8000"
    and range: "vm_space_base sp = VM_SPACE_BASE" "vm_space_end sp = VM_SPACE_BASE + VM_SPACE_SIZE"
    and k: "k + unat (page_count_of sz) \<le> bitmap_pages" "sz \<le> VM_SPACE_SIZE" "page_count_of sz \<noteq> 0"
    and all: "\<And>j. k \<le> j \<Longrightarrow> j < k + unat (page_count_of sz) \<Longrightarrow> bmp_get (vm_space_table sp) j"
    and run: "vm_deallocate h (vm_space_base sp + of_nat (k * 16384)) sz s = Inr (r, t)"
  shows "r = KERN_SUCCESS \<and> claimed h sp False k (k + unat (page_count_of sz)) s t"
proof -
  let ?n = "page_count_of sz" and ?b = "of_nat k :: u32"
  obtain s1 where s1: "disable_interrupts s = Inr s1" using run by (auto simp: vm_deallocate_def)
  then have sps: "spaces s1 = spaces s" and c1: "dis_int_count s1 = dis_int_count s + 1"
    by (auto elim!: disable_interrupts_InrE)
  have g: "get_space h s1 = Inr sp" using sp sps by (simp add: get_space_def)
  have "0 < unat ?n" using k(3) by (simp add: unat_gt_0)
  then have kb: "k < bitmap_pages" using k(1) by linarith
  have off: "unat (of_nat (k * 16384) :: u64) = k * 16384"
    using kb by (subst unsigned_of_nat) (simp add: take_bit_eq_mod bitmap_pages_def)
  have "unat (of_nat (k * 16384) + sz) = k * 16384 + unat sz"
    using kb k(2) unfolding unat_word_ariths off
    by (simp add: bitmap_pages_def VM_SPACE_SIZE_def word_le_nat_alt)
  then have inb: "\<not> of_nat (k * 16384) + sz > vm_space_end sp"
    using kb k(2) by (simp add: range VM_SPACE_BASE_def VM_SPACE_SIZE_def word_less_nat_alt word_le_nat_alt bitmap_pages_def)
  have ub: "unat ?b = k" using kb by (simp add: unsigned_of_nat take_bit_eq_mod bitmap_pages_def)
  have bk: "ucast (of_nat (k * 16384) div 0x4000 :: u64) = ?b"
  proof -
    have "unat (of_nat (k * 16384) div 0x4000 :: u64) = k" using off by (simp add: unat_div)
    then have "unat (ucast (of_nat (k * 16384) div 0x4000 :: u64) :: u32) = k"
      unfolding unsigned_ucast_eq using kb by (simp add: take_bit_eq_mod bitmap_pages_def)
    then show ?thesis using ub by (simp only: word_unat_eq_iff)
  qed
  have ue: "unat (?b + ?n) = k + unat ?n" using ub k(1) by (simp add: unat_word_ariths bitmap_pages_def)
  have le: "?b \<le> ?b + ?n" using ub ue by (simp add: word_le_nat_alt)
  have chk: "for_up (check_page (vm_space_table sp)) ?b (?b + ?n) True = Inr True"
    using all k(1) len ub ue le by (intro check_loop) (auto simp: bitmap_pages_def)
  obtain u where u: "for_up (release_page h) ?b (?b + ?n) s1 = Inr u" "enable_interrupts u = Inr t" "r = KERN_SUCCESS"
    using run s1 g inb bk chk by (auto simp: vm_deallocate_def Let_def)
  have "claimed h sp False (unat ?b) (unat (?b + ?n)) s1 u"
    using sets_bit_loop [OF release_page_sets_bit u(1) _ le] sp sps by simp
  then show ?thesis using u(2,3) sps c1 ub ue by (auto simp: claimed_def elim!: enable_interrupts_InrE)
qed

end
