(* ===== verification/PhysProps.thy ===== *)
theory PhysProps
  imports PhysContig
begin

unbundle bit_operations_syntax

text \<open>
  The properties of the physical page allocator, with a four-page machine on which they
  are exercised.
\<close>

section \<open>A dereference that fails\<close>

lemma phys_dereference_fails:
  assumes wf: "phys_wf s fl lim" and room: "irq_room 2 s" and ram: "in_ram s pa sz"
    and i: "i = unat (page_idx s pa)" and j: "j = i + unat (drop_bit 14 sz)"
    and free: "i \<le> k" "k < j" "refcount (ppage_list s ! k) = 0"
  shows "phys_dereference pa sz s = Inl (Panic ''phys_dereference called on PAGE_FREE page'')"
proof -
  let ?w = "page_idx s pa" and ?n = "drop_bit 14 sz"
  let ?s = "s\<lparr>dis_int_count := dis_int_count s + 1, daif_unmasked := False\<rparr>"
  let ?L = "\<lambda>k. (rev (pages s (last_refs (ppage_list s) i k)) @ fl, lim)"
  let ?Q = "\<lambda>k. i \<le> k \<and> k < j \<and> refcount (ppage_list s ! k) = 0"
  define m where "m = (LEAST k. ?Q k)"
  have m: "?Q m" unfolding m_def by (rule LeastI [of ?Q k]) (use free in simp)
  have busy: "refcount (ppage_list s ! q) \<noteq> 0" if "i \<le> q" "q < m" for q
    using not_less_Least [of q ?Q] that m unfolding m_def by auto
  have g: "geometry_ok s" using wf by (simp add: phys_wf_def)
  have le: "unat ?w + unat ?n \<le> unat (ppages s)" using ram by (simp add: in_ram_def)
  note un = unat_add_page [OF le]
  have mb: "m < unat (ppages s)" using m le i j by simp
  then have "m < 2 ^ 64" using unsigned_less [of "ppages s", where ?'a = nat] by simp
  then have um: "unat (of_nat m :: u64) = m" by (simp add: unsigned_of_nat take_bit_eq_mod)
  have "range_op dereference_page ?w ?n s = Inl (Panic ''phys_dereference called on PAGE_FREE page'')"
  proof (rule range_op_fail [where P = "upto ?s dec_ref ?L i" and k = "of_nat m", OF room])
    show "?w \<le> of_nat m" "of_nat m < ?w + ?n" using m un i j um by (auto simp: word_le_nat_alt word_less_nat_alt)
    show "upto ?s dec_ref ?L i ?w ?s" using wf i by (simp add: upto_def)
  next
    fix q t assume q: "?w \<le> q" "q < of_nat m" "upto ?s dec_ref ?L i q t"
    then have qq: "q < ppages s" and qn: "i \<le> unat q" "unat q < m"
      using mb um i by (auto simp: word_less_nat_alt word_le_nat_alt)
    show "\<exists>t'. dereference_page q t = Inr t' \<and> upto ?s dec_ref ?L i (q + 1) t'"
    proof (rule upto_step [OF q(3)])
      fix u assume u: "phys_wf u (fst (?L (unat q))) (snd (?L (unat q)))" "frame ?s u"
        "ppage_list u ! unat q = ppage_list ?s ! unat q" "q < ppages u" "page_pa u = page_pa ?s"
      have c: "dis_int_count u \<noteq> - 1"
        using u(2) irq_room_Suc_not_max [OF room] unfolding frame_def
        by (metis irq.select_convs(1) irq.surjective irq.update_convs(1,2))
      have "refcount (ppage_list u ! unat q) \<noteq> 0" using busy [OF qn] u(3) by simp
      from dereference_page_ok [OF u(1) [simplified] u(4) this c] u(3,5) qn
      show "\<exists>t'. dereference_page q u = Inr t' \<and> frame u t'
          \<and> ppage_list t' = (ppage_list u)[unat q := dec_ref (ppage_list u ! unat q)]
          \<and> phys_wf t' (fst (?L (Suc (unat q)))) (snd (?L (Suc (unat q))))"
        by (auto simp: last_refs_Suc split: if_splits)
    qed (use qq g in simp_all)
  next
    fix t assume t: "upto ?s dec_ref ?L i (of_nat m) t"
    then have gt: "geometry_ok t" and l: "ppage_list t = upd_range dec_ref i m (ppage_list s)"
      and p: "ppages t = ppages s"
      using um by (auto simp: upto_def phys_wf_def frame_def)
    have mt: "of_nat m < ppages t" using mb um p by (simp add: word_less_nat_alt)
    have "ppage_list t ! m = ppage_list s ! m"
      using l entry_index [OF gt mt] um by (simp add: nth_upd_range)
    moreover have "\<not> ppages t < of_nat m" using mt by simp
    ultimately show "dereference_page (of_nat m) t = Inl (Panic ''phys_dereference called on PAGE_FREE page'')"
      using mt m um read_entry_in [OF gt mt] by (simp add: dereference_page_def free_iff del: word_of_nat_less_iff)
  qed
  then show ?thesis using ram by (auto simp: phys_dereference_range in_ram_def)
qed

section \<open>Bringing the allocator up\<close>

lemma force_free_page_Inr:
  assumes "force_free_page i s = Inr s'" "geometry_ok s"
  shows "i < ppages s" and "refcount (ppage_list s ! unat i) \<noteq> 0 \<Longrightarrow> dis_int_count s \<noteq> - 1"
proof -
  obtain v where v: "read_entry s i = Inr v"
    using assms(1) by (auto simp: force_free_page_def)
  then show i: "i < ppages s" using read_entry_Inr [OF v assms(2)] by simp
  assume "refcount (ppage_list s ! unat i) \<noteq> 0"
  with assms(1) i read_entry_in [OF assms(2) i] show "dis_int_count s \<noteq> - 1"
    by (auto simp: force_free_page_def free_iff split: if_splits dest: phys_page_was_freed_Inr)
qed

lemma phys_force_free_keeps:
  assumes "phys_force_free pa sz s = Inr s'" and "phys_wf s fl lim"
  shows "\<exists>fl'. phys_wf s' fl' lim \<and> frame s s'"
proof -
  have "\<exists>fl'. phys_wf t' fl' lim \<and> frame t t'"
    if "phys_wf t fl lim" "force_free_page j t = Inr t'" for j t t' fl
    using force_free_page_ok [OF that(1) force_free_page_Inr [OF that(2)]] that
    by (auto simp: phys_wf_def)
  then have "\<exists>fl'. phys_wf s' fl' lim \<and> frame s s'"
    if "range_op force_free_page (page_idx s pa) (drop_bit 14 sz) s = Inr s'"
    using range_op_keeps [OF that assms(2)] drop14_le unfolding page_idx_def by blast
  then show ?thesis
    using assms by (auto simp: phys_force_free_range split: if_splits)
qed

text \<open>The state the loader leaves: nothing on the free list, RAM that fits the address space.\<close>

definition boot_state :: "'a phys_scheme \<Rightarrow> bool" where
  "boot_state s \<longleftrightarrow> alloc_static_base s = 0 \<and> pa_head s = 0 \<and> free_pages s = 0
     \<and> physBase s AND 0x3fff = 0 \<and> physBase s \<noteq> 0
     \<and> unat (physBase s) + unat (drop_bit 14 (memSize s)) * 16384 < 2 ^ 64"

lemma memcpy_simps [simp]:
  "physBase (memcpy d a n s) = physBase s" "ppages (memcpy d a n s) = ppages s"
  "pa_head (memcpy d a n s) = pa_head s" "free_pages (memcpy d a n s) = free_pages s"
  "dis_int_count (memcpy d a n s) = dis_int_count s"
  by (simp_all add: memcpy_def Let_def)

lemma claim_autoboot_frame:
  assumes "claim_autoboot h s = (t, h')"
  shows "pa_head t = pa_head s" "free_pages t = free_pages s" "physBase t = physBase s"
    "ppages t = ppages s" "dis_int_count t = dis_int_count s"
  using assms by (auto simp: claim_autoboot_def Let_def split: if_splits)

lemma phys_wf_all_wired:
  assumes "physBase s AND 0x3fff = 0" "physBase s \<noteq> 0" "pa_head s = 0" "free_pages s = 0"
    "unat (physBase s) + unat (ppages s) * 16384 < 2 ^ 64"
    "ppage_list s = replicate (unat (ppages s)) PAGE_WIRED"
  shows "phys_inv s []"
proof -
  have "PAGE_WIRED AND PAGE_REFBITS \<noteq> PAGE_FREE"
    by (simp add: PAGE_WIRED_def PAGE_REFBITS_def PAGE_FREE_def)
  then have "free_pas s = {}"
    using assms(6) by (auto simp: free_pas_def word_less_nat_alt)
  then show ?thesis using assms by (simp add: phys_wf_def geometry_ok_def)
qed

lemma carve_regions_keeps:
  assumes run: "carve_regions h s = Inr s'" and wf: "phys_inv s fl"
  shows "\<exists>fl'. phys_inv s' fl' \<and> dis_int_count s' = dis_int_count s"
proof -
  define base where "base = (kCacheableView - 0x800000000 + topOfKernelData s) AND NOT 0x3fff"
  define u where "u = s\<lparr>alloc_static_base := base, alloc_static_current := base, alloc_static_end := 0x417fe0000\<rparr>"
  define hardcap where "hardcap = alloc_static_base u + 1024 * 1024 * 64"
  have wu: "phys_inv u fl" using wf unfolding u_def by (rule phys_wf_cong [THEN iffD1, rotated -1]) simp_all
  obtain v pa n where v: "(if alloc_static_end u > hardcap then
                  bindE (vatophys_static hardcap) (\<lambda>pa.
                  bindE (phys_force_free pa (alloc_static_end u - hardcap) u) (\<lambda>s.
                  Inr (s\<lparr>alloc_static_end := hardcap\<rparr>)))
                else Inr u) = Inr v"
     and f: "phys_force_free pa n v = Inr s'"
    using run unfolding carve_regions_def Let_def base_def [symmetric] u_def [symmetric] hardcap_def [symmetric]
    by blast
  have "\<exists>fl. phys_inv v fl \<and> dis_int_count v = dis_int_count u"
    using v wu by (auto simp: frame_def split: if_splits dest!: phys_force_free_keeps [OF _ wu])
  then obtain fl1 where "phys_inv v fl1" and cv: "dis_int_count v = dis_int_count u" by blast
  from phys_force_free_keeps [OF f this(1)] cv show ?thesis by (auto simp: frame_def u_def)
qed

lemma alloc_init_inv:
  assumes boot: "boot_state s" and run: "alloc_init s = Inr s'"
  shows "\<exists>fl. phys_inv s' fl \<and> dis_int_count s' = dis_int_count s"
proof -
  let ?s0 = "s\<lparr>ppages := drop_bit 14 (memSize s)\<rparr>"
  obtain t h where c: "claim_autoboot (early_heap_base s) ?s0 = (t, h)" by fastforce
  obtain u h2 where u: "claim_page_array h t = (u, h2)" by fastforce
  note fr = claim_autoboot_frame [OF c, simplified]
  have wu: "phys_inv u []" and cu: "dis_int_count u = dis_int_count s"
    using boot fr u by (auto simp: claim_page_array_def Let_def boot_state_def intro!: phys_wf_all_wired)
  have "carve_regions h2 u = Inr s'"
    using run boot c u by (simp add: alloc_init_def boot_state_def)
  from carve_regions_keeps [OF this wu] cu show ?thesis by simp
qed

section \<open>A four-page machine\<close>

text \<open>Page 0 is wired, pages 1 to 3 are free and linked in order.\<close>

definition ex_phys :: "phys" where
  "ex_phys = \<lparr>dis_int_count = 0, daif_unmasked = True, physBase = 0x800000000, memSize = 0x10000,
     topOfKernelData = 0x817000000, early_heap_base = 0x400000000, autoboot_block = 0,
     ppage_list = [0xffffff, 0, 0, 0], ppages = 4, free_pages = 3, wired_pages = 1,
     alloc_static_base = 0x417000000, alloc_static_current = 0x417000000,
     alloc_static_end = 0x417fe0000, pa_head = 0x800004000,
     pmem = (\<lambda>_. 0)(0x800004000 := 0x800008000, 0x800008000 := 0x80000c000,
               0x800008008 := 0x800004000, 0x80000c008 := 0x800008000)\<rparr>"

definition ex_free :: "u64 list" where
  "ex_free = [0x800004000, 0x800008000, 0x80000c000]"

lemma free_pas_list:
  assumes "geometry_ok s"
  shows "free_pas s = set (pages s (filter (\<lambda>k. refcount (ppage_list s ! k) = 0) [0..<length (ppage_list s)]))"
proof
  show "free_pas s \<subseteq> set (pages s (filter (\<lambda>k. refcount (ppage_list s ! k) = 0) [0..<length (ppage_list s)]))"
  proof
    fix x assume "x \<in> free_pas s"
    then obtain k where "k < ppages s" "x = page_pa s k" "refcount (ppage_list s ! unat k) = 0"
      using page_of_free [OF assms] by blast
    then show "x \<in> set (pages s (filter (\<lambda>k. refcount (ppage_list s ! k) = 0) [0..<length (ppage_list s)]))"
      using entry_index [OF assms] by (auto simp: pages_def intro!: image_eqI [of _ _ "unat k"])
  qed
next
  show "set (pages s (filter (\<lambda>k. refcount (ppage_list s ! k) = 0) [0..<length (ppage_list s)])) \<subseteq> free_pas s"
  proof
    fix x assume "x \<in> set (pages s (filter (\<lambda>k. refcount (ppage_list s ! k) = 0) [0..<length (ppage_list s)]))"
    then obtain k where k: "k < length (ppage_list s)" "x = page_pa s (of_nat k)" "refcount (ppage_list s ! k) = 0"
      by (auto simp: pages_def)
    have "k < 2 ^ 64" using k(1) assms by (simp add: geometry_ok_def)
    then have u: "unat (of_nat k :: u64) = k" by (simp add: unsigned_of_nat take_bit_eq_mod)
    then have "of_nat k < ppages s" using k(1) assms by (simp add: geometry_ok_def word_less_nat_alt)
    then show "x \<in> free_pas s" using page_pa_free_iff [OF assms] k u by simp
  qed
qed

lemma ex_phys_inv: "phys_inv ex_phys ex_free"
proof -
  have g: "geometry_ok ex_phys" by (simp add: geometry_ok_def ex_phys_def)
  show ?thesis
    using g by (simp add: phys_wf_def free_pas_list ex_phys_def ex_free_def upt_rec refcount_def
        PAGE_REFBITS_def page_pa_def)
qed

section \<open>Properties\<close>

text \<open>C1 A page allocation panics exactly when no page is free. Otherwise it hands out the
  head of the free list, cleared and with reference count one, and leaves a consistent
  allocator that holds the rest of the list.\<close>

lemma ppage_alloc_correct:
  assumes "phys_inv s fl" and "alloc_static_base s \<noteq> 0" and "irq_room 3 s"
  shows "case fl of
      [] \<Rightarrow> ppage_alloc s = Inl (Panic ''ppage_alloc: OOM'')
    | x # rest \<Rightarrow> \<exists>s'. ppage_alloc s = Inr (x, s') \<and> phys_inv s' rest \<and> frame s s' \<and> taken s x s'"
proof (cases fl)
  case Nil
  then show ?thesis using assms ppage_alloc_empty irq_room_mono [of 3 s 1] by simp
next
  case (Cons x rest)
  then show ?thesis using assms ppage_alloc_take by simp
qed

lemma ppage_alloc_correct_witness:
  "\<exists>s'. ppage_alloc ex_phys = Inr (0x800004000, s') \<and> phys_inv s' [0x800008000, 0x80000c000]"
  using ppage_alloc_correct [OF ex_phys_inv] by (auto simp: ex_phys_def ex_free_def irq_room_def)

text \<open>Allocating a page and freeing it restores the free list, in the same order, and
  every reference count.\<close>

lemma ppage_alloc_free_roundtrip:
  assumes "phys_inv s fl" and "alloc_static_base s \<noteq> 0" and "irq_room 3 s" and "fl \<noteq> []"
  shows "\<exists>x s1 s2. ppage_alloc s = Inr (x, s1) \<and> ppage_free x s1 = Inr s2
     \<and> phys_inv s2 fl \<and> ppage_list s2 = ppage_list s \<and> frame s s2"
proof -
  obtain x rest where fl: "fl = x # rest" using assms(4) by (cases fl) auto
  obtain s1 where s1: "ppage_alloc s = Inr (x, s1)" "phys_inv s1 rest" "frame s s1" "taken s x s1"
    using ppage_alloc_take assms fl by blast
  then obtain k where k: "k < ppages s" "x = page_pa s k" "refcount (ppage_list s ! unat k) = 0"
    "ppage_list s1 = (ppage_list s)[unat k := inc_ref (ppage_list s ! unat k)]"
    by (auto simp: taken_def)
  have g: "geometry_ok s" using assms(1) by (simp add: phys_wf_def)
  have kl: "unat k < length (ppage_list s)" using entry_index [OF g k(1)] .
  have one: "refcount (ppage_list s1 ! unat k) = 1" using k kl refcount_inc by simp
  have x1: "x = page_pa s1 k" "k < ppages s1" "irq_room 2 s1"
    using s1(3) k frame_page_pa [OF s1(3)] assms(3) by (simp_all add: frame_def irq_room_def)
  obtain s2 where s2: "ppage_free x s1 = Inr s2" "phys_inv s2 (x # rest)" "frame s1 s2"
     "ppage_list s2 = (ppage_list s1)[unat k := dec_ref (ppage_list s1 ! unat k)]"
    using ppage_free_put [OF s1(2) x1(3,2) one] x1(1) by auto
  have "ppage_list s2 = ppage_list s" using s2(4) k kl dec_inc_ref by simp
  then show ?thesis using s1 s2 fl frame_trans [OF s1(3) s2(3)] by blast
qed

lemma ppage_alloc_free_roundtrip_witness:
  "\<exists>x s1 s2. ppage_alloc ex_phys = Inr (x, s1) \<and> ppage_free x s1 = Inr s2
     \<and> phys_inv s2 ex_free \<and> ppage_list s2 = [0xffffff, 0, 0, 0]"
  using ppage_alloc_free_roundtrip [OF ex_phys_inv]
  by (auto simp: ex_phys_def ex_free_def irq_room_def)



text \<open>C3 Dropping a reference on every page of a range: if all of them are in use the call
  returns, every count is one lower, and the pages that reached zero are at the front of the
  free list, last page first; if one of them is free the call panics.\<close>

lemma phys_dereference_correct:
  assumes "phys_inv s fl" and "irq_room 2 s" and "in_ram s pa sz"
    and "i = unat (page_idx s pa)" and "j = i + unat (drop_bit 14 sz)"
  shows "if (\<forall>k \<in> {i..<j}. refcount (ppage_list s ! k) \<noteq> 0)
    then \<exists>s'. phys_dereference pa sz s = Inr s' \<and> frame s s'
       \<and> ppage_list s' = upd_range dec_ref i j (ppage_list s)
       \<and> phys_inv s' (rev (pages s (last_refs (ppage_list s) i j)) @ fl)
    else phys_dereference pa sz s = Inl (Panic ''phys_dereference called on PAGE_FREE page'')"
proof (cases "\<forall>k \<in> {i..<j}. refcount (ppage_list s ! k) \<noteq> 0")
  case True
  then show ?thesis using phys_dereference_total [OF assms] by auto
next
  case False
  then obtain k where "i \<le> k" "k < j" "refcount (ppage_list s ! k) = 0" by auto
  from phys_dereference_fails [OF assms this] False show ?thesis by simp
qed

lemma phys_dereference_correct_witness:
  "phys_dereference 0x800004000 0x8000 ex_phys = Inl (Panic ''phys_dereference called on PAGE_FREE page'')"
proof -
  have "in_ram ex_phys 0x800004000 0x8000" "irq_room 2 ex_phys" "1 = unat (page_idx ex_phys 0x800004000)"
    "3 = 1 + unat (drop_bit 14 (0x8000 :: u64))"
    by (simp_all add: in_ram_def irq_room_def page_idx_def ex_phys_def)
  moreover have "\<not> (\<forall>k \<in> {1..<3}. refcount (ppage_list ex_phys ! k) \<noteq> 0)"
    by (auto simp: ex_phys_def refcount_def intro!: bexI [of _ 1])
  ultimately show ?thesis
    using phys_dereference_correct [OF ex_phys_inv, where i = "1" and j = "3"] by presburger
qed

text \<open>Whenever the initialisation of the allocator returns, with or without an autoboot
  payload and whatever regions it carved, it leaves a consistent allocator.\<close>

lemma alloc_init_establishes_inv:
  assumes "boot_state s" and "alloc_init s = Inr s'"
  shows "\<exists>fl. phys_inv s' fl \<and> dis_int_count s' = dis_int_count s"
  using alloc_init_inv [OF assms] .

definition ex_boot :: "phys" where
  "ex_boot = ex_phys\<lparr>ppage_list := [], ppages := 0, free_pages := 0, wired_pages := 0,
     alloc_static_base := 0, alloc_static_current := 0, alloc_static_end := 0, pa_head := 0,
     pmem := (\<lambda>_. 0)\<rparr>"


definition ex_boot2 :: "phys" where
  "ex_boot2 = ex_boot\<lparr>ppage_list := replicate 4 PAGE_WIRED, ppages := 4, wired_pages := 4,
     alloc_static_base := 0x417000000, alloc_static_current := 0x417000000,
     alloc_static_end := 0x417fe0000\<rparr>"

lemma ex_boot2_init: "alloc_init ex_boot = phys_force_free 0x800008000 0x8000 ex_boot2"
proof -
  have a: "claim_autoboot 0x400000000 (ex_boot\<lparr>ppages := 4\<rparr>) = (ex_boot\<lparr>ppages := 4\<rparr>, 0x400000000)"
    by (simp add: claim_autoboot_def ld_def autoboot_magic_def ex_boot_def)
  have b: "claim_page_array 0x400000000 (ex_boot\<lparr>ppages := 4\<rparr>) =
      (ex_boot\<lparr>ppages := 4, wired_pages := 4, ppage_list := replicate 4 PAGE_WIRED\<rparr>, 0x400004000)"
    by (simp add: claim_page_array_def ex_boot_def ex_phys_def)
  have c: "carve_regions 0x400004000
      (ex_boot\<lparr>ppages := 4, wired_pages := 4, ppage_list := replicate 4 PAGE_WIRED\<rparr>) =
      phys_force_free 0x800008000 0x8000 ex_boot2"
    by (simp add: carve_regions_def ex_boot2_def ex_boot_def ex_phys_def kCacheableView_def Let_def
        vatophys_static_def alloc_heap_end_def phystokv_def)
  have "alloc_static_base ex_boot = 0" "drop_bit 14 (memSize ex_boot) = 4" "early_heap_base ex_boot = 0x400000000"
    by (simp_all add: ex_boot_def ex_phys_def)
  then show ?thesis by (simp add: alloc_init_def a b c)
qed

lemma ex_boot_returns: "\<exists>s'. alloc_init ex_boot = Inr s'"
proof -
  have "phys_inv ex_boot2 []"
    by (rule phys_wf_all_wired) (simp_all add: ex_boot2_def ex_boot_def ex_phys_def)
  moreover have "irq_room 2 ex_boot2" by (simp add: irq_room_def ex_boot2_def ex_boot_def ex_phys_def)
  moreover have "in_ram ex_boot2 0x800008000 0x8000"
    by (simp add: in_ram_def page_idx_def ex_boot2_def ex_boot_def ex_phys_def)
  ultimately show ?thesis
    unfolding ex_boot2_init using phys_force_free_total [OF _ _ _ refl refl] by blast
qed

lemma ex_boot_boot: "boot_state ex_boot"
  by (simp add: boot_state_def ex_boot_def ex_phys_def)

lemma alloc_init_establishes_inv_witness:
  "\<exists>s' fl. alloc_init ex_boot = Inr s' \<and> phys_inv s' fl"
  using ex_boot_returns alloc_init_establishes_inv [OF ex_boot_boot] by blast

text \<open>Wired pages are not protected from an unbalanced release: taking a reference on a
  wired page leaves its entry alone, but dropping one turns the wired marker \<open>0xffffff\<close> into
  an ordinary count of \<open>0xfffffe\<close>, and the wired-page counter is not adjusted.\<close>

lemma wired_page_unwired_by_dereference:
  assumes "phys_inv s fl" and "irq_room 2 s" and "k < ppages s"
    and "refcount (ppage_list s ! unat k) = 2 ^ 24 - 1"
  shows "\<exists>s1 s2. phys_reference (page_pa s k) PAGE_SIZE s = Inr s1 \<and> ppage_list s1 = ppage_list s
     \<and> phys_dereference (page_pa s k) PAGE_SIZE s1 = Inr s2
     \<and> refcount (ppage_list s2 ! unat k) = 2 ^ 24 - 2 \<and> phys_inv s2 fl"
proof -
  have g: "geometry_ok s" and kl: "unat k < length (ppage_list s)"
    using assms(1,3) entry_index by (auto simp: phys_wf_def)
  have z: "(if unat k \<le> j \<and> j < Suc (unat k) then ref_up e else e) = e"
    if "j < length (ppage_list s)" "e = ppage_list s ! j" for j e
    using that assms(4) by (auto simp: ref_up_def less_Suc_eq_le dest: antisym)
  have id: "upd_range ref_up (unat k) (Suc (unat k)) (ppage_list s) = ppage_list s"
    by (rule nth_equalityI) (simp_all add: nth_upd_range z)
  note ram = in_ram_page [OF g assms(3)] and idx = page_idx_page_pa [OF g less_imp_le [OF assms(3)]]
  have "\<forall>j. unat (page_idx s (page_pa s k)) \<le> j
      \<and> j < unat (page_idx s (page_pa s k)) + unat (drop_bit 14 PAGE_SIZE)
      \<and> refcount (ppage_list s ! j) = 0 \<longrightarrow> page_pa s (of_nat j) \<in> set []"
    unfolding idx using assms(4) by (auto simp: less_Suc_eq_le dest: antisym)
  from phys_reference_total [OF assms(1,2) ram refl refl this]
  obtain s1 where s1: "phys_reference (page_pa s k) PAGE_SIZE s = Inr s1" "frame s s1"
      "ppage_list s1 = ppage_list s" "phys_inv s1 fl"
    by (auto simp: idx id removes_all)
  have r1: "irq_room 2 s1" "k < ppages s1" "page_pa s1 = page_pa s"
    using s1(2) assms(2,3) frame_page_pa [OF s1(2)] by (simp_all add: irq_room_def frame_def)
  have busy: "refcount (ppage_list s1 ! unat k) \<noteq> 0" using assms(4) s1(3) by simp
  from phys_dereference_one [OF s1(4) r1(1,2) busy] s1 r1(3) assms(4) kl
  show ?thesis by (auto simp: refcount_dec)
qed

lemma wired_page_unwired_by_dereference_witness:
  "\<exists>s1 s2. phys_reference 0x800000000 PAGE_SIZE ex_phys = Inr s1
     \<and> phys_dereference 0x800000000 PAGE_SIZE s1 = Inr s2
     \<and> refcount (ppage_list s2 ! 0) = 0xfffffe \<and> phys_inv s2 ex_free"
  using wired_page_unwired_by_dereference [OF ex_phys_inv, where k = "0"]
  by (simp add: ex_phys_def irq_room_def page_pa_def refcount_def PAGE_REFBITS_def) blast

lemma aligned_add: "(x :: u64) AND 0x3fff = 0 \<Longrightarrow> y AND 0x3fff = 0 \<Longrightarrow> (x + y) AND 0x3fff = 0"
proof -
  assume a: "x AND 0x3fff = 0" "y AND 0x3fff = 0"
  have "unat (x + y) mod 16384 = (unat x mod 16384 + unat y mod 16384) mod 16384"
    by (simp only: unat_word_ariths mod_add_eq) (simp add: mod_mod_cancel)
  with a show ?thesis by (simp add: aligned_iff)
qed

text \<open>The heap does not stop one megabyte below the end of RAM: the expression that
  computes its end parses as a mask with \<open>~0x3fff - 0x100000\<close>, so for page-aligned RAM the
  result is the end of RAM itself with bit 20 cleared.\<close>

lemma alloc_heap_end_precedence:
  assumes "physBase s AND 0x3fff = 0" and "memSize s AND 0x3fff = 0"
  shows "alloc_heap_end s = (phystokv (physBase s) + memSize s) AND NOT 0x100000"
proof -
  let ?x = "phystokv (physBase s) + memSize s"
  have "(kCacheableView - 0x800000000) AND 0x3fff = 0" by (simp add: kCacheableView_def)
  from aligned_add [OF aligned_add [OF assms(1) this] assms(2)]
  have al: "?x AND 0x3fff = 0" by (simp add: phystokv_def algebra_simps)
  have gen: "(x OR c) AND (NOT c AND d) = (x AND NOT c) AND d" for x c d :: u64
    by (rule bit_eqI) (auto simp: bit_simps)
  have "alloc_heap_end s = (?x OR 0x3fff) AND (NOT 0x3fff AND NOT 0x100000)"
    using disjunctive_add_eq_or [OF al] by (simp add: alloc_heap_end_def)
  also have "\<dots> = (?x AND NOT 0x3fff) AND NOT 0x100000"
    by (rule gen)
  also have "?x AND NOT 0x3fff = ?x"
    using round_up_idem [OF al] disjunctive_add_eq_or [OF al] by (simp add: bit.conj_disj_distrib2)
  finally show ?thesis by simp
qed

lemma alloc_heap_end_precedence_witness:
  "alloc_heap_end (ex_phys\<lparr>memSize := 0x40000000\<rparr>) = phystokv (physBase ex_phys) + 0x40000000"
  using alloc_heap_end_precedence [of "ex_phys\<lparr>memSize := 0x40000000\<rparr>"]
  by (simp add: ex_phys_def phystokv_def kCacheableView_def)

end
