(* ===== verification/VmMap.thy ===== *)
theory VmMap
  imports VmSpace PhysProps
begin

unbundle bit_operations_syntax

text \<open>
  The table walk for one 16K page: what \<open>map_range_map\<close> does when the second-level table is
  there, and what \<open>tte_walk_get\<close> finds afterwards.
\<close>

section \<open>Rounding\<close>

lemma and_not_mask: "(x :: u64) AND NOT (mask k) = x - (x AND mask k)"
proof -
  have "(x AND mask k) + (x AND NOT (mask k)) = (x AND mask k) OR (x AND NOT (mask k))"
    by (rule disjunctive_add_eq_or, rule bit_eqI) (auto simp: bit_simps)
  also have "\<dots> = x" by (rule bit_eqI) (auto simp: bit_simps)
  finally show ?thesis by (metis add_diff_cancel_left')
qed

lemma unat_and_mask: "unat ((x :: u64) AND mask k) = unat x mod 2 ^ k"
  by (simp add: unsigned_take_bit_eq flip: take_bit_eq_mask take_bit_eq_mod)

lemma unat_and_not_mask: "unat ((x :: u64) AND NOT (mask k)) = unat x - unat x mod 2 ^ k"
proof -
  have "x AND mask k \<le> x" by (simp add: word_le_nat_alt unat_and_mask)
  then show ?thesis by (simp add: and_not_mask unat_sub unat_and_mask)
qed

lemma mask14: "(0x3fff :: u64) = mask 14" by (simp add: mask_eq_exp_minus_1)
lemma mask25: "(0x1ffffff :: u64) = mask 25" by (simp add: mask_eq_exp_minus_1)

lemma level1_fits:
  assumes o36: "unat (x :: u64) < 2 ^ 36" and al: "unat x mod 16384 = 0"
  shows "((x + 0x4000 + 0x1ffffff) AND NOT 0x1ffffff) - (x AND NOT 0x1ffffff) = 0x2000000"
proof -
  let ?r = "unat x mod 2 ^ 25" and ?y = "x + 0x4000 + 0x1ffffff"
  have r: "?r mod 16384 = 0" using al by (simp add: mod_mod_cancel)
  have rle: "?r \<le> 33538048"
  proof (rule ccontr)
    assume "\<not> ?r \<le> 33538048"
    moreover have "?r < 33554432" by simp
    moreover obtain q where "?r = 16384 * q" using r by (metis mod_0_imp_dvd dvdE)
    ultimately show False by simp
  qed
  have uy: "unat ?y = unat x + 33570815" using o36 by (simp add: unat_word_ariths)
  have "unat ?y mod 2 ^ 25 = (?r + 33570815) mod 2 ^ 25" unfolding uy by (simp add: mod_add_left_eq)
  also have "\<dots> = ?r + 33570815 - 33554432"
    using rle by (simp add: mod_if)
  finally have m: "unat ?y mod 2 ^ 25 = ?r + 16383" by simp
  have a: "unat (?y AND NOT 0x1ffffff) = unat x - ?r + 33554432"
    unfolding mask25 unat_and_not_mask [of ?y, unfolded mask25] using m uy by (simp add: mask25 [symmetric])
  have b: "unat (x AND NOT 0x1ffffff) = unat x - ?r"
    unfolding mask25 unat_and_not_mask ..
  have le: "x AND NOT 0x1ffffff \<le> ?y AND NOT 0x1ffffff" unfolding word_le_nat_alt a b by simp
  have "unat ((?y AND NOT 0x1ffffff) - (x AND NOT 0x1ffffff)) = unat x - ?r + 33554432 - (unat x - ?r)"
    using unat_sub [OF le] unfolding a b .
  then have "unat ((?y AND NOT 0x1ffffff) - (x AND NOT 0x1ffffff)) = 33554432"
    by (simp only: diff_add_inverse)
  then show ?thesis by (simp add: word_unat_eq_iff)
qed


lemma level2_exact:
  assumes o36: "unat (x :: u64) < 2 ^ 36" and al: "x AND 0x3fff = 0"
  shows "x AND NOT 0x3fff = x" "(x + 0x4000 + 0x3fff) AND NOT 0x3fff = x + 0x4000" "x < x + 0x4000"
proof -
  have al2: "(x + 0x4000) AND 0x3fff = 0" using aligned_add [OF al, of "0x4000"] by simp
  show "x AND NOT 0x3fff = x" using al unfolding mask14 and_not_mask by simp
  show "(x + 0x4000 + 0x3fff) AND NOT 0x3fff = x + 0x4000" by (rule round_up_idem [OF al2])
  show "x < x + 0x4000" using o36 by (simp add: word_less_nat_alt unat_word_ariths)
qed

section \<open>One 16K page\<close>

definition geometry16k :: "'a vmm_scheme \<Rightarrow> bool" where
  "geometry16k s \<longleftrightarrow> is_16k_v s \<and> tt_bits s = 11 \<and> t0sz s = 28 \<and> t1sz s = 28"

text \<open>The low 36 bits of an address, and the two indices of the 16K tables.\<close>

definition off36 :: "u64 \<Rightarrow> u64" where "off36 va = va AND 0xfffffffff"
definition l1_index :: "u64 \<Rightarrow> u64" where "l1_index va = drop_bit 25 (off36 va) AND 0x7ff"
definition l2_index :: "u64 \<Rightarrow> u64" where "l2_index va = drop_bit 14 (off36 va) AND 0x7ff"

lemma mask36: "(0xfffffffff :: u64) = mask 36" by (simp add: mask_eq_exp_minus_1)

lemma off36_lt: "unat (off36 va) < 2 ^ 36"
  unfolding off36_def mask36 unat_and_mask by simp

lemma off36_aligned: "va AND 0x3fff = 0 \<Longrightarrow> off36 va AND 0x3fff = 0"
  by (simp add: off36_def and.assoc)

lemma va_offset16k: "geometry16k s \<Longrightarrow> va_offset tt1 va s = off36 va"
proof -
  assume g: "geometry16k s"
  have "(va - 0xffffffe000000000) AND mask 36 = va AND mask 36"
  proof (rule word_unat_eq_iff [THEN iffD2])
    have "unat (va - 0xffffffe000000000) mod 2 ^ 36 = unat va mod 2 ^ 36"
    proof -
      have e: "va - 0xffffffe000000000 = va + 0x2000000000" by simp
      have "unat (va + 0x2000000000) mod 2 ^ 36 = (unat va + 2 ^ 36 * 2) mod 2 ^ 36"
        unfolding unat_word_ariths by (simp add: mod_mod_cancel)
      then show ?thesis unfolding e by (simp only: mod_mult_self2)
    qed
    then show "unat ((va - 0xffffffe000000000) AND mask 36) = unat (va AND mask 36)"
      unfolding unat_and_mask .
  qed
  then show ?thesis using g
    by (simp add: va_offset_def va_bits_def geometry16k_def off36_def mask36 [symmetric] Let_def)
qed

lemma tt_index16k:
  assumes "geometry16k s"
  shows "tt_index (off36 va) 36 s = l1_index va" "tt_index (off36 va) 25 s = l2_index va"
  using assms by (simp_all add: tt_index_def geometry16k_def l1_index_def l2_index_def)

lemma map_walk_down:
  assumes "push_bit (unat (bits - tt_bits s)) 1 = blksz" and "sz < blksz"
    and "((va + sz + (blksz - 1)) AND NOT (blksz - 1)) - (va AND NOT (blksz - 1)) = blksz"
    and "tt_get tt (tt_index va bits s) s = e" "tte_valid e" "tte_table e"
  shows "map_walk (Suc n) again a tt bits va pa sz s =
    map_walk n again a (push_bit 12 (tte_oa e)) (bits - tt_bits s) va pa sz s"
  using assms by (simp add: Let_def)

lemma map_walk_last:
  assumes "push_bit (unat (bits - tt_bits s)) 1 = blksz" and "\<not> sz < blksz"
  shows "map_walk (Suc n) again a tt bits va pa sz s =
    map_blocks (Suc n) again a tt bits (va AND NOT (blksz - 1)) ((va + sz + (blksz - 1)) AND NOT (blksz - 1)) va pa sz s"
  using assms by (simp add: Let_def del: map_blocks.simps)

lemma map_blocks_one:
  fixes s :: "'a vmm_scheme"
  assumes "push_bit (unat (bits - tt_bits s)) 1 = blksz" and "lo < lo + blksz" and "pa AND (blksz - 1) = 0"
  shows "map_blocks (Suc (Suc n)) again a tt bits lo (lo + blksz) lo pa blksz s = map_block a tt bits blksz lo pa s"
proof -
  have k: "map_blocks (Suc n) again a tt bits (lo + blksz) (lo + blksz) (lo + blksz) (pa + blksz) 0 = Inr"
    by (rule ext) simp
  have "bindE m Inr = m" for m :: "error + 'a vmm_scheme" by (cases m) simp_all
  then show ?thesis using assms k by (simp add: Let_def del: map_blocks.simps add: map_blocks.simps(2) [of "Suc n"])
qed

lemma map_range_map16k:
  fixes s :: "'a vmm_scheme"
  assumes g: "geometry16k s" and va: "va AND 0x3fff = 0" and pa: "pa AND 0x3fff = 0" "pa \<le> pa + 0x4000"
    and e: "tt_get (tt0 a) (l1_index va) s = e" "tte_valid e" "tte_table e"
  shows "map_range_map (Suc (Suc (Suc n))) a va pa 0x4000 s =
    map_block a (push_bit 12 (tte_oa e)) 25 0x4000 (off36 va) pa s"
proof -
  let ?x = "off36 va" and ?t2 = "push_bit 12 (tte_oa e)"
  note lt = off36_lt [of va] and al = off36_aligned [OF va]
  have m: "unat ?x mod 16384 = 0" using al by (simp add: aligned_iff)
  note exact = level2_exact [OF lt al]
  have c25: "(0x2000000 :: u64) - 1 = 0x1ffffff" and c14: "(0x4000 :: u64) - 1 = 0x3fff" by simp_all
  note fits = level1_fits [OF lt m, folded c25]
  have bad: "\<not> map_bad_args 0x4000 ?x pa 0x4000"
    using al pa exact(3) by (auto simp: map_bad_args_def not_less)
  have g': "tt_bits s = 11" using g by (simp add: geometry16k_def)
  have sb: "start_bits (va_bits (is_tt1 a) s) s = 36"
    using g by (simp add: start_bits_def va_bits_def geometry16k_def)
  have p: "push_bit (unat (36 - tt_bits s)) 1 = (0x2000000 :: u64)" "push_bit (unat (25 - tt_bits s)) 1 = (0x4000 :: u64)"
    "push_bit (unat (tt_bits s + 3)) 1 = (0x4000 :: u64)" "36 - tt_bits s = 25"
    by (simp_all add: g')
  define again :: "u64 \<Rightarrow> u64 \<Rightarrow> u64 \<Rightarrow> 'a vmm_scheme \<Rightarrow> error + 'a vmm_scheme"
    where "again = map_range_map (Suc (Suc n)) a"
  have "map_range_map (Suc (Suc (Suc n))) a va pa 0x4000 s = map_walk (Suc (Suc (Suc n))) again a (tt0 a) 36 ?x pa 0x4000 s"
    using bad unfolding map_range_map.simps(2) [of "Suc (Suc n)"] Let_def va_offset16k [OF g] p(3) sb again_def [symmetric]
    by simp
  also have "\<dots> = map_walk (Suc (Suc n)) again a ?t2 25 ?x pa 0x4000 s"
    using map_walk_down [OF p(1) _ fits, of "tt0 a" e] e tt_index16k [OF g] p(4) by simp
  also have "\<dots> = map_blocks (Suc (Suc n)) again a ?t2 25 ?x (?x + 0x4000) ?x pa 0x4000 s"
    using map_walk_last [OF p(2), of "0x4000"] exact(1,2) unfolding c14 by (simp del: map_walk.simps map_blocks.simps)
  also have "\<dots> = map_block a ?t2 25 0x4000 ?x pa s"
    using map_blocks_one [OF p(2) exact(3)] pa(1) unfolding c14 by (simp del: map_blocks.simps)
  finally show ?thesis .
qed

end
