(* ===== verification/VmWalk.thy ===== *)
theory VmWalk
  imports VmMap
begin

unbundle bit_operations_syntax

text \<open>
  Mapping a page and looking it up again.
\<close>

section \<open>Fields of a leaf entry\<close>

lemma bit_int_exp [simp]:
  "bit (2 :: int) n \<longleftrightarrow> n = 1" "bit (1024 :: int) n \<longleftrightarrow> n = 10"
  using bit_exp_iff [where ?'a = int, of 1 n] bit_exp_iff [where ?'a = int, of 10 n] by auto

lemma bit_flag: "bit (if c then push_bit m (1 :: u64) else 0) n \<longleftrightarrow> c \<and> n = m \<and> n < 64"
  by (auto simp: bit_exp_iff)

lemma bit_two_flag: "bit (if c then 2 else 0 :: u64) n \<longleftrightarrow> c \<and> n = 1"
  by auto

lemma bit_field:
  "bit (push_bit m (take_bit w x) :: u64) n \<longleftrightarrow> m \<le> n \<and> n < 64 \<and> n - m < w \<and> bit x (n - m)"
  by (auto simp: bit_push_bit_iff bit_take_bit_iff)

lemma bit_ap: "bit (push_bit 6 ((if c then 2 else 0) OR (if d then 1 else 0)) :: u64) n \<Longrightarrow> 6 \<le> n \<and> n \<le> 7"
  by (auto simp: bit_push_bit_iff bit_or_iff bit_1_iff split: if_splits)

lemma block_tte_oa: "tte_oa (block_tte l3 attr sh pa prot tt1) = take_bit 36 (drop_bit 12 pa)"
proof (rule bit_eqI)
  fix n assume "possible_bit TYPE(u64) n"
  show "bit (tte_oa (block_tte l3 attr sh pa prot tt1)) n = bit (take_bit 36 (drop_bit 12 pa)) n"
  proof (cases "n < 36")
    case True
    let ?m = "12 + n"
    have "\<not> bit (1 :: u64) ?m" by (simp add: bit_1_iff)
    moreover have "\<not> bit (push_bit 10 1 :: u64) ?m" by simp
    moreover have "\<not> bit (push_bit 6 ((if \<not> has prot PROT_WRITE then 2 else 0) OR
               (if tt1 \<and> \<not> has prot PROT_KERN_ONLY then 1 else 0)) :: u64) ?m"
      using bit_ap by fastforce
    ultimately have "bit (block_tte l3 attr sh pa prot tt1) ?m = bit (drop_bit 12 pa) n"
      unfolding block_tte_def Let_def bit_or_iff bit_field bit_flag bit_two_flag
      using True by (simp del: push_bit_of_1 add: bit_drop_bit_eq)
    with True show ?thesis by (simp add: tte_oa_def bit_take_bit_iff bit_drop_bit_eq add.commute)
  qed (simp add: tte_oa_def bit_take_bit_iff)
qed

lemma block_tte_valid [simp]: "tte_valid (block_tte l3 attr sh pa prot tt1)"
  unfolding tte_valid_def block_tte_def Let_def by (simp add: bit_or_iff)

lemma block_tte_table [simp]: "tte_table (block_tte l3 attr sh pa prot tt1) = l3"
  unfolding tte_table_def block_tte_def Let_def
  by (auto simp: bit_or_iff bit_push_bit_iff bit_1_iff)

lemma block_tte_addr:
  assumes "pa AND 0x3fff = 0" "pa < 0x1000000000000"
  shows "push_bit 12 (tte_oa (block_tte l3 attr sh pa prot tt1)) = pa"
proof (rule bit_eqI)
  fix n assume "possible_bit TYPE(u64) n"
  then have n: "n < 64" by (simp add: possible_bit_word)
  have lo: "\<not> bit pa n" if "n < 12"
  proof -
    have "bit (pa AND mask 14) n = bit pa n" using that by (simp add: bit_and_iff bit_mask_iff n)
    then show ?thesis using assms(1) by (simp add: mask14)
  qed
  have hi: "\<not> bit pa n" if "48 \<le> n"
  proof -
    have "unat pa < 2 ^ 48" using assms(2) by (simp add: word_less_nat_alt)
    then have "unat (take_bit 48 pa) = unat pa" by (simp only: unsigned_take_bit_eq) (simp add: take_bit_eq_mod)
    then have "take_bit 48 pa = pa" by (simp only: word_unat_eq_iff)
    then show ?thesis using that by (metis bit_take_bit_iff not_le)
  qed
  show "bit (push_bit 12 (tte_oa (block_tte l3 attr sh pa prot tt1))) n = bit pa n"
    unfolding block_tte_oa using lo hi n
    by (cases "n < 12"; cases "n < 48") (auto simp: bit_push_bit_iff bit_take_bit_iff bit_drop_bit_eq)
qed

lemma block_tte_range:
  assumes "pa AND 0x3fff = 0" "pa < 0x1000000000000"
  shows "oa_base (block_tte l3 attr sh pa prot tt1) = pa"
    and "oa_size (block_tte l3 attr sh pa prot tt1) 0x4000 = PAGE_SIZE"
proof -
  note e = block_tte_addr [OF assms, of l3 attr sh prot tt1]
  have n: "pa AND NOT 0x3fff = pa" using assms(1) unfolding mask14 and_not_mask by simp
  show b: "oa_base (block_tte l3 attr sh pa prot tt1) = pa" unfolding oa_base_def e by (rule n)
  show "oa_size (block_tte l3 attr sh pa prot tt1) 0x4000 = PAGE_SIZE"
    unfolding oa_size_def e b by (simp add: PAGE_SIZE_def)
qed

section \<open>The walk\<close>

lemma tte_walk_get16k:
  assumes g: "geometry16k s" and sp: "spaces s h = Some sp" and up: "is_upper va"
    and e: "tt_get (ttbr1 sp) (l1_index va) s = e" "tte_valid e" "tte_table e"
    and f: "tt_get (push_bit 12 (tte_oa e)) (l2_index va) s = f" "tte_valid f" "tte_table f"
  shows "tte_walk_get h va s = Inr (Some (push_bit 12 (tte_oa e) + 8 * l2_index va))"
proof -
  have b: "va_bits True s = 36" "tt_bits s = 11" using g by (simp_all add: va_bits_def geometry16k_def)
  have l: "unat (ucast ((36 - (11 + 3)) div 11 :: u64) :: u32) = Suc (Suc 0)" by simp
  have b25: "(36 :: u64) - 11 = 25" by simp
  have w: "tte_walk (Suc (Suc 0)) (ttbr1 sp) 36 (off36 va) s = Some (push_bit 12 (tte_oa e) + 8 * l2_index va)"
    unfolding tte_walk.simps(2) Let_def tt_index16k [OF g] b(2) b25 e(1) f(1) using e f by simp
  show ?thesis
    using up sp unfolding tte_walk_get_def Let_def get_space_def
    by (simp add: va_offset16k [OF g] b l w [folded numeral_2_eq_2] del: tte_walk.simps)
qed

lemma phys_reference_busy:
  assumes wf: "phys_wf s fl []" and room: "irq_room 2 s" and k: "k < ppages s"
    and busy: "refcount (ppage_list s ! unat k) \<noteq> 0" "refcount (ppage_list s ! unat k) < 2 ^ 24 - 1"
  shows "\<exists>s'. phys_reference (page_pa s k) PAGE_SIZE s = Inr s' \<and> frame s s' \<and> phys_wf s' fl []
     \<and> ppage_list s' = (ppage_list s)[unat k := inc_ref (ppage_list s ! unat k)]"
proof -
  have g: "geometry_ok s" using wf by (simp add: phys_wf_def)
  note ram = in_ram_page [OF g k] and idx = page_idx_page_pa [OF g less_imp_le [OF k]]
  have u: "upd_range ref_up (unat k) (Suc (unat k)) (ppage_list s) =
      (ppage_list s)[unat k := inc_ref (ppage_list s ! unat k)]"
    using entry_index [OF g k] busy by (simp add: upd_range_one ref_up_def)
  have "\<forall>j. unat (page_idx s (page_pa s k)) \<le> j
      \<and> j < unat (page_idx s (page_pa s k)) + unat (drop_bit 14 PAGE_SIZE)
      \<and> refcount (ppage_list s ! j) = 0 \<longrightarrow> page_pa s (of_nat j) \<in> set []"
    unfolding idx using busy(1) by (auto simp: less_Suc_eq_le dest: antisym)
  from phys_reference_total [OF wf room ram refl refl this] show ?thesis
    by (auto simp: idx u)
qed

lemma phys_wf_store:
  assumes "phys_wf s fl lim" "\<And>x. x \<in> set fl \<Longrightarrow> a \<noteq> x \<and> a \<noteq> x + 8"
  shows "phys_wf (s\<lparr>pmem := (pmem s)(a := v)\<rparr>) fl lim"
proof -
  have "dseg ((pmem s)(a := v)) 0 (pa_head s) fl 0 = dseg (pmem s) 0 (pa_head s) fl 0"
    by (rule dseg_frame) (use assms(2) in \<open>auto simp: fun_upd_def\<close>)
  then show ?thesis using assms(1) by (auto simp: phys_wf_def)
qed

section \<open>Mapping a page\<close>

text \<open>The situation in which a page of RAM is mapped at an unused upper-half address whose
  second-level table is present. The two entries involved are distinct and lie outside the
  free list.\<close>

definition slot_ready :: "'a vmm_scheme \<Rightarrow> vm_space \<Rightarrow> u64 \<Rightarrow> u64 list \<Rightarrow> bool" where
  "slot_ready s sp va fl \<longleftrightarrow> is_upper va \<and> va AND 0x3fff = 0
     \<and> (let e = tt_get (ttbr1 sp) (l1_index va) s; p = push_bit 12 (tte_oa e) + 8 * l2_index va
        in tte_valid e \<and> tte_table e \<and> \<not> tte_valid (pmem s p) \<and> p \<noteq> ttbr1 sp + 8 * l1_index va
           \<and> (\<forall>x \<in> set fl. p \<noteq> x \<and> p \<noteq> x + 8))"

definition slot_of :: "'a vmm_scheme \<Rightarrow> vm_space \<Rightarrow> u64 \<Rightarrow> u64" where
  "slot_of s sp va = push_bit 12 (tte_oa (tt_get (ttbr1 sp) (l1_index va) s)) + 8 * l2_index va"

lemma map_fuel_Suc: "map_fuel = Suc (Suc (Suc 4093))"
  by (simp add: map_fuel_def)

lemma map_leaf:
  assumes wf: "phys_wf s fl []" and g: "geometry16k s" and room: "irq_room 2 s"
    and slot: "slot_ready s sp va fl" and k: "k < ppages s" and pa: "page_pa s k < 0x1000000000000"
    and busy: "refcount (ppage_list s ! unat k) \<noteq> 0" "refcount (ppage_list s ! unat k) < 2 ^ 24 - 1"
    and prot: "has prot PROT_READ" "\<not> has prot PROT_PAGING_INFO"
    and al: "page_pa s k AND 0x3fff = 0"
    and tte: "tte = block_tte True (attridx (user_args (ttbr1 sp) True (page_pa s k) prot))
       (msh (user_args (ttbr1 sp) True (page_pa s k) prot)) (page_pa s k)
       (mprot (user_args (ttbr1 sp) True (page_pa s k) prot)) True"
  shows "\<exists>t. map_range_map map_fuel (user_args (ttbr1 sp) True (page_pa s k) prot) va (page_pa s k) 0x4000 s = Inr t
     \<and> phys_wf t fl [] \<and> frame s t \<and> kept s t
     \<and> ppage_list t = (ppage_list s)[unat k := inc_ref (ppage_list s ! unat k)]
     \<and> pmem t = (pmem s)(slot_of s sp va := tte)"
proof -
  let ?pa = "page_pa s k" and ?a = "user_args (ttbr1 sp) True (page_pa s k) prot"
  let ?e = "tt_get (ttbr1 sp) (l1_index va) s"
  let ?p = "push_bit 12 (tte_oa ?e)"
  have e: "tte_valid ?e" "tte_table ?e" and va: "va AND 0x3fff = 0"
    and nv: "\<not> tte_valid (tt_get ?p (l2_index va) s)"
    and nf: "\<And>x. x \<in> set fl \<Longrightarrow> slot_of s sp va \<noteq> x \<and> slot_of s sp va \<noteq> x + 8"
    using slot by (auto simp: slot_ready_def Let_def tt_get_def slot_of_def)
  have g0: "geometry_ok s" using wf by (simp add: phys_wf_def)
  have nz: "?pa \<noteq> 0" using page_pa_ge(2) [OF g0 less_imp_le [OF k]] .
  have ple: "?pa \<le> ?pa + 0x4000" using pa by (simp add: word_le_nat_alt word_less_nat_alt unat_word_ariths)
  have mp: "has (mprot ?a) PROT_READ" "\<not> has (mprot ?a) PROT_PAGING_INFO"
    using prot by (auto simp: user_args_def has_def PROT_READ_def PROT_WRITE_def PROT_EXEC_def
        PROT_KERN_ONLY_def PROT_PAGING_INFO_def and.assoc)
  have "map_range_map map_fuel ?a va ?pa 0x4000 s = map_block ?a ?p 25 0x4000 (off36 va) ?pa s"
    unfolding map_fuel_Suc by (rule map_range_map16k [OF g va al ple]) (use e in \<open>simp_all add: user_args_def\<close>)
  moreover obtain u where u: "phys_reference ?pa PAGE_SIZE s = Inr u" "frame s u" "phys_wf u fl []"
     "ppage_list u = (ppage_list s)[unat k := inc_ref (ppage_list s ! unat k)]"
    using phys_reference_busy [OF wf room k busy] by blast
  have ku: "kept s u" and mu: "pmem u = pmem s" using phys_reference_kept [OF u(1)] phys_reference_pmem [OF u(1)] by auto
  let ?t = "tt_set ?p (l2_index va) tte u"
  have pg: "push_bit (unat (tt_bits s + 3)) 1 = (0x4000 :: u64)" using g by (simp add: geometry16k_def)
  have "map_block ?a ?p 25 0x4000 (off36 va) ?pa s = Inr ?t"
    using nv nz mp u(1) block_tte_range [OF al pa]
    unfolding map_block_def Let_def pg tt_index16k [OF g] tte by (simp add: user_args_def)
  moreover have "phys_wf ?t fl []"
    unfolding tt_set_def using phys_wf_store [OF u(3), of "?p + 8 * l2_index va" tte] nf by (simp add: slot_of_def)
  ultimately show ?thesis using u ku mu
    by (intro exI [of _ ?t]) (simp add: tt_set_def frame_def kept_def slot_of_def)
qed

lemma range_op_one:
  assumes "i < e" shows "range_op body i 1 s = bindE (disable_interrupts s) (\<lambda>s. bindE (body i s) enable_interrupts)"
proof -
  have "i < i + 1" using less_less_Suc [OF assms] .
  moreover have "bindE m Inr = m" for m :: "error + 'a phys_scheme" by (cases m) simp_all
  ultimately show ?thesis
    by (auto simp: range_op_def for_up_step bindE_assoc bindE_def split: sum.split)
qed

lemma phys_dereference_shared_pmem:
  assumes g: "geometry_ok s" and k: "k < ppages s" and many: "refcount (ppage_list s ! unat k) \<noteq> 0"
    "refcount (ppage_list s ! unat k) \<noteq> 1" and run: "phys_dereference (page_pa s k) PAGE_SIZE s = Inr t"
  shows "pmem t = pmem s"
proof -
  note ram = in_ram_page [OF g k] and idx = page_idx_page_pa [OF g less_imp_le [OF k]]
  have "range_op dereference_page k 1 s = Inr t"
    using run ram by (auto simp: phys_dereference_range in_ram_def idx split: if_splits)
  then obtain s1 s2 where s1: "disable_interrupts s = Inr s1" and s2: "dereference_page k s1 = Inr s2"
      and t: "enable_interrupts s2 = Inr t"
    unfolding range_op_one [OF k] by blast
  have e: "ppage_list s1 = ppage_list s" "pmem s1 = pmem s" and k1: "k < ppages s1" "geometry_ok s1"
    using s1 g k by (auto elim!: disable_interrupts_InrE)
  have r: "refcount (dec_ref (ppage_list s1 ! unat k)) \<noteq> 0" using many e refcount_dec by simp
  have rd: "read_entry (s1\<lparr>ppage_list := (ppage_list s1)[unat k := w]\<rparr>) k = Inr w" for w
    using entry_index [OF k1(2,1)] by (simp add: read_entry_def)
  have "pmem s2 = pmem s1"
    using s2 many e r k1 read_entry_in [OF k1(2,1)] write_entry_in [OF k1(2,1)]
    by (auto simp: dereference_page_def free_iff dec_ref_def [symmetric] rd [unfolded e])
  then show ?thesis using t e by (auto elim!: enable_interrupts_InrE)
qed

lemma map_page_upper16k:
  assumes wf: "phys_wf s fl []" and g: "geometry16k s" and room: "irq_room 2 s" and sp: "spaces s h = Some sp"
    and slot: "slot_ready s sp va fl" and k: "k < ppages s" and pa: "page_pa s k < 0x1000000000000"
    and busy: "refcount (ppage_list s ! unat k) \<noteq> 0" "refcount (ppage_list s ! unat k) < 2 ^ 24 - 1"
    and prot: "has prot PROT_READ" "\<not> has prot PROT_PAGING_INFO"
  shows "\<exists>t. map_page_upper h sp va (page_pa s k) prot s = Inr t
     \<and> tte_walk_get h va t = Inr (Some (slot_of s sp va)) \<and> tte_valid (pmem t (slot_of s sp va))
     \<and> push_bit 12 (tte_oa (pmem t (slot_of s sp va))) = page_pa s k
     \<and> ppage_list t = ppage_list s \<and> phys_wf t fl [] \<and> vkept s t
     \<and> tlbi t = tlbi s @ [asid sp OR (drop_bit 12 va AND 0xFFFFFFFFFFF)]"
proof -
  let ?pa = "page_pa s k" and ?a = "user_args (ttbr1 sp) True (page_pa s k) prot" and ?i = "unat k"
  define tte where "tte = block_tte True (attridx ?a) (msh ?a) ?pa (mprot ?a) True"
  let ?e = "tt_get (ttbr1 sp) (l1_index va) s" and ?p = "slot_of s sp va"
  have g0: "geometry_ok s" using wf by (simp add: phys_wf_def)
  have ba: "physBase s AND 0x3fff = 0" using g0 by (simp add: geometry_ok_def)
  have al: "?pa AND 0x3fff = 0"
    using aligned_add [OF page_pa_offset(1) [OF g0 less_imp_le [OF k]] ba] by simp
  obtain u where u: "map_range_map map_fuel ?a va ?pa 0x4000 s = Inr u" "phys_wf u fl []" "frame s u" "kept s u"
     "ppage_list u = (ppage_list s)[?i := inc_ref (ppage_list s ! ?i)]" "pmem u = (pmem s)(?p := tte)"
    using map_leaf [OF wf g room slot k pa busy prot al tte_def] by blast
  have il: "?i < length (ppage_list s)" using entry_index [OF g0 k] .
  have ku: "k < ppages u" "page_pa u = page_pa s" and ru: "irq_room 2 u"
    using u(3) k room frame_page_pa [OF u(3)] by (simp_all add: frame_def irq_room_def)
  have eu: "ppage_list u ! ?i = inc_ref (ppage_list s ! ?i)" using u(5) il by simp
  have cu: "refcount (ppage_list u ! ?i) = refcount (ppage_list s ! ?i) + 1"
    unfolding eu using busy(2) by (rule refcount_inc)
  then have cu2: "refcount (ppage_list u ! ?i) \<noteq> 0" "refcount (ppage_list u ! ?i) \<noteq> 1" using busy(1) by auto
  obtain v where v: "phys_dereference ?pa PAGE_SIZE u = Inr v" "frame u v" "phys_wf v fl []"
     "ppage_list v = (ppage_list u)[?i := dec_ref (ppage_list u ! ?i)]"
    using phys_dereference_one [OF u(2) ru ku(1) cu2(1)] cu2(2) ku(2) by auto
  have lv: "ppage_list v = ppage_list s" using v(4) u(5) il dec_inc_ref [OF busy(2)] by simp
  have gu: "geometry_ok u" using u(2) by (simp add: phys_wf_def)
  have mv: "pmem v = (pmem s)(?p := tte)"
    using phys_dereference_shared_pmem [OF gu ku(1) cu2, of v] v(1) ku(2) u(6) by simp
  have kv: "kept s v" using kept_trans [OF u(4) phys_dereference_kept [OF v(1)]] .
  have fv: "spaces v = spaces s" "is_16k_v v" "geometry16k v" "tlbi v = tlbi s"
    using kv g more_fields [of s v] by (simp_all add: kept_def geometry16k_def)
  have w: "vkept s v" using kept_vkept [OF kv] .
  let ?f = "asid sp OR (drop_bit 12 va AND 0xFFFFFFFFFFF)"
  let ?t = "flush_asid ?f v"
  have run: "map_page_upper h sp va ?pa prot s = Inr ?t"
    unfolding map_page_upper_def using prot al u(1) v(1) fv sp
    by (simp add: vm_flush_by_addr_def get_space_def PAGE_SIZE_def)
  have e: "tte_valid ?e" "tte_table ?e" and up: "is_upper va" and ne: "?p \<noteq> ttbr1 sp + 8 * l1_index va"
    using slot by (auto simp: slot_ready_def Let_def slot_of_def)
  have ev: "tt_get (ttbr1 sp) (l1_index va) ?t = ?e" using mv ne by (simp add: tt_get_def flush_asid_def)
  have fvv: "tt_get (push_bit 12 (tte_oa ?e)) (l2_index va) ?t = tte"
    using mv by (simp add: tt_get_def flush_asid_def slot_of_def)
  have gt: "geometry16k ?t" "spaces ?t h = Some sp" using fv sp by (simp_all add: geometry16k_def flush_asid_def)
  have walk: "tte_walk_get h va ?t = Inr (Some ?p)"
    unfolding slot_of_def by (rule tte_walk_get16k [OF gt up ev e fvv]) (simp_all add: tte_def)
  have pt: "pmem ?t ?p = tte" using mv by (simp add: flush_asid_def)
  have oa: "push_bit 12 (tte_oa tte) = ?pa" unfolding tte_def using block_tte_addr [OF al pa] .
  have wt: "phys_wf ?t fl []" using v(3) by (rule phys_wf_cong [THEN iffD1, rotated -1]) (simp_all add: flush_asid_def)
  show ?thesis
    using run walk pt oa lv wt w fv(4)
    by (intro exI [of _ ?t]) (simp add: tte_def vkept_def flush_asid_def)
qed

section \<open>Clearing an unused entry\<close>

lemma unmap_unused:
  assumes g: "geometry16k s" and sp: "spaces s h = Some sp" and slot: "slot_ready s sp va fl"
    and prot: "\<not> has prot PROT_PAGING_INFO"
  shows "map_page_upper h sp va 0 prot s =
    Inr (flush_asid (asid sp OR (drop_bit 12 va AND 0xFFFFFFFFFFF)) (s\<lparr>pmem := (pmem s)(slot_of s sp va := 0)\<rparr>))"
proof -
  let ?e = "tt_get (ttbr1 sp) (l1_index va) s" and ?a = "user_args (ttbr1 sp) True 0 prot"
  let ?p = "push_bit 12 (tte_oa ?e)"
  have e: "tte_valid ?e" "tte_table ?e" and va: "va AND 0x3fff = 0"
    and nv: "\<not> tte_valid (tt_get ?p (l2_index va) s)"
    using slot by (auto simp: slot_ready_def Let_def tt_get_def)
  have mp: "\<not> has (mprot ?a) PROT_PAGING_INFO"
    using prot by (auto simp: user_args_def has_def PROT_READ_def PROT_WRITE_def PROT_EXEC_def
        PROT_KERN_ONLY_def PROT_PAGING_INFO_def and.assoc)
  have "map_range_map map_fuel ?a va 0 0x4000 s = map_block ?a ?p 25 0x4000 (off36 va) 0 s"
    unfolding map_fuel_Suc by (rule map_range_map16k [OF g va]) (use e in \<open>simp_all add: user_args_def\<close>)
  moreover have "map_block ?a ?p 25 0x4000 (off36 va) 0 s = Inr (tt_set ?p (l2_index va) 0 s)"
    unfolding map_block_def Let_def tt_index16k [OF g] using nv mp by (simp add: user_args_def)
  ultimately show ?thesis
    using prot g sp unfolding map_page_upper_def
    by (simp add: phys_dereference_def geometry16k_def vm_flush_by_addr_def get_space_def tt_set_def slot_of_def)
qed

lemma tte_walk_frame:
  "pmem t = pmem s \<Longrightarrow> tt_bits t = tt_bits s \<Longrightarrow> tte_walk n ttb bits va t = tte_walk n ttb bits va s"
  by (induction n arbitrary: ttb bits) (simp_all add: tt_index_def tt_get_def Let_def)

lemma tte_walk_get_frame:
  "pmem t = pmem s \<Longrightarrow> tt_bits t = tt_bits s \<Longrightarrow> t0sz t = t0sz s \<Longrightarrow> t1sz t = t1sz s \<Longrightarrow> spaces t = spaces s \<Longrightarrow>
   tte_walk_get h va t = tte_walk_get h va s"
  by (simp add: tte_walk_get_def get_space_def va_bits_def va_offset_def tte_walk_frame [of t s] Let_def)

end
