(* ===== verification/VmMark.thy ===== *)
theory VmMark
  imports VmWalk
begin

unbundle bit_operations_syntax

text \<open>
  The two other things that installing a mapping does: writing the mark that makes a page be allocated at its
  first access, which \<open>vm_allocate\<close> does for every page it hands out, and creating a missing
  second-level table.
\<close>

section \<open>Marking pages\<close>

definition page_va :: "vm_space \<Rightarrow> nat \<Rightarrow> u64" where
  "page_va sp q = vm_space_base sp + of_nat (q * 16384)"

text \<open>The second-level table of an upper-half address is there and its entry not in use.\<close>

definition leaf_ready :: "'a vmm_scheme \<Rightarrow> vm_space \<Rightarrow> u64 \<Rightarrow> bool" where
  "leaf_ready s sp va \<longleftrightarrow> is_upper va \<and> va AND 0x3fff = 0
     \<and> (let e = tt_get (ttbr1 sp) (l1_index va) s
        in tte_valid e \<and> tte_table e \<and> \<not> tte_valid (pmem s (slot_of s sp va)))"

definition flush_of :: "vm_space \<Rightarrow> u64 \<Rightarrow> u64" where
  "flush_of sp va = asid sp OR (drop_bit 12 va AND 0xFFFFFFFFFFF)"

lemma mark_page:
  assumes g: "geometry16k s" and sp: "spaces s h = Some sp" and room: "irq_room 1 s" and leaf: "leaf_ready s sp va"
  shows "vm_space_map_page_physical_prot h va PAGING_INFO_ALLOC_ON_FAULT_MAGIC PROT_PAGING_INFO s =
    Inr (s\<lparr>pmem := (pmem s)(slot_of s sp va := paging_tte PAGING_INFO_ALLOC_ON_FAULT_MAGIC),
           tlbi := tlbi s @ [flush_of sp va], daif_unmasked := (dis_int_count s = 0)\<rparr>)"
proof -
  let ?s1 = "s\<lparr>dis_int_count := dis_int_count s + 1, daif_unmasked := False\<rparr>"
  define prot where "prot = (if h = kernel_vm_space then PROT_PAGING_INFO OR PROT_KERN_ONLY else PROT_PAGING_INFO)"
  let ?m = PAGING_INFO_ALLOC_ON_FAULT_MAGIC
  let ?a = "user_args (ttbr1 sp) True ?m prot" and ?e = "tt_get (ttbr1 sp) (l1_index va) ?s1"
  let ?u = "tt_set (push_bit 12 (tte_oa ?e)) (l2_index va) (paging_tte ?m) ?s1"
  have s1: "disable_interrupts s = Inr ?s1" using room by (simp add: disable_interrupts_returns irq_room_not_max)
  have prot: "has prot PROT_PAGING_INFO" "has (mprot ?a) PROT_PAGING_INFO"
    by (auto simp: prot_def user_args_def has_def PROT_READ_def PROT_WRITE_def PROT_EXEC_def PROT_KERN_ONLY_def PROT_PAGING_INFO_def)
  have g1: "geometry16k ?s1" using g by (simp add: geometry16k_def)
  have e: "tte_valid ?e" "tte_table ?e" and va: "va AND 0x3fff = 0" and up: "va AND 0x7000000000000000 \<noteq> 0"
    and nv: "\<not> tte_valid (tt_get (push_bit 12 (tte_oa ?e)) (l2_index va) ?s1)"
    using leaf by (auto simp: leaf_ready_def is_upper_def slot_of_def tt_get_def Let_def)
  have "map_range_map map_fuel ?a va 0 0x4000 ?s1 = map_block ?a (push_bit 12 (tte_oa ?e)) 25 0x4000 (off36 va) 0 ?s1"
    unfolding map_fuel_Suc by (rule map_range_map16k [OF g1 va]) (use e in \<open>simp_all add: user_args_def\<close>)
  also have "\<dots> = Inr ?u"
    unfolding map_block_def Let_def tt_index16k [OF g1] using nv prot by (simp add: user_args_def)
  finally have "map_page_upper h sp va ?m prot ?s1 = Inr (flush_asid (flush_of sp va) ?u)"
    using prot(1) g1 sp unfolding map_page_upper_def
    by (simp add: geometry16k_def vm_flush_by_addr_def get_space_def tt_set_def flush_of_def)
  moreover have "dis_int_count s + 1 \<noteq> 0" using irq_room_Suc(2) [of 0 s ?s1] room by simp
  ultimately show ?thesis
    unfolding vm_space_map_page_physical_prot_def Let_def using s1 sp up
    by (simp add: prot_def [symmetric] get_space_def enable_interrupts_returns flush_asid_def tt_set_def slot_of_def tt_get_def)
qed

text \<open>The tables of the pages \<open>i\<close> to \<open>j\<close> of a space are ready for them to be marked.\<close>

definition tables_ready :: "'a vmm_scheme \<Rightarrow> vm_space \<Rightarrow> nat \<Rightarrow> nat \<Rightarrow> bool" where
  "tables_ready s sp i j \<longleftrightarrow> geometry16k s \<and> (\<forall>q. i \<le> q \<and> q < j \<longrightarrow> leaf_ready s sp (page_va sp q)
     \<and> (\<forall>r. i \<le> r \<and> r < j \<longrightarrow> slot_of s sp (page_va sp q) \<noteq> ttbr1 sp + 8 * l1_index (page_va sp r)))"

text \<open>Exactly the entries of the pages \<open>i\<close> to \<open>j\<close> have become the mark, and their translations have been
  flushed, in order.\<close>

definition marked :: "vm_space \<Rightarrow> nat \<Rightarrow> nat \<Rightarrow> 'a vmm_scheme \<Rightarrow> 'a vmm_scheme \<Rightarrow> bool" where
  "marked sp i j s t \<longleftrightarrow>
     pmem t = (\<lambda>x. if \<exists>q. i \<le> q \<and> q < j \<and> x = slot_of s sp (page_va sp q)
                   then paging_tte PAGING_INFO_ALLOC_ON_FAULT_MAGIC else pmem s x)
     \<and> tlbi t = tlbi s @ map (\<lambda>q. flush_of sp (page_va sp q)) [i..<j]"

definition unmarked :: "'a vmm_scheme \<Rightarrow> 'a vmm_scheme \<Rightarrow> bool" where
  "unmarked s t \<longleftrightarrow> pmem t = pmem s \<and> tlbi t = tlbi s"

definition maps_pages :: "u32 \<Rightarrow> bool" where
  "maps_pages flags \<longleftrightarrow> flags AND VM_FLAGS_NOMAP = 0"

definition same_tables :: "'a vmm_scheme \<Rightarrow> 'a vmm_scheme \<Rightarrow> bool" where
  "same_tables s t \<longleftrightarrow> is_16k_v t = is_16k_v s \<and> tt_bits t = tt_bits s \<and> t0sz t = t0sz s \<and> t1sz t = t1sz s"

lemma same_tables_refl: "same_tables s s"
  by (simp add: same_tables_def)

lemma not_valid_mark: "\<not> tte_valid (paging_tte PAGING_INFO_ALLOC_ON_FAULT_MAGIC)"
  by (simp add: tte_valid_def paging_tte_def PAGING_INFO_ALLOC_ON_FAULT_MAGIC_def)

text \<open>Marking leaves the first-level entries alone, so it does not move the slots, and a mark is not valid.\<close>

lemma marked_slots:
  assumes r: "tables_ready s sp i n" and m: "marked sp i j s t" and j: "i \<le> j" "j < n" and st: "same_tables s t"
  shows "geometry16k t" and "slot_of t sp (page_va sp j) = slot_of s sp (page_va sp j)" and "leaf_ready t sp (page_va sp j)"
proof -
  show "geometry16k t" using r st by (simp add: tables_ready_def same_tables_def geometry16k_def)
  let ?va = "page_va sp j"
  have l1: "tt_get (ttbr1 sp) (l1_index ?va) t = tt_get (ttbr1 sp) (l1_index ?va) s"
  proof -
    have "slot_of s sp (page_va sp q) \<noteq> ttbr1 sp + 8 * l1_index ?va" if "i \<le> q" "q < j" for q
      using r that j by (auto simp: tables_ready_def)
    then have "\<not> (\<exists>q. i \<le> q \<and> q < j \<and> ttbr1 sp + 8 * l1_index ?va = slot_of s sp (page_va sp q))" by metis
    then show ?thesis using m unfolding tt_get_def marked_def by (simp del: not_ex)
  qed
  then show sl: "slot_of t sp ?va = slot_of s sp ?va" by (simp add: slot_of_def)
  have "leaf_ready s sp ?va" using r j by (simp add: tables_ready_def)
  moreover have "\<not> tte_valid (pmem t (slot_of s sp ?va))" if "\<not> tte_valid (pmem s (slot_of s sp ?va))"
    using m that not_valid_mark by (simp add: marked_def)
  ultimately show "leaf_ready t sp ?va" by (simp add: leaf_ready_def l1 sl Let_def)
qed

definition claim_st :: "u64 \<Rightarrow> vm_space \<Rightarrow> u32 \<Rightarrow> nat \<Rightarrow> nat \<Rightarrow> 'a vmm_scheme \<Rightarrow> 'a vmm_scheme \<Rightarrow> bool" where
  "claim_st h sp flags i j s t \<longleftrightarrow> claimed h sp True i j s t \<and> same_tables s t
     \<and> (if maps_pages flags then marked sp i j s t else unmarked s t)"

lemma claim_st_0:
  assumes "spaces s h = Some sp" shows "claim_st h sp flags i i s s"
proof -
  have "marked sp i i s s" by (auto simp: marked_def fun_eq_iff)
  then show ?thesis using claimed_0 [OF assms] by (simp add: claim_st_def same_tables_refl unmarked_def)
qed

lemma claim_page_step:
  assumes st: "claim_st h sp flags i (unat j) s u" and i: "i \<le> unat j" and sp: "spaces s h = Some sp"
    and ready: "maps_pages flags \<Longrightarrow> tables_ready s sp i n" and j: "unat j < n" "n \<le> 0x40000"
    and len: "length (vm_space_table sp) = 0x8000" and room: "irq_room 1 s" and sj: "unat (j + 1) = Suc (unat j)"
  shows "\<exists>v. claim_page h flags j u = Inr v \<and> claim_st h sp flags i (unat (j + 1)) s v"
proof -
  let ?sp = "sp\<lparr>vm_space_table := bm.upd_many True i (unat j) (vm_space_table sp)\<rparr>"
  have cl: "claimed h sp True i (unat j) s u" and spu: "spaces u h = Some ?sp" and cu: "dis_int_count u = dis_int_count s"
    using st by (simp_all add: claim_st_def claimed_def)
  have cap: "unat j div 8 < length (vm_space_table ?sp)"
    using j len bm.cap_upd_many [of True i "unat j" "vm_space_table sp"] by simp
  have va: "vm_space_base ?sp + ucast (j * 0x4000) = page_va sp (unat j)"
  proof -
    have "unat (j * 0x4000) = unat j * 16384" using j by (simp add: unat_word_ariths)
    then show ?thesis using ucast_page_offset [of j] by (simp add: page_va_def)
  qed
  have "\<exists>v. claim_page h flags j u = Inr v \<and> same_tables s v
      \<and> (if maps_pages flags then marked sp i (Suc (unat j)) s v else unmarked s v)"
  proof (cases "maps_pages flags")
    case False
    then show ?thesis using st spu cap
      by (simp add: claim_page_def get_space_def tbl_set_def put_space_def maps_pages_def claim_st_def same_tables_def unmarked_def)
  next
    case True
    let ?va = "page_va sp (unat j)"
    have m: "marked sp i (unat j) s u" and tb: "same_tables s u" using st True by (simp_all add: claim_st_def)
    note ms = marked_slots [OF ready [OF True] m i j(1) tb]
    have leaf: "leaf_ready u ?sp ?va" and sl: "slot_of u ?sp ?va = slot_of s sp ?va" and fl: "flush_of ?sp ?va = flush_of sp ?va"
      using ms by (simp_all add: leaf_ready_def slot_of_def flush_of_def Let_def)
    have "irq_room 1 u" using room cu by (simp add: irq_room_def)
    from mark_page [OF ms(1) spu this leaf] have "vm_space_map_page_physical_prot h ?va PAGING_INFO_ALLOC_ON_FAULT_MAGIC PROT_PAGING_INFO u =
      Inr (u\<lparr>pmem := (pmem u)(slot_of s sp ?va := paging_tte PAGING_INFO_ALLOC_ON_FAULT_MAGIC),
           tlbi := tlbi u @ [flush_of sp ?va], daif_unmasked := (dis_int_count u = 0)\<rparr>)" (is "_ = Inr ?w")
      unfolding sl fl .
    then have run: "claim_page h flags j u = Inr (put_space h (?sp\<lparr>vm_space_table := bmp_set True (unat j) (vm_space_table ?sp)\<rparr>) ?w)"
      using True spu cap va by (simp add: claim_page_def get_space_def tbl_set_def maps_pages_def)
    have "marked sp i (Suc (unat j)) s (put_space h (?sp\<lparr>vm_space_table := bmp_set True (unat j) (vm_space_table ?sp)\<rparr>) ?w)"
      using m i by (auto simp: marked_def put_space_def less_Suc_eq fun_eq_iff)
    then show ?thesis using run True tb by (intro exI conjI) (assumption, auto simp: same_tables_def put_space_def)
  qed
  then obtain v where v: "claim_page h flags j u = Inr v" "same_tables s v"
      "if maps_pages flags then marked sp i (Suc (unat j)) s v else unmarked s v" by blast
  have "claimed h sp True i (unat (j + 1)) s v" by (rule sets_bit_step [OF claim_page_sets_bit cl i sj v(1)])
  then show ?thesis using v sj by (simp add: claim_st_def)
qed

lemma claim_loop:
  assumes sp: "has_space s h sp" and le: "b \<le> b + n" and e: "unat (b + n) \<le> 0x40000" and room: "irq_room 1 s"
    and ready: "maps_pages flags \<Longrightarrow> tables_ready s sp (unat b) (unat (b + n))"
  shows "\<exists>t. for_up (claim_page h flags) b (b + n) s = Inr t \<and> claim_st h sp flags (unat b) (unat (b + n)) s t"
proof -
  have s: "spaces s h = Some sp" "length (vm_space_table sp) = 0x8000" using sp by (simp_all add: has_space_def)
  show ?thesis
  proof (rule for_up_total [where P = "\<lambda>j t. claim_st h sp flags (unat b) (unat j) s t"])
    show "claim_st h sp flags (unat b) (unat b) s s" by (rule claim_st_0 [OF s(1)])
    show "b \<le> b + n" by (rule le)
    fix j u assume j: "b \<le> j" "j < b + n" "claim_st h sp flags (unat b) (unat j) s u"
    show "\<exists>v. claim_page h flags j u = Inr v \<and> claim_st h sp flags (unat b) (unat (j + 1)) s v"
      by (rule claim_page_step [OF j(3) _ s(1) ready _ e s(2) room unat_Suc_less [OF j(2)]])
        (use j in \<open>simp_all add: word_le_nat_alt word_less_nat_alt\<close>)
  qed
qed

section \<open>The allocation\<close>

text \<open>The pages that \<open>vm_allocate\<close> scans: the whole bitmap, or, for a fixed address, as many pages from the
  first page on as it was asked for, none when the address is too high.\<close>

definition scan_window :: "u32 \<Rightarrow> u64 \<Rightarrow> u64 \<Rightarrow> vm_space \<Rightarrow> nat" where
  "scan_window flags addr sz sp =
     (if flags AND VM_FLAGS_FIXED = 0 then bitmap_pages
      else if addr - vm_space_base sp > vm_space_end sp then 0 else unat (page_count_of sz))"

lemma page_count_unat:
  assumes "sz \<le> VM_SPACE_SIZE"
  shows "unat (((sz + 0x3fff) AND NOT 0x3fff) div 0x4000) = unat (page_count_of sz)" and "unat (page_count_of sz) \<le> bitmap_pages"
proof -
  let ?x = "(sz + 0x3fff) AND NOT (mask 14)"
  have us: "unat sz \<le> 4294967296" using assms by (simp add: VM_SPACE_SIZE_def word_le_nat_alt)
  then have x: "unat (sz + 0x3fff) = unat sz + 16383" by (simp add: unat_word_ariths)
  have "unat ?x div 16384 \<le> 4294983679 div 16384"
    by (rule div_le_mono) (use us x in \<open>simp add: unat_and_not_mask\<close>)
  then have m: "unat (?x div 0x4000) \<le> 262144" by (simp add: unat_div)
  then show e: "unat (((sz + 0x3fff) AND NOT 0x3fff) div 0x4000) = unat (page_count_of sz)"
    unfolding page_count_of_def unsigned_ucast_eq mask14 by (simp add: take_bit_eq_mod)
  show "unat (page_count_of sz) \<le> bitmap_pages"
    unfolding e [symmetric] using m by (simp add: mask14 bitmap_pages_def)
qed

lemma vm_scan_window:
  assumes t: "length t = 0x8000" and n: "n \<noteq> 0" and m: "unat m \<le> bitmap_pages"
  obtains (found) b where "vm_scan t m n 0 0 0 = Inr (Some b)"
      "first_run_of (free_slot t (unat m)) (unat b) (unat n)" "unat b + unat n \<le> bitmap_pages"
      "unat (b + n) = unat b + unat n" "unat (b * 0x4000) = unat b * 16384" "b \<le> b + n"
  | (none) "vm_scan t m n 0 0 0 = Inr None" "\<forall>k. \<not> run_of (free_slot t (unat m)) k (unat n)"
proof -
  have n0: "0 < unat n" using n by (simp add: unat_gt_0)
  obtain r where r: "vm_scan t m n 0 0 0 = Inr r" "vscan_result t (unat m) (unat n) r"
    using vm_scan_ok [of m t n 0 0 0] m t scan_st_0 [OF n0] by (auto simp: vscan_inv_def bitmap_pages_def)
  show ?thesis
  proof (cases r)
    case None
    with r none show ?thesis by (simp add: vscan_result_def)
  next
    case (Some b)
    with r have f: "first_run_of (free_slot t (unat m)) (unat b) (unat n)" by (simp add: vscan_result_def)
    then have "free_slot t (unat m) (unat b + unat n - 1)" using n0 by (auto simp: first_run_of_def run_of_def)
    then have le: "unat b + unat n \<le> bitmap_pages" using n0 m unfolding free_slot_def by linarith
    then have u: "unat (b + n) = unat b + unat n" "unat (b * 0x4000) = unat b * 16384"
      using n0 by (simp_all add: unat_word_ariths bitmap_pages_def)
    have "b \<le> b + n" using u by (simp add: word_le_nat_alt)
    with found [of b] r(1) Some f le u show ?thesis by simp
  qed
qed

lemma vm_allocate_outcome:
  fixes s :: "'a vmm_scheme"
  assumes sp: "has_space s h sp" and n0: "page_count_of sz \<noteq> 0" and fixed: "flags AND VM_FLAGS_FIXED \<noteq> 0 \<Longrightarrow> sz \<le> VM_SPACE_SIZE"
    and room: "irq_room 2 s"
    and ready: "\<And>k. maps_pages flags \<Longrightarrow> first_run_of (free_slot (vm_space_table sp) (scan_window flags addr sz sp)) k (unat (page_count_of sz)) \<Longrightarrow>
      tables_ready s sp k (k + unat (page_count_of sz))"
  shows "\<exists>r a t. vm_allocate h addr sz flags s = Inr (r, a, t) \<and>
    ((\<exists>k. first_run_of (free_slot (vm_space_table sp) (scan_window flags addr sz sp)) k (unat (page_count_of sz))
        \<and> r = KERN_SUCCESS \<and> a = page_va sp k \<and> k + unat (page_count_of sz) \<le> bitmap_pages \<and> claimed h sp True k (k + unat (page_count_of sz)) s t
        \<and> (if maps_pages flags then marked sp k (k + unat (page_count_of sz)) s t else unmarked s t))
     \<or> (\<nexists>k. run_of (free_slot (vm_space_table sp) (scan_window flags addr sz sp)) k (unat (page_count_of sz)))
        \<and> r = KERN_VM_OOM \<and> a = 0 \<and> spaces t = spaces s \<and> unmarked s t)"
proof -
  let ?s1 = "s\<lparr>dis_int_count := dis_int_count s + 1, daif_unmasked := False\<rparr>"
  let ?m = "if flags AND VM_FLAGS_FIXED \<noteq> 0 then
      if addr - vm_space_base sp > vm_space_end sp then 0 else ((sz + 0x3fff) AND NOT 0x3fff) div 0x4000
    else VM_SPACE_SIZE div 0x4000"
  let ?w = "scan_window flags addr sz sp" and ?n = "page_count_of sz" and ?T = "vm_space_table sp"
  have s1: "disable_interrupts s = Inr ?s1" using room by (simp add: disable_interrupts_returns irq_room_not_max)
  have sps: "spaces s h = Some sp" and len: "length ?T = 0x8000" using sp by (simp_all add: has_space_def)
  have gs: "get_space h ?s1 = Inr sp" using sps by (simp add: get_space_def)
  have room1: "irq_room 1 ?s1" using irq_room_Suc(1) [of 1 s ?s1] room by (simp add: numeral_2_eq_2)
  have w: "unat ?m = ?w" "?w \<le> bitmap_pages"
    using page_count_unat [OF fixed] by (auto simp: scan_window_def bitmap_pages_def VM_SPACE_SIZE_def)
  have c0: "dis_int_count t \<noteq> 0" if "dis_int_count t = dis_int_count s + 1" for t :: "'a vmm_scheme"
    using irq_room_Suc(2) [of 1 s t] room that by (simp add: numeral_2_eq_2)
  have lift: "tables_ready ?s1 sp i j = tables_ready s sp i j" for i j
    by (simp add: tables_ready_def geometry16k_def leaf_ready_def slot_of_def tt_get_def Let_def)
  show ?thesis
  proof (rule vm_scan_window [OF len n0 w(2) [folded w(1)]])
    fix b assume b: "vm_scan ?T ?m ?n 0 0 0 = Inr (Some b)" "first_run_of (free_slot ?T (unat ?m)) (unat b) (unat ?n)"
      "unat b + unat ?n \<le> bitmap_pages" "unat (b + ?n) = unat b + unat ?n" "unat (b * 0x4000) = unat b * 16384" "b \<le> b + ?n"
    have run: "first_run_of (free_slot ?T ?w) (unat b) (unat ?n)" using b(2) w(1) by simp
    have "has_space ?s1 h sp" using sp by (simp add: has_space_def)
    then obtain u where u: "for_up (claim_page h flags) b (b + ?n) ?s1 = Inr u" "claim_st h sp flags (unat b) (unat b + unat ?n) ?s1 u"
      using claim_loop [of ?s1 h sp b ?n flags] b ready [OF _ run] room1 lift
      by (auto simp: bitmap_pages_def)
    have cu: "dis_int_count u = dis_int_count s + 1" using u(2) by (simp add: claim_st_def claimed_def)
    let ?t = "u\<lparr>dis_int_count := dis_int_count u - 1, daif_unmasked := (daif_unmasked u \<or> dis_int_count u = 1)\<rparr>"
    have "vm_allocate h addr sz flags s = Inr (KERN_SUCCESS, page_va sp (unat b), ?t)"
    proof -
      have "enable_interrupts u = Inr ?t" using c0 [OF cu] by (simp add: enable_interrupts_returns)
      then show ?thesis
        by (simp only: vm_allocate_def Let_def n0 if_False s1 bindE_simps gs b(1) option.case u(1) page_va_def
            ucast_page_offset [OF b(5)])
    qed
    moreover have "claimed h sp True (unat b) (unat b + unat ?n) s ?t"
        "if maps_pages flags then marked sp (unat b) (unat b + unat ?n) s ?t else unmarked s ?t"
      using u(2) by (auto simp: claim_st_def claimed_def marked_def unmarked_def slot_of_def tt_get_def cong: if_cong)
    ultimately show ?thesis using run b(3) by blast
  next
    assume none: "vm_scan ?T ?m ?n 0 0 0 = Inr None" "\<forall>k. \<not> run_of (free_slot ?T (unat ?m)) k (unat ?n)"
    let ?t = "?s1\<lparr>dis_int_count := dis_int_count ?s1 - 1, daif_unmasked := (daif_unmasked ?s1 \<or> dis_int_count ?s1 = 1)\<rparr>"
    have "vm_allocate h addr sz flags s = Inr (KERN_VM_OOM, 0, ?t)"
    proof -
      have "enable_interrupts ?s1 = Inr ?t" using c0 [of ?s1] by (simp add: enable_interrupts_returns)
      then show ?thesis by (simp only: vm_allocate_def Let_def n0 if_False s1 bindE_simps gs none(1) option.case)
    qed
    then show ?thesis using none(2) w(1) by (auto simp: unmarked_def)
  qed
qed

end
