(* ===== verification/VmTable.thy ===== *)
theory VmTable
  imports VmMark
begin

unbundle bit_operations_syntax

text \<open>
  Mapping a page whose second-level table is missing: a free page becomes the table, after which the
  walk goes on as if the table had been there.
\<close>

definition table_missing :: "'a vmm_scheme \<Rightarrow> vm_space \<Rightarrow> u64 \<Rightarrow> u64 list \<Rightarrow> bool" where
  "table_missing s sp va fl \<longleftrightarrow> is_upper va \<and> va AND 0x3fff = 0 \<and> \<not> tte_valid (tt_get (ttbr1 sp) (l1_index va) s)
     \<and> ttb_freelist s = 0 \<and> \<not> ttb_alloc_is_early s \<and> alloc_static_base s \<noteq> 0 \<and> fl \<noteq> [] \<and> hd fl < 0x1000000000000
     \<and> (\<forall>x \<in> set fl. 0x4000 \<le> ttbr1 sp + 8 * l1_index va - x)"

lemma table_tte_fields:
  assumes "x AND 0x3fff = 0" and "x < 0x1000000000000"
  shows "tte_valid (table_tte x)" and "tte_table (table_tte x)" and "push_bit 12 (tte_oa (table_tte x)) = x"
proof -
  have b3: "bit (3 :: u64) n \<longleftrightarrow> n = 0 \<or> n = 1" for n
  proof -
    have "(3 :: u64) = mask 2" by (simp add: mask_eq_exp_minus_1)
    then show ?thesis by (simp only: bit_mask_iff) auto
  qed
  show "tte_valid (table_tte x)" "tte_table (table_tte x)"
    by (simp_all add: tte_valid_def tte_table_def table_tte_def bit_or_iff b3)
  have oa: "tte_oa (table_tte x) = take_bit 36 (drop_bit 12 x)"
  proof (rule bit_word_eqI)
    fix n
    show "bit (tte_oa (table_tte x)) n = bit (take_bit 36 (drop_bit 12 x)) n"
      by (auto simp: tte_oa_def table_tte_def bit_take_bit_iff bit_drop_bit_eq bit_or_iff b3 bit_push_bit_iff)
  qed
  have "push_bit 12 (tte_oa (block_tte True 0 0 x 0 True)) = x" by (rule block_tte_addr [OF assms])
  then show "push_bit 12 (tte_oa (table_tte x)) = x" unfolding oa block_tte_oa .
qed

text \<open>The walk with the table in place is the walk that creates it.\<close>

lemma map_walk_create:
  assumes "push_bit (unat (bits - tt_bits s)) 1 = blksz" and "sz < blksz"
    and "((va + sz + (blksz - 1)) AND NOT (blksz - 1)) - (va AND NOT (blksz - 1)) = blksz"
    and "\<not> tte_valid (tt_get tt (tt_index va bits s) s)" and "ttb_alloc s = Inr (x, t)"
  shows "map_walk (Suc n) again a tt bits va pa sz s =
    map_walk n again a x (bits - tt_bits s) va pa sz (tt_set tt (tt_index va bits s) (table_tte x) t)"
  using assms by (simp add: Let_def)

lemma map_range_create:
  fixes s :: "'a vmm_scheme"
  assumes g: "geometry16k s" and va: "va AND 0x3fff = 0"
    and miss: "\<not> tte_valid (tt_get (tt0 a) (l1_index va) s)" and al: "ttb_alloc s = Inr (x, t)"
    and x: "x AND 0x3fff = 0" "x < 0x1000000000000"
  shows "map_range_map (Suc (Suc (Suc n))) a va pa 0x4000 s =
    map_range_map (Suc (Suc (Suc n))) a va pa 0x4000 (tt_set (tt0 a) (l1_index va) (table_tte x) t)"
proof -
  let ?t = "tt_set (tt0 a) (l1_index va) (table_tte x) t"
  have gt: "geometry16k ?t" using g ttb_alloc_vkept [OF al] by (simp add: geometry16k_def tt_set_def vkept_def)
  have c25: "(0x2000000 :: u64) - 1 = 0x1ffffff" by simp
  have m: "unat (off36 va) mod 16384 = 0" using off36_aligned [OF va] by (simp add: aligned_iff)
  note fits = level1_fits [OF off36_lt m, folded c25]
  have tb: "tt_bits s = 11" "tt_bits ?t = 11" using g gt by (simp_all add: geometry16k_def)
  have sb: "start_bits (va_bits (is_tt1 a) u) u = 36" if "geometry16k u" for u :: "'a vmm_scheme"
    using that by (simp add: start_bits_def va_bits_def geometry16k_def)
  have p: "push_bit (unat (36 - tt_bits s)) 1 = (0x2000000 :: u64)" "push_bit (unat (36 - tt_bits ?t)) 1 = (0x2000000 :: u64)"
    using tb by simp_all
  have e: "tt_get (tt0 a) (tt_index (off36 va) 36 ?t) ?t = table_tte x"
    using tt_index16k(1) [OF gt] by (simp add: tt_get_def tt_set_def)
  define again :: "u64 \<Rightarrow> u64 \<Rightarrow> u64 \<Rightarrow> 'a vmm_scheme \<Rightarrow> error + 'a vmm_scheme"
    where "again = map_range_map (Suc (Suc n)) a"
  have "map_walk (Suc (Suc (Suc n))) again a (tt0 a) 36 (off36 va) pa 0x4000 s =
      map_walk (Suc (Suc n)) again a x 25 (off36 va) pa 0x4000 ?t"
    using map_walk_create [OF p(1) _ fits _ al] miss tt_index16k(1) [OF g] tb by simp
  also have "\<dots> = map_walk (Suc (Suc (Suc n))) again a (tt0 a) 36 (off36 va) pa 0x4000 ?t"
    using map_walk_down [OF p(2) _ fits e table_tte_fields(1,2) [OF x]] table_tte_fields(3) [OF x] tb by simp
  finally show ?thesis
    unfolding map_range_map.simps(2) [of "Suc (Suc n)"] Let_def va_offset16k [OF g] va_offset16k [OF gt] sb [OF g] sb [OF gt]
      again_def [symmetric] tb by simp
qed

text \<open>The state in which the walk finds the new table.\<close>

lemma l2_index_less: "l2_index va < 2048"
proof -
  have "l2_index va \<le> 0x7ff" unfolding l2_index_def by (metis word_and_le1)
  then show ?thesis by (simp add: word_le_nat_alt word_less_nat_alt)
qed

lemma table_offset: "8 * l2_index va < (PAGE_SIZE :: u64)"
proof -
  have w: "unat (l2_index va) < 2048" using l2_index_less [of va] by (simp add: word_less_nat_alt)
  then have "unat (8 * l2_index va) = 8 * unat (l2_index va)" by (simp add: unat_word_ariths)
  then show ?thesis using w by (simp add: PAGE_SIZE_def word_less_nat_alt)
qed

lemma ttb_alloc_takes_page:
  fixes s :: "'a vmm_scheme"
  assumes wf: "phys_wf s (x # rest) []" and g: "geometry16k s" and room: "irq_room 4 s"
    and m: "ttb_freelist s = 0" "\<not> ttb_alloc_is_early s" "alloc_static_base s \<noteq> 0"
  shows "\<exists>t. ttb_alloc s = Inr (x, t) \<and> phys_wf t rest [] \<and> frame s t \<and> vkept s t \<and> tlbi t = tlbi s \<and> taken s x t"
proof -
  let ?s1 = "s\<lparr>dis_int_count := dis_int_count s + 1, daif_unmasked := False\<rparr>"
  let ?s2 = "s\<lparr>daif_unmasked := (dis_int_count s = 0)\<rparr>"
  have c1: "dis_int_count s + 1 \<noteq> 0" using irq_room_Suc(2) [of 3 s ?s1] room by (simp add: eval_nat_numeral)
  have de: "disable_interrupts s = Inr ?s1" "enable_interrupts ?s1 = Inr ?s2"
    using room c1 by (simp_all add: disable_interrupts_returns enable_interrupts_returns irq_room_not_max)
  have "phys_wf ?s2 (x # rest) []" "alloc_static_base ?s2 \<noteq> 0" "irq_room 3 ?s2" using wf m(3) room by (simp_all add: irq_room_def)
  from ppage_alloc_take [OF this]
  obtain t where t: "ppage_alloc ?s2 = Inr (x, t)" "phys_wf t rest []" "frame ?s2 t" "taken ?s2 x t" by blast
  have run: "ttb_alloc s = Inr (x, t)"
    using t(1) m g de by (simp add: ttb_alloc_def ttbpage_alloc_def geometry16k_def)
  have "kept ?s2 t" using ppage_alloc_kept [OF t(1)] .
  then have "tlbi t = tlbi s" using more_fields [of ?s2 t] by (simp add: kept_def)
  moreover have "taken s x t" using t(4) by (simp add: taken_def)
  moreover have "frame s t" using t(3) by (simp add: frame_def)
  ultimately show ?thesis using run t(2) ttb_alloc_vkept [OF run] by blast
qed

lemma create_table:
  fixes s :: "'a vmm_scheme"
  assumes wf: "phys_wf s (x # rest) []" and g: "geometry16k s" and room: "irq_room 4 s"
    and miss: "table_missing s sp va (x # rest)"
  shows "\<exists>t u. ttb_alloc s = Inr (x, t) \<and> u = tt_set (ttbr1 sp) (l1_index va) (table_tte x) t
     \<and> phys_wf u rest [] \<and> frame s u \<and> vkept s u \<and> tlbi u = tlbi s \<and> slot_ready u sp va rest
     \<and> slot_of u sp va = x + 8 * l2_index va \<and> x AND 0x3fff = 0 \<and> taken s x t \<and> ppage_list u = ppage_list t"
proof -
  have m: "ttb_freelist s = 0" "\<not> ttb_alloc_is_early s" "alloc_static_base s \<noteq> 0" and x48: "x < 0x1000000000000"
    and up: "is_upper va" "va AND 0x3fff = 0" and off: "\<And>y. y \<in> set (x # rest) \<Longrightarrow> 0x4000 \<le> ttbr1 sp + 8 * l1_index va - y"
    using miss by (auto simp: table_missing_def)
  obtain t where t: "ttb_alloc s = Inr (x, t)" "phys_wf t rest []" "frame s t" "vkept s t" "tlbi t = tlbi s" "taken s x t"
    using ttb_alloc_takes_page [OF wf g room m] by blast
  let ?a = "ttbr1 sp + 8 * l1_index va" and ?u = "tt_set (ttbr1 sp) (l1_index va) (table_tte x) t"
  have al: "all_aligned (x # rest)" "x \<notin> set rest" using phys_wf_aligned [OF wf] wf by (simp_all add: phys_wf_def)
  then have xa: "x AND 0x3fff = 0" by (simp add: all_aligned_def)
  have pmu: "pmem ?u = (pmem t)(?a := table_tte x)" by (simp add: tt_set_def)
  have e: "tt_get (ttbr1 sp) (l1_index va) ?u = table_tte x" by (simp add: tt_get_def pmu)
  note f = table_tte_fields [OF xa x48]
  have small: "8 * l2_index va < 0x4000" using table_offset [of va] by (simp add: PAGE_SIZE_def)
  have far: "?a \<noteq> x + 8 * l2_index va" using off [of x] small by (auto simp: not_le)
  have clear: "pmem t (x + 8 * l2_index va) = 0" using t(6) l2_index_less by (simp add: taken_def)
  have nf: "x + 8 * l2_index va \<noteq> y \<and> x + 8 * l2_index va \<noteq> y + 8" if "y \<in> set rest" for y
  proof -
    have "y AND 0x3fff = 0" "x \<noteq> y" using that al by (auto simp: all_aligned_def)
    note ap = page_apart [OF xa this]
    show ?thesis
    proof (intro conjI notI)
      assume "x + 8 * l2_index va = y"
      then have "y - x = 8 * l2_index va" by (metis add_diff_cancel_left')
      then show False using ap(1) table_offset [of va] by simp
    next
      assume "x + 8 * l2_index va = y + 8"
      then have "y + 8 - x = 8 * l2_index va" by (metis add_diff_cancel_left')
      then show False using ap(2) table_offset [of va] by simp
    qed
  qed
  have away: "?a \<noteq> y \<and> ?a \<noteq> y + 8" if "y \<in> set rest" for y
  proof -
    have "0x4000 \<le> ?a - y" using off that by simp
    moreover have "\<not> (0x4000 :: u64) \<le> 0" "\<not> (0x4000 :: u64) \<le> 8" by simp_all
    ultimately have "?a - y \<noteq> 0" "?a - y \<noteq> 8" by metis+
    then show ?thesis by (metis diff_self add_diff_cancel_left')
  qed
  have wfu: "phys_wf ?u rest []" unfolding tt_set_def by (rule phys_wf_store [OF t(2) away])
  have sl: "slot_of ?u sp va = x + 8 * l2_index va" by (simp add: slot_of_def e f)
  have "\<not> tte_valid (pmem ?u (x + 8 * l2_index va))" using far clear by (simp add: pmu tte_valid_def)
  then have "slot_ready ?u sp va rest" using up e f far nf by (auto simp: slot_ready_def Let_def)
  moreover have "frame s ?u" "vkept s ?u" "tlbi ?u = tlbi s" "ppage_list ?u = ppage_list t"
    using t by (simp_all add: frame_def vkept_def tt_set_def)
  ultimately show ?thesis using t wfu sl xa by blast
qed

text \<open>Creating the table first and mapping then is what the call does.\<close>

lemma map_page_upper_create:
  assumes g: "geometry16k s" and va: "va AND 0x3fff = 0"
    and miss: "\<not> tte_valid (tt_get (ttbr1 sp) (l1_index va) s)" and al: "ttb_alloc s = Inr (x, t)"
    and x: "x AND 0x3fff = 0" "x < 0x1000000000000" and prot: "\<not> has prot PROT_PAGING_INFO"
  shows "map_page_upper h sp va pa prot s = map_page_upper h sp va pa prot (tt_set (ttbr1 sp) (l1_index va) (table_tte x) t)"
proof -
  let ?a = "user_args (ttbr1 sp) True pa prot"
  have "\<not> tte_valid (tt_get (tt0 ?a) (l1_index va) s)" using miss by (simp add: user_args_def)
  from map_range_create [OF g va this al x, of 4093 pa]
  have "map_range_map map_fuel ?a va pa 0x4000 s = map_range_map map_fuel ?a va pa 0x4000 (tt_set (ttbr1 sp) (l1_index va) (table_tte x) t)"
    unfolding map_fuel_Suc by (simp only: user_args_def map_args.simps)
  then show ?thesis using prot by (simp only: map_page_upper_def if_False)
qed

text \<open>\<open>map_outcome s sp va fl p fl' l\<close>: the entry of the address is \<open>p\<close> and after the call \<open>fl'\<close> is
  the free list and \<open>l\<close> the page array. Where the second-level table is there, the free list and the
  array stay; where it is missing, the head of the free list becomes the table, with one reference.\<close>

definition map_outcome :: "'a vmm_scheme \<Rightarrow> vm_space \<Rightarrow> u64 \<Rightarrow> u64 list \<Rightarrow> u64 \<Rightarrow> u64 list \<Rightarrow> u32 list \<Rightarrow> bool" where
  "map_outcome s sp va fl p fl' l \<longleftrightarrow>
     (slot_ready s sp va fl \<and> p = slot_of s sp va \<and> fl' = fl \<and> l = ppage_list s)
   \<or> (table_missing s sp va fl \<and> fl = hd fl # fl' \<and> p = hd fl + 8 * l2_index va
      \<and> (\<exists>i < ppages s. hd fl = page_pa s i \<and> refcount (ppage_list s ! unat i) = 0
           \<and> l = (ppage_list s)[unat i := inc_ref (ppage_list s ! unat i)]))"

lemma map_page_upper_outcome:
  assumes wf: "phys_wf s fl []" and g: "geometry16k s" and room: "irq_room 4 s" and sp: "spaces s h = Some sp"
    and slot: "slot_ready s sp va fl \<or> table_missing s sp va fl"
    and k: "k < ppages s" and pa: "page_pa s k < 0x1000000000000"
    and busy: "refcount (ppage_list s ! unat k) \<noteq> 0" "refcount (ppage_list s ! unat k) < 2 ^ 24 - 1"
    and prot: "has prot PROT_READ" "\<not> has prot PROT_PAGING_INFO"
  shows "\<exists>t p fl'. map_page_upper h sp va (page_pa s k) prot s = Inr t
     \<and> tte_walk_get h va t = Inr (Some p) \<and> tte_valid (pmem t p) \<and> push_bit 12 (tte_oa (pmem t p)) = page_pa s k
     \<and> phys_wf t fl' [] \<and> vkept s t \<and> map_outcome s sp va fl p fl' (ppage_list t)
     \<and> tlbi t = tlbi s @ [asid sp OR (drop_bit 12 va AND 0xFFFFFFFFFFF)]"
  using slot
proof
  assume r: "slot_ready s sp va fl"
  have "irq_room 2 s" using room by (rule irq_room_mono) simp
  from map_page_upper16k [OF wf g this sp r k pa busy prot] show ?thesis
    using r unfolding map_outcome_def by metis
next
  assume m: "table_missing s sp va fl"
  then obtain x rest where fl: "fl = x # rest" by (cases fl) (simp_all add: table_missing_def)
  obtain t u where u: "ttb_alloc s = Inr (x, t)" "u = tt_set (ttbr1 sp) (l1_index va) (table_tte x) t" "phys_wf u rest []"
      "frame s u" "vkept s u" "tlbi u = tlbi s" "slot_ready u sp va rest" "slot_of u sp va = x + 8 * l2_index va"
      "x AND 0x3fff = 0" "taken s x t" "ppage_list u = ppage_list t"
    using create_table [OF wf [unfolded fl] g room m [unfolded fl]] by blast
  obtain i where i: "i < ppages s" "x = page_pa s i" "refcount (ppage_list s ! unat i) = 0"
      "ppage_list u = (ppage_list s)[unat i := inc_ref (ppage_list s ! unat i)]"
    using u(10,11) by (auto simp: taken_def)
  have ik: "ppage_list u ! unat k = ppage_list s ! unat k" using i(3,4) busy(1) by (metis nth_list_update_neq)
  have gu: "geometry16k u" "spaces u h = Some sp" "irq_room 2 u" "k < ppages u" "page_pa u = page_pa s"
    using g sp room k u(4,5) frame_page_pa [OF u(4)] by (simp_all add: geometry16k_def vkept_def irq_room_def frame_def)
  have e: "map_page_upper h sp va (page_pa s k) prot s = map_page_upper h sp va (page_pa s k) prot u"
    unfolding u(2) by (rule map_page_upper_create [OF g _ _ u(1,9) _ prot(2)]) (use m fl in \<open>auto simp: table_missing_def\<close>)
  obtain v where v: "map_page_upper h sp va (page_pa s k) prot u = Inr v" "tte_walk_get h va v = Inr (Some (slot_of u sp va))"
      "tte_valid (pmem v (slot_of u sp va))" "push_bit 12 (tte_oa (pmem v (slot_of u sp va))) = page_pa s k"
      "ppage_list v = ppage_list u" "phys_wf v rest []" "vkept u v"
      "tlbi v = tlbi u @ [asid sp OR (drop_bit 12 va AND 0xFFFFFFFFFFF)]"
    using map_page_upper16k [OF u(3) gu(1,3,2) u(7) gu(4) _ _ _ prot] gu(5) pa busy ik by auto
  have "map_outcome s sp va fl (slot_of u sp va) rest (ppage_list v)"
    unfolding map_outcome_def v(5) u(8) using m i by (auto simp: fl)
  moreover have "vkept s v" using vkept_trans [OF u(5) v(7)] .
  ultimately show ?thesis using v e u(6) by (intro exI [of _ v] exI [of _ "slot_of u sp va"] exI [of _ rest]) simp
qed

end
