(* ===== verification/VmClaims.thy ===== *)
theory VmClaims
  imports VmTable
begin

unbundle bit_operations_syntax

text \<open>
  The properties of the virtual memory component, with a machine on which they are exercised.
\<close>

section \<open>Address space identifiers\<close>

lemma find_first:
  "List.find P [0..<n] = Some i \<Longrightarrow> i < n \<and> P i \<and> (\<forall>j < i. \<not> P j)"
  by (auto simp: find_Some_iff)

lemma asid_index: "i < 256 \<Longrightarrow> unat (drop_bit 48 (push_bit 48 (of_nat i :: u64)) AND 0xff) = i"
proof -
  assume i: "i < 256"
  have u: "unat (of_nat i :: u64) = i" using i by (subst unsigned_of_nat) (simp add: take_bit_eq_mod)
  have d: "drop_bit 48 (push_bit 48 (of_nat i :: u64)) = take_bit 16 (of_nat i)"
    by (rule bit_eqI) (auto simp: bit_drop_bit_eq bit_push_bit_iff bit_take_bit_iff)
  have "(0xff :: u64) = mask 8" by (simp add: mask_eq_exp_minus_1)
  moreover have "unat (take_bit 16 (of_nat i :: u64)) = i mod 2 ^ 16"
    by (simp only: unsigned_take_bit_eq u) (simp add: take_bit_eq_mod)
  ultimately have "unat (drop_bit 48 (push_bit 48 (of_nat i :: u64)) AND 0xff) = (i mod 2 ^ 16) mod 2 ^ 8"
    unfolding d by (simp only: unat_and_mask)
  then show ?thesis using i by simp
qed

section \<open>A small machine\<close>

text \<open>Four pages: 0 wired, 1 in use, 2 and 3 free. The kernel space has a first-level table at
  \<open>0x900000000\<close> whose entry for its base points to an empty second-level table.\<close>

definition ex_tbl :: "u8 list" where "ex_tbl = replicate 0x8000 0"

definition ex_space :: vm_space where
  "ex_space = \<lparr>ttbr0 = 0x910000000, ttbr1 = 0x900000000, vm_space_base = VM_SPACE_BASE,
     vm_space_end = VM_SPACE_BASE + VM_SPACE_SIZE, vm_space_table = ex_tbl,
     vm_refcount = TASK_REFCOUNT_GLOBAL, vm_parent = 0, asid = 0\<rparr>"

definition ex_vm :: "vmm" where
  "ex_vm = \<lparr>dis_int_count = 0, daif_unmasked = True, physBase = 0x800000000, memSize = 0x10000,
     topOfKernelData = 0x817000000, early_heap_base = 0x400000000, autoboot_block = 0,
     ppage_list = [0xffffff, 1, 0, 0], ppages = 4, free_pages = 2, wired_pages = 1,
     alloc_static_base = 0x417000000, alloc_static_current = 0x417000000,
     alloc_static_end = 0x417fe0000, pa_head = 0x800008000,
     pmem = (\<lambda>_. 0)(0x800008000 := 0x80000c000, 0x80000c008 := 0x800008000, 0x900003800 := 0x900004003),
     ttb_freelist = 0, ttb_alloc_base = 0, ttb_alloc_is_early = False, is_16k_v = True,
     tt_bits = 11, t0sz = 28, t1sz = 28, tlbi = [], asid_table = 1 # replicate 31 0,
     spaces = [1 \<mapsto> ex_space], linear_kvm_cursor = 0x120000000, linear_kvm_end = 0x180000000,
     paging_requests = 0, kttbr0 = 0, kttbr1 = 0, ram_phys_off = 0, ram_phys_size = 0, g_phys_off = 0,
     gPongoSlide = 0\<rparr>"

lemma ex_vm_inv: "phys_inv ex_vm [0x800008000, 0x80000c000]"
proof -
  have g: "geometry_ok ex_vm" by (simp add: geometry_ok_def ex_vm_def)
  show ?thesis
    using g by (simp add: phys_wf_def free_pas_list ex_vm_def upt_rec refcount_def PAGE_REFBITS_def page_pa_def)
qed

lemma ex_vm_geometry: "geometry16k ex_vm"
  by (simp add: geometry16k_def ex_vm_def)

lemma ex_has_space: "has_space ex_vm 1 ex_space"
  by (simp add: has_space_def ex_vm_def ex_space_def ex_tbl_def)

lemma ex_tbl_get: "i < 0x40000 \<Longrightarrow> \<not> bmp_get ex_tbl i"
  by (simp add: bmp_get_def ex_tbl_def)

lemma ex_slot: "slot_ready ex_vm ex_space VM_SPACE_BASE [0x800008000, 0x80000c000]"
  by (simp add: slot_ready_def is_upper_def VM_SPACE_BASE_def ex_vm_def ex_space_def tt_get_def l1_index_def
      l2_index_def off36_def tte_valid_def tte_table_def tte_oa_def Let_def take_bit_eq_mask mask_eq_exp_minus_1)

section \<open>Properties\<close>

text \<open>C5 \<open>vm_allocate\<close> takes the first run of free pages of the scanned window of the space's
  bitmap, marks exactly that run and returns its address; without such a run it reports
  \<open>KERN_VM_OOM\<close> and changes no space. The window (\<open>scan_window\<close>) is the whole bitmap, and with
  \<open>VM_FLAGS_FIXED\<close> as many pages from page 0 on as were asked for, or nothing when the address is
  too high: a fixed request yields the base of the space, not the address passed. Unless
  \<open>VM_FLAGS_NOMAP\<close> is given, exactly the table entries of the run become the mark that makes a page
  be allocated at its first access, and their translations are flushed, in order; with it, no entry
  and no translation is touched. The call returns. Assumed: the space exists, the page count is not
  0, a fixed size fits in the space, the interrupt depth does not wrap, and, where pages are
  mapped, 16K pages with the second-level tables of the run in place and its entries unused.\<close>

lemma vm_allocate_correct:
  assumes "has_space s h sp" and "page_count_of sz \<noteq> 0" and "flags AND VM_FLAGS_FIXED \<noteq> 0 \<Longrightarrow> sz \<le> VM_SPACE_SIZE"
    and "irq_room 2 s"
    and "\<And>k. maps_pages flags \<Longrightarrow> first_run_of (free_slot (vm_space_table sp) (scan_window flags addr sz sp)) k (unat (page_count_of sz)) \<Longrightarrow>
      tables_ready s sp k (k + unat (page_count_of sz))"
  shows "\<exists>r a t. vm_allocate h addr sz flags s = Inr (r, a, t) \<and>
    ((\<exists>k. first_run_of (free_slot (vm_space_table sp) (scan_window flags addr sz sp)) k (unat (page_count_of sz))
        \<and> r = KERN_SUCCESS \<and> a = page_va sp k \<and> k + unat (page_count_of sz) \<le> bitmap_pages
        \<and> claimed h sp True k (k + unat (page_count_of sz)) s t
        \<and> (if maps_pages flags then marked sp k (k + unat (page_count_of sz)) s t else unmarked s t))
     \<or> (\<nexists>k. run_of (free_slot (vm_space_table sp) (scan_window flags addr sz sp)) k (unat (page_count_of sz)))
        \<and> r = KERN_VM_OOM \<and> a = 0 \<and> spaces t = spaces s \<and> unmarked s t)"
  using assms by (rule vm_allocate_outcome)

lemma vm_allocate_correct_witness:
  "\<exists>t. vm_allocate 1 0 0x4000 0 ex_vm = Inr (KERN_SUCCESS, VM_SPACE_BASE, t)
     \<and> pmem t 0x900004000 = paging_tte PAGING_INFO_ALLOC_ON_FAULT_MAGIC \<and> tlbi t = [flush_of ex_space VM_SPACE_BASE]"
proof -
  have n: "page_count_of 0x4000 = 1" by (simp add: page_count_of_def)
  have r: "irq_room 2 ex_vm" by (simp add: irq_room_def ex_vm_def)
  have w: "scan_window 0 0 0x4000 ex_space = bitmap_pages" and m: "maps_pages 0" by (simp_all add: scan_window_def maps_pages_def)
  have run: "run_of (free_slot (vm_space_table ex_space) bitmap_pages) 0 1"
    using ex_tbl_get by (simp add: run_of_def free_slot_def bitmap_pages_def ex_space_def)
  have k0: "k = 0" if "first_run_of (free_slot (vm_space_table ex_space) bitmap_pages) k 1" for k
    using that run unfolding first_run_of_def by blast
  have va: "page_va ex_space 0 = VM_SPACE_BASE" by (simp add: page_va_def ex_space_def)
  have sl: "slot_of ex_vm ex_space VM_SPACE_BASE = 0x900004000" "slot_of ex_vm ex_space VM_SPACE_BASE \<noteq> ttbr1 ex_space + 8 * l1_index VM_SPACE_BASE"
    by (simp_all add: slot_of_def tt_get_def ex_vm_def ex_space_def l1_index_def l2_index_def off36_def VM_SPACE_BASE_def
      tte_oa_def take_bit_eq_mask mask_eq_exp_minus_1)
  have lr: "leaf_ready ex_vm ex_space VM_SPACE_BASE"
    using ex_slot by (simp add: leaf_ready_def slot_ready_def slot_of_def Let_def)
  have tr: "tables_ready ex_vm ex_space 0 1"
    using ex_vm_geometry lr sl(2) by (simp add: tables_ready_def va)
  have ready: "tables_ready ex_vm ex_space k (k + unat (page_count_of 0x4000))"
    if "maps_pages 0" "first_run_of (free_slot (vm_space_table ex_space) (scan_window 0 0 0x4000 ex_space)) k (unat (page_count_of 0x4000))" for k
    using k0 [of k] that(2) tr n w by simp
  have nz: "page_count_of 0x4000 \<noteq> 0" "(0 :: u32) AND VM_FLAGS_FIXED \<noteq> 0 \<Longrightarrow> (0x4000 :: u64) \<le> VM_SPACE_SIZE" using n by simp_all
  have un: "unat (page_count_of 0x4000) = 1" using n by simp
  note ok = vm_allocate_correct [where flags = 0 and addr = 0 and sz = "0x4000", OF ex_has_space nz r ready, unfolded un w]
  obtain res a t where t: "vm_allocate 1 0 0x4000 0 ex_vm = Inr (res, a, t)"
    and c: "(\<exists>k. first_run_of (free_slot (vm_space_table ex_space) bitmap_pages) k 1 \<and> res = KERN_SUCCESS
         \<and> a = page_va ex_space k \<and> marked ex_space k (k + 1) ex_vm t)"
    using ok m run by auto
  have "res = KERN_SUCCESS" "a = VM_SPACE_BASE" and mk: "marked ex_space 0 1 ex_vm t" using c k0 va by auto
  moreover have "pmem t 0x900004000 = paging_tte PAGING_INFO_ALLOC_ON_FAULT_MAGIC"
    using mk sl(1) va unfolding marked_def by simp
  moreover have "tlbi t = [flush_of ex_space VM_SPACE_BASE]" using mk va by (simp add: marked_def ex_vm_def)
  ultimately show ?thesis using t by blast
qed

text \<open>A request for a fixed address is not honoured: the requested address is only used
  in a range check, the scan still starts at page 0 and covers just the pages asked for, so
  the call returns the base of the space, whatever address was passed, or nothing.\<close>

lemma vm_allocate_fixed_ignores_address:
  assumes "has_space s h sp" and "flags AND VM_FLAGS_FIXED \<noteq> 0" and "sz \<le> VM_SPACE_SIZE"
    and "page_count_of sz \<noteq> 0" and "vm_allocate h addr sz flags s = Inr (r, a, t)"
  shows "a = vm_space_base sp \<or> r = KERN_VM_OOM \<and> a = 0"
proof -
  let ?n = "page_count_of sz" and ?m = "((sz + 0x3fff) AND NOT 0x3fff) div 0x4000"
  let ?x = "(sz + 0x3fff) AND NOT (mask 14)"
  have us: "unat sz \<le> 4294967296" using assms(3) by (simp add: VM_SPACE_SIZE_def word_le_nat_alt)
  have "unat (sz + 0x3fff) = unat sz + 16383" using us by (simp add: unat_word_ariths)
  then have xb: "unat ?x \<le> 4294983679" using us by (simp add: unat_and_not_mask)
  have mb: "unat ?m \<le> 262144" using xb by (simp add: unat_div mask14)
  have un: "unat ?n = unat ?m"
    unfolding page_count_of_def unsigned_ucast_eq using mb by (simp add: take_bit_eq_mod)
  obtain s1 where s1: "disable_interrupts s = Inr s1" using assms(4,5) by (auto simp: vm_allocate_def Let_def)
  then have sps: "spaces s1 = spaces s" by (auto elim!: disable_interrupts_InrE)
  have g: "get_space h s1 = Inr sp" and len: "length (vm_space_table sp) = 0x8000"
    using assms(1) sps by (simp_all add: has_space_def get_space_def)
  have n0: "0 < unat ?n" using assms(4) by (simp add: unat_gt_0)
  define m where "m = (if addr - vm_space_base sp > vm_space_end sp then 0 else ?m)"
  have um: "unat m \<le> unat ?n" using un by (simp add: m_def)
  obtain f where f: "vm_scan (vm_space_table sp) m ?n 0 0 0 = Inr f" "vscan_result (vm_space_table sp) (unat m) (unat ?n) f"
    using vm_scan_ok [of m "vm_space_table sp" ?n 0 0 0] um un mb len scan_st_0 [OF n0] by (auto simp: vscan_inv_def)
  have b0: "b = 0" if "f = Some b" for b
  proof -
    have "free_slot (vm_space_table sp) (unat m) (unat b + unat ?n - 1)"
      using f(2) that n0 by (auto simp: vscan_result_def first_run_of_def run_of_def)
    then have "unat b + unat ?n - 1 < unat m" by (simp add: free_slot_def)
    then have "unat b = 0" using um n0 by linarith
    then show ?thesis by (simp add: unat_eq_0)
  qed
  show ?thesis
  proof (cases f)
    case None
    then show ?thesis using assms(2,4,5) s1 g f(1) unfolding m_def by (auto simp: vm_allocate_def Let_def split: if_splits)
  next
    case (Some b)
    with b0 f(1) have "vm_scan (vm_space_table sp) m ?n 0 0 0 = Inr (Some 0)" by simp
    then show ?thesis using assms(2,4,5) s1 g unfolding m_def by (auto simp: vm_allocate_def Let_def split: if_splits)
  qed
qed


lemma ex_scan: "0 < sz \<Longrightarrow> vm_scan ex_tbl sz 1 0 0 0 = Inr (Some 0)"
  by (subst vm_scan.simps) (simp add: tbl_get_def ex_tbl_get word_neq_0_conv [symmetric], simp add: ex_tbl_def)

definition ex_after :: "vmm" where
  "ex_after = ex_vm\<lparr>spaces := [1 \<mapsto> ex_space\<lparr>vm_space_table := bmp_set True 0 ex_tbl\<rparr>]\<rparr>"

lemma ex_allocate:
  assumes "flags AND VM_FLAGS_NOMAP \<noteq> 0"
    and "flags AND VM_FLAGS_FIXED = 0 \<or> addr - VM_SPACE_BASE \<le> VM_SPACE_BASE + VM_SPACE_SIZE"
  shows "vm_allocate 1 addr 0x4000 flags ex_vm = Inr (KERN_SUCCESS, VM_SPACE_BASE, ex_after)"
proof -
  have "vm_scan ex_tbl 1 1 0 0 0 = Inr (Some 0)" "vm_scan ex_tbl (VM_SPACE_SIZE div 0x4000) 1 0 0 0 = Inr (Some 0)"
    by (simp_all add: ex_scan VM_SPACE_SIZE_def)
  moreover have "tbl_set True 0 ex_tbl = Inr (bmp_set True 0 ex_tbl)" by (simp add: tbl_set_def ex_tbl_def)
  moreover have "\<not> addr - VM_SPACE_BASE > VM_SPACE_BASE + VM_SPACE_SIZE" if "flags AND VM_FLAGS_FIXED \<noteq> 0"
    using assms(2) that by simp
  ultimately show ?thesis
    using assms(1)
    by (auto simp: vm_allocate_def page_count_of_def disable_interrupts_returns enable_interrupts_returns
      get_space_def put_space_def claim_page_def for_up_step ex_vm_def ex_space_def ex_after_def Let_def)
qed

lemma vm_allocate_fixed_ignores_address_witness:
  "vm_allocate 1 (VM_SPACE_BASE + 0x100000) 0x4000 3 ex_vm = Inr (KERN_SUCCESS, VM_SPACE_BASE, ex_after)
   \<and> VM_SPACE_BASE = vm_space_base ex_space"
proof -
  have f: "(3 :: u32) AND VM_FLAGS_FIXED \<noteq> 0" "(3 :: u32) AND VM_FLAGS_NOMAP \<noteq> 0"
    by (simp_all add: VM_FLAGS_NOMAP_def VM_FLAGS_FIXED_def)
  have run: "vm_allocate 1 (VM_SPACE_BASE + 0x100000) 0x4000 3 ex_vm = Inr (KERN_SUCCESS, VM_SPACE_BASE, ex_after)"
    by (rule ex_allocate) (simp_all add: f VM_SPACE_BASE_def VM_SPACE_SIZE_def)
  have "VM_SPACE_BASE = vm_space_base ex_space \<or> KERN_SUCCESS = KERN_VM_OOM \<and> VM_SPACE_BASE = 0"
    by (rule vm_allocate_fixed_ignores_address [OF ex_has_space f(1) _ _ run])
      (simp_all add: VM_SPACE_SIZE_def page_count_of_def)
  with run show ?thesis by simp
qed

text \<open>What \<open>vm_deallocate\<close> does undoes \<open>vm_allocate\<close>: if the range just allocated is released
  and the call returns, it succeeds and the spaces are as before the allocation.\<close>

lemma vm_allocate_deallocate_roundtrip:
  assumes "has_space s h sp" and "flags AND VM_FLAGS_FIXED = 0" and "page_count_of sz \<noteq> 0"
    and "sz \<le> VM_SPACE_SIZE" and "vm_space_base sp = VM_SPACE_BASE"
    and "vm_space_end sp = VM_SPACE_BASE + VM_SPACE_SIZE"
    and "vm_allocate h addr sz flags s = Inr (KERN_SUCCESS, a, s1)"
    and "vm_deallocate h a sz s1 = Inr (r, s2)"
  shows "r = KERN_SUCCESS \<and> spaces s2 = spaces s"
proof -
  let ?n = "unat (page_count_of sz)" and ?t = "vm_space_table sp"
  obtain k where k: "first_run_of (free_slot ?t bitmap_pages) k ?n"
      "a = vm_space_base sp + of_nat (k * 16384)" "k + ?n \<le> bitmap_pages" "claimed h sp True k (k + ?n) s s1"
    using vm_allocate_partial [OF assms(1-3,7)] by auto
  have len: "8 * length ?t = bitmap_pages" and sp: "spaces s h = Some sp"
    using assms(1) by (simp_all add: has_space_def bitmap_pages_def)
  let ?sp = "sp\<lparr>vm_space_table := bm.upd_many True k (k + ?n) ?t\<rparr>"
  have sp1: "spaces s1 h = Some ?sp" using k(4) by (simp add: claimed_def)
  have lt: "length (vm_space_table ?sp) = 0x8000"
    using bm.cap_upd_many [of True k "k + ?n" ?t] assms(1) by (simp add: has_space_def)
  have all: "bmp_get (vm_space_table ?sp) j" if "k \<le> j" "j < k + ?n" for j
    using bm.get_upd_many [of "k + ?n" ?t j True k] k(3) that len by simp
  have run: "vm_deallocate h (vm_space_base ?sp + of_nat (k * 16384)) sz s1 = Inr (r, s2)"
    using assms(8) k(2) by simp
  have r: "r = KERN_SUCCESS" and c: "claimed h ?sp False k (k + ?n) s1 s2"
    using vm_deallocate_partial [OF sp1 lt _ _ k(3) assms(4,3) all run] assms(5,6) by simp_all
  have "bm.upd_many False k (k + ?n) (bm.upd_many True k (k + ?n) ?t) = ?t"
    using bm.restore [of "k + ?n" ?t k True] k(1,3) len
    by (simp add: first_run_of_def run_of_def free_slot_def)
  then have "spaces s2 = (spaces s)(h \<mapsto> sp)" using c k(4) by (simp add: claimed_def)
  then show ?thesis using r sp by (simp add: fun_upd_idem)
qed

lemma ex_deallocate:
  "\<exists>t. vm_deallocate 1 VM_SPACE_BASE 0x4000 ex_after = Inr (KERN_SUCCESS, t)"
proof -
  let ?sp = "ex_space\<lparr>vm_space_table := bmp_set True 0 ex_tbl\<rparr>"
  let ?s1 = "ex_after\<lparr>dis_int_count := 1, daif_unmasked := False\<rparr>"
  let ?s2 = "ex_after\<lparr>dis_int_count := 2, daif_unmasked := False\<rparr>"
  have "replicate (Suc 0x7fff) (0 :: u8) = 0 # replicate 0x7fff 0" by (rule replicate_Suc)
  then have t: "bmp_set True 0 ex_tbl = 1 # replicate 0x7fff 0" by (simp add: bmp_set_def ex_tbl_def)
  have g2: "geometry16k ?s2" by (simp add: geometry16k_def ex_after_def ex_vm_def)
  have slot: "slot_ready ?s2 ?sp VM_SPACE_BASE []"
    using ex_slot by (simp add: slot_ready_def ex_after_def tt_get_def ex_space_def Let_def)
  have up: "map_page_upper 1 ?sp VM_SPACE_BASE 0 PROT_KERN_ONLY ?s2 =
    Inr (flush_asid (asid ?sp OR (drop_bit 12 VM_SPACE_BASE AND 0xFFFFFFFFFFF)) (?s2\<lparr>pmem := (pmem ?s2)(slot_of ?s2 ?sp VM_SPACE_BASE := 0)\<rparr>))"
    by (rule unmap_unused [OF g2 _ slot]) (simp_all add: ex_after_def has_def PROT_KERN_ONLY_def PROT_PAGING_INFO_def)
  let ?u = "flush_asid (asid ?sp OR (drop_bit 12 VM_SPACE_BASE AND 0xFFFFFFFFFFF)) (?s2\<lparr>pmem := (pmem ?s2)(slot_of ?s2 ?sp VM_SPACE_BASE := 0)\<rparr>)"
  let ?v = "?u\<lparr>dis_int_count := 1, daif_unmasked := False\<rparr>"
  have d1: "disable_interrupts ?s1 = Inr ?s2" by (simp add: disable_interrupts_returns)
  have en: "enable_interrupts ?u = Inr ?v" by (simp add: enable_interrupts_returns flush_asid_def)
  have gs: "get_space 1 ?s1 = Inr ?sp" "get_space 1 ?s2 = Inr ?sp" "get_space 1 ?v = Inr ?sp"
    by (simp_all add: get_space_def ex_after_def flush_asid_def)
  have c: "(VM_SPACE_BASE AND 0x7000000000000000) \<noteq> 0" by (simp add: VM_SPACE_BASE_def)
  have m: "vm_space_map_page_physical_prot 1 VM_SPACE_BASE 0 0 ?s1 = Inr ?v"
    unfolding vm_space_map_page_physical_prot_def d1 Let_def
    using up c en gs(2) by (simp add: kernel_vm_space_def)
  have "release_page 1 0 ?s1 = Inr (put_space 1 (?sp\<lparr>vm_space_table := bmp_set False 0 (1 # replicate 0x7fff 0)\<rparr>) ?v)"
    unfolding release_page_def gs using m gs(3)
    by (simp add: ex_space_def tbl_set_def t)
  moreover have "tbl_get (bmp_set True 0 ex_tbl) 0 = Inr True" by (simp add: t tbl_get_def bmp_get_def)
  moreover have "disable_interrupts ex_after = Inr ?s1" by (simp add: disable_interrupts_returns ex_after_def ex_vm_def)
  ultimately show ?thesis
    unfolding vm_deallocate_def using gs(1)
    by (simp add: ex_space_def page_count_of_def VM_SPACE_SIZE_def VM_SPACE_BASE_def Let_def for_up_step check_page_def
        put_space_def enable_interrupts_returns flush_asid_def)
qed

lemma vm_allocate_deallocate_roundtrip_witness:
  "\<exists>t. vm_allocate 1 0 0x4000 VM_FLAGS_NOMAP ex_vm = Inr (KERN_SUCCESS, VM_SPACE_BASE, ex_after)
     \<and> vm_deallocate 1 VM_SPACE_BASE 0x4000 ex_after = Inr (KERN_SUCCESS, t) \<and> spaces t = spaces ex_vm"
proof -
  have f: "VM_FLAGS_NOMAP AND VM_FLAGS_FIXED = 0" "VM_FLAGS_NOMAP AND VM_FLAGS_NOMAP \<noteq> 0"
    by (simp_all add: VM_FLAGS_NOMAP_def VM_FLAGS_FIXED_def)
  have a: "vm_allocate 1 0 0x4000 VM_FLAGS_NOMAP ex_vm = Inr (KERN_SUCCESS, VM_SPACE_BASE, ex_after)"
    by (rule ex_allocate) (use f in simp_all)
  obtain t where d: "vm_deallocate 1 VM_SPACE_BASE 0x4000 ex_after = Inr (KERN_SUCCESS, t)" using ex_deallocate by blast
  have "KERN_SUCCESS = KERN_SUCCESS \<and> spaces t = spaces ex_vm"
    by (rule vm_allocate_deallocate_roundtrip [OF ex_has_space f(1) _ _ _ _ a d])
      (simp_all add: page_count_of_def VM_SPACE_SIZE_def ex_space_def)
  with a d show ?thesis by simp
qed

text \<open>C4 With 16K pages, mapping a page of RAM that is in use (its count below the maximum, its
  address below 2^48) readable at an unused, aligned upper-half address of an address space, with
  a protection that is not the paging mark, makes that address translate to that page, keeps the
  allocator's invariant and the spaces, and flushes the translation of exactly that address. Two
  situations (\<open>map_outcome\<close>): the second-level table is there (\<open>slot_ready\<close>), and every reference
  count is as it was, the table's reference replacing the caller's; or it is missing
  (\<open>table_missing\<close>: no table on the free list of tables, the early allocator off, the page allocator
  initialised, a free page below 2^48), and the first free page, cleared, becomes the table, with one reference, and no other count
  changes. The tables lie outside the free pages, and the interrupt depth does not wrap.\<close>

lemma vm_map_page_translates:
  assumes "phys_inv s fl" and "geometry16k s" and "irq_room 5 s" and "spaces s h = Some sp"
    and "slot_ready s sp va fl \<or> table_missing s sp va fl" and "k < ppages s" and "page_pa s k < 0x1000000000000"
    and "refcount (ppage_list s ! unat k) \<noteq> 0" and "refcount (ppage_list s ! unat k) < 2 ^ 24 - 1"
    and "has prot PROT_READ" and "\<not> has prot PROT_PAGING_INFO"
  shows "\<exists>t p fl'. vm_space_map_page_physical_prot h va (page_pa s k) prot s = Inr t
     \<and> tte_walk_get h va t = Inr (Some p) \<and> tte_valid (pmem t p)
     \<and> push_bit 12 (tte_oa (pmem t p)) = page_pa s k
     \<and> phys_inv t fl' \<and> map_outcome s sp va fl p fl' (ppage_list t)
     \<and> spaces t = spaces s \<and> dis_int_count t = dis_int_count s
     \<and> tlbi t = tlbi s @ [asid sp OR (drop_bit 12 va AND 0xFFFFFFFFFFF)]"
proof -
  let ?s1 = "s\<lparr>dis_int_count := dis_int_count s + 1, daif_unmasked := False\<rparr>"
  let ?prot = "if h = kernel_vm_space then prot OR PROT_KERN_ONLY else prot"
  have s1: "disable_interrupts s = Inr ?s1"
    using assms(3) by (simp add: disable_interrupts_returns irq_room_not_max)
  have room: "irq_room 4 ?s1" using irq_room_Suc(1) [of 4 s ?s1] assms(3) by (simp add: eval_nat_numeral)
  have prot: "has ?prot PROT_READ" "\<not> has ?prot PROT_PAGING_INFO"
    using assms(10,11) by (auto simp: has_def PROT_READ_def PROT_PAGING_INFO_def PROT_KERN_ONLY_def bit.conj_disj_distrib2)
  have slot: "slot_ready ?s1 sp va fl \<or> table_missing ?s1 sp va fl"
    using assms(5) by (simp add: slot_ready_def table_missing_def tt_get_def Let_def)
  have out: "map_outcome ?s1 sp va fl = map_outcome s sp va fl"
    by (simp add: fun_eq_iff map_outcome_def slot_ready_def table_missing_def slot_of_def tt_get_def Let_def)
  obtain u p fl' where u: "map_page_upper h sp va (page_pa s k) ?prot ?s1 = Inr u"
    "tte_walk_get h va u = Inr (Some p)" "tte_valid (pmem u p)" "push_bit 12 (tte_oa (pmem u p)) = page_pa s k"
    "phys_inv u fl'" "vkept ?s1 u" "map_outcome s sp va fl p fl' (ppage_list u)"
    "tlbi u = tlbi s @ [asid sp OR (drop_bit 12 va AND 0xFFFFFFFFFFF)]"
    using map_page_upper_outcome [OF _ _ room _ slot _ _ _ _ prot, of h k, unfolded out] assms
    by (auto simp: geometry16k_def)
  have c: "dis_int_count u = dis_int_count s + 1" "dis_int_count u \<noteq> 0" "spaces u = spaces s"
    using u(6) irq_room_Suc(2) [of 4 s u] assms(3) by (simp_all add: vkept_def eval_nat_numeral)
  let ?t = "u\<lparr>dis_int_count := dis_int_count u - 1, daif_unmasked := (daif_unmasked u \<or> dis_int_count u = 1)\<rparr>"
  have up: "va AND 0x7000000000000000 \<noteq> 0" using assms(5) by (auto simp: slot_ready_def table_missing_def is_upper_def)
  have "vm_space_map_page_physical_prot h va (page_pa s k) prot s = Inr ?t"
    unfolding vm_space_map_page_physical_prot_def Let_def using s1 assms(4) up u(1) c(2)
    by (simp add: get_space_def enable_interrupts_returns del: if_split)
  moreover have "tte_walk_get h va ?t = tte_walk_get h va u"
    by (rule tte_walk_get_frame) simp_all
  ultimately show ?thesis using u c
    by (intro exI [of _ ?t] exI [of _ p] exI [of _ fl']) simp
qed

text \<open>Both situations on the machine above: its table covers the first 32 MiB of the space, so the
  next address takes a new one.\<close>

lemma ex_missing: "table_missing ex_vm ex_space (VM_SPACE_BASE + 0x2000000) [0x800008000, 0x80000c000]"
  by (simp add: table_missing_def is_upper_def VM_SPACE_BASE_def ex_vm_def ex_space_def tt_get_def l1_index_def
      off36_def tte_valid_def)

lemma vm_map_page_translates_witness:
  "(\<exists>t p. vm_space_map_page_physical_prot 1 VM_SPACE_BASE 0x800004000 (PROT_READ OR PROT_WRITE) ex_vm = Inr t
     \<and> tte_walk_get 1 VM_SPACE_BASE t = Inr (Some p) \<and> push_bit 12 (tte_oa (pmem t p)) = 0x800004000)
   \<and> (\<exists>t p. vm_space_map_page_physical_prot 1 (VM_SPACE_BASE + 0x2000000) 0x800004000 PROT_READ ex_vm = Inr t
     \<and> tte_walk_get 1 (VM_SPACE_BASE + 0x2000000) t = Inr (Some p) \<and> push_bit 12 (tte_oa (pmem t p)) = 0x800004000
     \<and> phys_inv t [0x80000c000])"
proof -
  have e: "irq_room 5 ex_vm" "spaces ex_vm 1 = Some ex_space" "(1 :: u64) < ppages ex_vm" "page_pa ex_vm 1 = 0x800004000"
    "ppage_list ex_vm ! unat (1 :: u64) = 1"
    by (simp_all add: ex_vm_def irq_room_def page_pa_def)
  have p: "has (PROT_READ OR PROT_WRITE) PROT_READ" "\<not> has (PROT_READ OR PROT_WRITE) PROT_PAGING_INFO"
      "has PROT_READ PROT_READ" "\<not> has PROT_READ PROT_PAGING_INFO"
    by (simp_all add: has_def PROT_READ_def PROT_WRITE_def PROT_PAGING_INFO_def)
  have k: "page_pa ex_vm 1 < 0x1000000000000" "refcount (ppage_list ex_vm ! unat (1 :: u64)) \<noteq> 0"
      "refcount (ppage_list ex_vm ! unat (1 :: u64)) < 2 ^ 24 - 1"
    unfolding e(4,5) by (simp_all add: refcount_def PAGE_REFBITS_def)
  have "\<not> slot_ready ex_vm ex_space (VM_SPACE_BASE + 0x2000000) fl" for fl
    using ex_missing by (simp add: slot_ready_def table_missing_def Let_def)
  then have fl: "fl' = [0x80000c000]"
    if "map_outcome ex_vm ex_space (VM_SPACE_BASE + 0x2000000) [0x800008000, 0x80000c000] p fl' l" for p fl' l
    using that by (auto simp: map_outcome_def)
  show ?thesis
    using vm_map_page_translates [OF ex_vm_inv ex_vm_geometry e(1,2) disjI1 [OF ex_slot] e(3) k p(1,2)]
      vm_map_page_translates [OF ex_vm_inv ex_vm_geometry e(1,2) disjI2 [OF ex_missing] e(3) k p(3,4)] fl
    unfolding e(4) by blast
qed

text \<open>An address space identifier is handed out at most once at a time: the least unused
  one is taken and marked, releasing it restores the table, and with all 256 in use the
  allocation panics.\<close>

lemma asid_alloc_free:
  assumes "length (asid_table s) = 32" and "irq_room 1 s"
  shows "(\<exists>i t u. i < 256 \<and> \<not> bmp_get (asid_table s) i \<and> (\<forall>j < i. bmp_get (asid_table s) j)
       \<and> asid_alloc s = Inr (push_bit 48 (of_nat i), t) \<and> asid_table t = bmp_set True i (asid_table s)
       \<and> asid_free (push_bit 48 (of_nat i)) t = Inr u \<and> asid_table u = asid_table s)
    \<or> ((\<forall>i < 256. bmp_get (asid_table s) i)
       \<and> asid_alloc s = Inl (Panic ''asid_alloc: out of ASIDs, are we leaking vm_spaces?''))"
proof (cases "List.find (\<lambda>i. \<not> bmp_get (asid_table s) i) [0..<256]")
  case None
  then have "\<forall>i < 256. bmp_get (asid_table s) i" by (auto simp: find_None_iff)
  moreover have "asid_alloc s = Inl (Panic ''asid_alloc: out of ASIDs, are we leaking vm_spaces?'')"
    using None assms(2) by (simp add: asid_alloc_def disable_interrupts_returns irq_room_not_max)
  ultimately show ?thesis by blast
next
  case (Some i)
  from find_first [OF Some] have i: "i < 256" "\<not> bmp_get (asid_table s) i" "\<forall>j < i. bmp_get (asid_table s) j" by auto
  let ?s1 = "s\<lparr>dis_int_count := dis_int_count s + 1, daif_unmasked := False\<rparr>"
  let ?s2 = "?s1\<lparr>asid_table := bmp_set True i (asid_table s)\<rparr>"
  have c: "dis_int_count ?s2 \<noteq> 0" using irq_room_Suc(2) [of 0 s ?s2] assms(2) by simp
  let ?t = "?s2\<lparr>dis_int_count := dis_int_count ?s2 - 1, daif_unmasked := (daif_unmasked ?s2 \<or> dis_int_count ?s2 = 1)\<rparr>"
  have run: "asid_alloc s = Inr (push_bit 48 (of_nat i), ?t)"
    using Some assms(2) c by (simp add: asid_alloc_def disable_interrupts_returns enable_interrupts_returns irq_room_not_max)
  have cap: "i < 8 * length (asid_table s)" using i assms(1) by simp
  have b: "bmp_get (asid_table ?t) i" using bmp_get_set [OF cap cap] by simp
  have "bmp_set False i (bmp_set True i (asid_table s)) = asid_table s"
    using bm.restore1 [OF cap, of True] i(2) by simp
  then have "\<exists>u. asid_free (push_bit 48 (of_nat i)) ?t = Inr u \<and> asid_table u = asid_table s"
    using b asid_index [OF i(1)] by (simp add: asid_free_def flush_asid_def Let_def)
  then obtain u where u: "asid_free (push_bit 48 (of_nat i)) ?t = Inr u" "asid_table u = asid_table s" by blast
  have "asid_table ?t = bmp_set True i (asid_table s)" by simp
  with i run u show ?thesis by blast
qed

lemma asid_alloc_free_witness:
  "\<exists>t u. asid_alloc ex_vm = Inr (0x1000000000000, t) \<and> asid_free 0x1000000000000 t = Inr u
     \<and> asid_table u = asid_table ex_vm"
proof -
  have l: "length (asid_table ex_vm) = 32" "irq_room 1 ex_vm" by (simp_all add: ex_vm_def irq_room_def)
  have b: "bmp_get (asid_table ex_vm) 0" "\<not> bmp_get (asid_table ex_vm) 1"
    by (simp_all add: ex_vm_def bmp_get_def)
  obtain i t u where i: "\<not> bmp_get (asid_table ex_vm) i" "\<forall>j < i. bmp_get (asid_table ex_vm) j"
    and r: "asid_alloc ex_vm = Inr (push_bit 48 (of_nat i), t)" "asid_free (push_bit 48 (of_nat i)) t = Inr u"
      "asid_table u = asid_table ex_vm"
    using asid_alloc_free [OF l] b by force
  have "i = 1" using i b by (metis less_one linorder_neqE_nat)
  with r show ?thesis by auto
qed

end
