(* ===== verification/Locks.thy ===== *)
theory Locks
  imports Prelude
begin

unbundle bit_operations_syntax

text \<open>
  The kernel's lock word, \<open>src/src/kernel/locks.c\<close>: bit 0 says the lock is held, bit 1 that
  somebody waits for it, the rest is the address of the task that owned it last. Every access
  that decides or writes happens with interrupts disabled, so it is one atomic step; between
  two of them any other task may run. The first part gives the steps as functions on the word,
  the second the transition system of any number of tasks that take and release one lock.
\<close>

section \<open>The lock word\<close>

definition IS_LOCK_HELD :: "u64 \<Rightarrow> bool" where "IS_LOCK_HELD l \<longleftrightarrow> l AND 1 \<noteq> 0"
definition IS_LOCK_BUSY :: "u64 \<Rightarrow> bool" where "IS_LOCK_BUSY l \<longleftrightarrow> l AND 2 \<noteq> 0"
definition GET_LOCK_LAST_OWNER :: "u64 \<Rightarrow> u64" where "GET_LOCK_LAST_OWNER l = l AND NOT 3"
definition SET_LOCK_HELD :: "u64 \<Rightarrow> u64" where "SET_LOCK_HELD l = l OR 1"
definition SET_LOCK_BUSY :: "u64 \<Rightarrow> u64" where "SET_LOCK_BUSY l = l OR 2"
definition SET_LOCK_NOT_HELD :: "u64 \<Rightarrow> u64" where "SET_LOCK_NOT_HELD l = l AND NOT 1"
definition SET_LOCK_NOT_BUSY :: "u64 \<Rightarrow> u64" where "SET_LOCK_NOT_BUSY l = l AND NOT 2"
definition SET_LOCK_LAST_OWNER :: "u64 \<Rightarrow> u64 \<Rightarrow> u64" where
  "SET_LOCK_LAST_OWNER t l = (l AND 3) OR (t AND NOT 3)"

text \<open>What one pass of the loop of \<open>lock_take\<close> finds and does: it acquires the lock, or yields
  because it is held (marking it busy), or yields because this task was the last owner of a
  lock others wait for.\<close>

datatype attempt = Acquired u64 | Contended u64 | GiveWay u64

definition lock_acquire :: "u64 \<Rightarrow> u64 \<Rightarrow> u64" where
  "lock_acquire me l = SET_LOCK_LAST_OWNER me (SET_LOCK_NOT_BUSY (SET_LOCK_HELD l))"

definition lock_attempt :: "u64 \<Rightarrow> u64 \<Rightarrow> attempt" where
  "lock_attempt me l =
     (if \<not> IS_LOCK_HELD l then
        if GET_LOCK_LAST_OWNER l = me \<and> IS_LOCK_BUSY l then GiveWay (SET_LOCK_LAST_OWNER 0 l)
        else Acquired (lock_acquire me l)
      else if \<not> IS_LOCK_BUSY l then Contended (SET_LOCK_BUSY l)
      else Contended l)"

definition lock_attempt_spin :: "u64 \<Rightarrow> u64 \<Rightarrow> attempt" where
  "lock_attempt_spin me l =
     (if \<not> IS_LOCK_HELD l then Acquired (lock_acquire me l)
      else if \<not> IS_LOCK_BUSY l then Contended (SET_LOCK_BUSY l)
      else Contended l)"

definition lock_release :: "u64 \<Rightarrow> u64 \<Rightarrow> u64" where
  "lock_release me l = SET_LOCK_LAST_OWNER me (SET_LOCK_NOT_HELD l)"

text \<open>The whole of \<open>lock_take\<close>: \<open>env n l\<close> is what the other tasks make of the lock while
  this one has yielded with \<open>n\<close> rounds left; the first argument bounds the rounds.
  \<open>dis_int\<close> and \<open>over\<close> are \<open>dis_int_count\<close> and \<open>preemption_over\<close>.\<close>

primrec lock_rounds :: "(u64 \<Rightarrow> u64 \<Rightarrow> attempt) \<Rightarrow> nat \<Rightarrow> (nat \<Rightarrow> u64 \<Rightarrow> u64) \<Rightarrow> u64 \<Rightarrow> u64 \<Rightarrow> error + u64" where
  "lock_rounds try 0 env me l = Inl OutOfFuel"
| "lock_rounds try (Suc n) env me l =
     (case try me l of
        Acquired l' \<Rightarrow> Inr l'
      | Contended l' \<Rightarrow> lock_rounds try n env me (env n l')
      | GiveWay l' \<Rightarrow> lock_rounds try n env me (env n l'))"

definition lock_take :: "u64 \<Rightarrow> bool \<Rightarrow> nat \<Rightarrow> (nat \<Rightarrow> u64 \<Rightarrow> u64) \<Rightarrow> u64 \<Rightarrow> u64 \<Rightarrow> error + u64" where
  "lock_take dis_int over n env me l =
     (if dis_int \<noteq> 0 \<and> \<not> over then Inl (Panic ''Called lock_take with interrupts disabled'')
      else lock_rounds lock_attempt n env me l)"

definition lock_take_spin :: "u64 \<Rightarrow> bool \<Rightarrow> nat \<Rightarrow> (nat \<Rightarrow> u64 \<Rightarrow> u64) \<Rightarrow> u64 \<Rightarrow> u64 \<Rightarrow> error + u64" where
  "lock_take_spin dis_int over n env me l =
     (if dis_int \<noteq> 0 \<and> \<not> over then Inl (Panic ''Called lock_take_spin with interrupts disabled'')
      else lock_rounds lock_attempt_spin n env me l)"

section \<open>Facts about the word\<close>

definition task_addr :: "u64 \<Rightarrow> bool" where "task_addr t \<longleftrightarrow> t AND 3 = 0"

lemma held_bit: "IS_LOCK_HELD l = bit l 0"
  by (simp add: IS_LOCK_HELD_def and_one_eq odd_iff_mod_2_eq_one bit_0)

lemma busy_bit: "IS_LOCK_BUSY l = bit l (Suc 0)"
proof -
  have "l AND 2 = (if bit l 1 then 2 else 0)"
  proof (rule bit_word_eqI)
    fix n assume "n < LENGTH(64)"
    show "bit (l AND 2) n = bit (if bit l 1 then 2 else 0 :: u64) n"
      by (cases "n = 1") (auto simp: bit_and_iff bit_2_iff)
  qed
  then show ?thesis by (simp add: IS_LOCK_BUSY_def)
qed

lemma bit_3: "bit (3 :: u64) n \<longleftrightarrow> n < 2"
proof -
  have "(3 :: u64) = mask 2" by (simp add: mask_eq_exp_minus_1)
  then show ?thesis by (simp only: bit_mask_iff) auto
qed

lemma bit_two_u64: "bit (2 :: u64) n \<longleftrightarrow> n = 1" by (auto simp: bit_2_iff)
lemma bit_one_u64: "bit (1 :: u64) n \<longleftrightarrow> n = 0" by (auto simp: bit_1_iff)

lemma bit_andnot: "bit (l AND NOT m :: u64) n \<longleftrightarrow> bit l n \<and> \<not> bit m n"
  by (simp only: bit_and_iff bit_not_iff) (auto dest: bit_imp_le_length)

lemma bit_owner: "bit (GET_LOCK_LAST_OWNER l) n \<longleftrightarrow> 2 \<le> n \<and> bit l n"
  by (auto simp only: GET_LOCK_LAST_OWNER_def bit_andnot bit_3)

lemma bit_set_owner: "bit (SET_LOCK_LAST_OWNER t l) n \<longleftrightarrow> (if n < 2 then bit l n else bit t n)"
  by (cases "n < 2")
    (simp_all only: SET_LOCK_LAST_OWNER_def bit_or_iff bit_and_iff [of l] bit_andnot bit_3 if_True if_False simp_thms)

lemma bit_set_flags:
  "bit (SET_LOCK_HELD l) n \<longleftrightarrow> bit l n \<or> n = 0"
  "bit (SET_LOCK_BUSY l) n \<longleftrightarrow> bit l n \<or> n = 1"
  "bit (SET_LOCK_NOT_HELD l) n \<longleftrightarrow> bit l n \<and> n \<noteq> 0"
  "bit (SET_LOCK_NOT_BUSY l) n \<longleftrightarrow> bit l n \<and> n \<noteq> 1"
  by (simp_all only: SET_LOCK_HELD_def SET_LOCK_BUSY_def SET_LOCK_NOT_HELD_def SET_LOCK_NOT_BUSY_def
      bit_or_iff bit_andnot bit_two_u64 bit_one_u64)

lemmas lock_bits = bit_owner bit_set_owner bit_set_flags held_bit busy_bit lock_acquire_def lock_release_def

lemma held_after [simp]:
  "IS_LOCK_HELD (SET_LOCK_HELD l)" "IS_LOCK_HELD (SET_LOCK_BUSY l) = IS_LOCK_HELD l"
  "\<not> IS_LOCK_HELD (SET_LOCK_NOT_HELD l)" "IS_LOCK_HELD (SET_LOCK_NOT_BUSY l) = IS_LOCK_HELD l"
  "IS_LOCK_HELD (SET_LOCK_LAST_OWNER t l) = IS_LOCK_HELD l"
  "IS_LOCK_HELD (lock_acquire t l)" "\<not> IS_LOCK_HELD (lock_release t l)"
  by (simp_all add: lock_bits)

lemma busy_after [simp]:
  "IS_LOCK_BUSY (SET_LOCK_HELD l) = IS_LOCK_BUSY l" "IS_LOCK_BUSY (SET_LOCK_BUSY l)"
  "IS_LOCK_BUSY (SET_LOCK_NOT_HELD l) = IS_LOCK_BUSY l" "\<not> IS_LOCK_BUSY (SET_LOCK_NOT_BUSY l)"
  "IS_LOCK_BUSY (SET_LOCK_LAST_OWNER t l) = IS_LOCK_BUSY l"
  "\<not> IS_LOCK_BUSY (lock_acquire t l)" "IS_LOCK_BUSY (lock_release t l) = IS_LOCK_BUSY l"
  by (simp_all add: lock_bits)

text \<open>A task's structure is at least 4-byte aligned, so its address survives in the word.\<close>

lemma task_addr_bits: "task_addr t \<longleftrightarrow> (\<forall>n < 2. \<not> bit t n)"
proof -
  have "t AND 3 = 0 \<longleftrightarrow> (\<forall>n. bit (t AND 3) n = bit (0 :: u64) n)"
    using bit_word_eqI [of "t AND 3" 0] by auto
  also have "\<dots> \<longleftrightarrow> (\<forall>n < 2. \<not> bit t n)"
    by (simp only: bit_and_iff [of t] bit_3 bit_0_eq bot_bool_def bot_apply) blast
  finally show ?thesis by (simp only: task_addr_def)
qed

lemma owner_set [simp]: "task_addr t \<Longrightarrow> GET_LOCK_LAST_OWNER (SET_LOCK_LAST_OWNER t l) = t"
  by (rule bit_word_eqI) (auto simp: lock_bits task_addr_bits)

lemma owner_keeps [simp]:
  "GET_LOCK_LAST_OWNER (SET_LOCK_HELD l) = GET_LOCK_LAST_OWNER l"
  "GET_LOCK_LAST_OWNER (SET_LOCK_BUSY l) = GET_LOCK_LAST_OWNER l"
  "GET_LOCK_LAST_OWNER (SET_LOCK_NOT_HELD l) = GET_LOCK_LAST_OWNER l"
  "GET_LOCK_LAST_OWNER (SET_LOCK_NOT_BUSY l) = GET_LOCK_LAST_OWNER l"
  by (rule bit_word_eqI; auto simp: lock_bits)+

lemma task_addr_0 [simp]: "task_addr 0"
  by (simp add: task_addr_def)

lemma owner_acquire [simp]: "task_addr t \<Longrightarrow> GET_LOCK_LAST_OWNER (lock_acquire t l) = t"
  by (simp add: lock_acquire_def)

lemma owner_release [simp]: "task_addr t \<Longrightarrow> GET_LOCK_LAST_OWNER (lock_release t l) = t"
  by (simp add: lock_release_def)

section \<open>Taking the lock returns\<close>

text \<open>The lock words the task looks at, round by round.\<close>

primrec lock_seen :: "nat \<Rightarrow> (nat \<Rightarrow> u64 \<Rightarrow> u64) \<Rightarrow> u64 \<Rightarrow> u64 \<Rightarrow> u64 list" where
  "lock_seen 0 env me l = []"
| "lock_seen (Suc n) env me l =
     l # (case lock_attempt me l of
            Acquired l' \<Rightarrow> []
          | Contended l' \<Rightarrow> lock_seen n env me (env n l')
          | GiveWay l' \<Rightarrow> lock_seen n env me (env n l'))"

text \<open>Other tasks never make \<open>me\<close> the last owner: only \<open>me\<close> writes its own address.\<close>

definition others_only :: "(nat \<Rightarrow> u64 \<Rightarrow> u64) \<Rightarrow> u64 \<Rightarrow> bool" where
  "others_only env me \<longleftrightarrow> (\<forall>n l. GET_LOCK_LAST_OWNER l \<noteq> me \<longrightarrow> GET_LOCK_LAST_OWNER (env n l) \<noteq> me)"

definition free_seen :: "nat \<Rightarrow> (nat \<Rightarrow> u64 \<Rightarrow> u64) \<Rightarrow> u64 \<Rightarrow> u64 \<Rightarrow> u64 list" where
  "free_seen n env me l = filter (\<lambda>w. \<not> IS_LOCK_HELD w) (lock_seen n env me l)"

lemma free_seen_simps [simp]:
  "free_seen 0 env me l = []"
  "IS_LOCK_HELD l \<Longrightarrow> free_seen (Suc n) env me l = free_seen n env me (env n (SET_LOCK_BUSY l))"
  "\<not> IS_LOCK_HELD l \<Longrightarrow> GET_LOCK_LAST_OWNER l = me \<Longrightarrow> IS_LOCK_BUSY l \<Longrightarrow>
     free_seen (Suc n) env me l = l # free_seen n env me (env n (SET_LOCK_LAST_OWNER 0 l))"
proof -
  have busy: "SET_LOCK_BUSY l = l" if "IS_LOCK_BUSY l"
    by (rule bit_word_eqI) (use that in \<open>auto simp: lock_bits\<close>)
  show "free_seen (Suc n) env me l = free_seen n env me (env n (SET_LOCK_BUSY l))" if "IS_LOCK_HELD l"
    using that busy by (auto simp: free_seen_def lock_attempt_def)
qed (simp_all add: free_seen_def lock_attempt_def)

lemma lock_rounds_simps [simp]:
  "IS_LOCK_HELD l \<Longrightarrow> lock_rounds lock_attempt (Suc n) env me l = lock_rounds lock_attempt n env me (env n (SET_LOCK_BUSY l))"
  "\<not> IS_LOCK_HELD l \<Longrightarrow> \<not> (GET_LOCK_LAST_OWNER l = me \<and> IS_LOCK_BUSY l) \<Longrightarrow>
     lock_rounds lock_attempt (Suc n) env me l = Inr (lock_acquire me l)"
  "\<not> IS_LOCK_HELD l \<Longrightarrow> GET_LOCK_LAST_OWNER l = me \<Longrightarrow> IS_LOCK_BUSY l \<Longrightarrow>
     lock_rounds lock_attempt (Suc n) env me l = lock_rounds lock_attempt n env me (env n (SET_LOCK_LAST_OWNER 0 l))"
proof -
  have busy: "SET_LOCK_BUSY l = l" if "IS_LOCK_BUSY l"
    by (rule bit_word_eqI) (use that in \<open>auto simp: lock_bits\<close>)
  show "lock_rounds lock_attempt (Suc n) env me l = lock_rounds lock_attempt n env me (env n (SET_LOCK_BUSY l))"
    if "IS_LOCK_HELD l" using that busy by (auto simp: lock_attempt_def)
qed (auto simp: lock_attempt_def)

declare lock_rounds.simps(2) [simp del]

lemma free_once:
  assumes "others_only env me" and "GET_LOCK_LAST_OWNER l \<noteq> me" and "free_seen n env me l \<noteq> []"
  shows "\<exists>w. \<not> IS_LOCK_HELD w \<and> lock_rounds lock_attempt n env me l = Inr (lock_acquire me w)"
  using assms(2,3)
proof (induction n arbitrary: l)
  case (Suc n)
  show ?case
  proof (cases "IS_LOCK_HELD l")
    case True
    have "GET_LOCK_LAST_OWNER (env n (SET_LOCK_BUSY l)) \<noteq> me"
      using assms(1) Suc.prems(1) by (simp add: others_only_def)
    from Suc.IH [OF this] True Suc.prems(2) show ?thesis by simp
  next
    case False
    with Suc.prems(1) show ?thesis by auto
  qed
qed simp

lemma free_twice:
  assumes "others_only env me" and "me \<noteq> 0" and "2 \<le> length (free_seen n env me l)"
  shows "\<exists>w. \<not> IS_LOCK_HELD w \<and> lock_rounds lock_attempt n env me l = Inr (lock_acquire me w)"
  using assms(3)
proof (induction n arbitrary: l)
  case (Suc n)
  show ?case
  proof (cases "IS_LOCK_HELD l")
    case True
    with Suc show ?thesis by simp
  next
    case False
    show ?thesis
    proof (cases "GET_LOCK_LAST_OWNER l = me \<and> IS_LOCK_BUSY l")
      case True
      have "GET_LOCK_LAST_OWNER (env n (SET_LOCK_LAST_OWNER 0 l)) \<noteq> me"
        using assms(1,2) by (simp add: others_only_def)
      moreover have "free_seen n env me (env n (SET_LOCK_LAST_OWNER 0 l)) \<noteq> []"
        using Suc.prems False True by auto
      ultimately show ?thesis using free_once [OF assms(1)] False True by simp
    next
      case no: False
      with False show ?thesis by auto
    qed
  qed
qed simp

section \<open>Any number of tasks\<close>

text \<open>The program counter of a task: outside; at the test of the loop; past a test that found
  the lock free, held, or held and not busy; and owning the lock. \<open>task_yield\<close> changes no
  lock, so a task that yielded is back at the test.\<close>

datatype lpc = Out | Test | SawFree | SawHeld | SawIdle | Owns

record lsys =
  lword :: u64
  lpc :: "u64 \<Rightarrow> lpc"

definition goto :: "u64 \<Rightarrow> lpc \<Rightarrow> u64 \<Rightarrow> lsys \<Rightarrow> lsys" where
  "goto t p l s = \<lparr>lword = l, lpc = (lpc s)(t := p)\<rparr>"

inductive lstep :: "lsys \<Rightarrow> lsys \<Rightarrow> bool" where
  call: "\<lbrakk>task_addr t; t \<noteq> 0; lpc s t = Out\<rbrakk> \<Longrightarrow> lstep s (goto t Test (lword s) s)"
| test_free: "\<lbrakk>lpc s t = Test; \<not> IS_LOCK_HELD (lword s)\<rbrakk> \<Longrightarrow> lstep s (goto t SawFree (lword s) s)"
| test_held: "\<lbrakk>lpc s t = Test; IS_LOCK_HELD (lword s)\<rbrakk> \<Longrightarrow> lstep s (goto t SawHeld (lword s) s)"
| lost_race: "\<lbrakk>lpc s t = SawFree; IS_LOCK_HELD (lword s)\<rbrakk> \<Longrightarrow> lstep s (goto t Test (lword s) s)"
| give_way: "\<lbrakk>lpc s t = SawFree; \<not> IS_LOCK_HELD (lword s); GET_LOCK_LAST_OWNER (lword s) = t;
     IS_LOCK_BUSY (lword s)\<rbrakk> \<Longrightarrow> lstep s (goto t Test (SET_LOCK_LAST_OWNER 0 (lword s)) s)"
| acquire: "\<lbrakk>lpc s t = SawFree; \<not> IS_LOCK_HELD (lword s);
     \<not> (GET_LOCK_LAST_OWNER (lword s) = t \<and> IS_LOCK_BUSY (lword s))\<rbrakk>
     \<Longrightarrow> lstep s (goto t Owns (lock_acquire t (lword s)) s)"
| busy_already: "\<lbrakk>lpc s t = SawHeld; IS_LOCK_BUSY (lword s)\<rbrakk> \<Longrightarrow> lstep s (goto t Test (lword s) s)"
| not_busy: "\<lbrakk>lpc s t = SawHeld; \<not> IS_LOCK_BUSY (lword s)\<rbrakk> \<Longrightarrow> lstep s (goto t SawIdle (lword s) s)"
| mark_busy: "lpc s t = SawIdle \<Longrightarrow> lstep s (goto t Test (SET_LOCK_BUSY (lword s)) s)"
| release: "lpc s t = Owns \<Longrightarrow> lstep s (goto t Out (lock_release t (lword s)) s)"

inductive_cases lstepE: "lstep s s'"

inductive lreach :: "lsys \<Rightarrow> bool" where
  init: "lreach \<lparr>lword = 0, lpc = \<lambda>_. Out\<rparr>"
| step: "lreach s \<Longrightarrow> lstep s s' \<Longrightarrow> lreach s'"

text \<open>The abstract lock: who owns it, if anybody.\<close>

definition owner_of :: "lsys \<Rightarrow> u64 option" where
  "owner_of s = (if IS_LOCK_HELD (lword s) then Some (GET_LOCK_LAST_OWNER (lword s)) else None)"

definition lock_ok :: "lsys \<Rightarrow> bool" where
  "lock_ok s \<longleftrightarrow> (\<forall>t. lpc s t = Owns \<longleftrightarrow> owner_of s = Some t)
     \<and> (\<forall>t. lpc s t \<noteq> Out \<longrightarrow> task_addr t \<and> t \<noteq> 0)"

lemma owner_of_simps [simp]:
  "owner_of (goto t p (lword s) s) = owner_of s"
  "owner_of (goto t p (SET_LOCK_BUSY (lword s)) s) = owner_of s"
  "\<not> IS_LOCK_HELD (lword s) \<Longrightarrow> owner_of s = None"
  "\<not> IS_LOCK_HELD (lword s) \<Longrightarrow> owner_of (goto t p (SET_LOCK_LAST_OWNER u (lword s)) s) = None"
  "task_addr t \<Longrightarrow> owner_of (goto t p (lock_acquire t (lword s)) s) = Some t"
  "owner_of (goto t p (lock_release t (lword s)) s) = None"
  by (simp_all add: owner_of_def goto_def)

lemma lpc_goto [simp]: "lpc (goto t p l s) u = (if u = t then p else lpc s u)"
  by (simp add: goto_def)

text \<open>Every step stutters, or gives the free lock to one task, or takes it from its owner.\<close>

lemma lstep_owner:
  assumes "lock_ok s" and "lstep s s'"
  shows "owner_of s' = owner_of s
    \<or> (\<exists>t. owner_of s = None \<and> owner_of s' = Some t \<and> lpc s t = SawFree)
    \<or> (\<exists>t. owner_of s = Some t \<and> lpc s t = Owns \<and> owner_of s' = None)"
  using assms(2,1) by cases (auto simp: lock_ok_def)

text \<open>A move between two points neither of which owns the lock, which leaves the owner alone.\<close>

lemma lock_ok_move:
  assumes "lock_ok s" and "owner_of (goto t p l s) = owner_of s" and "p \<noteq> Owns" and "lpc s t \<noteq> Owns"
    and "task_addr t" and "t \<noteq> 0"
  shows "lock_ok (goto t p l s)"
  unfolding lock_ok_def assms(2) lpc_goto
proof (intro conjI allI)
  fix u show "((if u = t then p else lpc s u) = Owns) = (owner_of s = Some u)"
    using assms(1,3,4) by (cases "u = t") (simp_all add: lock_ok_def)
qed (use assms in \<open>auto simp: lock_ok_def\<close>)

lemma lock_ok_addr: "lock_ok s \<Longrightarrow> lpc s t \<noteq> Out \<Longrightarrow> task_addr t \<and> t \<noteq> 0"
  by (simp add: lock_ok_def)

lemma lock_ok_step:
  assumes "lstep s s'" and "lock_ok s"
  shows "lock_ok s'"
  using assms
proof cases
  case (acquire t)
  then show ?thesis using assms(2) by (auto simp: lock_ok_def)
next
  case (release t)
  then show ?thesis using assms(2) by (auto simp: lock_ok_def)
qed (use assms(2) lock_ok_addr [OF assms(2)] in \<open>simp_all add: lock_ok_move\<close>)

lemma lreach_ok: "lreach s \<Longrightarrow> lock_ok s"
  by (induction rule: lreach.induct) (auto simp: lock_ok_step, simp add: lock_ok_def owner_of_def IS_LOCK_HELD_def)

section \<open>Properties\<close>

text \<open>C6 Mutual exclusion: in every reachable state at most one task is past \<open>lock_take\<close>, the
  held bit says whether there is one, and the owner field names it.\<close>

lemma lock_mutual_exclusion:
  assumes "lreach s"
  shows "(IS_LOCK_HELD (lword s) \<longleftrightarrow> (\<exists>t. lpc s t = Owns))
    \<and> (\<forall>t u. lpc s t = Owns \<longrightarrow> lpc s u = Owns \<longrightarrow> t = u)
    \<and> (\<forall>t. lpc s t = Owns \<longrightarrow> GET_LOCK_LAST_OWNER (lword s) = t)"
  using lreach_ok [OF assms] by (auto simp: lock_ok_def owner_of_def split: if_splits)

text \<open>Two tasks, at \<open>0x1000\<close> and \<open>0x2000\<close>: the first takes the lock while the second has
  already seen it free, so the second loses the race.\<close>

lemma lock_mutual_exclusion_witness:
  "\<exists>s. lreach s \<and> lpc s 0x1000 = Owns \<and> lpc s 0x2000 = Test \<and> lpc s 0x3000 \<noteq> Owns"
proof -
  let ?s0 = "\<lparr>lword = 0, lpc = \<lambda>_. Out\<rparr>"
  let ?s1 = "goto 0x1000 Test 0 ?s0" and ?s2 = "goto 0x2000 Test 0 (goto 0x1000 Test 0 ?s0)"
  let ?s3 = "goto 0x1000 SawFree 0 ?s2"
  let ?s4 = "goto 0x2000 SawFree 0 ?s3"
  let ?s5 = "goto 0x1000 Owns (lock_acquire 0x1000 0) ?s4"
  let ?s6 = "goto 0x2000 Test (lock_acquire 0x1000 0) ?s5"
  have w: "lword (goto t p l s) = l" for t p l s by (simp add: goto_def)
  have f: "\<not> IS_LOCK_HELD 0" "\<not> IS_LOCK_BUSY 0" by (simp_all add: IS_LOCK_HELD_def IS_LOCK_BUSY_def)
  have "lreach ?s1" by (rule lreach.step [OF lreach.init])
      (use lstep.call [of "0x1000" ?s0] in \<open>simp add: task_addr_def\<close>)
  then have "lreach ?s2" by (rule lreach.step) (use lstep.call [of "0x2000" ?s1] in \<open>simp add: task_addr_def w\<close>)
  then have "lreach ?s3" by (rule lreach.step) (use lstep.test_free [of ?s2 "0x1000"] in \<open>simp add: w f\<close>)
  then have "lreach ?s4" by (rule lreach.step) (use lstep.test_free [of ?s3 "0x2000"] in \<open>simp add: w f\<close>)
  then have "lreach ?s5" by (rule lreach.step) (use lstep.acquire [of ?s4 "0x1000"] in \<open>simp add: w f\<close>)
  then have r: "lreach ?s6" by (rule lreach.step) (use lstep.lost_race [of ?s5 "0x2000"] in \<open>simp add: w\<close>)
  have "lpc ?s6 0x3000 \<noteq> Owns" using lock_mutual_exclusion [OF r] by auto
  then show ?thesis using r by (intro exI [of _ ?s6]) simp
qed

text \<open>\<open>lock_take\<close> gets the lock: a task that finds it free in two of its rounds has
  acquired it, whatever the others do meanwhile; it gives way at most once, and only when it
  was the last owner of a lock others wait for.\<close>

lemma lock_take_acquires:
  assumes "others_only env me" and "me \<noteq> 0" and "task_addr me" and "2 \<le> length (free_seen n env me l)"
    and "dis_int = 0 \<or> over"
  shows "\<exists>l'. lock_take dis_int over n env me l = Inr l' \<and> IS_LOCK_HELD l' \<and> \<not> IS_LOCK_BUSY l'
    \<and> GET_LOCK_LAST_OWNER l' = me"
  using free_twice [OF assms(1,2,4)] assms(3,5) by (auto simp: lock_take_def)

text \<open>The task at \<open>0x1000\<close> has just released the lock while others wait.\<close>

lemma lock_take_acquires_witness:
  "\<exists>l'. lock_take 0 False 2 (\<lambda>n l. l) 0x1000 0x1002 = Inr l' \<and> GET_LOCK_LAST_OWNER l' = 0x1000"
proof -
  have "free_seen 2 (\<lambda>n l. l) 0x1000 0x1002 = [0x1002, 2]"
    by (simp add: free_seen_def numeral_2_eq_2 lock_attempt_def IS_LOCK_HELD_def IS_LOCK_BUSY_def
        GET_LOCK_LAST_OWNER_def SET_LOCK_LAST_OWNER_def)
  then show ?thesis
    using lock_take_acquires [of "\<lambda>n l. l" "0x1000" 2 "0x1002" 0 False]
    by (auto simp: others_only_def task_addr_def)
qed

end
