(* ===== verification/Vfs.thy ===== *)
theory Vfs
  imports Vm
begin

text \<open>
  File objects and their reference counts, \<open>src/src/kernel/vfs.c\<close>: a file table holds file
  descriptors, a descriptor holds a file, and each is freed when its count drops to zero.
  Pointers are handles into the maps of live objects, \<open>NULL\<close> is 0; an operation on a freed
  object is a \<open>BadAccess\<close>. A handle \<open>new\<close> is what \<open>malloc\<close> returned.
\<close>

section \<open>State\<close>

definition FILETABLE_MAX_SIZE :: u32 where "FILETABLE_MAX_SIZE = 512"

record vfile =
  file_refcount :: u32

record filedesc =
  fd_file :: u64
  fd_refcount :: u32

record filetable =
  file_table :: "u64 list"
  file_count :: u32
  ft_refcount :: u32

record vfs = vmm +
  files :: "u64 \<Rightarrow> vfile option"
  filedescs :: "u64 \<Rightarrow> filedesc option"
  filetables :: "u64 \<Rightarrow> filetable option"

definition deref :: "('s \<Rightarrow> u64 \<Rightarrow> 'o option) \<Rightarrow> u64 \<Rightarrow> 's \<Rightarrow> error + 'o" where
  "deref m h s = (case m s h of None \<Rightarrow> Inl BadAccess | Some x \<Rightarrow> Inr x)"

lemma deref_simps [simp]:
  "m s h = Some x \<Longrightarrow> deref m h s = Inr x"
  "m s h = None \<Longrightarrow> deref m h s = Inl BadAccess"
  "deref m h s = Inr x \<longleftrightarrow> m s h = Some x"
  by (auto simp: deref_def split: option.splits)

section \<open>Operations\<close>

definition file_reference :: "u64 \<Rightarrow> 'a vfs_scheme \<Rightarrow> error + 'a vfs_scheme" where
  "file_reference h s =
     (if h = 0 then Inr s
      else bindE (deref files h s) (\<lambda>f.
      Inr (s\<lparr>files := (files s)(h \<mapsto> f\<lparr>file_refcount := file_refcount f + 1\<rparr>)\<rparr>)))"

definition file_release :: "u64 \<Rightarrow> 'a vfs_scheme \<Rightarrow> error + 'a vfs_scheme" where
  "file_release h s =
     (if h = 0 then Inr s
      else bindE (deref files h s) (\<lambda>f.
      let refcount = file_refcount f;
          s = s\<lparr>files := (files s)(h \<mapsto> f\<lparr>file_refcount := refcount - 1\<rparr>)\<rparr>
      in if refcount = 1 then Inr (s\<lparr>files := (files s)(h := None)\<rparr>) else Inr s))"

definition filedesc_reference :: "u64 \<Rightarrow> 'a vfs_scheme \<Rightarrow> error + 'a vfs_scheme" where
  "filedesc_reference h s =
     (if h = 0 then Inr s
      else bindE (deref filedescs h s) (\<lambda>fd.
      Inr (s\<lparr>filedescs := (filedescs s)(h \<mapsto> fd\<lparr>fd_refcount := fd_refcount fd + 1\<rparr>)\<rparr>)))"

definition filedesc_release :: "u64 \<Rightarrow> 'a vfs_scheme \<Rightarrow> error + 'a vfs_scheme" where
  "filedesc_release h s =
     (if h = 0 then Inr s
      else bindE (deref filedescs h s) (\<lambda>fd.
      let refcount = fd_refcount fd;
          s = s\<lparr>filedescs := (filedescs s)(h \<mapsto> fd\<lparr>fd_refcount := refcount - 1\<rparr>)\<rparr>
      in if refcount = 1 then
           bindE (file_release (fd_file fd) s) (\<lambda>s.
           Inr (s\<lparr>filedescs := (filedescs s)(h := None)\<rparr>))
         else Inr s))"

definition filetable_reference :: "u64 \<Rightarrow> 'a vfs_scheme \<Rightarrow> error + 'a vfs_scheme" where
  "filetable_reference h s =
     (if h = 0 then Inr s
      else bindE (deref filetables h s) (\<lambda>ft.
      Inr (s\<lparr>filetables := (filetables s)(h \<mapsto> ft\<lparr>ft_refcount := ft_refcount ft + 1\<rparr>)\<rparr>)))"

definition filetable_release :: "u64 \<Rightarrow> 'a vfs_scheme \<Rightarrow> error + 'a vfs_scheme" where
  "filetable_release h s =
     (if h = 0 then Inr s
      else bindE (deref filetables h s) (\<lambda>ft.
      let refcount = ft_refcount ft;
          s = s\<lparr>filetables := (filetables s)(h \<mapsto> ft\<lparr>ft_refcount := refcount - 1\<rparr>)\<rparr>
      in if refcount = 1 then
           bindE (for_up (\<lambda>i s.
             if unat i < length (file_table ft) then filedesc_release (file_table ft ! unat i) s
             else Inl BadAccess) 0 (file_count ft) s) (\<lambda>s.
           Inr (s\<lparr>filetables := (filetables s)(h := None)\<rparr>))
         else Inr s))"

definition file_create :: "u64 \<Rightarrow> 'a vfs_scheme \<Rightarrow> u64 \<times> 'a vfs_scheme" where
  "file_create new s = (new, s\<lparr>files := (files s)(new \<mapsto> \<lparr>file_refcount = 1\<rparr>)\<rparr>)"

definition filedesc_create :: "u64 \<Rightarrow> u64 \<Rightarrow> 'a vfs_scheme \<Rightarrow> error + (u64 \<times> 'a vfs_scheme)" where
  "filedesc_create new h s =
     bindE (file_reference h s) (\<lambda>s.
     Inr (new, s\<lparr>filedescs := (filedescs s)(new \<mapsto> \<lparr>fd_file = h, fd_refcount = 1\<rparr>)\<rparr>))"

definition filetable_create :: "u64 \<Rightarrow> u32 \<Rightarrow> 'a vfs_scheme \<Rightarrow> error + (u64 \<times> 'a vfs_scheme)" where
  "filetable_create new sz s =
     (if sz > FILETABLE_MAX_SIZE then Inl (Panic ''filetable_create called with huge size'')
      else Inr (new, s\<lparr>filetables := (filetables s)(new \<mapsto>
             \<lparr>file_table = replicate (unat sz) 0, file_count = 0, ft_refcount = 1\<rparr>)\<rparr>))"

end
