(* ===== verification/Task.thy ===== *)
theory Task
  imports Vfs Locks
begin

unbundle bit_operations_syntax

text \<open>
  Tasks and processes, \<open>src/src/kernel/task.c\<close>: the task and process structures, the run queue
  (a circular doubly linked list through the tasks themselves), kernel stacks and their free
  list, interrupt vectors, creation, restart, reference counts and destruction.

  Pointers to tasks and processes are handles into the maps of live structures. The registers a
  context switch saves and loads are \<open>cpu\<close>; what the C code between two switches computes in them is
  not represented, so the operations of the model leave them alone. The interrupt controller is the set of lines \<open>unmask_interrupt\<close> has enabled.
\<close>

section \<open>Constants and state\<close>

definition TASK_CAN_EXIT :: u32 where "TASK_CAN_EXIT = 1"
definition TASK_LINKED :: u32 where "TASK_LINKED = 2"
definition TASK_IRQ_HANDLER :: u32 where "TASK_IRQ_HANDLER = 4"
definition TASK_PREEMPT :: u32 where "TASK_PREEMPT = 8"
definition TASK_MASK_NEXT_IRQ :: u32 where "TASK_MASK_NEXT_IRQ = 16"
definition TASK_HAS_EXITED :: u32 where "TASK_HAS_EXITED = 32"
definition TASK_WAS_LINKED :: u32 where "TASK_WAS_LINKED = 64"
definition TASK_HAS_CRASHED :: u32 where "TASK_HAS_CRASHED = 128"
definition TASK_RESTART_ON_EXIT :: u32 where "TASK_RESTART_ON_EXIT = 256"
definition TASK_SPAWN :: u32 where "TASK_SPAWN = 512"
definition TASK_FROM_PROC :: u32 where "TASK_FROM_PROC = 1024"
definition TASK_PLEASE_DEREF :: u32 where "TASK_PLEASE_DEREF = 2048"

definition TASK_TYPE_MASK :: u32 where
  "TASK_TYPE_MASK = TASK_IRQ_HANDLER OR TASK_PREEMPT OR TASK_LINKED OR TASK_CAN_EXIT OR TASK_RESTART_ON_EXIT OR TASK_SPAWN"

definition KERN_STACK_SIZE :: u64 where "KERN_STACK_SIZE = 0x8000"

text \<open>Addresses of kernel symbols: the scheduler's task structure and the entry stub.\<close>

definition sched_task :: u64 where "sched_task = 0x10"
definition task_entry_pc :: u64 where "task_entry_pc = 4"

record task =
  \<comment> \<open>before \<open>anchor\<close>: cleared when the task is registered or restarted; \<open>t_fp\<close> holds the slots of d8 to d15\<close>
  t_x :: "nat \<Rightarrow> u64"
  t_fp :: "nat \<Rightarrow> u64"
  t_spsel1 :: u64
  t_lr :: u64
  t_sp :: u64
  runcnt :: u64
  cpsr :: u64
  exception_stack :: u64
  t_ttbr1 :: u64
  t_ttbr0 :: u64
  irq_ret :: u64
  irq_count :: u64
  irq_type :: u32
  wait_until :: u64
  eq_next :: u64
  \<comment> \<open>from \<open>anchor\<close> on\<close>
  el0_exception_stack :: u64
  t_name :: string
  t_flags :: u32
  t_next :: u64
  t_prev :: u64
  exit_callback :: u64
  t_refcount :: u32
  critical_count :: u32
  fault_catch :: u64
  t_vm_space :: u64
  user_stack :: u64
  entry_stack :: u64
  kernel_stack :: u64
  exception_stack_top :: u64
  t_entry :: u64
  t_pid :: u32
  gencount :: u32
  task_lock :: u64
  t_proc :: u64
  proc_task_list_next :: u64

record proc =
  p_refcount :: u32
  p_file_table :: u64
  p_vm_space :: u64
  p_name :: string
  task_list :: u64
  p_lock :: u64

text \<open>The registers of the CPU: x0 to x29, x30, the two stack pointers and which of them is selected,
  d8 to d15.\<close>

record cpu_regs =
  x_regs :: "nat \<Rightarrow> u64"
  lr_reg :: u64
  sp_el0 :: u64
  sp_el1 :: u64
  spsel :: bool
  d_regs :: "nat \<Rightarrow> u64"

record kern = vfs +
  tasks :: "u64 \<Rightarrow> task option"
  procs :: "u64 \<Rightarrow> proc option"
  task_current :: u64
  ttbr1_el1 :: u64
  pongo_sched_head :: u64
  irqvecs :: "u64 list"
  irq_unmasked :: "u32 set"
  served_irqs :: u64
  gPid :: u32
  stack_freelist :: u64
  preempt_ctr :: u32
  preemption_counter :: u64
  preemption_over :: bool
  events :: "u64 \<Rightarrow> u64"
  cpu :: cpu_regs

definition has_flag :: "task \<Rightarrow> u32 \<Rightarrow> bool" where "has_flag t f \<longleftrightarrow> t_flags t AND f \<noteq> 0"
definition set_flag :: "u32 \<Rightarrow> task \<Rightarrow> task" where "set_flag f t = t\<lparr>t_flags := t_flags t OR f\<rparr>"
definition clear_flag :: "u32 \<Rightarrow> task \<Rightarrow> task" where "clear_flag f t = t\<lparr>t_flags := t_flags t AND NOT f\<rparr>"

definition upd_task :: "u64 \<Rightarrow> (task \<Rightarrow> task) \<Rightarrow> 'a kern_scheme \<Rightarrow> error + 'a kern_scheme" where
  "upd_task h f s = bindE (deref tasks h s) (\<lambda>t. Inr (s\<lparr>tasks := (tasks s)(h \<mapsto> f t)\<rparr>))"

definition upd_proc :: "u64 \<Rightarrow> (proc \<Rightarrow> proc) \<Rightarrow> 'a kern_scheme \<Rightarrow> error + 'a kern_scheme" where
  "upd_proc h f s = bindE (deref procs h s) (\<lambda>p. Inr (s\<lparr>procs := (procs s)(h \<mapsto> f p)\<rparr>))"

text \<open>A critical section.\<close>

definition critical :: "('a kern_scheme \<Rightarrow> error + 'a kern_scheme) \<Rightarrow> 'a kern_scheme \<Rightarrow> error + 'a kern_scheme" where
  "critical body s =
     bindE (disable_interrupts s) (\<lambda>s. bindE (body s) enable_interrupts)"

section \<open>The run queue\<close>

definition task_link :: "u64 \<Rightarrow> 'a kern_scheme \<Rightarrow> error + 'a kern_scheme" where
  "task_link h = critical (\<lambda>s.
     bindE (upd_task h (clear_flag TASK_HAS_EXITED) s) (\<lambda>s.
     bindE (deref tasks h s) (\<lambda>t.
     bindE (if \<not> has_flag t TASK_WAS_LINKED then
              bindE (if pongo_sched_head s \<noteq> 0 then
                       bindE (upd_task h (\<lambda>t. t\<lparr>t_prev := pongo_sched_head s\<rparr>) s) (\<lambda>s.
                       bindE (deref tasks (pongo_sched_head s) s) (\<lambda>hd.
                       bindE (upd_task h (\<lambda>t. t\<lparr>t_next := t_next hd\<rparr>) s) (\<lambda>s.
                       bindE (upd_task (pongo_sched_head s) (\<lambda>t. t\<lparr>t_next := h\<rparr>) s) (\<lambda>s.
                       bindE (deref tasks h s) (\<lambda>t.
                       upd_task (t_next t) (\<lambda>t. t\<lparr>t_prev := h\<rparr>) s)))))
                     else upd_task h (\<lambda>t. t\<lparr>t_prev := h, t_next := h\<rparr>) s) (\<lambda>s.
              upd_task h (set_flag TASK_WAS_LINKED) (s\<lparr>pongo_sched_head := h\<rparr>))
            else Inr s) (\<lambda>s.
     upd_task h (set_flag TASK_LINKED) s))))"

definition task_real_unlink :: "u64 \<Rightarrow> 'a kern_scheme \<Rightarrow> error + 'a kern_scheme" where
  "task_real_unlink h = critical (\<lambda>s.
     bindE (deref tasks h s) (\<lambda>t.
     if has_flag t TASK_WAS_LINKED then
       let s = (if h = pongo_sched_head s then
                  s\<lparr>pongo_sched_head := if h = t_next t then 0 else t_next t\<rparr>
                else s)
       in bindE (upd_task (t_prev t) (\<lambda>p. p\<lparr>t_next := t_next t\<rparr>) s) (\<lambda>s.
          bindE (deref tasks h s) (\<lambda>t.
          bindE (upd_task (t_next t) (\<lambda>n. n\<lparr>t_prev := t_prev t\<rparr>) s) (\<lambda>s.
          upd_task h (clear_flag (TASK_WAS_LINKED OR TASK_LINKED)) s)))
     else Inr s))"

definition task_unlink :: "u64 \<Rightarrow> 'a kern_scheme \<Rightarrow> error + 'a kern_scheme" where
  "task_unlink h = critical (upd_task h (clear_flag TASK_LINKED))"

definition task_set_sched_head :: "u64 \<Rightarrow> 'a kern_scheme \<Rightarrow> error + 'a kern_scheme" where
  "task_set_sched_head h = critical (\<lambda>s.
     bindE (deref tasks h s) (\<lambda>t.
     bindE (panic_if (\<not> has_flag t TASK_LINKED) ''task was not linked but was asked to move to head of schedqueue'') (\<lambda>_.
     Inr (s\<lparr>pongo_sched_head := h\<rparr>))))"

section \<open>Kernel stacks\<close>

text \<open>Words at kernel virtual addresses, through the kernel's tables.\<close>

definition kva_load :: "u64 \<Rightarrow> 'a kern_scheme \<Rightarrow> error + u64" where
  "kva_load va s = bindE (va_to_pa va s) (\<lambda>pa. Inr (pmem s pa))"

definition kva_store :: "u64 \<Rightarrow> u64 \<Rightarrow> 'a kern_scheme \<Rightarrow> error + 'a kern_scheme" where
  "kva_store va v s = bindE (va_to_pa va s) (\<lambda>pa. Inr (s\<lparr>pmem := (pmem s)(pa := v)\<rparr>))"

definition map_stack_page :: "u64 \<Rightarrow> u64 \<Rightarrow> u64 \<Rightarrow> 'a kern_scheme \<Rightarrow> error + 'a kern_scheme" where
  "map_stack_page vma_backing phys_backing offset s =
     vm_space_map_page_physical_prot kernel_vm_space (vma_backing + PAGE_SIZE + offset) (phys_backing + offset)
       (PROT_READ OR PROT_WRITE OR PROT_KERN_ONLY) s"

definition kernel_stack_allocate_new :: "'a kern_scheme \<Rightarrow> error + (u64 \<times> 'a kern_scheme)" where
  "kernel_stack_allocate_new s =
     bindE (alloc_phys (ucast KERN_STACK_SIZE) s) (\<lambda>(phys_backing, s).
     bindE (linear_kvm_alloc (ucast (KERN_STACK_SIZE + 2 * PAGE_SIZE)) s) (\<lambda>(vma_backing, s).
     bindE (vm_space_map_page_physical_prot kernel_vm_space vma_backing 0 0 s) (\<lambda>s.
     bindE (map_stack_page vma_backing phys_backing 0 s) (\<lambda>s.
     bindE (map_stack_page vma_backing phys_backing PAGE_SIZE s) (\<lambda>s.
     bindE (vm_space_map_page_physical_prot kernel_vm_space (vma_backing + KERN_STACK_SIZE + PAGE_SIZE) 0 0 s) (\<lambda>s.
     Inr (vma_backing + PAGE_SIZE + KERN_STACK_SIZE - 0x400, s)))))))"

definition kernel_stack_allocate :: "'a kern_scheme \<Rightarrow> error + (u64 \<times> 'a kern_scheme)" where
  "kernel_stack_allocate s =
     bindE (disable_interrupts s) (\<lambda>s.
     bindE (if stack_freelist s \<noteq> 0 then
              bindE (kva_load (stack_freelist s) s) (\<lambda>nxt.
              Inr (stack_freelist s, s\<lparr>stack_freelist := nxt\<rparr>))
            else kernel_stack_allocate_new s) (\<lambda>(stack, s).
     bindE (enable_interrupts s) (\<lambda>s. Inr (stack, s))))"

definition kernel_stack_free :: "u64 \<Rightarrow> 'a kern_scheme \<Rightarrow> error + 'a kern_scheme" where
  "kernel_stack_free stack = critical (\<lambda>s.
     bindE (kva_store stack (stack_freelist s) s) (\<lambda>s.
     Inr (s\<lparr>stack_freelist := stack\<rparr>)))"

definition task_alloc_fast_stacks :: "u64 \<Rightarrow> 'a kern_scheme \<Rightarrow> error + 'a kern_scheme" where
  "task_alloc_fast_stacks h s =
     bindE (deref tasks h s) (\<lambda>t.
     bindE (if kernel_stack t = 0 then
              bindE (kernel_stack_allocate s) (\<lambda>(stk, s). upd_task h (\<lambda>t. t\<lparr>kernel_stack := stk\<rparr>) s)
            else Inr s) (\<lambda>s.
     bindE (deref tasks h s) (\<lambda>t.
     bindE (if exception_stack_top t = 0 then
              bindE (kernel_stack_allocate s) (\<lambda>(stk, s). upd_task h (\<lambda>t. t\<lparr>exception_stack_top := stk\<rparr>) s)
            else Inr s) (\<lambda>s.
     upd_task h (\<lambda>t. t\<lparr>exception_stack := exception_stack_top t AND NOT 0xf,
                       el0_exception_stack := kernel_stack t AND NOT 0xf\<rparr>) s))))"

section \<open>Interrupt vectors and reference counts\<close>

definition task_reference :: "u64 \<Rightarrow> 'a kern_scheme \<Rightarrow> error + 'a kern_scheme" where
  "task_reference h s =
     (if h = 0 then Inr s
      else bindE (deref tasks h s) (\<lambda>t.
      if t_refcount t = TASK_REFCOUNT_GLOBAL then Inr s
      else upd_task h (\<lambda>t. t\<lparr>t_refcount := t_refcount t + 1\<rparr>) s))"

definition proc_reference :: "u64 \<Rightarrow> 'a kern_scheme \<Rightarrow> error + 'a kern_scheme" where
  "proc_reference h s =
     (if h = 0 then Inr s else upd_proc h (\<lambda>p. p\<lparr>p_refcount := p_refcount p + 1\<rparr>) s)"

text \<open>Removing a task from the list of its process. \<open>el\<close> is where the pointer under
  inspection is stored: in the process (\<open>None\<close>) or in the task before. The first argument
  bounds the walk.\<close>

primrec proc_list_remove :: "nat \<Rightarrow> u64 \<Rightarrow> u64 option \<Rightarrow> u64 \<Rightarrow> u64 \<Rightarrow> 'a kern_scheme \<Rightarrow> error + 'a kern_scheme" where
  "proc_list_remove 0 p el cur h s = Inl OutOfFuel"
| "proc_list_remove (Suc n) p el cur h s =
     (if cur = 0 then Inr s
      else bindE (deref tasks cur s) (\<lambda>c.
      if cur = h then
        (case el of
           None \<Rightarrow> upd_proc p (\<lambda>p. p\<lparr>task_list := proc_task_list_next c\<rparr>) s
         | Some q \<Rightarrow> upd_task q (\<lambda>t. t\<lparr>proc_task_list_next := proc_task_list_next c\<rparr>) s)
      else proc_list_remove n p (Some cur) (proc_task_list_next c) h s))"

text \<open>Dropping the last reference of a task destroys it; that may drop the last reference of
  its process, which releases the process's tasks. The first argument bounds the recursion
  and the walks.\<close>

fun task_release :: "nat \<Rightarrow> u64 \<Rightarrow> 'a kern_scheme \<Rightarrow> error + 'a kern_scheme"
  and proc_release :: "nat \<Rightarrow> u64 \<Rightarrow> 'a kern_scheme \<Rightarrow> error + 'a kern_scheme"
  and proc_release_tasks :: "nat \<Rightarrow> u64 \<Rightarrow> 'a kern_scheme \<Rightarrow> error + 'a kern_scheme" where
  "task_release 0 h s = Inl OutOfFuel"
| "task_release (Suc n) h s =
     (if h = 0 then Inr s
      else bindE (deref tasks h s) (\<lambda>t.
      if t_refcount t = TASK_REFCOUNT_GLOBAL then Inr s
      else let refcount = t_refcount t in
        bindE (upd_task h (\<lambda>t. t\<lparr>t_refcount := t_refcount t - 1\<rparr>) s) (\<lambda>s.
        if refcount = 1 then
          critical (\<lambda>s.
            bindE (panic_if (task_current s = h) ''trying to free the current task'') (\<lambda>_.
            bindE (if t_proc t \<noteq> 0 then
                     bindE (deref procs (t_proc t) s) (\<lambda>p. proc_list_remove n (t_proc t) None (task_list p) h s)
                   else Inr s) (\<lambda>s.
            bindE (kernel_stack_free (kernel_stack t) s) (\<lambda>s.
            bindE (kernel_stack_free (exception_stack_top t) s) (\<lambda>s.
            bindE (vm_deallocate (t_vm_space t) (user_stack t) 0x40000 s) (\<lambda>(_, s).
            bindE (task_real_unlink h s) (\<lambda>s.
            bindE (vm_release n (t_vm_space t) s) (\<lambda>s.
            bindE (proc_release n (t_proc t) s) (\<lambda>s.
            Inr (s\<lparr>tasks := (tasks s)(h := None)\<rparr>)))))))))) s
        else Inr s)))"
| "proc_release 0 h s = Inl OutOfFuel"
| "proc_release (Suc n) h s =
     (if h = 0 then Inr s
      else bindE (deref procs h s) (\<lambda>p.
      let refcount = p_refcount p in
        bindE (upd_proc h (\<lambda>p. p\<lparr>p_refcount := p_refcount p - 1\<rparr>) s) (\<lambda>s.
        if refcount = 1 then
          bindE (proc_release_tasks n (task_list p) s) (\<lambda>s.
          bindE (vm_release n (p_vm_space p) s) (\<lambda>s.
          bindE (filetable_release (p_file_table p) s) (\<lambda>s.
          Inr (s\<lparr>procs := (procs s)(h := None)\<rparr>))))
        else Inr s)))"
| "proc_release_tasks 0 h s = Inl OutOfFuel"
| "proc_release_tasks (Suc n) h s =
     (if h = 0 then Inr s
      else bindE (deref tasks h s) (\<lambda>t.
      bindE (upd_task h (\<lambda>t. t\<lparr>proc_task_list_next := 0\<rparr>) s) (\<lambda>s.
      bindE (task_release n h s) (\<lambda>s.
      proc_release_tasks n (proc_task_list_next t) s))))"

declare task_release.simps [simp del] proc_release.simps [simp del] proc_release_tasks.simps [simp del]

definition unmask_interrupt :: "u32 \<Rightarrow> 'a kern_scheme \<Rightarrow> 'a kern_scheme" where
  "unmask_interrupt irq s = s\<lparr>irq_unmasked := insert irq (irq_unmasked s)\<rparr>"

definition register_irq_handler :: "nat \<Rightarrow> u16 \<Rightarrow> u64 \<Rightarrow> 'a kern_scheme \<Rightarrow> error + 'a kern_scheme" where
  "register_irq_handler n irq_v irq_handler s =
     bindE (panic_if (irq_v \<ge> 0x1ff) ''invalid irq'') (\<lambda>_.
     bindE (if irqvecs s ! unat irq_v \<noteq> 0 then task_release n (irqvecs s ! unat irq_v) s else Inr s) (\<lambda>s.
     bindE (if irq_handler \<noteq> 0 then task_reference irq_handler s else Inr s) (\<lambda>s.
     Inr (s\<lparr>irqvecs := (irqvecs s)[unat irq_v := irq_handler]\<rparr>))))"

definition task_bind_to_irq :: "nat \<Rightarrow> u64 \<Rightarrow> u32 \<Rightarrow> 'a kern_scheme \<Rightarrow> error + 'a kern_scheme" where
  "task_bind_to_irq n h irq_id = critical (\<lambda>s.
     bindE (register_irq_handler n (ucast irq_id) h s) (\<lambda>s.
     Inr (unmask_interrupt irq_id s)))"

section \<open>Creating and restarting tasks\<close>

definition clear_context :: "task \<Rightarrow> task" where
  "clear_context t = t\<lparr>t_x := \<lambda>_. 0, t_fp := \<lambda>_. 0, t_spsel1 := 0, t_lr := 0, t_sp := 0, runcnt := 0, cpsr := 0, exception_stack := 0, t_ttbr1 := 0,
     t_ttbr0 := 0, irq_ret := 0, irq_count := 0, irq_type := 0, wait_until := 0, eq_next := 0\<rparr>"

definition task_set_entry :: "u64 \<Rightarrow> 'a kern_scheme \<Rightarrow> error + 'a kern_scheme" where
  "task_set_entry h s =
     bindE (task_alloc_fast_stacks h s) (\<lambda>s.
     bindE (deref tasks h s) (\<lambda>t.
     bindE (get_space (t_vm_space t) s) (\<lambda>sp.
     upd_task h (\<lambda>t. t\<lparr>t_lr := task_entry_pc, t_sp := kernel_stack t AND NOT 0xf,
                       t_ttbr0 := ttbr0 sp, t_ttbr1 := ttbr1 sp OR asid sp\<rparr>) s)))"

definition task_restart :: "u64 \<Rightarrow> 'a kern_scheme \<Rightarrow> error + 'a kern_scheme" where
  "task_restart h = critical (\<lambda>s.
     bindE (upd_task h clear_context s) (\<lambda>s.
     bindE (task_set_entry h s) (\<lambda>s.
     upd_task h (\<lambda>t. clear_flag (TASK_HAS_EXITED OR TASK_HAS_CRASHED) (t\<lparr>gencount := gencount t + 1\<rparr>)) s)))"

definition task_restart_and_link :: "u64 \<Rightarrow> 'a kern_scheme \<Rightarrow> error + 'a kern_scheme" where
  "task_restart_and_link h = critical (\<lambda>s. bindE (task_restart h s) (task_link h))"

definition inherit_space :: "u64 \<Rightarrow> u64 \<Rightarrow> 'a kern_scheme \<Rightarrow> error + 'a kern_scheme" where
  "inherit_space h vs s = bindE (vm_reference vs s) (upd_task h (\<lambda>t. t\<lparr>t_vm_space := vs\<rparr>))"

definition task_register_unlinked :: "u64 \<Rightarrow> u64 \<Rightarrow> 'a kern_scheme \<Rightarrow> error + 'a kern_scheme" where
  "task_register_unlinked h ent s =
     bindE (upd_task h clear_context s) (\<lambda>s.
     bindE (deref tasks h s) (\<lambda>t.
     bindE (if t_proc t \<noteq> 0 then
              if t_vm_space t = 0 then bindE (deref procs (t_proc t) s) (\<lambda>p. inherit_space h (p_vm_space p) s)
              else Inr s
            else
              bindE (if t_vm_space t = 0 then bindE (deref tasks (task_current s) s) (\<lambda>c. inherit_space h (t_vm_space c) s)
                     else Inr s) (\<lambda>s.
              bindE (deref tasks (task_current s) s) (\<lambda>c.
              bindE (upd_task h (\<lambda>t. t\<lparr>t_proc := t_proc c\<rparr>) s) (proc_reference (t_proc c))))) (\<lambda>s.
     bindE (upd_task h (\<lambda>t. t\<lparr>t_refcount := TASK_REFCOUNT_GLOBAL\<rparr>) s) (\<lambda>s.
     bindE (task_set_entry h s) (\<lambda>s.
     bindE (upd_task h (\<lambda>t. set_flag TASK_PREEMPT (t\<lparr>t_entry := ent,
                t_flags := t_flags t AND (TASK_WAS_LINKED OR TASK_HAS_EXITED), gencount := 0\<rparr>)) s) (\<lambda>s.
     critical (\<lambda>s.
       bindE (upd_task h (\<lambda>t. t\<lparr>t_pid := gPid s\<rparr>) s) (\<lambda>s. Inr (s\<lparr>gPid := gPid s + 1\<rparr>))) s))))))"

definition task_register_irq :: "nat \<Rightarrow> u64 \<Rightarrow> u64 \<Rightarrow> u32 \<Rightarrow> 'a kern_scheme \<Rightarrow> error + 'a kern_scheme" where
  "task_register_irq n h ent irq_id = critical (\<lambda>s.
     bindE (task_register_unlinked h ent s) (\<lambda>s.
     bindE (upd_task h (clear_flag TASK_PREEMPT \<circ> set_flag TASK_IRQ_HANDLER) s) (\<lambda>s.
     bindE (register_irq_handler n (ucast irq_id) h s) (\<lambda>s.
     Inr (unmask_interrupt irq_id s)))))"

definition task_register_preempt_irq :: "nat \<Rightarrow> u64 \<Rightarrow> u64 \<Rightarrow> u32 \<Rightarrow> 'a kern_scheme \<Rightarrow> error + 'a kern_scheme" where
  "task_register_preempt_irq n h ent irq_id = critical (\<lambda>s.
     bindE (task_register_unlinked h ent s) (\<lambda>s.
     bindE (upd_task h (set_flag TASK_PREEMPT \<circ> set_flag TASK_IRQ_HANDLER) s) (\<lambda>s.
     bindE (register_irq_handler n (ucast irq_id) h s) (\<lambda>s.
     Inr (unmask_interrupt irq_id s)))))"

definition task_register :: "u64 \<Rightarrow> u64 \<Rightarrow> 'a kern_scheme \<Rightarrow> error + 'a kern_scheme" where
  "task_register h ent = critical (\<lambda>s.
     bindE (task_register_unlinked h ent s) (\<lambda>s.
     bindE (upd_task h (set_flag (TASK_PREEMPT OR TASK_CAN_EXIT)) s) (task_link h)))"

definition task_register_coop :: "u64 \<Rightarrow> u64 \<Rightarrow> 'a kern_scheme \<Rightarrow> error + 'a kern_scheme" where
  "task_register_coop h ent = critical (\<lambda>s.
     bindE (task_register_unlinked h ent s) (\<lambda>s.
     bindE (upd_task h (set_flag TASK_CAN_EXIT \<circ> clear_flag TASK_PREEMPT) s) (task_link h)))"

definition zero_task :: task where
  "zero_task = \<lparr>t_x = \<lambda>_. 0, t_fp = \<lambda>_. 0, t_spsel1 = 0, t_lr = 0, t_sp = 0, runcnt = 0, cpsr = 0, exception_stack = 0, t_ttbr1 = 0, t_ttbr0 = 0,
     irq_ret = 0, irq_count = 0, irq_type = 0, wait_until = 0, eq_next = 0, el0_exception_stack = 0,
     t_name = [], t_flags = 0, t_next = 0, t_prev = 0, exit_callback = 0, t_refcount = 0, critical_count = 0,
     fault_catch = 0, t_vm_space = 0, user_stack = 0, entry_stack = 0, kernel_stack = 0,
     exception_stack_top = 0, t_entry = 0, t_pid = 0, gencount = 0, task_lock = 0, t_proc = 0,
     proc_task_list_next = 0\<rparr>"

text \<open>\<open>new\<close> is what \<open>malloc\<close> returns; \<open>strncpy\<close> keeps at most 32 characters.\<close>

definition task_create :: "u64 \<Rightarrow> string \<Rightarrow> u64 \<Rightarrow> 'a kern_scheme \<Rightarrow> error + (u64 \<times> 'a kern_scheme)" where
  "task_create new nm ent s =
     bindE (critical (\<lambda>s.
       bindE (task_register new ent (s\<lparr>tasks := (tasks s)(new \<mapsto> zero_task)\<rparr>)) (\<lambda>s.
       upd_task new (\<lambda>t. t\<lparr>t_name := take 32 nm, t_refcount := 1\<rparr>) s)) s) (\<lambda>s. Inr (new, s))"

text \<open>Locks of structures: uncontended, or the caller blocks and the model stops.\<close>

definition take_lock :: "u64 \<Rightarrow> 'a kern_scheme \<Rightarrow> error + u64" where
  "take_lock l s = lock_take (dis_int_count s) (preemption_over s) 2 (\<lambda>_ l. l) (task_current s) l"

definition task_spawn :: "u64 \<Rightarrow> u64 \<Rightarrow> 'a kern_scheme \<Rightarrow> error + 'a kern_scheme" where
  "task_spawn new_space h s =
     bindE (deref tasks h s) (\<lambda>t.
     bindE (take_lock (task_lock t) s) (\<lambda>l.
     bindE (upd_task h (\<lambda>t. t\<lparr>task_lock := l\<rparr>) s) (\<lambda>s.
     bindE (vm_create new_space (t_vm_space t) s) (\<lambda>(vs, s).
     bindE (get_space vs s) (\<lambda>sp.
     bindE (upd_task h (\<lambda>t. t\<lparr>t_vm_space := vs, user_stack := 0, t_ttbr0 := ttbr0 sp,
                              t_ttbr1 := ttbr1 sp OR asid sp\<rparr>) s) (\<lambda>s.
     critical (\<lambda>s. upd_task h (\<lambda>t. t\<lparr>task_lock := lock_release (task_current s) (task_lock t)\<rparr>) s) s))))))"

definition task_create_extended ::
  "nat \<Rightarrow> u64 \<Rightarrow> u64 \<Rightarrow> string \<Rightarrow> u64 \<Rightarrow> u32 \<Rightarrow> u64 \<Rightarrow> 'a kern_scheme \<Rightarrow> error + (u64 \<times> 'a kern_scheme)" where
  "task_create_extended n new new_space nm ent task_type arg s =
     bindE (deref tasks (task_current s) s) (\<lambda>cur.
     let from_proc = (task_type AND TASK_FROM_PROC \<noteq> 0);
         p = (if from_proc then arg else t_proc cur);
         arg = (if from_proc then 0 else arg);
         task_type = task_type AND TASK_TYPE_MASK
     in bindE (proc_reference p (s\<lparr>tasks := (tasks s)(new \<mapsto> zero_task)\<rparr>)) (\<lambda>s.
        bindE (upd_task new (\<lambda>t. t\<lparr>t_proc := p\<rparr>) s) (\<lambda>s.
        bindE (task_register_unlinked new ent s) (\<lambda>s.
        bindE (upd_task new (\<lambda>t.
                 let t = set_flag (task_type AND NOT TASK_LINKED) (t\<lparr>t_name := take 32 nm\<rparr>);
                     t = clear_flag TASK_PREEMPT t;
                     t = (if task_type AND TASK_PREEMPT \<noteq> 0 then set_flag TASK_PREEMPT t else t)
                 in t\<lparr>t_refcount := 1\<rparr>) s) (\<lambda>s.
        bindE (if task_type AND TASK_SPAWN \<noteq> 0 then
                 bindE (panic_if (task_type AND TASK_IRQ_HANDLER \<noteq> 0) ''irq handlers must be bound to the kernel vmspace'')
                   (\<lambda>_. task_spawn new_space new s)
               else Inr s) (\<lambda>s.
        bindE (if task_type AND TASK_IRQ_HANDLER \<noteq> 0 \<and> arg \<noteq> 0 then
                 critical (\<lambda>s. bindE (register_irq_handler n (ucast arg) new s) (\<lambda>s.
                               Inr (unmask_interrupt (ucast arg) s))) s
               else if task_type AND TASK_LINKED \<noteq> 0 then critical (task_link new) s
               else Inr s) (\<lambda>s.
        Inr (new, s))))))))"

section \<open>Processes\<close>

definition PROC_NO_VM :: u32 where "PROC_NO_VM = 1"

definition proc_create ::
  "u64 \<Rightarrow> u64 \<Rightarrow> u64 \<Rightarrow> u64 \<Rightarrow> string \<Rightarrow> u32 \<Rightarrow> 'a kern_scheme \<Rightarrow> error + (u64 \<times> 'a kern_scheme)" where
  "proc_create new new_space new_table parent procname flags s =
     bindE (if parent \<noteq> 0 then
              bindE (deref procs parent s) (\<lambda>pp.
              bindE (vm_create new_space (p_vm_space pp) s) (\<lambda>(vs, s).
              bindE (filetable_reference (p_file_table pp) s) (\<lambda>s.
              Inr (p_file_table pp, vs, s))))
            else
              bindE (filetable_create new_table FILETABLE_MAX_SIZE s) (\<lambda>(ft, s).
              if flags AND PROC_NO_VM = 0 then bindE (vm_create new_space 0 s) (\<lambda>(vs, s). Inr (ft, vs, s))
              else Inr (ft, 0, s))) (\<lambda>(ft, vs, s).
     Inr (new, s\<lparr>procs := (procs s)(new \<mapsto> \<lparr>p_refcount = 1, p_file_table = ft, p_vm_space = vs,
        p_name = take 64 procname, task_list = 0, p_lock = 0\<rparr>)\<rparr>))"

definition proc_create_task :: "nat \<Rightarrow> u64 \<Rightarrow> u64 \<Rightarrow> u64 \<Rightarrow> u64 \<Rightarrow> 'a kern_scheme \<Rightarrow> error + (u64 \<times> 'a kern_scheme)" where
  "proc_create_task n new new_space p entryp s =
     bindE (deref procs p s) (\<lambda>pr.
     bindE (task_create_extended n new new_space (p_name pr) entryp
              (TASK_PREEMPT OR TASK_CAN_EXIT OR TASK_FROM_PROC) p s) (\<lambda>(h, s).
     bindE (deref procs p s) (\<lambda>pr.
     bindE (take_lock (p_lock pr) s) (\<lambda>l.
     bindE (upd_task h (\<lambda>t. t\<lparr>proc_task_list_next := task_list pr\<rparr>) s) (\<lambda>s.
     bindE (upd_proc p (\<lambda>p. p\<lparr>task_list := h, p_lock := l\<rparr>) s) (\<lambda>s.
     bindE (critical (\<lambda>s. upd_proc p (\<lambda>p. p\<lparr>p_lock := lock_release (task_current s) (p_lock p)\<rparr>) s) s) (\<lambda>s.
     Inr (h, s))))))))"

section \<open>Entering a task\<close>

definition task_fault_stack :: "u64 \<Rightarrow> 'a kern_scheme \<Rightarrow> error + 'a kern_scheme" where
  "task_fault_stack h s =
     bindE (deref tasks h s) (\<lambda>t.
     if user_stack t = 0 then
       bindE (vm_allocate (t_vm_space t) 0 0x40000 0 s) (\<lambda>(rv, addr, s).
       bindE (panic_if (rv \<noteq> KERN_SUCCESS) ''task_register_unlinked: couldn't allocate stack'') (\<lambda>_.
       bindE (vm_space_map_page_physical_prot (t_vm_space t) addr 0 0 s) (\<lambda>s.
       bindE (vm_space_map_page_physical_prot (t_vm_space t) (addr + 0x3c000) 0 0 s) (\<lambda>s.
       upd_task h (\<lambda>t. t\<lparr>user_stack := addr, entry_stack := addr + 0x37800\<rparr>) s))))
     else Inr s)"

text \<open>What the stub hands to \<open>task_entry_j\<close>: where to jump, on which stack, whether returning
  there exits the task, and the processor state.\<close>

record entry_frame =
  ef_pc :: u64
  ef_stack :: u64
  ef_exits :: bool
  ef_cpsr :: u64

definition task_entry :: "'a kern_scheme \<Rightarrow> error + (entry_frame \<times> 'a kern_scheme)" where
  "task_entry s =
     (let h = task_current s in
      bindE (panic_if (h = 0) ''task_entry: no task'') (\<lambda>_.
      bindE (task_fault_stack h s) (\<lambda>s.
      bindE (deref tasks h s) (\<lambda>t.
      bindE (panic_if (entry_stack t = 0) ''task_entry: no stack'') (\<lambda>_.
      let c = (if t_vm_space t = kernel_vm_space then 4 else 0) in
      bindE (upd_task h (\<lambda>t. t\<lparr>cpsr := c\<rparr>) s) (\<lambda>s.
      Inr (\<lparr>ef_pc = t_entry t, ef_stack = entry_stack t, ef_exits = (t_vm_space t = kernel_vm_space), ef_cpsr = c\<rparr>, s)))))))"

text \<open>Critical sections of a task, which it must not crash in.\<close>

definition task_critical_enter :: "'a kern_scheme \<Rightarrow> error + 'a kern_scheme" where
  "task_critical_enter s =
     (if task_current s = 0 then Inr s
      else upd_task (task_current s) (\<lambda>t. t\<lparr>critical_count := critical_count t + 1\<rparr>) s)"

definition task_critical_exit :: "'a kern_scheme \<Rightarrow> error + 'a kern_scheme" where
  "task_critical_exit s =
     (if task_current s = 0 then Inr s
      else bindE (deref tasks (task_current s) s) (\<lambda>t.
      bindE (panic_if (critical_count t = 0) ''invalid call to task_critical_exit'') (\<lambda>_.
      upd_task (task_current s) (\<lambda>t. t\<lparr>critical_count := critical_count t - 1\<rparr>) s)))"

end
