(* ===== verification/Sched.thy ===== *)
theory Sched
  imports Task
begin

unbundle bit_operations_syntax

text \<open>
  Scheduling and exceptions: context switches (\<open>src/src/kernel/int.S\<close>), yielding, exiting,
  interrupt dispatch and events (\<open>src/src/kernel/task.c\<close>), the scheduler's tick and loop
  (\<open>src/src/kernel/entry.c\<close>), the exception handlers (\<open>src/src/kernel/lowlevel.c\<close>), system calls
  (\<open>src/src/kernel/syscall.c\<close>) and the heap (\<open>src/src/kernel/support/sbrk.c\<close>).

  A switch makes another task current and leaves the C function that called it suspended. An
  operation whose last act is a switch is modelled up to that switch. Where the code goes on
  after it (\<open>pongo_sched_tick\<close>, \<open>task_switch_irq\<close>), \<open>run t\<close> stands for everything that happens
  from the switch to \<open>t\<close> until the suspended function is resumed.
\<close>

record system = kern +
  gBootFlag :: u8
  interruptCount :: u64
  fiqCount :: u64
  is_in_exception :: bool
  heap_cursor :: u64
  heap_end :: u64

section \<open>Context switches\<close>

text \<open>What \<open>_task_switch_asserted\<close> stores in the task it leaves: x2 already holds the task itself, x0
  and x1 are not stored, x16 and x17 are cleared, and the stack pointer stored is that of EL0. The
  store of \<open>spsel\<close> is 32 bits wide.\<close>

definition save_context :: "u64 \<Rightarrow> cpu_regs \<Rightarrow> u64 \<Rightarrow> task \<Rightarrow> task" where
  "save_context self c ttbr t = t\<lparr>
     t_x := (\<lambda>i. if i < 2 then t_x t i else if i = 2 then self else if i = 16 \<or> i = 17 then 0 else x_regs c i),
     t_fp := d_regs c,
     t_spsel1 := (t_spsel1 t AND NOT 0xffffffff) OR (if spsel c then 1 else 0),
     t_lr := lr_reg c, t_sp := sp_el0 c, exception_stack := sp_el1 c, t_ttbr1 := ttbr\<rparr>"

text \<open>What is loaded from the task switched to, when \<open>enable_interrupts\<close> is entered.\<close>

definition load_context :: "task \<Rightarrow> cpu_regs" where
  "load_context t = \<lparr>x_regs = t_x t, lr_reg = t_lr t, sp_el0 = t_sp t, sp_el1 = exception_stack t,
     spsel = bit (t_spsel1 t) 0, d_regs = t_fp t\<rparr>"

definition task_load_asserted :: "u64 \<Rightarrow> 'a kern_scheme \<Rightarrow> error + 'a kern_scheme" where
  "task_load_asserted new s =
     bindE (deref tasks new s) (\<lambda>t.
     bindE (upd_task new (\<lambda>t. t\<lparr>runcnt := runcnt t + 1\<rparr>)
              (s\<lparr>task_current := new, ttbr1_el1 := t_ttbr1 t, cpu := load_context t\<rparr>)) (\<lambda>s.
     enable_interrupts s))"

definition task_switch_asserted :: "u64 \<Rightarrow> 'a kern_scheme \<Rightarrow> error + 'a kern_scheme" where
  "task_switch_asserted new s =
     bindE (upd_task (task_current s) (save_context (task_current s) (cpu s) (ttbr1_el1 s)) s) (task_load_asserted new)"

text \<open>\<open>_task_switch\<close> keeps its arguments in x16 and x17, but calls \<open>disable_interrupts\<close> without keeping
  its own return address: what the switch saves is the address behind that call
  (\<open>kswitch_resume_pc\<close>), so a task that left through it comes back there
  (\<open>kswitch_resumed\<close>) and switches to the task in x16.\<close>

definition kswitch_resume_pc :: u64 where "kswitch_resume_pc = 8"

definition kswitch :: "u64 \<Rightarrow> 'a kern_scheme \<Rightarrow> error + 'a kern_scheme" where
  "kswitch new s =
     bindE (disable_interrupts s) (\<lambda>s.
     task_switch_asserted new (s\<lparr>cpu := (cpu s)\<lparr>x_regs := (x_regs (cpu s))(16 := new, 17 := x_regs (cpu s) 1),
       lr_reg := kswitch_resume_pc\<rparr>\<rparr>))"

definition kswitch_resumed :: "'a kern_scheme \<Rightarrow> error + 'a kern_scheme" where
  "kswitch_resumed s = task_switch_asserted (x_regs (cpu s) 16) s"

definition task_switch :: "u64 \<Rightarrow> 'a kern_scheme \<Rightarrow> error + 'a kern_scheme" where
  "task_switch new s =
     bindE (deref tasks new s) (\<lambda>t.
     if has_flag t TASK_IRQ_HANDLER then Inr s
     else if dis_int_count s \<noteq> 0 then Inr s
     else kswitch new s)"

definition task_yield_asserted :: "'a kern_scheme \<Rightarrow> error + 'a kern_scheme" where
  "task_yield_asserted s = task_switch_asserted sched_task s"

definition task_yield :: "'a kern_scheme \<Rightarrow> error + 'a kern_scheme" where
  "task_yield s =
     (if dis_int_count s \<noteq> 0 then Inr s
      else bindE (disable_interrupts s) (task_switch_asserted sched_task))"

definition task_wait :: "'a kern_scheme \<Rightarrow> error + 'a kern_scheme" where
  "task_wait s =
     bindE (disable_interrupts s) (\<lambda>s.
     bindE (panic_if (dis_int_count s \<noteq> 1) ''task yielded with interrupts held'') (\<lambda>_.
     task_switch_asserted sched_task s))"

text \<open>\<open>task_yield_preemption\<close> up to its switch, and from where it resumes.\<close>

definition task_yield_preemption :: "'a kern_scheme \<Rightarrow> error + 'a kern_scheme" where
  "task_yield_preemption s =
     bindE (disable_interrupts s) (\<lambda>s.
     bindE (panic_if (dis_int_count s \<noteq> 1) ''task yielded with interrupts held'') (\<lambda>_.
     task_switch_asserted sched_task (s\<lparr>preempt_ctr := preempt_ctr s + 1\<rparr>)))"

definition task_yield_preemption_resume :: "'a kern_scheme \<Rightarrow> error + 'a kern_scheme" where
  "task_yield_preemption_resume s =
     bindE (disable_interrupts s) (\<lambda>s.
     bindE (panic_if (dis_int_count s \<noteq> 1) ''sched returned with interrupts held'') (\<lambda>_.
     Inr (s\<lparr>dis_int_count := 0\<rparr>)))"

definition task_suspend_self_asserted :: "'a kern_scheme \<Rightarrow> error + 'a kern_scheme" where
  "task_suspend_self_asserted s = bindE (task_unlink (task_current s) s) task_yield_asserted"

definition task_suspend_self :: "'a kern_scheme \<Rightarrow> error + 'a kern_scheme" where
  "task_suspend_self s = bindE (disable_interrupts s) task_suspend_self_asserted"

section \<open>Exiting\<close>

text \<open>\<open>cb\<close> is the code behind a non-null \<open>exit_callback\<close>.\<close>

definition task_exit_asserted ::
  "(u64 \<Rightarrow> 'a kern_scheme \<Rightarrow> error + 'a kern_scheme) \<Rightarrow> 'a kern_scheme \<Rightarrow> error + 'a kern_scheme" where
  "task_exit_asserted cb s =
     (let h = task_current s in
      bindE (deref tasks h s) (\<lambda>t.
      bindE (if has_flag t TASK_IRQ_HANDLER then
               panic_if True (if has_flag t TASK_HAS_CRASHED then ''irq handler crashed!'' else ''irq handler exited! please use task_irq_exit!'')
             else Inr ()) (\<lambda>_.
      bindE (upd_task h (set_flag TASK_HAS_EXITED) s) (\<lambda>s.
      bindE (panic_if (critical_count t \<noteq> 0) ''crashed in critical section'') (\<lambda>_.
      bindE (panic_if (\<not> has_flag t TASK_CAN_EXIT) ''required task exited!'') (\<lambda>_.
      bindE (task_unlink h s) (\<lambda>s.
      bindE (if exit_callback t \<noteq> 0 then cb (exit_callback t) s else Inr s) (\<lambda>s.
      bindE (deref tasks (task_current s) s) (\<lambda>t.
      bindE (if has_flag t TASK_RESTART_ON_EXIT then task_restart_and_link (task_current s) s
             else upd_task (task_current s) (set_flag TASK_PLEASE_DEREF) s) (\<lambda>s.
      task_load_asserted sched_task s))))))))))"

definition task_exit ::
  "(u64 \<Rightarrow> 'a kern_scheme \<Rightarrow> error + 'a kern_scheme) \<Rightarrow> 'a kern_scheme \<Rightarrow> error + 'a kern_scheme" where
  "task_exit cb s = bindE (disable_interrupts s) (task_exit_asserted cb)"

definition task_crash_asserted ::
  "(u64 \<Rightarrow> 'a kern_scheme \<Rightarrow> error + 'a kern_scheme) \<Rightarrow> 'a kern_scheme \<Rightarrow> error + 'a kern_scheme" where
  "task_crash_asserted cb s =
     bindE (upd_task (task_current s) (set_flag TASK_HAS_CRASHED) s) (task_exit_asserted cb)"

definition task_crash ::
  "(u64 \<Rightarrow> 'a kern_scheme \<Rightarrow> error + 'a kern_scheme) \<Rightarrow> 'a kern_scheme \<Rightarrow> error + 'a kern_scheme" where
  "task_crash cb s = bindE (disable_interrupts s) (task_crash_asserted cb)"

section \<open>Events\<close>

definition event_wait_asserted :: "u64 \<Rightarrow> 'a kern_scheme \<Rightarrow> error + 'a kern_scheme" where
  "event_wait_asserted ev s =
     bindE (upd_task (task_current s) (\<lambda>t. t\<lparr>eq_next := events s ev\<rparr>) s) (\<lambda>s.
     bindE (task_unlink (task_current s) (s\<lparr>events := (events s)(ev := task_current s)\<rparr>)) task_yield_asserted)"

definition event_wait :: "u64 \<Rightarrow> 'a kern_scheme \<Rightarrow> error + 'a kern_scheme" where
  "event_wait ev s = bindE (disable_interrupts s) (event_wait_asserted ev)"

primrec link_waiters :: "nat \<Rightarrow> u64 \<Rightarrow> 'a kern_scheme \<Rightarrow> error + 'a kern_scheme" where
  "link_waiters 0 h s = Inl OutOfFuel"
| "link_waiters (Suc n) h s =
     (if h = 0 then Inr s
      else bindE (task_link h s) (\<lambda>s. bindE (deref tasks h s) (\<lambda>t. link_waiters n (eq_next t) s)))"

definition event_fire :: "nat \<Rightarrow> u64 \<Rightarrow> 'a kern_scheme \<Rightarrow> error + 'a kern_scheme" where
  "event_fire n ev = critical (\<lambda>s.
     bindE (link_waiters n (events s ev) s) (\<lambda>s. Inr (s\<lparr>events := (events s)(ev := 0)\<rparr>)))"

section \<open>Interrupts\<close>

definition task_switch_irq ::
  "(u64 \<Rightarrow> 'a kern_scheme \<Rightarrow> error + 'a kern_scheme) \<Rightarrow> u64 \<Rightarrow> 'a kern_scheme \<Rightarrow> error + 'a kern_scheme" where
  "task_switch_irq run new s =
     bindE (deref tasks new s) (\<lambda>t.
     bindE (panic_if (\<not> has_flag t TASK_IRQ_HANDLER) ''we are not entering an irq task'') (\<lambda>_.
     if has_flag t TASK_PREEMPT then
       bindE (upd_task new (\<lambda>t. t\<lparr>irq_count := irq_count t + 1\<rparr>) s) (\<lambda>s.
       bindE (task_link new s) (\<lambda>s.
       bindE (task_set_sched_head new s) (\<lambda>s.
       Inr (s\<lparr>served_irqs := served_irqs s + 1\<rparr>))))
     else
       bindE (panic_if (irq_ret t \<noteq> 0) ''the irq handler wasn't exited correctly?!'') (\<lambda>_.
       bindE (upd_task new (\<lambda>t. t\<lparr>irq_ret := task_current s, irq_count := irq_count t + 1\<rparr>) s) (\<lambda>s.
       bindE (kswitch new s) (\<lambda>s.
       bindE (run new s) (\<lambda>s.
       bindE (kswitch_resumed s) (\<lambda>s.
       bindE (deref tasks new s) (\<lambda>t.
       bindE (panic_if (irq_ret t \<noteq> task_current s) ''task_current() is not set correctly'') (\<lambda>_.
       bindE (upd_task new (\<lambda>t. t\<lparr>irq_ret := 0\<rparr>) s) (\<lambda>s.
       bindE (if has_flag t TASK_MASK_NEXT_IRQ then upd_task new (clear_flag TASK_MASK_NEXT_IRQ) s
              else Inr (unmask_interrupt (irq_type t) s)) (\<lambda>s.
       Inr (s\<lparr>served_irqs := served_irqs s + 1\<rparr>))))))))))))"

definition task_irq_dispatch ::
  "(u64 \<Rightarrow> 'a kern_scheme \<Rightarrow> error + 'a kern_scheme) \<Rightarrow> u32 \<Rightarrow> 'a kern_scheme \<Rightarrow> error + 'a kern_scheme" where
  "task_irq_dispatch run intr s =
     (let irq_handler = irqvecs s ! unat (intr AND 0x1ff) in
      if irq_handler \<noteq> 0 then
        bindE (upd_task irq_handler (\<lambda>t. t\<lparr>irq_type := intr AND 0x1ff\<rparr>) s) (task_switch_irq run irq_handler)
      else Inl (Panic ''task_irq_dispatch''))"

definition task_exit_irq :: "'a kern_scheme \<Rightarrow> error + 'a kern_scheme" where
  "task_exit_irq s =
     bindE (deref tasks (task_current s) s) (\<lambda>t.
     if has_flag t TASK_PREEMPT then
       bindE (disable_interrupts s) (\<lambda>s.
       bindE (panic_if (\<not> has_flag t TASK_LINKED) ''task_exit_irq on unlinked preempt irq handler?'') (\<lambda>_.
       bindE (task_unlink (task_current s) s) (\<lambda>s.
       bindE (if has_flag t TASK_MASK_NEXT_IRQ then upd_task (task_current s) (clear_flag TASK_MASK_NEXT_IRQ) s
              else Inr (unmask_interrupt (irq_type t) s)) (\<lambda>s.
       bindE (panic_if (dis_int_count s \<noteq> 1) ''irq handler yielded with interrupts held'') (\<lambda>_.
       task_switch_asserted sched_task s)))))
     else if \<not> has_flag t TASK_IRQ_HANDLER then task_yield s
     else bindE (panic_if (irq_ret t = 0) ''task_exit_irq must be invoked from enabled irq context'') (\<lambda>_.
          kswitch (irq_ret t) s))"

section \<open>The scheduler\<close>

text \<open>\<open>n\<close> is the fuel of \<open>task_release\<close>.\<close>

definition pongo_sched_tick ::
  "nat \<Rightarrow> (u64 \<Rightarrow> 'a kern_scheme \<Rightarrow> error + 'a kern_scheme) \<Rightarrow> 'a kern_scheme \<Rightarrow> error + (u8 \<times> 'a kern_scheme)" where
  "pongo_sched_tick n run s =
     bindE (disable_interrupts s) (\<lambda>s.
     bindE (panic_if (pongo_sched_head s = 0) ''no tasks to schedule'') (\<lambda>_.
     bindE (deref tasks (pongo_sched_head s) s) (\<lambda>t.
     let tsk = pongo_sched_head s;
         s = s\<lparr>pongo_sched_head := t_next t\<rparr>
     in bindE (if tsk = sched_task then Inr (2, s)
               else if has_flag t TASK_PLEASE_DEREF then
                 bindE (upd_task tsk (clear_flag TASK_PLEASE_DEREF) s) (\<lambda>s.
                 bindE (task_release n tsk s) (\<lambda>s. Inr (0, s)))
               else if has_flag t TASK_LINKED then
                 bindE (task_switch_asserted tsk s) (\<lambda>s.
                 bindE (run tsk s) (\<lambda>s.
                 bindE (disable_interrupts s) (\<lambda>s.
                 if preempt_ctr s \<noteq> 0 then Inr (1, s\<lparr>preempt_ctr := 0\<rparr>) else Inr (0, s))))
               else Inr (0, s)) (\<lambda>(rvalue, s).
        bindE (enable_interrupts s) (\<lambda>s. Inr (rvalue, s))))))"

text \<open>The loop of \<open>pongo_entry_cached\<close>: after a full round without a preempted task the CPU
  waits for an event (\<open>wfe\<close>). \<open>flag\<close> reads \<open>gBootFlag\<close>; the result counts the waits. The first
  argument bounds the ticks.\<close>

primrec sched_loop ::
  "nat \<Rightarrow> nat \<Rightarrow> ('a kern_scheme \<Rightarrow> u8) \<Rightarrow> (u64 \<Rightarrow> 'a kern_scheme \<Rightarrow> error + 'a kern_scheme) \<Rightarrow> bool \<Rightarrow> nat
   \<Rightarrow> 'a kern_scheme \<Rightarrow> error + (nat \<times> 'a kern_scheme)" where
  "sched_loop 0 n flag run has_been_preempted wfe s = Inl OutOfFuel"
| "sched_loop (Suc k) n flag run has_been_preempted wfe s =
     (if flag s \<noteq> 0 then Inr (wfe, s)
      else bindE (pongo_sched_tick n run s) (\<lambda>(ret, s).
        if ret = 2 then
          if has_been_preempted then sched_loop k n flag run False wfe s
          else sched_loop k n flag run False (wfe + 1) s
        else if ret = 1 then sched_loop k n flag run True wfe s
        else sched_loop k n flag run has_been_preempted wfe s))"

section \<open>Exceptions\<close>

text \<open>The frame \<open>exc_handler\<close> saves: the general registers, \<open>ESR\<close>, \<open>ELR\<close> and \<open>FAR\<close>.\<close>

record exc_frame =
  xreg :: "u64 list"
  f_esr :: u64
  f_elr :: u64
  f_far :: u64

text \<open>\<open>irqs\<close> are the interrupt numbers \<open>interrupt_vector()\<close> returns before it returns 0.\<close>

primrec dispatch_all ::
  "(u64 \<Rightarrow> 'a kern_scheme \<Rightarrow> error + 'a kern_scheme) \<Rightarrow> u32 list \<Rightarrow> 'a kern_scheme \<Rightarrow> error + 'a kern_scheme" where
  "dispatch_all run [] s = Inr s"
| "dispatch_all run (i # is) s = bindE (task_irq_dispatch run i s) (dispatch_all run is)"

definition irq_exc ::
  "(u64 \<Rightarrow> 'a system_scheme \<Rightarrow> error + 'a system_scheme) \<Rightarrow> u32 list \<Rightarrow> 'a system_scheme \<Rightarrow> error + 'a system_scheme" where
  "irq_exc run irqs s =
     (let s = s\<lparr>dis_int_count := 1, is_in_exception := True, interruptCount := interruptCount s + 1\<rparr> in
      bindE (deref tasks (task_current s) s) (\<lambda>t.
      bindE (panic_if (irq_ret t \<noteq> 0) ''nested IRQs are not supported at this time'') (\<lambda>_.
      bindE (dispatch_all run irqs s) (\<lambda>s.
      bindE (panic_if (dis_int_count s \<noteq> 1) ''IRQ handler left interrupts disabled...'') (\<lambda>_.
      Inr (s\<lparr>is_in_exception := False, dis_int_count := 0\<rparr>))))))"

definition pongo_fiq_handler :: "'a kern_scheme \<Rightarrow> error + bool" where
  "pongo_fiq_handler s = bindE (deref tasks (task_current s) s) (\<lambda>t. Inr (has_flag t TASK_PREEMPT))"

definition fiq_exc :: "'a system_scheme \<Rightarrow> error + (bool \<times> 'a system_scheme)" where
  "fiq_exc s =
     (let s = s\<lparr>is_in_exception := True, fiqCount := fiqCount s + 1, dis_int_count := 1\<rparr> in
      bindE (pongo_fiq_handler s) (\<lambda>ret_val.
      let s = s\<lparr>dis_int_count := 0, is_in_exception := False\<rparr> in
      Inr (ret_val, if ret_val then s\<lparr>preemption_counter := preemption_counter s + 1\<rparr> else s)))"

definition sync_exc_handle :: "exc_frame \<Rightarrow> 'a kern_scheme \<Rightarrow> error + (bool \<times> exc_frame \<times> 'a kern_scheme)" where
  "sync_exc_handle f s =
     (let h = task_current s;
          esr_ec = drop_bit 26 (f_esr f AND 0xFC000000);
          abort = (esr_ec = 0x25 \<or> esr_ec = 0x24 \<or> esr_ec = 0x20 \<or> esr_ec = 0x21)
      in bindE (if h \<noteq> 0 \<and> abort then
                  bindE (deref tasks h s) (\<lambda>t. vm_fault (t_vm_space t) (f_far f) s)
                else Inr (False, s)) (\<lambda>(handled, s).
         if handled then Inr (False, f, s)
         else if h \<noteq> 0 then
           bindE (deref tasks h s) (\<lambda>t.
           if fault_catch t \<noteq> 0 then
             bindE (upd_task h (\<lambda>t. t\<lparr>fault_catch := 0\<rparr>) s) (\<lambda>s. Inr (False, f\<lparr>f_elr := fault_catch t\<rparr>, s))
           else Inr (True, f, s))
         else Inr (True, f, s)))"

text \<open>The result says whether the interrupted code resumes (with the returned frame) or the
  task was killed and the scheduler runs.\<close>

datatype exc_result = Resume exc_frame | Killed

definition sync_exc ::
  "(u64 \<Rightarrow> 'a kern_scheme \<Rightarrow> error + 'a kern_scheme) \<Rightarrow> exc_frame \<Rightarrow> 'a kern_scheme \<Rightarrow> error + (exc_result \<times> 'a kern_scheme)" where
  "sync_exc cb f s =
     (let s = s\<lparr>daif_unmasked := False, dis_int_count := dis_int_count s + 1\<rparr> in
      bindE (panic_if (task_current s = 0) ''caught sync exception with task_current() == NULL'') (\<lambda>_.
      bindE (sync_exc_handle f s) (\<lambda>(unhandled, f, s).
      if \<not> unhandled then Inr (Resume f, s\<lparr>dis_int_count := dis_int_count s - 1\<rparr>)
      else bindE (panic_if (dis_int_count s \<noteq> 1) ''caught sync exception with interrupts held'') (\<lambda>_.
           bindE (task_crash_asserted cb s) (\<lambda>s. Inr (Killed, s))))))"

section \<open>System calls\<close>

text \<open>\<open>pongo_syscall_entry\<close>: the table has the four entries \<open>exit\<close>, \<open>crash\<close>, \<open>return\<close> and
  \<open>kmcrash\<close>. Number 0 is indirect: the number is in the first register.\<close>

definition pongo_syscall_entry ::
  "(u64 \<Rightarrow> 'a kern_scheme \<Rightarrow> error + 'a kern_scheme) \<Rightarrow> u32 \<Rightarrow> exc_frame \<Rightarrow> 'a kern_scheme \<Rightarrow> error + (exc_result \<times> 'a kern_scheme)" where
  "pongo_syscall_entry cb sysnr f s =
     bindE (enable_interrupts s) (\<lambda>s.
     let nr0 = (ucast (xreg f ! 15) :: u32);
         nr = (if nr0 = 0 then ucast (xreg f ! 0) else nr0) - 1;
         f0 = f\<lparr>xreg := (xreg f)[0 := - 1]\<rparr>
     in if sysnr = 0x42 \<and> nr < 4 then
          if nr = 0 then bindE (task_exit cb s) (\<lambda>s. Inr (Killed, s))
          else if nr = 1 then bindE (disable_interrupts s) (\<lambda>s. Inr (Resume (f0\<lparr>f_elr := 0x41414141, xreg := (xreg f)[0 := 0]\<rparr>), s))
          else if nr = 2 then bindE (disable_interrupts s) (\<lambda>s. Inr (Resume (f0\<lparr>xreg := (xreg f)[0 := 0]\<rparr>), s))
          else Inl BadAccess
        else bindE (task_crash cb s) (\<lambda>s. Inr (Killed, s)))"

definition sync_exc_el0 ::
  "(u64 \<Rightarrow> 'a kern_scheme \<Rightarrow> error + 'a kern_scheme) \<Rightarrow> exc_frame \<Rightarrow> 'a kern_scheme \<Rightarrow> error + (exc_result \<times> 'a kern_scheme)" where
  "sync_exc_el0 cb f s =
     (let s = s\<lparr>daif_unmasked := False, dis_int_count := dis_int_count s + 1\<rparr> in
      bindE (panic_if (dis_int_count s \<noteq> 1) ''caught EL0 exception with km interrupts held?!'') (\<lambda>_.
      bindE (panic_if (f_esr f AND 0x2000000 = 0) ''sync_exc_el0 from A32 EL0 is unsupported'') (\<lambda>_.
      if f_esr f AND 0xFC000000 = 0x54000000 then
        bindE (pongo_syscall_entry cb (ucast (f_esr f AND 0xff)) f s) (\<lambda>(r, s).
        if r = Killed then Inr (Killed, s)
        else bindE (panic_if (dis_int_count s \<noteq> 1) ''pongo_syscall_entry returned with disable_interrupt count != 1'')
               (\<lambda>_. Inr (r, s\<lparr>dis_int_count := 0\<rparr>)))
      else sync_exc cb f (s\<lparr>dis_int_count := 0\<rparr>))))"

section \<open>The heap\<close>

primrec sbrk_grow :: "nat \<Rightarrow> 'a system_scheme \<Rightarrow> error + 'a system_scheme" where
  "sbrk_grow 0 s = Inl OutOfFuel"
| "sbrk_grow (Suc n) s =
     (if heap_cursor s > heap_end s then
        bindE (ppage_alloc s) (\<lambda>(page, s).
        bindE (vm_space_map_page_physical_prot kernel_vm_space (heap_end s) page
                 (PROT_READ OR PROT_WRITE OR PROT_KERN_ONLY) s) (\<lambda>s.
        sbrk_grow n (s\<lparr>heap_end := heap_end s + 0x4000\<rparr>)))
      else Inr s)"

text \<open>The increment is a signed \<open>int\<close>; the loop runs at most once per 16K of it, so its own
  size bounds it.\<close>

definition sbrk :: "u32 \<Rightarrow> 'a system_scheme \<Rightarrow> error + (u64 \<times> 'a system_scheme)" where
  "sbrk sz s =
     bindE (disable_interrupts s) (\<lambda>s.
     let cursor_copy = heap_cursor s;
         s = s\<lparr>heap_cursor := heap_cursor s + scast sz\<rparr>
     in bindE (sbrk_grow (unat (heap_cursor s - heap_end s) div 0x4000 + 2) s) (\<lambda>s.
        bindE (enable_interrupts s) (\<lambda>s. Inr (cursor_copy, s))))"

end
