(* ===== verification/Ring.thy ===== *)
theory Ring
  imports Prelude
begin

text \<open>
  Circular doubly linked lists, the shape of the run queue: \<open>nx\<close> and \<open>pv\<close> give each node's
  neighbours, and a ring is the list of its nodes in order from some starting node.
\<close>

fun chain :: "('a \<Rightarrow> 'a) \<Rightarrow> ('a \<Rightarrow> 'a) \<Rightarrow> 'a list \<Rightarrow> bool" where
  "chain nx pv (a # b # xs) \<longleftrightarrow> nx a = b \<and> pv b = a \<and> chain nx pv (b # xs)"
| "chain nx pv xs \<longleftrightarrow> True"

definition ring :: "('a \<Rightarrow> 'a) \<Rightarrow> ('a \<Rightarrow> 'a) \<Rightarrow> 'a list \<Rightarrow> bool" where
  "ring nx pv q \<longleftrightarrow> distinct q \<and> (q \<noteq> [] \<longrightarrow> chain nx pv (q @ [hd q]))"

lemma ring_Nil [simp]: "ring nx pv []"
  by (simp add: ring_def)

lemma ring_distinct: "ring nx pv q \<Longrightarrow> distinct q"
  by (simp add: ring_def)

lemma chain_append:
  "chain nx pv (xs @ y # ys) \<longleftrightarrow> chain nx pv (xs @ [y]) \<and> chain nx pv (y # ys)"
proof (induction xs)
  case (Cons a xs)
  then show ?case by (cases xs) auto
qed simp

lemma chain_cong:
  "(\<And>x. x \<in> set (butlast l) \<Longrightarrow> nx x = nx' x) \<Longrightarrow> (\<And>x. x \<in> set (tl l) \<Longrightarrow> pv x = pv' x) \<Longrightarrow>
   chain nx pv l = chain nx' pv' l"
proof (induction l rule: induct_list012)
  case (3 a b xs)
  then have "chain nx pv (b # xs) = chain nx' pv' (b # xs)" by (intro "3.IH"(2)) auto
  with 3(3,4) show ?case by simp
qed simp_all

lemma ring_rotate: "ring nx pv (xs @ ys) \<longleftrightarrow> ring nx pv (ys @ xs)"
proof (cases "xs = [] \<or> ys = []")
  case False
  then obtain x xs' y ys' where eq: "xs = x # xs'" "ys = y # ys'" by (meson neq_Nil_conv)
  have "chain nx pv (xs @ ys @ [x]) \<longleftrightarrow> chain nx pv (xs @ [y]) \<and> chain nx pv (ys @ [x])"
    using chain_append [of nx pv xs y "ys' @ [x]"] eq by simp
  moreover have "chain nx pv (ys @ xs @ [y]) \<longleftrightarrow> chain nx pv (ys @ [x]) \<and> chain nx pv (xs @ [y])"
    using chain_append [of nx pv ys x "xs' @ [y]"] eq by simp
  ultimately show ?thesis using eq by (auto simp: ring_def)
qed auto

lemma ring_rotate1: "ring nx pv (h # q) \<Longrightarrow> ring nx pv (q @ [h])"
  using ring_rotate [of nx pv "[h]" q] by simp

lemma ring_next: "ring nx pv (h # q) \<Longrightarrow> nx h = hd (q @ [h])"
  by (cases q) (auto simp: ring_def)

lemma ring_prev: "ring nx pv (h # q) \<Longrightarrow> pv h = last (h # q)"
  using chain_append [of nx pv "butlast (h # q)" "last (h # q)" "[h]"]
  by (simp add: ring_def append_butlast_last_id [symmetric] del: append_butlast_last_id last.simps butlast.simps)
    (metis append_butlast_last_id append_Cons append_Nil append_assoc chain.simps(1) list.distinct(1))

lemma ring_member_neighbours:
  assumes "ring nx pv q" and "t \<in> set q"
  shows "nx t \<in> set q" and "pv t \<in> set q"
proof -
  obtain xs ys where q: "q = xs @ t # ys" using assms(2) by (meson split_list)
  have r: "ring nx pv (t # ys @ xs)" using assms(1) ring_rotate [of nx pv xs "t # ys"] q by simp
  have "hd ((ys @ xs) @ [t]) \<in> set ((ys @ xs) @ [t])" by (rule hd_in_set) simp
  then show "nx t \<in> set q" using ring_next [OF r] q by auto
  have "last (t # ys @ xs) \<in> set (t # ys @ xs)" by (rule last_in_set) simp
  then show "pv t \<in> set q" using ring_prev [OF r] q by auto
qed

text \<open>Inserting \<open>t\<close> behind the first node; the list now starts at \<open>t\<close>.\<close>

lemma ring_insert:
  assumes "ring nx pv (h # q)" and "t \<notin> set (h # q)"
    and "\<And>x. nx' x = (if x = h then t else if x = t then nx h else nx x)"
    and "\<And>x. pv' x = (if x = nx h then t else if x = t then h else pv x)"
  shows "ring nx' pv' (t # q @ [h])"
proof -
  obtain f r where fr: "q @ [h] = f # r" by (cases "q @ [h]") auto
  have f: "nx h = f" using ring_next [OF assms(1)] fr by simp
  have dist: "distinct (q @ [h])" using assms(1) by (auto simp: ring_def)
  have ch: "chain nx pv (f # r)"
    using assms(1) fr by (cases q) (auto simp: ring_def)
  have "set (f # r) = insert h (set q)" using arg_cong [OF fr, of set] by simp
  then have tn: "t \<notin> set (f # r)" using assms(2) by simp
  then have fset: "f \<noteq> t" by auto
  have "chain nx' pv' (f # r)"
  proof (rule iffD1 [OF chain_cong [of "f # r" nx nx' pv pv'] ch])
    fix x assume "x \<in> set (butlast (f # r))"
    then have "x \<in> set q" using fr by (metis butlast_snoc)
    then have "x \<noteq> h" "x \<noteq> t" using dist assms(2) by auto
    then show "nx x = nx' x" using assms(3) by simp
  next
    fix x assume x: "x \<in> set (tl (f # r))"
    have "distinct (f # r)" using dist fr by simp
    with x tn have "x \<noteq> f" "x \<noteq> t" by auto
    then show "pv x = pv' x" using assms(4) f by simp
  qed
  moreover have "nx' t = f" "pv' f = t" using assms(2,3,4) f by auto
  moreover have "nx' h = t" "pv' t = h" using assms(3,4) f fset by auto
  ultimately have "chain nx' pv' (t # f # r)" and e: "chain nx' pv' [h, t]" by simp_all
  then have "chain nx' pv' ((t # q) @ [h])" using fr by (simp only: append_Cons)
  with e have "chain nx' pv' ((t # q) @ h # [t])" by (simp only: chain_append [of nx' pv' "t # q" h "[t]"])
  then show ?thesis using assms(1,2) by (auto simp: ring_def)
qed

text \<open>Taking the first node out.\<close>

lemma ring_remove:
  assumes "ring nx pv (u # q)"
    and "\<And>x. x \<noteq> u \<Longrightarrow> nx' x = (if x = pv u then nx u else nx x)"
    and "\<And>x. x \<noteq> u \<Longrightarrow> pv' x = (if x = nx u then pv u else pv x)"
  shows "ring nx' pv' q"
proof (cases q)
  case (Cons f r)
  have dist: "distinct (u # q)" using assms(1) by (rule ring_distinct)
  have nu: "nx u = f" using ring_next [OF assms(1)] Cons by simp
  have pu: "pv u = last q" using ring_prev [OF assms(1)] Cons by simp
  have "chain nx pv q" using assms(1) Cons chain_append [of nx pv "[u]" f "r @ [u]"] chain_append [of nx pv q u "[]"]
    by (simp add: ring_def) (metis append_Cons append_Nil chain.simps(3) chain_append append_butlast_last_id list.distinct(1) append_assoc)
  then have "chain nx' pv' q"
  proof (rule iffD1 [OF chain_cong [of q nx nx' pv pv'], rotated -1])
    fix x assume x: "x \<in> set (butlast q)"
    then have "x \<noteq> last q" using dist Cons by (metis append_butlast_last_id distinct.simps(2) distinct_append disjoint_iff list.distinct(1) list.set_intros(1))
    moreover have "x \<noteq> u" using x dist by (metis distinct.simps(2) in_set_butlastD)
    ultimately show "nx x = nx' x" using assms(2) pu by simp
  next
    fix x assume x: "x \<in> set (tl q)"
    then have "x \<noteq> f" "x \<noteq> u" using dist Cons by auto
    then show "pv x = pv' x" using assms(3) nu by simp
  qed
  moreover have "last q \<noteq> u" "f \<noteq> u" using dist Cons by auto
  then have "nx' (last q) = f" "pv' f = last q" using assms(2,3) nu pu by auto
  ultimately have c: "chain nx' pv' (butlast q @ last q # [f])"
    using Cons chain_append [of nx' pv' "butlast q" "last q" "[f]"] by (metis append_butlast_last_id chain.simps(1,3) list.distinct(1))
  have "butlast q @ last q # [f] = q @ [f]"
    using Cons append_butlast_last_id [of q] by (metis append_Cons append_Nil append_assoc list.distinct(1))
  with c have "chain nx' pv' (q @ [f])" by (simp only:)
  then show ?thesis using dist Cons by (simp add: ring_def)
qed simp

end
