(* ===== verification/SchedQueue.thy ===== *)
theory SchedQueue
  imports Sched Ring
begin

unbundle bit_operations_syntax

text \<open>
  The run queue of \<open>src/src/kernel/task.c\<close> as a ring of tasks that starts at
  \<open>pongo_sched_head\<close>: its invariant and what \<open>task_link\<close>, \<open>task_real_unlink\<close>, \<open>task_unlink\<close> and
  \<open>task_set_sched_head\<close> do to it.
\<close>

section \<open>Flags\<close>

lemma has_flag_set [simp]: "has_flag (set_flag f t) g \<longleftrightarrow> has_flag t g \<or> f AND g \<noteq> 0"
  by (simp add: has_flag_def set_flag_def bit.conj_disj_distrib2 or_eq_0_iff)

lemma andnot_and: "(a AND NOT f) AND g = (a :: u32) AND g" if "f AND g = 0"
proof (rule bit_word_eqI)
  fix n assume n: "n < LENGTH(32)"
  have "\<not> bit (f AND g) n" using that by simp
  then show "bit ((a AND NOT f) AND g) n = bit (a AND g) n"
    using n by (simp only: bit_and_iff bit_not_iff) auto
qed

lemma andnot_self: "(a AND NOT f) AND f = (0 :: u32)"
  by (rule bit_word_eqI) (simp only: bit_and_iff bit_not_iff, simp)

lemma has_flag_clear [simp]: "f AND g = 0 \<Longrightarrow> has_flag (clear_flag f t) g = has_flag t g"
  by (simp only: has_flag_def clear_flag_def task.simps andnot_and task.update_convs task.select_convs)
    (simp add: andnot_and)

lemma has_flag_clear_same [simp]: "\<not> has_flag (clear_flag f t) f"
  by (simp add: has_flag_def clear_flag_def andnot_self)

lemma has_flag_upd [simp]:
  "has_flag (t\<lparr>t_next := a\<rparr>) f = has_flag t f" "has_flag (t\<lparr>t_prev := b\<rparr>) f = has_flag t f"
  "has_flag (t\<lparr>runcnt := c\<rparr>) f = has_flag t f" "has_flag (t\<lparr>t_ttbr1 := d\<rparr>) f = has_flag t f"
  by (simp_all add: has_flag_def)

lemmas flag_vals = TASK_LINKED_def TASK_WAS_LINKED_def TASK_HAS_EXITED_def TASK_CAN_EXIT_def
  TASK_IRQ_HANDLER_def TASK_PREEMPT_def TASK_MASK_NEXT_IRQ_def TASK_HAS_CRASHED_def
  TASK_RESTART_ON_EXIT_def TASK_SPAWN_def TASK_FROM_PROC_def TASK_PLEASE_DEREF_def

lemma flag_disjoint [simp]:
  "TASK_LINKED AND TASK_WAS_LINKED = 0" "TASK_WAS_LINKED AND TASK_LINKED = 0"
  "TASK_HAS_EXITED AND TASK_LINKED = 0" "TASK_HAS_EXITED AND TASK_WAS_LINKED = 0"
  "TASK_LINKED AND TASK_HAS_EXITED = 0" "TASK_WAS_LINKED AND TASK_HAS_EXITED = 0"
  "TASK_PLEASE_DEREF AND TASK_WAS_LINKED = 0" "TASK_PLEASE_DEREF AND TASK_LINKED = 0"
  "TASK_PLEASE_DEREF \<noteq> 0" "TASK_LINKED AND TASK_PLEASE_DEREF = 0" "TASK_LINKED \<noteq> 0" "TASK_WAS_LINKED \<noteq> 0"
  by (simp_all add: flag_vals)

section \<open>Field access and critical sections\<close>

lemma upd_task_simps [simp]:
  "tasks s h = Some t \<Longrightarrow> upd_task h f s = Inr (s\<lparr>tasks := (tasks s)(h \<mapsto> f t)\<rparr>)"
  "tasks s h = None \<Longrightarrow> upd_task h f s = Inl BadAccess"
  by (simp_all add: upd_task_def)

lemma upd_task_InrE:
  assumes "upd_task h f s = Inr s'"
  obtains t where "tasks s h = Some t" and "s' = s\<lparr>tasks := (tasks s)(h \<mapsto> f t)\<rparr>"
  using assms by (auto simp: upd_task_def)

text \<open>The state inside a critical section and the state after it.\<close>

abbreviation masked :: "'a kern_scheme \<Rightarrow> 'a kern_scheme" where
  "masked s \<equiv> s\<lparr>dis_int_count := dis_int_count s + 1, daif_unmasked := False\<rparr>"

definition left :: "'a kern_scheme \<Rightarrow> 'a kern_scheme" where
  "left s = s\<lparr>daif_unmasked := (dis_int_count s = 0)\<rparr>"

lemma critical_eq:
  assumes "irq_room 1 s"
  shows "critical body s = bindE (body (masked s)) enable_interrupts"
  using assms by (simp add: critical_def disable_interrupts_returns irq_room_not_max)

text \<open>A state with its task table and queue head replaced: the queue operations change
  nothing else, so they are computed on this form.\<close>

definition with_q :: "(u64 \<Rightarrow> task option) \<Rightarrow> u64 \<Rightarrow> 'a kern_scheme \<Rightarrow> 'a kern_scheme" where
  "with_q T H s = s\<lparr>tasks := T, pongo_sched_head := H\<rparr>"

lemma with_q_sel [simp]:
  "tasks (with_q T H s) = T" "pongo_sched_head (with_q T H s) = H"
  "dis_int_count (with_q T H s) = dis_int_count s" "daif_unmasked (with_q T H s) = daif_unmasked s"
  by (simp_all add: with_q_def)

lemma with_q_upd [simp]:
  "with_q T H (with_q T' H' s) = with_q T H s"
  "(with_q T H s)\<lparr>tasks := T'\<rparr> = with_q T' H s"
  "(with_q T H s)\<lparr>pongo_sched_head := H'\<rparr> = with_q T H' s"
  by (simp_all add: with_q_def)

lemma with_q_self: "with_q (tasks s) (pongo_sched_head s) s = s"
  by (simp add: with_q_def)

lemma with_q_left: "left (with_q T H s) = with_q T H (left s)"
  by (simp add: with_q_def left_def)

definition inside :: "'a kern_scheme \<Rightarrow> 'a kern_scheme" where
  "inside s = masked s"

lemma upd_with_q:
  "upd_task h f (with_q T H s) = (case T h of None \<Rightarrow> Inl BadAccess | Some t \<Rightarrow> Inr (with_q (T(h \<mapsto> f t)) H s))"
  by (simp add: upd_task_def deref_def split: option.split)

lemma deref_with_q:
  "deref tasks h (with_q T H s) = (case T h of None \<Rightarrow> Inl BadAccess | Some t \<Rightarrow> Inr t)"
  by (simp add: deref_def)

lemma enable_with_q [simp]:
  assumes "irq_room 1 s"
  shows "enable_interrupts (with_q T H (inside s)) = Inr (with_q T H (left s))"
proof -
  have "dis_int_count s + 1 \<noteq> 0" using assms irq_room_not_max [of 1 s] by (auto simp: add_eq_0_iff2)
  moreover have "dis_int_count s + 1 = 1 \<longleftrightarrow> dis_int_count s = 0" by simp
  ultimately show ?thesis by (simp add: enable_interrupts_def left_def with_q_def inside_def Let_def)
qed

lemma critical_with_q:
  assumes "irq_room 1 s"
  shows "critical body s = bindE (body (with_q (tasks s) (pongo_sched_head s) (inside s))) enable_interrupts"
  using critical_eq [OF assms, of body] by (simp add: with_q_def inside_def)

section \<open>The invariant\<close>

definition tnext :: "(u64 \<Rightarrow> task option) \<Rightarrow> u64 \<Rightarrow> u64" where
  "tnext T h = (case T h of Some t \<Rightarrow> t_next t | None \<Rightarrow> 0)"

definition tprev :: "(u64 \<Rightarrow> task option) \<Rightarrow> u64 \<Rightarrow> u64" where
  "tprev T h = (case T h of Some t \<Rightarrow> t_prev t | None \<Rightarrow> 0)"

definition flagged :: "(u64 \<Rightarrow> task option) \<Rightarrow> u32 \<Rightarrow> u64 \<Rightarrow> bool" where
  "flagged T f h = (case T h of Some t \<Rightarrow> has_flag t f | None \<Rightarrow> False)"

definition head_of :: "u64 list \<Rightarrow> u64" where
  "head_of q = (case q of [] \<Rightarrow> 0 | h # _ \<Rightarrow> h)"

text \<open>The tasks of \<open>q\<close> form a ring and are exactly those that carry \<open>TASK_WAS_LINKED\<close>.\<close>

definition queue_ok :: "(u64 \<Rightarrow> task option) \<Rightarrow> u64 list \<Rightarrow> bool" where
  "queue_ok T q \<longleftrightarrow> ring (tnext T) (tprev T) q \<and> T 0 = None \<and> (\<forall>h. flagged T TASK_WAS_LINKED h \<longleftrightarrow> h \<in> set q)"

definition run_queue :: "'a kern_scheme \<Rightarrow> u64 list \<Rightarrow> bool" where
  "run_queue s q \<longleftrightarrow> pongo_sched_head s = head_of q \<and> queue_ok (tasks s) q"

lemma head_of_simps [simp]: "head_of [] = 0" "head_of (h # q) = h"
  by (simp_all add: head_of_def)

lemma run_queue_with_q [simp]: "run_queue (with_q T H s) q \<longleftrightarrow> H = head_of q \<and> queue_ok T q"
  by (simp add: run_queue_def)

lemma queue_task:
  assumes "queue_ok T q" and "h \<in> set q"
  obtains t where "T h = Some t" and "has_flag t TASK_WAS_LINKED" and "h \<noteq> 0"
proof -
  have "flagged T TASK_WAS_LINKED h" using assms by (simp add: queue_ok_def)
  then obtain t where "T h = Some t" "has_flag t TASK_WAS_LINKED" by (auto simp: flagged_def split: option.splits)
  moreover from this have "h \<noteq> 0" using assms(1) by (auto simp: queue_ok_def)
  ultimately show ?thesis using that by blast
qed

lemma queue_member: "queue_ok T q \<Longrightarrow> T h = Some t \<Longrightarrow> has_flag t TASK_WAS_LINKED \<longleftrightarrow> h \<in> set q"
  by (auto simp: queue_ok_def flagged_def dest!: spec [of _ h])

text \<open>What the queue operations leave alone: everything of a task but its links and flags.\<close>

definition core :: "task \<Rightarrow> task" where
  "core t = t\<lparr>t_next := 0, t_prev := 0, t_flags := 0\<rparr>"

definition cores :: "(u64 \<Rightarrow> task option) \<Rightarrow> u64 \<Rightarrow> task option" where
  "cores T h = map_option core (T h)"

lemma core_upd [simp]:
  "core (t\<lparr>t_next := a\<rparr>) = core t" "core (t\<lparr>t_prev := b\<rparr>) = core t"
  "core (set_flag f t) = core t" "core (clear_flag f t) = core t"
  by (simp_all add: core_def set_flag_def clear_flag_def)

lemma t_links_upd [simp]:
  "t_next (set_flag f t) = t_next t" "t_prev (set_flag f t) = t_prev t"
  "t_next (clear_flag f t) = t_next t" "t_prev (clear_flag f t) = t_prev t"
  by (simp_all add: set_flag_def clear_flag_def)

section \<open>task_link\<close>

definition linked_queue :: "u64 \<Rightarrow> u64 list \<Rightarrow> u64 list" where
  "linked_queue h q = (if h \<in> set q then q else case q of [] \<Rightarrow> [h] | x # r \<Rightarrow> h # r @ [x])"

text \<open>The task table after linking \<open>h\<close> behind the head \<open>x\<close>.\<close>

definition link_flags :: "task \<Rightarrow> task" where
  "link_flags t = set_flag TASK_LINKED (set_flag TASK_WAS_LINKED (clear_flag TASK_HAS_EXITED t))"

definition link_behind :: "u64 \<Rightarrow> u64 \<Rightarrow> (u64 \<Rightarrow> task option) \<Rightarrow> u64 \<Rightarrow> task option" where
  "link_behind h x T u =
     (case T u of None \<Rightarrow> None
      | Some t \<Rightarrow>
          let f = (case T x of Some tx \<Rightarrow> t_next tx | None \<Rightarrow> 0);
              t = (if u = f then t\<lparr>t_prev := h\<rparr> else t);
              t = (if u = x then t\<lparr>t_next := h\<rparr> else t)
          in Some (if u = h then link_flags (t\<lparr>t_prev := x, t_next := f\<rparr>) else t))"

lemma link_behind_state:
  assumes "tasks s h = Some t" and "\<not> has_flag t TASK_WAS_LINKED" and "pongo_sched_head s = x" and "x \<noteq> 0"
    and "h \<noteq> x" and "tasks s x = Some tx" and "t_next tx \<noteq> h" and "tasks s (t_next tx) = Some tf" and "irq_room 1 s"
  shows "task_link h s = Inr (with_q (link_behind h x (tasks s)) h (left s))"
proof -
  let ?f = "t_next tx"
  have nf: "\<not> has_flag (clear_flag TASK_HAS_EXITED t) TASK_WAS_LINKED" using assms(2) by simp
  have neq: "x \<noteq> h" "h \<noteq> t_next tx" using assms(5,7) by auto
  have L: "set_flag TASK_LINKED (set_flag TASK_WAS_LINKED ((clear_flag TASK_HAS_EXITED t)\<lparr>t_prev := x, t_next := f\<rparr>))
      = link_flags (t\<lparr>t_prev := x, t_next := f\<rparr>)" for f
    by (simp add: link_flags_def set_flag_def clear_flag_def)
  show ?thesis 
  proof (cases "?f = x")
    case True
    have M: "link_behind h x (tasks s) = (tasks s)(x \<mapsto> tx\<lparr>t_next := h, t_prev := h\<rparr>, h \<mapsto> link_flags (t\<lparr>t_prev := x, t_next := x\<rparr>))"
      by (rule ext) (auto simp: link_behind_def Let_def assms(1,6) True neq split: option.splits)
    show ?thesis
      unfolding task_link_def critical_with_q [OF assms(9)] M
      by (simp add: assms nf neq True upd_with_q deref_with_q L enable_with_q [OF assms(9)] fun_upd_twist [OF neq(1)] del: upd_task_simps deref_simps)
  next
    case False
    have M: "link_behind h x (tasks s) = (tasks s)(x \<mapsto> tx\<lparr>t_next := h\<rparr>, ?f \<mapsto> tf\<lparr>t_prev := h\<rparr>, h \<mapsto> link_flags (t\<lparr>t_prev := x, t_next := ?f\<rparr>))"
      by (rule ext) (use False in \<open>auto simp: link_behind_def Let_def assms(1,6,8) neq split: option.splits\<close>)
    show ?thesis
      unfolding task_link_def critical_with_q [OF assms(9)] M
      apply (simp add: assms nf neq False upd_with_q deref_with_q L enable_with_q [OF assms(9)]  del: upd_task_simps deref_simps)
      done
  qed
qed
lemma link_flags_simps [simp]:
  "t_next (link_flags t) = t_next t" "t_prev (link_flags t) = t_prev t"
  "has_flag (link_flags t) TASK_LINKED" "has_flag (link_flags t) TASK_WAS_LINKED"
  "core (link_flags t) = core t" "\<not> has_flag (link_flags t) TASK_HAS_EXITED"
  by (simp_all add: link_flags_def)

lemma link_behind_queue:
  assumes "queue_ok T (x # r)" and "T h = Some t" and "h \<notin> set (x # r)"
  shows "queue_ok (link_behind h x T) (h # r @ [x])"
proof -
  obtain tx where tx: "T x = Some tx" using queue_task [OF assms(1), of x] by auto
  have rg: "ring (tnext T) (tprev T) (x # r)" using assms(1) by (simp add: queue_ok_def)
  have f: "tnext T x = t_next tx" using tx by (simp add: tnext_def)
  have fin: "t_next tx \<in> set (x # r)" using ring_member_neighbours(1) [OF rg, of x] f by simp
  then obtain tf where tf: "T (t_next tx) = Some tf" using queue_task [OF assms(1)] by blast
  have hx: "h \<noteq> x" "t_next tx \<noteq> h" using assms(3) fin by auto
  have "ring (tnext (link_behind h x T)) (tprev (link_behind h x T)) (h # r @ [x])"
  proof (rule ring_insert [OF rg assms(3)])
    show "tnext (link_behind h x T) u = (if u = x then h else if u = h then tnext T x else tnext T u)" for u
      using tx hx assms(2) by (auto simp: tnext_def link_behind_def Let_def split: option.split)
    show "tprev (link_behind h x T) u = (if u = tnext T x then h else if u = h then x else tprev T u)" for u
      using tx tf hx assms(2) f by (auto simp: tprev_def link_behind_def Let_def split: option.split)
  qed
  moreover have "link_behind h x T 0 = None" using assms(1) by (simp add: queue_ok_def link_behind_def)
  moreover have "flagged (link_behind h x T) TASK_WAS_LINKED u \<longleftrightarrow> u \<in> set (h # r @ [x])" for u
  proof -
    have "flagged (link_behind h x T) TASK_WAS_LINKED u \<longleftrightarrow> u = h \<or> flagged T TASK_WAS_LINKED u"
      using assms(2) by (auto simp: flagged_def link_behind_def Let_def split: option.splits if_splits)
    then show ?thesis using assms(1) by (auto simp: queue_ok_def)
  qed
  ultimately show ?thesis by (simp add: queue_ok_def)
qed

text \<open>\<open>T'\<close> is \<open>T\<close> except for links and, at \<open>h\<close>, the flags.\<close>

definition same_but_links :: "u64 \<Rightarrow> (u64 \<Rightarrow> task option) \<Rightarrow> (u64 \<Rightarrow> task option) \<Rightarrow> bool" where
  "same_but_links h T T' \<longleftrightarrow> cores T' = cores T \<and> (\<forall>u. u \<noteq> h \<longrightarrow> map_option t_flags (T' u) = map_option t_flags (T u))"

lemma link_behind_frame: "same_but_links h T (link_behind h x T)"
  by (auto simp: same_but_links_def cores_def link_behind_def Let_def fun_eq_iff split: option.split)

text \<open>The task table after linking into an empty queue, and after linking a task that is in
  the queue already.\<close>

definition link_alone :: "u64 \<Rightarrow> (u64 \<Rightarrow> task option) \<Rightarrow> u64 \<Rightarrow> task option" where
  "link_alone h T = (case T h of None \<Rightarrow> T | Some t \<Rightarrow> T(h \<mapsto> link_flags (t\<lparr>t_prev := h, t_next := h\<rparr>)))"

definition link_again :: "u64 \<Rightarrow> (u64 \<Rightarrow> task option) \<Rightarrow> u64 \<Rightarrow> task option" where
  "link_again h T = (case T h of None \<Rightarrow> T
     | Some t \<Rightarrow> T(h \<mapsto> set_flag TASK_LINKED (clear_flag TASK_HAS_EXITED t)))"

lemma link_alone_state:
  assumes "tasks s h = Some t" and "\<not> has_flag t TASK_WAS_LINKED" and "pongo_sched_head s = 0" and "irq_room 1 s"
  shows "task_link h s = Inr (with_q (link_alone h (tasks s)) h (left s))"
proof -
  have nf: "\<not> has_flag (clear_flag TASK_HAS_EXITED t) TASK_WAS_LINKED" using assms(2) by simp
  have L: "set_flag TASK_LINKED (set_flag TASK_WAS_LINKED ((clear_flag TASK_HAS_EXITED t)\<lparr>t_prev := h, t_next := h\<rparr>))
      = link_flags (t\<lparr>t_prev := h, t_next := h\<rparr>)"
    by (simp add: link_flags_def set_flag_def clear_flag_def)
  show ?thesis
    unfolding task_link_def critical_with_q [OF assms(4)]
    by (simp add: assms nf upd_with_q deref_with_q L link_alone_def enable_with_q [OF assms(4)] del: upd_task_simps deref_simps)
qed

lemma link_again_state:
  assumes "tasks s h = Some t" and "has_flag t TASK_WAS_LINKED" and "irq_room 1 s"
  shows "task_link h s = Inr (with_q (link_again h (tasks s)) (pongo_sched_head s) (left s))"
proof -
  have f: "has_flag (clear_flag TASK_HAS_EXITED t) TASK_WAS_LINKED" using assms(2) by simp
  show ?thesis
    unfolding task_link_def critical_with_q [OF assms(3)]
    by (simp add: assms f upd_with_q deref_with_q link_again_def enable_with_q [OF assms(3)] del: upd_task_simps deref_simps)
qed

text \<open>A change of flags that does not touch \<open>TASK_WAS_LINKED\<close> keeps the queue.\<close>

lemma queue_ok_cong:
  assumes "queue_ok T q" and "\<And>u. tnext T' u = tnext T u" and "\<And>u. tprev T' u = tprev T u"
    and "\<And>u. flagged T' TASK_WAS_LINKED u = flagged T TASK_WAS_LINKED u" and "T' 0 = None"
  shows "queue_ok T' q"
proof -
  have "tnext T' = tnext T" "tprev T' = tprev T" using assms(2,3) by auto
  with assms show ?thesis by (simp add: queue_ok_def)
qed

lemma queue_ok_upd:
  assumes "queue_ok T q" and "T h = Some t" and "t_next t' = t_next t" and "t_prev t' = t_prev t"
    and "has_flag t' TASK_WAS_LINKED = has_flag t TASK_WAS_LINKED"
  shows "queue_ok (T(h \<mapsto> t')) q"
proof (rule queue_ok_cong [OF assms(1)])
  have z: "T 0 = None" using assms(1) by (simp add: queue_ok_def)
  then show "(T(h \<mapsto> t')) 0 = None" using assms(2) by (cases "h = 0") simp_all
  show "tnext (T(h \<mapsto> t')) u = tnext T u" "tprev (T(h \<mapsto> t')) u = tprev T u"
    "flagged (T(h \<mapsto> t')) TASK_WAS_LINKED u = flagged T TASK_WAS_LINKED u" for u
    using assms(2-5) by (cases "u = h"; simp add: tnext_def tprev_def flagged_def)+
qed

lemma link_again_queue:
  assumes "queue_ok T q" and "T h = Some t"
  shows "queue_ok (link_again h T) q"
  using assms by (simp add: link_again_def queue_ok_upd)

lemma link_alone_queue:
  assumes "queue_ok T []" and "T h = Some t" shows "queue_ok (link_alone h T) [h]"
proof -
  let ?T = "link_alone h T"
  have h: "h \<noteq> 0" "T 0 = None" using assms by (auto simp: queue_ok_def)
  have T: "?T = T(h \<mapsto> link_flags (t\<lparr>t_prev := h, t_next := h\<rparr>))" using assms(2) by (simp add: link_alone_def)
  have "tnext ?T h = h" "tprev ?T h = h" by (simp_all add: T tnext_def tprev_def)
  then have "ring (tnext ?T) (tprev ?T) [h]" by (simp add: ring_def)
  moreover have "flagged ?T TASK_WAS_LINKED u \<longleftrightarrow> u = h" for u
    using assms(1) by (cases "u = h") (simp_all add: T flagged_def queue_ok_def)
  ultimately show ?thesis using h by (simp add: queue_ok_def T)
qed

text \<open>\<open>task_link\<close>: the task ends up in the queue, linked and not exited, at the head unless it was
  in the queue before; nothing but the links and its flags changes.\<close>

lemma task_link_spec:
  assumes "run_queue s q" and "tasks s h = Some t" and "irq_room 1 s"
  obtains T where "task_link h s = Inr (with_q T (head_of (linked_queue h q)) (left s))"
    and "queue_ok T (linked_queue h q)" and "same_but_links h (tasks s) T"
    and "flagged T TASK_LINKED h" and "\<not> flagged T TASK_HAS_EXITED h"
proof -
  have q: "pongo_sched_head s = head_of q" "queue_ok (tasks s) q" using assms(1) by (simp_all add: run_queue_def)
  have mem: "has_flag t TASK_WAS_LINKED \<longleftrightarrow> h \<in> set q" by (rule queue_member [OF q(2) assms(2)])
  consider (again) "h \<in> set q" | (alone) "q = []" | (behind) x r where "q = x # r" "h \<notin> set q"
    by (cases q) auto
  then show thesis
  proof cases
    case again
    show thesis
      by (rule that [of "link_again h (tasks s)"])
        (use again mem q assms link_again_state [OF assms(2) _ assms(3)] link_again_queue [OF q(2) assms(2)] in
          \<open>auto simp: linked_queue_def same_but_links_def link_again_def cores_def flagged_def\<close>)
  next
    case alone
    show thesis
      by (rule that [of "link_alone h (tasks s)"])
        (use alone mem q assms link_alone_state [OF assms(2) _ _ assms(3)] link_alone_queue [of "tasks s" h t] in
          \<open>auto simp: linked_queue_def same_but_links_def link_alone_def cores_def flagged_def\<close>)
  next
    case behind
    obtain tx where tx: "tasks s x = Some tx" "x \<noteq> 0" using queue_task [OF q(2), of x] behind by auto
    have "t_next tx \<in> set q"
      using ring_member_neighbours(1) [of "tnext (tasks s)" "tprev (tasks s)" q x] q(2) behind tx by (simp add: queue_ok_def tnext_def)
    then obtain tf where tf: "tasks s (t_next tx) = Some tf" "t_next tx \<noteq> h" using queue_task [OF q(2)] behind by metis
    have hx: "h \<noteq> x" using behind by auto
    have st: "task_link h s = Inr (with_q (link_behind h x (tasks s)) h (left s))"
      by (rule link_behind_state [OF assms(2) _ _ tx(2) hx tx(1) tf(2,1) assms(3)]) (use mem behind q in auto)
    have qo: "queue_ok (link_behind h x (tasks s)) (h # r @ [x])"
      by (rule link_behind_queue [where t = t]) (use q(2) behind assms(2) in auto)
    have fl: "link_behind h x (tasks s) h = Some (link_flags (t\<lparr>t_prev := x, t_next := t_next tx\<rparr>))"
      using assms(2) tx hx tf by (simp add: link_behind_def Let_def)
    show thesis
      by (rule that [of "link_behind h x (tasks s)"])
        (use st qo fl behind link_behind_frame in \<open>simp_all add: linked_queue_def flagged_def\<close>)
  qed
qed

end
