(* ===== verification/QueueOps.thy ===== *)
theory QueueOps
  imports SchedQueue
begin

unbundle bit_operations_syntax

text \<open>
  The rest of the run-queue operations of \<open>src/src/kernel/task.c\<close>: \<open>task_real_unlink\<close> takes a
  task out of the ring, \<open>task_unlink\<close> and \<open>task_set_sched_head\<close> leave the ring alone.
\<close>

section \<open>task_real_unlink\<close>

definition gone_flags :: "task \<Rightarrow> task" where
  "gone_flags = clear_flag (TASK_WAS_LINKED OR TASK_LINKED)"

definition take_out :: "u64 \<Rightarrow> task \<Rightarrow> (u64 \<Rightarrow> task option) \<Rightarrow> u64 \<Rightarrow> task option" where
  "take_out h t T u =
     (case T u of None \<Rightarrow> None
      | Some tu \<Rightarrow>
          let tu = (if u = t_prev t then tu\<lparr>t_next := t_next t\<rparr> else tu);
              tu = (if u = t_next t then tu\<lparr>t_prev := t_prev t\<rparr> else tu)
          in Some (if u = h then gone_flags tu else tu))"

lemma gone_flags_simps [simp]:
  "t_next (gone_flags t) = t_next t" "t_prev (gone_flags t) = t_prev t" "core (gone_flags t) = core t"
  "\<not> has_flag (gone_flags t) TASK_WAS_LINKED" "\<not> has_flag (gone_flags t) TASK_LINKED"
proof -
  have "(a AND NOT (TASK_WAS_LINKED OR TASK_LINKED)) AND TASK_WAS_LINKED = 0" for a :: u32
    by (rule bit_word_eqI) (simp only: bit_and_iff bit_not_iff bit_or_iff, auto)
  moreover have "(a AND NOT (TASK_WAS_LINKED OR TASK_LINKED)) AND TASK_LINKED = 0" for a :: u32
    by (rule bit_word_eqI) (simp only: bit_and_iff bit_not_iff bit_or_iff, auto)
  ultimately show "\<not> has_flag (gone_flags t) TASK_WAS_LINKED" "\<not> has_flag (gone_flags t) TASK_LINKED"
    by (simp_all add: gone_flags_def clear_flag_def has_flag_def)
qed (simp_all add: gone_flags_def)

definition next_head :: "u64 \<Rightarrow> task \<Rightarrow> u64 \<Rightarrow> u64" where
  "next_head h t cur = (if h = cur then if h = t_next t then 0 else t_next t else cur)"

lemma unlink_state:
  assumes "tasks s h = Some t" and "has_flag t TASK_WAS_LINKED" and "tasks s (t_prev t) = Some tp"
    and "tasks s (t_next t) = Some tn" and "t_prev t = h \<longleftrightarrow> t_next t = h" and "irq_room 1 s"
  shows "task_real_unlink h s = Inr (with_q (take_out h t (tasks s)) (next_head h t (pongo_sched_head s)) (left s))"
proof -
  let ?p = "t_prev t" and ?n = "t_next t"
  have hd: "(if h = pongo_sched_head s then (with_q (tasks s) (pongo_sched_head s) (inside s))
        \<lparr>pongo_sched_head := if h = ?n then 0 else ?n\<rparr> else with_q (tasks s) (pongo_sched_head s) (inside s))
      = with_q (tasks s) (next_head h t (pongo_sched_head s)) (inside s)"
    by (simp add: next_head_def)
  have start: "task_real_unlink h s = bindE (bindE (upd_task ?p (\<lambda>p. p\<lparr>t_next := ?n\<rparr>)
         (with_q (tasks s) (next_head h t (pongo_sched_head s)) (inside s))) (\<lambda>s.
       bindE (deref tasks h s) (\<lambda>t.
       bindE (upd_task (t_next t) (\<lambda>n. n\<lparr>t_prev := t_prev t\<rparr>) s) (\<lambda>s.
       upd_task h (clear_flag (TASK_WAS_LINKED OR TASK_LINKED)) s)))) enable_interrupts"
    unfolding task_real_unlink_def critical_with_q [OF assms(6)]
    by (simp add: deref_with_q assms(1,2) hd Let_def del: upd_task_simps deref_simps with_q_upd(3))
  show ?thesis
  proof (cases "?n = h")
    case True
    then have p: "?p = h" using assms(5) by simp
    have "take_out h t (tasks s) = (tasks s)(h \<mapsto> gone_flags (t\<lparr>t_next := h, t_prev := h\<rparr>))"
      by (rule ext) (simp add: take_out_def True p assms(1) split: option.split)
    then show ?thesis
      unfolding start
      by (simp add: True p assms(1) upd_with_q deref_with_q enable_with_q [OF assms(6)] gone_flags_def [symmetric]
          del: upd_task_simps deref_simps)
  next
    case False
    then have p: "?p \<noteq> h" using assms(5) by simp
    show ?thesis
    proof (cases "?p = ?n")
      case eq: True
      have "take_out h t (tasks s) = (tasks s)(?n \<mapsto> tn\<lparr>t_next := ?n, t_prev := ?n\<rparr>, h \<mapsto> gone_flags t)"
        by (rule ext) (use False eq assms(1,4) in \<open>auto simp: take_out_def split: option.split\<close>)
      then show ?thesis
        unfolding start
        by (simp add: eq False not_sym [OF False] assms(1,4) upd_with_q deref_with_q enable_with_q [OF assms(6)]
            gone_flags_def [symmetric] del: upd_task_simps deref_simps)
    next
      case neq: False
      have "take_out h t (tasks s) = (tasks s)(?p \<mapsto> tp\<lparr>t_next := ?n\<rparr>, ?n \<mapsto> tn\<lparr>t_prev := ?p\<rparr>, h \<mapsto> gone_flags t)"
        by (rule ext) (use False p neq assms(1,3,4) in \<open>auto simp: take_out_def split: option.split\<close>)
      then show ?thesis
        unfolding start
        by (simp add: neq not_sym [OF neq] False p not_sym [OF False] not_sym [OF p] assms(1,3,4) upd_with_q deref_with_q
            enable_with_q [OF assms(6)] gone_flags_def [symmetric] del: upd_task_simps deref_simps)
    qed
  qed
qed

lemma take_out_queue:
  assumes "queue_ok T (h # q)" and "T h = Some t"
  shows "queue_ok (take_out h t T) q"
proof -
  have rg: "ring (tnext T) (tprev T) (h # q)" using assms(1) by (simp add: queue_ok_def)
  have n: "tnext T h = t_next t" "tprev T h = t_prev t" using assms(2) by (simp_all add: tnext_def tprev_def)
  have in_q: "t_next t \<in> set (h # q)" "t_prev t \<in> set (h # q)"
    using ring_member_neighbours [OF rg, of h] n by simp_all
  obtain tn tp where nb: "T (t_next t) = Some tn" "T (t_prev t) = Some tp"
    using queue_task [OF assms(1) in_q(1)] queue_task [OF assms(1) in_q(2)] by metis
  have "ring (tnext (take_out h t T)) (tprev (take_out h t T)) q"
  proof (rule ring_remove [OF rg])
    fix u assume "u \<noteq> h"
    then show "tnext (take_out h t T) u = (if u = tprev T h then tnext T h else tnext T u)"
      using nb n by (auto simp: tnext_def take_out_def Let_def split: option.split)
    show "tprev (take_out h t T) u = (if u = tnext T h then tprev T h else tprev T u)"
      using nb n \<open>u \<noteq> h\<close> by (auto simp: tprev_def take_out_def Let_def split: option.split)
  qed
  moreover have "take_out h t T 0 = None" using assms(1) by (simp add: queue_ok_def take_out_def)
  moreover have "flagged (take_out h t T) TASK_WAS_LINKED u \<longleftrightarrow> u \<in> set q" for u
  proof -
    have "flagged (take_out h t T) TASK_WAS_LINKED u \<longleftrightarrow> u \<noteq> h \<and> flagged T TASK_WAS_LINKED u"
      by (auto simp: flagged_def take_out_def Let_def split: option.splits if_splits)
    moreover have "h \<notin> set q" using ring_distinct [OF rg] by simp
    ultimately show ?thesis using assms(1) by (auto simp: queue_ok_def)
  qed
  ultimately show ?thesis by (simp add: queue_ok_def)
qed

lemma queue_rotate: "queue_ok T (xs @ ys) \<longleftrightarrow> queue_ok T (ys @ xs)"
  using ring_rotate [of "tnext T" "tprev T" xs ys] by (auto simp: queue_ok_def)

lemma take_out_frame: "same_but_links h T (take_out h t T)"
  by (auto simp: same_but_links_def cores_def take_out_def Let_def fun_eq_iff split: option.split)

text \<open>\<open>task_real_unlink\<close> removes the task from the queue, wherever it is, and clears its queue
  flags; the head moves on when it was the head.\<close>

lemma task_real_unlink_spec:
  assumes "run_queue s q" and "tasks s h = Some t" and "irq_room 1 s" and "h \<in> set q"
  obtains T where "task_real_unlink h s = Inr (with_q T (head_of (remove1 h q)) (left s))"
    and "queue_ok T (remove1 h q)" and "same_but_links h (tasks s) T" and "\<not> flagged T TASK_LINKED h"
    and "T h \<noteq> None"
proof -
  have q: "pongo_sched_head s = head_of q" "queue_ok (tasks s) q" using assms(1) by (simp_all add: run_queue_def)
  obtain xs ys where sp: "q = xs @ h # ys" "h \<notin> set xs" using assms(4) by (meson split_list_first)
  have dist: "distinct q" using q(2) by (auto simp: queue_ok_def ring_def)
  have qr: "queue_ok (tasks s) (h # ys @ xs)" using q(2) sp queue_rotate [of "tasks s" xs "h # ys"] by simp
  have rg: "ring (tnext (tasks s)) (tprev (tasks s)) (h # ys @ xs)" using qr by (simp add: queue_ok_def)
  have n: "t_next t = hd ((ys @ xs) @ [h])" "t_prev t = last (h # ys @ xs)"
    using ring_next [OF rg] ring_prev [OF rg] assms(2) by (simp_all add: tnext_def tprev_def)
  have nin: "t_next t \<in> set (h # ys @ xs)" "t_prev t \<in> set (h # ys @ xs)"
    using ring_member_neighbours [OF rg, of h] assms(2) by (simp_all add: tnext_def tprev_def)
  obtain tn tp where nb: "tasks s (t_next t) = Some tn" "tasks s (t_prev t) = Some tp"
    using queue_task [OF qr nin(1)] queue_task [OF qr nin(2)] by metis
  have hn: "h \<notin> set (ys @ xs)" using dist sp by auto
  have alone: "t_prev t = h \<longleftrightarrow> t_next t = h"
  proof (cases "ys @ xs = []")
    case False
    then have "hd (ys @ xs) \<in> set (ys @ xs)" "last (ys @ xs) \<in> set (ys @ xs)" by (rule hd_in_set, rule last_in_set)
    then show ?thesis using n hn False by (metis hd_append2 last.simps)
  qed (use n in auto)
  have mem: "has_flag t TASK_WAS_LINKED" using queue_member [OF q(2) assms(2)] assms(4) by simp
  have st: "task_real_unlink h s = Inr (with_q (take_out h t (tasks s)) (next_head h t (pongo_sched_head s)) (left s))"
    by (rule unlink_state [OF assms(2) mem nb(2,1) alone assms(3)])
  have rem: "remove1 h q = xs @ ys" using sp by (simp add: remove1_append)
  have hd: "next_head h t (pongo_sched_head s) = head_of (xs @ ys)"
  proof (cases xs)
    case Nil
    then show ?thesis using q(1) sp n hn by (cases ys) (auto simp: next_head_def)
  next
    case (Cons x xs')
    then show ?thesis using q(1) sp by (auto simp: next_head_def)
  qed
  show thesis
  proof (rule that [of "take_out h t (tasks s)"])
    show "task_real_unlink h s = Inr (with_q (take_out h t (tasks s)) (head_of (remove1 h q)) (left s))"
      using st hd rem by simp
    show "queue_ok (take_out h t (tasks s)) (remove1 h q)"
      using take_out_queue [OF qr assms(2)] queue_rotate [of _ ys xs] rem by simp
    show "same_but_links h (tasks s) (take_out h t (tasks s))" by (rule take_out_frame)
    show "\<not> flagged (take_out h t (tasks s)) TASK_LINKED h" "take_out h t (tasks s) h \<noteq> None"
      using assms(2) by (simp_all add: flagged_def take_out_def Let_def)
  qed
qed

section \<open>Flags and rotations\<close>

lemma task_unlink_state:
  assumes "tasks s h = Some t" and "irq_room 1 s"
  shows "task_unlink h s = Inr (with_q ((tasks s)(h \<mapsto> clear_flag TASK_LINKED t)) (pongo_sched_head s) (left s))"
  unfolding task_unlink_def critical_with_q [OF assms(2)]
  by (simp add: assms upd_with_q enable_with_q [OF assms(2)] del: upd_task_simps)

lemma task_unlink_spec:
  assumes "run_queue s q" and "tasks s h = Some t" and "irq_room 1 s"
  obtains T where "task_unlink h s = Inr (with_q T (head_of q) (left s))" and "queue_ok T q"
    and "same_but_links h (tasks s) T" and "\<not> flagged T TASK_LINKED h" and "T h = Some (clear_flag TASK_LINKED t)"
proof -
  let ?T = "(tasks s)(h \<mapsto> clear_flag TASK_LINKED t)"
  show thesis
    by (rule that [of ?T])
      (use assms task_unlink_state [OF assms(2,3)] queue_ok_upd [of "tasks s" q h t "clear_flag TASK_LINKED t"] in
        \<open>auto simp: run_queue_def same_but_links_def cores_def flagged_def\<close>)
qed

lemma task_set_sched_head_state:
  assumes "tasks s h = Some t" and "has_flag t TASK_LINKED" and "irq_room 1 s"
  shows "task_set_sched_head h s = Inr (with_q (tasks s) h (left s))"
  unfolding task_set_sched_head_def critical_with_q [OF assms(3)]
  by (simp add: assms deref_with_q enable_with_q [OF assms(3)] del: deref_simps)

text \<open>Making a queued task the head rotates the queue.\<close>

lemma task_set_sched_head_spec:
  assumes "run_queue s (xs @ h # ys)" and "tasks s h = Some t" and "has_flag t TASK_LINKED" and "irq_room 1 s"
  shows "task_set_sched_head h s = Inr (with_q (tasks s) h (left s)) \<and> run_queue (with_q (tasks s) h (left s)) (h # ys @ xs)"
  using assms task_set_sched_head_state [OF assms(2-4)] queue_rotate [of "tasks s" xs "h # ys"]
  by (simp add: run_queue_def)

end
