(* ===== verification/RoundRobin.thy ===== *)
theory RoundRobin
  imports QueueOps
begin

unbundle bit_operations_syntax

text \<open>
  The scheduler of \<open>src/src/kernel/entry.c\<close> serves its tasks round robin. The locale states what
  a rotating queue promises; the client's theorem is that a full round serves every waiting
  member exactly once. \<open>pongo_sched_tick\<close> is an instance for any tasks that give the CPU back
  without touching the queue, such as tasks that yield.
\<close>

section \<open>The interface\<close>

primrec repeat_tick :: "('s \<Rightarrow> error + 's) \<Rightarrow> nat \<Rightarrow> 's \<Rightarrow> error + 's" where
  "repeat_tick f 0 s = Inr s"
| "repeat_tick f (Suc n) s = bindE (f s) (repeat_tick f n)"

locale rotating_queue =
  fixes tick :: "'s \<Rightarrow> error + 's"
    and members :: "'s \<Rightarrow> 't list \<Rightarrow> bool"
    and served :: "'s \<Rightarrow> 't \<Rightarrow> 'n::semiring_1"
    and waiting :: "'s \<Rightarrow> 't \<Rightarrow> bool"
  assumes tick_rotates: "members s (h # q) \<Longrightarrow> \<exists>s'. tick s = Inr s' \<and> members s' (q @ [h])
      \<and> (\<forall>u. served s' u = served s u + (if u = h \<and> waiting s h then 1 else 0))
      \<and> (\<forall>u. waiting s' u = waiting s u)"
begin

lemma partial_round:
  assumes "members s (p @ q)" and "distinct p"
  shows "\<exists>s'. repeat_tick tick (length p) s = Inr s' \<and> members s' (q @ p)
    \<and> (\<forall>u. served s' u = served s u + (if u \<in> set p \<and> waiting s u then 1 else 0))
    \<and> (\<forall>u. waiting s' u = waiting s u)"
  using assms
proof (induction p arbitrary: s q)
  case Nil
  then show ?case by simp
next
  case (Cons h p)
  obtain t where t: "tick s = Inr t" "members t ((p @ q) @ [h])"
      "\<forall>u. served t u = served s u + (if u = h \<and> waiting s h then 1 else 0)" "\<forall>u. waiting t u = waiting s u"
    using tick_rotates [of s h "p @ q"] Cons.prems(1) by auto
  from Cons.IH [of t "q @ [h]"] t(2) Cons.prems(2)
  obtain s' where s': "repeat_tick tick (length p) t = Inr s'" "members s' ((q @ [h]) @ p)"
      "\<forall>u. served s' u = served t u + (if u \<in> set p \<and> waiting t u then 1 else 0)" "\<forall>u. waiting s' u = waiting t u"
    by auto
  have "h \<notin> set p" using Cons.prems(2) by simp
  then have "\<forall>u. served s' u = served s u + (if u \<in> set (h # p) \<and> waiting s u then 1 else 0)"
    using t(3,4) s'(3) by auto
  with t(1) s'(1,2,4) t(4) show ?case by auto
qed

text \<open>After one tick per member the queue is as before and everyone who waits has been served
  once.\<close>

theorem full_round:
  assumes "members s q" and "distinct q"
  shows "\<exists>s'. repeat_tick tick (length q) s = Inr s' \<and> members s' q
    \<and> (\<forall>u. served s' u = served s u + (if u \<in> set q \<and> waiting s u then 1 else 0))
    \<and> (\<forall>u. waiting s' u = waiting s u)"
  using partial_round [of s q "[]"] assms by simp

end

section \<open>The scheduler's view of the state\<close>

text \<open>As for the queue operations, states are computed on a form in which the parts the
  scheduler changes are explicit: the task table, the queue head, the current task, the
  translation table and the interrupt mask.\<close>

definition view :: "(u64 \<Rightarrow> task option) \<Rightarrow> u64 \<Rightarrow> u64 \<Rightarrow> u64 \<Rightarrow> u64 \<Rightarrow> bool \<Rightarrow> 'a kern_scheme \<Rightarrow> 'a kern_scheme" where
  "view T H C B D F s = s\<lparr>tasks := T, pongo_sched_head := H, task_current := C, ttbr1_el1 := B,
     dis_int_count := D, daif_unmasked := F\<rparr>"

lemma view_self:
  "view (tasks s) (pongo_sched_head s) (task_current s) (ttbr1_el1 s) (dis_int_count s) (daif_unmasked s) s = s"
  by (simp add: view_def)

lemma view_sel [simp]:
  "tasks (view T H C B D F s) = T" "pongo_sched_head (view T H C B D F s) = H"
  "task_current (view T H C B D F s) = C" "ttbr1_el1 (view T H C B D F s) = B"
  "dis_int_count (view T H C B D F s) = D" "daif_unmasked (view T H C B D F s) = F"
  "preempt_ctr (view T H C B D F s) = preempt_ctr s" "cpu (view T H C B D F s) = cpu s"
  by (simp_all add: view_def)

lemma view_upd [simp]:
  "(view T H C B D F s)\<lparr>tasks := T'\<rparr> = view T' H C B D F s"
  "(view T H C B D F s)\<lparr>pongo_sched_head := H'\<rparr> = view T H' C B D F s"
  "(view T H C B D F s)\<lparr>task_current := C'\<rparr> = view T H C' B D F s"
  "(view T H C B D F s)\<lparr>ttbr1_el1 := B'\<rparr> = view T H C B' D F s"
  "(view T H C B D F s)\<lparr>dis_int_count := D'\<rparr> = view T H C B D' F s"
  "(view T H C B D F s)\<lparr>daif_unmasked := F'\<rparr> = view T H C B D F' s"
  "(view T H C B D F s)\<lparr>cpu := c\<rparr> = view T H C B D F (s\<lparr>cpu := c\<rparr>)"
  by (simp_all add: view_def)

lemma view_disable: "disable_interrupts (view T H C B D F s) =
    (if D + 1 = 0 then Inl (Panic ''irq over-disable'') else Inr (view T H C B (D + 1) False s))"
  by (simp add: disable_interrupts_def Let_def)

lemma view_enable: "enable_interrupts (view T H C B D F s) =
    (if D = 0 then Inl (Panic ''irq over-enable'') else Inr (view T H C B (D - 1) (F \<or> D = 1) s))"
  by (auto simp: enable_interrupts_def Let_def)

lemma view_upd_task:
  "upd_task h f (view T H C B D F s) = (case T h of None \<Rightarrow> Inl BadAccess | Some t \<Rightarrow> Inr (view (T(h \<mapsto> f t)) H C B D F s))"
  by (simp add: upd_task_def deref_def split: option.split)

lemma view_deref: "deref tasks h (view T H C B D F s) = (case T h of None \<Rightarrow> Inl BadAccess | Some t \<Rightarrow> Inr t)"
  by (simp add: deref_def)

lemmas view_simps = view_disable view_enable view_upd_task view_deref

text \<open>A context switch saves registers and translation table of the old task, loads those of the new one,
  counts its run and leaves one critical section.\<close>

lemma task_switch_asserted_view:
  assumes "T C = Some tc" and "T new = Some tn" and "new \<noteq> C" and "D \<noteq> 0"
  shows "task_switch_asserted new (view T H C B D F s) =
    Inr (view (T(C \<mapsto> save_context C (cpu s) B tc, new \<mapsto> tn\<lparr>runcnt := runcnt tn + 1\<rparr>)) H new (t_ttbr1 tn)
      (D - 1) (F \<or> D = 1) (s\<lparr>cpu := load_context tn\<rparr>))"
  using assms not_sym [OF assms(3)]
  by (simp add: task_switch_asserted_def task_load_asserted_def view_simps del: upd_task_simps deref_simps)

section \<open>Tasks that give the CPU back\<close>

definition runs :: "(u64 \<Rightarrow> task option) \<Rightarrow> u64 \<Rightarrow> u64" where
  "runs T h = (case T h of Some t \<Rightarrow> runcnt t | None \<Rightarrow> 0)"

text \<open>\<open>T'\<close> differs from \<open>T\<close> in nothing the queue or the flags say, and only the scheduler's own
  run count has moved.\<close>

definition quiet :: "(u64 \<Rightarrow> task option) \<Rightarrow> (u64 \<Rightarrow> task option) \<Rightarrow> bool" where
  "quiet T T' \<longleftrightarrow> (\<forall>u. (T' u = None \<longleftrightarrow> T u = None) \<and> tnext T' u = tnext T u \<and> tprev T' u = tprev T u
     \<and> (\<forall>f. flagged T' f u = flagged T f u) \<and> (u \<noteq> sched_task \<longrightarrow> runs T' u = runs T u))"

definition yields :: "(u64 \<Rightarrow> 'a kern_scheme \<Rightarrow> error + 'a kern_scheme) \<Rightarrow> bool" where
  "yields run \<longleftrightarrow> (\<forall>t s. dis_int_count s = 0 \<and> task_current s = t \<and> t \<noteq> sched_task \<and> tasks s t \<noteq> None \<and> tasks s sched_task \<noteq> None \<longrightarrow>
     (\<exists>s'. run t s = Inr s' \<and> dis_int_count s' = 0 \<and> task_current s' = sched_task
        \<and> pongo_sched_head s' = pongo_sched_head s \<and> quiet (tasks s) (tasks s')))"

lemma quiet_queue: "queue_ok T q \<Longrightarrow> quiet T T' \<Longrightarrow> queue_ok T' q"
  by (rule queue_ok_cong) (auto simp: quiet_def queue_ok_def)

lemma quiet_refl: "quiet T T"
  by (simp add: quiet_def)

text \<open>What a switch away from the scheduler leaves of the table, and a switch back to it.\<close>

lemma save_context_fields [simp]:
  "t_next (save_context h c b t) = t_next t" "t_prev (save_context h c b t) = t_prev t"
  "t_flags (save_context h c b t) = t_flags t" "runcnt (save_context h c b t) = runcnt t"
  "t_ttbr1 (save_context h c b t) = b" "t_x (save_context h c b t) 16 = 0" "has_flag (save_context h c b t) f = has_flag t f"
  "irq_ret (save_context h c b t) = irq_ret t"
  by (simp_all add: save_context_def has_flag_def)

lemma quiet_save: "T h = Some t \<Longrightarrow> quiet T (T(h \<mapsto> save_context h' c b t))"
  by (auto simp: quiet_def tnext_def tprev_def flagged_def runs_def)

lemma quiet_sched_run: "T sched_task = Some t \<Longrightarrow> quiet T (T(sched_task \<mapsto> t\<lparr>runcnt := n\<rparr>))"
  by (auto simp: quiet_def tnext_def tprev_def flagged_def runs_def)

lemma quiet_trans: "quiet T U \<Longrightarrow> quiet U V \<Longrightarrow> quiet T V"
  by (auto simp: quiet_def)

lemma yields_task_yield: "yields (\<lambda>_. task_yield)"
  unfolding yields_def
proof (intro allI impI, elim conjE)
  fix t and s :: "'a kern_scheme"
  assume a: "dis_int_count s = 0" "task_current s = t" "t \<noteq> sched_task" "tasks s t \<noteq> None" "tasks s sched_task \<noteq> None"
  then obtain tc ts where t: "tasks s t = Some tc" "tasks s sched_task = Some ts" by auto
  let ?T = "(tasks s)(t \<mapsto> save_context t (cpu s) (ttbr1_el1 s) tc)" and ?s = "s\<lparr>cpu := load_context ts\<rparr>"
  let ?U = "?T(sched_task \<mapsto> ts\<lparr>runcnt := runcnt ts + 1\<rparr>)"
  have "task_yield s = task_yield (view (tasks s) (pongo_sched_head s) t (ttbr1_el1 s) 0 (daif_unmasked s) s)"
    using view_self [of s] a by simp
  also have "\<dots> = Inr (view ?U (pongo_sched_head s) sched_task (t_ttbr1 ts) 0 True ?s)"
    using t a(3) by (simp add: task_yield_def view_disable task_switch_asserted_view [where tc = tc and tn = ts])
  finally have y: "task_yield s = Inr (view ?U (pongo_sched_head s) sched_task (t_ttbr1 ts) 0 True ?s)" .
  have "quiet (tasks s) ?U"
    using quiet_trans [OF quiet_save [of "tasks s" t tc t "cpu s" "ttbr1_el1 s"] quiet_sched_run [of ?T ts "runcnt ts + 1"]] t a(3) by simp
  with y show "\<exists>s'. task_yield s = Inr s' \<and> dis_int_count s' = 0 \<and> task_current s' = sched_task \<and>
      pongo_sched_head s' = pongo_sched_head s \<and> quiet (tasks s) (tasks s')" by simp
qed

section \<open>One tick\<close>

definition sched_ok :: "'a kern_scheme \<Rightarrow> u64 list \<Rightarrow> bool" where
  "sched_ok s q \<longleftrightarrow> run_queue s q \<and> dis_int_count s = 0 \<and> task_current s = sched_task \<and> sched_task \<in> set q
     \<and> (\<forall>u. \<not> flagged (tasks s) TASK_PLEASE_DEREF u)"

definition wants_cpu :: "'a kern_scheme \<Rightarrow> u64 \<Rightarrow> bool" where
  "wants_cpu s u \<longleftrightarrow> u \<noteq> sched_task \<and> flagged (tasks s) TASK_LINKED u"

definition served :: "'a kern_scheme \<Rightarrow> u64 \<Rightarrow> u64" where
  "served s u = (if u = sched_task then 0 else runs (tasks s) u)"

lemma sched_ok_rotate:
  assumes "sched_ok s (h # q)" and "quiet (tasks s) (tasks s')" and "dis_int_count s' = 0" and "task_current s' = sched_task"
    and "pongo_sched_head s' = tnext (tasks s) h"
  shows "sched_ok s' (q @ [h])"
proof -
  have qo: "queue_ok (tasks s) (h # q)" using assms(1) by (simp add: sched_ok_def run_queue_def)
  then have "queue_ok (tasks s) (q @ [h])" using queue_rotate [of "tasks s" "[h]" q] by simp
  then have q': "queue_ok (tasks s') (q @ [h])" by (rule quiet_queue [OF _ assms(2)])
  have "tnext (tasks s) h = hd (q @ [h])" using qo ring_next by (auto simp: queue_ok_def)
  then have "pongo_sched_head s' = head_of (q @ [h])" using assms(5) by (cases q) simp_all
  with q' assms show ?thesis by (auto simp: sched_ok_def run_queue_def quiet_def)
qed

lemma sched_tick_rotates:
  assumes "sched_ok s (h # q)" and "yields run"
  shows "\<exists>r s'. pongo_sched_tick n run s = Inr (r, s') \<and> sched_ok s' (q @ [h])
    \<and> (\<forall>u. served s' u = served s u + (if u = h \<and> wants_cpu s h then 1 else 0))
    \<and> (\<forall>u. wants_cpu s' u = wants_cpu s u)"
proof -
  have a: "pongo_sched_head s = h" "dis_int_count s = 0" "task_current s = sched_task" "queue_ok (tasks s) (h # q)"
    using assms(1) by (simp_all add: sched_ok_def run_queue_def)
  obtain t where t: "tasks s h = Some t" "h \<noteq> 0" using queue_task [OF a(4), of h] by auto
  have sq: "sched_task \<in> set (h # q)" using assms(1) by (simp add: sched_ok_def)
  obtain ts where ts: "tasks s sched_task = Some ts" using queue_task [OF a(4) sq] by auto
  have nd: "\<not> has_flag t TASK_PLEASE_DEREF"
    using assms(1) t by (auto simp: sched_ok_def flagged_def dest: spec [of _ h])
  have nx: "tnext (tasks s) h = t_next t" using t by (simp add: tnext_def)
  have v: "s = view (tasks s) h sched_task (ttbr1_el1 s) 0 (daif_unmasked s) s"
    using view_self [of s] a by simp
  have start: "pongo_sched_tick n run s = pongo_sched_tick n run (view (tasks s) h sched_task (ttbr1_el1 s) 0 (daif_unmasked s) s)"
    using arg_cong [OF v, of "pongo_sched_tick n run"] .
  show ?thesis
  proof (cases "h \<noteq> sched_task \<and> has_flag t TASK_LINKED")
    case False
    let ?s = "view (tasks s) (t_next t) sched_task (ttbr1_el1 s) 0 True s"
    have "\<exists>r. pongo_sched_tick n run s = Inr (r, ?s)"
      unfolding start using False t nd
      by (auto simp: pongo_sched_tick_def view_simps Let_def simp del: upd_task_simps deref_simps)
    moreover have "sched_ok ?s (q @ [h])"
      by (rule sched_ok_rotate [OF assms(1)]) (simp_all add: quiet_refl nx)
    moreover have "\<not> wants_cpu s h" using False t by (auto simp: wants_cpu_def flagged_def)
    ultimately show ?thesis by (auto simp: served_def wants_cpu_def)
  next
    case True
    let ?T = "(tasks s)(sched_task \<mapsto> save_context sched_task (cpu s) (ttbr1_el1 s) ts)"
    let ?U = "?T(h \<mapsto> t\<lparr>runcnt := runcnt t + 1\<rparr>)"
    let ?s = "view ?U (t_next t) h (t_ttbr1 t) 0 True (s\<lparr>cpu := load_context t\<rparr>)"
    have neq: "h \<noteq> sched_task" "sched_task \<noteq> h" using True by auto
    obtain s1 where s1: "run h ?s = Inr s1" "dis_int_count s1 = 0" "task_current s1 = sched_task"
        "pongo_sched_head s1 = t_next t" "quiet ?U (tasks s1)"
      using assms(2) neq unfolding yields_def by (auto simp: dest!: spec [of _ h] spec [of _ ?s])
    define s2 where "s2 = (if preempt_ctr s1 \<noteq> 0 then s1\<lparr>preempt_ctr := 0\<rparr> else s1)\<lparr>daif_unmasked := True\<rparr>"
    have "\<exists>r. pongo_sched_tick n run s = Inr (r, s2)"
    proof -
      have "pongo_sched_tick n run s = bindE (bindE (disable_interrupts s1) (\<lambda>s.
          if preempt_ctr s \<noteq> 0 then Inr (1, s\<lparr>preempt_ctr := 0\<rparr>) else Inr (0, s))) (\<lambda>(r, s). bindE (enable_interrupts s) (\<lambda>s. Inr (r, s)))"
        unfolding start using True t nd ts s1(1) neq
        by (simp add: pongo_sched_tick_def view_simps Let_def task_switch_asserted_view [where tc = ts and tn = t]
            del: upd_task_simps deref_simps)
      then show ?thesis using s1(2)
        by (auto simp: s2_def disable_interrupts_def enable_interrupts_def Let_def)
    qed
    moreover have s2: "tasks s2 = tasks s1" "dis_int_count s2 = 0" "task_current s2 = sched_task" "pongo_sched_head s2 = t_next t"
      using s1 by (simp_all add: s2_def)
    have tab: "tnext ?U u = tnext (tasks s) u" "tprev ?U u = tprev (tasks s) u" "flagged ?U f u = flagged (tasks s) f u"
      "?U u = None \<longleftrightarrow> tasks s u = None" for u f
      using t ts by (auto simp: tnext_def tprev_def flagged_def)
    have rn: "runs ?U u = runs (tasks s) u + (if u = h then 1 else 0)" if "u \<noteq> sched_task" for u
      using that t by (simp add: runs_def)
    have fl: "flagged (tasks s2) f u = flagged (tasks s) f u" for f u
      using s1(5) s2(1) tab by (simp add: quiet_def)
    have "sched_ok s2 (q @ [h])"
    proof -
      have "tasks s 0 = None" using a(4) by (simp add: queue_ok_def)
      then have "?U 0 = None" by (rule iffD2 [OF tab(4)])
      then have "queue_ok ?U (h # q)" by (rule queue_ok_cong [OF a(4) tab(1-3)])
      then have "queue_ok (tasks s2) (h # q)" using quiet_queue [OF _ s1(5)] s2(1) by simp
      then have q: "queue_ok (tasks s2) (q @ [h])" using queue_rotate [of "tasks s2" "[h]" q] by simp
      have "ring (tnext (tasks s)) (tprev (tasks s)) (h # q)" using a(4) by (simp add: queue_ok_def)
      from ring_next [OF this] have "t_next t = hd (q @ [h])" using nx by simp
      then have "pongo_sched_head s2 = head_of (q @ [h])" using s2 by (cases q) simp_all
      with q s2 sq fl assms(1) show ?thesis by (auto simp: sched_ok_def run_queue_def)
    qed
    moreover have "served s2 u = served s u + (if u = h \<and> wants_cpu s h then 1 else 0)" for u
      using True t neq rn s1(5) s2(1) by (auto simp: served_def wants_cpu_def flagged_def quiet_def)
    moreover have "wants_cpu s2 u = wants_cpu s u" for u using fl by (simp add: wants_cpu_def)
    ultimately show ?thesis by blast
  qed
qed

section \<open>The scheduler is a rotating queue\<close>

definition tick_state :: "nat \<Rightarrow> (u64 \<Rightarrow> 'a kern_scheme \<Rightarrow> error + 'a kern_scheme) \<Rightarrow> 'a kern_scheme \<Rightarrow> error + 'a kern_scheme" where
  "tick_state n run s = bindE (pongo_sched_tick n run s) (\<lambda>(r, s). Inr s)"

interpretation rr: rotating_queue "tick_state n run" "\<lambda>s q. yields run \<and> sched_ok s q" served wants_cpu
  for n run
proof unfold_locales
  fix s :: "'a kern_scheme" and h q
  assume a: "yields run \<and> sched_ok s (h # q)"
  obtain r s' where "pongo_sched_tick n run s = Inr (r, s')" "sched_ok s' (q @ [h])"
      "\<forall>u. served s' u = served s u + (if u = h \<and> wants_cpu s h then 1 else 0)" "\<forall>u. wants_cpu s' u = wants_cpu s u"
    using sched_tick_rotates [of s h q run n] a by blast
  with a show "\<exists>s'. tick_state n run s = Inr s' \<and> (yields run \<and> sched_ok s' (q @ [h]))
      \<and> (\<forall>u. served s' u = served s u + (if u = h \<and> wants_cpu s h then 1 else 0)) \<and> (\<forall>u. wants_cpu s' u = wants_cpu s u)"
    by (intro exI [of _ s']) (simp add: tick_state_def)
qed

end
