(* ===== verification/SchedClaims.thy ===== *)
theory SchedClaims
  imports RoundRobin VmClaims
begin

unbundle bit_operations_syntax

text \<open>
  The properties of the scheduler: the run queue refines a list, a round serves everybody,
  events wake all their waiters.
\<close>

section \<open>A small system\<close>

text \<open>The machine of the virtual-memory properties with three tasks in the queue: the
  scheduler's, a linked one at \<open>0x20\<close> that waits for the CPU, and one at \<open>0x30\<close> that does not.\<close>

definition ex_task :: "u32 \<Rightarrow> u64 \<Rightarrow> u64 \<Rightarrow> task" where
  "ex_task fl nx pv = zero_task\<lparr>t_flags := fl, t_next := nx, t_prev := pv, t_refcount := 1, t_vm_space := 1, t_proc := 0\<rparr>"

definition ex_tasks :: "u64 \<Rightarrow> task option" where
  "ex_tasks = [0x10 \<mapsto> ex_task 0x42 0x20 0x30, 0x20 \<mapsto> ex_task 0x4b 0x30 0x10, 0x30 \<mapsto> ex_task 0x49 0x10 0x20]"

definition ex_kern :: "kern" where
  "ex_kern = \<lparr>dis_int_count = 0, daif_unmasked = True, physBase = 0x800000000, memSize = 0x10000,
     topOfKernelData = 0x817000000, early_heap_base = 0x400000000, autoboot_block = 0,
     ppage_list = [0xffffff, 1, 0, 0], ppages = 4, free_pages = 2, wired_pages = 1,
     alloc_static_base = 0x417000000, alloc_static_current = 0x417000000,
     alloc_static_end = 0x417fe0000, pa_head = 0x800008000,
     pmem = (\<lambda>_. 0)(0x800008000 := 0x80000c000, 0x80000c008 := 0x800008000, 0x900003800 := 0x900004003),
     ttb_freelist = 0, ttb_alloc_base = 0, ttb_alloc_is_early = False, is_16k_v = True,
     tt_bits = 11, t0sz = 28, t1sz = 28, tlbi = [], asid_table = 1 # replicate 31 0,
     spaces = [1 \<mapsto> ex_space], linear_kvm_cursor = 0x120000000, linear_kvm_end = 0x180000000,
     paging_requests = 0, kttbr0 = 0, kttbr1 = 0, ram_phys_off = 0, ram_phys_size = 0, g_phys_off = 0,
     gPongoSlide = 0, files = Map.empty, filedescs = Map.empty, filetables = Map.empty,
     tasks = ex_tasks, procs = Map.empty, task_current = sched_task, ttbr1_el1 = 0x900000000,
     pongo_sched_head = sched_task, irqvecs = replicate 512 0, irq_unmasked = {}, served_irqs = 0,
     gPid = 4, stack_freelist = 0, preempt_ctr = 0, preemption_counter = 0, preemption_over = False,
     events = (\<lambda>_. 0),
     cpu = \<lparr>x_regs = \<lambda>_. 0, lr_reg = 0x40, sp_el0 = 0x7000, sp_el1 = 0x8000, spsel = False, d_regs = \<lambda>_. 0\<rparr>\<rparr>"

lemma ex_kern_sel [simp]:
  "tasks ex_kern = ex_tasks" "pongo_sched_head ex_kern = sched_task" "task_current ex_kern = sched_task"
  "dis_int_count ex_kern = 0" "daif_unmasked ex_kern = True" "events ex_kern = (\<lambda>_. 0)" "irqvecs ex_kern = replicate 512 0"
  "spaces ex_kern = [1 \<mapsto> ex_space]" "preempt_ctr ex_kern = 0" "procs ex_kern = Map.empty" "stack_freelist ex_kern = 0"
  "ttbr1_el1 ex_kern = 0x900000000"
  by (simp_all add: ex_kern_def)

lemma ex_tasks_sel [simp]:
  "ex_tasks 0x10 = Some (ex_task 0x42 0x20 0x30)" "ex_tasks 0x20 = Some (ex_task 0x4b 0x30 0x10)"
  "ex_tasks 0x30 = Some (ex_task 0x49 0x10 0x20)" "ex_tasks 0 = None"
  by (simp_all add: ex_tasks_def)

lemma ex_task_sel [simp]:
  "t_next (ex_task fl nx pv) = nx" "t_prev (ex_task fl nx pv) = pv" "t_flags (ex_task fl nx pv) = fl"
  "has_flag (ex_task fl nx pv) f \<longleftrightarrow> fl AND f \<noteq> 0" "eq_next (ex_task fl nx pv) = 0" "runcnt (ex_task fl nx pv) = 0"
  "irq_ret (ex_task fl nx pv) = 0" "irq_type (ex_task fl nx pv) = 0" "t_refcount (ex_task fl nx pv) = 1"
  by (simp_all add: ex_task_def zero_task_def has_flag_def)

lemma ex_tasks_dom: "ex_tasks u = Some t \<Longrightarrow> u = 0x10 \<or> u = 0x20 \<or> u = 0x30"
  by (auto simp: ex_tasks_def split: if_splits)

lemma ex_flagged: "flagged ex_tasks f u \<longleftrightarrow> (u = 0x10 \<and> 0x42 AND f \<noteq> 0) \<or> (u = 0x20 \<and> 0x4b AND f \<noteq> 0) \<or> (u = 0x30 \<and> 0x49 AND f \<noteq> 0)"
proof (cases "ex_tasks u")
  case (Some t)
  from ex_tasks_dom [OF Some] show ?thesis by (elim disjE) (simp_all add: flagged_def)
qed (auto simp: flagged_def)

lemma ex_queue: "queue_ok ex_tasks [0x10, 0x20, 0x30]"
  by (auto simp: queue_ok_def ring_def tnext_def tprev_def ex_flagged TASK_WAS_LINKED_def)

lemma ex_run_queue: "run_queue ex_kern [0x10, 0x20, 0x30]"
  using ex_queue by (simp add: run_queue_def sched_task_def)

lemma ex_sched_ok: "sched_ok ex_kern [0x10, 0x20, 0x30]"
  using ex_run_queue by (simp add: sched_ok_def sched_task_def ex_flagged TASK_PLEASE_DEREF_def)

section \<open>Properties\<close>

text \<open>C7 The scheduler is fair: as long as tasks give the CPU back without touching the queue,
  one tick per queued task returns, leaves the queue as it was, and has run every linked task
  exactly once (its run count is one higher) and no other.\<close>

lemma scheduler_round_robin:
  assumes "yields run" and "sched_ok s q"
  shows "\<exists>s'. repeat_tick (tick_state n run) (length q) s = Inr s' \<and> sched_ok s' q
    \<and> (\<forall>u. u \<noteq> sched_task \<longrightarrow>
         runs (tasks s') u = runs (tasks s) u + (if u \<in> set q \<and> flagged (tasks s) TASK_LINKED u then 1 else 0))"
proof -
  have "distinct q" using assms(2) by (auto simp: sched_ok_def run_queue_def queue_ok_def ring_def)
  then obtain s' where s': "repeat_tick (tick_state n run) (length q) s = Inr s'" "sched_ok s' q"
      "\<forall>u. served s' u = served s u + (if u \<in> set q \<and> wants_cpu s u then 1 else 0)"
    using rr.full_round [of run s q n] assms by auto
  have "runs (tasks s') u = runs (tasks s) u + (if u \<in> set q \<and> flagged (tasks s) TASK_LINKED u then 1 else 0)"
    if "u \<noteq> sched_task" for u using s'(3) [rule_format, of u] that by (simp add: served_def wants_cpu_def)
  with s' show ?thesis by blast
qed

lemma scheduler_round_robin_witness:
  "\<exists>s'. repeat_tick (tick_state 1 (\<lambda>_. task_yield)) 3 ex_kern = Inr s' \<and> runs (tasks s') 0x20 = 1 \<and> runs (tasks s') 0x30 = 0"
proof -
  obtain s' where s': "repeat_tick (tick_state 1 (\<lambda>_. task_yield)) (length [0x10, 0x20, 0x30 :: u64]) ex_kern = Inr s'"
      "\<forall>u. u \<noteq> sched_task \<longrightarrow> runs (tasks s') u = runs (tasks ex_kern) u
         + (if u \<in> set [0x10, 0x20, 0x30] \<and> flagged (tasks ex_kern) TASK_LINKED u then 1 else 0)"
    using scheduler_round_robin [OF yields_task_yield ex_sched_ok, of 1] by blast
  have l: "length [0x10, 0x20, 0x30 :: u64] = 3" by simp
  have "runs (tasks s') 0x20 = 1" "runs (tasks s') 0x30 = 0"
    using s'(2) [rule_format, of "0x20"] s'(2) [rule_format, of "0x30"]
    by (simp_all add: sched_task_def ex_flagged TASK_LINKED_def) (simp_all add: runs_def)
  with s'(1) show ?thesis unfolding l by blast
qed

text \<open>What a queue operation does to the queue: it returns, with the list \<open>q'\<close>.\<close>

definition queue_step :: "'a kern_scheme \<Rightarrow> u64 \<Rightarrow> (error + 'a kern_scheme) \<Rightarrow> u64 list \<Rightarrow> bool" where
  "queue_step s h r q' \<longleftrightarrow> (\<exists>s'. r = Inr s' \<and> run_queue s' q' \<and> same_but_links h (tasks s) (tasks s')
     \<and> dis_int_count s' = dis_int_count s)"

lemma left_sel [simp]: "dis_int_count (left s) = dis_int_count s" "tasks (left s) = tasks s" "events (left s) = events s"
  by (simp_all add: left_def)

lemma events_with_q [simp]: "events (with_q T H s) = events s"
  by (simp add: with_q_def)

text \<open>C8 The run queue refines a list of tasks: linking a task puts it at the front and the old
  head at the back (or leaves the queue alone if the task was in it), unlinking for good removes
  it, making a linked member the head rotates the list to it; links, prev and next agree
  throughout and no other field of any task changes.\<close>

lemma run_queue_refines_list:
  assumes "run_queue s q" and "tasks s h = Some t" and "irq_room 1 s"
  shows "queue_step s h (task_link h s) (linked_queue h q)
    \<and> (h \<in> set q \<longrightarrow> queue_step s h (task_real_unlink h s) (remove1 h q))
    \<and> (\<forall>xs ys. q = xs @ h # ys \<longrightarrow> has_flag t TASK_LINKED \<longrightarrow> queue_step s h (task_set_sched_head h s) (h # ys @ xs))"
proof (intro conjI allI impI)
  obtain T where "task_link h s = Inr (with_q T (head_of (linked_queue h q)) (left s))" "queue_ok T (linked_queue h q)"
      "same_but_links h (tasks s) T"
    using task_link_spec [OF assms] by metis
  then show "queue_step s h (task_link h s) (linked_queue h q)" by (simp add: queue_step_def)
next
  assume "h \<in> set q"
  then obtain T where "task_real_unlink h s = Inr (with_q T (head_of (remove1 h q)) (left s))" "queue_ok T (remove1 h q)"
      "same_but_links h (tasks s) T"
    using task_real_unlink_spec [OF assms] by metis
  then show "queue_step s h (task_real_unlink h s) (remove1 h q)" by (simp add: queue_step_def)
next
  fix xs ys assume "q = xs @ h # ys" "has_flag t TASK_LINKED"
  then show "queue_step s h (task_set_sched_head h s) (h # ys @ xs)"
    using task_set_sched_head_spec [of s xs h ys t] assms by (simp add: queue_step_def same_but_links_def)
qed

lemma run_queue_refines_list_witness:
  "queue_step ex_kern 0x20 (task_real_unlink 0x20 ex_kern) [0x10, 0x30]"
  using run_queue_refines_list [OF ex_run_queue, of "0x20"] by (simp add: irq_room_def)

section \<open>Events\<close>

definition enext :: "(u64 \<Rightarrow> task option) \<Rightarrow> u64 \<Rightarrow> u64" where
  "enext T h = (case T h of Some t \<Rightarrow> eq_next t | None \<Rightarrow> 0)"

text \<open>The tasks that wait: the chain from the event through \<open>eq_next\<close>.\<close>

fun waiters :: "(u64 \<Rightarrow> task option) \<Rightarrow> u64 \<Rightarrow> u64 list \<Rightarrow> bool" where
  "waiters T h [] \<longleftrightarrow> h = 0"
| "waiters T h (w # ws) \<longleftrightarrow> h = w \<and> w \<noteq> 0 \<and> T w \<noteq> None \<and> waiters T (enext T w) ws"

lemma core_eq_next: "core t = core u \<Longrightarrow> eq_next t = eq_next u"
proof -
  have sel: "eq_next (core x) = eq_next x" for x by (simp add: core_def)
  assume "core t = core u"
  then have "eq_next (core t) = eq_next (core u)" by (rule arg_cong)
  then show ?thesis by (simp only: sel)
qed

lemma cores_enext: "cores T' = cores T \<Longrightarrow> enext T' h = enext T h \<and> (T' h = None \<longleftrightarrow> T h = None)"
proof -
  assume "cores T' = cores T"
  then have "map_option core (T' h) = map_option core (T h)" by (auto simp: cores_def dest: fun_cong [of _ _ h])
  then show ?thesis
    by (cases "T h"; cases "T' h") (auto simp: enext_def dest: core_eq_next)
qed

lemma waiters_cores: "cores T' = cores T \<Longrightarrow> waiters T h ws \<Longrightarrow> waiters T' h ws"
proof (induction ws arbitrary: h)
  case (Cons w ws)
  then show ?case using cores_enext [OF Cons.prems(1), of w] by simp
qed simp

lemma same_flagged: "same_but_links h T T' \<Longrightarrow> u \<noteq> h \<Longrightarrow> flagged T' f u = flagged T f u"
proof -
  assume "same_but_links h T T'" and "u \<noteq> h"
  then have "map_option t_flags (T' u) = map_option t_flags (T u)" by (simp add: same_but_links_def)
  then show ?thesis by (cases "T u"; cases "T' u") (auto simp: flagged_def has_flag_def)
qed

lemma link_waiters_spec:
  assumes "run_queue s q" and "waiters (tasks s) h ws" and "irq_room 1 s" and "length ws < n"
  shows "\<exists>s'. link_waiters n h s = Inr s' \<and> run_queue s' (fold linked_queue ws q) \<and> cores (tasks s') = cores (tasks s)
    \<and> (\<forall>u. flagged (tasks s') TASK_LINKED u \<longleftrightarrow> u \<in> set ws \<or> flagged (tasks s) TASK_LINKED u)
    \<and> dis_int_count s' = dis_int_count s \<and> events s' = events s"
  using assms
proof (induction ws arbitrary: s q h n)
  case Nil
  then show ?case by (cases n) auto
next
  case (Cons w ws)
  then obtain m where n: "n = Suc m" by (cases n) auto
  have w: "h = w" "w \<noteq> 0" using Cons.prems(2) by auto
  obtain t where t: "tasks s w = Some t" using Cons.prems(2) by auto
  obtain T where T: "task_link w s = Inr (with_q T (head_of (linked_queue w q)) (left s))"
      "queue_ok T (linked_queue w q)" "same_but_links w (tasks s) T" "flagged T TASK_LINKED w"
    using task_link_spec [OF Cons.prems(1) t Cons.prems(3)] by metis
  let ?s = "with_q T (head_of (linked_queue w q)) (left s)"
  have c: "cores T = cores (tasks s)" using T(3) by (simp add: same_but_links_def)
  obtain t' where t': "T w = Some t'" using cores_enext [OF c, of w] t by auto
  have ch: "waiters T (eq_next t') ws"
    using waiters_cores [OF c] Cons.prems(2) cores_enext [OF c, of w] t' by (auto simp: enext_def)
  have "\<exists>s'. link_waiters m (eq_next t') ?s = Inr s' \<and> run_queue s' (fold linked_queue ws (linked_queue w q))
    \<and> cores (tasks s') = cores (tasks ?s)
    \<and> (\<forall>u. flagged (tasks s') TASK_LINKED u \<longleftrightarrow> u \<in> set ws \<or> flagged (tasks ?s) TASK_LINKED u)
    \<and> dis_int_count s' = dis_int_count ?s \<and> events s' = events ?s"
    by (rule Cons.IH) (use T ch Cons.prems n in \<open>simp_all add: irq_room_def\<close>)
  moreover have "flagged T TASK_LINKED u \<longleftrightarrow> u = w \<or> flagged (tasks s) TASK_LINKED u" for u
    using T(4) same_flagged [OF T(3)] by (cases "u = w") auto
  ultimately show ?case using w n T(1) t' c by (simp add: deref_def) blast
qed

text \<open>No wake-up is lost: firing an event links every task that waits for it, keeps the run
  queue consistent, unlinks nobody and leaves the event without waiters.\<close>

lemma event_fire_wakes_all:
  assumes "run_queue s q" and "waiters (tasks s) (events s ev) ws" and "irq_room 2 s" and "length ws < n"
  shows "\<exists>s'. event_fire n ev s = Inr s' \<and> run_queue s' (fold linked_queue ws q) \<and> events s' ev = 0
    \<and> (\<forall>u. flagged (tasks s') TASK_LINKED u \<longleftrightarrow> u \<in> set ws \<or> flagged (tasks s) TASK_LINKED u)
    \<and> dis_int_count s' = dis_int_count s"
proof -
  have r: "irq_room 1 s" using irq_room_mono [OF assms(3)] by simp
  have nm: "dis_int_count s + 1 \<noteq> 0" using irq_room_not_max [OF r] by (auto simp: add_eq_0_iff2)
  let ?s = "s\<lparr>dis_int_count := dis_int_count s + 1, daif_unmasked := False\<rparr>"
  have "irq_room 1 ?s" using irq_room_Suc(1) [of 1 s ?s] assms(3) by (simp add: numeral_2_eq_2)
  then obtain s1 where s1: "link_waiters n (events s ev) ?s = Inr s1" "run_queue s1 (fold linked_queue ws q)"
      "\<forall>u. flagged (tasks s1) TASK_LINKED u \<longleftrightarrow> u \<in> set ws \<or> flagged (tasks s) TASK_LINKED u"
      "dis_int_count s1 = dis_int_count s + 1"
    using link_waiters_spec [of ?s q "events s ev" ws n] assms(1,2,4) by (auto simp: run_queue_def)
  then show ?thesis
    using nm unfolding event_fire_def critical_eq [OF r]
    by (simp add: enable_interrupts_def Let_def run_queue_def)
qed

lemma event_fire_wakes_all_witness:
  "\<exists>s'. event_fire 2 0x99 (ex_kern\<lparr>events := (\<lambda>_. 0)(0x99 := 0x30)\<rparr>) = Inr s' \<and> flagged (tasks s') TASK_LINKED 0x30"
proof -
  let ?s = "ex_kern\<lparr>events := (\<lambda>_. 0)(0x99 := 0x30)\<rparr>"
  have "run_queue ?s [0x10, 0x20, 0x30]" using ex_queue by (simp add: run_queue_def sched_task_def)
  moreover have "waiters (tasks ?s) (events ?s 0x99) [0x30]" by (simp add: enext_def)
  ultimately show ?thesis using event_fire_wakes_all [of ?s "[0x10, 0x20, 0x30]" "0x99" "[0x30]" 2] by (auto simp: irq_room_def)
qed

end
