(* ===== verification/KernelClaims.thy ===== *)
theory KernelClaims
  imports SchedClaims
begin

unbundle bit_operations_syntax

text \<open>
  Properties of context switches, interrupts, exits, kernel stacks and task destruction.
\<close>

section \<open>Context switches\<close>

text \<open>C9 A context switch is undone by the switch back. With interrupts disabled once,
  \<open>_task_switch_asserted\<close> makes the new task current, on its own translation table and with the
  registers saved in it, counts its run, enables interrupts, and changes in the task it leaves the
  saved context only (\<open>save_context\<close>: registers, stack pointers, \<open>spsel\<close>, translation table).
  Whatever the new task then does to the registers (\<open>c\<close>), disabling interrupts and switching back
  makes the old task current again with the translation table, return address, both stack pointers,
  stack selection, x3 to x15, x18 to x29 and d8 to d15 it had, up to the call of
  \<open>enable_interrupts\<close> that ends the switch; x2 is the task, x16 and x17 are 0. No other task
  changes.\<close>

lemma context_switch_roundtrip:
  assumes "tasks s old = Some tc" and "tasks s new = Some tn" and "old \<noteq> new" and "task_current s = old"
    and "dis_int_count s = 1"
  shows "\<exists>s1. task_switch_asserted new s = Inr s1 \<and> task_current s1 = new \<and> ttbr1_el1 s1 = t_ttbr1 tn
    \<and> cpu s1 = load_context tn \<and> dis_int_count s1 = 0
    \<and> tasks s1 = (tasks s)(old \<mapsto> save_context old (cpu s) (ttbr1_el1 s) tc, new \<mapsto> tn\<lparr>runcnt := runcnt tn + 1\<rparr>)
    \<and> (\<forall>c. \<exists>s2. bindE (disable_interrupts (s1\<lparr>cpu := c\<rparr>)) (task_switch_asserted old) = Inr s2
      \<and> task_current s2 = old \<and> ttbr1_el1 s2 = ttbr1_el1 s \<and> dis_int_count s2 = 0
      \<and> lr_reg (cpu s2) = lr_reg (cpu s) \<and> sp_el0 (cpu s2) = sp_el0 (cpu s) \<and> sp_el1 (cpu s2) = sp_el1 (cpu s)
      \<and> spsel (cpu s2) = spsel (cpu s) \<and> d_regs (cpu s2) = d_regs (cpu s)
      \<and> (\<forall>i. 3 \<le> i \<and> i \<noteq> 16 \<and> i \<noteq> 17 \<longrightarrow> x_regs (cpu s2) i = x_regs (cpu s) i)
      \<and> x_regs (cpu s2) 2 = old \<and> x_regs (cpu s2) 16 = 0 \<and> x_regs (cpu s2) 17 = 0
      \<and> tasks s2 = (tasks s)(
          old \<mapsto> (save_context old (cpu s) (ttbr1_el1 s) tc)\<lparr>runcnt := runcnt tc + 1\<rparr>,
          new \<mapsto> save_context new c (t_ttbr1 tn) (tn\<lparr>runcnt := runcnt tn + 1\<rparr>)))"
proof -
  let ?tc = "save_context old (cpu s) (ttbr1_el1 s) tc" and ?tn = "tn\<lparr>runcnt := runcnt tn + 1\<rparr>"
  let ?T = "(tasks s)(old \<mapsto> ?tc, new \<mapsto> ?tn)"
  let ?s1 = "view ?T (pongo_sched_head s) new (t_ttbr1 tn) 0 True (s\<lparr>cpu := load_context tn\<rparr>)"
  have "s = view (tasks s) (pongo_sched_head s) old (ttbr1_el1 s) 1 (daif_unmasked s) s"
    using view_self [of s] assms(4,5) by simp
  from arg_cong [OF this, of "task_switch_asserted new"]
  have s1: "task_switch_asserted new s = Inr ?s1"
    using task_switch_asserted_view [of "tasks s" old tc new tn 1] assms by simp
  have regs: "load_context ?tc = \<lparr>x_regs = t_x ?tc, lr_reg = lr_reg (cpu s), sp_el0 = sp_el0 (cpu s), sp_el1 = sp_el1 (cpu s),
      spsel = spsel (cpu s), d_regs = d_regs (cpu s)\<rparr>"
    by (simp add: load_context_def save_context_def bit_or_iff bit_and_iff bit_not_iff)
  have xs: "t_x ?tc i = (if i < 2 then t_x tc i else if i = 2 then old else if i = 16 \<or> i = 17 then 0 else x_regs (cpu s) i)" for i
    by (simp add: save_context_def)
  have ret: "bindE (disable_interrupts (?s1\<lparr>cpu := c\<rparr>)) (task_switch_asserted old) =
      Inr (view (?T(new \<mapsto> save_context new c (t_ttbr1 tn) ?tn, old \<mapsto> ?tc\<lparr>runcnt := runcnt tc + 1\<rparr>))
        (pongo_sched_head s) old (ttbr1_el1 s) 0 True (s\<lparr>cpu := load_context ?tc\<rparr>))" for c
    using assms(3) by (simp add: view_disable task_switch_asserted_view [where tc = ?tn and tn = ?tc])
  show ?thesis
  proof (rule exI [of _ ?s1], intro conjI allI)
    fix c
    show "\<exists>s2. bindE (disable_interrupts (?s1\<lparr>cpu := c\<rparr>)) (task_switch_asserted old) = Inr s2
      \<and> task_current s2 = old \<and> ttbr1_el1 s2 = ttbr1_el1 s \<and> dis_int_count s2 = 0
      \<and> lr_reg (cpu s2) = lr_reg (cpu s) \<and> sp_el0 (cpu s2) = sp_el0 (cpu s) \<and> sp_el1 (cpu s2) = sp_el1 (cpu s)
      \<and> spsel (cpu s2) = spsel (cpu s) \<and> d_regs (cpu s2) = d_regs (cpu s)
      \<and> (\<forall>i. 3 \<le> i \<and> i \<noteq> 16 \<and> i \<noteq> 17 \<longrightarrow> x_regs (cpu s2) i = x_regs (cpu s) i)
      \<and> x_regs (cpu s2) 2 = old \<and> x_regs (cpu s2) 16 = 0 \<and> x_regs (cpu s2) 17 = 0
      \<and> tasks s2 = (tasks s)(old \<mapsto> ?tc\<lparr>runcnt := runcnt tc + 1\<rparr>, new \<mapsto> save_context new c (t_ttbr1 tn) ?tn)"
      unfolding ret using assms(3) by (intro exI conjI) (rule refl, simp_all add: regs xs fun_upd_twist)
  qed (simp_all add: s1)
qed

lemma context_switch_roundtrip_witness:
  "\<exists>s1 s2. task_switch_asserted 0x20 (ex_kern\<lparr>dis_int_count := 1\<rparr>) = Inr s1
     \<and> bindE (disable_interrupts (s1\<lparr>cpu := (cpu s1)\<lparr>lr_reg := 0x99\<rparr>\<rparr>)) (task_switch_asserted 0x10) = Inr s2
     \<and> ttbr1_el1 s2 = 0x900000000 \<and> lr_reg (cpu s2) = 0x40 \<and> sp_el0 (cpu s2) = 0x7000"
proof -
  let ?s = "ex_kern\<lparr>dis_int_count := 1\<rparr>"
  have "tasks ?s 0x10 = Some (ex_task 0x42 0x20 0x30)" "tasks ?s 0x20 = Some (ex_task 0x4b 0x30 0x10)" "(0x10 :: u64) \<noteq> 0x20"
    "task_current ?s = 0x10" "dis_int_count ?s = 1" and r: "ttbr1_el1 ?s = 0x900000000" "lr_reg (cpu ?s) = 0x40" "sp_el0 (cpu ?s) = 0x7000"
    by (simp_all add: sched_task_def ex_kern_def)
  from context_switch_roundtrip [OF this(1-5)] r show ?thesis by metis
qed

section \<open>Interrupts\<close>

lemma view_irq [simp]:
  "irq_unmasked (view T H C B D F s) = irq_unmasked s" "served_irqs (view T H C B D F s) = served_irqs s"
  by (simp_all add: view_def)

lemma kswitch_view:
  assumes "T C = Some tc" and "T new = Some tn" and "new \<noteq> C" and "D + 1 \<noteq> 0"
  shows "\<exists>c. kswitch new (view T H C B D F s) =
    Inr (view (T(C \<mapsto> save_context C c B tc, new \<mapsto> tn\<lparr>runcnt := runcnt tn + 1\<rparr>)) H new (t_ttbr1 tn) D (D = 0)
      (s\<lparr>cpu := load_context tn\<rparr>)) \<and> lr_reg c = kswitch_resume_pc"
  using assms by (simp add: kswitch_def view_disable task_switch_asserted_view [OF assms(1-3)] del: upd_task_simps deref_simps)
    (rule exI, rule conjI, rule refl, simp)

text \<open>A handler that is not preemptible is switched to inside the interrupt, with \<open>_task_switch\<close>. The
  interrupted task cannot be resumed: when the handler exits, the task comes back behind the call
  of \<open>disable_interrupts\<close> in \<open>_task_switch\<close>, its x16 is 0, and the switch it starts again reads
  the task structure at address 0.\<close>

lemma irq_handler_cannot_return:
  assumes "tasks s h = Some t" and "has_flag t TASK_IRQ_HANDLER" and "\<not> has_flag t TASK_PREEMPT" and "irq_ret t = 0"
    and "tasks s c = Some tc" and "task_current s = c" and "c \<noteq> h" and "c \<noteq> 0" and "h \<noteq> 0" and "dis_int_count s = 1" and "tasks s 0 = None"
  shows "task_switch_irq (\<lambda>_. task_exit_irq) h s = Inl BadAccess"
proof -
  let ?t = "t\<lparr>irq_ret := c, irq_count := irq_count t + 1\<rparr>"
  let ?v = "view ((tasks s)(h \<mapsto> ?t)) (pongo_sched_head s) c (ttbr1_el1 s) 1 (daif_unmasked s) s"
  let ?t2 = "?t\<lparr>runcnt := runcnt t + 1\<rparr>"
  have v: "s = view (tasks s) (pongo_sched_head s) c (ttbr1_el1 s) 1 (daif_unmasked s) s"
    using view_self [of s] assms by simp
  have neq: "h \<noteq> c" using assms(7) by auto
  obtain r where sw: "kswitch h ?v = Inr (view ((tasks s)(h \<mapsto> ?t, c \<mapsto> save_context c r (ttbr1_el1 s) tc, h \<mapsto> ?t2))
      (pongo_sched_head s) h (t_ttbr1 t) 1 False (s\<lparr>cpu := load_context ?t\<rparr>))" (is "_ = Inr ?w")
    using kswitch_view [of "(tasks s)(h \<mapsto> ?t)" c tc h ?t 1 "pongo_sched_head s" "ttbr1_el1 s" "daif_unmasked s" s] assms(5) neq by auto
  have fl: "has_flag ?t2 f = has_flag t f" for f by (simp add: has_flag_def)
  have e1: "task_exit_irq ?w = kswitch c ?w"
    using assms(2,3,8) fl neq by (simp add: task_exit_irq_def view_deref del: deref_simps)
  let ?tc = "save_context c r (ttbr1_el1 s) tc"
  obtain x where x: "task_exit_irq ?w = Inr x" "task_current x = c" "cpu x = load_context ?tc" "tasks x c \<noteq> None" "tasks x 0 = None"
    using kswitch_view [of "(tasks s)(h \<mapsto> ?t, c \<mapsto> ?tc, h \<mapsto> ?t2)" h ?t2 c ?tc 1 "pongo_sched_head s" "t_ttbr1 t" False "s\<lparr>cpu := load_context ?t\<rparr>"]
      neq assms(7,8,9,11) unfolding e1 by auto
  have "x_regs (cpu x) 16 = 0" unfolding x(3) by (simp add: load_context_def)
  then have re: "kswitch_resumed x = Inl BadAccess"
    using x(2,4,5) assms(8) by (auto simp: kswitch_resumed_def task_switch_asserted_def task_load_asserted_def upd_task_def deref_def)
  show ?thesis
    apply (subst v)
    using assms sw x(1) re neq fl
    by (simp add: task_switch_irq_def view_simps del: upd_task_simps deref_simps)
qed

lemma irq_handler_cannot_return_witness:
  "task_switch_irq (\<lambda>_. task_exit_irq) 0x20 (ex_kern\<lparr>tasks := ex_tasks(0x20 \<mapsto> ex_task 4 0 0), dis_int_count := 1\<rparr>) = Inl BadAccess"
proof -
  let ?s = "ex_kern\<lparr>tasks := ex_tasks(0x20 \<mapsto> ex_task 4 0 0), dis_int_count := 1\<rparr>"
  have "tasks ?s 0x20 = Some (ex_task 4 0 0)" "has_flag (ex_task 4 0 0) TASK_IRQ_HANDLER" "\<not> has_flag (ex_task 4 0 0) TASK_PREEMPT"
    "irq_ret (ex_task 4 0 0) = 0" "tasks ?s 0x10 = Some (ex_task 0x42 0x20 0x30)" "task_current ?s = 0x10"
    "(0x10 :: u64) \<noteq> 0x20" "(0x10 :: u64) \<noteq> 0" "(0x20 :: u64) \<noteq> 0" "dis_int_count ?s = 1" "tasks ?s 0 = None"
    by (simp_all add: sched_task_def flag_vals)
  from irq_handler_cannot_return [OF this] show ?thesis .
qed

text \<open>A preemptible interrupt handler is not entered in the interrupt: it is linked, moved to
  the head of the run queue, so the next scheduler tick starts with it, and the interrupted task
  stays current.\<close>

lemma preemptible_irq_queues_handler:
  assumes "run_queue s q" and "tasks s h = Some t" and "has_flag t TASK_IRQ_HANDLER" and "has_flag t TASK_PREEMPT"
    and "irq_room 1 s"
  shows "\<exists>s'. task_switch_irq run h s = Inr s' \<and> pongo_sched_head s' = h \<and> flagged (tasks s') TASK_LINKED h
    \<and> (\<exists>q'. run_queue s' q' \<and> set q' = insert h (set q)) \<and> task_current s' = task_current s
    \<and> dis_int_count s' = dis_int_count s \<and> served_irqs s' = served_irqs s + 1"
proof -
  let ?t = "t\<lparr>irq_count := irq_count t + 1\<rparr>"
  let ?s = "s\<lparr>tasks := (tasks s)(h \<mapsto> ?t)\<rparr>"
  have "queue_ok ((tasks s)(h \<mapsto> ?t)) q"
    by (rule queue_ok_upd [of "tasks s" q h t]) (use assms(1,2) in \<open>simp_all add: run_queue_def has_flag_def\<close>)
  then have q0: "run_queue ?s q" using assms(1) by (simp add: run_queue_def)
  have t0: "tasks ?s h = Some ?t" and r: "irq_room 1 ?s" using assms(5) by (simp_all add: irq_room_def)
  obtain T where T: "task_link h ?s = Inr (with_q T (head_of (linked_queue h q)) (left ?s))"
      "queue_ok T (linked_queue h q)" "flagged T TASK_LINKED h"
    using task_link_spec [OF q0 t0 r] by metis
  let ?u = "with_q T (head_of (linked_queue h q)) (left ?s)"
  obtain tl where tl: "T h = Some tl" "has_flag tl TASK_LINKED" using T(3) by (auto simp: flagged_def split: option.splits)
  have "h \<in> set (linked_queue h q)" by (auto simp: linked_queue_def split: list.split)
  then obtain xs ys where sp: "linked_queue h q = xs @ h # ys" by (meson split_list)
  have set: "set (h # ys @ xs) = insert h (set q)"
  proof -
    have "set (linked_queue h q) = insert h (set q)" by (auto simp: linked_queue_def split: list.split)
    then show ?thesis using sp by auto
  qed
  have "run_queue ?u (xs @ h # ys)" "irq_room 1 ?u" using T(2) sp r by (simp_all add: irq_room_def)
  from task_set_sched_head_spec [OF this(1) _ tl(2) this(2)] tl(1)
  have hd: "task_set_sched_head h ?u = Inr (with_q T h (left ?u))" "run_queue (with_q T h (left ?u)) (h # ys @ xs)"
    by simp_all
  have keep: "task_current (with_q T' H s') = task_current s'" "served_irqs (with_q T' H s') = served_irqs s'"
      "task_current (left s') = task_current s'" "served_irqs (left s') = served_irqs s'" for T' H and s' :: "'a kern_scheme"
    by (simp_all add: with_q_def left_def)
  have "task_switch_irq run h s = Inr (with_q T h (left ?u)\<lparr>served_irqs := served_irqs s + 1\<rparr>)"
    using assms(2-4) T(1) hd(1) by (simp add: task_switch_irq_def keep)
  moreover have "run_queue (with_q T h (left ?u)\<lparr>served_irqs := served_irqs s + 1\<rparr>) (h # ys @ xs)"
    using hd(2) by (simp add: run_queue_def)
  ultimately show ?thesis
    using T(3) by (intro exI [of _ "with_q T h (left ?u)\<lparr>served_irqs := served_irqs s + 1\<rparr>"] conjI
        exI [of _ "h # ys @ xs"]) (simp_all only: set, simp_all add: keep)
qed

lemma preemptible_irq_queues_handler_witness:
  "\<exists>s'. task_switch_irq (\<lambda>_. Inr) 0x40 (ex_kern\<lparr>tasks := ex_tasks(0x40 \<mapsto> ex_task 0xc 0 0)\<rparr>) = Inr s' \<and> pongo_sched_head s' = 0x40"
proof -
  let ?s = "ex_kern\<lparr>tasks := ex_tasks(0x40 \<mapsto> ex_task 0xc 0 0)\<rparr>"
  have "flagged (ex_tasks(0x40 \<mapsto> ex_task 0xc 0 0)) TASK_WAS_LINKED u \<longleftrightarrow> u \<in> set [0x10, 0x20, 0x30]" for u
    using ex_flagged [of TASK_WAS_LINKED u] by (auto simp: flagged_def TASK_WAS_LINKED_def)
  then have "queue_ok (tasks ?s) [0x10, 0x20, 0x30]" by (simp add: queue_ok_def ring_def tnext_def tprev_def)
  then have "run_queue ?s [0x10, 0x20, 0x30]" by (simp add: run_queue_def sched_task_def)
  moreover have "tasks ?s 0x40 = Some (ex_task 0xc 0 0)" "has_flag (ex_task 0xc 0 0) TASK_IRQ_HANDLER" "has_flag (ex_task 0xc 0 0) TASK_PREEMPT"
    "irq_room 1 ?s" by (simp_all add: flag_vals irq_room_def)
  ultimately show ?thesis using preemptible_irq_queues_handler by metis
qed

section \<open>Exiting\<close>

text \<open>The code behind an exit callback returns, leaving the tasks, the queue, the current task, the
  address spaces and the interrupt depth as they are.\<close>

definition callback_returns :: "(u64 \<Rightarrow> 'a kern_scheme \<Rightarrow> error + 'a kern_scheme) \<Rightarrow> u64 \<Rightarrow> bool" where
  "callback_returns cb f \<longleftrightarrow> (\<forall>u. \<exists>v. cb f u = Inr v \<and> tasks v = tasks u \<and> pongo_sched_head v = pongo_sched_head u
     \<and> task_current v = task_current u \<and> spaces v = spaces u \<and> dis_int_count v = dis_int_count u)"

text \<open>What a restart makes of a task in the run queue with its two stacks: its saved context is
  cleared and set to its entry, its flags say that it runs again.\<close>

definition restarted :: "vm_space \<Rightarrow> task \<Rightarrow> task" where
  "restarted sp t = set_flag TASK_LINKED (clear_flag (TASK_HAS_EXITED OR TASK_HAS_CRASHED) ((clear_context t)\<lparr>
     exception_stack := exception_stack_top t AND NOT 0xf, el0_exception_stack := kernel_stack t AND NOT 0xf,
     t_lr := task_entry_pc, t_sp := kernel_stack t AND NOT 0xf, t_ttbr0 := ttbr0 sp, t_ttbr1 := ttbr1 sp OR asid sp,
     gencount := gencount t + 1\<rparr>))"

lemma clear_exited_again: "clear_flag TASK_HAS_EXITED (clear_flag (TASK_HAS_EXITED OR TASK_HAS_CRASHED) t) = clear_flag (TASK_HAS_EXITED OR TASK_HAS_CRASHED) t"
proof -
  have "NOT (TASK_HAS_EXITED OR TASK_HAS_CRASHED) AND NOT TASK_HAS_EXITED = NOT (TASK_HAS_EXITED OR TASK_HAS_CRASHED)"
    by (simp add: TASK_HAS_EXITED_def TASK_HAS_CRASHED_def)
  then show ?thesis by (simp add: clear_flag_def and.assoc)
qed

lemma task_restart_and_link_view:
  assumes "T h = Some t" and "has_flag t TASK_WAS_LINKED" and "kernel_stack t \<noteq> 0" and "exception_stack_top t \<noteq> 0"
    and "spaces v (t_vm_space t) = Some sp"
  shows "task_restart_and_link h (view T H C B 1 F v) = Inr (view (T(h \<mapsto> restarted sp t)) H C B 1 False v)"
proof -
  have sp: "get_space (t_vm_space t) (view T' H C B D F' v) = Inr sp" for T' D F'
    using assms(5) by (simp add: get_space_def view_def)
  have wl: "has_flag (clear_flag (TASK_HAS_EXITED OR TASK_HAS_CRASHED) u) TASK_WAS_LINKED" if "t_flags u = t_flags t" for u
    using assms(2) that by (simp add: flag_vals has_flag_def clear_flag_def TASK_HAS_CRASHED_def and.assoc)
  have cs: "kernel_stack (clear_context t) = kernel_stack t" "exception_stack_top (clear_context t) = exception_stack_top t"
    "t_vm_space (clear_context t) = t_vm_space t" "t_flags (clear_context t) = t_flags t" "gencount (clear_context t) = gencount t"
    by (simp_all add: clear_context_def)
  have n: "(3 :: u64) - 1 = 2" "(2 :: u64) - 1 = 1" by simp_all
  have set: "task_set_entry h (view (T(h \<mapsto> clear_context t)) H C B 3 False v) =
      Inr (view (T(h \<mapsto> (clear_context t)\<lparr>exception_stack := exception_stack_top t AND NOT 0xf, el0_exception_stack := kernel_stack t AND NOT 0xf,
        t_lr := task_entry_pc, t_sp := kernel_stack t AND NOT 0xf, t_ttbr0 := ttbr0 sp, t_ttbr1 := ttbr1 sp OR asid sp\<rparr>)) H C B 3 False v)"
    using assms(3,4) by (simp add: task_set_entry_def task_alloc_fast_stacks_def view_simps cs sp del: upd_task_simps deref_simps)
  show ?thesis
    using assms(1)
    by (simp add: task_restart_and_link_def task_restart_def task_link_def critical_def view_simps set cs wl
        clear_exited_again restarted_def del: upd_task_simps deref_simps)
qed

text \<open>C10 A task leaves cleanly or not at all. Called with interrupts enabled from a task other than
  the scheduler's, \<open>task_exit\<close> panics from an interrupt handler, a required task or a critical
  section. Otherwise the scheduler's task runs, with interrupts enabled and the run queue as it was;
  a task to be restarted (which is in the run queue and has its stacks and address space) is linked,
  its saved context cleared and set to its entry, its generation counted; any other is unlinked,
  marked as exited and marked for release, and its structure and reference count survive, the last
  reference being dropped by the scheduler and not on its own stack. An exit callback is run before
  that; it is assumed to return and to leave the tasks, the queue and the address spaces
  alone.\<close>

lemma task_exit_outcome:
  assumes "tasks s h = Some t" and "task_current s = h" and "h \<noteq> sched_task" and "tasks s sched_task = Some ts"
    and "dis_int_count s = 0" and "exit_callback t \<noteq> 0 \<Longrightarrow> callback_returns cb (exit_callback t)"
    and "has_flag t TASK_RESTART_ON_EXIT \<Longrightarrow> has_flag t TASK_WAS_LINKED \<and> kernel_stack t \<noteq> 0
      \<and> exception_stack_top t \<noteq> 0 \<and> spaces s (t_vm_space t) = Some sp"
  shows "(if has_flag t TASK_IRQ_HANDLER \<or> critical_count t \<noteq> 0 \<or> \<not> has_flag t TASK_CAN_EXIT
    then \<exists>m. task_exit cb s = Inl (Panic m)
    else \<exists>s' t'. task_exit cb s = Inr s' \<and> task_current s' = sched_task \<and> dis_int_count s' = 0
      \<and> pongo_sched_head s' = pongo_sched_head s \<and> cpu s' = load_context ts \<and> ttbr1_el1 s' = t_ttbr1 ts
      \<and> tasks s' = (tasks s)(h \<mapsto> t', sched_task \<mapsto> ts\<lparr>runcnt := runcnt ts + 1\<rparr>)
      \<and> (if has_flag t TASK_RESTART_ON_EXIT
         then t' = restarted sp (clear_flag TASK_LINKED (set_flag TASK_HAS_EXITED t))
           \<and> has_flag t' TASK_LINKED \<and> \<not> has_flag t' TASK_HAS_EXITED
         else t' = set_flag TASK_PLEASE_DEREF (clear_flag TASK_LINKED (set_flag TASK_HAS_EXITED t))
           \<and> has_flag t' TASK_HAS_EXITED \<and> has_flag t' TASK_PLEASE_DEREF \<and> \<not> has_flag t' TASK_LINKED
           \<and> t_refcount t' = t_refcount t))"
proof -
  have v: "s = view (tasks s) (pongo_sched_head s) h (ttbr1_el1 s) 0 (daif_unmasked s) s"
    using view_self [of s] assms by simp
  have neq: "sched_task \<noteq> h" using assms(3) by auto
  define t1 where "t1 = set_flag TASK_HAS_EXITED t"
  define t2 where "t2 = clear_flag TASK_LINKED t1"
  define t3 where "t3 = (if has_flag t TASK_RESTART_ON_EXIT then restarted sp t2 else set_flag TASK_PLEASE_DEREF t2)"
  let ?m = "view ((tasks s)(h \<mapsto> t1)) (pongo_sched_head s) h (ttbr1_el1 s) 1 False s"
  let ?u = "view ((tasks s)(h \<mapsto> t2)) (pongo_sched_head s) h (ttbr1_el1 s) 1 False s"
  have r1: "irq_room 1 ?m" by (simp add: irq_room_def)
  have ul: "task_unlink h ?m = Inr ?u"
    using task_unlink_state [of ?m h t1, OF _ r1] by (simp add: t2_def with_q_def left_def)
  have same: "has_flag t2 TASK_RESTART_ON_EXIT = has_flag t TASK_RESTART_ON_EXIT" "has_flag t2 TASK_WAS_LINKED = has_flag t TASK_WAS_LINKED"
    by (simp_all add: t2_def t1_def flag_vals)
  have same2: "kernel_stack t2 = kernel_stack t" "exception_stack_top t2 = exception_stack_top t" "t_vm_space t2 = t_vm_space t"
    by (simp_all add: t2_def t1_def set_flag_def clear_flag_def)
  obtain w where w: "(if exit_callback t \<noteq> 0 then cb (exit_callback t) ?u else Inr ?u) = Inr w" "tasks w = (tasks s)(h \<mapsto> t2)"
      "pongo_sched_head w = pongo_sched_head s" "task_current w = h" "spaces w = spaces s" "dis_int_count w = 1"
  proof (cases "exit_callback t = 0")
    case True
    then show ?thesis using that [of ?u] by (simp add: view_def)
  next
    case False
    then obtain v where "cb (exit_callback t) ?u = Inr v" "tasks v = tasks ?u" "pongo_sched_head v = pongo_sched_head ?u"
        "task_current v = task_current ?u" "spaces v = spaces ?u" "dis_int_count v = dis_int_count ?u"
      using assms(6) unfolding callback_returns_def by blast
    then show ?thesis using that [of v] False by (simp add: view_def)
  qed
  have vw: "w = view ((tasks s)(h \<mapsto> t2)) (pongo_sched_head s) h (ttbr1_el1 w) 1 (daif_unmasked w) w"
    using view_self [of w] w by simp
  have fin: "\<exists>F. (if has_flag t TASK_RESTART_ON_EXIT then task_restart_and_link h w
      else upd_task h (set_flag TASK_PLEASE_DEREF) w) = Inr (view ((tasks s)(h \<mapsto> t3)) (pongo_sched_head s) h (ttbr1_el1 w) 1 F w)"
  proof (cases "has_flag t TASK_RESTART_ON_EXIT")
    case True
    have "task_restart_and_link h (view ((tasks s)(h \<mapsto> t2)) (pongo_sched_head s) h (ttbr1_el1 w) 1 (daif_unmasked w) w) =
        Inr (view ((tasks s)(h \<mapsto> t2, h \<mapsto> restarted sp t2)) (pongo_sched_head s) h (ttbr1_el1 w) 1 False w)"
      by (rule task_restart_and_link_view) (use assms(7) True same same2 w(5) in simp_all)
    then show ?thesis using True by (intro exI [of _ False]) (simp add: t3_def flip: vw)
  next
    case False
    then show ?thesis by (subst vw) (auto simp: view_upd_task t3_def simp del: upd_task_simps)
  qed
  have st: "task_exit cb s = bindE (if has_flag t TASK_IRQ_HANDLER
        then panic_if True (if has_flag t TASK_HAS_CRASHED then ''irq handler crashed!'' else ''irq handler exited! please use task_irq_exit!'')
        else Inr ()) (\<lambda>_.
      bindE (panic_if (critical_count t \<noteq> 0) ''crashed in critical section'') (\<lambda>_.
      bindE (panic_if (\<not> has_flag t TASK_CAN_EXIT) ''required task exited!'') (\<lambda>_.
      bindE (if has_flag t TASK_RESTART_ON_EXIT then task_restart_and_link h w else upd_task h (set_flag TASK_PLEASE_DEREF) w) (\<lambda>s.
      task_load_asserted sched_task s))))"
    apply (subst v)
    using assms(1,3) ul w(1) w(2,4) same(1)
    by (simp add: task_exit_def task_exit_asserted_def view_simps Let_def t1_def [symmetric] bindE_assoc deref_def
        del: upd_task_simps deref_simps cong: if_cong)
  have ld: "task_load_asserted sched_task (view ((tasks s)(h \<mapsto> t3)) (pongo_sched_head s) h B 1 F w)
      = Inr (view ((tasks s)(h \<mapsto> t3, sched_task \<mapsto> ts\<lparr>runcnt := runcnt ts + 1\<rparr>)) (pongo_sched_head s) sched_task (t_ttbr1 ts) 0 True
          (w\<lparr>cpu := load_context ts\<rparr>))" for B F
    using assms(4) neq by (simp add: task_load_asserted_def view_simps del: upd_task_simps deref_simps)
  have "TASK_HAS_EXITED \<noteq> 0" "TASK_LINKED \<noteq> 0" by (simp_all add: TASK_HAS_EXITED_def TASK_LINKED_def)
  then have f: "if has_flag t TASK_RESTART_ON_EXIT then has_flag t3 TASK_LINKED \<and> \<not> has_flag t3 TASK_HAS_EXITED
      else has_flag t3 TASK_HAS_EXITED \<and> has_flag t3 TASK_PLEASE_DEREF \<and> \<not> has_flag t3 TASK_LINKED \<and> t_refcount t3 = t_refcount t"
    by (simp add: t3_def t2_def t1_def restarted_def)
      (simp add: set_flag_def clear_flag_def has_flag_def TASK_HAS_EXITED_def TASK_HAS_CRASHED_def TASK_LINKED_def bit.conj_disj_distrib2 and.assoc)
  obtain F where F: "(if has_flag t TASK_RESTART_ON_EXIT then task_restart_and_link h w
      else upd_task h (set_flag TASK_PLEASE_DEREF) w) = Inr (view ((tasks s)(h \<mapsto> t3)) (pongo_sched_head s) h (ttbr1_el1 w) 1 F w)"
    using fin by blast
  have t3: "if has_flag t TASK_RESTART_ON_EXIT then t3 = restarted sp (clear_flag TASK_LINKED (set_flag TASK_HAS_EXITED t))
      else t3 = set_flag TASK_PLEASE_DEREF (clear_flag TASK_LINKED (set_flag TASK_HAS_EXITED t))"
    by (simp add: t3_def t2_def t1_def)
  show ?thesis
  proof (cases "has_flag t TASK_IRQ_HANDLER \<or> critical_count t \<noteq> 0 \<or> \<not> has_flag t TASK_CAN_EXIT")
    case True
    then show ?thesis unfolding st by (auto simp: panic_if_def)
  next
    case False
    let ?s' = "view ((tasks s)(h \<mapsto> t3, sched_task \<mapsto> ts\<lparr>runcnt := runcnt ts + 1\<rparr>)) (pongo_sched_head s) sched_task (t_ttbr1 ts) 0 True
          (w\<lparr>cpu := load_context ts\<rparr>)"
    have run: "task_exit cb s = Inr ?s'" unfolding st F using False by (simp add: panic_if_def ld)
    show ?thesis
      unfolding if_not_P [OF False] by (rule exI [of _ ?s'], rule exI [of _ t3]) (use run t3 f in \<open>simp split: if_splits\<close>)
  qed
qed

text \<open>Both ways out: task 0x20 leaves for good, task 0x30, made restartable, starts again.\<close>

definition ex_restart :: task where
  "ex_restart = (ex_task 0x14b 0x10 0x20)\<lparr>kernel_stack := 0x7000, exception_stack_top := 0x8000, t_vm_space := 1, exit_callback := 0x44\<rparr>"

lemma task_exit_outcome_witness:
  "(\<exists>s' t'. task_exit (\<lambda>_. Inr) (ex_kern\<lparr>task_current := 0x20\<rparr>) = Inr s' \<and> tasks s' 0x20 = Some t' \<and> has_flag t' TASK_PLEASE_DEREF)
   \<and> (\<exists>s' t'. task_exit (\<lambda>_. Inr) (ex_kern\<lparr>task_current := 0x30, tasks := ex_tasks(0x30 \<mapsto> ex_restart)\<rparr>) = Inr s'
        \<and> tasks s' 0x30 = Some t' \<and> has_flag t' TASK_LINKED)"
proof -
  have cb: "callback_returns (\<lambda>_. Inr) f" for f by (simp add: callback_returns_def)
  let ?s = "ex_kern\<lparr>task_current := 0x20\<rparr>" and ?t = "ex_task 0x4b 0x30 0x10"
  have 1: "tasks ?s 0x20 = Some ?t" "task_current ?s = 0x20" "0x20 \<noteq> sched_task" "tasks ?s sched_task = Some (ex_task 0x42 0x20 0x30)"
    "dis_int_count ?s = 0" and nr: "\<not> has_flag ?t TASK_RESTART_ON_EXIT"
    by (simp_all add: sched_task_def flag_vals)
  let ?z = "ex_kern\<lparr>task_current := 0x30, tasks := ex_tasks(0x30 \<mapsto> ex_restart)\<rparr>"
  have 2: "tasks ?z 0x30 = Some ex_restart" "task_current ?z = 0x30" "0x30 \<noteq> sched_task" "tasks ?z sched_task = Some (ex_task 0x42 0x20 0x30)"
    "dis_int_count ?z = 0"
    by (simp_all add: sched_task_def)
  have r: "has_flag ex_restart TASK_WAS_LINKED \<and> kernel_stack ex_restart \<noteq> 0 \<and> exception_stack_top ex_restart \<noteq> 0
      \<and> spaces ?z (t_vm_space ex_restart) = Some ex_space" "has_flag ex_restart TASK_RESTART_ON_EXIT"
      "\<not> (has_flag ex_restart TASK_IRQ_HANDLER \<or> critical_count ex_restart \<noteq> 0 \<or> \<not> has_flag ex_restart TASK_CAN_EXIT)"
    by (simp_all add: ex_restart_def ex_task_def zero_task_def has_flag_def flag_vals ex_kern_def)
  have ok: "\<not> (has_flag ?t TASK_IRQ_HANDLER \<or> critical_count ?t \<noteq> 0 \<or> \<not> has_flag ?t TASK_CAN_EXIT)"
    by (simp add: ex_task_def zero_task_def has_flag_def flag_vals)
  have n: "(0x20 :: u64) \<noteq> sched_task" "(0x30 :: u64) \<noteq> sched_task" by (simp_all add: sched_task_def)
  show ?thesis
    using task_exit_outcome [OF 1 cb, of ex_space] task_exit_outcome [OF 2 cb, of ex_space] nr r ok n by auto
qed

section \<open>Kernel stacks\<close>

lemma tte_walk_cong:
  "pmem t = pmem s \<Longrightarrow> tt_bits t = tt_bits s \<Longrightarrow> tte_walk n ttb bits va t = tte_walk n ttb bits va s"
  by (induction n arbitrary: ttb bits) (simp_all add: tt_index_def tt_get_def Let_def)

lemma va_to_pa_cong:
  assumes "pmem t = pmem s" "tt_bits t = tt_bits s" "spaces t = spaces s" "t0sz t = t0sz s" "t1sz t = t1sz s"
  shows "va_to_pa va t = va_to_pa va s"
proof -
  have "tte_walk_get h v t = tte_walk_get h v s" for h v
    using assms tte_walk_cong [OF assms(1,2)]
    by (simp add: tte_walk_get_def get_space_def va_bits_def va_offset_def Let_def)
  then show ?thesis by (simp only: va_to_pa_def assms(1))
qed

text \<open>The page of a stack is mapped, and not part of the tables that map it.\<close>

definition stack_mapped :: "u64 \<Rightarrow> u64 \<Rightarrow> 'a kern_scheme \<Rightarrow> bool" where
  "stack_mapped stack pa s \<longleftrightarrow> stack \<noteq> 0 \<and> va_to_pa stack s = Inr pa \<and> (\<forall>v. va_to_pa stack (s\<lparr>pmem := (pmem s)(pa := v)\<rparr>) = Inr pa)"

text \<open>Kernel stacks are recycled in LIFO order: the stack just freed is the next one handed out,
  no memory is mapped for it again, and the pool is then as it was before.\<close>

lemma kernel_stack_recycled:
  assumes "stack_mapped stack pa s" and "irq_room 1 s"
  shows "\<exists>s1 s2. kernel_stack_free stack s = Inr s1 \<and> stack_freelist s1 = stack
    \<and> kernel_stack_allocate s1 = Inr (stack, s2) \<and> stack_freelist s2 = stack_freelist s
    \<and> dis_int_count s2 = dis_int_count s \<and> linear_kvm_cursor s2 = linear_kvm_cursor s \<and> spaces s2 = spaces s
    \<and> pmem s2 = (pmem s)(pa := stack_freelist s)"
proof -
  let ?m = "(pmem s)(pa := stack_freelist s)"
  let ?d = "dis_int_count s + 1"
  have nz: "?d \<noteq> 0" using irq_room_not_max [OF assms(2)] by (auto simp: add_eq_0_iff2)
  have one: "?d = 1 \<longleftrightarrow> dis_int_count s = 0" by simp
  let ?i = "s\<lparr>dis_int_count := ?d, daif_unmasked := False\<rparr>"
  let ?s1 = "s\<lparr>pmem := ?m, stack_freelist := stack, daif_unmasked := (dis_int_count s = 0)\<rparr>"
  have "va_to_pa stack ?i = Inr pa"
    using assms(1) va_to_pa_cong [of ?i s stack] by (simp add: stack_mapped_def)
  then have st: "kva_store stack (stack_freelist s) ?i = Inr (?i\<lparr>pmem := ?m\<rparr>)" by (simp add: kva_store_def)
  have f: "kernel_stack_free stack s = Inr ?s1"
    unfolding kernel_stack_free_def critical_eq [OF assms(2)]
    using st nz one by (simp add: enable_interrupts_def Let_def)
  let ?j = "?s1\<lparr>dis_int_count := ?d, daif_unmasked := False\<rparr>"
  have "va_to_pa stack ?j = va_to_pa stack (s\<lparr>pmem := ?m\<rparr>)" by (rule va_to_pa_cong) simp_all
  then have ld: "kva_load stack ?j = Inr (stack_freelist s)"
    using assms(1) by (simp add: kva_load_def stack_mapped_def)
  have "disable_interrupts ?s1 = Inr ?j"
    using nz by (simp add: disable_interrupts_def Let_def)
  then have "kernel_stack_allocate ?s1 = Inr (stack, s\<lparr>pmem := ?m, daif_unmasked := (dis_int_count s = 0)\<rparr>)"
    using ld nz one assms(1) by (simp add: kernel_stack_allocate_def stack_mapped_def enable_interrupts_def Let_def)
  with f show ?thesis by (intro exI conjI) (assumption | simp)+
qed

definition ex_stack :: "kern" where
  "ex_stack = ex_kern\<lparr>pmem := (pmem ex_kern)(0x900004000 := 0x80000c003)\<rparr>"

lemma ex_stack_mapped: "stack_mapped (VM_SPACE_BASE + 0x3c00) 0x80000fc00 ex_stack"
proof -
  have w: "va_to_pa (VM_SPACE_BASE + 0x3c00) s = Inr 0x80000fc00"
    if m: "pmem s 0x900003800 = 0x900004003" "pmem s 0x900004000 = 0x80000c003" and g: "geometry16k s" and sp: "spaces s = [1 \<mapsto> ex_space]"
    for s :: kern
  proof -
    have e: "tt_get (ttbr1 ex_space) (l1_index VM_SPACE_BASE) s = 0x900004003"
      "tt_get (push_bit 12 (tte_oa 0x900004003)) (l2_index VM_SPACE_BASE) s = 0x80000c003"
      using m by (simp_all add: tt_get_def l1_index_def l2_index_def off36_def ex_space_def VM_SPACE_BASE_def tte_oa_def take_bit_eq_mask mask_eq_exp_minus_1)
    have "tte_walk_get kernel_vm_space VM_SPACE_BASE s = Inr (Some 0x900004000)"
      using tte_walk_get16k [OF g _ _ e(1) _ _ e(2), of kernel_vm_space] sp
      by (simp add: kernel_vm_space_def is_upper_def VM_SPACE_BASE_def tte_valid_def tte_table_def tte_oa_def l2_index_def off36_def take_bit_eq_mask mask_eq_exp_minus_1)
    then show ?thesis using m by (simp add: va_to_pa_def VM_SPACE_BASE_def tte_valid_def tte_oa_def take_bit_eq_mask mask_eq_exp_minus_1)
  qed
  show ?thesis
    unfolding stack_mapped_def
    by (intro conjI allI w) (simp_all add: ex_stack_def ex_kern_def geometry16k_def VM_SPACE_BASE_def)
qed

lemma kernel_stack_recycled_witness:
  "\<exists>s1 s2. kernel_stack_free (VM_SPACE_BASE + 0x3c00) ex_stack = Inr s1
     \<and> kernel_stack_allocate s1 = Inr (VM_SPACE_BASE + 0x3c00, s2) \<and> stack_freelist s2 = 0"
proof -
  have "irq_room 1 ex_stack" "stack_freelist ex_stack = 0" by (simp_all add: irq_room_def ex_stack_def)
  with kernel_stack_recycled [OF ex_stack_mapped] show ?thesis by metis
qed

section \<open>Destroying tasks\<close>

lemma vm_deallocate_no_stack:
  assumes "spaces s vs = Some sp" and "vm_space_base sp = VM_SPACE_BASE" and "vm_space_end sp = VM_SPACE_BASE + VM_SPACE_SIZE"
    and "length (vm_space_table sp) = 0x8000"
  shows "vm_deallocate vs 0 0x40000 s \<noteq> Inr r"
proof
  assume *: "vm_deallocate vs 0 0x40000 s = Inr r"
  then obtain s1 where s1: "disable_interrupts s = Inr s1" by (cases "disable_interrupts s") (simp_all add: vm_deallocate_def)
  have "spaces s1 vs = Some sp" using s1 assms(1) by (auto elim!: disable_interrupts_InrE)
  then have g: "get_space vs s1 = Inr sp" by (simp add: get_space_def)
  have "page_count_of 0x40000 = 16" by (simp add: page_count_of_def)
  moreover have "ucast ((0 - vm_space_base sp) div 0x4000) = (0x80000 :: u32)"
    using assms(2) by (simp add: VM_SPACE_BASE_def)
  moreover have "for_up (check_page (vm_space_table sp)) 0x80000 (0x80000 + 16) True = Inl BadAccess"
    using assms(4) by (simp add: for_up_step check_page_def tbl_get_def)
  moreover have "\<not> 0 - vm_space_base sp + 0x40000 > vm_space_end sp"
    using assms(2,3) by (simp add: VM_SPACE_BASE_def VM_SPACE_SIZE_def)
  ultimately show False using * s1 g by (simp add: vm_deallocate_def Let_def)
qed

lemma upd_spaces:
  "upd_task h f s = Inr s' \<Longrightarrow> spaces s' = spaces s" "upd_proc h g s = Inr s' \<Longrightarrow> spaces s' = spaces s"
  by (auto simp: upd_task_def upd_proc_def elim!: bindE_InrE)

lemma critical_spaces:
  assumes "critical f s = Inr s'" and "\<And>s s'. f s = Inr s' \<Longrightarrow> spaces s' = spaces s"
  shows "spaces s' = spaces s"
  using assms(1) by (auto simp: critical_def elim!: bindE_InrE disable_interrupts_InrE enable_interrupts_InrE dest!: assms(2))

lemma kernel_stack_free_spaces: "kernel_stack_free x s = Inr s' \<Longrightarrow> spaces s' = spaces s"
  unfolding kernel_stack_free_def
  by (erule critical_spaces) (auto simp: kva_store_def elim!: bindE_InrE)

lemma proc_list_remove_spaces: "proc_list_remove n p el cur h s = Inr s' \<Longrightarrow> spaces s' = spaces s"
  by (induction n arbitrary: el cur)
    (auto split: if_splits option.splits elim!: bindE_InrE dest: upd_spaces)

text \<open>A task that never entered its entry point has no user stack, and cannot be destroyed: dropping its
  last reference makes \<open>vm_deallocate\<close> read past the end of the space's bitmap, so the release
  never returns.\<close>

lemma release_of_unstarted_task:
  fixes s :: "'a kern_scheme"
  assumes "tasks s h = Some t" and "h \<noteq> 0" and "t_refcount t = 1" and "user_stack t = 0"
    and "spaces s (t_vm_space t) = Some sp" and "vm_space_base sp = VM_SPACE_BASE"
    and "vm_space_end sp = VM_SPACE_BASE + VM_SPACE_SIZE" and "length (vm_space_table sp) = 0x8000"
  shows "\<exists>e. task_release n h s = Inl e"
proof (cases n)
  case 0
  then show ?thesis by (simp add: task_release.simps)
next
  case (Suc m)
  have no: False if "vm_deallocate (t_vm_space t) 0 0x40000 x = Inr r" and "spaces x = spaces s" for x :: "'a kern_scheme" and r
  proof -
    have "spaces x (t_vm_space t) = Some sp" using assms(5) that by simp
    from vm_deallocate_no_stack [OF this assms(6-8)] that(1) show False by blast
  qed
  have "task_release n h s \<noteq> Inr s'" for s'
    using assms(1-4) Suc
    by (auto simp: task_release.simps critical_def Let_def TASK_REFCOUNT_GLOBAL_def elim!: bindE_InrE disable_interrupts_InrE
        dest!: upd_spaces kernel_stack_free_spaces proc_list_remove_spaces split: if_splits) (erule no, assumption)+
  then show ?thesis by (metis sum.exhaust_sel)
qed

lemma release_of_unstarted_task_witness:
  "\<exists>e. task_release 9 0x10 (ex_kern\<lparr>tasks := ex_tasks(0x10 \<mapsto> (ex_task 0 0 0)\<lparr>t_vm_space := 1\<rparr>)\<rparr>) = Inl e"
  by (rule release_of_unstarted_task [where t = "(ex_task 0 0 0)\<lparr>t_vm_space := 1\<rparr>" and sp = ex_space])
    (simp_all add: ex_task_def zero_task_def ex_space_def ex_tbl_def)

lemma task_release_last:
  assumes "task_release n h s = Inr s'" and "tasks s h = Some t" and "h \<noteq> 0" and "t_refcount t = 1"
  shows "tasks s' h = None"
proof (cases n)
  case 0
  then show ?thesis using assms by (simp add: task_release.simps)
next
  case (Suc m)
  then show ?thesis using assms
    by (auto simp: task_release.simps critical_def Let_def TASK_REFCOUNT_GLOBAL_def
        elim!: bindE_InrE enable_interrupts_InrE split: if_splits)
qed

text \<open>Registering a handler again for the interrupt it already serves is fatal when the vector holds
  its only reference: the old entry is released before the new one is referenced, so the task is
  destroyed first and the call never returns.\<close>

lemma reregistering_handler_fails:
  assumes "irqvecs s ! unat v = h" and "h \<noteq> 0" and "tasks s h = Some t" and "t_refcount t = 1"
  shows "\<exists>e. register_irq_handler n v h s = Inl e"
proof -
  have "register_irq_handler n v h s \<noteq> Inr s'" for s'
    using assms
    by (auto simp: register_irq_handler_def task_reference_def panic_if_def elim!: bindE_InrE dest!: task_release_last split: if_splits)
  then show ?thesis by (metis sum.exhaust_sel)
qed

lemma reregistering_handler_fails_witness:
  "\<exists>e. register_irq_handler 9 3 0x10 (ex_kern\<lparr>irqvecs := (replicate 512 0)[3 := 0x10]\<rparr>) = Inl e"
  by (rule reregistering_handler_fails [where t = "ex_task 0x42 0x20 0x30"]) simp_all

end
