(* ===== verification/Bytes.thy ===== *)
theory Bytes
  imports Prelude
begin

unbundle bit_operations_syntax

text \<open>
  Memory as bytes, for the components that parse a blob (the device trees, Mach-O files): an
  object is the list of its bytes, a pointer into it is an index, and an access that leaves the
  object is \<open>BadAccess\<close>. Machine words are stored in little-endian order. C strings are the bytes
  before the first zero; \<open>strcmp\<close> reads no further than the first difference.
\<close>

type_synonym bytes = "u8 list"

section \<open>Words\<close>

primrec le_val :: "bytes \<Rightarrow> 'w::len word" where
  "le_val [] = 0"
| "le_val (b # bs) = ucast b OR push_bit 8 (le_val bs)"

primrec le_bytes :: "nat \<Rightarrow> 'w::len word \<Rightarrow> bytes" where
  "le_bytes 0 w = []"
| "le_bytes (Suc n) w = ucast w # le_bytes n (drop_bit 8 w)"

lemma length_le_bytes [simp]: "length (le_bytes n w) = n"
  by (induction n arbitrary: w) simp_all

lemma le_val_le_bytes: "le_val (le_bytes n w) = (take_bit (8 * n) (w :: 'w::len word) :: 'w word)"
proof (induction n arbitrary: w)
  case (Suc n)
  show ?case
  proof (rule bit_word_eqI)
    fix i assume i: "i < LENGTH('w)"
    have IHb: "bit (le_val (le_bytes n (drop_bit 8 w)) :: 'w word) j = (j < 8 * n \<and> bit w (8 + j))" for j
      unfolding Suc.IH bit_take_bit_iff by (simp add: bit_drop_bit_eq)
    show "bit (le_val (le_bytes (Suc n) w) :: 'w word) i = bit (take_bit (8 * Suc n) w) i"
      using i unfolding le_bytes.simps le_val.simps bit_or_iff bit_push_bit_iff bit_take_bit_iff IHb
      by (cases "i < 8") (auto simp: bit_ucast_iff)
  qed
qed simp

lemma le_val32 [simp]: "le_val (le_bytes 4 w) = (w :: u32)"
  using le_val_le_bytes [of 4 w] take_bit_length_eq [of w] by simp

lemma le_val64 [simp]: "le_val (le_bytes 8 w) = (w :: u64)"
  using le_val_le_bytes [of 8 w] take_bit_length_eq [of w] by simp

lemma bit_le_val: "bit (le_val bs :: 'w::len word) i \<Longrightarrow> i < 8 * length bs"
proof (induction bs arbitrary: i)
  case (Cons b bs)
  show ?case
  proof (cases "i < 8")
    case False
    have "bit (ucast b :: 'w word) i \<or> bit (push_bit 8 (le_val bs :: 'w word)) i"
      using Cons.prems by (simp only: le_val.simps bit_or_iff)
    moreover have "\<not> bit (ucast b :: 'w word) i" using bit_imp_le_length [of b i] False by (auto simp: bit_ucast_iff)
    ultimately have "bit (le_val bs :: 'w word) (i - 8)" by (simp add: bit_push_bit_iff)
    from Cons.IH [OF this] False show ?thesis by simp
  qed simp
qed simp

lemma le_bytes_le_val: "8 * length bs \<le> LENGTH('w) \<Longrightarrow> le_bytes (length bs) (le_val bs :: 'w::len word) = bs"
proof (induction bs)
  case (Cons b bs)
  let ?x = "le_val bs :: 'w word"
  have "ucast (ucast b OR push_bit 8 ?x :: 'w word) = b"
  proof (rule bit_word_eqI)
    fix i assume "i < LENGTH(8)"
    then show "bit (ucast (ucast b OR push_bit 8 ?x :: 'w word) :: u8) i = bit b i"
      using Cons.prems by (auto simp: bit_ucast_iff bit_or_iff bit_push_bit_iff)
  qed
  moreover have "drop_bit 8 (ucast b OR push_bit 8 ?x) = ?x"
  proof (rule bit_word_eqI)
    fix i assume i: "i < LENGTH('w)"
    have "\<not> bit b (8 + i)" using bit_imp_le_length [of b "8 + i"] by auto
    then show "bit (drop_bit 8 (ucast b OR push_bit 8 ?x)) i = bit ?x i"
      using Cons.prems i bit_le_val [of bs i, where 'w = 'w]
      by (auto simp: bit_drop_bit_eq bit_ucast_iff bit_or_iff bit_push_bit_iff)
  qed
  ultimately show ?case using Cons by simp
qed simp

lemma unat_and_mask_len: "unat ((x :: 'w::len word) AND mask k) = unat x mod 2 ^ k"
  by (simp add: unsigned_take_bit_eq flip: take_bit_eq_mask take_bit_eq_mod)

lemma unat_align_down: "unat ((x :: 'w::len word) AND NOT (mask k)) = 2 ^ k * (unat x div 2 ^ k)"
proof -
  have "(x AND mask k) + (x AND NOT (mask k)) = (x AND mask k) OR (x AND NOT (mask k))"
    by (rule disjunctive_add_eq_or, rule bit_eqI) (auto simp: bit_simps)
  also have "\<dots> = x" by (rule bit_eqI) (auto simp: bit_simps)
  finally have "x AND NOT (mask k) = x - (x AND mask k)" by (metis add_diff_cancel_left')
  moreover have "x AND mask k \<le> x" by (simp add: word_and_le2)
  ultimately have "unat (x AND NOT (mask k)) = unat x - unat x mod 2 ^ k" by (simp add: unat_sub unat_and_mask_len)
  then show ?thesis by (simp add: minus_mod_eq_mult_div)
qed

lemma unat_ucast_up: "LENGTH('a::len) \<le> LENGTH('b::len) \<Longrightarrow> unat (ucast (w :: 'a word) :: 'b word) = unat w"
proof -
  assume le: "LENGTH('a) \<le> LENGTH('b)"
  have "unat w < 2 ^ LENGTH('a)" by (rule unsigned_less)
  also have "\<dots> \<le> 2 ^ LENGTH('b)" using le by simp
  finally show ?thesis unfolding unsigned_ucast_eq by (rule take_bit_nat_eq_self)
qed

lemma unat_u32: "unat (w :: u32) < 4294967296"
proof -
  have "unat w < 2 ^ LENGTH(32)" by (rule unsigned_less)
  then show ?thesis by simp
qed

lemma unat_u64: "unat (w :: u64) < 18446744073709551616"
proof -
  have "unat w < 2 ^ LENGTH(64)" by (rule unsigned_less)
  then show ?thesis by simp
qed

lemma unat_add_u32: "unat x + unat y < 4294967296 \<Longrightarrow> unat (x + y :: u32) = unat x + unat y"
  by (simp add: unat_word_ariths)

section \<open>Accesses\<close>

definition chunk :: "bytes \<Rightarrow> nat \<Rightarrow> nat \<Rightarrow> error + bytes" where
  "chunk m p n = (if p + n \<le> length m then Inr (take n (drop p m)) else Inl BadAccess)"

definition rd8 :: "bytes \<Rightarrow> nat \<Rightarrow> error + u8" where
  "rd8 m p = bindE (chunk m p 1) (\<lambda>bs. Inr (le_val bs))"

definition rd32 :: "bytes \<Rightarrow> nat \<Rightarrow> error + u32" where
  "rd32 m p = bindE (chunk m p 4) (\<lambda>bs. Inr (le_val bs))"

definition rd64 :: "bytes \<Rightarrow> nat \<Rightarrow> error + u64" where
  "rd64 m p = bindE (chunk m p 8) (\<lambda>bs. Inr (le_val bs))"

definition blit :: "bytes \<Rightarrow> nat \<Rightarrow> bytes \<Rightarrow> error + bytes" where
  "blit m p bs = (if p + length bs \<le> length m then Inr (take p m @ bs @ drop (p + length bs) m) else Inl BadAccess)"

lemma chunk_append [simp]: "length bs = n \<Longrightarrow> length pre = p \<Longrightarrow> chunk (pre @ bs @ post) p n = Inr bs"
  by (auto simp: chunk_def)

lemma chunk_ok: "p + n \<le> length m \<Longrightarrow> \<exists>bs. chunk m p n = Inr bs \<and> length bs = n"
  by (simp add: chunk_def)

lemma rd_ok:
  "p + 4 \<le> length m \<Longrightarrow> \<exists>w. rd32 m p = Inr w"
  "p + 8 \<le> length m \<Longrightarrow> \<exists>w. rd64 m p = Inr w"
  by (simp_all add: rd32_def rd64_def chunk_def)

lemma rd_bound:
  "rd32 m p = Inr w \<Longrightarrow> p + 4 \<le> length m"
  "rd64 m p = Inr v \<Longrightarrow> p + 8 \<le> length m"
  by (auto simp: rd32_def rd64_def chunk_def split: if_splits)

lemma rd32_append: "length pre = p \<Longrightarrow> rd32 (pre @ le_bytes 4 w @ post) p = Inr w"
  by (simp add: rd32_def)

lemma rd64_append: "length pre = p \<Longrightarrow> rd64 (pre @ le_bytes 8 w @ post) p = Inr w"
  by (simp add: rd64_def)

lemma length_blit: "blit m p bs = Inr m' \<Longrightarrow> length m' = length m"
  by (auto simp: blit_def split: if_splits)

section \<open>C strings\<close>

text \<open>\<open>strcmp (p, s) == 0\<close> for the bytes from \<open>p\<close> on and a string \<open>s\<close> (without its terminator).\<close>

primrec str_eq :: "bytes \<Rightarrow> bytes \<Rightarrow> error + bool" where
  "str_eq m [] = (case m of [] \<Rightarrow> Inl BadAccess | b # _ \<Rightarrow> Inr (b = 0))"
| "str_eq m (c # cs) = (case m of [] \<Rightarrow> Inl BadAccess | b # bs \<Rightarrow> if b = c then str_eq bs cs else Inr False)"

text \<open>\<open>strncmp (p, s, strlen (s)) == 0\<close>: is \<open>s\<close> a prefix?\<close>

primrec str_prefix :: "bytes \<Rightarrow> bytes \<Rightarrow> error + bool" where
  "str_prefix m [] = Inr True"
| "str_prefix m (c # cs) = (case m of [] \<Rightarrow> Inl BadAccess | b # bs \<Rightarrow> if b = c then str_prefix bs cs else Inr False)"

primrec cstr :: "bytes \<Rightarrow> error + bytes" where
  "cstr [] = Inl BadAccess"
| "cstr (b # bs) = (if b = 0 then Inr [] else bindE (cstr bs) (\<lambda>s. Inr (b # s)))"

definition ascii :: "string \<Rightarrow> bytes" where "ascii s = map (\<lambda>c. of_nat (of_char c)) s"

lemma cstr_append [simp]: "0 \<notin> set s \<Longrightarrow> cstr (s @ 0 # post) = Inr s"
  by (induction s) auto

lemma str_eq_cstr [simp]: "0 \<notin> set s \<Longrightarrow> 0 \<notin> set t \<Longrightarrow> str_eq (s @ 0 # post) t = Inr (s = t)"
  by (induction t arbitrary: s) (auto split: list.split simp: append_eq_Cons_conv Cons_eq_append_conv)

lemma str_eq_short: "length s < length m \<Longrightarrow> \<exists>b. str_eq m s = Inr b"
  by (induction s arbitrary: m) (auto split: list.splits)

lemma str_prefix_cstr:
  "0 \<notin> set s \<Longrightarrow> 0 \<notin> set t \<Longrightarrow> str_prefix (s @ 0 # post) t = Inr (take (length t) s = t)"
proof (induction t arbitrary: s)
  case (Cons c t)
  then show ?case by (cases s) auto
qed simp

section \<open>Layout\<close>

text \<open>The zero bytes that round a length up to a multiple of four.\<close>

definition pad4 :: "nat \<Rightarrow> bytes" where "pad4 n = replicate (4 * ((n + 3) div 4) - n) 0"

lemma length_pad4: "n + length (pad4 n) = 4 * ((n + 3) div 4)"
  by (simp add: pad4_def)

lemma rd32_drop: "drop q m = le_bytes 4 w @ r \<Longrightarrow> rd32 m q = Inr w"
proof -
  assume d: "drop q m = le_bytes 4 w @ r"
  then have "length (drop q m) = 4 + length r" by simp
  then have "q + 4 \<le> length m" by simp
  then show ?thesis using d by (simp add: rd32_def chunk_def)
qed

lemma drop_more: "drop q m = xs @ r \<Longrightarrow> drop (q + length xs) m = r"
  by (metis add.commute append_eq_conv_conj drop_drop)

lemma str_eq_take:
  "length s < length xs \<Longrightarrow> 0 \<notin> set s \<Longrightarrow> str_eq xs s = Inr (take (length s + 1) xs = s @ [0])"
  by (induction s arbitrary: xs) (auto split: list.splits simp: Cons_eq_append_conv)

end
