(* ===== verification/DTree.thy ===== *)
theory DTree
  imports Bytes
begin

unbundle bit_operations_syntax

text \<open>
  The Apple device tree, \<open>src/src/kernel/dtree.c\<close> and \<open>src/src/kernel/dtree_getprop.c\<close>: a node is the
  number of its properties, the number of its children, the properties (a 32 byte key, a
  length, the value padded to four bytes) and the children. \<open>dt_check\<close> validates a blob of a
  given size, \<open>dt_parse\<close> walks one without knowing its size. The tree is a byte list; the first
  argument of both bounds the nesting. The callbacks of \<open>dt_parse\<close> get the memory and their
  argument and return a code (0 goes on), the memory and the argument.
\<close>

section \<open>Checking\<close>

definition prop_len :: "bytes \<Rightarrow> nat \<Rightarrow> error + u32" where
  "prop_len m q = bindE (rd32 m (q + 32)) (\<lambda>l. Inr (l AND 0xffffff))"

definition prop_step :: "u32 \<Rightarrow> u32" where
  "prop_step l = 36 + ((l + 3) AND NOT 3)"

primrec check_props :: "bytes \<Rightarrow> nat \<Rightarrow> u32 \<Rightarrow> nat \<Rightarrow> u32 \<Rightarrow> error + u32 option" where
  "check_props m p sz 0 off = Inr (Some off)"
| "check_props m p sz (Suc k) off =
     (if unat sz < unat off + 36 then Inr None
      else bindE (prop_len m (p + unat off)) (\<lambda>l.
           let off = off + prop_step l in
           if sz < off then Inr None else check_props m p sz k off))"

primrec check_children :: "(nat \<Rightarrow> u32 \<Rightarrow> error + u32 option) \<Rightarrow> nat \<Rightarrow> u32 \<Rightarrow> nat \<Rightarrow> u32 \<Rightarrow> error + u32 option" where
  "check_children check p sz 0 off = Inr (Some off)"
| "check_children check p sz (Suc k) off =
     bindE (check (p + unat off) (sz - off)) (\<lambda>r.
     case r of None \<Rightarrow> Inr None | Some add \<Rightarrow> check_children check p sz k (off + add))"

primrec dt_check :: "nat \<Rightarrow> bytes \<Rightarrow> nat \<Rightarrow> u32 \<Rightarrow> error + u32 option" where
  "dt_check 0 m p sz = Inl OutOfFuel"
| "dt_check (Suc n) m p sz =
     (if sz < 8 then Inr None
      else bindE (rd32 m p) (\<lambda>nprop.
      bindE (check_props m p sz (unat nprop) 8) (\<lambda>r.
      case r of None \<Rightarrow> Inr None
      | Some off \<Rightarrow> bindE (rd32 m (p + 4)) (\<lambda>nchld. check_children (dt_check n m) p sz (unat nchld) off))))"

section \<open>Walking\<close>

type_synonym 'a node_cb = "nat \<Rightarrow> bytes \<times> 'a \<Rightarrow> error + (int \<times> bytes \<times> 'a)"
type_synonym 'a prop_cb = "nat \<Rightarrow> int \<Rightarrow> nat \<Rightarrow> nat \<Rightarrow> u32 \<Rightarrow> bytes \<times> 'a \<Rightarrow> error + (int \<times> bytes \<times> 'a)"

text \<open>The three results: the code, what is stored through \<open>offp\<close> (0 if nothing is), memory and
  argument. A property callback gets the node, the depth, the key, the value and its length.\<close>

primrec parse_props :: "'a prop_cb option \<Rightarrow> nat \<Rightarrow> int \<Rightarrow> nat \<Rightarrow> u32 \<Rightarrow> bytes \<times> 'a \<Rightarrow> error + (int \<times> u32 \<times> bytes \<times> 'a)" where
  "parse_props cb node depth 0 off s = Inr (0, off, s)"
| "parse_props cb node depth (Suc k) off s =
     (let q = node + unat off in
      bindE (prop_len (fst s) q) (\<lambda>l.
      let off = off + prop_step l in
      bindE (case cb of None \<Rightarrow> Inr (0, s) | Some f \<Rightarrow> f node depth q (q + 36) l s) (\<lambda>(r, s).
      if r \<noteq> 0 then Inr (r, off, s) else parse_props cb node depth k off s)))"

primrec parse_children ::
  "(nat \<Rightarrow> bytes \<times> 'a \<Rightarrow> error + (int \<times> u32 \<times> bytes \<times> 'a)) \<Rightarrow> nat \<Rightarrow> nat \<Rightarrow> u32 \<Rightarrow> bytes \<times> 'a
   \<Rightarrow> error + (int \<times> u32 \<times> bytes \<times> 'a)" where
  "parse_children parse node 0 off s = Inr (0, off, s)"
| "parse_children parse node (Suc k) off s =
     bindE (parse (node + unat off) s) (\<lambda>(r, add, s).
     if r \<noteq> 0 then Inr (r, off, s) else parse_children parse node k (off + add) s)"

primrec dt_parse ::
  "nat \<Rightarrow> 'a node_cb option \<Rightarrow> 'a prop_cb option \<Rightarrow> int \<Rightarrow> nat \<Rightarrow> bytes \<times> 'a \<Rightarrow> error + (int \<times> u32 \<times> bytes \<times> 'a)" where
  "dt_parse 0 cbn cbp depth node s = Inl OutOfFuel"
| "dt_parse (Suc n) cbn cbp depth node s =
     bindE (case cbn of None \<Rightarrow> Inr (0, s) | Some f \<Rightarrow> f node s) (\<lambda>(r, s).
     if r \<noteq> 0 then Inr (r, 0, s)
     else if \<not> (depth \<ge> 0 \<or> cbp \<noteq> None) then Inr (0, 0, s)
     else bindE (rd32 (fst s) node) (\<lambda>nprop.
          bindE (parse_props cbp node depth (unat nprop) 8 s) (\<lambda>(r, off, s).
          if r \<noteq> 0 then Inr (r, 0, s)
          else if depth \<ge> 0 then
            bindE (rd32 (fst s) (node + 4)) (\<lambda>nchld.
            bindE (parse_children (dt_parse n cbn cbp (depth + 1)) node (unat nchld) off s) (\<lambda>(r, off, s).
            if r \<noteq> 0 then Inr (r, 0, s) else Inr (0, off, s)))
          else Inr (0, 0, s))))"

section \<open>Looking things up\<close>

definition dt_find_cb :: "bytes \<Rightarrow> nat option prop_cb" where
  "dt_find_cb name node depth key val len s =
     (let (m, a) = s in
      bindE (str_eq (drop key m) (ascii ''name'')) (\<lambda>b.
      if \<not> b then Inr (0, m, a)
      else bindE (str_eq (drop val m) name) (\<lambda>b.
           if b \<and> length name + 1 = unat len then Inr (1, m, Some node) else Inr (0, m, a))))"

definition dt_find :: "nat \<Rightarrow> bytes \<Rightarrow> nat \<Rightarrow> bytes \<Rightarrow> error + nat option" where
  "dt_find n m node name =
     bindE (dt_parse n None (Some (dt_find_cb name)) 0 node (m, None)) (\<lambda>(_, _, _, a). Inr a)"

definition dt_prop_cb :: "bytes \<Rightarrow> (nat \<times> u32) option prop_cb" where
  "dt_prop_cb name node depth key val len s =
     (let (m, a) = s in
      bindE (str_eq (drop key m) name) (\<lambda>b.
      if b then Inr (1, m, Some (val, len)) else Inr (0, m, a)))"

definition dt_prop :: "nat \<Rightarrow> bytes \<Rightarrow> nat \<Rightarrow> bytes \<Rightarrow> error + (nat \<times> u32) option" where
  "dt_prop n m node key =
     bindE (dt_parse n None (Some (dt_prop_cb key)) (- 1) node (m, None)) (\<lambda>(_, _, _, a). Inr a)"

text \<open>The entries a boot loader leaves for later use have keys of the form \<open>Me.......Re\<close>.\<close>

definition memmap_free :: "bytes \<Rightarrow> nat \<Rightarrow> error + bool" where
  "memmap_free m key =
     bindE (rd8 m key) (\<lambda>c. if c \<noteq> 0x4d then Inr False
     else bindE (rd8 m (key + 1)) (\<lambda>c. if c \<noteq> 0x65 then Inr False
     else bindE (rd8 m (key + 9)) (\<lambda>c. if c \<noteq> 0x52 then Inr False
     else bindE (rd8 m (key + 10)) (\<lambda>c. Inr (c = 0x65)))))"

definition dt_find_memmap_cb :: "bytes \<Rightarrow> nat option prop_cb" where
  "dt_find_memmap_cb name node depth key val len s =
     (let (m, a) = s in
      bindE (memmap_free m key) (\<lambda>b.
      if b \<or> name = ascii ''RAMDisk'' then bindE (blit m key (name @ [0])) (\<lambda>m. Inr (1, m, Some val))
      else Inr (0, m, a)))"

definition dt_alloc_memmap :: "nat \<Rightarrow> bytes \<Rightarrow> nat \<Rightarrow> bytes \<Rightarrow> error + (nat option \<times> bytes)" where
  "dt_alloc_memmap n m node name =
     bindE (dt_parse n None (Some (dt_find_memmap_cb name)) (- 1) node (m, None)) (\<lambda>(_, _, m, a). Inr (a, m))"

text \<open>\<open>dtree_getprop.c\<close>, on the tree at the start of the memory.\<close>

definition dt_get_prop :: "nat \<Rightarrow> bytes \<Rightarrow> bytes \<Rightarrow> bytes \<Rightarrow> error + (nat \<times> u32)" where
  "dt_get_prop n m device prop =
     bindE (dt_find n m 0 device) (\<lambda>dev.
     case dev of None \<Rightarrow> Inl (Panic ''invalid devicetree: no device!'')
     | Some dev \<Rightarrow> bindE (dt_prop n m dev prop) (\<lambda>val.
        case val of None \<Rightarrow> Inl (Panic ''invalid devicetree: no prop!'') | Some v \<Rightarrow> Inr v))"

definition dt_get_u32_prop :: "nat \<Rightarrow> bytes \<Rightarrow> bytes \<Rightarrow> bytes \<Rightarrow> error + u32" where
  "dt_get_u32_prop n m device prop = bindE (dt_get_prop n m device prop) (\<lambda>(val, _). rd32 m val)"

definition dt_get_u64_prop :: "nat \<Rightarrow> bytes \<Rightarrow> bytes \<Rightarrow> bytes \<Rightarrow> error + u64" where
  "dt_get_u64_prop n m device prop = bindE (dt_get_prop n m device prop) (\<lambda>(val, _). rd64 m val)"

definition dt_get_u64_prop_i :: "nat \<Rightarrow> bytes \<Rightarrow> bytes \<Rightarrow> bytes \<Rightarrow> u32 \<Rightarrow> error + u64" where
  "dt_get_u64_prop_i n m device prop idx = bindE (dt_get_prop n m device prop) (\<lambda>(val, _). rd64 m (val + 8 * unat idx))"

section \<open>Lengths\<close>

lemma unat_and_not3: "unat (w AND NOT 3 :: u32) = 4 * (unat w div 4)"
  using unat_align_down [of w 2] by (simp add: mask_eq_exp_minus_1)

lemma prop_len_less: "prop_len m q = Inr l \<Longrightarrow> unat l < 0x1000000"
proof -
  have "unat (x AND 0xffffff) < 0x1000000" for x :: u32
  proof -
    have "x AND 0xffffff \<le> 0xffffff" by (rule word_and_le1)
    then show ?thesis by (simp add: word_le_nat_alt)
  qed
  then show "prop_len m q = Inr l \<Longrightarrow> unat l < 0x1000000" by (auto simp: prop_len_def)
qed

lemma unat_prop_step: "unat l < 0x1000000 \<Longrightarrow> unat (prop_step l) = 36 + 4 * ((unat l + 3) div 4)"
  unfolding prop_step_def unat_word_ariths(1) unat_and_not3 by simp

end
