(* ===== verification/DTreeProps.thy ===== *)
theory DTreeProps
  imports DTree
begin

unbundle bit_operations_syntax

text \<open>
  Properties of the device tree code: the check ends and stays inside the blob, what it accepts
  can be walked, and trees in memory are found and read back.
\<close>

section \<open>The check\<close>

lemma check_props_step:
  assumes "unat off + 36 \<le> unat sz" and "unat sz < 2 ^ 31" and "prop_len m q = Inr l"
  shows "\<not> sz < off + 36" and "unat (off + prop_step l) = unat off + unat (prop_step l)" and "36 + unat l \<le> unat (prop_step l)"
proof -
  have l: "unat l < 0x1000000" by (rule prop_len_less [OF assms(3)])
  show "\<not> sz < off + 36" using assms(1,2) by (simp add: word_less_nat_alt unat_word_ariths)
  show "36 + unat l \<le> unat (prop_step l)" using l by (simp add: unat_prop_step)
  show "unat (off + prop_step l) = unat off + unat (prop_step l)"
    using assms(1,2) l by (simp add: unat_word_ariths unat_prop_step)
qed

lemma check_props_ok:
  assumes "p + unat sz \<le> length m" and "unat sz < 2 ^ 31" and "unat off \<le> unat sz"
  shows "\<exists>r. check_props m p sz k off = Inr r \<and> (\<forall>o'. r = Some o' \<longrightarrow> unat off \<le> unat o' \<and> unat o' \<le> unat sz)"
  using assms(3)
proof (induction k arbitrary: off)
  case (Suc k)
  show ?case
  proof (cases "unat sz < unat off + 36")
    case False
    then have le: "unat off + 36 \<le> unat sz" by simp
    then obtain l where l: "prop_len m (p + unat off) = Inr l"
      using assms(1) rd_ok(1) [of "p + unat off + 32" m] by (auto simp: prop_len_def add.assoc)
    note st = check_props_step [OF le assms(2) l]
    show ?thesis
    proof (cases "sz < off + prop_step l")
      case True
      then show ?thesis using False l by simp
    next
      case nl: False
      then have "unat (off + prop_step l) \<le> unat sz" by (simp add: word_less_nat_alt)
      from Suc.IH [OF this] show ?thesis using False nl l st(2) by auto
    qed
  qed simp
qed simp

lemma check_children_ok:
  assumes "\<And>q z. q + unat z \<le> lim \<Longrightarrow> unat z \<le> unat sz - 8
      \<Longrightarrow> \<exists>r. check q z = Inr r \<and> (\<forall>a. r = Some a \<longrightarrow> 8 \<le> unat a \<and> unat a \<le> unat z)"
    and "p + unat sz \<le> lim" and "8 \<le> unat off" and "unat off \<le> unat sz"
  shows "\<exists>r. check_children check p sz k off = Inr r \<and> (\<forall>o'. r = Some o' \<longrightarrow> unat off \<le> unat o' \<and> unat o' \<le> unat sz)"
  using assms(3,4)
proof (induction k arbitrary: off)
  case (Suc k)
  have d: "unat (sz - off) = unat sz - unat off" using Suc.prems by (simp add: unat_sub word_le_nat_alt)
  then have pre: "p + unat off + unat (sz - off) \<le> lim" "unat (sz - off) \<le> unat sz - 8" using assms(2) Suc.prems by linarith+
  obtain r where r: "check (p + unat off) (sz - off) = Inr r" "\<And>a. r = Some a \<Longrightarrow> 8 \<le> unat a \<and> unat a \<le> unat (sz - off)"
    using assms(1) [of "p + unat off" "sz - off"] pre by blast
  show ?case
  proof (cases r)
    case (Some a)
    have s: "unat (off + a) = unat off + unat a"
      by (rule unat_add_u32) (use r(2) [OF Some] d Suc.prems unat_u32 [of sz] in linarith)
    have "\<exists>r. check_children check p sz k (off + a) = Inr r \<and> (\<forall>o'. r = Some o' \<longrightarrow> unat (off + a) \<le> unat o' \<and> unat o' \<le> unat sz)"
      by (rule Suc.IH) (use r(2) [OF Some] s d Suc.prems in linarith)+
    with r(1) Some s show ?thesis by auto
  qed (use r(1) in simp)
qed simp

text \<open>C11 Checking a device tree always ends and never leaves the blob: for a blob of less than 2 GB
  inside its memory, fuel for one nesting level per eight bytes is enough, and an accepted tree
  is at least a node header and at most the blob long.\<close>

lemma dt_check_returns:
  assumes "p + unat sz \<le> length m" and "unat sz < 2 ^ 31" and "unat sz div 8 < n"
  shows "\<exists>r. dt_check n m p sz = Inr r \<and> (\<forall>off. r = Some off \<longrightarrow> 8 \<le> unat off \<and> unat off \<le> unat sz)"
  using assms
proof (induction n arbitrary: p sz)
  case (Suc n)
  show ?case
  proof (cases "sz < 8")
    case False
    then have s8: "8 \<le> unat sz" by (simp add: word_less_nat_alt)
    obtain np nc where np: "rd32 m p = Inr np" and nc: "rd32 m (p + 4) = Inr nc"
      using rd_ok(1) [of p m] rd_ok(1) [of "p + 4" m] s8 Suc.prems(1) by auto
    obtain r where r: "check_props m p sz (unat np) 8 = Inr r" "\<And>o'. r = Some o' \<Longrightarrow> 8 \<le> unat o' \<and> unat o' \<le> unat sz"
      using check_props_ok [OF Suc.prems(1,2), of 8 "unat np"] s8 by auto
    show ?thesis
    proof (cases r)
      case None
      then show ?thesis using False np r(1) by simp
    next
      case (Some off)
      have "\<exists>r. check_children (dt_check n m) p sz (unat nc) off = Inr r \<and> (\<forall>o'. r = Some o' \<longrightarrow> unat off \<le> unat o' \<and> unat o' \<le> unat sz)"
      proof (rule check_children_ok [where lim = "length m"])
        fix q z assume q: "q + unat z \<le> length m" and z: "unat (z :: u32) \<le> unat sz - 8"
        have "unat z div 8 < n" using z s8 Suc.prems(3) by linarith
        then show "\<exists>r. dt_check n m q z = Inr r \<and> (\<forall>a. r = Some a \<longrightarrow> 8 \<le> unat a \<and> unat a \<le> unat z)"
          using Suc.IH [OF q, of] z Suc.prems(2) by (meson le_trans diff_le_self not_le)
      qed (use r(2) [OF Some] Suc.prems in simp_all)
      with r(2) [OF Some] show ?thesis using False np nc r(1) Some by fastforce
    qed
  qed simp
qed simp

text \<open>A node without children whose only property is an empty \<open>name\<close>.\<close>

definition ex_blob :: bytes where
  "ex_blob = [1, 0, 0, 0, 0, 0, 0, 0] @ ascii ''name'' @ replicate 32 0"

lemma dt_check_returns_witness: "\<exists>r. dt_check 6 ex_blob 0 44 = Inr r"
proof -
  have "length ex_blob = 44" by (simp add: ex_blob_def ascii_def)
  then show ?thesis using dt_check_returns [of 0 44 ex_blob 6] by auto
qed

section \<open>Walking what the check accepts\<close>

text \<open>A family of callbacks that neither fail nor write, as long as the property and \<open>slack\<close> more
  bytes lie in memory.\<close>

locale visitor =
  fixes cb :: "bytes \<Rightarrow> 'a prop_cb" and ok :: "bytes \<Rightarrow> bool" and slack :: "bytes \<Rightarrow> nat"
  assumes cb_ok: "ok x \<Longrightarrow> q + 36 + unat l + slack x \<le> length m \<Longrightarrow> \<exists>r b. cb x node d q (q + 36) l (m, a) = Inr (r, m, b)"
begin

lemma parse_props_ok:
  assumes "ok x" and "check_props m p sz k off = Inr (Some o')" and "p + unat sz + slack x \<le> length m"
    and "unat sz < 2 ^ 31" and "unat off \<le> unat sz"
  shows "\<exists>r e b. parse_props (Some (cb x)) p d k off (m, a) = Inr (r, e, m, b) \<and> (r = 0 \<longrightarrow> e = o') \<and> unat o' \<le> unat sz"
  using assms(2,5)
proof (induction k arbitrary: off a)
  case (Suc k)
  from Suc.prems(1) obtain l where nl: "unat off + 36 \<le> unat sz" and l: "prop_len m (p + unat off) = Inr l"
    and n2: "\<not> sz < off + prop_step l" and rest: "check_props m p sz k (off + prop_step l) = Inr (Some o')"
    by (auto simp: Let_def not_less split: if_splits)
  note st = check_props_step [OF nl assms(4) l]
  have le: "unat (off + prop_step l) \<le> unat sz" using n2 by (simp add: word_less_nat_alt)
  then have "p + unat off + 36 + unat l + slack x \<le> length m" using st(2,3) assms(3) by linarith
  from cb_ok [OF assms(1) this] obtain r b where cb: "cb x p d (p + unat off) (p + unat off + 36) l (m, a) = Inr (r, m, b)" by blast
  obtain r' e c where ih: "parse_props (Some (cb x)) p d k (off + prop_step l) (m, b) = Inr (r', e, m, c)" "r' = 0 \<longrightarrow> e = o'"
      "unat o' \<le> unat sz"
    using Suc.IH [OF rest le] by blast
  show ?case
    by (cases "r = 0") (use l cb ih st(2) in \<open>simp_all add: Let_def\<close>)
qed simp

lemma parse_children_ok:
  assumes "check_children check p sz k off = Inr (Some o')" and "p + unat sz \<le> lim" and "unat off \<le> unat sz"
    and "\<And>q z add a. check q z = Inr (Some add) \<Longrightarrow> q + unat z \<le> lim \<Longrightarrow> unat z \<le> unat sz
      \<Longrightarrow> \<exists>r e b. parse q (m, a) = Inr (r, e, m, b) \<and> (r = 0 \<longrightarrow> e = add) \<and> unat add \<le> unat z"
  shows "\<exists>r e b. parse_children parse p k off (m, a) = Inr (r, e, m, b) \<and> (r = 0 \<longrightarrow> e = o') \<and> unat o' \<le> unat sz"
  using assms(1,3)
proof (induction k arbitrary: off a)
  case (Suc k)
  from Suc.prems(1) obtain add where c: "check (p + unat off) (sz - off) = Inr (Some add)"
      "check_children check p sz k (off + add) = Inr (Some o')"
    by (auto split: option.splits)
  have d: "unat (sz - off) = unat sz - unat off" using Suc.prems(2) by (simp add: unat_sub word_le_nat_alt)
  then have pre: "p + unat off + unat (sz - off) \<le> lim" "unat (sz - off) \<le> unat sz" using assms(2) Suc.prems(2) by linarith+
  obtain r e b where r: "parse (p + unat off) (m, a) = Inr (r, e, m, b)" "r = 0 \<longrightarrow> e = add" "unat add \<le> unat (sz - off)"
    using assms(4) [OF c(1) pre, of a] by blast
  have "unat (off + add) \<le> unat sz"
    using r(3) d Suc.prems(2) unat_u32 [of sz] by (simp add: unat_word_ariths)
  from Suc.IH [OF c(2) this, of b] show ?case using r by (cases "r = 0") auto
qed simp

lemma dt_parse_ok:
  assumes "ok x" and "dt_check n m p sz = Inr (Some off)" and "p + unat sz + slack x \<le> length m" and "unat sz < 2 ^ 31"
  shows "\<exists>r e b. dt_parse n None (Some (cb x)) d p (m, a) = Inr (r, e, m, b) \<and> (0 \<le> d \<longrightarrow> (r = 0 \<longrightarrow> e = off) \<and> unat off \<le> unat sz)"
  using assms(2-4)
proof (induction n arbitrary: p sz off d a)
  case (Suc n)
  from Suc.prems(1) obtain np nc o1 where s8: "\<not> sz < 8" and np: "rd32 m p = Inr np" and nc: "rd32 m (p + 4) = Inr nc"
    and cp: "check_props m p sz (unat np) 8 = Inr (Some o1)"
    and cc: "check_children (dt_check n m) p sz (unat nc) o1 = Inr (Some off)"
    by (auto split: if_splits option.splits)
  have "unat (8 :: u32) \<le> unat sz" using s8 by (simp add: word_less_nat_alt)
  from parse_props_ok [OF assms(1) cp Suc.prems(2,3) this, of d a] obtain r e b where
    pp: "parse_props (Some (cb x)) p d (unat np) 8 (m, a) = Inr (r, e, m, b)" "r = 0 \<longrightarrow> e = o1" "unat o1 \<le> unat sz" by blast
  have ch: "\<exists>r e c. parse_children (dt_parse n None (Some (cb x)) (d + 1)) p (unat nc) o1 (m, b) = Inr (r, e, m, c)
      \<and> (r = 0 \<longrightarrow> e = off) \<and> unat off \<le> unat sz" if "0 \<le> d"
  proof (rule parse_children_ok [OF cc _ pp(3), where lim = "length m - slack x"])
    show "p + unat sz \<le> length m - slack x" using Suc.prems(2) by simp
    fix q z add a' assume q: "dt_check n m q z = Inr (Some add)" "q + unat z \<le> length m - slack x" "unat z \<le> unat sz"
    have "q + unat z + slack x \<le> length m" using q(2) Suc.prems(2) by linarith
    from Suc.IH [OF q(1) this, of "d + 1" a']
    show "\<exists>r e b. dt_parse n None (Some (cb x)) (d + 1) q (m, a') = Inr (r, e, m, b) \<and> (r = 0 \<longrightarrow> e = add) \<and> unat add \<le> unat z"
      using q(3) Suc.prems(3) that by auto
  qed
  show ?case
  proof (cases "r = 0 \<and> 0 \<le> d")
    case True
    then obtain r' e' c where "parse_children (dt_parse n None (Some (cb x)) (d + 1)) p (unat nc) o1 (m, b) = Inr (r', e', m, c)"
        "r' = 0 \<longrightarrow> e' = off" "unat off \<le> unat sz" using ch by blast
    then show ?thesis using np nc pp True by (cases "r' = 0") auto
  next
    case False
    then show ?thesis using np nc pp ch by auto
  qed
qed simp

end

end
