(* ===== verification/DTreeClaims.thy ===== *)
theory DTreeClaims
  imports DTreeProps
begin

unbundle bit_operations_syntax

text \<open>
  Device trees: lookups after a check, and the code against an abstract tree laid out in memory.
\<close>

section \<open>Lookups in a checked tree\<close>

interpretation dtp: visitor dt_prop_cb "\<lambda>key. length key < 32" "\<lambda>_. 0"
proof
  fix x m :: bytes and q :: nat and l :: u32 and node d and a :: "(nat \<times> u32) option" assume "length x < 32" "q + 36 + unat l + 0 \<le> length m"
  then have "length x < length (drop q m)" by simp
  from str_eq_short [OF this] show "\<exists>r b. dt_prop_cb x node d q (q + 36) l (m, a) = Inr (r, m, b)"
    by (auto simp: dt_prop_cb_def)
qed

interpretation dtf: visitor dt_find_cb "\<lambda>_. True" "\<lambda>name. length name + 1"
proof
  fix x m :: bytes and q :: nat and l :: u32 and node d and a :: "nat option" assume "q + 36 + unat l + (length x + 1) \<le> length m"
  then have "length (ascii ''name'') < length (drop q m)" "length x < length (drop (q + 36) m)"
    by (simp_all add: ascii_def)
  from this [THEN str_eq_short] obtain b c where "str_eq (drop q m) (ascii ''name'') = Inr b" "str_eq (drop (q + 36) m) x = Inr c" by blast
  then show "\<exists>r b. dt_find_cb x node d q (q + 36) l (m, a) = Inr (r, m, b)" by (simp add: dt_find_cb_def)
qed

text \<open>C12 What \<open>dt_check\<close> accepts can be searched: for a blob that lies in memory and is shorter than
  2^31 bytes, with the fuel the check was given, \<open>dt_prop\<close> with any key shorter than 32 bytes
  returns without reading outside the memory, and so does \<open>dt_find\<close> provided that more bytes than
  the name is long follow the blob. The check alone does not make \<open>dt_find\<close> safe
  (\<open>dt_find_reads_past_end\<close>).\<close>

lemma checked_tree_lookups_return:
  assumes "dt_check n m p sz = Inr (Some off)" and "p + unat sz \<le> length m" and "unat sz < 2 ^ 31"
  shows "(length key < 32 \<longrightarrow> (\<exists>v. dt_prop n m p key = Inr v))
    \<and> (p + unat sz + length name < length m \<longrightarrow> (\<exists>v. dt_find n m p name = Inr v))"
proof (intro conjI impI)
  assume "length key < 32"
  from dtp.dt_parse_ok [OF this assms(1), of "- 1" None] assms(2,3)
  show "\<exists>v. dt_prop n m p key = Inr v" by (auto simp: dt_prop_def)
next
  assume "p + unat sz + length name < length m"
  with dtf.dt_parse_ok [OF TrueI assms(1), of name 0 None] assms(3)
  show "\<exists>v. dt_find n m p name = Inr v" by (auto simp: dt_find_def)
qed

lemma ex_blob_check: "dt_check 6 ex_blob 0 44 = Inr (Some 44)"
  by code_simp

lemma ex_blob_room_check: "dt_check 6 (ex_blob @ replicate 8 0) 0 44 = Inr (Some 44)"
  by code_simp

lemma checked_tree_lookups_return_witness:
  "(\<exists>v. dt_prop 6 (ex_blob @ replicate 8 0) 0 (ascii ''reg'') = Inr v)
   \<and> (\<exists>v. dt_find 6 (ex_blob @ replicate 8 0) 0 (ascii ''chosen'') = Inr v)"
proof -
  have l: "length (ex_blob @ replicate 8 0) = 52" "length (ascii ''reg'') = 3" "length (ascii ''chosen'') = 6"
    by (simp_all add: ex_blob_def ascii_def)
  show ?thesis
    using checked_tree_lookups_return [OF ex_blob_room_check, of "ascii ''reg''" "ascii ''chosen''"] unfolding l by simp
qed

text \<open>The length of a name is compared only after the name: on a tree the check accepts, whose last
  property is an empty \<open>name\<close>, \<open>dt_find\<close> reads past the end of the tree.\<close>

lemma dt_find_reads_past_end:
  "dt_check 6 ex_blob 0 44 = Inr (Some 44) \<and> length ex_blob = 44 \<and> dt_find 6 ex_blob 0 (ascii ''chosen'') = Inl BadAccess"
  by code_simp

section \<open>Trees in memory\<close>

datatype dtree = DNode "(bytes \<times> bytes) list" "dtree list"

definition enc_prop :: "bytes \<times> bytes \<Rightarrow> bytes" where
  "enc_prop kv = fst kv @ le_bytes 4 (of_nat (length (snd kv)) :: u32) @ snd kv @ pad4 (length (snd kv))"

primrec enc :: "dtree \<Rightarrow> bytes" where
  "enc (DNode ps cs) =
     le_bytes 4 (of_nat (length ps) :: u32) @ le_bytes 4 (of_nat (length cs) :: u32)
     @ concat (map enc_prop ps) @ concat (map enc cs)"

definition wf_props :: "(bytes \<times> bytes) list \<Rightarrow> bool" where
  "wf_props ps \<longleftrightarrow> (\<forall>kv \<in> set ps. length (fst kv) = 32 \<and> length (snd kv) < 0x1000000)"

primrec wf_tree :: "dtree \<Rightarrow> bool" where
  "wf_tree (DNode ps cs) \<longleftrightarrow> wf_props ps \<and> list_all wf_tree cs"

text \<open>A node has a name if a property with the key \<open>name\<close> holds it, zero-terminated.\<close>

definition named :: "bytes \<Rightarrow> (bytes \<times> bytes) list \<Rightarrow> bool" where
  "named name ps \<longleftrightarrow> (\<exists>kv \<in> set ps. take 5 (fst kv) = ascii ''name'' @ [0] \<and> snd kv = name @ [0])"

primrec first_hit :: "((nat \<Rightarrow> nat option) \<times> nat) list \<Rightarrow> nat \<Rightarrow> nat option" where
  "first_hit [] p = None"
| "first_hit (c # cs) p = (case fst c p of Some q \<Rightarrow> Some q | None \<Rightarrow> first_hit cs (p + snd c))"

text \<open>The address of the first node of that name in a tree at \<open>p\<close>, in preorder.\<close>

primrec find_name :: "bytes \<Rightarrow> dtree \<Rightarrow> nat \<Rightarrow> nat option" where
  "find_name name (DNode ps cs) p =
     (if named name ps then Some p
      else first_hit (map (\<lambda>c. (find_name name c, length (enc c))) cs) (p + 8 + length (concat (map enc_prop ps))))"

lemma prop_enc:
  assumes "drop q m = enc_prop (k, v) @ r" and "length k = 32" and "length v < 0x1000000"
  shows "prop_len m q = Inr (of_nat (length v))" and "unat (prop_step (of_nat (length v))) = length (enc_prop (k, v))"
    and "unat (of_nat (length v) :: u32) = length v" and "drop q m = k @ drop (q + 32) m" and "drop (q + 36) m = v @ pad4 (length v) @ r"
proof -
  show u: "unat (of_nat (length v) :: u32) = length v" using assms(3) by (simp add: unsigned_of_nat take_bit_nat_eq_self)
  have d: "drop (q + 32) m = le_bytes 4 (of_nat (length v) :: u32) @ v @ pad4 (length v) @ r"
    using drop_more [of q m k] assms(1,2) by (simp add: enc_prop_def)
  have "of_nat (length v) AND 0xffffff = (of_nat (length v) :: u32)"
  proof -
    have "of_nat (length v) AND mask 24 = (of_nat (length v) :: u32)"
      unfolding word_unat_eq_iff unat_and_mask_len u using assms(3) by simp
    then show ?thesis by (simp add: mask_eq_exp_minus_1)
  qed
  then show "prop_len m q = Inr (of_nat (length v))" using rd32_drop [OF d] by (simp add: prop_len_def)
  show "unat (prop_step (of_nat (length v))) = length (enc_prop (k, v))"
    using unat_prop_step [of "of_nat (length v)"] u assms(2,3) length_pad4 [of "length v"] by (simp add: enc_prop_def)
  show "drop q m = k @ drop (q + 32) m" using assms(1) d by (simp add: enc_prop_def)
  show "drop (q + 36) m = v @ pad4 (length v) @ r" using drop_more [OF d] by (simp add: add.commute)
qed


lemma find_cb_enc:
  assumes "drop q m = enc_prop (k, v) @ r" and "length k = 32" and "length v < 0x1000000" and "length name < length r" and "0 \<notin> set name"
  shows "dt_find_cb name node d q (q + 36) (of_nat (length v)) (m, a) =
    Inr (if named name [(k, v)] then (1, m, Some node) else (0, m, a))"
proof -
  note e = prop_enc [OF assms(1-3)]
  have k: "str_eq (drop q m) (ascii ''name'') = Inr (take 5 k = ascii ''name'' @ [0])"
  proof -
    have "length (ascii ''name'') = 4" "0 \<notin> set (ascii ''name'')" by (simp_all add: ascii_def)
    then show ?thesis unfolding e(4) using str_eq_take [of "ascii ''name''" "k @ drop (q + 32) m"] assms(2) by (simp del: str_eq.simps)
  qed
  have "length name < length (v @ pad4 (length v) @ r)" using assms(4) by simp
  from str_eq_take [OF this assms(5)]
  have v: "str_eq (drop (q + 36) m) name = Inr (take (length name + 1) (v @ pad4 (length v) @ r) = name @ [0])"
    unfolding e(5) .
  have "take (length name + 1) (v @ pad4 (length v) @ r) = name @ [0] \<and> length name + 1 = length v \<longleftrightarrow> v = name @ [0]" by auto
  then show ?thesis using e(3) by (simp add: dt_find_cb_def k v named_def)
qed

lemma parse_props_enc:
  assumes "drop (node + unat off) m = concat (map enc_prop ps) @ r" and "wf_props ps" and "length name < length r" and "0 \<notin> set name"
    and "unat off + length (concat (map enc_prop ps)) < 2 ^ 31"
  shows "\<exists>e. parse_props (Some (dt_find_cb name)) node d (length ps) off (m, a) =
      Inr (if named name ps then 1 else 0, e, m, if named name ps then Some node else a)
    \<and> (\<not> named name ps \<longrightarrow> unat e = unat off + length (concat (map enc_prop ps)))"
  using assms(1,2,5)
proof (induction ps arbitrary: off)
  case Nil
  then show ?case by (simp add: named_def)
next
  case (Cons kv ps)
  obtain k v where kv: "kv = (k, v)" by (cases kv)
  let ?q = "node + unat off" and ?r = "concat (map enc_prop ps) @ r"
  have d: "drop ?q m = enc_prop (k, v) @ ?r" using Cons.prems(1) kv by simp
  have l: "length k = 32" "length v < 0x1000000" using Cons.prems(2) kv by (simp_all add: wf_props_def)
  note e = prop_enc [OF d l]
  have off: "unat (off + prop_step (of_nat (length v))) = unat off + length (enc_prop (k, v))"
    using unat_add_u32 [of off "prop_step (of_nat (length v))"] e(2) Cons.prems(3) kv by simp
  have d2: "drop (node + unat (off + prop_step (of_nat (length v)))) m = ?r"
    using drop_more [OF d] off by (simp add: add.assoc)
  obtain e' where ih: "parse_props (Some (dt_find_cb name)) node d (length ps) (off + prop_step (of_nat (length v))) (m, a) =
      Inr (if named name ps then 1 else 0, e', m, if named name ps then Some node else a)"
    "\<not> named name ps \<longrightarrow> unat e' = unat (off + prop_step (of_nat (length v))) + length (concat (map enc_prop ps))"
    using Cons.IH [OF d2] Cons.prems(2,3) off kv by (auto simp: wf_props_def)
  have n: "named name (kv # ps) \<longleftrightarrow> named name [(k, v)] \<or> named name ps" by (auto simp: named_def kv)
  have cb: "dt_find_cb name node d ?q (?q + 36) (of_nat (length v)) (m, a) =
      Inr (if named name [(k, v)] then (1, m, Some node) else (0, m, a))"
    by (rule find_cb_enc [OF d l _ assms(4)]) (use assms(3) in simp)
  show ?case
    by (cases "named name [(k, v)]") (use e(1) cb ih n off kv in \<open>simp_all add: Let_def\<close>)
qed

lemma enc_length8: "8 \<le> length (enc t)"
  by (cases t) simp

lemma parse_children_enc:
  assumes "drop (node + unat off) m = concat (map enc cs) @ r" and "unat off + length (concat (map enc cs)) < 2 ^ 31"
    and "\<And>c q r' a. c \<in> set cs \<Longrightarrow> drop q m = enc c @ r' \<Longrightarrow> length r \<le> length r' \<Longrightarrow> \<exists>e. parse q (m, a) =
      Inr (case find_name name c q of Some h \<Rightarrow> (1, e, m, Some h) | None \<Rightarrow> (0, of_nat (length (enc c)), m, a))"
  shows "\<exists>e. parse_children parse node (length cs) off (m, a) =
      Inr (case first_hit (map (\<lambda>c. (find_name name c, length (enc c))) cs) (node + unat off) of
        Some h \<Rightarrow> (1, e, m, Some h) | None \<Rightarrow> (0, off + of_nat (length (concat (map enc cs))), m, a))"
  using assms
proof (induction cs arbitrary: off)
  case (Cons c cs)
  have d: "drop (node + unat off) m = enc c @ concat (map enc cs) @ r" using Cons.prems(1) by simp
  have len: "unat (of_nat (length (enc c)) :: u32) = length (enc c)"
    using Cons.prems(2) by (simp add: unsigned_of_nat take_bit_nat_eq_self)
  then have off: "unat (off + of_nat (length (enc c))) = unat off + length (enc c)"
    using unat_add_u32 [of off "of_nat (length (enc c))"] Cons.prems(2) by simp
  obtain e where p: "parse (node + unat off) (m, a) =
      Inr (case find_name name c (node + unat off) of Some h \<Rightarrow> (1, e, m, Some h) | None \<Rightarrow> (0, of_nat (length (enc c)), m, a))"
    using Cons.prems(3) [OF _ d, of a] by auto
  have "drop (node + unat (off + of_nat (length (enc c)))) m = concat (map enc cs) @ r"
    using drop_more [OF d] off by (simp add: add.assoc)
  from Cons.IH [OF this] obtain e' where ih: "parse_children parse node (length cs) (off + of_nat (length (enc c))) (m, a) =
      Inr (case first_hit (map (\<lambda>c. (find_name name c, length (enc c))) cs) (node + unat (off + of_nat (length (enc c)))) of
        Some h \<Rightarrow> (1, e', m, Some h) | None \<Rightarrow> (0, off + of_nat (length (enc c)) + of_nat (length (concat (map enc cs))), m, a))"
    using Cons.prems(2,3) off by auto
  show ?case using p ih off by (auto split: option.splits simp: add.assoc)
qed simp

lemma dt_parse_enc:
  assumes "drop p m = enc t @ r" and "wf_tree t" and "length (enc t) < 2 ^ 31" and "length (enc t) div 8 \<le> n"
    and "length name < length r" and "0 \<notin> set name" and "0 \<le> d"
  shows "\<exists>e. dt_parse n None (Some (dt_find_cb name)) d p (m, a) =
    Inr (case find_name name t p of Some h \<Rightarrow> (1, e, m, Some h) | None \<Rightarrow> (0, of_nat (length (enc t)), m, a))"
  using assms
proof (induction t arbitrary: p r n d a)
  case (DNode ps cs)
  let ?P = "concat (map enc_prop ps)" and ?C = "concat (map enc cs)"
  have l: "length (enc (DNode ps cs)) = 8 + length ?P + length ?C" by simp
  then obtain n' where n: "n = Suc n'" using DNode.prems(4) by (cases n) auto
  have lp: "length qs \<le> length (concat (map enc_prop qs))" for qs
    by (induction qs) (simp_all add: enc_prop_def)
  have lc: "length cs \<le> length (concat (map enc cs))" for cs
  proof (induction cs)
    case (Cons c cs)
    then show ?case using enc_length8 [of c] by simp
  qed simp
  have un: "unat (of_nat (length ps) :: u32) = length ps" "unat (of_nat (length cs) :: u32) = length cs"
    using lp [of ps] lc [of cs] DNode.prems(3) l by (simp_all add: unsigned_of_nat take_bit_nat_eq_self)
  have d8: "drop (p + unat (8 :: u32)) m = ?P @ ?C @ r"
    using drop_more [of p m "le_bytes 4 (of_nat (length ps) :: u32) @ le_bytes 4 (of_nat (length cs) :: u32)"] DNode.prems(1) by simp
  have np: "rd32 m p = Inr (of_nat (length ps))" using rd32_drop DNode.prems(1) by simp
  have "drop (p + 4) m = le_bytes 4 (of_nat (length cs) :: u32) @ ?P @ ?C @ r"
    using drop_more [of p m "le_bytes 4 (of_nat (length ps) :: u32)"] DNode.prems(1) by simp
  then have nc: "rd32 m (p + 4) = Inr (of_nat (length cs))" by (rule rd32_drop)
  have "length name < length (?C @ r)" "unat (8 :: u32) + length ?P < 2 ^ 31" "wf_props ps"
    using DNode.prems(2,3,5) l by simp_all
  with parse_props_enc [OF d8 _ _ DNode.prems(6), of d a] obtain e where
    pp: "parse_props (Some (dt_find_cb name)) p d (length ps) 8 (m, a) =
      Inr (if named name ps then 1 else 0, e, m, if named name ps then Some p else a)"
      "\<not> named name ps \<Longrightarrow> unat e = 8 + length ?P" by auto
  show ?case
  proof (cases "named name ps")
    case True
    then show ?thesis using n np un pp(1) by simp
  next
    case False
    note e = pp(2) [OF False]
    have dc: "drop (p + unat e) m = ?C @ r" using drop_more [OF d8] e by (simp add: add.assoc)
    have lim: "unat e + length ?C < 2 ^ 31" using e DNode.prems(3) l by simp
    have kid: "\<exists>e. dt_parse n' None (Some (dt_find_cb name)) (d + 1) q (m, b) =
        Inr (case find_name name c q of Some h \<Rightarrow> (1, e, m, Some h) | None \<Rightarrow> (0, of_nat (length (enc c)), m, b))"
      if c: "c \<in> set cs" "drop q m = enc c @ r'" "length r \<le> length r'" for c q r' b
    proof (rule DNode.IH [OF c(1,2)])
      have "length (enc c) \<le> length ?C" using c(1) by (induction cs) auto
      then show "length (enc c) < 2 ^ 31" "length (enc c) div 8 \<le> n'" using DNode.prems(3,4) n l by simp_all
      show "wf_tree c" using DNode.prems(2) c(1) by (simp add: list_all_iff)
      show "length name < length r'" using DNode.prems(5) c(3) by simp
    qed (use DNode.prems(6,7) in simp_all)
    have "\<exists>e'. parse_children (dt_parse n' None (Some (dt_find_cb name)) (d + 1)) p (length cs) e (m, a) =
        Inr (case first_hit (map (\<lambda>c. (find_name name c, length (enc c))) cs) (p + unat e) of
          Some h \<Rightarrow> (1, e', m, Some h) | None \<Rightarrow> (0, e + of_nat (length ?C), m, a))"
      by (rule parse_children_enc [OF dc lim]) (rule kid)
    then obtain e' where pc: "parse_children (dt_parse n' None (Some (dt_find_cb name)) (d + 1)) p (length cs) e (m, a) =
        Inr (case first_hit (map (\<lambda>c. (find_name name c, length (enc c))) cs) (p + unat e) of
          Some h \<Rightarrow> (1, e', m, Some h) | None \<Rightarrow> (0, e + of_nat (length ?C), m, a))" by blast
    have "e + of_nat (length ?C) = of_nat (length (enc (DNode ps cs)))"
    proof -
      have "e = of_nat (unat e)" by simp
      then have "e = of_nat (8 + length ?P)" unfolding e .
      then show ?thesis unfolding l by (simp add: add.assoc)
    qed
    then show ?thesis using n np nc un pp(1) pc e False DNode.prems(7) by (auto split: option.splits simp: add.assoc)
  qed
qed

text \<open>C13 Searching a device tree finds what is in it: on a tree laid out in memory, \<open>dt_find\<close> returns the
  address of the first node, in preorder, that has the name, and nothing when no node has it.\<close>

lemma dt_find_correct:
  assumes "wf_tree t" and "length (enc t) < 2 ^ 31" and "length (enc t) div 8 \<le> n" and "length name < length post" and "0 \<notin> set name"
  shows "dt_find n (pre @ enc t @ post) (length pre) name = Inr (find_name name t (length pre))"
proof -
  have "drop (length pre) (pre @ enc t @ post) = enc t @ post" by simp
  from dt_parse_enc [OF this assms, of 0 None] show ?thesis by (auto simp: dt_find_def split: option.splits)
qed

definition ex_dtree :: dtree where
  "ex_dtree = DNode [(ascii ''name'' @ replicate 28 0, ascii ''device-tree'' @ [0])]
     [DNode [(ascii ''name'' @ replicate 28 0, ascii ''arm-io'' @ [0])] [],
      DNode [(ascii ''reg'' @ replicate 29 0, [1, 2, 3, 4]), (ascii ''name'' @ replicate 28 0, ascii ''chosen'' @ [0])] []]"

lemma dt_find_correct_witness:
  "dt_find 50 (enc ex_dtree @ replicate 10 0) 0 (ascii ''chosen'') = Inr (Some 108)"
proof -
  have "wf_tree ex_dtree" by (simp add: ex_dtree_def wf_props_def ascii_def)
  moreover have "length (enc ex_dtree) = 200" by (simp add: ex_dtree_def enc_prop_def pad4_def ascii_def)
  moreover have "0 \<notin> set (ascii ''chosen'')" "length (ascii ''chosen'') = 6" by (simp_all add: ascii_def)
  moreover have "find_name (ascii ''chosen'') ex_dtree 0 = Some 108" by (simp add: ex_dtree_def enc_prop_def pad4_def ascii_def named_def)
  ultimately show ?thesis using dt_find_correct [of ex_dtree 50 "ascii ''chosen''" "replicate 10 0" "[]"] by simp
qed

end
