(* ===== verification/FDTree.thy ===== *)
theory FDTree
  imports Bytes
begin

unbundle bit_operations_syntax

text \<open>
  The flattened device tree of QEMU, \<open>src/src/kernel/fdtree.c\<close>: big-endian tokens, node names in
  line, property names in a table of strings. The blob is a byte list at the address \<open>base\<close>
  (alignment is relative to the address). The parser knows no size; skipping \<open>FDT_NOP\<close>s and the
  properties of one node end with the memory, and the first argument of the parser bounds the
  nodes it enters and leaves.
\<close>

definition FDT_HEADER_MAGIC :: u32 where "FDT_HEADER_MAGIC = 0xd00dfeed"
definition FDT_BEGIN_NODE :: u32 where "FDT_BEGIN_NODE = 1"
definition FDT_END_NODE :: u32 where "FDT_END_NODE = 2"
definition FDT_PROP :: u32 where "FDT_PROP = 3"
definition FDT_NOP :: u32 where "FDT_NOP = 4"

section \<open>Reading\<close>

definition bswap32 :: "u32 \<Rightarrow> u32" where "bswap32 w = le_val (rev (le_bytes 4 w))"
definition bswap64 :: "u64 \<Rightarrow> u64" where "bswap64 w = le_val (rev (le_bytes 8 w))"

definition read_be_u32 :: "bytes \<Rightarrow> nat \<Rightarrow> error + (u32 \<times> nat)" where
  "read_be_u32 m p = bindE (rd32 m p) (\<lambda>v. Inr (bswap32 v, p + 4))"

definition align_4 :: "nat \<Rightarrow> nat \<Rightarrow> nat" where
  "align_4 base p = (if (base + p) mod 4 \<noteq> 0 then p + (4 - (base + p) mod 4) else p)"

lemma read_be_u32_bound: "read_be_u32 m p = Inr (v, p') \<Longrightarrow> p' = p + 4 \<and> p + 4 \<le> length m"
  by (auto simp: read_be_u32_def dest: rd_bound)

function read_token :: "bytes \<Rightarrow> nat \<Rightarrow> error + (u32 \<times> nat)" where
  "read_token m p =
     bindE (read_be_u32 m p) (\<lambda>vp. if fst vp = FDT_NOP then read_token m (snd vp) else Inr vp)"
  by pat_completeness auto
termination
  by (relation "measure (\<lambda>(m, p). length m - p)") (auto dest!: read_be_u32_bound)

declare read_token.simps [simp del]

lemma read_token_bound: "read_token m p = Inr (v, p') \<Longrightarrow> p + 4 \<le> p' \<and> p' \<le> length m"
proof (induction m p rule: read_token.induct)
  case (1 m p)
  from 1(2) obtain w where w: "read_be_u32 m p = Inr w" "(if fst w = FDT_NOP then read_token m (snd w) else Inr w) = Inr (v, p')"
    by (subst (asm) read_token.simps) auto
  show ?case
  proof (cases "fst w = FDT_NOP")
    case True
    then show ?thesis using 1(1) [OF w(1) True] w read_be_u32_bound [of m p "fst w" "snd w"] by (cases w) auto
  next
    case False
    then show ?thesis using w read_be_u32_bound [of m p v p'] by auto
  qed
qed

section \<open>The header\<close>

record fdt_header =
  magic :: u32
  totalsize :: u32
  off_dt_struct :: u32
  off_dt_strings :: u32
  off_mem_rsvmap :: u32
  version :: u32
  last_comp_version :: u32
  boot_cpuid_phys :: u32
  size_dt_strings :: u32
  size_dt_struct :: u32

definition be_field :: "bytes \<Rightarrow> nat \<Rightarrow> error + u32" where
  "be_field m p = bindE (read_be_u32 m p) (\<lambda>(v, _). Inr v)"

text \<open>The result is the header, and the length for the boot arguments when the magic is right.\<close>

definition fdt_parse_header :: "bytes \<Rightarrow> error + (fdt_header \<times> u32 option)" where
  "fdt_parse_header m =
     bindE (be_field m 0) (\<lambda>a. bindE (be_field m 4) (\<lambda>b. bindE (be_field m 8) (\<lambda>c.
     bindE (be_field m 12) (\<lambda>d. bindE (be_field m 16) (\<lambda>e. bindE (be_field m 20) (\<lambda>f.
     bindE (be_field m 24) (\<lambda>g. bindE (be_field m 28) (\<lambda>h. bindE (be_field m 32) (\<lambda>i.
     bindE (be_field m 36) (\<lambda>j.
     let hdr = \<lparr>magic = a, totalsize = b, off_dt_struct = c, off_dt_strings = d, off_mem_rsvmap = e, version = f,
                last_comp_version = g, boot_cpuid_phys = h, size_dt_strings = i, size_dt_struct = j\<rparr>
     in Inr (hdr, if magic hdr \<noteq> FDT_HEADER_MAGIC then None else Some (totalsize hdr))))))))))))"

text \<open>The reserved regions \<open>print_reserved_map\<close> prints, the terminating one included.\<close>

function reserved_map :: "bytes \<Rightarrow> nat \<Rightarrow> error + (u64 \<times> u64) list" where
  "reserved_map m p =
     bindE (rd64 m p) (\<lambda>a.
     bindE (rd64 m (p + 8)) (\<lambda>s.
     if bswap64 a \<noteq> 0 \<or> bswap64 s \<noteq> 0
     then bindE (reserved_map m (p + 16)) (\<lambda>r. Inr ((bswap64 a, bswap64 s) # r))
     else Inr [(0, 0)]))"
  by pat_completeness auto
termination
  by (relation "measure (\<lambda>(m, p). length m - p)") (auto dest!: rd_bound)

declare reserved_map.simps [simp del]

definition print_reserved_map :: "fdt_header \<Rightarrow> bytes \<Rightarrow> error + (u64 \<times> u64) list" where
  "print_reserved_map hdr m = reserved_map m (unat (off_mem_rsvmap hdr))"

section \<open>Parsing\<close>

type_synonym 'a fnode_cb = "nat \<Rightarrow> int \<Rightarrow> 'a \<Rightarrow> error + (int \<times> 'a)"
type_synonym 'a fprop_cb = "nat \<Rightarrow> int \<Rightarrow> nat \<Rightarrow> nat \<Rightarrow> u32 \<Rightarrow> 'a \<Rightarrow> error + (int \<times> 'a)"

text \<open>The loop over the properties of the node whose name is at \<open>node\<close>: the result is the code of
  the callback that stopped it or else the token after the last property, and the pointer.\<close>

function fdt_props :: "bytes \<Rightarrow> nat \<Rightarrow> nat \<Rightarrow> 'a fprop_cb \<Rightarrow> nat \<Rightarrow> int \<Rightarrow> nat \<Rightarrow> 'a \<Rightarrow> error + ((int + u32) \<times> nat \<times> 'a)" where
  "fdt_props m base strings cb node depth p a =
     bindE (read_token m p) (\<lambda>tp.
     if fst tp \<noteq> FDT_PROP then Inr (Inr (fst tp), snd tp, a)
     else bindE (read_be_u32 m (snd tp)) (\<lambda>(len, p1).
          bindE (read_be_u32 m p1) (\<lambda>(nameoff, p2).
          bindE (cb node depth (strings + unat nameoff) p2 len a) (\<lambda>(res, a).
          if res \<noteq> 0 then Inr (Inl res, p2, a)
          else fdt_props m base strings cb node depth (align_4 base (p2 + unat len)) a))))"
  by pat_completeness auto
termination
  by (relation "measure (\<lambda>(m, base, strings, cb, node, depth, p, a). length m - p)")
    (auto dest!: read_token_bound read_be_u32_bound simp: align_4_def)

declare fdt_props.simps [simp del]

text \<open>The loop over the children; \<open>parse\<close> is the parser one level further down.\<close>

primrec fdt_children ::
  "(nat \<Rightarrow> 'a \<Rightarrow> error + (int \<times> nat \<times> 'a)) \<Rightarrow> bytes \<Rightarrow> nat \<Rightarrow> u32 \<Rightarrow> nat \<Rightarrow> 'a \<Rightarrow> error + (int \<times> nat \<times> 'a)" where
  "fdt_children parse m 0 tok p a = Inl OutOfFuel"
| "fdt_children parse m (Suc k) tok p a =
     (if tok = FDT_BEGIN_NODE then
        bindE (parse (p - 4) a) (\<lambda>(res, p, a).
        if res \<noteq> 0 then Inr (res, p, a)
        else bindE (read_token m p) (\<lambda>(tok, p). fdt_children parse m k tok p a))
      else if tok \<noteq> FDT_END_NODE then Inr (1, p, a)
      else Inr (0, p, a))"

primrec parse_fdt_node ::
  "nat \<Rightarrow> bytes \<Rightarrow> nat \<Rightarrow> nat \<Rightarrow> 'a fnode_cb option \<Rightarrow> 'a fprop_cb \<Rightarrow> int \<Rightarrow> nat \<Rightarrow> 'a \<Rightarrow> error + (int \<times> nat \<times> 'a)" where
  "parse_fdt_node 0 m base strings cbn cbp depth p a = Inl OutOfFuel"
| "parse_fdt_node (Suc n) m base strings cbn cbp depth p a =
     bindE (read_token m p) (\<lambda>(tok, p).
     if tok \<noteq> FDT_BEGIN_NODE then Inr (1, p, a)
     else bindE (case cbn of Some f \<Rightarrow> if depth \<noteq> 0 then f p depth a else Inr (0, a) | None \<Rightarrow> Inr (0, a)) (\<lambda>(res, a).
     if res \<noteq> 0 then Inr (res, p, a)
     else bindE (cstr (drop p m)) (\<lambda>name.
          bindE (fdt_props m base strings cbp p depth (align_4 base (p + length name + 1)) a) (\<lambda>(r, q, a).
          case r of Inl res \<Rightarrow> Inr (res, q, a)
          | Inr tok \<Rightarrow> fdt_children (parse_fdt_node n m base strings cbn cbp (depth + 1)) m n tok q a))))"

section \<open>Finding a property\<close>

text \<open>The callback's argument is the buffer of the caller.\<close>

definition find_fdtree_prop_cb :: "bytes \<Rightarrow> bytes \<Rightarrow> bytes \<Rightarrow> u32 \<Rightarrow> bytes fprop_cb" where
  "find_fdtree_prop_cb m node_prefix prop_name buflen node depth pname val len buf =
     bindE (str_prefix (drop node m) node_prefix) (\<lambda>b.
     if \<not> b then Inr (0, buf)
     else bindE (str_eq (drop pname m) prop_name) (\<lambda>b.
     if \<not> b then Inr (0, buf)
     else if len = buflen then bindE (chunk m val (unat len)) (\<lambda>v. Inr (2, v))
     else Inr (0, buf)))"

definition fdtree_find_prop :: "nat \<Rightarrow> fdt_header \<Rightarrow> bytes \<Rightarrow> nat \<Rightarrow> bytes \<Rightarrow> bytes \<Rightarrow> bytes \<Rightarrow> error + (bool \<times> bytes)" where
  "fdtree_find_prop n hdr m base node_prefix prop_name buf =
     bindE (parse_fdt_node n m base (unat (off_dt_strings hdr)) None
              (find_fdtree_prop_cb m node_prefix prop_name (of_nat (length buf))) 0 (unat (off_dt_struct hdr)) buf)
       (\<lambda>(res, _, buf). Inr (res = 2, buf))"

section \<open>Dumping\<close>

text \<open>What \<open>dump_fdtree\<close> prints: node names, and properties with the bytes read in groups of four
  (the last group is read whole, whatever the length).\<close>

datatype dump = DumpNode int bytes | DumpProp int bytes bytes

definition dump_fdtree_node_cb :: "bytes \<Rightarrow> dump list fnode_cb" where
  "dump_fdtree_node_cb m node depth out =
     bindE (cstr (drop node m)) (\<lambda>name. Inr (0, out @ [DumpNode depth name]))"

definition dump_fdtree_prop_cb :: "bytes \<Rightarrow> dump list fprop_cb" where
  "dump_fdtree_prop_cb m node depth pname val len out =
     bindE (cstr (drop pname m)) (\<lambda>name.
     bindE (chunk m val (4 * ((unat len + 3) div 4))) (\<lambda>bs. Inr (0, out @ [DumpProp depth name bs])))"

definition dump_fdtree :: "nat \<Rightarrow> fdt_header \<Rightarrow> bytes \<Rightarrow> nat \<Rightarrow> error + dump list" where
  "dump_fdtree n hdr m base =
     bindE (parse_fdt_node n m base (unat (off_dt_strings hdr)) (Some (dump_fdtree_node_cb m)) (dump_fdtree_prop_cb m) 0
              (unat (off_dt_struct hdr)) []) (\<lambda>(_, _, out). Inr out)"

end
