(* ===== verification/FDTreeClaims.thy ===== *)
theory FDTreeClaims
  imports FDTree
begin

unbundle bit_operations_syntax

text \<open>
  The flattened device tree against an abstract tree: names, properties and children in the
  order of the blob. The table of strings is abstracted to the offset of each property name.
\<close>

section \<open>Trees in memory\<close>

datatype fnode = FNode bytes "(bytes \<times> bytes) list" "fnode list"

definition be_bytes :: "u32 \<Rightarrow> bytes" where "be_bytes w = rev (le_bytes 4 w)"

definition enc_fprop :: "(bytes \<Rightarrow> u32) \<Rightarrow> bytes \<times> bytes \<Rightarrow> bytes" where
  "enc_fprop noff kv = be_bytes FDT_PROP @ be_bytes (of_nat (length (snd kv))) @ be_bytes (noff (fst kv))
     @ snd kv @ pad4 (length (snd kv))"

primrec enc_fnode :: "(bytes \<Rightarrow> u32) \<Rightarrow> fnode \<Rightarrow> bytes" where
  "enc_fnode noff (FNode nm ps cs) =
     be_bytes FDT_BEGIN_NODE @ nm @ [0] @ pad4 (length nm + 1) @ concat (map (enc_fprop noff) ps)
     @ concat (map (enc_fnode noff) cs) @ be_bytes FDT_END_NODE"

text \<open>Names contain no zero byte, and the table has every property name at its offset.\<close>

definition wf_fprops :: "bytes \<Rightarrow> nat \<Rightarrow> (bytes \<Rightarrow> u32) \<Rightarrow> (bytes \<times> bytes) list \<Rightarrow> bool" where
  "wf_fprops m strings noff ps \<longleftrightarrow> (\<forall>kv \<in> set ps. 0 \<notin> set (fst kv) \<and> length (snd kv) < 2 ^ 32
     \<and> (\<exists>r. drop (strings + unat (noff (fst kv))) m = fst kv @ 0 # r))"

primrec wf_fnode :: "bytes \<Rightarrow> nat \<Rightarrow> (bytes \<Rightarrow> u32) \<Rightarrow> fnode \<Rightarrow> bool" where
  "wf_fnode m strings noff (FNode nm ps cs) \<longleftrightarrow>
     0 \<notin> set nm \<and> wf_fprops m strings noff ps \<and> list_all (wf_fnode m strings noff) cs"

text \<open>The first property, in document order, of that name and length in a node whose name starts
  with the prefix.\<close>

definition fprop_hit :: "bytes \<Rightarrow> bytes \<Rightarrow> nat \<Rightarrow> bytes \<Rightarrow> (bytes \<times> bytes) list \<Rightarrow> bytes option" where
  "fprop_hit pre nm len node ps =
     (if take (length pre) node = pre
      then map_option snd (List.find (\<lambda>kv. fst kv = nm \<and> length (snd kv) = len) ps) else None)"

primrec first_some :: "'a option list \<Rightarrow> 'a option" where
  "first_some [] = None"
| "first_some (x # xs) = (case x of Some y \<Rightarrow> Some y | None \<Rightarrow> first_some xs)"

primrec fnode_find :: "bytes \<Rightarrow> bytes \<Rightarrow> nat \<Rightarrow> fnode \<Rightarrow> bytes option" where
  "fnode_find pre nm len (FNode node ps cs) =
     (case fprop_hit pre nm len node ps of Some v \<Rightarrow> Some v | None \<Rightarrow> first_some (map (fnode_find pre nm len) cs))"

section \<open>Reading back\<close>

lemma bswap_be [simp]: "bswap32 (le_val (be_bytes w)) = w"
  using le_bytes_le_val [of "rev (le_bytes 4 w)", where 'w = 32] by (simp add: bswap32_def be_bytes_def)

lemma length_be [simp]: "length (be_bytes w) = 4"
  by (simp add: be_bytes_def)

lemma read_be_drop:
  assumes "drop p m = be_bytes w @ r"
  shows "read_be_u32 m p = Inr (w, p + 4)" and "drop (p + 4) m = r"
proof -
  have "length (drop p m) = 4 + length r" using assms by simp
  then have "p + 4 \<le> length m" by simp
  then show "read_be_u32 m p = Inr (w, p + 4)" using assms by (simp add: read_be_u32_def rd32_def chunk_def)
  show "drop (p + 4) m = r" using drop_more [OF assms] by simp
qed

lemma read_token_drop:
  assumes "drop p m = be_bytes w @ r" and "w \<noteq> FDT_NOP"
  shows "read_token m p = Inr (w, p + 4)"
  using read_be_drop [OF assms(1)] assms(2) by (subst read_token.simps) simp

lemma align_pad: "(base + q) mod 4 = 0 \<Longrightarrow> align_4 base (q + n) = q + n + length (pad4 n)"
proof -
  assume "(base + q) mod 4 = 0"
  then have e: "(base + (q + n)) mod 4 = n mod 4" by (metis add.assoc add_0 mod_add_left_eq)
  have "4 * ((n + 3) div 4) - n = (if n mod 4 = 0 then 0 else 4 - n mod 4)" by presburger
  then show ?thesis by (simp add: align_4_def e pad4_def)
qed

lemma pad_mod: "(n + length (pad4 n)) mod 4 = 0"
  by (simp add: length_pad4)

lemma chunk_drop:
  assumes "drop p m = v @ r" and "r \<noteq> []"
  shows "chunk m p (length v) = Inr v"
proof -
  have "length (drop p m) = length v + length r" using assms(1) by simp
  moreover have "0 < length r" using assms(2) by simp
  ultimately have "p + length v \<le> length m" unfolding length_drop by linarith
  then show ?thesis using assms(1) by (simp add: chunk_def)
qed

lemma mod4_add: "(x :: nat) mod 4 = 0 \<Longrightarrow> y mod 4 = 0 \<Longrightarrow> (x + y) mod 4 = 0"
  by (simp add: mod_add_eq [symmetric])

lemma length_enc_fprop: "length (enc_fprop noff kv) mod 4 = 0"
  unfolding enc_fprop_def using pad_mod [of "length (snd kv)"] mod4_add [of 12] by (simp add: add.assoc)

definition first_tok :: "fnode list \<Rightarrow> u32" where
  "first_tok cs = (if cs = [] then FDT_END_NODE else FDT_BEGIN_NODE)"

lemma first_tok_enc: "\<exists>x. concat (map (enc_fnode noff) cs) @ be_bytes FDT_END_NODE @ r = be_bytes (first_tok cs) @ x"
proof (cases cs)
  case (Cons c cs')
  then show ?thesis by (cases c) (simp add: first_tok_def)
qed (simp add: first_tok_def)

lemma first_tok_vals: "first_tok cs \<noteq> FDT_NOP" "first_tok cs \<noteq> FDT_PROP" "FDT_BEGIN_NODE \<noteq> FDT_NOP" "FDT_PROP \<noteq> FDT_NOP"
    "FDT_END_NODE \<noteq> FDT_BEGIN_NODE" "FDT_END_NODE \<noteq> FDT_NOP"
  by (simp_all add: first_tok_def FDT_END_NODE_def FDT_BEGIN_NODE_def FDT_NOP_def FDT_PROP_def)

text \<open>What a search looks for, with the facts that make its callback predictable.\<close>

definition search_ok :: "bytes \<Rightarrow> bytes \<Rightarrow> nat \<Rightarrow> bool" where
  "search_ok pre nm len \<longleftrightarrow> 0 \<notin> set pre \<and> 0 \<notin> set nm \<and> len < 2 ^ 32"

lemma find_cb_hit:
  assumes "search_ok pre nm len" and "drop node m = name @ 0 # r" and "0 \<notin> set name"
    and "drop pname m = k @ 0 # r'" and "0 \<notin> set k" and "drop val m = v @ r''" and "r'' \<noteq> []" and "length v < 2 ^ 32"
  shows "find_fdtree_prop_cb m pre nm (of_nat len) node d pname val (of_nat (length v)) a =
    Inr (case fprop_hit pre nm len name [(k, v)] of Some w \<Rightarrow> (2, w) | None \<Rightarrow> (0, a))"
proof -
  have u: "unat (of_nat (length v) :: u32) = length v" "(of_nat (length v) :: u32) = of_nat len \<longleftrightarrow> length v = len"
    using assms(1,8) by (simp_all add: unsigned_of_nat take_bit_nat_eq_self word_unat_eq_iff search_ok_def)
  have "str_prefix (drop node m) pre = Inr (take (length pre) name = pre)" "str_eq (drop pname m) nm = Inr (k = nm)"
    using assms(1-5) by (simp_all add: search_ok_def str_prefix_cstr)
  then show ?thesis
    using chunk_drop [OF assms(6,7)] u by (auto simp: find_fdtree_prop_cb_def fprop_hit_def)
qed

lemma fdt_props_enc:
  assumes "drop p m = concat (map (enc_fprop noff) ps) @ be_bytes tok @ r" and "(base + p) mod 4 = 0"
    and "wf_fprops m strings noff ps" and "search_ok pre nm len" and "tok \<noteq> FDT_NOP" and "tok \<noteq> FDT_PROP"
    and "drop node m = name @ 0 # rn" and "0 \<notin> set name"
  shows "\<exists>q. fdt_props m base strings (find_fdtree_prop_cb m pre nm (of_nat len)) node d p a =
    Inr (case fprop_hit pre nm len name ps of Some v \<Rightarrow> (Inl 2, q, v)
         | None \<Rightarrow> (Inr tok, p + length (concat (map (enc_fprop noff) ps)) + 4, a))"
  using assms(1-3)
proof (induction ps arbitrary: p)
  case Nil
  then show ?case using read_token_drop [of p m tok r] assms(5,6)
    by (subst fdt_props.simps) (simp add: fprop_hit_def)
next
  case (Cons kv ps)
  obtain k v where kv: "kv = (k, v)" by (cases kv)
  let ?E = "concat (map (enc_fprop noff) ps) @ be_bytes tok @ r"
  have w: "0 \<notin> set k" "length v < 2 ^ 32" "\<exists>r. drop (strings + unat (noff k)) m = k @ 0 # r" "wf_fprops m strings noff ps"
    using Cons.prems(3) kv by (simp_all add: wf_fprops_def)
  have d0: "drop p m = be_bytes FDT_PROP @ be_bytes (of_nat (length v)) @ be_bytes (noff k) @ v @ pad4 (length v) @ ?E"
    using Cons.prems(1) kv by (simp add: enc_fprop_def [of noff "(k, v)"])
  note t = read_token_drop [OF d0 first_tok_vals(4)]
  note d1 = read_be_drop [OF read_be_drop(2) [OF d0]]
  note d2 = read_be_drop [OF d1(2)]
  obtain rk where k: "drop (strings + unat (noff k)) m = k @ 0 # rk" using w(3) by blast
  have ne: "pad4 (length v) @ ?E \<noteq> []" using length_be [of tok] by (auto simp del: length_be)
  note cb = find_cb_hit [OF assms(4,7,8) k w(1) d2(2) ne w(2), of d a]
  have u: "unat (of_nat (length v) :: u32) = length v" using w(2) by (simp add: unsigned_of_nat take_bit_nat_eq_self)
  let ?p = "p + length (enc_fprop noff kv)"
  have al: "align_4 base (p + 12 + length v) = ?p"
    using align_pad [of base "p + 12" "length v"] mod4_add [OF Cons.prems(2), of 12] kv by (simp add: enc_fprop_def add.assoc)
  have d: "drop ?p m = ?E" using drop_more [of p m "enc_fprop noff kv" ?E] Cons.prems(1) by simp
  have "(base + ?p) mod 4 = 0" using mod4_add [OF Cons.prems(2) length_enc_fprop] by (simp add: add.assoc)
  from Cons.IH [OF d this w(4)] obtain q where ih: "fdt_props m base strings (find_fdtree_prop_cb m pre nm (of_nat len)) node d ?p a =
    Inr (case fprop_hit pre nm len name ps of Some v \<Rightarrow> (Inl 2, q, v)
         | None \<Rightarrow> (Inr tok, ?p + length (concat (map (enc_fprop noff) ps)) + 4, a))" by blast
  have hit: "fprop_hit pre nm len name (kv # ps) =
      (case fprop_hit pre nm len name [(k, v)] of Some w \<Rightarrow> Some w | None \<Rightarrow> fprop_hit pre nm len name ps)"
    by (simp add: fprop_hit_def kv)
  show ?case
    by (subst fdt_props.simps, cases "fprop_hit pre nm len name [(k, v)]")
      (use t d1(1) d2(1) cb u al ih hit in \<open>auto simp: add.assoc split: option.splits\<close>)
qed


lemma length_enc_fprops: "length (concat (map (enc_fprop noff) ps)) mod 4 = 0"
  by (induction ps) (simp_all add: mod4_add length_enc_fprop)

lemma length_enc_fnode: "length (enc_fnode noff t) mod 4 = 0"
proof (induction t)
  case (FNode nm ps cs)
  then have "length (concat (map (enc_fnode noff) cs)) mod 4 = 0"
    by (induction cs) (simp_all add: mod4_add)
  then have "((length nm + 1 + length (pad4 (length nm + 1))) + (8 + (length (concat (map (enc_fprop noff) ps)) + length (concat (map (enc_fnode noff) cs))))) mod 4 = 0"
    by (intro mod4_add pad_mod length_enc_fprops) simp_all
  then show ?case by (simp add: ac_simps)
qed

lemma fdt_children_enc:
  assumes "4 \<le> p" and "drop (p - 4) m = concat (map (enc_fnode noff) cs) @ be_bytes FDT_END_NODE @ r" and "(base + p) mod 4 = 0"
    and "length cs < k"
    and "\<And>c q r'. c \<in> set cs \<Longrightarrow> drop q m = enc_fnode noff c @ r' \<Longrightarrow> (base + q) mod 4 = 0 \<Longrightarrow>
      \<exists>q'. parse q a = Inr (case fnode_find pre nm len c of Some v \<Rightarrow> (2, q', v) | None \<Rightarrow> (0, q + length (enc_fnode noff c), a))"
  shows "\<exists>q. fdt_children parse m k (first_tok cs) p a =
    Inr (case first_some (map (fnode_find pre nm len) cs) of Some v \<Rightarrow> (2, q, v)
         | None \<Rightarrow> (0, p + length (concat (map (enc_fnode noff) cs)), a))"
  using assms
proof (induction cs arbitrary: p k)
  case Nil
  then show ?case by (cases k) (simp_all add: first_tok_def first_tok_vals)
next
  case (Cons c cs)
  obtain k' where k: "k = Suc k'" "length cs < k'" using Cons.prems(4) by (cases k) auto
  obtain x where x: "concat (map (enc_fnode noff) cs) @ be_bytes FDT_END_NODE @ r = be_bytes (first_tok cs) @ x"
    using first_tok_enc by blast
  have d: "drop (p - 4) m = enc_fnode noff c @ concat (map (enc_fnode noff) cs) @ be_bytes FDT_END_NODE @ r"
    using Cons.prems(2) by simp
  have al: "(base + (p - 4)) mod 4 = 0" using Cons.prems(1,3) by presburger
  obtain q where q: "parse (p - 4) a = Inr (case fnode_find pre nm len c of Some v \<Rightarrow> (2, q, v) | None \<Rightarrow> (0, p - 4 + length (enc_fnode noff c), a))"
    using Cons.prems(5) [OF _ d al] by auto
  let ?p = "p + length (enc_fnode noff c)"
  have d2: "drop (?p - 4) m = concat (map (enc_fnode noff) cs) @ be_bytes FDT_END_NODE @ r"
    using drop_more [OF d] Cons.prems(1) by simp
  note tok = read_token_drop [OF d2 [unfolded x] first_tok_vals(1)]
  have "(base + ?p) mod 4 = 0" using mod4_add [OF Cons.prems(3) length_enc_fnode] by (simp add: add.assoc)
  have "\<exists>q'. fdt_children parse m k' (first_tok cs) ?p a = Inr (case first_some (map (fnode_find pre nm len) cs) of Some v \<Rightarrow> (2, q', v)
         | None \<Rightarrow> (0, ?p + length (concat (map (enc_fnode noff) cs)), a))"
    by (rule Cons.IH [OF _ d2 \<open>(base + ?p) mod 4 = 0\<close> k(2)]) (use Cons.prems(1) in simp, rule Cons.prems(5), simp)
  then obtain q' where
    ih: "fdt_children parse m k' (first_tok cs) ?p a = Inr (case first_some (map (fnode_find pre nm len) cs) of Some v \<Rightarrow> (2, q', v)
         | None \<Rightarrow> (0, ?p + length (concat (map (enc_fnode noff) cs)), a))" by blast
  have e: "p - 4 + length (enc_fnode noff c) = ?p - 4" "?p - 4 + 4 = ?p" using Cons.prems(1) by simp_all
  show ?case
  proof (cases "fnode_find pre nm len c")
    case None
    then show ?thesis using q tok ih k(1) e by (auto simp: first_tok_def [of "c # cs"] add.assoc split: option.splits)
  next
    case (Some v)
    then show ?thesis using q k(1) by (simp add: first_tok_def)
  qed
qed

lemma length_kids: "c \<in> set cs \<Longrightarrow> length (f c) \<le> length (concat (map f cs))"
  by (induction cs) auto

lemma enc_fnode_length: "8 \<le> length (enc_fnode noff t)"
  by (cases t) simp

lemma kids_length: "8 * length cs \<le> length (concat (map (enc_fnode noff) cs))"
proof (induction cs)
  case (Cons c cs)
  then show ?case using enc_fnode_length [of noff c] by simp
qed simp

lemma parse_fdt_enc:
  assumes "drop p m = enc_fnode noff t @ r" and "(base + p) mod 4 = 0" and "wf_fnode m strings noff t" and "search_ok pre nm len"
    and "length (enc_fnode noff t) \<le> n"
  shows "\<exists>q. parse_fdt_node n m base strings None (find_fdtree_prop_cb m pre nm (of_nat len)) d p a =
    Inr (case fnode_find pre nm len t of Some v \<Rightarrow> (2, q, v) | None \<Rightarrow> (0, p + length (enc_fnode noff t), a))"
  using assms
proof (induction t arbitrary: p r n d)
  case (FNode name ps cs)
  let ?P = "concat (map (enc_fprop noff) ps)" and ?C = "concat (map (enc_fnode noff) cs)"
  let ?cb = "find_fdtree_prop_cb m pre nm (of_nat len)"
  have l: "length (enc_fnode noff (FNode name ps cs)) = 4 + (length name + 1) + length (pad4 (length name + 1)) + length ?P + length ?C + 4"
    by simp
  then obtain n' where n: "n = Suc n'" using FNode.prems(5) by (cases n) auto
  have wf: "0 \<notin> set name" "wf_fprops m strings noff ps" "\<And>c. c \<in> set cs \<Longrightarrow> wf_fnode m strings noff c"
    using FNode.prems(3) by (simp_all add: list_all_iff)
  obtain x where x: "?C @ be_bytes FDT_END_NODE @ r = be_bytes (first_tok cs) @ x" using first_tok_enc by blast
  have d0: "drop p m = be_bytes FDT_BEGIN_NODE @ name @ [0] @ pad4 (length name + 1) @ ?P @ ?C @ be_bytes FDT_END_NODE @ r"
    using FNode.prems(1) by simp
  note tok = read_token_drop [OF d0 first_tok_vals(3)]
  note d1 = read_be_drop(2) [OF d0]
  then have nm: "drop (p + 4) m = name @ 0 # (pad4 (length name + 1) @ ?P @ ?C @ be_bytes FDT_END_NODE @ r)" by simp
  have cs: "cstr (drop (p + 4) m) = Inr name" unfolding nm using wf(1) by simp
  have al4: "(base + (p + 4)) mod 4 = 0" using mod4_add [OF FNode.prems(2), of 4] by (simp add: add.assoc)
  let ?p = "p + 4 + (length name + 1) + length (pad4 (length name + 1))"
  have alp: "align_4 base (p + 4 + length name + 1) = ?p" using align_pad [OF al4, of "length name + 1"] by (simp add: add.assoc)
  have d2: "drop ?p m = ?P @ be_bytes (first_tok cs) @ x"
    using drop_more [of "p + 4" m "name @ [0] @ pad4 (length name + 1)" "?P @ ?C @ be_bytes FDT_END_NODE @ r"] d1 x
    by (simp add: add.assoc)
  have alp4: "(base + ?p) mod 4 = 0" using mod4_add [OF al4 pad_mod [of "length name + 1"]] by (simp only: add.assoc)
  obtain q where props: "fdt_props m base strings ?cb (p + 4) d ?p a =
    Inr (case fprop_hit pre nm len name ps of Some v \<Rightarrow> (Inl 2, q, v) | None \<Rightarrow> (Inr (first_tok cs), ?p + length ?P + 4, a))"
    using fdt_props_enc [OF d2 alp4 wf(2) FNode.prems(4) first_tok_vals(1,2) nm wf(1)] by blast
  let ?q = "?p + length ?P + 4"
  have d3: "drop (?q - 4) m = ?C @ be_bytes FDT_END_NODE @ r" using drop_more [OF d2] x by (simp add: add.assoc)
  have alq: "(base + ?q) mod 4 = 0"
    using mod4_add [OF mod4_add [OF alp4 length_enc_fprops [of noff ps]], of 4] by (simp add: add.assoc)
  have "length cs < n'" using kids_length [of cs noff] FNode.prems(5) l n by linarith
  have "\<exists>q. fdt_children (parse_fdt_node n' m base strings None ?cb (d + 1)) m n' (first_tok cs) ?q a =
    Inr (case first_some (map (fnode_find pre nm len) cs) of Some v \<Rightarrow> (2, q, v) | None \<Rightarrow> (0, ?q + length ?C, a))"
  proof (rule fdt_children_enc [OF _ d3 alq \<open>length cs < n'\<close>])
    fix c q r' assume c: "c \<in> set cs" "drop q m = enc_fnode noff c @ r'" "(base + q) mod 4 = 0"
    show "\<exists>q'. parse_fdt_node n' m base strings None ?cb (d + 1) q a =
        Inr (case fnode_find pre nm len c of Some v \<Rightarrow> (2, q', v) | None \<Rightarrow> (0, q + length (enc_fnode noff c), a))"
      by (rule FNode.IH [OF c(1,2,3) wf(3) [OF c(1)] FNode.prems(4)])
        (use length_kids [OF c(1), of "enc_fnode noff"] FNode.prems(5) l n in linarith)
  qed simp
  then show ?case
    using n tok cs alp props l by (cases "fprop_hit pre nm len name ps") (auto simp: add.assoc split: option.splits)
qed

text \<open>C14 Looking a property up in a flattened device tree finds it: on a tree laid out in an aligned blob,
  \<open>fdtree_find_prop\<close> copies the value of the first property, in document order, that has the name
  and the length of the buffer and lies in a node whose name starts with the prefix; without such
  a property it fails and leaves the buffer alone.\<close>

lemma fdtree_find_prop_correct:
  assumes "drop (unat (off_dt_struct hdr)) m = enc_fnode noff t @ post" and "(base + unat (off_dt_struct hdr)) mod 4 = 0"
    and "wf_fnode m (unat (off_dt_strings hdr)) noff t" and "search_ok pre nm (length buf)" and "length (enc_fnode noff t) \<le> n"
  shows "fdtree_find_prop n hdr m base pre nm buf =
    Inr (case fnode_find pre nm (length buf) t of Some v \<Rightarrow> (True, v) | None \<Rightarrow> (False, buf))"
  using parse_fdt_enc [OF assms, of 0 buf] by (auto simp: fdtree_find_prop_def split: option.splits)

text \<open>A root with one memory node, and its header.\<close>

definition ex_fdt :: fnode where
  "ex_fdt = FNode [] [] [FNode (ascii ''memory@0'') [(ascii ''reg'', [0, 0, 0, 0, 0x40, 0, 0, 0])] []]"

definition ex_hdr :: fdt_header where
  "ex_hdr = \<lparr>magic = FDT_HEADER_MAGIC, totalsize = 64, off_dt_struct = 0, off_dt_strings = 52, off_mem_rsvmap = 0, version = 17,
     last_comp_version = 16, boot_cpuid_phys = 0, size_dt_strings = 4, size_dt_struct = 52\<rparr>"

lemma fdtree_find_prop_correct_witness:
  "fdtree_find_prop 52 ex_hdr (enc_fnode (\<lambda>_. 0) ex_fdt @ ascii ''reg'' @ [0]) 0 (ascii ''memory'') (ascii ''reg'') (replicate 8 0)
   = Inr (True, [0, 0, 0, 0, 0x40, 0, 0, 0])"
proof -
  have l: "length (enc_fnode (\<lambda>_. 0) ex_fdt) = 52"
    by (simp add: ex_fdt_def enc_fprop_def pad4_def ascii_def)
  then have "drop 52 (enc_fnode (\<lambda>_. 0) ex_fdt @ ascii ''reg'' @ [0]) = ascii ''reg'' @ 0 # []" by simp
  then have "wf_fnode (enc_fnode (\<lambda>_. 0) ex_fdt @ ascii ''reg'' @ [0]) 52 (\<lambda>_. 0) ex_fdt"
    by (simp add: wf_fprops_def ex_fdt_def ascii_def del: enc_fnode.simps)
  moreover have "search_ok (ascii ''memory'') (ascii ''reg'') (length (replicate 8 (0 :: u8)))" by (simp add: search_ok_def ascii_def)
  moreover have "fnode_find (ascii ''memory'') (ascii ''reg'') 8 ex_fdt = Some [0, 0, 0, 0, 0x40, 0, 0, 0]"
    by (simp add: ex_fdt_def fprop_hit_def ascii_def)
  ultimately show ?thesis
    using fdtree_find_prop_correct [of ex_hdr "enc_fnode (\<lambda>_. 0) ex_fdt @ ascii ''reg'' @ [0]" "\<lambda>_. 0" ex_fdt "ascii ''reg'' @ [0]" 0
        "ascii ''memory''" "ascii ''reg''" "replicate 8 0" 52] l by (simp add: ex_hdr_def)
qed

end
