(* ===== verification/ByteSource.thy ===== *)
theory ByteSource
  imports Bytes
begin

text \<open>
  The interface of a byte stream that is read in pieces: the standard input of the shell and the
  receive side of the KTRW channel over USB. The client's fact is that reading until nothing is left
  gives everything once and in order, whatever the size of the pieces.
\<close>

text \<open>Reading with \<open>get\<close> until the stream is empty, at most \<open>k\<close> times.\<close>

primrec drain_of :: "('s \<Rightarrow> bytes) \<Rightarrow> ('s \<Rightarrow> error + (bytes \<times> 's)) \<Rightarrow> nat \<Rightarrow> 's \<Rightarrow> error + (bytes \<times> 's)" where
  "drain_of contents get 0 s = Inr ([], s)"
| "drain_of contents get (Suc k) s =
     (if contents s = [] then Inr ([], s)
      else bindE (get s) (\<lambda>(bs, s). bindE (drain_of contents get k s) (\<lambda>(cs, s). Inr (bs @ cs, s))))"

locale byte_source =
  fixes ready :: "'s \<Rightarrow> bool" and contents :: "'s \<Rightarrow> bytes" and amount :: "'n \<Rightarrow> nat" and get :: "'n \<Rightarrow> 's \<Rightarrow> error + (bytes \<times> 's)"
  assumes get: "ready s \<Longrightarrow> contents s \<noteq> [] \<Longrightarrow>
    \<exists>s'. get n s = Inr (take (amount n) (contents s), s') \<and> contents s' = drop (amount n) (contents s) \<and> ready s'"
begin

lemma drained:
  assumes "ready s" and "0 < amount n" and "length (contents s) \<le> k"
  shows "\<exists>s'. drain_of contents (get n) k s = Inr (contents s, s') \<and> contents s' = [] \<and> ready s'"
  using assms(1,3)
proof (induction k arbitrary: s)
  case (Suc k)
  show ?case
  proof (cases "contents s = []")
    case False
    obtain s1 where s1: "get n s = Inr (take (amount n) (contents s), s1)" "contents s1 = drop (amount n) (contents s)" "ready s1"
      using get [OF Suc.prems(1) False] by blast
    have "length (contents s1) \<le> k" using s1(2) assms(2) Suc.prems(2) by simp
    from Suc.IH [OF s1(3) this] obtain s' where "drain_of contents (get n) k s1 = Inr (contents s1, s')" "contents s' = []" "ready s'" by blast
    then show ?thesis using False s1(1,2) by simp
  qed (use Suc.prems(1) in simp)
qed simp

end

end
