(* ===== verification/Stdio.thy ===== *)
theory Stdio
  imports ByteSource
begin

unbundle bit_operations_syntax

text \<open>
  Standard input and output, \<open>src/src/kernel/support/io.c\<close>. The two buffers are the lists of the
  bytes in use (\<open>stdout_buf_len\<close> and \<open>bufoff\<close> are their lengths). What is sent to the serial port,
  the screen and the standard error stream is recorded in order. While an operation yields or
  waits, other tasks run: \<open>env\<close> says what they make of the state, and the fuel bounds the rounds.
  The copies inside a buffer overlap; they are modelled as moves.
\<close>

definition STDOUT_BUFLEN :: nat where "STDOUT_BUFLEN = 0x1000"
definition STDIN_BUFLEN :: nat where "STDIN_BUFLEN = 512"

record io =
  stdout_buf :: bytes
  stdout_blocking :: bool
  stdin_buf :: bytes
  stdin_fired :: nat
  uart_should_drop_rx :: bool
  serial_out :: bytes
  screen_out :: bytes
  stderr_out :: bytes
  io_dis_int :: u64
  io_preemption_over :: bool

section \<open>Locking\<close>

text \<open>\<open>lock_take\<close> of a lock that is or becomes free.\<close>

definition io_locked :: "io \<Rightarrow> error + io" where
  "io_locked s =
     bindE (panic_if (io_dis_int s \<noteq> 0 \<and> \<not> io_preemption_over s) ''Called lock_take with interrupts disabled'') (\<lambda>_. Inr s)"

section \<open>Output\<close>

definition set_stdout_blocking :: "bool \<Rightarrow> io \<Rightarrow> error + io" where
  "set_stdout_blocking block s = bindE (io_locked s) (\<lambda>s. Inr (s\<lparr>stdout_blocking := block\<rparr>))"

definition fetch_stdoutbuf :: "io \<Rightarrow> error + (bytes \<times> io)" where
  "fetch_stdoutbuf s = bindE (io_locked s) (\<lambda>s. Inr (stdout_buf s, s\<lparr>stdout_buf := []\<rparr>))"

text \<open>From \<open>retry\<close> on: room for one byte is made or waited for, and it is stored.\<close>

primrec stdout_push :: "nat \<Rightarrow> (nat \<Rightarrow> io \<Rightarrow> io) \<Rightarrow> u8 \<Rightarrow> io \<Rightarrow> error + io" where
  "stdout_push 0 env c s = Inl OutOfFuel"
| "stdout_push (Suc n) env c s =
     (if length (stdout_buf s) \<ge> STDOUT_BUFLEN - 1 then
        if stdout_blocking s then bindE (io_locked (env n s)) (stdout_push n env c)
        else Inr (s\<lparr>stdout_buf := tl (stdout_buf s) @ [c]\<rparr>)
      else Inr (s\<lparr>stdout_buf := stdout_buf s @ [c]\<rparr>))"

definition write_char :: "nat \<Rightarrow> (nat \<Rightarrow> io \<Rightarrow> io) \<Rightarrow> bool \<Rightarrow> u8 \<Rightarrow> io \<Rightarrow> error + io" where
  "write_char n env buffered c s =
     (let s = s\<lparr>serial_out := serial_out s @ (if c = 0 then [0x0d] else []) @ [c], screen_out := screen_out s @ [c]\<rparr>
      in if buffered then stdout_push n env c s else Inr s)"

primrec write_chars :: "nat \<Rightarrow> (nat \<Rightarrow> io \<Rightarrow> io) \<Rightarrow> bool \<Rightarrow> bytes \<Rightarrow> io \<Rightarrow> error + io" where
  "write_chars n env buffered [] s = Inr s"
| "write_chars n env buffered (c # cs) s = bindE (write_char n env buffered c s) (write_chars n env buffered cs)"

definition write_fd :: "nat \<Rightarrow> (nat \<Rightarrow> io \<Rightarrow> io) \<Rightarrow> int \<Rightarrow> bytes \<Rightarrow> io \<Rightarrow> error + (nat \<times> io)" where
  "write_fd n env fd bs s =
     bindE (panic_if (fd \<noteq> 1 \<and> fd \<noteq> 2) ''Write to unknown fd'') (\<lambda>_.
     let buffered = (fd = 1 \<and> \<not> io_preemption_over s) in
     bindE (panic_if (buffered \<and> io_dis_int s \<noteq> 0)
             ''write() to stdout with interrupts disabled - please use stderr instead'') (\<lambda>_.
     bindE (if buffered then io_locked s else Inr s) (\<lambda>s.
     bindE (write_chars n env buffered bs s) (\<lambda>s. Inr (length bs, s)))))"

section \<open>Input\<close>

definition echo_err :: "bytes \<Rightarrow> io \<Rightarrow> io" where
  "echo_err bs s = s\<lparr>stderr_out := stderr_out s @ bs\<rparr>"

text \<open>\<open>queue_rx_char\<close> up to the recursive call: a delete key takes the last byte back, any other
  byte is echoed and queued if there is room; a newline fires the event.\<close>

definition queue_rx_one :: "u8 \<Rightarrow> io \<Rightarrow> error + io" where
  "queue_rx_one inch s =
     bindE (io_locked s) (\<lambda>s.
     if inch = 0x7f then
       if stdin_buf s \<noteq> [] then Inr (echo_err [0x08, 0x20, 0x08] (s\<lparr>stdin_buf := butlast (stdin_buf s)\<rparr>)) else Inr s
     else
       let s = (if uart_should_drop_rx s then s else echo_err [inch] s);
           s = (if length (stdin_buf s) < STDIN_BUFLEN then s\<lparr>stdin_buf := stdin_buf s @ [inch]\<rparr> else s)
       in Inr (if inch = 0x0a then s\<lparr>stdin_fired := stdin_fired s + 1\<rparr> else s))"

definition queue_rx_char :: "u8 \<Rightarrow> io \<Rightarrow> error + io" where
  "queue_rx_char inch s =
     bindE (queue_rx_one inch s) (\<lambda>s. if inch = 0x0d then queue_rx_one 0x0a s else Inr s)"

text \<open>A string ends at its first zero byte.\<close>

primrec queue_rx_string :: "bytes \<Rightarrow> io \<Rightarrow> error + io" where
  "queue_rx_string [] s = Inr s"
| "queue_rx_string (c # cs) s = (if c = 0 then Inr s else bindE (queue_rx_char c s) (queue_rx_string cs))"

text \<open>\<open>_read\<close>: the wait for input, then the copy.\<close>

primrec wait_input :: "nat \<Rightarrow> (nat \<Rightarrow> io \<Rightarrow> io) \<Rightarrow> io \<Rightarrow> error + io" where
  "wait_input 0 env s = Inl OutOfFuel"
| "wait_input (Suc n) env s =
     (if stdin_buf s \<noteq> [] then Inr s else bindE (io_locked (env n s)) (wait_input n env))"

definition read_fd :: "nat \<Rightarrow> (nat \<Rightarrow> io \<Rightarrow> io) \<Rightarrow> u32 \<Rightarrow> io \<Rightarrow> error + (bytes \<times> io)" where
  "read_fd n env len s =
     (if len = 0 then Inr ([], s)
      else bindE (io_locked s) (\<lambda>s.
           bindE (wait_input n env s) (\<lambda>s.
           let bufoff = length (stdin_buf s);
               readln = (if bufoff > unat len then unat len else bufoff)
           in Inr (take readln (stdin_buf s), s\<lparr>stdin_buf := drop readln (stdin_buf s)\<rparr>))))"

section \<open>Invariant\<close>

definition io_ok :: "io \<Rightarrow> bool" where
  "io_ok s \<longleftrightarrow> length (stdout_buf s) < STDOUT_BUFLEN \<and> length (stdin_buf s) \<le> STDIN_BUFLEN"

definition keep_last :: "nat \<Rightarrow> bytes \<Rightarrow> bytes" where
  "keep_last n xs = drop (length xs - n) xs"

lemma keep_last_snoc: "length xs \<le> n \<Longrightarrow> 0 < n \<Longrightarrow> keep_last n (xs @ [c]) = (if length xs = n then tl xs @ [c] else xs @ [c])"
  by (cases xs) (auto simp: keep_last_def Suc_diff_le)

lemma keep_last_append: "keep_last n (keep_last n xs @ ys) = keep_last n (xs @ ys)"
  by (cases "n \<le> length xs") (simp_all add: keep_last_def add.commute)

lemma length_keep_last: "length (keep_last n xs) \<le> n"
  by (simp add: keep_last_def)

lemma stdout_push_nonblocking:
  assumes "io_ok s" and "\<not> stdout_blocking s" and "0 < n"
  shows "stdout_push n env c s = Inr (s\<lparr>stdout_buf := keep_last (STDOUT_BUFLEN - 1) (stdout_buf s @ [c])\<rparr>)"
  using assms keep_last_snoc [of "stdout_buf s" "STDOUT_BUFLEN - 1" c]
  by (cases n) (auto simp: io_ok_def STDOUT_BUFLEN_def)

definition shown :: "bytes \<Rightarrow> io \<Rightarrow> io" where
  "shown bs s = s\<lparr>serial_out := serial_out s @ concat (map (\<lambda>c. (if c = 0 then [0x0d] else []) @ [c]) bs),
     screen_out := screen_out s @ bs\<rparr>"

lemma write_chars_nonblocking:
  assumes "io_ok s" and "\<not> stdout_blocking s" and "0 < n"
  shows "write_chars n env True bs s =
    Inr ((shown bs s)\<lparr>stdout_buf := keep_last (STDOUT_BUFLEN - 1) (stdout_buf s @ bs)\<rparr>)"
  using assms(1,2)
proof (induction bs arbitrary: s)
  case Nil
  then show ?case by (simp add: shown_def io_ok_def keep_last_def)
next
  case (Cons c bs)
  let ?s = "(shown [c] s)\<lparr>stdout_buf := keep_last (STDOUT_BUFLEN - 1) (stdout_buf s @ [c])\<rparr>"
  have "io_ok (shown [c] s)" using Cons.prems by (simp add: shown_def io_ok_def)
  moreover have "write_char n env True c s = stdout_push n env c (shown [c] s)" "\<not> stdout_blocking (shown [c] s)"
    "stdout_buf (shown [c] s) = stdout_buf s"
    using Cons.prems(2) by (simp_all add: write_char_def shown_def)
  ultimately have w: "write_char n env True c s = Inr ?s" using stdout_push_nonblocking [OF _ _ assms(3)] by simp
  have "io_ok ?s" "\<not> stdout_blocking ?s"
    using Cons.prems length_keep_last [of "STDOUT_BUFLEN - 1" "stdout_buf s @ [c]"]
    by (simp_all add: io_ok_def shown_def STDOUT_BUFLEN_def)
  from Cons.IH [OF this] show ?case
    by (simp add: w keep_last_append) (simp add: shown_def)
qed

text \<open>C22 The log of standard output keeps the newest bytes: written without blocking, any text goes to the
  serial port and the screen in full, and the buffer holds the last 4095 bytes ever written since
  it was fetched, in order; fetching it returns them and empties it.\<close>

lemma stdout_keeps_last:
  assumes "io_ok s" and "\<not> stdout_blocking s" and "io_dis_int s = 0" and "\<not> io_preemption_over s" and "0 < n"
  shows "\<exists>s' s''. write_fd n env 1 bs s = Inr (length bs, s') \<and> io_ok s'
    \<and> stdout_buf s' = keep_last 4095 (stdout_buf s @ bs) \<and> screen_out s' = screen_out s @ bs
    \<and> stdin_buf s' = stdin_buf s \<and> fetch_stdoutbuf s' = Inr (stdout_buf s', s'') \<and> stdout_buf s'' = []"
proof -
  let ?s = "(shown bs s)\<lparr>stdout_buf := keep_last (STDOUT_BUFLEN - 1) (stdout_buf s @ bs)\<rparr>"
  have "write_fd n env 1 bs s = Inr (length bs, ?s)"
    using assms write_chars_nonblocking [OF assms(1,2,5)] by (simp add: write_fd_def io_locked_def)
  moreover have "io_ok ?s" using assms(1) length_keep_last [of "STDOUT_BUFLEN - 1" "stdout_buf s @ bs"]
    by (simp add: io_ok_def shown_def STDOUT_BUFLEN_def)
  moreover have "fetch_stdoutbuf ?s = Inr (stdout_buf ?s, ?s\<lparr>stdout_buf := []\<rparr>)"
    using assms by (simp add: fetch_stdoutbuf_def io_locked_def shown_def)
  ultimately show ?thesis
    by (intro exI [of _ ?s] exI [of _ "?s\<lparr>stdout_buf := []\<rparr>"]) (simp add: shown_def STDOUT_BUFLEN_def)
qed

definition ex_io :: io where
  "ex_io = \<lparr>stdout_buf = replicate 4094 1, stdout_blocking = False, stdin_buf = [], stdin_fired = 0, uart_should_drop_rx = False,
     serial_out = [], screen_out = [], stderr_out = [], io_dis_int = 0, io_preemption_over = False\<rparr>"

lemma stdout_keeps_last_witness:
  "\<exists>s'. write_fd 1 (\<lambda>_. id) 1 [2, 3] ex_io = Inr (2, s') \<and> stdout_buf s' = replicate 4093 1 @ [2, 3]"
proof -
  have "io_ok ex_io" "\<not> stdout_blocking ex_io" "io_dis_int ex_io = 0" "\<not> io_preemption_over ex_io" "(0 :: nat) < 1"
    by (simp_all add: ex_io_def io_ok_def STDOUT_BUFLEN_def)
  from stdout_keeps_last [OF this, of "\<lambda>_. id" "[2, 3]"] show ?thesis
    by (auto simp: ex_io_def keep_last_def)
qed

section \<open>Input in lines\<close>

definition crlf :: "bytes \<Rightarrow> bytes" where
  "crlf cs = concat (map (\<lambda>c. if c = 0x0d then [0x0d, 0x0a] else [c]) cs)"

lemma queue_rx_one_plain:
  assumes "io_dis_int s = 0" and "c \<noteq> 0x7f" and "length (stdin_buf s) < STDIN_BUFLEN"
  shows "\<exists>s'. queue_rx_one c s = Inr s' \<and> stdin_buf s' = stdin_buf s @ [c] \<and> io_dis_int s' = 0"
  using assms by (auto simp: queue_rx_one_def io_locked_def Let_def echo_err_def)

text \<open>Characters queued one after the other, as the drivers do; a string is queued up to its end.\<close>

primrec queue_rx_each :: "bytes \<Rightarrow> io \<Rightarrow> error + io" where
  "queue_rx_each [] s = Inr s"
| "queue_rx_each (c # cs) s = bindE (queue_rx_char c s) (queue_rx_each cs)"

lemma queue_rx_string_each: "queue_rx_string cs s = queue_rx_each (takeWhile (\<lambda>c. c \<noteq> 0) cs) s"
proof (induction cs arbitrary: s)
  case (Cons c cs)
  have "queue_rx_string cs = queue_rx_each (takeWhile (\<lambda>c. c \<noteq> 0) cs)" using Cons.IH by (simp add: fun_eq_iff)
  then show ?case by simp
qed simp

lemma queue_rx_each_plain:
  assumes "io_dis_int s = 0" and "0x7f \<notin> set cs" and "length (stdin_buf s) + length (crlf cs) \<le> STDIN_BUFLEN"
  shows "\<exists>s'. queue_rx_each cs s = Inr s' \<and> stdin_buf s' = stdin_buf s @ crlf cs \<and> io_dis_int s' = 0"
  using assms
proof (induction cs arbitrary: s)
  case (Cons c cs)
  have len: "length (crlf (c # cs)) = (if c = 0x0d then 2 else 1) + length (crlf cs)" by (simp add: crlf_def)
  have "c \<noteq> 0x7f" "length (stdin_buf s) < STDIN_BUFLEN" using Cons.prems len by (auto split: if_splits)
  from queue_rx_one_plain [OF Cons.prems(1) this] obtain s1 where
    s1: "queue_rx_one c s = Inr s1" "stdin_buf s1 = stdin_buf s @ [c]" "io_dis_int s1 = 0" by blast
  have "\<exists>s2. queue_rx_char c s = Inr s2 \<and> stdin_buf s2 = stdin_buf s @ crlf [c] \<and> io_dis_int s2 = 0"
  proof (cases "c = 0x0d")
    case True
    then have "length (stdin_buf s1) < STDIN_BUFLEN" using s1(2) Cons.prems(3) len by simp
    from queue_rx_one_plain [OF s1(3) _ this, of "0x0a"] s1 True show ?thesis by (auto simp: queue_rx_char_def crlf_def)
  next
    case False
    then show ?thesis using s1 by (simp add: queue_rx_char_def crlf_def)
  qed
  then obtain s2 where s2: "queue_rx_char c s = Inr s2" "stdin_buf s2 = stdin_buf s @ crlf [c]" "io_dis_int s2 = 0" by blast
  have e: "crlf (c # cs) = crlf [c] @ crlf cs" by (simp add: crlf_def)
  have "length (stdin_buf s2) + length (crlf cs) \<le> STDIN_BUFLEN" using Cons.prems(3) s2(2) e by simp
  from Cons.IH [OF s2(3) _ this] Cons.prems(2) s2 e show ?case by auto
qed (simp add: crlf_def)

text \<open>Reading until the buffer is empty, at most \<open>len\<close> bytes at a time.\<close>

definition drain :: "nat \<Rightarrow> u32 \<Rightarrow> io \<Rightarrow> error + (bytes \<times> io)" where
  "drain k len = drain_of stdin_buf (read_fd 1 (\<lambda>_. id) len) k"

interpretation stdin: byte_source "\<lambda>s. io_dis_int s = 0" stdin_buf unat "read_fd 1 (\<lambda>_. id)"
proof
  fix s :: io and n :: u32
  assume "io_dis_int s = 0" and "stdin_buf s \<noteq> []"
  then show "\<exists>s'. read_fd 1 (\<lambda>_. id) n s = Inr (take (unat n) (stdin_buf s), s') \<and> stdin_buf s' = drop (unat n) (stdin_buf s)
      \<and> io_dis_int s' = 0"
    by (cases "n = 0") (auto simp: read_fd_def io_locked_def Let_def)
qed

lemma drain_all:
  assumes "io_dis_int s = 0" and "len \<noteq> 0" and "length (stdin_buf s) \<le> k"
  shows "\<exists>s'. drain k len s = Inr (stdin_buf s, s') \<and> stdin_buf s' = []"
  using stdin.drained [OF assms(1) _ assms(3), of len] assms(2) by (auto simp: drain_def unat_gt_0)

text \<open>C23 What is typed is what is read: the characters of a string, up to its terminating zero byte, if
  they fit the buffer and hold no delete key, are read back completely and in order, in pieces of
  any size, with a newline after each carriage return.\<close>

lemma stdin_roundtrip:
  assumes "stdin_buf s = []" and "io_dis_int s = 0" and "str = takeWhile (\<lambda>c. c \<noteq> 0) cs" and "0x7f \<notin> set str"
    and "length (crlf str) \<le> 512" and "len \<noteq> 0"
  shows "\<exists>s' s''. queue_rx_string cs s = Inr s' \<and> drain 512 len s' = Inr (crlf str, s'') \<and> stdin_buf s'' = []"
proof -
  obtain s' where s': "queue_rx_each str s = Inr s'" "stdin_buf s' = crlf str" "io_dis_int s' = 0"
    using queue_rx_each_plain [OF assms(2,4)] assms(1,5) by (auto simp: STDIN_BUFLEN_def)
  then have "queue_rx_string cs s = Inr s'" by (simp add: queue_rx_string_each assms(3))
  with s' drain_all [OF s'(3) assms(6), of 512] assms(5) show ?thesis by auto
qed

lemma stdin_roundtrip_witness:
  "\<exists>s' s''. queue_rx_string [0x61, 0x62, 0x0d, 0, 0x7f] ex_io = Inr s' \<and> drain 512 2 s' = Inr ([0x61, 0x62, 0x0d, 0x0a], s'')"
proof -
  have "stdin_buf ex_io = []" "io_dis_int ex_io = 0" "[0x61, 0x62, 0x0d] = takeWhile (\<lambda>c. c \<noteq> 0) [0x61, 0x62, 0x0d, 0, 0x7f :: u8]"
    "0x7f \<notin> set [0x61, 0x62, 0x0d :: u8]" "length (crlf [0x61, 0x62, 0x0d]) \<le> 512" "(2 :: u32) \<noteq> 0"
    by (simp_all add: ex_io_def crlf_def)
  moreover have "crlf [0x61, 0x62, 0x0d] = [0x61, 0x62, 0x0d, 0x0a]" by (simp add: crlf_def)
  ultimately show ?thesis using stdin_roundtrip by metis
qed

text \<open>A full input buffer swallows the newline but not its event: the reader is woken for a line whose
  end it will never see.\<close>

lemma full_stdin_drops_newline:
  assumes "io_ok s" and "length (stdin_buf s) = 512" and "io_dis_int s = 0"
  shows "\<exists>s'. queue_rx_char 0x0a s = Inr s' \<and> stdin_buf s' = stdin_buf s \<and> stdin_fired s' = stdin_fired s + 1"
  using assms by (simp add: queue_rx_char_def queue_rx_one_def io_locked_def echo_err_def Let_def STDIN_BUFLEN_def)

lemma full_stdin_drops_newline_witness:
  "\<exists>s'. queue_rx_char 0x0a (ex_io\<lparr>stdin_buf := replicate 512 0x61\<rparr>) = Inr s' \<and> stdin_buf s' = replicate 512 0x61"
proof -
  have "io_ok (ex_io\<lparr>stdin_buf := replicate 512 0x61\<rparr>)" by (simp add: ex_io_def io_ok_def STDOUT_BUFLEN_def STDIN_BUFLEN_def)
  from full_stdin_drops_newline [OF this] show ?thesis by (auto simp: ex_io_def)
qed

end
