(* ===== verification/Shell.thy ===== *)
theory Shell
  imports Bytes "HOL-Library.Multiset"
begin

unbundle bit_operations_syntax

text \<open>
  The command shell: the command table, the tokenizer and the execution of a line
  (\<open>src/src/shell/command.c\<close>), and the hexadecimal conversions (\<open>src/src/shell/aux.c\<close>). Strings in the
  table are kept by value and callbacks by address; a line is a string inside a byte list.
\<close>

section \<open>The command table\<close>

record cmd =
  c_name :: "bytes option"
  c_desc :: "bytes option"
  c_cb :: u64

text \<open>\<open>strcmp\<close> compares as unsigned characters; only its sign matters.\<close>

fun strcmp :: "bytes \<Rightarrow> bytes \<Rightarrow> int" where
  "strcmp [] [] = 0"
| "strcmp [] (d # ds) = - 1"
| "strcmp (c # cs) [] = 1"
| "strcmp (c # cs) (d # ds) = (if c < d then - 1 else if d < c then 1 else strcmp cs ds)"

definition cmp_cmd :: "cmd \<Rightarrow> cmd \<Rightarrow> int" where
  "cmp_cmd x y =
     (case (c_name x, c_name y) of
        (None, None) \<Rightarrow> 0 | (None, Some _) \<Rightarrow> 1 | (Some _, None) \<Rightarrow> - 1
      | (Some a, Some b) \<Rightarrow> strcmp a b)"

text \<open>The C library's \<open>qsort\<close>.\<close>

primrec qsort_insert :: "('a \<Rightarrow> 'a \<Rightarrow> int) \<Rightarrow> 'a \<Rightarrow> 'a list \<Rightarrow> 'a list" where
  "qsort_insert cmp x [] = [x]"
| "qsort_insert cmp x (y # ys) = (if cmp x y \<le> 0 then x # y # ys else y # qsort_insert cmp x ys)"

definition qsort :: "('a \<Rightarrow> 'a \<Rightarrow> int) \<Rightarrow> 'a list \<Rightarrow> 'a list" where
  "qsort cmp xs = foldr (qsort_insert cmp) xs []"

definition empty_cmd :: cmd where "empty_cmd = \<lparr>c_name = None, c_desc = None, c_cb = 0\<rparr>"

definition clear_cmd :: "bytes \<Rightarrow> cmd \<Rightarrow> cmd" where
  "clear_cmd name c = (if c_name c = Some name then empty_cmd else c)"

definition command_unregister :: "bytes \<Rightarrow> cmd list \<Rightarrow> cmd list" where
  "command_unregister name t = qsort cmp_cmd (map (clear_cmd name) t)"

text \<open>The loop of \<open>command_register\<close>: the first free slot, or the slot of that name.\<close>

primrec put_cmd :: "cmd \<Rightarrow> cmd list \<Rightarrow> cmd list option" where
  "put_cmd c [] = None"
| "put_cmd c (x # xs) =
     (if c_name x = None \<or> c_name x = c_name c then Some (c # xs) else map_option ((#) x) (put_cmd c xs))"

definition command_register :: "bool \<Rightarrow> bytes \<Rightarrow> bytes option \<Rightarrow> u64 \<Rightarrow> cmd list \<Rightarrow> error + cmd list" where
  "command_register is_masking_autoboot name desc cb t =
     (if is_masking_autoboot \<and> name = ascii ''autoboot'' then Inr t
      else case put_cmd \<lparr>c_name = Some name, c_desc = desc, c_cb = cb\<rparr> t of
        Some t \<Rightarrow> Inr (qsort cmp_cmd t)
      | None \<Rightarrow> Inl (Panic ''too many commands''))"

definition lookup :: "cmd list \<Rightarrow> bytes \<Rightarrow> cmd option" where
  "lookup t name = List.find (\<lambda>c. c_name c = Some name) t"

section \<open>Tokens\<close>

text \<open>What \<open>command_tokenize\<close> returns: \<open>NULL\<close>, a constant empty string, or a pointer into the line.\<close>

datatype token = Null | Empty | At nat

function tok_skip :: "bytes \<Rightarrow> nat \<Rightarrow> nat \<Rightarrow> error + token" where
  "tok_skip m p bound =
     bindE (rd8 m p) (\<lambda>c.
     if c \<noteq> 0 then
       if p > bound then Inr Null
       else if c = 0x20 then tok_skip m (p + 1) bound
       else Inr (At p)
     else if p > bound then Inr Null else Inr Empty)"
  by pat_completeness auto
termination
  by (relation "measure (\<lambda>(m, p, b). length m - p)") (auto simp: rd8_def chunk_def split: if_splits)

declare tok_skip.simps [simp del]

function tok_scan :: "bytes \<Rightarrow> nat \<Rightarrow> nat \<Rightarrow> error + (token \<times> bytes)" where
  "tok_scan m p bound =
     bindE (rd8 m p) (\<lambda>c.
     if c = 0 then Inr (Empty, m)
     else if p > bound then Inr (Null, m)
     else if c = 0x20 then
       bindE (blit m p [0]) (\<lambda>m. bindE (tok_skip m (p + 1) bound) (\<lambda>r. Inr (r, m)))
     else tok_scan m (p + 1) bound)"
  by pat_completeness auto
termination
  by (relation "measure (\<lambda>(m, p, b). length m - p)") (auto simp: rd8_def chunk_def split: if_splits)

declare tok_scan.simps [simp del]

definition command_tokenize :: "bytes \<Rightarrow> nat \<Rightarrow> u32 \<Rightarrow> error + (token \<times> bytes)" where
  "command_tokenize m str strbufsz = tok_scan m str (str + unat strbufsz)"

section \<open>Executing a line\<close>

text \<open>A command that is found is called with the line and the arguments; otherwise the not-found flag
  is set unless the line is empty.\<close>

datatype outcome = Call u64 token | BadCommand bytes | Nothing

definition command_execute :: "cmd list \<Rightarrow> bytes \<Rightarrow> nat \<Rightarrow> error + (outcome \<times> bytes)" where
  "command_execute t m cmd =
     bindE (command_tokenize m cmd 0x1ff) (\<lambda>(args, m).
     bindE (cstr (drop cmd m)) (\<lambda>word.
     let missing = (if word = [] then Nothing else BadCommand word) in
     if args = Null then Inr (missing, m)
     else case lookup t word of Some c \<Rightarrow> Inr (Call (c_cb c) args, m) | None \<Rightarrow> Inr (missing, m)))"

text \<open>\<open>command_main\<close> removes the line ends \<open>fgets\<close> leaves in the buffer.\<close>

definition trim_line :: "bytes \<Rightarrow> bytes" where
  "trim_line line = map (\<lambda>c. if c = 0x0a \<or> c = 0x0d then 0 else c) line"

definition command_line :: "cmd list \<Rightarrow> bytes \<Rightarrow> error + (outcome \<times> bytes)" where
  "command_line t line = command_execute t (trim_line line @ replicate (512 - length line) 0) 0"

section \<open>Hexadecimal\<close>

definition hex_ok :: "u8 \<Rightarrow> bool" where
  "hex_ok c \<longleftrightarrow> 0x30 \<le> c \<and> c \<le> 0x39 \<or> 0x61 \<le> c \<and> c \<le> 0x66 \<or> 0x41 \<le> c \<and> c \<le> 0x46"

definition hex_val :: "u8 \<Rightarrow> u8" where
  "hex_val c = (if 0x30 \<le> c \<and> c \<le> 0x39 then c - 0x30
                else (if 0x61 \<le> c \<and> c \<le> 0x66 then c - 0x61 else c - 0x41) + 10)"

text \<open>The result of \<open>hexparse\<close> is its code and the bytes it stored.\<close>

primrec hexparse :: "nat \<Rightarrow> bytes \<Rightarrow> nat \<Rightarrow> bytes \<Rightarrow> error + (int \<times> bytes)" where
  "hexparse 0 s i buf = Inr (0, buf)"
| "hexparse (Suc k) s i buf =
     bindE (rd8 s (2 * i)) (\<lambda>c.
     bindE (rd8 s (2 * i + 1)) (\<lambda>d.
     if \<not> hex_ok c \<or> \<not> hex_ok d then Inr (- 1, buf)
     else hexparse k s (i + 1) (buf @ [push_bit 4 (hex_val c) OR hex_val d])))"

definition hex_digit :: "u8 \<Rightarrow> u8" where
  "hex_digit d = (if d < 10 then 0x30 + d else 0x61 + (d - 10))"

definition hex_pair :: "u8 \<Rightarrow> bytes" where
  "hex_pair u = [hex_digit (drop_bit 4 u AND 0xf), hex_digit (u AND 0xf)]"

function hex_chunks :: "bytes \<Rightarrow> bytes" where
  "hex_chunks data =
     (if data = [] then []
      else concat (map hex_pair (take 0x30 data)) @ hex_chunks (drop 0x30 data))"
  by pat_completeness auto
termination
  by (relation "measure length") auto

declare hex_chunks.simps [simp del]

definition hexprint :: "bytes \<Rightarrow> bytes" where "hexprint data = hex_chunks data @ [0x0a]"

end
