(* ===== verification/ShellClaims.thy ===== *)
theory ShellClaims
  imports Shell
begin

unbundle bit_operations_syntax

text \<open>
  Properties of the shell: the command table is a finite map, a registered command is what a line
  with its name runs, and the hexadecimal conversions are inverse.
\<close>

section \<open>The table as a map\<close>

definition slots :: "cmd list \<Rightarrow> bytes \<Rightarrow> cmd list" where
  "slots t n = filter (\<lambda>c. c_name c = Some n) t"

definition nones_last :: "cmd list \<Rightarrow> bool" where
  "nones_last t \<longleftrightarrow> sorted_wrt (\<lambda>x y. c_name x = None \<longrightarrow> c_name y = None) t"

definition table_ok :: "cmd list \<Rightarrow> bool" where
  "table_ok t \<longleftrightarrow> length t = 64 \<and> nones_last t \<and> (\<forall>n. length (slots t n) \<le> 1)"

lemma lookup_slots: "lookup t n = (case slots t n of [] \<Rightarrow> None | c # _ \<Rightarrow> Some c)"
  by (induction t) (auto simp: lookup_def slots_def)

lemma mset_qsort [simp]: "mset (qsort cmp xs) = mset xs"
proof -
  have "mset (qsort_insert cmp x ys) = add_mset x (mset ys)" for x ys by (induction ys) auto
  then show ?thesis by (induction xs) (simp_all add: qsort_def)
qed

lemma length_qsort [simp]: "length (qsort cmp xs) = length xs"
  by (metis mset_qsort size_mset)

lemma short_list_mset: "mset xs = mset ys \<Longrightarrow> length ys \<le> 1 \<Longrightarrow> xs = ys"
  by (cases ys) (auto simp: size_eq_0_iff_empty [symmetric])

lemma slots_qsort: "length (slots t n) \<le> 1 \<Longrightarrow> slots (qsort cmp t) n = slots t n"
  by (rule short_list_mset) (simp_all add: slots_def mset_filter)

lemma nones_last_qsort: "nones_last (qsort cmp_cmd t)"
proof (induction t)
  case (Cons x t)
  have "nones_last (qsort_insert cmp_cmd x ys)" if "nones_last ys" for ys
    using that
  proof (induction ys)
    case (Cons y ys)
    have "set (qsort_insert cmp_cmd x ys) = insert x (set ys)" by (induction ys) auto
    then show ?case using Cons by (auto simp: nones_last_def cmp_cmd_def split: option.splits)
  qed (simp add: nones_last_def)
  with Cons show ?case by (simp add: qsort_def)
qed (simp add: qsort_def nones_last_def)

lemma table_ok_qsort: "length t = 64 \<Longrightarrow> (\<And>n. length (slots t n) \<le> 1) \<Longrightarrow> table_ok (qsort cmp_cmd t)"
  by (simp add: table_ok_def nones_last_qsort slots_qsort)

lemma slots_unnamed: "\<forall>x \<in> set t. c_name x = None \<Longrightarrow> slots t n = []"
  by (auto simp: slots_def filter_empty_conv)

lemma put_cmd_slots:
  assumes "put_cmd c t = Some t'" and "c_name c = Some m" and "nones_last t" and "length (slots t m) \<le> 1"
  shows "slots t' n = (if n = m then [c] else slots t n) \<and> length t' = length t"
  using assms(1,3,4)
proof (induction t arbitrary: t')
  case (Cons x t)
  have nl: "nones_last t" using Cons.prems(2) by (simp add: nones_last_def)
  show ?case
  proof (cases "c_name x = None \<or> c_name x = c_name c")
    case True
    then have t': "t' = c # t" using Cons.prems(1) by (simp split: if_splits)
    have "slots t m = []"
    proof (cases "c_name x = None")
      case True
      then show ?thesis using Cons.prems(2) by (intro slots_unnamed) (simp add: nones_last_def)
    next
      case False
      then show ?thesis using True Cons.prems(3) assms(2) by (auto simp: slots_def split: if_splits)
    qed
    then show ?thesis using True t' assms(2) by (auto simp: slots_def)
  next
    case False
    then obtain u where u: "put_cmd c t = Some u" "t' = x # u" using Cons.prems(1) by auto
    have "length (slots t m) \<le> 1" using Cons.prems(3) by (simp add: slots_def split: if_splits)
    from Cons.IH [OF u(1) nl this] False u(2) assms(2) show ?thesis by (auto simp: slots_def)
  qed
qed simp

lemma put_cmd_None: "put_cmd c t = None \<Longrightarrow> \<forall>x \<in> set t. c_name x \<noteq> None \<and> c_name x \<noteq> c_name c"
  by (induction t) (auto split: if_splits)

text \<open>C21 The command table implements a finite map of at most 64 entries: registering a command is an
  update, unregistering a removal, every other name keeps its command, the table stays
  well-formed, and registering panics exactly when the table is full of other names.\<close>

lemma command_table_refines_map:
  assumes "table_ok t"
  shows "table_ok (command_unregister name t) \<and> lookup (command_unregister name t) = (lookup t)(name := None)
    \<and> (case command_register False name desc cb t of
        Inr t' \<Rightarrow> table_ok t' \<and> lookup t' = (lookup t)(name \<mapsto> \<lparr>c_name = Some name, c_desc = desc, c_cb = cb\<rparr>)
      | Inl e \<Rightarrow> e = Panic ''too many commands'' \<and> lookup t name = None \<and> (\<forall>c \<in> set t. c_name c \<noteq> None))"
proof -
  let ?c = "\<lparr>c_name = Some name, c_desc = desc, c_cb = cb\<rparr>"
  have t: "length t = 64" "nones_last t" "\<And>n. length (slots t n) \<le> 1" using assms by (simp_all add: table_ok_def)
  have s: "slots (map (clear_cmd name) t) n = (if n = name then [] else slots t n)" for n
    by (induction t) (auto simp: slots_def clear_cmd_def empty_cmd_def)
  have un: "table_ok (command_unregister name t)"
    unfolding command_unregister_def by (rule table_ok_qsort) (use t s in simp_all)
  have "lookup (command_unregister name t) n = ((lookup t)(name := None)) n" for n
    using s [of n] t(3) [of n] slots_qsort [of "map (clear_cmd name) t" n cmp_cmd]
    by (auto simp: lookup_slots command_unregister_def)
  then have lu: "lookup (command_unregister name t) = (lookup t)(name := None)" by (rule ext)
  show ?thesis
  proof (cases "put_cmd ?c t")
    case None
    from put_cmd_None [OF this] have f: "\<forall>x \<in> set t. c_name x \<noteq> None \<and> c_name x \<noteq> Some name" by simp
    then have "slots t name = []" by (auto simp: slots_def filter_empty_conv)
    then show ?thesis using un lu None f by (simp add: command_register_def lookup_slots)
  next
    case (Some u)
    have p: "slots u n = (if n = name then [?c] else slots t n)" "length u = length t" for n
      using put_cmd_slots [OF Some _ t(2) t(3), of name] by simp_all
    then have one: "length (slots u n) \<le> 1" for n using t(3) by simp
    have "lookup (qsort cmp_cmd u) n = ((lookup t)(name \<mapsto> ?c)) n" for n
      using p(1) [of n] slots_qsort [OF one] by (simp add: lookup_slots)
    then have "lookup (qsort cmp_cmd u) = (lookup t)(name \<mapsto> ?c)" by (rule ext)
    moreover have "table_ok (qsort cmp_cmd u)" by (rule table_ok_qsort) (use p(2) t(1) one in simp_all)
    ultimately show ?thesis using un lu Some by (simp add: command_register_def)
  qed
qed

lemma empty_table_ok: "table_ok (replicate 64 empty_cmd)"
  by (simp add: table_ok_def nones_last_def slots_def empty_cmd_def sorted_wrt_iff_nth_less)

lemma command_table_refines_map_witness:
  "lookup (command_unregister (ascii ''ps'') (replicate 64 empty_cmd)) = (lookup (replicate 64 empty_cmd))(ascii ''ps'' := None)"
  using command_table_refines_map [OF empty_table_ok] by blast

section \<open>Tokens\<close>

lemma rd8_drop:
  assumes "drop p m = xs" and "xs \<noteq> []"
  shows "rd8 m p = Inr (hd xs)"
proof -
  have "p < length m" using assms by (cases "p < length m") auto
  then show ?thesis using assms(1) by (auto simp: rd8_def chunk_def hd_drop_conv_nth [symmetric] take_Suc_conv_app_nth take_Suc)
qed

lemma tok_skip_spaces:
  assumes "drop p m = replicate j 0x20 @ c # r" and "c \<noteq> 0x20" and "c \<noteq> 0" and "p + j \<le> bound"
  shows "tok_skip m p bound = Inr (At (p + j))"
  using assms(1,4)
proof (induction j arbitrary: p)
  case 0
  have "rd8 m p = Inr c" using rd8_drop [OF 0(1)] by simp
  then show ?case using 0(2) assms(2,3) by (subst tok_skip.simps) simp
next
  case (Suc j)
  have r: "rd8 m p = Inr 0x20" using rd8_drop [OF Suc.prems(1)] by simp
  have "drop (p + 1) m = replicate j 0x20 @ c # r" using drop_more [of p m "[0x20]"] Suc.prems(1) by simp
  from Suc.IH [OF this] r Suc.prems(2) show ?case by (subst tok_skip.simps) simp
qed


lemma tok_scan_word:
  assumes "drop p m = w @ replicate (Suc j) 0x20 @ c # r" and "c \<noteq> 0x20" and "c \<noteq> 0" and "0 \<notin> set w" and "0x20 \<notin> set w"
    and "p + length w + Suc j \<le> bound"
  shows "tok_scan m p bound = Inr (At (p + length w + Suc j), m[p + length w := 0])"
  using assms(1,4-6)
proof (induction w arbitrary: p)
  case Nil
  let ?m = "m[p := 0]"
  have lt: "p < length m" using Nil(1) by (cases "p < length m") auto
  have r: "rd8 m p = Inr 0x20" using rd8_drop [OF Nil(1)] by simp
  have b: "blit m p [0] = Inr ?m" using lt by (simp add: blit_def upd_conv_take_nth_drop)
  have "drop (p + 1) ?m = replicate j 0x20 @ c # r"
    using drop_more [of p m "[0x20]"] Nil(1) by simp
  from tok_skip_spaces [OF this assms(2,3)] Nil(4) r b show ?case by (subst tok_scan.simps) simp
next
  case (Cons d w)
  have r: "rd8 m p = Inr d" using rd8_drop [OF Cons.prems(1)] by simp
  have "drop (p + 1) m = w @ replicate (Suc j) 0x20 @ c # r" using drop_more [of p m "[d]"] Cons.prems(1) by simp
  from Cons.IH [OF this] Cons.prems(2-4) r show ?case by (subst tok_scan.simps) simp
qed

text \<open>A registered command runs: after a registration, a line with the command's name, spaces and
  arguments calls the registered callback with the arguments, whatever else the table holds.\<close>

lemma registered_command_runs:
  assumes "table_ok t" and "command_register False name desc cb t = Inr t'" and "0 \<notin> set name" and "0x20 \<notin> set name"
    and "0x0a \<notin> set (name @ c # args)" and "0x0d \<notin> set (name @ c # args)" and "c \<noteq> 0x20" and "c \<noteq> 0"
    and "length name + Suc j + length (c # args) < 512"
  shows "\<exists>m. command_line t' (name @ replicate (Suc j) 0x20 @ c # args @ [0x0a]) = Inr (Call cb (At (length name + Suc j)), m)
    \<and> drop (length name + Suc j) m = c # args @ 0 # replicate (512 - (length name + Suc j + length (c # args) + 1)) 0"
proof -
  let ?z = "0 # replicate (512 - (length name + Suc j + length (c # args) + 1)) (0 :: u8)"
  let ?m = "name @ replicate (Suc j) 0x20 @ c # args @ ?z"
  have id: "map (\<lambda>c. if c = 0x0a \<or> c = 0x0d then 0 else c) xs = xs" if "0x0a \<notin> set xs" "0x0d \<notin> set xs" for xs :: bytes
    using that by (induction xs) auto
  have trim: "trim_line (name @ replicate (Suc j) 0x20 @ c # args @ [0x0a]) = name @ replicate (Suc j) 0x20 @ c # args @ [0]"
    using id [of name] id [of "c # args"] assms(5,6) by (simp add: trim_line_def)
  have line: "command_line t' (name @ replicate (Suc j) 0x20 @ c # args @ [0x0a]) = command_execute t' ?m 0"
    unfolding command_line_def trim by (simp add: ac_simps)
  have tok: "command_tokenize ?m 0 0x1ff = Inr (At (length name + Suc j), ?m[length name := 0])"
    unfolding command_tokenize_def
    using tok_scan_word [of 0 ?m name j c "args @ ?z" "unat (0x1ff :: u32)"] assms(3,4,7,8,9) by simp
  have m: "?m[length name := 0] = name @ 0 # replicate j 0x20 @ c # args @ ?z" by (simp add: list_update_append)
  have "lookup t' name = Some \<lparr>c_name = Some name, c_desc = desc, c_cb = cb\<rparr>"
    using command_table_refines_map [OF assms(1), of name desc cb] assms(2) by simp
  then have "command_execute t' ?m 0 = Inr (Call cb (At (length name + Suc j)), ?m[length name := 0])"
    unfolding command_execute_def tok using assms(3) by (simp add: m)
  moreover have "drop (length name + Suc j) (?m[length name := 0]) = c # args @ ?z" unfolding m by simp
  ultimately show ?thesis using line by (intro exI [of _ "?m[length name := 0]"]) simp
qed

lemma registered_command_runs_witness:
  "\<exists>t' m. command_register False (ascii ''md8'') None 7 (replicate 64 empty_cmd) = Inr t'
     \<and> command_line t' (ascii ''md8 10'' @ [0x0a]) = Inr (Call 7 (At 4), m)"
proof -
  have "put_cmd \<lparr>c_name = Some (ascii ''md8''), c_desc = None, c_cb = 7\<rparr> (replicate 64 empty_cmd) \<noteq> None"
    using put_cmd_None by (fastforce simp: empty_cmd_def)
  then obtain t' where r: "command_register False (ascii ''md8'') None 7 (replicate 64 empty_cmd) = Inr t'"
    by (auto simp: command_register_def)
  have "\<exists>m. command_line t' (ascii ''md8'' @ replicate (Suc 0) 0x20 @ 0x31 # [0x30] @ [0x0a]) = Inr (Call 7 (At (length (ascii ''md8'') + Suc 0)), m)
    \<and> drop (length (ascii ''md8'') + Suc 0) m = 0x31 # [0x30] @ 0 # replicate (512 - (length (ascii ''md8'') + Suc 0 + length (0x31 # [0x30 :: u8]) + 1)) 0"
    by (rule registered_command_runs [OF empty_table_ok r]) (simp_all add: ascii_def)
  then show ?thesis using r by (auto simp: ascii_def eval_nat_numeral)
qed

section \<open>Hexadecimal\<close>

lemma hex_digit_val: "d < 16 \<Longrightarrow> hex_ok (hex_digit d) \<and> hex_val (hex_digit d) = d"
proof -
  assume d: "d < 16"
  have "unat d < 16" using d by (simp add: word_less_nat_alt)
  moreover have "d = of_nat (unat d)" by simp
  ultimately have "d \<in> of_nat ` {..<16}" by blast
  then have "d \<in> {0, 1, 2, 3, 4, 5, 6, 7, 8, 9, 10, 11, 12, 13, 14, 15}" by (auto simp: lessThan_nat_numeral lessThan_Suc)
  then show ?thesis by (elim insertE emptyE) (simp_all add: hex_digit_def hex_ok_def hex_val_def)
qed

lemma hex_pair_val: "\<exists>c d. hex_pair u = [c, d] \<and> hex_ok c \<and> hex_ok d \<and> push_bit 4 (hex_val c) OR hex_val d = u"
proof -
  have m: "x AND 0xf < 16" for x :: u8
  proof -
    have "x AND 0xf \<le> 0xf" by (rule word_and_le1)
    then show ?thesis by (simp add: word_le_nat_alt word_less_nat_alt)
  qed
  have "push_bit 4 (drop_bit 4 u AND 0xf) OR (u AND 0xf) = u"
  proof (rule bit_word_eqI)
    fix i assume "i < LENGTH(8)"
    have f: "(0xf :: u8) = mask 4" by (simp add: mask_eq_exp_minus_1)
    show "bit (push_bit 4 (drop_bit 4 u AND 0xf) OR (u AND 0xf)) i = bit u i"
      unfolding f by (auto simp: bit_or_iff bit_push_bit_iff bit_and_iff bit_drop_bit_eq bit_mask_iff dest: bit_imp_le_length)
  qed
  with hex_digit_val [OF m [of "drop_bit 4 u"]] hex_digit_val [OF m [of u]] show ?thesis
    unfolding hex_pair_def by (intro exI [of _ "hex_digit (drop_bit 4 u AND 0xf)"] exI [of _ "hex_digit (u AND 0xf)"]) simp
qed

lemma hex_chunks_eq: "hex_chunks data = concat (map hex_pair data)"
proof (induction data rule: hex_chunks.induct)
  case (1 data)
  show ?case
  proof (cases "data = []")
    case False
    then show ?thesis using 1
      by (subst hex_chunks.simps) (simp flip: concat_append map_append)
  qed (simp add: hex_chunks.simps)
qed

lemma hexparse_pairs:
  assumes "drop (2 * i) s = concat (map hex_pair data) @ r"
  shows "hexparse (length data) s i buf = Inr (0, buf @ data)"
  using assms
proof (induction data arbitrary: i buf)
  case (Cons u data)
  obtain c d where p: "hex_pair u = [c, d]" "hex_ok c" "hex_ok d" "push_bit 4 (hex_val c) OR hex_val d = u"
    using hex_pair_val by blast
  have dr: "drop (2 * i) s = [c, d] @ concat (map hex_pair data) @ r" using Cons.prems p(1) by simp
  have d1: "drop (2 * i + 1) s = d # concat (map hex_pair data) @ r" using drop_more [of "2 * i" s "[c]"] dr by simp
  have rd: "rd8 s (2 * i) = Inr c" "rd8 s (2 * i + 1) = Inr d" using rd8_drop [OF dr] rd8_drop [OF d1] by simp_all
  have "drop (2 * (i + 1)) s = concat (map hex_pair data) @ r" using drop_more [OF dr] by (simp add: add.commute)
  from Cons.IH [OF this] show ?case using p rd by simp
qed simp

text \<open>Printing bytes and parsing them gives the bytes back: \<open>hexparse\<close> accepts what \<open>hexprint\<close> writes,
  whatever the length, and stores the original data.\<close>

lemma hexprint_hexparse: "hexparse (length data) (hexprint data) 0 [] = Inr (0, data)"
  using hexparse_pairs [of 0 "hexprint data" data "[0x0a]"] by (simp add: hexprint_def hex_chunks_eq)

end
