(* ===== verification/Vmacho.thy ===== *)
theory Vmacho
  imports Bytes
begin

unbundle bit_operations_syntax

text \<open>
  The build tool that turns a Mach-O file into a flat memory image, \<open>src/tools/vmacho.c\<close>. The file
  is a byte list and a pointer into it an index; the header, the load commands and the sections
  are read at the offsets of their C structures. A failure the tool reports (it logs a message
  and exits) is the left value of the inner sum. Opening, reading and writing the files is not
  modelled; \<open>can_alloc\<close> says whether \<open>malloc\<close> succeeds for a size.
\<close>

definition MH_MAGIC :: u32 where "MH_MAGIC = 0xfeedface"
definition MH_MAGIC_64 :: u32 where "MH_MAGIC_64 = 0xfeedfacf"
definition LC_SEGMENT :: u32 where "LC_SEGMENT = 0x1"
definition LC_SEGMENT_64 :: u32 where "LC_SEGMENT_64 = 0x19"
definition SEC_TYPE_MASK :: u32 where "SEC_TYPE_MASK = 0xff"
definition SEC_TYPE_ZEROFILL :: u32 where "SEC_TYPE_ZEROFILL = 0x1"

section \<open>The structures\<close>

record mach_seg =
  vmaddr :: u64
  fileoff :: u64
  filesize :: u64
  nsects :: u32

record mach_sect =
  sec_addr :: u64
  sec_size :: u64
  sec_flags :: u32

definition mach_seg32 :: "bytes \<Rightarrow> nat \<Rightarrow> error + mach_seg" where
  "mach_seg32 m p =
     bindE (rd32 m (p + 24)) (\<lambda>va. bindE (rd32 m (p + 32)) (\<lambda>fo. bindE (rd32 m (p + 36)) (\<lambda>fs.
     bindE (rd32 m (p + 48)) (\<lambda>ns.
     Inr \<lparr>vmaddr = ucast va, fileoff = ucast fo, filesize = ucast fs, nsects = ns\<rparr>))))"

definition mach_seg64 :: "bytes \<Rightarrow> nat \<Rightarrow> error + mach_seg" where
  "mach_seg64 m p =
     bindE (rd64 m (p + 24)) (\<lambda>va. bindE (rd64 m (p + 40)) (\<lambda>fo. bindE (rd64 m (p + 48)) (\<lambda>fs.
     bindE (rd32 m (p + 64)) (\<lambda>ns.
     Inr \<lparr>vmaddr = va, fileoff = fo, filesize = fs, nsects = ns\<rparr>))))"

definition mach_sect32 :: "bytes \<Rightarrow> nat \<Rightarrow> error + mach_sect" where
  "mach_sect32 m p =
     bindE (rd32 m (p + 32)) (\<lambda>a. bindE (rd32 m (p + 36)) (\<lambda>sz. bindE (rd32 m (p + 56)) (\<lambda>f.
     Inr \<lparr>sec_addr = ucast a, sec_size = ucast sz, sec_flags = f\<rparr>)))"

definition mach_sect64 :: "bytes \<Rightarrow> nat \<Rightarrow> error + mach_sect" where
  "mach_sect64 m p =
     bindE (rd64 m (p + 32)) (\<lambda>a. bindE (rd64 m (p + 40)) (\<lambda>sz. bindE (rd32 m (p + 64)) (\<lambda>f.
     Inr \<lparr>sec_addr = a, sec_size = sz, sec_flags = f\<rparr>)))"

section \<open>The range of a segment\<close>

text \<open>Sums of the 32-bit variant are computed in 32 bits: \<open>trunc\<close> is what the width does to them.\<close>

definition trunc32 :: "u64 \<Rightarrow> u64" where "trunc32 x = ucast (ucast x :: u32)"

text \<open>The loop over the sections: \<open>rd\<close> reads one of \<open>sz\<close> bytes. \<open>None\<close> is the fatal error 2.\<close>

primrec sect_range ::
  "(u64 \<Rightarrow> u64) \<Rightarrow> (nat \<Rightarrow> error + mach_sect) \<Rightarrow> nat \<Rightarrow> u64 \<Rightarrow> u64 \<Rightarrow> nat \<Rightarrow> nat \<Rightarrow> u64 \<Rightarrow> u64 \<Rightarrow> error + (u64 \<times> u64) option" where
  "sect_range trunc rd sz va fs 0 p lowest highest = Inr (Some (lowest, highest))"
| "sect_range trunc rd sz va fs (Suc k) p lowest highest =
     bindE (rd p) (\<lambda>sec.
     if sec_flags sec AND SEC_TYPE_MASK = SEC_TYPE_ZEROFILL then sect_range trunc rd sz va fs k (p + sz) lowest highest
     else
       let lo = sec_addr sec; hi = trunc (lo + sec_size sec) in
       if hi < lo \<or> lo < va \<or> hi > trunc (va + fs) then Inr None
       else sect_range trunc rd sz va fs k (p + sz) (if lo < lowest then lo else lowest) (if hi > highest then hi else highest))"

text \<open>The code and the address, file offset and size; 1 is "not a segment".\<close>

definition segment_range ::
  "(u64 \<Rightarrow> u64) \<Rightarrow> (nat \<Rightarrow> error + mach_sect) \<Rightarrow> nat \<Rightarrow> bool \<Rightarrow> mach_seg \<Rightarrow> nat \<Rightarrow> error + (nat \<times> u64 \<times> u64 \<times> u64)" where
  "segment_range trunc rd sz use_sections seg p =
     (if \<not> use_sections then
        Inr (0, vmaddr seg, fileoff seg, trunc (vmaddr seg + filesize seg) - vmaddr seg)
      else
        bindE (sect_range trunc rd sz (vmaddr seg) (filesize seg) (unat (nsects seg)) p (- 1) 0) (\<lambda>r.
        case r of None \<Rightarrow> Inr (2, 0, 0, 0)
        | Some (lowest, highest) \<Rightarrow>
            if lowest > highest then Inr (0, vmaddr seg, 0, 0)
            else Inr (0, lowest, fileoff seg + (lowest - vmaddr seg), highest - lowest)))"

definition get_mapped_segment_range :: "bytes \<Rightarrow> bool \<Rightarrow> nat \<Rightarrow> error + (nat \<times> u64 \<times> u64 \<times> u64)" where
  "get_mapped_segment_range m use_sections p =
     bindE (rd32 m p) (\<lambda>cmd.
     if cmd = LC_SEGMENT then
       bindE (mach_seg32 m p) (\<lambda>seg. segment_range trunc32 (mach_sect32 m) 68 use_sections seg (p + 56))
     else if cmd = LC_SEGMENT_64 then
       bindE (mach_seg64 m p) (\<lambda>seg. segment_range id (mach_sect64 m) 80 use_sections seg (p + 72))
     else Inr (1, 0, 0, 0))"

section \<open>Options\<close>

datatype mode = Mode_Binary | Mode_HeadlessArray | Mode_NamedArray

record options =
  opt_mode :: mode
  oflags :: string
  aname :: "string option"
  use_sections :: bool

definition bindL :: "error + (string + 'a) \<Rightarrow> ('a \<Rightarrow> error + (string + 'b)) \<Rightarrow> error + (string + 'b)" where
  "bindL m f = bindE m (\<lambda>r. case r of Inl msg \<Rightarrow> Inr (Inl msg) | Inr x \<Rightarrow> f x)"

text \<open>The letters of one option word; \<open>aoff\<close> moves when \<open>-C\<close> takes the next word.\<close>

primrec opt_letters :: "string list \<Rightarrow> string \<Rightarrow> nat \<Rightarrow> options \<Rightarrow> string + (nat \<times> options)" where
  "opt_letters argv [] aoff opts = Inr (aoff, opts)"
| "opt_letters argv (c # cs) aoff opts =
     (if c = CHR ''c'' then opt_letters argv cs aoff (opts\<lparr>opt_mode := Mode_HeadlessArray\<rparr>)
      else if c = CHR ''C'' then
        if int (length argv) - int aoff < 4 then Inl ''requires an argument''
        else opt_letters argv cs (aoff + 1) (opts\<lparr>opt_mode := Mode_NamedArray, aname := Some (argv ! (aoff + 1))\<rparr>)
      else if c = CHR ''f'' then opt_letters argv cs aoff (opts\<lparr>oflags := ''wb''\<rparr>)
      else if c = CHR ''s'' then opt_letters argv cs aoff (opts\<lparr>use_sections := False\<rparr>)
      else Inl ''Bad option'')"

lemma opt_letters_mono: "opt_letters argv cs aoff opts = Inr (a, o') \<Longrightarrow> aoff \<le> a"
  by (induction cs arbitrary: aoff opts) (fastforce split: if_splits)+

function parse_opts :: "string list \<Rightarrow> nat \<Rightarrow> options \<Rightarrow> string + (nat \<times> options)" where
  "parse_opts argv aoff opts =
     (if aoff < length argv \<and> length (argv ! aoff) \<ge> 2 \<and> hd (argv ! aoff) = CHR ''-'' then
        case opt_letters argv (tl (argv ! aoff)) aoff opts of
          Inl msg \<Rightarrow> Inl msg
        | Inr r \<Rightarrow> parse_opts argv (fst r + 1) (snd r)
      else Inr (aoff, opts))"
  by pat_completeness auto
termination
  by (relation "measure (\<lambda>(argv, aoff, opts). length argv - aoff)") (auto dest!: opt_letters_mono)

declare parse_opts.simps [simp del]

definition start_opts :: options where
  "start_opts = \<lparr>opt_mode = Mode_Binary, oflags = ''wbx'', aname = None, use_sections = True\<rparr>"

text \<open>The options, and the names of the input and the output file.\<close>

definition command_args :: "string list \<Rightarrow> string + (options \<times> string \<times> string)" where
  "command_args argv =
     (case parse_opts argv 1 start_opts of
        Inl msg \<Rightarrow> Inl msg
      | Inr (aoff, opts) \<Rightarrow>
          if int (length argv) - int aoff \<noteq> 2 then Inl ''Usage'' else Inr (opts, argv ! aoff, argv ! (aoff + 1)))"

section \<open>The image\<close>

definition fail :: "string \<Rightarrow> error + (string + 'a)" where "fail msg = Inr (Inl msg)"
definition ok :: "'a \<Rightarrow> error + (string + 'a)" where "ok x = Inr (Inr x)"

text \<open>Where the load commands are: their offset and their total size.\<close>

definition load_commands :: "bytes \<Rightarrow> error + (string + (nat \<times> u32))" where
  "load_commands m =
     (if length m < 4 then fail ''File too short for magic.''
      else bindE (rd32 m 0) (\<lambda>magic.
        if magic = MH_MAGIC then
          bindE (rd32 m 20) (\<lambda>sizeofcmds.
          if length m < 28 + unat sizeofcmds then fail ''File too short for load commands.'' else ok (28, sizeofcmds))
        else if magic = MH_MAGIC_64 then
          bindE (rd32 m 20) (\<lambda>sizeofcmds.
          if length m < 32 + unat sizeofcmds then fail ''File too short for load commands.'' else ok (32, sizeofcmds))
        else fail ''Bad magic''))"

text \<open>The first pass: the lowest and the highest mapped address. \<open>p\<close> is the command, \<open>e\<close> the end of the
  commands; the first argument bounds the commands.\<close>

primrec measure_pass :: "nat \<Rightarrow> bytes \<Rightarrow> bool \<Rightarrow> nat \<Rightarrow> nat \<Rightarrow> u64 \<Rightarrow> u64 \<Rightarrow> error + (string + (u64 \<times> u64))" where
  "measure_pass 0 m us e p lowest highest = Inl OutOfFuel"
| "measure_pass (Suc n) m us e p lowest highest =
     (if \<not> p < e then ok (lowest, highest)
      else if p + 8 > e then fail ''Bad LC''
      else bindE (rd32 m (p + 4)) (\<lambda>cmdsize.
        if p + unat cmdsize > e then fail ''Bad LC''
        else bindE (get_mapped_segment_range m us p) (\<lambda>(r, va, fo, sz).
          if r = 1 then measure_pass n m us e (p + unat cmdsize) lowest highest
          else if r \<noteq> 0 then fail ''get_mapped_segment_range returned error''
          else if sz = 0 then measure_pass n m us e (p + unat cmdsize) lowest highest
          else if fo + sz > of_nat (length m) \<or> fo + sz < fo then fail ''Bad segment''
          else measure_pass n m us e (p + unat cmdsize) (if va < lowest then va else lowest)
                 (if va + sz > highest then va + sz else highest))))"

text \<open>The second pass copies the segments into the image, without checking anything again.\<close>

primrec copy_pass :: "nat \<Rightarrow> bytes \<Rightarrow> bool \<Rightarrow> nat \<Rightarrow> u64 \<Rightarrow> nat \<Rightarrow> bytes \<Rightarrow> error + (string + bytes)" where
  "copy_pass 0 m us e lowest p mem = Inl OutOfFuel"
| "copy_pass (Suc n) m us e lowest p mem =
     (if \<not> p < e then ok mem
      else bindE (get_mapped_segment_range m us p) (\<lambda>(r, va, fo, sz).
        bindE (rd32 m (p + 4)) (\<lambda>cmdsize.
        if r = 1 then copy_pass n m us e lowest (p + unat cmdsize) mem
        else if r \<noteq> 0 then fail ''get_mapped_segment_range returned error''
        else if sz = 0 then copy_pass n m us e lowest (p + unat cmdsize) mem
        else bindE (chunk m (unat fo) (unat sz)) (\<lambda>bs.
             bindE (blit mem (unat (va - lowest)) bs) (\<lambda>mem.
             copy_pass n m us e lowest (p + unat cmdsize) mem)))))"

text \<open>The base address and the image.\<close>

definition make_image :: "nat \<Rightarrow> (u64 \<Rightarrow> bool) \<Rightarrow> bool \<Rightarrow> bytes \<Rightarrow> error + (string + (u64 \<times> bytes))" where
  "make_image n can_alloc us m =
     bindL (load_commands m) (\<lambda>(p, sizeofcmds).
     bindL (measure_pass n m us (p + unat sizeofcmds) p (- 1) 0) (\<lambda>(lowest, highest).
     if highest < lowest then fail ''Bad memory layout''
     else let mlen = highest - lowest in
       if \<not> can_alloc mlen then fail ''malloc''
       else bindL (copy_pass n m us (p + unat sizeofcmds) lowest p (replicate (unat mlen) 0)) (\<lambda>mem.
            ok (lowest, mem))))"

section \<open>Writing it out\<close>

definition hex2 :: "u8 \<Rightarrow> string" where
  "hex2 b = (let d = (\<lambda>n. ''0123456789abcdef'' ! n) in [d (unat b div 16), d (unat b mod 16)])"

definition array_item :: "nat \<Rightarrow> nat \<Rightarrow> u8 \<Rightarrow> string" where
  "array_item mlen i b =
     (if i mod 0x10 = 0 then ''    '' else '''') @ ''0x'' @ hex2 b @ '',''
     @ (if i mod 0x10 = 0xf \<or> i + 1 = mlen then [CHR 0x0a] else '' '')"

definition array_text :: "bytes \<Rightarrow> string" where
  "array_text mem = concat (map (\<lambda>(i, b). array_item (length mem) i b) (zip [0..<length mem] mem))"

definition output_bytes :: "options \<Rightarrow> bytes \<Rightarrow> bytes" where
  "output_bytes opts mem =
     (case opt_mode opts of
        Mode_Binary \<Rightarrow> mem
      | Mode_HeadlessArray \<Rightarrow> ascii (array_text mem)
      | Mode_NamedArray \<Rightarrow>
          ascii (''unsigned char '' @ the (aname opts) @ ''[] = {'' @ [CHR 0x0a] @ array_text mem @ ''};'' @ [CHR 0x0a]))"

text \<open>\<open>main\<close>, from the arguments and the contents of the input file to the contents of the output.\<close>

definition vmacho_main :: "nat \<Rightarrow> (u64 \<Rightarrow> bool) \<Rightarrow> string list \<Rightarrow> (string \<Rightarrow> bytes) \<Rightarrow> error + (string + (string \<times> bytes))" where
  "vmacho_main n can_alloc argv files =
     (case command_args argv of
        Inl msg \<Rightarrow> fail msg
      | Inr (opts, infile, outfile) \<Rightarrow>
          bindL (make_image n can_alloc (use_sections opts) (files infile)) (\<lambda>(base, mem).
          ok (outfile, output_bytes opts mem)))"

end
