(* ===== verification/VmachoClaims.thy ===== *)
theory VmachoClaims
  imports Vmacho
begin

unbundle bit_operations_syntax

text \<open>
  Properties of \<open>vmacho\<close>: the image holds the segments, a wrapping segment overruns it, and a load
  command of size zero keeps the tool busy for ever.
\<close>

section \<open>The segments of a file\<close>

text \<open>The non-empty mapped ranges, in the order of the commands.\<close>

primrec mapped :: "nat \<Rightarrow> bytes \<Rightarrow> bool \<Rightarrow> nat \<Rightarrow> nat \<Rightarrow> (u64 \<times> u64 \<times> u64) list" where
  "mapped 0 m us e p = []"
| "mapped (Suc n) m us e p =
     (if \<not> p < e then []
      else case (get_mapped_segment_range m us p, rd32 m (p + 4)) of
        (Inr (r, va, fo, sz), Inr cs) \<Rightarrow>
          (if r = 0 \<and> sz \<noteq> 0 then [(va, fo, sz)] else []) @ mapped n m us e (p + unat cs)
      | _ \<Rightarrow> [])"

text \<open>Byte \<open>i\<close> of the image of a file: of the segments over it the last one wins.\<close>

definition covers :: "u64 \<Rightarrow> nat \<Rightarrow> u64 \<times> u64 \<times> u64 \<Rightarrow> bool" where
  "covers lo i = (\<lambda>(va, fo, sz). unat (va - lo) \<le> i \<and> i < unat (va - lo) + unat sz)"

definition seg_byte :: "bytes \<Rightarrow> u64 \<Rightarrow> nat \<Rightarrow> u64 \<times> u64 \<times> u64 \<Rightarrow> u8" where
  "seg_byte m lo i = (\<lambda>(va, fo, sz). m ! (unat fo + (i - unat (va - lo))))"

primrec image_byte :: "bytes \<Rightarrow> u64 \<Rightarrow> nat \<Rightarrow> (u64 \<times> u64 \<times> u64) list \<Rightarrow> u8 \<Rightarrow> u8" where
  "image_byte m lo i [] d = d"
| "image_byte m lo i (s # S) d = image_byte m lo i S (if covers lo i s then seg_byte m lo i s else d)"

lemma ok_fail_simps [simp]: "ok x \<noteq> fail msg" "fail msg \<noteq> ok x" "ok x = ok y \<longleftrightarrow> x = y" "ok x \<noteq> Inl e" "Inl e \<noteq> ok x" "fail msg \<noteq> Inl e"
    "bindL (ok x) f = f x"
  by (simp_all add: ok_def fail_def bindL_def)

lemma nth_blit:
  assumes "blit m p bs = Inr m'" and "i < length m"
  shows "m' ! i = (if p \<le> i \<and> i < p + length bs then bs ! (i - p) else m ! i)"
proof -
  have l: "p + length bs \<le> length m" and m': "m' = take p m @ bs @ drop (p + length bs) m"
    using assms(1) by (auto simp: blit_def split: if_splits)
  show ?thesis
  proof (cases "i < p")
    case True
    then show ?thesis using l by (simp add: m' nth_append)
  next
    case False
    then have "m' ! i = (bs @ drop (p + length bs) m) ! (i - p)" using l by (simp add: m' nth_append)
    moreover have "i - p < length bs \<longleftrightarrow> i < p + length bs" using False by linarith
    ultimately show ?thesis using False l assms(2) by (simp add: nth_append)
  qed
qed

lemma seg_fits:
  assumes "\<not> fo + sz > of_nat l" and "\<not> fo + sz < (fo :: u64)" and "l < 2 ^ 64"
  shows "unat fo + unat sz \<le> l"
proof -
  have l: "unat (of_nat l :: u64) = l" using assms(3) by (simp add: unsigned_of_nat take_bit_nat_eq_self)
  have "unat (fo + sz) \<le> l" using assms(1) l by (simp add: word_less_nat_alt)
  moreover have "unat fo \<le> unat (fo + sz)" using assms(2) by (simp add: word_less_nat_alt)
  moreover have "unat (fo + sz) = (unat fo + unat sz) mod 2 ^ 64" by (simp add: unat_word_ariths)
  moreover have "unat fo < 2 ^ 64" "unat sz < 2 ^ 64" using unat_u64 [of fo] unat_u64 [of sz] by simp_all
  ultimately show ?thesis
    by (cases "unat fo + unat sz < 2 ^ 64") (simp_all add: mod_if [of "unat fo + unat sz"] not_less split: if_splits)
qed

definition nowrap :: "(u64 \<times> u64 \<times> u64) list \<Rightarrow> bool" where
  "nowrap S \<longleftrightarrow> (\<forall>(va, fo, sz) \<in> set S. unat va + unat sz < 2 ^ 64)"

definition seg_in :: "bytes \<Rightarrow> u64 \<Rightarrow> u64 \<Rightarrow> u64 \<times> u64 \<times> u64 \<Rightarrow> bool" where
  "seg_in m lo hi = (\<lambda>(va, fo, sz). unat fo + unat sz \<le> length m \<and> sz \<noteq> 0 \<and> lo \<le> va \<and> unat va + unat sz \<le> unat hi)"

lemma seg_in_mono: "seg_in m lo hi s \<Longrightarrow> lo' \<le> lo \<Longrightarrow> hi \<le> hi' \<Longrightarrow> seg_in m lo' hi' s"
  by (auto simp: seg_in_def word_le_nat_alt split: prod.splits)

text \<open>What a successful first pass says about the segments.\<close>

lemma measure_pass_bounds:
  assumes "measure_pass n m us e p lo hi = ok (lo', hi')" and "length m < 2 ^ 64" and "nowrap (mapped n m us e p)"
  shows "lo' \<le> lo \<and> hi \<le> hi' \<and> (\<forall>s \<in> set (mapped n m us e p). seg_in m lo' hi' s)"
  using assms(1,3)
proof (induction n arbitrary: p lo hi)
  case (Suc n)
  show ?case
  proof (cases "p < e")
    case True
    from Suc.prems(1) True obtain cs r va fo sz where rd: "rd32 m (p + 4) = Inr cs" and g: "get_mapped_segment_range m us p = Inr (r, va, fo, sz)"
      and r: "r = 1 \<or> r = 0"
      and rest: "if r = 1 \<or> sz = 0 then measure_pass n m us e (p + unat cs) lo hi = ok (lo', hi')
        else \<not> fo + sz > of_nat (length m) \<and> \<not> fo + sz < fo
          \<and> measure_pass n m us e (p + unat cs) (if va < lo then va else lo) (if va + sz > hi then va + sz else hi) = ok (lo', hi')"
      by (auto simp: ok_def fail_def split: if_splits)
    have S: "mapped (Suc n) m us e p = (if r = 0 \<and> sz \<noteq> 0 then [(va, fo, sz)] else []) @ mapped n m us e (p + unat cs)"
      using True rd g by simp
    have nw: "nowrap (mapped n m us e (p + unat cs))" using Suc.prems(2) S by (simp add: nowrap_def)
    show ?thesis
    proof (cases "r = 1 \<or> sz = 0")
      case True
      then show ?thesis using rest S r Suc.IH [OF _ nw] by auto
    next
      case False
      with rest have f: "unat fo + unat sz \<le> length m" using seg_fits assms(2) by simp
      have w: "unat va + unat sz < 2 ^ 64" using Suc.prems(2) S False r by (simp add: nowrap_def)
      then have u: "unat (va + sz) = unat va + unat sz" by (simp add: unat_word_ariths)
      from Suc.IH [OF _ nw] rest False
      have ih: "lo' \<le> (if va < lo then va else lo)" "(if va + sz > hi then va + sz else hi) \<le> hi'"
        "\<forall>s \<in> set (mapped n m us e (p + unat cs)). seg_in m lo' hi' s" by auto
      from ih(1,2) have b: "lo' \<le> va" "lo' \<le> lo" "va + sz \<le> hi'" "hi \<le> hi'" by (auto simp: not_less split: if_splits)
      then have "seg_in m lo' hi' (va, fo, sz)" using f False u by (simp add: seg_in_def word_le_nat_alt)
      then show ?thesis unfolding S using b ih(3) by auto
    qed
  qed (use Suc.prems in simp)
qed simp

text \<open>The second pass then succeeds and paints the segments in order.\<close>

lemma copy_pass_paints:
  assumes "measure_pass n m us e p lo hi = ok res" and "\<forall>s \<in> set (mapped n m us e p). seg_in m base hb s"
    and "length mem = unat hb - unat base"
  shows "\<exists>mem'. copy_pass n m us e base p mem = ok mem' \<and> length mem' = length mem
    \<and> (\<forall>i < length mem. mem' ! i = image_byte m base i (mapped n m us e p) (mem ! i))"
  using assms
proof (induction n arbitrary: p lo hi mem)
  case (Suc n)
  show ?case
  proof (cases "p < e")
    case True
    from Suc.prems(1) True obtain cs r va fo sz lo1 hi1 where rd: "rd32 m (p + 4) = Inr cs"
      and g: "get_mapped_segment_range m us p = Inr (r, va, fo, sz)" and r: "r = 1 \<or> r = 0"
      and rest: "measure_pass n m us e (p + unat cs) lo1 hi1 = ok res"
      by (auto simp: ok_def fail_def split: if_splits)
    have S: "mapped (Suc n) m us e p = (if r = 0 \<and> sz \<noteq> 0 then [(va, fo, sz)] else []) @ mapped n m us e (p + unat cs)"
      using True rd g by simp
    have fit: "\<forall>s \<in> set (mapped n m us e (p + unat cs)). seg_in m base hb s" using Suc.prems(2) S by simp
    show ?thesis
    proof (cases "r = 1 \<or> sz = 0")
      case c: True
      then show ?thesis using Suc.IH [OF rest fit Suc.prems(3)] True rd g r S by auto
    next
      case False
      then have "seg_in m base hb (va, fo, sz)" using Suc.prems(2) S r by simp
      then have f: "unat fo + unat sz \<le> length m" "unat va + unat sz \<le> unat hb" "unat (va - base) = unat va - unat base" "unat base \<le> unat va"
        by (simp_all add: seg_in_def unat_sub word_le_nat_alt)
      let ?bs = "take (unat sz) (drop (unat fo) m)"
      have ch: "chunk m (unat fo) (unat sz) = Inr ?bs" using f(1) by (simp add: chunk_def)
      have lb: "length ?bs = unat sz" using f(1) by simp
      have "unat (va - base) + length ?bs \<le> length mem" using f lb Suc.prems(3) by linarith
      then obtain mem1 where bl: "blit mem (unat (va - base)) ?bs = Inr mem1" by (auto simp: blit_def)
      note l1 = length_blit [OF bl]
      from Suc.IH [OF rest fit, of mem1] l1 Suc.prems(3) obtain mem' where
        ih: "copy_pass n m us e base (p + unat cs) mem1 = ok mem'" "length mem' = length mem"
          "\<forall>i < length mem. mem' ! i = image_byte m base i (mapped n m us e (p + unat cs)) (mem1 ! i)" by auto
      have "mem1 ! i = (if covers base i (va, fo, sz) then seg_byte m base i (va, fo, sz) else mem ! i)" if "i < length mem" for i
        using nth_blit [OF bl that] lb f(1) by (auto simp: covers_def seg_byte_def)
      then show ?thesis using ih True rd g r S False ch bl by simp
    qed
  qed (use Suc.prems in simp)
qed simp

text \<open>C20 The image is the memory the file describes: if the first pass accepts a file with a segment in it,
  and no segment wraps around the address space, the tool produces an image that reaches from the
  lowest to the highest mapped address, without an access outside the file or the image; each
  byte is the file's byte of the last segment mapped there, or zero.\<close>

lemma vmacho_image_correct:
  assumes "load_commands m = ok (p, sz)" and "measure_pass n m us (p + unat sz) p (- 1) 0 = ok (lo, hi)"
    and "length m < 2 ^ 64" and "nowrap (mapped n m us (p + unat sz) p)" and "mapped n m us (p + unat sz) p \<noteq> []" and "can_alloc (hi - lo)"
  shows "\<exists>mem. make_image n can_alloc us m = ok (lo, mem) \<and> length mem = unat hi - unat lo
    \<and> (\<forall>i < length mem. mem ! i = image_byte m lo i (mapped n m us (p + unat sz) p) 0)"
proof -
  note b = measure_pass_bounds [OF assms(2,3,4)]
  obtain va fo s where "(va, fo, s) \<in> set (mapped n m us (p + unat sz) p)" using assms(5) by (metis list.set_intros(1) neq_Nil_conv prod_cases3)
  with b have "seg_in m lo hi (va, fo, s)" by blast
  then have le: "lo \<le> hi" by (simp add: seg_in_def word_le_nat_alt)
  then have len: "unat (hi - lo) = unat hi - unat lo" by (simp add: unat_sub)
  from copy_pass_paints [OF assms(2) _ , of lo hi "replicate (unat (hi - lo)) 0"] b len
  show ?thesis using assms(1,2,6) le by (auto simp: make_image_def)
qed

section \<open>Concrete files\<close>

definition ex_seg64 :: "u64 \<Rightarrow> u64 \<Rightarrow> u64 \<Rightarrow> bytes" where
  "ex_seg64 va fo sz = le_bytes 4 LC_SEGMENT_64 @ le_bytes 4 (72 :: u32) @ replicate 16 0 @ le_bytes 8 va @ le_bytes 8 sz
     @ le_bytes 8 fo @ le_bytes 8 sz @ replicate 16 0"

definition ex_macho :: "u32 \<Rightarrow> bytes \<Rightarrow> bytes" where
  "ex_macho sz cmds = le_bytes 4 MH_MAGIC_64 @ replicate 16 0 @ le_bytes 4 sz @ replicate 8 0 @ cmds"

definition ex_file :: bytes where "ex_file = ex_macho 72 (ex_seg64 0x1000 0 8)"

lemma vmacho_image_correct_witness:
  "\<exists>mem. make_image 2 (\<lambda>_. True) False ex_file = ok (0x1000, mem) \<and> length mem = 8"
proof -
  have "load_commands ex_file = ok (32, 72)" by code_simp
  moreover have "measure_pass 2 ex_file False (32 + unat (72 :: u32)) 32 (- 1) 0 = ok (0x1000, 0x1008)" by code_simp
  moreover have "length ex_file = 104" by (simp add: ex_file_def ex_macho_def ex_seg64_def)
  moreover have S: "mapped 2 ex_file False (32 + unat (72 :: u32)) 32 = [(0x1000, 0, 8)]" by code_simp
  moreover have "nowrap [(0x1000, 0, 8)]" by (simp add: nowrap_def)
  ultimately show ?thesis using vmacho_image_correct [of ex_file 32 72 2 False "0x1000" "0x1008" "\<lambda>_. True"] by auto
qed

definition ex_wrap :: bytes where
  "ex_wrap = ex_macho 144 (ex_seg64 (- 16) 0 32 @ ex_seg64 (- 16) 0 4)"

text \<open>The end of a segment is not checked for wrap-around: in a file both passes accept, a segment of 32
  bytes that starts 16 below the top of the address space makes the image four bytes long and is
  copied past its end.\<close>

lemma vmacho_wrapping_segment_overruns:
  "measure_pass 3 ex_wrap False 176 32 (- 1) 0 = ok (- 16, - 12) \<and> make_image 3 (\<lambda>_. True) False ex_wrap = Inl BadAccess"
  by code_simp

definition ex_stuck :: bytes where
  "ex_stuck = ex_macho 8 (le_bytes 4 (2 :: u32) @ le_bytes 4 (0 :: u32))"

text \<open>A load command of size zero is never left: whatever the number of steps allowed, the tool does not
  finish on a file whose only command is of an unknown kind and has the size zero.\<close>

lemma vmacho_empty_command_loops:
  "length ex_stuck = 40 \<and> make_image n can_alloc us ex_stuck = Inl OutOfFuel"
proof -
  have r: "rd32 ex_stuck (32 + 4) = Inr 0" "rd32 ex_stuck 32 = Inr 2" by code_simp+
  then have g: "get_mapped_segment_range ex_stuck us 32 = Inr (1, 0, 0, 0)"
    by (simp add: get_mapped_segment_range_def LC_SEGMENT_def LC_SEGMENT_64_def)
  have "measure_pass n ex_stuck us 40 32 lo hi = Inl OutOfFuel" for lo hi
    by (induction n) (use r g in simp_all)
  moreover have "load_commands ex_stuck = ok (32, 8)" by code_simp
  moreover have "length ex_stuck = 40" by (simp add: ex_stuck_def ex_macho_def)
  ultimately show ?thesis by (simp add: make_image_def) (simp add: bindL_def)
qed

end
