(* ===== verification/Xnu.thy ===== *)
theory Xnu
  imports Vmacho
begin

unbundle bit_operations_syntax

text \<open>
  The kernel image the patch finder works on, \<open>src/src/drivers/xnu/xnu.c\<close>. RAM is seen through the
  cacheable view that starts at \<open>kCacheableView\<close>: \<open>xmem\<close> holds its bytes, a pointer into it is an
  index (\<open>idx\<close> of the 64-bit address), and what lies outside the bytes held is not mapped. The
  fields of \<open>gBootArgs\<close> the code uses, the entry point, the two static caches, the JIT code buffer
  and the state of the module that installs the patches make up the rest of the state. \<open>malloc\<close>
  is taken to succeed, as the code takes it to.
\<close>

definition kCacheableView :: u64 where "kCacheableView = 0x400000000"

definition idx :: "u64 \<Rightarrow> nat" where "idx p = unat (p - kCacheableView)"

definition view_ptr :: "nat \<Rightarrow> u64" where "view_ptr i = kCacheableView + of_nat i"

lemma idx_view_ptr: "i < 2 ^ 64 \<Longrightarrow> idx (view_ptr i) = i"
  by (simp add: idx_def view_ptr_def unsigned_of_nat take_bit_nat_eq_self)

record 'c xnu =
  xmem :: bytes
  virtBase :: u64
  physBase :: u64
  gEntryPoint :: u64
  xnu_header_cached :: "nat option"
  rebase_status :: int
  jit_code :: "u32 list"
  client :: 'c

record xnu_pf_range =
  pf_va :: u64
  pf_size :: u64
  cacheable_base :: u64
  device_base :: u64

section \<open>The Mach-O header\<close>

text \<open>From the page of the entry point down to the page that starts with the magic number.\<close>

function header_scan :: "bytes \<Rightarrow> nat \<Rightarrow> error + nat" where
  "header_scan m p =
     bindE (rd32 m p) (\<lambda>magic.
     if magic = MH_MAGIC_64 then Inr p
     else if p < 4096 then Inl BadAccess
     else header_scan m (p - 4096))"
  by pat_completeness auto
termination
  by (relation "measure snd") auto

declare header_scan.simps [simp del]

definition xnu_header :: "'c xnu \<Rightarrow> error + (nat \<times> 'c xnu)" where
  "xnu_header x =
     (case xnu_header_cached x of
        Some h \<Rightarrow> Inr (h, x)
      | None \<Rightarrow>
          bindE (header_scan (xmem x) (idx ((gEntryPoint x - (0x800000000 - kCacheableView)) AND NOT 0xfff))) (\<lambda>h.
          Inr (h, x\<lparr>xnu_header_cached := Some h\<rparr>)))"

primrec find_segment :: "bytes \<Rightarrow> bytes \<Rightarrow> nat \<Rightarrow> nat \<Rightarrow> error + nat option" where
  "find_segment m segname 0 lc = Inr None"
| "find_segment m segname (Suc n) lc =
     bindE (rd32 m lc) (\<lambda>cmd.
     bindE (if cmd = LC_SEGMENT_64 then str_eq (drop (lc + 8) m) segname else Inr False) (\<lambda>hit.
     if hit then Inr (Some lc)
     else bindE (rd32 m (lc + 4)) (\<lambda>cmdsize. find_segment m segname n (lc + unat cmdsize))))"

definition macho_get_segment :: "bytes \<Rightarrow> nat \<Rightarrow> bytes \<Rightarrow> error + nat option" where
  "macho_get_segment m header segname =
     bindE (rd32 m (header + 16)) (\<lambda>ncmds. find_segment m segname (unat ncmds) (header + 32))"

primrec find_section :: "bytes \<Rightarrow> bytes \<Rightarrow> nat \<Rightarrow> nat \<Rightarrow> error + nat option" where
  "find_section m name 0 sect = Inr None"
| "find_section m name (Suc n) sect =
     bindE (str_eq (drop sect m) name) (\<lambda>hit.
     if hit then Inr (Some sect) else find_section m name n (sect + 80))"

definition macho_get_section :: "bytes \<Rightarrow> nat \<Rightarrow> bytes \<Rightarrow> error + nat option" where
  "macho_get_section m seg name =
     bindE (rd32 m (seg + 64)) (\<lambda>nsects. find_section m name (unat nsects) (seg + 72))"

section \<open>Addresses\<close>

definition xnu_is_slid :: "bytes \<Rightarrow> nat \<Rightarrow> error + bool" where
  "xnu_is_slid m header =
     bindE (macho_get_segment m header (ascii ''__TEXT'')) (\<lambda>seg.
     case seg of
       None \<Rightarrow> Inl BadAccess
     | Some s \<Rightarrow> bindE (mach_seg64 m s) (\<lambda>sg. Inr (vmaddr sg \<noteq> 0xFFFFFFF007004000)))"

definition xnu_slide_value :: "'c xnu \<Rightarrow> nat \<Rightarrow> u64" where
  "xnu_slide_value x header =
     (let text_va_base = view_ptr header - kCacheableView + 0x800000000 - physBase x + virtBase x
      in text_va_base - 0xFFFFFFF007004000)"

definition xnu_slide_hdr_va :: "'c xnu \<Rightarrow> nat \<Rightarrow> u64 \<Rightarrow> error + u64" where
  "xnu_slide_hdr_va x header hdr_va =
     bindE (xnu_is_slid (xmem x) header) (\<lambda>slid.
     if slid then Inr hdr_va
     else
       let text_va_base = view_ptr header - kCacheableView + 0x800000000 - physBase x + virtBase x;
           slide = text_va_base - 0xFFFFFFF007004000
       in Inr (hdr_va + slide))"

definition xnu_va_to_ptr :: "'c xnu \<Rightarrow> u64 \<Rightarrow> u64" where
  "xnu_va_to_ptr x va = va - virtBase x + physBase x - 0x800000000 + kCacheableView"

definition xnu_ptr_to_va :: "'c xnu \<Rightarrow> u64 \<Rightarrow> u64" where
  "xnu_ptr_to_va x ptr = ptr - kCacheableView + 0x800000000 - physBase x + virtBase x"

lemma xnu_va_ptr_inverse [simp]:
  "xnu_va_to_ptr x (xnu_ptr_to_va x ptr) = ptr"
  "xnu_ptr_to_va x (xnu_va_to_ptr x va) = va"
  by (simp_all add: xnu_va_to_ptr_def xnu_ptr_to_va_def)

text \<open>
  The answer is cached; the first call reads the size of a section that need not exist, through a
  null pointer then.
\<close>

definition has_been_rebased :: "'c xnu \<Rightarrow> error + (bool \<times> 'c xnu)" where
  "has_been_rebased x =
     (if rebase_status x = -1 then
        bindE (xnu_header x) (\<lambda>(h, x).
        bindE (macho_get_segment (xmem x) h (ascii ''__TEXT'')) (\<lambda>seg.
        bindE (case seg of None \<Rightarrow> Inr None | Some s \<Rightarrow> macho_get_section (xmem x) s (ascii ''__thread_starts'')) (\<lambda>sec.
        case sec of
          None \<Rightarrow> Inl BadAccess
        | Some s \<Rightarrow>
            bindE (mach_sect64 (xmem x) s) (\<lambda>sc.
            let x = x\<lparr>rebase_status := if sec_size sc = 0 then 1 else 0\<rparr> in Inr (rebase_status x = 1, x)))))
      else Inr (rebase_status x = 1, x))"

text \<open>\<open>((int64_t) va << 13) >> 13\<close>: the sign of bit 50 fills the upper bits.\<close>

definition sign_extend51 :: "u64 \<Rightarrow> u64" where
  "sign_extend51 va = signed_drop_bit 13 (push_bit 13 va)"

definition xnu_rebase_va :: "'c xnu \<Rightarrow> u64 \<Rightarrow> error + (u64 \<times> 'c xnu)" where
  "xnu_rebase_va x va =
     bindE (has_been_rebased x) (\<lambda>(r, x).
     if \<not> r then bindE (xnu_header x) (\<lambda>(h, x). Inr (sign_extend51 va + xnu_slide_value x h, x))
     else Inr (va, x))"

definition kext_rebase_va :: "'c xnu \<Rightarrow> u64 \<Rightarrow> error + (u64 \<times> 'c xnu)" where
  "kext_rebase_va x va =
     bindE (has_been_rebased x) (\<lambda>(r, x).
     let va = (if \<not> r then sign_extend51 va else va) in
     bindE (xnu_header x) (\<lambda>(h, x). Inr (va + xnu_slide_value x h, x)))"

section \<open>Ranges\<close>

definition xnu_pf_range_from_va :: "'c xnu \<Rightarrow> u64 \<Rightarrow> u64 \<Rightarrow> xnu_pf_range" where
  "xnu_pf_range_from_va x va sz =
     \<lparr>pf_va = va, pf_size = sz,
      cacheable_base = va - virtBase x + physBase x - 0x800000000 + kCacheableView,
      device_base = va - virtBase x + physBase x\<rparr>"

text \<open>The address a header gives, as the running kernel sees it.\<close>

definition hdr_range :: "'c xnu \<Rightarrow> nat \<Rightarrow> u64 \<Rightarrow> u64 \<Rightarrow> error + (xnu_pf_range option \<times> 'c xnu)" where
  "hdr_range x header addr sz =
     bindE (xnu_header x) (\<lambda>(kh, x).
     if header \<noteq> kh then
       Inr (Some (xnu_pf_range_from_va x (xnu_slide_value x kh + (0xffff000000000000 OR addr)) sz), x)
     else bindE (xnu_slide_hdr_va x header addr) (\<lambda>va. Inr (Some (xnu_pf_range_from_va x va sz), x)))"

definition xnu_pf_segment :: "'c xnu \<Rightarrow> nat \<Rightarrow> bytes \<Rightarrow> error + (xnu_pf_range option \<times> 'c xnu)" where
  "xnu_pf_segment x header segment_name =
     bindE (macho_get_segment (xmem x) header segment_name) (\<lambda>seg.
     case seg of
       None \<Rightarrow> Inr (None, x)
     | Some s \<Rightarrow> bindE (mach_seg64 (xmem x) s) (\<lambda>sg. hdr_range x header (vmaddr sg) (filesize sg)))"

definition xnu_pf_section :: "'c xnu \<Rightarrow> nat \<Rightarrow> bytes \<Rightarrow> bytes \<Rightarrow> error + (xnu_pf_range option \<times> 'c xnu)" where
  "xnu_pf_section x header segment_name section_name =
     bindE (macho_get_segment (xmem x) header segment_name) (\<lambda>seg.
     case seg of
       None \<Rightarrow> Inr (None, x)
     | Some s \<Rightarrow>
         bindE (macho_get_section (xmem x) s section_name) (\<lambda>sec.
         case sec of
           None \<Rightarrow> Inr (None, x)
         | Some sc \<Rightarrow> bindE (mach_sect64 (xmem x) sc) (\<lambda>st. hdr_range x header (sec_addr st) (sec_size st))))"

definition xnu_pf_get_first_kext :: "'c xnu \<Rightarrow> nat \<Rightarrow> error + (u64 \<times> 'c xnu)" where
  "xnu_pf_get_first_kext x kheader =
     bindE (xnu_pf_section x kheader (ascii ''__PRELINK_INFO'') (ascii ''__kmod_start'')) (\<lambda>(r, x).
     case r of
       None \<Rightarrow>
         bindE (xnu_pf_section x kheader (ascii ''__PRELINK_TEXT'') (ascii ''__text'')) (\<lambda>(r, x).
         case r of
           None \<Rightarrow> Inl (Panic ''unsupported xnu'')
         | Some rg \<Rightarrow> Inr (cacheable_base rg, x))
     | Some rg \<Rightarrow>
         bindE (rd64 (xmem x) (idx (cacheable_base rg))) (\<lambda>start.
         Inr (xnu_va_to_ptr x (xnu_slide_value x kheader + (0xffff000000000000 OR start)), x)))"

lemma hdr_range_keeps_mem:
  "hdr_range x h a n = Inr (r, x') \<Longrightarrow> xmem x' = xmem x \<and> virtBase x' = virtBase x \<and> physBase x' = physBase x"
  by (auto simp: hdr_range_def xnu_header_def split: if_splits option.splits)

lemma xnu_pf_section_keeps_mem:
  "xnu_pf_section x h sg sc = Inr (r, x') \<Longrightarrow> xmem x' = xmem x \<and> virtBase x' = virtBase x \<and> physBase x' = physBase x"
  by (auto simp: xnu_pf_section_def split: option.splits dest!: hdr_range_keeps_mem)

end
