(* ===== verification/Patchfinder.thy ===== *)
theory Patchfinder
  imports Xnu
begin

unbundle bit_operations_syntax

text \<open>
  The patch finder of \<open>src/src/drivers/xnu/xnu.c\<close>: patch sets, the matching of their patterns
  against a range of the kernel without and with the encoders of the JIT path. A patch set is its
  list of patches, newest first, as \<open>next_patch\<close> links them; a patch is named by its position in
  the list. The callback of a patch is a function pointer into the module that installs it: its
  code is the parameter \<open>call\<close>, given the pointer, the patch and the stream position, and may change
  the patch set and the whole state. Code emitted by the JIT lives in \<open>jit_code\<close>; running it is
  not modelled, so a patch set with a \<open>jit_matcher\<close> is run by the parameter \<open>jit\<close>.
\<close>

section \<open>Patches\<close>

datatype pf_matcher =
    Maskmatch "(u64 \<times> u64) list"
  | PtrToData (ptd_slide: u64) (ptd_range: xnu_pf_range) (ptd_data: bytes)

record xnu_pf_patch =
  pf_callback :: nat
  patch_required :: bool
  has_fired :: bool
  should_match :: bool
  pfjit_stolen_opcode :: u32
  pfjit_max_emit_size :: u32
  pfjit_entry :: "nat option"
  pfjit_exit :: nat
  patch_name :: string
  pf_match :: pf_matcher

record xnu_pf_patchset =
  patch_head :: "xnu_pf_patch list"
  jit_matcher :: "nat option"
  p0 :: u64
  accesstype :: u8
  is_required :: bool

definition XNU_PF_ACCESS_8BIT :: u8 where "XNU_PF_ACCESS_8BIT = 0x8"
definition XNU_PF_ACCESS_16BIT :: u8 where "XNU_PF_ACCESS_16BIT = 0x10"
definition XNU_PF_ACCESS_32BIT :: u8 where "XNU_PF_ACCESS_32BIT = 0x20"
definition XNU_PF_ACCESS_64BIT :: u8 where "XNU_PF_ACCESS_64BIT = 0x40"

lemmas access_defs =
  XNU_PF_ACCESS_8BIT_def XNU_PF_ACCESS_16BIT_def XNU_PF_ACCESS_32BIT_def XNU_PF_ACCESS_64BIT_def

type_synonym 'c pf_state = "xnu_pf_patchset \<times> 'c xnu"
type_synonym 'c pf_call = "nat \<Rightarrow> nat \<Rightarrow> nat \<Rightarrow> 'c pf_state \<Rightarrow> error + (bool \<times> 'c pf_state)"

text \<open>The memory comes from \<open>malloc\<close>, and \<open>p0\<close>, which only the JIT uses, keeps the value \<open>old\<close> it finds there.\<close>

definition xnu_pf_patchset_create :: "u64 \<Rightarrow> u8 \<Rightarrow> xnu_pf_patchset" where
  "xnu_pf_patchset_create old pf_accesstype =
     \<lparr>patch_head = [], jit_matcher = None, p0 = old, accesstype = pf_accesstype, is_required = True\<rparr>"

text \<open>Word counts of the code templates in \<open>xnu.S\<close>: start to next, with the padding of \<open>.align 3\<close>.\<close>

definition slowpath_words :: u32 where "slowpath_words = 16"
definition ptr_comparison_words :: u32 where "ptr_comparison_words = 18"

primrec bad_maskmatch :: "(u64 \<times> u64) list \<Rightarrow> bool" where
  "bad_maskmatch [] = False"
| "bad_maskmatch (p # ps) = (if fst p AND snd p \<noteq> fst p then True else bad_maskmatch ps)"

definition xnu_pf_maskmatch ::
  "xnu_pf_patchset \<Rightarrow> string \<Rightarrow> u64 list \<Rightarrow> u64 list \<Rightarrow> nat \<Rightarrow> bool \<Rightarrow> nat \<Rightarrow> error + xnu_pf_patchset" where
  "xnu_pf_maskmatch patchset name matches masks entryc required callback =
     (if length matches < entryc \<or> length masks < entryc then Inl BadAccess
      else
        let pairs = zip (take entryc matches) (take entryc masks) in
        bindE (panic_if (bad_maskmatch pairs) ''Bad maskmatch'') (\<lambda>_.
        let loadc = (if entryc > 8 then 8 else entryc);
            mm = \<lparr>pf_callback = callback, patch_required = required, has_fired = False, should_match = True,
                  pfjit_stolen_opcode = 0,
                  pfjit_max_emit_size =
                    (slowpath_words + (ucast (drop_bit 4 (accesstype patchset)) * 2 + 4) * of_nat loadc) * 4,
                  pfjit_entry = None, pfjit_exit = 0, patch_name = name, pf_match = Maskmatch pairs\<rparr>
        in Inr (patchset\<lparr>patch_head := mm # patch_head patchset\<rparr>)))"

definition xnu_pf_ptr_to_data ::
  "xnu_pf_patchset \<Rightarrow> u64 \<Rightarrow> xnu_pf_range \<Rightarrow> bytes \<Rightarrow> bool \<Rightarrow> nat \<Rightarrow> xnu_pf_patchset" where
  "xnu_pf_ptr_to_data patchset slide rng data required callback =
     (let mm = \<lparr>pf_callback = callback, patch_required = required, has_fired = False, should_match = True,
                pfjit_stolen_opcode = 0,
                pfjit_max_emit_size = ptr_comparison_words * 4 + 16 * 4 + 32,
                pfjit_entry = None, pfjit_exit = 0, patch_name = [], pf_match = PtrToData slide rng data\<rparr>
      in patchset\<lparr>patch_head := mm # patch_head patchset\<rparr>)"

section \<open>Matching at one position\<close>

text \<open>
  An element of \<open>k\<close> bytes, zero-extended to 64 bits. Patterns of fewer than eight elements are
  compared with the window read ahead, the others with the memory itself.
\<close>

definition rd_elem :: "nat \<Rightarrow> bytes \<Rightarrow> nat \<Rightarrow> error + u64" where
  "rd_elem k m p = bindE (chunk m p k) (\<lambda>bs. Inr (le_val bs))"

primrec match_pairs :: "nat \<Rightarrow> bytes \<Rightarrow> nat \<Rightarrow> nat \<Rightarrow> (u64 \<times> u64) list \<Rightarrow> error + bool" where
  "match_pairs k m p i [] = Inr True"
| "match_pairs k m p i (pr # prs) =
     bindE (rd_elem k m (p + i * k)) (\<lambda>w.
     if w AND snd pr \<noteq> fst pr then Inr False else match_pairs k m p (i + 1) prs)"

definition match_width :: "nat \<Rightarrow> (u64 \<times> u64) list \<Rightarrow> bytes \<Rightarrow> bytes \<Rightarrow> nat \<Rightarrow> error + bool" where
  "match_width k pairs preread m p =
     (if length pairs < 8 then match_pairs k preread 0 0 pairs else match_pairs k m p 0 pairs)"

definition xnu_pf_maskmatch_match_8 :: "(u64 \<times> u64) list \<Rightarrow> bytes \<Rightarrow> bytes \<Rightarrow> nat \<Rightarrow> error + bool" where
  "xnu_pf_maskmatch_match_8 = match_width 1"

definition xnu_pf_maskmatch_match_16 :: "(u64 \<times> u64) list \<Rightarrow> bytes \<Rightarrow> bytes \<Rightarrow> nat \<Rightarrow> error + bool" where
  "xnu_pf_maskmatch_match_16 = match_width 2"

definition xnu_pf_maskmatch_match_32 :: "(u64 \<times> u64) list \<Rightarrow> bytes \<Rightarrow> bytes \<Rightarrow> nat \<Rightarrow> error + bool" where
  "xnu_pf_maskmatch_match_32 = match_width 4"

definition xnu_pf_maskmatch_match_64 :: "(u64 \<times> u64) list \<Rightarrow> bytes \<Rightarrow> bytes \<Rightarrow> nat \<Rightarrow> error + bool" where
  "xnu_pf_maskmatch_match_64 = match_width 8"

definition set_fired :: "nat \<Rightarrow> 'c pf_state \<Rightarrow> error + 'c pf_state" where
  "set_fired j s =
     (let ps = fst s in
      if j < length (patch_head ps) then
        Inr (ps\<lparr>patch_head := (patch_head ps)[j := (patch_head ps ! j)\<lparr>has_fired := True\<rparr>]\<rparr>, snd s)
      else Inl BadAccess)"

definition fire :: "'c pf_call \<Rightarrow> xnu_pf_patch \<Rightarrow> nat \<Rightarrow> nat \<Rightarrow> 'c pf_state \<Rightarrow> error + 'c pf_state" where
  "fire call patch j p s =
     bindE (call (pf_callback patch) j p s) (\<lambda>(hit, s). if hit then set_fired j s else Inr s)"

definition xnu_pf_maskmatch_match ::
  "'c pf_call \<Rightarrow> xnu_pf_patch \<Rightarrow> (u64 \<times> u64) list \<Rightarrow> nat \<Rightarrow> u8 \<Rightarrow> bytes \<Rightarrow> nat \<Rightarrow> 'c pf_state \<Rightarrow> error + 'c pf_state" where
  "xnu_pf_maskmatch_match call patch pairs j access_type preread p s =
     bindE (if access_type = XNU_PF_ACCESS_8BIT then xnu_pf_maskmatch_match_8 pairs preread (xmem (snd s)) p
            else if access_type = XNU_PF_ACCESS_16BIT then xnu_pf_maskmatch_match_16 pairs preread (xmem (snd s)) p
            else if access_type = XNU_PF_ACCESS_32BIT then xnu_pf_maskmatch_match_32 pairs preread (xmem (snd s)) p
            else if access_type = XNU_PF_ACCESS_64BIT then xnu_pf_maskmatch_match_64 pairs preread (xmem (snd s)) p
            else Inr False) (\<lambda>val.
     if val then fire call patch j p s else Inr s)"

definition xnu_pf_ptr_to_data_match ::
  "'c pf_call \<Rightarrow> xnu_pf_patch \<Rightarrow> u64 \<Rightarrow> xnu_pf_range \<Rightarrow> bytes \<Rightarrow> nat \<Rightarrow> bytes \<Rightarrow> nat \<Rightarrow> 'c pf_state \<Rightarrow> error + 'c pf_state" where
  "xnu_pf_ptr_to_data_match call patch slide rng data j preread p s =
     bindE (rd64 preread 0) (\<lambda>w.
     let pointer = (w OR 0xffff000000000000) + slide in
     if pointer \<ge> pf_va rng \<and> pointer < pf_va rng + pf_size rng then
       bindE (chunk (xmem (snd s)) (idx (pointer - pf_va rng + cacheable_base rng)) (length data)) (\<lambda>bs.
       if bs = data then fire call patch j p s else Inr s)
     else Inr s)"

section \<open>The scan\<close>

definition match_patch :: "'c pf_call \<Rightarrow> u8 \<Rightarrow> bytes \<Rightarrow> nat \<Rightarrow> nat \<Rightarrow> 'c pf_state \<Rightarrow> error + 'c pf_state" where
  "match_patch call access reads p j s =
     (if j < length (patch_head (fst s)) then
        let patch = patch_head (fst s) ! j in
        if should_match patch then
          (case pf_match patch of
             Maskmatch pairs \<Rightarrow> xnu_pf_maskmatch_match call patch pairs j access reads p s
           | PtrToData slide rng data \<Rightarrow> xnu_pf_ptr_to_data_match call patch slide rng data j reads p s)
        else Inr s
      else Inl BadAccess)"

primrec match_patches :: "'c pf_call \<Rightarrow> u8 \<Rightarrow> bytes \<Rightarrow> nat \<Rightarrow> nat list \<Rightarrow> 'c pf_state \<Rightarrow> error + 'c pf_state" where
  "match_patches call access reads p [] s = Inr s"
| "match_patches call access reads p (j # js) s =
     bindE (match_patch call access reads p j s) (match_patches call access reads p js)"

definition match_at :: "'c pf_call \<Rightarrow> u8 \<Rightarrow> bytes \<Rightarrow> nat \<Rightarrow> 'c pf_state \<Rightarrow> error + 'c pf_state" where
  "match_at call access reads p s = match_patches call access reads p [0..<length (patch_head (fst s))] s"

text \<open>
  The loop over \<open>n\<close> more elements of \<open>k\<close> bytes, with the window of eight elements in \<open>reads\<close>: after
  each position it moves by one element, and the next element is \<open>stream[index + 8]\<close>, an index
  computed in 32 bits.
\<close>

primrec slide_loop ::
  "'c pf_call \<Rightarrow> u8 \<Rightarrow> nat \<Rightarrow> nat \<Rightarrow> bytes \<Rightarrow> nat \<Rightarrow> nat \<Rightarrow> 'c pf_state \<Rightarrow> error + 'c pf_state" where
  "slide_loop call access k base reads index 0 s = Inr s"
| "slide_loop call access k base reads index (Suc n) s =
     bindE (match_at call access reads (base + index * k) s) (\<lambda>s.
     bindE (chunk (xmem (snd s)) (base + unat (of_nat index + 8 :: u32) * k) k) (\<lambda>next.
     slide_loop call access k base (drop k reads @ next) (index + 1) n s))"

definition apply_width :: "'c pf_call \<Rightarrow> u8 \<Rightarrow> nat \<Rightarrow> u32 \<Rightarrow> xnu_pf_range \<Rightarrow> 'c pf_state \<Rightarrow> error + 'c pf_state" where
  "apply_width call access k stream_iters rng s =
     (let stream = idx (cacheable_base rng) in
      bindE (chunk (xmem (snd s)) stream (8 * k)) (\<lambda>reads.
      slide_loop call access k stream reads 0 (unat stream_iters) s))"

definition xnu_pf_apply_8 :: "'c pf_call \<Rightarrow> xnu_pf_range \<Rightarrow> 'c pf_state \<Rightarrow> error + 'c pf_state" where
  "xnu_pf_apply_8 call rng = apply_width call XNU_PF_ACCESS_8BIT 1 (ucast (pf_size rng)) rng"

definition xnu_pf_apply_16 :: "'c pf_call \<Rightarrow> xnu_pf_range \<Rightarrow> 'c pf_state \<Rightarrow> error + 'c pf_state" where
  "xnu_pf_apply_16 call rng = apply_width call XNU_PF_ACCESS_16BIT 2 (ucast (drop_bit 1 (pf_size rng))) rng"

definition xnu_pf_apply_32 :: "'c pf_call \<Rightarrow> xnu_pf_range \<Rightarrow> 'c pf_state \<Rightarrow> error + 'c pf_state" where
  "xnu_pf_apply_32 call rng = apply_width call XNU_PF_ACCESS_32BIT 4 (ucast (drop_bit 2 (pf_size rng))) rng"

text \<open>The number of 64-bit elements is computed like that of the 32-bit ones.\<close>

definition xnu_pf_apply_64 :: "'c pf_call \<Rightarrow> xnu_pf_range \<Rightarrow> 'c pf_state \<Rightarrow> error + 'c pf_state" where
  "xnu_pf_apply_64 call rng = apply_width call XNU_PF_ACCESS_64BIT 8 (ucast (drop_bit 2 (pf_size rng))) rng"

fun missing_patch :: "xnu_pf_patch list \<Rightarrow> string option" where
  "missing_patch [] = None"
| "missing_patch (p # ps) = (if patch_required p \<and> \<not> has_fired p then Some (patch_name p) else missing_patch ps)"

definition check_required :: "xnu_pf_patchset \<Rightarrow> error + unit" where
  "check_required patchset =
     (if is_required patchset then
        case missing_patch (patch_head patchset) of
          None \<Rightarrow> Inr ()
        | Some name \<Rightarrow> Inl (Panic (''Missing patch: '' @ name))
      else Inr ())"

definition xnu_pf_apply ::
  "('c pf_state \<Rightarrow> u64 \<Rightarrow> u64 \<Rightarrow> error + 'c pf_state) \<Rightarrow> 'c pf_call \<Rightarrow> xnu_pf_range \<Rightarrow> 'c pf_state \<Rightarrow> error + 'c pf_state" where
  "xnu_pf_apply jit call rng s =
     bindE (if jit_matcher (fst s) \<noteq> None then
              jit s (cacheable_base rng) (cacheable_base rng + pf_size rng)
            else if accesstype (fst s) = XNU_PF_ACCESS_8BIT then xnu_pf_apply_8 call rng s
            else if accesstype (fst s) = XNU_PF_ACCESS_16BIT then xnu_pf_apply_16 call rng s
            else if accesstype (fst s) = XNU_PF_ACCESS_32BIT then xnu_pf_apply_32 call rng s
            else if accesstype (fst s) = XNU_PF_ACCESS_64BIT then xnu_pf_apply_64 call rng s
            else Inr s) (\<lambda>s.
     bindE (check_required (fst s)) (\<lambda>_. Inr s))"

primrec apply_kexts ::
  "('c pf_state \<Rightarrow> u64 \<Rightarrow> u64 \<Rightarrow> error + 'c pf_state) \<Rightarrow> 'c pf_call \<Rightarrow> nat \<Rightarrow> nat \<Rightarrow> nat \<Rightarrow> 'c pf_state \<Rightarrow> error + 'c pf_state" where
  "apply_kexts jit call kheader start 0 s = Inr s"
| "apply_kexts jit call kheader start (Suc n) s =
     bindE (rd64 (xmem (snd s)) start) (\<lambda>w.
     let kexth = idx (xnu_va_to_ptr (snd s) (xnu_slide_value (snd s) kheader + (0xffff000000000000 OR w))) in
     bindE (xnu_pf_section (snd s) kexth (ascii ''__TEXT_EXEC'') (ascii ''__text'')) (\<lambda>(r, x).
     bindE (case r of None \<Rightarrow> Inr (fst s, x) | Some rg \<Rightarrow> xnu_pf_apply jit call rg (fst s, x))
       (apply_kexts jit call kheader (start + 8) n)))"

definition xnu_pf_apply_each_kext ::
  "('c pf_state \<Rightarrow> u64 \<Rightarrow> u64 \<Rightarrow> error + 'c pf_state) \<Rightarrow> 'c pf_call \<Rightarrow> nat \<Rightarrow> 'c pf_state \<Rightarrow> error + 'c pf_state" where
  "xnu_pf_apply_each_kext jit call kheader s =
     bindE (xnu_pf_section (snd s) kheader (ascii ''__PRELINK_INFO'') (ascii ''__kmod_start'')) (\<lambda>(r, x).
     case r of
       None \<Rightarrow>
         bindE (xnu_pf_section x kheader (ascii ''__PLK_TEXT_EXEC'') (ascii ''__text'')) (\<lambda>(r, x).
         case r of
           None \<Rightarrow> Inl (Panic ''unsupported xnu'')
         | Some rg \<Rightarrow> xnu_pf_apply jit call rg (fst s, x))
     | Some rg \<Rightarrow>
         let required = is_required (fst s); count = ucast (pf_size rg div 8) :: u32 in
         bindE (apply_kexts jit call kheader (idx (cacheable_base rg)) (unat count) ((fst s)\<lparr>is_required := False\<rparr>, x))
         (\<lambda>s. let ps = (fst s)\<lparr>is_required := required\<rparr> in
              bindE (check_required ps) (\<lambda>_. Inr (ps, snd s))))"

end
