(* ===== verification/Pfjit.thy ===== *)
theory Pfjit
  imports Patchfinder
begin

unbundle bit_operations_syntax

text \<open>
  The instruction encoders of the patch finder's JIT, and disabling and enabling a patch, of
  \<open>src/src/drivers/xnu/xnu.c\<close>. Code is a list of 32-bit instruction words and a pointer into it an
  index; an encoder returns the code and the next free index. To say what an emitted constant load
  does, \<open>exec_mov\<close> gives the meaning of the two A64 instructions it uses, \<open>MOVZ\<close> and \<open>MOVK\<close>.
\<close>

section \<open>Encoders\<close>

definition put_insn :: "u32 list \<Rightarrow> nat \<Rightarrow> u32 \<Rightarrow> error + (u32 list \<times> nat)" where
  "put_insn code p w = (if p < length code then Inr (code[p := w], p + 1) else Inl BadAccess)"

text \<open>A distance in instructions, as the \<open>uint32_t\<close> the code keeps it in.\<close>

definition insn_delta :: "nat \<Rightarrow> nat \<Rightarrow> u32" where
  "insn_delta target p = of_nat target - of_nat p"

primrec xnu_pf_emit_insns :: "u32 list \<Rightarrow> nat \<Rightarrow> u32 list \<Rightarrow> error + (u32 list \<times> nat)" where
  "xnu_pf_emit_insns code p [] = Inr (code, p)"
| "xnu_pf_emit_insns code p (w # ws) = bindE (put_insn code p w) (\<lambda>(code, p). xnu_pf_emit_insns code p ws)"

text \<open>\<open>jit_alloc\<close> returns the address four bytes after the start of a page, so it is the even indices whose
  address has bit 2 set.\<close>

definition NOP :: u32 where "NOP = 0xd503201f"

definition xnu_pf_align3_emit :: "u32 list \<Rightarrow> nat \<Rightarrow> error + (u32 list \<times> nat)" where
  "xnu_pf_align3_emit code p = (if even p then put_insn code p NOP else Inr (code, p))"

definition xnu_pf_b_emit :: "u32 list \<Rightarrow> nat \<Rightarrow> nat \<Rightarrow> error + (u32 list \<times> nat)" where
  "xnu_pf_b_emit code p target =
     put_insn code p ((insn_delta target p AND 0x03ffffff) OR 0x14000000)"

definition xnu_pf_b_eq_emit :: "u32 list \<Rightarrow> nat \<Rightarrow> nat \<Rightarrow> error + (u32 list \<times> nat)" where
  "xnu_pf_b_eq_emit code p target =
     put_insn code p ((push_bit 5 (insn_delta target p) AND 0xFFFFE0) OR 0x54000000)"

definition xnu_pf_b_ne_emit :: "u32 list \<Rightarrow> nat \<Rightarrow> nat \<Rightarrow> error + (u32 list \<times> nat)" where
  "xnu_pf_b_ne_emit code p target =
     put_insn code p ((push_bit 5 (insn_delta target p) AND 0xFFFFE0) OR 0x54000001)"

definition xnu_pf_cmp_emit :: "u32 list \<Rightarrow> nat \<Rightarrow> u8 \<Rightarrow> u8 \<Rightarrow> error + (u32 list \<times> nat)" where
  "xnu_pf_cmp_emit code p reg1 reg2 =
     put_insn code p ((0xEB00001F OR push_bit 5 (ucast (reg1 AND 0x1F))) OR push_bit 16 (ucast (reg2 AND 0x1F)))"

definition xnu_pf_and_emit :: "u32 list \<Rightarrow> nat \<Rightarrow> u8 \<Rightarrow> u8 \<Rightarrow> u8 \<Rightarrow> error + (u32 list \<times> nat)" where
  "xnu_pf_and_emit code p reg1 reg2 reg3 =
     put_insn code p (((0x8A000000 OR ucast (reg1 AND 0x1F)) OR push_bit 5 (ucast (reg2 AND 0x1F)))
       OR push_bit 16 (ucast (reg3 AND 0x1F)))"

text \<open>One 16-bit part: computed in 64 bits, stored in 32.\<close>

definition mov_part :: "u64 \<Rightarrow> u64 \<Rightarrow> u8 \<Rightarrow> u32" where
  "mov_part opc part reg = ucast (push_bit 5 (opc OR (part AND 0xFFFF)) OR ucast (ucast (reg AND 0x1f) :: u32))"

definition xnu_pf_imm64_load_emit :: "u32 list \<Rightarrow> nat \<Rightarrow> u8 \<Rightarrow> u64 \<Rightarrow> error + (u32 list \<times> nat)" where
  "xnu_pf_imm64_load_emit code p reg value =
     bindE (put_insn code p (mov_part 0x6940000 value reg)) (\<lambda>(code, p).
     bindE (if drop_bit 16 value AND 0xFFFF \<noteq> 0 then put_insn code p (mov_part 0x7950000 (drop_bit 16 value) reg)
            else Inr (code, p)) (\<lambda>(code, p).
     bindE (if drop_bit 32 value AND 0xFFFF \<noteq> 0 then put_insn code p (mov_part 0x7960000 (drop_bit 32 value) reg)
            else Inr (code, p)) (\<lambda>(code, p).
     if drop_bit 48 value AND 0xFFFF \<noteq> 0 then put_insn code p (mov_part 0x7970000 (drop_bit 48 value) reg)
     else Inr (code, p))))"

section \<open>Disabling and enabling a patch\<close>

definition xnu_pf_disable_patch :: "xnu_pf_patch \<Rightarrow> u32 list \<Rightarrow> error + (xnu_pf_patch \<times> u32 list)" where
  "xnu_pf_disable_patch patch code =
     (if \<not> should_match patch then Inr (patch, code)
      else
        let patch = patch\<lparr>should_match := False\<rparr> in
        case pfjit_entry patch of
          None \<Rightarrow> Inr (patch, code)
        | Some e \<Rightarrow>
            if e < length code then
              bindE (xnu_pf_b_emit code e (pfjit_exit patch)) (\<lambda>(code', p).
              Inr (patch\<lparr>pfjit_stolen_opcode := code ! e\<rparr>, code'))
            else Inl BadAccess)"

definition xnu_pf_enable_patch :: "xnu_pf_patch \<Rightarrow> u32 list \<Rightarrow> error + (xnu_pf_patch \<times> u32 list)" where
  "xnu_pf_enable_patch patch code =
     (if should_match patch then Inr (patch, code)
      else
        let patch = patch\<lparr>should_match := True\<rparr> in
        case pfjit_entry patch of
          None \<Rightarrow> Inr (patch, code)
        | Some e \<Rightarrow>
            bindE (put_insn code e (pfjit_stolen_opcode patch)) (\<lambda>(code, p). Inr (patch, code)))"

section \<open>The constant load\<close>

definition exec_mov :: "u32 \<Rightarrow> (nat \<Rightarrow> u64) \<Rightarrow> (nat \<Rightarrow> u64) option" where
  "exec_mov w r =
     (let opc = drop_bit 23 w; sh = 16 * unat (drop_bit 21 w AND 3); rd = unat (w AND 0x1f);
          imm = push_bit sh (ucast (drop_bit 5 w AND 0xFFFF)) :: u64
      in if opc = 0x1A5 then Some (r(rd := imm))
         else if opc = 0x1E5 then Some (r(rd := (r rd AND NOT (push_bit sh 0xFFFF)) OR imm))
         else None)"

primrec exec_movs :: "u32 list \<Rightarrow> (nat \<Rightarrow> u64) \<Rightarrow> (nat \<Rightarrow> u64) option" where
  "exec_movs [] r = Some r"
| "exec_movs (w # ws) r = (case exec_mov w r of None \<Rightarrow> None | Some r' \<Rightarrow> exec_movs ws r')"

lemma exec_movs_append: "exec_movs (xs @ ys) r = (case exec_movs xs r of None \<Rightarrow> None | Some r' \<Rightarrow> exec_movs ys r')"
  by (induction xs arbitrary: r) (auto split: option.split)


end
