(* ===== verification/PfjitClaims.thy ===== *)
theory PfjitClaims
  imports Pfjit
begin

unbundle bit_operations_syntax

text \<open>
  The constant load of the JIT computes the constant, and disabling a patch is undone by enabling
  it. The encoder is first shown to write the list \<open>imm_words\<close>; each of its words is decoded by
  the arithmetic of its fields, and running a prefix of them builds the constant from below, sixteen
  bits at a time.
\<close>

lemma mask16: "0xFFFF = (mask 16 :: 'w::len word)" by (simp add: mask_eq_decr_exp)

lemma unat_drop: "unat (drop_bit n w) = unat (w :: 'w::len word) div 2 ^ n"
  unfolding unat_drop_bit_eq by (simp only: drop_bit_eq_div)

lemma field_bound: "a = 65536 * q \<Longrightarrow> m \<le> 65535 \<Longrightarrow> q \<le> 2047 \<Longrightarrow> r \<le> 31 \<Longrightarrow> 32 * (a + m) + r < (4294967296 :: nat)"
  by simp

lemma unat_mov_part:
  assumes opc: "opc AND mask 16 = 0" "unat opc < 2 ^ 27" and reg: "unat reg < 32"
  shows "unat (mov_part opc part reg) = 32 * (unat opc + unat part mod 65536) + unat reg"
proof -
  let ?h = "part AND mask 16" and ?r = "reg AND 0x1f"
  have h: "unat ?h = unat part mod 65536" by (simp add: unat_and_mask_len)
  have "opc AND ?h = 0" using opc(1) by (metis (no_types) and.assoc and.commute and_zero_eq)
  then have oh: "opc OR ?h = opc + ?h" by (simp add: disjunctive_add_eq_or)
  have m5: "(0x1f :: u8) = mask 5" by (simp add: mask_eq_decr_exp)
  have r: "unat ?r = unat reg" using reg by (simp only: m5 unat_and_mask_len) simp
  have sum: "unat (opc + ?h) = unat opc + unat part mod 65536"
    using opc(2) h mod_less_divisor [of 65536 "unat part"] by (subst unat_word_ariths) (simp)
  have push: "unat (push_bit 5 (opc + ?h)) = 32 * (unat opc + unat part mod 65536)"
  proof -
    have "push_bit 5 (opc + ?h) = of_nat (32 * (unat opc + unat part mod 65536))"
      using sum [symmetric] by (simp add: push_bit_eq_mult h [symmetric])
    then show ?thesis
      using opc(2) mod_less_divisor [of 65536 "unat part"] by (simp only: unsigned_of_nat) (simp add: take_bit_nat_eq_self)
  qed
  have "push_bit 5 (opc + ?h) AND ucast (ucast ?r :: u32) = (0 :: u64)"
  proof (rule bit_word_eqI)
    fix i
    have "bit ?r i \<Longrightarrow> i < 5"
      by (simp add: m5 bit_and_iff bit_mask_iff)
    then show "bit (push_bit 5 (opc + ?h) AND ucast (ucast ?r :: u32)) i = bit (0 :: u64) i"
      by (auto simp: bit_simps)
  qed
  then have "push_bit 5 (opc + ?h) OR ucast (ucast ?r :: u32) = push_bit 5 (opc + ?h) + ucast (ucast ?r :: u32)"
    by (simp add: disjunctive_add_eq_or)
  moreover have "unat (ucast (ucast ?r :: u32) :: u64) = unat reg"
    by (subst unat_ucast_up, simp)+ (rule r)
  ultimately have "unat (push_bit 5 (opc OR ?h) OR ucast (ucast ?r :: u32)) = 32 * (unat opc + unat part mod 65536) + unat reg"
    using push opc(2) reg mod_less_divisor [of 65536 "unat part"] by (simp add: oh unat_word_ariths)
  then have "unat (mov_part opc part reg) = take_bit 32 (32 * (unat opc + unat part mod 65536) + unat reg)"
    by (simp only: mov_part_def mask16 unsigned_ucast_eq) simp
  moreover have "32 * (unat opc + unat part mod 65536) + unat reg < 2 ^ 32"
  proof -
    have "unat opc = 65536 * (unat opc div 65536)"
      using arg_cong [OF opc(1), of unat] by (simp add: unat_and_mask_len) (metis mult_div_mod_eq add_0_right)
    moreover have "unat part mod 65536 \<le> 65535" "unat opc div 65536 \<le> 2047" "unat reg \<le> 31"
      using opc(2) reg by (simp_all add: less_Suc_eq_le [symmetric] less_mult_imp_div_less)
    ultimately have "32 * (unat opc + unat part mod 65536) + unat reg < 4294967296" by (rule field_bound)
    then show ?thesis by simp
  qed
  ultimately show ?thesis by (simp only: take_bit_nat_eq_self)
qed

lemma fields_div:
  fixes q m r :: nat
  assumes "m < 65536" and "r < 32"
  shows "(32 * (65536 * q + m) + r) div 2097152 = q" and "(32 * (65536 * q + m) + r) div 8388608 = 65536 * q div 262144"
    and "(32 * (65536 * q + m) + r) div 32 mod 65536 = m"
proof -
  have e: "32 * (65536 * q + m) + r = (32 * m + r) + q * 2097152" by simp
  have l: "32 * m + r < 2097152" using assms by simp
  show 1: "(32 * (65536 * q + m) + r) div 2097152 = q"
    unfolding e using l by simp
  have "(32 * (65536 * q + m) + r) div 8388608 = (32 * (65536 * q + m) + r) div 2097152 div 4"
    by (simp only: div_mult2_eq [symmetric]) simp
  moreover have "65536 * q div 262144 = q div 4"
    using div_mult_mult1 [of "65536 :: nat" q 4] by simp
  ultimately show "(32 * (65536 * q + m) + r) div 8388608 = 65536 * q div 262144" by (simp only: 1)
  have "(32 * (65536 * q + m) + r) div 32 = 65536 * q + m" using assms(2) by simp
  then show "(32 * (65536 * q + m) + r) div 32 mod 65536 = m" using assms(1) by simp
qed

lemma exec_mov_part:
  assumes opc: "opc AND mask 16 = 0" "unat opc < 2 ^ 27" and reg: "unat reg < 32"
  shows "exec_mov (mov_part opc part reg) r =
    (let sh = 16 * (unat opc div 65536 mod 4); imm = push_bit sh (part AND mask 16)
     in if unat opc div 2 ^ 18 = 0x1A5 then Some (r(unat reg := imm))
        else if unat opc div 2 ^ 18 = 0x1E5 then
          Some (r(unat reg := (r (unat reg) AND NOT (push_bit sh (mask 16))) OR imm))
        else None)"
proof -
  let ?w = "mov_part opc part reg" and ?m = "unat part mod 65536" and ?q = "unat opc div 65536"
  have "unat (opc AND mask 16) = unat opc mod 65536" by (simp add: unat_and_mask_len)
  then have d: "unat opc = 65536 * ?q" using opc(1) by (metis add_0_right mult_div_mod_eq unsigned_0)
  have m: "?m < 65536" by simp
  have n: "unat ?w = 32 * (65536 * ?q + ?m) + unat reg" using unat_mov_part [OF assms] d by presburger
  have rd: "unat (?w AND 0x1f) = unat reg"
  proof -
    have m5: "(0x1f :: u32) = mask 5" by (simp add: mask_eq_decr_exp)
    obtain k where "unat ?w = 32 * k + unat reg" using n by blast
    then show ?thesis using reg by (simp only: m5 unat_and_mask_len) simp
  qed
  have s: "unat (drop_bit 21 ?w AND 3) = ?q mod 4"
  proof -
    have m2: "(3 :: u32) = mask 2" by (simp add: mask_eq_decr_exp)
    show ?thesis using fields_div(1) [OF m reg, of ?q] by (simp only: m2 unat_and_mask_len unat_drop n) simp
  qed
  have opw: "unat (drop_bit 23 ?w) = unat opc div 2 ^ 18"
    using fields_div(2) [OF m reg, of ?q] d by (simp only: unat_drop n) simp
  have i: "ucast (drop_bit 5 ?w AND 0xFFFF) = (part AND mask 16 :: u64)"
  proof -
    have "unat (drop_bit 5 ?w AND 0xFFFF) = ?m"
      using fields_div(3) [OF m reg, of ?q] by (simp only: mask16 unat_and_mask_len unat_drop n) simp
    then have "unat (ucast (drop_bit 5 ?w AND 0xFFFF) :: u64) = ?m" by (subst unat_ucast_up) simp_all
    then show ?thesis by (simp only: word_unat_eq_iff unat_and_mask_len) simp
  qed
  have c: "drop_bit 23 ?w = 0x1A5 \<longleftrightarrow> unat opc div 2 ^ 18 = 0x1A5" "drop_bit 23 ?w = 0x1E5 \<longleftrightarrow> unat opc div 2 ^ 18 = 0x1E5"
    by (simp_all only: word_unat_eq_iff opw) simp_all
  show ?thesis
    unfolding exec_mov_def Let_def c rd s i by (simp only: mask16)
qed

lemma insert16:
  "(v AND mask (16 * h)) AND NOT (push_bit (16 * h) (mask 16)) OR push_bit (16 * h) (drop_bit (16 * h) v AND mask 16)
   = (v :: u64) AND mask (16 * (h + 1))"
proof (rule bit_word_eqI)
  fix n assume "n < LENGTH(64)"
  then show "bit ((v AND mask (16 * h)) AND NOT (push_bit (16 * h) (mask 16)) OR push_bit (16 * h) (drop_bit (16 * h) v AND mask 16)) n
    = bit (v AND mask (16 * (h + 1))) n"
    by (cases "n < 16 * h") (auto simp: bit_simps)
qed

lemma skip16:
  assumes "drop_bit (16 * h) v AND mask 16 = (0 :: u64)"
  shows "(v :: u64) AND mask (16 * (h + 1)) = v AND mask (16 * h)"
proof (rule bit_word_eqI)
  fix n assume n: "n < LENGTH(64)"
  have "\<not> bit (drop_bit (16 * h) v AND mask 16) (n - 16 * h)" unfolding assms by simp
  then show "bit (v AND mask (16 * (h + 1))) n = bit (v AND mask (16 * h)) n"
    using n by (cases "n < 16 * h") (auto simp: bit_simps)
qed


definition written :: "u32 list \<Rightarrow> nat \<Rightarrow> u32 list \<Rightarrow> u32 list" where
  "written code p ws = take p code @ ws @ drop (p + length ws) code"

lemma written_Nil [simp]: "written code p [] = code"
  by (simp add: written_def)

lemma put_written:
  "p + length ws < length code \<Longrightarrow>
   put_insn (written code p ws) (p + length ws) w = Inr (written code p (ws @ [w]), p + length ws + 1)"
  by (simp add: put_insn_def written_def list_update_append Cons_nth_drop_Suc [symmetric] min_def)

text \<open>The parts of the constant, least significant first; a zero part is left out, except the first.\<close>

definition mov_opc :: "nat \<Rightarrow> u64" where
  "mov_opc h = (if h = 0 then 0x6940000 else 0x7940000 + of_nat h * 0x10000)"

primrec imm_words :: "u8 \<Rightarrow> u64 \<Rightarrow> nat \<Rightarrow> u32 list" where
  "imm_words reg v 0 = []"
| "imm_words reg v (Suc h) = imm_words reg v h @
     (if h = 0 \<or> drop_bit (16 * h) v AND 0xFFFF \<noteq> 0 then [mov_part (mov_opc h) (drop_bit (16 * h) v) reg] else [])"

lemma length_imm_words: "length (imm_words reg v h) \<le> h"
  by (induction h) auto

lemma mov_opc_fields:
  assumes "h \<le> 3"
  shows "mov_opc h AND mask 16 = 0" and "unat (mov_opc h) < 2 ^ 27" and "unat (mov_opc h) div 65536 mod 4 = h"
    and "unat (mov_opc h) div 2 ^ 18 = (if h = 0 then 0x1A5 else 0x1E5)"
proof -
  from assms consider "h = 0" | "h = 1" | "h = 2" | "h = 3" by linarith
  note c = this
  show "mov_opc h AND mask 16 = 0" using c by cases (simp_all add: mov_opc_def mask_eq_decr_exp)
  show "unat (mov_opc h) < 2 ^ 27" using c by cases (simp_all add: mov_opc_def)
  show "unat (mov_opc h) div 65536 mod 4 = h" using c by cases (simp_all add: mov_opc_def)
  show "unat (mov_opc h) div 2 ^ 18 = (if h = 0 then 0x1A5 else 0x1E5)" using c by cases (simp_all add: mov_opc_def)
qed

lemma exec_first_word:
  assumes "unat reg < 32"
  shows "exec_mov (mov_part (mov_opc 0) v reg) r = Some (r(unat reg := v AND mask 16))"
  unfolding exec_mov_part [OF mov_opc_fields(1,2) assms, OF le0 le0] mov_opc_fields(3,4) [OF le0] Let_def
  by simp

lemma exec_next_word:
  assumes "unat reg < 32" and "0 < h" and "h \<le> 3"
  shows "exec_mov (mov_part (mov_opc h) (drop_bit (16 * h) v) reg) (r(unat reg := v AND mask (16 * h)))
    = Some (r(unat reg := v AND mask (16 * (h + 1))))"
  unfolding exec_mov_part [OF mov_opc_fields(1,2) [OF assms(3)] assms(1)] mov_opc_fields(3,4) [OF assms(3)] Let_def
  using assms(2) insert16 [of v h] by simp

lemma imm_words_exec:
  assumes reg: "unat reg < 32" and h: "h \<le> 3"
  shows "exec_movs (imm_words reg v (Suc h)) r = Some (r(unat reg := v AND mask (16 * Suc h)))"
  using h
proof (induction h)
  case 0
  show ?case using exec_first_word [OF reg] by (simp add: fun_upd_def)
next
  case (Suc h)
  let ?w = "mov_part (mov_opc (Suc h)) (drop_bit (16 * Suc h) v) reg"
  note ih = Suc.IH [OF Suc_leD [OF Suc.prems]]
  show ?case
  proof (cases "drop_bit (16 * Suc h) v AND mask 16 = 0")
    case True
    then have w: "imm_words reg v (Suc (Suc h)) = imm_words reg v (Suc h)"
      by (subst imm_words.simps(2)) (simp add: mask16)
    have "v AND mask (16 * Suc (Suc h)) = v AND mask (16 * Suc h)" using skip16 [OF True] by (simp only: Suc_eq_plus1)
    then show ?thesis using ih by (simp only: w)
  next
    case False
    then have "imm_words reg v (Suc (Suc h)) = imm_words reg v (Suc h) @ [?w]"
      by (subst imm_words.simps(2)) (simp add: mask16)
    moreover have "exec_mov ?w (r(unat reg := v AND mask (16 * Suc h))) = Some (r(unat reg := v AND mask (16 * Suc (Suc h))))"
      using exec_next_word [OF reg zero_less_Suc Suc.prems] by (simp only: Suc_eq_plus1)
    ultimately show ?thesis using ih by (simp only: exec_movs_append option.case exec_movs.simps)
  qed
qed

lemma imm64_emit_words:
  assumes "p + 4 \<le> length code"
  shows "xnu_pf_imm64_load_emit code p reg v =
    Inr (written code p (imm_words reg v 4), p + length (imm_words reg v 4))"
proof -
  let ?ws = "imm_words reg v"
  let ?at = "\<lambda>h. Inr (written code p (?ws h), p + length (?ws h)) :: error + (u32 list \<times> nat)"
  have put: "put_insn (written code p (?ws h)) (p + length (?ws h)) w
      = Inr (written code p (?ws h @ [w]), p + length (?ws h @ [w]))" if "h \<le> 3" for h w
    using assms that put_written [of p "?ws h" code w] length_imm_words [of reg v h] by simp
  have first: "put_insn code p (mov_part 0x6940000 v reg) = ?at 1"
    using put [of 0] by (simp add: mov_opc_def)
  have step: "(if drop_bit s v AND 0xFFFF \<noteq> 0
      then put_insn (written code p (?ws h)) (p + length (?ws h)) (mov_part opc (drop_bit s v) reg)
      else ?at h) = ?at n" if "n = Suc h" "0 < h" "h \<le> 3" "opc = mov_opc h" "s = 16 * h" for h n s opc
    using that put [of h] by simp
  have 1: "(if drop_bit 16 v AND 0xFFFF \<noteq> 0
      then put_insn (written code p (?ws 1)) (p + length (?ws 1)) (mov_part 0x7950000 (drop_bit 16 v) reg) else ?at 1) = ?at 2"
    by (rule step) (simp_all add: mov_opc_def)
  have 2: "(if drop_bit 32 v AND 0xFFFF \<noteq> 0
      then put_insn (written code p (?ws 2)) (p + length (?ws 2)) (mov_part 0x7960000 (drop_bit 32 v) reg) else ?at 2) = ?at 3"
    by (rule step) (simp_all add: mov_opc_def)
  have 3: "(if drop_bit 48 v AND 0xFFFF \<noteq> 0
      then put_insn (written code p (?ws 3)) (p + length (?ws 3)) (mov_part 0x7970000 (drop_bit 48 v) reg) else ?at 3) = ?at 4"
    by (rule step) (simp_all add: mov_opc_def)
  show ?thesis
    by (simp only: xnu_pf_imm64_load_emit_def first bindE_simps case_prod_conv 1 2 3)
qed

text \<open>C26 The constant load the patch finder's JIT emits loads the constant: at any place with room for
  four instructions, for every register but the zero register and every 64-bit value, the encoder
  writes at most four instructions there and nothing else, and running them leaves the value in
  the register and the other registers alone - the zero parts it leaves out included.\<close>

theorem xnu_pf_imm64_load_emit_correct:
  assumes "unat reg < 31" and "p + 4 \<le> length code"
  shows "\<exists>ws. length ws \<le> 4 \<and>
    xnu_pf_imm64_load_emit code p reg v = Inr (take p code @ ws @ drop (p + length ws) code, p + length ws) \<and>
    (\<forall>r. exec_movs ws r = Some (r(unat reg := v)))"
proof (intro exI conjI)
  show "length (imm_words reg v 4) \<le> 4" by (rule length_imm_words)
  show "xnu_pf_imm64_load_emit code p reg v = Inr (take p code @ imm_words reg v 4 @ drop (p + length (imm_words reg v 4)) code,
      p + length (imm_words reg v 4))"
    using imm64_emit_words [OF assms(2)] by (simp only: written_def)
  have "v AND mask 64 = v" by (rule bit_word_eqI) (simp add: bit_simps)
  then show "\<forall>r. exec_movs (imm_words reg v 4) r = Some (r(unat reg := v))"
    using imm_words_exec [of reg 3 v] assms(1) by (simp add: eval_nat_numeral del: imm_words.simps)
qed

theorem xnu_pf_imm64_load_emit_correct_witness:
  "\<exists>ws. length ws \<le> 4 \<and>
    xnu_pf_imm64_load_emit [1, 2, 3, 4, 5, 6] 1 7 0xfff0000000001234
      = Inr (take 1 [1, 2, 3, 4, 5, 6] @ ws @ drop (1 + length ws) [1, 2, 3, 4, 5, 6], 1 + length ws) \<and>
    (\<forall>r. exec_movs ws r = Some (r(unat (7 :: u8) := 0xfff0000000001234)))"
  by (rule xnu_pf_imm64_load_emit_correct) simp_all

text \<open>Disabling a patch and enabling it again undoes itself: with its JIT code in place, the first
  overwrites the entry of the patch by a branch and keeps the instruction it finds there, the
  second puts that instruction back, so that the code is what it was and the patch differs in the
  kept instruction only.\<close>

theorem disable_enable_patch:
  assumes "should_match patch" and "pfjit_entry patch = Some e" and "e < length code"
  shows "\<exists>patch1 code1. xnu_pf_disable_patch patch code = Inr (patch1, code1) \<and> \<not> should_match patch1 \<and>
    code1 = code[e := (insn_delta (pfjit_exit patch) e AND 0x03ffffff) OR 0x14000000] \<and>
    xnu_pf_enable_patch patch1 code1 = Inr (patch\<lparr>pfjit_stolen_opcode := code ! e\<rparr>, code)"
  using assms by (simp add: xnu_pf_disable_patch_def xnu_pf_enable_patch_def xnu_pf_b_emit_def put_insn_def)

definition sample_patch :: xnu_pf_patch where
  "sample_patch = \<lparr>pf_callback = 0, patch_required = False, has_fired = False, should_match = True,
     pfjit_stolen_opcode = 0, pfjit_max_emit_size = 176, pfjit_entry = Some 1, pfjit_exit = 3,
     patch_name = ''sample'', pf_match = Maskmatch []\<rparr>"

theorem disable_enable_patch_witness:
  "\<exists>patch1 code1. xnu_pf_disable_patch sample_patch [10, 11, 12, 13] = Inr (patch1, code1) \<and> \<not> should_match patch1 \<and>
    code1 = [10, 11, 12, 13][1 := (insn_delta (pfjit_exit sample_patch) 1 AND 0x03ffffff) OR 0x14000000] \<and>
    xnu_pf_enable_patch patch1 code1 = Inr (sample_patch\<lparr>pfjit_stolen_opcode := [10, 11, 12, 13] ! 1\<rparr>, [10, 11, 12, 13])"
  by (rule disable_enable_patch) (simp_all add: sample_patch_def)

end
