(* ===== verification/PscanClaims.thy ===== *)
theory PscanClaims
  imports Patchfinder
begin

unbundle bit_operations_syntax

text \<open>
  What running a patch set does: reading a window along is the same as looking at the memory, the
  64-bit scan leaves its range, the places found are the places that match, and a required patch
  that is not found panics. The callbacks of the last two only write down their calls.
\<close>

section \<open>The sliding window\<close>

text \<open>The scan with the window read afresh at every position.\<close>

primrec direct_loop :: "'c pf_call \<Rightarrow> u8 \<Rightarrow> nat \<Rightarrow> nat \<Rightarrow> nat \<Rightarrow> nat \<Rightarrow> 'c pf_state \<Rightarrow> error + 'c pf_state" where
  "direct_loop call access k base index 0 s = Inr s"
| "direct_loop call access k base index (Suc n) s =
     bindE (chunk (xmem (snd s)) (base + index * k) (8 * k)) (\<lambda>reads.
     bindE (match_at call access reads (base + index * k) s) (direct_loop call access k base (index + 1) n))"

text \<open>A callback that leaves the part of the window behind its position alone.\<close>

definition window_kept :: "nat \<Rightarrow> nat \<Rightarrow> bytes \<Rightarrow> bytes \<Rightarrow> bool" where
  "window_kept k p m m' \<longleftrightarrow> length m' = length m \<and> take (7 * k) (drop (p + k) m') = take (7 * k) (drop (p + k) m)"

definition window_safe :: "nat \<Rightarrow> 'c pf_call \<Rightarrow> bool" where
  "window_safe k call \<longleftrightarrow>
     (\<forall>cb j p s r s'. call cb j p s = Inr (r, s') \<longrightarrow> window_kept k p (xmem (snd s)) (xmem (snd s')))"

lemma window_kept_refl [simp]: "window_kept k p m m"
  by (simp add: window_kept_def)

lemma window_kept_trans: "window_kept k p m m' \<Longrightarrow> window_kept k p m' m'' \<Longrightarrow> window_kept k p m m''"
  by (simp add: window_kept_def)

lemma window_safeD:
  "window_safe k call \<Longrightarrow> call cb j p s = Inr (r, s') \<Longrightarrow> window_kept k p (xmem (snd s)) (xmem (snd s'))"
  unfolding window_safe_def by blast

lemma fire_window:
  assumes "window_safe k call" and "fire call patch j p s = Inr s'"
  shows "window_kept k p (xmem (snd s)) (xmem (snd s'))"
proof -
  from assms(2) obtain hit t where c: "call (pf_callback patch) j p s = Inr (hit, t)"
    and t: "(if hit then set_fired j t else Inr t) = Inr s'"
    by (auto simp: fire_def)
  have "snd s' = snd t" using t by (auto simp: set_fired_def Let_def split: if_splits)
  with window_safeD [OF assms(1) c] show ?thesis by simp
qed

lemma match_patch_window:
  assumes "window_safe k call" and "match_patch call access reads p j s = Inr s'"
  shows "window_kept k p (xmem (snd s)) (xmem (snd s'))"
proof (cases "\<exists>patch. fire call patch j p s = Inr s'")
  case False
  with assms(2) have "s' = s"
    by (auto simp: match_patch_def xnu_pf_maskmatch_match_def xnu_pf_ptr_to_data_match_def Let_def
        split: if_splits pf_matcher.splits)
  then show ?thesis by simp
qed (use fire_window [OF assms(1)] in blast)

lemma match_patches_window:
  "window_safe k call \<Longrightarrow> match_patches call access reads p js s = Inr s' \<Longrightarrow> window_kept k p (xmem (snd s)) (xmem (snd s'))"
  by (induction js arbitrary: s) (auto dest: match_patch_window intro: window_kept_trans)

lemma match_at_window:
  "window_safe k call \<Longrightarrow> match_at call access reads p s = Inr s' \<Longrightarrow> window_kept k p (xmem (snd s)) (xmem (snd s'))"
  unfolding match_at_def by (rule match_patches_window)

lemma shift_window:
  assumes "window_kept k p m m'" and "p + 9 * k \<le> length m"
  shows "drop k (take (8 * k) (drop p m)) @ take k (drop (p + 8 * k) m') = take (8 * k) (drop (p + k) m')"
proof -
  have "drop k (take (8 * k) (drop p m)) = take (7 * k) (drop (p + k) m')"
    using assms by (simp add: window_kept_def drop_take add.commute)
  moreover have "take (8 * k) (drop (p + k) m') = take (7 * k) (drop (p + k) m') @ take k (drop (7 * k) (drop (p + k) m'))"
    using take_add [of "7 * k" k "drop (p + k) m'"] by simp
  ultimately show ?thesis by (simp add: add.commute add.left_commute)
qed

lemma index_plus_8: "index + 8 < 2 ^ 32 \<Longrightarrow> unat (of_nat index + 8 :: u32) = index + 8"
proof -
  assume i: "index + 8 < 2 ^ 32"
  have e: "(of_nat index + 8 :: u32) = of_nat (index + 8)" by simp
  show ?thesis using i by (simp only: e unsigned_of_nat) (simp add: take_bit_nat_eq_self)
qed

lemma slide_direct:
  assumes "window_safe k call" and "base + (index + n + 8) * k \<le> length (xmem (snd s))" and "index + n + 8 < 2 ^ 32"
    and "reads = take (8 * k) (drop (base + index * k) (xmem (snd s)))"
  shows "slide_loop call access k base reads index n s = direct_loop call access k base index n s"
  using assms(2-)
proof (induction n arbitrary: index reads s)
  case (Suc n)
  let ?p = "base + index * k"
  have len: "?p + 9 * k \<le> length (xmem (snd s))"
  proof -
    have "base + (index + 9) * k \<le> base + (index + Suc n + 8) * k" by simp
    then show ?thesis using Suc.prems(1) by (simp add: algebra_simps)
  qed
  then have r: "chunk (xmem (snd s)) ?p (8 * k) = Inr reads" using Suc.prems(3) by (simp add: chunk_def)
  show ?case
  proof (cases "match_at call access reads ?p s")
    case (Inr s')
    then have w: "window_kept k ?p (xmem (snd s)) (xmem (snd s'))" by (rule match_at_window [OF assms(1)])
    then have l: "length (xmem (snd s')) = length (xmem (snd s))" by (simp add: window_kept_def)
    have nx: "chunk (xmem (snd s')) (base + unat (of_nat index + 8 :: u32) * k) k = Inr (take k (drop (?p + 8 * k) (xmem (snd s'))))"
      using Suc.prems(2) len l by (simp add: index_plus_8 chunk_def algebra_simps)
    have sh: "drop k reads @ take k (drop (?p + 8 * k) (xmem (snd s'))) = take (8 * k) (drop (base + (index + 1) * k) (xmem (snd s')))"
      using shift_window [OF w len] Suc.prems(3) by (simp add: algebra_simps)
    have "slide_loop call access k base (drop k reads @ take k (drop (?p + 8 * k) (xmem (snd s')))) (index + 1) n s'
        = direct_loop call access k base (index + 1) n s'"
      by (rule Suc.IH) (use Suc.prems l sh in simp_all)
    then show ?thesis using Inr r nx by simp
  qed (use r in simp)
qed simp

text \<open>Element size and number of positions, by access type.\<close>

definition pf_width :: "u8 \<Rightarrow> nat" where "pf_width access = unat access div 8"

definition pf_iters :: "u8 \<Rightarrow> u64 \<Rightarrow> nat" where
  "pf_iters access sz = unat (ucast (if access = XNU_PF_ACCESS_8BIT then sz else
     if access = XNU_PF_ACCESS_16BIT then drop_bit 1 sz else drop_bit 2 sz) :: u32)"

definition access_ok :: "u8 \<Rightarrow> bool" where
  "access_ok a \<longleftrightarrow> a = XNU_PF_ACCESS_8BIT \<or> a = XNU_PF_ACCESS_16BIT \<or> a = XNU_PF_ACCESS_32BIT \<or> a = XNU_PF_ACCESS_64BIT"

lemma xnu_pf_apply_slide:
  assumes "jit_matcher (fst s) = None" and "access_ok (accesstype (fst s))"
    and "k = pf_width (accesstype (fst s))" and "n = pf_iters (accesstype (fst s)) (pf_size rng)"
  shows "xnu_pf_apply jit call rng s =
    bindE (bindE (chunk (xmem (snd s)) (idx (cacheable_base rng)) (8 * k)) (\<lambda>reads.
      slide_loop call (accesstype (fst s)) k (idx (cacheable_base rng)) reads 0 n s)) (\<lambda>s.
    bindE (check_required (fst s)) (\<lambda>_. Inr s))"
  using assms(2) unfolding access_ok_def
  by (elim disjE)
    (simp_all add: assms(1,3,4) xnu_pf_apply_def xnu_pf_apply_8_def xnu_pf_apply_16_def xnu_pf_apply_32_def
      xnu_pf_apply_64_def apply_width_def Let_def access_defs pf_width_def pf_iters_def)

lemma scan_direct:
  assumes "jit_matcher (fst s) = None" and "access_ok (accesstype (fst s))"
    and "k = pf_width (accesstype (fst s))" and "n = pf_iters (accesstype (fst s)) (pf_size rng)"
    and "base = idx (cacheable_base rng)"
    and "window_safe k call" and "base + (n + 8) * k \<le> length (xmem (snd s))" and "n + 8 < 2 ^ 32"
  shows "xnu_pf_apply jit call rng s =
    bindE (direct_loop call (accesstype (fst s)) k base 0 n s) (\<lambda>s. bindE (check_required (fst s)) (\<lambda>_. Inr s))"
proof -
  have "base + 8 * k \<le> length (xmem (snd s))" using assms(7) by (simp add: algebra_simps)
  then have "chunk (xmem (snd s)) base (8 * k) = Inr (take (8 * k) (drop base (xmem (snd s))))" by (simp add: chunk_def)
  moreover have "slide_loop call (accesstype (fst s)) k base (take (8 * k) (drop base (xmem (snd s)))) 0 n s
      = direct_loop call (accesstype (fst s)) k base 0 n s"
    by (rule slide_direct) (use assms(6-8) in simp_all)
  ultimately show ?thesis by (simp add: xnu_pf_apply_slide [OF assms(1-4)] flip: assms(5))
qed

text \<open>C25 The window the scan carries along is what the memory holds at each position: without a JIT
  matcher, for every access width, every patch set and every callback that leaves the seven
  elements after its position alone, and a range with eight mapped elements behind it, running
  the patch set is the same - errors and panics included - as reading the eight elements afresh
  at every position and trying the patches on them.\<close>

theorem xnu_pf_apply_direct:
  assumes "jit_matcher (fst s) = None" and "access_ok (accesstype (fst s))"
    and "k = pf_width (accesstype (fst s))" and "n = pf_iters (accesstype (fst s)) (pf_size rng)"
    and "base = idx (cacheable_base rng)"
    and "window_safe k call" and "base + (n + 8) * k \<le> length (xmem (snd s))" and "n + 8 < 2 ^ 32"
  shows "xnu_pf_apply jit call rng s =
    bindE (direct_loop call (accesstype (fst s)) k base 0 n s) (\<lambda>s. bindE (check_required (fst s)) (\<lambda>_. Inr s))"
  using assms by (rule scan_direct)

section \<open>The end of the range\<close>

lemma match_at_no_patches [simp]: "patch_head (fst s) = [] \<Longrightarrow> match_at call access reads p s = Inr s"
  by (simp add: match_at_def)

lemma slide_loop_no_patches:
  assumes "patch_head (fst s) = []" and "0 < k" and "index + n + 8 < 2 ^ 32" and "base + (index + 8) * k \<le> length (xmem (snd s))"
  shows "slide_loop call access k base reads index n s =
    (if base + (index + n + 8) * k \<le> length (xmem (snd s)) then Inr s else Inl BadAccess)"
  using assms(3,4)
proof (induction n arbitrary: index reads)
  case (Suc n)
  have i: "unat (of_nat index + 8 :: u32) = index + 8" using Suc.prems by (simp add: index_plus_8)
  show ?case
  proof (cases "base + (index + 1 + 8) * k \<le> length (xmem (snd s))")
    case True
    then have "chunk (xmem (snd s)) (base + (index + 8) * k) k = Inr (take k (drop (base + (index + 8) * k) (xmem (snd s))))"
      by (simp add: chunk_def algebra_simps)
    then show ?thesis using Suc.IH [of "index + 1"] Suc.prems True assms(1) i by simp
  next
    case False
    then have "chunk (xmem (snd s)) (base + (index + 8) * k) k = Inl BadAccess" by (simp add: chunk_def algebra_simps)
    moreover have "\<not> base + (index + Suc n + 8) * k \<le> length (xmem (snd s))"
      using False by (simp add: algebra_simps)
    ultimately show ?thesis using assms(1) i by simp
  qed
qed simp

text \<open>The scan with 64-bit accesses runs past its range: with eight elements mapped behind a range
  of \<open>sz\<close> bytes, which is all the scans with 8, 16 and 32-bit accesses ever read, it leaves the
  mapped memory, for every range of at least four bytes, because it counts its positions as if
  they were four bytes wide.\<close>

theorem xnu_pf_apply_64_overruns:
  assumes "jit_matcher (fst s) = None" and "access_ok (accesstype (fst s))" and "patch_head (fst s) = []"
    and "sz = unat (pf_size rng)" and "4 \<le> sz" and "sz + 8 < 2 ^ 32"
    and "length (xmem (snd s)) = idx (cacheable_base rng) + sz + 8 * pf_width (accesstype (fst s))"
  shows "xnu_pf_apply jit call rng s = (if accesstype (fst s) = XNU_PF_ACCESS_64BIT then Inl BadAccess else Inr s)"
proof -
  let ?a = "accesstype (fst s)" and ?base = "idx (cacheable_base rng)"
  let ?k = "pf_width ?a" and ?n = "pf_iters ?a (pf_size rng)"
  have n: "?n = sz div (if ?a = XNU_PF_ACCESS_8BIT then 1 else if ?a = XNU_PF_ACCESS_16BIT then 2 else 4)"
  proof -
    have "unat (ucast w :: u32) = unat w" if "unat w \<le> sz" for w :: u64
      using that assms(6) by (simp only: unsigned_ucast_eq) (simp add: take_bit_nat_eq_self)
    moreover have "unat (drop_bit i (pf_size rng)) = sz div 2 ^ i" for i
      unfolding unat_drop_bit_eq assms(4) by (simp only: drop_bit_eq_div)
    ultimately show ?thesis using assms(4) by (simp add: pf_iters_def access_defs)
  qed
  have k: "?k = (if ?a = XNU_PF_ACCESS_8BIT then 1 else if ?a = XNU_PF_ACCESS_16BIT then 2 else
      if ?a = XNU_PF_ACCESS_32BIT then 4 else 8)"
    using assms(2) by (auto simp: pf_width_def access_ok_def access_defs)
  have "chunk (xmem (snd s)) ?base (8 * ?k) = Inr (take (8 * ?k) (drop ?base (xmem (snd s))))"
    using assms(7) by (simp add: chunk_def)
  moreover have "slide_loop call ?a ?k ?base reads 0 ?n s = (if ?base + (?n + 8) * ?k \<le> length (xmem (snd s)) then Inr s else Inl BadAccess)" for reads
  proof -
    have "0 < ?k" unfolding k by simp
    moreover have "?n \<le> sz" unfolding n by simp
    ultimately show ?thesis using slide_loop_no_patches [OF assms(3), of ?k 0 ?n ?base] assms(6,7) by simp
  qed
  moreover have "?n * ?k \<le> sz \<longleftrightarrow> ?a \<noteq> XNU_PF_ACCESS_64BIT"
  proof -
    have "\<not> sz div 4 * 8 \<le> sz" using assms(5) by presburger
    then show ?thesis using assms(2) n k by (auto simp: access_ok_def access_defs)
  qed
  ultimately show ?thesis
    using assms(3,7) by (simp add: xnu_pf_apply_slide [OF assms(1,2) refl refl] check_required_def algebra_simps)
qed


section \<open>The positions found\<close>

text \<open>
  A module that writes down where its callback was called and counts every call as a success.
\<close>

definition log_call :: "(nat \<times> nat) list pf_call" where
  "log_call cb j p s = Inr (True, (fst s, (snd s)\<lparr>client := client (snd s) @ [(j, p)]\<rparr>))"

definition pattern_at :: "bytes \<Rightarrow> nat \<Rightarrow> nat \<Rightarrow> (u64 \<times> u64) list \<Rightarrow> bool" where
  "pattern_at m k p pairs =
     list_all (\<lambda>i. le_val (take k (drop (p + i * k) m)) AND snd (pairs ! i) = fst (pairs ! i)) [0..<length pairs]"

definition hits_at :: "bytes \<Rightarrow> nat \<Rightarrow> xnu_pf_patch list \<Rightarrow> nat \<Rightarrow> (nat \<times> nat) list" where
  "hits_at m k patches p =
     map (\<lambda>j. (j, p)) (filter (\<lambda>j. should_match (patches ! j) \<and>
       (case pf_match (patches ! j) of Maskmatch pairs \<Rightarrow> pattern_at m k p pairs | PtrToData _ _ _ \<Rightarrow> False)) [0..<length patches])"

definition hits :: "bytes \<Rightarrow> nat \<Rightarrow> xnu_pf_patch list \<Rightarrow> nat \<Rightarrow> nat \<Rightarrow> (nat \<times> nat) list" where
  "hits m k patches base n = concat (map (\<lambda>i. hits_at m k patches (base + i * k)) [0..<n])"

definition mark_fired :: "nat set \<Rightarrow> xnu_pf_patch list \<Rightarrow> xnu_pf_patch list" where
  "mark_fired js patches = map (\<lambda>j. if j \<in> js then (patches ! j)\<lparr>has_fired := True\<rparr> else patches ! j) [0..<length patches]"

definition note_hits :: "(nat \<times> nat) list \<Rightarrow> (nat \<times> nat) list pf_state \<Rightarrow> (nat \<times> nat) list pf_state" where
  "note_hits hs s = ((fst s)\<lparr>patch_head := mark_fired (fst ` set hs) (patch_head (fst s))\<rparr>,
     (snd s)\<lparr>client := client (snd s) @ hs\<rparr>)"

lemma length_mark_fired [simp]: "length (mark_fired js patches) = length patches"
  by (simp add: mark_fired_def)

lemma nth_mark_fired [simp]:
  "j < length patches \<Longrightarrow> mark_fired js patches ! j = (if j \<in> js then (patches ! j)\<lparr>has_fired := True\<rparr> else patches ! j)"
  by (simp add: mark_fired_def)

lemma mark_fired_empty [simp]: "mark_fired {} patches = patches"
  by (rule nth_equalityI) simp_all

lemma mark_fired_twice: "mark_fired js (mark_fired is patches) = mark_fired (is \<union> js) patches"
  by (rule nth_equalityI) auto

lemma note_hits_Nil [simp]: "note_hits [] s = s"
  by (simp add: note_hits_def)

lemma note_hits_append: "note_hits ys (note_hits xs s) = note_hits (xs @ ys) s"
  by (simp add: note_hits_def mark_fired_twice image_Un)

lemma note_hits_simps [simp]:
  "xmem (snd (note_hits hs s)) = xmem (snd s)"
  "length (patch_head (fst (note_hits hs s))) = length (patch_head (fst s))"
  by (simp_all add: note_hits_def)

lemma note_hits_nth:
  "j < length (patch_head (fst s)) \<Longrightarrow> should_match (patch_head (fst (note_hits hs s)) ! j) = should_match (patch_head (fst s) ! j)"
  "j < length (patch_head (fst s)) \<Longrightarrow> pf_match (patch_head (fst (note_hits hs s)) ! j) = pf_match (patch_head (fst s) ! j)"
  by (simp_all add: note_hits_def)

lemma hits_at_note_hits [simp]: "hits_at m k (patch_head (fst (note_hits hs s))) p = hits_at m k (patch_head (fst s)) p"
  unfolding hits_at_def by (rule arg_cong [where f = "map _"], rule filter_cong) (simp_all add: note_hits_nth)

lemma mark_fired_one: "j < length patches \<Longrightarrow> mark_fired {j} patches = patches[j := (patches ! j)\<lparr>has_fired := True\<rparr>]"
  by (rule nth_equalityI) (auto simp: nth_list_update)

lemma fire_log:
  "j < length (patch_head (fst s)) \<Longrightarrow> fire log_call patch j p s = Inr (note_hits [(j, p)] s)"
  by (cases s) (auto simp: fire_def log_call_def set_fired_def note_hits_def Let_def mark_fired_one)

lemma match_pairs_memory:
  "p + (i + length pairs) * k \<le> length m \<Longrightarrow>
   match_pairs k m p i pairs =
     Inr (list_all (\<lambda>d. le_val (take k (drop (p + (i + d) * k) m)) AND snd (pairs ! d) = fst (pairs ! d)) [0..<length pairs])"
proof (induction pairs arbitrary: i)
  case (Cons pr prs)
  have c: "chunk m (p + i * k) k = Inr (take k (drop (p + i * k) m))"
    using Cons.prems by (simp add: chunk_def algebra_simps)
  have up: "list_all P [0..<Suc n] = (P 0 \<and> list_all (\<lambda>d. P (Suc d)) [0..<n])" for P and n :: nat
    by (simp add: upt_conv_Cons list_all_iff del: upt_Suc flip: image_Suc_atLeastLessThan)
  then show ?case using Cons c by (simp add: rd_elem_def up algebra_simps del: upt_Suc)
qed simp

lemma match_pairs_window:
  assumes "p + 8 * k \<le> length m" and "length pairs < 8"
  shows "match_pairs k (take (8 * k) (drop p m)) 0 0 pairs = match_pairs k m p 0 pairs"
proof -
  have e: "take k (drop (d * k) (take (8 * k) (drop p m))) = take k (drop (p + d * k) m)" if "d < length pairs" for d
  proof -
    have "1 * k \<le> (8 - d) * k" by (rule mult_right_mono) (use that assms(2) in simp_all)
    then have "k \<le> 8 * k - d * k" by (simp add: diff_mult_distrib)
    then show ?thesis by (simp add: drop_take min_absorb1 add.commute)
  qed
  have l: "length pairs * k \<le> 8 * k" using assms(2) by (intro mult_right_mono) simp_all
  have "list_all (\<lambda>d. le_val (take k (drop (0 + (0 + d) * k) (take (8 * k) (drop p m)))) AND snd (pairs ! d) = fst (pairs ! d)) [0..<length pairs]
      = list_all (\<lambda>d. le_val (take k (drop (p + (0 + d) * k) m)) AND snd (pairs ! d) = fst (pairs ! d)) [0..<length pairs]"
    by (rule list.pred_cong) (simp_all add: e)
  moreover have "p + (0 + length pairs) * k \<le> length m" using assms(1) l unfolding add_0 by linarith
  moreover have "0 + (0 + length pairs) * k \<le> length (take (8 * k) (drop p m))" using assms(1) l unfolding add_0 by simp
  ultimately show ?thesis by (simp only: match_pairs_memory)
qed

lemma match_width_at:
  assumes "p + 8 * k \<le> length m" and "p + length pairs * k \<le> length m"
  shows "match_width k pairs (take (8 * k) (drop p m)) m p = Inr (pattern_at m k p pairs)"
proof -
  have "match_pairs k m p 0 pairs = Inr (pattern_at m k p pairs)"
    using match_pairs_memory [of p 0 pairs k m] assms(2) by (simp add: pattern_at_def)
  then show ?thesis using match_pairs_window [OF assms(1)] by (simp add: match_width_def)
qed


text \<open>What a patch needs: a pattern whose elements are mapped wherever the scan looks.\<close>

definition patterns_fit :: "bytes \<Rightarrow> nat \<Rightarrow> xnu_pf_patch list \<Rightarrow> nat \<Rightarrow> nat \<Rightarrow> bool" where
  "patterns_fit m k patches base n \<longleftrightarrow> base + (n + 8) * k \<le> length m \<and>
     list_all (\<lambda>p. case pf_match p of
         Maskmatch pairs \<Rightarrow> base + (n + length pairs) * k \<le> length m
       | PtrToData _ _ _ \<Rightarrow> False) patches"

lemma patterns_fitD:
  "patterns_fit m k patches base n \<Longrightarrow> q \<in> set patches \<Longrightarrow>
   \<exists>pairs. pf_match q = Maskmatch pairs \<and> base + (n + length pairs) * k \<le> length m"
  by (cases "pf_match q") (auto simp: patterns_fit_def list_all_iff)

lemma maskmatch_match_width:
  "access_ok a \<Longrightarrow> xnu_pf_maskmatch_match call patch pairs j a reads p s =
    bindE (match_width (pf_width a) pairs reads (xmem (snd s)) p) (\<lambda>val. if val then fire call patch j p s else Inr s)"
  unfolding access_ok_def
  by (elim disjE)
    (simp_all add: xnu_pf_maskmatch_match_def xnu_pf_maskmatch_match_8_def xnu_pf_maskmatch_match_16_def
      xnu_pf_maskmatch_match_32_def xnu_pf_maskmatch_match_64_def pf_width_def access_defs)

lemma match_patches_log:
  assumes a: "access_ok a" "k = pf_width a"
    and fit: "p + 8 * k \<le> length (xmem (snd s))"
      "\<And>j. j \<in> set js \<Longrightarrow> j < length (patch_head (fst s)) \<and>
         (\<exists>pairs. pf_match (patch_head (fst s) ! j) = Maskmatch pairs \<and> p + length pairs * k \<le> length (xmem (snd s)))"
  shows "match_patches log_call a (take (8 * k) (drop p (xmem (snd s)))) p js s =
    Inr (note_hits (map (\<lambda>j. (j, p)) (filter (\<lambda>j. should_match (patch_head (fst s) ! j) \<and>
       (case pf_match (patch_head (fst s) ! j) of Maskmatch pairs \<Rightarrow> pattern_at (xmem (snd s)) k p pairs
        | PtrToData _ _ _ \<Rightarrow> False)) js)) s)"
  using fit
proof (induction js arbitrary: s)
  case (Cons j js)
  from Cons.prems(2) [of j] obtain pairs where j: "j < length (patch_head (fst s))"
    and m: "pf_match (patch_head (fst s) ! j) = Maskmatch pairs" "p + length pairs * k \<le> length (xmem (snd s))" by auto
  have w: "match_width k pairs (take (8 * k) (drop p (xmem (snd s)))) (xmem (snd s)) p = Inr (pattern_at (xmem (snd s)) k p pairs)"
    by (rule match_width_at [OF Cons.prems(1) m(2)])
  let ?hit = "should_match (patch_head (fst s) ! j) \<and> pattern_at (xmem (snd s)) k p pairs"
  let ?s1 = "note_hits (if ?hit then [(j, p)] else []) s"
  have one: "match_patch log_call a (take (8 * k) (drop p (xmem (snd s)))) p j s = Inr ?s1"
    using j m w by (simp add: match_patch_def maskmatch_match_width [OF a(1)] fire_log Let_def flip: a(2))
  have "match_patches log_call a (take (8 * k) (drop p (xmem (snd ?s1)))) p js ?s1 =
    Inr (note_hits (map (\<lambda>j. (j, p)) (filter (\<lambda>j. should_match (patch_head (fst ?s1) ! j) \<and>
       (case pf_match (patch_head (fst ?s1) ! j) of Maskmatch pairs \<Rightarrow> pattern_at (xmem (snd ?s1)) k p pairs
        | PtrToData _ _ _ \<Rightarrow> False)) js)) ?s1)"
    by (rule Cons.IH) (use Cons.prems in \<open>auto simp: note_hits_nth\<close>)
  moreover have "filter (\<lambda>j. should_match (patch_head (fst ?s1) ! j) \<and>
       (case pf_match (patch_head (fst ?s1) ! j) of Maskmatch pairs \<Rightarrow> pattern_at (xmem (snd ?s1)) k p pairs
        | PtrToData _ _ _ \<Rightarrow> False)) js = filter (\<lambda>j. should_match (patch_head (fst s) ! j) \<and>
       (case pf_match (patch_head (fst s) ! j) of Maskmatch pairs \<Rightarrow> pattern_at (xmem (snd s)) k p pairs
        | PtrToData _ _ _ \<Rightarrow> False)) js"
    by (rule filter_cong) (use Cons.prems(2) in \<open>auto simp: note_hits_nth split: pf_matcher.splits\<close>)
  ultimately show ?case using one m by (simp add: note_hits_append)
qed simp

lemma match_at_log:
  assumes "access_ok a" and "k = pf_width a" and "p + 8 * k \<le> length (xmem (snd s))"
    and "\<And>q. q \<in> set (patch_head (fst s)) \<Longrightarrow> \<exists>pairs. pf_match q = Maskmatch pairs \<and> p + length pairs * k \<le> length (xmem (snd s))"
  shows "match_at log_call a (take (8 * k) (drop p (xmem (snd s)))) p s
    = Inr (note_hits (hits_at (xmem (snd s)) k (patch_head (fst s)) p) s)"
  unfolding match_at_def hits_at_def
  by (rule match_patches_log [OF assms(1-3)]) (use assms(4) in auto)

lemma direct_loop_log:
  assumes a: "access_ok a" "k = pf_width a" and "patterns_fit (xmem (snd s)) k (patch_head (fst s)) base (index + n)"
  shows "direct_loop log_call a k base index n s =
    Inr (note_hits (concat (map (\<lambda>i. hits_at (xmem (snd s)) k (patch_head (fst s)) (base + i * k)) [index..<index + n])) s)"
  using assms(3)
proof (induction n arbitrary: index s)
  case (Suc n)
  let ?m = "xmem (snd s)" and ?p = "base + index * k"
  have fit: "base + (index + Suc n + 8) * k \<le> length ?m"
    "\<And>q. q \<in> set (patch_head (fst s)) \<Longrightarrow> \<exists>pairs. pf_match q = Maskmatch pairs \<and> base + (index + Suc n + length pairs) * k \<le> length ?m"
    using Suc.prems patterns_fitD [OF Suc.prems] by (simp_all add: patterns_fit_def)
  have p8: "?p + 8 * k \<le> length ?m" using fit(1) by (simp add: algebra_simps)
  let ?s1 = "note_hits (hits_at ?m k (patch_head (fst s)) ?p) s"
  have one: "match_at log_call a (take (8 * k) (drop ?p ?m)) ?p s = Inr ?s1"
  proof (rule match_at_log [OF a p8])
    fix q assume "q \<in> set (patch_head (fst s))"
    from fit(2) [OF this] show "\<exists>pairs. pf_match q = Maskmatch pairs \<and> ?p + length pairs * k \<le> length ?m"
      by (fastforce simp: algebra_simps)
  qed
  have "patterns_fit (xmem (snd ?s1)) k (patch_head (fst ?s1)) base (Suc index + n)"
    using Suc.prems by (auto simp: patterns_fit_def list_all_length note_hits_nth)
  from Suc.IH [OF this] have "direct_loop log_call a k base (Suc index) n ?s1 = Inr (note_hits
      (concat (map (\<lambda>i. hits_at ?m k (patch_head (fst s)) (base + i * k)) [Suc index..<Suc index + n])) ?s1)"
    by simp
  moreover have "[index..<index + Suc n] = index # [Suc index..<Suc index + n]" by (simp add: upt_conv_Cons)
  moreover have "chunk ?m ?p (8 * k) = Inr (take (8 * k) (drop ?p ?m))" using p8 by (simp add: chunk_def)
  ultimately show ?case using one by (simp add: note_hits_append)
qed simp

lemma log_window_safe: "window_safe k log_call"
  by (auto simp: window_safe_def log_call_def)


lemma scan_log:
  assumes "jit_matcher (fst s) = None" and "access_ok (accesstype (fst s))"
    and "k = pf_width (accesstype (fst s))" and "n = pf_iters (accesstype (fst s)) (pf_size rng)"
    and "base = idx (cacheable_base rng)" and "n + 8 < 2 ^ 32"
    and "patterns_fit (xmem (snd s)) k (patch_head (fst s)) base n"
  shows "xnu_pf_apply jit log_call rng s =
    (let s' = note_hits (hits (xmem (snd s)) k (patch_head (fst s)) base n) s
     in bindE (check_required (fst s')) (\<lambda>_. Inr s'))"
proof -
  have "base + (n + 8) * k \<le> length (xmem (snd s))" using assms(7) by (simp add: patterns_fit_def)
  from scan_direct [OF assms(1-5) log_window_safe this assms(6)] show ?thesis
    using direct_loop_log [of "accesstype (fst s)" k s base 0 n] assms(2,3,7) by (simp add: hits_def Let_def)
qed

text \<open>C24 The patch finder finds exactly the places its patterns describe: for a patch set of mask
  patterns, run without a JIT matcher over a range behind which as many elements are mapped as the
  window and the longest pattern need, the callbacks are called once for every position of the
  range and every enabled patch whose pattern matches the memory there, in the order of the
  positions and at one position in the order of the patches, and for nothing else; the patches
  called are marked as fired, and the kernel is patched successfully unless a required patch was
  neither found now nor before.\<close>

theorem xnu_pf_apply_hits:
  assumes "jit_matcher (fst s) = None" and "access_ok (accesstype (fst s))"
    and "k = pf_width (accesstype (fst s))" and "n = pf_iters (accesstype (fst s)) (pf_size rng)"
    and "base = idx (cacheable_base rng)" and "n + 8 < 2 ^ 32"
    and "patterns_fit (xmem (snd s)) k (patch_head (fst s)) base n"
  shows "xnu_pf_apply jit log_call rng s =
    (let s' = note_hits (hits (xmem (snd s)) k (patch_head (fst s)) base n) s
     in bindE (check_required (fst s')) (\<lambda>_. Inr s'))"
  using assms by (rule scan_log)

lemma missing_patch_iff: "missing_patch ps = None \<longleftrightarrow> (\<forall>p \<in> set ps. patch_required p \<longrightarrow> has_fired p)"
  by (induction ps rule: missing_patch.induct) auto

lemma check_required_iff:
  "check_required ps = Inr u \<longleftrightarrow> (is_required ps \<longrightarrow> (\<forall>p \<in> set (patch_head ps). patch_required p \<longrightarrow> has_fired p))"
  by (auto simp: check_required_def missing_patch_iff [symmetric] split: option.splits)

definition found_in :: "bytes \<Rightarrow> nat \<Rightarrow> nat \<Rightarrow> nat \<Rightarrow> xnu_pf_patch \<Rightarrow> bool" where
  "found_in m k base n q \<longleftrightarrow> should_match q \<and>
     (case pf_match q of Maskmatch pairs \<Rightarrow> list_ex (\<lambda>i. pattern_at m k (base + i * k) pairs) [0..<n] | PtrToData _ _ _ \<Rightarrow> False)"

lemma hit_iff:
  "j \<in> fst ` set (hits m k patches base n) \<longleftrightarrow> j < length patches \<and> found_in m k base n (patches ! j)"
  by (cases "pf_match (patches ! j)")
    (force simp: hits_def hits_at_def found_in_def list_ex_iff image_iff)+

text \<open>A required patch that is not found stops the boot, and nothing else does: under the same
  conditions running a required patch set returns if every required patch has fired before or is
  enabled and its pattern matches somewhere in the range, and otherwise panics naming the patch.\<close>

theorem xnu_pf_apply_required:
  assumes "jit_matcher (fst s) = None" and "access_ok (accesstype (fst s))"
    and "k = pf_width (accesstype (fst s))" and "n = pf_iters (accesstype (fst s)) (pf_size rng)"
    and "base = idx (cacheable_base rng)" and "n + 8 < 2 ^ 32"
    and "patterns_fit (xmem (snd s)) k (patch_head (fst s)) base n"
    and "is_required (fst s)"
  shows "if \<forall>q \<in> set (patch_head (fst s)). patch_required q \<longrightarrow> has_fired q \<or> found_in (xmem (snd s)) k base n q
    then \<exists>s'. xnu_pf_apply jit log_call rng s = Inr s'
    else \<exists>name. xnu_pf_apply jit log_call rng s = Inl (Panic (''Missing patch: '' @ name))"
proof -
  let ?ps = "patch_head (fst s)" and ?s' = "note_hits (hits (xmem (snd s)) k (patch_head (fst s)) base n) s"
  have "missing_patch (patch_head (fst ?s')) = None \<longleftrightarrow>
      (\<forall>j < length ?ps. patch_required (?ps ! j) \<longrightarrow> has_fired (?ps ! j) \<or> found_in (xmem (snd s)) k base n (?ps ! j))"
    by (auto simp: missing_patch_iff note_hits_def all_set_conv_all_nth hit_iff)
  also have "\<dots> \<longleftrightarrow> (\<forall>q \<in> set ?ps. patch_required q \<longrightarrow> has_fired q \<or> found_in (xmem (snd s)) k base n q)"
    by (auto simp: all_set_conv_all_nth)
  finally have m: "missing_patch (patch_head (fst ?s')) = None \<longleftrightarrow> \<dots>" .
  have r: "is_required (fst ?s')" using assms(8) by (simp add: note_hits_def)
  show ?thesis
  proof (cases "missing_patch (patch_head (fst ?s'))")
    case None
    then show ?thesis using m r by (simp add: scan_log [OF assms(1-7)] Let_def check_required_def)
  next
    case (Some name)
    then have "\<not> (\<forall>q \<in> set ?ps. patch_required q \<longrightarrow> has_fired q \<or> found_in (xmem (snd s)) k base n q)" using m by simp
    then show ?thesis using Some r
      by (simp only: if_False) (simp add: scan_log [OF assms(1-7)] Let_def check_required_def)
  qed
qed


section \<open>A sample\<close>

definition sample_set :: "u8 \<Rightarrow> xnu_pf_patch list \<Rightarrow> xnu_pf_patchset" where
  "sample_set access patches = \<lparr>patch_head = patches, jit_matcher = None, p0 = 0, accesstype = access, is_required = True\<rparr>"

definition sample_finder :: xnu_pf_patch where
  "sample_finder = \<lparr>pf_callback = 0, patch_required = True, has_fired = False, should_match = True,
     pfjit_stolen_opcode = 0, pfjit_max_emit_size = 176, pfjit_entry = None, pfjit_exit = 0,
     patch_name = ''sample'', pf_match = Maskmatch [(0x12, 0xff)]\<rparr>"

definition sample_kernel :: "nat \<Rightarrow> (nat \<times> nat) list xnu" where
  "sample_kernel n = \<lparr>xmem = [0x11, 0, 0, 0, 0x12, 0, 0, 0] @ replicate n 0, virtBase = 0, physBase = 0, gEntryPoint = 0,
     xnu_header_cached = None, rebase_status = - 1, jit_code = [], client = []\<rparr>"

definition sample_range :: xnu_pf_range where
  "sample_range = \<lparr>pf_va = 0, pf_size = 8, cacheable_base = kCacheableView, device_base = 0x800000000\<rparr>"

lemmas sample_defs = sample_set_def sample_finder_def sample_kernel_def sample_range_def

definition sample_state :: "(nat \<times> nat) list pf_state" where
  "sample_state = (sample_set XNU_PF_ACCESS_32BIT [sample_finder], sample_kernel 32)"

definition sample_state64 :: "(nat \<times> nat) list pf_state" where
  "sample_state64 = (sample_set XNU_PF_ACCESS_64BIT [], sample_kernel 64)"

definition sample_missing :: "(nat \<times> nat) list pf_state" where
  "sample_missing = (sample_set XNU_PF_ACCESS_32BIT [sample_finder\<lparr>pf_match := Maskmatch [(0x13, 0xff)]\<rparr>], sample_kernel 32)"

lemma two_bound: "(2 :: nat) + 8 < 2 ^ 32" by simp

lemma sample_state_facts:
  "jit_matcher (fst sample_state) = None"
  "access_ok (accesstype (fst sample_state))"
  "4 = pf_width (accesstype (fst sample_state))"
  "2 = pf_iters (accesstype (fst sample_state)) (pf_size sample_range)"
  "0 = idx (cacheable_base sample_range)"
  "0 + (2 + 8) * 4 \<le> length (xmem (snd sample_state))"
  "patterns_fit (xmem (snd sample_state)) 4 (patch_head (fst sample_state)) 0 2"
  by code_simp+

lemma sample_state64_facts:
  "jit_matcher (fst sample_state64) = None"
  "access_ok (accesstype (fst sample_state64))"
  "patch_head (fst sample_state64) = []"
  "8 = unat (pf_size sample_range)"
  "length (xmem (snd sample_state64)) = idx (cacheable_base sample_range) + 8 + 8 * pf_width (accesstype (fst sample_state64))"
  by code_simp+

lemma sample_missing_facts:
  "jit_matcher (fst sample_missing) = None"
  "access_ok (accesstype (fst sample_missing))"
  "4 = pf_width (accesstype (fst sample_missing))"
  "2 = pf_iters (accesstype (fst sample_missing)) (pf_size sample_range)"
  "0 = idx (cacheable_base sample_range)"
  "patterns_fit (xmem (snd sample_missing)) 4 (patch_head (fst sample_missing)) 0 2"
  "is_required (fst sample_missing)"
  by code_simp+

theorem xnu_pf_apply_direct_witness:
  "xnu_pf_apply (\<lambda>s _ _. Inr s) log_call sample_range sample_state =
    bindE (direct_loop log_call (accesstype (fst sample_state)) 4 0 0 2 sample_state)
      (\<lambda>s. bindE (check_required (fst s)) (\<lambda>_. Inr s))"
  by (rule xnu_pf_apply_direct [OF sample_state_facts(1-5) log_window_safe sample_state_facts(6) two_bound])

theorem xnu_pf_apply_64_overruns_witness:
  "xnu_pf_apply (\<lambda>s _ _. Inr s) log_call sample_range sample_state64
    = (if accesstype (fst sample_state64) = XNU_PF_ACCESS_64BIT then Inl BadAccess else Inr sample_state64)"
  by (rule xnu_pf_apply_64_overruns [OF sample_state64_facts(1-4) _ _ sample_state64_facts(5)]) simp_all

theorem xnu_pf_apply_hits_witness:
  "xnu_pf_apply (\<lambda>s _ _. Inr s) log_call sample_range sample_state = Inr (note_hits [(0, 4)] sample_state)"
proof -
  have "xnu_pf_apply (\<lambda>s _ _. Inr s) log_call sample_range sample_state =
    (let s' = note_hits (hits (xmem (snd sample_state)) 4 (patch_head (fst sample_state)) 0 2) sample_state
     in bindE (check_required (fst s')) (\<lambda>_. Inr s'))"
    by (rule xnu_pf_apply_hits [OF sample_state_facts(1-5) two_bound sample_state_facts(7)])
  moreover have "hits (xmem (snd sample_state)) 4 (patch_head (fst sample_state)) 0 2 = [(0, 4)]" by code_simp
  moreover have "check_required (fst (note_hits [(0, 4)] sample_state)) = Inr ()" by code_simp
  ultimately show ?thesis by (simp only: Let_def bindE_simps)
qed

theorem xnu_pf_apply_required_witness:
  "\<exists>name. xnu_pf_apply (\<lambda>s _ _. Inr s) log_call sample_range sample_missing = Inl (Panic (''Missing patch: '' @ name))"
proof -
  have "if \<forall>q \<in> set (patch_head (fst sample_missing)). patch_required q \<longrightarrow> has_fired q \<or> found_in (xmem (snd sample_missing)) 4 0 2 q
    then \<exists>s'. xnu_pf_apply (\<lambda>s _ _. Inr s) log_call sample_range sample_missing = Inr s'
    else \<exists>name. xnu_pf_apply (\<lambda>s _ _. Inr s) log_call sample_range sample_missing = Inl (Panic (''Missing patch: '' @ name))"
    by (rule xnu_pf_apply_required [OF sample_missing_facts(1-5) two_bound sample_missing_facts(6,7)])
  moreover have "\<not> (\<forall>q \<in> set (patch_head (fst sample_missing)). patch_required q \<longrightarrow> has_fired q \<or> found_in (xmem (snd sample_missing)) 4 0 2 q)"
    by code_simp
  ultimately show ?thesis by (simp only: if_False)
qed

end
