(* ===== verification/Modload.thy ===== *)
theory Modload
  imports Vmacho
begin

unbundle bit_operations_syntax

text \<open>
  The module loader: the tables of exported symbols (\<open>src/src/dynamic/modload.c\<close>) and loading and
  linking a Mach-O module (\<open>src/src/dynamic/modload_macho.c\<close>). The tables form a chain: the value of
  a table's last, nameless entry is the address of the next table. A table is kept under its
  address as its entries and that value; the table of a module is read from its image when it is
  linked in. The file is the list of bytes received; the module's memory is one list of bytes, seen
  by the code both through the pages allocated for it and at its virtual address. What the
  page allocator and the kernel's address allocator return are parameters, as is what the stack
  holds in the variable \<open>entrypoint\<close>, which the code does not initialise.
\<close>

section \<open>Symbols\<close>

type_synonym export_table = "(bytes \<times> u64) list \<times> u64"

primrec find_export :: "(bytes \<times> u64) list \<Rightarrow> bytes \<Rightarrow> u64 option" where
  "find_export [] name = None"
| "find_export (e # es) name = (if fst e = name then Some (snd e) else find_export es name)"

primrec resolve_symbol :: "nat \<Rightarrow> (u64 \<rightharpoonup> export_table) \<Rightarrow> u64 \<Rightarrow> bytes \<Rightarrow> error + u64" where
  "resolve_symbol 0 tables api name = Inl OutOfFuel"
| "resolve_symbol (Suc n) tables api name =
     (case tables api of
        None \<Rightarrow> Inl BadAccess
      | Some (es, nxt) \<Rightarrow>
          (case find_export es name of
             Some v \<Rightarrow> Inr v
           | None \<Rightarrow> if nxt \<noteq> 0 then resolve_symbol n tables nxt name else Inr 0))"

primrec link_exports :: "nat \<Rightarrow> (u64 \<rightharpoonup> export_table) \<Rightarrow> u64 \<Rightarrow> u64 \<Rightarrow> error + (u64 \<rightharpoonup> export_table)" where
  "link_exports 0 tables api export = Inl OutOfFuel"
| "link_exports (Suc n) tables api export =
     (case tables api of
        None \<Rightarrow> Inl BadAccess
      | Some (es, nxt) \<Rightarrow>
          if nxt \<noteq> 0 then link_exports n tables nxt export else Inr (tables(api \<mapsto> (es, export))))"

section \<open>State\<close>

record module_segment =
  seg_name :: bytes
  seg_vm_addr :: u64
  seg_vm_size :: u64
  seg_prot :: u32

record module_info =
  mod_name :: bytes
  mod_exports :: u64
  mod_vm_base :: u64
  mod_vm_end :: u64
  mod_segments :: "module_segment list"

record loader =
  recv_data :: bytes
  recv_count :: u32
  tables :: "u64 \<rightharpoonup> export_table"
  public_api :: u64
  modules :: "module_info list"
  module_memory :: "u64 \<rightharpoonup> bytes"
  mapped_pages :: "(u64 \<times> nat \<times> u32) list"
  started :: "u64 list"

definition pongo_module_create :: "module_info \<Rightarrow> loader \<Rightarrow> loader" where
  "pongo_module_create m l = l\<lparr>modules := m # modules l\<rparr>"

section \<open>The load commands\<close>

definition LC_SYMTAB :: u32 where "LC_SYMTAB = 0x2"
definition LC_DYSYMTAB :: u32 where "LC_DYSYMTAB = 0xb"
definition MH_KEXT_BUNDLE :: u32 where "MH_KEXT_BUNDLE = 0xb"

record mod_scan =
  sc_segments :: u32
  sc_filesz :: u64
  sc_vmsz :: u64
  sc_base :: u64
  sc_symtab :: "nat option"
  sc_dysymtab :: "nat option"

primrec scan_commands :: "bytes \<Rightarrow> nat \<Rightarrow> nat \<Rightarrow> mod_scan \<Rightarrow> error + mod_scan" where
  "scan_commands m 0 lc c = Inr c"
| "scan_commands m (Suc n) lc c =
     bindE (rd32 m lc) (\<lambda>cmd.
     bindE (rd32 m (lc + 4)) (\<lambda>cmdsize.
     bindE (if cmd = LC_SEGMENT_64 then
              bindE (rd64 m (lc + 24)) (\<lambda>va. bindE (rd64 m (lc + 32)) (\<lambda>vs.
              bindE (rd64 m (lc + 40)) (\<lambda>fo. bindE (rd64 m (lc + 48)) (\<lambda>fs.
              let c = c\<lparr>sc_segments := sc_segments c + 1\<rparr>;
                  c = (if va < sc_base c then c\<lparr>sc_base := va\<rparr> else c);
                  c = (if fo + fs > sc_filesz c then c\<lparr>sc_filesz := fo + fs\<rparr> else c);
                  c = (if va + vs > sc_vmsz c then c\<lparr>sc_vmsz := va + vs\<rparr> else c)
              in Inr c))))
            else if cmd = LC_DYSYMTAB then Inr (c\<lparr>sc_dysymtab := Some lc\<rparr>)
            else if cmd = LC_SYMTAB then Inr (c\<lparr>sc_symtab := Some lc\<rparr>)
            else Inr c)
       (scan_commands m n (lc + unat cmdsize))))"

definition seg_prots :: "u32 \<Rightarrow> u32" where
  "seg_prots initprot =
     ((if initprot AND 1 \<noteq> 0 then 1 else 0) OR (if initprot AND 2 \<noteq> 0 then 2 else 0)
       OR (if initprot AND 4 \<noteq> 0 then 4 else 0))"

text \<open>The pages of one segment: virtual address, offset in the image, protection and \<open>PROT_KERN_ONLY\<close>.\<close>

definition segment_pages :: "u64 \<Rightarrow> u64 \<Rightarrow> u64 \<Rightarrow> u32 \<Rightarrow> (u64 \<times> nat \<times> u32) list" where
  "segment_pages vma_base off sz prots =
     map (\<lambda>i. (vma_base + of_nat (i * 0x4000) + off, i * 0x4000 + unat off, prots OR 8)) [0..<(unat sz + 0x3fff) div 0x4000]"

primrec place_segments ::
  "bytes \<Rightarrow> u64 \<Rightarrow> u64 \<Rightarrow> nat \<Rightarrow> nat \<Rightarrow> bytes \<times> module_segment list \<times> (u64 \<times> nat \<times> u32) list
   \<Rightarrow> error + (bytes \<times> module_segment list \<times> (u64 \<times> nat \<times> u32) list)" where
  "place_segments m base vma_base 0 lc s = Inr s"
| "place_segments m base vma_base (Suc n) lc s =
     bindE (rd32 m lc) (\<lambda>cmd.
     bindE (rd32 m (lc + 4)) (\<lambda>cmdsize.
     bindE (if cmd = LC_SEGMENT_64 then
              bindE (cstr (drop (lc + 8) m)) (\<lambda>name.
              bindE (rd64 m (lc + 24)) (\<lambda>va. bindE (rd64 m (lc + 32)) (\<lambda>vs.
              bindE (rd64 m (lc + 40)) (\<lambda>fo. bindE (rd64 m (lc + 48)) (\<lambda>fs.
              bindE (rd32 m (lc + 60)) (\<lambda>initprot.
              let (im, segs, pages) = s; off = va - base; prots = seg_prots initprot in
              bindE (blit im (unat off) (replicate (unat vs) 0)) (\<lambda>im.
              bindE (chunk m (unat fo) (unat fs)) (\<lambda>bs.
              bindE (blit im (unat off) bs) (\<lambda>im.
              Inr (im,
                   segs @ [\<lparr>seg_name = name, seg_vm_addr = va, seg_vm_size = vs, seg_prot = prots\<rparr>],
                   pages @ segment_pages vma_base off vs prots))))))))))
            else Inr s)
       (place_segments m base vma_base n (lc + unat cmdsize))))"

section \<open>Symbols of the module\<close>

text \<open>\<open>im\<close> is the module's memory, \<open>nl\<close> and \<open>str\<close> the offsets of the symbols and of their names.\<close>

primrec find_module_symbols ::
  "bytes \<Rightarrow> u64 \<Rightarrow> nat \<Rightarrow> nat \<Rightarrow> nat \<Rightarrow> u64 \<times> u64 \<times> u64 \<Rightarrow> error + (u64 \<times> u64 \<times> u64)" where
  "find_module_symbols im vma_base str 0 nl s = Inr s"
| "find_module_symbols im vma_base str (Suc k) nl s =
     bindE (rd32 im nl) (\<lambda>strx. bindE (rd64 im (nl + 8)) (\<lambda>n_value.
     let name = drop (str + unat strx) im; (entrypoint, modname, exports) = s in
     bindE (str_eq name (ascii ''_module_entry'')) (\<lambda>e1.
     bindE (str_eq name (ascii ''_module_name'')) (\<lambda>e2.
     bindE (str_eq name (ascii ''_exported_symbols'')) (\<lambda>e3.
     find_module_symbols im vma_base str k (nl + 16)
       (if e1 then n_value + vma_base else entrypoint,
        if e2 then n_value + vma_base else modname,
        if e3 \<and> exports = 0 then n_value + vma_base else exports))))))"

section \<open>Relocations\<close>

text \<open>What a relocation entry asks for: nothing, to give up, or to store a word at an offset.\<close>

datatype reloc_action = Skip | GiveUp | Patch nat u64

definition r_symbolnum :: "u32 \<Rightarrow> nat" where "r_symbolnum w = unat (w AND 0xffffff)"
definition r_length :: "u32 \<Rightarrow> u32" where "r_length w = drop_bit 25 w AND 3"
definition r_extern :: "u32 \<Rightarrow> bool" where "r_extern w = (drop_bit 27 w AND 1 \<noteq> 0)"

definition reloc_offset :: "u32 \<Rightarrow> nat" where "reloc_offset r_address = unat (scast r_address :: u64)"

definition extern_action ::
  "(bytes \<Rightarrow> error + u64) \<Rightarrow> bytes \<Rightarrow> nat \<Rightarrow> nat \<Rightarrow> bytes \<Rightarrow> nat \<Rightarrow> error + reloc_action" where
  "extern_action resolve file nl str im p =
     bindE (rd32 im p) (\<lambda>r_address. bindE (rd32 im (p + 4)) (\<lambda>w.
     if \<not> r_extern w \<or> r_length w \<noteq> 3 then Inr Skip
     else
       bindE (rd32 im (nl + 16 * r_symbolnum w)) (\<lambda>strx.
       bindE (cstr (drop (str + unat strx) file)) (\<lambda>name.
       bindE (resolve name) (\<lambda>v.
       if v = 0 then Inr GiveUp else Inr (Patch (reloc_offset r_address) v))))))"

definition local_action :: "u64 \<Rightarrow> u64 \<Rightarrow> bytes \<Rightarrow> nat \<Rightarrow> error + reloc_action" where
  "local_action base vma_base im p =
     bindE (rd32 im p) (\<lambda>r_address. bindE (rd32 im (p + 4)) (\<lambda>w.
     if r_extern w \<or> r_length w \<noteq> 3 then Inr Skip
     else
       bindE (rd64 im (reloc_offset r_address)) (\<lambda>v.
       Inr (Patch (reloc_offset r_address) (v - base + vma_base)))))"

definition do_action :: "reloc_action \<Rightarrow> bytes \<Rightarrow> error + bytes option" where
  "do_action a im =
     (case a of
        Skip \<Rightarrow> Inr (Some im)
      | GiveUp \<Rightarrow> Inr None
      | Patch off v \<Rightarrow> bindE (blit im off (le_bytes 8 v)) (\<lambda>im. Inr (Some im)))"

primrec relocations :: "(bytes \<Rightarrow> nat \<Rightarrow> error + reloc_action) \<Rightarrow> nat \<Rightarrow> nat \<Rightarrow> bytes \<Rightarrow> error + bytes option" where
  "relocations act 0 p im = Inr (Some im)"
| "relocations act (Suc k) p im =
     bindE (act im p) (\<lambda>a. bindE (do_action a im) (\<lambda>r.
     case r of None \<Rightarrow> Inr None | Some im \<Rightarrow> relocations act k (p + 8) im))"

text \<open>The two loops over the relocation tables.\<close>

definition relocate ::
  "(bytes \<Rightarrow> error + u64) \<Rightarrow> bytes \<Rightarrow> nat \<Rightarrow> nat \<Rightarrow> u64 \<Rightarrow> u64 \<Rightarrow> nat \<Rightarrow> nat \<Rightarrow> nat \<Rightarrow> nat \<Rightarrow> bytes \<Rightarrow> error + bytes option" where
  "relocate resolve file nl str base vma_base next ext nloc loc im =
     bindE (relocations (extern_action resolve file nl str) next ext im) (\<lambda>r.
     case r of None \<Rightarrow> Inr None | Some im \<Rightarrow> relocations (local_action base vma_base) nloc loc im)"

section \<open>Loading\<close>

text \<open>The table of exports of a module, up to its nameless entry, and the name of the module.\<close>

primrec read_exports :: "nat \<Rightarrow> bytes \<Rightarrow> u64 \<Rightarrow> u64 \<Rightarrow> error + export_table" where
  "read_exports 0 im vma_base p = Inl OutOfFuel"
| "read_exports (Suc n) im vma_base p =
     bindE (rd64 im (unat (p - vma_base))) (\<lambda>name_ptr. bindE (rd64 im (unat (p + 8 - vma_base))) (\<lambda>v.
     if name_ptr = 0 then Inr ([], v)
     else bindE (cstr (drop (unat (name_ptr - vma_base)) im)) (\<lambda>name.
          bindE (read_exports n im vma_base (p + 16)) (\<lambda>(es, nxt). Inr ((name, v) # es, nxt)))))"

definition loaded_name :: "bytes \<Rightarrow> u64 \<Rightarrow> u64 \<Rightarrow> error + bytes" where
  "loaded_name im vma_base modname =
     (if modname = 0 then Inr (ascii ''<unknown>'')
      else bindE (rd64 im (unat (modname - vma_base))) (\<lambda>p.
           if p = 0 then Inr (ascii ''<null>'') else cstr (drop (unat (p - vma_base)) im)))"

definition finish_load :: "loader \<Rightarrow> error + loader" where
  "finish_load l = Inr (l\<lparr>recv_count := 0\<rparr>)"

definition link_module :: "nat \<Rightarrow> bytes \<Rightarrow> u64 \<Rightarrow> u64 \<Rightarrow> loader \<Rightarrow> error + loader" where
  "link_module n im vma_base exports l =
     bindE (if exports = 0 then Inr (tables l)
            else bindE (read_exports (length im) im vma_base exports) (\<lambda>t. Inr ((tables l)(exports \<mapsto> t)))) (\<lambda>ts.
     bindE (link_exports n ts (public_api l) exports) (\<lambda>ts.
     Inr (l\<lparr>tables := ts, module_memory := (module_memory l)(vma_base \<mapsto> im)\<rparr>)))"

definition load_module ::
  "nat \<Rightarrow> (u64 \<Rightarrow> bytes) \<Rightarrow> u64 \<Rightarrow> u64 \<Rightarrow> nat \<Rightarrow> mod_scan \<Rightarrow> loader \<Rightarrow> error + loader" where
  "load_module n alloc_contig vma_base stack_word ncmds c l =
     (let file = recv_data l; im = alloc_contig ((sc_vmsz c + 0x3fff) AND NOT 0x3fff) in
      bindE (place_segments file (sc_base c) vma_base ncmds 32 (im, [], [])) (\<lambda>(im, segs, pages).
      let info = \<lparr>mod_name = [], mod_exports = 0, mod_vm_base = vma_base, mod_vm_end = vma_base + sc_vmsz c, mod_segments = segs\<rparr>;
          l = (pongo_module_create info l)\<lparr>mapped_pages := mapped_pages l @ pages\<rparr> in
      case (sc_symtab c, sc_dysymtab c) of
        (Some st, Some dt) \<Rightarrow>
          bindE (rd32 file (st + 8)) (\<lambda>symoff. bindE (rd32 file (st + 12)) (\<lambda>nsyms.
          bindE (rd32 file (st + 16)) (\<lambda>stroff.
          bindE (rd32 file (dt + 64)) (\<lambda>extreloff. bindE (rd32 file (dt + 68)) (\<lambda>nextrel.
          bindE (rd32 file (dt + 72)) (\<lambda>locreloff. bindE (rd32 file (dt + 76)) (\<lambda>nlocrel.
          bindE (find_module_symbols im vma_base (unat stroff) (unat nsyms) (unat symoff) (stack_word, 0, 0))
            (\<lambda>(entrypoint, modname, exports).
          bindE (relocate (resolve_symbol n (tables l) (public_api l)) file (unat symoff) (unat stroff) (sc_base c) vma_base
                   (unat nextrel) (unat extreloff) (unat nlocrel) (unat locreloff) im) (\<lambda>r.
          case r of
            None \<Rightarrow> Inr l
          | Some im \<Rightarrow>
              bindE (link_module n im vma_base exports l) (\<lambda>l.
              bindE (panic_if (entrypoint = 0) ''no entryp'') (\<lambda>_.
              bindE (loaded_name im vma_base modname) (\<lambda>name.
              let done = info\<lparr>mod_name := name, mod_exports := exports\<rparr> in
              finish_load (l\<lparr>modules := done # tl (modules l), started := started l @ [entrypoint]\<rparr>)))))))))))))
      | _ \<Rightarrow> Inl BadAccess))"

definition modload_cmd :: "nat \<Rightarrow> (u64 \<Rightarrow> bytes) \<Rightarrow> u64 \<Rightarrow> u64 \<Rightarrow> loader \<Rightarrow> error + loader" where
  "modload_cmd n alloc_contig vma_base stack_word l =
     (if recv_count l < 0x4000 then finish_load l
      else
        bindE (rd32 (recv_data l) 0) (\<lambda>magic.
        if magic \<noteq> MH_MAGIC_64 then finish_load l
        else bindE (rd32 (recv_data l) 12) (\<lambda>filetype.
        if filetype \<noteq> MH_KEXT_BUNDLE then finish_load l
        else bindE (rd32 (recv_data l) 16) (\<lambda>ncmds.
        bindE (scan_commands (recv_data l) (unat ncmds) 32
                 \<lparr>sc_segments = 0, sc_filesz = 0, sc_vmsz = 0, sc_base = - 1, sc_symtab = None, sc_dysymtab = None\<rparr>) (\<lambda>c.
        let c = c\<lparr>sc_vmsz := sc_vmsz c - sc_base c\<rparr> in
        if sc_filesz c > ucast (recv_count l) then finish_load l
        else load_module n alloc_contig vma_base stack_word (unat ncmds) c l)))))"

end
