(* ===== verification/ModloadClaims.thy ===== *)
theory ModloadClaims
  imports Modload
begin

unbundle bit_operations_syntax

text \<open>
  Linking modules: the chain of export tables is a list of symbols that grows at its end, and the
  relocation loops store what the relocation entries ask for, and nothing else.
\<close>

section \<open>The chain of tables\<close>

fun chain :: "(u64 \<rightharpoonup> export_table) \<Rightarrow> u64 list \<Rightarrow> bool" where
  "chain t [] = False"
| "chain t [a] = (case t a of None \<Rightarrow> False | Some tb \<Rightarrow> snd tb = 0)"
| "chain t (a # b # as) = ((case t a of None \<Rightarrow> False | Some tb \<Rightarrow> snd tb = b) \<and> b \<noteq> 0 \<and> chain t (b # as))"

definition symbols_of :: "(u64 \<rightharpoonup> export_table) \<Rightarrow> u64 list \<Rightarrow> (bytes \<times> u64) list" where
  "symbols_of t as = concat (map (\<lambda>a. case t a of None \<Rightarrow> [] | Some tb \<Rightarrow> fst tb) as)"

lemma find_export_append:
  "find_export (xs @ ys) name = (case find_export xs name of None \<Rightarrow> find_export ys name | Some v \<Rightarrow> Some v)"
  by (induction xs) auto

definition value_of :: "(bytes \<times> u64) list \<Rightarrow> bytes \<Rightarrow> u64" where
  "value_of es name = (case find_export es name of None \<Rightarrow> 0 | Some v \<Rightarrow> v)"

lemma resolve_chain:
  "chain t (a # as) \<Longrightarrow> length (a # as) \<le> n \<Longrightarrow> resolve_symbol n t a name = Inr (value_of (symbols_of t (a # as)) name)"
proof (induction as arbitrary: a n)
  case Nil
  then show ?case
    by (cases n) (auto simp: symbols_of_def value_of_def split: option.splits)
next
  case (Cons b as)
  then obtain m where n: "n = Suc m" by (cases n) auto
  have ih: "resolve_symbol m t b name = Inr (value_of (symbols_of t (b # as)) name)"
    using Cons n by (cases "t a") auto
  show ?case
    using Cons.prems ih n
    by (cases "t a") (auto simp: symbols_of_def value_of_def find_export_append split: option.splits)
qed

lemma link_chain:
  "chain t (a # as) \<Longrightarrow> length (a # as) \<le> n \<Longrightarrow>
   link_exports n t a e = Inr (t(last (a # as) \<mapsto> (fst (the (t (last (a # as)))), e)))"
proof (induction as arbitrary: a n)
  case Nil
  then show ?case by (cases n) (auto split: option.splits)
next
  case (Cons b as)
  then obtain m where n: "n = Suc m" by (cases n) auto
  have "link_exports m t b e = Inr (t(last (b # as) \<mapsto> (fst (the (t (last (b # as)))), e)))"
    using Cons n by (cases "t a") auto
  then show ?case using Cons.prems n by (cases "t a") (auto simp: fun_upd_def)
qed

lemma chain_snoc:
  "chain t (a # as) \<Longrightarrow> distinct (a # as) \<Longrightarrow> e \<noteq> 0 \<Longrightarrow> e \<notin> set (a # as) \<Longrightarrow> t e = Some (es, 0) \<Longrightarrow>
   t' = t(last (a # as) \<mapsto> (fst (the (t (last (a # as)))), e)) \<Longrightarrow>
   chain t' (a # as @ [e]) \<and> symbols_of t' (a # as @ [e]) = symbols_of t (a # as) @ es"
proof (induction as arbitrary: a)
  case Nil
  then show ?case by (auto simp: symbols_of_def split: option.splits)
next
  case (Cons b as)
  have ih: "chain t' (b # as @ [e]) \<and> symbols_of t' (b # as @ [e]) = symbols_of t (b # as) @ es"
    by (rule Cons.IH) (use Cons.prems in \<open>auto split: option.splits\<close>)
  have "last (b # as) \<noteq> a" using Cons.prems(2) last_in_set [of "b # as"] by auto
  then have "t' a = t a" using Cons.prems(6) by auto
  then show ?case using ih Cons.prems(1) by (auto simp: symbols_of_def split: option.splits)
qed

text \<open>C27 The tables of exported symbols implement one list of symbols in which the first definition
  counts: linking in the exports of a module, whose table is not part of the chain yet, ends,
  puts its symbols behind all those that are there, and makes \<open>resolve_symbol\<close> answer every name
  with the value it had before, if it was defined, and with the module's otherwise - with 0 if
  neither defines it. No module can replace a symbol.\<close>

theorem link_exports_appends:
  assumes "chain t (a # as)" and "distinct (a # as)"
    and "e \<noteq> 0" and "e \<notin> set (a # as)" and "t e = Some (es, 0)" and "length (a # as) < n"
  shows "\<exists>t'. link_exports n t a e = Inr t' \<and> chain t' (a # as @ [e]) \<and>
    (\<forall>name. resolve_symbol n t' a name = Inr (value_of (symbols_of t (a # as) @ es) name)) \<and>
    (\<forall>name. find_export (symbols_of t (a # as)) name \<noteq> None \<longrightarrow> resolve_symbol n t' a name = resolve_symbol n t a name)"
proof -
  let ?t' = "t(last (a # as) \<mapsto> (fst (the (t (last (a # as)))), e))"
  have l: "link_exports n t a e = Inr ?t'" by (rule link_chain [OF assms(1)]) (use assms(6) in simp)
  have c: "chain ?t' (a # as @ [e])" "symbols_of ?t' (a # as @ [e]) = symbols_of t (a # as) @ es"
    using chain_snoc [OF assms(1-5) refl] by blast+
  have r: "resolve_symbol n ?t' a name = Inr (value_of (symbols_of t (a # as) @ es) name)" for name
    using resolve_chain [OF c(1), of n name] c(2) assms(6) by simp
  moreover have "resolve_symbol n t a name = Inr (value_of (symbols_of t (a # as)) name)" for name
    using resolve_chain [OF assms(1)] assms(6) by simp
  ultimately show ?thesis using l c(1)
    by (intro exI [of _ ?t']) (auto simp: value_of_def find_export_append simp del: fun_upd_apply)
qed

definition sample_tables :: "u64 \<rightharpoonup> export_table" where
  "sample_tables = [0x1000 \<mapsto> ([([0x61], 5)], 0), 0x2000 \<mapsto> ([([0x61], 7), ([0x62], 9)], 0)]"

theorem link_exports_appends_witness:
  "\<exists>t'. link_exports 3 sample_tables 0x1000 0x2000 = Inr t' \<and> resolve_symbol 3 t' 0x1000 [0x61] = Inr 5
     \<and> resolve_symbol 3 t' 0x1000 [0x62] = Inr 9"
proof -
  have "\<exists>t'. link_exports 3 sample_tables 0x1000 0x2000 = Inr t' \<and> chain t' [0x1000, 0x2000] \<and>
    (\<forall>name. resolve_symbol 3 t' 0x1000 name = Inr (value_of (symbols_of sample_tables [0x1000] @ [([0x61], 7), ([0x62], 9)]) name)) \<and>
    (\<forall>name. find_export (symbols_of sample_tables [0x1000]) name \<noteq> None \<longrightarrow> resolve_symbol 3 t' 0x1000 name = resolve_symbol 3 sample_tables 0x1000 name)"
    using link_exports_appends [of sample_tables "0x1000" "[]" "0x2000" "[([0x61], 7), ([0x62], 9)]" 3]
    by (simp add: sample_tables_def)
  then show ?thesis by (fastforce simp: symbols_of_def sample_tables_def value_of_def)
qed

section \<open>Relocation\<close>

text \<open>Two images of the same size that differ at most in the words at some offsets.\<close>

definition word_at :: "nat \<Rightarrow> nat set" where "word_at off = {off..<off + 8}"

definition slots :: "reloc_action list \<Rightarrow> nat set" where
  "slots as = (\<Union>a \<in> set as. case a of Patch off v \<Rightarrow> word_at off | _ \<Rightarrow> {})"

definition agree :: "nat set \<Rightarrow> bytes \<Rightarrow> bytes \<Rightarrow> bool" where
  "agree S im im' \<longleftrightarrow> length im' = length im \<and> (\<forall>j < length im. j \<notin> S \<longrightarrow> im' ! j = im ! j)"

lemma agree_refl [simp]: "agree S im im" by (simp add: agree_def)

lemma agree_trans: "agree S im im' \<Longrightarrow> agree T im' im'' \<Longrightarrow> agree (S \<union> T) im im''"
  by (simp add: agree_def)

lemma agree_mono: "agree S im im' \<Longrightarrow> S \<subseteq> T \<Longrightarrow> agree T im im'"
  by (auto simp: agree_def)

lemma agree_chunk:
  assumes "agree S im im'" and "{p..<p + n} \<inter> S = {}"
  shows "chunk im' p n = chunk im p n"
proof -
  have "p + i \<notin> S" if "i < n" for i using assms(2) that by (auto simp: disjoint_iff)
  then have "take n (drop p im') = take n (drop p im)" if "p + n \<le> length im"
    by (intro nth_equalityI) (use assms(1) that in \<open>auto simp: agree_def\<close>)
  then show ?thesis using assms(1) by (simp add: chunk_def agree_def)
qed

lemma agree_rd:
  assumes "agree S im im'"
  shows "{p..<p + 4} \<inter> S = {} \<Longrightarrow> rd32 im' p = rd32 im p"
    and "{p..<p + 8} \<inter> S = {} \<Longrightarrow> rd64 im' p = rd64 im p"
  using agree_chunk [OF assms] by (simp_all add: rd32_def rd64_def)

lemma blit_agree: "blit im off (le_bytes 8 v) = Inr im' \<Longrightarrow> agree (word_at off) im im'"
  by (auto simp: blit_def agree_def word_at_def nth_append min_def split: if_splits)

lemma blit_rd64: "blit im off (le_bytes 8 v) = Inr im' \<Longrightarrow> rd64 im' off = Inr v"
  by (auto simp: blit_def rd64_append split: if_splits)

lemma blit_fits: "off + 8 \<le> length im \<Longrightarrow> \<exists>im'. blit im off (le_bytes 8 v) = Inr im'"
  by (simp add: blit_def)

lemma relocations_snoc:
  "relocations act (Suc k) p im = bindE (relocations act k p im) (\<lambda>r.
     case r of None \<Rightarrow> Inr None | Some im \<Rightarrow> bindE (act im (p + 8 * k)) (\<lambda>a. do_action a im))"
proof (induction k arbitrary: p im)
  case 0
  show ?case by (cases "act im p") (auto simp: bindE_def split: sum.splits option.splits)
next
  case (Suc k)
  show ?case
  proof (cases "act im p")
    case (Inr a)
    show ?thesis
    proof (cases "do_action a im")
      case r: (Inr r)
      show ?thesis
      proof (cases r)
        case (Some im1)
        have "relocations act (Suc n) p im = relocations act n (p + 8) im1" for n using Inr r Some by simp
        then show ?thesis using Suc.IH [of "p + 8" im1] by (simp only: mult_Suc_right add.assoc)
      qed (use Inr r in simp)
    qed (use Inr in simp)
  qed simp
qed

text \<open>
  The loop, when the entries ask for \<open>as\<close> whatever earlier entries have stored: every word asked for
  is stored, and nothing else changes.
\<close>

definition patches_of :: "reloc_action list \<Rightarrow> (nat \<times> u64) list" where
  "patches_of as = concat (map (\<lambda>a. case a of Patch off v \<Rightarrow> [(off, v)] | _ \<Rightarrow> []) as)"

definition apart :: "(nat \<times> u64) list \<Rightarrow> bool" where
  "apart ps \<longleftrightarrow> sorted_wrt (\<lambda>x y. word_at (fst x) \<inter> word_at (fst y) = {}) ps"

lemma slots_patches: "slots as = (\<Union>x \<in> set (patches_of as). word_at (fst x))"
  by (force simp: slots_def patches_of_def split: reloc_action.splits)

lemma patches_of_snoc: "patches_of (as @ [a]) = patches_of as @ (case a of Patch off v \<Rightarrow> [(off, v)] | _ \<Rightarrow> [])"
  by (simp add: patches_of_def)

lemma relocations_correct:
  assumes "\<And>i im'. i < length as \<Longrightarrow> agree (slots (take i as)) im im' \<Longrightarrow> act im' (p + 8 * i) = Inr (as ! i)"
    and "GiveUp \<notin> set as" and "apart (patches_of as)"
    and "\<And>off v. (off, v) \<in> set (patches_of as) \<Longrightarrow> off + 8 \<le> length im"
  shows "\<exists>im'. relocations act (length as) p im = Inr (Some im') \<and> agree (slots as) im im' \<and>
    (\<forall>(off, v) \<in> set (patches_of as). rd64 im' off = Inr v)"
  using assms
proof (induction as rule: rev_induct)
  case Nil
  then show ?case by (simp add: patches_of_def)
next
  case (snoc a as)
  have "\<exists>im'. relocations act (length as) p im = Inr (Some im') \<and> agree (slots as) im im' \<and>
    (\<forall>(off, v) \<in> set (patches_of as). rd64 im' off = Inr v)"
  proof (rule snoc.IH)
    fix i im' assume "i < length as" "agree (slots (take i as)) im im'"
    then show "act im' (p + 8 * i) = Inr (as ! i)" using snoc.prems(1) [of i im'] by (simp add: nth_append)
  qed (use snoc.prems in \<open>auto simp: patches_of_snoc apart_def sorted_wrt_append\<close>)
  then obtain im1 where r: "relocations act (length as) p im = Inr (Some im1)" and ag: "agree (slots as) im im1"
    and vals: "\<forall>(off, v) \<in> set (patches_of as). rd64 im1 off = Inr v" by blast
  have act: "act im1 (p + 8 * length as) = Inr a" using snoc.prems(1) [of "length as" im1] ag by simp
  show ?case
  proof (cases a)
    case Skip
    then show ?thesis using r act ag vals
      by (simp add: relocations_snoc do_action_def patches_of_snoc slots_patches del: relocations.simps)
  next
    case GiveUp
    then show ?thesis using snoc.prems(2) by simp
  next
    case (Patch off v)
    have "off + 8 \<le> length im1" using snoc.prems(4) [of off v] ag Patch by (simp add: patches_of_snoc agree_def)
    from blit_fits [OF this] obtain im2 where b: "blit im1 off (le_bytes 8 v) = Inr im2" by blast
    note ag2 = blit_agree [OF b]
    have "agree (slots (as @ [a])) im im2"
      using agree_trans [OF ag ag2] Patch by (simp add: slots_patches patches_of_snoc Un_commute)
    moreover have "rd64 im2 o' = Inr v'" if "(o', v') \<in> set (patches_of as)" for o' v'
    proof -
      have "word_at o' \<inter> word_at off = {}"
        using snoc.prems(3) that Patch by (fastforce simp: patches_of_snoc apart_def sorted_wrt_append)
      then show ?thesis using agree_rd(2) [OF ag2, of o'] vals that by (auto simp: word_at_def)
    qed
    ultimately show ?thesis using r act b blit_rd64 [OF b] Patch
      by (auto simp: relocations_snoc do_action_def patches_of_snoc simp del: relocations.simps)
  qed
qed

text \<open>What an entry asks for only depends on the entry, its symbol and the word it is about.\<close>

definition reads_clear :: "nat \<Rightarrow> nat set \<Rightarrow> bytes \<Rightarrow> nat \<Rightarrow> bool" where
  "reads_clear nl S im p \<longleftrightarrow> {p..<p + 8} \<inter> S = {} \<and>
     (\<forall>w. rd32 im (p + 4) = Inr w \<longrightarrow> {nl + 16 * r_symbolnum w..<nl + 16 * r_symbolnum w + 4} \<inter> S = {})"

lemma reads_clear_mono: "reads_clear nl S im p \<Longrightarrow> T \<subseteq> S \<Longrightarrow> reads_clear nl T im p"
  unfolding reads_clear_def by blast

lemma entry_agree:
  assumes "agree S im im'" and "{p..<p + 8} \<inter> S = {}"
  shows "rd32 im' p = rd32 im p" and "rd32 im' (p + 4) = rd32 im (p + 4)"
  by (rule agree_rd(1) [OF assms(1)]; use assms(2) in \<open>auto simp: disjoint_iff\<close>)+

lemma extern_action_agree:
  assumes "agree S im im'" and "reads_clear nl S im p"
  shows "extern_action resolve file nl str im' p = extern_action resolve file nl str im p"
proof -
  have "{p..<p + 8} \<inter> S = {}" using assms(2) by (simp add: reads_clear_def)
  note e = entry_agree [OF assms(1) this]
  show ?thesis
  proof (cases "rd32 im (p + 4)")
    case (Inr w)
    have "rd32 im' (nl + 16 * r_symbolnum w) = rd32 im (nl + 16 * r_symbolnum w)"
      by (rule agree_rd(1) [OF assms(1)]) (use assms(2) Inr in \<open>simp add: reads_clear_def\<close>)
    then show ?thesis by (simp add: extern_action_def e Inr cong: if_cong)
  qed (simp add: extern_action_def e)
qed

lemma local_action_agree:
  assumes "agree S im im'" and "{p..<p + 8} \<inter> S = {}" and "local_action base vma im p = Inr a"
    and "slots [a] \<inter> S = {}"
  shows "local_action base vma im' p = Inr a"
proof -
  note e = entry_agree [OF assms(1,2)]
  from assms(3) obtain r_address w where r: "rd32 im p = Inr r_address" "rd32 im (p + 4) = Inr w"
    by (auto simp: local_action_def)
  show ?thesis
  proof (cases "r_extern w \<or> r_length w \<noteq> 3")
    case True
    then show ?thesis using assms(3) r e by (auto simp: local_action_def)
  next
    case False
    with assms(3) r obtain v where v: "rd64 im (reloc_offset r_address) = Inr v"
      and a: "a = Patch (reloc_offset r_address) (v - base + vma)" by (auto simp: local_action_def)
    have "rd64 im' (reloc_offset r_address) = rd64 im (reloc_offset r_address)"
      by (rule agree_rd(2) [OF assms(1)]) (use assms(4) a in \<open>simp add: slots_def word_at_def\<close>)
    then show ?thesis using False r e v a by (simp add: local_action_def)
  qed
qed

lemma local_action_fits: "local_action base vma im p = Inr (Patch off v) \<Longrightarrow> off + 8 \<le> length im"
  by (auto simp: local_action_def split: if_splits dest: rd_bound)

lemma local_never_gives_up: "local_action base vma im p \<noteq> Inr GiveUp"
  by (auto simp: local_action_def split: if_splits)

lemma slots_nth: "i < length as \<Longrightarrow> slots [as ! i] \<subseteq> slots as"
  by (fastforce simp: slots_def)

lemma slots_take: "slots (take i as) \<subseteq> slots as"
  by (auto simp: slots_def dest: in_set_takeD)

lemma slots_append: "slots (as @ bs) = slots as \<union> slots bs"
  by (simp add: slots_def)

lemma apart_slots: "apart (patches_of as @ patches_of bs) \<Longrightarrow> slots as \<inter> slots bs = {}"
  by (fastforce simp: apart_def sorted_wrt_append slots_patches)

lemma apart_nth: "apart (patches_of as) \<Longrightarrow> i < length as \<Longrightarrow> slots [as ! i] \<inter> slots (take i as) = {}"
proof -
  assume a: "apart (patches_of as)" and i: "i < length as"
  have "as = take i as @ [as ! i] @ drop (Suc i) as" using i by (simp add: id_take_nth_drop)
  then have "patches_of as = patches_of (take i as) @ patches_of [as ! i] @ patches_of (drop (Suc i) as)"
    by (metis concat_append map_append patches_of_def)
  with a show ?thesis by (fastforce simp: apart_def sorted_wrt_append slots_patches)
qed

text \<open>C28 Linking a module relocates it: if every entry of the two relocation tables can be read, every
  external symbol is found, and the words to be relocated are in the image, do not overlap each
  other and do not overlap the tables, then linking succeeds and changes the image at these words
  only, where afterwards stands the address of the symbol for an external entry, and for a local
  one the old value moved from the address the module was linked for to the one it is loaded at.\<close>

theorem relocate_correct:
  assumes ext: "map (\<lambda>i. extern_action resolve file nl str im (ext + 8 * i)) [0..<nx] = map Inr as"
    and loc: "map (\<lambda>i. local_action base vma im (loc + 8 * i)) [0..<nl'] = map Inr bs"
    and found: "GiveUp \<notin> set as"
    and fits: "list_all (\<lambda>(off, v). off + 8 \<le> length im) (patches_of as)"
    and disj: "apart (patches_of as @ patches_of bs)"
    and ext_clear: "\<And>i. i < nx \<Longrightarrow> reads_clear nl (slots as \<union> slots bs) im (ext + 8 * i)"
    and loc_clear: "\<And>i. i < nl' \<Longrightarrow> {loc + 8 * i..<loc + 8 * i + 8} \<inter> (slots as \<union> slots bs) = {}"
  shows "\<exists>im'. relocate resolve file nl str base vma nx ext nl' loc im = Inr (Some im') \<and>
    agree (slots as \<union> slots bs) im im' \<and> (\<forall>(off, v) \<in> set (patches_of as @ patches_of bs). rd64 im' off = Inr v)"
proof -
  have len: "length as = nx" "length bs = nl'" using arg_cong [OF ext, of length] arg_cong [OF loc, of length] by simp_all
  have e: "extern_action resolve file nl str im (ext + 8 * i) = Inr (as ! i)" if "i < nx" for i
    using arg_cong [OF ext, of "\<lambda>xs. xs ! i"] that len by simp
  have l: "local_action base vma im (loc + 8 * i) = Inr (bs ! i)" if "i < nl'" for i
    using arg_cong [OF loc, of "\<lambda>xs. xs ! i"] that len by simp
  have "\<exists>im1. relocations (extern_action resolve file nl str) (length as) ext im = Inr (Some im1) \<and> agree (slots as) im im1 \<and>
    (\<forall>(off, v) \<in> set (patches_of as). rd64 im1 off = Inr v)"
  proof (rule relocations_correct)
    fix i im' assume i: "i < length as" and ag: "agree (slots (take i as)) im im'"
    have "reads_clear nl (slots (take i as)) im (ext + 8 * i)"
      by (rule reads_clear_mono [OF ext_clear]) (use i len slots_take in auto)
    then show "extern_action resolve file nl str im' (ext + 8 * i) = Inr (as ! i)"
      using extern_action_agree [OF ag] e i len by simp
  qed (use found fits disj in \<open>auto simp: apart_def sorted_wrt_append list_all_iff\<close>)
  then obtain im1 where r1: "relocations (extern_action resolve file nl str) nx ext im = Inr (Some im1)"
    and ag1: "agree (slots as) im im1" and v1: "\<forall>(off, v) \<in> set (patches_of as). rd64 im1 off = Inr v" using len by auto
  have bs_ok: "apart (patches_of bs)" using disj by (simp add: apart_def sorted_wrt_append)
  have "\<exists>im2. relocations (local_action base vma) (length bs) loc im1 = Inr (Some im2) \<and> agree (slots bs) im1 im2 \<and>
    (\<forall>(off, v) \<in> set (patches_of bs). rd64 im2 off = Inr v)"
  proof (rule relocations_correct)
    fix i im' assume i: "i < length bs" and ag: "agree (slots (take i bs)) im1 im'"
    have "agree (slots as \<union> slots (take i bs)) im im'" by (rule agree_trans [OF ag1 ag])
    moreover have "slots [bs ! i] \<inter> (slots as \<union> slots (take i bs)) = {}"
      using apart_slots [OF disj] slots_nth [OF i] apart_nth [OF bs_ok i] by blast
    moreover have "{loc + 8 * i..<loc + 8 * i + 8} \<inter> (slots as \<union> slots (take i bs)) = {}"
      using loc_clear [of i] i len slots_take [of i bs] by blast
    ultimately show "local_action base vma im' (loc + 8 * i) = Inr (bs ! i)"
      using local_action_agree l i len by blast
  next
    show "GiveUp \<notin> set bs" using l len local_never_gives_up by (fastforce simp: in_set_conv_nth)
    show "apart (patches_of bs)" by (rule bs_ok)
    fix off v assume "(off, v) \<in> set (patches_of bs)"
    then have "Patch off v \<in> set bs" by (auto simp: patches_of_def split: reloc_action.splits)
    then obtain i where "i < nl'" "bs ! i = Patch off v" using len by (auto simp: in_set_conv_nth)
    then show "off + 8 \<le> length im1" using l [of i] local_action_fits ag1 by (fastforce simp: agree_def)
  qed
  then obtain im2 where r2: "relocations (local_action base vma) nl' loc im1 = Inr (Some im2)"
    and ag2: "agree (slots bs) im1 im2" and v2: "\<forall>(off, v) \<in> set (patches_of bs). rd64 im2 off = Inr v" using len by auto
  have "rd64 im2 off = Inr v" if "(off, v) \<in> set (patches_of as)" for off v
  proof -
    have "word_at off \<subseteq> slots as" using that by (force simp: slots_patches)
    then have "{off..<off + 8} \<inter> slots bs = {}" using apart_slots [OF disj] by (auto simp: word_at_def)
    then show ?thesis using agree_rd(2) [OF ag2] v1 that by fastforce
  qed
  then show ?thesis using r1 r2 v2 agree_trans [OF ag1 ag2] by (auto simp: relocate_def)
qed

definition sample_image :: bytes where
  "sample_image =
     [32, 0, 0, 0, 0, 0, 0, 0x0e] @ [40, 0, 0, 0, 0, 0, 0, 0x06] @ replicate 16 0
     @ replicate 8 0xff @ [0x08, 0x10, 0, 0, 0, 0, 0, 0]"

definition sample_resolve :: "bytes \<Rightarrow> error + u64" where
  "sample_resolve name = Inr (if name = [0x61] then 0x50 else 0)"

lemma sample_entries:
  "map (\<lambda>i. extern_action sample_resolve [0x61, 0] 16 0 sample_image (0 + 8 * i)) [0..<1] = map Inr [Patch 32 0x50]"
  "map (\<lambda>i. local_action 0x1000 0x200000 sample_image (8 + 8 * i)) [0..<1] = map Inr [Patch 40 0x200008]"
  "rd32 sample_image 4 = Inr 0x0e000000"
  by code_simp+

theorem relocate_correct_witness:
  "\<exists>im'. relocate sample_resolve [0x61, 0] 16 0 0x1000 0x200000 1 0 1 8 sample_image = Inr (Some im') \<and>
    rd64 im' 32 = Inr 0x50 \<and> rd64 im' 40 = Inr 0x200008"
proof -
  have s: "slots [Patch 32 0x50] \<union> slots [Patch 40 0x200008] = {32..<48}"
    by (auto simp: slots_def word_at_def)
  have "\<exists>im'. relocate sample_resolve [0x61, 0] 16 0 0x1000 0x200000 1 0 1 8 sample_image = Inr (Some im') \<and>
    agree (slots [Patch 32 0x50] \<union> slots [Patch 40 0x200008]) sample_image im' \<and>
    (\<forall>(off, v) \<in> set (patches_of [Patch 32 0x50] @ patches_of [Patch 40 0x200008]). rd64 im' off = Inr v)"
  proof (rule relocate_correct [OF sample_entries(1,2)])
    fix i :: nat assume "i < 1"
    then show "reads_clear 16 (slots [Patch 32 0x50] \<union> slots [Patch 40 0x200008]) sample_image (0 + 8 * i)"
      unfolding s by (simp add: reads_clear_def sample_entries(3) r_symbolnum_def)
  next
    fix i :: nat assume "i < 1"
    then show "{8 + 8 * i..<8 + 8 * i + 8} \<inter> (slots [Patch 32 0x50] \<union> slots [Patch 40 0x200008]) = {}"
      unfolding s by simp
  qed (simp_all add: sample_image_def patches_of_def apart_def word_at_def)
  then show ?thesis by (auto simp: patches_of_def)
qed

end
