(* ===== verification/Usb.thy ===== *)
theory Usb
  imports Stdio Lowlevel
begin

unbundle bit_operations_syntax

text \<open>
  The USB device controller's driver, \<open>src/src/drivers/usb/synopsys_otg.c\<close>: its registers and
  memory, the four endpoints, and the transfers of data over one endpoint.

  The controller is hardware: the value a register reads as is a function (\<open>usb_hw\<close>) of all that the
  driver did before, its reads included, so a register may change between two reads in any way. The
  history is kept in order: every read and write of a register, and every piece of cache maintenance,
  of which only the place and the length are kept. Memory is a set of objects, the static buffers of
  the driver among them; a pointer is an object and an offset, so two pointers are equal when they
  are in C, and an access that leaves its object is a \<open>BadAccess\<close>. The page from which the endpoints'
  DMA buffers are cut is one object. A copy inside one buffer is a move.
\<close>

section \<open>Registers\<close>

definition rGAHBCFG :: u32 where "rGAHBCFG = 0x008"
definition rGUSBCFG :: u32 where "rGUSBCFG = 0x00c"
definition rGINTSTS :: u32 where "rGINTSTS = 0x014"
definition rGINTMSK :: u32 where "rGINTMSK = 0x018"
definition rGRXFSIZ :: u32 where "rGRXFSIZ = 0x024"
definition rGNPTXFSIZ :: u32 where "rGNPTXFSIZ = 0x028"
definition rGSNPSID :: u32 where "rGSNPSID = 0x040"
definition rDTXFSIZ :: "u32 \<Rightarrow> u32" where "rDTXFSIZ n = 0x104 + 0x4 * (n - 1)"
definition rDCFG :: u32 where "rDCFG = 0x800"
definition rDCTL :: u32 where "rDCTL = 0x804"
definition rDIEPMSK :: u32 where "rDIEPMSK = 0x810"
definition rDOEPMSK :: u32 where "rDOEPMSK = 0x814"
definition rDAINT :: u32 where "rDAINT = 0x818"
definition rDAINTMSK :: u32 where "rDAINTMSK = 0x81c"
definition rDIEPCTL :: "u8 \<Rightarrow> u32" where "rDIEPCTL ep = 0x900 + 0x20 * ucast ep"
definition rDIEPINT :: "u8 \<Rightarrow> u32" where "rDIEPINT ep = 0x908 + 0x20 * ucast ep"
definition rDIEPTSIZ :: "u8 \<Rightarrow> u32" where "rDIEPTSIZ ep = 0x910 + 0x20 * ucast ep"
definition rDIEPDMA :: "u8 \<Rightarrow> u32" where "rDIEPDMA ep = 0x914 + 0x20 * ucast ep"
definition rDOEPCTL :: "u8 \<Rightarrow> u32" where "rDOEPCTL ep = 0xb00 + 0x20 * ucast ep"
definition rDOEPINT :: "u8 \<Rightarrow> u32" where "rDOEPINT ep = 0xb08 + 0x20 * ucast ep"
definition rDOEPTSIZ :: "u8 \<Rightarrow> u32" where "rDOEPTSIZ ep = 0xb10 + 0x20 * ucast ep"
definition rDOEPDMA :: "u8 \<Rightarrow> u32" where "rDOEPDMA ep = 0xb14 + 0x20 * ucast ep"

section \<open>State\<close>

datatype usb_obj =
    DmaPage | KtrwSendData | KtrwRecvData | DeviceDescriptor | ConfigurationDescriptor
  | StackLocal | StdoutbufCopy | LoaderXfer nat

datatype ptr = Null | At usb_obj nat

primrec ptr_add :: "ptr \<Rightarrow> u32 \<Rightarrow> ptr" where
  "ptr_add Null n = Null"
| "ptr_add (At b i) n = At b (i + unat n)"

datatype usb_event = Rd u32 | Wr u32 u32 | Clean ptr u32 | Inval ptr u32

text \<open>The state of one endpoint.\<close>

record endpoint_state =
  ep_type :: u8
  ep_n :: u8
  dir_in :: bool
  max_packet_size :: u16
  default_xfer_dma_data :: ptr
  default_xfer_dma_size :: u32
  default_xfer_dma_phys :: u32
  xfer_dma_data :: ptr
  xfer_dma_size :: u32
  xfer_dma_phys :: u32
  transfer_data :: ptr
  transfer_size :: u32
  transferred :: u32
  in_flight :: u32

datatype ep_id = EP0_IN | EP0_OUT | EP1_IN | EP2_OUT

record setup_packet =
  bmRequestType :: u8
  bRequest :: u8
  wValue :: u16
  wIndex :: u16
  wLength :: u16

text \<open>The functions the driver keeps pointers to.\<close>

datatype data_out_callback = Ktrw_recv_done | Usb_write_stdin | Reallocate_loader_xfer_data
datatype status_out_callback = Usb_read_stdout_cb
datatype in_callback = Ktrw_send_done
datatype out_callback = Usbloader_xfer_done_cb

record usb = irq +
  usb_hw :: "usb_event list \<Rightarrow> u32 \<Rightarrow> u32"
  usb_trace :: "usb_event list"
  usb_mem :: "usb_obj \<Rightarrow> bytes option"
  eps :: "ep_id \<Rightarrow> endpoint_state"
  ep0_setup_packet :: setup_packet
  setup_packet_pending :: bool
  data_out_stage_callback :: "data_out_callback option"
  status_out_stage_callback :: "status_out_callback option"
  in_transfer_done :: "in_callback option"
  out_transfer_done :: "out_callback option"
  ktrw_send_count :: u16
  ktrw_send_in_flight :: u16
  ktrw_recv_count :: u16
  loader_xfer_recv_data :: ptr
  loader_xfer_recv_count :: u32
  loader_xfer_recv_size :: u32
  loader_xfer_size :: u32
  usbloader_is_waiting_xfer :: bool
  should_wait_for_cmd_handler :: bool
  command_in_progress :: u8
  handler_waits :: nat
  usb_io :: io
  usb_vatophys :: "ptr \<Rightarrow> u64"
  usb_fresh :: "nat \<Rightarrow> u32 \<Rightarrow> (nat \<Rightarrow> u8) option"
  usb_allocs :: nat
  pongo_version :: bytes

definition set_ep :: "ep_id \<Rightarrow> endpoint_state \<Rightarrow> usb \<Rightarrow> usb" where
  "set_ep e ep s = s\<lparr>eps := (eps s)(e := ep)\<rparr>"

section \<open>Accesses\<close>

definition usb_log :: "usb_event \<Rightarrow> usb \<Rightarrow> usb" where
  "usb_log ev s = s\<lparr>usb_trace := usb_trace s @ [ev]\<rparr>"

definition reg_read :: "u32 \<Rightarrow> usb \<Rightarrow> u32 \<times> usb" where
  "reg_read r s = (usb_hw s (usb_trace s) r, usb_log (Rd r) s)"

definition reg_write :: "u32 \<Rightarrow> u32 \<Rightarrow> usb \<Rightarrow> usb" where
  "reg_write r v s = usb_log (Wr r v) s"

definition reg_and :: "u32 \<Rightarrow> u32 \<Rightarrow> usb \<Rightarrow> usb" where
  "reg_and r v s = reg_write r (fst (reg_read r s) AND v) (snd (reg_read r s))"

definition reg_or :: "u32 \<Rightarrow> u32 \<Rightarrow> usb \<Rightarrow> usb" where
  "reg_or r v s = reg_write r (fst (reg_read r s) OR v) (snd (reg_read r s))"

definition cache_clean_and_invalidate :: "ptr \<Rightarrow> u32 \<Rightarrow> usb \<Rightarrow> usb" where
  "cache_clean_and_invalidate p n s = usb_log (Clean p n) s"

definition cache_invalidate :: "ptr \<Rightarrow> u32 \<Rightarrow> usb \<Rightarrow> usb" where
  "cache_invalidate p n s = usb_log (Inval p n) s"

definition mem_read :: "ptr \<Rightarrow> nat \<Rightarrow> usb \<Rightarrow> error + bytes" where
  "mem_read p n s =
     (if n = 0 then Inr []
      else case p of Null \<Rightarrow> Inl BadAccess
           | At b i \<Rightarrow> (case usb_mem s b of None \<Rightarrow> Inl BadAccess | Some m \<Rightarrow> chunk m i n))"

definition mem_write :: "ptr \<Rightarrow> bytes \<Rightarrow> usb \<Rightarrow> error + usb" where
  "mem_write p bs s =
     (if bs = [] then Inr s
      else case p of Null \<Rightarrow> Inl BadAccess
           | At b i \<Rightarrow> (case usb_mem s b of None \<Rightarrow> Inl BadAccess
               | Some m \<Rightarrow> bindE (blit m i bs) (\<lambda>m. Inr (s\<lparr>usb_mem := (usb_mem s)(b \<mapsto> m)\<rparr>))))"

definition mem_copy :: "ptr \<Rightarrow> ptr \<Rightarrow> nat \<Rightarrow> usb \<Rightarrow> error + usb" where
  "mem_copy dst src n s = bindE (mem_read src n s) (\<lambda>bs. mem_write dst bs s)"

text \<open>\<open>BUG\<close> of \<open>usb.h\<close>: the macro's argument, as it is written, becomes the message.\<close>

definition BUG_if :: "bool \<Rightarrow> string \<Rightarrow> error + unit" where
  "BUG_if c n = panic_if c (''USB BUG: '' @ n)"

section \<open>IN transfers\<close>

definition DMA_BUFFER_SIZE :: u32 where "DMA_BUFFER_SIZE = 0x4000 div 4"
definition TRANSFER_ZLP :: u32 where "TRANSFER_ZLP = - 1"
definition RECV_DATA :: u32 where "RECV_DATA = 1"
definition EP0_MAX_PACKET_SIZE :: u16 where "EP0_MAX_PACKET_SIZE = 64"
definition INTR_EP_MAX_PACKET_SIZE :: u16 where "INTR_EP_MAX_PACKET_SIZE = 1024"
definition BULK_EP_MAX_PACKET_SIZE :: u16 where "BULK_EP_MAX_PACKET_SIZE = 512"

text \<open>The offset into the DMA buffer, the size of the hardware's transfer and its number of packets.\<close>

definition ep_in_send_compute_xfer :: "endpoint_state \<Rightarrow> error + (u32 \<times> u32 \<times> u32)" where
  "ep_in_send_compute_xfer ep =
     (let mps = ucast (max_packet_size ep) :: u32;
          dma_offset = transferred ep mod xfer_dma_size ep;
          dma_left = xfer_dma_size ep - dma_offset;
          left = transfer_size ep - transferred ep;
          (xfer_size, packet_count) =
            (if transfer_size ep = TRANSFER_ZLP then (0, 1)
             else if ep_type ep = 0 then (if left > mps then mps else left, 1)
             else let x1 = (if left > dma_left then dma_left else left);
                      x2 = (if x1 > 0x7ffff then 0x7ffff + 1 - mps else x1)
                  in (x2, if x2 > mps then (x2 + mps - 1) div mps else 1))
      in bindE (BUG_if (xfer_size > dma_left \<or> dma_left < mps) ''0x7866696e206264'') (\<lambda>_.
         Inr (dma_offset, xfer_size, packet_count)))"

text \<open>When a DMA buffer is used from its start, it is filled and made visible to the controller.\<close>

definition ep_in_fill :: "ep_id \<Rightarrow> u32 \<Rightarrow> usb \<Rightarrow> error + usb" where
  "ep_in_fill e hw_xfer_size s =
     (let ep = eps s e
      in if xfer_dma_data ep = transfer_data ep then
           bindE (BUG_if (transfer_size ep = TRANSFER_ZLP) ''0x6e6f207a6c70'') (\<lambda>_.
           Inr (cache_clean_and_invalidate (xfer_dma_data ep) (transfer_size ep) s))
         else
           bindE (mem_copy (xfer_dma_data ep) (ptr_add (transfer_data ep) (transferred ep)) (unat hw_xfer_size) s) (\<lambda>s.
           Inr (cache_clean_and_invalidate (xfer_dma_data ep) hw_xfer_size s)))"

definition ep_in_program :: "endpoint_state \<Rightarrow> u32 \<Rightarrow> u32 \<Rightarrow> u32 \<Rightarrow> usb \<Rightarrow> usb" where
  "ep_in_program ep dma_offset hw_xfer_size packet_count s =
     reg_or (rDIEPCTL (ep_n ep)) 0x84000000
       (reg_write (rDIEPTSIZ (ep_n ep)) (push_bit 19 packet_count OR hw_xfer_size)
         (reg_write (rDIEPDMA (ep_n ep)) (xfer_dma_phys ep + dma_offset) s))"

definition ep_in_send :: "ep_id \<Rightarrow> usb \<Rightarrow> error + usb" where
  "ep_in_send e s =
     (let ep = eps s e in
      bindE (BUG_if (\<not> dir_in ep \<or> in_flight ep \<noteq> 0) ''0x73656e642031'') (\<lambda>_.
      bindE (BUG_if (transferred ep \<ge> transfer_size ep \<and> transfer_size ep \<noteq> TRANSFER_ZLP) ''0x73656e642032'') (\<lambda>_.
      bindE (ep_in_send_compute_xfer ep) (\<lambda>(dma_offset, hw_xfer_size, packet_count).
      bindE (if dma_offset = 0 \<and> hw_xfer_size > 0 then ep_in_fill e hw_xfer_size s else Inr s) (\<lambda>s.
      Inr (set_ep e (ep\<lparr>in_flight := hw_xfer_size\<rparr>) (ep_in_program ep dma_offset hw_xfer_size packet_count s)))))))"

text \<open>The transfer the hardware was given is over: \<open>True\<close> if nothing more is to be sent.\<close>

definition ep_in_send_done :: "ep_id \<Rightarrow> usb \<Rightarrow> error + (bool \<times> usb)" where
  "ep_in_send_done e s =
     (let ep = eps s e in
      bindE (BUG_if (\<not> dir_in ep) ''0x73656e642033'') (\<lambda>_.
      let ep = ep\<lparr>transferred := transferred ep + in_flight ep, in_flight := 0\<rparr>;
          ep = (if transfer_size ep = TRANSFER_ZLP then ep\<lparr>transfer_size := 0\<rparr> else ep)
      in if transferred ep = transfer_size ep then
           if \<not> (transfer_size ep > 0 \<and> transfer_size ep mod ucast (max_packet_size ep) = 0) then Inr (True, set_ep e ep s)
           else bindE (ep_in_send e (set_ep e (ep\<lparr>transferred := 0, transfer_size := TRANSFER_ZLP\<rparr>) s)) (\<lambda>s. Inr (False, s))
         else bindE (ep_in_send e (set_ep e ep s)) (\<lambda>s. Inr (False, s))))"

definition reset_dma :: "endpoint_state \<Rightarrow> endpoint_state" where
  "reset_dma ep = ep\<lparr>xfer_dma_data := default_xfer_dma_data ep, xfer_dma_size := default_xfer_dma_size ep,
     xfer_dma_phys := default_xfer_dma_phys ep\<rparr>"

definition ep_in_send_data :: "ep_id \<Rightarrow> ptr \<Rightarrow> u32 \<Rightarrow> usb \<Rightarrow> error + usb" where
  "ep_in_send_data e data sz s =
     (let ep = eps s e in
      bindE (BUG_if (\<not> dir_in ep \<or> transfer_size ep \<noteq> transferred ep \<or> in_flight ep \<noteq> 0) ''0x73656e642034'') (\<lambda>_.
      ep_in_send e (set_ep e ((reset_dma ep)\<lparr>transfer_data := data,
        transfer_size := if sz = 0 then TRANSFER_ZLP else sz, transferred := 0\<rparr>) s)))"

section \<open>OUT transfers\<close>

definition ep_out_recv_compute_xfer :: "endpoint_state \<Rightarrow> error + (u32 \<times> u32 \<times> u32)" where
  "ep_out_recv_compute_xfer ep =
     (let mps = ucast (max_packet_size ep) :: u32;
          dma_offset = (if xfer_dma_data ep = transfer_data ep then transferred ep else 0)
      in bindE (BUG_if (dma_offset > xfer_dma_size ep) ''0x646d616f6666'') (\<lambda>_.
         let dma_left = xfer_dma_size ep - dma_offset;
             left = transfer_size ep - transferred ep;
             (xfer_size, packet_count) =
               (if ep_type ep = 0 \<or> transfer_size ep = TRANSFER_ZLP then (mps, 1)
                else let x1 = (if left > dma_left then dma_left else left);
                         x2 = (if x1 > 0x7ffff then 0x7ffff + 1 - mps else x1);
                         n = (x2 + mps - 1) div mps
                     in (n * mps, n))
         in bindE (BUG_if (xfer_size > dma_left) ''0x646d616f206264'') (\<lambda>_.
            Inr (dma_offset, xfer_size, packet_count))))"

text \<open>Arming an OUT endpoint. What is invalidated beforehand is the part that will be received, or in
  direct mode the whole buffer.\<close>

definition out_cache_length :: "endpoint_state \<Rightarrow> u32 \<Rightarrow> u32" where
  "out_cache_length ep hw_xfer_size =
     (let mps = ucast (max_packet_size ep);
          n = (if hw_xfer_size > 0 \<and> xfer_dma_data ep = transfer_data ep
               then if transfer_size ep = TRANSFER_ZLP then mps else transfer_size ep
               else hw_xfer_size)
      in if n = 0 then mps else n)"

definition ep_out_recv :: "ep_id \<Rightarrow> usb \<Rightarrow> error + usb" where
  "ep_out_recv e s =
     (let ep = eps s e; ep0 = eps s EP0_OUT in
      bindE (BUG_if (dir_in ep) ''0x73656e642031'') (\<lambda>_.
      bindE (BUG_if (ep_n ep = 0 \<and> (xfer_dma_data ep0 \<noteq> default_xfer_dma_data ep0
                \<or> xfer_dma_size ep0 \<noteq> default_xfer_dma_size ep0 \<or> xfer_dma_phys ep0 \<noteq> default_xfer_dma_phys ep0))
              ''0x72637630206466'') (\<lambda>_.
      bindE (BUG_if (in_flight ep \<noteq> RECV_DATA \<and> ep_type ep \<noteq> 0) ''0x726563762032'') (\<lambda>_.
      let ep = (if in_flight ep \<noteq> RECV_DATA then ep\<lparr>transfer_size := 0, transferred := 0\<rparr> else ep) in
      bindE (ep_out_recv_compute_xfer ep) (\<lambda>(dma_offset, hw_xfer_size, packet_count).
      Inr (reg_or (rDOEPCTL (ep_n ep)) (if in_flight ep = RECV_DATA then 0x84000000 else 0x80000000)
            (reg_write (rDOEPTSIZ (ep_n ep)) (push_bit 19 packet_count OR hw_xfer_size)
              (reg_write (rDOEPDMA (ep_n ep)) (xfer_dma_phys ep + dma_offset)
                (cache_invalidate (ptr_add (xfer_dma_data ep) dma_offset) (out_cache_length ep hw_xfer_size)
                  (set_ep e ep s))))))))))"

text \<open>The pointer to a setup packet that has been received.\<close>

definition ep_out_recv_setup_done :: "ep_id \<Rightarrow> usb \<Rightarrow> error + (ptr \<times> usb)" where
  "ep_out_recv_setup_done e s =
     (let ep = eps s e in
      bindE (BUG_if (dir_in ep \<or> ep_type ep \<noteq> 0 \<or> in_flight ep = RECV_DATA) ''0x726563762033'') (\<lambda>_.
      let setup = ptr_add (xfer_dma_data ep) (transferred ep)
      in Inr (setup, set_ep e (ep\<lparr>transfer_size := 0, transferred := 0, in_flight := 0\<rparr>) (cache_invalidate setup 8 s))))"

definition ep_out_recv_data_common :: "ep_id \<Rightarrow> ptr \<Rightarrow> u32 \<Rightarrow> usb \<Rightarrow> error + usb" where
  "ep_out_recv_data_common e data sz s =
     (let s = set_ep e ((eps s e)\<lparr>transfer_data := data, transfer_size := if sz = 0 then TRANSFER_ZLP else sz,
                          transferred := 0, in_flight := RECV_DATA\<rparr>) s
      in if ep_n (eps s e) \<noteq> 0 then ep_out_recv e s else Inr s)"

definition ep_out_recv_data :: "ep_id \<Rightarrow> ptr \<Rightarrow> u32 \<Rightarrow> usb \<Rightarrow> error + usb" where
  "ep_out_recv_data e data sz s =
     (let ep = eps s e in
      bindE (BUG_if (dir_in ep \<or> in_flight ep \<noteq> 0 \<or> data = Null) ''0x73656e642034'') (\<lambda>_.
      ep_out_recv_data_common e data sz (set_ep e (reset_dma ep) s)))"

definition ep_out_recv_data_dma :: "ep_id \<Rightarrow> ptr \<Rightarrow> u32 \<Rightarrow> u32 \<Rightarrow> usb \<Rightarrow> error + usb" where
  "ep_out_recv_data_dma e data dma sz s =
     (let ep = eps s e in
      bindE (BUG_if (dir_in ep \<or> in_flight ep \<noteq> 0 \<or> data = Null \<or> sz = 0 \<or> sz mod ucast (max_packet_size ep) \<noteq> 0)
              ''0x73656e642035'') (\<lambda>_.
      ep_out_recv_data_common e data sz
        (set_ep e (ep\<lparr>xfer_dma_data := data, xfer_dma_size := sz, xfer_dma_phys := dma\<rparr>) s)))"

text \<open>What was received is moved out of the DMA buffer, unless it was received in place.\<close>

definition ep_out_take :: "ep_id \<Rightarrow> u32 \<Rightarrow> u32 \<Rightarrow> usb \<Rightarrow> error + usb" where
  "ep_out_take e dma_offset data_received s =
     (let ep = eps s e in
      if data_received > 0 then
        bindE (if xfer_dma_data ep \<noteq> transfer_data ep then
                 bindE (BUG_if (dma_offset \<noteq> 0) ''0x72637662756630'') (\<lambda>_.
                 mem_copy (ptr_add (transfer_data ep) (transferred ep)) (xfer_dma_data ep) (unat data_received)
                   (cache_invalidate (xfer_dma_data ep) data_received s))
               else Inr s) (\<lambda>s.
        Inr (set_ep e (ep\<lparr>transferred := transferred ep + data_received\<rparr>) s))
      else Inr s)"

text \<open>Whether the host ended the transfer by a packet that is not full. On a bulk endpoint a whole number
  of packets may also have been stopped by the hardware; then the packets are counted.\<close>

definition out_partial_packet :: "endpoint_state \<Rightarrow> u32 \<Rightarrow> u32 \<Rightarrow> u32 \<Rightarrow> u32 \<Rightarrow> bool" where
  "out_partial_packet ep doeptsiz hw_xfer_left data_received packet_count =
     (if ep_type ep = 0 then hw_xfer_left \<noteq> 0
      else let mps = ucast (max_packet_size ep);
               partial_packet = (hw_xfer_left \<noteq> 0);
               whole_number_of_packets = (data_received > 0 \<and> data_received mod mps = 0)
           in if partial_packet \<and> whole_number_of_packets then
                let expected_packets = data_received div mps;
                    packets_left = drop_bit 19 doeptsiz AND 0x3ff;
                    packets_received = packet_count - packets_left
                in packets_received = expected_packets + 1
              else partial_packet)"

text \<open>From there on: the end of the transfer, or its continuation.\<close>

definition ep_out_recv_finish :: "ep_id \<Rightarrow> u32 \<Rightarrow> u32 \<Rightarrow> u32 \<Rightarrow> u32 \<Rightarrow> usb \<Rightarrow> error + (bool \<times> usb)" where
  "ep_out_recv_finish e doeptsiz hw_xfer_left data_received packet_count s =
     (let ep = (if transfer_size (eps s e) = TRANSFER_ZLP then (eps s e)\<lparr>transfer_size := 0\<rparr> else eps s e);
          partial_packet = out_partial_packet ep doeptsiz hw_xfer_left data_received packet_count
      in if transferred ep \<ge> transfer_size ep \<or> partial_packet then
           let s = set_ep e (ep\<lparr>in_flight := 0\<rparr>) s
           in Inr (True, if xfer_dma_data ep = transfer_data ep then cache_invalidate (xfer_dma_data ep) (transferred ep) s else s)
         else bindE (if ep_n ep \<noteq> 0 then ep_out_recv e (set_ep e ep s) else Inr (set_ep e ep s)) (\<lambda>s. Inr (False, s)))"

definition ep_out_recv_data_done :: "ep_id \<Rightarrow> usb \<Rightarrow> error + (bool \<times> usb)" where
  "ep_out_recv_data_done e s =
     (let ep = eps s e in
      bindE (BUG_if (dir_in ep \<or> in_flight ep \<noteq> RECV_DATA) ''0x726563762036'') (\<lambda>_.
      let (doeptsiz, s) = reg_read (rDOEPTSIZ (ep_n ep)) s;
          hw_xfer_left = doeptsiz AND (if ep_n ep = 0 then 0x7f else 0x7ffff) in
      bindE (ep_out_recv_compute_xfer ep) (\<lambda>(dma_offset, hw_xfer_size, packet_count).
      let data_received = hw_xfer_size - hw_xfer_left in
      bindE (ep_out_take e dma_offset data_received s) (\<lambda>s.
      ep_out_recv_finish e doeptsiz hw_xfer_left data_received packet_count s))))"

end
