(* ===== verification/UsbDev.thy ===== *)
theory UsbDev
  imports Usb
begin

unbundle bit_operations_syntax

text \<open>
  The USB device above the single endpoint, \<open>src/src/drivers/usb/synopsys_otg.c\<close> and
  \<open>src/src/shell/usbloader.c\<close>: activation, abort and reset of endpoints, the transfer interface with
  its callbacks, the KTRW channel, the upload of data and of commands, the requests on endpoint 0 and
  the interrupt handlers.

  A function pointer is one of the functions that are ever stored in it. \<open>alloc_contig\<close> gives a fresh
  object with unknown contents, or panics when there is no memory (\<open>usb_fresh\<close>); the wait for the
  running command is counted, and what other tasks do meanwhile does not touch this state. Where the
  driver waits for the controller the fuel bounds the number of reads.
\<close>

section \<open>Controlling the endpoints\<close>

definition ep_activate_state :: "u8 \<Rightarrow> bool \<Rightarrow> u8 \<Rightarrow> u16 \<Rightarrow> endpoint_state \<Rightarrow> endpoint_state" where
  "ep_activate_state n d type mps ep =
     reset_dma (ep\<lparr>ep_n := n AND 0x7f, dir_in := d, ep_type := type, max_packet_size := mps\<rparr>)"

definition ep_in_activate :: "ep_id \<Rightarrow> u8 \<Rightarrow> u8 \<Rightarrow> u16 \<Rightarrow> u8 \<Rightarrow> usb \<Rightarrow> usb" where
  "ep_in_activate e n type mps txfifo s =
     (let s = set_ep e (ep_activate_state n True type mps (eps s e)) s;
          r = rDIEPCTL (ep_n (eps s e));
          s = (if type = 2 \<or> type = 3 then
                 reg_write r (push_bit 28 1 OR push_bit 27 1 OR push_bit 22 (ucast txfifo) OR push_bit 18 (ucast type)
                   OR push_bit 15 1 OR ucast mps) (reg_write r 0 s)
               else s)
      in reg_or rDAINTMSK (push_bit (unat n) 1) s)"

definition ep_out_activate :: "ep_id \<Rightarrow> u8 \<Rightarrow> u8 \<Rightarrow> u16 \<Rightarrow> usb \<Rightarrow> usb" where
  "ep_out_activate e n type mps s =
     (let s = set_ep e (ep_activate_state n False type mps (eps s e)) s;
          r = rDOEPCTL (ep_n (eps s e));
          s = (if type = 2 \<or> type = 3 then
                 reg_write r (push_bit 28 1 OR push_bit 27 1 OR push_bit 18 (ucast type) OR push_bit 15 1 OR ucast mps)
                   (reg_write r 0 s)
               else s)
      in reg_or rDAINTMSK (push_bit (unat n + 16) 1) s)"

text \<open>Waiting until a bit of a register is set.\<close>

primrec reg_wait :: "nat \<Rightarrow> u32 \<Rightarrow> u32 \<Rightarrow> usb \<Rightarrow> error + usb" where
  "reg_wait 0 r b s = Inl OutOfFuel"
| "reg_wait (Suc k) r b s =
     (let (v, s) = reg_read r s in if v AND b \<noteq> 0 then Inr s else reg_wait k r b s)"

definition ep_clear :: "ep_id \<Rightarrow> usb \<Rightarrow> usb" where
  "ep_clear e s = set_ep e ((eps s e)\<lparr>transfer_size := 0, transferred := 0, in_flight := 0\<rparr>) s"

definition ep_in_abort :: "nat \<Rightarrow> ep_id \<Rightarrow> usb \<Rightarrow> error + usb" where
  "ep_in_abort k e s =
     (let s = ep_clear e s;
          n = ep_n (eps s e);
          (ctl, s) = reg_read (rDIEPCTL n) s
      in bindE (if ctl AND 0x80000000 \<noteq> 0 then reg_wait k (rDIEPINT n) 0x2 (reg_or (rDIEPCTL n) 0x40000000 s)
                else Inr s) (\<lambda>s.
         let (v, s) = reg_read (rDIEPINT n) s in Inr (reg_write (rDIEPINT n) v s)))"

definition ep_out_abort :: "nat \<Rightarrow> ep_id \<Rightarrow> usb \<Rightarrow> error + usb" where
  "ep_out_abort k e s =
     (let s = ep_clear e s;
          n = ep_n (eps s e);
          (ctl, s) = reg_read (rDOEPCTL n) s
      in bindE (if ctl AND 0x80000000 \<noteq> 0 then
                  bindE (reg_wait k rGINTSTS 0x80 (reg_or rDCTL 0x200 (reg_write rGINTSTS 0x80 s))) (\<lambda>s.
                  bindE (reg_wait k (rDOEPINT n) 0x2 (reg_or (rDOEPCTL n) 0x48000000 (reg_write rGINTSTS 0x80 s))) (\<lambda>s.
                  Inr (reg_or rDCTL 0x400 s)))
                else Inr s) (\<lambda>s.
         let (v, s) = reg_read (rDOEPINT n) s in Inr (reg_write (rDOEPINT n) v s)))"

definition ep_stall :: "ep_id \<Rightarrow> usb \<Rightarrow> usb" where
  "ep_stall e s =
     (let ep = eps s e
      in if dir_in ep then reg_or (rDIEPCTL (ep_n ep)) 0x200000 s else reg_or (rDOEPCTL (ep_n ep)) 0x200000 s)"

definition usb_set_address :: "u8 \<Rightarrow> usb \<Rightarrow> usb" where
  "usb_set_address address s =
     (let (dcfg, s) = reg_read rDCFG s
      in reg_write rDCFG ((dcfg AND NOT 0x7f0) OR (push_bit 4 (ucast address) AND 0x7f0)) s)"

section \<open>Descriptors\<close>

record endpoint_descriptor =
  bEndpointAddress :: u8
  bmAttributes :: u8
  wMaxPacketSize :: u16
  bInterval :: u8

definition endpoint_81 :: endpoint_descriptor where
  "endpoint_81 = \<lparr>bEndpointAddress = 0x81, bmAttributes = 3, wMaxPacketSize = INTR_EP_MAX_PACKET_SIZE, bInterval = 1\<rparr>"

definition endpoint_02 :: endpoint_descriptor where
  "endpoint_02 = \<lparr>bEndpointAddress = 0x02, bmAttributes = 2, wMaxPacketSize = BULK_EP_MAX_PACKET_SIZE, bInterval = 0\<rparr>"

definition endpoint_bytes :: "endpoint_descriptor \<Rightarrow> bytes" where
  "endpoint_bytes d = [7, 5, bEndpointAddress d, bmAttributes d] @ le_bytes 2 (wMaxPacketSize d) @ [bInterval d]"

definition device_descriptor :: bytes where
  "device_descriptor = [18, 1] @ le_bytes 2 (0x200 :: u16) @ [0, 0, 0, ucast EP0_MAX_PACKET_SIZE]
     @ le_bytes 2 (0x5ac :: u16) @ le_bytes 2 (0x4141 :: u16) @ le_bytes 2 (0 :: u16) @ [1, 2, 3, 1]"

definition configuration_descriptor :: bytes where
  "configuration_descriptor = [9, 2] @ le_bytes 2 (32 :: u16) @ [1, 1, 2, 0x80, 250]
     @ [9, 4, 0, 0, 2, 0xfe, 0x13, 0x37, 0] @ endpoint_bytes endpoint_81 @ endpoint_bytes endpoint_02"

text \<open>The offsets of the two fields of it that requests ask for.\<close>

definition bConfigurationValue_off :: nat where "bConfigurationValue_off = 5"
definition bAlternateSetting_off :: nat where "bAlternateSetting_off = 9 + 3"

definition string_descriptors :: "bytes \<Rightarrow> u8 \<Rightarrow> bytes" where
  "string_descriptors version i =
     (if i = 1 then ascii ''checkra1n team''
      else if i = 2 then ascii ''pongoOS USB Device''
      else ascii ''pongoOS / checkra1n '' @ version)"

definition string_descriptor_count :: u8 where "string_descriptor_count = 4"
definition MAX_USB_DESCRIPTOR_LENGTH :: nat where "MAX_USB_DESCRIPTOR_LENGTH = 63"

section \<open>Reset\<close>

definition usb_reset :: "nat \<Rightarrow> usb \<Rightarrow> error + usb" where
  "usb_reset k s =
     bindE (ep_in_abort k EP0_IN s) (\<lambda>s.
     bindE (ep_in_abort k EP1_IN s) (\<lambda>s.
     bindE (ep_in_abort k EP2_OUT s) (\<lambda>s.
     let s = usb_set_address 0 s;
         s = reg_write rDOEPMSK 0 s;
         s = reg_write rDIEPMSK 0 s;
         s = reg_write rDAINTMSK 0 s;
         s = reg_write (rDIEPINT 0) 0x1f s;
         s = reg_write (rDOEPINT 0) 0xf s;
         s = reg_write rGRXFSIZ 0x0000021b s;
         s = reg_write rGNPTXFSIZ 0x0010021b s;
         s = reg_write (rDTXFSIZ 1) 0x0040022b s;
         s = reg_write (rDTXFSIZ 2) 0x0100026b s;
         s = reg_write (rDTXFSIZ 3) 0x0100036b s;
         s = reg_write (rDTXFSIZ 4) 0x0100046b s;
         s = reg_write (rDOEPCTL 0) 0 s;
         s = reg_write (rDIEPCTL 0) 0 s;
         s = reg_or rGINTMSK 0xc0000 s;
         s = reg_write rDOEPMSK 0xd s;
         s = reg_write rDIEPMSK 0xd s;
         s = reg_write rDAINTMSK 0 s;
         s = ep_out_activate EP0_OUT 0 0 EP0_MAX_PACKET_SIZE s;
         s = ep_in_activate EP0_IN 0 0 EP0_MAX_PACKET_SIZE 0 s;
         s = ep_in_activate EP1_IN 1 (bmAttributes endpoint_81) (wMaxPacketSize endpoint_81) 2 s;
         s = ep_out_activate EP2_OUT 2 (bmAttributes endpoint_02) (wMaxPacketSize endpoint_02) s
     in ep_out_recv EP0_OUT s)))"

section \<open>Transfers\<close>

definition ep0_begin_data_in_stage :: "ptr \<Rightarrow> u32 \<Rightarrow> status_out_callback option \<Rightarrow> usb \<Rightarrow> error + usb" where
  "ep0_begin_data_in_stage data sz0 cb s =
     (let req = ucast (wLength (ep0_setup_packet s));
          sz = (if sz0 > req then req else sz0);
          s = s\<lparr>status_out_stage_callback := cb\<rparr>;
          dma = default_xfer_dma_data (eps s EP0_IN)
      in bindE (BUG_if (sz > default_xfer_dma_size (eps s EP0_IN)) ''0x64696e32626967'') (\<lambda>_.
         bindE (mem_copy dma data (unat sz) s) (\<lambda>s.
         ep_in_send_data EP0_IN dma sz s)))"

definition ep0_begin_data_out_stage :: "data_out_callback \<Rightarrow> usb \<Rightarrow> error + usb" where
  "ep0_begin_data_out_stage cb s =
     (let s = s\<lparr>data_out_stage_callback := Some cb\<rparr>;
          req = ucast (wLength (ep0_setup_packet s))
      in bindE (BUG_if (req > default_xfer_dma_size (eps s EP0_OUT)) ''0x646f7532626967'') (\<lambda>_.
         ep_out_recv_data EP0_OUT (default_xfer_dma_data (eps s EP0_OUT)) req s))"

definition lookup_endpoint :: "u8 \<Rightarrow> bool \<Rightarrow> ep_id option" where
  "lookup_endpoint ep_addr d =
     (if d then if ep_addr = 0x81 then Some EP1_IN else None
      else if ep_addr = 0x02 then Some EP2_OUT else None)"

definition usb_in_transfer :: "u8 \<Rightarrow> ptr \<Rightarrow> u32 \<Rightarrow> in_callback \<Rightarrow> usb \<Rightarrow> error + usb" where
  "usb_in_transfer ep_addr data sz cb s =
     (case lookup_endpoint ep_addr True of
        None \<Rightarrow> Inl (Panic ''USB BUG: 0x6e6f206570'')
      | Some ep \<Rightarrow>
          bindE (BUG_if (in_transfer_done s \<noteq> None) ''0x636220736574'') (\<lambda>_.
          ep_in_send_data ep data sz (s\<lparr>in_transfer_done := Some cb\<rparr>)))"

definition usb_out_transfer :: "u8 \<Rightarrow> ptr \<Rightarrow> u32 \<Rightarrow> out_callback \<Rightarrow> usb \<Rightarrow> error + usb" where
  "usb_out_transfer ep_addr data sz cb s =
     (case lookup_endpoint ep_addr False of
        None \<Rightarrow> Inl (Panic ''USB BUG: 0x6e6f206570'')
      | Some ep \<Rightarrow>
          bindE (BUG_if (out_transfer_done s \<noteq> None) ''0x636220736574'') (\<lambda>_.
          ep_out_recv_data ep data sz (s\<lparr>out_transfer_done := Some cb\<rparr>)))"

definition usb_out_transfer_dma :: "u8 \<Rightarrow> ptr \<Rightarrow> u32 \<Rightarrow> u32 \<Rightarrow> out_callback \<Rightarrow> usb \<Rightarrow> error + usb" where
  "usb_out_transfer_dma ep_addr data dma sz cb s =
     (case lookup_endpoint ep_addr False of
        None \<Rightarrow> Inl (Panic ''USB BUG: 0x6e6f206570'')
      | Some ep \<Rightarrow>
          bindE (BUG_if (out_transfer_done s \<noteq> None) ''0x636220736574'') (\<lambda>_.
          ep_out_recv_data_dma ep data dma sz (s\<lparr>out_transfer_done := Some cb\<rparr>)))"

section \<open>The KTRW channel\<close>

definition KTRW_BUFFER :: u16 where "KTRW_BUFFER = 0x1000"

definition ktrw_send_done :: "usb \<Rightarrow> error + usb" where
  "ktrw_send_done s =
     bindE (BUG_if (ktrw_send_in_flight s > ktrw_send_count s) ''0x6966203e207363'') (\<lambda>_.
     let send_left = ktrw_send_count s - ktrw_send_in_flight s in
     bindE (mem_copy (At KtrwSendData 0) (At KtrwSendData (unat (ktrw_send_in_flight s))) (unat send_left) s) (\<lambda>s.
     let s = s\<lparr>ktrw_send_count := send_left, ktrw_send_in_flight := send_left\<rparr>
     in if send_left > 0 then usb_in_transfer 0x81 (At KtrwSendData 0) (ucast send_left) Ktrw_send_done s else Inr s))"

definition ktrw_recv_done :: "ptr \<Rightarrow> u32 \<Rightarrow> usb \<Rightarrow> error + (bool \<times> usb)" where
  "ktrw_recv_done data sz s =
     (let capacity = KTRW_BUFFER - ktrw_recv_count s
      in if ucast capacity < sz then Inr (False, s)
         else let copy_size = (if ucast capacity > sz then ucast sz else capacity) :: u16
              in bindE (mem_copy (At KtrwRecvData (unat (ktrw_recv_count s))) data (unat copy_size) s) (\<lambda>s.
                 Inr (True, s\<lparr>ktrw_recv_count := ktrw_recv_count s + copy_size\<rparr>)))"

definition ktrw_recv :: "u16 \<Rightarrow> usb \<Rightarrow> error + (bool \<times> usb)" where
  "ktrw_recv len s =
     (if len > KTRW_BUFFER - ktrw_recv_count s then Inr (False, s)
      else bindE (ep0_begin_data_out_stage Ktrw_recv_done s) (\<lambda>s. Inr (True, s)))"

definition ep0_vendor_request :: "setup_packet \<Rightarrow> usb \<Rightarrow> error + (bool \<times> usb)" where
  "ep0_vendor_request setup s =
     (if bmRequestType setup AND 0x80 = 0 \<and> bRequest setup = 0x41 \<and> wIndex setup = 0x1337
      then ktrw_recv (wLength setup) s else Inr (False, s))"

text \<open>\<open>usb_read\<close> returns what it copied to the caller's buffer; \<open>usb_write\<close> is given the caller's bytes.\<close>

definition usb_read :: "u64 \<Rightarrow> usb \<Rightarrow> error + (bytes \<times> usb)" where
  "usb_read sz s =
     (let count = ucast (ktrw_recv_count s) :: u64;
          read_size = (if count > sz then sz else count);
          recv_left = count - read_size
      in bindE (mem_read (At KtrwRecvData 0) (unat read_size) s) (\<lambda>bs.
         bindE (mem_copy (At KtrwRecvData 0) (At KtrwRecvData (unat read_size)) (unat recv_left) s) (\<lambda>s.
         Inr (bs, s\<lparr>ktrw_recv_count := ucast recv_left\<rparr>))))"

definition usb_write :: "bytes \<Rightarrow> u64 \<Rightarrow> usb \<Rightarrow> error + (u64 \<times> usb)" where
  "usb_write data sz s =
     (let room = ucast KTRW_BUFFER - ucast (ktrw_send_count s) :: u64;
          write_size = (if room > sz then sz else room)
      in bindE (chunk data 0 (unat write_size)) (\<lambda>bs.
         bindE (mem_write (At KtrwSendData (unat (ktrw_send_count s))) bs s) (\<lambda>s.
         Inr (write_size, s\<lparr>ktrw_send_count := ucast (ucast (ktrw_send_count s) + write_size)\<rparr>))))"

definition usb_write_commit :: "usb \<Rightarrow> error + usb" where
  "usb_write_commit s =
     (if ktrw_send_count s > 0 \<and> ktrw_send_in_flight s = 0 then
        usb_in_transfer 0x81 (At KtrwSendData 0) (ucast (ktrw_send_count s)) Ktrw_send_done
          (s\<lparr>ktrw_send_in_flight := ktrw_send_count s\<rparr>)
      else Inr s)"

end
