(* ===== verification/UsbReq.thy ===== *)
theory UsbReq
  imports UsbDev
begin

unbundle bit_operations_syntax

text \<open>
  What the USB device answers: \<open>src/src/shell/usbloader.c\<close>, the requests and the interrupt handlers of
  \<open>src/src/drivers/usb/synopsys_otg.c\<close>, and the bring-up of the driver's state.
\<close>

section \<open>The loader\<close>

definition UPLOADSZ :: u32 where "UPLOADSZ = 1024 * 1024"
definition UPLOADSZ_MAX :: u32 where "UPLOADSZ_MAX = 1024 * 1024 * 128"

definition usb_alloc :: "u32 \<Rightarrow> usb \<Rightarrow> error + (ptr \<times> usb)" where
  "usb_alloc sz s =
     (case usb_fresh s (usb_allocs s) sz of
        None \<Rightarrow> Inl (Panic ''alloc_phys: OOM'')
      | Some f \<Rightarrow>
          let b = LoaderXfer (usb_allocs s)
          in Inr (At b 0, s\<lparr>usb_mem := (usb_mem s)(b \<mapsto> map f [0..<unat sz]), usb_allocs := Suc (usb_allocs s)\<rparr>))"

definition usb_free :: "ptr \<Rightarrow> usb \<Rightarrow> usb" where
  "usb_free p s = (case p of Null \<Rightarrow> s | At b i \<Rightarrow> s\<lparr>usb_mem := (usb_mem s)(b := None)\<rparr>)"

definition usbloader_xfer_done_cb :: "u32 \<Rightarrow> usb \<Rightarrow> usb" where
  "usbloader_xfer_done_cb n s =
     (if \<not> usbloader_is_waiting_xfer s then s
      else let s = cache_invalidate (loader_xfer_recv_data s) (loader_xfer_recv_count s) s
           in s\<lparr>loader_xfer_recv_count := n, usbloader_is_waiting_xfer := False\<rparr>)"

text \<open>The standard input is a state of its own; it sees the nesting depth of the interrupt masking.\<close>

definition with_io :: "(io \<Rightarrow> error + 'a \<times> io) \<Rightarrow> usb \<Rightarrow> error + ('a \<times> usb)" where
  "with_io f s =
     bindE (f ((usb_io s)\<lparr>io_dis_int := dis_int_count s\<rparr>)) (\<lambda>(x, io). Inr (x, s\<lparr>usb_io := io\<rparr>))"

definition io_unit :: "(io \<Rightarrow> error + io) \<Rightarrow> usb \<Rightarrow> error + usb" where
  "io_unit f s = bindE (with_io (\<lambda>io. bindE (f io) (\<lambda>io. Inr ((), io))) s) (\<lambda>(u, s). Inr s)"

primrec write_stdin_loop :: "nat \<Rightarrow> ptr \<Rightarrow> u32 \<Rightarrow> usb \<Rightarrow> error + usb" where
  "write_stdin_loop 0 data i s = Inr s"
| "write_stdin_loop (Suc k) data i s =
     bindE (mem_read (ptr_add data i) 1 s) (\<lambda>bs.
     let c = hd bs
     in if c = 0 then Inr s
        else bindE (io_unit (queue_rx_char c) s) (\<lambda>s. write_stdin_loop k data (i + 1) s))"

definition usb_write_stdin :: "ptr \<Rightarrow> u32 \<Rightarrow> usb \<Rightarrow> error + (bool \<times> usb)" where
  "usb_write_stdin data sz s =
     bindE (enable_interrupts s) (\<lambda>s.
     bindE (write_stdin_loop (unat sz) data 0 s) (\<lambda>s.
     let s = (if should_wait_for_cmd_handler s then s\<lparr>handler_waits := handler_waits s + 1\<rparr> else s) in
     bindE (disable_interrupts s) (\<lambda>s. Inr (True, s))))"

definition resize_loader_xfer_data :: "u32 \<Rightarrow> usb \<Rightarrow> error + usb" where
  "resize_loader_xfer_data newsz s =
     bindE (panic_if (newsz > UPLOADSZ_MAX) ''resize_loader_xfer_data'') (\<lambda>_.
     bindE (disable_interrupts s) (\<lambda>s.
     bindE (if newsz > loader_xfer_recv_size s then
              bindE (usb_alloc newsz s) (\<lambda>(new_xfer_buffer, s).
              bindE (mem_copy new_xfer_buffer (loader_xfer_recv_data s) (unat (loader_xfer_recv_count s)) s) (\<lambda>s.
              Inr ((usb_free (loader_xfer_recv_data s) s)\<lparr>loader_xfer_recv_size := newsz,
                     loader_xfer_recv_data := new_xfer_buffer\<rparr>)))
            else Inr s) enable_interrupts))"

definition loader_recv :: "usb \<Rightarrow> error + usb" where
  "loader_recv s =
     usb_out_transfer_dma 2 (loader_xfer_recv_data s) (ucast (usb_vatophys s (loader_xfer_recv_data s)))
       (loader_xfer_size s) Usbloader_xfer_done_cb s"

definition reallocate_loader_xfer_data :: "ptr \<Rightarrow> u32 \<Rightarrow> usb \<Rightarrow> error + (bool \<times> usb)" where
  "reallocate_loader_xfer_data data sz s =
     bindE (panic_if (sz \<noteq> 4) ''reallocate_loader_xfer_data'') (\<lambda>_.
     bindE (mem_read data 4 s) (\<lambda>bs.
     let newsz = (le_val bs + 0x1ff) AND NOT 0x1ff
     in if newsz > UPLOADSZ_MAX then Inr (False, s)
        else bindE (resize_loader_xfer_data newsz (s\<lparr>loader_xfer_recv_count := 0, usbloader_is_waiting_xfer := True\<rparr>)) (\<lambda>s.
             bindE (loader_recv (s\<lparr>loader_xfer_size := newsz\<rparr>)) (\<lambda>s. Inr (True, s)))))"

definition usbloader_init :: "usb \<Rightarrow> error + usb" where
  "usbloader_init s =
     bindE (usb_alloc UPLOADSZ s) (\<lambda>(p, s).
     Inr (s\<lparr>loader_xfer_recv_data := p, loader_xfer_size := UPLOADSZ, loader_xfer_recv_size := UPLOADSZ,
       loader_xfer_recv_count := 0\<rparr>))"

definition ep0_device_out :: "setup_packet \<Rightarrow> usb \<Rightarrow> error + (bool \<times> usb)" where
  "ep0_device_out setup s =
     (if bRequest setup = 1 \<and> wLength setup = 0 then
        if usbloader_is_waiting_xfer s then Inr (False, s)
        else bindE (loader_recv (s\<lparr>loader_xfer_recv_count := 0, usbloader_is_waiting_xfer := True\<rparr>)) (\<lambda>s. Inr (True, s))
      else if bRequest setup = 2 \<and> wLength setup = 0 then
        Inr (True, if usbloader_is_waiting_xfer s then s else s\<lparr>loader_xfer_recv_count := 0\<rparr>)
      else if bRequest setup = 3 \<and> wLength setup > 0 \<and> wLength setup \<le> 512 then
        bindE (ep0_begin_data_out_stage Usb_write_stdin s) (\<lambda>s. Inr (True, s))
      else if bRequest setup = 4 \<and> wValue setup = 0 then
        bindE (io_unit (set_stdout_blocking False) (s\<lparr>should_wait_for_cmd_handler := True\<rparr>)) (\<lambda>s. Inr (True, s))
      else if bRequest setup = 4 \<and> wValue setup = 1 then
        bindE (io_unit (set_stdout_blocking True) (s\<lparr>should_wait_for_cmd_handler := False\<rparr>)) (\<lambda>s. Inr (True, s))
      else if bRequest setup = 4 \<and> wValue setup = 0xffff then
        bindE (io_unit (set_stdout_blocking False) (s\<lparr>should_wait_for_cmd_handler := False\<rparr>)) (\<lambda>s. Inr (True, s))
      else if bRequest setup = 1 \<and> wLength setup = 4 then
        if usbloader_is_waiting_xfer s then Inr (False, s)
        else bindE (ep0_begin_data_out_stage Reallocate_loader_xfer_data s) (\<lambda>s. Inr (True, s))
      else Inr (False, s))"

text \<open>The answer with the last characters of the standard output.\<close>

definition stdout_window :: "nat \<Rightarrow> nat \<Rightarrow> nat \<times> nat" where
  "stdout_window xferlen req = (if xferlen > req then (xferlen - req, req) else (0, xferlen))"

definition ep0_stdout_request :: "setup_packet \<Rightarrow> usb \<Rightarrow> error + (bool \<times> usb)" where
  "ep0_stdout_request setup s =
     bindE (with_io fetch_stdoutbuf s) (\<lambda>(out, s).
     bindE (mem_write (At StdoutbufCopy 0) out s) (\<lambda>s.
     let w = stdout_window (length out) (unat (wLength setup)) in
     bindE (ep0_begin_data_in_stage (At StdoutbufCopy (fst w)) (of_nat (snd w)) (Some Usb_read_stdout_cb) s) (\<lambda>s.
     Inr (True, s))))"

definition ep0_device_in :: "setup_packet \<Rightarrow> usb \<Rightarrow> error + (bool \<times> usb)" where
  "ep0_device_in setup s =
     (if bRequest setup = 1 \<and> (wLength setup = 512 \<or> wLength setup = 0x1000) then ep0_stdout_request setup s
      else if bRequest setup = 2 \<and> wLength setup = 1 then
        let s = s\<lparr>usb_mem := (usb_mem s)(StackLocal \<mapsto> [command_in_progress s])\<rparr>
        in bindE (ep0_begin_data_in_stage (At StackLocal 0) 1 (Some Usb_read_stdout_cb) s) (\<lambda>s. Inr (True, s))
      else Inr (False, s))"

definition ep0_device_request :: "setup_packet \<Rightarrow> usb \<Rightarrow> error + (bool \<times> usb)" where
  "ep0_device_request setup s =
     (if bmRequestType setup = 0x21 then ep0_device_out setup s
      else if bmRequestType setup = 0xA1 then ep0_device_in setup s
      else Inr (False, s))"

section \<open>Standard requests\<close>

text \<open>The descriptor is built in a local variable of 2 + 126 bytes, of which only the bytes written are
  ever read; the characters are signed.\<close>

definition string_descriptor_bytes :: "bytes \<Rightarrow> u8 \<Rightarrow> bytes" where
  "string_descriptor_bytes version i =
     (let utf16 = (if i = 0 then [0x0409 :: u16]
                   else map scast (take MAX_USB_DESCRIPTOR_LENGTH (string_descriptors version i)))
      in [of_nat (2 + 2 * length utf16), 3] @ concat (map (le_bytes 2) utf16))"

definition get_string_descriptor :: "u8 \<Rightarrow> usb \<Rightarrow> error + (bool \<times> usb)" where
  "get_string_descriptor i s =
     (if i \<ge> string_descriptor_count then Inr (False, s)
      else let sd = string_descriptor_bytes (pongo_version s) i;
               s = s\<lparr>usb_mem := (usb_mem s)(StackLocal \<mapsto> sd)\<rparr>
           in bindE (ep0_begin_data_in_stage (At StackLocal 0) (of_nat (length sd)) None s) (\<lambda>s. Inr (True, s)))"

definition ep0_get_descriptor_request :: "setup_packet \<Rightarrow> usb \<Rightarrow> error + (bool \<times> usb)" where
  "ep0_get_descriptor_request setup s =
     (let type = ucast (drop_bit 8 (wValue setup)) :: u8;
          i = ucast (wValue setup AND 0xff) :: u8
      in if type = 1 then bindE (ep0_begin_data_in_stage (At DeviceDescriptor 0) 18 None s) (\<lambda>s. Inr (True, s))
         else if type = 2 then bindE (ep0_begin_data_in_stage (At ConfigurationDescriptor 0) 32 None s) (\<lambda>s. Inr (True, s))
         else if type = 3 then get_string_descriptor i s
         else Inr (False, s))"

definition ep0_standard_in_request :: "setup_packet \<Rightarrow> usb \<Rightarrow> error + (bool \<times> usb)" where
  "ep0_standard_in_request setup s =
     (if bRequest setup = 6 then ep0_get_descriptor_request setup s
      else if bRequest setup = 8 then
        bindE (ep0_begin_data_in_stage (At ConfigurationDescriptor bConfigurationValue_off) 1 None s) (\<lambda>s. Inr (True, s))
      else if bRequest setup = 10 then
        bindE (ep0_begin_data_in_stage (At ConfigurationDescriptor bAlternateSetting_off) 1 None s) (\<lambda>s. Inr (True, s))
      else Inr (False, s))"

definition ep0_standard_out_request :: "setup_packet \<Rightarrow> usb \<Rightarrow> bool \<times> usb" where
  "ep0_standard_out_request setup s =
     (if bRequest setup = 5 then (True, usb_set_address (ucast (wValue setup AND 0x7f)) s)
      else (bRequest setup = 9 \<or> bRequest setup = 11, s))"

definition ep0_standard_request :: "setup_packet \<Rightarrow> usb \<Rightarrow> error + (bool \<times> usb)" where
  "ep0_standard_request setup s =
     (if bmRequestType setup AND 0x80 = 0x80 then ep0_standard_in_request setup s
      else Inr (ep0_standard_out_request setup s))"

definition ep0_setup_stage :: "setup_packet \<Rightarrow> usb \<Rightarrow> error + (bool \<times> usb)" where
  "ep0_setup_stage setup s =
     (let type = bmRequestType setup AND 0x60 in
      bindE (enable_interrupts s) (\<lambda>s.
      bindE (if type = 0 then ep0_standard_request setup s
             else if type = 0x20 then ep0_device_request setup s
             else if type = 0x40 then ep0_vendor_request setup s
             else Inr (False, s)) (\<lambda>(rv, s).
      bindE (disable_interrupts s) (\<lambda>s. Inr (rv, s)))))"

section \<open>Interrupts of endpoint 0\<close>

definition ep0_in_done :: "usb \<Rightarrow> error + usb" where
  "ep0_in_done s =
     (let setup = ep0_setup_packet s
      in if bmRequestType setup AND 0x80 \<noteq> 0 then
           let requested = wLength setup;
               sent = ucast (transferred (eps s EP0_IN)) :: u16;
               partial = (sent = 0 \<or> sent mod EP0_MAX_PACKET_SIZE \<noteq> 0)
           in if requested > sent \<and> \<not> partial then ep_in_send_data EP0_IN Null 0 s
              else bindE (ep_out_recv_data EP0_OUT (default_xfer_dma_data (eps s EP0_OUT)) 0 s) (ep_out_recv EP0_OUT)
         else Inr s)"

definition ep0_in_interrupt :: "usb \<Rightarrow> error + usb" where
  "ep0_in_interrupt s =
     (let (diepint, s) = reg_read (rDIEPINT 0) s;
          s = reg_write (rDIEPINT 0) diepint s
      in bindE (if diepint AND 0x1 \<noteq> 0 then
                  bindE (ep_in_send_done EP0_IN s) (\<lambda>(done, s). if done then ep0_in_done s else Inr s)
                else Inr s) (\<lambda>s.
         bindE (BUG_if (diepint AND 0x4 \<noteq> 0) ''0x61686220696e'') (\<lambda>_. Inr s)))"

definition parse_setup :: "bytes \<Rightarrow> setup_packet" where
  "parse_setup bs = \<lparr>bmRequestType = bs ! 0, bRequest = bs ! 1, wValue = le_val (take 2 (drop 2 bs)),
     wIndex = le_val (take 2 (drop 4 bs)), wLength = le_val (take 2 (drop 6 bs))\<rparr>"

definition ep0_take_setup :: "usb \<Rightarrow> error + usb" where
  "ep0_take_setup s =
     bindE (ep_out_recv_setup_done EP0_OUT s) (\<lambda>(setup, s).
     bindE (mem_read setup 8 s) (\<lambda>bs.
     Inr (s\<lparr>ep0_setup_packet := parse_setup bs, setup_packet_pending := True,
        data_out_stage_callback := None, status_out_stage_callback := None\<rparr>)))"

definition ep0_process_setup :: "usb \<Rightarrow> error + usb" where
  "ep0_process_setup s =
     (let s = s\<lparr>setup_packet_pending := False\<rparr>;
          setup = ep0_setup_packet s
      in bindE (if ucast (wLength setup) \<le> DMA_BUFFER_SIZE then ep0_setup_stage setup s else Inr (False, s)) (\<lambda>(success, s).
         let to_host = (bmRequestType (ep0_setup_packet s) AND 0x80 \<noteq> 0);
             has_data = (wLength (ep0_setup_packet s) > 0)
         in if success then
              if to_host \<or> has_data then Inr s else ep_in_send_data EP0_IN Null 0 s
            else Inr (ep_stall (if to_host \<or> \<not> has_data then EP0_IN else EP0_OUT) s)))"

definition call_data_out :: "data_out_callback \<Rightarrow> ptr \<Rightarrow> u32 \<Rightarrow> usb \<Rightarrow> error + (bool \<times> usb)" where
  "call_data_out cb data sz s =
     (case cb of
        Ktrw_recv_done \<Rightarrow> ktrw_recv_done data sz s
      | Usb_write_stdin \<Rightarrow> usb_write_stdin data sz s
      | Reallocate_loader_xfer_data \<Rightarrow> reallocate_loader_xfer_data data sz s)"

definition usb_read_stdout_cb :: "usb \<Rightarrow> usb" where "usb_read_stdout_cb s = s"

definition call_status_out :: "status_out_callback \<Rightarrow> usb \<Rightarrow> usb" where
  "call_status_out cb s = (case cb of Usb_read_stdout_cb \<Rightarrow> usb_read_stdout_cb s)"

definition ep0_out_data_done :: "usb \<Rightarrow> error + usb" where
  "ep0_out_data_done s =
     (let ep = eps s EP0_OUT
      in if bmRequestType (ep0_setup_packet s) AND 0x80 \<noteq> 0 then
           if transferred ep \<noteq> 0 \<or> transfer_size ep \<noteq> 0 then Inr (ep_stall EP0_OUT s)
           else (case status_out_stage_callback s of
                   None \<Rightarrow> Inr s
                 | Some cb \<Rightarrow> Inr ((call_status_out cb s)\<lparr>status_out_stage_callback := None\<rparr>))
         else if transferred ep \<noteq> transfer_size ep then Inr (ep_stall EP0_OUT s)
         else (case data_out_stage_callback s of
                 None \<Rightarrow> Inl (Panic ''USB BUG: 0x6e6f20646f206362'')
               | Some cb \<Rightarrow>
                   bindE (call_data_out cb (transfer_data ep) (transfer_size ep) s) (\<lambda>(success, s).
                   let s = s\<lparr>data_out_stage_callback := None\<rparr>
                   in if success then ep_in_send_data EP0_IN Null 0 s else Inr (ep_stall EP0_IN s))))"

definition ep0_out_interrupt :: "usb \<Rightarrow> error + usb" where
  "ep0_out_interrupt s =
     (let (doepint, s) = reg_read (rDOEPINT 0) s;
          s = reg_write (rDOEPINT 0) doepint s;
          is_setup = (doepint AND 0x8008 \<noteq> 0);
          is_data = (\<not> is_setup \<and> doepint AND 0x1 \<noteq> 0)
      in bindE (if is_setup then ep0_take_setup s else Inr s) (\<lambda>s.
         bindE (if doepint AND 0x8 \<noteq> 0 \<and> setup_packet_pending s then ep0_process_setup s
                else if is_data then
                  if doepint AND 0x20 = 0x20 then Inr s
                  else bindE (ep_out_recv_data_done EP0_OUT s) (\<lambda>(done, s). if done then ep0_out_data_done s else Inr s)
                else Inr s) (\<lambda>s.
         bindE (BUG_if (doepint AND 0x4 \<noteq> 0) ''0x616862206f7574'') (\<lambda>_.
         ep_out_recv EP0_OUT s))))"

section \<open>Interrupts of the other endpoints\<close>

definition ep1_in_interrupt :: "usb \<Rightarrow> error + usb" where
  "ep1_in_interrupt s =
     (let (diepint, s) = reg_read (rDIEPINT 1) s;
          s = reg_write (rDIEPINT 1) diepint s
      in bindE (if diepint AND 0x1 \<noteq> 0 then
                  bindE (ep_in_send_done EP1_IN s) (\<lambda>(done, s).
                  if done then
                    (case in_transfer_done s of
                       None \<Rightarrow> Inl (Panic ''USB BUG: 0x6e6f203169206362'')
                     | Some Ktrw_send_done \<Rightarrow> ktrw_send_done (s\<lparr>in_transfer_done := None\<rparr>))
                  else Inr s)
                else Inr s) (\<lambda>s.
         bindE (BUG_if (diepint AND 0x4 \<noteq> 0) ''0x61686220696e2031'') (\<lambda>_. Inr s)))"

text \<open>The dump of the registers prints nothing in a build without \<open>USB_DEBUG_LEVEL\<close>.\<close>

definition USB_DEBUG_PRINT_REGISTERS :: "usb \<Rightarrow> error + usb" where
  "USB_DEBUG_PRINT_REGISTERS s = bindE (disable_interrupts s) enable_interrupts"

definition ep2_out_done :: "usb \<Rightarrow> error + usb" where
  "ep2_out_done s =
     (case out_transfer_done s of
        None \<Rightarrow> Inl (Panic ''USB BUG: 0x6e6f203169206362'')
      | Some Usbloader_xfer_done_cb \<Rightarrow>
          Inr (usbloader_xfer_done_cb (transferred (eps s EP2_OUT)) (s\<lparr>out_transfer_done := None\<rparr>)))"

definition ep2_out_interrupt :: "usb \<Rightarrow> error + usb" where
  "ep2_out_interrupt s =
     (let (doepint, s) = reg_read (rDOEPINT 2) s;
          s = reg_write (rDOEPINT 2) doepint s
      in bindE (if doepint AND 0x1 \<noteq> 0 then
                  bindE (ep_out_recv_data_done EP2_OUT s) (\<lambda>(done, s). if done then ep2_out_done s else Inr s)
                else Inr s) (\<lambda>s.
         bindE (if doepint AND 0x8 \<noteq> 0 then USB_DEBUG_PRINT_REGISTERS s else Inr s) (\<lambda>s.
         bindE (BUG_if (doepint AND 0x4 \<noteq> 0) ''0x61686220696e2031'') (\<lambda>_. Inr s))))"

definition usb_ep_interrupt :: "usb \<Rightarrow> error + usb" where
  "usb_ep_interrupt s =
     (let (daint, s) = reg_read rDAINT s in
      bindE (if bit daint 0 then ep0_in_interrupt s else Inr s) (\<lambda>s.
      bindE (if bit daint 1 then ep1_in_interrupt s else Inr s) (\<lambda>s.
      bindE (if bit daint 16 then ep0_out_interrupt s else Inr s) (\<lambda>s.
      if bit daint 18 then ep2_out_interrupt s else Inr s))))"

text \<open>The loop of the handler keeps the interrupts it has seen but not served; \<open>k\<close> bounds its rounds and
  the waits of a reset.\<close>

primrec usb_handler_loop :: "nat \<Rightarrow> u32 \<Rightarrow> usb \<Rightarrow> error + usb" where
  "usb_handler_loop 0 gintsts s = Inl OutOfFuel"
| "usb_handler_loop (Suc k) gintsts s =
     (let (v, s) = reg_read rGINTSTS s;
          gintsts = gintsts OR v
      in bindE (if gintsts AND 0x1000 \<noteq> 0 then bindE (usb_reset k s) (\<lambda>s. Inr (reg_write rGINTSTS 0x1000 s)) else Inr s) (\<lambda>s.
         bindE (if gintsts AND 0xC0000 \<noteq> 0 then bindE (usb_ep_interrupt s) (\<lambda>s. Inr (reg_write rGINTSTS 0xc0000 s)) else Inr s) (\<lambda>s.
         if gintsts AND 0xc1000 = 0 then Inr s else usb_handler_loop k (gintsts AND NOT 0xc1000) s)))"

definition usb_handler :: "nat \<Rightarrow> usb \<Rightarrow> error + usb" where
  "usb_handler k s = usb_handler_loop k 0 s"

text \<open>A round of the driver's task, in the mode that is built: the task handles the interrupt itself.\<close>

definition usb_main_round :: "nat \<Rightarrow> usb \<Rightarrow> error + usb" where
  "usb_main_round k s =
     bindE (disable_interrupts s) (\<lambda>s. bindE (usb_handler k s) enable_interrupts)"

section \<open>Bring-up\<close>

text \<open>The clock gates and the interrupt line of a platform.\<close>

definition usb_platform :: "u32 \<Rightarrow> u64 \<Rightarrow> error + (u64 \<times> u64 \<times> u64 \<times> u32)" where
  "usb_platform socnum io =
     (if socnum = 0x8960 then Inr (io + 0x0e020158, io + 0x0e020160, io + 0x0e020188, 162)
      else if socnum = 0x7000 \<or> socnum = 0x7001 then Inr (io + 0x0e020248, io + 0x0e020250, io + 0x0e020288, 182)
      else if socnum = 0x8000 \<or> socnum = 0x8003 then Inr (io + 0x0e080250, io + 0x0e080258, io + 0x0e080290, 214)
      else if socnum = 0x8001 then Inr (io + 0x0e080278, io + 0x0e080280, io + 0x0e0802B8, 241)
      else if socnum = 0x8010 then Inr (io + 0x0e080268, io + 0x0e080270, io + 0x0e080290, 241)
      else if socnum = 0x8011 then Inr (io + 0x0e080288, io + 0x0e080290, io + 0x0e0802a0, 243)
      else if socnum = 0x8012 then Inr (io + 0x0e080268, io + 0x0e080270, io + 0x0e080290, 304)
      else if socnum = 0x8015 then Inr (io + 0x32080270, io + 0x32080278, io + 0x32080270, 324)
      else Inl (Panic ''USB: unsupported platform''))"

definition set_default_dma :: "ep_id \<Rightarrow> u32 \<Rightarrow> u64 \<Rightarrow> usb \<Rightarrow> usb" where
  "set_default_dma e k dma_page_p s =
     set_ep e ((eps s e)\<lparr>default_xfer_dma_data := At DmaPage (unat (k * DMA_BUFFER_SIZE)),
       default_xfer_dma_phys := ucast (dma_page_p + ucast (k * DMA_BUFFER_SIZE)),
       default_xfer_dma_size := DMA_BUFFER_SIZE\<rparr>) s"

text \<open>\<open>usb_init\<close> from the DMA page on, up to the start of the task. The registers of the PHY are not
  part of the controller and are left out.\<close>

definition usb_init_state :: "u64 \<Rightarrow> usb \<Rightarrow> error + usb" where
  "usb_init_state dma_page_p s =
     (let s = s\<lparr>usb_mem := (usb_mem s)(DmaPage \<mapsto> replicate (unat (4 * DMA_BUFFER_SIZE)) 0)\<rparr>;
          s = cache_clean_and_invalidate (At DmaPage 0) (4 * DMA_BUFFER_SIZE) s
      in bindE (disable_interrupts s) (\<lambda>s.
         let (v, s) = reg_read rGSNPSID s;
             s = reg_or rDCTL 0x2 s;
             s = reg_write rGAHBCFG (0x2e OR 1) s;
             s = reg_write rGUSBCFG 0x1408 s;
             s = reg_write rDCFG 0x4 s;
             s = reg_write rGINTMSK 0 s;
             s = reg_write rDOEPMSK 0 s;
             s = reg_write rDIEPMSK 0 s;
             s = reg_write rDAINTMSK 0 s;
             s = reg_write (rDIEPINT 0) 0x1f s;
             s = reg_write (rDOEPINT 0) 0xf s;
             s = reg_write rGINTMSK 0x1000 s;
             s = reg_and rDCTL (NOT 0x2) s;
             s = ep_out_activate EP0_OUT 0 0 EP0_MAX_PACKET_SIZE s;
             s = ep_in_activate EP0_IN 0 0 EP0_MAX_PACKET_SIZE 0 s;
             s = set_default_dma EP0_OUT 0 dma_page_p s;
             s = set_default_dma EP0_IN 1 dma_page_p s;
             s = set_default_dma EP1_IN 2 dma_page_p s;
             s = set_default_dma EP2_OUT 3 dma_page_p s
         in enable_interrupts s))"

definition usb_teardown :: "u64 \<Rightarrow> usb \<Rightarrow> usb" where
  "usb_teardown otg_base s =
     (if otg_base = 0 then s else reg_or rDCTL 0x2 (reg_write rGAHBCFG 0x2e s))"

end
