(* ===== verification/UsbSend.thy ===== *)
theory UsbSend
  imports UsbReq
begin

unbundle bit_operations_syntax

text \<open>
  IN transfers. The controller sends what the last values written to its DMA address and size
  registers describe; \<open>in_xfer\<close> lets it do so and hands it back to \<open>ep_in_send_done\<close> until the driver
  says that the transfer is over. The lemmas follow the transferred amount through one such round.
\<close>

section \<open>The registers as they were programmed\<close>

definition programmed :: "u32 \<Rightarrow> usb_event list \<Rightarrow> u32" where
  "programmed r tr = foldl (\<lambda>v ev. case ev of Wr r' w \<Rightarrow> if r' = r then w else v | _ \<Rightarrow> v) 0 tr"

lemma programmed_snoc [simp]:
  "programmed r (tr @ [Wr r' w]) = (if r' = r then w else programmed r tr)"
  "programmed r (tr @ [Rd r']) = programmed r tr"
  "programmed r (tr @ [Clean p n]) = programmed r tr"
  "programmed r (tr @ [Inval p n]) = programmed r tr"
  by (simp_all add: programmed_def)

lemmas reg_defs = reg_read_def reg_write_def reg_or_def reg_and_def usb_log_def cache_clean_and_invalidate_def cache_invalidate_def

text \<open>The bytes the controller takes from memory for an armed IN endpoint.\<close>

definition hw_in :: "ep_id \<Rightarrow> usb \<Rightarrow> error + bytes" where
  "hw_in e s =
     (let ep = eps s e;
          dma = programmed (rDIEPDMA (ep_n ep)) (usb_trace s);
          siz = programmed (rDIEPTSIZ (ep_n ep)) (usb_trace s)
      in mem_read (ptr_add (xfer_dma_data ep) (dma - xfer_dma_phys ep)) (unat (siz AND 0x7ffff)) s)"

primrec in_xfer :: "nat \<Rightarrow> ep_id \<Rightarrow> usb \<Rightarrow> error + (bytes list \<times> usb)" where
  "in_xfer 0 e s = Inl OutOfFuel"
| "in_xfer (Suc k) e s =
     bindE (hw_in e s) (\<lambda>bs.
     bindE (ep_in_send_done e s) (\<lambda>(done, s).
     if done then Inr ([bs], s)
     else bindE (in_xfer k e s) (\<lambda>(bss, s). Inr (bs # bss, s))))"

lemma reg_fields:
  "(rDIEPCTL n = rDIEPTSIZ n) = False" "(rDIEPCTL n = rDIEPDMA n) = False" "(rDIEPTSIZ n = rDIEPDMA n) = False"
  "(rDIEPDMA n = rDIEPTSIZ n) = False"
  by (simp_all add: rDIEPCTL_def rDIEPTSIZ_def rDIEPDMA_def)

lemma xfersize_field:
  assumes "unat x < 524288"
  shows "(push_bit 19 c OR x) AND (0x7ffff :: u32) = x"
proof -
  have m: "(0x7ffff :: u32) = mask 19" by (simp add: mask_eq_exp_minus_1)
  have "(push_bit 19 c OR x) AND mask 19 = x AND mask 19"
    by (rule bit_word_eqI) (auto simp: bit_simps)
  also have "\<dots> = x"
    using assms by (intro word_unat_eq_iff [THEN iffD2]) (simp add: unat_and_mask_len)
  finally show ?thesis by (simp add: m)
qed

section \<open>Well-formed endpoints\<close>

text \<open>What the size of packets and the DMA buffer of an endpoint must satisfy.\<close>

definition ep_sizes :: "endpoint_state \<Rightarrow> bool" where
  "ep_sizes ep \<longleftrightarrow> 0 < unat (max_packet_size ep) \<and> 0 < unat (xfer_dma_size ep)
     \<and> unat (max_packet_size ep) dvd unat (xfer_dma_size ep) \<and> unat (xfer_dma_size ep) < 524288"

definition in_unit :: "endpoint_state \<Rightarrow> nat" where
  "in_unit ep = (if ep_type ep = 0 then unat (max_packet_size ep) else unat (xfer_dma_size ep))"

lemma in_unit_progress [simp]:
  "in_unit (ep\<lparr>transferred := b\<rparr>) = in_unit ep" "in_unit (ep\<lparr>in_flight := b\<rparr>) = in_unit ep"
  "in_unit (ep\<lparr>transfer_size := b\<rparr>) = in_unit ep"
  by (simp_all add: in_unit_def)

lemma unat_mps: "unat (ucast (mps :: u16) :: u32) = unat mps"
  by (rule unat_ucast_up) simp

lemma word_gt_unat: "((a :: 'a::len word) > b) = (unat b < unat a)"
  by (simp add: word_less_nat_alt)

lemma dvd_room: "(m :: nat) dvd z \<Longrightarrow> m dvd t \<Longrightarrow> t < z \<Longrightarrow> m \<le> z - t"
  by (meson dvd_diff_nat dvd_imp_le zero_less_diff)

lemma in_compute_data:
  assumes "ep_sizes ep" and "unat (transferred ep) < unat (transfer_size ep)" and "transfer_size ep \<noteq> TRANSFER_ZLP"
    and "in_unit ep dvd unat (transferred ep)"
    and "ep_type ep = 0 \<Longrightarrow> unat (transfer_size ep) \<le> unat (xfer_dma_size ep)"
  shows "\<exists>off x cnt. ep_in_send_compute_xfer ep = Inr (off, x, cnt)
    \<and> unat off = unat (transferred ep) mod unat (xfer_dma_size ep)
    \<and> unat x = min (unat (transfer_size ep) - unat (transferred ep)) (in_unit ep)"
proof -
  let ?t = "transferred ep" and ?n = "transfer_size ep" and ?Z = "xfer_dma_size ep"
  let ?mps = "ucast (max_packet_size ep) :: u32"
  have off: "unat (?t mod ?Z) = unat ?t mod unat ?Z" by (rule unat_mod_distrib)
  have "unat ?t mod unat ?Z < unat ?Z" using assms(1) by (simp add: ep_sizes_def)
  then have room: "unat (?Z - ?t mod ?Z) = unat ?Z - unat ?t mod unat ?Z"
    by (subst unat_sub) (simp_all add: word_le_nat_alt off)
  have left: "unat (?n - ?t) = unat ?n - unat ?t"
    using assms(2) by (subst unat_sub) (simp_all add: word_le_nat_alt)
  show ?thesis
  proof (cases "ep_type ep = 0")
    case True
    have "unat ?t < unat ?Z" using assms(2,5) True by linarith
    then have small: "unat ?t mod unat ?Z = unat ?t" by simp
    have dvd: "unat (max_packet_size ep) dvd unat ?t" "unat (max_packet_size ep) dvd unat ?Z"
      using assms(1,4) True by (simp_all add: in_unit_def ep_sizes_def)
    have fits: "unat (max_packet_size ep) \<le> unat ?Z - unat ?t"
      by (rule dvd_room [OF dvd(2,1) \<open>unat ?t < unat ?Z\<close>])
    show ?thesis
      using True assms(3) fits
      by (simp add: ep_in_send_compute_xfer_def Let_def BUG_if_def word_gt_unat room off small left unat_mps in_unit_def
          min_def panic_if_def)
  next
    case False
    have "unat ?t mod unat ?Z = 0" using assms(4) False by (simp add: in_unit_def)
    moreover have "unat (max_packet_size ep) \<le> unat ?Z" using assms(1) by (auto simp: ep_sizes_def dest: dvd_imp_le)
    ultimately show ?thesis
      using False assms(1,3)
      by (simp add: ep_in_send_compute_xfer_def Let_def BUG_if_def word_gt_unat room off left unat_mps in_unit_def ep_sizes_def
          min_def panic_if_def)
  qed
qed

lemma in_compute_zlp:
  assumes "ep_sizes ep" and "transferred ep = 0" and "transfer_size ep = TRANSFER_ZLP"
  shows "ep_in_send_compute_xfer ep = Inr (0, 0, 1)"
proof -
  have "unat (max_packet_size ep) \<le> unat (xfer_dma_size ep)" using assms(1) by (auto simp: ep_sizes_def dest: dvd_imp_le)
  then have "\<not> xfer_dma_size ep < ucast (max_packet_size ep)" by (simp add: word_gt_unat unat_mps)
  with assms show ?thesis by (simp add: ep_in_send_compute_xfer_def Let_def BUG_if_def)
qed

lemma unat_zlp: "unat TRANSFER_ZLP = 4294967295"
proof -
  have z: "TRANSFER_ZLP = 0xffffffff" by (simp add: TRANSFER_ZLP_def)
  show ?thesis by (subst z) simp
qed

section \<open>Reading a part of a buffer\<close>

lemma chunk_part:
  assumes "chunk m i n = Inr bs" and "t + w \<le> n"
  shows "chunk m (i + t) w = Inr (take w (drop t bs))"
  using assms by (auto simp: chunk_def drop_take add.commute split: if_splits)

lemma mem_read_part:
  assumes "mem_read p n s = Inr bs" and "unat off + w \<le> n"
  shows "mem_read (ptr_add p off) w s = Inr (take w (drop (unat off) bs))"
proof (cases "w = 0")
  case False
  then have "n \<noteq> 0" using assms(2) by simp
  with assms(1) obtain b i m where b: "p = At b i" "usb_mem s b = Some m" "chunk m i n = Inr bs"
    by (auto simp: mem_read_def split: ptr.splits option.splits)
  with chunk_part [OF b(3) assms(2)] False show ?thesis by (simp add: mem_read_def)
qed (simp add: mem_read_def)

lemma mem_read_mem:
  assumes "\<And>b i. p = At b i \<Longrightarrow> usb_mem s' b = usb_mem s b"
  shows "mem_read p n s' = mem_read p n s"
  using assms by (cases p) (simp_all add: mem_read_def)

lemma mem_read_trace [simp]: "mem_read p n (s\<lparr>usb_trace := tr\<rparr>) = mem_read p n s"
  by (rule mem_read_mem) simp

lemma mem_read_set_ep [simp]: "mem_read p n (set_ep e ep s) = mem_read p n s"
  by (rule mem_read_mem) (simp add: set_ep_def)

lemma usb_trace_self: "\<exists>tr. s = s\<lparr>usb_trace := tr\<rparr>"
  by (rule exI [of _ "usb_trace s"]) simp

lemma mem_write_ok:
  assumes "usb_mem s b = Some m" and "i + length bs \<le> length m"
  shows "mem_write (At b i) bs s = Inr (s\<lparr>usb_mem := (usb_mem s)(b \<mapsto> take i m @ bs @ drop (i + length bs) m)\<rparr>)"
proof (cases "bs = []")
  case True
  have "(usb_mem s)(b \<mapsto> m) = usb_mem s" using assms(1) by (rule map_upd_triv)
  then show ?thesis using True by (simp add: mem_write_def)
qed (use assms in \<open>simp add: mem_write_def blit_def\<close>)

lemma chunk_written: "i \<le> length m \<Longrightarrow> chunk (take i m @ bs @ drop (i + length bs) m) i (length bs) = Inr bs"
  by (simp add: chunk_def)

section \<open>One round\<close>

definition in_ctx :: "ep_id \<Rightarrow> bytes \<Rightarrow> usb \<Rightarrow> bool" where
  "in_ctx e data s \<longleftrightarrow>
     (let ep = eps s e in
      dir_in ep \<and> ep_sizes ep \<and> length data < 4294967295
      \<and> mem_read (transfer_data ep) (length data) s = Inr data
      \<and> (if ep_type ep = 0 then xfer_dma_data ep = transfer_data ep \<and> length data \<le> unat (xfer_dma_size ep)
         else \<exists>d pg. xfer_dma_data ep = At DmaPage d \<and> usb_mem s DmaPage = Some pg
           \<and> d + unat (xfer_dma_size ep) \<le> length pg \<and> (\<forall>i. transfer_data ep \<noteq> At DmaPage i)))"

definition in_part :: "endpoint_state \<Rightarrow> nat \<Rightarrow> nat \<Rightarrow> nat" where
  "in_part ep n t = min (n - t) (in_unit ep)"

definition only_page :: "(usb_obj \<Rightarrow> bytes option) \<Rightarrow> (usb_obj \<Rightarrow> bytes option) \<Rightarrow> bool" where
  "only_page mem mem' \<longleftrightarrow> (\<forall>b. b \<noteq> DmaPage \<longrightarrow> mem' b = mem b) \<and> map_option length (mem' DmaPage) = map_option length (mem DmaPage)"

lemma only_page_refl [simp]: "only_page mem mem"
  by (simp add: only_page_def)

lemma only_page_trans: "only_page a b \<Longrightarrow> only_page b c \<Longrightarrow> only_page a c"
  by (simp add: only_page_def)

lemma hw_in_program:
  assumes "eps s' e = ep\<lparr>in_flight := w\<rparr>" and "usb_mem s' = usb_mem s" and "unat x < 524288"
    and "usb_trace s' = usb_trace (ep_in_program ep off x cnt s)"
  shows "hw_in e s' = mem_read (ptr_add (xfer_dma_data ep) off) (unat x) s"
proof -
  have tr: "\<exists>v. usb_trace s' = usb_trace s @ [Wr (rDIEPDMA (ep_n ep)) (xfer_dma_phys ep + off),
      Wr (rDIEPTSIZ (ep_n ep)) (push_bit 19 cnt OR x), Rd (rDIEPCTL (ep_n ep)), Wr (rDIEPCTL (ep_n ep)) v]"
    using assms(4) by (simp add: ep_in_program_def reg_defs)
  then have "programmed (rDIEPDMA (ep_n ep)) (usb_trace s') = xfer_dma_phys ep + off"
    "programmed (rDIEPTSIZ (ep_n ep)) (usb_trace s') = push_bit 19 cnt OR x"
    by (auto simp: programmed_def reg_fields)
  moreover have "mem_read p n s' = mem_read p n s" for p n using assms(2) by (intro mem_read_mem) simp
  ultimately show ?thesis
    using assms(1) by (simp add: hw_in_def Let_def xfersize_field [OF assms(3)])
qed

lemma ep_in_program_state: "\<exists>tr. ep_in_program ep off x cnt s = s\<lparr>usb_trace := tr\<rparr>"
  by (auto simp: ep_in_program_def reg_defs)

text \<open>What a round leaves: the amount in flight is set, registers are written, and nothing but the DMA page
  has changed.\<close>

definition in_armed :: "ep_id \<Rightarrow> endpoint_state \<Rightarrow> usb \<Rightarrow> usb \<Rightarrow> bool" where
  "in_armed e ep s s' \<longleftrightarrow> (\<exists>w tr mem. s' = s\<lparr>usb_mem := mem, usb_trace := tr, eps := (eps s)(e := ep\<lparr>in_flight := w\<rparr>)\<rparr>
     \<and> only_page (usb_mem s) mem)"

lemma ep_in_send_unfold:
  assumes "dir_in (eps s e)" and "in_flight (eps s e) = 0"
    and "transferred (eps s e) < transfer_size (eps s e) \<or> transfer_size (eps s e) = TRANSFER_ZLP"
    and "ep_in_send_compute_xfer (eps s e) = Inr (off, x, cnt)"
  shows "ep_in_send e s = bindE (if off = 0 \<and> x > 0 then ep_in_fill e x s else Inr s)
     (\<lambda>s. Inr (set_ep e ((eps s e)\<lparr>in_flight := x\<rparr>) (ep_in_program (eps s e) off x cnt s)))"
proof -
  have e: "eps s' = eps s" if "ep_in_fill e x s = Inr s'" for s'
    using that by (auto simp: ep_in_fill_def mem_copy_def mem_write_def reg_defs BUG_if_def Let_def
      split: if_splits ptr.splits option.splits)
  have g: "(transferred (eps s e) \<ge> transfer_size (eps s e) \<and> transfer_size (eps s e) \<noteq> TRANSFER_ZLP) = False"
    using assms(3) by auto
  from assms(1,2,4) show ?thesis
    by (cases "ep_in_fill e x s") (auto simp: ep_in_send_def BUG_if_def Let_def g dest: e)
qed

lemma in_ctx_mem:
  assumes "in_ctx e data s" and "eps s' e = (eps s e)\<lparr>transfer_size := a, transferred := b, in_flight := c\<rparr>"
    and "only_page (usb_mem s) (usb_mem s')" and "ep_type (eps s e) = 0 \<Longrightarrow> usb_mem s' = usb_mem s"
  shows "in_ctx e data s'"
proof -
  let ?ep = "eps s e"
  have sizes: "ep_sizes (eps s' e) = ep_sizes ?ep" "in_unit (eps s' e) = in_unit ?ep"
    using assms(2) by (simp_all add: ep_sizes_def in_unit_def)
  show ?thesis
  proof (cases "ep_type ?ep = 0")
    case True
    have "mem_read p n s' = mem_read p n s" for p n using assms(4) [OF True] by (intro mem_read_mem) simp
    with assms(1,2) True sizes show ?thesis by (simp add: in_ctx_def Let_def)
  next
    case False
    with assms(1) obtain d pg where d: "xfer_dma_data ?ep = At DmaPage d" "usb_mem s DmaPage = Some pg"
      "d + unat (xfer_dma_size ?ep) \<le> length pg" "\<forall>i. transfer_data ?ep \<noteq> At DmaPage i"
      by (auto simp: in_ctx_def Let_def)
    have "mem_read (transfer_data ?ep) n s' = mem_read (transfer_data ?ep) n s" for n
      using assms(3) d(4) by (intro mem_read_mem) (auto simp: only_page_def)
    moreover have "\<exists>pg. usb_mem s' DmaPage = Some pg \<and> d + unat (xfer_dma_size ?ep) \<le> length pg"
      using d assms(3) by (auto simp: only_page_def)
    ultimately show ?thesis using assms(1,2) False sizes d(1,4) by (auto simp: in_ctx_def Let_def)
  qed
qed

lemma ep_in_send_data_round:
  assumes ctx: "in_ctx e data s" and idle: "in_flight (eps s e) = 0"
    and n: "unat (transfer_size (eps s e)) = length data" and t: "unat (transferred (eps s e)) < length data"
    and dvd: "in_unit (eps s e) dvd unat (transferred (eps s e))"
  defines "w \<equiv> in_part (eps s e) (length data) (unat (transferred (eps s e)))"
  shows "\<exists>s'. ep_in_send e s = Inr s' \<and> in_armed e (eps s e) s s' \<and> unat (in_flight (eps s' e)) = w
    \<and> hw_in e s' = Inr (take w (drop (unat (transferred (eps s e))) data)) \<and> in_ctx e data s'"
proof -
  let ?ep = "eps s e" and ?t = "unat (transferred (eps s e))"
  have zlp: "transfer_size ?ep \<noteq> TRANSFER_ZLP"
    using ctx n unat_zlp by (auto simp: in_ctx_def Let_def)
  have sizes: "ep_sizes ?ep" "dir_in ?ep" using ctx by (simp_all add: in_ctx_def Let_def)
  have "\<exists>off x cnt. ep_in_send_compute_xfer ?ep = Inr (off, x, cnt) \<and> unat off = ?t mod unat (xfer_dma_size ?ep)
      \<and> unat x = w"
    unfolding w_def in_part_def n [symmetric]
  proof (rule in_compute_data [OF sizes(1) _ zlp dvd])
    show "ep_type ?ep = 0 \<Longrightarrow> unat (transfer_size ?ep) \<le> unat (xfer_dma_size ?ep)"
      using ctx n by (simp add: in_ctx_def Let_def)
  qed (use n t in simp)
  then obtain off x cnt where c: "ep_in_send_compute_xfer ?ep = Inr (off, x, cnt)"
    "unat off = ?t mod unat (xfer_dma_size ?ep)" "unat x = w" by blast
  have wpos: "0 < w" using t sizes(1) by (auto simp: w_def in_part_def in_unit_def ep_sizes_def)
  have wle: "?t + w \<le> length data" "w \<le> unat (xfer_dma_size ?ep)"
    using t sizes(1) by (auto simp: w_def in_part_def in_unit_def ep_sizes_def dest: dvd_imp_le)
  then have x_small: "unat x < 524288" using sizes(1) c(3) by (simp add: ep_sizes_def)
  have xpos: "0 < x" using wpos c(3) by (simp add: word_gt_unat)
  have "transferred ?ep < transfer_size ?ep" using n t by (simp add: word_less_nat_alt)
  then have send: "ep_in_send e s = bindE (if off = 0 \<and> x > 0 then ep_in_fill e x s else Inr s)
     (\<lambda>s. Inr (set_ep e ((eps s e)\<lparr>in_flight := x\<rparr>) (ep_in_program (eps s e) off x cnt s)))"
    by (intro ep_in_send_unfold sizes(2) idle c(1)) simp
  have read: "mem_read (ptr_add (transfer_data ?ep) (transferred ?ep)) w s = Inr (take w (drop ?t data))"
    using ctx wle(1) by (intro mem_read_part [of _ "length data"]) (simp_all add: in_ctx_def Let_def)
  have "\<exists>s1. (if off = 0 \<and> x > 0 then ep_in_fill e x s else Inr s) = Inr s1
     \<and> (\<exists>tr. s1 = s\<lparr>usb_mem := usb_mem s1, usb_trace := tr\<rparr>) \<and> only_page (usb_mem s) (usb_mem s1)
     \<and> (ep_type ?ep = 0 \<longrightarrow> usb_mem s1 = usb_mem s)
     \<and> mem_read (ptr_add (xfer_dma_data ?ep) off) w s1 = Inr (take w (drop ?t data))"
  proof (cases "ep_type ?ep = 0")
    case True
    then have direct: "xfer_dma_data ?ep = transfer_data ?ep" "length data \<le> unat (xfer_dma_size ?ep)"
      using ctx by (simp_all add: in_ctx_def Let_def)
    then have "off = transferred ?ep" using c(2) t by (intro word_unat_eq_iff [THEN iffD2]) simp
    with read direct zlp xpos show ?thesis
      using usb_trace_self [of s] by (auto simp: ep_in_fill_def BUG_if_def reg_defs Let_def)
  next
    case False
    then obtain d pg where d: "xfer_dma_data ?ep = At DmaPage d" "usb_mem s DmaPage = Some pg"
      "d + unat (xfer_dma_size ?ep) \<le> length pg" "transfer_data ?ep \<noteq> At DmaPage d"
      using ctx by (auto simp: in_ctx_def Let_def)
    have off: "off = 0" using c(2) dvd False by (intro word_unat_eq_iff [THEN iffD2]) (simp add: in_unit_def)
    let ?bs = "take w (drop ?t data)"
    have len: "length ?bs = w" using wle(1) by simp
    let ?pg = "take d pg @ ?bs @ drop (d + length ?bs) pg"
    have fill: "ep_in_fill e x s = Inr (cache_clean_and_invalidate (At DmaPage d) x (s\<lparr>usb_mem := (usb_mem s)(DmaPage \<mapsto> ?pg)\<rparr>))"
      using d read c(3) mem_write_ok [OF d(2), of d ?bs] len wle(2)
      by (simp add: ep_in_fill_def mem_copy_def Let_def)
    moreover have "mem_read (At DmaPage d) w (s\<lparr>usb_mem := (usb_mem s)(DmaPage \<mapsto> ?pg)\<rparr>) = Inr ?bs"
      using chunk_written [of d pg ?bs] d(3) len wpos by (simp add: mem_read_def)
    moreover have "length ?pg = length pg" using d(3) len wle(2) by simp
    ultimately show ?thesis
      using False off xpos d(1,2) by (auto simp: reg_defs only_page_def mem_read_def)
  qed
  then obtain s1 tr where s1: "(if off = 0 \<and> x > 0 then ep_in_fill e x s else Inr s) = Inr s1"
    "s1 = s\<lparr>usb_mem := usb_mem s1, usb_trace := tr\<rparr>" "only_page (usb_mem s) (usb_mem s1)"
    "ep_type ?ep = 0 \<longrightarrow> usb_mem s1 = usb_mem s"
    "mem_read (ptr_add (xfer_dma_data ?ep) off) w s1 = Inr (take w (drop ?t data))" by blast
  have eps1: "eps s1 = eps s" by (subst s1(2)) simp
  let ?s2 = "set_ep e (?ep\<lparr>in_flight := x\<rparr>) (ep_in_program ?ep off x cnt s1)"
  obtain tr2 where prog: "ep_in_program ?ep off x cnt s1 = s1\<lparr>usb_trace := tr2\<rparr>" using ep_in_program_state by blast
  have fields: "eps ?s2 e = ?ep\<lparr>in_flight := x\<rparr>" "usb_mem ?s2 = usb_mem s1"
    "usb_trace ?s2 = usb_trace (ep_in_program ?ep off x cnt s1)"
    by (simp_all add: set_ep_def prog)
  have "ep_in_send e s = Inr ?s2" using send s1(1) eps1 by simp
  moreover have "in_armed e ?ep s ?s2"
  proof -
    have "s1\<lparr>usb_trace := tr2\<rparr> = s\<lparr>usb_mem := usb_mem s1, usb_trace := tr2\<rparr>" by (subst s1(2)) simp
    then show ?thesis
      unfolding in_armed_def prog set_ep_def
      by (intro exI [of _ x] exI [of _ tr2] exI [of _ "usb_mem s1"]) (simp add: s1(3) eps1)
  qed
  moreover have "hw_in e ?s2 = Inr (take w (drop ?t data))"
    using hw_in_program [OF fields(1,2) x_small fields(3)] s1(5) c(3) by simp
  moreover have "in_ctx e data ?s2"
    by (rule in_ctx_mem [where a = "transfer_size ?ep" and b = "transferred ?ep" and c = x, OF ctx])
      (use fields s1(3,4) in simp_all)
  ultimately show ?thesis using fields(1) c(3) by (intro exI [of _ ?s2]) simp
qed

text \<open>The round that sends the packet without data.\<close>

lemma ep_in_send_zlp_round:
  assumes ctx: "in_ctx e data s" and idle: "in_flight (eps s e) = 0"
    and z: "transfer_size (eps s e) = TRANSFER_ZLP" "transferred (eps s e) = 0"
  shows "\<exists>s'. ep_in_send e s = Inr s' \<and> in_armed e (eps s e) s s' \<and> in_flight (eps s' e) = 0
    \<and> hw_in e s' = Inr [] \<and> in_ctx e data s'"
proof -
  let ?ep = "eps s e"
  have sizes: "ep_sizes ?ep" "dir_in ?ep" using ctx by (simp_all add: in_ctx_def Let_def)
  let ?s2 = "set_ep e (?ep\<lparr>in_flight := 0\<rparr>) (ep_in_program ?ep 0 0 1 s)"
  have send: "ep_in_send e s = Inr ?s2"
    by (subst ep_in_send_unfold [OF sizes(2) idle _ in_compute_zlp [OF sizes(1) z(2,1)]]) (simp_all add: z)
  obtain tr where prog: "ep_in_program ?ep 0 0 1 s = s\<lparr>usb_trace := tr\<rparr>" using ep_in_program_state by blast
  have fields: "eps ?s2 e = ?ep\<lparr>in_flight := 0\<rparr>" "usb_mem ?s2 = usb_mem s"
    "usb_trace ?s2 = usb_trace (ep_in_program ?ep 0 0 1 s)"
    by (simp_all add: set_ep_def prog)
  have "in_armed e ?ep s ?s2"
    unfolding in_armed_def prog set_ep_def
    by (intro exI [of _ 0] exI [of _ tr] exI [of _ "usb_mem s"]) simp
  moreover have "hw_in e ?s2 = Inr []"
    using hw_in_program [OF fields(1,2) _ fields(3)] by (simp add: mem_read_def)
  moreover have "in_ctx e data ?s2"
    by (rule in_ctx_mem [where a = "transfer_size ?ep" and b = "transferred ?ep" and c = 0, OF ctx])
      (use fields in simp_all)
  ultimately show ?thesis using send fields(1) by (intro exI [of _ ?s2]) simp
qed

section \<open>The whole transfer\<close>

text \<open>What the transfer leaves of the state: everything but the endpoint's progress, the registers and the
  DMA page is as before.\<close>

definition in_frame :: "ep_id \<Rightarrow> usb \<Rightarrow> usb \<Rightarrow> bool" where
  "in_frame e s s' \<longleftrightarrow> (\<exists>mem tr a b c. s' = s\<lparr>usb_mem := mem, usb_trace := tr,
       eps := (eps s)(e := (eps s e)\<lparr>transfer_size := a, transferred := b, in_flight := c\<rparr>)\<rparr>
     \<and> only_page (usb_mem s) mem)"

lemma in_frame_trans:
  assumes "in_frame e s s'" and "in_frame e s' s''"
  shows "in_frame e s s''"
proof -
  from assms(1) obtain mem tr a b c where s': "s' = s\<lparr>usb_mem := mem, usb_trace := tr,
       eps := (eps s)(e := (eps s e)\<lparr>transfer_size := a, transferred := b, in_flight := c\<rparr>)\<rparr>" "only_page (usb_mem s) mem"
    by (auto simp: in_frame_def)
  from assms(2) obtain mem2 tr2 a2 b2 c2 where s'': "s'' = s'\<lparr>usb_mem := mem2, usb_trace := tr2,
       eps := (eps s')(e := (eps s' e)\<lparr>transfer_size := a2, transferred := b2, in_flight := c2\<rparr>)\<rparr>" "only_page (usb_mem s') mem2"
    by (auto simp: in_frame_def)
  have "only_page (usb_mem s) mem2" using s'(2) s''(2) only_page_trans by (simp add: s'(1))
  moreover have "s'' = s\<lparr>usb_mem := mem2, usb_trace := tr2,
       eps := (eps s)(e := (eps s e)\<lparr>transfer_size := a2, transferred := b2, in_flight := c2\<rparr>)\<rparr>"
    by (simp add: s''(1) s'(1))
  ultimately show ?thesis unfolding in_frame_def by blast
qed

lemma in_frame_armed:
  assumes "in_armed e ((eps s e)\<lparr>transfer_size := a, transferred := b, in_flight := c\<rparr>)
    (set_ep e ((eps s e)\<lparr>transfer_size := a, transferred := b, in_flight := c\<rparr>) s) s'"
  shows "in_frame e s s'"
  using assms unfolding in_armed_def in_frame_def set_ep_def by fastforce

text \<open>The packets of one hardware transfer, and the host, which reads packets until one is short.\<close>

function packets :: "nat \<Rightarrow> bytes \<Rightarrow> bytes list" where
  "packets m bs = (if m = 0 \<or> length bs \<le> m then [bs] else take m bs # packets m (drop m bs))"
  by pat_completeness auto
termination by (relation "measure (\<lambda>(m, bs). length bs)") auto

declare packets.simps [simp del]

primrec host_read :: "nat \<Rightarrow> bytes list \<Rightarrow> (bytes \<times> bytes list) option" where
  "host_read m [] = None"
| "host_read m (p # ps) =
     (if length p < m then Some (p, ps)
      else case host_read m ps of None \<Rightarrow> None | Some (d, r) \<Rightarrow> Some (p @ d, r))"

lemma host_read_short:
  assumes "0 < m" and "\<not> m dvd length bs \<or> bs = []"
  shows "host_read m (packets m bs @ r) = Some (bs, r)"
  using assms
proof (induction m bs rule: packets.induct)
  case (1 m bs)
  show ?case
  proof (cases "length bs \<le> m")
    case True
    then have "length bs < m" using "1.prems" by (cases "length bs = m") auto
    then show ?thesis using True by (simp add: packets.simps [of m bs])
  next
    case False
    then have "\<not> m dvd length (drop m bs)" using "1.prems" by (auto simp: dvd_minus_self)
    with "1.IH" False "1.prems"(1) have "host_read m (packets m (drop m bs) @ r) = Some (drop m bs, r)" by simp
    moreover have "packets m bs = take m bs # packets m (drop m bs)" using False "1.prems"(1) by (simp add: packets.simps [of m bs])
    ultimately show ?thesis using False by simp
  qed
qed

lemma host_read_full:
  assumes "0 < m" and "m dvd length bs" and "bs \<noteq> []"
  shows "host_read m (packets m bs @ r) = (case host_read m r of None \<Rightarrow> None | Some (d, r') \<Rightarrow> Some (bs @ d, r'))"
  using assms
proof (induction m bs rule: packets.induct)
  case (1 m bs)
  show ?case
  proof (cases "length bs \<le> m")
    case True
    then have "length bs = m" using "1.prems" by (simp add: dvd_imp_le le_antisym)
    then show ?thesis by (simp add: packets.simps [of m bs] split: option.splits)
  next
    case False
    then have "m dvd length (drop m bs)" "drop m bs \<noteq> []" using "1.prems" by (auto simp: dvd_minus_self)
    with "1.IH" False "1.prems"(1) have
      "host_read m (packets m (drop m bs) @ r) = (case host_read m r of None \<Rightarrow> None | Some (d, r') \<Rightarrow> Some (drop m bs @ d, r'))"
      by simp
    moreover have "packets m bs = take m bs # packets m (drop m bs)" using False "1.prems"(1) by (simp add: packets.simps [of m bs])
    ultimately show ?thesis using False by (auto split: option.splits simp flip: append_assoc)
  qed
qed

definition in_idle :: "endpoint_state \<Rightarrow> bool" where
  "in_idle ep \<longleftrightarrow> transfer_size ep = transferred ep \<and> in_flight ep = 0"

definition in_sending :: "ep_id \<Rightarrow> bytes \<Rightarrow> nat \<Rightarrow> usb \<Rightarrow> bool" where
  "in_sending e data t s \<longleftrightarrow>
     (let ep = eps s e; w = in_part ep (length data) t in
      in_ctx e data s \<and> unat (transfer_size ep) = length data \<and> unat (transferred ep) = t \<and> unat (in_flight ep) = w
      \<and> t < length data \<and> in_unit ep dvd t \<and> hw_in e s = Inr (take w (drop t data)))"

definition in_sending_zlp :: "ep_id \<Rightarrow> bytes \<Rightarrow> usb \<Rightarrow> bool" where
  "in_sending_zlp e data s \<longleftrightarrow>
     in_ctx e data s \<and> transfer_size (eps s e) = TRANSFER_ZLP \<and> transferred (eps s e) = 0 \<and> in_flight (eps s e) = 0
     \<and> hw_in e s = Inr []"

lemma in_start:
  assumes ctx: "in_ctx e data s" and ep: "ep = (eps s e)\<lparr>transfer_size := a, transferred := b, in_flight := 0\<rparr>"
    and n: "unat a = length data" "unat b < length data" "in_unit (eps s e) dvd unat b"
  shows "\<exists>s'. ep_in_send e (set_ep e ep s) = Inr s' \<and> in_sending e data (unat b) s' \<and> in_frame e s s'"
proof -
  let ?s = "set_ep e ep s"
  have e: "eps ?s e = ep" "in_unit ep = in_unit (eps s e)" by (simp_all add: set_ep_def in_unit_def ep)
  have ctx': "in_ctx e data ?s"
    by (rule in_ctx_mem [where a = a and b = b and c = 0, OF ctx]) (simp_all add: e(1) ep, simp_all add: set_ep_def)
  from ep_in_send_data_round [OF ctx'] n e obtain s' where s': "ep_in_send e ?s = Inr s'" "in_armed e ep ?s s'"
    "unat (in_flight (eps s' e)) = in_part ep (length data) (unat b)"
    "hw_in e s' = Inr (take (in_part ep (length data) (unat b)) (drop (unat b) data))" "in_ctx e data s'"
    by (auto simp: ep)
  have ep': "\<exists>w. eps s' e = ep\<lparr>in_flight := w\<rparr>" using s'(2) by (auto simp: in_armed_def)
  then have "in_part (eps s' e) = in_part ep" "in_unit (eps s' e) = in_unit ep"
    by (auto simp: in_part_def in_unit_def fun_eq_iff)
  with s' ep' e(2) n have "in_sending e data (unat b) s'" by (auto simp: in_sending_def Let_def ep)
  moreover have "in_frame e s s'" using s'(2) unfolding ep by (rule in_frame_armed)
  ultimately show ?thesis using s'(1) by blast
qed

lemma in_start_zlp:
  assumes ctx: "in_ctx e data s" and ep: "ep = (eps s e)\<lparr>transfer_size := TRANSFER_ZLP, transferred := 0, in_flight := 0\<rparr>"
  shows "\<exists>s'. ep_in_send e (set_ep e ep s) = Inr s' \<and> in_sending_zlp e data s' \<and> in_frame e s s'"
proof -
  let ?s = "set_ep e ep s"
  have e: "eps ?s e = ep" by (simp add: set_ep_def)
  have ctx': "in_ctx e data ?s"
    by (rule in_ctx_mem [where a = TRANSFER_ZLP and b = 0 and c = 0, OF ctx]) (simp_all add: e ep, simp_all add: set_ep_def)
  from ep_in_send_zlp_round [OF ctx'] e obtain s' where s': "ep_in_send e ?s = Inr s'" "in_armed e ep ?s s'"
    "in_flight (eps s' e) = 0" "hw_in e s' = Inr []" "in_ctx e data s'"
    by (auto simp: ep)
  moreover have "\<exists>w. eps s' e = ep\<lparr>in_flight := w\<rparr>" using s'(2) by (auto simp: in_armed_def)
  then have "transfer_size (eps s' e) = TRANSFER_ZLP" "transferred (eps s' e) = 0" by (auto simp: ep)
  moreover have "in_frame e s s'" using s'(2) unfolding ep by (rule in_frame_armed)
  ultimately show ?thesis by (auto simp: in_sending_zlp_def)
qed

lemma in_done_zlp:
  assumes "in_sending_zlp e data s"
  shows "\<exists>s'. ep_in_send_done e s = Inr (True, s') \<and> in_idle (eps s' e) \<and> transferred (eps s' e) = 0 \<and> in_frame e s s'"
proof -
  let ?ep = "(eps s e)\<lparr>transfer_size := 0, transferred := 0, in_flight := 0\<rparr>"
  have "dir_in (eps s e)" using assms by (simp add: in_sending_zlp_def in_ctx_def Let_def)
  then have "ep_in_send_done e s = Inr (True, set_ep e ((eps s e)\<lparr>transferred := 0, in_flight := 0, transfer_size := 0\<rparr>) s)"
    using assms by (simp add: ep_in_send_done_def in_sending_zlp_def BUG_if_def Let_def)
  moreover have "(eps s e)\<lparr>transferred := 0, in_flight := 0, transfer_size := 0\<rparr> = ?ep" by (cases "eps s e") simp
  ultimately have "ep_in_send_done e s = Inr (True, set_ep e ?ep s)" by (simp only:)
  moreover have "in_frame e s (set_ep e ?ep s)"
    unfolding in_frame_def set_ep_def by (intro exI [of _ 0] exI [of _ "usb_mem s"] exI [of _ "usb_trace s"]) simp
  moreover have "eps (set_ep e ?ep s) e = ?ep" by (simp add: set_ep_def)
  ultimately show ?thesis by (intro exI [of _ "set_ep e ?ep s"]) (simp add: in_idle_def)
qed

lemma in_done_data:
  assumes "in_sending e data t s"
  defines "w \<equiv> in_part (eps s e) (length data) t"
  shows "\<exists>d s'. ep_in_send_done e s = Inr (d, s') \<and> in_frame e s s' \<and> 0 < w \<and> t + w \<le> length data
    \<and> (if t + w < length data then \<not> d \<and> w = in_unit (eps s e) \<and> in_sending e data (t + w) s'
       else if unat (max_packet_size (eps s e)) dvd length data then \<not> d \<and> in_sending_zlp e data s'
       else d \<and> in_idle (eps s' e) \<and> unat (transferred (eps s' e)) = length data)"
proof -
  let ?E = "eps s e"
  have S: "in_ctx e data s" "unat (transfer_size ?E) = length data" "unat (transferred ?E) = t" "unat (in_flight ?E) = w"
    "t < length data" "in_unit ?E dvd t"
    using assms(1) by (simp_all add: in_sending_def Let_def w_def)
  have sizes: "dir_in ?E" "ep_sizes ?E" "length data < 4294967295" using S(1) by (simp_all add: in_ctx_def Let_def)
  have w: "0 < w" "t + w \<le> length data" using S(5) sizes(2) by (auto simp: w_def in_part_def in_unit_def ep_sizes_def)
  have zlp: "transfer_size ?E \<noteq> TRANSFER_ZLP" using S(2) sizes(3) unat_zlp by auto
  let ?b = "transferred ?E + in_flight ?E"
  have b: "unat ?b = t + w" using S(3,4) w(2) sizes(3) by (subst unat_add_u32) simp_all
  have guard: "(?b = transfer_size ?E) = (t + w = length data)" using b S(2) by (metis word_unat_eq_iff)
  have mps: "(transfer_size ?E > 0 \<and> transfer_size ?E mod ucast (max_packet_size ?E) = 0)
      = (unat (max_packet_size ?E) dvd length data)"
  proof -
    have "0 < transfer_size ?E" using S(2,5) by (metis gr_zeroI not_less_zero unat_0 word_gt_unat)
    moreover have "(transfer_size ?E mod ucast (max_packet_size ?E) = 0)
        = (unat (transfer_size ?E mod ucast (max_packet_size ?E)) = 0)" by (simp add: unat_eq_0)
    moreover have "unat (transfer_size ?E mod ucast (max_packet_size ?E)) = length data mod unat (max_packet_size ?E)"
      by (subst unat_mod_distrib) (simp add: S(2) unat_mps)
    ultimately show ?thesis by (simp add: dvd_eq_mod_eq_0)
  qed
  let ?ep = "?E\<lparr>transferred := ?b, in_flight := 0\<rparr>"
  have done_unfold: "ep_in_send_done e s =
     (if t + w = length data then
        if \<not> unat (max_packet_size ?E) dvd length data then Inr (True, set_ep e ?ep s)
        else bindE (ep_in_send e (set_ep e (?ep\<lparr>transferred := 0, transfer_size := TRANSFER_ZLP\<rparr>) s)) (\<lambda>s. Inr (False, s))
      else bindE (ep_in_send e (set_ep e ?ep s)) (\<lambda>s. Inr (False, s)))"
    using sizes(1) zlp mps guard by (simp add: ep_in_send_done_def BUG_if_def Let_def)
  consider "t + w < length data" | "t + w = length data" "unat (max_packet_size ?E) dvd length data"
    | "t + w = length data" "\<not> unat (max_packet_size ?E) dvd length data" using w(2) by linarith
  then show ?thesis
  proof cases
    case 1
    then have wu: "w = in_unit ?E" by (auto simp: w_def in_part_def)
    have "in_unit ?E dvd unat ?b" using wu S(6) b by simp
    moreover have "?ep = ?E\<lparr>transfer_size := transfer_size ?E, transferred := ?b, in_flight := 0\<rparr>"
      by (rule endpoint_state.equality) simp_all
    ultimately obtain s' where
      s': "ep_in_send e (set_ep e ?ep s) = Inr s'" "in_sending e data (t + w) s'" "in_frame e s s'"
      using in_start [where b = ?b, OF S(1)] 1 S(2) b by metis
    then have "ep_in_send_done e s = Inr (False, s')" using 1 done_unfold by simp
    then show ?thesis using s'(2,3) 1 w wu by (intro exI [of _ False] exI [of _ s']) simp
  next
    case 2
    from in_start_zlp [OF S(1), of "?ep\<lparr>transferred := 0, transfer_size := TRANSFER_ZLP\<rparr>"] obtain s' where
      "ep_in_send e (set_ep e (?ep\<lparr>transferred := 0, transfer_size := TRANSFER_ZLP\<rparr>) s) = Inr s'"
      "in_sending_zlp e data s'" "in_frame e s s'" by auto
    then show ?thesis using 2 w done_unfold by (intro exI [of _ False] exI [of _ s']) simp
  next
    case 3
    have "in_frame e s (set_ep e ?ep s)" unfolding in_frame_def set_ep_def
      by (intro exI [of _ 0] exI [of _ "usb_mem s"] exI [of _ "usb_trace s"] exI [of _ ?b] exI [of _ "transfer_size ?E"]) simp
    moreover have "in_idle (eps (set_ep e ?ep s) e)" "unat (transferred (eps (set_ep e ?ep s) e)) = length data"
      using guard 3 b by (simp_all add: in_idle_def set_ep_def)
    ultimately show ?thesis using 3 w done_unfold by (intro exI [of _ True] exI [of _ "set_ep e ?ep s"]) simp
  qed
qed

lemma in_frame_units:
  assumes "in_frame e s s'"
  shows "in_unit (eps s' e) = in_unit (eps s e)" and "max_packet_size (eps s' e) = max_packet_size (eps s e)"
    and "in_part (eps s' e) = in_part (eps s e)"
  using assms by (auto simp: in_frame_def in_unit_def in_part_def fun_eq_iff)

lemma in_unit_packets: "ep_sizes ep \<Longrightarrow> unat (max_packet_size ep) dvd in_unit ep \<and> 0 < in_unit ep \<and> 0 < unat (max_packet_size ep)"
  by (auto simp: ep_sizes_def in_unit_def)

lemma in_xfer_zlp:
  assumes "in_sending_zlp e data s" and "0 < k" and "0 < unat (max_packet_size (eps s e))"
  shows "\<exists>s'. in_xfer k e s = Inr ([[]], s') \<and> in_idle (eps s' e) \<and> in_frame e s s'"
proof -
  obtain s' where "ep_in_send_done e s = Inr (True, s')" "in_idle (eps s' e)" "in_frame e s s'"
    using in_done_zlp [OF assms(1)] by blast
  then show ?thesis using assms(1,2) by (cases k) (auto simp: in_sending_zlp_def)
qed

lemma in_xfer_data:
  assumes "in_sending e data t s" and "(length data - t) div in_unit (eps s e) + 2 \<le> k"
  shows "\<exists>bss s'. in_xfer k e s = Inr (bss, s') \<and> in_idle (eps s' e) \<and> in_frame e s s'
    \<and> (let m = unat (max_packet_size (eps s e)) in host_read m (concat (map (packets m) bss)) = Some (drop t data, []))"
  using assms
proof (induction k arbitrary: t s)
  case (Suc k)
  let ?m = "unat (max_packet_size (eps s e))" and ?w = "in_part (eps s e) (length data) t"
  let ?bs = "take ?w (drop t data)"
  have S: "t < length data" "in_unit (eps s e) dvd t" "hw_in e s = Inr ?bs" "ep_sizes (eps s e)"
    using Suc.prems(1) by (simp_all add: in_sending_def in_ctx_def Let_def)
  note m = in_unit_packets [OF S(4)]
  obtain d s1 where d: "ep_in_send_done e s = Inr (d, s1)" "in_frame e s s1" "0 < ?w" "t + ?w \<le> length data"
    "if t + ?w < length data then \<not> d \<and> ?w = in_unit (eps s e) \<and> in_sending e data (t + ?w) s1
     else if ?m dvd length data then \<not> d \<and> in_sending_zlp e data s1
     else d \<and> in_idle (eps s1 e) \<and> unat (transferred (eps s1 e)) = length data"
    using in_done_data [OF Suc.prems(1)] by blast
  have bs: "length ?bs = ?w" "?bs \<noteq> []" using d(3,4) S(1) by auto
  have dt: "?bs @ drop (t + ?w) data = drop t data" 
    by (metis append_take_drop_id drop_drop add.commute)
  have mt: "?m dvd t" using S(2) m by (meson dvd_trans)
  consider "t + ?w < length data" | "t + ?w = length data" "?m dvd length data"
    | "t + ?w = length data" "\<not> ?m dvd length data" using d(4) by linarith
  then show ?case
  proof cases
    case 1
    then have d1: "\<not> d" "?w = in_unit (eps s e)" "in_sending e data (t + ?w) s1" using d(5) by auto
    have "(length data - (t + ?w)) div in_unit (eps s1 e) + 2 \<le> k"
    proof -
      have "(length data - t) div in_unit (eps s e) = Suc ((length data - (t + ?w)) div in_unit (eps s e))"
        using 1 m d1(2) by (subst le_div_geq) (simp_all add: diff_diff_add)
      then show ?thesis using Suc.prems(2) by (simp add: in_frame_units(1) [OF d(2)])
    qed
    from Suc.IH [OF d1(3) this] obtain bss s' where
      r: "in_xfer k e s1 = Inr (bss, s')" "in_idle (eps s' e)" "in_frame e s1 s'"
      "host_read ?m (concat (map (packets ?m) bss)) = Some (drop (t + ?w) data, [])"
      by (auto simp: Let_def in_frame_units(2) [OF d(2)])
    have "?m dvd length ?bs" using bs(1) d1(2) m by simp
    from host_read_full [OF _ this bs(2)] m r(4) have
      "host_read ?m (concat (map (packets ?m) (?bs # bss))) = Some (?bs @ drop (t + ?w) data, [])" by simp
    then show ?thesis using r S(3) d(1,2) d1(1) dt in_frame_trans [OF d(2) r(3)] by (auto simp: Let_def)
  next
    case 2
    then have d1: "\<not> d" "in_sending_zlp e data s1" using d(5) by simp_all
    have k: "0 < k" using Suc.prems(2) by simp
    have m1: "0 < unat (max_packet_size (eps s1 e))" using m in_frame_units(2) [OF d(2)] by simp
    from in_xfer_zlp [OF d1(2) k m1] obtain s' where r: "in_xfer k e s1 = Inr ([[]], s')" "in_idle (eps s' e)" "in_frame e s1 s'" by blast
    have "?m dvd length ?bs" using bs(1) 2 mt by (metis dvd_add_right_iff)
    from host_read_full [OF _ this bs(2)] m have "host_read ?m (concat (map (packets ?m) [?bs, []])) = Some (?bs, [])"
      by (simp add: packets.simps [of ?m "[]"])
    moreover have "?bs = drop t data" using dt 2 by simp
    ultimately show ?thesis using r S(3) d(1,2) d1(1) in_frame_trans [OF d(2) r(3)] by (auto simp: Let_def)
  next
    case 3
    then have d1: "d" "in_idle (eps s1 e)" using d(5) by simp_all
    have nd: "\<not> ?m dvd length ?bs" using bs(1) 3 mt by (metis dvd_add)
    have "host_read ?m (concat (map (packets ?m) [?bs])) = Some (?bs, [])"
      using host_read_short [of ?m ?bs "[]"] nd m by simp
    moreover have "?bs = drop t data" using dt 3 by simp
    ultimately show ?thesis using S(3) d(1,2) d1 by (auto simp: Let_def)
  qed
qed simp

section \<open>Starting a transfer\<close>

text \<open>The data of an IN transfer: on endpoint 0 it lies in the endpoint's DMA buffer, elsewhere outside the
  DMA page.\<close>

definition in_source :: "ep_id \<Rightarrow> ptr \<Rightarrow> bytes \<Rightarrow> usb \<Rightarrow> bool" where
  "in_source e p data s \<longleftrightarrow>
     (let ep = eps s e in
      dir_in ep \<and> in_idle ep \<and> ep_sizes (reset_dma ep) \<and> length data < 4294967295
      \<and> mem_read p (length data) s = Inr data
      \<and> (if ep_type ep = 0 then p = default_xfer_dma_data ep \<and> length data \<le> unat (default_xfer_dma_size ep)
         else \<exists>d pg. default_xfer_dma_data ep = At DmaPage d \<and> usb_mem s DmaPage = Some pg
           \<and> d + unat (default_xfer_dma_size ep) \<le> length pg \<and> (\<forall>i. p \<noteq> At DmaPage i)))"

definition elsewhere :: "ep_id \<Rightarrow> usb \<Rightarrow> usb \<Rightarrow> bool" where
  "elsewhere e s s' \<longleftrightarrow> (\<exists>mem tr ep. s' = s\<lparr>usb_mem := mem, usb_trace := tr, eps := (eps s)(e := ep)\<rparr> \<and> only_page (usb_mem s) mem)"

lemma elsewhere_frame:
  assumes "in_frame e (set_ep e ep s) s'"
  shows "elsewhere e s s'"
  using assms by (auto simp: in_frame_def elsewhere_def set_ep_def)

lemma elsewhere_trans:
  assumes "elsewhere e s s'" and "elsewhere e s' s''"
  shows "elsewhere e s s''"
proof -
  from assms(1) obtain mem tr ep where s': "s' = s\<lparr>usb_mem := mem, usb_trace := tr, eps := (eps s)(e := ep)\<rparr>" "only_page (usb_mem s) mem"
    by (auto simp: elsewhere_def)
  from assms(2) obtain mem2 tr2 ep2 where s'': "s'' = s'\<lparr>usb_mem := mem2, usb_trace := tr2, eps := (eps s')(e := ep2)\<rparr>"
    "only_page (usb_mem s') mem2" by (auto simp: elsewhere_def)
  have "only_page (usb_mem s) mem2" using s'(2) s''(2) only_page_trans by (simp add: s'(1))
  moreover have "s'' = s\<lparr>usb_mem := mem2, usb_trace := tr2, eps := (eps s)(e := ep2)\<rparr>" by (simp add: s''(1) s'(1))
  ultimately show ?thesis unfolding elsewhere_def by blast
qed

lemma in_frame_elsewhere: "in_frame e s s' \<Longrightarrow> elsewhere e s s'"
  by (auto simp: in_frame_def elsewhere_def)

text \<open>Either a packet without data or the first part of the data is under way.\<close>

lemma in_source_start:
  assumes "in_source e p data s"
  shows "\<exists>s'. ep_in_send_data e p (of_nat (length data)) s = Inr s' \<and> elsewhere e s s'
    \<and> max_packet_size (eps s' e) = max_packet_size (eps s e) \<and> ep_sizes (eps s' e)
    \<and> (if data = [] then in_sending_zlp e data s' else in_sending e data 0 s')"
proof -
  let ?E = "eps s e" and ?n = "length data"
  let ?C = "(reset_dma ?E)\<lparr>transfer_data := p\<rparr>"
  let ?a = "if of_nat ?n = (0 :: u32) then TRANSFER_ZLP else of_nat ?n"
  let ?s = "set_ep e ?C s"
  have src: "dir_in ?E" "in_idle ?E" "ep_sizes (reset_dma ?E)" "?n < 4294967295"
    using assms by (simp_all add: in_source_def Let_def)
  have len: "unat (of_nat ?n :: u32) = ?n" using src(4) by (simp add: unat_of_nat)
  have C: "eps ?s e = ?C" by (simp add: set_ep_def)
  have mem: "usb_mem ?s = usb_mem s" by (simp add: set_ep_def)
  have "in_ctx e data ?s"
    using assms unfolding in_ctx_def in_source_def C mem Let_def
    by (auto simp: reset_dma_def ep_sizes_def)
  note ctx = this
  have start: "ep_in_send_data e p (of_nat ?n) s = ep_in_send e (set_ep e (?C\<lparr>transfer_size := ?a, transferred := 0, in_flight := 0\<rparr>) ?s)"
  proof -
    have "(reset_dma ?E)\<lparr>transfer_data := p, transfer_size := ?a, transferred := 0\<rparr>
        = ?C\<lparr>transfer_size := ?a, transferred := 0, in_flight := 0\<rparr>"
      using src(2) by (intro endpoint_state.equality) (simp_all add: in_idle_def reset_dma_def)
    moreover have "set_ep e E (set_ep e E' s) = set_ep e E s" for E E' by (simp add: set_ep_def)
    ultimately show ?thesis using src(1,2) by (simp add: ep_in_send_data_def BUG_if_def Let_def in_idle_def)
  qed
  have mps: "max_packet_size (eps s' e) = max_packet_size ?E" if "in_frame e ?s s'" for s'
    using in_frame_units(2) [OF that] C by (simp add: reset_dma_def)
  show ?thesis
  proof (cases "data = []")
    case True
    from in_start_zlp [OF ctx refl] obtain s' where s': "ep_in_send e (set_ep e ((eps ?s e)\<lparr>transfer_size := TRANSFER_ZLP,
        transferred := 0, in_flight := 0\<rparr>) ?s) = Inr s'" "in_sending_zlp e data s'" "in_frame e ?s s'" by blast
    moreover have "ep_sizes (eps s' e)" using s'(2) by (simp add: in_sending_zlp_def in_ctx_def Let_def)
    ultimately show ?thesis using True start C elsewhere_frame mps by auto
  next
    case False
    then have "of_nat ?n \<noteq> (0 :: u32)" using len by (metis length_0_conv unat_0)
    then have a: "?a = of_nat ?n" by simp
    from in_start [OF ctx refl, of "of_nat ?n" 0] False len obtain s' where s': "ep_in_send e (set_ep e ((eps ?s e)\<lparr>transfer_size := of_nat ?n,
        transferred := 0, in_flight := 0\<rparr>) ?s) = Inr s'" "in_sending e data 0 s'" "in_frame e ?s s'" by auto
    moreover have "ep_sizes (eps s' e)" using s'(2) by (simp add: in_sending_def in_ctx_def Let_def)
    ultimately show ?thesis using False start C a elsewhere_frame mps by auto
  qed
qed

lemma in_unit_le: "ep_sizes ep \<Longrightarrow> n div in_unit ep \<le> n div unat (max_packet_size ep)"
  by (rule div_le_mono2) (auto simp: ep_sizes_def in_unit_def dest: dvd_imp_le)

text \<open>Everything the host reads of a transfer that was started.\<close>

lemma in_started_delivers:
  assumes "if data = [] then in_sending_zlp e data s else in_sending e data 0 s" and "ep_sizes (eps s e)"
    and "length data div unat (max_packet_size (eps s e)) + 2 \<le> k"
  shows "\<exists>bss s'. in_xfer k e s = Inr (bss, s') \<and> in_idle (eps s' e) \<and> in_frame e s s'
    \<and> (let m = unat (max_packet_size (eps s e)) in host_read m (concat (map (packets m) bss)) = Some (data, []))"
proof (cases "data = []")
  case True
  have m: "0 < unat (max_packet_size (eps s e))" and k: "0 < k" using assms(2,3) by (simp_all add: ep_sizes_def)
  have z: "in_sending_zlp e data s" using True assms(1) by simp
  obtain s' where "in_xfer k e s = Inr ([[]], s')" "in_idle (eps s' e)" "in_frame e s s'"
    using in_xfer_zlp [OF z k m] by blast
  then show ?thesis using True host_read_short [OF m, of "[]" "[]"] by (simp add: Let_def)
next
  case False
  have "(length data - 0) div in_unit (eps s e) + 2 \<le> k" using in_unit_le [OF assms(2), of "length data"] assms(3) by simp
  with in_xfer_data [of e data 0 s k] False assms(1) show ?thesis by simp
qed

lemma in_source_delivers:
  assumes "in_source e p data s" and "m = unat (max_packet_size (eps s e))" and "length data div m + 2 \<le> k"
  shows "\<exists>s1 bss s2. ep_in_send_data e p (of_nat (length data)) s = Inr s1 \<and> in_xfer k e s1 = Inr (bss, s2)
    \<and> host_read m (concat (map (packets m) bss)) = Some (data, []) \<and> in_idle (eps s2 e) \<and> elsewhere e s s2"
proof -
  obtain s1 where s1: "ep_in_send_data e p (of_nat (length data)) s = Inr s1" "elsewhere e s s1"
    "max_packet_size (eps s1 e) = max_packet_size (eps s e)" "ep_sizes (eps s1 e)"
    "if data = [] then in_sending_zlp e data s1 else in_sending e data 0 s1"
    using in_source_start [OF assms(1)] by blast
  from in_started_delivers [OF s1(5,4), of k] s1(3) assms(2,3) obtain bss s2 where
    "in_xfer k e s1 = Inr (bss, s2)" "in_idle (eps s2 e)" "in_frame e s1 s2"
    "host_read m (concat (map (packets m) bss)) = Some (data, [])" by (auto simp: Let_def)
  with s1 elsewhere_trans [OF s1(2) in_frame_elsewhere] show ?thesis by blast
qed

end
