(* ===== verification/UsbInv.thy ===== *)
theory UsbInv
  imports UsbReq
begin

unbundle bit_operations_syntax

text \<open>
  The invariant of the USB device: once the controller has been reset, every endpoint has its number,
  type, direction, packet size and DMA buffer, endpoint 0 receives into its own buffer, the static
  buffers have their sizes and the counters of the KTRW channel stay within them. Each operation
  keeps it, whatever the controller and the host do.
\<close>

section \<open>The invariant\<close>

text \<open>Number, type, direction, packet size and place in the DMA page.\<close>

primrec ep_conf :: "ep_id \<Rightarrow> u8 \<times> u8 \<times> bool \<times> u16 \<times> nat" where
  "ep_conf EP0_OUT = (0, 0, False, 64, 0)"
| "ep_conf EP0_IN = (0, 0, True, 64, 0x1000)"
| "ep_conf EP1_IN = (1, 3, True, 1024, 0x2000)"
| "ep_conf EP2_OUT = (2, 2, False, 512, 0x3000)"

definition ep_default_dma :: "nat \<Rightarrow> endpoint_state \<Rightarrow> bool" where
  "ep_default_dma off ep \<longleftrightarrow> default_xfer_dma_data ep = At DmaPage off \<and> default_xfer_dma_size ep = DMA_BUFFER_SIZE"

definition ep_static :: "ep_id \<Rightarrow> endpoint_state \<Rightarrow> bool" where
  "ep_static e ep \<longleftrightarrow> (case ep_conf e of (n, type, d, mps, off) \<Rightarrow>
     ep_n ep = n \<and> ep_type ep = type \<and> dir_in ep = d \<and> max_packet_size ep = mps \<and> ep_default_dma off ep)"

definition dma_reset :: "endpoint_state \<Rightarrow> bool" where
  "dma_reset ep \<longleftrightarrow> xfer_dma_data ep = default_xfer_dma_data ep \<and> xfer_dma_size ep = default_xfer_dma_size ep
     \<and> xfer_dma_phys ep = default_xfer_dma_phys ep"

primrec obj_size :: "usb_obj \<Rightarrow> nat option" where
  "obj_size DmaPage = Some 0x4000"
| "obj_size KtrwSendData = Some 0x1000"
| "obj_size KtrwRecvData = Some 0x1000"
| "obj_size DeviceDescriptor = Some 18"
| "obj_size ConfigurationDescriptor = Some 32"
| "obj_size StdoutbufCopy = Some 0x1000"
| "obj_size StackLocal = None"
| "obj_size (LoaderXfer k) = None"

definition mem_sizes :: "(usb_obj \<Rightarrow> bytes option) \<Rightarrow> bool" where
  "mem_sizes m \<longleftrightarrow> (\<forall>b n. obj_size b = Some n \<longrightarrow> map_option length (m b) = Some n)"

text \<open>The loader's buffer is an object of its own, which may be freed.\<close>

definition loader_ptr :: "ptr \<Rightarrow> bool" where
  "loader_ptr p \<longleftrightarrow> (case p of Null \<Rightarrow> True | At b i \<Rightarrow> obj_size b = None)"

definition usb_mem_ok :: "usb \<Rightarrow> bool" where
  "usb_mem_ok s \<longleftrightarrow> mem_sizes (usb_mem s) \<and> ktrw_send_in_flight s \<le> ktrw_send_count s \<and> ktrw_send_count s \<le> KTRW_BUFFER
     \<and> ktrw_recv_count s \<le> KTRW_BUFFER \<and> loader_ptr (loader_xfer_recv_data s)"

definition usb_conf :: "usb \<Rightarrow> bool" where
  "usb_conf s \<longleftrightarrow> (\<forall>e. ep_static e (eps s e)) \<and> dma_reset (eps s EP0_OUT) \<and> usb_mem_ok s"

section \<open>Primitive steps\<close>

named_theorems usb_keep

lemma usb_conf_log [usb_keep]: "usb_conf s \<Longrightarrow> usb_conf (usb_log ev s)"
  by (simp add: usb_conf_def usb_mem_ok_def usb_log_def)

lemma usb_conf_regs [usb_keep]:
  assumes "usb_conf s"
  shows "usb_conf (snd (reg_read r s))" "usb_conf (reg_write r v s)" "usb_conf (reg_or r v s)" "usb_conf (reg_and r v s)"
    "usb_conf (cache_clean_and_invalidate p n s)" "usb_conf (cache_invalidate p n s)"
  by (simp_all add: reg_read_def reg_write_def reg_or_def reg_and_def cache_clean_and_invalidate_def cache_invalidate_def
      usb_conf_log assms)

lemma reg_read_snd: "reg_read r s = (v, s') \<Longrightarrow> s' = snd (reg_read r s)"
  by simp

lemma usb_conf_set_ep [usb_keep]:
  assumes "usb_conf s" and "ep_static e ep" and "e = EP0_OUT \<Longrightarrow> dma_reset ep"
  shows "usb_conf (set_ep e ep s)"
  using assms by (auto simp: usb_conf_def usb_mem_ok_def set_ep_def)

text \<open>The progress of a transfer is not part of the invariant.\<close>

lemma ep_static_upd [simp]:
  "ep_static e (ep\<lparr>transferred := a\<rparr>) = ep_static e ep" "ep_static e (ep\<lparr>transfer_size := a\<rparr>) = ep_static e ep"
  "ep_static e (ep\<lparr>in_flight := a\<rparr>) = ep_static e ep" "ep_static e (ep\<lparr>transfer_data := p\<rparr>) = ep_static e ep"
  "ep_static e (ep\<lparr>xfer_dma_data := p\<rparr>) = ep_static e ep" "ep_static e (ep\<lparr>xfer_dma_size := a\<rparr>) = ep_static e ep"
  "ep_static e (ep\<lparr>xfer_dma_phys := a\<rparr>) = ep_static e ep" "ep_static e (reset_dma ep) = ep_static e ep"
  by (simp_all add: ep_static_def ep_default_dma_def reset_dma_def split: prod.split)

lemma dma_reset_upd [simp]:
  "dma_reset (ep\<lparr>transferred := a\<rparr>) = dma_reset ep" "dma_reset (ep\<lparr>transfer_size := a\<rparr>) = dma_reset ep"
  "dma_reset (ep\<lparr>in_flight := a\<rparr>) = dma_reset ep" "dma_reset (ep\<lparr>transfer_data := p\<rparr>) = dma_reset ep"
  "dma_reset (reset_dma ep)"
  by (simp_all add: dma_reset_def reset_dma_def)

lemma usb_conf_ep: "usb_conf s \<Longrightarrow> ep_static e (eps s e)" "usb_conf s \<Longrightarrow> dma_reset (eps s EP0_OUT)"
  by (simp_all add: usb_conf_def)

lemma mem_sizes_upd: "mem_sizes m \<Longrightarrow> (\<And>n. obj_size b = Some n \<Longrightarrow> map_option length x = Some n) \<Longrightarrow> mem_sizes (m(b := x))"
  by (simp add: mem_sizes_def)

lemma mem_write_sizes:
  assumes "mem_write p bs s = Inr s'"
  shows "\<exists>m. s' = s\<lparr>usb_mem := m\<rparr> \<and> (mem_sizes (usb_mem s) \<longrightarrow> mem_sizes m)"
proof (cases "bs = []")
  case True
  then show ?thesis using assms by (intro exI [of _ "usb_mem s"]) (simp add: mem_write_def)
next
  case False
  with assms obtain b i m m' where "p = At b i" "usb_mem s b = Some m" "blit m i bs = Inr m'"
    "s' = s\<lparr>usb_mem := (usb_mem s)(b \<mapsto> m')\<rparr>"
    by (auto simp: mem_write_def split: ptr.splits option.splits)
  moreover from this have "mem_sizes (usb_mem s) \<longrightarrow> mem_sizes ((usb_mem s)(b \<mapsto> m'))"
    using length_blit by (intro impI mem_sizes_upd) (force simp: mem_sizes_def)+
  ultimately show ?thesis by blast
qed

lemma usb_conf_mem:
  assumes "usb_conf s" and "mem_sizes m"
  shows "usb_conf (s\<lparr>usb_mem := m\<rparr>)"
  using assms by (simp add: usb_conf_def usb_mem_ok_def)

lemma usb_conf_mem_write: "mem_write p bs s = Inr s' \<Longrightarrow> usb_conf s \<Longrightarrow> usb_conf s'"
  using mem_write_sizes [of p bs s s'] usb_conf_mem by (auto simp: usb_conf_def usb_mem_ok_def)

lemma usb_conf_mem_copy: "mem_copy dst src n s = Inr s' \<Longrightarrow> usb_conf s \<Longrightarrow> usb_conf s'"
  by (auto simp: mem_copy_def intro: usb_conf_mem_write)

lemma mem_copy_eps: "mem_copy dst src n s = Inr s' \<Longrightarrow> eps s' = eps s"
  using mem_write_sizes by (fastforce simp: mem_copy_def)

section \<open>Transfers\<close>

lemma BUG_if_Inr [simp]: "BUG_if c n = Inr u \<longleftrightarrow> \<not> c"
  by (simp add: BUG_if_def)

lemma ep_in_fill_keep:
  assumes "ep_in_fill e x s = Inr s'" and "usb_conf s"
  shows "usb_conf s' \<and> eps s' = eps s"
proof -
  have k: "usb_conf (cache_clean_and_invalidate p n s1) \<and> eps (cache_clean_and_invalidate p n s1) = eps s"
    if "usb_conf s1" "eps s1 = eps s" for p n s1
    using that usb_conf_regs(5) by (simp add: cache_clean_and_invalidate_def usb_log_def)
  show ?thesis
  proof (cases "xfer_dma_data (eps s e) = transfer_data (eps s e)")
    case True
    then show ?thesis using assms k by (auto simp: ep_in_fill_def Let_def)
  next
    case False
    with assms(1) obtain s1 where "mem_copy (xfer_dma_data (eps s e)) (ptr_add (transfer_data (eps s e)) (transferred (eps s e)))
        (unat x) s = Inr s1" "s' = cache_clean_and_invalidate (xfer_dma_data (eps s e)) x s1"
      by (auto simp: ep_in_fill_def Let_def)
    then show ?thesis using assms(2) k usb_conf_mem_copy mem_copy_eps by blast
  qed
qed

lemma usb_conf_ep_in_program [usb_keep]: "usb_conf s \<Longrightarrow> usb_conf (ep_in_program ep a b c s)"
  by (simp add: ep_in_program_def usb_keep)

lemma ep_in_send_keep:
  assumes "ep_in_send e s = Inr s'" and "usb_conf s"
  shows "usb_conf s'"
proof -
  have in_ep: "dir_in (eps s e)" using assms(1) by (auto simp: ep_in_send_def Let_def)
  then have ne: "e \<noteq> EP0_OUT" using usb_conf_ep(1) [OF assms(2), of EP0_OUT] by (auto simp: ep_static_def)
  from assms(1) obtain a b c s1 where
    "(if a = 0 \<and> b > 0 then ep_in_fill e b s else Inr s) = Inr s1"
    "s' = set_ep e ((eps s e)\<lparr>in_flight := b\<rparr>) (ep_in_program (eps s e) a b c s1)"
    by (auto simp: ep_in_send_def Let_def)
  moreover from this have "usb_conf s1" using ep_in_fill_keep assms(2) by (auto split: if_splits)
  ultimately show ?thesis using usb_conf_ep [OF assms(2)] ne by (auto intro!: usb_keep)
qed

lemma ep_in_send_done_keep:
  assumes "ep_in_send_done e s = Inr (d, s')" and "usb_conf s"
  shows "usb_conf s'"
proof -
  have in_ep: "dir_in (eps s e)" using assms(1) by (auto simp: ep_in_send_done_def Let_def)
  then have ne: "e \<noteq> EP0_OUT" using usb_conf_ep(1) [OF assms(2), of EP0_OUT] by (auto simp: ep_static_def)
  have k: "usb_conf (set_ep e ep s)" if "ep_static e ep" for ep
    using that assms(2) ne by (auto intro: usb_keep)
  from assms show ?thesis
    by (auto simp: ep_in_send_done_def Let_def usb_conf_ep [OF assms(2)] split: if_splits
        intro!: k ep_in_send_keep [OF _ k])
qed

lemma ep_in_send_data_keep:
  assumes "ep_in_send_data e p n s = Inr s'" and "usb_conf s"
  shows "usb_conf s'"
proof -
  have in_ep: "dir_in (eps s e)" using assms(1) by (auto simp: ep_in_send_data_def Let_def)
  then have ne: "e \<noteq> EP0_OUT" using usb_conf_ep(1) [OF assms(2), of EP0_OUT] by (auto simp: ep_static_def)
  have k: "usb_conf (set_ep e ep s)" if "ep_static e ep" for ep
    using that assms(2) ne by (auto intro: usb_keep)
  from assms show ?thesis
    by (auto simp: ep_in_send_data_def Let_def usb_conf_ep [OF assms(2)] intro: ep_in_send_keep [OF _ k])
qed

lemma ep_out_recv_keep:
  assumes "ep_out_recv e s = Inr s'" and "usb_conf s"
  shows "usb_conf s'"
  using assms usb_conf_ep [OF assms(2)]
  by (auto simp: ep_out_recv_def Let_def split: if_splits intro!: usb_keep)

lemma ep_out_recv_setup_done_keep:
  assumes "ep_out_recv_setup_done e s = Inr (p, s')" and "usb_conf s"
  shows "usb_conf s'"
  using assms usb_conf_ep [OF assms(2)]
  by (auto simp: ep_out_recv_setup_done_def Let_def intro!: usb_keep)

lemma ep_out_recv_data_common_keep:
  assumes "ep_out_recv_data_common e p n s = Inr s'" and "usb_conf s"
  shows "usb_conf s'"
proof -
  let ?s = "set_ep e ((eps s e)\<lparr>transfer_data := p, transfer_size := if n = 0 then TRANSFER_ZLP else n,
                          transferred := 0, in_flight := RECV_DATA\<rparr>) s"
  have "usb_conf ?s" using usb_conf_ep [OF assms(2)] assms(2) by (auto intro!: usb_keep)
  then show ?thesis using assms(1) ep_out_recv_keep by (auto simp: ep_out_recv_data_common_def Let_def split: if_splits)
qed

lemma ep_out_recv_data_keep:
  assumes "ep_out_recv_data e p n s = Inr s'" and "usb_conf s"
  shows "usb_conf s'"
proof -
  have "usb_conf (set_ep e (reset_dma (eps s e)) s)" using usb_conf_ep [OF assms(2)] assms(2) by (auto intro!: usb_keep)
  then show ?thesis using assms(1) ep_out_recv_data_common_keep by (auto simp: ep_out_recv_data_def Let_def)
qed

lemma ep_out_recv_data_dma_keep:
  assumes "ep_out_recv_data_dma EP2_OUT p d n s = Inr s'" and "usb_conf s"
  shows "usb_conf s'"
proof -
  have "usb_conf (set_ep EP2_OUT ((eps s EP2_OUT)\<lparr>xfer_dma_data := p, xfer_dma_size := n, xfer_dma_phys := d\<rparr>) s)"
    using usb_conf_ep [OF assms(2)] assms(2) by (auto intro!: usb_keep)
  then show ?thesis using assms(1) ep_out_recv_data_common_keep by (auto simp: ep_out_recv_data_dma_def Let_def)
qed

lemma ep_out_take_keep:
  assumes "ep_out_take e off n s = Inr s'" and "usb_conf s"
  shows "usb_conf s'"
proof -
  let ?E = "eps s e"
  have k: "usb_conf (set_ep e (?E\<lparr>transferred := a\<rparr>) s1)" if "usb_conf s1" for s1 a
    using that usb_conf_ep [OF assms(2)] by (auto intro!: usb_keep)
  show ?thesis
  proof (cases "n > 0")
    case True
    note n = True
    show ?thesis
    proof (cases "xfer_dma_data ?E = transfer_data ?E")
      case True
      then have "s' = set_ep e (?E\<lparr>transferred := transferred ?E + n\<rparr>) s"
        using assms(1) n by (simp add: ep_out_take_def Let_def)
      then show ?thesis using k [OF assms(2)] by simp
    next
      case False
      then obtain s1 where "mem_copy (ptr_add (transfer_data ?E) (transferred ?E)) (xfer_dma_data ?E) (unat n)
          (cache_invalidate (xfer_dma_data ?E) n s) = Inr s1" "s' = set_ep e (?E\<lparr>transferred := transferred ?E + n\<rparr>) s1"
        using assms(1) n by (simp add: ep_out_take_def Let_def bindE_assoc) (erule bindE_InrE, simp, erule bindE_InrE, simp)
      then show ?thesis using usb_conf_mem_copy usb_conf_regs(6) [OF assms(2)] k by blast
    qed
  qed (use assms in \<open>simp add: ep_out_take_def\<close>)
qed

lemma ep_out_recv_finish_keep:
  assumes "ep_out_recv_finish e siz left n cnt s = Inr (d, s')" and "usb_conf s"
  shows "usb_conf s'"
proof -
  define ep where "ep = (if transfer_size (eps s e) = TRANSFER_ZLP then (eps s e)\<lparr>transfer_size := 0\<rparr> else eps s e)"
  have k: "usb_conf (set_ep e ep s)" "usb_conf (set_ep e (ep\<lparr>in_flight := a\<rparr>) s)" for a
    using assms(2) usb_conf_ep [OF assms(2)] by (auto simp: ep_def intro!: usb_keep)
  show ?thesis
    using assms(1) unfolding ep_out_recv_finish_def ep_def [symmetric] Let_def
    by (auto split: if_splits intro: k usb_conf_regs ep_out_recv_keep [OF _ k(1)])
qed

lemma ep_out_recv_data_done_keep:
  assumes "ep_out_recv_data_done e s = Inr (d, s')" and "usb_conf s"
  shows "usb_conf s'"
proof -
  let ?s = "snd (reg_read (rDOEPTSIZ (ep_n (eps s e))) s)"
  obtain off n s1 siz left cnt where "ep_out_take e off n ?s = Inr s1" "ep_out_recv_finish e siz left n cnt s1 = Inr (d, s')"
    using assms(1) by (auto simp: ep_out_recv_data_done_def Let_def case_prod_beta)
  then show ?thesis using usb_conf_regs(1) [OF assms(2)] ep_out_take_keep ep_out_recv_finish_keep by blast
qed

section \<open>Control\<close>

lemma ep_activate_static:
  assumes "ep_default_dma off ep" and "ep_conf e = (n, type, d, mps, off)" and "n AND 0x7f = n"
  shows "ep_static e (ep_activate_state n d type mps ep)" and "dma_reset (ep_activate_state n d type mps ep)"
  using assms by (simp_all add: ep_static_def ep_activate_state_def ep_default_dma_def reset_dma_def dma_reset_def)

lemma ep_activate_log:
  shows "\<exists>tr. ep_in_activate e n type mps f s = (set_ep e (ep_activate_state n True type mps (eps s e)) s)\<lparr>usb_trace := tr\<rparr>"
    and "\<exists>tr. ep_out_activate e n type mps s = (set_ep e (ep_activate_state n False type mps (eps s e)) s)\<lparr>usb_trace := tr\<rparr>"
  by (auto simp: ep_in_activate_def ep_out_activate_def Let_def reg_or_def reg_write_def reg_read_def usb_log_def)

lemma usb_conf_trace: "usb_conf (s\<lparr>usb_trace := tr\<rparr>) = usb_conf s"
  by (simp add: usb_conf_def usb_mem_ok_def)

lemma reg_wait_state: "reg_wait k r b s = Inr s' \<Longrightarrow> \<exists>tr. s' = s\<lparr>usb_trace := tr\<rparr>"
proof (induction k arbitrary: s)
  case (Suc k)
  show ?case
  proof (cases "fst (reg_read r s) AND b \<noteq> 0")
    case True
    then show ?thesis using Suc.prems by (auto simp: reg_read_def usb_log_def)
  next
    case False
    then have "reg_wait k r b (s\<lparr>usb_trace := usb_trace s @ [Rd r]\<rparr>) = Inr s'"
      using Suc.prems by (simp add: reg_read_def usb_log_def)
    from Suc.IH [OF this] show ?thesis by simp
  qed
qed simp

definition ep_cleared :: "endpoint_state \<Rightarrow> endpoint_state" where
  "ep_cleared ep = ep\<lparr>transfer_size := 0, transferred := 0, in_flight := 0\<rparr>"

lemma ep_in_abort_state:
  assumes "ep_in_abort k e s = Inr s'"
  shows "\<exists>tr. s' = s\<lparr>eps := (eps s)(e := ep_cleared (eps s e)), usb_trace := tr\<rparr>"
proof -
  let ?s = "ep_clear e s"
  let ?n = "ep_n (eps ?s e)"
  have "\<exists>s1. (s1 = snd (reg_read (rDIEPCTL ?n) ?s) \<or>
      reg_wait k (rDIEPINT ?n) 0x2 (reg_or (rDIEPCTL ?n) 0x40000000 (snd (reg_read (rDIEPCTL ?n) ?s))) = Inr s1)
    \<and> s' = reg_write (rDIEPINT ?n) (fst (reg_read (rDIEPINT ?n) s1)) (snd (reg_read (rDIEPINT ?n) s1))"
    using assms by (auto simp: ep_in_abort_def Let_def case_prod_beta split: if_splits)
  then obtain s1 where s1: "s1 = snd (reg_read (rDIEPCTL ?n) ?s) \<or>
      reg_wait k (rDIEPINT ?n) 0x2 (reg_or (rDIEPCTL ?n) 0x40000000 (snd (reg_read (rDIEPCTL ?n) ?s))) = Inr s1"
    "s' = reg_write (rDIEPINT ?n) (fst (reg_read (rDIEPINT ?n) s1)) (snd (reg_read (rDIEPINT ?n) s1))" by blast
  from s1(1) have "\<exists>tr. s1 = ?s\<lparr>usb_trace := tr\<rparr>"
    by (auto dest!: reg_wait_state simp: reg_or_def reg_write_def reg_read_def usb_log_def)
  then have "\<exists>tr. s' = ?s\<lparr>usb_trace := tr\<rparr>" using s1(2) by (auto simp: reg_write_def reg_read_def usb_log_def)
  then show ?thesis by (auto simp: ep_clear_def ep_cleared_def set_ep_def)
qed

text \<open>The endpoints that a reset leaves, up to the arming of endpoint 0.\<close>

definition reset_eps :: "(ep_id \<Rightarrow> endpoint_state) \<Rightarrow> ep_id \<Rightarrow> endpoint_state" where
  "reset_eps E e =
     (case ep_conf e of (n, type, d, mps, off) \<Rightarrow>
        ep_activate_state n d type mps (if e = EP0_OUT then E e else ep_cleared (E e)))"

lemma usb_reset_state:
  assumes "usb_reset k s = Inr s'"
  shows "\<exists>tr. ep_out_recv EP0_OUT (s\<lparr>eps := reset_eps (eps s), usb_trace := tr\<rparr>) = Inr s'"
proof -
  obtain s1 s2 s3 where r: "ep_in_abort k EP0_IN s = Inr s1" "ep_in_abort k EP1_IN s1 = Inr s2" "ep_in_abort k EP2_OUT s2 = Inr s3"
    using assms(1) by (auto simp: usb_reset_def)
  obtain tr1 where s1: "s1 = s\<lparr>eps := (eps s)(EP0_IN := ep_cleared (eps s EP0_IN)), usb_trace := tr1\<rparr>"
    using ep_in_abort_state [OF r(1)] by blast
  obtain tr2 where s2: "s2 = s1\<lparr>eps := (eps s1)(EP1_IN := ep_cleared (eps s1 EP1_IN)), usb_trace := tr2\<rparr>"
    using ep_in_abort_state [OF r(2)] by blast
  obtain tr3 where s3: "s3 = s2\<lparr>eps := (eps s2)(EP2_OUT := ep_cleared (eps s2 EP2_OUT)), usb_trace := tr3\<rparr>"
    using ep_in_abort_state [OF r(3)] by blast
  define t0 where "t0 = reg_write rDAINTMSK 0 (reg_write rDIEPMSK 0xd (reg_write rDOEPMSK 0xd (reg_or rGINTMSK 0xc0000
    (reg_write (rDIEPCTL 0) 0 (reg_write (rDOEPCTL 0) 0 (reg_write (rDTXFSIZ 4) 0x0100046b (reg_write (rDTXFSIZ 3) 0x0100036b
    (reg_write (rDTXFSIZ 2) 0x0100026b (reg_write (rDTXFSIZ 1) 0x0040022b (reg_write rGNPTXFSIZ 0x0010021b
    (reg_write rGRXFSIZ 0x0000021b (reg_write (rDOEPINT 0) 0xf (reg_write (rDIEPINT 0) 0x1f (reg_write rDAINTMSK 0
    (reg_write rDIEPMSK 0 (reg_write rDOEPMSK 0 (usb_set_address 0 s3)))))))))))))))))"
  have "\<exists>tr. t0 = s3\<lparr>usb_trace := tr\<rparr>"
    by (simp add: t0_def reg_write_def reg_or_def reg_read_def usb_log_def usb_set_address_def case_prod_beta)
      (rule exI, rule refl)
  then obtain tr4 where t0: "t0 = s3\<lparr>usb_trace := tr4\<rparr>" by blast
  define ta where "ta = ep_out_activate EP0_OUT 0 0 EP0_MAX_PACKET_SIZE t0"
  define tb where "tb = ep_in_activate EP0_IN 0 0 EP0_MAX_PACKET_SIZE 0 ta"
  define tc where "tc = ep_in_activate EP1_IN 1 (bmAttributes endpoint_81) (wMaxPacketSize endpoint_81) 2 tb"
  define td where "td = ep_out_activate EP2_OUT 2 (bmAttributes endpoint_02) (wMaxPacketSize endpoint_02) tc"
  have fin: "ep_out_recv EP0_OUT td = Inr s'"
    using assms by (simp add: usb_reset_def r Let_def t0_def ta_def tb_def tc_def td_def)
  obtain tra where a: "ta = (set_ep EP0_OUT (ep_activate_state 0 False 0 64 (eps t0 EP0_OUT)) t0)\<lparr>usb_trace := tra\<rparr>"
    using ep_activate_log(2) [of EP0_OUT 0 0 EP0_MAX_PACKET_SIZE t0] by (auto simp: EP0_MAX_PACKET_SIZE_def ta_def tb_def)
  obtain trb where b: "tb = (set_ep EP0_IN (ep_activate_state 0 True 0 64 (eps ta EP0_IN)) ta)\<lparr>usb_trace := trb\<rparr>"
    using ep_activate_log(1) [of EP0_IN 0 0 EP0_MAX_PACKET_SIZE 0 ta] by (auto simp: EP0_MAX_PACKET_SIZE_def ta_def tb_def)
  obtain trc where c: "tc = (set_ep EP1_IN (ep_activate_state 1 True 3 1024 (eps tb EP1_IN)) tb)\<lparr>usb_trace := trc\<rparr>"
    using ep_activate_log(1) [of EP1_IN 1 3 1024 2 tb] by (auto simp: endpoint_81_def INTR_EP_MAX_PACKET_SIZE_def tc_def)
  obtain trd where d: "td = (set_ep EP2_OUT (ep_activate_state 2 False 2 512 (eps tc EP2_OUT)) tc)\<lparr>usb_trace := trd\<rparr>"
    using ep_activate_log(2) [of EP2_OUT 2 2 512 tc] by (auto simp: endpoint_02_def BULK_EP_MAX_PACKET_SIZE_def td_def)
  have "eps td = reset_eps (eps s)"
  proof
    fix e show "eps td e = reset_eps (eps s) e"
      by (cases e) (simp_all add: d c b a set_ep_def t0 s3 s2 s1 reset_eps_def)
  qed
  moreover have "\<exists>E. td = s\<lparr>eps := E, usb_trace := trd\<rparr>"
    by (simp add: d c b a set_ep_def t0 s3 s2 s1) (rule exI, rule refl)
  ultimately have "td = s\<lparr>eps := reset_eps (eps s), usb_trace := trd\<rparr>" by fastforce
  then show ?thesis using fin by metis
qed

text \<open>What holds before the first reset: the DMA buffers are known, the memory is there.\<close>

definition usb_pre :: "usb \<Rightarrow> bool" where
  "usb_pre s \<longleftrightarrow> (\<forall>e. ep_default_dma (snd (snd (snd (snd (ep_conf e))))) (eps s e)) \<and> usb_mem_ok s"

lemma usb_conf_pre: "usb_conf s \<Longrightarrow> usb_pre s"
  by (simp add: usb_conf_def usb_pre_def ep_static_def case_prod_beta)

lemma usb_reset_establishes:
  assumes "usb_reset k s = Inr s'" and "usb_pre s"
  shows "usb_conf s'"
proof -
  obtain tr where tr: "ep_out_recv EP0_OUT (s\<lparr>eps := reset_eps (eps s), usb_trace := tr\<rparr>) = Inr s'"
    using usb_reset_state [OF assms(1)] by blast
  have "ep_static e (reset_eps (eps s) e)" for e
  proof -
    obtain n type d mps off where c: "ep_conf e = (n, type, d, mps, off)" by (cases "ep_conf e") auto
    have n: "n AND 0x7f = n" using c by (cases e) auto
    have "ep_default_dma off (eps s e)" using assms(2) c by (auto simp: usb_pre_def dest: spec [of _ e])
    then have "ep_default_dma off (if e = EP0_OUT then eps s e else ep_cleared (eps s e))"
      by (auto simp: ep_default_dma_def ep_cleared_def)
    from ep_activate_static(1) [OF this c n] show ?thesis by (simp add: reset_eps_def c)
  qed
  moreover have "dma_reset (reset_eps (eps s) EP0_OUT)" by (simp add: reset_eps_def ep_activate_state_def)
  ultimately have "usb_conf (s\<lparr>eps := reset_eps (eps s), usb_trace := tr\<rparr>)"
    using assms(2) by (simp add: usb_conf_def usb_pre_def usb_mem_ok_def)
  with tr show ?thesis by (rule ep_out_recv_keep)
qed

lemma usb_reset_keep: "usb_reset k s = Inr s' \<Longrightarrow> usb_conf s \<Longrightarrow> usb_conf s'"
  using usb_reset_establishes usb_conf_pre by blast

lemma ep_stall_keep [usb_keep]: "usb_conf s \<Longrightarrow> usb_conf (ep_stall e s)"
  by (simp add: ep_stall_def Let_def usb_keep)

lemma usb_set_address_keep [usb_keep]: "usb_conf s \<Longrightarrow> usb_conf (usb_set_address a s)"
  by (simp add: usb_set_address_def case_prod_beta usb_keep)

section \<open>The transfer interface and the KTRW channel\<close>

lemma usb_conf_cb [usb_keep]:
  assumes "usb_conf s"
  shows "usb_conf (s\<lparr>in_transfer_done := a\<rparr>)" "usb_conf (s\<lparr>out_transfer_done := b\<rparr>)"
    "usb_conf (s\<lparr>data_out_stage_callback := c\<rparr>)" "usb_conf (s\<lparr>status_out_stage_callback := d\<rparr>)"
    "usb_conf (s\<lparr>setup_packet_pending := p\<rparr>)" "usb_conf (s\<lparr>ep0_setup_packet := pk\<rparr>)"
    "usb_conf (s\<lparr>loader_xfer_recv_count := n\<rparr>)" "usb_conf (s\<lparr>loader_xfer_recv_size := n\<rparr>)"
    "usb_conf (s\<lparr>loader_xfer_size := n\<rparr>)"
    "usb_conf (s\<lparr>usbloader_is_waiting_xfer := p\<rparr>)" "usb_conf (s\<lparr>should_wait_for_cmd_handler := p\<rparr>)"
    "usb_conf (s\<lparr>handler_waits := w\<rparr>)" "usb_conf (s\<lparr>usb_io := io\<rparr>)" "usb_conf (s\<lparr>usb_allocs := w\<rparr>)"
    "usb_conf (s\<lparr>dis_int_count := x\<rparr>)" "usb_conf (s\<lparr>daif_unmasked := p\<rparr>)"
  using assms by (simp_all add: usb_conf_def usb_mem_ok_def)

lemma ep0_begin_data_in_stage_keep:
  assumes "ep0_begin_data_in_stage p n cb s = Inr s'" and "usb_conf s"
  shows "usb_conf s'"
  using assms usb_conf_cb(4) [OF assms(2)] usb_conf_mem_copy ep_in_send_data_keep
  by (auto simp: ep0_begin_data_in_stage_def Let_def split del: if_split)

lemma ep0_begin_data_out_stage_keep:
  assumes "ep0_begin_data_out_stage cb s = Inr s'" and "usb_conf s"
  shows "usb_conf s'"
  using assms usb_conf_cb(3) [OF assms(2)] ep_out_recv_data_keep
  by (auto simp: ep0_begin_data_out_stage_def Let_def)

lemma usb_transfer_keep:
  assumes "usb_conf s"
  shows "usb_in_transfer a p n cb s = Inr s' \<Longrightarrow> usb_conf s'"
    and "usb_out_transfer a p n cb' s = Inr s' \<Longrightarrow> usb_conf s'"
    and "usb_out_transfer_dma a p d n cb' s = Inr s' \<Longrightarrow> usb_conf s'"
  using usb_conf_cb(1,2) [OF assms] ep_in_send_data_keep ep_out_recv_data_keep ep_out_recv_data_dma_keep
  by (auto simp: usb_in_transfer_def usb_out_transfer_def usb_out_transfer_dma_def lookup_endpoint_def split: if_splits)

lemma usb_conf_ktrw:
  assumes "usb_conf s"
  shows "a \<le> b \<Longrightarrow> b \<le> KTRW_BUFFER \<Longrightarrow> usb_conf (s\<lparr>ktrw_send_count := b, ktrw_send_in_flight := a\<rparr>)"
    and "a \<le> KTRW_BUFFER \<Longrightarrow> usb_conf (s\<lparr>ktrw_recv_count := a\<rparr>)"
  using assms by (simp_all add: usb_conf_def usb_mem_ok_def)

lemma usb_conf_counts:
  assumes "usb_conf s"
  shows "ktrw_send_in_flight s \<le> ktrw_send_count s" "ktrw_send_count s \<le> KTRW_BUFFER" "ktrw_recv_count s \<le> KTRW_BUFFER"
  using assms by (simp_all add: usb_conf_def usb_mem_ok_def)

lemma mem_copy_counts:
  assumes "mem_copy dst src n s = Inr s'"
  shows "ktrw_send_in_flight s' = ktrw_send_in_flight s" "ktrw_send_count s' = ktrw_send_count s"
    "ktrw_recv_count s' = ktrw_recv_count s"
  using assms mem_write_sizes by (fastforce simp: mem_copy_def)+

lemma ktrw_send_done_keep:
  assumes "ktrw_send_done s = Inr s'" and "usb_conf s"
  shows "usb_conf s'"
proof -
  let ?l = "ktrw_send_count s - ktrw_send_in_flight s"
  obtain s1 where s1: "mem_copy (At KtrwSendData 0) (At KtrwSendData (unat (ktrw_send_in_flight s))) (unat ?l) s = Inr s1"
    "(let s = s1\<lparr>ktrw_send_count := ?l, ktrw_send_in_flight := ?l\<rparr>
      in if ?l > 0 then usb_in_transfer 0x81 (At KtrwSendData 0) (ucast ?l) Ktrw_send_done s else Inr s) = Inr s'"
    using assms(1) by (auto simp: ktrw_send_done_def Let_def)
  have "?l \<le> KTRW_BUFFER"
    using usb_conf_counts [OF assms(2)] by (meson order_trans word_sub_le)
  then have "usb_conf (s1\<lparr>ktrw_send_count := ?l, ktrw_send_in_flight := ?l\<rparr>)"
    using usb_conf_ktrw(1) usb_conf_mem_copy [OF s1(1) assms(2)] by blast
  then show ?thesis using s1(2) usb_transfer_keep(1) by (auto simp: Let_def split: if_splits)
qed

lemma ktrw_recv_done_keep:
  assumes "ktrw_recv_done p n s = Inr (b, s')" and "usb_conf s"
  shows "usb_conf s'"
proof (cases "ucast (KTRW_BUFFER - ktrw_recv_count s) < n")
  case True
  then show ?thesis using assms by (simp add: ktrw_recv_done_def Let_def)
next
  case False
  let ?c = "KTRW_BUFFER - ktrw_recv_count s"
  let ?n = "if ucast ?c > n then ucast n else ?c :: u16"
  obtain s1 where s1: "mem_copy (At KtrwRecvData (unat (ktrw_recv_count s))) p (unat ?n) s = Inr s1"
    "s' = s1\<lparr>ktrw_recv_count := ktrw_recv_count s1 + ?n\<rparr>"
    using assms(1) False by (auto simp: ktrw_recv_done_def Let_def simp del: if_split)
  have r: "ktrw_recv_count s \<le> KTRW_BUFFER" using usb_conf_counts [OF assms(2)] by blast
  have "?n \<le> ?c"
  proof (cases "n < ucast ?c")
    case True
    then have "unat n < unat ?c" by (simp add: word_less_nat_alt unat_ucast_up)
    moreover have "unat (ucast n :: u16) \<le> unat n" by (simp add: unsigned_ucast_eq take_bit_nat_less_eq_self)
    ultimately show ?thesis using True by (simp add: word_le_nat_alt)
  qed simp
  then have "ktrw_recv_count s + ?n \<le> KTRW_BUFFER" using r by (simp add: word_le_nat_alt unat_sub unat_word_ariths KTRW_BUFFER_def)
  then show ?thesis using s1 mem_copy_counts(3) [OF s1(1)] usb_conf_ktrw(2) usb_conf_mem_copy [OF s1(1) assms(2)] by simp
qed

lemma ktrw_recv_keep:
  assumes "ktrw_recv n s = Inr (b, s')" and "usb_conf s"
  shows "usb_conf s'"
  using assms ep0_begin_data_out_stage_keep by (auto simp: ktrw_recv_def split: if_splits)

section \<open>The loader and the requests\<close>

lemma usb_alloc_keep:
  assumes "usb_alloc n s = Inr (p, s')" and "usb_conf s"
  shows "usb_conf s'"
proof -
  obtain f where "s' = s\<lparr>usb_mem := (usb_mem s)(LoaderXfer (usb_allocs s) \<mapsto> map f [0..<unat n]), usb_allocs := Suc (usb_allocs s)\<rparr>"
    using assms(1) by (auto simp: usb_alloc_def Let_def split: option.splits)
  moreover have "mem_sizes ((usb_mem s)(LoaderXfer (usb_allocs s) \<mapsto> map f [0..<unat n]))"
    using assms(2) by (intro mem_sizes_upd) (simp_all add: usb_conf_def usb_mem_ok_def)
  ultimately show ?thesis using usb_conf_mem [OF assms(2)] usb_conf_cb(14) by simp
qed

lemma irq_keep:
  "enable_interrupts s = Inr s' \<Longrightarrow> usb_conf s \<Longrightarrow> usb_conf s'"
  "disable_interrupts s = Inr s' \<Longrightarrow> usb_conf s \<Longrightarrow> usb_conf s'"
  by (erule enable_interrupts_InrE, simp add: usb_conf_cb) (erule disable_interrupts_InrE, simp add: usb_conf_cb)

lemma with_io_keep:
  "with_io f s = Inr (x, s') \<Longrightarrow> usb_conf s \<Longrightarrow> usb_conf s'"
  "io_unit g s = Inr s' \<Longrightarrow> usb_conf s \<Longrightarrow> usb_conf s'"
  by (auto simp: with_io_def io_unit_def usb_conf_cb)

lemma usbloader_xfer_done_cb_keep [usb_keep]: "usb_conf s \<Longrightarrow> usb_conf (usbloader_xfer_done_cb n s)"
  by (simp add: usbloader_xfer_done_cb_def Let_def usb_keep)

lemma write_stdin_loop_keep: "write_stdin_loop k p i s = Inr s' \<Longrightarrow> usb_conf s \<Longrightarrow> usb_conf s'"
proof (induction k arbitrary: i s)
  case (Suc k)
  then show ?case using with_io_keep(2) by (auto simp: Let_def split: if_splits)
qed simp

lemma usb_write_stdin_keep:
  assumes "usb_write_stdin p n s = Inr (b, s')" and "usb_conf s"
  shows "usb_conf s'"
proof -
  obtain s1 s2 where r: "enable_interrupts s = Inr s1" "write_stdin_loop (unat n) p 0 s1 = Inr s2"
    "disable_interrupts (if should_wait_for_cmd_handler s2 then s2\<lparr>handler_waits := handler_waits s2 + 1\<rparr> else s2) = Inr s'"
    using assms(1) by (auto simp: usb_write_stdin_def Let_def simp del: if_split)
  have "usb_conf s2" using r(1,2) assms(2) irq_keep(1) write_stdin_loop_keep by blast
  then have "usb_conf (if should_wait_for_cmd_handler s2 then s2\<lparr>handler_waits := handler_waits s2 + 1\<rparr> else s2)"
    by (simp add: usb_conf_cb)
  with r(3) show ?thesis by (rule irq_keep)
qed

lemma usb_free_keep:
  assumes "usb_conf s" and "loader_ptr p"
  shows "usb_conf (usb_free p s)"
proof (cases p)
  case (At b i)
  then have "mem_sizes ((usb_mem s)(b := None))" using assms by (intro mem_sizes_upd) (auto simp: usb_conf_def usb_mem_ok_def loader_ptr_def)
  then show ?thesis using At usb_conf_mem [OF assms(1)] by (simp add: usb_free_def)
qed (use assms in \<open>simp add: usb_free_def\<close>)

lemma mem_copy_loader: "mem_copy dst src n s = Inr s' \<Longrightarrow> loader_xfer_recv_data s' = loader_xfer_recv_data s"
  using mem_write_sizes by (fastforce simp: mem_copy_def)

lemma resize_keep:
  assumes "resize_loader_xfer_data n s = Inr s'" and "usb_conf s"
  shows "usb_conf s'"
proof -
  obtain s1 s2 where r: "disable_interrupts s = Inr s1" "enable_interrupts s2 = Inr s'"
    "(if n > loader_xfer_recv_size s1 then
              bindE (usb_alloc n s1) (\<lambda>(new_xfer_buffer, s).
              bindE (mem_copy new_xfer_buffer (loader_xfer_recv_data s) (unat (loader_xfer_recv_count s)) s) (\<lambda>s.
              Inr ((usb_free (loader_xfer_recv_data s) s)\<lparr>loader_xfer_recv_size := n,
                     loader_xfer_recv_data := new_xfer_buffer\<rparr>)))
            else Inr s1) = Inr s2"
    using assms(1) by (auto simp: resize_loader_xfer_data_def simp del: if_split)
  have c1: "usb_conf s1" using irq_keep(2) r(1) assms(2) by blast
  have "usb_conf s2"
  proof (cases "n > loader_xfer_recv_size s1")
    case True
    then obtain p s3 s4 where a: "usb_alloc n s1 = Inr (p, s3)"
      "mem_copy p (loader_xfer_recv_data s3) (unat (loader_xfer_recv_count s3)) s3 = Inr s4"
      "s2 = (usb_free (loader_xfer_recv_data s4) s4)\<lparr>loader_xfer_recv_size := n, loader_xfer_recv_data := p\<rparr>"
      using r(3) by auto
    have "usb_conf s4" using usb_alloc_keep [OF a(1) c1] usb_conf_mem_copy [OF a(2)] by blast
    moreover from this have "loader_ptr (loader_xfer_recv_data s4)" by (simp add: usb_conf_def usb_mem_ok_def)
    ultimately have "usb_conf (usb_free (loader_xfer_recv_data s4) s4)" by (rule usb_free_keep)
    moreover have "loader_ptr p" using a(1) by (auto simp: usb_alloc_def Let_def loader_ptr_def split: option.splits)
    ultimately show ?thesis using a(3) by (simp add: usb_conf_def usb_mem_ok_def)
  qed (use r(3) c1 in simp)
  then show ?thesis using r(2) irq_keep(1) by blast
qed

lemma loader_recv_keep: "loader_recv s = Inr s' \<Longrightarrow> usb_conf s \<Longrightarrow> usb_conf s'"
  using usb_transfer_keep(3) by (auto simp: loader_recv_def)

lemma reallocate_keep:
  assumes "reallocate_loader_xfer_data p n s = Inr (b, s')" and "usb_conf s"
  shows "usb_conf s'"
proof -
  let ?s = "s\<lparr>loader_xfer_recv_count := 0, usbloader_is_waiting_xfer := True\<rparr>"
  have c: "usb_conf ?s" using assms(2) by (simp add: usb_conf_cb)
  show ?thesis
    using assms resize_keep [OF _ c] loader_recv_keep usb_conf_cb(9)
    by (auto simp: reallocate_loader_xfer_data_def Let_def split: if_splits)
qed

lemma usb_conf_local: "usb_conf s \<Longrightarrow> usb_conf (s\<lparr>usb_mem := (usb_mem s)(StackLocal \<mapsto> bs)\<rparr>)"
  by (rule usb_conf_mem) (auto simp: usb_conf_def usb_mem_ok_def intro: mem_sizes_upd)

lemma ep0_device_request_keep:
  assumes "ep0_device_request setup s = Inr (b, s')" and "usb_conf s"
  shows "usb_conf s'"
proof -
  have out: "usb_conf s'" if "ep0_device_out setup s = Inr (b, s')"
    using that assms(2)
    by (auto simp: ep0_device_out_def split: if_splits
        intro: loader_recv_keep ep0_begin_data_out_stage_keep with_io_keep(2) usb_conf_cb)
  have req: "usb_conf s'" if r: "ep0_stdout_request setup s = Inr (b, s')"
  proof -
    obtain out s1 s2 p n where q: "with_io fetch_stdoutbuf s = Inr (out, s1)" "mem_write (At StdoutbufCopy 0) out s1 = Inr s2"
      "ep0_begin_data_in_stage p n (Some Usb_read_stdout_cb) s2 = Inr s'"
      using r by (auto simp: ep0_stdout_request_def Let_def)
    show ?thesis
      by (rule ep0_begin_data_in_stage_keep [OF q(3) usb_conf_mem_write [OF q(2) with_io_keep(1) [OF q(1) assms(2)]]])
  qed
  have inn: "usb_conf s'" if r: "ep0_device_in setup s = Inr (b, s')"
    using that assms(2) req ep0_begin_data_in_stage_keep usb_conf_local
    by (auto simp: ep0_device_in_def Let_def split: if_splits)
  show ?thesis using assms out inn by (auto simp: ep0_device_request_def split: if_splits)
qed

lemma ep0_standard_request_keep:
  assumes "ep0_standard_request setup s = Inr (b, s')" and "usb_conf s"
  shows "usb_conf s'"
  using assms ep0_begin_data_in_stage_keep usb_conf_local usb_set_address_keep
  by (auto simp: ep0_standard_request_def ep0_standard_in_request_def ep0_standard_out_request_def
      ep0_get_descriptor_request_def get_string_descriptor_def Let_def split: if_splits)

lemma ep0_vendor_request_keep: "ep0_vendor_request setup s = Inr (b, s') \<Longrightarrow> usb_conf s \<Longrightarrow> usb_conf s'"
  using ktrw_recv_keep by (auto simp: ep0_vendor_request_def split: if_splits)

lemma ep0_setup_stage_keep:
  assumes "ep0_setup_stage setup s = Inr (b, s')" and "usb_conf s"
  shows "usb_conf s'"
proof -
  obtain s1 s2 where r: "enable_interrupts s = Inr s1" "disable_interrupts s2 = Inr s'"
    "ep0_standard_request setup s1 = Inr (b, s2) \<or> ep0_device_request setup s1 = Inr (b, s2)
      \<or> ep0_vendor_request setup s1 = Inr (b, s2) \<or> s2 = s1"
    using assms(1) by (auto simp: ep0_setup_stage_def Let_def split: if_splits)
  have "usb_conf s1" using irq_keep(1) r(1) assms(2) by blast
  then have "usb_conf s2"
    using r(3) ep0_standard_request_keep ep0_device_request_keep ep0_vendor_request_keep by blast
  then show ?thesis using r(2) irq_keep(2) by blast
qed

section \<open>Interrupts\<close>

lemma ep0_in_interrupt_keep:
  assumes "ep0_in_interrupt s = Inr s'" and "usb_conf s"
  shows "usb_conf s'"
proof -
  let ?v = "fst (reg_read (rDIEPINT 0) s)"
  let ?s = "reg_write (rDIEPINT 0) ?v (snd (reg_read (rDIEPINT 0) s))"
  have c: "usb_conf ?s" using assms(2) by (simp add: usb_keep)
  have d: "usb_conf t'" if "ep0_in_done t = Inr t'" "usb_conf t" for t t'
    using that ep_in_send_data_keep ep_out_recv_data_keep ep_out_recv_keep
    by (auto simp: ep0_in_done_def Let_def split: if_splits)
  have "s' = ?s \<or> (\<exists>d t. ep_in_send_done EP0_IN ?s = Inr (d, t) \<and> (s' = t \<or> ep0_in_done t = Inr s'))"
    using assms(1) by (auto simp: ep0_in_interrupt_def Let_def case_prod_beta split: if_splits)
  then show ?thesis using c d ep_in_send_done_keep by blast
qed

lemma ep1_in_interrupt_keep:
  assumes "ep1_in_interrupt s = Inr s'" and "usb_conf s"
  shows "usb_conf s'"
proof -
  let ?v = "fst (reg_read (rDIEPINT 1) s)"
  let ?s = "reg_write (rDIEPINT 1) ?v (snd (reg_read (rDIEPINT 1) s))"
  have c: "usb_conf ?s" using assms(2) by (simp add: usb_keep)
  have "s' = ?s \<or> (\<exists>d t. ep_in_send_done EP1_IN ?s = Inr (d, t) \<and> (s' = t \<or> ktrw_send_done (t\<lparr>in_transfer_done := None\<rparr>) = Inr s'))"
    using assms(1) by (auto simp: ep1_in_interrupt_def Let_def case_prod_beta split: if_splits option.splits in_callback.splits)
  then show ?thesis using c ep_in_send_done_keep ktrw_send_done_keep usb_conf_cb(1) by blast
qed

lemma ep0_take_setup_keep:
  assumes "ep0_take_setup s = Inr s'" and "usb_conf s"
  shows "usb_conf s'"
  using assms ep_out_recv_setup_done_keep by (auto simp: ep0_take_setup_def usb_conf_cb)

lemma ep0_process_setup_keep:
  assumes "ep0_process_setup s = Inr s'" and "usb_conf s"
  shows "usb_conf s'"
proof -
  let ?s = "s\<lparr>setup_packet_pending := False\<rparr>"
  have c: "usb_conf ?s" using assms(2) by (rule usb_conf_cb)
  have "\<exists>b t. (ep0_setup_stage (ep0_setup_packet ?s) ?s = Inr (b, t) \<or> t = ?s)
      \<and> (s' = t \<or> ep_in_send_data EP0_IN Null 0 t = Inr s' \<or> (\<exists>e. s' = ep_stall e t))"
    using assms(1) by (auto simp: ep0_process_setup_def Let_def split: if_splits) blast+
  then obtain b t where r: "ep0_setup_stage (ep0_setup_packet ?s) ?s = Inr (b, t) \<or> t = ?s"
      "s' = t \<or> ep_in_send_data EP0_IN Null 0 t = Inr s' \<or> (\<exists>e. s' = ep_stall e t)" by blast
  have "usb_conf t" using r(1) c ep0_setup_stage_keep by blast
  then show ?thesis using r(2) ep_in_send_data_keep ep_stall_keep by blast
qed

lemma call_data_out_keep:
  assumes "call_data_out cb p n s = Inr (b, s')" and "usb_conf s"
  shows "usb_conf s'"
  using assms ktrw_recv_done_keep usb_write_stdin_keep reallocate_keep
  by (cases cb) (auto simp: call_data_out_def)

lemma ep0_out_data_done_keep:
  assumes "ep0_out_data_done s = Inr s'" and "usb_conf s"
  shows "usb_conf s'"
  using assms
  by (auto simp: ep0_out_data_done_def Let_def call_status_out_def usb_read_stdout_cb_def
      split: if_splits option.splits status_out_callback.splits
      intro: ep_in_send_data_keep [OF _ usb_conf_cb(3) [OF call_data_out_keep]] usb_conf_cb
        ep_stall_keep ep_stall_keep [OF usb_conf_cb(3) [OF call_data_out_keep]])

lemma ep0_out_interrupt_keep:
  assumes "ep0_out_interrupt s = Inr s'" and "usb_conf s"
  shows "usb_conf s'"
proof -
  let ?v = "fst (reg_read (rDOEPINT 0) s)"
  let ?s = "reg_write (rDOEPINT 0) ?v (snd (reg_read (rDOEPINT 0) s))"
  have c: "usb_conf ?s" using assms(2) by (simp add: usb_keep)
  note pk = ep0_take_setup_keep [OF _ c] and dt = ep_out_recv_data_done_keep [OF _ c]
  show ?thesis
    using assms(1)
    by (auto simp: ep0_out_interrupt_def Let_def case_prod_beta split: if_splits
        intro: ep_out_recv_keep [OF _ c] ep_out_recv_keep [OF _ pk] ep_out_recv_keep [OF _ dt]
          ep_out_recv_keep [OF _ ep0_process_setup_keep [OF _ c]] ep_out_recv_keep [OF _ ep0_process_setup_keep [OF _ pk]]
          ep_out_recv_keep [OF _ ep0_out_data_done_keep [OF _ dt]])
qed

lemma ep2_out_interrupt_keep:
  assumes "ep2_out_interrupt s = Inr s'" and "usb_conf s"
  shows "usb_conf s'"
proof -
  let ?v = "fst (reg_read (rDOEPINT 2) s)"
  let ?s = "reg_write (rDOEPINT 2) ?v (snd (reg_read (rDOEPINT 2) s))"
  have c: "usb_conf ?s" using assms(2) by (simp add: usb_keep)
  have d: "usb_conf t'" if "ep2_out_done t = Inr t'" "usb_conf t" for t t'
    using that by (auto simp: ep2_out_done_def usb_conf_cb usbloader_xfer_done_cb_keep split: option.splits out_callback.splits)
  have "\<exists>t. (t = ?s \<or> (\<exists>d u. ep_out_recv_data_done EP2_OUT ?s = Inr (d, u) \<and> (t = u \<or> ep2_out_done u = Inr t)))
     \<and> (s' = t \<or> USB_DEBUG_PRINT_REGISTERS t = Inr s')"
    using assms(1) by (auto simp: ep2_out_interrupt_def Let_def case_prod_beta split: if_splits)
  then obtain t where t: "t = ?s \<or> (\<exists>d u. ep_out_recv_data_done EP2_OUT ?s = Inr (d, u) \<and> (t = u \<or> ep2_out_done u = Inr t))"
     "s' = t \<or> USB_DEBUG_PRINT_REGISTERS t = Inr s'" by blast
  have "usb_conf t" using t(1) c ep_out_recv_data_done_keep d by blast
  then show ?thesis using t(2) irq_keep by (auto simp: USB_DEBUG_PRINT_REGISTERS_def)
qed

lemma usb_ep_interrupt_keep:
  assumes "usb_ep_interrupt s = Inr s'" and "usb_conf s"
  shows "usb_conf s'"
proof -
  let ?s = "snd (reg_read rDAINT s)"
  have c: "usb_conf ?s" using assms(2) by (simp add: usb_keep)
  show ?thesis
    using assms(1) c ep0_in_interrupt_keep ep1_in_interrupt_keep ep0_out_interrupt_keep ep2_out_interrupt_keep
    by (auto simp: usb_ep_interrupt_def case_prod_beta split: if_splits)
qed

lemma usb_handler_loop_keep: "usb_handler_loop k g s = Inr s' \<Longrightarrow> usb_conf s \<Longrightarrow> usb_conf s'"
proof (induction k arbitrary: g s)
  case (Suc k)
  let ?s = "snd (reg_read rGINTSTS s)"
  have c: "usb_conf ?s" using Suc.prems(2) by (simp add: usb_keep)
  let ?g = "g OR fst (reg_read rGINTSTS s)"
  obtain t u where
    t: "(if ?g AND 0x1000 \<noteq> 0 then bindE (usb_reset k ?s) (\<lambda>s. Inr (reg_write rGINTSTS 0x1000 s)) else Inr ?s) = Inr t"
    and u: "(if ?g AND 0xC0000 \<noteq> 0 then bindE (usb_ep_interrupt t) (\<lambda>s. Inr (reg_write rGINTSTS 0xc0000 s)) else Inr t) = Inr u"
    and rest: "(if ?g AND 0xc1000 = 0 then Inr u else usb_handler_loop k (?g AND NOT 0xc1000) u) = Inr s'"
    using Suc.prems(1) unfolding usb_handler_loop.simps Let_def case_prod_beta by (elim bindE_InrE)
  have r: "t = ?s \<or> (\<exists>t'. usb_reset k ?s = Inr t' \<and> t = reg_write rGINTSTS 0x1000 t')"
    "u = t \<or> (\<exists>u'. usb_ep_interrupt t = Inr u' \<and> u = reg_write rGINTSTS 0xc0000 u')"
    "s' = u \<or> usb_handler_loop k (?g AND NOT 0xc1000) u = Inr s'"
    using t u rest by (auto split: if_splits)
  have "usb_conf t" using r(1) c usb_reset_keep usb_conf_regs(2) by blast
  then have "usb_conf u" using r(2) usb_ep_interrupt_keep usb_conf_regs(2) by blast
  then show ?case using r(3) Suc.IH by blast
qed simp

lemma usb_main_round_keep: "usb_main_round k s = Inr s' \<Longrightarrow> usb_conf s \<Longrightarrow> usb_conf s'"
  using irq_keep usb_handler_loop_keep by (auto simp: usb_main_round_def usb_handler_def)

section \<open>The other calls\<close>

lemma usb_read_keep:
  assumes "usb_read n s = Inr (bs, s')" and "usb_conf s"
  shows "usb_conf s'"
proof -
  let ?c = "ucast (ktrw_recv_count s) :: u64"
  let ?l = "?c - (if ?c > n then n else ?c)"
  obtain dst src k s1 where s1: "mem_copy dst src k s = Inr s1" "s' = s1\<lparr>ktrw_recv_count := ucast ?l\<rparr>"
    using assms(1) by (auto simp: usb_read_def Let_def simp del: if_split)
  have "unat (ucast ?l :: u16) \<le> unat ?l" by (simp add: unsigned_ucast_eq)
  also have "\<dots> \<le> unat ?c"
  proof -
    have "?l \<le> ?c" by (rule word_sub_le) (auto intro: less_imp_le)
    then show ?thesis by (simp only: word_le_nat_alt)
  qed
  also have "unat ?c = unat (ktrw_recv_count s)" by (rule unat_ucast_up) simp
  finally have "(ucast ?l :: u16) \<le> ktrw_recv_count s" by (simp add: word_le_nat_alt)
  also have "\<dots> \<le> KTRW_BUFFER" using usb_conf_counts(3) [OF assms(2)] .
  finally show ?thesis using s1 usb_conf_ktrw(2) usb_conf_mem_copy [OF s1(1) assms(2)] by blast
qed

lemma mem_write_counts:
  assumes "mem_write p bs s = Inr s'"
  shows "ktrw_send_in_flight s' = ktrw_send_in_flight s" "ktrw_send_count s' = ktrw_send_count s"
  using mem_write_sizes [OF assms] by auto

lemma usb_conf_send_count:
  assumes "usb_conf s" and "ktrw_send_in_flight s \<le> b" and "b \<le> KTRW_BUFFER"
  shows "usb_conf (s\<lparr>ktrw_send_count := b\<rparr>)"
  using assms by (simp add: usb_conf_def usb_mem_ok_def)

lemma usb_write_count:
  fixes c :: u16 and n :: u64
  assumes "c \<le> KTRW_BUFFER"
  defines "room \<equiv> ucast KTRW_BUFFER - ucast c :: u64"
  shows "unat (ucast (ucast c + (if room > n then n else room)) :: u16) = unat c + min (unat n) (4096 - unat c)"
proof -
  have c: "unat c \<le> 4096" using assms(1) by (simp add: word_le_nat_alt KTRW_BUFFER_def)
  have k: "unat (ucast KTRW_BUFFER :: u64) = 4096" by (simp add: KTRW_BUFFER_def)
  have uc: "unat (ucast c :: u64) = unat c" by (rule unat_ucast_up) simp
  have room: "unat room = 4096 - unat c" unfolding room_def using c by (subst unat_sub) (simp_all add: word_le_nat_alt k uc)
  have m: "unat (if room > n then n else room) = min (unat n) (4096 - unat c)"
    by (simp add: word_less_nat_alt room min_def)
  have "unat (ucast c + (if room > n then n else room)) = unat c + min (unat n) (4096 - unat c)"
    using c by (subst unat_word_ariths) (simp only: uc m, simp)
  then show ?thesis using c by (simp add: unsigned_ucast_eq take_bit_nat_eq_self)
qed

lemma usb_write_keep:
  assumes "usb_write data n s = Inr (k, s')" and "usb_conf s"
  shows "usb_conf s'"
proof -
  let ?c = "ktrw_send_count s"
  let ?room = "ucast KTRW_BUFFER - ucast ?c :: u64"
  let ?n = "if ?room > n then n else ?room"
  obtain p bs s1 where s1: "mem_write p bs s = Inr s1" "s' = s1\<lparr>ktrw_send_count := ucast (ucast (ktrw_send_count s1) + ?n)\<rparr>"
    using assms(1) by (auto simp: usb_write_def Let_def simp del: if_split)
  note cnt = usb_conf_counts [OF assms(2)]
  have "unat ?c \<le> 4096" using cnt(2) by (simp add: word_le_nat_alt KTRW_BUFFER_def)
  then have "?c \<le> ucast (ucast ?c + ?n)" "ucast (ucast ?c + ?n) \<le> KTRW_BUFFER"
    unfolding word_le_nat_alt usb_write_count [OF cnt(2)] by (simp_all add: KTRW_BUFFER_def)
  note b = this
  have "ktrw_send_in_flight s1 \<le> ucast (ucast ?c + ?n)"
    unfolding mem_write_counts [OF s1(1)] using cnt(1) b(1) by (rule order_trans)
  from usb_conf_send_count [OF usb_conf_mem_write [OF s1(1) assms(2)] this b(2)]
  show ?thesis unfolding s1(2) mem_write_counts [OF s1(1)] .
qed

lemma usb_write_commit_keep:
  assumes "usb_write_commit s = Inr s'" and "usb_conf s"
  shows "usb_conf s'"
proof -
  have "usb_conf (s\<lparr>ktrw_send_in_flight := ktrw_send_count s\<rparr>)"
    using assms(2) by (simp add: usb_conf_def usb_mem_ok_def)
  then show ?thesis
    using assms usb_transfer_keep(1) by (auto simp: usb_write_commit_def split: if_splits)
qed

lemma usbloader_init_keep:
  assumes "usbloader_init s = Inr s'" and "usb_conf s"
  shows "usb_conf s'"
proof -
  obtain p s1 where a: "usb_alloc UPLOADSZ s = Inr (p, s1)" "s' = s1\<lparr>loader_xfer_recv_data := p, loader_xfer_size := UPLOADSZ,
      loader_xfer_recv_size := UPLOADSZ, loader_xfer_recv_count := 0\<rparr>"
    using assms(1) by (auto simp: usbloader_init_def)
  have "usb_conf s1" by (rule usb_alloc_keep [OF a(1) assms(2)])
  moreover have "loader_ptr p" using a(1) by (auto simp: usb_alloc_def Let_def loader_ptr_def split: option.splits)
  ultimately show ?thesis using a(2) by (simp add: usb_conf_def usb_mem_ok_def)
qed

section \<open>Bring-up\<close>

definition usb_statics :: "usb \<Rightarrow> bool" where
  "usb_statics s \<longleftrightarrow> usb_mem_ok (s\<lparr>usb_mem := (usb_mem s)(DmaPage \<mapsto> replicate 0x4000 0)\<rparr>)"

lemma dma_offsets:
  "unat (0 * DMA_BUFFER_SIZE) = 0" "unat (1 * DMA_BUFFER_SIZE) = 0x1000" "unat (2 * DMA_BUFFER_SIZE) = 0x2000"
  "unat (3 * DMA_BUFFER_SIZE) = 0x3000" "unat (4 * DMA_BUFFER_SIZE) = 0x4000"
  by (simp_all add: DMA_BUFFER_SIZE_def)

lemma usb_init_pre:
  assumes "usb_init_state p s = Inr s'" and "usb_statics s"
  shows "usb_pre s'"
proof -
  let ?regs = "\<lambda>s. reg_and rDCTL (NOT 0x2) (reg_write rGINTMSK 0x1000 (reg_write (rDOEPINT 0) 0xf (reg_write (rDIEPINT 0) 0x1f
    (reg_write rDAINTMSK 0 (reg_write rDIEPMSK 0 (reg_write rDOEPMSK 0 (reg_write rGINTMSK 0 (reg_write rDCFG 0x4
    (reg_write rGUSBCFG 0x1408 (reg_write rGAHBCFG (0x2e OR 1) (reg_or rDCTL 0x2 (snd (reg_read rGSNPSID s)))))))))))))"
  define t0 where "t0 = cache_clean_and_invalidate (At DmaPage 0) (4 * DMA_BUFFER_SIZE)
    (s\<lparr>usb_mem := (usb_mem s)(DmaPage \<mapsto> replicate (unat (4 * DMA_BUFFER_SIZE)) 0)\<rparr>)"
  obtain t1 where t1: "disable_interrupts t0 = Inr t1"
    and rest: "enable_interrupts (set_default_dma EP2_OUT 3 p (set_default_dma EP1_IN 2 p (set_default_dma EP0_IN 1 p
      (set_default_dma EP0_OUT 0 p (ep_in_activate EP0_IN 0 0 EP0_MAX_PACKET_SIZE 0
        (ep_out_activate EP0_OUT 0 0 EP0_MAX_PACKET_SIZE (?regs t1))))))) = Inr s'"
    using assms(1) by (auto simp: usb_init_state_def Let_def t0_def case_prod_beta)
  have ok0: "usb_mem_ok t0"
    using assms(2) dma_offsets(5) by (simp add: usb_statics_def t0_def cache_clean_and_invalidate_def usb_log_def usb_mem_ok_def)
  have ok1: "usb_mem_ok t1" using t1 ok0 by (elim disable_interrupts_InrE) (simp add: usb_mem_ok_def)
  define t2 where "t2 = ?regs t1"
  have ok2: "usb_mem_ok t2" using ok1 by (simp add: t2_def reg_and_def reg_or_def reg_read_def reg_write_def usb_log_def usb_mem_ok_def)
  define t3 where "t3 = ep_out_activate EP0_OUT 0 0 EP0_MAX_PACKET_SIZE t2"
  define t4 where "t4 = ep_in_activate EP0_IN 0 0 EP0_MAX_PACKET_SIZE 0 t3"
  have ok3: "usb_mem_ok t3" using ok2 ep_activate_log(2) [of EP0_OUT 0 0 EP0_MAX_PACKET_SIZE t2]
    by (auto simp: t3_def set_ep_def usb_mem_ok_def)
  have ok4: "usb_mem_ok t4" using ok3 ep_activate_log(1) [of EP0_IN 0 0 EP0_MAX_PACKET_SIZE 0 t3]
    by (auto simp: t4_def set_ep_def usb_mem_ok_def)
  define t5 where "t5 = set_default_dma EP2_OUT 3 p (set_default_dma EP1_IN 2 p (set_default_dma EP0_IN 1 p
      (set_default_dma EP0_OUT 0 p t4)))"
  have "enable_interrupts t5 = Inr s'" using rest by (simp add: t5_def t4_def t3_def t2_def)
  then have s': "eps s' = eps t5" "usb_mem_ok s' = usb_mem_ok t5" by (elim enable_interrupts_InrE, simp add: usb_mem_ok_def)+
  have "usb_mem_ok t5" using ok4 by (simp add: t5_def set_default_dma_def set_ep_def usb_mem_ok_def)
  moreover have "ep_default_dma (snd (snd (snd (snd (ep_conf e))))) (eps t5 e)" for e
    by (cases e) (simp_all add: t5_def set_default_dma_def set_ep_def ep_default_dma_def dma_offsets [simplified])
  ultimately show ?thesis using s' by (simp add: usb_pre_def)
qed

section \<open>Runs of the device\<close>

text \<open>After its first reset the device serves interrupts and the calls of the kernel; meanwhile the
  controller and the host change registers and buffers, and the rest of the kernel its own state.\<close>

inductive usb_run :: "usb \<Rightarrow> bool" where
  start: "usb_statics s0 \<Longrightarrow> usb_init_state p s0 = Inr s \<Longrightarrow> usb_reset k s = Inr s' \<Longrightarrow> usb_run s'"
| round: "usb_run s \<Longrightarrow> usb_main_round k s = Inr s' \<Longrightarrow> usb_run s'"
| run_read: "usb_run s \<Longrightarrow> usb_read n s = Inr (bs, s') \<Longrightarrow> usb_run s'"
| run_write: "usb_run s \<Longrightarrow> usb_write data n s = Inr (w, s') \<Longrightarrow> usb_run s'"
| commit: "usb_run s \<Longrightarrow> usb_write_commit s = Inr s' \<Longrightarrow> usb_run s'"
| loader: "usb_run s \<Longrightarrow> usbloader_init s = Inr s' \<Longrightarrow> usb_run s'"
| resize: "usb_run s \<Longrightarrow> resize_loader_xfer_data sz s = Inr s' \<Longrightarrow> usb_run s'"
| outside: "usb_run s \<Longrightarrow> (\<And>b. map_option length (m b) = map_option length (usb_mem s b)) \<Longrightarrow>
    usb_run (s\<lparr>usb_hw := h, usb_mem := m, command_in_progress := c, usb_io := io\<rparr>)"

lemma usb_run_conf: "usb_run s \<Longrightarrow> usb_conf s"
proof (induction rule: usb_run.induct)
  case (outside s m h c io)
  then show ?case by (simp add: usb_conf_def usb_mem_ok_def mem_sizes_def)
qed (auto intro: usb_reset_establishes usb_init_pre usb_main_round_keep usb_read_keep usb_write_keep usb_write_commit_keep
    usbloader_init_keep resize_keep)

end
