(* ===== verification/UsbRecv.thy ===== *)
theory UsbRecv
  imports UsbSend UsbInv
begin

unbundle bit_operations_syntax

text \<open>
  The DATA OUT stage of a control transfer. The host sends the data in packets of 64 bytes; the
  controller stores each where its DMA address register points and raises an interrupt. The lemmas
  follow the received amount through one interrupt, up to the callback that gets all of the data.
\<close>

section \<open>The controller and the host\<close>

text \<open>A packet arrives on endpoint 0: it is stored, and the registers tell how much room was left.\<close>

definition hw_out :: "bytes \<Rightarrow> usb \<Rightarrow> error + usb" where
  "hw_out pkt s =
     (let ep = eps s EP0_OUT;
          dma = programmed (rDOEPDMA 0) (usb_trace s);
          siz = programmed (rDOEPTSIZ 0) (usb_trace s) AND 0x7f
      in if length pkt > unat siz then Inl BadAccess
         else bindE (mem_write (ptr_add (xfer_dma_data ep) (dma - xfer_dma_phys ep)) pkt s) (\<lambda>s.
              Inr (s\<lparr>usb_hw := (\<lambda>tr r. if r = rDOEPINT 0 then 1 else if r = rDOEPTSIZ 0 then siz - of_nat (length pkt)
                                 else usb_hw s tr r)\<rparr>)))"

primrec out_stage :: "bytes list \<Rightarrow> usb \<Rightarrow> error + usb" where
  "out_stage [] s = Inr s"
| "out_stage (p # ps) s = bindE (hw_out p s) (\<lambda>s. bindE (ep0_out_interrupt s) (out_stage ps))"

lemma usb_conf_obj:
  assumes "usb_conf s" and "obj_size b = Some n"
  shows "\<exists>m. usb_mem s b = Some m \<and> length m = n"
proof -
  have "mem_sizes (usb_mem s)" using assms(1) by (simp add: usb_conf_def usb_mem_ok_def)
  then have "map_option length (usb_mem s b) = Some n" using assms(2) unfolding mem_sizes_def by blast
  then show ?thesis by simp
qed

lemma only_page_sizes:
  assumes "only_page m m'" and "mem_sizes m"
  shows "mem_sizes m'"
  unfolding mem_sizes_def
proof (intro allI impI)
  fix b n assume "obj_size b = Some n"
  then have "map_option length (m b) = Some n" using assms(2) unfolding mem_sizes_def by blast
  then show "map_option length (m' b) = Some n" using assms(1) by (cases "b = DmaPage") (simp_all add: only_page_def)
qed

section \<open>One packet\<close>

lemma ep0_out_static:
  assumes "usb_conf s"
  shows "ep_n (eps s EP0_OUT) = 0" "ep_type (eps s EP0_OUT) = 0" "\<not> dir_in (eps s EP0_OUT)" "max_packet_size (eps s EP0_OUT) = 64"
    "default_xfer_dma_data (eps s EP0_OUT) = At DmaPage 0" "default_xfer_dma_size (eps s EP0_OUT) = 0x1000"
    "xfer_dma_data (eps s EP0_OUT) = At DmaPage 0" "xfer_dma_size (eps s EP0_OUT) = 0x1000"
    "xfer_dma_phys (eps s EP0_OUT) = default_xfer_dma_phys (eps s EP0_OUT)"
  using usb_conf_ep(1) [OF assms, of EP0_OUT] usb_conf_ep(2) [OF assms]
  by (simp_all add: ep_static_def ep_default_dma_def dma_reset_def DMA_BUFFER_SIZE_def)

text \<open>Endpoint 0 is armed to receive a packet at some offset of its buffer.\<close>

definition armed_at :: "nat \<Rightarrow> usb \<Rightarrow> bool" where
  "armed_at t s \<longleftrightarrow> programmed (rDOEPDMA 0) (usb_trace s) = xfer_dma_phys (eps s EP0_OUT) + of_nat t
     \<and> programmed (rDOEPTSIZ 0) (usb_trace s) = push_bit 19 1 OR 64"

definition out_receiving :: "bytes \<Rightarrow> nat \<Rightarrow> usb \<Rightarrow> bool" where
  "out_receiving data t s \<longleftrightarrow>
     (let ep = eps s EP0_OUT in
      usb_conf s \<and> in_flight ep = RECV_DATA \<and> transfer_data ep = At DmaPage 0 \<and> transfer_size ep = of_nat (length data)
      \<and> transferred ep = of_nat t \<and> 64 dvd t \<and> t < length data \<and> length data \<le> 0x1000
      \<and> armed_at t s \<and> mem_read (At DmaPage 0) t s = Inr (take t data))"

lemma out_regs:
  "(rDOEPCTL 0 = rDOEPTSIZ 0) = False" "(rDOEPCTL 0 = rDOEPDMA 0) = False" "(rDOEPTSIZ 0 = rDOEPDMA 0) = False"
  "(rDOEPTSIZ 0 = rDOEPINT 0) = False" "(rDOEPINT 0 = rDOEPTSIZ 0) = False" "(rDOEPDMA 0 = rDOEPTSIZ 0) = False"
  "(rDOEPINT 0 = rDOEPDMA 0) = False"
  by (simp_all add: rDOEPCTL_def rDOEPTSIZ_def rDOEPDMA_def rDOEPINT_def)

lemma of_nat_u32: "n < 4294967296 \<Longrightarrow> unat (of_nat n :: u32) = n"
  by (simp add: unat_of_nat)

lemma compute_ep0:
  assumes conf: "usb_conf s" and d: "transfer_data (eps s EP0_OUT) = At DmaPage 0"
    and t: "transferred (eps s EP0_OUT) = of_nat t" "64 dvd t" "t < 0x1000"
  shows "ep_out_recv_compute_xfer (eps s EP0_OUT) = Inr (of_nat t, 64, 1)"
proof -
  have u: "unat (of_nat t :: u32) = t" using t(3) by (simp add: of_nat_u32)
  have "t + 64 \<le> 0x1000" using t(2,3) by (auto elim!: dvdE)
  then have "\<not> 0x1000 < (of_nat t :: u32)" "\<not> 0x1000 - of_nat t < (64 :: u32)"
    using t(3) by (simp_all add: word_less_nat_alt u unat_sub word_le_nat_alt)
  then show ?thesis
    using ep0_out_static [OF conf] d t(1) by (simp add: ep_out_recv_compute_xfer_def Let_def BUG_if_def)
qed

text \<open>Arming endpoint 0 in the middle of a DATA OUT stage.\<close>

lemma ep0_rearm:
  assumes conf: "usb_conf s" and d: "transfer_data (eps s EP0_OUT) = At DmaPage 0" and f: "in_flight (eps s EP0_OUT) = RECV_DATA"
    and t: "transferred (eps s EP0_OUT) = of_nat t" "64 dvd t" "t < 0x1000"
  shows "\<exists>tr. ep_out_recv EP0_OUT s = Inr (s\<lparr>usb_trace := tr\<rparr>) \<and> armed_at t (s\<lparr>usb_trace := tr\<rparr>)"
proof -
  note st = ep0_out_static [OF conf]
  have self: "set_ep EP0_OUT (eps s EP0_OUT) s = s" by (simp add: set_ep_def)
  have "\<exists>v len. ep_out_recv EP0_OUT s = Inr (s\<lparr>usb_trace := usb_trace s @ [Inval (ptr_add (At DmaPage 0) (of_nat t)) len,
      Wr (rDOEPDMA 0) (xfer_dma_phys (eps s EP0_OUT) + of_nat t), Wr (rDOEPTSIZ 0) (push_bit 19 1 OR 64),
      Rd (rDOEPCTL 0), Wr (rDOEPCTL 0) v]\<rparr>)"
    using st f compute_ep0 [OF conf d t] by (simp add: ep_out_recv_def Let_def BUG_if_def self reg_defs) (intro exI, rule refl)
  then obtain v len where r: "ep_out_recv EP0_OUT s = Inr (s\<lparr>usb_trace := usb_trace s @ [Inval (ptr_add (At DmaPage 0) (of_nat t)) len,
      Wr (rDOEPDMA 0) (xfer_dma_phys (eps s EP0_OUT) + of_nat t), Wr (rDOEPTSIZ 0) (push_bit 19 1 OR 64),
      Rd (rDOEPCTL 0), Wr (rDOEPCTL 0) v]\<rparr>)" by blast
  show ?thesis
    by (rule exI, rule conjI, rule r) (simp add: armed_at_def programmed_def out_regs)
qed

lemma set_ep_trace: "set_ep e ep (s\<lparr>usb_trace := tr\<rparr>) = (set_ep e ep s)\<lparr>usb_trace := tr\<rparr>"
  by (simp add: set_ep_def)

lemma set_ep_twice: "set_ep e a (set_ep e b s) = set_ep e a s"
  by (simp add: set_ep_def)

lemma ep0_data_done:
  assumes conf: "usb_conf s" and d: "transfer_data (eps s EP0_OUT) = At DmaPage 0" and f: "in_flight (eps s EP0_OUT) = RECV_DATA"
    and t: "transferred (eps s EP0_OUT) = of_nat t" "64 dvd t" "t < n" and n: "n \<le> 0x1000" "transfer_size (eps s EP0_OUT) = of_nat n"
    and l: "fst (reg_read (rDOEPTSIZ 0) s) = 64 - of_nat l" "l \<le> 64"
  shows "\<exists>tr. ep_out_recv_data_done EP0_OUT s =
    (let ep = (eps s EP0_OUT)\<lparr>transferred := of_nat (t + l)\<rparr>
     in if n \<le> t + l \<or> l < 64 then Inr (True, (set_ep EP0_OUT (ep\<lparr>in_flight := 0\<rparr>) s)\<lparr>usb_trace := tr\<rparr>)
        else Inr (False, (set_ep EP0_OUT ep s)\<lparr>usb_trace := tr\<rparr>))"
proof -
  note st = ep0_out_static [OF conf]
  let ?E = "eps s EP0_OUT" and ?s = "snd (reg_read (rDOEPTSIZ 0) s)"
  have u: "unat (of_nat k :: u32) = k" if "k \<le> 0x2000" for k using that by (simp add: of_nat_u32)
  have left: "unat (64 - of_nat l :: u32) = 64 - l" using l(2) by (subst unat_sub) (simp_all add: word_le_nat_alt u)
  have mask: "(0x7f :: u32) = mask 7" by (simp add: mask_eq_exp_minus_1)
  have left_m: "(64 - of_nat l :: u32) AND 0x7f = 64 - of_nat l"
    by (rule word_unat_eq_iff [THEN iffD2]) (simp only: mask unat_and_mask_len left, simp)
  have recv: "(64 :: u32) - (64 - of_nat l) = of_nat l" by simp
  have zlp: "(of_nat n :: u32) \<noteq> TRANSFER_ZLP"
  proof
    assume "(of_nat n :: u32) = TRANSFER_ZLP"
    then have "n = 4294967295" using u [of n] n(1) unat_zlp by simp
    then show False using n(1) by simp
  qed
  let ?F = "?E\<lparr>transferred := of_nat (t + l)\<rparr>"
  have lpos: "((0 :: u32) < of_nat l) = (0 < l)" using l(2) by (simp add: word_less_nat_alt u)
  have take: "ep_out_take EP0_OUT (of_nat t) (of_nat l) ?s = Inr (set_ep EP0_OUT ?F ?s)"
  proof (cases "l = 0")
    case True
    have "?E\<lparr>transferred := of_nat t\<rparr> = ?E" using t(1) by simp
    then have "set_ep EP0_OUT ?F ?s = ?s" using True by (simp add: set_ep_def reg_read_def usb_log_def)
    then show ?thesis using True by (simp add: ep_out_take_def)
  next
    case False
    then show ?thesis using lpos st(7) d t(1) by (simp add: ep_out_take_def reg_read_def usb_log_def)
  qed
  have fin: "\<exists>tr. ep_out_recv_finish EP0_OUT siz (64 - of_nat l) (of_nat l) 1 (set_ep EP0_OUT ?F ?s) =
    (if n \<le> t + l \<or> l < 64 then Inr (True, (set_ep EP0_OUT (?F\<lparr>in_flight := 0\<rparr>) s)\<lparr>usb_trace := tr\<rparr>)
        else Inr (False, (set_ep EP0_OUT ?F s)\<lparr>usb_trace := tr\<rparr>))" for siz
  proof -
    have ge: "(of_nat (t + l) \<ge> (of_nat n :: u32)) = (n \<le> t + l)"
      unfolding word_le_nat_alt using u [of "t + l"] u [of n] n(1) t(3) l(2) by simp
    have ne: "(64 - of_nat l \<noteq> (0 :: u32)) = (l < 64)" using left l(2) by (metis diff_is_0_eq leD le_neq_implies_less unat_eq_zero word_unat_eq_iff zero_less_diff not_le)
    have E: "eps (set_ep EP0_OUT ?F ?s) EP0_OUT = ?F" by (simp add: set_ep_def)
    have S: "set_ep EP0_OUT X (set_ep EP0_OUT ?F ?s) = (set_ep EP0_OUT X s)\<lparr>usb_trace := usb_trace s @ [Rd (rDOEPTSIZ 0)]\<rparr>" for X
      by (simp add: set_ep_twice reg_read_def usb_log_def set_ep_trace)
    have C: "\<exists>tr. cache_invalidate p k (x\<lparr>usb_trace := y\<rparr>) = x\<lparr>usb_trace := tr\<rparr>" for p k x y
      by (simp add: cache_invalidate_def usb_log_def) (rule exI, rule refl)
    show ?thesis
    proof (cases "n \<le> t + l \<or> l < 64")
      case True
      then have "ep_out_recv_finish EP0_OUT siz (64 - of_nat l) (of_nat l) 1 (set_ep EP0_OUT ?F ?s)
          = Inr (True, cache_invalidate (At DmaPage 0) (of_nat (t + l)) (set_ep EP0_OUT (?F\<lparr>in_flight := 0\<rparr>) (set_ep EP0_OUT ?F ?s)))"
        using zlp n(2) st(1,2,7) d ge ne by (simp add: ep_out_recv_finish_def E out_partial_packet_def Let_def del: of_nat_add)
      moreover obtain tr where "cache_invalidate (At DmaPage 0) (of_nat (t + l)) ((set_ep EP0_OUT (?F\<lparr>in_flight := 0\<rparr>) s)
          \<lparr>usb_trace := usb_trace s @ [Rd (rDOEPTSIZ 0)]\<rparr>) = (set_ep EP0_OUT (?F\<lparr>in_flight := 0\<rparr>) s)\<lparr>usb_trace := tr\<rparr>"
        using C by blast
      ultimately show ?thesis using True by (intro exI [of _ tr]) (simp only: S if_True)
    next
      case False
      then have "ep_out_recv_finish EP0_OUT siz (64 - of_nat l) (of_nat l) 1 (set_ep EP0_OUT ?F ?s)
          = Inr (False, set_ep EP0_OUT ?F (set_ep EP0_OUT ?F ?s))"
        using zlp n(2) st(1,2,7) d ge ne by (simp add: ep_out_recv_finish_def E out_partial_packet_def Let_def del: of_nat_add)
      then show ?thesis using False by (intro exI [of _ "usb_trace s @ [Rd (rDOEPTSIZ 0)]"]) (simp only: S if_False)
    qed
  qed
  have "ep_out_recv_data_done EP0_OUT s = ep_out_recv_finish EP0_OUT (fst (reg_read (rDOEPTSIZ 0) s)) (64 - of_nat l) (of_nat l) 1 (set_ep EP0_OUT ?F ?s)"
    using st(1,3) f compute_ep0 [OF conf d t(1,2)] t(3) n(1) l(1) left_m take
    by (simp add: ep_out_recv_data_done_def Let_def case_prod_beta BUG_if_def)
  with fin show ?thesis unfolding Let_def by metis
qed

section \<open>One interrupt\<close>

text \<open>The state in which the handler has taken the last packet, and what it does from there.\<close>

definition out_received :: "bytes \<Rightarrow> usb \<Rightarrow> usb \<Rightarrow> bool" where
  "out_received data s s' \<longleftrightarrow>
     (\<exists>tr mem hw E. s' = s\<lparr>usb_trace := tr, usb_mem := mem, usb_hw := hw, eps := (eps s)(EP0_OUT := E)\<rparr> \<and> only_page (usb_mem s) mem)
     \<and> usb_conf s' \<and> in_flight (eps s' EP0_OUT) = 0 \<and> transfer_data (eps s' EP0_OUT) = At DmaPage 0
     \<and> transfer_size (eps s' EP0_OUT) = of_nat (length data) \<and> transferred (eps s' EP0_OUT) = of_nat (length data)
     \<and> mem_read (At DmaPage 0) (length data) s' = Inr data"

definition ep0_out_finish :: "usb \<Rightarrow> error + usb" where
  "ep0_out_finish s = bindE (ep0_out_data_done s) (ep_out_recv EP0_OUT)"

lemma ep0_data_interrupt:
  assumes "fst (reg_read (rDOEPINT 0) s) = 1"
  shows "ep0_out_interrupt s =
    bindE (ep_out_recv_data_done EP0_OUT (reg_write (rDOEPINT 0) 1 (snd (reg_read (rDOEPINT 0) s)))) (\<lambda>(done, s).
      if done then ep0_out_finish s else ep_out_recv EP0_OUT s)"
proof -
  have b: "(1 :: u32) AND 0x8008 = 0" "(1 :: u32) AND 0x8 = 0" "(1 :: u32) AND 1 = 1" "(1 :: u32) AND 0x20 = 0" "(1 :: u32) AND 0x4 = 0"
    by simp_all
  show ?thesis
    using assms
    by (cases "ep_out_recv_data_done EP0_OUT (reg_write (rDOEPINT 0) 1 (snd (reg_read (rDOEPINT 0) s)))")
      (auto simp: ep0_out_interrupt_def Let_def case_prod_beta BUG_if_def ep0_out_finish_def bindE_assoc b)
qed

lemma chunk_extend:
  assumes "chunk m i t = Inr xs" and "length ys = l" and "i + t + l \<le> length m"
  shows "chunk (take (i + t) m @ ys @ drop (i + t + l) m) i (t + l) = Inr (xs @ ys)"
proof -
  have "xs = take t (drop i m)" "i + t \<le> length m" using assms(1) by (auto simp: chunk_def split: if_splits)
  moreover have "drop i (take (i + t) m @ ys @ drop (i + t + l) m) = take t (drop i m) @ ys @ drop (i + t + l) m"
    using assms(3) by (simp add: drop_take)
  ultimately show ?thesis using assms(2,3) by (simp add: chunk_def)
qed

text \<open>The controller stores a packet of a stage under way.\<close>

lemma hw_out_stored:
  assumes "out_receiving data t s" and "pkt = take 64 (drop t data)" and "l = length pkt"
  shows "\<exists>mem hw. hw_out pkt s = Inr (s\<lparr>usb_mem := mem, usb_hw := hw\<rparr>) \<and> only_page (usb_mem s) mem
    \<and> (\<forall>tr. hw tr (rDOEPINT 0) = 1) \<and> (\<forall>tr. hw tr (rDOEPTSIZ 0) = 64 - of_nat l)
    \<and> mem_read (At DmaPage 0) (t + l) (s\<lparr>usb_mem := mem, usb_hw := hw\<rparr>) = Inr (take (t + l) data)"
proof -
  have A: "usb_conf s" "64 dvd t" "t < length data" "length data \<le> 0x1000" "armed_at t s"
    "mem_read (At DmaPage 0) t s = Inr (take t data)"
    using assms(1) by (simp_all add: out_receiving_def Let_def)
  note st = ep0_out_static [OF A(1)]
  have l: "0 < l" "l \<le> 64" "t + l \<le> length data" "pkt \<noteq> []" using assms(2,3) A(3) by auto
  have pl: "pkt = take l (drop t data)"
    using assms(2,3) by (metis append_eq_conv_conj append_take_drop_id)
  have m: "(0x7f :: u32) = mask 7" by (simp add: mask_eq_exp_minus_1)
  have siz: "programmed (rDOEPTSIZ 0) (usb_trace s) AND 0x7f = 64" using A(5) by (simp add: armed_at_def)
  obtain pg where pg: "usb_mem s DmaPage = Some pg" "length pg = 0x4000"
    using usb_conf_obj [OF A(1), of DmaPage] by auto
  have off: "programmed (rDOEPDMA 0) (usb_trace s) - xfer_dma_phys (eps s EP0_OUT) = of_nat t" using A(5) by (simp add: armed_at_def)
  have ut: "unat (of_nat t :: u32) = t" using A(3,4) by (simp add: of_nat_u32)
  let ?pg = "take t pg @ pkt @ drop (t + l) pg"
  let ?mem = "(usb_mem s)(DmaPage \<mapsto> ?pg)"
  let ?hw = "\<lambda>tr r. if r = rDOEPINT 0 then 1 else if r = rDOEPTSIZ 0 then 64 - of_nat l else usb_hw s tr r"
  have w: "mem_write (At DmaPage t) pkt s = Inr (s\<lparr>usb_mem := ?mem\<rparr>)"
    using mem_write_ok [OF pg(1), of t pkt] pg(2) A(3,4) l assms(3) by simp
  have "hw_out pkt s = Inr (s\<lparr>usb_mem := ?mem, usb_hw := ?hw\<rparr>)"
    using l(2) assms(3) siz off st(7) w ut by (simp add: hw_out_def Let_def cong: if_cong)
  moreover have "only_page (usb_mem s) ?mem" using pg l A(3,4) assms(3) by (simp add: only_page_def)
  moreover have "mem_read (At DmaPage 0) (t + l) (s\<lparr>usb_mem := ?mem, usb_hw := ?hw\<rparr>) = Inr (take (t + l) data)"
  proof -
    have "chunk pg 0 t = Inr (take t data)"
      using A(6) pg(1) by (cases "t = 0") (simp_all add: mem_read_def chunk_def)
    from chunk_extend [OF this assms(3) [symmetric]] pg(2) A(3,4) l(3) have "chunk ?pg 0 (t + l) = Inr (take t data @ pkt)" by simp
    moreover have "take t data @ pkt = take (t + l) data" using pl by (simp add: take_add)
    ultimately show ?thesis using l(1) by (simp add: mem_read_def)
  qed
  ultimately show ?thesis using out_regs by (intro exI [of _ ?mem] exI [of _ ?hw]) simp
qed

lemma out_packet:
  assumes "out_receiving data t s"
  defines "pkt \<equiv> take 64 (drop t data)"
  shows "\<exists>s1. hw_out pkt s = Inr s1 \<and>
    (if length data \<le> t + 64 then \<exists>s2. ep0_out_interrupt s1 = ep0_out_finish s2 \<and> out_received data s s2
     else \<exists>s2. ep0_out_interrupt s1 = Inr s2 \<and> out_receiving data (t + 64) s2
       \<and> (\<exists>tr mem hw E. s2 = s\<lparr>usb_trace := tr, usb_mem := mem, usb_hw := hw, eps := (eps s)(EP0_OUT := E)\<rparr> \<and> only_page (usb_mem s) mem))"
proof -
  let ?n = "length data" and ?l = "length pkt"
  have A: "usb_conf s" "in_flight (eps s EP0_OUT) = RECV_DATA" "transfer_data (eps s EP0_OUT) = At DmaPage 0"
    "transfer_size (eps s EP0_OUT) = of_nat ?n" "transferred (eps s EP0_OUT) = of_nat t" "64 dvd t" "t < ?n" "?n \<le> 0x1000"
    using assms(1) by (simp_all add: out_receiving_def Let_def)
  have l: "?l \<le> 64" "(?n \<le> t + ?l \<or> ?l < 64) = (?n \<le> t + 64)" "\<not> ?n \<le> t + 64 \<longrightarrow> ?l = 64" "?n \<le> t + 64 \<longrightarrow> t + ?l = ?n"
    using A(7) by (auto simp: pkt_def)
  obtain mem hw where hw: "hw_out pkt s = Inr (s\<lparr>usb_mem := mem, usb_hw := hw\<rparr>)" "only_page (usb_mem s) mem"
    "\<forall>tr. hw tr (rDOEPINT 0) = 1" "\<forall>tr. hw tr (rDOEPTSIZ 0) = 64 - of_nat ?l"
    "mem_read (At DmaPage 0) (t + ?l) (s\<lparr>usb_mem := mem, usb_hw := hw\<rparr>) = Inr (take (t + ?l) data)"
    using hw_out_stored [OF assms(1), of pkt ?l] by (auto simp: pkt_def)
  define s1 where "s1 = s\<lparr>usb_mem := mem, usb_hw := hw\<rparr>"
  define s2 where "s2 = s1\<lparr>usb_trace := usb_trace s @ [Rd (rDOEPINT 0), Wr (rDOEPINT 0) 1]\<rparr>"
  have int1: "fst (reg_read (rDOEPINT 0) s1) = 1" using hw(3) by (simp add: reg_read_def s1_def)
  have enter: "reg_write (rDOEPINT 0) 1 (snd (reg_read (rDOEPINT 0) s1)) = s2"
    by (simp add: reg_write_def reg_read_def usb_log_def s1_def s2_def)
  have mem_ok: "mem_sizes mem"
    using only_page_sizes [OF hw(2)] A(1) by (simp add: usb_conf_def usb_mem_ok_def)
  have conf2: "usb_conf s2" using A(1) mem_ok by (simp add: s2_def s1_def usb_conf_def usb_mem_ok_def)
  have eps2: "eps s2 = eps s" by (simp add: s2_def s1_def)
  have tsiz: "fst (reg_read (rDOEPTSIZ 0) s2) = 64 - of_nat ?l" using hw(4) by (simp add: reg_read_def s2_def s1_def)
  let ?E = "(eps s EP0_OUT)\<lparr>transferred := of_nat (t + ?l)\<rparr>"
  obtain tr where dd: "ep_out_recv_data_done EP0_OUT s2 =
    (if ?n \<le> t + 64 then Inr (True, (set_ep EP0_OUT (?E\<lparr>in_flight := 0\<rparr>) s2)\<lparr>usb_trace := tr\<rparr>)
     else Inr (False, (set_ep EP0_OUT ?E s2)\<lparr>usb_trace := tr\<rparr>))"
    using ep0_data_done [of s2 t ?n ?l] conf2 A eps2 tsiz l(1,2) by (simp add: Let_def del: of_nat_add) blast
  have mr: "mem_read (At DmaPage 0) k ((set_ep EP0_OUT X s2)\<lparr>usb_trace := tr'\<rparr>) = mem_read (At DmaPage 0) k s1" for k X tr'
    by (rule mem_read_mem) (simp add: set_ep_def s2_def)
  have shape: "\<exists>tr' mem hw E. (set_ep EP0_OUT X s2)\<lparr>usb_trace := tr\<rparr>
      = s\<lparr>usb_trace := tr', usb_mem := mem, usb_hw := hw, eps := (eps s)(EP0_OUT := E)\<rparr> \<and> only_page (usb_mem s) mem" for X tr
    using hw(2) by (intro exI [of _ tr] exI [of _ mem] exI [of _ hw] exI [of _ X]) (simp add: set_ep_def s2_def s1_def)
  have int: "ep0_out_interrupt s1 = bindE (ep_out_recv_data_done EP0_OUT s2) (\<lambda>(done, s).
      if done then ep0_out_finish s else ep_out_recv EP0_OUT s)"
    using ep0_data_interrupt [OF int1] by (simp add: enter)
  have st: "ep_static EP0_OUT (eps s EP0_OUT)" "dma_reset (eps s EP0_OUT)" using usb_conf_ep [OF A(1)] by blast+
  have confs: "usb_conf ((set_ep EP0_OUT X s2)\<lparr>usb_trace := tr'\<rparr>)" if "X = ?E \<or> X = ?E\<lparr>in_flight := 0\<rparr>" for X tr'
    using that st conf2 by (auto simp: usb_conf_trace intro!: usb_conf_set_ep)
  show ?thesis
  proof (cases "?n \<le> t + 64")
    case True
    let ?s3 = "(set_ep EP0_OUT (?E\<lparr>in_flight := 0\<rparr>) s2)\<lparr>usb_trace := tr\<rparr>"
    have "ep0_out_interrupt s1 = ep0_out_finish ?s3" using int dd True by simp
    moreover have "out_received data s ?s3"
    proof -
      have E3: "eps ?s3 EP0_OUT = ?E\<lparr>in_flight := 0\<rparr>" by (simp add: set_ep_def)
      have tl: "t + ?l = ?n" using l(4) True by blast
      have m3: "mem_read (At DmaPage 0) ?n ?s3 = Inr data" using mr hw(5) tl by (simp add: s1_def [symmetric])
      have c3: "usb_conf ?s3" by (rule confs) simp
      show ?thesis unfolding out_received_def E3
        using shape [where X = "?E\<lparr>in_flight := 0\<rparr>" and tr = tr] c3 m3 tl A(3,4) by (simp del: of_nat_add)
    qed
    ultimately have "\<exists>s2. ep0_out_interrupt s1 = ep0_out_finish s2 \<and> out_received data s s2" by blast
    then show ?thesis using hw(1) True unfolding s1_def by simp
  next
    case False
    let ?s3 = "(set_ep EP0_OUT ?E s2)\<lparr>usb_trace := tr\<rparr>"
    have E3: "eps ?s3 EP0_OUT = ?E" by (simp add: set_ep_def)
    have "t + ?l < 0x1000" "64 dvd t + ?l" using False l A(6,8) by auto
    then obtain tr' where r: "ep_out_recv EP0_OUT ?s3 = Inr (?s3\<lparr>usb_trace := tr'\<rparr>)" "armed_at (t + ?l) (?s3\<lparr>usb_trace := tr'\<rparr>)"
      using ep0_rearm [of ?s3 "t + ?l"] confs A(2,3) E3 by auto
    have "out_receiving data (t + 64) (?s3\<lparr>usb_trace := tr'\<rparr>)"
      using r(2) confs [of ?E tr'] mr hw(5) l False A E3 by (simp add: out_receiving_def Let_def s1_def [symmetric])
    moreover have "ep0_out_interrupt s1 = Inr (?s3\<lparr>usb_trace := tr'\<rparr>)" using int dd False r(1) by simp
    moreover have "\<exists>tr'' mem hw E. ?s3\<lparr>usb_trace := tr'\<rparr>
      = s\<lparr>usb_trace := tr'', usb_mem := mem, usb_hw := hw, eps := (eps s)(EP0_OUT := E)\<rparr> \<and> only_page (usb_mem s) mem"
      using shape [where X = ?E and tr = tr'] by simp
    ultimately have "\<exists>s2. ep0_out_interrupt s1 = Inr s2 \<and> out_receiving data (t + 64) s2
       \<and> (\<exists>tr mem hw E. s2 = s\<lparr>usb_trace := tr, usb_mem := mem, usb_hw := hw, eps := (eps s)(EP0_OUT := E)\<rparr> \<and> only_page (usb_mem s) mem)"
      by blast
    then show ?thesis using hw(1) False unfolding s1_def by simp
  qed
qed

section \<open>The whole stage\<close>

lemma out_received_trans:
  assumes "s2 = s\<lparr>usb_trace := tr, usb_mem := mem, usb_hw := hw, eps := (eps s)(EP0_OUT := E)\<rparr>" and "only_page (usb_mem s) mem"
    and "out_received data s2 s3"
  shows "out_received data s s3"
proof -
  obtain tr' mem' hw' E' where s3: "s3 = s2\<lparr>usb_trace := tr', usb_mem := mem', usb_hw := hw', eps := (eps s2)(EP0_OUT := E')\<rparr>"
    "only_page (usb_mem s2) mem'" using assms(3) by (auto simp: out_received_def)
  have "only_page (usb_mem s) mem'" using assms(2) s3(2) only_page_trans by (simp add: assms(1))
  moreover have "s3 = s\<lparr>usb_trace := tr', usb_mem := mem', usb_hw := hw', eps := (eps s)(EP0_OUT := E')\<rparr>"
    by (simp add: s3(1) assms(1))
  ultimately have "\<exists>tr mem hw E. s3 = s\<lparr>usb_trace := tr, usb_mem := mem, usb_hw := hw, eps := (eps s)(EP0_OUT := E)\<rparr>
      \<and> only_page (usb_mem s) mem" by blast
  then show ?thesis using assms(3) unfolding out_received_def by blast
qed

lemma out_stage_all:
  assumes "out_receiving data t s"
  shows "\<exists>s'. out_stage (packets 64 (drop t data)) s = ep0_out_finish s' \<and> out_received data s s'"
  using assms
proof (induction "length data - t" arbitrary: t s rule: less_induct)
  case less
  let ?pkt = "take 64 (drop t data)"
  have t: "t < length data" using less.prems by (simp add: out_receiving_def Let_def)
  obtain s1 where s1: "hw_out ?pkt s = Inr s1"
    "if length data \<le> t + 64 then \<exists>s2. ep0_out_interrupt s1 = ep0_out_finish s2 \<and> out_received data s s2
     else \<exists>s2. ep0_out_interrupt s1 = Inr s2 \<and> out_receiving data (t + 64) s2
       \<and> (\<exists>tr mem hw E. s2 = s\<lparr>usb_trace := tr, usb_mem := mem, usb_hw := hw, eps := (eps s)(EP0_OUT := E)\<rparr> \<and> only_page (usb_mem s) mem)"
    using out_packet [OF less.prems] by blast
  show ?case
  proof (cases "length data \<le> t + 64")
    case True
    then have "length data - t \<le> 64" by linarith
    then have "packets 64 (drop t data) = [?pkt]" by (simp add: packets.simps [of 64 "drop t data"])
    moreover have "bindE x (out_stage []) = x" for x :: "error + usb" by (cases x) simp_all
    ultimately show ?thesis using s1 True by auto
  next
    case False
    then have "\<not> length data - t \<le> 64" by linarith
    then have "packets 64 (drop t data) = ?pkt # packets 64 (drop (t + 64) data)"
      by (simp add: packets.simps [of 64 "drop t data"] add.commute)
    moreover obtain s2 tr mem hw E where s2: "ep0_out_interrupt s1 = Inr s2" "out_receiving data (t + 64) s2"
      "s2 = s\<lparr>usb_trace := tr, usb_mem := mem, usb_hw := hw, eps := (eps s)(EP0_OUT := E)\<rparr>" "only_page (usb_mem s) mem"
      using s1(2) False by auto
    have "length data - (t + 64) < length data - t" using False by simp
    from less.hyps [OF this s2(2)] obtain s' where
      "out_stage (packets 64 (drop (t + 64) data)) s2 = ep0_out_finish s'" "out_received data s2 s'" by blast
    ultimately show ?thesis using s1(1) s2(1) out_received_trans [OF s2(3,4)] by auto
  qed
qed

text \<open>The stage as \<open>ep0_begin_data_out_stage\<close> prepares it, and as the end of the interrupt handler starts it.\<close>

definition out_prepared :: "nat \<Rightarrow> endpoint_state \<Rightarrow> endpoint_state" where
  "out_prepared n ep = ep\<lparr>transfer_data := At DmaPage 0, transfer_size := of_nat n, transferred := 0, in_flight := RECV_DATA\<rparr>"

lemma begin_data_out:
  assumes conf: "usb_conf s" and idle: "in_flight (eps s EP0_OUT) = 0"
    and len: "unat (wLength (ep0_setup_packet s)) = n" "0 < n" "n \<le> 0x1000"
  shows "ep0_begin_data_out_stage cb s =
    Inr (set_ep EP0_OUT (out_prepared n (eps s EP0_OUT)) (s\<lparr>data_out_stage_callback := Some cb\<rparr>))"
proof -
  note st = ep0_out_static [OF conf]
  let ?n = "ucast (wLength (ep0_setup_packet s)) :: u32"
  let ?s = "s\<lparr>data_out_stage_callback := Some cb\<rparr>"
  have n: "unat ?n = n" using len(1) by (simp add: unat_mps)
  then have nz: "?n \<noteq> 0" "\<not> 0x1000 < ?n" using len(2,3) by (auto simp: word_less_nat_alt)
  have nn: "?n = of_nat n" unfolding n [symmetric] by simp
  have rd: "reset_dma (eps s EP0_OUT) = eps s EP0_OUT"
    using st by (intro endpoint_state.equality) (simp_all add: reset_dma_def)
  have self: "set_ep EP0_OUT (eps s EP0_OUT) ?s = ?s" by (simp add: set_ep_def)
  show ?thesis
    using st idle nz unfolding nn
    by (simp add: ep0_begin_data_out_stage_def BUG_if_def Let_def ep_out_recv_data_def rd self ep_out_recv_data_common_def
        out_prepared_def nn) (simp add: set_ep_def)
qed

lemma out_stage_starts:
  assumes conf: "usb_conf s" and E: "eps s EP0_OUT = out_prepared (length data) ep" and len: "0 < length data" "length data \<le> 0x1000"
  shows "\<exists>tr. ep_out_recv EP0_OUT s = Inr (s\<lparr>usb_trace := tr\<rparr>) \<and> out_receiving data 0 (s\<lparr>usb_trace := tr\<rparr>)"
proof -
  obtain tr where r: "ep_out_recv EP0_OUT s = Inr (s\<lparr>usb_trace := tr\<rparr>)" "armed_at 0 (s\<lparr>usb_trace := tr\<rparr>)"
    using ep0_rearm [OF conf, of 0] E by (auto simp: out_prepared_def)
  moreover have "out_receiving data 0 (s\<lparr>usb_trace := tr\<rparr>)"
    using conf r(2) len E by (simp add: out_receiving_def Let_def usb_conf_trace mem_read_def out_prepared_def)
  ultimately show ?thesis by blast
qed

section \<open>After the callback\<close>

text \<open>Endpoint 0 waits for a setup packet.\<close>

lemma ep0_rearm_setup:
  assumes conf: "usb_conf s" and f: "in_flight (eps s EP0_OUT) = 0"
  shows "\<exists>tr E. ep_out_recv EP0_OUT s = Inr (s\<lparr>eps := (eps s)(EP0_OUT := E), usb_trace := tr\<rparr>)
    \<and> E = (eps s EP0_OUT)\<lparr>transfer_size := 0, transferred := 0\<rparr>"
proof -
  note st = ep0_out_static [OF conf]
  let ?E = "(eps s EP0_OUT)\<lparr>transfer_size := 0, transferred := 0\<rparr>"
  have z: "(0 :: u32) \<noteq> RECV_DATA" by (simp add: RECV_DATA_def)
  have c: "ep_out_recv_compute_xfer ?E = Inr (0, 64, 1)"
    using st by (simp add: ep_out_recv_compute_xfer_def Let_def BUG_if_def)
  have "\<exists>tr. ep_out_recv EP0_OUT s = Inr ((set_ep EP0_OUT ?E s)\<lparr>usb_trace := tr\<rparr>)"
    using st f z c by (simp add: ep_out_recv_def Let_def BUG_if_def reg_defs) (rule exI, rule refl)
  then show ?thesis by (simp add: set_ep_def)
qed

text \<open>The packet without data of the STATUS IN stage.\<close>

lemma ep0_status_in:
  assumes conf: "usb_conf s" and idle: "in_idle (eps s EP0_IN)"
  shows "\<exists>tr E. ep_in_send_data EP0_IN Null 0 s = Inr (s\<lparr>eps := (eps s)(EP0_IN := E), usb_trace := tr\<rparr>)"
proof -
  let ?E = "(reset_dma (eps s EP0_IN))\<lparr>transfer_data := Null, transfer_size := TRANSFER_ZLP, transferred := 0\<rparr>"
  let ?s = "set_ep EP0_IN ?E s"
  have st: "dir_in (eps s EP0_IN)" "ep_sizes (reset_dma (eps s EP0_IN))"
    using usb_conf_ep(1) [OF conf, of EP0_IN] by (simp_all add: ep_static_def ep_default_dma_def ep_sizes_def reset_dma_def DMA_BUFFER_SIZE_def)
  have E: "eps ?s EP0_IN = ?E" by (simp add: set_ep_def)
  have sz: "ep_sizes ?E" using st(2) by (simp add: ep_sizes_def)
  have "ep_in_send EP0_IN ?s = Inr (set_ep EP0_IN (?E\<lparr>in_flight := 0\<rparr>) (ep_in_program ?E 0 0 1 ?s))"
    using ep_in_send_unfold [of ?s EP0_IN 0 0 1] in_compute_zlp [OF sz] E st(1) idle
    by (simp add: reset_dma_def in_idle_def)
  moreover obtain tr where "ep_in_program ?E 0 0 1 ?s = ?s\<lparr>usb_trace := tr\<rparr>" using ep_in_program_state by blast
  ultimately have "ep_in_send_data EP0_IN Null 0 s = Inr (set_ep EP0_IN (?E\<lparr>in_flight := 0\<rparr>) (?s\<lparr>usb_trace := tr\<rparr>))"
    using st(1) idle by (simp add: ep_in_send_data_def BUG_if_def Let_def in_idle_def)
  moreover have "set_ep EP0_IN (?E\<lparr>in_flight := 0\<rparr>) (?s\<lparr>usb_trace := tr\<rparr>)
      = s\<lparr>eps := (eps s)(EP0_IN := ?E\<lparr>in_flight := 0\<rparr>), usb_trace := tr\<rparr>"
    by (simp add: set_ep_def)
  ultimately show ?thesis by metis
qed

text \<open>A callback that accepts the data and leaves the endpoints alone.\<close>

lemma out_finish_accepted:
  assumes got: "out_received data s s1" and to_dev: "bmRequestType (ep0_setup_packet s) AND 0x80 = 0"
    and cb: "data_out_stage_callback s = Some cb" and idle: "in_idle (eps s EP0_IN)"
    and call: "call_data_out cb (At DmaPage 0) (of_nat (length data)) s1 = Inr (True, s2)" "eps s2 = eps s1"
  shows "\<exists>tr E. ep0_out_finish s1 = Inr (s2\<lparr>data_out_stage_callback := None, eps := E, usb_trace := tr\<rparr>)
    \<and> in_flight (E EP0_OUT) = 0"
proof -
  let ?s3 = "s2\<lparr>data_out_stage_callback := None\<rparr>"
  have R: "usb_conf s1" "in_flight (eps s1 EP0_OUT) = 0" "transfer_data (eps s1 EP0_OUT) = At DmaPage 0"
    "transfer_size (eps s1 EP0_OUT) = of_nat (length data)" "transferred (eps s1 EP0_OUT) = of_nat (length data)"
    "ep0_setup_packet s1 = ep0_setup_packet s" "data_out_stage_callback s1 = Some cb" "eps s1 EP0_IN = eps s EP0_IN"
    using got cb by (auto simp: out_received_def)
  have c3: "usb_conf ?s3" by (rule usb_conf_cb(3) [OF call_data_out_keep [OF call(1) R(1)]])
  obtain tr E where st: "ep_in_send_data EP0_IN Null 0 ?s3 = Inr (?s3\<lparr>eps := (eps ?s3)(EP0_IN := E), usb_trace := tr\<rparr>)"
    using ep0_status_in [OF c3] idle R(8) call(2) by auto
  let ?s4 = "?s3\<lparr>eps := (eps ?s3)(EP0_IN := E), usb_trace := tr\<rparr>"
  have "usb_conf ?s4" by (rule ep_in_send_data_keep [OF st c3])
  moreover have "in_flight (eps ?s4 EP0_OUT) = 0" using R(2) call(2) by simp
  ultimately obtain tr' E' where "ep_out_recv EP0_OUT ?s4 = Inr (?s4\<lparr>eps := (eps ?s4)(EP0_OUT := E'), usb_trace := tr'\<rparr>)"
    "E' = (eps ?s4 EP0_OUT)\<lparr>transfer_size := 0, transferred := 0\<rparr>"
    using ep0_rearm_setup by blast
  moreover have "ep0_out_data_done s1 = ep_in_send_data EP0_IN Null 0 ?s3"
    using R to_dev call(1) by (simp add: ep0_out_data_done_def Let_def)
  ultimately have "ep0_out_finish s1 = Inr (s2\<lparr>data_out_stage_callback := None,
      eps := (eps s2)(EP0_IN := E, EP0_OUT := E'), usb_trace := tr'\<rparr>) \<and> in_flight E' = 0"
    using st R(2) call(2) by (simp add: ep0_out_finish_def)
  then show ?thesis by (intro exI [of _ tr'] exI [of _ "(eps s2)(EP0_IN := E, EP0_OUT := E')"]) simp
qed

end
