(* ===== verification/UsbKtrw.thy ===== *)
theory UsbKtrw
  imports UsbRecv
begin

unbundle bit_operations_syntax

text \<open>
  The KTRW channel and the standard input over USB: two byte queues of 4096 bytes behind
  \<open>usb_read\<close> and \<open>usb_write\<close>, and the characters a host sends to the shell. The lemmas say what each
  operation does to the queues, whatever else the buffers hold.
\<close>

section \<open>The two queues\<close>

definition ktrw_rx :: "usb \<Rightarrow> bytes" where
  "ktrw_rx s = take (unat (ktrw_recv_count s)) (the (usb_mem s KtrwRecvData))"

definition ktrw_tx :: "usb \<Rightarrow> bytes" where
  "ktrw_tx s = take (unat (ktrw_send_count s)) (the (usb_mem s KtrwSendData))"

lemma ktrw_counts:
  assumes "usb_conf s"
  shows "unat (ktrw_send_in_flight s) \<le> unat (ktrw_send_count s)" "unat (ktrw_send_count s) \<le> 4096" "unat (ktrw_recv_count s) \<le> 4096"
  using usb_conf_counts [OF assms] by (simp_all add: word_le_nat_alt KTRW_BUFFER_def)

lemma unat_ucast16: "unat (ucast (c :: u16) :: u64) = unat c" "unat (ucast (c :: u16) :: u32) = unat c"
  by (rule unat_ucast_up; simp)+

lemma ktrw_buffers:
  assumes "usb_conf s"
  obtains rx tx where "usb_mem s KtrwRecvData = Some rx" "length rx = 4096" "usb_mem s KtrwSendData = Some tx" "length tx = 4096"
  using usb_conf_obj [OF assms, of KtrwRecvData 4096] usb_conf_obj [OF assms, of KtrwSendData 4096] by auto

text \<open>A block of the host's data is appended, if all of it fits.\<close>

lemma ktrw_recv_done_appends:
  assumes conf: "usb_conf s" and data: "mem_read p (length data) s = Inr data"
    and room: "unat (ktrw_recv_count s) + length data \<le> 4096"
  shows "\<exists>m. ktrw_recv_done p (of_nat (length data)) s =
      Inr (True, s\<lparr>usb_mem := (usb_mem s)(KtrwRecvData \<mapsto> m), ktrw_recv_count := ktrw_recv_count s + of_nat (length data)\<rparr>)
    \<and> length m = 4096 \<and> take (unat (ktrw_recv_count s) + length data) m = ktrw_rx s @ data
    \<and> unat (ktrw_recv_count s + of_nat (length data)) = unat (ktrw_recv_count s) + length data"
proof -
  let ?c = "ktrw_recv_count s" and ?n = "length data"
  obtain rx where rx: "usb_mem s KtrwRecvData = Some rx" "length rx = 4096" using ktrw_buffers [OF conf] by blast
  have cap: "unat (KTRW_BUFFER - ?c) = 4096 - unat ?c"
    using ktrw_counts(3) [OF conf] by (subst unat_sub) (simp_all add: word_le_nat_alt KTRW_BUFFER_def)
  have n32: "unat (of_nat ?n :: u32) = ?n" using room by (simp add: of_nat_u32)
  have n16: "unat (of_nat ?n :: u16) = ?n" using room by (simp add: unat_of_nat)
  have narrow: "ucast (of_nat ?n :: u32) = (of_nat ?n :: u16)"
    using room by (intro word_unat_eq_iff [THEN iffD2]) (simp only: unsigned_ucast_eq n32 n16, simp add: take_bit_nat_eq_self)
  have lt: "(ucast (KTRW_BUFFER - ?c) < (of_nat ?n :: u32)) = False" using room by (simp add: word_less_nat_alt unat_ucast16 cap n32)
  have size: "(if ucast (KTRW_BUFFER - ?c) > (of_nat ?n :: u32) then ucast (of_nat ?n :: u32) else KTRW_BUFFER - ?c) = (of_nat ?n :: u16)"
  proof (cases "4096 - unat ?c = ?n")
    case True
    then have "KTRW_BUFFER - ?c = of_nat ?n" using cap n16 by (intro word_unat_eq_iff [THEN iffD2]) simp
    then show ?thesis by (simp add: narrow)
  next
    case False
    then have "ucast (KTRW_BUFFER - ?c) > (of_nat ?n :: u32)" using room by (simp add: word_less_nat_alt unat_ucast16 cap n32)
    then show ?thesis by (simp add: narrow)
  qed
  let ?m = "take (unat ?c) rx @ data @ drop (unat ?c + ?n) rx"
  have w: "mem_write (At KtrwRecvData (unat ?c)) data s = Inr (s\<lparr>usb_mem := (usb_mem s)(KtrwRecvData \<mapsto> ?m)\<rparr>)"
    using mem_write_ok [OF rx(1), of "unat ?c" data] room rx(2) by simp
  have "ktrw_recv_done p (of_nat ?n) s = Inr (True, s\<lparr>usb_mem := (usb_mem s)(KtrwRecvData \<mapsto> ?m), ktrw_recv_count := ?c + of_nat ?n\<rparr>)"
    using data w n16 by (simp add: ktrw_recv_done_def Let_def lt size mem_copy_def)
  moreover have "length ?m = 4096" using rx(2) room by simp
  moreover have "take (unat ?c + ?n) ?m = ktrw_rx s @ data" using rx room by (simp add: ktrw_rx_def)
  moreover have "unat (?c + of_nat ?n) = unat ?c + ?n" using room by (simp add: unat_word_ariths n16)
  ultimately show ?thesis by blast
qed

lemma usb_read_takes:
  assumes conf: "usb_conf s"
  shows "\<exists>s'. usb_read n s = Inr (take (unat n) (ktrw_rx s), s') \<and> ktrw_rx s' = drop (unat n) (ktrw_rx s) \<and> usb_conf s'"
proof -
  let ?c = "ktrw_recv_count s"
  let ?r = "if ucast ?c > n then n else ucast ?c"
  obtain rx where rx: "usb_mem s KtrwRecvData = Some rx" "length rx = 4096" using ktrw_buffers [OF conf] by blast
  have c: "unat ?c \<le> 4096" by (rule ktrw_counts(3) [OF conf])
  have r: "unat ?r = min (unat n) (unat ?c)" by (simp add: word_less_nat_alt unat_ucast16 min_def)
  have left: "unat (ucast ?c - ?r) = unat ?c - unat n"
    by (subst unat_sub) (simp_all add: word_le_nat_alt unat_ucast16 r min_def word_less_nat_alt)
  have left16: "unat (ucast (ucast ?c - ?r) :: u16) = unat ?c - unat n"
    using c by (simp only: unsigned_ucast_eq left) (simp add: take_bit_nat_eq_self)
  have rd: "mem_read (At KtrwRecvData 0) (unat ?r) s = Inr (take (unat n) (ktrw_rx s))"
    using rx c r by (auto simp: mem_read_def chunk_def ktrw_rx_def min_def split: if_splits)
  let ?bs = "drop (unat n) (ktrw_rx s)"
  have blen: "length ?bs = unat ?c - unat n" using rx c by (simp add: ktrw_rx_def)
  have rd2: "mem_read (At KtrwRecvData (unat ?r)) (unat (ucast ?c - ?r)) s = Inr ?bs"
    using rx c r left by (auto simp: mem_read_def chunk_def ktrw_rx_def min_def drop_take)
  let ?m = "take 0 rx @ ?bs @ drop (0 + length ?bs) rx"
  have w: "mem_write (At KtrwRecvData 0) ?bs s = Inr (s\<lparr>usb_mem := (usb_mem s)(KtrwRecvData \<mapsto> ?m)\<rparr>)"
    by (rule mem_write_ok [OF rx(1)]) (use blen c rx(2) in simp)
  let ?s = "s\<lparr>usb_mem := (usb_mem s)(KtrwRecvData \<mapsto> ?m), ktrw_recv_count := ucast (ucast ?c - ?r)\<rparr>"
  have "usb_read n s = Inr (take (unat n) (ktrw_rx s), ?s)"
    using rd rd2 w by (simp add: usb_read_def Let_def mem_copy_def del: if_split)
  moreover have "ktrw_rx ?s = ?bs" using left16 blen by (simp add: ktrw_rx_def)
  ultimately show ?thesis using usb_read_keep [OF _ conf] by blast
qed

interpretation ktrw_in: byte_source usb_conf ktrw_rx unat usb_read
  by unfold_locales (use usb_read_takes in blast)

lemma usb_write_appends:
  assumes conf: "usb_conf s" and len: "unat n \<le> length data"
  defines "k \<equiv> min (unat n) (4096 - length (ktrw_tx s))"
  shows "\<exists>w s'. usb_write data n s = Inr (w, s') \<and> unat w = k \<and> ktrw_tx s' = ktrw_tx s @ take k data \<and> usb_conf s'"
proof -
  let ?c = "ktrw_send_count s"
  let ?room = "ucast KTRW_BUFFER - ucast ?c :: u64"
  let ?w = "if ?room > n then n else ?room"
  obtain tx where tx: "usb_mem s KtrwSendData = Some tx" "length tx = 4096" using ktrw_buffers [OF conf] by blast
  have c: "unat ?c \<le> 4096" by (rule ktrw_counts(2) [OF conf])
  have lt: "length (ktrw_tx s) = unat ?c" using tx c by (simp add: ktrw_tx_def)
  have kb: "unat (ucast KTRW_BUFFER :: u64) = 4096" by (simp add: KTRW_BUFFER_def)
  have room: "unat ?room = 4096 - unat ?c" using c by (subst unat_sub) (simp_all add: word_le_nat_alt kb unat_ucast16 KTRW_BUFFER_def)
  have w: "unat ?w = k" by (simp add: word_less_nat_alt room min_def k_def lt)
  have cnt: "unat (ucast (ucast ?c + ?w) :: u16) = unat ?c + k"
    using usb_write_count [OF usb_conf_counts(2) [OF conf]] by (simp add: k_def lt)
  have k: "k \<le> length data" "unat ?c + k \<le> 4096" using len c by (auto simp: k_def lt)
  let ?bs = "take k data"
  let ?m = "take (unat ?c) tx @ ?bs @ drop (unat ?c + length ?bs) tx"
  have wr: "mem_write (At KtrwSendData (unat ?c)) ?bs s = Inr (s\<lparr>usb_mem := (usb_mem s)(KtrwSendData \<mapsto> ?m)\<rparr>)"
    by (rule mem_write_ok [OF tx(1)]) (use k tx(2) in simp)
  have ch: "chunk data 0 (unat ?w) = Inr ?bs" unfolding w using k(1) by (simp add: chunk_def)
  let ?s = "s\<lparr>usb_mem := (usb_mem s)(KtrwSendData \<mapsto> ?m), ktrw_send_count := ucast (ucast ?c + ?w)\<rparr>"
  have r: "usb_write data n s = Inr (?w, ?s)"
    using ch wr by (simp add: usb_write_def Let_def del: if_split)
  moreover have "ktrw_tx ?s = ktrw_tx s @ ?bs" using cnt tx k by (simp add: ktrw_tx_def)
  ultimately show ?thesis using w usb_write_keep [OF r conf] by blast
qed

section \<open>Requests with data for the device\<close>

text \<open>The state in which a request handler runs: interrupts are enabled.\<close>

definition serving :: "usb \<Rightarrow> usb" where
  "serving s = s\<lparr>setup_packet_pending := False, dis_int_count := 0, daif_unmasked := True\<rparr>"

definition dispatch :: "setup_packet \<Rightarrow> usb \<Rightarrow> error + (bool \<times> usb)" where
  "dispatch setup s =
     (let type = bmRequestType setup AND 0x60
      in if type = 0 then ep0_standard_request setup s
         else if type = 0x20 then ep0_device_request setup s
         else if type = 0x40 then ep0_vendor_request setup s
         else Inr (False, s))"

lemma setup_out_accepted:
  assumes conf: "usb_conf s" and idle: "in_flight (eps s EP0_OUT) = 0" and irq: "dis_int_count s = 1"
    and len: "unat (wLength (ep0_setup_packet s)) = length data" "0 < length data" "length data \<le> 0x1000"
    and to_dev: "bmRequestType (ep0_setup_packet s) AND 0x80 = 0"
    and req: "dispatch (ep0_setup_packet s) (serving s) = bindE (ep0_begin_data_out_stage cb (serving s)) (\<lambda>s. Inr (True, s))"
  shows "\<exists>s' tr E. bindE (ep0_process_setup s) (ep_out_recv EP0_OUT) = Inr s' \<and> out_receiving data 0 s'
    \<and> s' = s\<lparr>setup_packet_pending := False, dis_int_count := 1, daif_unmasked := False,
         data_out_stage_callback := Some cb, eps := (eps s)(EP0_OUT := E), usb_trace := tr\<rparr>"
proof -
  let ?n = "length data"
  let ?P = "out_prepared ?n (eps s EP0_OUT)"
  have c1: "usb_conf (serving s)" using conf by (simp add: serving_def usb_conf_cb)
  have b: "ep0_begin_data_out_stage cb (serving s) =
      Inr (set_ep EP0_OUT ?P ((serving s)\<lparr>data_out_stage_callback := Some cb\<rparr>))"
    using begin_data_out [OF c1, of ?n cb] idle len by (simp add: serving_def)
  define s2 where "s2 = s\<lparr>setup_packet_pending := False, dis_int_count := 1, daif_unmasked := False,
      data_out_stage_callback := Some cb, eps := (eps s)(EP0_OUT := ?P)\<rparr>"
  have c2: "usb_conf s2"
  proof -
    have "usb_conf (set_ep EP0_OUT ?P ((serving s)\<lparr>data_out_stage_callback := Some cb\<rparr>))"
      by (rule ep0_begin_data_out_stage_keep [OF b c1])
    then show ?thesis by (simp add: s2_def serving_def set_ep_def usb_conf_def usb_mem_ok_def)
  qed
  have en: "enable_interrupts (s\<lparr>setup_packet_pending := False\<rparr>) = Inr (serving s)"
    using irq by (simp add: enable_interrupts_def Let_def serving_def)
  have dis: "disable_interrupts (set_ep EP0_OUT ?P ((serving s)\<lparr>data_out_stage_callback := Some cb\<rparr>)) = Inr s2"
    by (simp add: disable_interrupts_def Let_def serving_def set_ep_def s2_def)
  have stage: "ep0_setup_stage (ep0_setup_packet s) (s\<lparr>setup_packet_pending := False\<rparr>) = Inr (True, s2)"
    using req b dis unfolding ep0_setup_stage_def dispatch_def by (simp add: en Let_def)
  have "ucast (wLength (ep0_setup_packet s)) \<le> DMA_BUFFER_SIZE"
    using len by (simp add: word_le_nat_alt unat_ucast16 DMA_BUFFER_SIZE_def)
  moreover have "0 < wLength (ep0_setup_packet s)" using len by (simp add: word_less_nat_alt)
  moreover have "ep0_setup_packet s2 = ep0_setup_packet s" by (simp add: s2_def)
  ultimately have p: "ep0_process_setup s = Inr s2"
    using stage by (simp add: ep0_process_setup_def Let_def)
  have "eps s2 EP0_OUT = ?P" by (simp add: s2_def)
  from out_stage_starts [OF c2 this len(2,3)] obtain tr where
    r: "ep_out_recv EP0_OUT s2 = Inr (s2\<lparr>usb_trace := tr\<rparr>)" "out_receiving data 0 (s2\<lparr>usb_trace := tr\<rparr>)" by blast
  show ?thesis
    by (rule exI [of _ "s2\<lparr>usb_trace := tr\<rparr>"], rule exI [of _ tr], rule exI [of _ ?P]) (simp add: p r, simp add: s2_def)
qed

definition stage_packet :: "u8 \<Rightarrow> u8 \<Rightarrow> u16 \<Rightarrow> setup_packet \<Rightarrow> nat \<Rightarrow> bool" where
  "stage_packet type req index setup n \<longleftrightarrow>
     bmRequestType setup = type \<and> bRequest setup = req \<and> wIndex setup = index \<and> unat (wLength setup) = n"

text \<open>The device between two control transfers.\<close>

definition ep0_ready :: "usb \<Rightarrow> bool" where
  "ep0_ready s \<longleftrightarrow> usb_conf s \<and> in_flight (eps s EP0_OUT) = 0 \<and> in_idle (eps s EP0_IN) \<and> dis_int_count s = 1"

lemma ktrw_request:
  assumes ready: "ep0_ready s" and pkt: "stage_packet 0x40 0x41 0x1337 (ep0_setup_packet s) (length data)"
    and len: "0 < length data" "length (ktrw_rx s) + length data \<le> 4096"
  shows "\<exists>s1 s2. bindE (ep0_process_setup s) (ep_out_recv EP0_OUT) = Inr s1 \<and> out_stage (packets 64 data) s1 = Inr s2
    \<and> ktrw_rx s2 = ktrw_rx s @ data \<and> usb_conf s2 \<and> in_flight (eps s2 EP0_OUT) = 0"
proof -
  let ?n = "length data" and ?p = "ep0_setup_packet s"
  have conf: "usb_conf s" and idle: "in_flight (eps s EP0_OUT) = 0" "in_idle (eps s EP0_IN)" and irq: "dis_int_count s = 1"
    using ready by (simp_all add: ep0_ready_def)
  have P: "bmRequestType ?p = 0x40" "bRequest ?p = 0x41" "wIndex ?p = 0x1337" "unat (wLength ?p) = ?n"
    using pkt by (simp_all add: stage_packet_def)
  obtain rx where rx: "usb_mem s KtrwRecvData = Some rx" "length rx = 4096" using ktrw_buffers [OF conf] by blast
  have c: "unat (ktrw_recv_count s) \<le> 4096" by (rule ktrw_counts(3) [OF conf])
  have rxl: "length (ktrw_rx s) = unat (ktrw_recv_count s)" using rx c by (simp add: ktrw_rx_def)
  have "\<not> wLength ?p > KTRW_BUFFER - ktrw_recv_count s"
  proof -
    have "unat (KTRW_BUFFER - ktrw_recv_count s) = 4096 - unat (ktrw_recv_count s)"
      using c by (subst unat_sub) (simp_all add: word_le_nat_alt KTRW_BUFFER_def)
    then show ?thesis using P(4) len(2) rxl by (simp add: word_less_nat_alt)
  qed
  then have req: "dispatch ?p (serving s) = bindE (ep0_begin_data_out_stage Ktrw_recv_done (serving s)) (\<lambda>s. Inr (True, s))"
    using P by (simp add: dispatch_def ep0_vendor_request_def ktrw_recv_def serving_def)
  obtain s1 tr E where s1: "bindE (ep0_process_setup s) (ep_out_recv EP0_OUT) = Inr s1" "out_receiving data 0 s1"
    "s1 = s\<lparr>setup_packet_pending := False, dis_int_count := 1, daif_unmasked := False,
         data_out_stage_callback := Some Ktrw_recv_done, eps := (eps s)(EP0_OUT := E), usb_trace := tr\<rparr>"
    using setup_out_accepted [OF conf idle(1) irq P(4) len(1) _ _ req] len(2) P(1) by auto
  obtain s2 where s2: "out_stage (packets 64 data) s1 = ep0_out_finish s2" "out_received data s1 s2"
    using out_stage_all [OF s1(2)] by auto
  have R: "usb_conf s2" "mem_read (At DmaPage 0) ?n s2 = Inr data" "ktrw_recv_count s2 = ktrw_recv_count s"
    "usb_mem s2 KtrwRecvData = usb_mem s KtrwRecvData"
    using s2(2) s1(3) by (auto simp: out_received_def only_page_def)
  have rx2: "ktrw_rx s2 = ktrw_rx s" using R(3,4) by (simp add: ktrw_rx_def)
  have "unat (ktrw_recv_count s2) + ?n \<le> 4096" using len(2) rxl R(3) by simp
  from ktrw_recv_done_appends [OF R(1,2) this] obtain m where
    m: "ktrw_recv_done (At DmaPage 0) (of_nat ?n) s2 =
      Inr (True, s2\<lparr>usb_mem := (usb_mem s2)(KtrwRecvData \<mapsto> m), ktrw_recv_count := ktrw_recv_count s2 + of_nat ?n\<rparr>)"
      "length m = 4096" "take (unat (ktrw_recv_count s2) + ?n) m = ktrw_rx s2 @ data"
      "unat (ktrw_recv_count s2 + of_nat ?n) = unat (ktrw_recv_count s2) + ?n"
    by blast
  let ?s3 = "s2\<lparr>usb_mem := (usb_mem s2)(KtrwRecvData \<mapsto> m), ktrw_recv_count := ktrw_recv_count s2 + of_nat ?n\<rparr>"
  have to_dev: "bmRequestType (ep0_setup_packet s1) AND 0x80 = 0" "data_out_stage_callback s1 = Some Ktrw_recv_done"
    "in_idle (eps s1 EP0_IN)"
    using P(1) idle(2) by (simp_all add: s1(3))
  have "call_data_out Ktrw_recv_done (At DmaPage 0) (of_nat ?n) s2 = Inr (True, ?s3)" "eps ?s3 = eps s2"
    using m(1) by (simp_all add: call_data_out_def)
  from out_finish_accepted [OF s2(2) to_dev this] obtain tr' E' where
    f: "ep0_out_finish s2 = Inr (?s3\<lparr>data_out_stage_callback := None, eps := E', usb_trace := tr'\<rparr>)" "in_flight (E' EP0_OUT) = 0" by blast
  let ?s4 = "?s3\<lparr>data_out_stage_callback := None, eps := E', usb_trace := tr'\<rparr>"
  have "ktrw_rx ?s4 = ktrw_rx s @ data" using m(3,4) rx2 by (simp add: ktrw_rx_def)
  moreover have "usb_conf ?s4"
  proof -
    have "ep_out_recv EP0_OUT u = Inr ?s4 \<and> usb_conf u" if "ep0_out_data_done s2 = Inr u" for u
      using f(1) that ep0_out_data_done_keep [OF that R(1)] by (simp add: ep0_out_finish_def)
    moreover have "\<exists>u. ep0_out_data_done s2 = Inr u" using f(1) by (auto simp: ep0_out_finish_def)
    ultimately show ?thesis using ep_out_recv_keep by blast
  qed
  ultimately show ?thesis using s1(1) s2(1) f by auto
qed

section \<open>Standard input over USB\<close>

lemma mem_read_byte:
  assumes "mem_read (At b j) n s = Inr data" and "i < n" and "n \<le> 0x1000"
  shows "mem_read (ptr_add (At b j) (of_nat i)) 1 s = Inr [data ! i]"
proof -
  have u: "unat (of_nat i :: u32) = i" using assms(2,3) by (simp add: of_nat_u32)
  have "length data = n" using assms(1,2) by (auto simp: mem_read_def chunk_def split: option.splits if_splits)
  then have "take 1 (drop i data) = [data ! i]" using assms(2) by (simp add: take_Suc_conv_app_nth)
  with mem_read_part [OF assms(1), of "of_nat i" 1] assms(2) u show ?thesis by simp
qed

lemma write_stdin_types:
  assumes "dis_int_count s = 0" and "mem_read (At b j) n s = Inr data" and "n = length data" and "n \<le> 0x1000"
    and "i \<le> n" and "0 \<notin> set (drop i data)" and "0x7f \<notin> set (drop i data)"
    and "length (stdin_buf (usb_io s)) + length (crlf (drop i data)) \<le> STDIN_BUFLEN"
  shows "\<exists>io. write_stdin_loop (n - i) (At b j) (of_nat i) s = Inr (s\<lparr>usb_io := io\<rparr>)
    \<and> stdin_buf io = stdin_buf (usb_io s) @ crlf (drop i data)"
  using assms
proof (induction "n - i" arbitrary: i s)
  case 0
  then have "s = s\<lparr>usb_io := usb_io s\<rparr>" "drop i data = []" "n - i = 0" by simp_all
  then show ?case by (intro exI [of _ "usb_io s"]) (simp add: crlf_def)
next
  case (Suc k)
  let ?c = "data ! i" and ?io = "(usb_io s)\<lparr>io_dis_int := dis_int_count s\<rparr>"
  have i: "i < n" "n - i = Suc (n - Suc i)" "k = n - Suc i" using Suc.hyps(2) by simp_all
  have dr: "drop i data = ?c # drop (Suc i) data" using i(1) Suc.prems(3) by (simp add: Cons_nth_drop_Suc)
  have c: "?c \<noteq> 0" "?c \<noteq> 0x7f" using Suc.prems(6,7) dr by auto
  have cr: "crlf (drop i data) = crlf [?c] @ crlf (drop (Suc i) data)" by (simp add: dr crlf_def)
  have "\<exists>io'. queue_rx_each [?c] ?io = Inr io' \<and> stdin_buf io' = stdin_buf ?io @ crlf [?c] \<and> io_dis_int io' = 0"
    using queue_rx_each_plain [of ?io "[?c]"] Suc.prems(1,8) c(2) cr by simp
  then obtain io' where io': "queue_rx_char ?c ?io = Inr io'" "stdin_buf io' = stdin_buf (usb_io s) @ crlf [?c]"
    by (auto simp: bindE_def split: sum.splits)
  let ?s = "s\<lparr>usb_io := io'\<rparr>"
  have rd: "mem_read (ptr_add (At b j) (of_nat i)) 1 s = Inr [?c]" by (rule mem_read_byte [OF Suc.prems(2) i(1) Suc.prems(4)])
  have m: "mem_read (At b j) n ?s = Inr data" using Suc.prems(2) by (subst mem_read_mem [of _ _ s]) simp_all
  have step: "write_stdin_loop (n - i) (At b j) (of_nat i) s = write_stdin_loop (n - Suc i) (At b j) (of_nat (Suc i)) ?s"
    using rd c(1) io'(1) by (simp add: i(2) io_unit_def with_io_def add.commute)
  have "\<exists>io. write_stdin_loop (n - Suc i) (At b j) (of_nat (Suc i)) ?s = Inr (?s\<lparr>usb_io := io\<rparr>)
    \<and> stdin_buf io = stdin_buf (usb_io ?s) @ crlf (drop (Suc i) data)"
    using Suc.prems i dr io'(2) cr m by (intro Suc.hyps(1)) simp_all
  then show ?case using step io'(2) cr by auto
qed

lemma stdin_request:
  assumes ready: "ep0_ready s" and pkt: "stage_packet 0x21 3 index (ep0_setup_packet s) (length data)"
    and len: "0 < length data" "length data \<le> 512" and plain: "0 \<notin> set data" "0x7f \<notin> set data"
    and room: "length (stdin_buf (usb_io s)) + length (crlf data) \<le> STDIN_BUFLEN"
  shows "\<exists>s1 s2. bindE (ep0_process_setup s) (ep_out_recv EP0_OUT) = Inr s1 \<and> out_stage (packets 64 data) s1 = Inr s2
    \<and> stdin_buf (usb_io s2) = stdin_buf (usb_io s) @ crlf data"
proof -
  let ?n = "length data" and ?p = "ep0_setup_packet s"
  have conf: "usb_conf s" and idle: "in_flight (eps s EP0_OUT) = 0" "in_idle (eps s EP0_IN)" and irq: "dis_int_count s = 1"
    using ready by (simp_all add: ep0_ready_def)
  have P: "bmRequestType ?p = 0x21" "bRequest ?p = 3" "unat (wLength ?p) = ?n"
    using pkt by (simp_all add: stage_packet_def)
  have "0 < wLength ?p" "wLength ?p \<le> 512" using P(3) len by (simp_all add: word_less_nat_alt word_le_nat_alt)
  then have req: "dispatch ?p (serving s) = bindE (ep0_begin_data_out_stage Usb_write_stdin (serving s)) (\<lambda>s. Inr (True, s))"
    using P by (simp add: dispatch_def ep0_device_request_def ep0_device_out_def)
  have "?n \<le> 0x1000" using len(2) by simp
  from setup_out_accepted [OF conf idle(1) irq P(3) len(1) this _ req] P(1)
  obtain s1 tr E where s1: "bindE (ep0_process_setup s) (ep_out_recv EP0_OUT) = Inr s1" "out_receiving data 0 s1"
    "s1 = s\<lparr>setup_packet_pending := False, dis_int_count := 1, daif_unmasked := False,
         data_out_stage_callback := Some Usb_write_stdin, eps := (eps s)(EP0_OUT := E), usb_trace := tr\<rparr>" by auto
  obtain s2 where s2: "out_stage (packets 64 data) s1 = ep0_out_finish s2" "out_received data s1 s2"
    using out_stage_all [OF s1(2)] by auto
  have R: "mem_read (At DmaPage 0) ?n s2 = Inr data" "usb_io s2 = usb_io s" "dis_int_count s2 = 1"
    using s2(2) s1(3) by (auto simp: out_received_def)
  let ?e = "s2\<lparr>dis_int_count := 0, daif_unmasked := True\<rparr>"
  have "mem_read (At DmaPage 0) ?n ?e = Inr data" using R(1) by (subst mem_read_mem [of _ _ s2]) simp_all
  from write_stdin_types [OF _ this refl \<open>?n \<le> 0x1000\<close>, of 0] plain room R(2) obtain io where
    io: "write_stdin_loop ?n (At DmaPage 0) 0 ?e = Inr (?e\<lparr>usb_io := io\<rparr>)" "stdin_buf io = stdin_buf (usb_io s) @ crlf data" by auto
  have un: "unat (of_nat ?n :: u32) = ?n" using len(2) by (simp add: of_nat_u32)
  have en: "enable_interrupts s2 = Inr ?e" using R(3) by (simp add: enable_interrupts_def Let_def)
  have "\<exists>s3. usb_write_stdin (At DmaPage 0) (of_nat ?n) s2 = Inr (True, s3) \<and> eps s3 = eps s2 \<and> usb_io s3 = io"
    using io(1) by (cases "should_wait_for_cmd_handler s2")
      (simp_all add: usb_write_stdin_def en un disable_interrupts_def Let_def)
  then obtain s3 where call: "usb_write_stdin (At DmaPage 0) (of_nat ?n) s2 = Inr (True, s3)" "eps s3 = eps s2" "usb_io s3 = io" by blast
  have st: "bmRequestType (ep0_setup_packet s1) AND 0x80 = 0" "data_out_stage_callback s1 = Some Usb_write_stdin"
    "in_idle (eps s1 EP0_IN)"
    using P(1) idle(2) by (simp_all add: s1(3))
  have "call_data_out Usb_write_stdin (At DmaPage 0) (of_nat ?n) s2 = Inr (True, s3)"
    using call by (simp add: call_data_out_def)
  note fin = out_finish_accepted [OF s2(2) st this call(2)]
  then obtain tr' E' where
    "ep0_out_finish s2 = Inr (s3\<lparr>data_out_stage_callback := None, eps := E', usb_trace := tr'\<rparr>)" by blast
  then show ?thesis using s1(1) s2(1) io(2) call(3) by auto
qed

section \<open>Sending to the host\<close>

text \<open>Nothing is under way on the channel.\<close>

definition ktrw_idle :: "usb \<Rightarrow> bool" where
  "ktrw_idle s \<longleftrightarrow> usb_conf s \<and> in_idle (eps s EP1_IN) \<and> in_transfer_done s = None"

lemma ktrw_tx_read:
  assumes "usb_conf s"
  shows "mem_read (At KtrwSendData 0) (length (ktrw_tx s)) s = Inr (ktrw_tx s)"
    and "length (ktrw_tx s) = unat (ktrw_send_count s)"
proof -
  obtain tx where tx: "usb_mem s KtrwSendData = Some tx" "length tx = 4096" using ktrw_buffers [OF assms] by blast
  have c: "unat (ktrw_send_count s) \<le> 4096" by (rule ktrw_counts(2) [OF assms])
  show l: "length (ktrw_tx s) = unat (ktrw_send_count s)" using tx c by (simp add: ktrw_tx_def)
  show "mem_read (At KtrwSendData 0) (length (ktrw_tx s)) s = Inr (ktrw_tx s)"
    unfolding l using tx c by (simp add: mem_read_def chunk_def ktrw_tx_def)
qed

lemma ep1_sizes:
  assumes "usb_conf s"
  shows "dir_in (eps s EP1_IN)" "ep_type (eps s EP1_IN) = 3" "max_packet_size (eps s EP1_IN) = 1024"
    "default_xfer_dma_data (eps s EP1_IN) = At DmaPage 0x2000" "default_xfer_dma_size (eps s EP1_IN) = 0x1000"
  using usb_conf_ep(1) [OF assms, of EP1_IN] by (simp_all add: ep_static_def ep_default_dma_def DMA_BUFFER_SIZE_def)

lemma ktrw_source:
  assumes "ktrw_idle s"
  shows "in_source EP1_IN (At KtrwSendData 0) (ktrw_tx s) s"
proof -
  have conf: "usb_conf s" and idle: "in_idle (eps s EP1_IN)" using assms by (simp_all add: ktrw_idle_def)
  note st = ep1_sizes [OF conf]
  obtain pg where pg: "usb_mem s DmaPage = Some pg" "length pg = 0x4000" using usb_conf_obj [OF conf, of DmaPage] by auto
  have "length (ktrw_tx s) \<le> 4096" using ktrw_tx_read(2) [OF conf] ktrw_counts(2) [OF conf] by simp
  then show ?thesis
    using st idle pg ktrw_tx_read(1) [OF conf]
    by (simp add: in_source_def Let_def ep_sizes_def reset_dma_def)
qed

text \<open>A transfer of what is queued, as \<open>usb_in_transfer\<close> starts it.\<close>

lemma ktrw_start:
  assumes idle: "ktrw_idle s" and ne: "ktrw_tx s \<noteq> []"
  shows "\<exists>s'. usb_in_transfer 0x81 (At KtrwSendData 0) (ucast (ktrw_send_count s)) Ktrw_send_done s = Inr s'
    \<and> in_sending EP1_IN (ktrw_tx s) 0 s' \<and> elsewhere EP1_IN (s\<lparr>in_transfer_done := Some Ktrw_send_done\<rparr>) s' \<and> usb_conf s'
    \<and> transfer_data (eps s' EP1_IN) = At KtrwSendData 0"
proof -
  let ?s = "s\<lparr>in_transfer_done := Some Ktrw_send_done\<rparr>"
  have conf: "usb_conf s" and cb: "in_transfer_done s = None" using idle by (simp_all add: ktrw_idle_def)
  have conf': "usb_conf ?s" using conf by (rule usb_conf_cb)
  have src: "in_source EP1_IN (At KtrwSendData 0) (ktrw_tx s) ?s"
  proof -
    have "mem_read p k ?s = mem_read p k s" for p k by (rule mem_read_mem) simp
    then show ?thesis using ktrw_source [OF idle] ep1_sizes(2) [OF conf] by (auto simp: in_source_def Let_def)
  qed
  have n: "of_nat (length (ktrw_tx s)) = (ucast (ktrw_send_count s) :: u32)"
    unfolding ktrw_tx_read(2) [OF conf] by simp
  obtain s' where s': "ep_in_send_data EP1_IN (At KtrwSendData 0) (ucast (ktrw_send_count s)) ?s = Inr s'"
    "elsewhere EP1_IN ?s s'" "in_sending EP1_IN (ktrw_tx s) 0 s'"
    using in_source_start [OF src] ne unfolding n by auto
  have td: "transfer_data (eps s' EP1_IN) = At KtrwSendData 0"
    using s'(1) by (auto simp: ep_in_send_data_def ep_in_send_def Let_def set_ep_def)
  have "usb_in_transfer 0x81 (At KtrwSendData 0) (ucast (ktrw_send_count s)) Ktrw_send_done s = Inr s'"
    using s'(1) cb by (simp add: usb_in_transfer_def lookup_endpoint_def BUG_if_def)
  then show ?thesis using s' ep_in_send_data_keep [OF s'(1) conf'] td by blast
qed

text \<open>Data that is queued meanwhile does not disturb the transfer.\<close>

lemma in_sending_mem:
  assumes "in_sending e data t s" and "eps s' e = eps s e" and "usb_trace s' = usb_trace s" and "usb_mem s' DmaPage = usb_mem s DmaPage"
    and "ep_type (eps s e) \<noteq> 0" and "mem_read (transfer_data (eps s e)) (length data) s' = Inr data"
  shows "in_sending e data t s'"
proof -
  obtain d where d: "xfer_dma_data (eps s e) = At DmaPage d"
    using assms(1,5) by (auto simp: in_sending_def in_ctx_def Let_def)
  have "hw_in e s' = hw_in e s"
    unfolding hw_in_def Let_def assms(2,3) d by (rule mem_read_mem) (simp add: assms(4))
  moreover have "in_ctx e data s'"
    using assms by (simp add: in_sending_def in_ctx_def Let_def)
  ultimately show ?thesis using assms(1,2) by (simp add: in_sending_def Let_def)
qed

lemma usb_write_frame:
  assumes "usb_write data n s = Inr (w, s')"
  shows "eps s' = eps s \<and> usb_trace s' = usb_trace s \<and> usb_mem s' DmaPage = usb_mem s DmaPage
    \<and> ktrw_send_in_flight s' = ktrw_send_in_flight s \<and> in_transfer_done s' = in_transfer_done s"
  using assms by (auto simp: usb_write_def Let_def mem_write_def split: if_splits option.splits)

lemma ktrw_send_done_rest:
  assumes idle: "ktrw_idle s" and fl: "unat (ktrw_send_in_flight s) = length a" and tx: "ktrw_tx s = a @ b" and ne: "b \<noteq> []"
  shows "\<exists>s'. ktrw_send_done s = Inr s' \<and> ktrw_tx s' = b \<and> in_sending EP1_IN b 0 s' \<and> usb_conf s'"
proof -
  have conf: "usb_conf s" using idle by (simp add: ktrw_idle_def)
  let ?c = "ktrw_send_count s" and ?f = "ktrw_send_in_flight s"
  obtain m where m: "usb_mem s KtrwSendData = Some m" "length m = 4096" using ktrw_buffers [OF conf] by blast
  have c: "unat ?c = length a + length b" "unat ?c \<le> 4096"
    using ktrw_tx_read(2) [OF conf] ktrw_counts(2) [OF conf] tx by simp_all
  have le: "?f \<le> ?c" using usb_conf_counts(1) [OF conf] .
  have left: "unat (?c - ?f) = length b" using le by (subst unat_sub) (simp_all add: word_le_nat_alt c fl)
  have "take (unat ?c) m = a @ b" using tx m by (simp add: ktrw_tx_def)
  then have b: "take (length b) (drop (length a) m) = b"
    by (metis append_eq_conv_conj c(1) take_drop add.commute)
  have rd: "mem_read (At KtrwSendData (unat ?f)) (unat (?c - ?f)) s = Inr b"
    unfolding left fl using m c b ne by (simp add: mem_read_def chunk_def)
  let ?m = "take 0 m @ b @ drop (0 + length b) m"
  have w: "mem_write (At KtrwSendData 0) b s = Inr (s\<lparr>usb_mem := (usb_mem s)(KtrwSendData \<mapsto> ?m)\<rparr>)"
    by (rule mem_write_ok [OF m(1)]) (use c m(2) in simp)
  let ?s = "s\<lparr>usb_mem := (usb_mem s)(KtrwSendData \<mapsto> ?m), ktrw_send_count := ?c - ?f, ktrw_send_in_flight := ?c - ?f\<rparr>"
  have conf': "usb_conf ?s"
  proof -
    have "usb_conf (s\<lparr>usb_mem := (usb_mem s)(KtrwSendData \<mapsto> ?m)\<rparr>)" by (rule usb_conf_mem_write [OF w conf])
    moreover have "?c - ?f \<le> KTRW_BUFFER" using usb_conf_counts [OF conf] by (meson order_trans word_sub_le)
    ultimately show ?thesis using usb_conf_ktrw(1) [of "s\<lparr>usb_mem := (usb_mem s)(KtrwSendData \<mapsto> ?m)\<rparr>" "?c - ?f" "?c - ?f"] by simp
  qed
  have tx': "ktrw_tx ?s = b" using left by (simp add: ktrw_tx_def)
  have pos: "?c - ?f > 0" using left ne by (simp add: word_less_nat_alt)
  have "ktrw_idle ?s" using idle conf' by (simp add: ktrw_idle_def)
  from ktrw_start [OF this] tx' ne obtain s' where s': "usb_in_transfer 0x81 (At KtrwSendData 0) (ucast (?c - ?f)) Ktrw_send_done ?s = Inr s'"
    "in_sending EP1_IN b 0 s'" "elsewhere EP1_IN (?s\<lparr>in_transfer_done := Some Ktrw_send_done\<rparr>) s'" "usb_conf s'" by auto
  have nl: "(?c < ?f) = False" using le by auto
  have "ktrw_send_done s = Inr s'"
    using nl rd w s'(1) pos by (simp add: ktrw_send_done_def BUG_if_def Let_def mem_copy_def)
  moreover have "ktrw_tx s' = b" using s'(3) tx' by (auto simp: elsewhere_def only_page_def ktrw_tx_def)
  ultimately show ?thesis using s'(2,4) by blast
qed

text \<open>The controller sends what is in flight; the amount in flight and the queue stay as they are.\<close>

lemma ktrw_flight:
  assumes "in_sending EP1_IN data 0 s" and "usb_conf s" and "length data div 1024 + 2 \<le> k" and "in_transfer_done s = Some cb"
  shows "\<exists>bss s'. in_xfer k EP1_IN s = Inr (bss, s') \<and> host_read 1024 (concat (map (packets 1024) bss)) = Some (data, [])
    \<and> ktrw_idle (s'\<lparr>in_transfer_done := None\<rparr>) \<and> ktrw_tx s' = ktrw_tx s \<and> ktrw_send_in_flight s' = ktrw_send_in_flight s"
proof -
  have ne: "data \<noteq> []" "ep_sizes (eps s EP1_IN)" using assms(1) by (auto simp: in_sending_def in_ctx_def Let_def)
  have m: "unat (max_packet_size (eps s EP1_IN)) = 1024" using ep1_sizes(3) [OF assms(2)] by simp
  obtain bss s' where r: "in_xfer k EP1_IN s = Inr (bss, s')" "in_idle (eps s' EP1_IN)" "in_frame EP1_IN s s'"
    "host_read 1024 (concat (map (packets 1024) bss)) = Some (data, [])"
    using in_started_delivers [of data EP1_IN s k] ne assms(1,3) m by (auto simp: Let_def)
  obtain mem tr a b c where s': "s' = s\<lparr>usb_mem := mem, usb_trace := tr,
       eps := (eps s)(EP1_IN := (eps s EP1_IN)\<lparr>transfer_size := a, transferred := b, in_flight := c\<rparr>)\<rparr>" "only_page (usb_mem s) mem"
    using r(3) unfolding in_frame_def by blast
  have "usb_conf s'"
  proof -
    have "usb_conf (set_ep EP1_IN ((eps s EP1_IN)\<lparr>transfer_size := a, transferred := b, in_flight := c\<rparr>) s)"
      using assms(2) usb_conf_ep(1) [OF assms(2)] by (intro usb_conf_set_ep) simp_all
    moreover have "mem_sizes mem" using only_page_sizes [OF s'(2)] assms(2) by (simp add: usb_conf_def usb_mem_ok_def)
    ultimately show ?thesis by (simp add: s'(1) set_ep_def usb_conf_def usb_mem_ok_def)
  qed
  then have "ktrw_idle (s'\<lparr>in_transfer_done := None\<rparr>)" using r(2) by (simp add: ktrw_idle_def usb_conf_cb)
  moreover have "ktrw_tx s' = ktrw_tx s" "ktrw_send_in_flight s' = ktrw_send_in_flight s"
    using s'(2) by (simp_all add: s'(1) ktrw_tx_def only_page_def)
  ultimately show ?thesis using r by blast
qed

text \<open>Two writes, the second while the first is on its way: the host reads the one and then the other.\<close>

lemma ktrw_two_writes:
  assumes idle: "ktrw_idle s" and empty: "ktrw_send_count s = 0"
    and a: "a \<noteq> []" and b: "b \<noteq> []" and room: "length a + length b \<le> 4096"
  shows "\<exists>s1 s2 s3 bss s4 s5 bss' s6. usb_write a (of_nat (length a)) s = Inr (of_nat (length a), s1) \<and> usb_write_commit s1 = Inr s2
    \<and> usb_write b (of_nat (length b)) s2 = Inr (of_nat (length b), s3)
    \<and> in_xfer 6 EP1_IN s3 = Inr (bss, s4) \<and> host_read 1024 (concat (map (packets 1024) bss)) = Some (a, [])
    \<and> ktrw_send_done (s4\<lparr>in_transfer_done := None\<rparr>) = Inr s5
    \<and> in_xfer 6 EP1_IN s5 = Inr (bss', s6) \<and> host_read 1024 (concat (map (packets 1024) bss')) = Some (b, [])"
proof -
  have conf: "usb_conf s" using idle by (simp add: ktrw_idle_def)
  have un: "unat (of_nat (length x) :: u64) = length x" if "length x \<le> 4096" for x :: bytes using that by (simp add: unat_of_nat)
  have la: "length a \<le> 4096" and lb: "length b \<le> 4096" using room by simp_all
  have tx0: "ktrw_tx s = []" using empty by (simp add: ktrw_tx_def)
  have fl0: "ktrw_send_in_flight s = 0" using usb_conf_counts(1) [OF conf] empty by simp
  obtain w1 s1 where s1: "usb_write a (of_nat (length a)) s = Inr (w1, s1)" "unat w1 = length a" "ktrw_tx s1 = a" "usb_conf s1"
    using usb_write_appends [OF conf, of "of_nat (length a)" a] un [OF la] la tx0 by auto
  have w1: "w1 = of_nat (length a)" unfolding s1(2) [symmetric] by simp
  note f1 = usb_write_frame [OF s1(1)]
  let ?t = "s1\<lparr>ktrw_send_in_flight := ktrw_send_count s1\<rparr>"
  have cnt1: "unat (ktrw_send_count s1) = length a" using ktrw_tx_read(2) [OF s1(4)] s1(3) by simp
  have idle1: "ktrw_idle ?t"
    using idle f1 s1(4) by (simp add: ktrw_idle_def usb_conf_def usb_mem_ok_def)
  have "ktrw_tx ?t = a" using s1(3) by (simp add: ktrw_tx_def)
  with ktrw_start [OF idle1] a obtain s2 where s2: "usb_in_transfer 0x81 (At KtrwSendData 0) (ucast (ktrw_send_count s1)) Ktrw_send_done ?t = Inr s2"
    "in_sending EP1_IN a 0 s2" "elsewhere EP1_IN (?t\<lparr>in_transfer_done := Some Ktrw_send_done\<rparr>) s2" "usb_conf s2"
    "transfer_data (eps s2 EP1_IN) = At KtrwSendData 0" by auto
  have commit: "usb_write_commit s1 = Inr s2"
    using s2(1) f1 fl0 cnt1 a by (simp add: usb_write_commit_def word_less_nat_alt)
  have k2: "ktrw_tx s2 = a" "ktrw_send_in_flight s2 = ktrw_send_count s1" "in_transfer_done s2 = Some Ktrw_send_done"
    using s2(3) s1(3) by (auto simp: elsewhere_def only_page_def ktrw_tx_def)
  obtain w3 s3 where s3: "usb_write b (of_nat (length b)) s2 = Inr (w3, s3)" "unat w3 = length b" "ktrw_tx s3 = a @ b" "usb_conf s3"
    using usb_write_appends [OF s2(4), of "of_nat (length b)" b] un [OF lb] room k2(1) by auto
  have w3: "w3 = of_nat (length b)" unfolding s3(2) [symmetric] by simp
  note f3 = usb_write_frame [OF s3(1)]
  have "mem_read (At KtrwSendData 0) (length a) s3 = Inr a"
    using mem_read_part [OF ktrw_tx_read(1) [OF s3(4)], of 0 "length a"] s3(3) by simp
  then have snd3: "in_sending EP1_IN a 0 s3"
    using f3 s2(5) ep1_sizes(2) [OF s2(4)] by (intro in_sending_mem [OF s2(2)]) simp_all
  have "length a div 1024 + 2 \<le> 6" "length b div 1024 + 2 \<le> 6" using div_le_mono [OF la, of 1024] div_le_mono [OF lb, of 1024] by simp_all
  note fuel = this
  obtain bss s4 where s4: "in_xfer 6 EP1_IN s3 = Inr (bss, s4)" "host_read 1024 (concat (map (packets 1024) bss)) = Some (a, [])"
    "ktrw_idle (s4\<lparr>in_transfer_done := None\<rparr>)" "ktrw_tx s4 = a @ b" "ktrw_send_in_flight s4 = ktrw_send_count s1"
    using ktrw_flight [OF snd3 s3(4) fuel(1)] f3 k2(2,3) s3(3) by auto
  let ?s4 = "s4\<lparr>in_transfer_done := None\<rparr>"
  have "ktrw_tx ?s4 = a @ b" "unat (ktrw_send_in_flight ?s4) = length a" using s4(4,5) cnt1 by (simp_all add: ktrw_tx_def)
  from ktrw_send_done_rest [OF s4(3) this(2,1) b] obtain s5 where
    s5: "ktrw_send_done ?s4 = Inr s5" "in_sending EP1_IN b 0 s5" "usb_conf s5" by blast
  have ne5: "b \<noteq> []" "ep_sizes (eps s5 EP1_IN)" using s5(2) b by (auto simp: in_sending_def in_ctx_def Let_def)
  have m5: "unat (max_packet_size (eps s5 EP1_IN)) = 1024" using ep1_sizes(3) [OF s5(3)] by simp
  obtain bss' s6 where "in_xfer 6 EP1_IN s5 = Inr (bss', s6)" "host_read 1024 (concat (map (packets 1024) bss')) = Some (b, [])"
    using in_started_delivers [of b EP1_IN s5 6] ne5 s5(2) fuel(2) m5 by (auto simp: Let_def)
  then show ?thesis using s1(1) w1 commit s3(1) w3 s4(1,2) s5(1) by blast
qed

end
