(* ===== verification/UsbBulk.thy ===== *)
theory UsbBulk
  imports UsbKtrw
begin

unbundle bit_operations_syntax

text \<open>
  An upload over the bulk endpoint: the controller stores the host's packets straight into the loader's
  buffer, in as many programmings as the size needs. The lemmas follow one programming from its arming
  to its interrupt, and compose them.
\<close>

section \<open>The hardware\<close>

text \<open>What the controller does with the bytes \<open>bs\<close> of the packets it takes for one programming: it stores
  them, stops at the programmed size or at a packet that is not full, and reports the packets and bytes
  that are left.\<close>

definition hw_bulk :: "bytes \<Rightarrow> usb \<Rightarrow> error + usb" where
  "hw_bulk bs s =
     (let ep = eps s EP2_OUT;
          dma = programmed (rDOEPDMA 2) (usb_trace s);
          siz = programmed (rDOEPTSIZ 2) (usb_trace s);
          size = siz AND 0x7ffff;
          count = drop_bit 19 siz AND 0x3ff;
          packets = length bs div 512 + (if length bs < unat size then 1 else 0)
      in if length bs > unat size then Inl BadAccess
         else bindE (mem_write (ptr_add (xfer_dma_data ep) (dma - xfer_dma_phys ep)) bs s) (\<lambda>s.
              Inr (s\<lparr>usb_hw := (\<lambda>tr r. if r = rDOEPINT 2 then 1
                 else if r = rDOEPTSIZ 2 then push_bit 19 (count - of_nat packets) OR (size - of_nat (length bs))
                 else usb_hw s tr r)\<rparr>)))"

text \<open>The host sends what is left of its data until the endpoint has received.\<close>

primrec upload :: "nat \<Rightarrow> bytes \<Rightarrow> usb \<Rightarrow> error + usb" where
  "upload 0 bs s = Inl OutOfFuel"
| "upload (Suc k) bs s =
     (let n = unat (programmed (rDOEPTSIZ 2) (usb_trace s) AND 0x7ffff)
      in bindE (hw_bulk (take n bs) s) (\<lambda>s.
         bindE (ep2_out_interrupt s) (\<lambda>s.
         if in_flight (eps s EP2_OUT) = 0 then Inr s else upload k (drop n bs) s)))"

section \<open>One programming\<close>

definition bulk_part :: "nat \<Rightarrow> nat \<Rightarrow> nat" where "bulk_part sz t = min (sz - t) 0x7fe00"

definition bulk_sizes :: "nat \<Rightarrow> nat \<Rightarrow> bool" where
  "bulk_sizes sz t \<longleftrightarrow> 512 dvd sz \<and> 512 dvd t \<and> t < sz \<and> sz \<le> 0x8000000"

lemma bulk_part_bounds:
  assumes "bulk_sizes sz t"
  shows "512 dvd bulk_part sz t" "0 < bulk_part sz t" "bulk_part sz t \<le> 0x7fe00" "t + bulk_part sz t \<le> sz"
  using assms by (auto simp: bulk_sizes_def bulk_part_def min_def intro: dvd_diff_nat)

definition bulk_ep :: "ptr \<Rightarrow> nat \<Rightarrow> nat \<Rightarrow> endpoint_state \<Rightarrow> bool" where
  "bulk_ep p sz t ep \<longleftrightarrow> ep_n ep = 2 \<and> ep_type ep = 2 \<and> \<not> dir_in ep \<and> max_packet_size ep = 512 \<and> in_flight ep = RECV_DATA
     \<and> xfer_dma_data ep = p \<and> transfer_data ep = p \<and> xfer_dma_size ep = of_nat sz \<and> transfer_size ep = of_nat sz
     \<and> transferred ep = of_nat t"

lemma bulk_compute:
  assumes "bulk_ep p sz t ep" and "bulk_sizes sz t"
  shows "ep_out_recv_compute_xfer ep = Inr (of_nat t, of_nat (bulk_part sz t), of_nat (bulk_part sz t div 512))"
proof -
  have sz: "512 dvd sz" "512 dvd t" "t < sz" "sz \<le> 0x8000000" using assms(2) by (simp_all add: bulk_sizes_def)
  have u: "unat (of_nat n :: u32) = n" if "n \<le> 0x8001000" for n using that by (simp add: of_nat_u32)
  have left: "(of_nat sz :: u32) - of_nat t = of_nat (sz - t)" using sz(3) by simp
  have c1: "\<not> (of_nat t > (of_nat sz :: u32))" using sz(3,4) by (simp add: word_less_nat_alt u)
  have c2: "((of_nat (sz - t) :: u32) > 0x7ffff) = (sz - t > 0x7ffff)" using sz(4) by (simp add: word_less_nat_alt u del: of_nat_diff)
  have x: "(if (of_nat (sz - t) :: u32) > 0x7ffff then 0x7fe00 else of_nat (sz - t)) = (of_nat (bulk_part sz t) :: u32)"
  proof (cases "sz - t > 0x7ffff")
    case False
    have "512 dvd sz - t" using sz(1,2) by simp
    then obtain k where k: "sz - t = 512 * k" by blast
    then have "512 * k < 512 * 1024" using False by simp
    then have "sz - t \<le> 0x7fe00" using k by simp
    then have "bulk_part sz t = sz - t" by (simp add: bulk_part_def)
    then show ?thesis unfolding c2 using False by (simp only: if_False)
  qed (simp only: c2, simp add: bulk_part_def)
  note b = bulk_part_bounds [OF assms(2)]
  have n: "(511 + of_nat (bulk_part sz t)) div 512 = (of_nat (bulk_part sz t div 512) :: u32)"
  proof (rule word_unat_eq_iff [THEN iffD2])
    have e: "(511 + of_nat (bulk_part sz t) :: u32) = of_nat (bulk_part sz t + 511)" by simp
    obtain k where k: "bulk_part sz t = 512 * k" using b(1) by blast
    have "unat (of_nat (bulk_part sz t + 511) :: u32) = 512 * k + 511" using b(3) k by (simp only: u)
    then have "unat (of_nat (bulk_part sz t + 511) div (512 :: u32)) = k" by (simp add: unat_div_distrib del: of_nat_add)
    moreover have "unat (of_nat (bulk_part sz t div 512) :: u32) = k" using b(3) k u [of k] by simp
    ultimately show "unat ((511 + of_nat (bulk_part sz t)) div 512 :: u32) = unat (of_nat (bulk_part sz t div 512) :: u32)"
      by (simp only: e)
  qed
  have m: "of_nat (bulk_part sz t div 512) * 512 = (of_nat (bulk_part sz t) :: u32)"
    using b(1) by (metis dvd_div_mult_self of_nat_mult of_nat_numeral)
  have c3: "\<not> (of_nat (bulk_part sz t) > (of_nat (sz - t) :: u32))"
    using sz(4) b(3,4) by (simp add: word_less_nat_alt u del: of_nat_diff)
  have zlp: "(of_nat sz :: u32) \<noteq> TRANSFER_ZLP" using sz(4) u [of sz] unat_zlp by auto
  show ?thesis
    using assms(1) c1 zlp c3 unfolding bulk_ep_def
    by (simp add: ep_out_recv_compute_xfer_def Let_def BUG_if_def left x n m del: of_nat_diff cong: if_cong split del: if_split)
qed

text \<open>The endpoint is armed for the next part.\<close>

definition bulk_armed :: "ptr \<Rightarrow> nat \<Rightarrow> nat \<Rightarrow> usb \<Rightarrow> bool" where
  "bulk_armed p sz t s \<longleftrightarrow> bulk_ep p sz t (eps s EP2_OUT) \<and> bulk_sizes sz t
     \<and> programmed (rDOEPDMA 2) (usb_trace s) = xfer_dma_phys (eps s EP2_OUT) + of_nat t
     \<and> programmed (rDOEPTSIZ 2) (usb_trace s) = push_bit 19 (of_nat (bulk_part sz t div 512)) OR of_nat (bulk_part sz t)
     \<and> Inval (ptr_add p (of_nat t)) (of_nat sz) \<in> set (usb_trace s)"

lemma bulk_regs:
  "(rDOEPCTL 2 = rDOEPTSIZ 2) = False" "(rDOEPCTL 2 = rDOEPDMA 2) = False" "(rDOEPTSIZ 2 = rDOEPDMA 2) = False"
  "(rDOEPTSIZ 2 = rDOEPINT 2) = False" "(rDOEPINT 2 = rDOEPTSIZ 2) = False" "(rDOEPDMA 2 = rDOEPTSIZ 2) = False"
  by (simp_all add: rDOEPCTL_def rDOEPTSIZ_def rDOEPDMA_def rDOEPINT_def)

lemma bulk_arm:
  assumes ep: "bulk_ep p sz t (eps s EP2_OUT)" and sz: "bulk_sizes sz t"
  shows "\<exists>tr. ep_out_recv EP2_OUT s = Inr (s\<lparr>usb_trace := tr\<rparr>) \<and> bulk_armed p sz t (s\<lparr>usb_trace := tr\<rparr>)"
proof -
  have self: "set_ep EP2_OUT (eps s EP2_OUT) s = s" by (simp add: set_ep_def)
  have u: "unat (of_nat n :: u32) = n" if "n \<le> 0x8001000" for n using that by (simp add: of_nat_u32)
  have szb: "sz \<le> 0x8000000" "0 < sz" using sz by (auto simp: bulk_sizes_def)
  have nz: "(of_nat sz :: u32) \<noteq> 0" "(of_nat sz :: u32) \<noteq> TRANSFER_ZLP" "(0 :: u32) < of_nat (bulk_part sz t)"
    using szb u [of sz] unat_zlp bulk_part_bounds [OF sz] u [of "bulk_part sz t"] by (auto simp: word_less_nat_alt)
  have len: "out_cache_length (eps s EP2_OUT) (of_nat (bulk_part sz t)) = of_nat sz"
    using ep nz unfolding bulk_ep_def by (simp add: out_cache_length_def Let_def)
  let ?tr = "\<lambda>v. usb_trace s @ [Inval (ptr_add p (of_nat t)) (of_nat sz),
      Wr (rDOEPDMA 2) (xfer_dma_phys (eps s EP2_OUT) + of_nat t),
      Wr (rDOEPTSIZ 2) (push_bit 19 (of_nat (bulk_part sz t div 512)) OR of_nat (bulk_part sz t)),
      Rd (rDOEPCTL 2), Wr (rDOEPCTL 2) v]"
  have "\<exists>v. ep_out_recv EP2_OUT s = Inr (s\<lparr>usb_trace := ?tr v\<rparr>)"
    using ep bulk_compute [OF ep sz] len unfolding bulk_ep_def
    by (simp add: ep_out_recv_def Let_def BUG_if_def self reg_defs) (intro exI, rule refl)
  then obtain v where r: "ep_out_recv EP2_OUT s = Inr (s\<lparr>usb_trace := ?tr v\<rparr>)" by blast
  show ?thesis
    by (rule exI, rule conjI, rule r) (simp add: bulk_armed_def ep sz programmed_def bulk_regs)
qed

text \<open>The two fields of the size register.\<close>

lemma count_field:
  assumes "c < 1024" and "w < 524288"
  shows "drop_bit 19 (push_bit 19 (of_nat c) OR of_nat w) AND 0x3ff = (of_nat c :: u32)"
    and "(push_bit 19 (of_nat c) OR of_nat w) AND 0x7ffff = (of_nat w :: u32)"
proof -
  have w: "unat (of_nat w :: u32) = w" and c: "unat (of_nat c :: u32) = c" using assms by (simp_all add: of_nat_u32)
  show "(push_bit 19 (of_nat c) OR of_nat w) AND 0x7ffff = (of_nat w :: u32)" by (rule xfersize_field) (simp add: w assms)
  have m: "(0x3ff :: u32) = mask 10" by (simp add: mask_eq_exp_minus_1)
  have "\<not> bit (of_nat w :: u32) (n + 19)" for n
  proof -
    have "w < 2 ^ 19" using assms(2) by simp
    also have "(2 :: nat) ^ 19 \<le> 2 ^ (n + 19)" by (rule power_increasing) simp_all
    finally have "w < 2 ^ (n + 19)" .
    then have "\<not> bit w (n + 19)" by (simp add: bit_iff_odd)
    then show ?thesis by (simp add: bit_simps)
  qed
  then have "drop_bit 19 (push_bit 19 (of_nat c) OR of_nat w) AND mask 10 = (of_nat c :: u32) AND mask 10"
    by (intro bit_word_eqI) (auto simp: bit_simps add.commute)
  also have "\<dots> = of_nat c"
    using assms(1) c by (intro word_unat_eq_iff [THEN iffD2]) (simp add: unat_and_mask_len)
  finally show "drop_bit 19 (push_bit 19 (of_nat c) OR of_nat w) AND 0x3ff = (of_nat c :: u32)" by (simp add: m)
qed

text \<open>The number of packets in which \<open>l\<close> bytes come when there is room for \<open>w\<close>.\<close>

definition bulk_packets :: "nat \<Rightarrow> nat \<Rightarrow> nat" where
  "bulk_packets w l = l div 512 + (if l < w then 1 else 0)"

lemma bulk_packets_le: "512 dvd w \<Longrightarrow> l \<le> w \<Longrightarrow> bulk_packets w l \<le> w div 512"
  by (auto simp: bulk_packets_def elim!: dvdE)

definition bulk_left :: "nat \<Rightarrow> nat \<Rightarrow> u32" where
  "bulk_left w l = push_bit 19 (of_nat (w div 512 - bulk_packets w l)) OR of_nat (w - l)"

lemma bulk_partial:
  assumes "512 dvd w" and "l \<le> w" and "w \<le> 0x7fe00" and "ep_type ep = 2" and "max_packet_size ep = 512"
  shows "out_partial_packet ep (bulk_left w l) (of_nat (w - l)) (of_nat l) (of_nat (w div 512)) = (l < w)"
proof -
  have u: "unat (of_nat n :: u32) = n" if "n \<le> 0x7fe00" for n using that by (simp add: of_nat_u32)
  let ?k = "bulk_packets w l"
  have k: "?k \<le> w div 512" "w div 512 < 1024" using bulk_packets_le [OF assms(1,2)] assms(3) by simp_all
  have left: "((of_nat (w - l) :: u32) \<noteq> 0) = (l < w)"
  proof -
    have "((of_nat (w - l) :: u32) \<noteq> 0) = (unat (of_nat (w - l) :: u32) \<noteq> 0)" by (simp only: unat_eq_zero simp_thms)
    also have "\<dots> = (l < w)" using assms(3) by (subst u) auto
    finally show ?thesis .
  qed
  have cnt: "drop_bit 19 (bulk_left w l) AND 0x3ff = (of_nat (w div 512 - ?k) :: u32)"
    unfolding bulk_left_def by (rule count_field) (use k assms(3) in simp_all)
  have got: "(of_nat (w div 512) :: u32) - of_nat (w div 512 - ?k) = of_nat ?k" using k(1) by (simp add: of_nat_diff)
  have exp: "(of_nat l :: u32) div 512 + 1 = of_nat ?k" if "l < w"
  proof (rule word_unat_eq_iff [THEN iffD2])
    have q: "l div 512 < 1024" using assms(2,3) by simp
    have "unat ((of_nat l :: u32) div 512) = l div 512" using assms(2,3) u [of l] by (simp add: unat_div_distrib)
    then have "unat ((of_nat l :: u32) div 512 + 1) = l div 512 + 1" using q by (simp add: unat_word_ariths)
    also have "\<dots> = unat (of_nat (l div 512 + 1) :: u32)" by (rule u [symmetric]) (use q in simp)
    also have "l div 512 + 1 = ?k" using that by (simp add: bulk_packets_def)
    finally show "unat ((of_nat l :: u32) div 512 + 1) = unat (of_nat ?k :: u32)" .
  qed
  show ?thesis
  proof (cases "l < w")
    case True
    with assms(4,5) show ?thesis by (simp add: out_partial_packet_def Let_def left cnt got exp del: of_nat_diff)
  next
    case False
    with assms(4,5) show ?thesis by (simp add: out_partial_packet_def Let_def left del: of_nat_diff)
  qed
qed

lemma bulk_ep_received:
  assumes "bulk_ep p sz t ep"
  shows "bulk_ep p sz t' (ep\<lparr>transferred := of_nat t'\<rparr>)"
  using assms by (simp add: bulk_ep_def)

lemma bulk_data_done:
  assumes ep: "bulk_ep p sz t (eps s EP2_OUT)" and sz: "bulk_sizes sz t"
    and l: "l \<le> bulk_part sz t" "fst (reg_read (rDOEPTSIZ 2) s) = bulk_left (bulk_part sz t) l"
  shows "\<exists>tr. ep_out_recv_data_done EP2_OUT s =
    (let ep = (eps s EP2_OUT)\<lparr>transferred := of_nat (t + l)\<rparr>
     in if sz \<le> t + l \<or> l < bulk_part sz t then Inr (True, (set_ep EP2_OUT (ep\<lparr>in_flight := 0\<rparr>) s)\<lparr>usb_trace := tr\<rparr>)
        else Inr (False, (set_ep EP2_OUT ep s)\<lparr>usb_trace := tr\<rparr>))
    \<and> (\<not> (sz \<le> t + l \<or> l < bulk_part sz t) \<longrightarrow>
         bulk_armed p sz (t + l) ((set_ep EP2_OUT ((eps s EP2_OUT)\<lparr>transferred := of_nat (t + l)\<rparr>) s)\<lparr>usb_trace := tr\<rparr>))"
proof -
  let ?E = "eps s EP2_OUT" and ?s = "snd (reg_read (rDOEPTSIZ 2) s)" and ?w = "bulk_part sz t"
  let ?F = "?E\<lparr>transferred := of_nat (t + l)\<rparr>"
  note st = ep [unfolded bulk_ep_def] and b = bulk_part_bounds [OF sz]
  have u: "unat (of_nat n :: u32) = n" if "n \<le> 0x8001000" for n using that by (simp add: of_nat_u32)
  have szb: "sz \<le> 0x8000000" "t < sz" "512 dvd t" "512 dvd sz" using sz by (simp_all add: bulk_sizes_def)
  have zlp: "(of_nat sz :: u32) \<noteq> TRANSFER_ZLP" using szb(1) u [of sz] unat_zlp by auto
  have left: "bulk_left ?w l AND 0x7ffff = of_nat (?w - l)"
    unfolding bulk_left_def by (rule count_field) (use b(3) bulk_packets_le [OF b(1) l(1)] in simp_all)
  have recv: "(of_nat ?w :: u32) - of_nat (?w - l) = of_nat l" using l(1) by (simp add: of_nat_diff)
  have lpos: "((0 :: u32) < of_nat l) = (0 < l)" using l(1) b(3) by (simp add: word_less_nat_alt u)
  have take: "ep_out_take EP2_OUT (of_nat t) (of_nat l) ?s = Inr (set_ep EP2_OUT ?F ?s)"
  proof (cases "l = 0")
    case True
    have "?E\<lparr>transferred := of_nat t\<rparr> = ?E" using st by simp
    then have "set_ep EP2_OUT ?F ?s = ?s" using True by (simp add: set_ep_def reg_read_def usb_log_def)
    then show ?thesis using True by (simp add: ep_out_take_def)
  next
    case False
    then show ?thesis using lpos st by (simp add: ep_out_take_def reg_read_def usb_log_def)
  qed
  have dd: "ep_out_recv_data_done EP2_OUT s
      = ep_out_recv_finish EP2_OUT (bulk_left ?w l) (of_nat (?w - l)) (of_nat l) (of_nat (?w div 512)) (set_ep EP2_OUT ?F ?s)"
    using st bulk_compute [OF ep sz] l(2) left recv take
    by (simp add: ep_out_recv_data_done_def Let_def case_prod_beta BUG_if_def del: of_nat_diff)
  have F: "eps (set_ep EP2_OUT ?F ?s) EP2_OUT = ?F" by (simp add: set_ep_def)
  have part: "out_partial_packet ?F (bulk_left ?w l) (of_nat (?w - l)) (of_nat l) (of_nat (?w div 512)) = (l < ?w)"
    by (rule bulk_partial) (use st b(1,3) l(1) in simp_all)
  have ge: "(of_nat (t + l) \<ge> (of_nat sz :: u32)) = (sz \<le> t + l)"
  proof -
    have "t + l \<le> 0x8001000" "sz \<le> 0x8001000" using b(4) l(1) szb(1) by linarith+
    then show ?thesis unfolding word_le_nat_alt by (simp only: u)
  qed
  have S: "set_ep EP2_OUT X (set_ep EP2_OUT ?F ?s) = (set_ep EP2_OUT X s)\<lparr>usb_trace := usb_trace s @ [Rd (rDOEPTSIZ 2)]\<rparr>" for X
    by (simp add: set_ep_twice reg_read_def usb_log_def set_ep_trace)
  show ?thesis
  proof (cases "sz \<le> t + l \<or> l < ?w")
    case True
    then have "ep_out_recv_data_done EP2_OUT s
        = Inr (True, cache_invalidate p (of_nat (t + l)) (set_ep EP2_OUT (?F\<lparr>in_flight := 0\<rparr>) (set_ep EP2_OUT ?F ?s)))"
      unfolding dd using zlp st part ge by (simp add: ep_out_recv_finish_def F Let_def del: of_nat_add of_nat_diff)
    then show ?thesis using True
      by (intro exI [of _ "(usb_trace s @ [Rd (rDOEPTSIZ 2)]) @ [Inval p (of_nat (t + l))]"])
        (simp add: S Let_def cache_invalidate_def usb_log_def del: of_nat_add)
  next
    case False
    then have ll: "l = ?w" "t + l < sz" using l(1) by simp_all
    have sz': "bulk_sizes sz (t + l)" using szb ll b(1) by (simp add: bulk_sizes_def)
    have ep': "bulk_ep p sz (t + l) (eps (set_ep EP2_OUT ?F (set_ep EP2_OUT ?F ?s)) EP2_OUT)"
      using bulk_ep_received [OF ep] by (simp add: set_ep_def del: of_nat_add)
    obtain tr where tr: "ep_out_recv EP2_OUT (set_ep EP2_OUT ?F (set_ep EP2_OUT ?F ?s)) = Inr ((set_ep EP2_OUT ?F (set_ep EP2_OUT ?F ?s))\<lparr>usb_trace := tr\<rparr>)"
      "bulk_armed p sz (t + l) ((set_ep EP2_OUT ?F (set_ep EP2_OUT ?F ?s))\<lparr>usb_trace := tr\<rparr>)"
      using bulk_arm [OF ep' sz'] by blast
    have "ep_out_recv_data_done EP2_OUT s = Inr (False, (set_ep EP2_OUT ?F (set_ep EP2_OUT ?F ?s))\<lparr>usb_trace := tr\<rparr>)"
      unfolding dd using zlp st part ge False tr(1) by (simp add: ep_out_recv_finish_def F Let_def del: of_nat_add of_nat_diff)
    with tr(2) False show ?thesis by (intro exI [of _ tr]) (simp add: S Let_def del: of_nat_add)
  qed
qed

section \<open>The whole upload\<close>

definition bulk_at :: "usb_obj \<Rightarrow> nat \<Rightarrow> nat \<Rightarrow> bytes \<Rightarrow> usb \<Rightarrow> bool" where
  "bulk_at b sz t data s \<longleftrightarrow> bulk_armed (At b 0) sz t s \<and> t \<le> length data \<and> length data \<le> sz
     \<and> (\<exists>m. usb_mem s b = Some m \<and> sz \<le> length m \<and> take t m = take t data)"

text \<open>Only the buffer, the endpoint and the controller change.\<close>

definition bulk_frame :: "usb_obj \<Rightarrow> usb \<Rightarrow> usb \<Rightarrow> bool" where
  "bulk_frame b s s' \<longleftrightarrow> (\<exists>m hw tr E. s' = s\<lparr>usb_mem := (usb_mem s)(b \<mapsto> m), usb_hw := hw, usb_trace := tr, eps := (eps s)(EP2_OUT := E)\<rparr>)"

lemma bulk_frame_trans: "bulk_frame b s s' \<Longrightarrow> bulk_frame b s' s'' \<Longrightarrow> bulk_frame b s s''"
  unfolding bulk_frame_def
proof (elim exE)
  fix m hw tr E m' hw' tr' E'
  assume "s' = s\<lparr>usb_mem := (usb_mem s)(b \<mapsto> m), usb_hw := hw, usb_trace := tr, eps := (eps s)(EP2_OUT := E)\<rparr>"
    and "s'' = s'\<lparr>usb_mem := (usb_mem s')(b \<mapsto> m'), usb_hw := hw', usb_trace := tr', eps := (eps s')(EP2_OUT := E')\<rparr>"
  then have "s'' = s\<lparr>usb_mem := (usb_mem s)(b \<mapsto> m'), usb_hw := hw', usb_trace := tr', eps := (eps s)(EP2_OUT := E')\<rparr>" by simp
  then show "\<exists>m hw tr E. s'' = s\<lparr>usb_mem := (usb_mem s)(b \<mapsto> m), usb_hw := hw, usb_trace := tr, eps := (eps s)(EP2_OUT := E)\<rparr>" by blast
qed

lemma hw_bulk_stored:
  assumes "bulk_at b sz t data s" and "bs = take (bulk_part sz t) (drop t data)"
  shows "\<exists>m hw. hw_bulk bs s = Inr (s\<lparr>usb_mem := (usb_mem s)(b \<mapsto> m), usb_hw := hw\<rparr>)
    \<and> (\<forall>tr. hw tr (rDOEPINT 2) = 1) \<and> (\<forall>tr. hw tr (rDOEPTSIZ 2) = bulk_left (bulk_part sz t) (length bs))
    \<and> sz \<le> length m \<and> take (t + length bs) m = take (t + length bs) data"
proof -
  let ?w = "bulk_part sz t" and ?l = "length bs"
  have A: "bulk_armed (At b 0) sz t s" "t \<le> length data" "length data \<le> sz" using assms(1) by (simp_all add: bulk_at_def)
  obtain m where m: "usb_mem s b = Some m" "sz \<le> length m" "take t m = take t data" using assms(1) by (auto simp: bulk_at_def)
  have B: "bulk_ep (At b 0) sz t (eps s EP2_OUT)" "bulk_sizes sz t"
    "programmed (rDOEPDMA 2) (usb_trace s) = xfer_dma_phys (eps s EP2_OUT) + of_nat t"
    "programmed (rDOEPTSIZ 2) (usb_trace s) = push_bit 19 (of_nat (?w div 512)) OR of_nat ?w"
    using A(1) by (simp_all add: bulk_armed_def)
  note b = bulk_part_bounds [OF B(2)]
  have l: "?l \<le> ?w" "t + ?l \<le> length m" using assms(2) b(4) m(2) by auto
  have cnt: "drop_bit 19 (programmed (rDOEPTSIZ 2) (usb_trace s)) AND 0x3ff = of_nat (?w div 512)"
    and siz: "programmed (rDOEPTSIZ 2) (usb_trace s) AND 0x7ffff = of_nat ?w"
    unfolding B(4) by (rule count_field; use b(3) in simp)+
  have uw: "unat (of_nat ?w :: u32) = ?w" using b(3) by (simp add: of_nat_u32)
  have ut: "unat (of_nat t :: u32) = t" using B(2) by (simp add: bulk_sizes_def of_nat_u32)
  have off: "ptr_add (xfer_dma_data (eps s EP2_OUT)) (programmed (rDOEPDMA 2) (usb_trace s) - xfer_dma_phys (eps s EP2_OUT)) = At b t"
    using B(1) by (simp add: B(3) bulk_ep_def ut)
  let ?m = "take t m @ bs @ drop (t + ?l) m"
  let ?hw = "\<lambda>tr r. if r = rDOEPINT 2 then 1 else if r = rDOEPTSIZ 2 then bulk_left ?w ?l else usb_hw s tr r"
  have w: "mem_write (At b t) bs s = Inr (s\<lparr>usb_mem := (usb_mem s)(b \<mapsto> ?m)\<rparr>)"
    by (rule mem_write_ok [OF m(1) l(2)])
  have k: "bulk_packets ?w ?l \<le> ?w div 512" by (rule bulk_packets_le [OF b(1) l(1)])
  have reg: "push_bit 19 (of_nat (?w div 512) - of_nat (bulk_packets ?w ?l)) OR (of_nat ?w - of_nat ?l) = bulk_left ?w ?l"
    using k l(1) by (simp add: bulk_left_def of_nat_diff)
  have "hw_bulk bs s = Inr (s\<lparr>usb_mem := (usb_mem s)(b \<mapsto> ?m), usb_hw := ?hw\<rparr>)"
    using l(1) by (simp only: hw_bulk_def Let_def cnt siz uw off w bindE_simps bulk_packets_def [symmetric] reg) (simp cong: if_cong)
  moreover have "take (t + ?l) ?m = take (t + ?l) data"
  proof -
    have "bs = take ?l (drop t data)" using assms(2) by (metis append_eq_conv_conj append_take_drop_id)
    then have "take (t + ?l) data = take t data @ bs" by (simp add: take_add)
    moreover have "length (take t m) = t" using l(2) by simp
    ultimately show ?thesis using m(3) by simp
  qed
  ultimately show ?thesis using m(2) l(2) bulk_regs by (intro exI [of _ ?m] exI [of _ ?hw]) simp
qed

text \<open>The upload is over: what was sent lies at the front of the buffer, and the callback is due.\<close>

definition bulk_received :: "usb_obj \<Rightarrow> bytes \<Rightarrow> usb \<Rightarrow> bool" where
  "bulk_received b data s \<longleftrightarrow> in_flight (eps s EP2_OUT) = 0 \<and> transferred (eps s EP2_OUT) = of_nat (length data)
     \<and> (\<exists>m. usb_mem s b = Some m \<and> take (length data) m = data)"

lemma ep2_data_interrupt:
  assumes "fst (reg_read (rDOEPINT 2) s) = 1"
  shows "ep2_out_interrupt s =
    bindE (ep_out_recv_data_done EP2_OUT (reg_write (rDOEPINT 2) 1 (snd (reg_read (rDOEPINT 2) s)))) (\<lambda>(done, s).
      if done then ep2_out_done s else Inr s)"
proof -
  have b: "(1 :: u32) AND 0x1 = 1" "(1 :: u32) AND 0x8 = 0" "(1 :: u32) AND 0x4 = 0" by simp_all
  have un: "bindE x Inr = x" for x :: "error + 'a" by (cases x) simp_all
  show ?thesis
    using assms by (simp add: ep2_out_interrupt_def Let_def case_prod_beta BUG_if_def b bindE_assoc un)
qed

lemma bulk_round:
  assumes "bulk_at b sz t data s" and "bs = take (bulk_part sz t) (drop t data)"
  shows "\<exists>s1. hw_bulk bs s = Inr s1 \<and>
    (if sz \<le> t + length bs \<or> length bs < bulk_part sz t
     then \<exists>s2. ep2_out_interrupt s1 = ep2_out_done s2 \<and> bulk_received b data s2 \<and> bulk_frame b s s2
     else \<exists>s2. ep2_out_interrupt s1 = Inr s2 \<and> bulk_at b sz (t + bulk_part sz t) data s2 \<and> bulk_frame b s s2)"
proof -
  let ?w = "bulk_part sz t" and ?l = "length bs" and ?E = "eps s EP2_OUT"
  have A: "bulk_ep (At b 0) sz t ?E" "bulk_sizes sz t" "t \<le> length data" "length data \<le> sz"
    using assms(1) by (simp_all add: bulk_at_def bulk_armed_def)
  obtain m hw where hw: "hw_bulk bs s = Inr (s\<lparr>usb_mem := (usb_mem s)(b \<mapsto> m), usb_hw := hw\<rparr>)"
    "\<forall>tr. hw tr (rDOEPINT 2) = 1" "\<forall>tr. hw tr (rDOEPTSIZ 2) = bulk_left ?w ?l"
    "sz \<le> length m" "take (t + ?l) m = take (t + ?l) data" using hw_bulk_stored [OF assms] by blast
  define s1 where "s1 = s\<lparr>usb_mem := (usb_mem s)(b \<mapsto> m), usb_hw := hw\<rparr>"
  define s2 where "s2 = s1\<lparr>usb_trace := usb_trace s @ [Rd (rDOEPINT 2), Wr (rDOEPINT 2) 1]\<rparr>"
  have int1: "fst (reg_read (rDOEPINT 2) s1) = 1" using hw(2) by (simp add: reg_read_def s1_def)
  have enter: "reg_write (rDOEPINT 2) 1 (snd (reg_read (rDOEPINT 2) s1)) = s2"
    by (simp add: reg_write_def reg_read_def usb_log_def s1_def s2_def)
  have eps2: "eps s2 = eps s" by (simp add: s2_def s1_def)
  have tsiz: "fst (reg_read (rDOEPTSIZ 2) s2) = bulk_left ?w ?l" using hw(3) by (simp add: reg_read_def s2_def s1_def)
  have l: "?l \<le> ?w" using assms(2) by simp
  let ?F = "?E\<lparr>transferred := of_nat (t + ?l)\<rparr>"
  have ep2: "bulk_ep (At b 0) sz t (eps s2 EP2_OUT)" using A(1) by (simp add: eps2)
  obtain tr where dd: "ep_out_recv_data_done EP2_OUT s2 =
      (if sz \<le> t + ?l \<or> ?l < ?w then Inr (True, (set_ep EP2_OUT (?F\<lparr>in_flight := 0\<rparr>) s2)\<lparr>usb_trace := tr\<rparr>)
       else Inr (False, (set_ep EP2_OUT ?F s2)\<lparr>usb_trace := tr\<rparr>))"
    "\<not> (sz \<le> t + ?l \<or> ?l < ?w) \<longrightarrow> bulk_armed (At b 0) sz (t + ?l) ((set_ep EP2_OUT ?F s2)\<lparr>usb_trace := tr\<rparr>)"
    using bulk_data_done [OF ep2 A(2) l tsiz] unfolding eps2 Let_def by blast
  have frame: "bulk_frame b s ((set_ep EP2_OUT X s2)\<lparr>usb_trace := tr\<rparr>)" for X
    unfolding bulk_frame_def by (intro exI [of _ m] exI [of _ hw] exI [of _ tr] exI [of _ X]) (simp add: set_ep_def s2_def s1_def)
  have mem: "usb_mem ((set_ep EP2_OUT X s2)\<lparr>usb_trace := tr\<rparr>) b = Some m" for X by (simp add: set_ep_def s2_def s1_def)
  have int: "ep2_out_interrupt s1 = bindE (ep_out_recv_data_done EP2_OUT s2) (\<lambda>(done, s). if done then ep2_out_done s else Inr s)"
    using ep2_data_interrupt [OF int1] by (simp add: enter)
  show ?thesis
  proof (cases "sz \<le> t + ?l \<or> ?l < ?w")
    case True
    let ?s3 = "(set_ep EP2_OUT (?F\<lparr>in_flight := 0\<rparr>) s2)\<lparr>usb_trace := tr\<rparr>"
    have tl: "t + ?l = length data" using True A(3,4) assms(2) by (auto simp: min_def split: if_splits)
    have "bulk_received b data ?s3"
      unfolding bulk_received_def mem using hw(5) tl by (simp add: set_ep_def del: of_nat_add)
    moreover have "ep2_out_interrupt s1 = ep2_out_done ?s3" using int dd(1) True by simp
    ultimately show ?thesis using True hw(1) frame unfolding s1_def [symmetric] by (simp only: if_True) blast
  next
    case False
    then have lw: "?l = ?w" using l by simp
    let ?s3 = "(set_ep EP2_OUT ?F s2)\<lparr>usb_trace := tr\<rparr>"
    have "bulk_at b sz (t + ?w) data ?s3"
      unfolding bulk_at_def mem using dd(2) False hw(4,5) lw A(3,4) assms(2) by (auto simp: min_def split: if_splits)
    moreover have "ep2_out_interrupt s1 = Inr ?s3" using int dd(1) False by simp
    ultimately show ?thesis using False hw(1) frame unfolding s1_def [symmetric] by (simp only: if_False) blast
  qed
qed

definition uploaded :: "usb_obj \<Rightarrow> bytes \<Rightarrow> usb \<Rightarrow> bool" where
  "uploaded b data s \<longleftrightarrow> \<not> usbloader_is_waiting_xfer s \<and> loader_xfer_recv_count s = of_nat (length data)
     \<and> out_transfer_done s = None \<and> in_flight (eps s EP2_OUT) = 0 \<and> (\<exists>m. usb_mem s b = Some m \<and> take (length data) m = data)"

definition upload_waits :: "usb \<Rightarrow> bool" where
  "upload_waits s \<longleftrightarrow> out_transfer_done s = Some Usbloader_xfer_done_cb \<and> usbloader_is_waiting_xfer s"

lemma upload_waits_frame: "upload_waits s \<Longrightarrow> bulk_frame b s s' \<Longrightarrow> upload_waits s'"
  by (auto simp: upload_waits_def bulk_frame_def)

lemma ep2_done_uploaded:
  assumes "bulk_received b data s" and "upload_waits s"
  shows "\<exists>s'. ep2_out_done s = Inr s' \<and> uploaded b data s'"
  using assms
  by (auto simp: ep2_out_done_def upload_waits_def usbloader_xfer_done_cb_def bulk_received_def uploaded_def Let_def cache_invalidate_def
      usb_log_def)

lemma upload_received:
  assumes "bulk_at b sz t data s" and "upload_waits s" and "(length data - t) div 0x7fe00 < k"
  shows "\<exists>s'. upload k (drop t data) s = Inr s' \<and> uploaded b data s'"
  using assms
proof (induction k arbitrary: t s)
  case (Suc k)
  let ?w = "bulk_part sz t" and ?bs = "take (bulk_part sz t) (drop t data)"
  have A: "bulk_ep (At b 0) sz t (eps s EP2_OUT)" "bulk_sizes sz t" "t \<le> length data" "length data \<le> sz"
    "programmed (rDOEPTSIZ 2) (usb_trace s) = push_bit 19 (of_nat (?w div 512)) OR of_nat ?w"
    using Suc.prems(1) by (simp_all add: bulk_at_def bulk_armed_def)
  note w = bulk_part_bounds [OF A(2)]
  have "programmed (rDOEPTSIZ 2) (usb_trace s) AND 0x7ffff = of_nat ?w"
    unfolding A(5) by (rule count_field) (use w(3) in simp_all)
  then have n: "unat (programmed (rDOEPTSIZ 2) (usb_trace s) AND 0x7ffff) = ?w" using w(3) by (simp add: of_nat_u32)
  obtain s1 where s1: "hw_bulk ?bs s = Inr s1" and fin:
    "if sz \<le> t + length ?bs \<or> length ?bs < ?w
     then \<exists>s2. ep2_out_interrupt s1 = ep2_out_done s2 \<and> bulk_received b data s2 \<and> bulk_frame b s s2
     else \<exists>s2. ep2_out_interrupt s1 = Inr s2 \<and> bulk_at b sz (t + ?w) data s2 \<and> bulk_frame b s s2"
    using bulk_round [OF Suc.prems(1) refl] by blast
  show ?case
  proof (cases "sz \<le> t + length ?bs \<or> length ?bs < ?w")
    case True
    with fin obtain s2 where s2: "ep2_out_interrupt s1 = ep2_out_done s2" "bulk_received b data s2" "bulk_frame b s s2" by auto
    obtain s' where s': "ep2_out_done s2 = Inr s'" "uploaded b data s'"
      using ep2_done_uploaded [OF s2(2) upload_waits_frame [OF Suc.prems(2) s2(3)]] by blast
    then show ?thesis using s1 s2(1) by (simp add: Let_def n uploaded_def)
  next
    case False
    with fin obtain s2 where s2: "ep2_out_interrupt s1 = Inr s2" "bulk_at b sz (t + ?w) data s2" "bulk_frame b s s2" by auto
    have fl: "in_flight (eps s2 EP2_OUT) \<noteq> 0"
      using s2(2) by (simp add: bulk_at_def bulk_armed_def bulk_ep_def RECV_DATA_def)
    have lw: "length ?bs = ?w" "t + ?w < sz" using False by auto
    then have wide: "?w = 0x7fe00" "t + ?w \<le> length data" by (auto simp: bulk_part_def min_def split: if_splits)
    have "(length data - (t + ?w)) div 0x7fe00 < k"
    proof -
      have "length data - t = (length data - (t + ?w)) + 0x7fe00" using wide by simp
      then have "(length data - t) div 0x7fe00 = (length data - (t + ?w)) div 0x7fe00 + 1" by simp
      then show ?thesis using Suc.prems(3) by simp
    qed
    from Suc.IH [OF s2(2) upload_waits_frame [OF Suc.prems(2) s2(3)] this] obtain s' where
      "upload k (drop (t + ?w) data) s2 = Inr s'" "uploaded b data s'" by blast
    moreover have "drop ?w (drop t data) = drop (t + ?w) data" by (simp add: add.commute)
    ultimately show ?thesis using s1 s2(1) fl by (simp add: Let_def n)
  qed
qed simp

text \<open>The request that starts an upload.\<close>

definition upload_ready :: "usb_obj \<Rightarrow> nat \<Rightarrow> usb \<Rightarrow> bool" where
  "upload_ready b sz s \<longleftrightarrow> usb_conf s \<and> in_flight (eps s EP2_OUT) = 0 \<and> out_transfer_done s = None \<and> \<not> usbloader_is_waiting_xfer s
     \<and> loader_xfer_recv_data s = At b 0 \<and> loader_xfer_size s = of_nat sz \<and> bulk_sizes sz 0
     \<and> (\<exists>m. usb_mem s b = Some m \<and> sz \<le> length m)"

lemma upload_starts:
  assumes ready: "upload_ready b sz s" and len: "length data \<le> sz" and p: "bRequest p = 1" "wLength p = 0"
  shows "\<exists>s'. ep0_device_out p s = Inr (True, s') \<and> bulk_at b sz 0 data s' \<and> upload_waits s'"
proof -
  have R: "usb_conf s" "in_flight (eps s EP2_OUT) = 0" "out_transfer_done s = None" "\<not> usbloader_is_waiting_xfer s"
    "loader_xfer_recv_data s = At b 0" "loader_xfer_size s = of_nat sz" "bulk_sizes sz 0"
    using ready by (simp_all add: upload_ready_def)
  obtain m where m: "usb_mem s b = Some m" "sz \<le> length m" using ready by (auto simp: upload_ready_def)
  have st: "ep_n (eps s EP2_OUT) = 2" "ep_type (eps s EP2_OUT) = 2" "\<not> dir_in (eps s EP2_OUT)" "max_packet_size (eps s EP2_OUT) = 512"
    using usb_conf_ep(1) [OF R(1), of EP2_OUT] by (simp_all add: ep_static_def)
  have sz: "512 dvd sz" "0 < sz" "sz \<le> 0x8000000" using R(7) by (simp_all add: bulk_sizes_def)
  have usz: "unat (of_nat sz :: u32) = sz" using sz(3) by (simp add: of_nat_u32)
  have nz: "(of_nat sz :: u32) \<noteq> 0" using sz(2) usz by (metis less_numeral_extra(3) unat_0)
  have mps: "(of_nat sz :: u32) mod 512 = 0"
    using sz(1) by (intro word_unat_eq_iff [THEN iffD2]) (simp add: unat_mod_distrib usz mod_eq_0_iff_dvd)
  let ?s1 = "s\<lparr>loader_xfer_recv_count := 0, usbloader_is_waiting_xfer := True, out_transfer_done := Some Usbloader_xfer_done_cb\<rparr>"
  let ?E = "(eps s EP2_OUT)\<lparr>xfer_dma_data := At b 0, xfer_dma_size := of_nat sz,
      xfer_dma_phys := ucast (usb_vatophys s (At b 0)), transfer_data := At b 0, transfer_size := of_nat sz, transferred := 0,
      in_flight := RECV_DATA\<rparr>"
  let ?s2 = "set_ep EP2_OUT ?E ?s1"
  have E: "bulk_ep (At b 0) sz 0 (eps ?s2 EP2_OUT)" using st by (simp add: bulk_ep_def set_ep_def)
  obtain tr where tr: "ep_out_recv EP2_OUT ?s2 = Inr (?s2\<lparr>usb_trace := tr\<rparr>)" "bulk_armed (At b 0) sz 0 (?s2\<lparr>usb_trace := tr\<rparr>)"
    using bulk_arm [OF E R(7)] by blast
  have "ep0_device_out p s = bindE (ep_out_recv EP2_OUT ?s2) (\<lambda>s. Inr (True, s))"
    using p R st nz mps
    by (simp add: ep0_device_out_def loader_recv_def usb_out_transfer_dma_def lookup_endpoint_def BUG_if_def ep_out_recv_data_dma_def
        ep_out_recv_data_common_def Let_def set_ep_def)
  then have "ep0_device_out p s = Inr (True, ?s2\<lparr>usb_trace := tr\<rparr>)" using tr(1) by simp
  moreover have "bulk_at b sz 0 data (?s2\<lparr>usb_trace := tr\<rparr>)"
    using tr(2) len m by (simp add: bulk_at_def) (simp add: set_ep_def)
  moreover have "upload_waits (?s2\<lparr>usb_trace := tr\<rparr>)" by (simp add: upload_waits_def set_ep_def)
  ultimately show ?thesis by blast
qed

lemma upload_request:
  assumes ready: "upload_ready b sz s" and len: "length data \<le> sz" and p: "bRequest p = 1" "wLength p = 0"
    and k: "length data div 0x7fe00 < k"
  shows "\<exists>s1 s2. ep0_device_out p s = Inr (True, s1) \<and> upload k data s1 = Inr s2 \<and> uploaded b data s2"
proof -
  obtain s1 where s1: "ep0_device_out p s = Inr (True, s1)" "bulk_at b sz 0 data s1" "upload_waits s1"
    using upload_starts [OF ready len p] by blast
  have "(length data - 0) div 0x7fe00 < k" using k by simp
  from upload_received [OF s1(2,3) this] show ?thesis using s1(1) by simp
qed

text \<open>Resuming a large upload invalidates the cache from the new offset on, for the length of the whole buffer.\<close>

lemma bulk_resume_invalidates:
  assumes "bulk_at b sz t data s" and "t + 0x7fe00 < sz" and "t + 0x7fe00 \<le> length data"
  shows "\<exists>s1 s2 n. hw_bulk (take 0x7fe00 (drop t data)) s = Inr s1 \<and> ep2_out_interrupt s1 = Inr s2
    \<and> Inval (At b (t + 0x7fe00)) n \<in> set (usb_trace s2) \<and> unat n = sz"
proof -
  have w: "bulk_part sz t = 0x7fe00" using assms(2) by (simp add: bulk_part_def)
  have part: "\<not> (sz \<le> t + length (take 0x7fe00 (drop t data)) \<or> length (take 0x7fe00 (drop t data)) < 0x7fe00)"
    using assms(2,3) by simp
  obtain s1 s2 where s2: "hw_bulk (take 0x7fe00 (drop t data)) s = Inr s1" "ep2_out_interrupt s1 = Inr s2"
      "bulk_at b sz (t + 0x7fe00) data s2"
    using bulk_round [OF assms(1) refl] part unfolding w by auto
  have "Inval (ptr_add (At b 0) (of_nat (t + 0x7fe00))) (of_nat sz) \<in> set (usb_trace s2)" "sz \<le> 0x8000000"
    using s2(3) by (simp_all add: bulk_at_def bulk_armed_def bulk_sizes_def del: of_nat_add)
  moreover have "unat (of_nat n :: u32) = n" if "n \<le> 0x8000000" for n using that by (simp add: of_nat_u32)
  ultimately have "Inval (At b (t + 0x7fe00)) (of_nat sz) \<in> set (usb_trace s2)" "unat (of_nat sz :: u32) = sz"
    using assms(2) by (simp_all del: of_nat_add)
  with s2(1,2) show ?thesis by blast
qed

end
