(* ===== verification/UsbClaims.thy ===== *)
theory UsbClaims
  imports UsbBulk
begin

unbundle bit_operations_syntax

text \<open>
  What the USB device promises: the properties of its transfers, of the two byte channels and of the
  control endpoint, and what goes wrong when the host interrupts a control transfer.
\<close>

section \<open>A device at rest\<close>

definition sample_ep :: "ep_id \<Rightarrow> endpoint_state" where
  "sample_ep e = (case ep_conf e of (n, type, d, mps, off) \<Rightarrow>
     \<lparr>ep_type = type, ep_n = n, dir_in = d, max_packet_size = mps,
      default_xfer_dma_data = At DmaPage off, default_xfer_dma_size = DMA_BUFFER_SIZE, default_xfer_dma_phys = of_nat off,
      xfer_dma_data = At DmaPage off, xfer_dma_size = DMA_BUFFER_SIZE, xfer_dma_phys = of_nat off,
      transfer_data = Null, transfer_size = 0, transferred = 0, in_flight = 0\<rparr>)"

definition sample_setup :: "u8 \<Rightarrow> u8 \<Rightarrow> u16 \<Rightarrow> u16 \<Rightarrow> u16 \<Rightarrow> setup_packet" where
  "sample_setup t r v i l = \<lparr>bmRequestType = t, bRequest = r, wValue = v, wIndex = i, wLength = l\<rparr>"

definition sample_usb :: usb where
  "sample_usb =
     \<lparr>dis_int_count = 1, daif_unmasked = False, usb_hw = (\<lambda>_ _. 0), usb_trace = [],
      usb_mem = (\<lambda>b. map_option (\<lambda>n. replicate n 0) (obj_size b))(DeviceDescriptor \<mapsto> device_descriptor),
      eps = sample_ep, ep0_setup_packet = sample_setup 0x80 6 0x100 0 18, setup_packet_pending = False,
      data_out_stage_callback = None, status_out_stage_callback = None, in_transfer_done = None, out_transfer_done = None,
      ktrw_send_count = 0, ktrw_send_in_flight = 0, ktrw_recv_count = 0,
      loader_xfer_recv_data = Null, loader_xfer_recv_count = 0, loader_xfer_recv_size = 0, loader_xfer_size = 0,
      usbloader_is_waiting_xfer = False, should_wait_for_cmd_handler = False, command_in_progress = 0, handler_waits = 0,
      usb_io = ex_io, usb_vatophys = (\<lambda>_. 0), usb_fresh = (\<lambda>_ _. None), usb_allocs = 0, pongo_version = []\<rparr>"

lemma sample_conf:
  assumes "ep_conf e = (n, type, d, mps, off)"
  shows "sample_ep e = \<lparr>ep_type = type, ep_n = n, dir_in = d, max_packet_size = mps,
      default_xfer_dma_data = At DmaPage off, default_xfer_dma_size = DMA_BUFFER_SIZE, default_xfer_dma_phys = of_nat off,
      xfer_dma_data = At DmaPage off, xfer_dma_size = DMA_BUFFER_SIZE, xfer_dma_phys = of_nat off,
      transfer_data = Null, transfer_size = 0, transferred = 0, in_flight = 0\<rparr>"
  by (simp add: sample_ep_def assms)

lemma sample_ready: "usb_conf sample_usb" "ktrw_idle sample_usb" "in_idle (eps sample_usb EP0_IN)" "ep0_ready sample_usb"
proof -
  have st: "ep_static e (sample_ep e)" for e
    by (cases e) (simp_all add: sample_ep_def ep_static_def ep_default_dma_def)
  have mem: "mem_sizes (usb_mem sample_usb)"
    by (auto simp: mem_sizes_def sample_usb_def device_descriptor_def)
  show conf: "usb_conf sample_usb"
    using st mem by (simp add: usb_conf_def usb_mem_ok_def sample_usb_def dma_reset_def sample_ep_def loader_ptr_def)
  show "ktrw_idle sample_usb" "in_idle (eps sample_usb EP0_IN)" "ep0_ready sample_usb"
    using conf by (simp_all add: ktrw_idle_def ep0_ready_def in_idle_def sample_usb_def sample_ep_def)
qed

section \<open>Transfers\<close>

text \<open>C15 An IN transfer delivers its data: whatever the size, the controller is programmed in finitely many
  rounds, the packets it sends are the data in order and the host sees their end by a packet that is
  not full; afterwards the endpoint is idle and nothing but it, the DMA page and the registers has
  changed.\<close>

theorem usb_in_transfer_delivers:
  assumes "in_source e p data s" and "m = unat (max_packet_size (eps s e))" and "length data div m + 2 \<le> k"
  shows "\<exists>s1 bss s2. ep_in_send_data e p (of_nat (length data)) s = Inr s1 \<and> in_xfer k e s1 = Inr (bss, s2)
    \<and> host_read m (concat (map (packets m) bss)) = Some (data, []) \<and> in_idle (eps s2 e) \<and> elsewhere e s s2"
  by (rule in_source_delivers [OF assms])

theorem usb_in_transfer_delivers_witness:
  "\<exists>s1 bss s2. ep_in_send_data EP1_IN (At DeviceDescriptor 0) 18 sample_usb = Inr s1 \<and> in_xfer 2 EP1_IN s1 = Inr (bss, s2)
    \<and> host_read 1024 (concat (map (packets 1024) bss)) = Some (device_descriptor, [])"
proof -
  have len: "length device_descriptor = 18" by (simp add: device_descriptor_def)
  have "in_source EP1_IN (At DeviceDescriptor 0) device_descriptor sample_usb"
    by (simp add: in_source_def Let_def sample_usb_def sample_ep_def in_idle_def ep_sizes_def reset_dma_def mem_read_def chunk_def len
        DMA_BUFFER_SIZE_def)
  moreover have "(1024 :: nat) = unat (max_packet_size (eps sample_usb EP1_IN))" by (simp add: sample_usb_def sample_ep_def)
  moreover have "length device_descriptor div 1024 + 2 \<le> 2" by (simp add: len)
  ultimately show ?thesis using usb_in_transfer_delivers [of EP1_IN "At DeviceDescriptor 0" device_descriptor sample_usb 1024 2]
    by (auto simp: len)
qed

text \<open>C17 The configuration of the endpoints is never lost: after the driver is brought up and the controller is
  reset, whatever the host and the hardware do and whichever calls the kernel makes, every endpoint
  keeps its number, type, direction, packet size and DMA buffer, endpoint 0 receives into its own
  buffer, the static buffers keep their sizes and the counters of the KTRW channel stay within them.\<close>

theorem usb_endpoints_typed:
  assumes "usb_run s"
  shows "usb_conf s"
  by (rule usb_run_conf [OF assms])

lemma quiet_abort:
  assumes "usb_hw s = (\<lambda>_ _. 0)"
  shows "\<exists>tr. ep_in_abort k e s = Inr (s\<lparr>eps := (eps s)(e := ep_cleared (eps s e)), usb_trace := tr\<rparr>)"
  using assms by (simp add: ep_in_abort_def Let_def ep_clear_def set_ep_def ep_cleared_def reg_defs) (rule exI, rule refl)

lemma log_fields:
  "eps (reg_write r v s) = eps s" "eps (reg_or r v s) = eps s" "eps (reg_and r v s) = eps s" "eps (snd (reg_read r s)) = eps s"
  "eps (cache_clean_and_invalidate p n s) = eps s"
  "usb_hw (reg_write r v s) = usb_hw s" "usb_hw (reg_or r v s) = usb_hw s" "usb_hw (reg_and r v s) = usb_hw s"
  "usb_hw (snd (reg_read r s)) = usb_hw s" "usb_hw (cache_clean_and_invalidate p n s) = usb_hw s"
  "dis_int_count (reg_write r v s) = dis_int_count s" "dis_int_count (reg_or r v s) = dis_int_count s"
  "dis_int_count (reg_and r v s) = dis_int_count s" "dis_int_count (snd (reg_read r s)) = dis_int_count s"
  "dis_int_count (cache_clean_and_invalidate p n s) = dis_int_count s"
  by (simp_all add: reg_defs)

lemma activate_fields:
  "eps (ep_in_activate e n type mps f s) = (eps s)(e := ep_activate_state n True type mps (eps s e))"
  "eps (ep_out_activate e n type mps s) = (eps s)(e := ep_activate_state n False type mps (eps s e))"
  "usb_hw (ep_in_activate e n type mps f s) = usb_hw s" "usb_hw (ep_out_activate e n type mps s) = usb_hw s"
  "dis_int_count (ep_in_activate e n type mps f s) = dis_int_count s" "dis_int_count (ep_out_activate e n type mps s) = dis_int_count s"
  "eps (usb_set_address a s) = eps s"
  by (simp_all add: ep_in_activate_def ep_out_activate_def Let_def log_fields set_ep_def usb_set_address_def case_prod_beta)

lemma default_dma_fields:
  "usb_hw (set_default_dma e k p s) = usb_hw s" "dis_int_count (set_default_dma e k p s) = dis_int_count s"
  "in_flight (eps (set_default_dma e k p s) e') = in_flight (eps s e')"
  by (simp_all add: set_default_dma_def set_ep_def)

lemma quiet_reset:
  assumes hw: "usb_hw s1 = (\<lambda>_ _. 0)" and free: "in_flight (eps s1 EP0_OUT) = 0"
    and size: "default_xfer_dma_size (eps s1 EP0_OUT) = 0x1000"
  shows "\<exists>s2. usb_reset 0 s1 = Inr s2"
proof -
  obtain t1 where t1: "ep_in_abort 0 EP0_IN s1 = Inr (s1\<lparr>eps := (eps s1)(EP0_IN := ep_cleared (eps s1 EP0_IN)), usb_trace := t1\<rparr>)"
    using quiet_abort [OF hw] by blast
  let ?s1 = "s1\<lparr>eps := (eps s1)(EP0_IN := ep_cleared (eps s1 EP0_IN)), usb_trace := t1\<rparr>"
  have h1: "usb_hw ?s1 = (\<lambda>_ _. 0)" using hw by simp
  obtain t2 where t2: "ep_in_abort 0 EP1_IN ?s1 = Inr (?s1\<lparr>eps := (eps ?s1)(EP1_IN := ep_cleared (eps ?s1 EP1_IN)), usb_trace := t2\<rparr>)"
    using quiet_abort [OF h1, where k = 0 and e = EP1_IN] by blast
  let ?s2 = "?s1\<lparr>eps := (eps ?s1)(EP1_IN := ep_cleared (eps ?s1 EP1_IN)), usb_trace := t2\<rparr>"
  have h2: "usb_hw ?s2 = (\<lambda>_ _. 0)" using hw by simp
  obtain t3 where t3: "ep_in_abort 0 EP2_OUT ?s2 = Inr (?s2\<lparr>eps := (eps ?s2)(EP2_OUT := ep_cleared (eps ?s2 EP2_OUT)), usb_trace := t3\<rparr>)"
    using quiet_abort [OF h2, where k = 0 and e = EP2_OUT] by blast
  let ?s3 = "?s2\<lparr>eps := (eps ?s2)(EP2_OUT := ep_cleared (eps ?s2 EP2_OUT)), usb_trace := t3\<rparr>"
  have armed: "\<exists>t. ep_out_recv EP0_OUT x = Inr t" if "eps x EP0_OUT = ep_activate_state 0 False 0 EP0_MAX_PACKET_SIZE (eps s1 EP0_OUT)" for x
    using that free size
    by (simp add: ep_out_recv_def BUG_if_def Let_def ep_activate_state_def reset_dma_def RECV_DATA_def
        ep_out_recv_compute_xfer_def EP0_MAX_PACKET_SIZE_def)
  show ?thesis
    unfolding usb_reset_def t1 t2 t3 bindE_simps Let_def
    by (rule armed) (simp add: activate_fields log_fields)
qed

lemma sample_run: "\<exists>s. usb_run s"
proof -
  have stat: "usb_statics sample_usb"
  proof -
    have "mem_sizes ((usb_mem sample_usb)(DmaPage \<mapsto> replicate 0x4000 0))"
      using sample_ready(1) by (intro mem_sizes_upd) (simp_all add: usb_conf_def usb_mem_ok_def)
    then show ?thesis using sample_ready(1) by (simp add: usb_statics_def usb_conf_def usb_mem_ok_def)
  qed
  have "\<exists>s1. usb_init_state 0 sample_usb = Inr s1 \<and> usb_hw s1 = (\<lambda>_ _. 0) \<and> in_flight (eps s1 EP0_OUT) = 0"
  proof -
    have "dis_int_count sample_usb = 1" "usb_hw sample_usb = (\<lambda>_ _. 0)" "in_flight (eps sample_usb EP0_OUT) = 0"
      by (simp_all add: sample_usb_def sample_ep_def)
    then show ?thesis
      by (simp add: usb_init_state_def Let_def enable_interrupts_def disable_interrupts_def log_fields case_prod_beta
          activate_fields default_dma_fields ep_activate_state_def reset_dma_def)
  qed
  then obtain s1 where s1: "usb_init_state 0 sample_usb = Inr s1" "usb_hw s1 = (\<lambda>_ _. 0)" "in_flight (eps s1 EP0_OUT) = 0" by blast
  have pre: "usb_pre s1" by (rule usb_init_pre [OF s1(1) stat])
  have "default_xfer_dma_size (eps s1 EP0_OUT) = 0x1000"
    using pre by (auto simp: usb_pre_def ep_default_dma_def DMA_BUFFER_SIZE_def dest: spec [of _ EP0_OUT])
  from quiet_reset [OF s1(2,3) this]
  obtain s2 where "usb_reset 0 s1 = Inr s2" by blast
  with usb_run.start [OF stat s1(1)] show ?thesis by blast
qed

theorem usb_endpoints_typed_witness: "\<exists>s. usb_run s \<and> (\<forall>e. ep_static e (eps s e))"
proof -
  obtain s where "usb_run s" using sample_run by blast
  with usb_endpoints_typed [OF this] show ?thesis by (auto simp: usb_conf_def)
qed

section \<open>The byte channels\<close>

text \<open>C18 What the host sends to the KTRW channel arrives once, in order and after what was already there: a
  vendor request with up to as much data as there is room for is accepted, its packets are appended
  to the receive queue, \<open>usb_read\<close> takes bytes from the front of the queue and keeps the rest, and
  reading in pieces of any size until the queue is empty gives all of it.\<close>

theorem ktrw_from_host:
  assumes "ep0_ready s" and "stage_packet 0x40 0x41 0x1337 (ep0_setup_packet s) (length data)"
    and "0 < length data" and "length (ktrw_rx s) + length data \<le> 4096" and "0 < n"
  shows "\<exists>s1 s2 s3 s4. bindE (ep0_process_setup s) (ep_out_recv EP0_OUT) = Inr s1 \<and> out_stage (packets 64 data) s1 = Inr s2
    \<and> usb_read n s2 = Inr (take (unat n) (ktrw_rx s @ data), s3) \<and> ktrw_rx s3 = drop (unat n) (ktrw_rx s @ data)
    \<and> drain_of ktrw_rx (usb_read n) 4096 s2 = Inr (ktrw_rx s @ data, s4) \<and> ktrw_rx s4 = []"
proof -
  obtain s1 s2 where 1: "bindE (ep0_process_setup s) (ep_out_recv EP0_OUT) = Inr s1" "out_stage (packets 64 data) s1 = Inr s2"
    "ktrw_rx s2 = ktrw_rx s @ data" "usb_conf s2" using ktrw_request [OF assms(1-4)] by (elim exE conjE)
  have "0 < unat n" "length (ktrw_rx s2) \<le> 4096" using assms(4,5) 1(3) by (simp_all add: word_less_nat_alt)
  then obtain s4 where "drain_of ktrw_rx (usb_read n) 4096 s2 = Inr (ktrw_rx s2, s4)" "ktrw_rx s4 = []"
    using ktrw_in.drained [OF 1(4)] by blast
  with usb_read_takes [OF 1(4), of n] 1 show ?thesis by auto
qed

text \<open>A device that has just received a setup packet.\<close>

definition requested :: "setup_packet \<Rightarrow> usb" where "requested p = sample_usb\<lparr>ep0_setup_packet := p\<rparr>"

lemma requested_ready: "ep0_ready (requested p)" "ktrw_rx (requested p) = []" "usb_io (requested p) = ex_io"
  using sample_ready(4) by (simp_all add: requested_def ep0_ready_def usb_conf_def usb_mem_ok_def ktrw_rx_def sample_usb_def)

theorem ktrw_from_host_witness:
  "\<exists>s1 s2 s3. bindE (ep0_process_setup (requested (sample_setup 0x40 0x41 0 0x1337 3))) (ep_out_recv EP0_OUT) = Inr s1
    \<and> out_stage (packets 64 [7, 8, 9]) s1 = Inr s2 \<and> usb_read 2 s2 = Inr ([7, 8], s3) \<and> ktrw_rx s3 = [9]
    \<and> (\<exists>s4. drain_of ktrw_rx (usb_read 2) 4096 s2 = Inr ([7, 8, 9], s4) \<and> ktrw_rx s4 = [])"
proof -
  let ?s = "requested (sample_setup 0x40 0x41 0 0x1337 3)"
  have "stage_packet 0x40 0x41 0x1337 (ep0_setup_packet ?s) (length [7, 8, 9 :: u8])"
    by (simp add: stage_packet_def requested_def sample_setup_def)
  from ktrw_from_host [OF requested_ready(1) this, where n = 2] show ?thesis by (simp add: requested_ready(2))
qed

text \<open>C19 What the kernel writes to the KTRW channel reaches the host, and what it writes while a transfer is
  under way follows in the next one: the first \<open>usb_write\<close> and \<open>usb_write_commit\<close> start a transfer of
  its bytes, the second write only queues, and when the first transfer is done the queued bytes are
  moved to the front and sent, each transfer ending where the host can see it.\<close>

theorem ktrw_to_host:
  assumes "ktrw_idle s" and "ktrw_send_count s = 0" and "a \<noteq> []" and "b \<noteq> []" and "length a + length b \<le> 4096"
  shows "\<exists>s1 s2 s3 bss s4 s5 bss' s6. usb_write a (of_nat (length a)) s = Inr (of_nat (length a), s1) \<and> usb_write_commit s1 = Inr s2
    \<and> usb_write b (of_nat (length b)) s2 = Inr (of_nat (length b), s3)
    \<and> in_xfer 6 EP1_IN s3 = Inr (bss, s4) \<and> host_read 1024 (concat (map (packets 1024) bss)) = Some (a, [])
    \<and> ktrw_send_done (s4\<lparr>in_transfer_done := None\<rparr>) = Inr s5
    \<and> in_xfer 6 EP1_IN s5 = Inr (bss', s6) \<and> host_read 1024 (concat (map (packets 1024) bss')) = Some (b, [])"
  by (rule ktrw_two_writes [OF assms])

theorem ktrw_to_host_witness:
  "\<exists>s1 s2 s3 bss s4 s5 bss' s6. usb_write [1, 2] 2 sample_usb = Inr (2, s1) \<and> usb_write_commit s1 = Inr s2
    \<and> usb_write [3] 1 s2 = Inr (1, s3) \<and> in_xfer 6 EP1_IN s3 = Inr (bss, s4)
    \<and> host_read 1024 (concat (map (packets 1024) bss)) = Some ([1, 2], []) \<and> ktrw_send_done (s4\<lparr>in_transfer_done := None\<rparr>) = Inr s5
    \<and> in_xfer 6 EP1_IN s5 = Inr (bss', s6) \<and> host_read 1024 (concat (map (packets 1024) bss')) = Some ([3], [])"
proof -
  have "ktrw_send_count sample_usb = 0" by (simp add: sample_usb_def)
  from ktrw_to_host [OF sample_ready(2) this, of "[1, 2]" "[3]"] show ?thesis by (simp only: list.size) simp
qed

text \<open>A line that the host sends with the class request 3 is typed: with room in the line buffer all its
  characters are appended to what was typed before, line ends as the serial line gives them, and the
  request completes.\<close>

theorem usb_stdin_typed:
  assumes "ep0_ready s" and "stage_packet 0x21 3 index (ep0_setup_packet s) (length data)"
    and "0 < length data" and "length data \<le> 512" and "0 \<notin> set data" and "0x7f \<notin> set data"
    and "length (stdin_buf (usb_io s)) + length (crlf data) \<le> STDIN_BUFLEN"
  shows "\<exists>s1 s2. bindE (ep0_process_setup s) (ep_out_recv EP0_OUT) = Inr s1 \<and> out_stage (packets 64 data) s1 = Inr s2
    \<and> stdin_buf (usb_io s2) = stdin_buf (usb_io s) @ crlf data"
  by (rule stdin_request [OF assms])

theorem usb_stdin_typed_witness:
  "\<exists>s1 s2. bindE (ep0_process_setup (requested (sample_setup 0x21 3 0 0 3))) (ep_out_recv EP0_OUT) = Inr s1
    \<and> out_stage (packets 64 [0x67, 0x6f, 10]) s1 = Inr s2
    \<and> stdin_buf (usb_io s2) = stdin_buf ex_io @ crlf [0x67, 0x6f, 10]"
proof -
  let ?s = "requested (sample_setup 0x21 3 0 0 3)"
  have "stage_packet 0x21 3 0 (ep0_setup_packet ?s) (length [0x67, 0x6f, 10 :: u8])"
    by (simp add: stage_packet_def requested_def sample_setup_def)
  from usb_stdin_typed [OF requested_ready(1) this] show ?thesis
    by (simp add: requested_ready(3) ex_io_def crlf_def STDIN_BUFLEN_def)
qed

text \<open>C16 An upload arrives: when the loader is idle the request is accepted, and up to the announced size all
  that the host sends lies at the front of the loader's buffer, however many times the controller has
  to be programmed and wherever the host stops, a whole number of packets included; the count is the
  number of bytes sent, and the loader is idle again.\<close>

theorem upload_delivers:
  assumes "upload_ready b sz s" and "length data \<le> sz" and "bRequest p = 1" and "wLength p = 0" and "length data div 0x7fe00 < k"
  shows "\<exists>s1 s2 m. ep0_device_out p s = Inr (True, s1) \<and> upload k data s1 = Inr s2
    \<and> usb_mem s2 b = Some m \<and> take (length data) m = data \<and> loader_xfer_recv_count s2 = of_nat (length data)
    \<and> \<not> usbloader_is_waiting_xfer s2 \<and> out_transfer_done s2 = None"
  using upload_request [OF assms] unfolding uploaded_def by blast

definition loading :: "nat \<Rightarrow> usb" where
  "loading n = sample_usb\<lparr>usb_mem := (usb_mem sample_usb)(LoaderXfer 0 \<mapsto> replicate n 0),
     loader_xfer_recv_data := At (LoaderXfer 0) 0, loader_xfer_size := of_nat n, loader_xfer_recv_size := of_nat n\<rparr>"

lemma loading_ready:
  assumes "bulk_sizes n 0"
  shows "upload_ready (LoaderXfer 0) n (loading n)"
proof -
  have "mem_sizes ((usb_mem sample_usb)(LoaderXfer 0 \<mapsto> replicate n 0))"
    using sample_ready(1) by (intro mem_sizes_upd) (simp_all add: usb_conf_def usb_mem_ok_def)
  then have "usb_conf (loading n)"
    using sample_ready(1) by (simp add: loading_def usb_conf_def usb_mem_ok_def loader_ptr_def)
  then show ?thesis using assms by (simp add: upload_ready_def loading_def) (simp add: sample_usb_def sample_ep_def)
qed

theorem upload_delivers_witness:
  "\<exists>s1 s2 m. ep0_device_out (sample_setup 0x21 1 0 0 0) (loading 1024) = Inr (True, s1) \<and> upload 1 (replicate 512 7) s1 = Inr s2
    \<and> usb_mem s2 (LoaderXfer 0) = Some m \<and> take 512 m = replicate 512 7 \<and> loader_xfer_recv_count s2 = 512"
proof -
  have "bulk_sizes 1024 0" by (simp add: bulk_sizes_def)
  from upload_delivers [OF loading_ready [OF this], of "replicate 512 7" "sample_setup 0x21 1 0 0 0" 1] show ?thesis
    by (simp add: sample_setup_def) blast
qed

text \<open>C29 A large upload invalidates the data cache behind the loader's buffer. When the controller is
  programmed for the second time, after the host has sent 0x7fe00 bytes of an upload announced with
  more (\<open>upload_ready\<close>: the loader is idle, the size a multiple of 512 up to 128 MiB), \<open>ep_out_recv\<close>
  invalidates as many bytes as the whole
  upload was announced with, from the place reached. The range leaves the buffer if that is less than
  0x7fe00 bytes larger than the announced size: always when \<open>resize_loader_xfer_data\<close> allocated it
  for this upload, and in the initial buffer of 1 MiB for announced sizes above 0x80200 bytes (the
  initial size of 1 MiB itself is one). What other code wrote behind the buffer and was not yet in
  memory is lost.\<close>

theorem large_upload_invalidates_past_buffer:
  assumes "upload_ready b sz s" and "usb_mem s b = Some m" and "length m < sz + 0x7fe00" and "bRequest p = 1" and "wLength p = 0"
    and "0x7fe00 < sz" and "0x7fe00 \<le> length data" and "length data \<le> sz"
  shows "\<exists>s1 s2 s3 n. ep0_device_out p s = Inr (True, s1) \<and> hw_bulk (take 0x7fe00 data) s1 = Inr s2 \<and> ep2_out_interrupt s2 = Inr s3
    \<and> Inval (At b 0x7fe00) n \<in> set (usb_trace s3) \<and> unat n = sz \<and> length m < 0x7fe00 + unat n"
proof -
  obtain s1 where s1: "ep0_device_out p s = Inr (True, s1)" "bulk_at b sz 0 data s1"
    using upload_starts [OF assms(1,8,4,5)] by blast
  have "0 + 0x7fe00 < sz" "0 + 0x7fe00 \<le> length data" using assms(6,7) by simp_all
  from bulk_resume_invalidates [OF s1(2) this] obtain s2 s3 n where r: "hw_bulk (take 0x7fe00 data) s1 = Inr s2"
      "ep2_out_interrupt s2 = Inr s3" "Inval (At b 0x7fe00) n \<in> set (usb_trace s3)" "unat n = sz" by auto
  moreover have "length m < 0x7fe00 + unat n" using assms(3) r(4) by simp
  ultimately show ?thesis using s1(1) by blast
qed

theorem large_upload_invalidates_past_buffer_witness:
  "\<exists>s1 s2 s3 n. ep0_device_out (sample_setup 0x21 1 0 0 0) (loading 0x100000) = Inr (True, s1)
    \<and> hw_bulk (take 0x7fe00 (replicate 0x80000 7)) s1 = Inr s2 \<and> ep2_out_interrupt s2 = Inr s3
    \<and> Inval (At (LoaderXfer 0) 0x7fe00) n \<in> set (usb_trace s3) \<and> unat n = 0x100000
    \<and> length (replicate 0x100000 (0 :: u8)) < 0x7fe00 + unat n"
proof (rule large_upload_invalidates_past_buffer)
  show "upload_ready (LoaderXfer 0) 0x100000 (loading 0x100000)" by (rule loading_ready) (simp add: bulk_sizes_def)
  show "usb_mem (loading 0x100000) (LoaderXfer 0) = Some (replicate 0x100000 0)" by (simp add: loading_def)
qed (simp_all add: sample_setup_def)

section \<open>Interrupted transfers\<close>

lemma reset_keeps_flight:
  assumes "usb_reset k s = Inr s'"
  shows "in_flight (eps s' EP0_OUT) = in_flight (eps s EP0_OUT)" "in_flight (eps s' EP1_IN) = 0" "in_flight (eps s' EP2_OUT) = 0"
    "usbloader_is_waiting_xfer s' = usbloader_is_waiting_xfer s" "out_transfer_done s' = out_transfer_done s"
    "in_transfer_done s' = in_transfer_done s" "ktrw_send_in_flight s' = ktrw_send_in_flight s"
  using usb_reset_state [OF assms]
  by (auto simp: ep_out_recv_def BUG_if_def panic_if_def Let_def reg_defs set_ep_def reset_eps_def ep_activate_state_def reset_dma_def
      ep_cleared_def split: if_splits)

text \<open>A setup packet in the middle of a control transfer's data stage, which the host may send at any time,
  stops the device: \<open>ep_out_recv_setup_done\<close> panics because a data transfer is under way. A reset of
  the bus does not end the data stage, so the panic comes after a reset as well.\<close>

theorem setup_during_data_stage_panics:
  assumes "in_flight (eps s EP0_OUT) = RECV_DATA" and "s' = s \<or> usb_reset k s = Inr s'"
    and "usb_hw s' (usb_trace s') (rDOEPINT 0) AND 0x8008 \<noteq> 0"
  shows "ep0_out_interrupt s' = Inl (Panic ''USB BUG: 0x726563762033'')"
proof -
  have "in_flight (eps s' EP0_OUT) = RECV_DATA" using assms(1,2) reset_keeps_flight(1) by auto
  then show ?thesis
    using assms(3) by (simp add: ep0_out_interrupt_def reg_defs Let_def ep0_take_setup_def ep_out_recv_setup_done_def BUG_if_def panic_if_def)
qed

definition receiving :: usb where
  "receiving = set_ep EP0_OUT ((sample_ep EP0_OUT)\<lparr>transfer_size := 64, in_flight := RECV_DATA\<rparr>)
     (sample_usb\<lparr>usb_hw := (\<lambda>_ r. if r = rDOEPINT 0 then 0x2008 else 0)\<rparr>)"

theorem setup_during_data_stage_panics_witness:
  "ep0_out_interrupt receiving = Inl (Panic ''USB BUG: 0x726563762033'')"
  by (rule setup_during_data_stage_panics [of receiving receiving 0]) (simp_all add: receiving_def set_ep_def)

text \<open>A control request that reaches the device before the answer to the previous one has been taken stops
  it as well, whether it asks for a descriptor or needs no data: the endpoint is still busy when
  \<open>ep_in_send_data\<close> is called.\<close>

theorem request_before_answer_panics:
  assumes "usb_conf s" and "dis_int_count s = 1" and "\<not> in_idle (eps s EP0_IN)" and "p = ep0_setup_packet s"
    and "bmRequestType p = 0x80 \<and> bRequest p = 6 \<and> wValue p = 0x100 \<and> ucast (wLength p) \<le> DMA_BUFFER_SIZE
      \<or> bmRequestType p = 0 \<and> bRequest p = 5 \<and> wLength p = 0"
  shows "ep0_process_setup s = Inl (Panic ''USB BUG: 0x73656e642034'')"
proof -
  have conf: "usb_conf (serving s)" using assms(1) by (simp add: serving_def usb_conf_cb)
  have busy: "ep_in_send_data EP0_IN q n t = Inl (Panic ''USB BUG: 0x73656e642034'')" if "eps t EP0_IN = eps s EP0_IN" for q n t
    using that assms(3) by (auto simp: ep_in_send_data_def BUG_if_def panic_if_def in_idle_def Let_def)
  have en: "enable_interrupts (s\<lparr>setup_packet_pending := False\<rparr>) = Inr (serving s)"
    using assms(2) by (simp add: enable_interrupts_def Let_def serving_def)
  show ?thesis
  proof (cases "bRequest p = 6")
    case True
    then have P: "bmRequestType p = 0x80" "wValue p = 0x100" "ucast (wLength p) \<le> DMA_BUFFER_SIZE" using assms(5) by auto
    define n :: u32 where "n = (if (18 :: u32) > ucast (wLength (ep0_setup_packet s)) then ucast (wLength (ep0_setup_packet s)) else 18)"
    obtain dd where dd: "usb_mem s DeviceDescriptor = Some dd" "length dd = 18"
      using usb_conf_obj [OF assms(1), of DeviceDescriptor] by auto
    obtain pg where pg: "usb_mem s DmaPage = Some pg" "length pg = 0x4000" using usb_conf_obj [OF assms(1), of DmaPage] by auto
    have E: "default_xfer_dma_data (eps s EP0_IN) = At DmaPage 0x1000" "default_xfer_dma_size (eps s EP0_IN) = 0x1000"
      using usb_conf_ep(1) [OF assms(1), of EP0_IN] by (simp_all add: ep_static_def ep_default_dma_def DMA_BUFFER_SIZE_def)
    have n: "unat n \<le> 18" by (auto simp: n_def word_less_nat_alt)
    let ?t = "(serving s)\<lparr>status_out_stage_callback := None\<rparr>"
    have rd: "mem_read (At DeviceDescriptor 0) (unat n) ?t = Inr (take (unat n) dd)"
      using dd n by (simp add: mem_read_def chunk_def serving_def)
    have wr: "mem_write (At DmaPage 0x1000) (take (unat n) dd) ?t = Inr (?t\<lparr>usb_mem := (usb_mem ?t)(DmaPage \<mapsto>
        take 0x1000 pg @ take (unat n) dd @ drop (0x1000 + length (take (unat n) dd)) pg)\<rparr>)"
      by (rule mem_write_ok) (use pg dd n in \<open>simp_all add: serving_def\<close>)
    have small: "\<not> n > 0x1000" by (auto simp: n_def word_less_nat_alt)
    have "ep0_begin_data_in_stage (At DeviceDescriptor 0) 18 None (serving s) = Inl (Panic ''USB BUG: 0x73656e642034'')"
      using rd wr small E
      by (simp add: ep0_begin_data_in_stage_def Let_def serving_def BUG_if_def mem_copy_def busy flip: n_def)
    then have "ep0_setup_stage p (s\<lparr>setup_packet_pending := False\<rparr>) = Inl (Panic ''USB BUG: 0x73656e642034'')"
      using P True by (simp add: ep0_setup_stage_def Let_def en ep0_standard_request_def ep0_standard_in_request_def ep0_get_descriptor_request_def)
    then show ?thesis using P(3) assms(4) by (simp add: ep0_process_setup_def Let_def)
  next
    case False
    then have P: "bmRequestType p = 0" "bRequest p = 5" "wLength p = 0" using assms(5) by auto
    let ?u = "usb_set_address (ucast (wValue p AND 0x7f)) (serving s)"
    have st: "ep0_setup_stage p (s\<lparr>setup_packet_pending := False\<rparr>) = bindE (disable_interrupts ?u) (\<lambda>s. Inr (True, s))"
      using P by (simp add: ep0_setup_stage_def Let_def en ep0_standard_request_def ep0_standard_out_request_def)
    have "disable_interrupts ?u = Inr (?u\<lparr>daif_unmasked := False, dis_int_count := 1\<rparr>)"
      by (simp add: disable_interrupts_def Let_def usb_set_address_def reg_defs serving_def)
    moreover have "ep0_setup_packet ?u = p" "eps ?u = eps s"
      by (simp_all add: usb_set_address_def reg_defs serving_def assms(4))
    ultimately show ?thesis using st P assms(4) by (simp add: ep0_process_setup_def Let_def busy)
  qed
qed

definition answering :: usb where
  "answering = set_ep EP0_IN ((sample_ep EP0_IN)\<lparr>transfer_size := 18, in_flight := 18\<rparr>) sample_usb"

theorem request_before_answer_panics_witness:
  "ep0_process_setup answering = Inl (Panic ''USB BUG: 0x73656e642034'')"
proof (rule request_before_answer_panics)
  have "ep_static EP0_IN ((sample_ep EP0_IN)\<lparr>transfer_size := 18, in_flight := 18\<rparr>)"
    by (simp add: sample_ep_def ep_static_def ep_default_dma_def)
  then show "usb_conf answering"
    using sample_ready(1) by (simp add: answering_def set_ep_def usb_conf_def usb_mem_ok_def)
  show "dis_int_count answering = 1" "\<not> in_idle (eps answering EP0_IN)"
    by (simp_all add: answering_def set_ep_def sample_usb_def in_idle_def)
  let ?p = "ep0_setup_packet answering"
  show "?p = ep0_setup_packet answering" ..
  have "?p = sample_setup 0x80 6 0x100 0 18" by (simp add: answering_def set_ep_def sample_usb_def)
  then show "bmRequestType ?p = 0x80 \<and> bRequest ?p = 6 \<and> wValue ?p = 0x100 \<and> ucast (wLength ?p) \<le> DMA_BUFFER_SIZE
      \<or> bmRequestType ?p = 0 \<and> bRequest ?p = 5 \<and> wLength ?p = 0"
    by (simp add: sample_setup_def DMA_BUFFER_SIZE_def)
qed

text \<open>A host that announces an upload of no bytes stops the device, and so does one that announces more than
  4 GiB less 512: the size is rounded up to a packet with wrap-around, passes the limit as 0, and the
  transfer that is started with it is refused by \<open>ep_out_recv_data_dma\<close>.\<close>

theorem empty_upload_panics:
  assumes "mem_read data 4 s = Inr bs" and "le_val bs = (0 :: u32) \<or> le_val bs > (0xfffffe00 :: u32)"
    and "out_transfer_done s = None" and "dis_int_count s + 1 \<noteq> 0"
  shows "call_data_out Reallocate_loader_xfer_data data 4 s = Inl (Panic ''USB BUG: 0x73656e642035'')"
proof -
  let ?v = "le_val bs :: u32"
  have m: "(0x1ff :: u32) = mask 9" by (simp add: mask_eq_exp_minus_1)
  have "unat ?v = 0 \<or> 4294966784 < unat ?v" using assms(2) by (auto simp: word_less_nat_alt)
  moreover have "unat ?v < 4294967296" using unsigned_less [of ?v] by simp
  ultimately have "unat (?v + 0x1ff) < 512" by (auto simp: unat_word_ariths mod_if [of "unat ?v + 511"])
  then have "unat (?v + 0x1ff) div 2 ^ 9 = 0" by simp
  then have "unat ((?v + 0x1ff) AND NOT (mask 9)) = unat (0 :: u32)" by (simp only: unat_align_down) simp
  then have zero: "(?v + 0x1ff) AND NOT 0x1ff = 0" unfolding m by (rule word_unat_eq_iff [THEN iffD2])
  show ?thesis
    using assms(1,3,4)
    by (simp add: call_data_out_def reallocate_loader_xfer_data_def panic_if_def Let_def zero [simplified] UPLOADSZ_MAX_def resize_loader_xfer_data_def
        disable_interrupts_def enable_interrupts_def loader_recv_def usb_out_transfer_dma_def lookup_endpoint_def BUG_if_def
        ep_out_recv_data_dma_def)
qed

theorem empty_upload_panics_witness:
  "call_data_out Reallocate_loader_xfer_data (At StackLocal 0) 4 (sample_usb\<lparr>usb_mem := [StackLocal \<mapsto> [1, 0xfe, 0xff, 0xff]]\<rparr>)
     = Inl (Panic ''USB BUG: 0x73656e642035'')"
  by (rule empty_upload_panics [of _ _ "[1, 0xfe, 0xff, 0xff]"])
     (simp_all add: mem_read_def chunk_def sample_usb_def le_val_def)

text \<open>A reset of the bus strands what was under way: the endpoints' transfers are dropped, but the channels
  still count them. Data in flight to the host is never sent again, as a commit waits for a completion
  that does not come, and after a reset during an upload every further request to upload is refused.\<close>

theorem reset_strands_channels:
  assumes "usb_reset k s = Inr s'"
  shows "in_flight (eps s' EP1_IN) = 0 \<and> in_flight (eps s' EP2_OUT) = 0
    \<and> (ktrw_send_in_flight s \<noteq> 0 \<longrightarrow> usb_write_commit s' = Inr s')
    \<and> (usbloader_is_waiting_xfer s \<and> bRequest p = 1 \<and> (wLength p = 0 \<or> wLength p = 4) \<longrightarrow> ep0_device_out p s' = Inr (False, s'))"
  using reset_keeps_flight [OF assms] by (auto simp: usb_write_commit_def ep0_device_out_def)

theorem reset_strands_channels_witness:
  "\<exists>s'. usb_reset 0 (sample_usb\<lparr>usbloader_is_waiting_xfer := True, ktrw_send_count := 4, ktrw_send_in_flight := 4\<rparr>) = Inr s'
    \<and> usb_write_commit s' = Inr s' \<and> ep0_device_out (sample_setup 0x21 1 0 0 0) s' = Inr (False, s')"
proof -
  let ?s = "sample_usb\<lparr>usbloader_is_waiting_xfer := True, ktrw_send_count := 4, ktrw_send_in_flight := 4\<rparr>"
  obtain s' where r: "usb_reset 0 ?s = Inr s'"
    using quiet_reset [of ?s] by (auto simp: sample_usb_def sample_ep_def DMA_BUFFER_SIZE_def)
  show ?thesis
    using reset_strands_channels [OF r, of "sample_setup 0x21 1 0 0 0"] r by (simp add: sample_setup_def)
qed

end
