(* ===== verification/Fb.thy ===== *)
theory Fb
  imports Lowlevel Bytes
begin

text \<open>
  The frame buffer console, \<open>src/src/drivers/framebuffer/fb.c\<close>: text is drawn into the video
  memory with an 8x8 bitmap font, over a copy of the boot picture that is kept so that a row or
  the screen can be restored. The video memory and its copy are lists of 32 bit pixels indexed by
  the 32 bit index the code computes, and an index outside them is \<open>BadAccess\<close>; the global
  variables are fields of the state. \<open>paint R S F g\<close>, the picture \<open>g\<close> with row length \<open>R\<close> in which
  every pixel of the set \<open>S\<close> of (column, row) pairs has the colour \<open>F\<close>, is the specification of
  all the drawing loops.
\<close>

unbundle bit_operations_syntax

section \<open>State\<close>

record fb = irq +
  gFramebuffer :: "u32 list option"
  gFramebufferCopy :: "u32 list"
  gWidth :: u32
  gHeight :: u32
  gRowPixels :: u32
  y_cursor :: u32
  x_cursor :: u32
  scale_factor :: u8
  bannerHeight :: u32
  basecolor :: u32

definition SCALE_FACTOR :: "fb \<Rightarrow> u32" where
  "SCALE_FACTOR s = ucast (scale_factor s)"

definition LEFT_MARGIN :: "fb \<Rightarrow> u32" where
  "LEFT_MARGIN s = 4 * SCALE_FACTOR s"

section \<open>Pixel accesses\<close>

definition pixel_get :: "u32 list \<Rightarrow> u32 \<Rightarrow> error + u32" where
  "pixel_get g i = (if unat i < length g then Inr (g ! unat i) else Inl BadAccess)"

definition pixel_set :: "u32 list \<Rightarrow> u32 \<Rightarrow> u32 \<Rightarrow> error + u32 list" where
  "pixel_set g i v = (if unat i < length g then Inr (g[unat i := v]) else Inl BadAccess)"

definition fb_get :: "fb \<Rightarrow> u32 \<Rightarrow> error + u32" where
  "fb_get s i = (case gFramebuffer s of None \<Rightarrow> Inl BadAccess | Some g \<Rightarrow> pixel_get g i)"

definition fb_set :: "fb \<Rightarrow> u32 \<Rightarrow> u32 \<Rightarrow> error + fb" where
  "fb_set s i v =
     (case gFramebuffer s of None \<Rightarrow> Inl BadAccess
      | Some g \<Rightarrow> bindE (pixel_set g i v) (\<lambda>g'. Inr (s\<lparr>gFramebuffer := Some g'\<rparr>)))"

section \<open>Filling and restoring\<close>

definition screen_fill :: "u32 \<Rightarrow> fb \<Rightarrow> error + fb" where
  "screen_fill color s =
     for_up (\<lambda>y. for_up (\<lambda>x s. fb_set s (x + y * gRowPixels s) color) 0 (gWidth s)) 0 (gHeight s) s"

definition screen_fill_basecolor :: "fb \<Rightarrow> error + fb" where
  "screen_fill_basecolor s = screen_fill (basecolor s) s"

definition restore_pixel :: "u32 \<Rightarrow> fb \<Rightarrow> error + fb" where
  "restore_pixel i s = bindE (pixel_get (gFramebufferCopy s) i) (fb_set s i)"

definition screen_clear_all :: "fb \<Rightarrow> error + fb" where
  "screen_clear_all s0 =
     (let s = s0\<lparr>y_cursor := bannerHeight s0\<rparr> in
      for_up (\<lambda>y. for_up (\<lambda>x s. restore_pixel (x + y * gRowPixels s) s) 0 (gWidth s))
        (bannerHeight s) (gHeight s) s)"

definition screen_clear_row :: "fb \<Rightarrow> error + fb" where
  "screen_clear_row s =
     for_up (\<lambda>y. for_up (\<lambda>x s. restore_pixel (x + ((y + y_cursor s) * gRowPixels s)) s) 0 (gWidth s))
       0 (1 + 8 * SCALE_FACTOR s) s"

section \<open>Colours\<close>

text \<open>
  A colour is taken apart into the 16 bit components (0) to (3), the least significant byte
  first; \<open>color_compose\<close> keeps the low byte of each.
\<close>

type_synonym components = "u16 \<times> u16 \<times> u16 \<times> u16"

definition color_compose :: "components \<Rightarrow> u32" where
  "color_compose = (\<lambda>(c0, c1, c2, c3).
     push_bit 24 (ucast c3 AND 0xff) OR push_bit 16 (ucast c2 AND 0xff) OR
     push_bit 8 (ucast c1 AND 0xff) OR push_bit 0 (ucast c0 AND 0xff))"

definition color_compose_v32 :: "u32 \<times> u32 \<times> u32 \<times> u32 \<Rightarrow> u32" where
  "color_compose_v32 = (\<lambda>(c0, c1, c2, c3).
     push_bit 24 (c3 AND 0xff) OR push_bit 16 (c2 AND 0xff) OR
     push_bit 8 (c1 AND 0xff) OR push_bit 0 (c0 AND 0xff))"

definition color_decompose :: "u32 \<Rightarrow> components" where
  "color_decompose color =
     (ucast (color AND 0xff), ucast (drop_bit 8 color AND 0xff),
      ucast (drop_bit 16 color AND 0xff), ucast (drop_bit 24 color AND 0xff))"

definition colors_average :: "u32 \<Rightarrow> u32 \<Rightarrow> u32" where
  "colors_average color1 color2 =
     (let (a0, a1, a2, a3) = color_decompose color1;
          (b0, b1, b2, b3) = color_decompose color2
      in color_compose (drop_bit 1 (a0 + b0), drop_bit 1 (a1 + b1), drop_bit 1 (a2 + b2), a3))"

text \<open>
  The products are computed in \<open>int\<close> from components below 256, so nothing is lost in 32 bits;
  a division by zero (both alphas 0) gives 0, as the processor's \<open>udiv\<close> does.
\<close>

definition colors_mix_alpha :: "u32 \<Rightarrow> u32 \<Rightarrow> u32" where
  "colors_mix_alpha color1 color2 =
     (let (a0, a1, a2, a3) = color_decompose color1;
          (b0, b1, b2, b3) = color_decompose color2;
          w0 = ucast a0 * ucast a3 + ucast b0 * ucast b3;
          w1 = ucast a1 * ucast a3 + ucast b1 * ucast b3;
          w2 = ucast a2 * ucast a3 + ucast b2 * ucast b3;
          total_alpha = ucast a3 + ucast b3
      in color_compose_v32 (w0 div total_alpha, w1 div total_alpha, w2 div total_alpha, 0xff))"

section \<open>The font\<close>

definition font8x8_basic :: "u8 list list" where
  "font8x8_basic =
   [ [0, 0, 0, 0, 0, 0, 0, 0],
     [0, 0, 0, 0, 0, 0, 0, 0],
     [0, 0, 0, 0, 0, 0, 0, 0],
     [0, 0, 0, 0, 0, 0, 0, 0],
     [0, 0, 0, 0, 0, 0, 0, 0],
     [0, 0, 0, 0, 0, 0, 0, 0],
     [0, 0, 0, 0, 0, 0, 0, 0],
     [0, 0, 0, 0, 0, 0, 0, 0],
     [0, 0, 0, 0, 0, 0, 0, 0],
     [0, 0, 0, 0, 0, 0, 0, 0],
     [0, 0, 0, 0, 0, 0, 0, 0],
     [0, 0, 0, 0, 0, 0, 0, 0],
     [0, 0, 0, 0, 0, 0, 0, 0],
     [0, 0, 0, 0, 0, 0, 0, 0],
     [0, 0, 0, 0, 0, 0, 0, 0],
     [0, 0, 0, 0, 0, 0, 0, 0],
     [0, 0, 0, 0, 0, 0, 0, 0],
     [0, 0, 0, 0, 0, 0, 0, 0],
     [0, 0, 0, 0, 0, 0, 0, 0],
     [0, 0, 0, 0, 0, 0, 0, 0],
     [0, 0, 0, 0, 0, 0, 0, 0],
     [0, 0, 0, 0, 0, 0, 0, 0],
     [0, 0, 0, 0, 0, 0, 0, 0],
     [0, 0, 0, 0, 0, 0, 0, 0],
     [0, 0, 0, 0, 0, 0, 0, 0],
     [0, 0, 0, 0, 0, 0, 0, 0],
     [0, 0, 0, 0, 0, 0, 0, 0],
     [0, 0, 0, 0, 0, 0, 0, 0],
     [0, 0, 0, 0, 0, 0, 0, 0],
     [0, 0, 0, 0, 0, 0, 0, 0],
     [0, 0, 0, 0, 0, 0, 0, 0],
     [0, 0, 0, 0, 0, 0, 0, 0],
     [0, 0, 0, 0, 0, 0, 0, 0],
     [0x18, 0x3c, 0x3c, 0x18, 0x18, 0, 0x18, 0],
     [0x36, 0x36, 0, 0, 0, 0, 0, 0],
     [0x36, 0x36, 0x7f, 0x36, 0x7f, 0x36, 0x36, 0],
     [0x0c, 0x3e, 3, 0x1e, 0x30, 0x1f, 0x0c, 0],
     [0, 0x63, 0x33, 0x18, 0x0c, 0x66, 0x63, 0],
     [0x1c, 0x36, 0x1c, 0x6e, 0x3b, 0x33, 0x6e, 0],
     [6, 6, 3, 0, 0, 0, 0, 0],
     [0x18, 0x0c, 6, 6, 6, 0x0c, 0x18, 0],
     [6, 0x0c, 0x18, 0x18, 0x18, 0x0c, 6, 0],
     [0, 0x66, 0x3c, 0xff, 0x3c, 0x66, 0, 0],
     [0, 0x0c, 0x0c, 0x3f, 0x0c, 0x0c, 0, 0],
     [0, 0, 0, 0, 0, 0x0c, 0x0c, 6],
     [0, 0, 0, 0x3f, 0, 0, 0, 0],
     [0, 0, 0, 0, 0, 0x0c, 0x0c, 0],
     [0x60, 0x30, 0x18, 0x0c, 6, 3, 1, 0],
     [0x3e, 0x63, 0x73, 0x7b, 0x6f, 0x67, 0x3e, 0],
     [0x0c, 0x0e, 0x0c, 0x0c, 0x0c, 0x0c, 0x3f, 0],
     [0x1e, 0x33, 0x30, 0x1c, 6, 0x33, 0x3f, 0],
     [0x1e, 0x33, 0x30, 0x1c, 0x30, 0x33, 0x1e, 0],
     [0x38, 0x3c, 0x36, 0x33, 0x7f, 0x30, 0x78, 0],
     [0x3f, 3, 0x1f, 0x30, 0x30, 0x33, 0x1e, 0],
     [0x1c, 6, 3, 0x1f, 0x33, 0x33, 0x1e, 0],
     [0x3f, 0x33, 0x30, 0x18, 0x0c, 0x0c, 0x0c, 0],
     [0x1e, 0x33, 0x33, 0x1e, 0x33, 0x33, 0x1e, 0],
     [0x1e, 0x33, 0x33, 0x3e, 0x30, 0x18, 0x0e, 0],
     [0, 0x0c, 0x0c, 0, 0, 0x0c, 0x0c, 0],
     [0, 0x0c, 0x0c, 0, 0, 0x0c, 0x0c, 6],
     [0x18, 0x0c, 6, 3, 6, 0x0c, 0x18, 0],
     [0, 0, 0x3f, 0, 0, 0x3f, 0, 0],
     [6, 0x0c, 0x18, 0x30, 0x18, 0x0c, 6, 0],
     [0x1e, 0x33, 0x30, 0x18, 0x0c, 0, 0x0c, 0],
     [0x3e, 0x63, 0x7b, 0x7b, 0x7b, 3, 0x1e, 0],
     [0x0c, 0x1e, 0x33, 0x33, 0x3f, 0x33, 0x33, 0],
     [0x3f, 0x66, 0x66, 0x3e, 0x66, 0x66, 0x3f, 0],
     [0x3c, 0x66, 3, 3, 3, 0x66, 0x3c, 0],
     [0x1f, 0x36, 0x66, 0x66, 0x66, 0x36, 0x1f, 0],
     [0x7f, 0x46, 0x16, 0x1e, 0x16, 0x46, 0x7f, 0],
     [0x7f, 0x46, 0x16, 0x1e, 0x16, 6, 0x0f, 0],
     [0x3c, 0x66, 3, 3, 0x73, 0x66, 0x7c, 0],
     [0x33, 0x33, 0x33, 0x3f, 0x33, 0x33, 0x33, 0],
     [0x1e, 0x0c, 0x0c, 0x0c, 0x0c, 0x0c, 0x1e, 0],
     [0x78, 0x30, 0x30, 0x30, 0x33, 0x33, 0x1e, 0],
     [0x67, 0x66, 0x36, 0x1e, 0x36, 0x66, 0x67, 0],
     [0x0f, 6, 6, 6, 0x46, 0x66, 0x7f, 0],
     [0x63, 0x77, 0x7f, 0x7f, 0x6b, 0x63, 0x63, 0],
     [0x63, 0x67, 0x6f, 0x7b, 0x73, 0x63, 0x63, 0],
     [0x1c, 0x36, 0x63, 0x63, 0x63, 0x36, 0x1c, 0],
     [0x3f, 0x66, 0x66, 0x3e, 6, 6, 0x0f, 0],
     [0x1e, 0x33, 0x33, 0x33, 0x3b, 0x1e, 0x38, 0],
     [0x3f, 0x66, 0x66, 0x3e, 0x36, 0x66, 0x67, 0],
     [0x1e, 0x33, 7, 0x0e, 0x38, 0x33, 0x1e, 0],
     [0x3f, 0x2d, 0x0c, 0x0c, 0x0c, 0x0c, 0x1e, 0],
     [0x33, 0x33, 0x33, 0x33, 0x33, 0x33, 0x3f, 0],
     [0x33, 0x33, 0x33, 0x33, 0x33, 0x1e, 0x0c, 0],
     [0x63, 0x63, 0x63, 0x6b, 0x7f, 0x77, 0x63, 0],
     [0x63, 0x63, 0x36, 0x1c, 0x1c, 0x36, 0x63, 0],
     [0x33, 0x33, 0x33, 0x1e, 0x0c, 0x0c, 0x1e, 0],
     [0x7f, 0x63, 0x31, 0x18, 0x4c, 0x66, 0x7f, 0],
     [0x1e, 6, 6, 6, 6, 6, 0x1e, 0],
     [3, 6, 0x0c, 0x18, 0x30, 0x60, 0x40, 0],
     [0x1e, 0x18, 0x18, 0x18, 0x18, 0x18, 0x1e, 0],
     [8, 0x1c, 0x36, 0x63, 0, 0, 0, 0],
     [0, 0, 0, 0, 0, 0, 0, 0xff],
     [0x0c, 0x0c, 0x18, 0, 0, 0, 0, 0],
     [0, 0, 0x1e, 0x30, 0x3e, 0x33, 0x6e, 0],
     [7, 6, 6, 0x3e, 0x66, 0x66, 0x3b, 0],
     [0, 0, 0x1e, 0x33, 3, 0x33, 0x1e, 0],
     [0x38, 0x30, 0x30, 0x3e, 0x33, 0x33, 0x6e, 0],
     [0, 0, 0x1e, 0x33, 0x3f, 3, 0x1e, 0],
     [0x1c, 0x36, 6, 0x0f, 6, 6, 0x0f, 0],
     [0, 0, 0x6e, 0x33, 0x33, 0x3e, 0x30, 0x1f],
     [7, 6, 0x36, 0x6e, 0x66, 0x66, 0x67, 0],
     [0x0c, 0, 0x0e, 0x0c, 0x0c, 0x0c, 0x1e, 0],
     [0x30, 0, 0x30, 0x30, 0x30, 0x33, 0x33, 0x1e],
     [7, 6, 0x66, 0x36, 0x1e, 0x36, 0x67, 0],
     [0x0e, 0x0c, 0x0c, 0x0c, 0x0c, 0x0c, 0x1e, 0],
     [0, 0, 0x33, 0x7f, 0x7f, 0x6b, 0x63, 0],
     [0, 0, 0x1f, 0x33, 0x33, 0x33, 0x33, 0],
     [0, 0, 0x1e, 0x33, 0x33, 0x33, 0x1e, 0],
     [0, 0, 0x3b, 0x66, 0x66, 0x3e, 6, 0x0f],
     [0, 0, 0x6e, 0x33, 0x33, 0x3e, 0x30, 0x78],
     [0, 0, 0x3b, 0x6e, 0x66, 6, 0x0f, 0],
     [0, 0, 0x3e, 3, 0x1e, 0x30, 0x1f, 0],
     [8, 0x0c, 0x3e, 0x0c, 0x0c, 0x2c, 0x18, 0],
     [0, 0, 0x33, 0x33, 0x33, 0x33, 0x6e, 0],
     [0, 0, 0x33, 0x33, 0x33, 0x1e, 0x0c, 0],
     [0, 0, 0x63, 0x6b, 0x7f, 0x7f, 0x36, 0],
     [0, 0, 0x63, 0x36, 0x1c, 0x36, 0x63, 0],
     [0, 0, 0x33, 0x33, 0x33, 0x3e, 0x30, 0x1f],
     [0, 0, 0x3f, 0x19, 0x0c, 0x26, 0x3f, 0],
     [0x38, 0x0c, 0x0c, 7, 0x0c, 0x0c, 0x38, 0],
     [0x18, 0x18, 0x18, 0, 0x18, 0x18, 0x18, 0],
     [7, 0x0c, 0x0c, 0x38, 0x0c, 0x0c, 7, 0],
     [0x6e, 0x3b, 0, 0, 0, 0, 0, 0],
     [0, 0, 0, 0, 0, 0, 0, 0]]"

text \<open>\<open>font8x8_basic[c & 0x7f][y / SCALE_FACTOR] & (1 << (x / SCALE_FACTOR))\<close>\<close>

definition glyph_pixel :: "u32 \<Rightarrow> u8 \<Rightarrow> u32 \<Rightarrow> u32 \<Rightarrow> bool" where
  "glyph_pixel S c x y \<longleftrightarrow>
     ucast (font8x8_basic ! unat (c AND 0x7f) ! unat (y div S)) AND push_bit (unat (x div S)) (1 :: u32) \<noteq> 0"

section \<open>Characters and strings\<close>

definition draw_pixel :: "u8 \<Rightarrow> u32 \<Rightarrow> u32 \<Rightarrow> u32 \<Rightarrow> u32 \<Rightarrow> fb \<Rightarrow> error + fb" where
  "draw_pixel c local_x_cursor local_y_cursor x y s =
     (let ind = (x + local_x_cursor) + ((y + local_y_cursor) * gRowPixels s)
      in if glyph_pixel (SCALE_FACTOR s) c x y
         then fb_set s ind (basecolor s XOR 0xFFFFFFFF)
         else bindE (pixel_get (gFramebufferCopy s) ind) (\<lambda>rcol.
              fb_set s ind (colors_average rcol (basecolor s))))"

definition draw_glyph :: "u8 \<Rightarrow> u32 \<Rightarrow> u32 \<Rightarrow> fb \<Rightarrow> error + fb" where
  "draw_glyph c local_x_cursor local_y_cursor s =
     for_up (\<lambda>x. for_up (draw_pixel c local_x_cursor local_y_cursor x) 0 (8 * SCALE_FACTOR s))
       0 (8 * SCALE_FACTOR s) s"

definition cursor_backspace :: "fb \<Rightarrow> fb" where
  "cursor_backspace s0 =
     (let s1 = (if 8 * SCALE_FACTOR s0 < x_cursor s0
                then s0\<lparr>x_cursor := x_cursor s0 - 8 * SCALE_FACTOR s0\<rparr>
                else s0\<lparr>x_cursor := 0\<rparr>)
      in if x_cursor s1 < LEFT_MARGIN s1 then s1\<lparr>x_cursor := LEFT_MARGIN s1\<rparr> else s1)"

definition cursor_newline :: "fb \<Rightarrow> fb" where
  "cursor_newline s0 =
     (let s1 = (if gHeight s0 < y_cursor s0 + 12 * SCALE_FACTOR s0 + 16
                then s0\<lparr>y_cursor := bannerHeight s0\<rparr>
                else s0\<lparr>y_cursor := y_cursor s0 + (1 + 8 * SCALE_FACTOR s0)\<rparr>)
      in s1\<lparr>x_cursor := LEFT_MARGIN s1\<rparr>)"

definition screen_putc :: "u8 \<Rightarrow> fb \<Rightarrow> error + fb" where
  "screen_putc c s0 =
     (if gFramebuffer s0 = None then Inr s0
      else bindE (disable_interrupts s0) (\<lambda>s1.
        if c = 8 then enable_interrupts (cursor_backspace s1)
        else bindE (if c = 10 \<or> gWidth s1 - LEFT_MARGIN s1 * 2 < x_cursor s1 + 8 * SCALE_FACTOR s1
                    then screen_clear_row (cursor_newline s1) else Inr s1) (\<lambda>s2.
          if c = 10 then enable_interrupts s2
          else if c = 13
          then bindE (screen_clear_row (s2\<lparr>x_cursor := LEFT_MARGIN s2\<rparr>)) enable_interrupts
          else let s3 = s2\<lparr>x_cursor := x_cursor s2 + 8 * SCALE_FACTOR s2\<rparr> in
               bindE (enable_interrupts s3) (draw_glyph c (x_cursor s3) (y_cursor s3)))))"

text \<open>A string ends at its first zero byte.\<close>

primrec screen_write :: "u8 list \<Rightarrow> fb \<Rightarrow> error + fb" where
  "screen_write [] s = Inr s"
| "screen_write (c # str) s = (if c = 0 then Inr s else bindE (screen_putc c s) (screen_write str))"

definition screen_puts :: "u8 list \<Rightarrow> fb \<Rightarrow> error + fb" where
  "screen_puts str s = bindE (screen_write str s) (screen_putc 10)"

definition screen_mark_banner :: "fb \<Rightarrow> fb" where
  "screen_mark_banner s = s\<lparr>bannerHeight := y_cursor s\<rparr>"

definition invert_pixel :: "u32 \<Rightarrow> fb \<Rightarrow> error + fb" where
  "invert_pixel i s =
     bindE (fb_get s i) (\<lambda>p.
     bindE (fb_set s i (p XOR 0xffffffff)) (\<lambda>s1.
     bindE (pixel_get (gFramebufferCopy s1) i) (\<lambda>q.
     bindE (pixel_set (gFramebufferCopy s1) i (q XOR 0xffffffff)) (\<lambda>copy.
     Inr (s1\<lparr>gFramebufferCopy := copy\<rparr>)))))"

definition screen_invert :: "fb \<Rightarrow> error + fb" where
  "screen_invert s0 =
     bindE (for_up (\<lambda>y. for_up (\<lambda>x s. invert_pixel (x + y * gRowPixels s) s) 0 (gWidth s0))
              0 (gHeight s0) s0) (\<lambda>s.
     Inr (s\<lparr>basecolor := basecolor s XOR 0xffffffff\<rparr>))"

section \<open>Initialisation\<close>

text \<open>
  \<open>screen_init\<close> in three parts: the window it maps (row length, width, height, the offset of the
  buffer in its first page and the size of the window), with \<open>is_16k\<close> the page size of the
  processor; the scale of the console, which the width and the rounded height decide; and, once
  the window is mapped and the copy is allocated, the logo that is drawn by inverting pixels,
  the \<open>memcpy\<close> of the window into the copy, and the base colour. Mapping and
  allocation are the calls \<open>map_range\<close> and \<open>alloc_contig\<close> of the memory components; here the
  window's pixels and the copy's are arguments.
\<close>

record video =
  v_baseAddr :: u64
  v_rowBytes :: u64
  v_width :: u64
  v_height :: u64

definition screen_window :: "bool \<Rightarrow> video \<Rightarrow> u64 \<times> u64" where
  "screen_window is_16k v =
     (let gRowPixels = ucast (drop_bit 2 (v_rowBytes v)) :: u32;
          gHeight = ucast (v_height v) :: u32;
          fbbase = v_baseAddr v;
          fbsize = ucast (gHeight * gRowPixels * 4) :: u64
      in if is_16k
         then let fboff = fbbase AND 0x3fff in (fboff, (fbsize + fboff + 0x3fff) AND NOT 0x3fff)
         else let fboff = fbbase AND 0xfff in (fboff, (fbsize + fboff + 0xfff) AND NOT 0xfff))"

definition gLogoBitmap :: "u32 list" where
  "gLogoBitmap =
     [0x0, 0xa00, 0x400, 0x5540, 0x7fc0, 0x3f80, 0x3f80, 0x1f00, 0x1f00, 0x1f00, 0x3f80, 0xffe0,
      0x3f80, 0x3f80, 0x3f83, 0x103f9f, 0x18103ffb, 0xe3fffd5, 0x1beabfab, 0x480d7fd5, 0xf80abfab,
      0x480d7fd5, 0x1beabfab, 0xe3fffd5, 0x18107ffb, 0x107fdf, 0x7fc3, 0xffe0, 0xffe0, 0xffe0,
      0x1fff0, 0x1fff0]"

definition screen_scale :: "u16 \<Rightarrow> u16 \<Rightarrow> u8" where
  "screen_scale width height0 =
     (let height = height0 AND 0xfff0;
          scale_factor = (if 800 < width then 3 else 2)
      in if height < width then 1 else scale_factor)"

definition logo_pixel :: "u32 \<Rightarrow> u32 \<Rightarrow> u32 \<Rightarrow> u32 \<Rightarrow> u32 \<Rightarrow> fb \<Rightarrow> error + fb" where
  "logo_pixel f logo_x_begin logo_y_begin y x s =
     (let b = gLogoBitmap ! unat (y div f);
          ind = logo_x_begin + x + ((logo_y_begin + y) * gRowPixels s)
      in bindE (fb_get s ind) (\<lambda>curcolor.
         let curcolor = (if b AND push_bit (unat (x div f)) 1 \<noteq> 0 then curcolor XOR 0xFFFFFFFF
                         else curcolor)
         in fb_set s ind curcolor))"

definition screen_setup :: "video \<Rightarrow> u32 list \<Rightarrow> u32 list \<Rightarrow> fb \<Rightarrow> fb" where
  "screen_setup v window copy s0 =
     (let s1 = s0\<lparr>gRowPixels := ucast (drop_bit 2 (v_rowBytes v)),
                  gWidth := ucast (v_width v), gHeight := ucast (v_height v)\<rparr>
      in s1\<lparr>gFramebuffer := Some window, gFramebufferCopy := copy,
            scale_factor := screen_scale (ucast (gWidth s1)) (ucast (gHeight s1))\<rparr>)"

definition logo_scaler :: "u32 \<Rightarrow> fb \<Rightarrow> u32" where
  "logo_scaler socnum s = (if socnum = 0x8012 then 1 else 2 * SCALE_FACTOR s)"

definition draw_logo :: "u32 \<Rightarrow> fb \<Rightarrow> error + fb" where
  "draw_logo socnum s =
     (let height = (ucast (gHeight s) :: u16) AND 0xfff0;
          f = logo_scaler socnum s;
          logo_x_begin = gRowPixels s div 2 - 16 * f;
          logo_y_begin = ucast height div 2 - 16 * f
      in for_up (\<lambda>y. for_up (logo_pixel f logo_x_begin logo_y_begin y) 0 (32 * f)) 0 (32 * f) s)"

definition keep_picture :: "u64 \<Rightarrow> fb \<Rightarrow> error + fb" where
  "keep_picture fbsize s =
     (case gFramebuffer s of None \<Rightarrow> Inl BadAccess
      | Some g \<Rightarrow>
          let n = unat fbsize div 4
          in if length g < n \<or> length (gFramebufferCopy s) < n then Inl BadAccess
             else Inr (s\<lparr>gFramebufferCopy := take n g @ drop n (gFramebufferCopy s)\<rparr>))"

definition screen_init :: "bool \<Rightarrow> video \<Rightarrow> u32 \<Rightarrow> u32 list \<Rightarrow> u32 list \<Rightarrow> fb \<Rightarrow> error + fb" where
  "screen_init is_16k v socnum window copy s0 =
     bindE (draw_logo socnum (screen_setup v window copy s0)) (\<lambda>s1.
     bindE (keep_picture (snd (screen_window is_16k v)) s1) (\<lambda>s2.
     bindE (fb_get s2 0) (\<lambda>c. Inr (s2\<lparr>basecolor := c, scale_factor := 1\<rparr>))))"

end
