(* ===== verification/FbProps.thy ===== *)
theory FbProps
  imports Fb
begin

text \<open>
  Facts about the frame buffer console: the drawing loops as \<open>paint\<close>, the shape a console in use
  has, and what each operation does to it.
\<close>

unbundle bit_operations_syntax

section \<open>Pictures\<close>

definition paint :: "nat \<Rightarrow> (nat \<times> nat) set \<Rightarrow> (nat \<Rightarrow> nat \<Rightarrow> u32) \<Rightarrow> u32 list \<Rightarrow> u32 list" where
  "paint R S F g =
     map (\<lambda>k. if (k mod R, k div R) \<in> S then F (k mod R) (k div R) else g ! k) [0..<length g]"

abbreviation rect :: "nat \<Rightarrow> nat \<Rightarrow> nat \<Rightarrow> nat \<Rightarrow> (nat \<times> nat) set" where
  "rect x y w h \<equiv> {x..<x + w} \<times> {y..<y + h}"

lemma length_paint [simp]: "length (paint R S F g) = length g"
  by (simp add: paint_def)

lemma paint_empty [simp]: "paint R {} F g = g"
  by (simp add: paint_def map_nth)

lemma nth_paint: "k < length g \<Longrightarrow>
  paint R S F g ! k = (if (k mod R, k div R) \<in> S then F (k mod R) (k div R) else g ! k)"
  by (simp add: paint_def)

lemma pixel_index_mod_div: "a < R \<Longrightarrow> (a + b * R) mod R = a \<and> (a + b * R) div R = (b :: nat)"
  by simp

lemma paint_put:
  assumes "a < R"
  shows "(paint R S F g)[a + b * R := F a b] = paint R (insert (a, b) S) F g"
proof (rule nth_equalityI)
  fix k assume "k < length ((paint R S F g)[a + b * R := F a b])"
  then have k: "k < length g" by simp
  show "(paint R S F g)[a + b * R := F a b] ! k = paint R (insert (a, b) S) F g ! k"
  proof (cases "k = a + b * R")
    case True
    then show ?thesis using k assms by (simp add: nth_paint)
  next
    case False
    then have "(k mod R, k div R) \<noteq> (a, b)" using mod_div_mult_eq [of k R] by auto
    then have "((k mod R, k div R) \<in> insert (a, b) S) = ((k mod R, k div R) \<in> S)" by blast
    then show ?thesis using False k by (simp only: nth_list_update_neq length_list_update nth_paint)
  qed
qed simp

lemma paint_paint_same: "paint R S F (paint R S G g) = paint R S F g"
  by (rule nth_equalityI) (auto simp: nth_paint)

lemma paint_cong:
  "(\<And>a b. (a, b) \<in> S \<Longrightarrow> F a b = G a b) \<Longrightarrow> paint R S F g = paint R S G g"
  by (auto simp: paint_def)

section \<open>Loops over a rectangle\<close>

lemma for_up_state:
  assumes "\<And>j. j < unat e \<Longrightarrow> body (of_nat j) (f j) = Inr (f (Suc j))"
  shows "for_up body 0 (e :: 'w::len word) (f 0) = Inr (f (unat e))"
proof -
  have "\<exists>s'. for_up body 0 e (f 0) = Inr s' \<and> s' = f (unat e)"
  proof (rule for_up_total [where P = "\<lambda>i s. s = f (unat i)"])
    fix j t assume "j < e" and t: "t = f (unat j)"
    then have "unat j < unat e" "unat (j + 1) = Suc (unat j)" by (auto simp: word_less_nat_alt unat_Suc_less)
    then show "\<exists>t'. body j t = Inr t' \<and> t' = f (unat (j + 1))" using assms [of "unat j"] t by simp
  qed simp_all
  then show ?thesis by blast
qed

text \<open>
  Two nested loops whose body handles one pixel: if the body takes the state of the set \<open>S\<close> of
  pixels handled so far to the state of \<open>S\<close> with the pixel added, the loops handle the rectangle.
\<close>

lemma raster:
  fixes m n :: u32 and c :: "nat \<times> nat \<Rightarrow> nat \<times> nat"
  assumes inj: "inj_on c ({..<unat m} \<times> {..<unat n})"
    and step: "\<And>i j S. i < unat m \<Longrightarrow> j < unat n \<Longrightarrow> c (i, j) \<notin> S \<Longrightarrow>
      body (of_nat i) (of_nat j) (st S) = Inr (st (insert (c (i, j)) S))"
  shows "for_up (\<lambda>i. for_up (body i) 0 n) 0 m (st {}) = Inr (st (c ` ({..<unat m} \<times> {..<unat n})))"
proof -
  let ?A = "\<lambda>i. {..<i} \<times> {..<unat n}"
  have row: "for_up (body (of_nat i)) 0 n (st (c ` ?A i)) = Inr (st (c ` ?A (Suc i)))" if i: "i < unat m" for i
  proof -
    let ?B = "\<lambda>j. ?A i \<union> {i} \<times> {..<j}"
    have "for_up (body (of_nat i)) 0 n (st (c ` ?B 0)) = Inr (st (c ` ?B (unat n)))"
    proof (rule for_up_state [where f = "\<lambda>j. st (c ` ?B j)"])
      fix j assume j: "j < unat n"
      have "c (i, j) \<notin> c ` ?B j"
      proof
        assume "c (i, j) \<in> c ` ?B j"
        then obtain p where p: "p \<in> ?B j" "c (i, j) = c p" by blast
        have "(i, j) = p" by (rule inj_onD [OF inj p(2)]) (use p(1) i j in auto)
        with p(1) show False by auto
      qed
      moreover have "insert (i, j) (?B j) = ?B (Suc j)" by (auto simp: less_Suc_eq)
      ultimately show "body (of_nat i) (of_nat j) (st (c ` ?B j)) = Inr (st (c ` ?B (Suc j)))"
        using step [OF i j] by (simp flip: image_insert)
    qed
    moreover have "?B (unat n) = ?A (Suc i)" by (auto simp: less_Suc_eq)
    ultimately show ?thesis by simp
  qed
  have "for_up (\<lambda>i. for_up (body i) 0 n) 0 m (st (c ` ?A 0)) = Inr (st (c ` ?A (unat m)))"
    by (rule for_up_state [where f = "\<lambda>i. st (c ` ?A i)"]) (rule row)
  then show ?thesis by simp
qed

lemma image_shift_rect:
  "(\<lambda>(i, j). (x + i, y + j)) ` ({..<m} \<times> {..<n}) = rect x y m n"
  "(\<lambda>(i, j). (x + j, y + i)) ` ({..<m} \<times> {..<n}) = rect x y n m"
proof -
  have "(a, b) \<in> (\<lambda>(i, j). (x + i, y + j)) ` ({..<m} \<times> {..<n})" if "(a, b) \<in> rect x y m n" for a b
    using that by (intro image_eqI [of _ _ "(a - x, b - y)"]) auto
  then show "(\<lambda>(i, j). (x + i, y + j)) ` ({..<m} \<times> {..<n}) = rect x y m n" by auto
  have "(a, b) \<in> (\<lambda>(i, j). (x + j, y + i)) ` ({..<m} \<times> {..<n})" if "(a, b) \<in> rect x y n m" for a b
    using that by (intro image_eqI [of _ _ "(b - y, a - x)"]) auto
  then show "(\<lambda>(i, j). (x + j, y + i)) ` ({..<m} \<times> {..<n}) = rect x y n m" by auto
qed

text \<open>The loops that run over columns first, and those that run over rows first.\<close>

lemma raster_columns:
  fixes m n :: u32
  assumes "\<And>i j S. i < unat m \<Longrightarrow> j < unat n \<Longrightarrow> (x + i, y + j) \<notin> S \<Longrightarrow>
      body (of_nat i) (of_nat j) (st S) = Inr (st (insert (x + i, y + j) S))"
  shows "for_up (\<lambda>i. for_up (body i) 0 n) 0 m (st {}) = Inr (st (rect x y (unat m) (unat n)))"
  using raster [of "\<lambda>(i, j). (x + i, y + j)" m n body st] assms
  by (simp add: image_shift_rect inj_on_def)

lemma raster_rows:
  fixes m n :: u32
  assumes "\<And>i j S. i < unat m \<Longrightarrow> j < unat n \<Longrightarrow> (x + j, y + i) \<notin> S \<Longrightarrow>
      body (of_nat i) (of_nat j) (st S) = Inr (st (insert (x + j, y + i) S))"
  shows "for_up (\<lambda>i. for_up (body i) 0 n) 0 m (st {}) = Inr (st (rect x y (unat n) (unat m)))"
  using raster [of "\<lambda>(i, j). (x + j, y + i)" m n body st] assms
  by (simp add: image_shift_rect inj_on_def)


text \<open>A loop that starts at \<open>b\<close>.\<close>

lemma for_up_shift_aux:
  fixes b e :: "'w::len word"
  assumes "b \<le> e" and "i \<le> e - b"
  shows "for_up (\<lambda>i. body (b + i)) i (e - b) s = for_up body (b + i) e s"
  using assms(2)
proof (induction "\<lambda>i. body (b + i)" i "e - b" s rule: for_up.induct)
  case (1 i s)
  have "unat b + unat i \<le> unat e" using 1(2) assms(1) by (simp add: word_le_nat_alt unat_sub)
  moreover have "unat e < 2 ^ LENGTH('w)" by (rule unsigned_less)
  ultimately have "unat b + unat i < 2 ^ LENGTH('w)" by linarith
  then have u: "unat (b + i) = unat b + unat i" by (simp add: unat_word_ariths)
  have iff: "i < e - b \<longleftrightarrow> b + i < e" using assms(1) by (simp add: word_less_nat_alt u unat_sub word_le_nat_alt) arith
  show ?case
  proof (cases "i < e - b")
    case True
    have "for_up (\<lambda>i. body (b + i)) (i + 1) (e - b) t = for_up body (b + i + 1) e t"
      if "body (b + i) s = Inr t" for t
      using 1(1) [OF True that] less_Suc_le [OF True] by (simp add: add.assoc)
    then show ?thesis using True iff by (cases "body (b + i) s") (simp_all add: for_up_step)
  qed (use iff in simp)
qed

lemma for_up_shift: "b \<le> e \<Longrightarrow> for_up body b e s = for_up (\<lambda>i. body (b + i)) 0 (e - b) s"
  using for_up_shift_aux [of b e 0 body s] by simp

section \<open>The shape of a console\<close>

definition fb_shape :: "fb \<Rightarrow> bool" where
  "fb_shape s \<longleftrightarrow>
     (\<exists>g. gFramebuffer s = Some g \<and> length g = length (gFramebufferCopy s)) \<and>
     unat (gWidth s) \<le> unat (gRowPixels s) \<and>
     unat (gRowPixels s) * unat (gHeight s) \<le> length (gFramebufferCopy s) \<and>
     length (gFramebufferCopy s) < 2 ^ 32"

abbreviation picture :: "fb \<Rightarrow> u32 list" where
  "picture s \<equiv> the (gFramebuffer s)"

abbreviation row_pixels :: "fb \<Rightarrow> nat" where
  "row_pixels s \<equiv> unat (gRowPixels s)"

abbreviation scale :: "fb \<Rightarrow> nat" where
  "scale s \<equiv> unat (scale_factor s)"

text \<open>The state in which the pixels of \<open>S\<close> have been drawn with the colours \<open>F\<close>.\<close>

definition drawn :: "(nat \<times> nat) set \<Rightarrow> (nat \<Rightarrow> nat \<Rightarrow> u32) \<Rightarrow> fb \<Rightarrow> fb" where
  "drawn S F s = s\<lparr>gFramebuffer := Some (paint (row_pixels s) S F (picture s))\<rparr>"

definition copy_at :: "fb \<Rightarrow> nat \<Rightarrow> nat \<Rightarrow> u32" where
  "copy_at s a b = gFramebufferCopy s ! (a + b * row_pixels s)"

lemma drawn_simps [simp]:
  "gFramebuffer (drawn S F s) = Some (paint (row_pixels s) S F (picture s))"
  "gFramebufferCopy (drawn S F s) = gFramebufferCopy s"
  "gWidth (drawn S F s) = gWidth s" "gHeight (drawn S F s) = gHeight s"
  "gRowPixels (drawn S F s) = gRowPixels s" "y_cursor (drawn S F s) = y_cursor s"
  "x_cursor (drawn S F s) = x_cursor s" "scale_factor (drawn S F s) = scale_factor s"
  "bannerHeight (drawn S F s) = bannerHeight s" "basecolor (drawn S F s) = basecolor s"
  "dis_int_count (drawn S F s) = dis_int_count s" "daif_unmasked (drawn S F s) = daif_unmasked s"
  "SCALE_FACTOR (drawn S F s) = SCALE_FACTOR s" "LEFT_MARGIN (drawn S F s) = LEFT_MARGIN s"
  by (simp_all add: drawn_def SCALE_FACTOR_def LEFT_MARGIN_def)

lemma drawn_empty: "fb_shape s \<Longrightarrow> drawn {} F s = s"
  by (auto simp: fb_shape_def drawn_def)

lemma fb_shape_drawn [simp]: "fb_shape s \<Longrightarrow> fb_shape (drawn S F s)"
  by (auto simp: fb_shape_def)

lemma index_in_shape:
  assumes "fb_shape s" and "a < row_pixels s" and "b < unat (gHeight s)"
  shows "a + b * row_pixels s < length (gFramebufferCopy s)"
    and "unat (of_nat a + of_nat b * gRowPixels s) = a + b * row_pixels s"
proof -
  have "a + b * row_pixels s < Suc b * row_pixels s" using assms(2) by simp
  also have "\<dots> \<le> unat (gHeight s) * row_pixels s" by (rule mult_le_mono1) (use assms(3) in simp)
  also have "\<dots> \<le> length (gFramebufferCopy s)" using assms(1) by (simp add: fb_shape_def mult.commute)
  finally show l: "a + b * row_pixels s < length (gFramebufferCopy s)" .
  moreover have "length (gFramebufferCopy s) < 2 ^ 32" using assms(1) by (simp add: fb_shape_def)
  ultimately have lt: "a + b * row_pixels s < 2 ^ 32" by linarith
  have "of_nat a + of_nat b * gRowPixels s = of_nat (a + b * row_pixels s)" by simp
  then show "unat (of_nat a + of_nat b * gRowPixels s) = a + b * row_pixels s"
    using lt by (simp add: unat_of_nat take_bit_nat_eq_self del: of_nat_add of_nat_mult)
qed

lemma fb_set_drawn:
  assumes "fb_shape s" and "a < row_pixels s" and "b < unat (gHeight s)"
    and "unat i = a + b * row_pixels s" and "v = F a b"
  shows "fb_set (drawn S F s) i v = Inr (drawn (insert (a, b) S) F s)"
  using assms index_in_shape(1) [OF assms(1-3)]
  by (auto simp: fb_set_def pixel_set_def fb_shape_def paint_put drawn_def)

lemma pixel_get_copy:
  assumes "fb_shape s" and "a < row_pixels s" and "b < unat (gHeight s)"
    and "unat i = a + b * row_pixels s"
  shows "pixel_get (gFramebufferCopy s) i = Inr (copy_at s a b)"
  using assms index_in_shape(1) [OF assms(1-3)] by (simp add: pixel_get_def copy_at_def)

section \<open>The drawing operations\<close>

lemma unat_SCALE [simp]: "unat (SCALE_FACTOR s) = scale s"
  by (simp add: SCALE_FACTOR_def unat_ucast_up)

lemma scale_less: "scale s < 256"
  using unsigned_less [of "scale_factor s", where ?'a = nat] by simp

lemma unat_8_SCALE [simp]: "unat (8 * SCALE_FACTOR s) = 8 * scale s"
  using scale_less [of s] by (simp add: unat_word_ariths)

lemma unat_1_8_SCALE [simp]: "unat (1 + 8 * SCALE_FACTOR s) = 1 + 8 * scale s"
  using scale_less [of s] by (simp add: unat_word_ariths)

theorem screen_fill_drawn:
  assumes "fb_shape s"
  shows "screen_fill color s = Inr (drawn (rect 0 0 (unat (gWidth s)) (unat (gHeight s))) (\<lambda>_ _. color) s)"
proof -
  let ?F = "\<lambda>_ _. color"
  have "for_up (\<lambda>y. for_up (\<lambda>x s. fb_set s (x + y * gRowPixels s) color) 0 (gWidth s)) 0 (gHeight s)
      (drawn {} ?F s) = Inr (drawn (rect 0 0 (unat (gWidth s)) (unat (gHeight s))) ?F s)"
  proof (rule raster_rows [where st = "\<lambda>S. drawn S ?F s"])
    fix i j S assume i: "i < unat (gHeight s)" and j: "j < unat (gWidth s)"
    then have "j < row_pixels s" using assms by (simp add: fb_shape_def)
    then show "fb_set (drawn S ?F s) (of_nat j + of_nat i * gRowPixels (drawn S ?F s)) color =
        Inr (drawn (insert (0 + j, 0 + i) S) ?F s)"
      using fb_set_drawn [OF assms _ i index_in_shape(2) [OF assms _ i], of j color ?F S] by simp
  qed
  then show ?thesis by (simp add: screen_fill_def drawn_empty [OF assms])
qed

lemma restore_pixel_drawn:
  assumes "fb_shape s" and "a < row_pixels s" and "b < unat (gHeight s)"
    and "unat i = a + b * row_pixels s"
  shows "restore_pixel i (drawn S (copy_at s) s) = Inr (drawn (insert (a, b) S) (copy_at s) s)"
  using fb_set_drawn [OF assms refl] pixel_get_copy [OF assms] by (simp add: restore_pixel_def)

lemma screen_clear_row_drawn:
  assumes sh: "fb_shape s" and fits: "unat (y_cursor s) + (1 + 8 * scale s) \<le> unat (gHeight s)"
  shows "screen_clear_row s =
    Inr (drawn (rect 0 (unat (y_cursor s)) (unat (gWidth s)) (1 + 8 * scale s)) (copy_at s) s)"
proof -
  let ?F = "copy_at s" and ?n = "1 + 8 * SCALE_FACTOR s"
  have "for_up (\<lambda>y. for_up (\<lambda>x s. restore_pixel (x + ((y + y_cursor s) * gRowPixels s)) s) 0 (gWidth s))
      0 ?n (drawn {} ?F s) = Inr (drawn (rect 0 (unat (y_cursor s)) (unat (gWidth s)) (unat ?n)) ?F s)"
  proof (rule raster_rows [where st = "\<lambda>S. drawn S ?F s"])
    fix i j S assume i: "i < unat ?n" and j: "j < unat (gWidth s)"
    have b: "unat (y_cursor s) + i < unat (gHeight s)" using i fits by simp
    have a: "j < row_pixels s" using j sh by (simp add: fb_shape_def)
    have e: "of_nat j + (of_nat i + y_cursor s) * gRowPixels s =
        of_nat j + of_nat (unat (y_cursor s) + i) * gRowPixels s" by (simp add: add.commute)
    show "restore_pixel (of_nat j + (of_nat i + y_cursor (drawn S ?F s)) * gRowPixels (drawn S ?F s)) (drawn S ?F s) =
        Inr (drawn (insert (0 + j, unat (y_cursor s) + i) S) ?F s)"
      using restore_pixel_drawn [OF sh a b index_in_shape(2) [OF sh a b], of S]
      by (simp only: drawn_simps e add_0)
  qed
  then show ?thesis by (simp add: screen_clear_row_def drawn_empty [OF sh])
qed

definition glyph_colour :: "u8 \<Rightarrow> nat \<Rightarrow> nat \<Rightarrow> fb \<Rightarrow> nat \<Rightarrow> nat \<Rightarrow> u32" where
  "glyph_colour c X Y s a b =
     (if glyph_pixel (SCALE_FACTOR s) c (of_nat (a - X)) (of_nat (b - Y)) then NOT (basecolor s)
      else colors_average (copy_at s a b) (basecolor s))"

lemma xor_ones32 [simp]: "x XOR 0xFFFFFFFF = NOT (x :: u32)"
proof -
  have "(0xFFFFFFFF :: u32) = - 1" by simp
  then show ?thesis by (simp only: bit.xor_one_right)
qed

lemma draw_glyph_drawn:
  assumes sh: "fb_shape s" and "unat X + 8 * scale s \<le> row_pixels s"
    and "unat Y + 8 * scale s \<le> unat (gHeight s)"
  shows "draw_glyph c X Y s =
    Inr (drawn (rect (unat X) (unat Y) (8 * scale s) (8 * scale s)) (glyph_colour c (unat X) (unat Y) s) s)"
proof -
  let ?F = "glyph_colour c (unat X) (unat Y) s" and ?n = "8 * SCALE_FACTOR s"
  have "for_up (\<lambda>x. for_up (draw_pixel c X Y x) 0 ?n) 0 ?n (drawn {} ?F s) =
      Inr (drawn (rect (unat X) (unat Y) (unat ?n) (unat ?n)) ?F s)"
  proof (rule raster_columns [where st = "\<lambda>S. drawn S ?F s"])
    fix i j S assume "i < unat ?n" "j < unat ?n"
    then have a: "unat X + i < row_pixels s" and b: "unat Y + j < unat (gHeight s)" using assms(2,3) by simp_all
    have e: "of_nat i + X + (of_nat j + Y) * gRowPixels s =
        of_nat (unat X + i) + of_nat (unat Y + j) * gRowPixels s" by (simp add: add.commute)
    show "draw_pixel c X Y (of_nat i) (of_nat j) (drawn S ?F s) =
        Inr (drawn (insert (unat X + i, unat Y + j) S) ?F s)"
      using fb_set_drawn [OF sh a b index_in_shape(2) [OF sh a b], of _ ?F S]
        pixel_get_copy [OF sh a b index_in_shape(2) [OF sh a b]]
      by (simp only: draw_pixel_def Let_def drawn_simps e) (simp add: glyph_colour_def split: if_splits)
  qed
  then show ?thesis by (simp add: draw_glyph_def drawn_empty [OF sh])
qed


lemma screen_clear_all_drawn:
  assumes sh: "fb_shape s" and le: "bannerHeight s \<le> gHeight s"
  shows "screen_clear_all s =
    Inr ((drawn (rect 0 (unat (bannerHeight s)) (unat (gWidth s)) (unat (gHeight s) - unat (bannerHeight s)))
           (copy_at s) s)\<lparr>y_cursor := bannerHeight s\<rparr>)"
proof -
  let ?s = "s\<lparr>y_cursor := bannerHeight s\<rparr>" and ?m = "gHeight s - bannerHeight s"
  let ?F = "copy_at ?s"
  have sh': "fb_shape ?s" using sh by (simp add: fb_shape_def)
  have le': "bannerHeight ?s \<le> gHeight ?s" using le by simp
  have m: "unat ?m = unat (gHeight s) - unat (bannerHeight s)" using le by (simp add: unat_sub word_le_nat_alt)
  have "for_up (\<lambda>i. for_up (\<lambda>x s. restore_pixel (x + (bannerHeight ?s + i) * gRowPixels s) s) 0 (gWidth s))
      0 ?m (drawn {} ?F ?s) = Inr (drawn (rect 0 (unat (bannerHeight s)) (unat (gWidth s)) (unat ?m)) ?F ?s)"
  proof (rule raster_rows [where st = "\<lambda>S. drawn S ?F ?s"])
    fix i j S assume i: "i < unat ?m" and j: "j < unat (gWidth s)"
    have b: "unat (bannerHeight s) + i < unat (gHeight ?s)" using i m by simp
    have a: "j < row_pixels ?s" using j sh by (simp add: fb_shape_def)
    have e: "of_nat j + (bannerHeight ?s + of_nat i) * gRowPixels ?s =
        of_nat j + of_nat (unat (bannerHeight s) + i) * gRowPixels ?s" by simp
    show "restore_pixel (of_nat j + (bannerHeight ?s + of_nat i) * gRowPixels (drawn S ?F ?s)) (drawn S ?F ?s) =
        Inr (drawn (insert (0 + j, unat (bannerHeight s) + i) S) ?F ?s)"
      using restore_pixel_drawn [OF sh' a b index_in_shape(2) [OF sh' a b], of S]
      by (simp only: drawn_simps e add_0)
  qed
  moreover have "drawn S ?F ?s = (drawn S (copy_at s) s)\<lparr>y_cursor := bannerHeight s\<rparr>" for S
    by (simp add: drawn_def copy_at_def [abs_def])
  ultimately show ?thesis
    unfolding screen_clear_all_def Let_def for_up_shift [OF le', of _ ?s] by (simp add: m drawn_empty [OF sh])
qed

text \<open>Inversion, of the picture and of its copy.\<close>

definition inverted :: "(nat \<times> nat) set \<Rightarrow> fb \<Rightarrow> fb" where
  "inverted S s = s\<lparr>
     gFramebuffer := Some (paint (row_pixels s) S (\<lambda>a b. NOT (picture s ! (a + b * row_pixels s))) (picture s)),
     gFramebufferCopy := paint (row_pixels s) S (\<lambda>a b. NOT (copy_at s a b)) (gFramebufferCopy s)\<rparr>"

lemma invert_pixel_inverted:
  assumes sh: "fb_shape s" and a: "a < row_pixels s" and b: "b < unat (gHeight s)"
    and i: "unat i = a + b * row_pixels s" and S: "(a, b) \<notin> S"
  shows "invert_pixel i (inverted S s) = Inr (inverted (insert (a, b) S) s)"
proof -
  have l: "a + b * row_pixels s < length (gFramebufferCopy s)" by (rule index_in_shape(1) [OF sh a b])
  obtain g where g: "gFramebuffer s = Some g" "length g = length (gFramebufferCopy s)"
    using sh by (auto simp: fb_shape_def)
  note put = paint_put [OF a, of S "\<lambda>a b. NOT (g ! (a + b * row_pixels s))" g b]
    paint_put [OF a, of S "\<lambda>a b. NOT (copy_at s a b)" "gFramebufferCopy s" b]
  show ?thesis
    using S l g put a by (simp add: invert_pixel_def inverted_def fb_get_def fb_set_def pixel_get_def
        pixel_set_def i nth_paint copy_at_def)
qed

lemma screen_invert_inverted:
  assumes sh: "fb_shape s"
  shows "screen_invert s =
    Inr ((inverted (rect 0 0 (unat (gWidth s)) (unat (gHeight s))) s)\<lparr>basecolor := NOT (basecolor s)\<rparr>)"
proof -
  have e0: "inverted {} s = s" using sh by (auto simp: inverted_def fb_shape_def)
  have "for_up (\<lambda>y. for_up (\<lambda>x s. invert_pixel (x + y * gRowPixels s) s) 0 (gWidth s)) 0 (gHeight s)
      (inverted {} s) = Inr (inverted (rect 0 0 (unat (gWidth s)) (unat (gHeight s))) s)"
  proof (rule raster_rows [where st = "\<lambda>S. inverted S s"])
    fix i j S assume i: "i < unat (gHeight s)" and j: "j < unat (gWidth s)" and S: "(0 + j, 0 + i) \<notin> S"
    then have a: "j < row_pixels s" using sh by (simp add: fb_shape_def)
    show "invert_pixel (of_nat j + of_nat i * gRowPixels (inverted S s)) (inverted S s) =
        Inr (inverted (insert (0 + j, 0 + i) S) s)"
      using invert_pixel_inverted [OF sh a i index_in_shape(2) [OF sh a i]] S
      by (simp add: inverted_def)
  qed
  then show ?thesis by (simp add: screen_invert_def e0) (simp add: inverted_def)
qed

lemma fb_shape_inverted: "fb_shape s \<Longrightarrow> fb_shape ((inverted S s)\<lparr>basecolor := c\<rparr>)"
  by (auto simp: fb_shape_def inverted_def)

lemma paint_NOT_twice:
  fixes g :: "u32 list" and R :: nat and S :: "(nat \<times> nat) set"
  defines "h \<equiv> paint R S (\<lambda>a b. NOT (g ! (a + b * R))) g"
  shows "paint R S (\<lambda>a b. NOT (h ! (a + b * R))) h = g"
proof (rule nth_equalityI)
  fix k assume "k < length (paint R S (\<lambda>a b. NOT (h ! (a + b * R))) h)"
  then have "k < length g" by (simp add: h_def)
  then show "paint R S (\<lambda>a b. NOT (h ! (a + b * R))) h ! k = g ! k"
    by (simp add: h_def nth_paint mod_div_mult_eq)
qed (simp add: h_def)

lemma inverted_twice:
  assumes "fb_shape s"
  shows "(inverted S ((inverted S s)\<lparr>basecolor := NOT (basecolor s)\<rparr>))\<lparr>basecolor := NOT (NOT (basecolor s))\<rparr> = s"
proof -
  obtain g where "gFramebuffer s = Some g" using assms by (auto simp: fb_shape_def)
  then show ?thesis
    using paint_NOT_twice [of "row_pixels s" S g] paint_NOT_twice [of "row_pixels s" S "gFramebufferCopy s"]
    by (simp add: inverted_def copy_at_def)
qed


section \<open>The layout invariant\<close>

text \<open>
  The console has room for a line of text below the banner, the cursor's line lies between the
  banner and the bottom, and the cursor's column leaves a character's width to the right edge.
\<close>

definition fb_ok :: "fb \<Rightarrow> bool" where
  "fb_ok s \<longleftrightarrow> fb_shape s \<and> 0 < scale s \<and> scale s \<le> 3 \<and> 32 * scale s \<le> unat (gWidth s) \<and>
     unat (bannerHeight s) + (1 + 8 * scale s) \<le> unat (gHeight s) \<and>
     unat (bannerHeight s) \<le> unat (y_cursor s) \<and>
     unat (y_cursor s) + (1 + 8 * scale s) \<le> unat (gHeight s) \<and>
     unat (x_cursor s) + 8 * scale s \<le> unat (gWidth s)"

lemma fb_ok_shape [simp]: "fb_ok s \<Longrightarrow> fb_shape s"
  by (simp add: fb_ok_def)

lemma fb_ok_small:
  assumes "fb_ok s"
  shows "unat (gHeight s) < 2 ^ 27" "unat (gWidth s) < 2 ^ 29"
proof -
  have p: "unat (gRowPixels s) * unat (gHeight s) < 2 ^ 32" and w: "unat (gWidth s) \<le> unat (gRowPixels s)"
    using assms by (auto simp: fb_ok_def fb_shape_def)
  have "32 * unat (gHeight s) \<le> unat (gRowPixels s) * unat (gHeight s)"
    using assms w by (intro mult_le_mono1) (simp add: fb_ok_def)
  with p have "32 * unat (gHeight s) < 2 ^ 32" by (rule le_less_trans [rotated])
  then show "unat (gHeight s) < 2 ^ 27" by simp
  have "unat (gWidth s) * 9 \<le> unat (gRowPixels s) * unat (gHeight s)"
    using assms w by (intro mult_le_mono) (simp_all add: fb_ok_def)
  with p have "unat (gWidth s) * 9 < 2 ^ 32" by (rule le_less_trans [rotated])
  then show "unat (gWidth s) < 2 ^ 29" by simp
qed

lemma unat_LEFT_MARGIN [simp]: "unat (LEFT_MARGIN s) = 4 * scale s"
  using scale_less [of s] by (simp add: LEFT_MARGIN_def unat_word_ariths)

lemma fb_ok_backspace:
  assumes "fb_ok s"
  shows "fb_ok (cursor_backspace s)"
proof -
  have "unat (x_cursor s - 8 * SCALE_FACTOR s) \<le> unat (x_cursor s)" if "8 * SCALE_FACTOR s < x_cursor s"
    using less_imp_le [OF that] by (simp add: unat_sub)
  then show ?thesis using assms
    by (auto simp: cursor_backspace_def Let_def fb_ok_def fb_shape_def)
qed

lemma fb_ok_newline:
  assumes "fb_ok s"
  shows "fb_ok (cursor_newline s)"
    and "unat (x_cursor (cursor_newline s)) = 4 * scale s"
proof -
  note small = fb_ok_small [OF assms]
  have y: "unat (y_cursor s) < 2 ^ 27" using small assms by (simp add: fb_ok_def)
  have u1: "unat (y_cursor s + 12 * SCALE_FACTOR s + 16) = unat (y_cursor s) + 12 * scale s + 16"
    using y scale_less [of s] by (simp add: unat_word_ariths)
  have u2: "unat (y_cursor s + (1 + 8 * SCALE_FACTOR s)) = unat (y_cursor s) + (1 + 8 * scale s)"
    using y scale_less [of s] by (simp add: unat_word_ariths)
  show "unat (x_cursor (cursor_newline s)) = 4 * scale s"
    by (simp add: cursor_newline_def Let_def)
  show "fb_ok (cursor_newline s)"
    using assms u1 u2 by (auto simp: cursor_newline_def Let_def fb_ok_def fb_shape_def word_less_nat_alt)
qed

lemma cursor_newline_simps [simp]:
  "gFramebuffer (cursor_newline s) = gFramebuffer s" "gFramebufferCopy (cursor_newline s) = gFramebufferCopy s"
  "gWidth (cursor_newline s) = gWidth s" "gHeight (cursor_newline s) = gHeight s"
  "gRowPixels (cursor_newline s) = gRowPixels s" "scale_factor (cursor_newline s) = scale_factor s"
  "bannerHeight (cursor_newline s) = bannerHeight s" "basecolor (cursor_newline s) = basecolor s"
  by (simp_all add: cursor_newline_def Let_def)

lemma cursor_backspace_simps [simp]:
  "gFramebuffer (cursor_backspace s) = gFramebuffer s" "gFramebufferCopy (cursor_backspace s) = gFramebufferCopy s"
  "gWidth (cursor_backspace s) = gWidth s" "gHeight (cursor_backspace s) = gHeight s"
  "gRowPixels (cursor_backspace s) = gRowPixels s" "scale_factor (cursor_backspace s) = scale_factor s"
  "bannerHeight (cursor_backspace s) = bannerHeight s" "basecolor (cursor_backspace s) = basecolor s"
  by (simp_all add: cursor_backspace_def Let_def)

lemma fb_ok_drawn [simp]: "fb_ok (drawn S F s) = fb_ok s" if "fb_shape s"
  using that by (simp add: fb_ok_def)

section \<open>Interrupts around the drawing\<close>

definition with_irq :: "u64 \<Rightarrow> bool \<Rightarrow> fb \<Rightarrow> fb" where
  "with_irq n d s = s\<lparr>dis_int_count := n, daif_unmasked := d\<rparr>"

lemma copy_at_with_irq [simp]: "copy_at (with_irq n d s) = copy_at s"
  by (intro ext) (simp add: copy_at_def with_irq_def)

lemma glyph_colour_with_irq [simp]: "glyph_colour c X Y (with_irq n d s) = glyph_colour c X Y s"
  by (intro ext) (simp add: glyph_colour_def with_irq_def copy_at_def SCALE_FACTOR_def)

lemma with_irq_simps [simp]:
  "gFramebuffer (with_irq n d s) = gFramebuffer s"
  "gFramebufferCopy (with_irq n d s) = gFramebufferCopy s"
  "gWidth (with_irq n d s) = gWidth s" "gHeight (with_irq n d s) = gHeight s"
  "gRowPixels (with_irq n d s) = gRowPixels s" "y_cursor (with_irq n d s) = y_cursor s"
  "x_cursor (with_irq n d s) = x_cursor s" "scale_factor (with_irq n d s) = scale_factor s"
  "bannerHeight (with_irq n d s) = bannerHeight s" "basecolor (with_irq n d s) = basecolor s"
  "dis_int_count (with_irq n d s) = n" "daif_unmasked (with_irq n d s) = d"
  "SCALE_FACTOR (with_irq n d s) = SCALE_FACTOR s" "LEFT_MARGIN (with_irq n d s) = LEFT_MARGIN s"
  "with_irq n d (with_irq n' d' s) = with_irq n d s"
  "with_irq (dis_int_count s) (daif_unmasked s) s = s"
  "fb_shape (with_irq n d s) = fb_shape s" "fb_ok (with_irq n d s) = fb_ok s"
  "drawn S F (with_irq n d s) = with_irq n d (drawn S F s)"
  "cursor_backspace (with_irq n d s) = with_irq n d (cursor_backspace s)"
  "cursor_newline (with_irq n d s) = with_irq n d (cursor_newline s)"
  "(with_irq n d s)\<lparr>x_cursor := x\<rparr> = with_irq n d (s\<lparr>x_cursor := x\<rparr>)"
  by (simp_all add: with_irq_def SCALE_FACTOR_def LEFT_MARGIN_def
      fb_shape_def fb_ok_def drawn_def cursor_backspace_def
      cursor_newline_def Let_def)

lemma disable_with_irq:
  "dis_int_count s \<noteq> - 1 \<Longrightarrow> disable_interrupts s = Inr (with_irq (dis_int_count s + 1) False s)"
  by (simp add: disable_interrupts_returns with_irq_def)

lemma enable_with_irq:
  "n \<noteq> - 1 \<Longrightarrow> enable_interrupts (with_irq (n + 1) False s) = Inr (with_irq n (n = 0) s)"
  by (simp add: enable_interrupts_returns with_irq_def add_eq_0_iff2)

section \<open>What a character does\<close>

definition cleared_row :: "fb \<Rightarrow> fb" where
  "cleared_row s =
     drawn (rect 0 (unat (y_cursor s)) (unat (gWidth s)) (1 + 8 * scale s)) (copy_at s) s"

definition line_full :: "fb \<Rightarrow> bool" where
  "line_full s \<longleftrightarrow> unat (gWidth s) < unat (x_cursor s) + 16 * scale s"

definition glyph_drawn :: "u8 \<Rightarrow> fb \<Rightarrow> fb" where
  "glyph_drawn c s =
     drawn (rect (unat (x_cursor s)) (unat (y_cursor s)) (8 * scale s) (8 * scale s))
       (glyph_colour c (unat (x_cursor s)) (unat (y_cursor s)) s) s"

text \<open>The character's effect apart from interrupts: the specification of \<open>screen_putc\<close>.\<close>

definition at_line :: "u8 \<Rightarrow> fb \<Rightarrow> fb" where
  "at_line c s = (if c = 10 \<or> line_full s then cleared_row (cursor_newline s) else s)"

definition printed :: "u8 \<Rightarrow> fb \<Rightarrow> fb" where
  "printed c t =
     (if c = 10 then t
      else if c = 13 then cleared_row (t\<lparr>x_cursor := LEFT_MARGIN t\<rparr>)
      else glyph_drawn c (t\<lparr>x_cursor := x_cursor t + 8 * SCALE_FACTOR t\<rparr>))"

definition putc_spec :: "u8 \<Rightarrow> fb \<Rightarrow> fb" where
  "putc_spec c s =
     (if c = 8 then cursor_backspace s else printed c (at_line c s))"

lemma cleared_row_simps [simp]:
  "gWidth (cleared_row s) = gWidth s" "gHeight (cleared_row s) = gHeight s"
  "gRowPixels (cleared_row s) = gRowPixels s" "gFramebufferCopy (cleared_row s) = gFramebufferCopy s"
  "x_cursor (cleared_row s) = x_cursor s" "y_cursor (cleared_row s) = y_cursor s"
  "scale_factor (cleared_row s) = scale_factor s" "bannerHeight (cleared_row s) = bannerHeight s"
  "SCALE_FACTOR (cleared_row s) = SCALE_FACTOR s" "basecolor (cleared_row s) = basecolor s"
  "LEFT_MARGIN (cleared_row s) = LEFT_MARGIN s"
  "cleared_row (with_irq n d s) = with_irq n d (cleared_row s)"
  by (simp_all add: cleared_row_def)

lemma screen_clear_row_ok:
  assumes "fb_ok s"
  shows "screen_clear_row s = Inr (cleared_row s)" and "fb_ok (cleared_row s)"
  using assms screen_clear_row_drawn [of s] by (simp_all add: cleared_row_def fb_ok_def)

lemma fb_ok_left_margin: "fb_ok s \<Longrightarrow> fb_ok (s\<lparr>x_cursor := LEFT_MARGIN s\<rparr>)"
  by (auto simp: fb_ok_def fb_shape_def)

lemma line_full_iff:
  assumes "fb_ok s"
  shows "(gWidth s - LEFT_MARGIN s * 2 < x_cursor s + 8 * SCALE_FACTOR s) = line_full s"
proof -
  have m: "unat (LEFT_MARGIN s * 2) = 8 * scale s" using scale_less [of s] by (simp add: unat_word_ariths)
  then have "LEFT_MARGIN s * 2 \<le> gWidth s" using assms by (simp add: word_le_nat_alt fb_ok_def)
  then have "unat (gWidth s - LEFT_MARGIN s * 2) = unat (gWidth s) - 8 * scale s" by (simp add: unat_sub m)
  moreover have "unat (x_cursor s + 8 * SCALE_FACTOR s) = unat (x_cursor s) + 8 * scale s"
    using fb_ok_small(2) [OF assms] assms by (simp add: unat_word_ariths fb_ok_def)
  ultimately show ?thesis using assms by (auto simp: word_less_nat_alt line_full_def fb_ok_def)
qed

lemma fb_ok_advance:
  assumes "fb_ok s" and "\<not> line_full s"
  shows "fb_ok (s\<lparr>x_cursor := x_cursor s + 8 * SCALE_FACTOR s\<rparr>)"
proof -
  have "unat (x_cursor s + 8 * SCALE_FACTOR s) = unat (x_cursor s) + 8 * scale s"
    using fb_ok_small(2) [OF assms(1)] assms by (simp add: unat_word_ariths fb_ok_def)
  then show ?thesis using assms by (auto simp: fb_ok_def fb_shape_def line_full_def)
qed

lemma draw_glyph_ok:
  assumes "fb_ok s"
  shows "draw_glyph c (x_cursor s) (y_cursor s) s = Inr (glyph_drawn c s)" and "fb_ok (glyph_drawn c s)"
proof -
  have "unat (x_cursor s) + 8 * scale s \<le> row_pixels s" "unat (y_cursor s) + 8 * scale s \<le> unat (gHeight s)"
    using assms by (auto simp: fb_ok_def fb_shape_def)
  from draw_glyph_drawn [OF fb_ok_shape [OF assms] this]
  show "draw_glyph c (x_cursor s) (y_cursor s) s = Inr (glyph_drawn c s)" by (simp add: glyph_drawn_def)
  show "fb_ok (glyph_drawn c s)" by (simp add: glyph_drawn_def assms)
qed

lemma newline_cleared:
  assumes "fb_ok s"
  shows "fb_ok (cleared_row (cursor_newline s))" "\<not> line_full (cleared_row (cursor_newline s))"
proof -
  show "fb_ok (cleared_row (cursor_newline s))" by (rule screen_clear_row_ok(2) [OF fb_ok_newline(1) [OF assms]])
  show "\<not> line_full (cleared_row (cursor_newline s))"
    using fb_ok_newline(2) [OF assms] assms by (simp add: line_full_def fb_ok_def)
qed

lemma glyph_drawn_with_irq [simp]: "glyph_drawn c (with_irq n d s) = with_irq n d (glyph_drawn c s)"
  by (simp add: glyph_drawn_def)

lemma printed_ok:
  assumes "fb_ok t" and "c \<noteq> 10 \<Longrightarrow> \<not> line_full t"
  shows "fb_ok (printed c t)"
  using assms screen_clear_row_ok(2) [OF fb_ok_left_margin] draw_glyph_ok(2) [OF fb_ok_advance]
  by (simp add: printed_def)

lemma at_line_ok:
  assumes "fb_ok s"
  shows "fb_ok (at_line c s)" and "c \<noteq> 10 \<Longrightarrow> \<not> line_full (at_line c s)"
  using assms newline_cleared [OF assms] by (auto simp: at_line_def)

lemma screen_putc_spec:
  assumes ok: "fb_ok s" and irq: "dis_int_count s \<noteq> - 1"
  shows "screen_putc c s = Inr (with_irq (dis_int_count s) (dis_int_count s = 0) (putc_spec c s))"
    and "fb_ok (putc_spec c s)"
proof -
  let ?n = "dis_int_count s"
  let ?t = "at_line c s"
  note t = at_line_ok [OF ok, of c]
  obtain g where nn: "gFramebuffer s = Some g" using ok by (auto simp: fb_ok_def fb_shape_def)
  have row: "(if c = 10 \<or> gWidth s - LEFT_MARGIN s * 2 < x_cursor s + 8 * SCALE_FACTOR s
        then screen_clear_row (cursor_newline (with_irq (?n + 1) False s))
        else Inr (with_irq (?n + 1) False s)) = Inr (with_irq (?n + 1) False ?t)"
    using screen_clear_row_ok [of "with_irq (?n + 1) False (cursor_newline s)"] fb_ok_newline(1) [OF ok]
    by (simp add: line_full_iff [OF ok] at_line_def)
  show "screen_putc c s = Inr (with_irq ?n (?n = 0) (putc_spec c s))"
  proof (cases "c = 8 \<or> c = 10")
    case True
    then show ?thesis using nn row
      by (auto simp: screen_putc_def disable_with_irq [OF irq] enable_with_irq [OF irq] putc_spec_def
          at_line_def printed_def)
  next
    case False
    note m = screen_clear_row_ok(1) [of "with_irq (?n + 1) False (?t\<lparr>x_cursor := LEFT_MARGIN ?t\<rparr>)"]
    note g = draw_glyph_ok(1) [of "with_irq ?n (?n = 0) (?t\<lparr>x_cursor := x_cursor ?t + 8 * SCALE_FACTOR ?t\<rparr>)" c]
    show ?thesis using nn row False t fb_ok_left_margin [OF t(1)] fb_ok_advance [OF t(1)] m g
      by (cases "line_full s"; cases "c = 13")
        (simp_all add: screen_putc_def disable_with_irq [OF irq] enable_with_irq [OF irq] putc_spec_def Let_def
          line_full_iff [OF ok] at_line_def printed_def)
  qed
  show "fb_ok (putc_spec c s)"
    using fb_ok_backspace [OF ok] printed_ok [OF t] by (simp add: putc_spec_def)
qed


section \<open>What drawing leaves alone\<close>

text \<open>The geometry, the copy, and the rows of the picture above the banner line.\<close>

definition banner_kept :: "fb \<Rightarrow> fb \<Rightarrow> bool" where
  "banner_kept s t \<longleftrightarrow>
     gFramebufferCopy t = gFramebufferCopy s \<and> gWidth t = gWidth s \<and> gHeight t = gHeight s \<and>
     gRowPixels t = gRowPixels s \<and> scale_factor t = scale_factor s \<and>
     bannerHeight t = bannerHeight s \<and> basecolor t = basecolor s \<and>
     (\<forall>k < unat (bannerHeight s) * row_pixels s. picture t ! k = picture s ! k)"

lemma banner_kept_refl [simp]: "banner_kept s s"
  by (simp add: banner_kept_def)

lemma banner_kept_trans: "banner_kept s t \<Longrightarrow> banner_kept t u \<Longrightarrow> banner_kept s u"
  by (simp add: banner_kept_def)

lemma banner_kept_drawn:
  assumes ok: "fb_ok s" and below: "\<And>a b. (a, b) \<in> S \<Longrightarrow> unat (bannerHeight s) \<le> b"
  shows "banner_kept s (drawn S F s)"
proof -
  have "paint (row_pixels s) S F (picture s) ! k = picture s ! k"
    if k: "k < unat (bannerHeight s) * row_pixels s" for k
  proof -
    have "unat (bannerHeight s) * row_pixels s \<le> unat (gHeight s) * row_pixels s"
      using ok by (intro mult_le_mono1) (simp add: fb_ok_def)
    also have "\<dots> \<le> length (picture s)" using ok by (auto simp: fb_ok_def fb_shape_def mult.commute)
    finally have "k < length (picture s)" using k by linarith
    moreover have "k div row_pixels s < unat (bannerHeight s)" using k by (simp add: less_mult_imp_div_less)
    ultimately show ?thesis using below [of "k mod row_pixels s" "k div row_pixels s"]
      by (auto simp: nth_paint)
  qed
  then show ?thesis by (simp add: banner_kept_def)
qed

lemma banner_kept_cleared_row: "fb_ok s \<Longrightarrow> banner_kept s (cleared_row s)"
  unfolding cleared_row_def by (rule banner_kept_drawn) (auto simp: fb_ok_def)

lemma banner_kept_glyph: "fb_ok s \<Longrightarrow> banner_kept s (glyph_drawn c s)"
  unfolding glyph_drawn_def by (rule banner_kept_drawn) (auto simp: fb_ok_def)

lemma banner_kept_cursor [simp]:
  "banner_kept s (s\<lparr>x_cursor := x\<rparr>)" "banner_kept s (cursor_newline s)"
  "banner_kept s (cursor_backspace s)" "banner_kept s (with_irq n d s)"
  "banner_kept s (with_irq n d t) = banner_kept s t"
  by (simp_all add: banner_kept_def)

lemma banner_kept_printed:
  assumes "fb_ok t" and "c \<noteq> 10 \<Longrightarrow> \<not> line_full t"
  shows "banner_kept t (printed c t)"
proof -
  have "banner_kept t (cleared_row (t\<lparr>x_cursor := LEFT_MARGIN t\<rparr>))"
    by (rule banner_kept_trans [OF banner_kept_cursor(1) banner_kept_cleared_row])
      (rule fb_ok_left_margin [OF assms(1)])
  moreover have "banner_kept t (glyph_drawn c (t\<lparr>x_cursor := x_cursor t + 8 * SCALE_FACTOR t\<rparr>))"
    if "c \<noteq> 10" by (rule banner_kept_trans [OF banner_kept_cursor(1) banner_kept_glyph])
      (rule fb_ok_advance [OF assms(1) assms(2) [OF that]])
  ultimately show ?thesis by (simp add: printed_def)
qed

lemma banner_kept_putc: "fb_ok s \<Longrightarrow> banner_kept s (putc_spec c s)"
proof -
  assume ok: "fb_ok s"
  have "banner_kept s (cleared_row (cursor_newline s))"
    by (rule banner_kept_trans [OF banner_kept_cursor(2) banner_kept_cleared_row])
      (rule fb_ok_newline(1) [OF ok])
  then have "banner_kept s (at_line c s)" by (simp add: at_line_def)
  from banner_kept_trans [OF this banner_kept_printed [OF at_line_ok [OF ok]]]
  show ?thesis by (simp add: putc_spec_def)
qed

lemma screen_write_ok:
  assumes "fb_ok s" and "dis_int_count s \<noteq> - 1"
  shows "\<exists>t. screen_write str s = Inr t \<and> fb_ok t \<and> banner_kept s t \<and> dis_int_count t = dis_int_count s"
  using assms
proof (induction str arbitrary: s)
  case (Cons c str)
  let ?s = "with_irq (dis_int_count s) (dis_int_count s = 0) (putc_spec c s)"
  have k: "banner_kept s ?s" using banner_kept_putc [OF Cons.prems(1)] by simp
  obtain t where "screen_write str ?s = Inr t" "fb_ok t" "banner_kept ?s t" "dis_int_count t = dis_int_count s"
    using Cons.IH [of ?s] screen_putc_spec(2) [OF Cons.prems] Cons.prems(2) by auto
  then show ?case
    using screen_putc_spec(1) [OF Cons.prems] banner_kept_trans [OF k] Cons.prems by auto
qed auto

end
