(* ===== verification/FbClaims.thy ===== *)
theory FbClaims
  imports FbProps
begin

text \<open>
  The properties of the frame buffer console: what a character draws, what writing text leaves
  alone, inversion, and what initialisation sets up.
\<close>

unbundle bit_operations_syntax

section \<open>A small console\<close>

definition fb0 :: fb where
  "fb0 = \<lparr>dis_int_count = 0, daif_unmasked = True, gFramebuffer = Some (replicate 640 7),
     gFramebufferCopy = replicate 640 7, gWidth = 32, gHeight = 20, gRowPixels = 32, y_cursor = 1,
     x_cursor = 4, scale_factor = 1, bannerHeight = 1, basecolor = 0\<rparr>"

lemma fb0_ok: "fb_ok fb0" "dis_int_count fb0 \<noteq> - 1"
  by (simp_all add: fb_ok_def fb_shape_def fb0_def)

section \<open>A character\<close>

lemma picture_pixel:
  assumes "fb_shape s" and "a < row_pixels s" and "b < unat (gHeight s)"
  shows "picture (drawn S F s) ! (a + b * row_pixels s) =
    (if (a, b) \<in> S then F a b else picture s ! (a + b * row_pixels s))"
proof -
  have "a + b * row_pixels s < length (picture s)"
    using index_in_shape(1) [OF assms] assms(1) by (auto simp: fb_shape_def)
  then show ?thesis using assms(2) by (simp add: nth_paint)
qed

lemma row_pixels_with_irq: "row_pixels (with_irq n d s) = row_pixels s"
  by simp

lemma at_line_fields [simp]:
  "gRowPixels (at_line c s) = gRowPixels s" "gHeight (at_line c s) = gHeight s"
  "gWidth (at_line c s) = gWidth s" "gFramebufferCopy (at_line c s) = gFramebufferCopy s"
  "scale_factor (at_line c s) = scale_factor s" "basecolor (at_line c s) = basecolor s"
  by (simp_all add: at_line_def)

lemma copy_at_row_cleared: "copy_at (cursor_newline s) = copy_at s"
  by (intro ext) (simp add: copy_at_def)

lemma picture_at_line:
  assumes "fb_ok s" and "a < row_pixels s" and "b < unat (gHeight s)" and "c \<noteq> 10"
  shows "picture (at_line c s) ! (a + b * row_pixels s) =
    (if line_full s \<and> (a, b) \<in> rect 0 (unat (y_cursor (at_line c s))) (unat (gWidth s)) (1 + 8 * scale s)
     then copy_at s a b else picture s ! (a + b * row_pixels s))"
proof (cases "line_full s")
  case True
  let ?n = "cursor_newline s"
  have "at_line c s = drawn (rect 0 (unat (y_cursor ?n)) (unat (gWidth s)) (1 + 8 * scale s)) (copy_at s) ?n"
    using True by (simp add: at_line_def cleared_row_def copy_at_row_cleared)
  moreover have "a < row_pixels ?n" "b < unat (gHeight ?n)" using assms by simp_all
  ultimately show ?thesis
    using True picture_pixel [OF fb_ok_shape [OF fb_ok_newline(1) [OF assms(1)]], of a b _ "copy_at s"]
    by (simp del: drawn_simps(1) add: drawn_simps(2-))
next
  case False
  then show ?thesis using assms(4) by (simp add: at_line_def)
qed

text \<open>C30 What \<open>screen_putc\<close> draws for a character that is not a backspace, newline or carriage
  return, pixel by pixel. Wherever the cursor stands, the character returns with the cursor at the
  left upper corner of a cell of \<open>8 * scale_factor\<close> pixels a side that lies on the screen; each
  pixel of the cell shows the inverted base colour where the font's bit is set and otherwise the
  average of the base colour and the kept picture; when the line was full the rest of the new
  line's pixel rows is restored from the kept picture; every other pixel is unchanged.\<close>

theorem screen_putc_draws:
  assumes "fb_ok s" and "dis_int_count s \<noteq> - 1" and "c \<noteq> 8" and "c \<noteq> 10" and "c \<noteq> 13"
  shows "\<exists>t x y. screen_putc c s = Inr t \<and> unat (x_cursor t) = x \<and> unat (y_cursor t) = y \<and>
    x + 8 * unat (scale_factor s) \<le> unat (gWidth s) \<and> y + 8 * unat (scale_factor s) < unat (gHeight s) \<and>
    (\<forall>a b. a < unat (gRowPixels s) \<longrightarrow> b < unat (gHeight s) \<longrightarrow>
      picture t ! (a + b * unat (gRowPixels s)) =
        (if x \<le> a \<and> a < x + 8 * unat (scale_factor s) \<and> y \<le> b \<and> b < y + 8 * unat (scale_factor s)
         then if glyph_pixel (SCALE_FACTOR s) c (of_nat (a - x)) (of_nat (b - y))
              then NOT (basecolor s)
              else colors_average (gFramebufferCopy s ! (a + b * unat (gRowPixels s))) (basecolor s)
         else if line_full s \<and> a < unat (gWidth s) \<and> y \<le> b \<and> b \<le> y + 8 * unat (scale_factor s)
         then gFramebufferCopy s ! (a + b * unat (gRowPixels s))
         else picture s ! (a + b * unat (gRowPixels s))))"
proof -
  let ?t = "at_line c s"
  let ?u = "?t\<lparr>x_cursor := x_cursor ?t + 8 * SCALE_FACTOR ?t\<rparr>"
  let ?v = "glyph_drawn c ?u"
  let ?w = "with_irq (dis_int_count s) (dis_int_count s = 0) ?v"
  let ?x = "unat (x_cursor ?u)" and ?y = "unat (y_cursor ?u)"
  have put: "screen_putc c s = Inr ?w"
    using screen_putc_spec(1) [OF assms(1,2), of c] assms(3-5) by (simp add: putc_spec_def printed_def)
  have u: "fb_ok ?u" using fb_ok_advance at_line_ok [OF assms(1)] assms(4) by blast
  have cell: "?x + 8 * scale s \<le> unat (gWidth s)" "?y + 8 * scale s < unat (gHeight s)"
    using u by (simp_all add: fb_ok_def)
  have pix: "picture ?w ! (a + b * row_pixels s) =
      (if (a, b) \<in> rect ?x ?y (8 * scale s) (8 * scale s)
       then glyph_colour c ?x ?y ?u a b else picture ?u ! (a + b * row_pixels s))"
    if "a < row_pixels s" "b < unat (gHeight s)" for a b
    using picture_pixel [OF fb_ok_shape [OF u], of a b] that by (simp add: glyph_drawn_def)
  have old: "picture ?u ! (a + b * row_pixels s) =
      (if line_full s \<and> a < unat (gWidth s) \<and> ?y \<le> b \<and> b \<le> ?y + 8 * scale s
       then copy_at s a b else picture s ! (a + b * row_pixels s))"
    if "a < row_pixels s" "b < unat (gHeight s)" for a b
    using picture_at_line [OF assms(1) that assms(4)] by simp
  have colour: "glyph_colour c ?x ?y ?u a b =
      (if glyph_pixel (SCALE_FACTOR s) c (of_nat (a - ?x)) (of_nat (b - ?y)) then NOT (basecolor s)
       else colors_average (copy_at s a b) (basecolor s))" for a b
    by (simp add: glyph_colour_def copy_at_def SCALE_FACTOR_def)
  have xy: "unat (x_cursor ?w) = ?x" "unat (y_cursor ?w) = ?y" by (simp_all add: glyph_drawn_def)
  show ?thesis
    by (intro exI conjI allI impI, rule put, rule xy(1), rule xy(2), rule cell(1), rule cell(2))
      (simp only: pix old colour mem_Sigma_iff atLeastLessThan_iff conj_assoc copy_at_def)
qed

theorem screen_putc_draws_witness:
  "\<exists>t x y. screen_putc 0x41 fb0 = Inr t \<and> unat (x_cursor t) = x \<and> unat (y_cursor t) = y \<and>
    x + 8 * unat (scale_factor fb0) \<le> unat (gWidth fb0)"
proof -
  have "(0x41 :: u8) \<noteq> 8" "(0x41 :: u8) \<noteq> 10" "(0x41 :: u8) \<noteq> 13" by simp_all
  from screen_putc_draws [OF fb0_ok this] show ?thesis by blast
qed

section \<open>Writing text\<close>

text \<open>C31 Text of any length can be written to the console: every \<open>screen_puts\<close> returns, stays
  inside the video memory and its copy (an access outside them would be an error), leaves the
  cursor inside the text area and the interrupt nesting as it was, and changes neither the banner
  rows of the picture nor the kept copy.\<close>

theorem screen_puts_keeps_banner:
  assumes "fb_ok s" and "dis_int_count s \<noteq> - 1"
  shows "\<exists>t. screen_puts str s = Inr t \<and> fb_ok t \<and> gFramebufferCopy t = gFramebufferCopy s \<and>
    dis_int_count t = dis_int_count s \<and> bannerHeight t = bannerHeight s \<and>
    (\<forall>k < unat (bannerHeight s) * unat (gRowPixels s). picture t ! k = picture s ! k)"
proof -
  obtain t where t: "screen_write str s = Inr t" "fb_ok t" "banner_kept s t" "dis_int_count t = dis_int_count s"
    using screen_write_ok [OF assms] by blast
  obtain u where u: "screen_write [10] t = Inr u" "fb_ok u" "banner_kept t u" "dis_int_count u = dis_int_count t"
    using screen_write_ok [of t "[10]"] t assms(2) by auto
  have "screen_puts str s = Inr u" using t(1) u(1) by (auto simp: screen_puts_def)
  with u t banner_kept_trans [OF t(3) u(3)] show ?thesis by (auto simp: banner_kept_def)
qed

theorem screen_puts_keeps_banner_witness:
  "\<exists>t. screen_puts [0x41, 8, 13] fb0 = Inr t \<and> fb_ok t"
  using screen_puts_keeps_banner [of fb0 "[0x41, 8, 13]", OF fb0_ok] by blast

section \<open>Inversion\<close>

text \<open>\<open>screen_invert\<close> complements the pixels of the screen, the same pixels of the kept copy
  and the base colour, so the \<open>fbinvert\<close> command given twice is no command at all: text drawn
  in between uses the inverted base colour.\<close>

theorem screen_invert_twice:
  assumes "fb_shape s"
  shows "bindE (screen_invert s) screen_invert = Inr s"
  using screen_invert_inverted [OF assms] screen_invert_inverted [OF fb_shape_inverted [OF assms]]
    inverted_twice [OF assms] by (simp add: inverted_def)


theorem screen_invert_twice_witness: "bindE (screen_invert fb0) screen_invert = Inr fb0"
  using screen_invert_twice [OF fb_ok_shape [OF fb0_ok(1)]] .

section \<open>Initialisation\<close>

text \<open>The picture after the logo: the pixels of the logo's bits are inverted.\<close>

definition logo_colour :: "u32 \<Rightarrow> nat \<Rightarrow> nat \<Rightarrow> fb \<Rightarrow> nat \<Rightarrow> nat \<Rightarrow> u32" where
  "logo_colour f X Y s a b =
     (if gLogoBitmap ! unat (of_nat (b - Y) div f) AND push_bit (unat (of_nat (a - X) div f)) 1 \<noteq> 0
      then NOT (picture s ! (a + b * row_pixels s)) else picture s ! (a + b * row_pixels s))"

lemma fb_get_fresh:
  assumes "fb_shape s" and "a < row_pixels s" and "b < unat (gHeight s)"
    and "unat i = a + b * row_pixels s" and "(a, b) \<notin> S"
  shows "fb_get (drawn S F s) i = Inr (picture s ! (a + b * row_pixels s))"
  using assms index_in_shape(1) [OF assms(1-3)]
  by (auto simp: fb_get_def pixel_get_def fb_shape_def nth_paint)

lemma logo_drawn:
  assumes sh: "fb_shape s" and x: "unat X + 32 * unat f \<le> row_pixels s"
    and y: "unat Y + 32 * unat f \<le> unat (gHeight s)" and f: "unat (32 * f) = 32 * unat f"
  shows "for_up (\<lambda>y. for_up (logo_pixel f X Y y) 0 (32 * f)) 0 (32 * f) s =
    Inr (drawn (rect (unat X) (unat Y) (32 * unat f) (32 * unat f)) (logo_colour f (unat X) (unat Y) s) s)"
proof -
  let ?F = "logo_colour f (unat X) (unat Y) s"
  have "for_up (\<lambda>y. for_up (logo_pixel f X Y y) 0 (32 * f)) 0 (32 * f) (drawn {} ?F s) =
      Inr (drawn (rect (unat X) (unat Y) (unat (32 * f)) (unat (32 * f))) ?F s)"
  proof (rule raster_rows [where st = "\<lambda>S. drawn S ?F s"])
    fix i j S
    assume "i < unat (32 * f)" "j < unat (32 * f)" and S: "(unat X + j, unat Y + i) \<notin> S"
    then have a: "unat X + j < row_pixels s" and b: "unat Y + i < unat (gHeight s)" using x y f by simp_all
    have e: "X + of_nat j + (Y + of_nat i) * gRowPixels s =
        of_nat (unat X + j) + of_nat (unat Y + i) * gRowPixels s" by simp
    note ind = index_in_shape(2) [OF sh a b]
    show "logo_pixel f X Y (of_nat i) (of_nat j) (drawn S ?F s) =
        Inr (drawn (insert (unat X + j, unat Y + i) S) ?F s)"
      unfolding logo_pixel_def Let_def drawn_simps e fb_get_fresh [OF sh a b ind S] bindE_simps xor_ones32
      by (rule fb_set_drawn [OF sh a b ind]) (simp add: logo_colour_def)
  qed
  then show ?thesis by (simp add: drawn_empty [OF sh] f)
qed

lemma screen_window_offset: "unat (fst (screen_window k v)) < 0x4000"
proof -
  have m: "(0x3fff :: u64) = mask 14" "(0xfff :: u64) = mask 12" by (simp_all add: mask_eq_exp_minus_1)
  have "unat (v_baseAddr v) mod 4096 < 4096" by simp
  then have "unat (v_baseAddr v) mod 4096 < 16384" by linarith
  then show ?thesis by (simp add: screen_window_def Let_def m unat_and_mask_len del: mask_numeral)
qed

text \<open>The window is page aligned, and it covers the offset and the rows.\<close>

definition video_bytes :: "video \<Rightarrow> nat" where
  "video_bytes v = unat (ucast (v_height v) :: u32) * unat (ucast (drop_bit 2 (v_rowBytes v)) :: u32) * 4"

lemma align_up_bounds:
  assumes "unat x + 2 ^ k < 2 ^ 64" and "m = mask k" and "unat m = 2 ^ k - 1"
  shows "unat x \<le> unat ((x + m) AND NOT m)" and "unat (((x :: u64) + m) AND NOT m) < unat x + 2 ^ k"
proof -
  have "(1 :: nat) \<le> 2 ^ k" by simp
  then have "unat x + unat m < 2 ^ LENGTH(64)" using assms(1,3) by simp
  then have u: "unat (x + m) = unat x + (2 ^ k - 1)" using assms(3) by (simp add: unat_word_ariths)
  have al: "unat ((x + m) AND NOT m) = 2 ^ k * (unat (x + m) div 2 ^ k)"
    unfolding assms(2) by (rule unat_align_down)
  have d: "unat (x + m) = 2 ^ k * (unat (x + m) div 2 ^ k) + unat (x + m) mod 2 ^ k" by simp
  have "unat (x + m) mod 2 ^ k < 2 ^ k" by simp
  then show "unat x \<le> unat ((x + m) AND NOT m)" using d u al by linarith
  have "(1 :: nat) \<le> 2 ^ k" by simp
  then show "unat ((x + m) AND NOT m) < unat x + 2 ^ k" using d u al by linarith
qed

lemma screen_window_size:
  assumes "video_bytes v < 2 ^ 32"
  shows "unat (fst (screen_window k v)) + video_bytes v \<le> unat (snd (screen_window k v))"
    and "unat (snd (screen_window k v)) < 2 ^ 33"
proof -
  let ?h = "ucast (v_height v) :: u32" and ?r = "ucast (drop_bit 2 (v_rowBytes v)) :: u32"
  have "unat (?h * ?r * 4) = video_bytes v"
    using assms by (simp add: video_bytes_def unat_word_ariths mod_mult_left_eq)
  then have b: "unat (ucast (?h * ?r * 4) :: u64) = video_bytes v" by (simp add: unat_ucast_up)
  have m: "(0x3fff :: u64) = mask 14" "(0xfff :: u64) = mask 12" by (simp_all add: mask_eq_exp_minus_1)
  let ?off = "fst (screen_window k v)"
  have off: "unat ?off < 0x4000" by (rule screen_window_offset)
  have s: "unat (ucast (?h * ?r * 4) + ?off) = unat ?off + video_bytes v"
    using off assms by (simp add: unat_word_ariths b)
  have win: "snd (screen_window k v) =
      (if k then (ucast (?h * ?r * 4) + ?off + 0x3fff) AND NOT 0x3fff
       else (ucast (?h * ?r * 4) + ?off + 0xfff) AND NOT 0xfff)"
    by (simp add: screen_window_def Let_def)
  note a = align_up_bounds [of "ucast (?h * ?r * 4) + ?off" 14, OF _ m(1)] 
    align_up_bounds [of "ucast (?h * ?r * 4) + ?off" 12, OF _ m(2)]
  show "unat ?off + video_bytes v \<le> unat (snd (screen_window k v))"
    using a(1,3) s off assms m unfolding win by (cases k) (simp_all del: mask_numeral)
  show "unat (snd (screen_window k v)) < 2 ^ 33"
    using a(2,4) s off assms m unfolding win by (cases k) (simp_all del: mask_numeral)
qed


lemma unat_height_rounded: "unat ((h :: u16) AND 0xfff0) \<le> unat h" "unat h < unat (h AND 0xfff0) + 16"
proof -
  have "(0xfff0 :: u16) = NOT (mask 4)" by (simp add: mask_eq_exp_minus_1)
  then have "unat (h AND 0xfff0) = 2 ^ 4 * (unat h div 2 ^ 4)" by (simp only: unat_align_down)
  then show "unat (h AND 0xfff0) \<le> unat h" "unat h < unat (h AND 0xfff0) + 16" by simp_all
qed

lemma screen_scale_range: "screen_scale w h \<in> {1, 2, 3}"
  by (simp add: screen_scale_def Let_def)

text \<open>A display the console is meant for: large enough for the logo, and addressable in 32 bits.\<close>

definition video_ok :: "video \<Rightarrow> bool" where
  "video_ok v \<longleftrightarrow> v_width v < 0x10000 \<and> v_height v < 0x10000 \<and> v_rowBytes v < 0x100000000 \<and>
     208 \<le> unat (v_width v) \<and> 208 \<le> unat (v_height v) \<and>
     4 * unat (v_width v) \<le> unat (v_rowBytes v) \<and> video_bytes v < 2 ^ 32"

lemma logo_fails_or_keeps_length:
  assumes "for_up (\<lambda>y. for_up (logo_pixel f X Y y) 0 n) 0 m s = Inr t" and "gFramebuffer s = Some g"
  shows "\<exists>h. gFramebuffer t = Some h \<and> length h = length g"
proof -
  let ?P = "\<lambda>u. \<exists>h. gFramebuffer u = Some h \<and> length h = length g"
  have px: "?P u'" if "logo_pixel f X Y y x u = Inr u'" "?P u" for y x u u'
    using that by (auto simp: logo_pixel_def Let_def fb_set_def pixel_set_def split: option.splits if_splits)
  have row: "?P u'" if "for_up (logo_pixel f X Y y) 0 n u = Inr u'" "?P u" for y u u'
    by (rule for_up_inv [where P = "\<lambda>_. ?P", OF that]) (simp, erule (1) px [rotated])
  show ?thesis
    by (rule for_up_inv [where P = "\<lambda>_. ?P", OF assms(1)]) (use assms(2) row in \<open>blast | simp\<close>)+
qed

lemma screen_init_overread:
  assumes "length window < unat (snd (screen_window k v)) div 4"
  shows "screen_init k v soc window copy s \<noteq> Inr t"
proof
  assume "screen_init k v soc window copy s = Inr t"
  then obtain u w where l: "draw_logo soc (screen_setup v window copy s) = Inr u"
    and c: "keep_picture (snd (screen_window k v)) u = Inr w"
    by (auto simp: screen_init_def)
  have "gFramebuffer (screen_setup v window copy s) = Some window" by (simp add: screen_setup_def Let_def)
  then obtain h where "gFramebuffer u = Some h" "length h = length window"
    using logo_fails_or_keeps_length [OF l [unfolded draw_logo_def Let_def]] by blast
  with c assms show False by (simp add: keep_picture_def)
qed

lemma draw_logo_returns:
  assumes v: "video_ok v" and len: "video_bytes v \<le> 4 * length window" "length copy = length window"
    and small: "length window < 2 ^ 32"
  shows "\<exists>S F. draw_logo soc (screen_setup v window copy s) = Inr (drawn S F (screen_setup v window copy s))"
    and "fb_shape (screen_setup v window copy s)"
proof -
  let ?s = "screen_setup v window copy s" and ?f = "logo_scaler soc (screen_setup v window copy s)"
  have sm: "unat (v_width v) < 2 ^ 16" "unat (v_height v) < 2 ^ 16" "unat (drop_bit 2 (v_rowBytes v)) < 2 ^ 30"
    using v by (simp_all add: video_ok_def word_less_nat_alt unat_drop_bit_eq drop_bit_eq_div unat_div_distrib
        less_mult_imp_div_less)
  have rb: "unat (drop_bit 2 (v_rowBytes v)) = unat (v_rowBytes v) div 4"
    using unat_div_distrib [of "v_rowBytes v" 4] by (simp add: drop_bit_eq_div)
  have uw: "unat (gWidth ?s) = unat (v_width v)" "unat (gHeight ?s) = unat (v_height v)"
    "row_pixels ?s = unat (v_rowBytes v) div 4"
    using sm by (simp_all only: rb) (simp_all add: screen_setup_def Let_def unsigned_ucast_eq take_bit_nat_eq_self
        rb del: unat_div_distrib)
  have vw: "unat (v_width v) \<le> unat (v_rowBytes v) div 4" using v unfolding video_ok_def by linarith
  show sh: "fb_shape ?s"
    using v len small uw vw
    by (simp add: fb_shape_def video_ok_def video_bytes_def) (simp add: screen_setup_def Let_def mult.commute)
  have sc: "scale_factor ?s \<in> {1, 2, 3}" using screen_scale_range by (simp add: screen_setup_def Let_def)
  then have f: "?f \<in> {1, 2, 4, 6}" by (auto simp: logo_scaler_def SCALE_FACTOR_def)
  then have f6: "unat ?f \<le> 6" "unat (32 * ?f) = 32 * unat ?f" "unat (16 * ?f) = 16 * unat ?f" by auto
  let ?h = "(ucast (gHeight ?s) :: u16) AND 0xfff0"
  have uh: "unat (ucast (gHeight ?s) :: u16) = unat (v_height v)"
    using sm uw by (simp add: unsigned_ucast_eq take_bit_nat_eq_self)
  note hr = unat_height_rounded [of "ucast (gHeight ?s)"]
  have hu: "unat (ucast ?h div 2 :: u32) = unat ?h div 2" by (simp add: unat_div_distrib unat_ucast_up)
  have w208: "208 \<le> row_pixels ?s" "208 \<le> unat (v_height v)" using v uw by (auto simp: video_ok_def)
  have X: "unat (gRowPixels ?s div 2 - 16 * ?f) = row_pixels ?s div 2 - 16 * unat ?f"
    using f6 w208 by (subst unat_sub) (simp_all add: word_le_nat_alt unat_div_distrib)
  have Y: "unat (ucast ?h div 2 - 16 * ?f :: u32) = unat ?h div 2 - 16 * unat ?f"
    using f6 w208 hr uh by (subst unat_sub) (simp_all add: word_le_nat_alt hu)
  have "draw_logo soc ?s = Inr (drawn (rect (unat (gRowPixels ?s div 2 - 16 * ?f))
      (unat (ucast ?h div 2 - 16 * ?f :: u32)) (32 * unat ?f) (32 * unat ?f))
      (logo_colour ?f (unat (gRowPixels ?s div 2 - 16 * ?f)) (unat (ucast ?h div 2 - 16 * ?f :: u32)) ?s) ?s)"
    unfolding draw_logo_def Let_def
    by (rule logo_drawn [OF sh _ _ f6(2)]) (use X Y f6 w208 hr uh uw in linarith)+
  then show "\<exists>S F. draw_logo soc ?s = Inr (drawn S F ?s)" by blast
qed

text \<open>C32 Initialisation. When the display's buffer starts on a page boundary, \<open>screen_init\<close> returns,
  the kept copy equals the picture (logo included), and the console satisfies the invariant that
  writing text relies on. When the buffer starts inside a page, the final \<open>memcpy\<close> is given the
  size of the whole mapped window but starts at the buffer, so it reads past the window's end:
  no call returns.\<close>

theorem screen_init_page_aligned:
  assumes "video_ok v" and "dis_int_count s = 0" and "x_cursor s = 0" and "y_cursor s = 0"
    and "bannerHeight s = 0"
    and "4 * length copy = unat (snd (screen_window is_16k v))"
    and "4 * length window = unat (snd (screen_window is_16k v)) - unat (fst (screen_window is_16k v))"
  shows "(fst (screen_window is_16k v) = 0 \<longrightarrow>
            (\<exists>t. screen_init is_16k v socnum window copy s = Inr t \<and> fb_ok t \<and>
                 gFramebuffer t = Some (gFramebufferCopy t) \<and> scale_factor t = 1)) \<and>
         (fst (screen_window is_16k v) \<noteq> 0 \<longrightarrow>
            (\<forall>t. screen_init is_16k v socnum window copy s \<noteq> Inr t))"
proof (intro conjI impI allI)
  let ?off = "fst (screen_window is_16k v)" and ?size = "snd (screen_window is_16k v)"
  have vb: "video_bytes v < 2 ^ 32" using assms(1) by (simp add: video_ok_def)
  note sz = screen_window_size [OF vb, of is_16k]
  {
    fix t assume "?off \<noteq> 0"
    then have "0 < unat ?off" by (simp add: unat_gt_0)
    moreover have "0 < unat ?size" using sz(1) \<open>0 < unat ?off\<close> by linarith
    ultimately have "4 * length window < 4 * length copy" using assms(6,7) by linarith
    moreover have "unat ?size div 4 = length copy" using assms(6) by linarith
    ultimately have "length window < unat ?size div 4" by linarith
    then show "screen_init is_16k v socnum window copy s \<noteq> Inr t" by (rule screen_init_overread)
  }
  assume off: "?off = 0"
  let ?s = "screen_setup v window copy s"
  have len: "length copy = length window" "video_bytes v \<le> 4 * length window" "length window < 2 ^ 32"
    using assms(6,7) off sz by simp_all
  obtain S F where d: "draw_logo socnum ?s = Inr (drawn S F ?s)"
    using draw_logo_returns(1) [OF assms(1) len(2,1,3)] by blast
  have sh: "fb_shape ?s" by (rule draw_logo_returns(2) [OF assms(1) len(2,1,3)])
  let ?g = "paint (row_pixels ?s) S F window"
  let ?k = "(drawn S F ?s)\<lparr>gFramebufferCopy := ?g\<rparr>"
  have pic: "gFramebuffer (drawn S F ?s) = Some ?g" "gFramebufferCopy ?s = copy"
    by (simp_all add: screen_setup_def Let_def)
  have n: "unat ?size div 4 = length window" using assms(6) len(1) by linarith
  have k: "keep_picture ?size (drawn S F ?s) = Inr ?k"
    by (simp add: keep_picture_def pic n len(1) del: drawn_simps(1))
  have dims: "unat (gWidth ?s) = unat (v_width v)" "unat (gHeight ?s) = unat (v_height v)"
    using assms(1) by (simp_all add: screen_setup_def Let_def video_ok_def unsigned_ucast_eq
        take_bit_nat_eq_self word_less_nat_alt)
  have "208 * 208 \<le> row_pixels ?s * unat (gHeight ?s)"
    using assms(1) sh dims by (intro mult_le_mono) (auto simp: video_ok_def fb_shape_def)
  then have pos: "0 < length window" using sh pic len(1) by (auto simp: fb_shape_def)
  then have c: "fb_get ?k 0 = Inr (?g ! 0)" by (simp add: fb_get_def pixel_get_def pic del: drawn_simps(1))
  let ?t = "?k\<lparr>basecolor := ?g ! 0, scale_factor := 1\<rparr>"
  have "fb_ok ?t"
    using sh assms(1,3,4,5) dims len(1) pic unfolding fb_ok_def fb_shape_def
    by (auto simp: video_ok_def screen_setup_def Let_def simp del: drawn_simps(1))
  moreover have "gFramebuffer ?t = Some (gFramebufferCopy ?t)" using pic by simp
  ultimately show "\<exists>t. screen_init is_16k v socnum window copy s = Inr t \<and> fb_ok t \<and>
      gFramebuffer t = Some (gFramebufferCopy t) \<and> scale_factor t = 1"
    by (simp add: screen_init_def d k c)
qed


definition video0 :: video where
  "video0 = \<lparr>v_baseAddr = 0x800000, v_rowBytes = 1024, v_width = 256, v_height = 256\<rparr>"

theorem screen_init_page_aligned_witness:
  "\<exists>t. screen_init True video0 0x8010 (replicate 65536 0) (replicate 65536 0)
     (fb0\<lparr>x_cursor := 0, y_cursor := 0, bannerHeight := 0\<rparr>) = Inr t \<and> fb_ok t"
proof -
  have w: "screen_window True video0 = (0, 0x40000)" by (simp add: screen_window_def video0_def Let_def)
  have v: "video_ok video0" by (simp add: video_ok_def video0_def video_bytes_def)
  show ?thesis
    using screen_init_page_aligned [where v = video0 and
        s = "fb0\<lparr>x_cursor := 0, y_cursor := 0, bannerHeight := 0\<rparr>" and copy = "replicate 65536 0"
        and is_16k = True and window = "replicate 65536 0" and socnum = "0x8010", OF v]
    by (auto simp: w fb0_def)
qed

end
