(* ===== verification/FwCfg.thy ===== *)
theory FwCfg
  imports FDTree
begin

text \<open>
  QEMU's firmware configuration device, \<open>src/src/kernel/fw_cfg.c\<close> and \<open>fw_cfg.h\<close>: a selector
  register chooses an item, reads of the data register return the item's bytes one after the other,
  and an item is written by giving the device the address of a control block. The device is not
  code of the program: its reaction to a read of \<open>n\<close> bytes of the data register (\<open>dev_read\<close>), to a
  write of the selector register (\<open>dev_select\<close>), to a read of the DMA register and to a transfer
  are parameters over an arbitrary device state, and \<open>fw_cfg_device\<close> is the behaviour QEMU documents
  for the first two.
\<close>

unbundle bit_operations_syntax

section \<open>The device\<close>

record 'd fw_cfg_ops =
  dev_select :: "u16 \<Rightarrow> 'd \<Rightarrow> 'd"
  dev_read :: "nat \<Rightarrow> 'd \<Rightarrow> bytes \<times> 'd"
  dev_dma_signature :: "'d \<Rightarrow> u64"
  dev_dma :: "bytes \<Rightarrow> bytes \<Rightarrow> 'd \<Rightarrow> 'd"

text \<open>
  \<open>ahead d\<close> is the part of the selected item that has not been read; behind the end of an item
  the device returns zeros, so it is a function on all positions.
\<close>

definition fw_cfg_device :: "'d fw_cfg_ops \<Rightarrow> (u16 \<Rightarrow> nat \<Rightarrow> u8) \<Rightarrow> ('d \<Rightarrow> nat \<Rightarrow> u8) \<Rightarrow> bool" where
  "fw_cfg_device ops item ahead \<longleftrightarrow>
     (\<forall>key d. ahead (dev_select ops key d) = item key) \<and>
     (\<forall>n d. fst (dev_read ops n d) = map (ahead d) [0..<n] \<and>
            ahead (snd (dev_read ops n d)) = (\<lambda>i. ahead d (n + i)))"

section \<open>Registers\<close>

definition bswap16 :: "u16 \<Rightarrow> u16" where
  "bswap16 w = le_val (rev (le_bytes 2 w))"

definition fw_cfg_select :: "'d fw_cfg_ops \<Rightarrow> u16 \<Rightarrow> 'd \<Rightarrow> 'd" where
  "fw_cfg_select ops selector d = dev_select ops (bswap16 (selector OR push_bit 14 1)) d"

definition fw_cfg_read16 :: "'d fw_cfg_ops \<Rightarrow> 'd \<Rightarrow> u16 \<times> 'd" where
  "fw_cfg_read16 ops d = (let (bs, d') = dev_read ops 2 d in (bswap16 (le_val bs), d'))"

definition fw_cfg_read32 :: "'d fw_cfg_ops \<Rightarrow> 'd \<Rightarrow> u32 \<times> 'd" where
  "fw_cfg_read32 ops d = (let (bs, d') = dev_read ops 4 d in (bswap32 (le_val bs), d'))"

definition fw_cfg_read64_raw :: "'d fw_cfg_ops \<Rightarrow> 'd \<Rightarrow> u64 \<times> 'd" where
  "fw_cfg_read64_raw ops d = (let (bs, d') = dev_read ops 8 d in (le_val bs, d'))"

definition fw_cfg_read64 :: "'d fw_cfg_ops \<Rightarrow> 'd \<Rightarrow> u64 \<times> 'd" where
  "fw_cfg_read64 ops d = (let (w, d') = fw_cfg_read64_raw ops d in (bswap64 w, d'))"

text \<open>The loop copies eight bytes per read; of the last value only the bytes still wanted.\<close>

fun fw_cfg_read_bytes :: "'d fw_cfg_ops \<Rightarrow> nat \<Rightarrow> 'd \<Rightarrow> bytes \<times> 'd" where
  "fw_cfg_read_bytes ops rem_size d =
     (if rem_size = 0 then ([], d)
      else let (val, d1) = fw_cfg_read64_raw ops d;
               to_read = (if rem_size < 8 then rem_size else 8);
               (rest, d2) = fw_cfg_read_bytes ops (rem_size - to_read) d1
           in (take to_read (le_bytes 8 val) @ rest, d2))"

declare fw_cfg_read_bytes.simps [simp del]

section \<open>Writing an item\<close>

definition TO_PHYS :: "u64 \<Rightarrow> u64" where
  "TO_PHYS addr = addr - 0x100000000 + 0x818000000"

definition dma_control_block :: "u64 \<Rightarrow> u32 \<Rightarrow> bytes" where
  "dma_control_block buf n =
     le_bytes 4 (bswap32 (push_bit 4 1)) @ le_bytes 4 (bswap32 n) @ le_bytes 8 (bswap64 (TO_PHYS buf))"

text \<open>
  The device takes the control block and the bytes it points to; \<open>buf\<close> is the address of the
  bytes. (The register receives the control block's own address, a place on the stack.)
\<close>

definition fw_cfg_write_dma :: "'d fw_cfg_ops \<Rightarrow> u64 \<Rightarrow> bytes \<Rightarrow> 'd \<Rightarrow> 'd" where
  "fw_cfg_write_dma ops buf bs d = dev_dma ops (dma_control_block buf (of_nat (length bs))) bs d"

section \<open>Finding a file\<close>

record fw_cfg_file =
  file_size :: u32
  file_select :: u16
  file_reserved :: u16
  file_name :: bytes

definition read_file_entry :: "'d fw_cfg_ops \<Rightarrow> 'd \<Rightarrow> fw_cfg_file \<times> 'd" where
  "read_file_entry ops d =
     (let (sz, d1) = fw_cfg_read32 ops d;
          (sel, d2) = fw_cfg_read16 ops d1;
          (res, d3) = fw_cfg_read16 ops d2;
          (nm, d4) = fw_cfg_read_bytes ops 56 d3
      in (\<lparr>file_size = sz, file_select = sel, file_reserved = res, file_name = nm\<rparr>, d4))"

text \<open>The loop over the entries not yet read; what is stored is the selector and the size.\<close>

primrec find_file_loop :: "'d fw_cfg_ops \<Rightarrow> bytes \<Rightarrow> nat \<Rightarrow> 'd \<Rightarrow> error + ((u16 \<times> u32) option \<times> 'd)" where
  "find_file_loop ops name 0 d = Inr (None, d)"
| "find_file_loop ops name (Suc n) d =
     (let (e, d') = read_file_entry ops d in
      bindE (str_eq (file_name e) name) (\<lambda>b.
      if b then Inr (Some (file_select e, file_size e), d') else find_file_loop ops name n d'))"

definition FW_CFG_FILE_DIR :: u16 where
  "FW_CFG_FILE_DIR = 0x19"

definition fw_cfg_find_file :: "'d fw_cfg_ops \<Rightarrow> bytes \<Rightarrow> 'd \<Rightarrow> error + ((u16 \<times> u32) option \<times> 'd)" where
  "fw_cfg_find_file ops name d =
     (let d1 = fw_cfg_select ops FW_CFG_FILE_DIR d;
          (count, d2) = fw_cfg_read32 ops d1
      in find_file_loop ops name (unat count) d2)"

section \<open>Setting up the frame buffer\<close>

text \<open>
  \<open>init_fw_cfg\<close> over the parsed device tree (the arguments of \<open>fdtree_find_prop\<close>). The memory for the frame
  buffer comes from \<open>alloc_static\<close>; its physical address \<open>fbmem_phys\<close> is an argument, as is the
  stack address \<open>config_addr\<close> of the configuration. The result is what the boot arguments hold
  afterwards (base address, row bytes, width, height), the cleared memory and the device.
\<close>

definition ramfb_config_bytes :: "u64 \<Rightarrow> u32 \<Rightarrow> u32 \<Rightarrow> u32 \<Rightarrow> bytes" where
  "ramfb_config_bytes address width height stride =
     le_bytes 8 (bswap64 address) @ le_bytes 4 (bswap32 0x34325258) @ le_bytes 4 (bswap32 0) @
     le_bytes 4 (bswap32 width) @ le_bytes 4 (bswap32 height) @ le_bytes 4 (bswap32 stride)"

definition FW_CFG_SIGNATURE :: u16 where
  "FW_CFG_SIGNATURE = 0"

definition init_fw_cfg :: "'d fw_cfg_ops \<Rightarrow> nat \<Rightarrow> fdt_header \<Rightarrow> bytes \<Rightarrow> nat \<Rightarrow> u64 \<Rightarrow> u64 \<Rightarrow> 'd \<Rightarrow>
    error + ((u64 \<times> u64 \<times> u64 \<times> u64) \<times> bytes \<times> 'd)" where
  "init_fw_cfg ops fuel hdr m base fbmem_phys config_addr d =
     bindE (fdtree_find_prop fuel hdr m base (ascii ''fw-cfg@'') (ascii ''reg'') (replicate 16 0)) (\<lambda>(found, reg).
     bindE (panic_if (\<not> found) ''did not find fw-cfg in device tree'') (\<lambda>_.
     bindE (rd64 reg 8) (\<lambda>sz.
     bindE (panic_if (bswap64 sz \<noteq> 0x18) ''fw_cfg info has unexpected size'') (\<lambda>_.
     let d1 = fw_cfg_select ops FW_CFG_SIGNATURE d;
         (sig, d2) = fw_cfg_read32 ops d1 in
     bindE (panic_if (sig \<noteq> 0x51454d55) ''could not detect QEMU fw_cfg'') (\<lambda>_.
     bindE (panic_if (dev_dma_signature ops d2 \<noteq> 0x47464320554d4551) ''DMA interface is not available'') (\<lambda>_.
     bindE (fw_cfg_find_file ops (ascii ''etc/ramfb'') d2) (\<lambda>(file, d3).
     case file of
       None \<Rightarrow> Inl (Panic ''did not find ramfb device'')
     | Some (ramfb_select, ramfb_size) \<Rightarrow>
         let v_width = 800; v_height = 600;
             fbsize = v_width * v_height * 4 :: u64;
             v_rowBytes = v_width * 4;
             config = ramfb_config_bytes fbmem_phys (ucast v_width) (ucast v_height) (ucast v_rowBytes);
             d4 = fw_cfg_select ops ramfb_select d3;
             d5 = fw_cfg_write_dma ops config_addr config d4
         in Inr ((fbmem_phys, v_rowBytes, v_width, v_height), replicate (unat fbsize) 0, d5))))))))"

section \<open>Reading a prefix of an item\<close>

definition item_starts :: "(nat \<Rightarrow> u8) \<Rightarrow> bytes \<Rightarrow> bool" where
  "item_starts f bs \<longleftrightarrow> (\<forall>i < length bs. f i = bs ! i)"

lemma item_starts_append:
  assumes "item_starts f (xs @ ys)"
  shows "map f [0..<length xs] = xs" and "item_starts (\<lambda>i. f (length xs + i)) ys"
proof -
  have "f i = xs ! i" if "i < length xs" for i
    using assms that by (auto simp: item_starts_def nth_append)
  then show "map f [0..<length xs] = xs" by (auto intro: nth_equalityI)
  show "item_starts (\<lambda>i. f (length xs + i)) ys"
    using assms by (auto simp: item_starts_def nth_append)
qed

lemma dev_read_prefix:
  assumes "fw_cfg_device ops item ahead" and "item_starts (ahead d) (xs @ ys)" and "length xs = n"
  shows "\<exists>d'. dev_read ops n d = (xs, d') \<and> item_starts (ahead d') ys"
  using assms item_starts_append [OF assms(2)]
  by (cases "dev_read ops n d") (auto simp: fw_cfg_device_def dest!: spec [of _ n] spec [of _ d])

definition be_field :: "nat \<Rightarrow> 'w::len word \<Rightarrow> bytes" where
  "be_field n w = rev (le_bytes n w)"

lemma length_be_field [simp]: "length (be_field n w) = n"
  by (simp add: be_field_def)

lemma bswap_field:
  "bswap32 (le_val (be_field 4 w)) = w" "bswap16 (le_val (be_field 2 v)) = v"
proof -
  have "le_bytes 4 (le_val (be_field 4 w) :: u32) = be_field 4 w"
    using le_bytes_le_val [of "be_field 4 w", where 'w = 32] by simp
  then show "bswap32 (le_val (be_field 4 w)) = w" by (simp add: bswap32_def be_field_def)
  have "le_bytes 2 (le_val (be_field 2 v) :: u16) = be_field 2 v"
    using le_bytes_le_val [of "be_field 2 v", where 'w = 16] by simp
  moreover have "(take_bit 16 v :: u16) = v" using take_bit_length_eq [of v] by simp
  ultimately show "bswap16 (le_val (be_field 2 v)) = v"
    using le_val_le_bytes [of 2 v] by (simp add: bswap16_def be_field_def)
qed

lemma fw_cfg_read_prefix:
  assumes dev: "fw_cfg_device ops item ahead"
  shows "item_starts (ahead d) (be_field 4 w @ ys) \<Longrightarrow>
      \<exists>d'. fw_cfg_read32 ops d = (w, d') \<and> item_starts (ahead d') ys"
    and "item_starts (ahead d) (be_field 2 v @ ys) \<Longrightarrow>
      \<exists>d'. fw_cfg_read16 ops d = (v, d') \<and> item_starts (ahead d') ys"
  using dev_read_prefix [OF dev, of d "be_field 4 w" ys 4] dev_read_prefix [OF dev, of d "be_field 2 v" ys 2]
  by (auto simp: fw_cfg_read32_def fw_cfg_read16_def bswap_field)

text \<open>A multiple of eight bytes is read without loss.\<close>

lemma fw_cfg_read_bytes_prefix:
  assumes dev: "fw_cfg_device ops item ahead" and "item_starts (ahead d) (xs @ ys)" and "length xs = 8 * k"
  shows "\<exists>d'. fw_cfg_read_bytes ops (8 * k) d = (xs, d') \<and> item_starts (ahead d') ys"
  using assms(2,3)
proof (induction k arbitrary: d xs)
  case 0
  then show ?case by (simp add: fw_cfg_read_bytes.simps)
next
  case (Suc k)
  have l: "length (take 8 xs) = 8" using Suc.prems(2) by simp
  have "item_starts (ahead d) (take 8 xs @ (drop 8 xs @ ys))"
    using Suc.prems(1) by (metis append.assoc append_take_drop_id)
  from dev_read_prefix [OF dev this l] obtain d1 where
    d1: "dev_read ops 8 d = (take 8 xs, d1)" "item_starts (ahead d1) (drop 8 xs @ ys)" by blast
  obtain d2 where d2: "fw_cfg_read_bytes ops (8 * k) d1 = (drop 8 xs, d2)" "item_starts (ahead d2) ys"
    using Suc.IH [OF d1(2)] Suc.prems(2) by auto
  have "le_bytes 8 (le_val (take 8 xs) :: u64) = take 8 xs"
    using le_bytes_le_val [of "take 8 xs", where 'w = 64] l by simp
  then have "fw_cfg_read_bytes ops (8 * Suc k) d = (take 8 xs @ drop 8 xs, d2)"
    using l by (subst fw_cfg_read_bytes.simps) (simp add: fw_cfg_read64_raw_def d1(1) d2(1))
  then show ?case using d2(2) by simp
qed

section \<open>The directory\<close>

definition entry_bytes :: "fw_cfg_file \<Rightarrow> bytes" where
  "entry_bytes e = be_field 4 (file_size e) @ be_field 2 (file_select e) @
     be_field 2 (file_reserved e) @ file_name e"

definition directory_bytes :: "fw_cfg_file list \<Rightarrow> bytes" where
  "directory_bytes es = be_field 4 (of_nat (length es) :: u32) @ concat (map entry_bytes es)"

lemma read_file_entry_prefix:
  assumes dev: "fw_cfg_device ops item ahead" and "item_starts (ahead d) (entry_bytes e @ ys)"
    and "length (file_name e) = 56"
  shows "\<exists>d'. read_file_entry ops d = (e, d') \<and> item_starts (ahead d') ys"
proof -
  note rd = fw_cfg_read_prefix [OF dev]
  obtain d1 where d1: "fw_cfg_read32 ops d = (file_size e, d1)"
    "item_starts (ahead d1) (be_field 2 (file_select e) @ be_field 2 (file_reserved e) @ file_name e @ ys)"
    using rd(1) assms(2) unfolding entry_bytes_def append.assoc by blast
  obtain d2 where d2: "fw_cfg_read16 ops d1 = (file_select e, d2)"
    "item_starts (ahead d2) (be_field 2 (file_reserved e) @ file_name e @ ys)" using rd(2) d1(2) by blast
  obtain d3 where d3: "fw_cfg_read16 ops d2 = (file_reserved e, d3)"
    "item_starts (ahead d3) (file_name e @ ys)" using rd(2) d2(2) by blast
  obtain d4 where "fw_cfg_read_bytes ops 56 d3 = (file_name e, d4)" "item_starts (ahead d4) ys"
    using fw_cfg_read_bytes_prefix [OF dev d3(2), of 7] assms(3) by auto
  then show ?thesis using d1 d2 d3 by (simp add: read_file_entry_def)
qed

definition names_file :: "bytes \<Rightarrow> fw_cfg_file \<Rightarrow> bool" where
  "names_file name e \<longleftrightarrow> take (length name + 1) (file_name e) = name @ [0]"

lemma find_file_loop_find:
  assumes dev: "fw_cfg_device ops item ahead" and "item_starts (ahead d) (concat (map entry_bytes es))"
    and "\<forall>e \<in> set es. length (file_name e) = 56" and "length name < 56" and "0 \<notin> set name"
  shows "\<exists>d'. find_file_loop ops name (length es) d =
    Inr (map_option (\<lambda>e. (file_select e, file_size e)) (find (names_file name) es), d')"
  using assms(2,3)
proof (induction es arbitrary: d)
  case (Cons e es)
  obtain d1 where d1: "read_file_entry ops d = (e, d1)" "item_starts (ahead d1) (concat (map entry_bytes es))"
    using read_file_entry_prefix [OF dev, of d e "concat (map entry_bytes es)"] Cons.prems by auto
  have "str_eq (file_name e) name = Inr (names_file name e)"
    using str_eq_take [of name "file_name e"] assms(4,5) Cons.prems(2) by (simp add: names_file_def)
  then show ?case using Cons.IH [OF d1(2)] Cons.prems(2) d1(1) by auto
qed simp

text \<open>C33 \<open>fw_cfg_find_file\<close> looks the name up in the device's directory. For any directory
  of fewer than \<open>2 ^ 32\<close> entries whose name fields have their 56 bytes, and any name that fits such
  a field, the search returns the selector and the size of the first entry of that name and
  reports failure when there is none, whatever the other entries hold; the byte order of the
  device's integers and the eight byte reads of the name field are undone.\<close>

theorem fw_cfg_find_file_correct:
  assumes "fw_cfg_device ops item ahead" and "length es < 2 ^ 32"
    and "\<And>i. i < length (directory_bytes es) \<Longrightarrow> item (bswap16 (0x4000 OR FW_CFG_FILE_DIR)) i = directory_bytes es ! i"
    and "\<forall>e \<in> set es. length (file_name e) = 56" and "length name < 56" and "0 \<notin> set name"
  shows "\<exists>d'. fw_cfg_find_file ops name d =
    Inr (map_option (\<lambda>e. (file_select e, file_size e)) (find (names_file name) es), d')"
proof -
  let ?d = "fw_cfg_select ops FW_CFG_FILE_DIR d"
  have "ahead ?d = item (bswap16 (0x4000 OR FW_CFG_FILE_DIR))"
    using assms(1) by (simp add: fw_cfg_device_def fw_cfg_select_def or.commute)
  then have "item_starts (ahead ?d) (be_field 4 (of_nat (length es) :: u32) @ concat (map entry_bytes es))"
    using assms(3) by (simp add: item_starts_def directory_bytes_def)
  from fw_cfg_read_prefix(1) [OF assms(1) this] obtain d2 where
    d2: "fw_cfg_read32 ops ?d = (of_nat (length es), d2)" "item_starts (ahead d2) (concat (map entry_bytes es))"
    by blast
  have "unat (of_nat (length es) :: u32) = length es"
    using assms(2) by (simp add: unat_of_nat take_bit_nat_eq_self)
  then show ?thesis
    using find_file_loop_find [OF assms(1) d2(2) assms(4-6)] d2(1) by (simp add: fw_cfg_find_file_def)
qed


text \<open>A device that has one item, and a directory with two entries.\<close>

definition fw_cfg_stream :: "(u16 \<Rightarrow> nat \<Rightarrow> u8) \<Rightarrow> (nat \<Rightarrow> u8) fw_cfg_ops" where
  "fw_cfg_stream item = \<lparr>dev_select = (\<lambda>key d. item key),
     dev_read = (\<lambda>n d. (map d [0..<n], \<lambda>i. d (n + i))),
     dev_dma_signature = (\<lambda>d. 0x47464320554d4551), dev_dma = (\<lambda>block bs d. d)\<rparr>"

definition directory0 :: "fw_cfg_file list" where
  "directory0 = [\<lparr>file_size = 7, file_select = 0x20, file_reserved = 0, file_name = 0x61 # replicate 55 0\<rparr>,
     \<lparr>file_size = 28, file_select = 0x21, file_reserved = 0, file_name = [0x62, 0x63] @ replicate 54 0\<rparr>]"

definition item0 :: "u16 \<Rightarrow> nat \<Rightarrow> u8" where
  "item0 key i = (if i < length (directory_bytes directory0) then directory_bytes directory0 ! i else 0)"

lemma fw_cfg_stream_device: "fw_cfg_device (fw_cfg_stream item) item (\<lambda>d. d)"
  by (simp add: fw_cfg_device_def fw_cfg_stream_def)

theorem fw_cfg_find_file_correct_witness:
  "\<exists>d. fw_cfg_find_file (fw_cfg_stream item0) [0x62, 0x63] (\<lambda>i. 0) = Inr (Some (0x21, 28), d)"
proof -
  have "find (names_file [0x62, 0x63]) directory0 =
      Some \<lparr>file_size = 28, file_select = 0x21, file_reserved = 0, file_name = [0x62, 0x63] @ replicate 54 0\<rparr>"
    by (simp add: directory0_def names_file_def)
  then show ?thesis
    using fw_cfg_find_file_correct [OF fw_cfg_stream_device, of directory0 item0 "[0x62, 0x63]" "\<lambda>i. 0"]
    by (simp add: item0_def) (simp add: directory0_def)
qed

end
