(* ===== verification/Stage3.thy ===== *)
theory Stage3
  imports Bytes
begin

text \<open>
  Patching the boot loader's image before it runs, \<open>src/src/boot/stage3.c\<close>. The image is the list of
  its instructions, loaded at the address \<open>boot_image\<close>; a pointer into it is an index, and an access
  outside it is \<open>BadAccess\<close>. The hook that is copied into the image (\<open>clear_hook\<close> of \<open>clearhook.S\<close>, with
  the place \<open>clear_hook_orig_backing\<close> for two displaced instructions) and the trampoline's five
  instructions are the assembler's output and arguments here, and so is the effect of the three
  patches that are written in assembly (\<open>patches.S\<close>).
\<close>

unbundle bit_operations_syntax

section \<open>Searching instructions\<close>

text \<open>
  The remaining size is a 32 bit counter that is decremented by 4; a search that does not stop at
  size 0 runs until it leaves the image.
\<close>

function find_next_insn :: "u32 list \<Rightarrow> nat \<Rightarrow> u32 \<Rightarrow> u32 \<Rightarrow> u32 \<Rightarrow> error + nat option" where
  "find_next_insn img from sz insn msk =
     (if sz = 0 then Inr None
      else if length img \<le> from then Inl BadAccess
      else if img ! from AND msk = insn AND msk then Inr (Some from)
      else find_next_insn img (from + 1) (sz - 4) insn msk)"
  by pat_completeness auto
termination by (relation "measure (\<lambda>(img, from, sz, insn, msk). length img - from)") auto

declare find_next_insn.simps [simp del]

fun find_prev_insn :: "u32 list \<Rightarrow> nat \<Rightarrow> u32 \<Rightarrow> u32 \<Rightarrow> u32 \<Rightarrow> error + nat option" where
  "find_prev_insn img from sz insn msk =
     (if sz = 0 then Inr None
      else if length img \<le> from then Inl BadAccess
      else if img ! from AND msk = insn AND msk then Inr (Some from)
      else case from of
        0 \<Rightarrow> if sz = 4 then Inr None else Inl BadAccess
      | Suc p \<Rightarrow> find_prev_insn img p (sz - 4) insn msk)"

declare find_prev_insn.simps [simp del]

section \<open>The patches\<close>

definition copy_words :: "u32 list \<Rightarrow> nat \<Rightarrow> u32 list \<Rightarrow> error + u32 list" where
  "copy_words img p ws =
     (if p + length ws \<le> length img then Inr (take p img @ ws @ drop (p + length ws) img) else Inl BadAccess)"

text \<open>\<open>bl\<close> to the hook: the distance is a signed number of bytes, divided by 4 into 26 bits.\<close>

definition hook_branch :: "u64 \<Rightarrow> nat \<Rightarrow> u32" where
  "hook_branch boot_image j =
     (let func_prolog = boot_image + 4 * of_nat j;
          offset = (0x180 + boot_image) - (4 + func_prolog)
      in 0x94000000 OR ucast (drop_bit 2 offset AND 0x3FFFFFF))"

definition patch_dram_clear :: "u64 \<Rightarrow> nat \<Rightarrow> u32 list \<Rightarrow> u32 list \<Rightarrow> error + (u32 list \<times> u32 list)" where
  "patch_dram_clear boot_image backing clear_hook img =
     bindE (find_next_insn img 0 0x80000 0xd50b7423 0xFFFFFFFF) (\<lambda>sys_3_c7_c4_1.
     case sys_3_c7_c4_1 of None \<Rightarrow> Inr (clear_hook, img)
     | Some i \<Rightarrow>
       bindE (find_prev_insn img i 0x100 0xaa0103e2 0xffffffff) (\<lambda>func_prolog.
       case func_prolog of None \<Rightarrow> Inr (clear_hook, img)
       | Some j \<Rightarrow>
         if length img \<le> j + 1 then Inl BadAccess
         else let hook = clear_hook[backing := img ! j, backing + 1 := img ! (j + 1)] in
              bindE (copy_words img 0x60 hook) (\<lambda>img1.
              Inr (hook, img1[j := 0xaa1e03e5, j + 1 := hook_branch boot_image j]))))"

definition patch_trampoline :: "u32 list \<Rightarrow> u32 list \<Rightarrow> error + u32 list" where
  "patch_trampoline tramp_hook img =
     bindE (find_next_insn img 0 0x80000 0xd2800012 0xFFFFFFFF) (\<lambda>tramp.
     case tramp of None \<Rightarrow> Inr img | Some t \<Rightarrow> copy_words img t (take 5 tramp_hook))"

definition patch_bootloader :: "(u32 list \<Rightarrow> u32 list) \<Rightarrow> u64 \<Rightarrow> nat \<Rightarrow> u32 list \<Rightarrow> u32 list \<Rightarrow> u32 list \<Rightarrow>
    error + (u32 list \<times> u32 list)" where
  "patch_bootloader asm_patches boot_image backing clear_hook tramp_hook img =
     bindE (patch_dram_clear boot_image backing clear_hook img) (\<lambda>(hook, img1).
     bindE (patch_trampoline tramp_hook img1) (\<lambda>img2. Inr (hook, asm_patches img2)))"

section \<open>Searching finds\<close>

lemma find_next_insn_found:
  assumes "\<And>k. from \<le> k \<Longrightarrow> k < i \<Longrightarrow> img ! k AND msk \<noteq> insn AND msk"
    and "img ! i AND msk = insn AND msk" and "from \<le> i" and "i < length img"
    and "unat sz = 4 * n" and "i < from + n"
  shows "find_next_insn img from sz insn msk = Inr (Some i)"
  using assms
proof (induction img "from" sz insn msk arbitrary: n rule: find_next_insn.induct)
  case (1 img "from" sz insn msk)
  have sz: "sz \<noteq> 0" using 1(6,7,4) by auto
  show ?case
  proof (cases "from = i")
    case True
    then show ?thesis using 1(3,5) sz by (subst find_next_insn.simps) simp
  next
    case False
    then have lt: "from < i" using 1(4) by simp
    then obtain n' where n: "n = Suc n'" using 1(7) by (cases n) auto
    have "4 \<le> sz" using 1(6) n by (simp add: word_le_nat_alt)
    then have u: "unat (sz - 4) = 4 * n'" using 1(6) n by (simp add: unat_sub)
    have ne: "img ! from AND msk \<noteq> insn AND msk" using 1(2) [of "from"] lt by simp
    have "find_next_insn img (from + 1) (sz - 4) insn msk = Inr (Some i)"
      by (rule 1(1) [OF sz _ ne, of n']) (use 1 u lt n in auto)
    then show ?thesis using sz ne lt 1(5) by (subst find_next_insn.simps) simp
  qed
qed

lemma find_prev_insn_found:
  assumes "\<And>k. j < k \<Longrightarrow> k \<le> from \<Longrightarrow> img ! k AND msk \<noteq> insn AND msk"
    and "img ! j AND msk = insn AND msk" and "j \<le> from" and "from < length img"
    and "unat sz = 4 * n" and "from < j + n"
  shows "find_prev_insn img from sz insn msk = Inr (Some j)"
  using assms
proof (induction img "from" sz insn msk arbitrary: n rule: find_prev_insn.induct)
  case (1 img "from" sz insn msk)
  have sz: "sz \<noteq> 0" using 1(6,7,4) by auto
  show ?case
  proof (cases "from = j")
    case True
    then show ?thesis using 1(3,5) sz by (subst find_prev_insn.simps) simp
  next
    case False
    then obtain p where p: "from = Suc p" using 1(4) by (cases "from") auto
    obtain n' where n: "n = Suc n'" using 1(4,7) False by (cases n) auto
    have "4 \<le> sz" using 1(6) n by (simp add: word_le_nat_alt)
    then have u: "unat (sz - 4) = 4 * n'" using 1(6) n by (simp add: unat_sub)
    have ne: "img ! from AND msk \<noteq> insn AND msk" using 1(2) [of "from"] 1(4) False by simp
    have "find_prev_insn img p (sz - 4) insn msk = Inr (Some j)"
      by (rule 1(1) [OF sz _ ne p, of n']) (use 1 u n p False in auto)
    then show ?thesis using sz ne p 1(5) by (subst find_prev_insn.simps) simp
  qed
qed

section \<open>The branch\<close>

text \<open>Where a \<open>bl\<close> at \<open>pc\<close> goes: 26 signed bits, times 4.\<close>

definition is_bl :: "u32 \<Rightarrow> bool" where
  "is_bl w \<longleftrightarrow> drop_bit 26 w = 0x25"

definition bl_target :: "u64 \<Rightarrow> u32 \<Rightarrow> u64" where
  "bl_target pc w = pc + push_bit 2 (scast (ucast w :: 26 word))"

lemma drop_bit_low_part: "drop_bit 26 (ucast ((x :: u64) AND mask 26) :: u32) = 0"
proof (rule bit_word_eqI)
  fix n
  show "bit (drop_bit 26 (ucast (x AND mask 26) :: u32)) n = bit (0 :: u32) n"
    by (simp only: bit_drop_bit_eq o_def bit_ucast_iff bit_and_iff bit_mask_iff) simp
qed

lemma hook_branch_is_bl: "is_bl (hook_branch b j)"
proof -
  have m: "(0x3FFFFFF :: u64) = mask 26" by (simp add: mask_eq_exp_minus_1)
  have c: "drop_bit 26 (0x94000000 :: u32) = 0x25" by simp
  have "drop_bit 26 (0x94000000 OR ucast (x AND mask 26) :: u32) = 0x25" for x :: u64
    by (simp only: drop_bit_or drop_bit_low_part c or.right_neutral)
  then show ?thesis unfolding is_bl_def hook_branch_def Let_def m .
qed

lemma ucast_hook_branch:
  "(ucast (0x94000000 OR ucast (x AND 0x3FFFFFF) :: u32) :: 26 word) = ucast (x :: u64)"
proof -
  have m: "(0x3FFFFFF :: u64) = mask 26" by (simp add: mask_eq_exp_minus_1)
  have z: "(ucast (0x94000000 :: u32) :: 26 word) = 0" by simp
  have "(ucast (0x94000000 OR ucast (x AND mask 26) :: u32) :: 26 word) =
      ucast (0x94000000 :: u32) OR ucast (ucast (x AND mask 26) :: u32)"
    by (rule bit_word_eqI) (auto simp: bit_simps)
  also have "\<dots> = ucast x" unfolding z by (rule bit_word_eqI) (auto simp: bit_simps)
  finally show ?thesis by (simp only: m)
qed

lemma hook_branch_target:
  assumes "0x60 \<le> j" and "j < 0x20000"
  shows "bl_target (b + 4 * of_nat (j + 1)) (hook_branch b j) = b + 0x180"
proof -
  define k where "k = int j - 0x5f"
  have k: "0 < k" "k < 2 ^ 25" using assms by (simp_all add: k_def)
  let ?off = "(0x180 + b) - (4 + (b + 4 * of_nat j)) :: u64"
  have off: "?off = word_of_int (- (4 * k))"
    unfolding k_def by (simp only: of_int_minus of_int_mult of_int_diff of_int_of_nat_eq of_int_numeral) (simp add: right_diff_distrib)
  have u: "uint ?off = 2 ^ 64 - 4 * k" unfolding off
    by (subst uint_word_of_int) (use k in \<open>simp add: zmod_zminus1_eq_if\<close>)
  have d: "uint (drop_bit 2 ?off) = 2 ^ 62 - k"
  proof -
    have "uint ?off = 4 * (2 ^ 62 - k)" using u by simp
    then have "uint (?off div 4) = 2 ^ 62 - k" by (simp only: uint_div_distrib) simp
    then show ?thesis by (simp only: drop_bit_eq_div) simp
  qed
  have "(ucast (drop_bit 2 ?off) :: 26 word) = word_of_int (2 ^ 62 - k)"
    unfolding unsigned_ucast_eq [symmetric] using d by (metis ucast_eq)
  also have "\<dots> = word_of_int (- k)"
    by (simp add: word_of_int_eq_iff take_bit_eq_mod mod_eq_dvd_iff del: word_of_int_minus of_int_minus of_int_diff)
  finally have w: "(ucast (drop_bit 2 ?off) :: 26 word) = word_of_int (- k)" .
  have "signed_take_bit 25 (- k) = - k" by (rule signed_take_bit_int_eq_self) (use k in simp_all)
  then have "sint (word_of_int (- k) :: 26 word) = - k"
    using sint_sbintrunc' [of "- k", where 'a = 26] by simp
  with w have "sint (ucast (drop_bit 2 ?off) :: 26 word) = - k" by simp
  then have "scast (ucast (drop_bit 2 ?off) :: 26 word) = (word_of_int (- k) :: u64)"
    by (simp only: scast_eq)
  then have "push_bit 2 (scast (ucast (drop_bit 2 ?off) :: 26 word)) = ?off"
    unfolding off by (simp add: push_bit_eq_mult)
  then show ?thesis
    by (simp add: bl_target_def hook_branch_def Let_def ucast_hook_branch algebra_simps)
qed


section \<open>The patched image\<close>

text \<open>
  What the patch expects of the image: at \<open>i\<close> the first cache clearing instruction of the first
  half megabyte, at \<open>j\<close> the last entry of a function at or before it, within 256 bytes, and room for
  the hook between byte \<open>0x180\<close> and \<open>j\<close>.
\<close>

definition dram_clear_at :: "u32 list \<Rightarrow> nat \<Rightarrow> nat \<Rightarrow> nat \<Rightarrow> bool" where
  "dram_clear_at img i j n \<longleftrightarrow>
     i < length img \<and> i < 0x20000 \<and> img ! i = 0xd50b7423 \<and> (\<forall>k < i. img ! k \<noteq> 0xd50b7423) \<and>
     j < i \<and> i < j + 0x40 \<and> img ! j = 0xaa0103e2 \<and> (\<forall>k. j < k \<and> k \<le> i \<longrightarrow> img ! k \<noteq> 0xaa0103e2) \<and>
     0x60 + n \<le> j"

lemma and_ones32 [simp]: "x AND 0xFFFFFFFF = (x :: u32)"
proof -
  have "(0xFFFFFFFF :: u32) = - 1" by simp
  then show ?thesis by (simp only: bit.conj_one_right)
qed

lemma patch_dram_clear_result:
  fixes backing :: nat
  assumes "dram_clear_at img i j (length clear_hook)"
  defines "hook \<equiv> clear_hook[backing := img ! j, backing + 1 := img ! (j + 1)]"
  shows "patch_dram_clear b backing clear_hook img =
    Inr (hook, (take 0x60 img @ hook @ drop (0x60 + length hook) img)[j := 0xaa1e03e5, j + 1 := hook_branch b j])"
proof -
  have h: "length hook = length clear_hook" by (simp add: hook_def)
  note d = assms(1) [unfolded dram_clear_at_def]
  have next': "find_next_insn img 0 0x80000 0xd50b7423 0xFFFFFFFF = Inr (Some i)"
    by (rule find_next_insn_found [where n = "0x20000"]) (use d in auto)
  have prev': "find_prev_insn img i 0x100 0xaa0103e2 0xFFFFFFFF = Inr (Some j)"
    by (rule find_prev_insn_found [where n = "0x40"]) (use d in auto)
  have c: "copy_words img 0x60 hook = Inr (take 0x60 img @ hook @ drop (0x60 + length hook) img)"
    using d h by (simp add: copy_words_def)
  show ?thesis
    using d c next' prev' by (simp add: patch_dram_clear_def hook_def Let_def)
qed

text \<open>C34 The patch of the DRAM clearing routine. When the image has the routine, the patched image
  starts the routine with saving the return address and a \<open>bl\<close> whose target is byte \<open>0x180\<close> of the
  image wherever the image was loaded; from there on it holds the hook with the two displaced
  instructions in their places; and every other instruction of the image is unchanged.\<close>

theorem patch_dram_clear_correct:
  assumes "dram_clear_at img i j (length clear_hook)" and "backing + 1 < length clear_hook"
  shows "\<exists>hook img'. patch_dram_clear b backing clear_hook img = Inr (hook, img') \<and>
    length img' = length img \<and> length hook = length clear_hook \<and>
    img' ! j = 0xaa1e03e5 \<and> is_bl (img' ! (j + 1)) \<and>
    bl_target (b + 4 * of_nat (j + 1)) (img' ! (j + 1)) = b + 0x180 \<and>
    take (length hook) (drop 0x60 img') = hook \<and> hook ! backing = img ! j \<and> hook ! (backing + 1) = img ! (j + 1) \<and>
    (\<forall>k < length hook. k \<noteq> backing \<and> k \<noteq> backing + 1 \<longrightarrow> hook ! k = clear_hook ! k) \<and>
    (\<forall>k < length img. k < 0x60 \<or> 0x60 + length hook \<le> k \<longrightarrow> k \<noteq> j \<longrightarrow> k \<noteq> j + 1 \<longrightarrow> img' ! k = img ! k)"
proof -
  define hook where "hook = clear_hook[backing := img ! j, backing + 1 := img ! (j + 1)]"
  define img1 where "img1 = take 0x60 img @ hook @ drop (0x60 + length hook) img"
  let ?img' = "img1[j := 0xaa1e03e5, j + 1 := hook_branch b j]"
  have h: "length hook = length clear_hook" by (simp add: hook_def)
  note d = assms(1) [unfolded dram_clear_at_def]
  have r: "patch_dram_clear b backing clear_hook img = Inr (hook, ?img')"
    using patch_dram_clear_result [OF assms(1)] by (simp add: hook_def img1_def)
  have l: "length img1 = length img" using d h by (simp add: img1_def)
  have room: "length clear_hook \<le> length img - 0x60" using d by linarith
  have at_hook: "take (length hook) (drop 0x60 ?img') = hook"
  proof (rule nth_equalityI)
    show "length (take (length hook) (drop 0x60 ?img')) = length hook" using room h l by simp
    fix k assume "k < length (take (length hook) (drop 0x60 ?img'))"
    then have "k < length hook" by simp
    then show "take (length hook) (drop 0x60 ?img') ! k = hook ! k"
      using d h l by (simp add: img1_def nth_append)
  qed
  have other: "?img' ! k = img ! k"
    if "k < length img" "k < 0x60 \<or> 0x60 + length hook \<le> k" "k \<noteq> j" "k \<noteq> j + 1" for k
    using that d h by (auto simp: img1_def nth_append)
  have "bl_target (b + 4 * of_nat (j + 1)) (hook_branch b j) = b + 0x180"
    using d by (intro hook_branch_target) auto
  then show ?thesis
    using r l h at_hook other d assms(2) hook_branch_is_bl [of b j]
    by (intro exI [of _ hook] exI [of _ ?img']) (auto simp: hook_def nth_list_update)
qed

definition image0 :: "u32 list" where
  "image0 = replicate 0x70 0 @ [0xaa0103e2, 0xaa0003e1, 0xd50b7423, 0]"

theorem patch_dram_clear_correct_witness:
  "\<exists>hook img'. patch_dram_clear 0x100000000 1 [1, 2, 3, 4] image0 = Inr (hook, img') \<and>
    is_bl (img' ! 0x71) \<and> hook = [1, 0xaa0103e2, 0xaa0003e1, 4]"
proof -
  have n: "image0 ! 0x70 = 0xaa0103e2" "image0 ! 0x71 = 0xaa0003e1" "image0 ! 0x72 = 0xd50b7423"
    "\<And>k. k < 0x70 \<Longrightarrow> image0 ! k = 0"
    by (simp_all add: image0_def nth_append)
  have below: "image0 ! k \<noteq> 0xd50b7423" if "k < 0x72" for k
  proof -
    have "k < 0x70 \<or> k = 0x70 \<or> k = 0x71" using that by linarith
    then show ?thesis using n by auto
  qed
  have above: "image0 ! k \<noteq> 0xaa0103e2" if "0x70 < k" "k \<le> 0x72" for k
  proof -
    have "k = 0x71 \<or> k = 0x72" using that by linarith
    then show ?thesis using n by auto
  qed
  have "length image0 = 0x74" by (simp add: image0_def)
  then have d: "dram_clear_at image0 0x72 0x70 (length [1, 2, 3, 4 :: u32])"
    using n below above by (auto simp: dram_clear_at_def)
  have two: "1 + 1 < length [1, 2, 3, 4 :: u32]" by simp
  have t: "0x70 + 1 = (0x71 :: nat)" "1 + 1 = (2 :: nat)" by simp_all
  obtain hook img' where "patch_dram_clear 0x100000000 1 [1, 2, 3, 4] image0 = Inr (hook, img')"
    "is_bl (img' ! 0x71)" "length hook = length [1, 2, 3, 4 :: u32]" "hook ! 1 = image0 ! 0x70"
    "hook ! 2 = image0 ! 0x71" "\<forall>k < length hook. k \<noteq> 1 \<and> k \<noteq> 2 \<longrightarrow> hook ! k = [1, 2, 3, 4] ! k"
    using patch_dram_clear_correct [OF d two, of "0x100000000"] unfolding t by blast
  moreover have "hook = [1, 0xaa0103e2, 0xaa0003e1, 4]"
  proof (rule nth_equalityI)
    fix k assume "k < length hook"
    then have "k = 0 \<or> k = 1 \<or> k = 2 \<or> k = 3" using calculation(3) by simp linarith
    then show "hook ! k = [1, 0xaa0103e2, 0xaa0003e1, 4] ! k" using calculation n by auto
  qed (use calculation(3) in simp)
  ultimately show ?thesis by blast
qed

end
