(* ===== verification/Gic.thy ===== *)
theory Gic
  imports FDTree
begin

text \<open>
  The interrupt controller, \<open>src/src/drivers/gic/gic.c\<close> and \<open>gic.h\<close>: an Arm GICv2, a distributor with
  a register bit, byte or field per interrupt and an interface of the processor that tells the
  pending interrupt. The hardware is not code of the program: what a read returns is an arbitrary
  function \<open>dev\<close> of the accesses made before it and the address, and the driver is modelled as the
  sequence of accesses it makes. The state is that sequence and the two base addresses.
\<close>

unbundle bit_operations_syntax

section \<open>State and accesses\<close>

datatype access = Read32 u64 | Write32 u64 u32 | Write8 u64 u8

record gic =
  dist_base :: u64
  cpu_base :: u64
  trace :: "access list"

type_synonym gic_dev = "access list \<Rightarrow> u64 \<Rightarrow> u32"

definition mmio_read_32 :: "gic_dev \<Rightarrow> u64 \<Rightarrow> gic \<Rightarrow> u32 \<times> gic" where
  "mmio_read_32 dev x s = (dev (trace s) x, s\<lparr>trace := trace s @ [Read32 x]\<rparr>)"

definition mmio_write_32 :: "u64 \<Rightarrow> u32 \<Rightarrow> gic \<Rightarrow> gic" where
  "mmio_write_32 x val s = s\<lparr>trace := trace s @ [Write32 x val]\<rparr>"

definition mmio_write_8 :: "u64 \<Rightarrow> u8 \<Rightarrow> gic \<Rightarrow> gic" where
  "mmio_write_8 x val s = s\<lparr>trace := trace s @ [Write8 x val]\<rparr>"

section \<open>Registers of the distributor\<close>

definition GICD_CTLR :: u32 where "GICD_CTLR = 0x0"
definition GICD_TYPER :: u32 where "GICD_TYPER = 0x4"
definition GICD_IGROUPR :: u32 where "GICD_IGROUPR = 0x80"
definition GICD_ISENABLER :: u32 where "GICD_ISENABLER = 0x100"
definition GICD_IPRIORITYR :: u32 where "GICD_IPRIORITYR = 0x400"
definition GICD_ITARGETSR :: u32 where "GICD_ITARGETSR = 0x800"
definition GICD_ICFGR :: u32 where "GICD_ICFGR = 0xc00"
definition GICD_PIDR2_GICV2 :: u32 where "GICD_PIDR2_GICV2 = 0xFE8"

definition CTLR_ENABLE_G0_BIT :: u32 where "CTLR_ENABLE_G0_BIT = push_bit 0 1"
definition CTLR_ENABLE_G1_BIT :: u32 where "CTLR_ENABLE_G1_BIT = push_bit 1 1"
definition FIQ_EN_BIT :: u32 where "FIQ_EN_BIT = push_bit 3 1"
definition ACK_CTL :: u32 where "ACK_CTL = push_bit 2 1"

definition GICD_IPRIORITYR_DEF_VAL :: u32 where
  "GICD_IPRIORITYR_DEF_VAL = 0x80 OR push_bit 8 0x80 OR push_bit 16 0x80 OR push_bit 24 0x80"

definition gicd_read_pidr2 :: "gic_dev \<Rightarrow> u64 \<Rightarrow> gic \<Rightarrow> u32 \<times> gic" where
  "gicd_read_pidr2 dev base = mmio_read_32 dev (base + ucast GICD_PIDR2_GICV2)"

definition gicd_read_ctlr :: "gic_dev \<Rightarrow> u64 \<Rightarrow> gic \<Rightarrow> u32 \<times> gic" where
  "gicd_read_ctlr dev base = mmio_read_32 dev (base + ucast GICD_CTLR)"

definition gicd_write_ctlr :: "u64 \<Rightarrow> u32 \<Rightarrow> gic \<Rightarrow> gic" where
  "gicd_write_ctlr base val = mmio_write_32 (base + ucast GICD_CTLR) val"

definition gicd_read_typer :: "gic_dev \<Rightarrow> u64 \<Rightarrow> gic \<Rightarrow> u32 \<times> gic" where
  "gicd_read_typer dev base = mmio_read_32 dev (base + ucast GICD_TYPER)"

definition gicd_write_igroupr :: "u64 \<Rightarrow> u32 \<Rightarrow> u32 \<Rightarrow> gic \<Rightarrow> gic" where
  "gicd_write_igroupr base i val =
     (let n = drop_bit 5 i in mmio_write_32 (base + ucast GICD_IGROUPR + ucast (push_bit 2 n)) val)"

definition gicd_write_ipriorityr :: "u64 \<Rightarrow> u32 \<Rightarrow> u32 \<Rightarrow> gic \<Rightarrow> gic" where
  "gicd_write_ipriorityr base i val =
     (let n = drop_bit 2 i in mmio_write_32 (base + ucast GICD_IPRIORITYR + ucast (push_bit 2 n)) val)"

definition gicd_set_ipriorityr :: "u64 \<Rightarrow> u32 \<Rightarrow> u32 \<Rightarrow> gic \<Rightarrow> gic" where
  "gicd_set_ipriorityr base i pri =
     (let val = ucast (pri AND 0xff) in mmio_write_8 (base + ucast GICD_IPRIORITYR + ucast i) val)"

definition gicd_write_icfgr :: "u64 \<Rightarrow> u32 \<Rightarrow> u32 \<Rightarrow> gic \<Rightarrow> gic" where
  "gicd_write_icfgr base i val =
     (let n = drop_bit 4 i in mmio_write_32 (base + ucast GICD_ICFGR + ucast (push_bit 2 n)) val)"

definition gicd_read_icfgr :: "gic_dev \<Rightarrow> u64 \<Rightarrow> u32 \<Rightarrow> gic \<Rightarrow> u32 \<times> gic" where
  "gicd_read_icfgr dev base i =
     (let n = drop_bit 4 i in mmio_read_32 dev (base + ucast GICD_ICFGR + ucast (push_bit 2 n)))"

definition icfgr_value :: "u32 \<Rightarrow> u32 \<Rightarrow> u32 \<Rightarrow> u32" where
  "icfgr_value i cfg reg_val =
     (let bit_num = i AND (push_bit 4 1 - 1);
          bit_shift = push_bit 1 bit_num;
          reg_val = reg_val AND NOT (push_bit (unat bit_shift) 0x3)
      in reg_val OR push_bit (unat bit_shift) (cfg AND 0x3))"

definition gicd_set_icfgr :: "gic_dev \<Rightarrow> u64 \<Rightarrow> u32 \<Rightarrow> u32 \<Rightarrow> gic \<Rightarrow> gic" where
  "gicd_set_icfgr dev base i cfg s =
     (let (reg_val, s1) = gicd_read_icfgr dev base i s
      in gicd_write_icfgr base i (icfgr_value i cfg reg_val) s1)"

definition gicd_write_isenabler :: "u64 \<Rightarrow> u32 \<Rightarrow> u32 \<Rightarrow> gic \<Rightarrow> gic" where
  "gicd_write_isenabler base i val =
     (let n = drop_bit 5 i in mmio_write_32 (base + ucast GICD_ISENABLER + ucast (push_bit 2 n)) val)"

definition gicd_set_isenabler :: "u64 \<Rightarrow> u32 \<Rightarrow> gic \<Rightarrow> gic" where
  "gicd_set_isenabler base i =
     (let bit_num = i AND (push_bit 5 1 - 1) in gicd_write_isenabler base i (push_bit (unat bit_num) 1))"

definition gicd_set_itargetsr :: "u64 \<Rightarrow> u32 \<Rightarrow> u32 \<Rightarrow> gic \<Rightarrow> gic" where
  "gicd_set_itargetsr base i target =
     (let val = ucast (target AND 0xff) in mmio_write_8 (base + ucast GICD_ITARGETSR + ucast i) val)"

definition gicd_read_itargetsr :: "gic_dev \<Rightarrow> u64 \<Rightarrow> u32 \<Rightarrow> gic \<Rightarrow> u32 \<times> gic" where
  "gicd_read_itargetsr dev base i =
     (let n = drop_bit 2 i in mmio_read_32 dev (base + ucast GICD_ITARGETSR + ucast (push_bit 2 n)))"

definition gicv2_get_cpuif_id :: "gic_dev \<Rightarrow> u64 \<Rightarrow> gic \<Rightarrow> u32 \<times> gic" where
  "gicv2_get_cpuif_id dev base s =
     (let (val, s1) = gicd_read_itargetsr dev base 0 s in (val AND 0xff, s1))"

section \<open>Registers of the processor interface\<close>

definition GICC_CTLR :: u32 where "GICC_CTLR = 0x0"
definition GICC_PMR :: u32 where "GICC_PMR = 0x4"
definition GICC_IAR :: u32 where "GICC_IAR = 0xC"
definition GICC_EOIR :: u32 where "GICC_EOIR = 0x10"
definition GICC_HPPIR :: u32 where "GICC_HPPIR = 0x18"
definition GICC_AHPPIR :: u32 where "GICC_AHPPIR = 0x28"
definition INT_ID_MASK :: u32 where "INT_ID_MASK = 0x3ff"
definition PENDING_G1_INTID :: u32 where "PENDING_G1_INTID = 1022"
definition GIC_SPURIOUS_INTERRUPT :: u32 where "GIC_SPURIOUS_INTERRUPT = 1023"

definition gicc_write_pmr :: "u64 \<Rightarrow> u32 \<Rightarrow> gic \<Rightarrow> gic" where
  "gicc_write_pmr base val = mmio_write_32 (base + ucast GICC_PMR) val"

definition gicc_write_ctlr :: "u64 \<Rightarrow> u32 \<Rightarrow> gic \<Rightarrow> gic" where
  "gicc_write_ctlr base val = mmio_write_32 (base + ucast GICC_CTLR) val"

definition gicc_read_IAR :: "gic_dev \<Rightarrow> u64 \<Rightarrow> gic \<Rightarrow> u32 \<times> gic" where
  "gicc_read_IAR dev base = mmio_read_32 dev (base + ucast GICC_IAR)"

definition gicc_read_hppir :: "gic_dev \<Rightarrow> u64 \<Rightarrow> gic \<Rightarrow> u32 \<times> gic" where
  "gicc_read_hppir dev base = mmio_read_32 dev (base + ucast GICC_HPPIR)"

definition gicc_read_ahppir :: "gic_dev \<Rightarrow> u64 \<Rightarrow> gic \<Rightarrow> u32 \<times> gic" where
  "gicc_read_ahppir dev base = mmio_read_32 dev (base + ucast GICC_AHPPIR)"

definition gicc_write_EOIR :: "u64 \<Rightarrow> u32 \<Rightarrow> gic \<Rightarrow> gic" where
  "gicc_write_EOIR base val = mmio_write_32 (base + ucast GICC_EOIR) val"

section \<open>Initialisation\<close>

text \<open>
  \<open>for (index = MIN_SPI_ID; index < num_ints; index += step) body(index)\<close>. The second condition, that
  the increment does not wrap, makes the function total; it always holds, because the callers have
  at most 1024 interrupts (\<open>num_ints_range\<close>).
\<close>

function spi_loop :: "(u32 \<Rightarrow> gic \<Rightarrow> gic) \<Rightarrow> u32 \<Rightarrow> u32 \<Rightarrow> u32 \<Rightarrow> gic \<Rightarrow> gic" where
  "spi_loop body step index num_ints s =
     (if index < num_ints \<and> index < index + step
      then spi_loop body step (index + step) num_ints (body index s)
      else s)"
  by pat_completeness auto
termination
  by (relation "measure (\<lambda>(body, step, index, num_ints, s). 2 ^ 32 - unat index)")
    (auto simp: word_less_nat_alt intro!: diff_less_mono2 unat_u32 [simplified])

declare spi_loop.simps [simp del]

definition gicv2_spis_configure_defaults :: "gic_dev \<Rightarrow> u64 \<Rightarrow> gic \<Rightarrow> gic" where
  "gicv2_spis_configure_defaults dev gicd_base s =
     (let (num_ints, s1) = gicd_read_typer dev gicd_base s;
          num_ints = num_ints AND 0x1f;
          num_ints = push_bit 5 (num_ints + 1);
          s2 = spi_loop (\<lambda>index. gicd_write_igroupr gicd_base index (NOT 0)) 32 32 num_ints s1;
          s3 = spi_loop (\<lambda>index. gicd_write_ipriorityr gicd_base index GICD_IPRIORITYR_DEF_VAL) 4 32 num_ints s2
      in spi_loop (\<lambda>index. gicd_write_icfgr gicd_base index 0) 16 32 num_ints s3)"

definition gicv2_distif_init :: "gic_dev \<Rightarrow> gic \<Rightarrow> gic" where
  "gicv2_distif_init dev s =
     (let (ctlr, s1) = gicd_read_ctlr dev (dist_base s) s;
          s2 = gicd_write_ctlr (dist_base s1) (ctlr AND NOT (CTLR_ENABLE_G0_BIT OR CTLR_ENABLE_G1_BIT)) s1;
          s3 = gicv2_spis_configure_defaults dev (dist_base s2) s2
      in gicd_write_ctlr (dist_base s3) (ctlr OR CTLR_ENABLE_G0_BIT OR CTLR_ENABLE_G1_BIT) s3)"

definition gicv2_cpuif_enable :: "gic \<Rightarrow> gic" where
  "gicv2_cpuif_enable s =
     (let val = CTLR_ENABLE_G0_BIT OR CTLR_ENABLE_G1_BIT OR FIQ_EN_BIT OR ACK_CTL;
          s1 = gicc_write_pmr (cpu_base s) 0xff s
      in gicc_write_ctlr (cpu_base s1) val s1)"

definition interrupt_init :: "gic_dev \<Rightarrow> nat \<Rightarrow> fdt_header \<Rightarrow> bytes \<Rightarrow> nat \<Rightarrow> gic \<Rightarrow> error + gic" where
  "interrupt_init dev fuel hdr m base s =
     bindE (fdtree_find_prop fuel hdr m base (ascii ''intc@'') (ascii ''reg'') (replicate 32 0)) (\<lambda>(found, reg).
     bindE (panic_if (\<not> found) ''did not find gic in device tree'') (\<lambda>_.
     bindE (rd64 reg 0) (\<lambda>dist_addr.
     bindE (rd64 reg 16) (\<lambda>cpu_addr.
     let dist_addr = bswap64 dist_addr; cpu_addr = bswap64 cpu_addr;
         (pidr2, s1) = gicd_read_pidr2 dev dist_addr s;
         gic_version = drop_bit 4 pidr2 AND 0xf
     in bindE (panic_if (gic_version \<noteq> 2) ''gic version not supported'') (\<lambda>_.
        let s2 = s1\<lparr>dist_base := dist_addr, cpu_base := cpu_addr\<rparr>
        in Inr (gicv2_cpuif_enable (gicv2_distif_init dev s2)))))))"

section \<open>Enabling an interrupt, and taking one\<close>

definition gic_unmask_interrupt :: "gic_dev \<Rightarrow> u32 \<Rightarrow> gic \<Rightarrow> gic" where
  "gic_unmask_interrupt dev reg s =
     (let gicd_base = dist_base s;
          s1 = gicd_set_ipriorityr gicd_base reg 0x00 s;
          (target, s2) = gicv2_get_cpuif_id dev gicd_base s1;
          s3 = gicd_set_itargetsr gicd_base reg target s2;
          s4 = gicd_set_icfgr dev gicd_base reg (push_bit 1 1) s3
      in gicd_set_isenabler gicd_base reg s4)"

definition gicv2_get_pending_interrupt_id :: "gic_dev \<Rightarrow> gic \<Rightarrow> u32 \<times> gic" where
  "gicv2_get_pending_interrupt_id dev s =
     (let (hppir, s1) = gicc_read_hppir dev (cpu_base s) s;
          i = hppir AND INT_ID_MASK
      in if i = PENDING_G1_INTID
         then let (ahppir, s2) = gicc_read_ahppir dev (cpu_base s1) s1 in (ahppir AND INT_ID_MASK, s2)
         else (i, s1))"

definition interrupt_vector :: "gic_dev \<Rightarrow> gic \<Rightarrow> u32 \<times> gic" where
  "interrupt_vector dev s =
     (let (interrupt_id, s1) = gicv2_get_pending_interrupt_id dev s
      in if interrupt_id = GIC_SPURIOUS_INTERRUPT then (0, s1)
         else let (_, s2) = gicc_read_IAR dev (cpu_base s1) s1
              in (interrupt_id, gicc_write_EOIR (cpu_base s2) interrupt_id s2))"

end
