(* ===== verification/GicClaims.thy ===== *)
theory GicClaims
  imports Gic
begin

text \<open>
  The properties of the interrupt controller's driver: the accesses that initialisation makes, what
  enabling one interrupt changes, and which interrupt is acknowledged and which is ended.
\<close>

unbundle bit_operations_syntax

section \<open>Register addresses\<close>

lemma drop_bit_unat: "unat (drop_bit n (i :: 'w::len word)) = unat i div 2 ^ n"
  by (simp only: unat_drop_bit_eq) (rule drop_bit_eq_div)

lemma reg_offset:
  assumes "2 \<le> n"
  shows "(ucast (push_bit 2 (drop_bit n (i :: u32))) :: u64) = of_nat (4 * (unat i div 2 ^ n))"
proof -
  have "unat i div 2 ^ n \<le> unat i div 2 ^ 2" using assms by (intro div_le_mono2 power_increasing) simp_all
  also have "\<dots> < 2 ^ 30" using unat_u32 [of i] by (simp add: less_mult_imp_div_less)
  finally have l: "4 * (unat i div 2 ^ n) < 2 ^ 32" by simp
  have "push_bit 2 (drop_bit n i) = drop_bit n i * 4" by (simp add: push_bit_eq_mult)
  then have "unat (push_bit 2 (drop_bit n i)) = 4 * (unat i div 2 ^ n)"
    using l by (simp add: unat_word_ariths drop_bit_unat)
  then have "unat (ucast (push_bit 2 (drop_bit n i)) :: u64) = unat (of_nat (4 * (unat i div 2 ^ n)) :: u64)"
    using l by (simp add: unat_ucast_up unat_of_nat take_bit_nat_eq_self del: of_nat_mult)
  then show ?thesis by (rule word_unat_eq_iff [THEN iffD2])
qed

lemma trace_simps [simp]:
  "mmio_write_32 a v s = s\<lparr>trace := trace s @ [Write32 a v]\<rparr>"
  "mmio_write_8 a w s = s\<lparr>trace := trace s @ [Write8 a w]\<rparr>"
  "mmio_read_32 dev a s = (dev (trace s) a, s\<lparr>trace := trace s @ [Read32 a]\<rparr>)"
  by (simp_all add: mmio_write_32_def mmio_write_8_def mmio_read_32_def)

lemma masks: "(push_bit 4 1 - 1 :: u32) = mask 4" "(push_bit 5 1 - 1 :: u32) = mask 5" "(0xff :: u32) = mask 8"
  by (simp_all add: mask_eq_exp_minus_1)

lemma unat_low_bits:
  "unat (i AND 15) = unat (i :: u32) mod 16" "unat (i AND 31) = unat i mod 32"
proof -
  have m: "(15 :: u32) = mask 4" "(31 :: u32) = mask 5" by (simp_all add: mask_eq_exp_minus_1)
  show "unat (i AND 15) = unat i mod 16" "unat (i AND 31) = unat i mod 32"
    unfolding m unat_and_mask_len by simp_all
qed

section \<open>Enabling an interrupt\<close>

lemma bit_icfgr_value:
  assumes "k < 32"
  shows "bit (icfgr_value i 2 v) k =
    (if k = 2 * (unat i mod 16) + 1 then True else if k = 2 * (unat i mod 16) then False else bit v k)"
proof -
  let ?m = "unat i mod 16"
  have m: "?m < 16" by simp
  then have sh: "unat (push_bit 1 (i AND (push_bit 4 1 - 1))) = 2 * ?m"
    unfolding push_bit_eq_mult using m by (simp add: unat_word_ariths unat_low_bits)
  have b3: "bit (3 :: u32) j = (j = 0 \<or> j = 1)" for j
  proof -
    have m3: "(3 :: u32) = mask 2" by (simp add: mask_eq_exp_minus_1)
    show ?thesis unfolding m3 bit_mask_iff by auto
  qed
  have b2: "bit (2 AND 3 :: u32) j = (j = 1)" for j
    using bit_push_bit_iff [of 1 "1 :: u32" j] by (simp add: bit_1_iff) (auto simp: bit_simps)
  show ?thesis
    unfolding icfgr_value_def Let_def sh bit_or_iff bit_and_iff bit_not_iff bit_push_bit_iff b3 b2
    using assms m by auto
qed


text \<open>C35 \<open>unmask_interrupt\<close> makes exactly these accesses for the interrupt \<open>i\<close>: its own priority
  byte is set to the highest priority, its own target byte to the processor that the first target
  register names, the register that holds its trigger configuration is read and written back with
  only its two bits changed (to edge triggered), and one enable bit, its own, is written as 1 to
  a register where zeros have no effect.\<close>

theorem gic_unmask_accesses:
  defines "R \<equiv> \<lambda>off k. (off + of_nat (4 * k) :: u64)"
  shows "\<exists>target cfg cfg'.
    trace (gic_unmask_interrupt dev i s) = trace s @
      [Write8 (dist_base s + 0x400 + ucast i) 0, Read32 (dist_base s + 0x800),
       Write8 (dist_base s + 0x800 + ucast i) target,
       Read32 (R (dist_base s + 0xc00) (unat i div 16)), Write32 (R (dist_base s + 0xc00) (unat i div 16)) cfg',
       Write32 (R (dist_base s + 0x100) (unat i div 32)) (push_bit (unat i mod 32) 1)] \<and>
    target = ucast (dev (take (length (trace s) + 1) (trace (gic_unmask_interrupt dev i s))) (dist_base s + 0x800)) \<and>
    cfg = dev (take (length (trace s) + 3) (trace (gic_unmask_interrupt dev i s))) (R (dist_base s + 0xc00) (unat i div 16)) \<and>
    (\<forall>k < 32. bit cfg' k = (if k = 2 * (unat i mod 16) + 1 then True
                             else if k = 2 * (unat i mod 16) then False else bit cfg k))"
proof -
  have o4: "(ucast (push_bit 2 (drop_bit 4 i)) :: u64) = of_nat (4 * (unat i div 16))"
    and o5: "(ucast (push_bit 2 (drop_bit 5 i)) :: u64) = of_nat (4 * (unat i div 32))"
    using reg_offset [of 4 i] reg_offset [of 5 i] by simp_all
  have t: "(ucast (x AND 0xff) :: u8) = ucast x" for x :: u32
    unfolding masks by (rule bit_word_eqI) (auto simp: bit_ucast_iff bit_and_iff bit_mask_iff)
  show ?thesis
    by (intro exI [of _ "ucast (dev (trace s @ [Write8 (dist_base s + 0x400 + ucast i) 0]) (dist_base s + 0x800))"]
        exI [of _ "dev (trace s @ [Write8 (dist_base s + 0x400 + ucast i) 0, Read32 (dist_base s + 0x800),
          Write8 (dist_base s + 0x800 + ucast i) (ucast (dev (trace s @
            [Write8 (dist_base s + 0x400 + ucast i) 0]) (dist_base s + 0x800)))])
          (R (dist_base s + 0xc00) (unat i div 16))"]
        exI [of _ "icfgr_value i 2 (dev (trace s @ [Write8 (dist_base s + 0x400 + ucast i) 0, Read32 (dist_base s + 0x800),
          Write8 (dist_base s + 0x800 + ucast i) (ucast (dev (trace s @
            [Write8 (dist_base s + 0x400 + ucast i) 0]) (dist_base s + 0x800)))])
          (R (dist_base s + 0xc00) (unat i div 16)))"])
      (simp add: gic_unmask_interrupt_def gicd_set_ipriorityr_def gicv2_get_cpuif_id_def gicd_read_itargetsr_def
        gicd_set_itargetsr_def gicd_set_icfgr_def gicd_read_icfgr_def gicd_write_icfgr_def gicd_set_isenabler_def
        gicd_write_isenabler_def Let_def o4 o5 t R_def unat_low_bits bit_icfgr_value GICD_IPRIORITYR_def GICD_ITARGETSR_def
        GICD_ICFGR_def GICD_ISENABLER_def)
qed

theorem gic_unmask_accesses_witness:
  "\<exists>cfg'. Write32 0x10c08 cfg' \<in> set (trace (gic_unmask_interrupt (\<lambda>tr a. 0xff) 33
      \<lparr>dist_base = 0x10000, cpu_base = 0x20000, trace = []\<rparr>)) \<and>
    bit cfg' 3 \<and> \<not> bit cfg' 2 \<and> bit cfg' 1 \<and> \<not> bit cfg' 31"
proof -
  have b: "bit (0xff :: u32) 1" "\<not> bit (0xff :: u32) 31" by simp_all
  show ?thesis
    using gic_unmask_accesses [of "\<lambda>tr a. 0xff" 33 "\<lparr>dist_base = 0x10000, cpu_base = 0x20000, trace = []\<rparr>"] b
    by (elim exE conjE) (rule exI, intro conjI, simp, simp_all)
qed

section \<open>Initialisation\<close>

lemma spi_loop_trace:
  assumes body: "\<And>i t. body i t = t\<lparr>trace := trace t @ [acc i]\<rparr>"
    and "a \<le> b" and "st * b + st < 2 ^ 32" and "0 < st"
  shows "spi_loop body (of_nat st) (of_nat (st * a)) (of_nat (st * b)) s =
    s\<lparr>trace := trace s @ map (\<lambda>k. acc (of_nat (st * k))) [a..<b]\<rparr>"
  using assms(2)
proof (induction "b - a" arbitrary: a s)
  case 0
  then show ?case by (subst spi_loop.simps) simp
next
  case (Suc d)
  then have lt: "a < b" by simp
  have "st * a < st * b" using lt assms(4) by simp
  then have small: "st * a < st * b" "st * b < 2 ^ 32" "st * a + st < 2 ^ 32" "st < 2 ^ 32"
    using assms(3) by linarith+
  then have "(of_nat (st * a) :: u32) < of_nat (st * b)"
    by (simp add: word_less_nat_alt unat_of_nat take_bit_nat_eq_self del: of_nat_mult)
  moreover have "(of_nat (st * a) :: u32) < of_nat (st * a) + of_nat st"
    using small assms(4) by (simp add: word_less_nat_alt unat_of_nat take_bit_nat_eq_self flip: of_nat_add del: of_nat_mult)
  moreover have "(of_nat (st * a) :: u32) + of_nat st = of_nat (st * Suc a)" by simp
  moreover have "spi_loop body (of_nat st) (of_nat (st * Suc a)) (of_nat (st * b)) (body (of_nat (st * a)) s) =
      (body (of_nat (st * a)) s)\<lparr>trace := trace (body (of_nat (st * a)) s) @
        map (\<lambda>k. acc (of_nat (st * k))) [Suc a..<b]\<rparr>"
    using Suc by (intro Suc.hyps(1)) auto
  moreover have "[a..<b] = a # [Suc a..<b]" using lt by (rule upt_conv_Cons)
  ultimately show ?case by (subst spi_loop.simps) (simp add: body add.commute del: of_nat_mult of_nat_Suc)
qed

lemma num_ints_range: "push_bit 5 ((typer AND 0x1f) + 1) = (of_nat (32 * (unat typer mod 32 + 1)) :: u32)"
proof -
  have m: "(0x1f :: u32) = mask 5" by (simp add: mask_eq_exp_minus_1)
  have "(typer AND 0x1f) = of_nat (unat typer mod 32)"
    unfolding m by (rule word_unat_eq_iff [THEN iffD2])
      (simp add: unat_and_mask_len unat_of_nat take_bit_nat_eq_self del: mask_numeral)
  then show ?thesis by (simp add: push_bit_eq_mult)
qed

text \<open>C36 \<open>gicv2_distif_init\<close>. With \<open>32 L\<close> interrupts (\<open>L\<close> is read from the type register) the
  distributor is switched off before the configuration is changed and on afterwards, its control
  register otherwise keeping the value that was read; in between each group, priority and trigger
  register of the shared interrupts (number 32 and up) is written exactly once with its default, and
  no register of the processor's private interrupts is written.\<close>

theorem distif_init_accesses:
  fixes s :: gic and dev :: gic_dev
  defines "B \<equiv> dist_base s" and "R \<equiv> \<lambda>off k. (off + of_nat (4 * k) :: u64)"
  defines "ctlr \<equiv> dev (trace s) (dist_base s)"
  defines "off \<equiv> ctlr AND NOT 3" and "on \<equiv> ctlr OR 3"
  defines "L \<equiv> unat (dev (trace s @ [Read32 B, Write32 B off]) (B + 4)) mod 32 + 1"
  shows "trace (gicv2_distif_init dev s) = trace s @ [Read32 B, Write32 B off, Read32 (B + 4)] @
    map (\<lambda>k. Write32 (R (B + 0x80) k) 0xffffffff) [1..<L] @
    map (\<lambda>k. Write32 (R (B + 0x400) k) 0x80808080) [8..<8 * L] @
    map (\<lambda>k. Write32 (R (B + 0xc00) k) 0) [2..<2 * L] @ [Write32 B on]"
proof -
  let ?t0 = "s\<lparr>trace := trace s @ [Read32 B, Write32 B off, Read32 (B + 4)]\<rparr>"
  have L: "1 \<le> L" "L \<le> 32" by (simp_all add: L_def Suc_le_eq)
  have idx: "(ucast (push_bit 2 (drop_bit n (of_nat (2 ^ n * k) :: u32))) :: u64) = of_nat (4 * k)"
    if "2 \<le> n" "2 ^ n * k < 2 ^ 32" for n k
    using reg_offset [OF that(1), of "of_nat (2 ^ n * k)"] that(2)
    by (simp add: unat_of_nat take_bit_nat_eq_self del: of_nat_mult of_nat_power)
  have num: "push_bit 5 ((dev (trace s @ [Read32 B, Write32 B off]) (B + 4) AND 0x1f) + 1) = (of_nat (32 * L) :: u32)"
    unfolding L_def by (rule num_ints_range)
  have g: "spi_loop (\<lambda>index. gicd_write_igroupr B index (- 1)) 32 32 (of_nat (32 * L)) t =
      t\<lparr>trace := trace t @ map (\<lambda>k. Write32 (R (B + 0x80) k) 0xffffffff) [1..<L]\<rparr>" for t
    using spi_loop_trace [of "\<lambda>index. gicd_write_igroupr B index (- 1)"
        "\<lambda>i. Write32 (B + 0x80 + ucast (push_bit 2 (drop_bit 5 i))) (- 1)" 1 L 32 t] L idx [of 5]
    by (simp add: gicd_write_igroupr_def Let_def GICD_IGROUPR_def R_def cong: map_cong del: of_nat_mult)
  have p: "spi_loop (\<lambda>index. gicd_write_ipriorityr B index GICD_IPRIORITYR_DEF_VAL) 4 32 (of_nat (4 * (8 * L))) t =
      t\<lparr>trace := trace t @ map (\<lambda>k. Write32 (R (B + 0x400) k) 0x80808080) [8..<8 * L]\<rparr>" for t
    using spi_loop_trace [of "\<lambda>index. gicd_write_ipriorityr B index GICD_IPRIORITYR_DEF_VAL"
        "\<lambda>i. Write32 (B + 0x400 + ucast (push_bit 2 (drop_bit 2 i))) 0x80808080" 8 "8 * L" 4 t] L idx [of 2]
    by (simp add: gicd_write_ipriorityr_def Let_def GICD_IPRIORITYR_def GICD_IPRIORITYR_DEF_VAL_def R_def
        cong: map_cong del: of_nat_mult)
  have c: "spi_loop (\<lambda>index. gicd_write_icfgr B index 0) 16 32 (of_nat (16 * (2 * L))) t =
      t\<lparr>trace := trace t @ map (\<lambda>k. Write32 (R (B + 0xc00) k) 0) [2..<2 * L]\<rparr>" for t
    using spi_loop_trace [of "\<lambda>index. gicd_write_icfgr B index 0"
        "\<lambda>i. Write32 (B + 0xc00 + ucast (push_bit 2 (drop_bit 4 i))) 0" 2 "2 * L" 16 t] L idx [of 4]
    by (simp add: gicd_write_icfgr_def Let_def GICD_ICFGR_def R_def cong: map_cong del: of_nat_mult)
  have n: "4 * (8 * L) = 32 * L" "16 * (2 * L) = 32 * L" by simp_all
  have bits: "CTLR_ENABLE_G0_BIT OR CTLR_ENABLE_G1_BIT = 3"
    by (simp add: CTLR_ENABLE_G0_BIT_def CTLR_ENABLE_G1_BIT_def)
  have off4: "ctlr AND - 4 = off" by (simp add: off_def)
  have on3: "ctlr OR 3 = on" by (simp add: on_def)
  have r: "gicd_read_ctlr dev B s = (ctlr, s\<lparr>trace := trace s @ [Read32 B]\<rparr>)"
    by (simp add: gicd_read_ctlr_def GICD_CTLR_def ctlr_def B_def)
  have spis: "gicv2_spis_configure_defaults dev B (s\<lparr>trace := trace s @ [Read32 B, Write32 B off]\<rparr>) =
      ?t0\<lparr>trace := trace ?t0 @ map (\<lambda>k. Write32 (R (B + 0x80) k) 0xffffffff) [1..<L] @
        map (\<lambda>k. Write32 (R (B + 0x400) k) 0x80808080) [8..<8 * L] @
        map (\<lambda>k. Write32 (R (B + 0xc00) k) 0) [2..<2 * L]\<rparr>"
    unfolding gicv2_spis_configure_defaults_def gicd_read_typer_def GICD_TYPER_def trace_simps Let_def
    by (simp add: num g p [unfolded n] c [unfolded n] del: of_nat_mult)
  show ?thesis
    unfolding gicv2_distif_init_def B_def [symmetric] r
    using spis by (simp add: Let_def gicd_write_ctlr_def GICD_CTLR_def bits B_def [symmetric] off4 on3 or.assoc)
qed

section \<open>Taking an interrupt\<close>

text \<open>\<open>interrupt_vector\<close> takes the number from the pending register, discards what reading the
  acknowledge register returns, and ends the interrupt it took the number of. When the hardware
  acknowledges another interrupt (one of higher priority became pending between the two reads),
  the acknowledged interrupt is never ended, and the handler runs for one that was not
  acknowledged.\<close>

theorem interrupt_vector_ends_pending:
  defines "hp \<equiv> \<lambda>(dev :: gic_dev) s. dev (trace s) (cpu_base s + 0x18) AND 0x3ff"
  assumes "hp dev s < 1022"
  shows "\<exists>t acked. interrupt_vector dev s = (hp dev s, t) \<and>
    trace t = trace s @ [Read32 (cpu_base s + 0x18), Read32 (cpu_base s + 0xC), Write32 (cpu_base s + 0x10) (hp dev s)] \<and>
    acked = dev (trace s @ [Read32 (cpu_base s + 0x18)]) (cpu_base s + 0xC) \<and>
    (acked AND 0x3ff \<noteq> hp dev s \<longrightarrow> Write32 (cpu_base s + 0x10) acked \<notin> set (drop (length (trace s)) (trace t)))"
proof -
  have ne: "hp dev s \<noteq> 1022" "hp dev s \<noteq> 1023" using assms(2) by auto
  have "hp dev s AND 0x3ff = hp dev s" by (simp add: hp_def and.assoc)
  then show ?thesis
    using ne by (auto simp: interrupt_vector_def gicv2_get_pending_interrupt_id_def gicc_read_hppir_def
        gicc_read_IAR_def gicc_write_EOIR_def Let_def hp_def GICC_HPPIR_def INT_ID_MASK_def PENDING_G1_INTID_def
        GIC_SPURIOUS_INTERRUPT_def GICC_IAR_def GICC_EOIR_def)
qed

theorem interrupt_vector_ends_pending_witness:
  "\<exists>t. interrupt_vector (\<lambda>tr a. if a = 0x10018 then 33 else 40) \<lparr>dist_base = 0, cpu_base = 0x10000, trace = []\<rparr> = (33, t) \<and>
    Write32 0x10010 40 \<notin> set (trace t)"
  using interrupt_vector_ends_pending [of "\<lambda>tr a. if a = 0x10018 then 33 else 40"
      "\<lparr>dist_base = 0, cpu_base = 0x10000, trace = []\<rparr>"] by simp blast

end
