(* ===== verification/CallStack.thy ===== *)
theory CallStack
  imports Prelude
begin

text \<open>
  The two walks along the frame pointers that print a call stack: the one of \<open>panic\<close>
  (\<open>src/src/kernel/panic.c\<close>) and the one of \<open>print_state\<close> (\<open>src/src/kernel/lowlevel.c\<close>). Memory is the
  function that says what \<open>memcpy_trap\<close> copies from the frame at an address: the caller's frame
  pointer and the return address, or nothing when the access faults. The result is the lines printed.
  \<open>panic\<close>'s walk has no bound, so it is a partial function.
\<close>

datatype stack_line =
    FrameLine u64 u64 u64
  | NoAccess u64
  | TooDeep

type_synonym frames = "u64 \<Rightarrow> (u64 \<times> u64) option"

partial_function (option) panic_walk :: "frames \<Rightarrow> u64 \<Rightarrow> nat \<Rightarrow> stack_line list option" where
  "panic_walk frame fp depth =
     (if fp = 0 then Some []
      else case frame fp of
        None \<Rightarrow> Some [NoAccess fp]
      | Some fpcopy \<Rightarrow>
          Option.bind (panic_walk frame (fst fpcopy) (depth + 1)) (\<lambda>rest.
          Some (FrameLine fp (fst fpcopy) (snd fpcopy) # (if depth + 1 > 64 then [TooDeep] else []) @ rest)))"

function print_state_walk :: "frames \<Rightarrow> u64 \<Rightarrow> nat \<Rightarrow> stack_line list" where
  "print_state_walk frame fp depth =
     (if fp = 0 then []
      else case frame fp of
        None \<Rightarrow> [NoAccess fp]
      | Some fpcopy \<Rightarrow>
          FrameLine fp (fst fpcopy) (snd fpcopy) #
          (if depth + 1 > 64 then [TooDeep] else print_state_walk frame (fst fpcopy) (depth + 1)))"
  by pat_completeness auto
termination by (relation "measure (\<lambda>(frame, fp, depth). 65 - depth)") auto

declare print_state_walk.simps [simp del]

lemma print_state_walk_length: "depth \<le> 64 \<Longrightarrow> length (print_state_walk frame fp depth) \<le> 66 - depth"
proof (induction frame fp depth rule: print_state_walk.induct)
  case (1 frame fp depth)
  show ?case
  proof (cases "fp = 0 \<or> frame fp = None")
    case True
    then show ?thesis using 1(2) by (subst print_state_walk.simps) auto
  next
    case False
    then obtain f where f: "frame fp = Some f" "fp \<noteq> 0" by auto
    show ?thesis
    proof (cases "depth = 64")
      case True
      then show ?thesis using f by (subst print_state_walk.simps) simp
    next
      case False
      then have "length (print_state_walk frame (fst f) (depth + 1)) \<le> 66 - (depth + 1)" using 1 f by simp
      then show ?thesis using f False 1(2) by (subst print_state_walk.simps) simp
    qed
  qed
qed

text \<open>The frames of a chain that ends: \<open>frame_chain frame fp n\<close> when it has \<open>n\<close> frames that can be read.\<close>

inductive frame_chain :: "frames \<Rightarrow> u64 \<Rightarrow> nat \<Rightarrow> bool" where
  chain_end: "frame_chain frame 0 0"
| chain_fault: "fp \<noteq> 0 \<Longrightarrow> frame fp = None \<Longrightarrow> frame_chain frame fp 0"
| chain_frame: "fp \<noteq> 0 \<Longrightarrow> frame fp = Some (f, lr) \<Longrightarrow> frame_chain frame f n \<Longrightarrow> frame_chain frame fp (Suc n)"

lemma walks_agree: "frame_chain frame fp n \<Longrightarrow> depth + n \<le> 64 \<Longrightarrow> panic_walk frame fp depth = Some (print_state_walk frame fp depth)"
  by (induction arbitrary: depth rule: frame_chain.induct)
    (subst panic_walk.simps, subst print_state_walk.simps, simp)+

definition closed_frames :: "u64 set \<Rightarrow> frames \<Rightarrow> bool" where
  "closed_frames S frame \<longleftrightarrow> 0 \<notin> S \<and> (\<forall>x \<in> S. \<exists>f lr. frame x = Some (f, lr) \<and> f \<in> S)"

lemma panic_walk_leaves:
  assumes "panic_walk frame fp depth = Some r"
  shows "closed_frames S frame \<longrightarrow> fp \<notin> S"
proof (rule panic_walk.raw_induct [of "\<lambda>frame fp depth r. closed_frames S frame \<longrightarrow> fp \<notin> S", OF _ assms])
  fix walk :: "frames \<Rightarrow> u64 \<Rightarrow> nat \<Rightarrow> stack_line list option" and frame fp depth r
  assume IH: "\<And>frame fp depth r. walk frame fp depth = Some r \<Longrightarrow> closed_frames S frame \<longrightarrow> fp \<notin> S"
    and step: "(if fp = 0 then Some []
      else case frame fp of
        None \<Rightarrow> Some [NoAccess fp]
      | Some fpcopy \<Rightarrow>
          Option.bind (walk frame (fst fpcopy) (depth + 1)) (\<lambda>rest.
          Some (FrameLine fp (fst fpcopy) (snd fpcopy) # (if depth + 1 > 64 then [TooDeep] else []) @ rest))) = Some r"
  show "closed_frames S frame \<longrightarrow> fp \<notin> S"
  proof (intro impI notI)
    assume c: "closed_frames S frame" and in_S: "fp \<in> S"
    then obtain f lr where f: "frame fp = Some (f, lr)" "f \<in> S" by (auto simp: closed_frames_def)
    moreover have "fp \<noteq> 0" using in_S c by (auto simp: closed_frames_def)
    ultimately obtain q where "walk frame f (depth + 1) = Some q"
      using step by (cases "walk frame f (depth + 1)") simp_all
    with IH c f(2) show False by blast
  qed
qed

text \<open>C38 Ending of the stack walks. On a chain of at most 64 frames \<open>panic\<close> and \<open>print_state\<close> print the
  same lines. \<open>print_state\<close> ends on every memory with at most 66 lines. \<open>panic\<close> prints that the
  stack is too deep and goes on: on frames that lead into a cycle (a corrupted or self-referring
  frame pointer) its walk never ends, so the reset that follows it is never reached.\<close>

theorem stack_walks_end:
  "(\<forall>n. frame_chain frame fp n \<longrightarrow> n \<le> 64 \<longrightarrow> panic_walk frame fp 0 = Some (print_state_walk frame fp 0)) \<and>
   length (print_state_walk frame fp 0) \<le> 66 \<and>
   (\<forall>S. fp \<in> S \<longrightarrow> 0 \<notin> S \<longrightarrow> (\<forall>x \<in> S. \<exists>f lr. frame x = Some (f, lr) \<and> f \<in> S) \<longrightarrow> panic_walk frame fp 0 = None)"
proof (intro conjI allI impI)
  show "panic_walk frame fp 0 = Some (print_state_walk frame fp 0)" if "frame_chain frame fp n" "n \<le> 64" for n
    using walks_agree [OF that(1), of 0] that(2) by simp
  show "length (print_state_walk frame fp 0) \<le> 66"
    using print_state_walk_length [of 0 frame fp] by simp
  show "panic_walk frame fp 0 = None"
    if "fp \<in> S" "0 \<notin> S" "\<forall>x \<in> S. \<exists>f lr. frame x = Some (f, lr) \<and> f \<in> S" for S
    using panic_walk_leaves [of frame fp 0 _ S] that by (cases "panic_walk frame fp 0") (auto simp: closed_frames_def)
qed

theorem stack_walks_end_witness:
  "panic_walk (\<lambda>a. Some (a, 0x1234)) 0x1000 0 = None \<and>
   panic_walk (\<lambda>a. if a = 0x1000 then Some (0, 0x1234) else None) 0x1000 0 = Some [FrameLine 0x1000 0 0x1234]"
proof
  have "(0x1000 :: u64) \<in> {0x1000} \<and> (0 :: u64) \<notin> {0x1000} \<and>
      (\<forall>x \<in> {0x1000 :: u64}. \<exists>f lr. Some (x, 0x1234 :: u64) = Some (f, lr) \<and> f \<in> {0x1000})" by simp
  then show "panic_walk (\<lambda>a. Some (a, 0x1234)) 0x1000 0 = None"
    using stack_walks_end [of "\<lambda>a. Some (a, 0x1234)" "0x1000"] by blast
  let ?f = "\<lambda>a :: u64. if a = 0x1000 then Some (0 :: u64, 0x1234 :: u64) else None"
  have "frame_chain ?f 0x1000 1" using chain_frame [OF _ _ chain_end, of "0x1000" ?f "0x1234"] by simp
  then show "panic_walk ?f 0x1000 0 = Some [FrameLine 0x1000 0 0x1234]"
    using stack_walks_end [of ?f "0x1000"] by (simp add: print_state_walk.simps)
qed

end
