(* ===== verification/Pl011.thy ===== *)
theory Pl011
  imports Stdio Fb
begin

text \<open>
  The serial console of the emulated board, \<open>src/src/drivers/pl011/pl011.c\<close>: the interrupt task that moves
  received characters to standard input (\<open>queue_rx_char\<close> of the input component), and the picture
  printed at start. The access to the port itself is assembly (\<open>pl011_console.S\<close>): \<open>getc\<close>, a
  parameter, takes a character from the receive queue or gives \<open>ERROR_NO_PENDING_CHAR\<close>, -1.
\<close>

unbundle bit_operations_syntax

section \<open>Receiving\<close>

definition ERROR_NO_PENDING_CHAR :: int where
  "ERROR_NO_PENDING_CHAR = -1"

type_synonym 'c getc = "'c \<Rightarrow> int \<times> 'c"

text \<open>The result of \<open>getc\<close> is narrowed to a (signed) character.\<close>

definition serial_getc :: "'c getc \<Rightarrow> 'c \<Rightarrow> u8 \<times> 'c" where
  "serial_getc getc c = (let (r, c') = getc c in (of_int r, c'))"

definition serial_disable_rx :: "io \<Rightarrow> io" where
  "serial_disable_rx s = s\<lparr>uart_should_drop_rx := True\<rparr>"

definition serial_enable_rx :: "io \<Rightarrow> io" where
  "serial_enable_rx s = s\<lparr>uart_should_drop_rx := False\<rparr>"

text \<open>
  The loop over the characters of one interrupt; interrupts are disabled around it and enabled
  while a character is queued. It ends when a character equals -1; the fuel bounds the characters.
\<close>

primrec uart_loop :: "nat \<Rightarrow> 'c getc \<Rightarrow> u8 \<Rightarrow> 'c \<Rightarrow> io \<Rightarrow> error + ('c \<times> io)" where
  "uart_loop 0 getc cmd_l c s = Inl OutOfFuel"
| "uart_loop (Suc n) getc cmd_l c s =
     bindE (if \<not> uart_should_drop_rx s
            then bindE (queue_rx_char cmd_l (s\<lparr>io_dis_int := io_dis_int s - 1\<rparr>)) (\<lambda>s.
                 Inr (s\<lparr>io_dis_int := io_dis_int s + 1\<rparr>))
            else Inr s) (\<lambda>s.
     let (cmd_l, c) = serial_getc getc c
     in if cmd_l \<noteq> of_int ERROR_NO_PENDING_CHAR then uart_loop n getc cmd_l c s else Inr (c, s))"

definition uart_round :: "nat \<Rightarrow> 'c getc \<Rightarrow> 'c \<Rightarrow> io \<Rightarrow> error + ('c \<times> io)" where
  "uart_round n getc c s =
     (let s1 = s\<lparr>io_dis_int := io_dis_int s + 1\<rparr>;
          (cmd_l, c1) = serial_getc getc c
      in bindE (uart_loop n getc cmd_l c1 s1) (\<lambda>(c2, s2). Inr (c2, s2\<lparr>io_dis_int := io_dis_int s2 - 1\<rparr>)))"

section \<open>The picture at start\<close>

definition put_serial_modifier :: "bytes \<Rightarrow> bytes \<Rightarrow> bytes" where
  "put_serial_modifier str sent = sent @ str"

definition logo_cell :: "u32 \<Rightarrow> nat \<Rightarrow> nat \<Rightarrow> bytes \<Rightarrow> bytes" where
  "logo_cell b x cnt sent =
     (let reorder = ascii ''132645'';
          lit = (b AND push_bit x 1 \<noteq> 0);
          sent = (if lit then put_serial_modifier ([0x1b] @ ascii ''[4'' @ [reorder ! (cnt mod 6)] @ ascii '';1m'') sent
                  else sent);
          sent = sent @ [0x20] @ [0x20]
      in if lit then put_serial_modifier ([0x1b] @ ascii ''[0m'') sent else sent)"

primrec logo_row :: "nat \<Rightarrow> u32 \<Rightarrow> nat \<Rightarrow> nat \<times> bytes \<Rightarrow> nat \<times> bytes" where
  "logo_row 0 b y st = st"
| "logo_row (Suc n) b y st =
     (let x = 31 - n; (cnt, sent) = st in logo_row n b y ((x + 1) + y, logo_cell b x cnt sent))"

primrec logo_rows :: "nat \<Rightarrow> nat \<times> bytes \<Rightarrow> nat \<times> bytes" where
  "logo_rows 0 st = st"
| "logo_rows (Suc n) st =
     (let y = 31 - n; (cnt, sent) = logo_row 32 (gLogoBitmap ! y) y st in logo_rows n (cnt, sent @ [0x0a]))"

definition serial_logo :: bytes where
  "serial_logo = snd (logo_rows 32 (0, []))"

section \<open>What an interrupt delivers\<close>

text \<open>A receive queue.\<close>

definition fifo_getc :: "bytes getc" where
  "fifo_getc q = (case q of [] \<Rightarrow> (ERROR_NO_PENDING_CHAR, []) | c # cs \<Rightarrow> (uint c, cs))"

lemma serial_getc_fifo [simp]:
  "serial_getc fifo_getc [] = (0xff, [])"
  "serial_getc fifo_getc (c # cs) = (c, cs)"
  by (simp_all add: serial_getc_def fifo_getc_def ERROR_NO_PENDING_CHAR_def)

lemma io_dis_int_zero [simp]: "io_dis_int s = 0 \<Longrightarrow> s\<lparr>io_dis_int := 0\<rparr> = s"
  by simp

lemma queue_rx_char_keeps_irq:
  assumes "queue_rx_char c s = Inr t"
  shows "io_dis_int t = io_dis_int s" and "uart_should_drop_rx t = uart_should_drop_rx s"
  using assms
  by (auto simp: queue_rx_char_def queue_rx_one_def io_locked_def Let_def echo_err_def split: if_splits)

lemma uart_loop_fifo:
  assumes "\<not> uart_should_drop_rx s" and "io_dis_int s = 1" and "length q < n"
    and "queue_rx_each (c # takeWhile (\<lambda>x. x \<noteq> 0xff) q) (s\<lparr>io_dis_int := 0\<rparr>) = Inr t"
  shows "uart_loop n fifo_getc c q s = Inr (tl (dropWhile (\<lambda>x. x \<noteq> 0xff) q), t\<lparr>io_dis_int := 1\<rparr>)"
  using assms
proof (induction n arbitrary: c q s)
  case (Suc n)
  let ?s = "s\<lparr>io_dis_int := 0\<rparr>"
  from Suc.prems(4) obtain u where u: "queue_rx_char c ?s = Inr u"
    "queue_rx_each (takeWhile (\<lambda>x. x \<noteq> 0xff) q) u = Inr t" by auto
  note k = queue_rx_char_keeps_irq [OF u(1)]
  have zero: "s\<lparr>io_dis_int := io_dis_int s - 1\<rparr> = ?s" using Suc.prems(2) by simp
  have one: "io_dis_int u + 1 = 1" using k by simp
  show ?case
  proof (cases q)
    case Nil
    then show ?thesis using Suc.prems(1) u zero one by (simp add: ERROR_NO_PENDING_CHAR_def)
  next
    case (Cons d q')
    show ?thesis
    proof (cases "d = 0xff")
      case True
      then show ?thesis using Cons Suc.prems(1) u zero one by (simp add: ERROR_NO_PENDING_CHAR_def)
    next
      case False
      have "u\<lparr>io_dis_int := 1, io_dis_int := 0\<rparr> = u" using k by simp
      then have "uart_loop n fifo_getc d q' (u\<lparr>io_dis_int := 1\<rparr>) =
          Inr (tl (dropWhile (\<lambda>x. x \<noteq> 0xff) q'), t\<lparr>io_dis_int := 1\<rparr>)"
        using Suc.prems(1,3) k u(2) False Cons by (intro Suc.IH) simp_all
      moreover have "(- 1 :: u8) = 0xff" by simp
      then have "d \<noteq> - 1" using False by argo
      ultimately show ?thesis using Cons False Suc.prems(1) u zero one by (simp add: ERROR_NO_PENDING_CHAR_def)
    qed
  qed
qed simp

text \<open>C37 What one interrupt of the serial port delivers to standard input. The characters of the
  receive queue are queued in order, up to the next byte \<open>0xff\<close>: that byte equals the value for
  an empty queue, is taken from the queue and lost, and what follows it waits for the next
  interrupt. As the first character is not compared, an interrupt with an empty queue delivers a
  byte \<open>0xff\<close> that was never received.\<close>

theorem uart_round_delivers:
  assumes "\<not> uart_should_drop_rx s" and "io_dis_int s = 0" and "length q < n"
    and "queue_rx_each ((if q = [] then 0xff else hd q) # takeWhile (\<lambda>x. x \<noteq> 0xff) (tl q)) s = Inr t"
  shows "uart_round n fifo_getc q s = Inr (tl (dropWhile (\<lambda>x. x \<noteq> 0xff) (tl q)), t)"
proof -
  let ?s = "s\<lparr>io_dis_int := 1\<rparr>" and ?c = "if q = [] then 0xff else hd q"
  have g: "serial_getc fifo_getc q = (?c, tl q)" by (cases q) simp_all
  have s: "?s\<lparr>io_dis_int := 0\<rparr> = s" using assms(2) by simp
  have str: "queue_rx_each cs a = Inr b \<Longrightarrow> io_dis_int b = io_dis_int a" for cs a b
    by (induction cs arbitrary: a) (auto dest: queue_rx_char_keeps_irq(1))
  have t0: "t\<lparr>io_dis_int := 0\<rparr> = t" using str [OF assms(4)] assms(2) by simp
  have "uart_loop n fifo_getc ?c (tl q) ?s = Inr (tl (dropWhile (\<lambda>x. x \<noteq> 0xff) (tl q)), t\<lparr>io_dis_int := 1\<rparr>)"
    by (rule uart_loop_fifo) (use assms s in \<open>simp_all del: queue_rx_each.simps\<close>)
  then show ?thesis
    using assms(2) t0 by (simp add: uart_round_def g)
qed

theorem uart_round_delivers_witness:
  "\<exists>t. uart_round 4 fifo_getc [0x61, 0x0d, 0xff] (ex_io\<lparr>uart_should_drop_rx := False, io_dis_int := 0, stdin_buf := []\<rparr>) = Inr ([], t) \<and>
     stdin_buf t = [0x61, 0x0d, 0x0a]"
proof -
  let ?s = "ex_io\<lparr>uart_should_drop_rx := False, io_dis_int := 0, stdin_buf := []\<rparr>"
  have "\<exists>t. queue_rx_each [0x61, 0x0d] ?s = Inr t \<and> stdin_buf t = stdin_buf ?s @ crlf [0x61, 0x0d] \<and> io_dis_int t = 0"
    by (rule queue_rx_each_plain) (simp_all add: crlf_def STDIN_BUFLEN_def)
  then obtain t where t: "queue_rx_each [0x61, 0x0d] ?s = Inr t" "stdin_buf t = [0x61, 0x0d, 0x0a]"
    by (auto simp: crlf_def)
  have "uart_round 4 fifo_getc [0x61, 0x0d, 0xff] ?s = Inr (tl (dropWhile (\<lambda>x. x \<noteq> 0xff) (tl [0x61, 0x0d, 0xff])), t)"
    by (rule uart_round_delivers) (use t in simp_all)
  with t show ?thesis by simp
qed

end
