(* ===== verification/Aes.thy ===== *)
theory Aes
  imports Shell
begin

text \<open>
  The AES engines, \<open>src/src/drivers/aes/\<close>: the check of the arguments (\<open>aes.c\<close>), the engine of the A7 family,
  which is fed block by block through registers (\<open>aes_a7.c\<close>), the engine of the A9 family, which is sent a
  sequence of command words (\<open>aes_a9.c\<close>), and the shell command. The hardware is not code of the
  program: what a register read returns is an arbitrary function of the accesses before it, and a
  driver is modelled as the sequence of its accesses. The fuel bounds the rounds of each wait.
  Buffers that the drivers read word by word are lists of words. Cache maintenance is not modelled.
\<close>

unbundle bit_operations_syntax

section \<open>Operations\<close>

definition AES_ENCRYPT :: u32 where "AES_ENCRYPT = 0x00000000"
definition AES_DECRYPT :: u32 where "AES_DECRYPT = 0x80000000"
definition AES_MODE_MASK :: u32 where "AES_MODE_MASK = 0x80000000"
definition AES_CBC :: u32 where "AES_CBC = 0x00000000"
definition AES_ECB :: u32 where "AES_ECB = 0x40000000"
definition AES_CIPHER_MASK :: u32 where "AES_CIPHER_MASK = 0x40000000"
definition AES_128 :: u32 where "AES_128 = 0x10000000"
definition AES_192 :: u32 where "AES_192 = 0x20000000"
definition AES_256 :: u32 where "AES_256 = 0x30000000"
definition AES_BITS_MASK :: u32 where "AES_BITS_MASK = 0x30000000"
definition AES_USER_KEY :: u32 where "AES_USER_KEY = 0x00000000"
definition AES_UID :: u32 where "AES_UID = 0x00000001"
definition AES_GID0 :: u32 where "AES_GID0 = 0x00000002"
definition AES_GID1 :: u32 where "AES_GID1 = 0x00000003"
definition AES_KEY_MASK :: u32 where "AES_KEY_MASK = 0x00000003"

definition AES_ALL_MASK :: u32 where
  "AES_ALL_MASK = AES_MODE_MASK OR AES_CIPHER_MASK OR AES_BITS_MASK OR AES_KEY_MASK"

lemmas aes_ops = AES_ENCRYPT_def AES_DECRYPT_def AES_MODE_MASK_def AES_CBC_def AES_ECB_def AES_CIPHER_MASK_def
  AES_128_def AES_192_def AES_256_def AES_BITS_MASK_def AES_USER_KEY_def AES_UID_def AES_GID0_def AES_GID1_def
  AES_KEY_MASK_def AES_ALL_MASK_def

definition EFAULT :: int where "EFAULT = 14"
definition EINVAL :: int where "EINVAL = 22"

text \<open>The switches both drivers start with: key, length, direction and mode of an operation.\<close>

definition op_keyid :: "u32 \<Rightarrow> u32" where
  "op_keyid op =
     (if op AND AES_KEY_MASK = AES_USER_KEY then 0 else if op AND AES_KEY_MASK = AES_UID then 1
      else if op AND AES_KEY_MASK = AES_GID0 then 2 else 3)"

definition op_bits :: "u32 \<Rightarrow> error + u32" where
  "op_bits op =
     (if op AND AES_BITS_MASK = AES_128 then Inr 0 else if op AND AES_BITS_MASK = AES_192 then Inr 1
      else if op AND AES_BITS_MASK = AES_256 then Inr 2 else Inl (Panic ''AES A9: Invalid key length''))"

definition op_encrypt :: "u32 \<Rightarrow> u32" where
  "op_encrypt op = (if op AND AES_MODE_MASK = AES_ENCRYPT then 1 else 0)"

definition op_mode :: "u32 \<Rightarrow> u32" where
  "op_mode op = (if op AND AES_CIPHER_MASK = AES_CBC then 1 else 0)"

section \<open>Register accesses\<close>

datatype reg_access = RegRead u64 | RegWrite u64 u32

type_synonym aes_trace = "reg_access list"
type_synonym aes_dev = "aes_trace \<Rightarrow> u64 \<Rightarrow> u32"

definition reg_get :: "aes_dev \<Rightarrow> u64 \<Rightarrow> aes_trace \<Rightarrow> u32 \<times> aes_trace" where
  "reg_get dev a tr = (dev tr a, tr @ [RegRead a])"

definition reg_put :: "u64 \<Rightarrow> u32 \<Rightarrow> aes_trace \<Rightarrow> aes_trace" where
  "reg_put a v tr = tr @ [RegWrite a v]"

primrec wait_reg :: "nat \<Rightarrow> aes_dev \<Rightarrow> u64 \<Rightarrow> (u32 \<Rightarrow> bool) \<Rightarrow> aes_trace \<Rightarrow> error + aes_trace" where
  "wait_reg 0 dev a ready tr = Inl OutOfFuel"
| "wait_reg (Suc n) dev a ready tr =
     (let (v, tr) = reg_get dev a tr in if ready v then Inr tr else wait_reg n dev a ready tr)"

definition clock_gate :: "nat \<Rightarrow> aes_dev \<Rightarrow> u64 \<Rightarrow> bool \<Rightarrow> aes_trace \<Rightarrow> error + aes_trace" where
  "clock_gate n dev addr val tr =
     (let (x, tr) = reg_get dev addr tr;
          tr = reg_put addr (if val then x OR 0xF else x AND NOT 0xF) tr
      in wait_reg n dev addr (\<lambda>x. x AND 0xf = drop_bit 4 x AND 0xf) tr)"

primrec put_words :: "(nat \<Rightarrow> u64) \<Rightarrow> nat \<Rightarrow> u32 list \<Rightarrow> aes_trace \<Rightarrow> aes_trace" where
  "put_words reg i [] tr = tr"
| "put_words reg i (w # ws) tr = put_words reg (i + 1) ws (reg_put (reg i) w tr)"

text \<open>The words of a key of the given length code; an access behind the key's buffer fails.\<close>

definition key_words :: "u32 \<Rightarrow> u32 list \<Rightarrow> error + u32 list" where
  "key_words bits key =
     (let n = (if bits > 1 then 8 else if bits > 0 then 6 else 4)
      in if length key < n then Inl BadAccess else Inr (take n key))"

definition iv_words :: "u32 list option \<Rightarrow> error + u32 list" where
  "iv_words iv =
     (case iv of None \<Rightarrow> Inr [0, 0, 0, 0]
      | Some ws \<Rightarrow> if length ws < 4 then Inl BadAccess else Inr (take 4 ws))"

definition user_key :: "u32 \<Rightarrow> u32 \<Rightarrow> u32 list option \<Rightarrow> error + u32 list" where
  "user_key op bits key =
     (if op AND AES_KEY_MASK = AES_USER_KEY
      then (case key of None \<Rightarrow> Inl BadAccess | Some k \<Rightarrow> key_words bits k) else Inr [])"

section \<open>The engine of the A9 family\<close>

record aes_hw =
  gIOBase :: u64
  gAESBase :: u64
  gAESPipeBase :: u64
  gAESClockAddr :: u64

definition aes_a9_init :: "u64 \<Rightarrow> u32 \<Rightarrow> aes_hw \<Rightarrow> error + aes_hw" where
  "aes_a9_init reg socnum h0 =
     (let h1 = h0\<lparr>gAESBase := gIOBase h0 + reg\<rparr>;
          h2 = h1\<lparr>gAESPipeBase := gAESBase h1 + 0x200\<rparr>
      in if socnum = 0x8000 \<or> socnum = 0x8003
         then Inr (h2\<lparr>gAESPipeBase := gAESBase h2 + 0x100, gAESClockAddr := gIOBase h2 + 0x0e080220\<rparr>)
         else if socnum = 0x8001 then Inr (h2\<lparr>gAESClockAddr := gIOBase h2 + 0x0e080218\<rparr>)
         else if socnum = 0x8010 then Inr (h2\<lparr>gAESClockAddr := gIOBase h2 + 0x0e080230\<rparr>)
         else if socnum = 0x8011 then Inr (h2\<lparr>gAESClockAddr := gIOBase h2 + 0x0e080228\<rparr>)
         else if socnum = 0x8012 then Inr (h2\<lparr>gAESClockAddr := gIOBase h2 + 0x0e080238\<rparr>)
         else if socnum = 0x8015 then Inr (h2\<lparr>gAESClockAddr := gIOBase h2 + 0x32080240\<rparr>)
         else Inl (Panic ''AES A9: counterfeit init call''))"

text \<open>The words pushed into the pipe: key, initial vector, data, and the flags that start it.\<close>

definition a9_op_key :: "u32 \<Rightarrow> u32 \<Rightarrow> u32" where
  "a9_op_key op bits =
     0x10000000 OR push_bit 24 (op_keyid op) OR push_bit 22 bits OR push_bit 20 (op_encrypt op) OR
     push_bit 16 (op_mode op)"

definition a9_data_words :: "u64 \<Rightarrow> u64 \<Rightarrow> u64 \<Rightarrow> u32 list" where
  "a9_data_words src_addr dst_addr len =
     [0x50000000 OR ucast (len AND 0xfffff0),
      ucast ((drop_bit 16 src_addr AND 0xFF0000) OR (drop_bit 32 dst_addr AND 0xff)),
      ucast src_addr, ucast dst_addr]"

definition a9_pipe_words :: "u32 \<Rightarrow> u64 \<Rightarrow> u64 \<Rightarrow> u64 \<Rightarrow> u32 list option \<Rightarrow> u32 list option \<Rightarrow> error + u32 list" where
  "a9_pipe_words op src_addr dst_addr len iv key =
     bindE (op_bits op) (\<lambda>bits.
     bindE (user_key op bits key) (\<lambda>ks.
     bindE (iv_words iv) (\<lambda>is.
     Inr ([a9_op_key op bits] @ ks @ [0x20000000] @ is @ a9_data_words src_addr dst_addr len @
          [0x80000000 OR 0x04000000 OR 0x08000000]))))"

definition aes_a9 :: "nat \<Rightarrow> aes_dev \<Rightarrow> aes_hw \<Rightarrow> u32 \<Rightarrow> u64 \<Rightarrow> u64 \<Rightarrow> u64 \<Rightarrow> u32 list option \<Rightarrow> u32 list option \<Rightarrow>
    aes_trace \<Rightarrow> error + (int \<times> aes_trace)" where
  "aes_a9 n dev h op src_addr dst_addr len iv key tr =
     (if len AND NOT 0xfffff0 \<noteq> 0 \<or> src_addr AND 0xffffff0000000000 \<noteq> 0 \<or> dst_addr AND 0xfffff0000000000 \<noteq> 0
      then Inr (EFAULT, tr)
      else bindE (a9_pipe_words op src_addr dst_addr len iv key) (\<lambda>ws.
           bindE (clock_gate n dev (gAESClockAddr h) True tr) (\<lambda>tr.
           let tr = reg_put (gAESBase h + 0x018) 0x20 tr;
               tr = reg_put (gAESBase h + 0x008) 1 tr;
               tr = put_words (\<lambda>_. gAESPipeBase h) 0 ws tr
           in bindE (wait_reg n dev (gAESBase h + 0x018) (\<lambda>x. x AND 0x20 \<noteq> 0) tr) (\<lambda>tr.
              let tr = reg_put (gAESBase h + 0x018) 0x20 tr;
                  tr = reg_put (gAESBase h + 0x008) 2 tr
              in bindE (clock_gate n dev (gAESClockAddr h) False tr) (\<lambda>tr. Inr (0, tr))))))"

section \<open>The engine of the A7 family\<close>

definition aes_a7_init :: "u32 \<Rightarrow> aes_hw \<Rightarrow> error + aes_hw" where
  "aes_a7_init socnum h0 =
     (let h = h0\<lparr>gAESBase := gIOBase h0 + 0x0a108000\<rparr>
      in if socnum = 0x8960 then Inr (h\<lparr>gAESClockAddr := gIOBase h + 0x0e020100\<rparr>)
         else if socnum = 0x7000 \<or> socnum = 0x7001 then Inr (h\<lparr>gAESClockAddr := gIOBase h + 0x0e0201e8\<rparr>)
         else Inl (Panic ''AES A7: counterfeit init call''))"

definition word_reg :: "u64 \<Rightarrow> u64 \<Rightarrow> nat \<Rightarrow> u64" where
  "word_reg base off i = base + off + of_nat (4 * i)"

primrec get_words :: "aes_dev \<Rightarrow> (nat \<Rightarrow> u64) \<Rightarrow> nat \<Rightarrow> nat \<Rightarrow> aes_trace \<Rightarrow> u32 list \<times> aes_trace" where
  "get_words dev reg i 0 tr = ([], tr)"
| "get_words dev reg i (Suc k) tr =
     (let (w, tr) = reg_get dev (reg i) tr; (ws, tr) = get_words dev reg (i + 1) k tr in (w # ws, tr))"

text \<open>One block: wait, four words in, start, wait, four words out.\<close>

definition a7_block :: "nat \<Rightarrow> aes_dev \<Rightarrow> u64 \<Rightarrow> u32 list \<Rightarrow> aes_trace \<Rightarrow> error + (u32 list \<times> aes_trace)" where
  "a7_block n dev base src tr =
     bindE (wait_reg n dev (base + 0x00c) (\<lambda>x. x AND 1 = 1) tr) (\<lambda>tr.
     let tr = put_words (word_reg base 0x040) 0 src tr;
         tr = reg_put (base + 0x008) 1 tr
     in bindE (wait_reg n dev (base + 0x050) (\<lambda>x. x AND 1 = 1) tr) (\<lambda>tr.
        Inr (get_words dev (word_reg base 0x080) 0 4 tr)))"

primrec a7_blocks :: "nat \<Rightarrow> aes_dev \<Rightarrow> u64 \<Rightarrow> nat \<Rightarrow> u32 list \<Rightarrow> aes_trace \<Rightarrow> error + (u32 list \<times> aes_trace)" where
  "a7_blocks n dev base 0 src tr = Inr ([], tr)"
| "a7_blocks n dev base (Suc k) src tr =
     (if length src < 4 then Inl BadAccess
      else bindE (a7_block n dev base (take 4 src) tr) (\<lambda>(out, tr).
           bindE (a7_blocks n dev base k (drop 4 src) tr) (\<lambda>(outs, tr). Inr (out @ outs, tr))))"

definition aes_a7 :: "nat \<Rightarrow> aes_dev \<Rightarrow> aes_hw \<Rightarrow> u32 \<Rightarrow> u32 list \<Rightarrow> u64 \<Rightarrow> u32 list option \<Rightarrow> u32 list option \<Rightarrow>
    aes_trace \<Rightarrow> error + (int \<times> u32 list \<times> aes_trace)" where
  "aes_a7 n dev h op src len iv key tr =
     bindE (panic_if (len < 0x10 \<or> len AND 0xf \<noteq> 0) ''AES A7: Invalid data length'') (\<lambda>_.
     bindE (op_bits op) (\<lambda>bits.
     let keysel = push_bit 13 (op_mode op) OR push_bit 12 (op_encrypt op) OR push_bit 6 bits OR push_bit 4 (op_keyid op) in
     bindE (clock_gate n dev (gAESClockAddr h) True tr) (\<lambda>tr.
     bindE (user_key op bits key) (\<lambda>ks.
     let tr = put_words (word_reg (gAESBase h) 0x0c0) 0 ks tr;
         tr = reg_put (gAESBase h + 0x090) (keysel OR 1) tr in
     bindE (iv_words iv) (\<lambda>is.
     let tr = put_words (word_reg (gAESBase h) 0x100) 0 is tr;
         tr = reg_put (gAESBase h + 0x0e0) 1 tr in
     bindE (a7_blocks n dev (gAESBase h) (unat len div 16) src tr) (\<lambda>(dst, tr).
     bindE (clock_gate n dev (gAESClockAddr h) False tr) (\<lambda>tr. Inr (0, dst, tr))))))))"

section \<open>The check of the arguments\<close>

text \<open>The pointers are given by what they point to, \<open>None\<close> for a null pointer.\<close>

definition aes :: "(u32 \<Rightarrow> 'b \<Rightarrow> 'b \<Rightarrow> u64 \<Rightarrow> 'k option \<Rightarrow> 'k option \<Rightarrow> 's \<Rightarrow> error + (int \<times> 's)) \<Rightarrow>
    u32 \<Rightarrow> 'b option \<Rightarrow> 'b option \<Rightarrow> u64 \<Rightarrow> 'k option \<Rightarrow> 'k option \<Rightarrow> 's \<Rightarrow> error + (int \<times> 's)" where
  "aes aes_impl op src dst len iv key st =
     (if op AND NOT AES_ALL_MASK \<noteq> 0 then Inr (EINVAL, st)
      else if op AND AES_BITS_MASK \<notin> {AES_128, AES_192, AES_256} then Inr (EINVAL, st)
      else if op AND AES_KEY_MASK = AES_USER_KEY \<and> (iv = None \<or> key = None) then Inr (EINVAL, st)
      else if src = None \<or> dst = None \<or> len mod 0x10 \<noteq> 0 then Inr (EINVAL, st)
      else aes_impl op (the src) (the dst) len iv key st)"

section \<open>The shell command\<close>

text \<open>
  The arguments are the bytes of a C string. The loop splits off at most five words; the second
  result is what follows the fifth, when there is something to look at.
\<close>

definition skip_spaces :: "bytes \<Rightarrow> bytes" where
  "skip_spaces args = dropWhile (\<lambda>c. c = 0x20) args"

primrec split_parts :: "nat \<Rightarrow> bytes \<Rightarrow> bytes list \<times> bytes" where
  "split_parts 0 args = ([], args)"
| "split_parts (Suc n) args =
     (if 0x20 \<notin> set args then ([args], [])
      else let (ps, r) = split_parts n (skip_spaces (tl (dropWhile (\<lambda>c. c \<noteq> 0x20) args)))
           in (takeWhile (\<lambda>c. c \<noteq> 0x20) args # ps, r))"

definition part :: "bytes list \<Rightarrow> nat \<Rightarrow> bytes option" where
  "part parts i = (if i < length parts then Some (parts ! i) else None)"

definition is_word :: "bytes list \<Rightarrow> nat \<Rightarrow> string \<Rightarrow> bool" where
  "is_word parts i s \<longleftrightarrow> part parts i = Some (ascii s)"

text \<open>The command ends in the usage text after a message, or in the call of \<open>aes\<close> with the operation, the
  data and, for a key given by the user, the initial vector and the key.\<close>

datatype aes_request = Usage string | Request u32 bytes "(bytes \<times> bytes) option"

definition parse_key :: "nat \<Rightarrow> bytes \<Rightarrow> error + (bytes \<times> bytes) option" where
  "parse_key keylen s =
     (if length s \<noteq> 2 * (0x10 + keylen) then Inr None
      else bindE (hexparse 0x10 s 0 []) (\<lambda>(r, iv).
           if r \<noteq> 0 then Inr None
           else bindE (hexparse keylen (drop 0x10 s) 0 []) (\<lambda>(r, key).
                if r \<noteq> 0 then Inr None else Inr (Some (iv, key)))))"

definition parse_data :: "bytes \<Rightarrow> error + (string + bytes)" where
  "parse_data s =
     (let sz = length s
      in if sz = 0 then Inr (Inl ''No data given'')
         else if sz mod 0x20 \<noteq> 0 then Inr (Inl ''Data must be multiple of AES block size'')
         else bindE (hexparse (sz div 2) s 0 []) (\<lambda>(r, bs). if r \<noteq> 0 then Inr (Inl ''Bad data'') else Inr (Inr bs)))"

definition aes_cmd :: "bytes \<Rightarrow> error + aes_request" where
  "aes_cmd args0 =
     (let (parts, args) = split_parts 5 (skip_spaces args0)
      in if args \<noteq> [] then Inr (Usage ''Too many arguments'')
         else if part parts 0 = Some [] then Inr (Usage '''')
         else if part parts 1 = None then Inr (Usage ''Too few arguments'')
         else
           let (mode, idx) = (if is_word parts 0 ''cbc'' then (AES_CBC, 1) else if is_word parts 0 ''ecb'' then (AES_ECB, 1)
                              else (AES_CBC, 0));
               (op, idx) = (if is_word parts idx ''enc'' then (AES_ENCRYPT, idx + 1)
                            else if is_word parts idx ''dec'' then (AES_DECRYPT, idx + 1) else (AES_DECRYPT, idx))
           in if part parts idx = None then Inr (Usage ''Too few arguments'')
              else
                let (bits, keylen, idx) =
                      (if is_word parts idx ''128'' then (AES_128, 0x10, idx + 1)
                       else if is_word parts idx ''192'' then (AES_192, 0x18, idx + 1)
                       else if is_word parts idx ''256'' then (AES_256, 0x20, idx + 1) else (AES_256, 0x20, idx))
                in if part parts (idx + 1) = None then Inr (Usage ''Too few arguments'')
                   else
                     bindE (if is_word parts idx ''uid'' then Inr (Some (AES_UID, None))
                            else if is_word parts idx ''gid0'' then Inr (Some (AES_GID0, None))
                            else if is_word parts idx ''gid1'' then Inr (Some (AES_GID1, None))
                            else bindE (parse_key keylen (parts ! idx)) (\<lambda>k.
                                 case k of None \<Rightarrow> Inr None | Some ivkey \<Rightarrow> Inr (Some (AES_USER_KEY, Some ivkey)))) (\<lambda>k.
                     case k of None \<Rightarrow> Inr (Usage ''Bad key'')
                     | Some (keyid, ivkey) \<Rightarrow>
                         bindE (parse_data (parts ! (idx + 1))) (\<lambda>d.
                         case d of Inl msg \<Rightarrow> Inr (Usage msg)
                         | Inr bs \<Rightarrow> Inr (Request (op OR mode OR bits OR keyid) bs ivkey))))"

end
