(* ===== verification/AesClaims.thy ===== *)
theory AesClaims
  imports Aes ShellClaims
begin

text \<open>
  The properties of the AES drivers: what the shell command asks for, and what the engine of the A9
  family is told.
\<close>

unbundle bit_operations_syntax

section \<open>The shell command\<close>

abbreviation hexs :: "bytes \<Rightarrow> bytes" where
  "hexs bs \<equiv> concat (map hex_pair bs)"

lemma length_hexs [simp]: "length (hexs bs) = 2 * length bs"
  by (induction bs) (simp_all add: hex_pair_def)

lemma hexs_Nil: "hexs bs = [] \<longleftrightarrow> bs = []"
  by (cases bs) (simp_all add: hex_pair_def)

lemma hex_ok_not_space: "hex_ok c \<Longrightarrow> c \<noteq> 0x20"
  by (auto simp: hex_ok_def)

lemma no_space_hexs: "0x20 \<notin> set (hexs bs)"
proof (induction bs)
  case (Cons b bs)
  obtain c d where "hex_pair b = [c, d]" "hex_ok c" "hex_ok d" using hex_pair_val [of b] by blast
  with Cons hex_ok_not_space [of c] hex_ok_not_space [of d] show ?case by auto
qed simp

lemma drop_hexs: "drop (2 * n) (hexs bs) = hexs (drop n bs)"
proof (induction n arbitrary: bs)
  case (Suc n)
  then show ?case by (cases bs) (simp_all add: hex_pair_def)
qed simp

lemma hexparse_hexs: "n \<le> length bs \<Longrightarrow> hexparse n (hexs bs) 0 [] = Inr (0, take n bs)"
  using hexparse_pairs [of 0 "hexs bs" "take n bs" "hexs (drop n bs)"]
  by (simp add: concat_append [symmetric] map_append [symmetric] del: concat_append map_append)

lemma take_while_word: "0x20 \<notin> set w \<Longrightarrow> takeWhile (\<lambda>c. c \<noteq> 0x20) (w @ (0x20 :: u8) # r) = w"
  by (induction w) auto

lemma drop_while_word: "0x20 \<notin> set w \<Longrightarrow> dropWhile (\<lambda>c. c \<noteq> 0x20) (w @ (0x20 :: u8) # r) = 0x20 # r"
  by (induction w) auto

lemma skip_spaces_word: "w \<noteq> [] \<Longrightarrow> 0x20 \<notin> set w \<Longrightarrow> skip_spaces (w @ r) = w @ r"
  by (cases w) (auto simp: skip_spaces_def)

lemma split_parts_word:
  "0x20 \<notin> set w \<Longrightarrow> split_parts (Suc n) (w @ 0x20 # r) =
    (let (ps, q) = split_parts n (skip_spaces r) in (w # ps, q))"
  by (simp add: take_while_word drop_while_word)

lemma split_three:
  assumes "a \<noteq> []" "0x20 \<notin> set a" and "b \<noteq> []" "0x20 \<notin> set b" and "c \<noteq> []" "0x20 \<notin> set c"
  shows "split_parts 5 (skip_spaces (a @ 0x20 # b @ 0x20 # c)) = ([a, b, c], [])"
proof -
  have "split_parts (Suc 2) c = ([c], [])" unfolding split_parts.simps(2) using assms(6) by (rule if_P)
  then have "split_parts (Suc (Suc 2)) (b @ 0x20 # c) = ([b, c], [])"
    using skip_spaces_word [OF assms(5,6), of "[]"] unfolding split_parts_word [OF assms(4)] by simp
  then have "split_parts (Suc (Suc (Suc 2))) (a @ 0x20 # b @ 0x20 # c) = ([a, b, c], [])"
    using skip_spaces_word [OF assms(3,4)] unfolding split_parts_word [OF assms(2)] by simp
  moreover have "Suc (Suc (Suc 2)) = 5" by simp
  ultimately show ?thesis using skip_spaces_word [OF assms(1,2)] by simp
qed

lemma parse_key_hexs:
  assumes "length iv = 0x10" and "length key = keylen" and "8 \<le> keylen"
  shows "parse_key keylen (hexs (iv @ key)) = Inr (Some (iv, take keylen (drop 8 (iv @ key))))"
proof -
  have "hexparse 0x10 (hexs (iv @ key)) 0 [] = Inr (0, iv)"
    using hexparse_hexs [of "0x10" "iv @ key"] assms(1) by simp
  moreover have "hexparse keylen (drop 0x10 (hexs (iv @ key))) 0 [] = Inr (0, take keylen (drop 8 (iv @ key)))"
    using hexparse_hexs [of keylen "drop 8 (iv @ key)"] drop_hexs [of 8 "iv @ key"] assms by simp
  ultimately show ?thesis using assms by (simp add: parse_key_def del: map_append concat_append)
qed

lemma parse_data_hexs:
  assumes "bs \<noteq> []" and "length bs mod 0x10 = 0"
  shows "parse_data (hexs bs) = Inr (Inr bs)"
proof -
  have "2 * length bs mod 0x20 = 0" using assms(2) by presburger
  then show ?thesis using assms(1) hexparse_hexs [of "length bs" bs] by (simp add: parse_data_def Let_def)
qed

definition key_sizes :: "(string \<times> u32 \<times> nat) set" where
  "key_sizes = {(''128'', AES_128, 16), (''192'', AES_192, 24), (''256'', AES_256, 32)}"

lemma ascii_words:
  "ascii ''cbc'' = [0x63, 0x62, 0x63]"
  "ascii ''ecb'' = [0x65, 0x63, 0x62]"
  "ascii ''enc'' = [0x65, 0x6e, 0x63]"
  "ascii ''dec'' = [0x64, 0x65, 0x63]"
  "ascii ''128'' = [0x31, 0x32, 0x38]"
  "ascii ''192'' = [0x31, 0x39, 0x32]"
  "ascii ''256'' = [0x32, 0x35, 0x36]"
  "ascii ''uid'' = [0x75, 0x69, 0x64]"
  "ascii ''gid0'' = [0x67, 0x69, 0x64, 0x30]"
  "ascii ''gid1'' = [0x67, 0x69, 0x64, 0x31]"
  by code_simp+

lemma aes_cmd_three:
  assumes split: "split_parts 5 (skip_spaces args) = ([ascii w, k, d], [])"
    and size: "(w, bits, keylen) \<in> key_sizes"
    and notword: "k \<noteq> ascii ''uid''" "k \<noteq> ascii ''gid0''" "k \<noteq> ascii ''gid1''"
      "k \<noteq> ascii ''enc''" "k \<noteq> ascii ''dec''" "k \<noteq> ascii ''128''" "k \<noteq> ascii ''192''" "k \<noteq> ascii ''256''"
    and key: "parse_key keylen k = Inr (Some x)" and bs: "parse_data d = Inr (Inr bs)"
  shows "aes_cmd args = Inr (Request (AES_DECRYPT OR AES_CBC OR bits OR AES_USER_KEY) bs (Some x))"
proof -
  let ?ps = "[ascii w, k, d]"
  have word: "is_word ?ps 0 s = (ascii w = ascii s)" "is_word ?ps (Suc 0) s = (k = ascii s)" for s
    by (simp_all add: is_word_def part_def)
  have parts: "part ?ps 0 = Some (ascii w)" "part ?ps (Suc 0) = Some k" "part ?ps (Suc (Suc 0)) = Some d"
    by (simp_all add: part_def)
  have none: "ascii w \<noteq> []" "ascii w \<noteq> ascii ''cbc''" "ascii w \<noteq> ascii ''ecb''" "ascii w \<noteq> ascii ''enc''" "ascii w \<noteq> ascii ''dec''"
    using size unfolding key_sizes_def by (elim insertE emptyE; simp add: ascii_words)+
  have sz: "(if ascii w = ascii ''128'' then (AES_128, 0x10, 0 + 1) else if ascii w = ascii ''192'' then (AES_192, 0x18, 0 + 1)
      else if ascii w = ascii ''256'' then (AES_256, 0x20, 0 + 1) else (AES_256, 0x20, 0)) = (bits, keylen, Suc 0)"
    using size unfolding key_sizes_def by (elim insertE emptyE; simp add: ascii_words)
  show ?thesis
    unfolding aes_cmd_def split Let_def prod.case word parts none(2-5) [THEN eq_False [THEN iffD2]] if_False sz
    using none(1) notword key bs by (simp add: word parts)
qed

text \<open>C39 The \<open>aes\<close> command with a key given by the user, written as the usage text says, the initial
  vector's 16 bytes and then the key's. The initial vector and the data reach the engine as they
  were written. The key does not: the command reads it from the 16th digit on instead of the 16th
  byte, so the engine gets the last 8 bytes of the initial vector followed by all but the last 8 bytes
  of the key.\<close>

theorem aes_cmd_key_overlaps_iv:
  assumes "(w, bits, keylen) \<in> key_sizes" and "length iv = 16" and "length key = keylen"
    and "bs \<noteq> []" and "length bs mod 16 = 0"
  shows "aes_cmd (ascii w @ 0x20 # hexs (iv @ key) @ 0x20 # hexs bs) =
    Inr (Request (AES_DECRYPT OR AES_CBC OR bits OR AES_USER_KEY) bs (Some (iv, drop 8 iv @ take (keylen - 8) key)))"
proof -
  let ?k = "hexs (iv @ key)"
  have w: "ascii w \<noteq> []" "0x20 \<notin> set (ascii w)" "keylen \<in> {16, 24, 32}"
    using assms(1) unfolding key_sizes_def by (elim insertE emptyE; simp add: ascii_words)+
  have ne: "?k \<noteq> []" "hexs bs \<noteq> []" using hexs_Nil [of "iv @ key"] hexs_Nil [of bs] assms(2,4) by auto
  have lk: "length ?k = 2 * (16 + keylen)" using assms(2,3) by simp
  have split: "split_parts 5 (skip_spaces (ascii w @ 0x20 # ?k @ 0x20 # hexs bs)) = ([ascii w, ?k, hexs bs], [])"
    by (rule split_three [OF w(1,2) ne(1) no_space_hexs ne(2) no_space_hexs])
  have long: "?k \<noteq> ascii s" if "length s < 32" for s
  proof
    assume "?k = ascii s"
    then have "length ?k = length s" by (simp only: ascii_def length_map)
    then show False using lk that by simp
  qed
  have notword: "?k \<noteq> ascii ''uid''" "?k \<noteq> ascii ''gid0''" "?k \<noteq> ascii ''gid1''"
    "?k \<noteq> ascii ''enc''" "?k \<noteq> ascii ''dec''" "?k \<noteq> ascii ''128''" "?k \<noteq> ascii ''192''" "?k \<noteq> ascii ''256''"
    by (rule long; simp)+
  have key: "parse_key keylen ?k = Inr (Some (iv, drop 8 iv @ take (keylen - 8) key))"
    using parse_key_hexs [OF assms(2,3)] w(3) assms(2) by auto
  have bs: "parse_data (hexs bs) = Inr (Inr bs)" by (rule parse_data_hexs [OF assms(4)]) (use assms(5) in simp)
  show ?thesis by (rule aes_cmd_three [OF split assms(1) notword key bs])
qed


theorem aes_cmd_key_overlaps_iv_witness:
  "\<exists>args. aes_cmd args = Inr (Request 0x90000000 (replicate 16 7) (Some (replicate 16 1, replicate 8 1 @ replicate 8 2)))"
proof -
  have k: "(''128'', AES_128, 16) \<in> key_sizes" by (simp add: key_sizes_def)
  have "(AES_DECRYPT OR AES_CBC OR AES_128 OR AES_USER_KEY) = 0x90000000" by (simp add: aes_ops)
  moreover have "drop 8 (replicate 16 1) @ take (16 - 8) (replicate 16 2) = (replicate 8 1 @ replicate 8 2 :: bytes)" by simp
  moreover have "length (replicate 16 (1 :: u8)) = 16" "length (replicate 16 (2 :: u8)) = 16"
    "replicate 16 (7 :: u8) \<noteq> []" "length (replicate 16 (7 :: u8)) mod 16 = 0" by simp_all
  ultimately show ?thesis using aes_cmd_key_overlaps_iv [OF k] by metis
qed

section \<open>The engine of the A9 family\<close>

text \<open>What was written to the pipe since \<open>tr\<close>.\<close>

definition pipe_words :: "u64 \<Rightarrow> aes_trace \<Rightarrow> u32 list" where
  "pipe_words pipe tr = concat (map (\<lambda>x. case x of RegRead a \<Rightarrow> [] | RegWrite a w \<Rightarrow> if a = pipe then [w] else []) tr)"

lemma pipe_words_append [simp]: "pipe_words p (xs @ ys) = pipe_words p xs @ pipe_words p ys"
  by (simp add: pipe_words_def)

lemma pipe_words_put [simp]: "pipe_words p (reg_put a w tr) = pipe_words p tr @ (if a = p then [w] else [])"
  by (simp add: reg_put_def pipe_words_def)

lemma pipe_words_wait: "wait_reg n dev a ready tr = Inr tr' \<Longrightarrow> pipe_words p tr' = pipe_words p tr"
proof (induction n arbitrary: tr)
  case (Suc n)
  have "pipe_words p [RegRead a] = []" by (simp add: pipe_words_def)
  then show ?case using Suc by (auto simp: reg_get_def split: if_splits)
qed simp

lemma pipe_words_gate:
  assumes "clock_gate n dev a v tr = Inr tr'" and "a \<noteq> p"
  shows "pipe_words p tr' = pipe_words p tr"
proof -
  have "pipe_words p [RegRead a] = []" by (simp add: pipe_words_def)
  then show ?thesis using assms by (auto simp: clock_gate_def reg_get_def Let_def dest!: pipe_words_wait [where p = p])
qed

lemma pipe_words_put_words: "pipe_words p (put_words (\<lambda>_. p) i ws tr) = pipe_words p tr @ ws"
  by (induction ws arbitrary: i tr) simp_all

text \<open>What the engine reads from the four data words: length, source and destination.\<close>

definition data_length :: "u32 list \<Rightarrow> u64" where
  "data_length ds = ucast (ds ! 0) AND 0xffffff"

definition data_source :: "u32 list \<Rightarrow> u64" where
  "data_source ds = push_bit 16 (ucast (ds ! 1) AND 0xff0000) OR ucast (ds ! 2)"

definition data_destination :: "u32 list \<Rightarrow> u64" where
  "data_destination ds = push_bit 32 (ucast (ds ! 1) AND 0xff) OR ucast (ds ! 3)"

lemma and_0_bits: "x AND y = 0 \<Longrightarrow> bit y n \<Longrightarrow> \<not> bit (x :: 'w::len word) n"
  by (metis bit_and_iff bit_0_eq bot_apply bot_bool_def)


lemma aes_masks:
  "(0xfffff0 :: u64) = push_bit 4 (mask 20)" "(0xffffff :: u64) = mask 24" "(0xff0000 :: u64) = push_bit 16 (mask 8)"
  "(0xff :: u64) = mask 8" "(0xffffff0000000000 :: u64) = push_bit 40 (mask 24)"
  "(0xfffff0000000000 :: u64) = push_bit 40 (mask 20)" "(0x50000000 :: u32) = push_bit 28 5"
  by (simp_all add: mask_eq_exp_minus_1 push_bit_eq_mult)

lemma data_words_decode:
  fixes src dst len :: u64
  defines "ds \<equiv> a9_data_words src dst len"
  shows "len AND NOT 0xfffff0 = 0 \<Longrightarrow> data_length ds = len"
    and "src AND 0xffffff0000000000 = 0 \<Longrightarrow> data_source ds = src"
    and "dst AND 0xfffff0000000000 = 0 \<Longrightarrow> data_destination ds = dst AND mask 60"
proof -
  assume z: "len AND NOT 0xfffff0 = 0"
  show "data_length ds = len"
  proof (rule bit_word_eqI)
    fix n assume n: "n < LENGTH(64)"
    have "bit len n \<Longrightarrow> bit (0xfffff0 :: u64) n" 
    proof (rule ccontr)
      assume "bit len n" and "\<not> bit (0xfffff0 :: u64) n"
      then show False using and_0_bits [OF z [unfolded aes_masks], of n] n by (simp only: bit_not_iff aes_masks) simp
    qed
    then have l: "bit len n \<Longrightarrow> 4 \<le> n \<and> n < 24" unfolding aes_masks by (auto simp: bit_push_bit_iff bit_mask_iff)
    have f: "n < 24 \<Longrightarrow> \<not> bit (0x50000000 :: u32) n" unfolding aes_masks(7) bit_push_bit_iff by simp
    show "bit (data_length ds) n = bit len n"
      using n l f unfolding data_length_def ds_def a9_data_words_def nth_Cons_0 aes_masks(1,2)
      by (auto simp: bit_and_iff bit_or_iff bit_ucast_iff bit_push_bit_iff bit_mask_iff)
  qed
next
  assume z: "src AND 0xffffff0000000000 = 0"
  show "data_source ds = src"
  proof (rule bit_word_eqI)
    fix n assume n: "n < LENGTH(64)"
    have "40 \<le> n \<Longrightarrow> bit (0xffffff0000000000 :: u64) n"
      using n unfolding aes_masks by (auto simp: bit_push_bit_iff bit_mask_iff)
    then have h: "bit src n \<Longrightarrow> n < 40" using and_0_bits [OF z] not_le by blast
    have ds: "ds ! 1 = ucast ((drop_bit 16 src AND 0xFF0000) OR (drop_bit 32 dst AND 0xff))" "ds ! 2 = ucast src"
      by (simp_all add: ds_def a9_data_words_def)
    show "bit (data_source ds) n = bit src n"
      using n h unfolding data_source_def ds aes_masks
      by (auto simp: bit_and_iff bit_or_iff bit_ucast_iff bit_push_bit_iff bit_mask_iff bit_drop_bit_eq)
  qed
next
  assume z: "dst AND 0xfffff0000000000 = 0"
  show "data_destination ds = dst AND mask 60"
  proof (rule bit_word_eqI)
    fix n assume n: "n < LENGTH(64)"
    have "40 \<le> n \<Longrightarrow> n < 60 \<Longrightarrow> bit (0xfffff0000000000 :: u64) n"
      using n unfolding aes_masks by (auto simp: bit_push_bit_iff bit_mask_iff)
    then have h: "bit dst n \<Longrightarrow> n < 60 \<Longrightarrow> n < 40" using and_0_bits [OF z] not_le by blast
    have ds: "ds ! 1 = ucast ((drop_bit 16 src AND 0xFF0000) OR (drop_bit 32 dst AND 0xff))" "ds ! 3 = ucast dst"
      by (simp_all add: ds_def a9_data_words_def)
    show "bit (data_destination ds) n = bit (dst AND mask 60) n"
      using n h unfolding data_destination_def ds aes_masks
      by (auto simp: bit_and_iff bit_or_iff bit_ucast_iff bit_push_bit_iff bit_mask_iff bit_drop_bit_eq)
  qed
qed

text \<open>C40 What the A9 engine is told. When \<open>aes_a9\<close> reports success, the pipe has received one key
  command with the key's words, one initial vector command with four words, one data command and the
  command that starts it; from the data command the engine reads back the length and the source
  address exactly. The destination it reads back lacks the uppermost four bits: the check of that
  address has a mask one digit too short, so an address with one of them set is not refused.\<close>

theorem aes_a9_pipe_decodes:
  assumes "aes_a9 n dev h op src_addr dst_addr len iv key tr = Inr (0, tr')"
    and "gAESPipeBase h \<notin> {gAESClockAddr h, gAESBase h + 0x018, gAESBase h + 0x008}"
  shows "\<exists>bits ks is ds. op_bits op = Inr bits \<and> user_key op bits key = Inr ks \<and> iv_words iv = Inr is \<and>
    pipe_words (gAESPipeBase h) tr' = pipe_words (gAESPipeBase h) tr @
      [a9_op_key op bits] @ ks @ [0x20000000] @ is @ ds @ [0x8c000000] \<and>
    length ds = 4 \<and> data_length ds = len \<and> data_source ds = src_addr \<and>
    data_destination ds = dst_addr AND mask 60"
proof -
  let ?p = "gAESPipeBase h" and ?ds = "a9_data_words src_addr dst_addr len"
  have ok: "len AND NOT 0xfffff0 = 0" "src_addr AND 0xffffff0000000000 = 0" "dst_addr AND 0xfffff0000000000 = 0"
    using assms(1) by (auto simp: aes_a9_def EFAULT_def split: if_splits)
  obtain ws t1 t2 t3 where ws: "a9_pipe_words op src_addr dst_addr len iv key = Inr ws"
    and t1: "clock_gate n dev (gAESClockAddr h) True tr = Inr t1"
    and t2: "wait_reg n dev (gAESBase h + 0x018) (\<lambda>x. x AND 0x20 \<noteq> 0)
      (put_words (\<lambda>_. ?p) 0 ws (reg_put (gAESBase h + 0x008) 1 (reg_put (gAESBase h + 0x018) 0x20 t1))) = Inr t2"
    and t3: "clock_gate n dev (gAESClockAddr h) False
      (reg_put (gAESBase h + 0x008) 2 (reg_put (gAESBase h + 0x018) 0x20 t2)) = Inr tr'"
    using assms(1) ok by (auto simp: aes_a9_def Let_def)
  have "pipe_words ?p tr' = pipe_words ?p tr @ ws"
    using pipe_words_gate [OF t1, of ?p] pipe_words_wait [OF t2, of ?p] pipe_words_gate [OF t3, of ?p] assms(2)
    by (auto simp: pipe_words_put_words)
  moreover obtain bits ks "is" where "op_bits op = Inr bits" "user_key op bits key = Inr ks" "iv_words iv = Inr is"
    "ws = [a9_op_key op bits] @ ks @ [0x20000000] @ is @ ?ds @ [0x8c000000]"
    using ws by (auto simp: a9_pipe_words_def)
  moreover have "length ?ds = 4" by (simp add: a9_data_words_def)
  ultimately show ?thesis using data_words_decode(1) [OF ok(1)] data_words_decode(2) [OF ok(2)] data_words_decode(3) [OF ok(3)] by blast
qed

definition a9_hw0 :: aes_hw where
  "a9_hw0 = \<lparr>gIOBase = 0x200000000, gAESBase = 0x20a108000, gAESPipeBase = 0x20a108200, gAESClockAddr = 0x20e080230\<rparr>"

theorem aes_a9_pipe_decodes_witness:
  "\<exists>tr' bits ks is ds. aes_a9 1 (\<lambda>tr a. if a = 0x20a108018 then 0x20 else 0) a9_hw0 0x30000001 0x800010000 0xF000000800010000 0x40 None None [] =
      Inr (0, tr') \<and> op_bits 0x30000001 = Inr bits
    \<and> pipe_words 0x20a108200 tr' = [a9_op_key 0x30000001 bits] @ ks @ [0x20000000] @ is @ ds @ [0x8c000000]
    \<and> data_length ds = 0x40 \<and> data_source ds = 0x800010000 \<and> data_destination ds = 0x800010000"
proof -
  let ?dev = "\<lambda>tr a. if a = 0x20a108018 then 0x20 else (0 :: u32)"
  have "\<exists>tr'. aes_a9 1 ?dev a9_hw0 0x30000001 0x800010000 0xF000000800010000 0x40 None None [] = Inr (0, tr')"
    by (simp add: aes_a9_def a9_hw0_def a9_pipe_words_def op_bits_def user_key_def iv_words_def aes_ops clock_gate_def
        reg_get_def Let_def)
  then obtain tr' where r: "aes_a9 1 ?dev a9_hw0 0x30000001 0x800010000 0xF000000800010000 0x40 None None [] = Inr (0, tr')"
    by blast
  have d: "gAESPipeBase a9_hw0 \<notin> {gAESClockAddr a9_hw0, gAESBase a9_hw0 + 0x018, gAESBase a9_hw0 + 0x008}"
    by (simp add: a9_hw0_def)
  have m: "0xF000000800010000 AND mask 60 = (0x800010000 :: u64)" by (simp add: mask_eq_exp_minus_1)
  have b: "gAESPipeBase a9_hw0 = 0x20a108200" "pipe_words 0x20a108200 [] = []" by (simp_all add: a9_hw0_def pipe_words_def)
  show ?thesis using aes_a9_pipe_decodes [OF r d] r unfolding m b by auto
qed

end
