(* ===== verification/Jit.thy ===== *)
theory Jit
  imports Pfjit
begin

text \<open>
  The code generator of the patch finder, \<open>xnu_pf_emit\<close> of \<open>src/src/drivers/xnu/xnu.c\<close> with the
  templates of \<open>xnu.S\<close>. The code buffer is a list of words filled from both ends: the loop and the
  first test of each patch from the front, the stubs for the other tests and for the call of the
  match function from the back. Addresses in the buffer are indices; the addresses of the patch and
  of the match functions, which the stubs hold as literals, are arguments.
\<close>

unbundle bit_operations_syntax

section \<open>Templates\<close>

text \<open>The words the assembler makes of \<open>xnu.S\<close>, in its order, padded by \<open>nop\<close> where the next label is aligned.\<close>

definition pf_jit_slowpath :: "u32 list" where
  "pf_jit_slowpath =
     [0x58000180, 0x2A1D03E1, 0xCB1D0262, 0xAA0203E3, 0x58000144, 0xD63F0080,
      NOP, NOP, NOP, NOP, 0x14000006, NOP]"

definition pf_jit_ptr_comparison :: "u32 list" where
  "pf_jit_ptr_comparison =
     [0xAA020288, 0x8B030108, 0xEB00011F, 0x540001E3, 0xEB01011F, 0x540001A8,
      0x58000100, 0x2A1D03E1, 0xD1010262, 0xAA0203E3, 0x580000C4, 0xD63F0080, 0x14000006, NOP]"

definition pf_jit_iter_loop_head :: "u32 list" where
  "pf_jit_iter_loop_head =
     [0xD10183FF, 0xA90057F4, 0xA9015FF6, 0xA90267F8, 0xA9036FFA, 0xA90477FC, 0xA9054FFE,
      0xAA0003F3, 0xAA0103FC, NOP]"

definition pf_jit_iter_loop_end :: "u32 list" where
  "pf_jit_iter_loop_end =
     [0xA94057F4, 0xA9415FF6, 0xA94267F8, 0xA9436FFA, 0xA94477FC, 0xA9454FFE, 0x910183FF, 0xD65F03C0]"

text \<open>
  The two templates for each width: \<open>mov x29\<close> with the size of the window, eight loads with
  increment, the comparison and \<open>b.lo\<close>; the seven moves, one load, the comparison and \<open>b.hi\<close>. They
  differ in the constant, in the load instruction \<open>ld\<close> and in that of the moves.
\<close>

definition head_load :: "u32 \<Rightarrow> u32 \<Rightarrow> u32 list" where
  "head_load mov_x29 ld =
     [mov_x29, ld OR 20, ld OR 21, ld OR 22, ld OR 23, ld OR 24, ld OR 25, ld OR 26, ld OR 27, 0xEB1C027F, 0x54000043]"

definition iter_load :: "u32 list \<Rightarrow> u32 \<Rightarrow> u32 list" where
  "iter_load moves ld = moves @ [ld OR 27, 0xEB1C027F, 0x54000048]"

definition mov_w_window :: "u32 list" where
  "mov_w_window = [0x2A1503F4, 0x2A1603F5, 0x2A1703F6, 0x2A1803F7, 0x2A1903F8, 0x2A1A03F9, 0x2A1B03FA]"

definition mov_x_window :: "u32 list" where
  "mov_x_window = [0xAA1503F4, 0xAA1603F5, 0xAA1703F6, 0xAA1803F7, 0xAA1903F8, 0xAA1A03F9, 0xAA1B03FA]"

definition pf_jit_iter_loop_head_load8 :: "u32 list" where
  "pf_jit_iter_loop_head_load8 = head_load 0xD280011D 0x38401660"
definition pf_jit_iter_loop_iter_load8 :: "u32 list" where
  "pf_jit_iter_loop_iter_load8 = iter_load mov_w_window 0x38401660"
definition pf_jit_iter_loop_head_load16 :: "u32 list" where
  "pf_jit_iter_loop_head_load16 = head_load 0xD280021D 0x78402660"
definition pf_jit_iter_loop_iter_load16 :: "u32 list" where
  "pf_jit_iter_loop_iter_load16 = iter_load mov_w_window 0x78402660"
definition pf_jit_iter_loop_head_load32 :: "u32 list" where
  "pf_jit_iter_loop_head_load32 = head_load 0xD280041D 0xB8404660"
definition pf_jit_iter_loop_iter_load32 :: "u32 list" where
  "pf_jit_iter_loop_iter_load32 = iter_load mov_w_window 0xB8404660"
definition pf_jit_iter_loop_head_load64 :: "u32 list" where
  "pf_jit_iter_loop_head_load64 = head_load 0xD280081D 0xF8408660"
definition pf_jit_iter_loop_iter_load64 :: "u32 list" where
  "pf_jit_iter_loop_iter_load64 = iter_load mov_x_window 0xF8408660"

section \<open>One patch of masks and values\<close>

text \<open>A 64-bit store into the buffer.\<close>

definition put_u64 :: "u32 list \<Rightarrow> nat \<Rightarrow> u64 \<Rightarrow> error + (u32 list \<times> nat)" where
  "put_u64 code p v = xnu_pf_emit_insns code p [ucast v, ucast (drop_bit 32 v)]"

definition pf_and_nop :: "u8 \<Rightarrow> error + u64" where
  "pf_and_nop access_type =
     (if access_type = XNU_PF_ACCESS_8BIT then Inr 0xFF
      else if access_type = XNU_PF_ACCESS_16BIT then Inr 0xFFFF
      else if access_type = XNU_PF_ACCESS_32BIT then Inr 0xFFFFFFFF
      else if access_type = XNU_PF_ACCESS_64BIT then Inr 0xFFFFFFFFFFFFFFFF
      else Inl (Panic ''unk access''))"

definition entropy_changes :: "u64 \<Rightarrow> u8" where
  "entropy_changes cur_entropy =
     fst (fold (\<lambda>z (cur_rating, last).
       if bit cur_entropy z \<noteq> last then (cur_rating + 1, bit cur_entropy z) else (cur_rating, last)) [0..<64] (0, True))"

definition entropy_rating :: "u64 \<Rightarrow> u64 \<times> u64 \<Rightarrow> u8" where
  "entropy_rating and_nop pr =
     (let cur_rating = entropy_changes (fst pr XOR snd pr);
          cur_rating = (if fst pr = 0xD65F03C0 then drop_bit 3 cur_rating else cur_rating)
      in if snd pr = and_nop then push_bit 2 cur_rating else cur_rating)"

primrec find_hi_entropy :: "u64 \<Rightarrow> (u64 \<times> u64) list \<Rightarrow> nat \<Rightarrow> u8 \<Rightarrow> nat option \<Rightarrow> nat option" where
  "find_hi_entropy and_nop [] i highest_rating hi = hi"
| "find_hi_entropy and_nop (pr # prs) i highest_rating hi =
     (let cur_rating = entropy_rating and_nop pr
      in if cur_rating > highest_rating then find_hi_entropy and_nop prs (i + 1) cur_rating (Some i)
         else find_hi_entropy and_nop prs (i + 1) highest_rating hi)"

text \<open>\<open>pairs[-1]\<close> is the memory before the pairs.\<close>

definition hi_pair :: "(u64 \<times> u64) list \<Rightarrow> nat option \<Rightarrow> error + (nat \<times> u64 \<times> u64)" where
  "hi_pair prs hi = (case hi of None \<Rightarrow> Inl BadAccess | Some h \<Rightarrow> Inr (h, prs ! h))"

text \<open>The test of pair \<open>i\<close> in the array \<open>jit_test\<close>, with the number of its instructions.\<close>

definition compare_stub :: "u64 \<Rightarrow> u64 \<times> u64 \<Rightarrow> nat \<Rightarrow> u64 \<times> u64 \<Rightarrow> error + (u32 list \<times> nat)" where
  "compare_stub and_nop hi_pr i pr =
     (let cmp_stub = replicate (4 * 2 + 4) NOP in
      bindE (if fst hi_pr = fst pr then Inr (0, cmp_stub, 0)
             else bindE (xnu_pf_imm64_load_emit cmp_stub 0 2 (fst pr AND and_nop)) (\<lambda>(cmp_stub, p). Inr (2, cmp_stub, p)))
        (\<lambda>(reg0, cmp_stub, p).
      if snd pr \<noteq> and_nop then
        bindE (if snd hi_pr \<noteq> and_nop \<and> snd hi_pr = snd pr then Inr (1, cmp_stub, p)
               else bindE (xnu_pf_imm64_load_emit cmp_stub p 3 (snd pr AND and_nop)) (\<lambda>(cmp_stub, p). Inr (3, cmp_stub, p)))
          (\<lambda>(reg1, cmp_stub, p).
        bindE (xnu_pf_and_emit cmp_stub p 8 (20 + of_nat i) reg1) (\<lambda>(cmp_stub, p).
        xnu_pf_cmp_emit cmp_stub p 8 reg0))
      else xnu_pf_cmp_emit cmp_stub p (20 + of_nat i) reg0))"

record stubs =
  st_code :: "u32 list"
  st_end :: nat
  prev_stub :: nat
  linkage :: "nat option list"
  cap :: nat

text \<open>The loop over the pairs from \<open>i\<close> on, while \<open>i < cap\<close>.\<close>

primrec emit_stubs :: "u64 \<Rightarrow> (u64 \<times> u64) list \<Rightarrow> nat option \<Rightarrow> (u64 \<times> u64) list \<Rightarrow> nat \<Rightarrow> stubs \<Rightarrow> error + stubs" where
  "emit_stubs and_nop prs hi [] i s = Inr s"
| "emit_stubs and_nop prs hi (pr # rest) i s =
     (if \<not> i < cap s then Inr s
      else if hi = Some i then emit_stubs and_nop prs hi rest (i + 1) s
      else if snd pr = 0 \<and> fst pr = 0 then emit_stubs and_nop prs hi rest (i + 1) s
      else if snd pr = 0 then emit_stubs and_nop prs hi rest (i + 1) (s\<lparr>cap := 0\<rparr>)
      else
        bindE (hi_pair prs hi) (\<lambda>(h, hi_pr).
        bindE (compare_stub and_nop hi_pr i pr) (\<lambda>(cmp_stub, insnc).
        if st_end s < insnc + 1 then Inl BadAccess
        else
          let cmp_stub_out = st_end s - (insnc + 1) in
          bindE (xnu_pf_emit_insns (st_code s) cmp_stub_out (take insnc cmp_stub)) (\<lambda>(code, p).
          emit_stubs and_nop prs hi rest (i + 1)
            (s\<lparr>st_code := code, st_end := cmp_stub_out, prev_stub := cmp_stub_out,
               linkage := (linkage s)[i := Some (cmp_stub_out + insnc)]\<rparr>)))))"

primrec link_bailouts :: "u32 list \<Rightarrow> nat option list \<Rightarrow> nat \<Rightarrow> error + u32 list" where
  "link_bailouts code [] target = Inr code"
| "link_bailouts code (l # ls) target =
     (case l of
        None \<Rightarrow> link_bailouts code ls target
      | Some p \<Rightarrow> bindE (xnu_pf_b_ne_emit code p target) (\<lambda>(code, q). link_bailouts code ls target))"

text \<open>The test in the main stream, with the value left in register 0 for the patches that follow.\<close>

definition emit_main_test ::
  "u64 \<Rightarrow> (u64 \<times> u64) list \<Rightarrow> nat option \<Rightarrow> nat \<Rightarrow> u64 \<Rightarrow> u32 list \<Rightarrow> nat \<Rightarrow> error + (u64 \<times> u32 list \<times> nat)" where
  "emit_main_test and_nop prs hi prev x0 code p =
     bindE (hi_pair prs hi) (\<lambda>(h, hi_pr).
     bindE (if x0 = 0 \<or> x0 \<noteq> fst hi_pr then
              bindE (xnu_pf_imm64_load_emit code p 0 (fst hi_pr AND and_nop)) (\<lambda>(code, p). Inr (fst hi_pr AND and_nop, code, p))
            else Inr (x0, code, p)) (\<lambda>(x0, code, p).
     bindE (if snd hi_pr \<noteq> and_nop then
              bindE (xnu_pf_imm64_load_emit code p 1 (snd hi_pr AND and_nop)) (\<lambda>(code, p).
              bindE (xnu_pf_and_emit code p 8 (20 + of_nat h) 1) (\<lambda>(code, p).
              xnu_pf_cmp_emit code p 8 0))
            else xnu_pf_cmp_emit code p (20 + of_nat h) 0) (\<lambda>(code, p).
     bindE (xnu_pf_b_eq_emit code p prev) (\<lambda>(code, p). Inr (x0, code, p)))))"

text \<open>The state of the generator: the buffer, the two ends of its free part, and \<open>p0\<close> of the patch set.\<close>

record jit =
  jcode :: "u32 list"
  insn_stream :: nat
  insn_stream_end :: nat
  jit_p0 :: u64

definition xnu_pf_maskmatch_emit ::
  "u64 \<Rightarrow> u64 \<Rightarrow> xnu_pf_patch \<Rightarrow> (u64 \<times> u64) list \<Rightarrow> u8 \<Rightarrow> jit \<Rightarrow> error + (xnu_pf_patch \<times> jit)" where
  "xnu_pf_maskmatch_emit patch_ptr match_fn patch prs access_type j =
     (let slowpath_stub_size = length pf_jit_slowpath + 4 in
      if insn_stream_end j < slowpath_stub_size + 1 then Inl BadAccess
      else
        bindE (xnu_pf_align3_emit (jcode j) (insn_stream_end j - (slowpath_stub_size + 1))) (\<lambda>(code, slowpath_stub).
        bindE (xnu_pf_emit_insns code slowpath_stub pf_jit_slowpath) (\<lambda>(code, slowpath_stub_args).
        bindE (put_u64 code slowpath_stub_args patch_ptr) (\<lambda>(code, p).
        bindE (put_u64 code p match_fn) (\<lambda>(code, p).
        bindE (pf_and_nop access_type) (\<lambda>and_nop.
        let cap0 = min (length prs) 8;
            hi = find_hi_entropy and_nop (take cap0 prs) 0 0 None;
            entry = insn_stream j
        in
        bindE (emit_stubs and_nop prs hi (take cap0 prs) 0
          \<lparr>st_code = code, st_end = slowpath_stub, prev_stub = slowpath_stub, linkage = replicate 8 None, cap = cap0\<rparr>)
          (\<lambda>s.
        bindE (if cap s \<noteq> 0 then
                 bindE (emit_main_test and_nop prs hi (prev_stub s) (jit_p0 j) (st_code s) entry) (\<lambda>(x0, code, p).
                 bindE (link_bailouts code (take (cap s) (linkage s)) p) (\<lambda>code.
                 bindE (xnu_pf_imm64_load_emit code (slowpath_stub + 6) 0 x0) (\<lambda>(code, q).
                 bindE (xnu_pf_b_emit code (slowpath_stub + 10) p) (\<lambda>(code, q).
                 Inr (x0, code, p)))))
               else Inr (jit_p0 j, st_code s, entry)) (\<lambda>(x0, code, p).
        Inr (patch\<lparr>pfjit_entry := Some entry, pfjit_exit := p\<rparr>,
             \<lparr>jcode = code, insn_stream = p, insn_stream_end = st_end s, jit_p0 = x0\<rparr>)))))))))"

section \<open>One patch of a pointer to data\<close>

definition xnu_pf_ptr_to_data_emit ::
  "u64 \<Rightarrow> u64 \<Rightarrow> xnu_pf_patch \<Rightarrow> u64 \<Rightarrow> xnu_pf_range \<Rightarrow> jit \<Rightarrow> error + (xnu_pf_patch \<times> jit)" where
  "xnu_pf_ptr_to_data_emit patch_ptr match_fn patch slide rng j =
     (let entry = insn_stream j in
      bindE (xnu_pf_imm64_load_emit (jcode j) entry 0 (pf_va rng)) (\<lambda>(code, p).
      bindE (xnu_pf_imm64_load_emit code p 1 (pf_va rng + pf_size rng)) (\<lambda>(code, p).
      bindE (xnu_pf_imm64_load_emit code p 2 0xffff000000000000) (\<lambda>(code, p).
      bindE (xnu_pf_imm64_load_emit code p 3 slide) (\<lambda>(code, p).
      bindE (xnu_pf_align3_emit code p) (\<lambda>(code, p).
      bindE (xnu_pf_emit_insns code p pf_jit_ptr_comparison) (\<lambda>(code, p).
      bindE (put_u64 code p patch_ptr) (\<lambda>(code, p).
      bindE (put_u64 code p match_fn) (\<lambda>(code, p).
      Inr (patch\<lparr>pfjit_entry := Some entry, pfjit_exit := p\<rparr>,
           j\<lparr>jcode := code, insn_stream := p\<rparr>))))))))))"

section \<open>A patch set\<close>

record jit_symbols =
  patch_addr :: "nat \<Rightarrow> u64"
  maskmatch_match_fn :: u64
  ptr_to_data_match_fn :: u64

definition emit_patch :: "jit_symbols \<Rightarrow> u8 \<Rightarrow> nat \<Rightarrow> xnu_pf_patch \<Rightarrow> jit \<Rightarrow> error + (xnu_pf_patch \<times> jit)" where
  "emit_patch syms access_type j patch s =
     (case pf_match patch of
        Maskmatch prs \<Rightarrow> xnu_pf_maskmatch_emit (patch_addr syms j) (maskmatch_match_fn syms) patch prs access_type s
      | PtrToData slide rng data \<Rightarrow> xnu_pf_ptr_to_data_emit (patch_addr syms j) (ptr_to_data_match_fn syms) patch slide rng s)"

primrec emit_patches :: "jit_symbols \<Rightarrow> u8 \<Rightarrow> nat \<Rightarrow> xnu_pf_patch list \<Rightarrow> jit \<Rightarrow> error + (xnu_pf_patch list \<times> jit)" where
  "emit_patches syms access_type j [] s = Inr ([], s)"
| "emit_patches syms access_type j (patch # patches) s =
     (let pre_emit = insn_stream s in
      bindE (emit_patch syms access_type j patch s) (\<lambda>(patch, s).
      bindE (panic_if (4 * (insn_stream s - pre_emit) > unat (pfjit_max_emit_size patch)) ''pf_jit: jit overflow'') (\<lambda>_.
      bindE (emit_patches syms access_type (j + 1) patches s) (\<lambda>(patches, s).
      Inr (patch # patches, s)))))"

definition loop_templates :: "u8 \<Rightarrow> (u32 list \<times> u32 list) option" where
  "loop_templates access =
     (if access = XNU_PF_ACCESS_8BIT then Some (pf_jit_iter_loop_head_load8, pf_jit_iter_loop_iter_load8)
      else if access = XNU_PF_ACCESS_16BIT then Some (pf_jit_iter_loop_head_load16, pf_jit_iter_loop_iter_load16)
      else if access = XNU_PF_ACCESS_32BIT then Some (pf_jit_iter_loop_head_load32, pf_jit_iter_loop_iter_load32)
      else if access = XNU_PF_ACCESS_64BIT then Some (pf_jit_iter_loop_head_load64, pf_jit_iter_loop_iter_load64)
      else None)"

definition jit_size :: "xnu_pf_patch list \<Rightarrow> u32" where
  "jit_size patches = fold (\<lambda>patch n. n + pfjit_max_emit_size patch) patches 0x100"

text \<open>
  \<open>xnu_pf_emit\<close>. What \<open>jit_alloc\<close> returns holds arbitrary words: \<open>jit_alloc n\<close> is the buffer for \<open>n\<close>
  bytes, of which the code uses \<open>n\<close> divided by four words. The code starts at its first word. An
  access type that has no templates leaves the patch set as it is.
\<close>

definition xnu_pf_emit ::
  "(u32 \<Rightarrow> u32 list) \<Rightarrow> jit_symbols \<Rightarrow> xnu_pf_patchset \<Rightarrow> error + (xnu_pf_patchset \<times> u32 list)" where
  "xnu_pf_emit jit_alloc syms patchset =
     (case loop_templates (accesstype patchset) of
        None \<Rightarrow> Inr (patchset, [])
      | Some (head_tmpl, tail_tmpl) \<Rightarrow>
          let n = jit_size (patch_head patchset) in
          bindE (xnu_pf_emit_insns (jit_alloc n) 0 pf_jit_iter_loop_head) (\<lambda>(code, p).
          bindE (xnu_pf_emit_insns code p head_tmpl) (\<lambda>(code, bailout).
          let loop_head = bailout + 1 in
          bindE (emit_patches syms (accesstype patchset) 0 (patch_head patchset)
            \<lparr>jcode = code, insn_stream = loop_head, insn_stream_end = unat (drop_bit 2 n), jit_p0 = p0 patchset\<rparr>)
            (\<lambda>(patches, s).
          bindE (xnu_pf_emit_insns (jcode s) (insn_stream s) tail_tmpl) (\<lambda>(code, p).
          bindE (xnu_pf_b_emit code p loop_head) (\<lambda>(code, p).
          bindE (xnu_pf_b_emit code bailout p) (\<lambda>(code, q).
          bindE (xnu_pf_emit_insns code p pf_jit_iter_loop_end) (\<lambda>(code, p).
          Inr (patchset\<lparr>patch_head := patches, jit_matcher := Some 0, p0 := jit_p0 s\<rparr>, code)))))))))"

end
