(* ===== verification/A64.thy ===== *)
theory A64
  imports PfjitClaims
begin

text \<open>
  The instructions the patch finder's JIT emits, and those of its templates in
  \<open>src/src/drivers/xnu/xnu.S\<close>: a decoder and the meaning of each, for a processor whose code is a
  list of words and whose program counter is an index into it. A call through a register leaves the
  code: it is recorded with its arguments, and what it does is a function \<open>env\<close> of the calls made
  so far: the memory the program reads afterwards, and the registers the calling convention of the
  platform does not preserve. The stack of the program is kept apart from the memory it scans.
\<close>

unbundle bit_operations_syntax

section \<open>State\<close>

datatype a64_call = A64_call (callee: u64) (args: "u64 list")

record a64_world =
  clobbered :: "nat \<Rightarrow> u64"
  data_mem :: "u64 \<Rightarrow> u8"

type_synonym a64_env = "a64_call list \<Rightarrow> a64_world"

record cpu =
  pc :: nat
  regs :: "nat \<Rightarrow> u64"
  zf :: bool
  cf :: bool
  stk :: "u64 \<Rightarrow> u64"
  calls :: "a64_call list"

section \<open>Decoding\<close>

datatype insn =
    Move_wide u32
  | B int
  | B_cond nat int
  | And_reg nat nat nat
  | Cmp_reg nat nat
  | Nop
  | Ldr_literal nat int
  | Mov_w nat nat
  | Mov_x nat nat
  | Sub_reg nat nat nat
  | Blr nat
  | Ldr_post nat nat nat int
  | Stp nat nat nat int
  | Ldp nat nat nat int
  | Sub_imm nat nat u64
  | Add_imm nat nat u64

definition fd :: "u32 \<Rightarrow> nat" where "fd w = unat (w AND 0x1f)"
definition fn :: "u32 \<Rightarrow> nat" where "fn w = unat (drop_bit 5 w AND 0x1f)"
definition ft2 :: "u32 \<Rightarrow> nat" where "ft2 w = unat (drop_bit 10 w AND 0x1f)"
definition fm :: "u32 \<Rightarrow> nat" where "fm w = unat (drop_bit 16 w AND 0x1f)"
definition imm26 :: "u32 \<Rightarrow> int" where "imm26 w = sint (ucast w :: 26 word)"
definition imm19 :: "u32 \<Rightarrow> int" where "imm19 w = sint (ucast (drop_bit 5 w) :: 19 word)"
definition imm9 :: "u32 \<Rightarrow> int" where "imm9 w = sint (ucast (drop_bit 12 w) :: 9 word)"
definition imm7 :: "u32 \<Rightarrow> int" where "imm7 w = 8 * sint (ucast (drop_bit 15 w) :: 7 word)"
definition imm12 :: "u32 \<Rightarrow> u64" where "imm12 w = ucast (drop_bit 10 w AND 0xfff)"

definition a64_decode :: "u32 \<Rightarrow> insn option" where
  "a64_decode w =
     (if drop_bit 23 w = 0x1A5 \<or> drop_bit 23 w = 0x1E5 then Some (Move_wide w)
      else if w AND 0xFC000000 = 0x14000000 then Some (B (imm26 w))
      else if w AND 0xFF000010 = 0x54000000 then Some (B_cond (unat (w AND 0xf)) (imm19 w))
      else if w AND 0xFFE0FC00 = 0x8A000000 then Some (And_reg (fd w) (fn w) (fm w))
      else if w AND 0xFFE0FC1F = 0xEB00001F then Some (Cmp_reg (fn w) (fm w))
      else if w = 0xD503201F then Some Nop
      else if w AND 0xFF000000 = 0x58000000 then Some (Ldr_literal (fd w) (imm19 w))
      else if w AND 0xFFE0FFE0 = 0x2A0003E0 then Some (Mov_w (fd w) (fm w))
      else if w AND 0xFFE0FFE0 = 0xAA0003E0 then Some (Mov_x (fd w) (fm w))
      else if w AND 0xFFE0FC00 = 0xCB000000 then Some (Sub_reg (fd w) (fn w) (fm w))
      else if w AND 0xFFFFFC1F = 0xD63F0000 then Some (Blr (fn w))
      else if w AND 0x3FE00C00 = 0x38400400 then Some (Ldr_post (2 ^ unat (drop_bit 30 w)) (fd w) (fn w) (imm9 w))
      else if w AND 0xFFC00000 = 0xA9000000 then Some (Stp (fd w) (ft2 w) (fn w) (imm7 w))
      else if w AND 0xFFC00000 = 0xA9400000 then Some (Ldp (fd w) (ft2 w) (fn w) (imm7 w))
      else if w AND 0xFFC00000 = 0xD1000000 then Some (Sub_imm (fd w) (fn w) (imm12 w))
      else if w AND 0xFFC00000 = 0x91000000 then Some (Add_imm (fd w) (fn w) (imm12 w))
      else None)"

section \<open>Execution\<close>

text \<open>Register 31 is the stack pointer in addresses and in the forms with an immediate, else zero.\<close>

definition xr :: "cpu \<Rightarrow> nat \<Rightarrow> u64" where
  "xr c n = (if n = 31 then 0 else regs c n)"

definition xw :: "nat \<Rightarrow> u64 \<Rightarrow> cpu \<Rightarrow> cpu" where
  "xw n v c = (if n = 31 then c else c\<lparr>regs := (regs c)(n := v)\<rparr>)"

definition a64_jump :: "int \<Rightarrow> cpu \<Rightarrow> cpu" where
  "a64_jump off c = c\<lparr>pc := nat (int (pc c) + off)\<rparr>"

definition a64_cond :: "nat \<Rightarrow> cpu \<Rightarrow> bool option" where
  "a64_cond cond c =
     (if cond = 0 then Some (zf c) else if cond = 1 then Some (\<not> zf c)
      else if cond = 3 then Some (\<not> cf c) else if cond = 8 then Some (cf c \<and> \<not> zf c) else None)"

definition load_bytes :: "(u64 \<Rightarrow> u8) \<Rightarrow> nat \<Rightarrow> u64 \<Rightarrow> u64" where
  "load_bytes m k p = le_val (map (\<lambda>i. m (p + of_nat i)) [0..<k])"

definition code_word64 :: "u32 list \<Rightarrow> nat \<Rightarrow> u64" where
  "code_word64 code p = ucast (code ! p) OR push_bit 32 (ucast (code ! (p + 1)))"

text \<open>The registers a called function may change: those for arguments and scratch values, and the link.\<close>

definition after_call :: "a64_env \<Rightarrow> a64_call list \<Rightarrow> (nat \<Rightarrow> u64) \<Rightarrow> nat \<Rightarrow> u64" where
  "after_call env cs r n = (if n \<le> 18 \<or> n = 30 then clobbered (env cs) n else r n)"

fun a64_exec :: "a64_env \<Rightarrow> u32 list \<Rightarrow> insn \<Rightarrow> cpu \<Rightarrow> cpu option" where
  "a64_exec env code (Move_wide w) c =
     (case exec_mov w (regs c) of None \<Rightarrow> None | Some r \<Rightarrow> Some (a64_jump 1 (c\<lparr>regs := r\<rparr>)))"
| "a64_exec env code (B off) c = Some (a64_jump off c)"
| "a64_exec env code (B_cond cond off) c =
     (case a64_cond cond c of None \<Rightarrow> None | Some b \<Rightarrow> Some (a64_jump (if b then off else 1) c))"
| "a64_exec env code (And_reg d n m) c = Some (a64_jump 1 (xw d (xr c n AND xr c m) c))"
| "a64_exec env code (Cmp_reg n m) c = Some (a64_jump 1 (c\<lparr>zf := xr c n = xr c m, cf := xr c m \<le> xr c n\<rparr>))"
| "a64_exec env code Nop c = Some (a64_jump 1 c)"
| "a64_exec env code (Ldr_literal t off) c =
     Some (a64_jump 1 (xw t (code_word64 code (nat (int (pc c) + off))) c))"
| "a64_exec env code (Mov_w d m) c = Some (a64_jump 1 (xw d (ucast (ucast (xr c m) :: u32)) c))"
| "a64_exec env code (Mov_x d m) c = Some (a64_jump 1 (xw d (xr c m) c))"
| "a64_exec env code (Sub_reg d n m) c = Some (a64_jump 1 (xw d (xr c n - xr c m) c))"
| "a64_exec env code (Blr n) c =
     (let cs = calls c @ [A64_call (xr c n) (map (regs c) [0, 1, 2, 3])]
      in Some (a64_jump 1 (c\<lparr>calls := cs, regs := after_call env cs (regs c)\<rparr>)))"
| "a64_exec env code (Ldr_post k t n off) c =
     Some (a64_jump 1 (xw t (load_bytes (data_mem (env (calls c))) k (regs c n))
       (c\<lparr>regs := (regs c)(n := regs c n + of_int off)\<rparr>)))"
| "a64_exec env code (Stp t t2 n off) c =
     (let p = regs c n + of_int off in Some (a64_jump 1 (c\<lparr>stk := (stk c)(p := xr c t, p + 8 := xr c t2)\<rparr>)))"
| "a64_exec env code (Ldp t t2 n off) c =
     (let p = regs c n + of_int off in Some (a64_jump 1 (xw t2 (stk c (p + 8)) (xw t (stk c p) c))))"
| "a64_exec env code (Sub_imm d n i) c = Some (a64_jump 1 (c\<lparr>regs := (regs c)(d := regs c n - i)\<rparr>))"
| "a64_exec env code (Add_imm d n i) c = Some (a64_jump 1 (c\<lparr>regs := (regs c)(d := regs c n + i)\<rparr>))"

definition a64_step :: "a64_env \<Rightarrow> u32 list \<Rightarrow> cpu \<Rightarrow> cpu option" where
  "a64_step env code c =
     (if pc c < length code then
        case a64_decode (code ! pc c) of None \<Rightarrow> None | Some i \<Rightarrow> a64_exec env code i c
      else None)"

inductive a64_runs :: "a64_env \<Rightarrow> u32 list \<Rightarrow> cpu \<Rightarrow> cpu \<Rightarrow> bool" for env code where
  refl: "a64_runs env code c c"
| step: "a64_step env code c = Some c' \<Longrightarrow> a64_runs env code c' c'' \<Longrightarrow> a64_runs env code c c''"

end
