(* ===== verification/A64Props.thy ===== *)
theory A64Props
  imports A64
begin

text \<open>
  Running straight-line code: code at an index, the words the encoders of the JIT write, and what
  each of them does when the processor reaches it.
\<close>

unbundle bit_operations_syntax

section \<open>Runs\<close>

lemma a64_runs_trans: "a64_runs env code a b \<Longrightarrow> a64_runs env code b c \<Longrightarrow> a64_runs env code a c"
  by (induction rule: a64_runs.induct) (auto intro: a64_runs.step)

lemma a64_runs_step: "a64_step env code c = Some c' \<Longrightarrow> a64_runs env code c c'"
  by (rule a64_runs.step [OF _ a64_runs.refl])

lemma a64_runs_det:
  assumes "a64_runs env code a b" and "a64_step env code b = None"
    and "a64_runs env code a b'" and "a64_step env code b' = None"
  shows "b' = b"
  using assms
proof (induction rule: a64_runs.induct)
  case (refl c)
  from refl(2) show ?case using refl(1) by (cases rule: a64_runs.cases) simp_all
next
  case (step c c' c'')
  from \<open>a64_runs env code c b'\<close> have "a64_runs env code c' b'"
    using step.hyps(1) \<open>a64_step env code b' = None\<close> by (cases rule: a64_runs.cases) simp_all
  then show ?case using step.IH \<open>a64_step env code c'' = None\<close> \<open>a64_step env code b' = None\<close> by simp
qed

primrec code_at :: "u32 list \<Rightarrow> nat \<Rightarrow> u32 list \<Rightarrow> bool" where
  "code_at code p [] = True"
| "code_at code p (w # ws) = (p < length code \<and> code ! p = w \<and> code_at code (p + 1) ws)"

lemma code_at_append [simp]:
  "code_at code p (xs @ ys) = (code_at code p xs \<and> code_at code (p + length xs) ys)"
  by (induction xs arbitrary: p) auto

lemma code_at_nth: "code_at code p ws = (\<forall>i < length ws. p + i < length code \<and> code ! (p + i) = ws ! i)"
proof (induction ws arbitrary: p)
  case (Cons w ws)
  show ?case
    unfolding code_at.simps Cons.IH by (auto simp: less_Suc_eq_0_disj nth_Cons split: nat.split) 
qed simp

lemma code_at_cong:
  assumes "code_at code p ws" and "length code' = length code"
    and "\<And>q. p \<le> q \<Longrightarrow> q < p + length ws \<Longrightarrow> code' ! q = code ! q"
  shows "code_at code' p ws"
  using assms by (simp add: code_at_nth)

lemma code_at_step:
  assumes "code_at code (pc c) (w # ws)" and "a64_decode w = Some i"
  shows "a64_step env code c = a64_exec env code i c"
  using assms by (simp add: a64_step_def)

lemma exec_mov_decode:
  assumes "exec_mov w r = Some r'"
  shows "a64_decode w = Some (Move_wide w)"
  using assms by (auto simp: exec_mov_def a64_decode_def Let_def split: if_splits)

lemma a64_runs_movs:
  assumes "code_at code (pc c) ws" and "exec_movs ws (regs c) = Some r"
  shows "a64_runs env code c (c\<lparr>pc := pc c + length ws, regs := r\<rparr>)"
  using assms
proof (induction ws arbitrary: c)
  case Nil
  then have "c\<lparr>pc := pc c + length [], regs := r\<rparr> = c" by simp
  then show ?case using a64_runs.refl [of env code c] by metis
next
  case (Cons w ws)
  obtain r1 where r1: "exec_mov w (regs c) = Some r1" "exec_movs ws r1 = Some r"
    using Cons.prems(2) by (auto split: option.splits)
  have "a64_step env code c = Some (c\<lparr>pc := pc c + 1, regs := r1\<rparr>)"
    using code_at_step [OF Cons.prems(1) exec_mov_decode [OF r1(1)]] r1(1)
    by (simp add: a64_jump_def nat_add_distrib)
  moreover have "a64_runs env code (c\<lparr>pc := pc c + 1, regs := r1\<rparr>) (c\<lparr>pc := pc c + length (w # ws), regs := r\<rparr>)"
    using Cons.IH [of "c\<lparr>pc := pc c + 1, regs := r1\<rparr>"] Cons.prems(1) r1(2) by simp
  ultimately show ?case by (rule a64_runs.step)
qed

lemma exec_imm_words:
  assumes "unat reg < 32"
  shows "exec_movs (imm_words reg v 4) r = Some (r(unat reg := v))"
proof -
  have "v AND mask 64 = v" by (rule bit_word_eqI) (simp add: bit_simps)
  then show ?thesis using imm_words_exec [OF assms, of 3 v] by (simp add: eval_nat_numeral del: imm_words.simps)
qed

lemma a64_runs_imm:
  assumes "code_at code (pc c) (imm_words reg v 4)" and "unat reg < 32"
  shows "a64_runs env code c (c\<lparr>pc := pc c + length (imm_words reg v 4), regs := (regs c)(unat reg := v)\<rparr>)"
  by (rule a64_runs_movs [OF assms(1) exec_imm_words [OF assms(2)]])

section \<open>The words of the encoders\<close>

definition insn_and :: "u8 \<Rightarrow> u8 \<Rightarrow> u8 \<Rightarrow> u32" where
  "insn_and reg1 reg2 reg3 = (((0x8A000000 OR ucast (reg1 AND 0x1F)) OR push_bit 5 (ucast (reg2 AND 0x1F)))
     OR push_bit 16 (ucast (reg3 AND 0x1F)))"

definition insn_cmp :: "u8 \<Rightarrow> u8 \<Rightarrow> u32" where
  "insn_cmp reg1 reg2 = ((0xEB00001F OR push_bit 5 (ucast (reg1 AND 0x1F))) OR push_bit 16 (ucast (reg2 AND 0x1F)))"

definition insn_b :: "nat \<Rightarrow> nat \<Rightarrow> u32" where
  "insn_b p target = ((insn_delta target p AND 0x03ffffff) OR 0x14000000)"

definition insn_b_eq :: "nat \<Rightarrow> nat \<Rightarrow> u32" where
  "insn_b_eq p target = ((push_bit 5 (insn_delta target p) AND 0xFFFFE0) OR 0x54000000)"

definition insn_b_ne :: "nat \<Rightarrow> nat \<Rightarrow> u32" where
  "insn_b_ne p target = ((push_bit 5 (insn_delta target p) AND 0xFFFFE0) OR 0x54000001)"

lemmas insn_emit_folds = insn_and_def [symmetric] insn_cmp_def [symmetric] insn_b_def [symmetric]
  insn_b_eq_def [symmetric] insn_b_ne_def [symmetric]

lemma below_8: "i < 8 \<Longrightarrow> i = 0 \<or> i = 1 \<or> i = 2 \<or> i = 3 \<or> i = 4 \<or> i = 5 \<or> i = 6 \<or> i = (7 :: nat)"
  by auto

lemma decode_and:
  assumes "i < 8" and "reg1 = 1 \<or> reg1 = 3"
  shows "a64_decode (insn_and 8 (20 + of_nat i) reg1) = Some (And_reg 8 (20 + i) (unat reg1))"
  using below_8 [OF assms(1)] assms(2)
  by (elim disjE) (simp_all add: insn_and_def a64_decode_def fd_def fn_def fm_def)

lemma decode_cmp:
  assumes "i < 8" and "reg0 = 0 \<or> reg0 = 2"
  shows "a64_decode (insn_cmp (20 + of_nat i) reg0) = Some (Cmp_reg (20 + i) (unat reg0))"
    and "a64_decode (insn_cmp 8 reg0) = Some (Cmp_reg 8 (unat reg0))"
  using below_8 [OF assms(1)] assms(2)
  by (elim disjE; simp add: insn_cmp_def a64_decode_def fd_def fn_def fm_def)+

lemma insn_b_bits: "insn_b p t AND 0xFC000000 = 0x14000000"
  by (simp add: insn_b_def bit.conj_disj_distrib2 and.assoc)

lemma drop_bit_23_ne:
  assumes "\<not> bit (w :: u32) 31"
  shows "drop_bit 23 w \<noteq> 0x1A5" "drop_bit 23 w \<noteq> 0x1E5"
proof -
  have "\<not> bit (drop_bit 23 w) 8" using assms by (simp add: bit_drop_bit_eq)
  moreover have "bit (0x1A5 :: u32) 8" "bit (0x1E5 :: u32) 8" by simp_all
  ultimately show "drop_bit 23 w \<noteq> 0x1A5" "drop_bit 23 w \<noteq> 0x1E5" by metis+
qed

lemma sint_delta:
  assumes "p < 2 ^ (LENGTH('w::len) - 1)" and "t < 2 ^ (LENGTH('w) - 1)" and "LENGTH('w) \<le> 32"
  shows "sint (ucast (insn_delta t p) :: 'w word) = int t - int p"
proof -
  have "insn_delta t p = word_of_int (int t - int p)" by (simp add: insn_delta_def)
  moreover have "(word_of_int (take_bit 32 k) :: 'w word) = word_of_int k" for k
    using assms(3) by (rule_tac bit_word_eqI) (simp add: bit_simps)
  ultimately have "ucast (insn_delta t p) = (word_of_int (int t - int p) :: 'w word)"
    by (simp add: unsigned_of_int del: of_int_diff of_int_of_nat_eq)
  moreover have "- (2 ^ (LENGTH('w) - 1)) \<le> int t - int p" "int t - int p < 2 ^ (LENGTH('w) - 1)"
  proof -
    have "int p < 2 ^ (LENGTH('w) - 1)" "int t < 2 ^ (LENGTH('w) - 1)"
      using assms(1,2) by (metis of_nat_less_iff of_nat_numeral of_nat_power)+
    then show "- (2 ^ (LENGTH('w) - 1)) \<le> int t - int p" "int t - int p < 2 ^ (LENGTH('w) - 1)" by linarith+
  qed
  ultimately show ?thesis
    by (simp add: sint_sbintrunc' signed_take_bit_int_eq_self del: of_int_diff)
qed

lemma low_bits_26: "ucast (insn_b p t) = (ucast (insn_delta t p) :: 26 word)"
proof (rule bit_word_eqI)
  fix n assume "n < LENGTH(26)"
  moreover have "bit (0x03ffffff :: u32) n" if "n < 26" for n
  proof -
    have "(0x03ffffff :: u32) = mask 26" by (simp add: mask_eq_decr_exp)
    then show ?thesis using that by (simp only: bit_mask_iff) simp
  qed
  moreover have "\<not> bit (0x14000000 :: u32) n" if "n < 26" for n
  proof -
    have "(0x14000000 :: u32) = push_bit 26 5" by simp
    then show ?thesis using that by (simp only: bit_push_bit_iff) simp
  qed
  ultimately show "bit (ucast (insn_b p t) :: 26 word) n = bit (ucast (insn_delta t p) :: 26 word) n"
    by (simp add: insn_b_def bit_ucast_iff bit_or_iff bit_and_iff)
qed

lemma decode_b:
  assumes "p < 2 ^ 25" and "t < 2 ^ 25"
  shows "a64_decode (insn_b p t) = Some (B (int t - int p))"
proof -
  have "\<not> bit (insn_b p t) 31" by (simp add: insn_b_def bit_or_iff bit_and_iff)
  from drop_bit_23_ne [OF this] show ?thesis
    using sint_delta [where 'w = 26, of p t] assms
    by (simp add: a64_decode_def insn_b_bits imm26_def low_bits_26)
qed

lemma b_cond_fields:
  assumes "w = (push_bit 5 (insn_delta t p) AND 0xFFFFE0) OR (0x54000000 OR x)" and "x = 0 \<or> x = 1"
  shows "w AND 0xFF000010 = 0x54000000" and "w AND 0xf = x" and "w AND 0xFC000000 \<noteq> 0x14000000"
    and "\<not> bit w 31" and "ucast (drop_bit 5 w) = (ucast (insn_delta t p) :: 19 word)"
proof -
  show "w AND 0xFF000010 = 0x54000000" "w AND 0xf = x"
    using assms(2) by (auto simp: assms(1) bit.conj_disj_distrib2 and.assoc)
  have "w AND 0xFC000000 = 0x54000000"
    using assms(2) by (auto simp: assms(1) bit.conj_disj_distrib2 and.assoc)
  then show "w AND 0xFC000000 \<noteq> 0x14000000" by simp
  show "\<not> bit w 31" using assms(2) by (auto simp: assms(1) bit_or_iff bit_and_iff)
  have m: "(0xFFFFE0 :: u32) = push_bit 5 (mask 19)" by (simp add: mask_eq_decr_exp)
  have "drop_bit 5 (0x54000000 OR x) = push_bit 19 (0x54 :: u32)" using assms(2) by auto
  then have "drop_bit 5 w = (insn_delta t p AND mask 19) OR push_bit 19 0x54 OR drop_bit 5 (insn_delta t p AND 0)"
    unfolding assms(1) m drop_bit_or
    by (simp only:) (rule bit_word_eqI, auto simp: bit_drop_bit_eq bit_or_iff bit_and_iff bit_push_bit_iff bit_mask_iff)
  then show "ucast (drop_bit 5 w) = (ucast (insn_delta t p) :: 19 word)"
    by (simp only:) (rule bit_word_eqI, simp add: bit_ucast_iff bit_or_iff bit_and_iff bit_push_bit_iff bit_mask_iff del: push_bit_of_1 push_bit_numeral)
qed

lemma decode_b_cond:
  assumes "p < 2 ^ 18" and "t < 2 ^ 18"
  shows "a64_decode (insn_b_eq p t) = Some (B_cond 0 (int t - int p))"
    and "a64_decode (insn_b_ne p t) = Some (B_cond 1 (int t - int p))"
proof -
  have d: "sint (ucast (insn_delta t p) :: 19 word) = int t - int p"
    using sint_delta [where 'w = 19, of p t] assms by simp
  note e = b_cond_fields [where x = 0, OF _ disjI1 [OF HOL.refl], of "insn_b_eq p t" t p]
    and n = b_cond_fields [where x = 1, OF _ disjI2 [OF HOL.refl], of "insn_b_ne p t" t p]
  show "a64_decode (insn_b_eq p t) = Some (B_cond 0 (int t - int p))"
    using e drop_bit_23_ne [OF e(4)] d by (simp add: a64_decode_def imm19_def insn_b_eq_def)
  show "a64_decode (insn_b_ne p t) = Some (B_cond 1 (int t - int p))"
    using n drop_bit_23_ne [OF n(4)] d by (simp add: a64_decode_def imm19_def insn_b_ne_def)
qed

end
