(* ===== verification/JitProps.thy ===== *)
theory JitProps
  imports Jit A64Props
begin

text \<open>
  What the code generator writes and what the code it writes does: the words of the tests, the chain
  of stubs, the stub that calls the match function, and one patch.
\<close>

unbundle bit_operations_syntax

section \<open>Writing code\<close>

lemma length_written [simp]: "p + length ws \<le> length code \<Longrightarrow> length (written code p ws) = length code"
  by (simp add: written_def)

lemma nth_written:
  assumes "p + length ws \<le> length code"
  shows "written code p ws ! q = (if p \<le> q \<and> q < p + length ws then ws ! (q - p) else code ! q)"
  using assms by (auto simp: written_def nth_append min_absorb2 add.commute not_less)

lemma code_at_written: "p + length ws \<le> length code \<Longrightarrow> code_at (written code p ws) p ws"
  by (simp add: code_at_nth nth_written)

lemma written_written:
  assumes "p + length xs + length ys \<le> length code"
  shows "written (written code p xs) (p + length xs) ys = written code p (xs @ ys)"
  using assms by (simp add: written_def min_absorb2 add.commute add.left_commute)

lemma put_insn_written: "p < length code \<Longrightarrow> put_insn code p w = Inr (written code p [w], p + 1)"
  using put_written [of p "[]" code w] by simp

lemma emit_insns_written:
  "p + length ws \<le> length code \<Longrightarrow> xnu_pf_emit_insns code p ws = Inr (written code p ws, p + length ws)"
proof (induction ws arbitrary: code p)
  case (Cons w ws)
  have "written (written code p [w]) (p + 1) ws = written code p (w # ws)"
    using written_written [of p "[w]" ws code] Cons.prems by simp
  then show ?case using Cons by (simp add: put_insn_written)
qed simp

text \<open>An encoder, or a sequence of them, that writes the words \<open>ws\<close> where it finds room for \<open>n\<close>.\<close>

definition emits :: "nat \<Rightarrow> (u32 list \<Rightarrow> nat \<Rightarrow> error + (u32 list \<times> nat)) \<Rightarrow> u32 list \<Rightarrow> bool" where
  "emits n f ws = (length ws \<le> n \<and>
     (\<forall>code p. p + n \<le> length code \<longrightarrow> f code p = Inr (written code p ws, p + length ws)))"

lemma emitsD: "emits n f ws \<Longrightarrow> p + n \<le> length code \<Longrightarrow> f code p = Inr (written code p ws, p + length ws)"
  by (simp add: emits_def)

lemma emits_length: "emits n f ws \<Longrightarrow> length ws \<le> n"
  by (simp add: emits_def)

lemma emits_put [intro]: "emits 1 (\<lambda>code p. put_insn code p w) [w]"
  by (simp add: emits_def put_insn_written)

lemma emits_imm [intro]: "emits 4 (\<lambda>code p. xnu_pf_imm64_load_emit code p reg v) (imm_words reg v 4)"
  by (simp add: emits_def imm64_emit_words length_imm_words del: imm_words.simps)

lemma emits_insns [intro]: "emits (length ws) (\<lambda>code p. xnu_pf_emit_insns code p ws) ws"
  by (simp add: emits_def emit_insns_written)

lemma emits_and [intro]: "emits 1 (\<lambda>code p. xnu_pf_and_emit code p a b c) [insn_and a b c]"
  unfolding xnu_pf_and_emit_def insn_and_def by (rule emits_put)

lemma emits_cmp [intro]: "emits 1 (\<lambda>code p. xnu_pf_cmp_emit code p a b) [insn_cmp a b]"
  unfolding xnu_pf_cmp_emit_def insn_cmp_def by (rule emits_put)

lemma emits_bind [intro]:
  assumes "emits n f xs" and "emits m g ys"
  shows "emits (n + m) (\<lambda>code p. bindE (f code p) (\<lambda>(code, p). g code p)) (xs @ ys)"
  using assms written_written [of _ xs ys] by (auto simp: emits_def add.assoc)

lemma emits_mono: "emits n f ws \<Longrightarrow> n \<le> m \<Longrightarrow> emits m f ws"
  by (auto simp: emits_def)

definition same_outside :: "nat \<Rightarrow> nat \<Rightarrow> u32 list \<Rightarrow> u32 list \<Rightarrow> bool" where
  "same_outside a b code code' = (length code' = length code \<and> (\<forall>q. q < a \<or> b \<le> q \<longrightarrow> code' ! q = code ! q))"

lemma same_outside_written: "a \<le> p \<Longrightarrow> p + length ws \<le> b \<Longrightarrow> b \<le> length code \<Longrightarrow> same_outside a b code (written code p ws)"
  by (simp add: same_outside_def nth_written)

lemma same_outside_trans: "same_outside a b x y \<Longrightarrow> same_outside a b y z \<Longrightarrow> same_outside a b x z"
  by (simp add: same_outside_def)

lemma same_outside_mono: "same_outside a b x y \<Longrightarrow> a' \<le> a \<Longrightarrow> b \<le> b' \<Longrightarrow> same_outside a' b' x y"
  by (simp add: same_outside_def)

section \<open>The words of a test\<close>

definition load_words :: "bool \<Rightarrow> u8 \<Rightarrow> u64 \<Rightarrow> u32 list" where
  "load_words needed reg v = (if needed then imm_words reg v 4 else [])"

lemma length_load_words: "length (load_words b reg v) \<le> 4"
  by (simp add: load_words_def length_imm_words)

definition cmp_words :: "u64 \<Rightarrow> nat \<Rightarrow> u64 \<Rightarrow> bool \<Rightarrow> u8 \<Rightarrow> u8 \<Rightarrow> u32 list" where
  "cmp_words and_nop i mk load reg1 reg0 =
     (if mk \<noteq> and_nop then
        load_words load reg1 (mk AND and_nop) @ [insn_and 8 (20 + of_nat i) reg1, insn_cmp 8 reg0]
      else [insn_cmp (20 + of_nat i) reg0])"

definition stub_words :: "u64 \<Rightarrow> u64 \<times> u64 \<Rightarrow> nat \<Rightarrow> u64 \<times> u64 \<Rightarrow> u32 list" where
  "stub_words and_nop hp i pr =
     (let same = (snd hp \<noteq> and_nop \<and> snd hp = snd pr)
      in load_words (fst hp \<noteq> fst pr) 2 (fst pr AND and_nop) @
         cmp_words and_nop i (snd pr) (\<not> same) (if same then 1 else 3) (if fst hp = fst pr then 0 else 2))"

definition emit_cmp :: "u64 \<Rightarrow> nat \<Rightarrow> u64 \<Rightarrow> bool \<Rightarrow> u8 \<Rightarrow> u8 \<Rightarrow> u32 list \<Rightarrow> nat \<Rightarrow> error + (u32 list \<times> nat)" where
  "emit_cmp and_nop i mk load reg1 reg0 code p =
     (if mk \<noteq> and_nop then
        bindE (if load then xnu_pf_imm64_load_emit code p reg1 (mk AND and_nop) else Inr (code, p)) (\<lambda>(code, p).
        bindE (xnu_pf_and_emit code p 8 (20 + of_nat i) reg1) (\<lambda>(code, p). xnu_pf_cmp_emit code p 8 reg0))
      else xnu_pf_cmp_emit code p (20 + of_nat i) reg0)"

lemma emits_none [intro]: "emits 0 (\<lambda>code p. Inr (code, p)) []"
  by (simp add: emits_def)

lemma emits_load: "emits 4 (\<lambda>code p. if b then xnu_pf_imm64_load_emit code p reg v else Inr (code, p)) (load_words b reg v)"
  using emits_imm [of reg v] emits_mono [OF emits_none, of 4] by (simp add: load_words_def del: imm_words.simps)

lemma emits_cmp_words: "emits 6 (emit_cmp and_nop i mk load reg1 reg0) (cmp_words and_nop i mk load reg1 reg0)"
proof (cases "mk = and_nop")
  case True
  then show ?thesis
    using emits_mono [OF emits_cmp [of "20 + of_nat i" reg0], of 6] by (simp add: emit_cmp_def [abs_def] cmp_words_def)
next
  case False
  then show ?thesis
    using emits_bind [OF emits_load [of load reg1 "mk AND and_nop"]
        emits_bind [OF emits_and [of 8 "20 + of_nat i" reg1] emits_cmp [of 8 reg0]]]
    by (simp add: emit_cmp_def [abs_def] cmp_words_def)
qed

lemma bindE_if: "bindE (if b then x else y) f = (if b then bindE x f else bindE y f)"
  by simp

lemma emits_stub_words:
  fixes hp pr :: "u64 \<times> u64" and and_nop :: u64
  defines "same \<equiv> snd hp \<noteq> and_nop \<and> snd hp = snd pr"
  shows "emits 10 (\<lambda>code p. bindE (if fst hp \<noteq> fst pr then xnu_pf_imm64_load_emit code p 2 (fst pr AND and_nop) else Inr (code, p))
      (\<lambda>(code, p). emit_cmp and_nop i (snd pr) (\<not> same) (if same then 1 else 3) (if fst hp = fst pr then 0 else 2) code p))
    (stub_words and_nop hp i pr)"
  using emits_bind [OF emits_load emits_cmp_words] by (simp add: stub_words_def Let_def same_def)

lemmas length_stub_words = emits_length [OF emits_stub_words]

lemma compare_stub_words:
  "compare_stub and_nop hp i pr =
    Inr (written (replicate 12 NOP) 0 (stub_words and_nop hp i pr), length (stub_words and_nop hp i pr))"
proof -
  obtain same where same: "same = (snd hp \<noteq> and_nop \<and> snd hp = snd pr)" by simp
  show ?thesis
    using emitsD [OF emits_stub_words, of 0 "replicate 12 NOP" hp pr and_nop i]
    unfolding compare_stub_def Let_def emit_cmp_def same [symmetric]
    by (cases "fst hp = fst pr"; cases same; cases "snd pr = and_nop") (simp_all add: bindE_assoc split_def)
qed

end
