(* ===== verification/JitRun.thy ===== *)
theory JitRun
  imports JitProps
begin

text \<open>
  What the emitted code does: one test, the chain of stubs below the call of the match function, and
  that call.
\<close>

unbundle bit_operations_syntax

section \<open>One test\<close>

text \<open>Nothing but the program counter, the flags and the registers in \<open>S\<close> changes.\<close>

definition moved :: "nat set \<Rightarrow> cpu \<Rightarrow> cpu \<Rightarrow> bool" where
  "moved S c c' = (stk c' = stk c \<and> calls c' = calls c \<and> (\<forall>n. n \<notin> S \<longrightarrow> regs c' n = regs c n))"

lemma moved_trans: "moved S a b \<Longrightarrow> moved T b c \<Longrightarrow> S \<subseteq> U \<Longrightarrow> T \<subseteq> U \<Longrightarrow> moved U a c"
  unfolding moved_def by (metis subsetD)

text \<open>The condition a pair puts on the element it is compared with, in the width of the scan.\<close>

definition pair_ok :: "u64 \<Rightarrow> u64 \<times> u64 \<Rightarrow> u64 \<Rightarrow> bool" where
  "pair_ok and_nop pr v = (v AND (snd pr AND and_nop) = fst pr AND and_nop)"

lemma run_load:
  assumes "code_at code (pc c) (load_words b reg v)" and "unat reg < 32"
  shows "a64_runs env code c (c\<lparr>pc := pc c + length (load_words b reg v),
    regs := (if b then (regs c)(unat reg := v) else regs c)\<rparr>)"
proof (cases b)
  case True
  then show ?thesis using a64_runs_imm [OF _ assms(2), of code c v] assms(1) by (simp add: load_words_def del: imm_words.simps)
next
  case False
  then have "c\<lparr>pc := pc c + length (load_words b reg v), regs := (if b then (regs c)(unat reg := v) else regs c)\<rparr> = c"
    by (simp add: load_words_def)
  then show ?thesis using a64_runs.refl [of env code c] by metis
qed

lemma run_cmp:
  assumes "code_at code (pc c) (cmp_words and_nop i mk load reg1 reg0)" and "i < 8"
    and reg1: "reg1 = 1 \<or> reg1 = 3" and reg0: "reg0 = 0 \<or> reg0 = 2"
    and mk: "\<not> load \<Longrightarrow> mk \<noteq> and_nop \<Longrightarrow> regs c (unat reg1) = mk AND and_nop"
    and win: "regs c (20 + i) AND and_nop = regs c (20 + i)"
  shows "\<exists>c'. a64_runs env code c c' \<and> pc c' = pc c + length (cmp_words and_nop i mk load reg1 reg0) \<and>
    moved (if load then {unat reg1, 8} else {8}) c c' \<and>
    zf c' = (regs c (20 + i) AND (mk AND and_nop) = regs c (unat reg0)) \<and>
    (mk \<noteq> and_nop \<longrightarrow> regs c' (unat reg1) = mk AND and_nop)"
proof (cases "mk = and_nop")
  case True
  then have "code_at code (pc c) [insn_cmp (20 + of_nat i) reg0]" using assms(1) by (simp add: cmp_words_def)
  from code_at_step [OF this decode_cmp(1) [OF \<open>i < 8\<close> reg0]]
  have "a64_step env code c = a64_exec env code (Cmp_reg (20 + i) (unat reg0)) c" .
  moreover have "unat reg0 < 31" using reg0 by auto
  ultimately have "a64_step env code c = Some (c\<lparr>zf := regs c (20 + i) = regs c (unat reg0),
      cf := regs c (unat reg0) \<le> regs c (20 + i), pc := pc c + 1\<rparr>)" (is "_ = Some ?c")
    using \<open>i < 8\<close> by (simp add: xr_def a64_jump_def nat_add_distrib)
  then have "a64_runs env code c ?c" by (rule a64_runs_step)
  then show ?thesis using True win by (intro exI [of _ ?c]) (simp add: cmp_words_def moved_def)
next
  case False
  let ?l = "load_words load reg1 (mk AND and_nop)"
  let ?c1 = "c\<lparr>pc := pc c + length ?l, regs := (if load then (regs c)(unat reg1 := mk AND and_nop) else regs c)\<rparr>"
  have c: "code_at code (pc c) ?l" "code_at code (pc ?c1) [insn_and 8 (20 + of_nat i) reg1]"
      "code_at code (pc ?c1 + 1) [insn_cmp 8 reg0]"
    using assms(1) False by (simp_all add: cmp_words_def)
  have u: "unat reg1 < 31" "unat reg1 \<noteq> 8" "unat reg0 < 31" "unat reg0 \<noteq> 8" "unat reg0 \<noteq> unat reg1" "unat reg1 < 20"
    using reg1 reg0 by auto
  have r1: "a64_runs env code c ?c1" using run_load [OF c(1)] u by simp
  have m: "regs ?c1 (unat reg1) = mk AND and_nop" using mk False by auto
  have w: "regs ?c1 (20 + i) = regs c (20 + i)" "regs ?c1 (unat reg0) = regs c (unat reg0)" using u by auto
  let ?c2 = "?c1\<lparr>pc := pc ?c1 + 1, regs := (regs ?c1)(8 := regs c (20 + i) AND (mk AND and_nop))\<rparr>"
  have "a64_step env code ?c1 = Some ?c2"
    using code_at_step [OF c(2) decode_and [OF \<open>i < 8\<close> reg1]] u \<open>i < 8\<close> m w
    by (simp add: xr_def xw_def a64_jump_def nat_add_distrib)
  then have r2: "a64_runs env code ?c1 ?c2" by (rule a64_runs_step)
  let ?c3 = "?c2\<lparr>zf := regs ?c2 8 = regs ?c2 (unat reg0), cf := regs ?c2 (unat reg0) \<le> regs ?c2 8, pc := pc ?c2 + 1\<rparr>"
  have "code_at code (pc ?c2) [insn_cmp 8 reg0]" using c(3) by simp
  from code_at_step [OF this decode_cmp(2) [OF \<open>i < 8\<close> reg0]] have "a64_step env code ?c2 = Some ?c3"
    using u by (simp add: xr_def a64_jump_def nat_add_distrib)
  then have "a64_runs env code ?c2 ?c3" by (rule a64_runs_step)
  from a64_runs_trans [OF a64_runs_trans [OF r1 r2] this] have "a64_runs env code c ?c3" .
  moreover have "zf ?c3 = (regs c (20 + i) AND (mk AND and_nop) = regs c (unat reg0))"
    using w(2) u by simp
  moreover have "pc ?c3 = pc c + length (cmp_words and_nop i mk load reg1 reg0)" using False by (simp add: cmp_words_def)
  moreover have "moved (if load then {unat reg1, 8} else {8}) c ?c3" by (simp add: moved_def)
  moreover have "regs ?c3 (unat reg1) = mk AND and_nop" using m u by simp
  ultimately show ?thesis by blast
qed

text \<open>The registers a stub relies on: the window, and the value and mask of the first test.\<close>

definition test_regs :: "(nat \<Rightarrow> u64) \<Rightarrow> u64 \<Rightarrow> u64 \<times> u64 \<Rightarrow> cpu \<Rightarrow> bool" where
  "test_regs win and_nop hp c =
     ((\<forall>i < 8. regs c (20 + i) = win i) \<and> regs c 0 = fst hp AND and_nop \<and>
      (snd hp \<noteq> and_nop \<longrightarrow> regs c 1 = snd hp AND and_nop))"

lemma test_regs_moved: "test_regs win and_nop hp c \<Longrightarrow> moved {2, 3, 8} c c' \<Longrightarrow> test_regs win and_nop hp c'"
  by (simp add: test_regs_def moved_def)

lemma run_stub_words:
  assumes "code_at code (pc c) (stub_words and_nop hp i pr)" and "i < 8" and "test_regs win and_nop hp c"
    and "win i AND and_nop = win i"
  shows "\<exists>c'. a64_runs env code c c' \<and> pc c' = pc c + length (stub_words and_nop hp i pr) \<and>
    moved {2, 3, 8} c c' \<and> zf c' = pair_ok and_nop pr (win i)"
proof -
  let ?ld = "fst hp \<noteq> fst pr" and ?same = "snd hp \<noteq> and_nop \<and> snd hp = snd pr"
  let ?l = "load_words ?ld 2 (fst pr AND and_nop)"
  let ?k = "cmp_words and_nop i (snd pr) (\<not> ?same) (if ?same then 1 else 3) (if fst hp = fst pr then 0 else 2)"
  let ?c1 = "c\<lparr>pc := pc c + length ?l, regs := (if ?ld then (regs c)(unat (2 :: u8) := fst pr AND and_nop) else regs c)\<rparr>"
  have c: "code_at code (pc c) ?l" "code_at code (pc ?c1) ?k"
    using assms(1) by (simp_all add: stub_words_def Let_def)
  have r1: "a64_runs env code c ?c1" by (rule run_load [OF c(1)]) simp
  have w: "regs ?c1 (20 + i) = win i" using assms(2,3) by (simp add: test_regs_def)
  have v: "regs ?c1 (unat (if fst hp = fst pr then 0 else 2 :: u8)) = fst pr AND and_nop"
    using assms(3) by (simp add: test_regs_def)
  have "\<exists>c'. a64_runs env code ?c1 c' \<and> pc c' = pc ?c1 + length ?k \<and>
      moved (if \<not> ?same then {unat (if ?same then 1 else 3 :: u8), 8} else {8}) ?c1 c' \<and>
      zf c' = (regs ?c1 (20 + i) AND (snd pr AND and_nop) = regs ?c1 (unat (if fst hp = fst pr then 0 else 2 :: u8))) \<and>
      (snd pr \<noteq> and_nop \<longrightarrow> regs c' (unat (if ?same then 1 else 3 :: u8)) = snd pr AND and_nop)"
    by (rule run_cmp [OF c(2) \<open>i < 8\<close>])
      (use assms(3,4) w in \<open>auto simp: test_regs_def\<close>)
  then obtain c' where c': "a64_runs env code ?c1 c'" "pc c' = pc ?c1 + length ?k"
      "moved (if \<not> ?same then {unat (if ?same then 1 else 3 :: u8), 8} else {8}) ?c1 c'"
      "zf c' = (win i AND (snd pr AND and_nop) = fst pr AND and_nop)"
    unfolding v w by blast
  have "moved {2} c ?c1" by (simp add: moved_def)
  then have "moved {2, 3, 8} c c'" by (rule moved_trans [OF _ c'(3)]) auto
  moreover have "pc c' = pc c + length (stub_words and_nop hp i pr)" using c'(2) by (simp add: stub_words_def Let_def)
  ultimately show ?thesis using a64_runs_trans [OF r1 c'(1)] c'(4) unfolding pair_ok_def by blast
qed

end
