(* ===== verification/JitStubs.thy ===== *)
theory JitStubs
  imports JitRun
begin

text \<open>
  The chain of stubs that \<open>emit_stubs\<close> lays down towards lower addresses: it fits when there is room
  for its size, writes nothing else, and, once its bailouts are linked, its run ends at the call when
  the other pairs hold and at the exit otherwise.
\<close>

unbundle bit_operations_syntax

section \<open>Branches\<close>

lemma step_b:
  assumes "code_at code (pc c) [insn_b (pc c) t]" and "pc c < 2 ^ 18" and "t < 2 ^ 18"
  shows "a64_step env code c = Some (c\<lparr>pc := t\<rparr>)"
  using code_at_step [OF assms(1) decode_b] assms(2,3) by (simp add: a64_jump_def)

lemma step_b_eq:
  assumes "code_at code (pc c) [insn_b_eq (pc c) t]" and "pc c < 2 ^ 18" and "t < 2 ^ 18"
  shows "a64_step env code c = Some (c\<lparr>pc := if zf c then t else pc c + 1\<rparr>)"
  using code_at_step [OF assms(1) decode_b_cond(1)] assms(2,3) by (simp add: a64_jump_def a64_cond_def nat_add_distrib)

lemma step_b_ne:
  assumes "code_at code (pc c) [insn_b_ne (pc c) t]" and "pc c < 2 ^ 18" and "t < 2 ^ 18"
  shows "a64_step env code c = Some (c\<lparr>pc := if zf c then pc c + 1 else t\<rparr>)"
  using code_at_step [OF assms(1) decode_b_cond(2)] assms(2,3) by (simp add: a64_jump_def a64_cond_def nat_add_distrib)

lemma moved_pc: "moved S c (c'\<lparr>pc := p\<rparr>) = moved S c c'"
  by (simp add: moved_def)

section \<open>Chains\<close>

definition stub_chain :: "a64_env \<Rightarrow> (nat \<Rightarrow> u64) \<Rightarrow> u64 \<Rightarrow> u64 \<times> u64 \<Rightarrow> u32 list \<Rightarrow> nat \<Rightarrow> nat \<Rightarrow> nat \<Rightarrow> bool \<Rightarrow> bool" where
  "stub_chain env win and_nop hp code lo S ex good = (\<forall>c. pc c = lo \<longrightarrow> test_regs win and_nop hp c \<longrightarrow>
     (\<exists>c'. a64_runs env code c c' \<and> pc c' = (if good then S else ex) \<and> moved {2, 3, 8} c c'))"

lemma stub_chain_refl: "stub_chain env win and_nop hp code S S ex True"
  unfolding stub_chain_def by (auto intro!: exI a64_runs.refl simp: moved_def)

lemma stub_chain_stub:
  assumes at: "code_at code lo (stub_words and_nop hp i pr @ [insn_b_ne (lo + length (stub_words and_nop hp i pr)) ex])"
    and i: "i < 8" and win: "win i AND and_nop = win i"
    and small: "length code < 2 ^ 18" "ex < 2 ^ 18"
    and up: "stub_chain env win and_nop hp code (lo + length (stub_words and_nop hp i pr) + 1) S ex good"
  shows "stub_chain env win and_nop hp code lo S ex (good \<and> pair_ok and_nop pr (win i))"
  unfolding stub_chain_def
proof (intro allI impI)
  fix c assume c: "pc c = lo" "test_regs win and_nop hp c"
  let ?n = "length (stub_words and_nop hp i pr)"
  obtain c1 where c1: "a64_runs env code c c1" "pc c1 = lo + ?n" "moved {2, 3, 8} c c1" "zf c1 = pair_ok and_nop pr (win i)"
    using run_stub_words [OF _ i c(2) win] at c(1) by (metis code_at_append)
  have at1: "code_at code (pc c1) [insn_b_ne (pc c1) ex]" using at c1(2) by simp
  then have "pc c1 < length code" by simp
  then have st: "a64_step env code c1 = Some (c1\<lparr>pc := if zf c1 then pc c1 + 1 else ex\<rparr>)"
    using step_b_ne [OF at1] small by simp
  let ?c2 = "c1\<lparr>pc := if zf c1 then pc c1 + 1 else ex\<rparr>"
  have r: "a64_runs env code c ?c2" using a64_runs_trans [OF c1(1) a64_runs_step [OF st]] .
  have m: "moved {2, 3, 8} c ?c2" using c1(3) by (simp add: moved_pc)
  show "\<exists>c'. a64_runs env code c c' \<and> pc c' = (if good \<and> pair_ok and_nop pr (win i) then S else ex) \<and> moved {2, 3, 8} c c'"
  proof (cases "zf c1")
    case True
    have "pc ?c2 = lo + ?n + 1" using True c1(2) by simp
    then obtain c' where "a64_runs env code ?c2 c'" "pc c' = (if good then S else ex)" "moved {2, 3, 8} ?c2 c'"
      using up test_regs_moved [OF c(2) m] unfolding stub_chain_def by blast
    then show ?thesis using a64_runs_trans [OF r] moved_trans [OF m _ order_refl order_refl] True c1(4) by metis
  next
    case False
    then show ?thesis using r m c1(4) by (intro exI [of _ ?c2]) simp
  qed
qed

section \<open>Laying the stubs\<close>

primrec stubs_size :: "u64 \<Rightarrow> u64 \<times> u64 \<Rightarrow> nat \<Rightarrow> (u64 \<times> u64) list \<Rightarrow> nat \<Rightarrow> nat" where
  "stubs_size and_nop hp h [] i = 0"
| "stubs_size and_nop hp h (pr # rest) i =
     (if i = h \<or> pr = (0, 0) then 0 else length (stub_words and_nop hp i pr) + 1) + stubs_size and_nop hp h rest (i + 1)"

definition links :: "stubs \<Rightarrow> nat set" where
  "links s = {q. Some q \<in> set (linkage s)}"

definition linked :: "u32 list \<Rightarrow> stubs \<Rightarrow> nat \<Rightarrow> nat \<Rightarrow> bool" where
  "linked code s S ex = (length code = length (st_code s) \<and>
     (\<forall>q. st_end s \<le> q \<and> q < S \<longrightarrow> code ! q = (if q \<in> links s then insn_b_ne q ex else st_code s ! q)))"

lemma links_update:
  assumes "i < length (linkage s)" and "linkage s ! i = None"
  shows "{q. Some q \<in> set ((linkage s)[i := Some l])} = insert l (links s)"
  using assms by (auto simp: links_def in_set_conv_nth nth_list_update) (metis option.distinct(1))+

text \<open>What one round of the loop does to the state.\<close>

definition laid :: "nat \<Rightarrow> stubs \<Rightarrow> stubs \<Rightarrow> bool" where
  "laid n s s' = (st_end s' + n = st_end s \<and> prev_stub s' = st_end s' \<and> cap s' = cap s \<and>
     same_outside (st_end s') (st_end s) (st_code s) (st_code s') \<and> length (linkage s') = length (linkage s) \<and>
     links s \<subseteq> links s' \<and> links s' \<subseteq> links s \<union> {st_end s'..<st_end s})"

lemma laid_refl: "prev_stub s = st_end s \<Longrightarrow> laid 0 s s"
  by (simp add: laid_def same_outside_def)

lemma laid_trans:
  assumes "laid m s t" and "laid n t u"
  shows "laid (m + n) s u"
proof -
  have "same_outside (st_end u) (st_end s) (st_code s) (st_code t)" "same_outside (st_end u) (st_end s) (st_code t) (st_code u)"
    using assms by (auto simp: laid_def intro: same_outside_mono)
  then have "same_outside (st_end u) (st_end s) (st_code s) (st_code u)" by (rule same_outside_trans)
  then show ?thesis using assms unfolding laid_def by fastforce
qed

definition lay_stub :: "u64 \<Rightarrow> u64 \<times> u64 \<Rightarrow> nat \<Rightarrow> u64 \<times> u64 \<Rightarrow> stubs \<Rightarrow> stubs" where
  "lay_stub and_nop hp i pr s =
     (let ws = stub_words and_nop hp i pr; out = st_end s - (length ws + 1)
      in s\<lparr>st_code := written (st_code s) out ws, st_end := out, prev_stub := out,
           linkage := (linkage s)[i := Some (out + length ws)]\<rparr>)"

lemma emit_stubs_lay:
  assumes "i < cap s" and "i \<noteq> h" and "pr \<noteq> (0, 0)" and "snd pr = 0 \<longrightarrow> fst pr = 0"
    and "length (stub_words and_nop (prs ! h) i pr) + 1 \<le> st_end s" and "st_end s \<le> length (st_code s)"
  shows "emit_stubs and_nop prs (Some h) (pr # rest) i s =
    emit_stubs and_nop prs (Some h) rest (i + 1) (lay_stub and_nop (prs ! h) i pr s)"
proof -
  let ?ws = "stub_words and_nop (prs ! h) i pr"
  have "snd pr \<noteq> 0" using assms(3,4) by (cases pr) auto
  moreover have "take (length ?ws) (written (replicate 12 NOP) 0 ?ws) = ?ws"
    by (simp add: written_def)
  ultimately show ?thesis
    using assms by (simp add: compare_stub_words hi_pair_def emit_insns_written lay_stub_def Let_def)
qed

lemma laid_lay_stub:
  assumes "i < length (linkage s)" and "linkage s ! i = None"
    and "length (stub_words and_nop hp i pr) + 1 \<le> st_end s" and "st_end s \<le> length (st_code s)"
  shows "laid (length (stub_words and_nop hp i pr) + 1) s (lay_stub and_nop hp i pr s)"
  using assms links_update [OF assms(1,2)]
  by (auto simp: laid_def lay_stub_def Let_def links_def intro!: same_outside_written)

lemma linked_block:
  assumes l: "laid n (lay_stub and_nop hp i pr s) s'" and linked: "linked code s' S ex"
    and i: "i < length (linkage s)" "linkage s ! i = None"
    and room: "length (stub_words and_nop hp i pr) + 1 \<le> st_end s" "st_end s \<le> length (st_code s)"
    and S: "st_end s \<le> S" "links s \<subseteq> {st_end s..<S}"
  shows "code_at code (st_end (lay_stub and_nop hp i pr s)) (stub_words and_nop hp i pr @
    [insn_b_ne (st_end (lay_stub and_nop hp i pr s) + length (stub_words and_nop hp i pr)) ex])"
proof -
  let ?ws = "stub_words and_nop hp i pr" and ?t = "lay_stub and_nop hp i pr s"
  let ?out = "st_end s - (length ?ws + 1)"
  have out: "st_end ?t = ?out" "?out + (length ?ws + 1) = st_end s" using room by (simp_all add: lay_stub_def Let_def)
  have lk: "links ?t = insert (?out + length ?ws) (links s)"
    using links_update [OF i] by (simp add: lay_stub_def Let_def links_def)
  have up: "st_end s' \<le> ?out" and ln: "length (st_code s') = length (st_code s)"
    and same: "\<And>q. ?out \<le> q \<Longrightarrow> st_code s' ! q = st_code ?t ! q"
    and inl: "links ?t \<subseteq> links s'" "links s' \<subseteq> links ?t \<union> {st_end s'..<?out}"
    using l out room by (auto simp: laid_def same_outside_def lay_stub_def Let_def)
  have len: "length code = length (st_code s)" using linked ln by (simp add: linked_def)
  have ws: "code ! q = ?ws ! (q - ?out)" if q: "?out \<le> q" "q < ?out + length ?ws" for q
  proof -
    have "q \<notin> links s'"
    proof
      assume "q \<in> links s'"
      then have "q \<in> links s" using inl(2) lk q by fastforce
      then have "st_end s \<le> q" using S(2) by fastforce
      then show False using q(2) out(2) by linarith
    qed
    moreover have "st_end s' \<le> q" "q < S" using up q S out(2) by linarith+
    ultimately have "code ! q = st_code s' ! q" using linked by (simp add: linked_def)
    then show ?thesis using same [OF q(1)] q room by (simp add: lay_stub_def Let_def nth_written)
  qed
  have bl: "code ! (?out + length ?ws) = insn_b_ne (?out + length ?ws) ex"
  proof -
    have "?out + length ?ws \<in> links s'" using inl(1) lk by auto
    moreover have "st_end s' \<le> ?out + length ?ws" "?out + length ?ws < S" using up S out(2) by linarith+
    ultimately show ?thesis using linked by (simp add: linked_def)
  qed
  have "?out + k < length code \<and> code ! (?out + k) = ?ws ! k" if "k < length ?ws" for k
    using ws [of "?out + k"] that out(2) room(2) len by simp
  then have "code_at code ?out ?ws" by (simp add: code_at_nth)
  moreover have "code_at code (?out + length ?ws) [insn_b_ne (?out + length ?ws) ex]"
    using bl out(2) room(2) len by simp
  ultimately show ?thesis unfolding out(1) code_at_append by (rule conjI)
qed

lemma emit_stubs_chain:
  assumes "\<forall>pr \<in> set rest. snd pr = 0 \<longrightarrow> fst pr = 0" and "i + length rest \<le> cap s" and "cap s \<le> 8"
    and "length (linkage s) = 8" and "\<forall>k < 8. i \<le> k \<longrightarrow> linkage s ! k = None"
    and "stubs_size and_nop (prs ! h) h rest i \<le> st_end s" and "st_end s \<le> S" and "S \<le> length (st_code s)"
    and "length (st_code s) < 2 ^ 18" and "ex < 2 ^ 18" and "prev_stub s = st_end s" and "links s \<subseteq> {st_end s..<S}"
  shows "\<exists>s'. emit_stubs and_nop prs (Some h) rest i s = Inr s' \<and> laid (stubs_size and_nop (prs ! h) h rest i) s s' \<and>
    (\<forall>code env win good. (\<forall>k < 8. win k AND and_nop = win k) \<longrightarrow> linked code s' S ex \<longrightarrow>
       stub_chain env win and_nop (prs ! h) code (st_end s) S ex good \<longrightarrow>
       stub_chain env win and_nop (prs ! h) code (st_end s') S ex
         (good \<and> (\<forall>k < length rest. i + k \<noteq> h \<longrightarrow> pair_ok and_nop (rest ! k) (win (i + k)))))"
  using assms
proof (induction rest arbitrary: i s)
  case Nil
  then show ?case using laid_refl [of s] by (intro exI [of _ s]) simp
next
  case (Cons pr rest)
  have split: "(\<forall>k < length (pr # rest). i + k \<noteq> h \<longrightarrow> pair_ok and_nop ((pr # rest) ! k) (win (i + k))) =
      ((i \<noteq> h \<longrightarrow> pair_ok and_nop pr (win i)) \<and>
       (\<forall>k < length rest. i + 1 + k \<noteq> h \<longrightarrow> pair_ok and_nop (rest ! k) (win (i + 1 + k))))" for win
    by (auto simp: less_Suc_eq_0_disj nth_Cons split: nat.splits) 
  show ?case
  proof (cases "i = h \<or> pr = (0, 0)")
    case True
    then have e: "emit_stubs and_nop prs (Some h) (pr # rest) i s = emit_stubs and_nop prs (Some h) rest (i + 1) s"
      using Cons.prems(2) by auto
    have t: "i \<noteq> h \<longrightarrow> pair_ok and_nop pr (win i)" for win using True by (auto simp: pair_ok_def)
    show ?thesis
      using Cons.IH [of "i + 1" s] Cons.prems True t unfolding e split by (simp add: add.commute)
  next
    case False
    let ?t = "lay_stub and_nop (prs ! h) i pr s"
    let ?n = "length (stub_words and_nop (prs ! h) i pr) + 1"
    have sz: "stubs_size and_nop (prs ! h) h (pr # rest) i = ?n + stubs_size and_nop (prs ! h) h rest (i + 1)"
      using False by simp
    have i: "i < cap s" "i < length (linkage s)" "linkage s ! i = None" "i < 8" using Cons.prems(2-5) by simp_all
    have room: "?n \<le> st_end s" "st_end s \<le> length (st_code s)" using Cons.prems(6-8) sz by simp_all
    have e: "emit_stubs and_nop prs (Some h) (pr # rest) i s = emit_stubs and_nop prs (Some h) rest (i + 1) ?t"
      using emit_stubs_lay [OF i(1)] False Cons.prems(1) room by simp
    have lt: "laid ?n s ?t" by (rule laid_lay_stub [OF i(2,3) room])
    have end_t: "st_end ?t + ?n = st_end s" and sub: "links ?t \<subseteq> links s \<union> {st_end ?t..<st_end s}"
      using lt by (simp_all add: laid_def)
    have "links ?t \<subseteq> {st_end ?t..<S}"
    proof
      fix q assume "q \<in> links ?t"
      then have "q \<in> {st_end s..<S} \<or> q \<in> {st_end ?t..<st_end s}" using sub Cons.prems(12) by blast
      then show "q \<in> {st_end ?t..<S}" using end_t Cons.prems(7) by auto
    qed
    note lk = this end_t
    have IH: "\<exists>s'. emit_stubs and_nop prs (Some h) rest (i + 1) ?t = Inr s' \<and>
        laid (stubs_size and_nop (prs ! h) h rest (i + 1)) ?t s' \<and>
        (\<forall>code env win good. (\<forall>k < 8. win k AND and_nop = win k) \<longrightarrow> linked code s' S ex \<longrightarrow>
           stub_chain env win and_nop (prs ! h) code (st_end ?t) S ex good \<longrightarrow>
           stub_chain env win and_nop (prs ! h) code (st_end s') S ex
             (good \<and> (\<forall>k < length rest. i + 1 + k \<noteq> h \<longrightarrow> pair_ok and_nop (rest ! k) (win (i + 1 + k)))))"
    proof (rule Cons.IH)
      show "\<forall>k < 8. i + 1 \<le> k \<longrightarrow> linkage ?t ! k = None" using Cons.prems(5) by (simp add: lay_stub_def Let_def)
      show "stubs_size and_nop (prs ! h) h rest (i + 1) \<le> st_end ?t" using Cons.prems(6) lk(2) sz by linarith
    qed (use Cons.prems lt lk in \<open>auto simp: laid_def same_outside_def\<close>)
    then obtain s' where s': "emit_stubs and_nop prs (Some h) rest (i + 1) ?t = Inr s'"
        "laid (stubs_size and_nop (prs ! h) h rest (i + 1)) ?t s'"
        "\<And>code env win good. \<forall>k < 8. win k AND and_nop = win k \<Longrightarrow> linked code s' S ex \<Longrightarrow>
           stub_chain env win and_nop (prs ! h) code (st_end ?t) S ex good \<Longrightarrow>
           stub_chain env win and_nop (prs ! h) code (st_end s') S ex
             (good \<and> (\<forall>k < length rest. i + 1 + k \<noteq> h \<longrightarrow> pair_ok and_nop (rest ! k) (win (i + 1 + k))))"
      by blast
    have "stub_chain env win and_nop (prs ! h) code (st_end s') S ex
        (good \<and> (i \<noteq> h \<longrightarrow> pair_ok and_nop pr (win i)) \<and>
         (\<forall>k < length rest. i + 1 + k \<noteq> h \<longrightarrow> pair_ok and_nop (rest ! k) (win (i + 1 + k))))"
      if w: "\<forall>k < 8. win k AND and_nop = win k" and lc: "linked code s' S ex"
        and ch: "stub_chain env win and_nop (prs ! h) code (st_end s) S ex good" for code env win good
    proof -
      have "length code < 2 ^ 18"
        using lc s'(2) Cons.prems(9) by (simp add: linked_def laid_def same_outside_def lay_stub_def Let_def)
          (use lt in \<open>simp add: laid_def same_outside_def lay_stub_def Let_def\<close>)
      moreover have "stub_chain env win and_nop (prs ! h) code (st_end ?t + length (stub_words and_nop (prs ! h) i pr) + 1) S ex good"
        using ch lk(2) by (simp add: add.assoc)
      ultimately have "stub_chain env win and_nop (prs ! h) code (st_end ?t) S ex (good \<and> pair_ok and_nop pr (win i))"
        using stub_chain_stub [OF linked_block [OF s'(2) lc i(2,3) room Cons.prems(7,12)] i(4)] w i(4) Cons.prems(10) by blast
      from s'(3) [OF w lc this] show ?thesis using False by (simp add: conj_assoc)
    qed
    then show ?thesis using s'(1) laid_trans [OF lt s'(2)] unfolding e sz split by blast
  qed
qed

end
