(* ===== verification/JitPatch.thy ===== *)
theory JitPatch
  imports JitStubs
begin

text \<open>
  The code of one patch: the first test, the linking of the stubs, the call of the match function,
  and what a run from the entry of the patch to its exit does.
\<close>

unbundle bit_operations_syntax

section \<open>Linking\<close>

lemma link_bailouts_code:
  assumes "\<And>q. Some q \<in> set ls \<Longrightarrow> q < length code"
  shows "\<exists>code'. link_bailouts code ls t = Inr code' \<and> length code' = length code \<and>
    (\<forall>q. code' ! q = (if Some q \<in> set ls then insn_b_ne q t else code ! q))"
  using assms
proof (induction ls arbitrary: code)
  case (Cons l ls)
  show ?case
  proof (cases l)
    case None
    then show ?thesis using Cons.IH [of code] Cons.prems by auto
  next
    case (Some p)
    then have p: "p < length code" using Cons.prems by simp
    then have e: "xnu_pf_b_ne_emit code p t = Inr (code[p := insn_b_ne p t], p + 1)"
      by (simp add: xnu_pf_b_ne_emit_def put_insn_def insn_b_ne_def)
    obtain code' where "link_bailouts (code[p := insn_b_ne p t]) ls t = Inr code'" "length code' = length code"
        "\<forall>q. code' ! q = (if Some q \<in> set ls then insn_b_ne q t else code[p := insn_b_ne p t] ! q)"
      using Cons.IH [of "code[p := insn_b_ne p t]"] Cons.prems by auto
    then show ?thesis using Some e p by (auto simp: nth_list_update)
  qed
qed simp

section \<open>The first test\<close>

definition main_loads :: "u64 \<Rightarrow> u64 \<times> u64 \<Rightarrow> bool" where
  "main_loads x0 hp = (x0 = 0 \<or> x0 \<noteq> fst hp)"

definition main_p0 :: "u64 \<Rightarrow> u64 \<Rightarrow> u64 \<times> u64 \<Rightarrow> u64" where
  "main_p0 and_nop x0 hp = (if main_loads x0 hp then fst hp AND and_nop else x0)"

definition main_words :: "u64 \<Rightarrow> u64 \<Rightarrow> u64 \<times> u64 \<Rightarrow> nat \<Rightarrow> u32 list" where
  "main_words and_nop x0 hp h =
     load_words (main_loads x0 hp) 0 (fst hp AND and_nop) @ cmp_words and_nop h (snd hp) True 1 0"

lemma emits_main_words:
  "emits 10 (\<lambda>code p. bindE (if main_loads x0 hp then xnu_pf_imm64_load_emit code p 0 (fst hp AND and_nop) else Inr (code, p))
      (\<lambda>(code, p). emit_cmp and_nop h (snd hp) True 1 0 code p)) (main_words and_nop x0 hp h)"
  using emits_bind [OF emits_load emits_cmp_words] by (simp add: main_words_def)

lemmas length_main_words = emits_length [OF emits_main_words]

lemma emit_main_test_words:
  assumes "p + 11 \<le> length code"
  shows "emit_main_test and_nop prs (Some h) prev x0 code p =
    (let M = main_words and_nop x0 (prs ! h) h; W = M @ [insn_b_eq (p + length M) prev]
     in Inr (main_p0 and_nop x0 (prs ! h), written code p W, p + length W))"
proof -
  let ?hp = "prs ! h" and ?M = "main_words and_nop x0 (prs ! h) h"
  have len: "p + length ?M < length code" using length_main_words [of and_nop x0 ?hp h] assms by linarith
  have "xnu_pf_b_eq_emit (written code p ?M) (p + length ?M) prev =
      Inr (written code p (?M @ [insn_b_eq (p + length ?M) prev]), p + length ?M + 1)"
    using put_written [OF len] by (simp add: xnu_pf_b_eq_emit_def insn_b_eq_def)
  then show ?thesis
    using emitsD [OF emits_main_words, of p code x0 ?hp and_nop h] assms
    by (cases "main_loads x0 ?hp"; cases "snd ?hp = and_nop")
      (auto simp: emit_main_test_def hi_pair_def main_loads_def main_p0_def Let_def emit_cmp_def bindE_assoc split_def
        simp flip: bindE_assoc)
qed

lemma run_main:
  assumes at: "code_at code (pc c) (main_words and_nop x0 hp h @ [insn_b_eq (pc c + length (main_words and_nop x0 hp h)) prev])"
    and h: "h < 8" and win: "\<forall>k < 8. regs c (20 + k) AND and_nop = regs c (20 + k)"
    and x0: "x0 \<noteq> 0 \<Longrightarrow> regs c 0 = x0" "x0 AND and_nop = x0"
    and small: "length code < 2 ^ 18" "prev < 2 ^ 18"
  shows "\<exists>c'. a64_runs env code c c' \<and>
    pc c' = (if pair_ok and_nop hp (regs c (20 + h)) then prev else pc c + length (main_words and_nop x0 hp h) + 1) \<and>
    moved {0, 1, 8} c c' \<and> regs c' 0 = main_p0 and_nop x0 hp \<and> test_regs (\<lambda>k. regs c (20 + k)) and_nop hp c'"
proof -
  let ?l = "load_words (main_loads x0 hp) 0 (fst hp AND and_nop)" and ?k = "cmp_words and_nop h (snd hp) True 1 0"
  let ?c1 = "c\<lparr>pc := pc c + length ?l, regs := (if main_loads x0 hp then (regs c)(unat (0 :: u8) := fst hp AND and_nop) else regs c)\<rparr>"
  have c: "code_at code (pc c) ?l" "code_at code (pc ?c1) ?k"
    using at by (simp_all add: main_words_def)
  have r1: "a64_runs env code c ?c1" by (rule run_load [OF c(1)]) simp
  have w: "regs ?c1 (20 + k) = regs c (20 + k)" for k by simp
  have v: "regs ?c1 0 = main_p0 and_nop x0 hp" "main_p0 and_nop x0 hp = fst hp AND and_nop"
    using x0 by (auto simp: main_p0_def main_loads_def)
  have "\<exists>c'. a64_runs env code ?c1 c' \<and> pc c' = pc ?c1 + length ?k \<and>
      moved (if True then {unat (1 :: u8), 8} else {8}) ?c1 c' \<and>
      zf c' = (regs ?c1 (20 + h) AND (snd hp AND and_nop) = regs ?c1 (unat (0 :: u8))) \<and>
      (snd hp \<noteq> and_nop \<longrightarrow> regs c' (unat (1 :: u8)) = snd hp AND and_nop)"
    by (rule run_cmp [OF c(2) h]) (use win h in auto)
  then obtain c2 where c2: "a64_runs env code ?c1 c2" "pc c2 = pc ?c1 + length ?k" "moved {1, 8} ?c1 c2"
      "zf c2 = pair_ok and_nop hp (regs c (20 + h))" "snd hp \<noteq> and_nop \<longrightarrow> regs c2 1 = snd hp AND and_nop"
    using w v unfolding pair_ok_def by auto
  have p2: "pc c2 = pc c + length (main_words and_nop x0 hp h)" using c2(2) by (simp add: main_words_def)
  have at2: "code_at code (pc c2) [insn_b_eq (pc c2) prev]" using at p2 by simp
  then have "pc c2 < length code" by simp
  then have "a64_step env code c2 = Some (c2\<lparr>pc := if zf c2 then prev else pc c2 + 1\<rparr>)" (is "_ = Some ?c3")
    using step_b_eq [OF at2] small by simp
  then have r: "a64_runs env code c ?c3" using a64_runs_trans [OF a64_runs_trans [OF r1 c2(1)] a64_runs_step] by blast
  have "moved {0} c ?c1" by (simp add: moved_def)
  then have m: "moved {0, 1, 8} c ?c3" using moved_trans [OF _ c2(3)] unfolding moved_pc by blast
  have "regs ?c3 0 = main_p0 and_nop x0 hp" using c2(3) v by (simp add: moved_def)
  moreover have "test_regs (\<lambda>k. regs c (20 + k)) and_nop hp ?c3"
    using m c2(5) v \<open>regs ?c3 0 = _\<close> by (simp add: test_regs_def moved_def)
  ultimately show ?thesis using r m c2(4) p2 by (intro exI [of _ ?c3]) simp
qed

section \<open>The call of the match function\<close>

definition u64_words :: "u64 \<Rightarrow> u32 list" where
  "u64_words v = [ucast v, ucast (drop_bit 32 v)]"

lemma emits_u64 [intro]: "emits 2 (\<lambda>code p. put_u64 code p v) (u64_words v)"
  using emits_insns [of "u64_words v"] by (simp add: put_u64_def u64_words_def numeral_2_eq_2 del: xnu_pf_emit_insns.simps)

lemma code_word64_u64_words: "code_at code p (u64_words v) \<Longrightarrow> code_word64 code p = v"
  by (auto simp: code_word64_def u64_words_def intro!: bit_word_eqI simp: bit_simps)

definition slow_words :: "nat \<Rightarrow> nat \<Rightarrow> u64 \<Rightarrow> u64 \<Rightarrow> u64 \<Rightarrow> u32 list" where
  "slow_words S ex x0 patch_ptr match_fn =
     take 6 pf_jit_slowpath @ imm_words 0 x0 4 @ replicate (4 - length (imm_words 0 x0 4)) NOP @
     [insn_b (S + 10) ex, NOP] @ u64_words patch_ptr @ u64_words match_fn"

lemma length_slow_words: "length (slow_words S ex x0 p m) = 16"
  using length_imm_words [of 0 x0 4] by (simp add: slow_words_def pf_jit_slowpath_def u64_words_def del: imm_words.simps)

lemma a64_runs_nops:
  "code_at code (pc c) (replicate n NOP) \<Longrightarrow> a64_runs env code c (c\<lparr>pc := pc c + n\<rparr>)"
proof (induction n arbitrary: c)
  case 0
  then show ?case using a64_runs.refl [of env code c] by simp
next
  case (Suc n)
  have "a64_decode NOP = Some Nop" by (simp add: a64_decode_def NOP_def)
  then have "a64_step env code c = Some (c\<lparr>pc := pc c + 1\<rparr>)"
    using Suc.prems by (simp add: a64_step_def a64_jump_def nat_add_distrib)
  moreover have "a64_runs env code (c\<lparr>pc := pc c + 1\<rparr>) (c\<lparr>pc := pc c + Suc n\<rparr>)"
    using Suc.IH [of "c\<lparr>pc := pc c + 1\<rparr>"] Suc.prems by simp
  ultimately show ?case by (rule a64_runs.step)
qed

lemma slow_decodes:
  "a64_decode 0x58000180 = Some (Ldr_literal 0 12)" "a64_decode 0x2A1D03E1 = Some (Mov_w 1 29)"
  "a64_decode 0xCB1D0262 = Some (Sub_reg 2 19 29)" "a64_decode 0xAA0203E3 = Some (Mov_x 3 2)"
  "a64_decode 0x58000144 = Some (Ldr_literal 4 10)" "a64_decode 0xD63F0080 = Some (Blr 4)"
  by (simp_all add: a64_decode_def fd_def fn_def fm_def imm19_def)

text \<open>The call with its arguments: the patch, the access type, and twice the position of the window.\<close>

definition match_call :: "u64 \<Rightarrow> u64 \<Rightarrow> cpu \<Rightarrow> a64_call" where
  "match_call patch_ptr match_fn c =
     A64_call match_fn [patch_ptr, ucast (ucast (regs c 29) :: u32), regs c 19 - regs c 29, regs c 19 - regs c 29]"

lemma run_slow_call:
  assumes at: "code_at code (pc c) (take 6 pf_jit_slowpath)"
    and lits: "code_at code (pc c + 12) (u64_words patch_ptr)" "code_at code (pc c + 14) (u64_words match_fn)"
  shows "\<exists>c'. a64_runs env code c c' \<and> pc c' = pc c + 6 \<and> calls c' = calls c @ [match_call patch_ptr match_fn c] \<and>
    stk c' = stk c \<and> (\<forall>n. 19 \<le> n \<and> n \<noteq> 30 \<longrightarrow> regs c' n = regs c n)"
proof -
  let ?p = "pc c"
  have w: "?p + 5 < length code" "code ! ?p = 0x58000180" "code ! (?p + 1) = 0x2A1D03E1" "code ! (?p + 2) = 0xCB1D0262"
    "code ! (?p + 3) = 0xAA0203E3" "code ! (?p + 4) = 0x58000144" "code ! (?p + 5) = 0xD63F0080"
    using at by (simp_all add: pf_jit_slowpath_def numeral_eq_Suc)
  let ?pos = "regs c 19 - regs c 29"
  let ?r1 = "(regs c)(0 := patch_ptr)"
  let ?r2 = "?r1(1 := ucast (ucast (regs c 29) :: u32))"
  let ?r3 = "?r2(2 := ?pos)"
  let ?r4 = "?r3(3 := ?pos)"
  let ?r5 = "?r4(4 := match_fn)"
  have l: "code_word64 code (?p + 12) = patch_ptr" "code_word64 code (?p + 14) = match_fn"
    using lits by (auto intro: code_word64_u64_words)
  have n: "nat (int q + k) = q + nat k" if "0 \<le> k" for q k using that by (simp add: nat_add_distrib)
  note ev = a64_step_def slow_decodes a64_jump_def xr_def xw_def n
  have 1: "a64_step env code c = Some (c\<lparr>pc := ?p + 1, regs := ?r1\<rparr>)" using w l by (simp add: ev)
  have 2: "a64_step env code (c\<lparr>pc := ?p + 1, regs := ?r1\<rparr>) = Some (c\<lparr>pc := ?p + 2, regs := ?r2\<rparr>)"
    using w by (simp add: ev)
  have 3: "a64_step env code (c\<lparr>pc := ?p + 2, regs := ?r2\<rparr>) = Some (c\<lparr>pc := ?p + 3, regs := ?r3\<rparr>)"
    using w by (simp add: ev)
  have 4: "a64_step env code (c\<lparr>pc := ?p + 3, regs := ?r3\<rparr>) = Some (c\<lparr>pc := ?p + 4, regs := ?r4\<rparr>)"
    using w by (simp add: ev)
  have 5: "a64_step env code (c\<lparr>pc := ?p + 4, regs := ?r4\<rparr>) = Some (c\<lparr>pc := ?p + 5, regs := ?r5\<rparr>)"
    using w l by (simp add: ev add.assoc)
  let ?cs = "calls c @ [match_call patch_ptr match_fn c]"
  let ?c6 = "c\<lparr>pc := ?p + 6, regs := after_call env ?cs ?r5, calls := ?cs\<rparr>"
  have 6: "a64_step env code (c\<lparr>pc := ?p + 5, regs := ?r5\<rparr>) = Some ?c6"
    using w by (simp add: ev Let_def match_call_def)
  have "a64_runs env code c ?c6"
    by (rule a64_runs.step [OF 1 a64_runs.step [OF 2 a64_runs.step [OF 3 a64_runs.step [OF 4
          a64_runs.step [OF 5 a64_runs_step [OF 6]]]]]])
  then show ?thesis by (intro exI [of _ ?c6]) (simp add: after_call_def)
qed

lemma run_slow:
  assumes at: "code_at code (pc c) (slow_words (pc c) ex x0 patch_ptr match_fn)"
    and small: "length code < 2 ^ 18" "ex < 2 ^ 18"
  shows "\<exists>c'. a64_runs env code c c' \<and> pc c' = ex \<and> calls c' = calls c @ [match_call patch_ptr match_fn c] \<and>
    stk c' = stk c \<and> regs c' 0 = x0 \<and> (\<forall>n. 19 \<le> n \<and> n \<noteq> 30 \<longrightarrow> regs c' n = regs c n)"
proof -
  let ?i = "imm_words 0 x0 4"
  have li: "length ?i \<le> 4" by (rule length_imm_words)
  then have p: "pc c + 6 + length ?i + (4 - length ?i) = pc c + 10" by simp
  have sp: "length (take 6 pf_jit_slowpath) = 6" by (simp add: pf_jit_slowpath_def)
  have a: "code_at code (pc c) (take 6 pf_jit_slowpath)" "code_at code (pc c + 6) ?i"
      "code_at code (pc c + 6 + length ?i) (replicate (4 - length ?i) NOP)"
      "code_at code (pc c + 10) [insn_b (pc c + 10) ex]"
      "code_at code (pc c + 12) (u64_words patch_ptr)" "code_at code (pc c + 14) (u64_words match_fn)"
    using at unfolding slow_words_def code_at_append sp length_append length_replicate
    by (simp_all add: p add.assoc u64_words_def li del: imm_words.simps) (simp_all add: add.commute)
  obtain c1 where c1: "a64_runs env code c c1" "pc c1 = pc c + 6" "calls c1 = calls c @ [match_call patch_ptr match_fn c]"
      "stk c1 = stk c" "\<forall>n. 19 \<le> n \<and> n \<noteq> 30 \<longrightarrow> regs c1 n = regs c n"
    using run_slow_call [OF a(1,5,6)] by blast
  let ?c2 = "c1\<lparr>pc := pc c1 + length ?i, regs := (regs c1)(unat (0 :: u8) := x0)\<rparr>"
  have r2: "a64_runs env code c1 ?c2" by (rule a64_runs_imm) (use a(2) c1(2) in simp_all)
  let ?c3 = "?c2\<lparr>pc := pc ?c2 + (4 - length ?i)\<rparr>"
  have r3: "a64_runs env code ?c2 ?c3" by (rule a64_runs_nops) (use a(3) c1(2) in simp)
  have p3: "pc ?c3 = pc c + 10" using p c1(2) by simp
  have "pc ?c3 < length code" using a(4) p3 by simp
  then have "a64_step env code ?c3 = Some (?c3\<lparr>pc := ex\<rparr>)" using step_b [of code ?c3 ex] a(4) p3 small by simp
  from a64_runs_trans [OF a64_runs_trans [OF a64_runs_trans [OF c1(1) r2] r3] a64_runs_step [OF this]]
  show ?thesis using c1(3-5) by (intro exI [of _ "?c3\<lparr>pc := ex\<rparr>"]) simp
qed

section \<open>A patch\<close>

definition pairs_ok :: "u64 \<Rightarrow> (u64 \<times> u64) list \<Rightarrow> (nat \<Rightarrow> u64) \<Rightarrow> bool" where
  "pairs_ok and_nop prs win = (\<forall>k < min (length prs) 8. pair_ok and_nop (prs ! k) (win k))"

definition window_fits :: "u64 \<Rightarrow> cpu \<Rightarrow> bool" where
  "window_fits and_nop c = (\<forall>k < 8. regs c (20 + k) AND and_nop = regs c (20 + k))"

text \<open>A run from \<open>p\<close> to \<open>ex\<close> that makes the calls \<open>cs\<close>, and hands on \<open>x1\<close> when it was handed \<open>x0\<close>.\<close>

definition passes :: "a64_env \<Rightarrow> u32 list \<Rightarrow> u64 \<Rightarrow> nat \<Rightarrow> u64 \<Rightarrow> nat \<Rightarrow> u64 \<Rightarrow> (cpu \<Rightarrow> a64_call list) \<Rightarrow> bool" where
  "passes env code and_nop p x0 ex x1 cs = (\<forall>c. pc c = p \<longrightarrow> (x0 \<noteq> 0 \<longrightarrow> regs c 0 = x0) \<longrightarrow> window_fits and_nop c \<longrightarrow>
     (\<exists>c'. a64_runs env code c c' \<and> pc c' = ex \<and> stk c' = stk c \<and> regs c' 0 = x1 \<and>
        (\<forall>n. 19 \<le> n \<and> n \<noteq> 30 \<longrightarrow> regs c' n = regs c n) \<and> calls c' = calls c @ cs c))"

definition patch_calls :: "u64 \<Rightarrow> (u64 \<times> u64) list \<Rightarrow> u64 \<Rightarrow> u64 \<Rightarrow> cpu \<Rightarrow> a64_call list" where
  "patch_calls and_nop prs patch_ptr match_fn c =
     (if pairs_ok and_nop prs (\<lambda>k. regs c (20 + k)) then [match_call patch_ptr match_fn c] else [])"

lemma patch_block_passes:
  fixes prs :: "(u64 \<times> u64) list" and h :: nat and and_nop x0 :: u64
  defines "hp \<equiv> prs ! h"
  defines "M \<equiv> main_words and_nop x0 hp h"
  assumes main: "code_at code p (M @ [insn_b_eq (p + length M) prev])"
    and chain: "\<And>win. \<forall>k < 8. win k AND and_nop = win k \<Longrightarrow> stub_chain env win and_nop hp code prev S (p + length M + 1)
      (\<forall>k < length (take (min (length prs) 8) prs). k \<noteq> h \<longrightarrow> pair_ok and_nop (take (min (length prs) 8) prs ! k) (win k))"
    and slow: "code_at code S (slow_words S (p + length M + 1) (main_p0 and_nop x0 hp) patch_ptr match_fn)"
    and h: "h < min (length prs) 8" and x0: "x0 AND and_nop = x0"
    and small: "length code < 2 ^ 18" "prev < 2 ^ 18"
  shows "passes env code and_nop p x0 (p + length M + 1) (main_p0 and_nop x0 hp) (patch_calls and_nop prs patch_ptr match_fn)"
  unfolding passes_def
proof (intro allI impI)
  fix c assume c: "pc c = p" "x0 \<noteq> 0 \<longrightarrow> regs c 0 = x0" "window_fits and_nop c"
  let ?ex = "p + length M + 1" and ?win = "\<lambda>k. regs c (20 + k)"
  have ex: "?ex < 2 ^ 18"
  proof -
    have "p + length M < length code" using main by simp
    then show ?thesis using small(1) by linarith
  qed
  have "\<exists>c'. a64_runs env code c c' \<and> pc c' = (if pair_ok and_nop hp (?win h) then prev else ?ex) \<and>
      moved {0, 1, 8} c c' \<and> regs c' 0 = main_p0 and_nop x0 hp \<and> test_regs ?win and_nop hp c'"
    unfolding M_def c(1) [symmetric] by (rule run_main) (use main h c x0 small in \<open>simp_all add: M_def window_fits_def\<close>)
  then obtain c1 where c1: "a64_runs env code c c1" "pc c1 = (if pair_ok and_nop hp (?win h) then prev else ?ex)"
      "moved {0, 1, 8} c c1" "regs c1 0 = main_p0 and_nop x0 hp" "test_regs ?win and_nop hp c1"
    by blast
  let ?others = "\<forall>k < length (take (min (length prs) 8) prs). k \<noteq> h \<longrightarrow> pair_ok and_nop (take (min (length prs) 8) prs ! k) (?win k)"
  have all: "pairs_ok and_nop prs ?win = (pair_ok and_nop hp (?win h) \<and> ?others)"
    using h unfolding pairs_ok_def hp_def by (auto simp: min_def split: if_splits)
  show "\<exists>c'. a64_runs env code c c' \<and> pc c' = ?ex \<and> stk c' = stk c \<and> regs c' 0 = main_p0 and_nop x0 hp \<and>
      (\<forall>n. 19 \<le> n \<and> n \<noteq> 30 \<longrightarrow> regs c' n = regs c n) \<and> calls c' = calls c @ patch_calls and_nop prs patch_ptr match_fn c"
  proof (cases "pair_ok and_nop hp (?win h)")
    case False
    then show ?thesis using c1 all by (intro exI [of _ c1]) (auto simp: moved_def patch_calls_def)
  next
    case True
    have "\<forall>k < 8. ?win k AND and_nop = ?win k" using c(3) by (simp add: window_fits_def)
    from chain [OF this] have ch: "stub_chain env ?win and_nop hp code prev S ?ex ?others" .
    have "pc c1 = prev" using c1(2) True by simp
    then obtain c2 where c2: "a64_runs env code c1 c2" "pc c2 = (if ?others then S else ?ex)" "moved {2, 3, 8} c1 c2"
      using ch c1(5) unfolding stub_chain_def by blast
    have r: "a64_runs env code c c2" by (rule a64_runs_trans [OF c1(1) c2(1)])
    have m: "stk c2 = stk c" "calls c2 = calls c" "\<And>n. 19 \<le> n \<Longrightarrow> regs c2 n = regs c n" "regs c2 0 = main_p0 and_nop x0 hp"
      using c1(3,4) c2(3) by (simp_all add: moved_def)
    show ?thesis
    proof (cases ?others)
      case False
      then have "\<not> pairs_ok and_nop prs ?win" "pc c2 = ?ex" using all c2(2) by auto
      then show ?thesis using r m by (intro exI [of _ c2]) (simp add: patch_calls_def)
    next
      case others: True
      then have ok: "pairs_ok and_nop prs ?win" and p2: "pc c2 = S" using all True c2(2) by auto
      obtain c3 where c3: "a64_runs env code c2 c3" "pc c3 = ?ex" "calls c3 = calls c2 @ [match_call patch_ptr match_fn c2]"
          "stk c3 = stk c2" "regs c3 0 = main_p0 and_nop x0 hp" "\<forall>n. 19 \<le> n \<and> n \<noteq> 30 \<longrightarrow> regs c3 n = regs c2 n"
        using run_slow [of code c2 ?ex "main_p0 and_nop x0 hp" patch_ptr match_fn env] slow p2 small ex by auto
      have "match_call patch_ptr match_fn c2 = match_call patch_ptr match_fn c" using m by (simp add: match_call_def)
      then show ?thesis using a64_runs_trans [OF r c3(1)] c3 m ok by (intro exI [of _ c3]) (simp add: patch_calls_def)
    qed
  qed
qed

end
