(* ===== verification/JitEmit.thy ===== *)
theory JitEmit
  imports JitPatch
begin

text \<open>
  \<open>xnu_pf_maskmatch_emit\<close>: with enough room it succeeds, leaves the code outside the free part of the
  buffer alone, and what it adds is the code of one patch, whatever is written to the rest later.
\<close>

unbundle bit_operations_syntax

lemma find_hi_entropy_bound:
  "find_hi_entropy and_nop prs i r hi = Some h \<Longrightarrow> hi = Some h \<or> (i \<le> h \<and> h < i + length prs)"
  by (induction prs arbitrary: i r hi) (fastforce simp: Let_def split: if_splits)+

lemma emit_stubs_linkage:
  "emit_stubs and_nop prs hi rest i s = Inr s' \<Longrightarrow> i + length rest \<le> k \<Longrightarrow> linkage s' ! k = linkage s ! k"
  by (induction rest arbitrary: i s) (fastforce simp: split_def Let_def split: if_splits)+

lemma code_at_window:
  assumes "code_at code p R" and "k + length ws \<le> length R"
  shows "code_at (written code (p + k) ws) p (written R k ws)"
proof -
  have "p + length R \<le> length code" if "R \<noteq> []"
    using assms(1) that unfolding code_at_nth by (cases "length R") (auto simp: Suc_le_eq)
  then have "p + k + length ws \<le> length code \<or> ws = []" using assms(2) by (cases "R = []") auto
  then show ?thesis using assms by (auto simp: code_at_nth nth_written add.assoc)
qed

lemma slow_words_written:
  "written (written (pf_jit_slowpath @ u64_words a @ u64_words b) 6 (imm_words 0 x0 4)) 10 [insn_b (S + 10) ex] =
    slow_words S ex x0 a b"
proof -
  let ?i = "imm_words 0 x0 4"
  have "length ?i \<le> 4" by (rule length_imm_words)
  then consider "length ?i = 0" | "length ?i = 1" | "length ?i = 2" | "length ?i = 3" | "length ?i = 4" by linarith
  then show ?thesis
    by cases (simp_all add: written_def slow_words_def pf_jit_slowpath_def u64_words_def numeral_eq_Suc del: imm_words.simps)
qed

text \<open>The words of one patch: its test in the main stream, and from the back its stubs, the call and a word to align it.\<close>

definition main_size :: "u64 \<Rightarrow> u64 \<Rightarrow> (u64 \<times> u64) list \<Rightarrow> nat \<Rightarrow> nat" where
  "main_size and_nop x0 prs h = length (main_words and_nop x0 (prs ! h) h) + 1"

definition back_size :: "u64 \<Rightarrow> (u64 \<times> u64) list \<Rightarrow> nat \<Rightarrow> nat" where
  "back_size and_nop prs h = stubs_size and_nop (prs ! h) h (take (min (length prs) 8) prs) 0 + 17"

definition agrees :: "u32 list \<Rightarrow> nat \<Rightarrow> nat \<Rightarrow> u32 list \<Rightarrow> bool" where
  "agrees code a b code' = (length code' = length code \<and> (\<forall>q. a \<le> q \<and> q < b \<longrightarrow> code' ! q = code ! q))"

lemma agrees_code_at:
  "agrees code a b code' \<Longrightarrow> code_at code p ws \<Longrightarrow> a \<le> p \<Longrightarrow> p + length ws \<le> b \<Longrightarrow> code_at code' p ws"
  by (rule code_at_cong) (auto simp: agrees_def)

lemma same_outside_code_at:
  "same_outside a b code code' \<Longrightarrow> code_at code p ws \<Longrightarrow> p + length ws \<le> a \<or> b \<le> p \<Longrightarrow> code_at code' p ws"
  by (rule code_at_cong [of code]) (auto simp: same_outside_def)

definition slow_base :: "nat \<Rightarrow> nat" where
  "slow_base e = (if even (e - 17) then e - 17 + 1 else e - 17)"

definition slow_start :: "u32 list \<Rightarrow> nat \<Rightarrow> u64 \<Rightarrow> u64 \<Rightarrow> u32 list" where
  "slow_start code e patch_ptr match_fn =
     written (if even (e - 17) then written code (e - 17) [NOP] else code) (slow_base e)
       (pf_jit_slowpath @ u64_words patch_ptr @ u64_words match_fn)"

lemma length_slow_template: "length (pf_jit_slowpath @ u64_words a @ u64_words b) = 16"
  by (simp add: pf_jit_slowpath_def u64_words_def)

lemma slow_start_frame:
  assumes "17 \<le> e" and "e \<le> length code"
  shows "same_outside (e - 17) e code (slow_start code e a b)" and "length (slow_start code e a b) = length code"
    and "code_at (slow_start code e a b) (slow_base e) (pf_jit_slowpath @ u64_words a @ u64_words b)"
    and "e - 17 \<le> slow_base e" and "slow_base e + 16 \<le> e"
proof -
  let ?T = "pf_jit_slowpath @ u64_words a @ u64_words b"
  let ?c = "if even (e - 17) then written code (e - 17) [NOP] else code"
  show b: "e - 17 \<le> slow_base e" "slow_base e + 16 \<le> e" using assms(1) by (auto simp: slow_base_def)
  have 1: "same_outside (e - 17) e code ?c"
    using assms same_outside_written [of "e - 17" "e - 17" "[NOP]" e code] by (simp add: same_outside_def)
  then have l: "length ?c = length code" by (simp add: same_outside_def)
  have s: "slow_base e + length ?T \<le> e" using b length_slow_template by presburger
  have "same_outside (e - 17) e ?c (slow_start code e a b)"
    unfolding slow_start_def by (rule same_outside_written) (use b s l assms in simp_all)
  with 1 show so: "same_outside (e - 17) e code (slow_start code e a b)" by (rule same_outside_trans)
  then show "length (slow_start code e a b) = length code" by (simp add: same_outside_def)
  show "code_at (slow_start code e a b) (slow_base e) ?T"
    unfolding slow_start_def by (rule code_at_written) (use s l assms in linarith)
qed

lemma slow_start_emit:
  assumes "17 \<le> e" and "e \<le> length code"
  shows "bindE (xnu_pf_align3_emit code (e - 17)) (\<lambda>(code, stub).
      bindE (xnu_pf_emit_insns code stub pf_jit_slowpath) (\<lambda>(code, args).
      bindE (put_u64 code args patch_ptr) (\<lambda>(code, p).
      bindE (put_u64 code p match_fn) (\<lambda>(code, p). K code stub)))) =
    K (slow_start code e patch_ptr match_fn) (slow_base e)"
proof -
  let ?c = "if even (e - 17) then written code (e - 17) [NOP] else code" and ?S = "slow_base e"
  have al: "xnu_pf_align3_emit code (e - 17) = Inr (?c, ?S)"
    using assms by (simp add: xnu_pf_align3_emit_def put_insn_written slow_base_def)
  have l: "length ?c = length code" using assms by simp
  have S: "?S + 16 \<le> e" using slow_start_frame(5) [OF assms] .
  have n: "length pf_jit_slowpath = 12" "length (u64_words v) = 2" for v by (simp_all add: pf_jit_slowpath_def u64_words_def)
  have e: "emits (12 + (2 + 2)) (\<lambda>code p. bindE (xnu_pf_emit_insns code p pf_jit_slowpath) (\<lambda>(code, p).
      bindE (put_u64 code p patch_ptr) (\<lambda>(code, p). put_u64 code p match_fn)))
      (pf_jit_slowpath @ u64_words patch_ptr @ u64_words match_fn)"
    using emits_bind [OF emits_insns [of pf_jit_slowpath] emits_bind [OF emits_u64 emits_u64]] n(1) by simp
  from emitsD [OF e, of ?S ?c] have w: "bindE (xnu_pf_emit_insns ?c ?S pf_jit_slowpath) (\<lambda>(code, p).
      bindE (put_u64 code p patch_ptr) (\<lambda>(code, p). put_u64 code p match_fn)) =
      Inr (slow_start code e patch_ptr match_fn, ?S + 16)"
    using S l assms n by (simp add: slow_start_def)
  obtain c1 p1 where 1: "xnu_pf_emit_insns ?c ?S pf_jit_slowpath = Inr (c1, p1)"
    using w by (cases "xnu_pf_emit_insns ?c ?S pf_jit_slowpath") auto
  obtain c2 p2 where 2: "put_u64 c1 p1 patch_ptr = Inr (c2, p2)"
    using w 1 by (cases "put_u64 c1 p1 patch_ptr") auto
  have 3: "put_u64 c2 p2 match_fn = Inr (slow_start code e patch_ptr match_fn, ?S + 16)" using w 1 2 by simp
  show ?thesis unfolding al using 1 2 3 by simp
qed

section \<open>A patch\<close>

lemma links_take:
  assumes "length (linkage s) = 8" and "\<forall>k. n \<le> k \<and> k < 8 \<longrightarrow> linkage s ! k = None"
  shows "{q. Some q \<in> set (take n (linkage s))} = links s"
proof -
  have "Some q \<notin> set (drop n (linkage s))" for q
    using assms by (auto simp: in_set_conv_nth)
  then show ?thesis unfolding links_def by (metis Un_iff append_take_drop_id set_append)
qed

text \<open>The last four steps: the test in the main stream, the links, and the two stores into the call.\<close>

lemma finish_emit:
  fixes s :: stubs and prs :: "(u64 \<times> u64) list" and h p :: nat and and_nop x0 :: u64
  defines "M \<equiv> main_words and_nop x0 (prs ! h) h"
  defines "ex \<equiv> p + length M + 1" and "x1 \<equiv> main_p0 and_nop x0 (prs ! h)"
  assumes tmpl: "code_at (st_code s) S (pf_jit_slowpath @ u64_words a @ u64_words b)"
    and lk: "links s \<subseteq> {st_end s..<S}" and ls: "{q. Some q \<in> set ls} = links s"
    and p: "ex \<le> st_end s" and S: "st_end s \<le> S" "S + 16 \<le> length (st_code s)"
  shows "\<exists>code. bindE (emit_main_test and_nop prs (Some h) prev x0 (st_code s) p) (\<lambda>(x0, code, p).
      bindE (link_bailouts code ls p) (\<lambda>code.
      bindE (xnu_pf_imm64_load_emit code (S + 6) 0 x0) (\<lambda>(code, q).
      bindE (xnu_pf_b_emit code (S + 10) p) (\<lambda>(code, q). Inr (x0, code, p))))) = Inr (x1, code, ex) \<and>
    code_at code p (M @ [insn_b_eq (p + length M) prev]) \<and> linked code s S ex \<and>
    code_at code S (slow_words S ex x1 a b) \<and> length code = length (st_code s) \<and>
    (\<forall>q. (q < p \<or> ex \<le> q) \<and> (q < st_end s \<or> S + 16 \<le> q) \<longrightarrow> code ! q = st_code s ! q)"
proof -
  let ?W = "M @ [insn_b_eq (p + length M) prev]" and ?n = "length (st_code s)"
  have pn: "p + 11 \<le> ?n" "p + length ?W \<le> ?n" using p S by (simp_all add: ex_def)
  have main: "emit_main_test and_nop prs (Some h) prev x0 (st_code s) p = Inr (x1, written (st_code s) p ?W, ex)"
    using emit_main_test_words [OF pn(1), of and_nop prs h prev x0] by (simp add: Let_def M_def ex_def x1_def)
  let ?c1 = "written (st_code s) p ?W"
  have l1: "length ?c1 = ?n" using pn by simp
  have "\<exists>code'. link_bailouts ?c1 ls ex = Inr code' \<and> length code' = length ?c1 \<and>
      (\<forall>q. code' ! q = (if Some q \<in> set ls then insn_b_ne q ex else ?c1 ! q))"
  proof (rule link_bailouts_code)
    fix q assume "Some q \<in> set ls"
    then have "q \<in> {st_end s..<S}" using ls lk by auto
    then show "q < length ?c1" using l1 S by simp
  qed
  then obtain c2 where c2: "link_bailouts ?c1 ls ex = Inr c2" "length c2 = ?n"
      "\<And>q. c2 ! q = (if q \<in> links s then insn_b_ne q ex else ?c1 ! q)"
    using l1 unfolding ls [symmetric] mem_Collect_eq by auto
  let ?i = "imm_words 0 x1 4"
  have li: "length ?i \<le> 4" by (rule length_imm_words)
  let ?c3 = "written c2 (S + 6) ?i"
  have 3: "xnu_pf_imm64_load_emit c2 (S + 6) 0 x1 = Inr (?c3, S + 6 + length ?i)"
    by (rule emitsD [OF emits_imm]) (use S c2 in simp)
  have l3: "length ?c3 = ?n" using S c2(2) li by (subst length_written) simp_all
  let ?c4 = "written ?c3 (S + 10) [insn_b (S + 10) ex]"
  have 4: "xnu_pf_b_emit ?c3 (S + 10) ex = Inr (?c4, S + 10 + 1)"
    using put_insn_written [of "S + 10" ?c3] S l3 by (simp add: xnu_pf_b_emit_def insn_b_def)
  have l4: "length ?c4 = ?n" using S l3 by (subst length_written) simp_all
  have low: "?c4 ! q = c2 ! q" if "q < S \<or> S + 16 \<le> q" for q
  proof -
    have "?c4 ! q = ?c3 ! q" using that S l3 by (subst nth_written) auto
    also have "\<dots> = c2 ! q" using that S c2(2) li by (subst nth_written) auto
    finally show ?thesis .
  qed
  have c1: "?c1 ! q = st_code s ! q" if "q < p \<or> ex \<le> q" for q
    using that pn by (subst nth_written) (auto simp: ex_def)
  have "code_at ?c4 p ?W"
  proof (rule code_at_cong [OF code_at_written [OF pn(2)]])
    fix q assume q: "p \<le> q" "q < p + length ?W"
    then have "q < st_end s" using p by (simp add: ex_def)
    then have "q \<notin> links s" "q < S" using lk S by auto
    then show "?c4 ! q = ?c1 ! q" using low c2(3) by simp
  qed (simp only: l4 l1)
  moreover have "linked ?c4 s S ex"
    unfolding linked_def using l4 low c2(3) c1 p by auto
  moreover have "code_at c2 S (pf_jit_slowpath @ u64_words a @ u64_words b)"
  proof (rule code_at_cong [OF tmpl])
    fix q assume "S \<le> q"
    then have "q \<notin> links s" "ex \<le> q" using lk S p by auto
    then show "c2 ! q = st_code s ! q" using c2(3) c1 by simp
  qed (rule c2(2))
  then have "code_at ?c4 S (slow_words S ex x1 a b)"
    unfolding slow_words_written [symmetric]
    by (intro code_at_window) (use length_slow_template [of a b] li in simp_all)
  moreover have "\<forall>q. (q < p \<or> ex \<le> q) \<and> (q < st_end s \<or> S + 16 \<le> q) \<longrightarrow> ?c4 ! q = st_code s ! q"
  proof (intro allI impI)
    fix q assume q: "(q < p \<or> ex \<le> q) \<and> (q < st_end s \<or> S + 16 \<le> q)"
    then have "q \<notin> links s" "q < S \<or> S + 16 \<le> q" using lk S by auto
    then show "?c4 ! q = st_code s ! q" using q low c2(3) c1 by simp
  qed
  ultimately show ?thesis using main c2(1) 3 4 l4 by (intro exI [of _ ?c4]) simp
qed

text \<open>What \<open>emit\<close> made of the patch at one state of the generator.\<close>

definition emitted :: "u64 \<Rightarrow> nat \<Rightarrow> nat \<Rightarrow> (cpu \<Rightarrow> a64_call list) \<Rightarrow> jit \<Rightarrow> jit \<Rightarrow> bool" where
  "emitted and_nop m n cs j j' =
     (insn_stream j' = insn_stream j + m \<and> insn_stream_end j \<le> insn_stream_end j' + n \<and>
      insn_stream j' \<le> insn_stream_end j' \<and> insn_stream_end j' \<le> insn_stream_end j \<and> jit_p0 j' AND and_nop = jit_p0 j' \<and>
      same_outside (insn_stream j) (insn_stream_end j) (jcode j) (jcode j') \<and>
      (\<forall>env code. length code = length (jcode j) \<longrightarrow>
         (\<forall>q. insn_stream j \<le> q \<and> q < insn_stream j' \<or> insn_stream_end j' \<le> q \<and> q < insn_stream_end j \<longrightarrow>
            code ! q = jcode j' ! q) \<longrightarrow>
         passes env code and_nop (insn_stream j) (jit_p0 j) (insn_stream j') (jit_p0 j') cs))"

lemma maskmatch_emit_emitted:
  assumes hi: "find_hi_entropy and_nop (take (min (length prs) 8) prs) 0 0 None = Some h"
    and nop: "pf_and_nop access = Inr and_nop" and masks: "\<forall>pr \<in> set prs. snd pr = 0 \<longrightarrow> fst pr = 0"
    and room: "insn_stream j + main_size and_nop (jit_p0 j) prs h + back_size and_nop prs h \<le> insn_stream_end j"
    and buf: "insn_stream_end j \<le> length (jcode j)" "length (jcode j) < 2 ^ 18"
    and p0: "jit_p0 j AND and_nop = jit_p0 j"
  shows "\<exists>j'. xnu_pf_maskmatch_emit patch_ptr match_fn patch prs access j =
      Inr (patch\<lparr>pfjit_entry := Some (insn_stream j), pfjit_exit := insn_stream j'\<rparr>, j') \<and>
    emitted and_nop (main_size and_nop (jit_p0 j) prs h) (back_size and_nop prs h)
      (patch_calls and_nop prs patch_ptr match_fn) j j'"
proof -
  let ?e = "insn_stream_end j" and ?p = "insn_stream j" and ?x0 = "jit_p0 j" and ?cap = "min (length prs) 8"
  let ?S = "slow_base ?e" and ?c = "slow_start (jcode j) ?e patch_ptr match_fn"
  let ?s0 = "\<lparr>st_code = ?c, st_end = ?S, prev_stub = ?S, linkage = replicate 8 None, cap = ?cap\<rparr>"
  let ?n = "stubs_size and_nop (prs ! h) h (take ?cap prs) 0"
  let ?M = "main_words and_nop ?x0 (prs ! h) h"
  let ?ex = "?p + length ?M + 1" and ?x1 = "main_p0 and_nop ?x0 (prs ! h)"
  have h: "h < ?cap" using find_hi_entropy_bound [OF hi] by simp
  have r: "?ex + ?n + 17 \<le> ?e" using room by (simp add: main_size_def back_size_def)
  then have e17: "17 \<le> ?e" by linarith
  note sf = slow_start_frame [OF e17 buf(1)]
  have nS: "?ex + ?n \<le> ?S" using sf(4) r by linarith
  have ex18: "?ex < 2 ^ 18" "?S < 2 ^ 18" using r buf sf(5) by linarith+
  have "\<exists>s'. emit_stubs and_nop prs (Some h) (take ?cap prs) 0 ?s0 = Inr s' \<and> laid ?n ?s0 s' \<and>
    (\<forall>code env win good. (\<forall>k < 8. win k AND and_nop = win k) \<longrightarrow> linked code s' ?S ?ex \<longrightarrow>
       stub_chain env win and_nop (prs ! h) code (st_end ?s0) ?S ?ex good \<longrightarrow>
       stub_chain env win and_nop (prs ! h) code (st_end s') ?S ?ex
         (good \<and> (\<forall>k < length (take ?cap prs). 0 + k \<noteq> h \<longrightarrow> pair_ok and_nop (take ?cap prs ! k) (win (0 + k)))))"
  proof (rule emit_stubs_chain)
    show "\<forall>pr \<in> set (take ?cap prs). snd pr = 0 \<longrightarrow> fst pr = 0" using masks by (meson in_set_takeD)
    show "stubs_size and_nop (prs ! h) h (take ?cap prs) 0 \<le> st_end ?s0" using nS by simp
    show "?S \<le> length (st_code ?s0)" "length (st_code ?s0) < 2 ^ 18" using sf(2,5) buf by simp_all
  qed (use ex18 in \<open>simp_all add: links_def\<close>)
  then obtain s' where s': "emit_stubs and_nop prs (Some h) (take ?cap prs) 0 ?s0 = Inr s'" "laid ?n ?s0 s'"
    and chain: "\<And>code env win good. \<forall>k < 8. win k AND and_nop = win k \<Longrightarrow> linked code s' ?S ?ex \<Longrightarrow>
       stub_chain env win and_nop (prs ! h) code ?S ?S ?ex good \<Longrightarrow>
       stub_chain env win and_nop (prs ! h) code (st_end s') ?S ?ex
         (good \<and> (\<forall>k < length (take ?cap prs). k \<noteq> h \<longrightarrow> pair_ok and_nop (take ?cap prs ! k) (win k)))"
    by auto
  have st: "st_end s' + ?n = ?S" "cap s' = ?cap" "prev_stub s' = st_end s'" "length (linkage s') = 8"
      "same_outside (st_end s') ?S ?c (st_code s')" "links s' \<subseteq> {st_end s'..<?S}"
    using s'(2) by (auto simp: laid_def links_def)
  have len: "length (st_code s') = length (jcode j)" using st(5) sf(2) by (simp add: same_outside_def)
  have tmpl: "code_at (st_code s') ?S (pf_jit_slowpath @ u64_words patch_ptr @ u64_words match_fn)"
    by (rule same_outside_code_at [OF st(5) sf(3)]) simp
  have ls: "{q. Some q \<in> set (take (cap s') (linkage s'))} = links s'"
    by (rule links_take [OF st(4)]) (use emit_stubs_linkage [OF s'(1)] st(2) in auto)
  obtain code where code: "bindE (emit_main_test and_nop prs (Some h) (prev_stub s') ?x0 (st_code s') ?p) (\<lambda>(x0, code, p).
      bindE (link_bailouts code (take (cap s') (linkage s')) p) (\<lambda>code.
      bindE (xnu_pf_imm64_load_emit code (?S + 6) 0 x0) (\<lambda>(code, q).
      bindE (xnu_pf_b_emit code (?S + 10) p) (\<lambda>(code, q). Inr (x0, code, p))))) = Inr (?x1, code, ?ex)"
    "code_at code ?p (?M @ [insn_b_eq (?p + length ?M) (prev_stub s')])" "linked code s' ?S ?ex"
    "code_at code ?S (slow_words ?S ?ex ?x1 patch_ptr match_fn)" "length code = length (st_code s')"
    "\<And>q. q < ?p \<or> ?ex \<le> q \<Longrightarrow> q < st_end s' \<or> ?S + 16 \<le> q \<Longrightarrow> code ! q = st_code s' ! q"
    using finish_emit [OF tmpl st(6) ls, of ?p and_nop ?x0 prs h "prev_stub s'"] nS st(1) sf(5) buf len by auto
  let ?j = "\<lparr>jcode = code, insn_stream = ?ex, insn_stream_end = st_end s', jit_p0 = ?x1\<rparr>"
  have cap0: "cap s' \<noteq> 0" using st(2) h by auto
  have sz: "length pf_jit_slowpath + 4 + 1 = 17" by (simp add: pf_jit_slowpath_def)
  have emit: "xnu_pf_maskmatch_emit patch_ptr match_fn patch prs access j =
      Inr (patch\<lparr>pfjit_entry := Some ?p, pfjit_exit := insn_stream ?j\<rparr>, ?j)"
    unfolding xnu_pf_maskmatch_emit_def Let_def sz slow_start_emit [OF e17 buf(1)] nop bindE_simps hi s'(1)
    using e17 cap0 code(1) by simp
  have same: "same_outside ?p ?e (jcode j) code"
    unfolding same_outside_def
  proof (intro conjI allI impI)
    show "length code = length (jcode j)" using code(5) len by simp
    fix q assume q: "q < ?p \<or> ?e \<le> q"
    then have "code ! q = st_code s' ! q" using code(6) nS st(1) sf(5) by auto
    also have "\<dots> = ?c ! q" using st(5) q nS st(1) sf(4,5) unfolding same_outside_def by auto
    also have "\<dots> = jcode j ! q" using sf(1) q r unfolding same_outside_def by auto
    finally show "code ! q = jcode j ! q" .
  qed
  have pass: "passes env code' and_nop ?p ?x0 ?ex ?x1 (patch_calls and_nop prs patch_ptr match_fn)"
    if l: "length code' = length (jcode j)"
      and eq: "\<forall>q. ?p \<le> q \<and> q < ?ex \<or> st_end s' \<le> q \<and> q < ?e \<longrightarrow> code' ! q = code ! q" for env code'
  proof (rule patch_block_passes)
    have lc: "length code' = length code" using l code(5) len by simp
    show "code_at code' ?p (?M @ [insn_b_eq (?p + length ?M) (prev_stub s')])"
      by (rule code_at_cong [OF code(2) lc]) (use eq in auto)
    show "code_at code' ?S (slow_words ?S ?ex ?x1 patch_ptr match_fn)"
      by (rule code_at_cong [OF code(4) lc]) (use eq st(1) sf(5) in \<open>auto simp: length_slow_words\<close>)
    have "linked code' s' ?S ?ex" using code(3) eq lc sf(5) by (auto simp: linked_def)
    then show "stub_chain env win and_nop (prs ! h) code' (prev_stub s') ?S ?ex
        (\<forall>k < length (take ?cap prs). k \<noteq> h \<longrightarrow> pair_ok and_nop (take ?cap prs ! k) (win k))"
      if "\<forall>k < 8. win k AND and_nop = win k" for win
      using chain [OF that _ stub_chain_refl] st(3) by simp
    show "prev_stub s' < 2 ^ 18" using st(1,3) ex18 by linarith
  qed (use h p0 l buf in simp_all)
  have "?x1 AND and_nop = ?x1" using p0 by (simp add: main_p0_def and.assoc)
  then have "emitted and_nop (main_size and_nop ?x0 prs h) (back_size and_nop prs h)
      (patch_calls and_nop prs patch_ptr match_fn) j ?j"
    unfolding emitted_def using same pass nS st(1) sf(4,5) by (simp add: main_size_def back_size_def)
  then show ?thesis using emit by blast
qed

end
