(* ===== verification/Spec2Isabelle.thy ===== *)
theory Spec2Isabelle
  imports VmClaims Locks KernelClaims DTreeClaims FDTreeClaims Stdio ShellClaims VmachoClaims PfjitClaims PscanClaims ModloadClaims UsbClaims
    FbClaims FwCfg Stage3 GicClaims CallStack Pl011 AesClaims JitEmit
begin

text \<open>
  A verification library for pongoOS, the pre-boot environment of checkra1n, in its QEMU variant.

  \<^bold>\<open>The program.\<close> pongoOS is a small kernel. It sets up translation tables and a page allocator, runs
  cooperative and preemptible tasks from one run queue, takes interrupts on their behalf, offers a
  shell on the serial line and over USB, and patches the XNU kernel that boots after it. Its parts
  depend on each other in the order of this list, which is the order of the theories:

  \<^item> interrupt masking: \<open>Lowlevel\<close>, from \<open>kernel/lowlevel.c\<close>;
  \<^item> physical pages: \<open>Phys\<close> (model), \<open>PhysInv\<close>, \<open>PhysOps\<close>, \<open>PhysRange\<close>, \<open>PhysAlloc\<close>, \<open>PhysContig\<close>,
    \<open>PhysFrame\<close>, \<open>PhysProps\<close>, from \<open>kernel/mm.c\<close>;
  \<^item> virtual memory: \<open>Vm\<close> (model), \<open>VmFrame\<close>, \<open>VmMap\<close>, \<open>VmWalk\<close>, \<open>VmMark\<close> (allocation with its
    marks), \<open>VmTable\<close> (creating a table), \<open>VmSpace\<close>, \<open>VmProps\<close>, \<open>VmClaims\<close>, from \<open>kernel/mm.c\<close>; \<open>FirstFit\<close> is the search both allocators share;
  \<^item> locks: \<open>Locks\<close>, from \<open>kernel/locks.c\<close>;
  \<^item> files: \<open>Vfs\<close>, from \<open>kernel/vfs.c\<close>;
  \<^item> tasks, the scheduler, exceptions and system calls: \<open>Task\<close> and \<open>Sched\<close> (models), \<open>Ring\<close>,
    \<open>SchedQueue\<close>, \<open>QueueOps\<close>, \<open>RoundRobin\<close>, \<open>SchedClaims\<close>, \<open>KernelClaims\<close>, from \<open>kernel/task.c\<close>,
    \<open>kernel/entry.c\<close>, \<open>kernel/int.S\<close>, \<open>kernel/syscall.c\<close>, \<open>kernel/support/sbrk.c\<close>;
  \<^item> device trees: \<open>DTree\<close>, \<open>DTreeProps\<close>, \<open>DTreeClaims\<close>, from \<open>kernel/dtree.c\<close> and
    \<open>kernel/dtree_getprop.c\<close>, and \<open>FDTree\<close>, \<open>FDTreeClaims\<close>, from \<open>kernel/fdtree.c\<close>;
  \<^item> standard input and output: \<open>Stdio\<close>, from \<open>kernel/support/io.c\<close>;
  \<^item> the shell: \<open>Shell\<close>, \<open>ShellClaims\<close>, from \<open>shell/command.c\<close> and \<open>shell/aux.c\<close>;
  \<^item> the image builder: \<open>Vmacho\<close>, \<open>VmachoClaims\<close>, from \<open>src/tools/vmacho.c\<close>;
  \<^item> the patch finder: \<open>Xnu\<close> (the kernel image), \<open>Patchfinder\<close> (patch sets and the scan), \<open>Pfjit\<close> (the
    encoders), \<open>PfjitClaims\<close>, \<open>PscanClaims\<close>, from \<open>drivers/xnu/xnu.c\<close>; \<open>Jit\<close> is the code generator,
    with the templates of \<open>drivers/xnu/xnu.S\<close>, \<open>A64\<close> the instructions it uses, \<open>JitProps\<close> what it
    writes, \<open>A64Props\<close>, \<open>JitRun\<close>, \<open>JitStubs\<close> and \<open>JitPatch\<close> what that does when it runs, \<open>JitEmit\<close> the
    two together;
  \<^item> the module loader: \<open>Modload\<close>, \<open>ModloadClaims\<close>, from \<open>dynamic/modload.c\<close> and
    \<open>dynamic/modload_macho.c\<close>;
  \<^item> the USB device: \<open>Usb\<close> (registers, endpoints, transfers), \<open>UsbDev\<close> (reset, descriptors, the
    transfer interface, the KTRW channel) and \<open>UsbReq\<close> (requests, interrupts, bring-up) are the model,
    from \<open>drivers/usb/synopsys_otg.c\<close> and \<open>shell/usbloader.c\<close>; \<open>UsbInv\<close> the invariant, \<open>UsbSend\<close>,
    \<open>UsbRecv\<close> and \<open>UsbBulk\<close> the transfers over the three kinds of endpoint, \<open>UsbKtrw\<close> the byte channels,
    \<open>UsbClaims\<close> the properties;
  \<^item> the frame buffer console: \<open>Fb\<close> (model), \<open>FbProps\<close> (drawing loops and layout), \<open>FbClaims\<close>, from
    \<open>drivers/framebuffer/fb.c\<close>, with the font of \<open>src/include/font8x8_basic.h\<close>;
  \<^item> the serial console: \<open>Pl011\<close>, from \<open>drivers/pl011/pl011.c\<close>;
  \<^item> the interrupt controller: \<open>Gic\<close>, \<open>GicClaims\<close>, from \<open>drivers/gic/gic.c\<close>;
  \<^item> QEMU's configuration device: \<open>FwCfg\<close>, from \<open>kernel/fw_cfg.c\<close>;
  \<^item> the AES engines: \<open>Aes\<close>, \<open>AesClaims\<close>, from \<open>drivers/aes/\<close>;
  \<^item> patching the boot loader: \<open>Stage3\<close>, from \<open>boot/stage3.c\<close>;
  \<^item> the call stack \<open>panic\<close> and \<open>print_state\<close> print: \<open>CallStack\<close>, from \<open>kernel/panic.c\<close> and
    \<open>kernel/lowlevel.c\<close>.

  Paths without a leading \<open>src/tools\<close> are below \<open>src/src\<close>. \<open>Prelude\<close> holds the integer types, the
  failure monad and the counting loop, \<open>Bytes\<close> the memory of the components that parse a blob,
  \<open>ByteSource\<close> the interface of the streams that are read in pieces.

  \<^bold>\<open>Conventions.\<close> A definition has the name of the C function it models. Machine integers keep their
  width, so arithmetic wraps where it does in C. A function that may not return has a value of type
  \<open>error + 'a\<close>: \<open>Panic\<close> for a call of \<open>panic\<close>, \<open>BadAccess\<close> for an access outside the object or through
  a null pointer, \<open>OutOfFuel\<close> for a loop that does not end within the fuel given. State is a record
  that is passed along; the records of the kernel extend each other (interrupts, pages, virtual
  memory, tasks), so an operation of a lower component runs unchanged on the state of a higher one,
  and the frame lemmas say that it leaves the rest alone. The registers of the CPU appear where the
  assembly of a context switch saves and loads them; between two switches they are arbitrary. Structures the code links by pointers are
  maps from handles (addresses) to records; pages and translation tables live in a memory of 8-byte
  cells. Function pointers are parameters, or numbers that a parameter interprets. Hardware is
  modelled by what is written to it: TLB maintenance is a log of operands, interrupt masking a flag.
  Devices that a driver reads are the exception: what a register of the USB controller, the interrupt
  controller or an AES engine holds is an arbitrary function of all accesses so far, and the theorems
  say which accesses the driver makes, or what the device does to memory and to the registers it
  reports with. The configuration device, the serial port's receive queue and the stack frames in
  memory are parameters of the same kind.

  \<^bold>\<open>What the theorems show.\<close>
  \<^item> Pages: the free list and the reference counts agree (established by \<open>alloc_init\<close>, kept by every
    operation); allocation returns the head of the list or the first long enough run; release
    undoes it; what is freed too often panics.
  \<^item> Virtual memory: with 16K pages, a page mapped in the upper half is found by the walk, whether its
    second-level table was there or had to be created; ranges are handed out first fit in the window
    that is scanned, their entries are marked for allocation at the first access, and they come back;
    identifiers are unique.
  \<^item> Locks: mutual exclusion in every reachable state of any number of tasks, by rule induction, and
    acquisition once the lock stays free.
  \<^item> Scheduling: the linked run queue implements a list; a round runs every task once; events wake all
    their waiters; a context switch and the switch back restore registers and address space; exits
    panic exactly where they must, and otherwise release or restart the task.
  \<^item> Device trees: the check terminates; on what it accepts property lookups return, and so does the
    search for a node if a name's worth of memory follows the blob; lookups agree with an abstract tree
    laid out in memory.
  \<^item> Input and output: the log keeps the newest bytes, typed input is read back in order.
  \<^item> Shell: the command table implements a finite map; a line runs the command it names; the
    hexadecimal conversions are inverse.
  \<^item> Image builder: the image is the memory the segments describe.
  \<^item> Patch finder: the scan finds exactly the places that match, the sliding window is faithful,
    required patches are enforced, and the emitted constant loads load the constant; the code that is
    generated for a patch of masks and values calls the match function exactly when the (first eight)
    pairs agree with the window (\<open>maskmatch_emit_emitted\<close>).
  \<^item> Module loader: linking appends to the chain of symbols and changes exactly the relocated words.
  \<^item> USB: the configuration of the endpoints is an invariant of every run, whatever host and
    controller do; transfers in both directions deliver their data in any number of programmings;
    the KTRW channel and the standard input are queues; what a host can break by interrupting a
    transfer, by an empty or a large upload, or by a reset.
  \<^item> Frame buffer: a character draws its glyph in one cell on the screen and nothing else, text of any
    length stays inside the video memory and below the banner, inverting twice changes nothing, and
    initialisation establishes the layout when the buffer starts on a page.
  \<^item> Devices: a file of the configuration device is found by its name; the interrupt controller is
    configured while it is off, and enabling an interrupt touches only its own fields; the AES engine
    reads back the command it is sent; an interrupt of the serial port delivers the received characters.
  \<^item> Boot loader: the patched image branches to the hook wherever it is loaded.
  \<^item> A few theorems record behaviour the authors cannot have meant (a wired page that is unwired, a
    fixed address that is ignored, reads past an object, a loop that never ends, a key that overlaps
    the initial vector, an interrupt handler that cannot return to the task it interrupted).

  \<^bold>\<open>Interfaces.\<close> \<open>bitmap\<close> (\<open>VmProps\<close>) is what the page bitmap of an address space and the bitmap of
  address space identifiers promise their clients, \<open>rotating_queue\<close> (\<open>RoundRobin\<close>) what a scheduler
  may rely on in the run queue, \<open>visitor\<close> (\<open>DTreeProps\<close>) what the walk of a device tree relies on in
  its callbacks, \<open>byte_source\<close> (\<open>ByteSource\<close>) what the standard input and the KTRW channel promise a
  reader. Each is interpreted on the definitions of the code that provides it.

  \<^bold>\<open>Bounds and fuel.\<close> \<open>map_range\<close> is given \<open>map_fuel\<close>, 4096, for its depth and for its loops: more than
  the 128 blocks of the largest mapping the kernel makes and the three table levels of a page; the
  theorem on mapping a page shows that it returns. \<open>dt_check\<close> needs one unit per nesting level, and
  one per eight bytes of the blob, the least a node takes, is proved enough. The parser of flattened
  trees gets the length of the encoded tree, the passes of \<open>vmacho\<close> one unit per load command; their
  theorems state that this is enough, and where no amount is, that is the theorem. \<open>lock_take\<close> and
  a blocking write get one unit per round in which the other tasks keep the lock or the buffer.

  \<^bold>\<open>Not modelled.\<close> The start-up code and the banners of \<open>kernel/entry.c\<close> and \<open>kernel/main_task.c\<close>
  beyond the scheduler loop, which are calls and prints; the drivers of the timer, the GPIO pins, the
  display link and the memory zones, which are a few writes each, and of \<open>drivers/uart\<close>, which is not
  built for QEMU; in the frame buffer the two functions in floating point; of the USB driver the writes to the PHY, the start of its task, and
  the preemption of a request handler while it runs with interrupts enabled; the commands of
  \<open>shell/main.c\<close>; in the patch finder the run
  of the code generated for a whole patch set (it is run by a parameter), the
  lookup of a kernel extension by its bundle identifier, and freeing; the vendored libraries
  (\<open>libfdt\<close>, \<open>libDER\<close>, \<open>img4\<close>, LZMA) and the Linux loader built on them; the boot stages in assembly;
  the headers of Apple and newlib. Caches appear only as the ranges the USB
  driver cleans and invalidates; memory barriers and timing do not appear.
\<close>

end
